(* ===== verification/Prelude.thy ===== *)
theory Prelude
  imports Main "HOL-Library.Word" "HOL-Library.Monad_Syntax"
begin

text \<open>
  Shared ground of the development: the names of the machine integers, the pieces of the
  Rust standard library that the components use (\<open>Vec::remove\<close>, \<open>Vec::insert\<close>,
  \<open>Iterator::position\<close> and \<open>rposition\<close>, \<open>iter_mut().find\<close>, saturating arithmetic,
  decimal printing and parsing), the automation collections, and the generic facts on lists and
  options that the component proofs are built from.

  Conventions. A Rust \<open>usize\<close> is a \<open>nat\<close>: every such value of the modelled code is a
  length, an index or a screen dimension plus a 16-bit parameter, which stays far below
  \<open>2 ^ 64\<close>. Counters that do reach their width are words. A panic is the value
  \<open>None\<close> of an option, so that the absence of panics is a theorem and not a convention.
\<close>

unbundle bit_operations_syntax

section \<open>Machine integers, characters and bytes\<close>

type_synonym u8 = "8 word"
type_synonym u16 = "16 word"
type_synonym u32 = "32 word"
type_synonym u64 = "64 word"

text \<open>A Rust \<open>char\<close> is a Unicode scalar value, kept as its code point.\<close>

type_synonym uchar = nat

type_synonym bytes = "u8 list"

text \<open>ASCII literals as code points and as bytes.\<close>

abbreviation cp :: "char \<Rightarrow> uchar" where
  "cp c \<equiv> of_char c"

abbreviation byte :: "char \<Rightarrow> u8" where
  "byte c \<equiv> of_char c"

definition bytes_of :: "string \<Rightarrow> bytes" where
  "bytes_of s = map of_char s"

lemma length_bytes_of [simp]: "length (bytes_of s) = length s"
  by (simp add: bytes_of_def)

text \<open>\<open>u64::saturating_add\<close>: the sum, or the largest value when the sum does not fit.\<close>

definition sat_add64 :: "u64 \<Rightarrow> u64 \<Rightarrow> u64" where
  "sat_add64 a b = (if unat a + unat b < 2 ^ 64 then a + b else - 1)"

section \<open>Automation collections\<close>

named_theorems wf_intros \<open>every operation keeps the component's well-formedness\<close>
named_theorems step_intros \<open>every operation is a tracked step\<close>
named_theorems frame_simps \<open>fields that an operation does not write\<close>

section \<open>Vectors\<close>

text \<open>\<open>Vec::remove\<close> and \<open>Vec::insert\<close> panic on an index out of range.\<close>

definition vec_remove :: "nat \<Rightarrow> 'a list \<Rightarrow> ('a \<times> 'a list) option" where
  "vec_remove i xs = (if i < length xs then Some (xs ! i, take i xs @ drop (Suc i) xs) else None)"

definition vec_insert :: "nat \<Rightarrow> 'a \<Rightarrow> 'a list \<Rightarrow> 'a list option" where
  "vec_insert i x xs = (if i \<le> length xs then Some (take i xs @ x # drop i xs) else None)"

text \<open>\<open>Vec::resize\<close>: truncate or pad with copies of the given value.\<close>

definition vec_resize :: "nat \<Rightarrow> 'a \<Rightarrow> 'a list \<Rightarrow> 'a list" where
  "vec_resize n x xs = take n xs @ replicate (n - length xs) x"

text \<open>\<open>slice::get\<close>.\<close>

definition vec_get :: "nat \<Rightarrow> 'a list \<Rightarrow> 'a option" where
  "vec_get i xs = (if i < length xs then Some (xs ! i) else None)"

text \<open>\<open>get_mut(i)\<close> followed by an in-place change: nothing happens out of range.\<close>

definition vec_modify :: "nat \<Rightarrow> ('a \<Rightarrow> 'a) \<Rightarrow> 'a list \<Rightarrow> 'a list" where
  "vec_modify i f xs = (if i < length xs then xs[i := f (xs ! i)] else xs)"

text \<open>\<open>Iterator::position\<close> and \<open>Iterator::rposition\<close>.\<close>

fun position :: "('a \<Rightarrow> bool) \<Rightarrow> 'a list \<Rightarrow> nat option" where
  "position P [] = None"
| "position P (x # xs) = (if P x then Some 0 else map_option Suc (position P xs))"

definition rposition :: "('a \<Rightarrow> bool) \<Rightarrow> 'a list \<Rightarrow> nat option" where
  "rposition P xs = map_option (\<lambda>k. length xs - Suc k) (position P (rev xs))"

text \<open>\<open>iter_mut().find(p)\<close> followed by a change of the element found.\<close>

fun update_first :: "('a \<Rightarrow> bool) \<Rightarrow> ('a \<Rightarrow> 'a) \<Rightarrow> 'a list \<Rightarrow> 'a list" where
  "update_first P f [] = []"
| "update_first P f (x # xs) = (if P x then f x # xs else x # update_first P f xs)"

text \<open>\<open>for _ in 0..n\<close> around a step that may panic.\<close>

fun iter_opt :: "nat \<Rightarrow> ('a \<Rightarrow> 'a option) \<Rightarrow> 'a \<Rightarrow> 'a option" where
  "iter_opt 0 f s = Some s"
| "iter_opt (Suc n) f s = Option.bind (f s) (iter_opt n f)"

subsection \<open>Facts on vectors\<close>

lemma vec_remove_Some:
  "i < length xs \<Longrightarrow> vec_remove i xs = Some (xs ! i, take i xs @ drop (Suc i) xs)"
  by (simp add: vec_remove_def)

lemma vec_insert_Some:
  "i \<le> length xs \<Longrightarrow> vec_insert i x xs = Some (take i xs @ x # drop i xs)"
  by (simp add: vec_insert_def)

lemma length_vec_resize [simp]: "length (vec_resize n x xs) = n"
  by (simp add: vec_resize_def)

lemma nth_vec_resize:
  "i < n \<Longrightarrow> vec_resize n x xs ! i = (if i < length xs then xs ! i else x)"
  by (auto simp: vec_resize_def nth_append)

lemma vec_resize_same [simp]: "vec_resize (length xs) x xs = xs"
  by (simp add: vec_resize_def)

lemma length_vec_modify [simp]: "length (vec_modify i f xs) = length xs"
  by (simp add: vec_modify_def)

lemma nth_vec_modify:
  "j < length xs \<Longrightarrow> vec_modify i f xs ! j = (if j = i then f (xs ! i) else xs ! j)"
  by (auto simp: vec_modify_def nth_list_update)

lemma set_vec_modify:
  "(\<And>x. x \<in> set xs \<Longrightarrow> P x \<Longrightarrow> P (f x)) \<Longrightarrow> \<forall>x\<in>set xs. P x \<Longrightarrow> \<forall>x\<in>set (vec_modify i f xs). P x"
  by (auto simp: vec_modify_def dest!: set_update_subset_insert [THEN subsetD])

lemma vec_get_Some_iff: "vec_get i xs = Some x \<longleftrightarrow> i < length xs \<and> xs ! i = x"
  by (auto simp: vec_get_def)

lemma vec_get_modify:
  "vec_get j (vec_modify i f xs) = (if j = i then map_option f (vec_get j xs) else vec_get j xs)"
  by (auto simp: vec_get_def vec_modify_def nth_list_update)

lemma position_Some:
  "position P xs = Some i \<longleftrightarrow> i < length xs \<and> P (xs ! i) \<and> (\<forall>j<i. \<not> P (xs ! j))"
proof (induction xs arbitrary: i)
  case Nil
  then show ?case by simp
next
  case (Cons x xs)
  show ?case
  proof (cases i)
    case 0
    then show ?thesis by auto
  next
    case (Suc k)
    have "(\<forall>j<Suc k. \<not> P ((x # xs) ! j)) \<longleftrightarrow> \<not> P x \<and> (\<forall>j<k. \<not> P (xs ! j))"
      by (auto simp: less_Suc_eq_0_disj)
    with Suc Cons show ?thesis by auto
  qed
qed

lemma position_None: "position P xs = None \<longleftrightarrow> (\<forall>x\<in>set xs. \<not> P x)"
  by (induction xs) auto

lemma position_append:
  "position P (xs @ ys) =
    (case position P xs of Some i \<Rightarrow> Some i | None \<Rightarrow> map_option (\<lambda>i. i + length xs) (position P ys))"
  by (induction xs) (auto simp: option.map_comp o_def option.map_ident split: option.splits)

lemma find_append: "find P (xs @ ys) = (case find P xs of Some x \<Rightarrow> Some x | None \<Rightarrow> find P ys)"
  by (induction xs) auto

lemma find_None_all: "(\<And>x. x \<in> set xs \<Longrightarrow> \<not> P x) \<Longrightarrow> find P xs = None"
  by (auto simp: find_None_iff)

lemma rposition_None: "rposition P xs = None \<longleftrightarrow> (\<forall>x\<in>set xs. \<not> P x)"
  by (simp add: rposition_def position_None)

lemma rposition_Some:
  "rposition P xs = Some i \<longleftrightarrow> i < length xs \<and> P (xs ! i) \<and> (\<forall>j. i < j \<and> j < length xs \<longrightarrow> \<not> P (xs ! j))"
proof
  assume "rposition P xs = Some i"
  then obtain k where k: "position P (rev xs) = Some k" and i: "i = length xs - Suc k"
    by (auto simp: rposition_def)
  from k have kl: "k < length xs" and Pk: "P (rev xs ! k)" and before: "\<forall>j<k. \<not> P (rev xs ! j)"
    by (auto simp: position_Some)
  have "\<not> P (xs ! j)" if "i < j" "j < length xs" for j
  proof -
    have "length xs - Suc j < k" using that i kl by linarith
    with before have "\<not> P (rev xs ! (length xs - Suc j))" by blast
    then show ?thesis using that by (simp add: rev_nth)
  qed
  moreover have "P (xs ! i)" using Pk kl i by (simp add: rev_nth)
  ultimately show "i < length xs \<and> P (xs ! i) \<and> (\<forall>j. i < j \<and> j < length xs \<longrightarrow> \<not> P (xs ! j))"
    using kl i by auto
next
  assume *: "i < length xs \<and> P (xs ! i) \<and> (\<forall>j. i < j \<and> j < length xs \<longrightarrow> \<not> P (xs ! j))"
  have "\<not> P (rev xs ! j)" if "j < length xs - Suc i" for j
  proof -
    have "i < length xs - Suc j" "length xs - Suc j < length xs" using that by auto
    with * have "\<not> P (xs ! (length xs - Suc j))" by blast
    then show ?thesis using that by (simp add: rev_nth)
  qed
  moreover have "P (rev xs ! (length xs - Suc i))"
  proof -
    have "length xs - Suc i < length xs" "length xs - Suc (length xs - Suc i) = i" using * by auto
    with * show ?thesis by (simp add: rev_nth)
  qed
  ultimately have "position P (rev xs) = Some (length xs - Suc i)"
    using * by (auto simp: position_Some)
  then show "rposition P xs = Some i" using * by (simp add: rposition_def)
qed

lemma length_update_first [simp]: "length (update_first P f xs) = length xs"
  by (induction xs) auto

lemma update_first_None: "\<forall>x\<in>set xs. \<not> P x \<Longrightarrow> update_first P f xs = xs"
  by (induction xs) auto

lemma map_update_first: "(\<And>x. g (f x) = g x) \<Longrightarrow> map g (update_first P f xs) = map g xs"
  by (induction xs) auto

lemma set_update_first: "y \<in> set (update_first P f xs) \<Longrightarrow> y \<in> set xs \<or> (\<exists>x\<in>set xs. P x \<and> y = f x)"
  by (induction xs) (auto split: if_splits)

lemma update_first_hit:
  "x \<in> set xs \<Longrightarrow> P x \<Longrightarrow> \<exists>y\<in>set xs. P y \<and> f y \<in> set (update_first P f xs)"
  by (induction xs) auto

subsection \<open>Loops that may panic\<close>

lemma iter_opt_invariant:
  assumes "\<And>s. I s \<Longrightarrow> \<exists>t. f s = Some t \<and> I t"
  shows "I s \<Longrightarrow> \<exists>t. iter_opt n f s = Some t \<and> I t"
proof (induction n arbitrary: s)
  case 0
  then show ?case by simp
next
  case (Suc n)
  then obtain t where "f s = Some t" "I t" using assms by blast
  with Suc.IH [of t] show ?case by simp
qed

lemma iter_opt_total: "iter_opt n (\<lambda>s. Some (f s)) s = Some ((f ^^ n) s)"
proof (induction n arbitrary: s)
  case (Suc n)
  then show ?case by (simp add: funpow_swap1)
qed simp

lemma iter_opt_append: "iter_opt (m + n) f s = Option.bind (iter_opt m f s) (iter_opt n f)"
  by (induction m arbitrary: s) (auto split: Option.bind_splits)

section \<open>A bounded log\<close>

text \<open>
  A log that drops its oldest entry to make room for a new one: the scrollback, and the histories
  of other components.
\<close>

locale bounded_log =
  fixes push :: "'a \<Rightarrow> 's \<Rightarrow> 's" and items :: "'s \<Rightarrow> 'a list" and cap :: nat
  assumes cap_pos: "0 < cap"
    and push_items: "length (items s) \<le> cap \<Longrightarrow>
      items (push x s) = (if length (items s) = cap then tl (items s) else items s) @ [x]"
begin

lemma push_last: "length (items s) \<le> cap \<Longrightarrow>
    items (push x s) = drop (Suc (length (items s)) - cap) (items s @ [x])"
  using cap_pos by (cases "length (items s) = cap") (auto simp: push_items drop_Suc)

lemma push_bound: "length (items s) \<le> cap \<Longrightarrow> length (items (push x s)) \<le> cap"
  using cap_pos by (simp add: push_last)

lemma pushes_last:
  "length (items s) \<le> cap \<Longrightarrow>
    items (fold push xs s) = drop (length (items s) + length xs - cap) (items s @ xs)"
proof (induction xs arbitrary: s)
  case (Cons x xs)
  have "length (items (push x s)) \<le> cap" by (rule push_bound [OF Cons.prems])
  from Cons.IH [OF this] have "items (fold push (x # xs) s) =
      drop (length (items (push x s)) + length xs - cap) (items (push x s) @ xs)" by simp
  also have "\<dots> = drop (length (items s) + length (x # xs) - cap) (items s @ x # xs)"
    using Cons.prems cap_pos by (cases "length (items s) = cap") (auto simp: push_last)
  finally show ?case .
qed simp

lemma pushes_bound: "length (items s) \<le> cap \<Longrightarrow> length (items (fold push xs s)) \<le> cap"
  by (simp add: pushes_last)

end

end
