(* ===== verification/Term_Cell.thy ===== *)
theory Term_Cell
  imports Prelude
begin

text \<open>
  \<open>crates/athena-terminal/src/grid/colors.rs\<close> and \<open>cell.rs\<close>: the colours of the terminal,
  the attribute bits and the cell. A \<open>CellFlags\<close> value is the 16-bit word of its bits, so
  \<open>|=\<close> is \<open>OR\<close> and the bitflags difference \<open>-=\<close> is \<open>AND NOT\<close>.
\<close>

section \<open>Colours\<close>

datatype named_color =
    Black | Red | Green | Yellow | Blue | Magenta | Cyan | White
  | BrightBlack | BrightRed | BrightGreen | BrightYellow
  | BrightBlue | BrightMagenta | BrightCyan | BrightWhite
  | Foreground | Background

datatype color =
    DefaultColor
  | Named named_color
  | Indexed u8
  | Rgb u8 u8 u8

definition from_ansi :: "u8 \<Rightarrow> named_color" where
  "from_ansi idx =
    (if idx = 0 then Black else if idx = 1 then Red else if idx = 2 then Green
     else if idx = 3 then Yellow else if idx = 4 then Blue else if idx = 5 then Magenta
     else if idx = 6 then Cyan else if idx = 7 then White else if idx = 8 then BrightBlack
     else if idx = 9 then BrightRed else if idx = 10 then BrightGreen
     else if idx = 11 then BrightYellow else if idx = 12 then BrightBlue
     else if idx = 13 then BrightMagenta else if idx = 14 then BrightCyan
     else if idx = 15 then BrightWhite else White)"

fun as_rgb :: "named_color \<Rightarrow> u8 \<times> u8 \<times> u8" where
  "as_rgb Black = (0, 0, 0)"
| "as_rgb Red = (205, 49, 49)"
| "as_rgb Green = (13, 188, 121)"
| "as_rgb Yellow = (229, 229, 16)"
| "as_rgb Blue = (36, 114, 200)"
| "as_rgb Magenta = (188, 63, 188)"
| "as_rgb Cyan = (17, 168, 205)"
| "as_rgb White = (229, 229, 229)"
| "as_rgb BrightBlack = (102, 102, 102)"
| "as_rgb BrightRed = (241, 76, 76)"
| "as_rgb BrightGreen = (35, 209, 139)"
| "as_rgb BrightYellow = (245, 245, 67)"
| "as_rgb BrightBlue = (59, 142, 234)"
| "as_rgb BrightMagenta = (214, 112, 214)"
| "as_rgb BrightCyan = (41, 184, 219)"
| "as_rgb BrightWhite = (255, 255, 255)"
| "as_rgb Foreground = (229, 229, 229)"
| "as_rgb Background = (0, 0, 0)"

section \<open>Cell flags\<close>

type_synonym cell_flags = u16

definition INVERSE :: cell_flags where "INVERSE = 0x001"
definition BOLD :: cell_flags where "BOLD = 0x002"
definition ITALIC :: cell_flags where "ITALIC = 0x004"
definition UNDERLINE :: cell_flags where "UNDERLINE = 0x008"
definition WRAPLINE :: cell_flags where "WRAPLINE = 0x010"
definition WIDE_CHAR :: cell_flags where "WIDE_CHAR = 0x020"
definition DIM :: cell_flags where "DIM = 0x040"
definition STRIKEOUT :: cell_flags where "STRIKEOUT = 0x080"
definition BLINK :: cell_flags where "BLINK = 0x100"
definition INVISIBLE :: cell_flags where "INVISIBLE = 0x200"
definition DOUBLE_UNDERLINE :: cell_flags where "DOUBLE_UNDERLINE = 0x400"

lemmas flag_defs = INVERSE_def BOLD_def ITALIC_def UNDERLINE_def WRAPLINE_def WIDE_CHAR_def DIM_def
  STRIKEOUT_def BLINK_def INVISIBLE_def DOUBLE_UNDERLINE_def

definition flags_insert :: "cell_flags \<Rightarrow> cell_flags \<Rightarrow> cell_flags" where
  "flags_insert f x = f OR x"

definition flags_remove :: "cell_flags \<Rightarrow> cell_flags \<Rightarrow> cell_flags" where
  "flags_remove f x = f AND NOT x"

section \<open>Cells\<close>

record cell_extra =
  zero_width_chars :: "uchar list"
  hyperlink_id :: "u16 option"
  extra_flags :: u8

record cell =
  cell_c :: uchar
  cell_fg :: color
  cell_bg :: color
  cell_flags :: cell_flags
  cell_extra :: "cell_extra option"

definition cell_extra_default :: cell_extra where
  "cell_extra_default = \<lparr>zero_width_chars = [], hyperlink_id = None, extra_flags = 0\<rparr>"

definition cell_default :: cell where
  "cell_default =
    \<lparr>cell_c = 0, cell_fg = DefaultColor, cell_bg = DefaultColor, cell_flags = 0, cell_extra = None\<rparr>"

definition cell_new :: "uchar \<Rightarrow> cell" where
  "cell_new c = cell_default\<lparr>cell_c := c\<rparr>"

definition cell_is_empty :: "cell \<Rightarrow> bool" where
  "cell_is_empty x \<longleftrightarrow> cell_c x = 0 \<or> cell_c x = cp CHR '' ''"

definition cell_reset :: "cell \<Rightarrow> cell \<Rightarrow> cell" where
  "cell_reset template x =
    x\<lparr>cell_c := 0, cell_fg := cell_fg template, cell_bg := cell_bg template,
      cell_flags := cell_flags template, cell_extra := None\<rparr>"

definition clone_with_char :: "cell \<Rightarrow> uchar \<Rightarrow> cell" where
  "clone_with_char x c = x\<lparr>cell_c := c\<rparr>"

lemma cell_default_empty [simp]: "cell_is_empty cell_default"
  by (simp add: cell_is_empty_def cell_default_def)

lemma cell_reset_empty [simp]: "cell_is_empty (cell_reset t x)"
  by (simp add: cell_is_empty_def cell_reset_def)

text \<open>What a front end draws of a cell: the fields that a \<open>CellDelta\<close> carries.\<close>

type_synonym glyph = "uchar \<times> color \<times> color \<times> u16"

definition glyph :: "cell \<Rightarrow> glyph" where
  "glyph x = (cell_c x, cell_fg x, cell_bg x, cell_flags x)"

lemma flags_insert_bit: "bit (flags_insert f x) n \<longleftrightarrow> bit f n \<or> bit x n"
  by (simp add: flags_insert_def bit_or_iff)

lemma flags_remove_bit: "bit (flags_remove f x) n \<longleftrightarrow> bit f n \<and> \<not> bit x n"
  by (cases "n < LENGTH(16)") (auto simp: flags_remove_def bit_and_iff bit_not_iff dest: bit_imp_le_length)

end
