(* ===== verification/Term_Row.thy ===== *)
theory Term_Row
  imports Term_Cell
begin

text \<open>
  \<open>crates/athena-terminal/src/grid/row.rs\<close>: one line of cells with its occupancy count, its wrap
  flag and its own dirty interval. The in-place shift loops of \<open>insert_chars\<close>,
  \<open>delete_chars\<close> and \<open>shift_right\<close> are kept as loops over the index range, in the
  order in which the code runs them.
\<close>

record row =
  r_inner :: "cell list"
  r_occ :: nat
  r_wrapline :: bool
  r_dirty_start :: "nat option"
  r_dirty_end :: "nat option"

definition row_new :: "nat \<Rightarrow> row" where
  "row_new cols =
    \<lparr>r_inner = replicate cols cell_default, r_occ = 0, r_wrapline = False,
     r_dirty_start = None, r_dirty_end = None\<rparr>"

definition row_grow :: "nat \<Rightarrow> cell \<Rightarrow> row \<Rightarrow> row" where
  "row_grow cols template r =
    r\<lparr>r_inner := r_inner r @ replicate (cols - length (r_inner r)) template\<rparr>"

definition row_shrink :: "nat \<Rightarrow> row \<Rightarrow> row" where
  "row_shrink cols r = r\<lparr>r_inner := take cols (r_inner r), r_occ := min (r_occ r) cols\<rparr>"

definition row_resize :: "nat \<Rightarrow> cell \<Rightarrow> row \<Rightarrow> row" where
  "row_resize cols template r =
    (if length (r_inner r) < cols then row_grow cols template r else row_shrink cols r)"

definition row_mark_dirty :: "nat \<Rightarrow> row \<Rightarrow> row" where
  "row_mark_dirty col r =
    r\<lparr>r_dirty_start := Some (case r_dirty_start r of None \<Rightarrow> col | Some s \<Rightarrow> min s col),
      r_dirty_end := Some (case r_dirty_end r of None \<Rightarrow> col | Some e \<Rightarrow> max e (col + 1))\<rparr>"

definition row_mark_dirty_range :: "nat \<Rightarrow> nat \<Rightarrow> row \<Rightarrow> row" where
  "row_mark_dirty_range start end' r =
    r\<lparr>r_dirty_start := Some (case r_dirty_start r of None \<Rightarrow> start | Some s \<Rightarrow> min s start),
      r_dirty_end := Some (case r_dirty_end r of None \<Rightarrow> end' | Some e \<Rightarrow> max e end')\<rparr>"

definition row_clear_dirty :: "row \<Rightarrow> row" where
  "row_clear_dirty r = r\<lparr>r_dirty_start := None, r_dirty_end := None\<rparr>"

definition row_dirty_range :: "row \<Rightarrow> (nat \<times> nat) option" where
  "row_dirty_range r =
    (case (r_dirty_start r, r_dirty_end r) of (Some s, Some e) \<Rightarrow> Some (s, e) | _ \<Rightarrow> None)"

definition row_reset :: "cell \<Rightarrow> row \<Rightarrow> row" where
  "row_reset template r =
    row_mark_dirty_range 0 (length (r_inner r))
      (r\<lparr>r_inner := map (cell_reset template) (r_inner r), r_occ := 0, r_wrapline := False\<rparr>)"

definition row_get_cell :: "row \<Rightarrow> nat \<Rightarrow> cell option" where
  "row_get_cell r col = vec_get col (r_inner r)"

text \<open>The occupancy of a prefix: one past its last non-empty cell.\<close>

definition occ_of :: "cell list \<Rightarrow> nat" where
  "occ_of xs = (case rposition (\<lambda>c. \<not> cell_is_empty c) xs of Some i \<Rightarrow> i + 1 | None \<Rightarrow> 0)"

definition row_set_cell :: "nat \<Rightarrow> cell \<Rightarrow> row \<Rightarrow> row" where
  "row_set_cell col x r =
    (if col < length (r_inner r) then
       let r1 =
         (if cell_c x = 0 \<or> cell_c x = cp CHR '' ''
          then (if col = r_occ r - 1 then r\<lparr>r_occ := occ_of (take col (r_inner r))\<rparr> else r)
          else r\<lparr>r_occ := max (r_occ r) (col + 1)\<rparr>)
       in row_mark_dirty col (r1\<lparr>r_inner := (r_inner r1)[col := x]\<rparr>)
     else r)"

definition row_clear_cell :: "nat \<Rightarrow> cell \<Rightarrow> row \<Rightarrow> row" where
  "row_clear_cell col template r =
    (if col < length (r_inner r) then
       let r1 = r\<lparr>r_inner := (r_inner r)[col := cell_reset template (r_inner r ! col)]\<rparr>;
           r2 = (if col = r_occ r1 - 1 then r1\<lparr>r_occ := occ_of (take col (r_inner r1))\<rparr> else r1)
       in row_mark_dirty col r2
     else r)"

text \<open>The copy loops, one assignment per index in the order of the source.\<close>

definition copy_up :: "nat \<Rightarrow> nat list \<Rightarrow> 'a list \<Rightarrow> 'a list" where
  "copy_up n is xs = fold (\<lambda>i ys. ys[i + n := ys ! i]) is xs"

definition copy_down :: "nat \<Rightarrow> nat list \<Rightarrow> 'a list \<Rightarrow> 'a list" where
  "copy_down n is xs = fold (\<lambda>i ys. ys[i - n := ys ! i]) is xs"

definition fill :: "'a \<Rightarrow> nat list \<Rightarrow> 'a list \<Rightarrow> 'a list" where
  "fill x is xs = fold (\<lambda>i ys. ys[i := x]) is xs"

definition row_insert_chars :: "nat \<Rightarrow> nat \<Rightarrow> cell \<Rightarrow> row \<Rightarrow> row" where
  "row_insert_chars col count template r =
    (let len = length (r_inner r) in
     if len \<le> col then r
     else
       let count = min count (len - col);
           end' = len - count;
           xs = copy_up count (rev [col..<end']) (r_inner r);
           ys = fill template [col..<col + count] xs
       in row_mark_dirty_range col len (r\<lparr>r_inner := ys, r_occ := occ_of ys\<rparr>))"

definition row_delete_chars :: "nat \<Rightarrow> nat \<Rightarrow> cell \<Rightarrow> row \<Rightarrow> row" where
  "row_delete_chars col count template r =
    (let len = length (r_inner r) in
     if len \<le> col then r
     else
       let count = min count (len - col);
           xs = copy_down count [col + count..<len] (r_inner r);
           ys = fill template [len - count..<len] xs
       in row_mark_dirty_range col len (r\<lparr>r_inner := ys, r_occ := occ_of ys\<rparr>))"

definition row_shift_right :: "nat \<Rightarrow> cell \<Rightarrow> row \<Rightarrow> row" where
  "row_shift_right col template r =
    (let len = length (r_inner r) in
     if col + 1 < len then
       let xs = copy_up 1 (rev [col..<len - 1]) (r_inner r)
       in row_mark_dirty_range col len (r\<lparr>r_inner := xs[col := template]\<rparr>)
     else r)"

definition row_is_empty :: "row \<Rightarrow> bool" where
  "row_is_empty r \<longleftrightarrow> r_occ r = 0"

definition row_set_wrapline :: "bool \<Rightarrow> row \<Rightarrow> row" where
  "row_set_wrapline w r = r\<lparr>r_wrapline := w\<rparr>"

section \<open>The loops against their closed forms\<close>

lemma length_copy_up [simp]: "length (copy_up n is xs) = length xs"
  unfolding copy_up_def by (induction "is" arbitrary: xs) auto

lemma length_copy_down [simp]: "length (copy_down n is xs) = length xs"
  unfolding copy_down_def by (induction "is" arbitrary: xs) auto

lemma length_fill [simp]: "length (fill x is xs) = length xs"
  unfolding fill_def by (induction "is" arbitrary: xs) auto

lemma nth_copy_up:
  "a \<le> b \<Longrightarrow> b + n \<le> length xs \<Longrightarrow> j < length xs \<Longrightarrow>
    copy_up n (rev [a..<b]) xs ! j = (if a + n \<le> j \<and> j < b + n then xs ! (j - n) else xs ! j)"
proof (induction b arbitrary: xs)
  case 0
  then show ?case by (auto simp: copy_up_def)
next
  case (Suc b)
  show ?case
  proof (cases "a = Suc b")
    case False
    then have ab: "a \<le> b" using Suc.prems by simp
    have "copy_up n (rev [a..<Suc b]) xs = copy_up n (rev [a..<b]) (xs[b + n := xs ! b])"
      using ab by (simp add: copy_up_def)
    then show ?thesis using Suc.IH [OF ab, of "xs[b + n := xs ! b]"] Suc.prems ab
      by (auto simp: nth_list_update)
  qed (auto simp: copy_up_def)
qed

lemma nth_copy_down:
  "n \<le> a \<Longrightarrow> a \<le> b \<Longrightarrow> b \<le> length xs \<Longrightarrow> j < length xs \<Longrightarrow>
    copy_down n [a..<b] xs ! j = (if a - n \<le> j \<and> j < b - n then xs ! (j + n) else xs ! j)"
proof (induction b arbitrary: j)
  case 0
  then show ?case by (simp add: copy_down_def)
next
  case (Suc b)
  show ?case
  proof (cases "a = Suc b")
    case False
    then have ab: "a \<le> b" using Suc.prems by simp
    let ?ys = "copy_down n [a..<b] xs"
    have "copy_down n [a..<Suc b] xs = ?ys[b - n := ?ys ! b]"
      using ab by (simp add: copy_down_def)
    moreover have "?ys ! b = xs ! b" using Suc.IH [of b] Suc.prems ab by auto
    ultimately show ?thesis using Suc.IH [of j] Suc.prems ab
      by (auto simp: nth_list_update)
  qed (auto simp: copy_down_def)
qed

lemma nth_fill:
  "b \<le> length xs \<Longrightarrow> j < length xs \<Longrightarrow> fill x [a..<b] xs ! j = (if a \<le> j \<and> j < b then x else xs ! j)"
proof (induction b arbitrary: j)
  case (Suc b)
  show ?case
  proof (cases "a \<le> b")
    case True
    then have "fill x [a..<Suc b] xs = (fill x [a..<b] xs)[b := x]" by (simp add: fill_def)
    then show ?thesis using Suc True by (auto simp: nth_list_update)
  next
    case False
    then show ?thesis by (auto simp: fill_def)
  qed
qed (simp add: fill_def)

lemma row_clear_cell_inner [simp]:
  "r_inner (row_clear_cell col t r) = vec_modify col (cell_reset t) (r_inner r)"
  by (simp add: row_clear_cell_def row_mark_dirty_def vec_modify_def Let_def)

lemma row_set_cell_inner [simp]:
  "r_inner (row_set_cell col x r) = vec_modify col (\<lambda>_. x) (r_inner r)"
  by (simp add: row_set_cell_def row_mark_dirty_def vec_modify_def Let_def)

lemma row_reset_inner [simp]: "r_inner (row_reset t r) = map (cell_reset t) (r_inner r)"
  by (simp add: row_reset_def row_mark_dirty_range_def)

lemma row_set_wrapline_inner [simp]: "r_inner (row_set_wrapline w r) = r_inner r"
  by (simp add: row_set_wrapline_def)

lemma row_new_inner [simp]: "r_inner (row_new n) = replicate n cell_default"
  by (simp add: row_new_def)

lemma row_resize_inner [simp]: "r_inner (row_resize n t r) = vec_resize n t (r_inner r)"
  by (simp add: row_resize_def row_grow_def row_shrink_def vec_resize_def)

lemma fill_copy_up:
  assumes "col + n \<le> length xs"
  shows "fill t [col..<col + n] (copy_up n (rev [col..<length xs - n]) xs) =
    take col xs @ replicate n t @ take (length xs - col - n) (drop col xs)"
  by (rule nth_equalityI) (use assms in \<open>auto simp: nth_fill nth_copy_up nth_append\<close>)

lemma fill_copy_down:
  assumes "col + n \<le> length xs"
  shows "fill t [length xs - n..<length xs] (copy_down n [col + n..<length xs] xs) =
    take col xs @ drop (col + n) xs @ replicate n t"
  by (rule nth_equalityI)
    (use assms in \<open>auto simp: nth_fill nth_copy_down nth_append ac_simps copy_down_def [of _ "[]"]\<close>)

lemma copy_up_one:
  assumes "col < length xs"
  shows "(copy_up 1 (rev [col..<length xs - 1]) xs)[col := t] = take col xs @ t # butlast (drop col xs)"
proof (rule nth_equalityI)
  fix i
  assume i: "i < length ((copy_up 1 (rev [col..<length xs - 1]) xs)[col := t])"
  consider "i < col" | "i = col" | k where "i = Suc (col + k)"
    by (metis less_iff_Suc_add linorder_less_linear)
  then show "(copy_up 1 (rev [col..<length xs - 1]) xs)[col := t] ! i =
      (take col xs @ t # butlast (drop col xs)) ! i"
    using assms i by cases (auto simp: nth_copy_up nth_append nth_butlast)
qed (use assms in simp)

lemma row_insert_chars_inner:
  "r_inner (row_insert_chars col count t r) =
    (let xs = r_inner r; n = min count (length xs - col) in
     take col xs @ replicate n t @ take (length xs - col - n) (drop col xs))"
  by (auto simp: row_insert_chars_def row_mark_dirty_range_def Let_def fill_copy_up)

lemma row_delete_chars_inner:
  "r_inner (row_delete_chars col count t r) =
    (let xs = r_inner r; n = min count (length xs - col) in
     take col xs @ drop (col + n) xs @ replicate n t)"
  by (auto simp: row_delete_chars_def row_mark_dirty_range_def Let_def fill_copy_down)

lemma row_shift_right_inner:
  "r_inner (row_shift_right col t r) =
    (let xs = r_inner r in
     if col + 1 < length xs then take col xs @ t # butlast (drop col xs) else xs)"
  using copy_up_one [of col "r_inner r" t]
  by (simp add: row_shift_right_def row_mark_dirty_range_def Let_def)

section \<open>Occupancy\<close>

text \<open>
  The field \<open>occ\<close> is documented as the last non-empty cell index plus one. That is the
  row's representation invariant.
\<close>

definition row_wf :: "row \<Rightarrow> bool" where
  "row_wf r \<longleftrightarrow> r_occ r = occ_of (r_inner r)"

lemma occ_of_eq_iff:
  "occ_of xs = n \<longleftrightarrow> n \<le> length xs \<and> (\<forall>j. n \<le> j \<and> j < length xs \<longrightarrow> cell_is_empty (xs ! j)) \<and>
    (n = 0 \<or> \<not> cell_is_empty (xs ! (n - 1)))"
proof (cases "rposition (\<lambda>c. \<not> cell_is_empty c) xs")
  case None
  then have e: "\<forall>x\<in>set xs. cell_is_empty x" by (simp add: rposition_None)
  have "occ_of xs = 0" using None by (simp add: occ_of_def)
  moreover have "cell_is_empty (xs ! j)" if "j < length xs" for j using e that by simp
  ultimately show ?thesis by (cases n) (auto simp: Suc_le_eq)
next
  case (Some i)
  then have i: "i < length xs" "\<not> cell_is_empty (xs ! i)"
      "\<And>j. i < j \<Longrightarrow> j < length xs \<Longrightarrow> cell_is_empty (xs ! j)"
    by (auto simp: rposition_Some)
  have "occ_of xs = Suc i" using Some by (simp add: occ_of_def)
  moreover have "n = Suc i" if "n \<le> length xs" "\<forall>j. n \<le> j \<and> j < length xs \<longrightarrow> cell_is_empty (xs ! j)"
      "n = 0 \<or> \<not> cell_is_empty (xs ! (n - 1))"
  proof -
    have "\<not> n \<le> i" using that(2) i(1,2) by blast
    moreover have "\<not> i < n - 1" using that(1,3) i(3) [of "n - 1"] by (cases n) auto
    ultimately show ?thesis by simp
  qed
  ultimately show ?thesis using i by (auto simp: Suc_le_eq)
qed

lemma occ_of_update_empty:
  assumes "col < length xs" "cell_is_empty x"
  shows "occ_of (xs[col := x]) = (if col = occ_of xs - 1 then occ_of (take col xs) else occ_of xs)"
proof -
  have o: "occ_of xs \<le> length xs" "\<And>j. occ_of xs \<le> j \<Longrightarrow> j < length xs \<Longrightarrow> cell_is_empty (xs ! j)"
      "occ_of xs = 0 \<or> \<not> cell_is_empty (xs ! (occ_of xs - 1))"
    using occ_of_eq_iff [of xs "occ_of xs"] by auto
  have t: "occ_of (take col xs) \<le> col"
      "\<And>j. occ_of (take col xs) \<le> j \<Longrightarrow> j < col \<Longrightarrow> cell_is_empty (xs ! j)"
      "occ_of (take col xs) = 0 \<or> \<not> cell_is_empty (xs ! (occ_of (take col xs) - 1))"
    using occ_of_eq_iff [of "take col xs" "occ_of (take col xs)"] assms(1) by auto
  show ?thesis
  proof (cases "col = occ_of xs - 1")
    case True
    have "cell_is_empty (xs[col := x] ! j)" if "occ_of (take col xs) \<le> j" "j < length xs" for j
      using that assms True t(2) [of j] o(2) [of j] by (cases "j = col"; cases "j < col") auto
    moreover have "occ_of (take col xs) = 0 \<or> \<not> cell_is_empty (xs[col := x] ! (occ_of (take col xs) - 1))"
      using t(1,3) by (cases "occ_of (take col xs) = 0") auto
    ultimately show ?thesis using True t(1) assms(1) by (simp add: occ_of_eq_iff)
  next
    case False
    then show ?thesis using o assms by (auto simp: occ_of_eq_iff nth_list_update)
  qed
qed

lemma occ_of_update_nonempty:
  assumes "col < length xs" "\<not> cell_is_empty x"
  shows "occ_of (xs[col := x]) = max (occ_of xs) (col + 1)"
  using assms occ_of_eq_iff [of xs "occ_of xs"]
  by (auto simp: occ_of_eq_iff nth_list_update max_def)

lemma row_wf_mark_dirty [simp]:
  "row_wf (row_mark_dirty c r) = row_wf r"
  "row_wf (row_mark_dirty_range a b r) = row_wf r"
  "row_wf (row_set_wrapline w r) = row_wf r"
  by (simp_all add: row_wf_def row_mark_dirty_def row_mark_dirty_range_def row_set_wrapline_def)

lemma occ_of_empty: "\<forall>x\<in>set xs. cell_is_empty x \<Longrightarrow> occ_of xs = 0"
  by (simp add: occ_of_def rposition_None [THEN iffD2])

lemma row_wf_new [wf_intros]: "row_wf (row_new n)"
  by (simp add: row_wf_def row_new_def occ_of_empty)

lemma row_wf_reset [wf_intros]: "row_wf (row_reset t r)"
  by (simp add: row_reset_def) (simp add: row_wf_def occ_of_empty)

lemma row_wf_set_cell [wf_intros]: "row_wf r \<Longrightarrow> row_wf (row_set_cell col x r)"
  by (auto simp: row_set_cell_def Let_def row_wf_def occ_of_update_empty occ_of_update_nonempty
      row_mark_dirty_def cell_is_empty_def)

lemma row_wf_clear_cell [wf_intros]: "row_wf r \<Longrightarrow> row_wf (row_clear_cell col t r)"
  by (auto simp: row_clear_cell_def Let_def row_wf_def occ_of_update_empty row_mark_dirty_def)

lemma row_wf_insert_chars [wf_intros]: "row_wf r \<Longrightarrow> row_wf (row_insert_chars col n t r)"
  by (simp add: row_insert_chars_def Let_def) (simp add: row_wf_def)

lemma row_wf_delete_chars [wf_intros]: "row_wf r \<Longrightarrow> row_wf (row_delete_chars col n t r)"
  by (simp add: row_delete_chars_def Let_def) (simp add: row_wf_def)

text \<open>
  Resizing keeps only one direction: cells from \<open>occ\<close> on are blank, but after a shrink the
  last cell before \<open>occ\<close> may be blank too (\<open>row_shrink_occ_stale\<close> below). The
  one-sided invariant is what every operation of the row keeps, \<open>shift_right\<close> excepted.
\<close>

definition row_tail_blank :: "row \<Rightarrow> bool" where
  "row_tail_blank r \<longleftrightarrow>
    r_occ r \<le> length (r_inner r) \<and>
    (\<forall>j. r_occ r \<le> j \<and> j < length (r_inner r) \<longrightarrow> cell_is_empty (r_inner r ! j))"

lemma row_wf_tail_blank: "row_wf r \<Longrightarrow> row_tail_blank r"
  using occ_of_eq_iff [of "r_inner r" "r_occ r"] by (auto simp: row_wf_def row_tail_blank_def)

lemma row_tail_blank_new [wf_intros]: "row_tail_blank (row_new n)"
  by (rule row_wf_tail_blank [OF row_wf_new])

lemma row_tail_blank_reset [wf_intros]: "row_tail_blank (row_reset t r)"
  by (rule row_wf_tail_blank [OF row_wf_reset])

lemma row_tail_blank_resize [wf_intros]:
  "row_tail_blank r \<Longrightarrow> cell_is_empty t \<Longrightarrow> row_tail_blank (row_resize n t r)"
  by (auto simp: row_tail_blank_def row_resize_def row_grow_def row_shrink_def nth_append)

lemma row_shrink_occ_stale:
  "\<exists>r. row_wf r \<and> \<not> row_wf (row_shrink 2 r)"
proof -
  let ?r = "row_set_cell 2 (cell_new 98) (row_set_cell 0 (cell_new 97) (row_new 3))"
  have "row_wf ?r" by (intro row_wf_set_cell row_wf_new)
  moreover have "r_occ (row_shrink 2 ?r) = 2" "occ_of (r_inner (row_shrink 2 ?r)) = 1"
    by code_simp+
  moreover from this have "\<not> row_wf (row_shrink 2 ?r)" by (simp add: row_wf_def)
  ultimately show ?thesis by blast
qed

end
