(* ===== verification/Term_Grid.thy ===== *)
theory Term_Grid
  imports Term_Row
begin

text \<open>
  \<open>crates/athena-terminal/src/grid/mod.rs\<close>: the screen of a terminal session. The record has
  the fields of the struct \<open>Grid\<close>; an operation that the source writes as
  \<open>fn(&mut self, ...)\<close> maps the old grid to the new one. Operations that call
  \<open>Vec::remove\<close> or \<open>Vec::insert\<close> can panic, so they return an option.
\<close>

section \<open>State\<close>

record point =
  pt_row :: nat
  pt_col :: nat

record cell_delta =
  d_row :: nat
  d_col :: nat
  d_c :: uchar
  d_fg :: color
  d_bg :: color
  d_flags :: u16

record scroll_region =
  sr_top :: nat
  sr_bottom :: nat

datatype cursor_style = Block | Line | Bar

record grid =
  g_rows :: "row list"
  g_scrollback :: "row list"
  g_cursor :: point
  g_saved_cursor :: "point option"
  g_cols :: nat
  g_rows_count :: nat
  g_scroll_region :: scroll_region
  g_selection :: "(point \<times> point) option"
  g_dirty_bits :: "u64 list"
  g_full_redraw :: bool
  g_default_cell :: cell
  g_max_scrollback :: nat
  g_cursor_visible :: bool
  g_cursor_blinking :: bool
  g_cursor_style :: cursor_style
  g_title :: bytes
  g_icon_name :: bytes
  g_osc52_clipboard :: "bytes option"
  g_charset_graphics :: bool
  g_hyperlinks :: "bytes list"
  g_current_hyperlink :: "u16 option"
  g_current_fg :: color
  g_current_bg :: color
  g_current_flags :: cell_flags
  g_wrap_next :: bool
  g_insert_mode :: bool
  g_auto_wrap :: bool
  g_origin_mode :: bool
  g_reverse_video :: bool
  g_bracketed_paste :: bool
  g_alt_screen_active :: bool
  g_alt_saved :: "(row list \<times> point) option"
  g_mouse_mode :: u16
  g_tab_stops :: "bool list"

abbreviation cur_row :: "grid \<Rightarrow> nat" where
  "cur_row g \<equiv> pt_row (g_cursor g)"

abbreviation cur_col :: "grid \<Rightarrow> nat" where
  "cur_col g \<equiv> pt_col (g_cursor g)"

abbreviation top_margin :: "grid \<Rightarrow> nat" where
  "top_margin g \<equiv> sr_top (g_scroll_region g)"

abbreviation bottom_margin :: "grid \<Rightarrow> nat" where
  "bottom_margin g \<equiv> sr_bottom (g_scroll_region g)"

definition point_default :: point where
  "point_default = \<lparr>pt_row = 0, pt_col = 0\<rparr>"

definition set_cur_row :: "nat \<Rightarrow> grid \<Rightarrow> grid" where
  "set_cur_row r g = g\<lparr>g_cursor := (g_cursor g)\<lparr>pt_row := r\<rparr>\<rparr>"

definition set_cur_col :: "nat \<Rightarrow> grid \<Rightarrow> grid" where
  "set_cur_col c g = g\<lparr>g_cursor := (g_cursor g)\<lparr>pt_col := c\<rparr>\<rparr>"

section \<open>Construction and dirty bits\<close>

definition MAX_DIRTY_CELLS_PER_READ :: nat where
  "MAX_DIRTY_CELLS_PER_READ = 50000"

text \<open>\<open>div_ceil(64)\<close>.\<close>

definition dirty_words :: "nat \<Rightarrow> nat \<Rightarrow> nat" where
  "dirty_words cols rows = (cols * rows + 63) div 64"

definition grid_new :: "nat \<Rightarrow> nat \<Rightarrow> grid" where
  "grid_new cols rows =
    \<lparr>g_rows = replicate rows (row_new cols),
     g_scrollback = [],
     g_cursor = point_default,
     g_saved_cursor = None,
     g_cols = cols,
     g_rows_count = rows,
     g_scroll_region = \<lparr>sr_top = 0, sr_bottom = rows - 1\<rparr>,
     g_selection = None,
     g_dirty_bits = replicate (dirty_words cols rows) 0,
     g_full_redraw = False,
     g_default_cell = cell_default,
     g_max_scrollback = 10000,
     g_cursor_visible = True,
     g_cursor_blinking = True,
     g_cursor_style = Block,
     g_title = [],
     g_icon_name = [],
     g_osc52_clipboard = None,
     g_charset_graphics = False,
     g_hyperlinks = [],
     g_current_hyperlink = None,
     g_current_fg = Named Foreground,
     g_current_bg = Named Background,
     g_current_flags = 0,
     g_wrap_next = False,
     g_insert_mode = False,
     g_auto_wrap = True,
     g_origin_mode = False,
     g_reverse_video = False,
     g_bracketed_paste = False,
     g_alt_screen_active = False,
     g_alt_saved = None,
     g_mouse_mode = 0,
     g_tab_stops = map (\<lambda>col. col mod 8 = 0) [0..<cols]\<rparr>"

definition set_dirty_bit :: "u64 list \<Rightarrow> nat \<Rightarrow> nat \<Rightarrow> nat \<Rightarrow> u64 list" where
  "set_dirty_bit bits cols row col =
    (let idx = row * cols + col
     in vec_modify (idx div 64) (\<lambda>w. w OR push_bit (idx mod 64) 1) bits)"

definition grid_mark_dirty :: "nat \<Rightarrow> nat \<Rightarrow> grid \<Rightarrow> grid" where
  "grid_mark_dirty row col g =
    g\<lparr>g_dirty_bits := set_dirty_bit (g_dirty_bits g) (g_cols g) row col\<rparr>"

text \<open>\<open>mark_cols_dirty(row, a..b)\<close>, the range given as the list of its columns.\<close>

definition mark_cols_dirty :: "nat \<Rightarrow> nat list \<Rightarrow> grid \<Rightarrow> grid" where
  "mark_cols_dirty row cols g = fold (grid_mark_dirty row) cols g"

definition mark_row_dirty :: "nat \<Rightarrow> grid \<Rightarrow> grid" where
  "mark_row_dirty row g = mark_cols_dirty row [0..<g_cols g] g"

section \<open>Character sets and hyperlinks\<close>

definition set_charset :: "u8 \<Rightarrow> grid \<Rightarrow> grid" where
  "set_charset designator g = g\<lparr>g_charset_graphics := (designator = byte CHR ''0'')\<rparr>"

definition dec_special_table :: "(uchar \<times> uchar) list" where
  "dec_special_table =
    [(cp CHR ''_'', 0x20), (0x60, 0x25C6), (cp CHR ''a'', 0x2592), (cp CHR ''f'', 0xB0),
     (cp CHR ''g'', 0xB1), (cp CHR ''h'', 0x2424), (cp CHR ''i'', 0x241B), (cp CHR ''j'', 0x2518),
     (cp CHR ''k'', 0x2510), (cp CHR ''l'', 0x250C), (cp CHR ''m'', 0x2514), (cp CHR ''n'', 0x253C),
     (cp CHR ''o'', 0x23BA), (cp CHR ''p'', 0x23BB), (cp CHR ''q'', 0x2500), (cp CHR ''r'', 0x23BC),
     (cp CHR ''s'', 0x23BD), (cp CHR ''t'', 0x251C), (cp CHR ''u'', 0x2524), (cp CHR ''v'', 0x2534),
     (cp CHR ''w'', 0x252C), (cp CHR ''x'', 0x2502), (cp CHR ''y'', 0x2264), (cp CHR ''z'', 0x2265),
     (cp CHR ''{'', 0x3C0), (cp CHR ''|'', 0x2260), (cp CHR ''}'', 0xA3), (cp CHR ''~'', 0xB7)]"

definition dec_special_map :: "uchar \<Rightarrow> uchar" where
  "dec_special_map c = (case map_of dec_special_table c of Some d \<Rightarrow> d | None \<Rightarrow> c)"

definition map_charset :: "grid \<Rightarrow> uchar \<Rightarrow> uchar" where
  "map_charset g c = (if \<not> g_charset_graphics g then c else dec_special_map c)"

definition u16_try_from :: "nat \<Rightarrow> u16 option" where
  "u16_try_from n = (if n < 2 ^ 16 then Some (of_nat n) else None)"

definition set_hyperlink :: "bytes option \<Rightarrow> grid \<Rightarrow> grid" where
  "set_hyperlink uri g =
    (case uri of
       None \<Rightarrow> g\<lparr>g_current_hyperlink := None\<rparr>
     | Some u \<Rightarrow>
         if u = [] then g\<lparr>g_current_hyperlink := None\<rparr>
         else
           (case position (\<lambda>s. s = u) (g_hyperlinks g) of
              Some i \<Rightarrow> g\<lparr>g_current_hyperlink := u16_try_from i\<rparr>
            | None \<Rightarrow>
                if 65535 \<le> length (g_hyperlinks g)
                then g\<lparr>g_current_hyperlink := u16_try_from (length (g_hyperlinks g))\<rparr>
                else
                  let links = g_hyperlinks g @ [u]
                  in g\<lparr>g_hyperlinks := links, g_current_hyperlink := u16_try_from (length links - 1)\<rparr>))"

definition hyperlink_uri :: "grid \<Rightarrow> u16 \<Rightarrow> bytes option" where
  "hyperlink_uri g i = vec_get (unat i) (g_hyperlinks g)"

section \<open>Scrolling\<close>

definition push_scrollback :: "nat \<Rightarrow> 'a \<Rightarrow> 'a list \<Rightarrow> 'a list" where
  "push_scrollback cap r sb = (if cap \<le> length sb then tl sb else sb) @ [r]"

definition scroll_up_once :: "grid \<Rightarrow> grid option" where
  "scroll_up_once g = do {
     (removed, rs) \<leftarrow> vec_remove (top_margin g) (g_rows g);
     let g1 = (if top_margin g = 0
       then g\<lparr>g_scrollback := push_scrollback (g_max_scrollback g) removed (g_scrollback g)\<rparr> else g);
     rs' \<leftarrow> vec_insert (bottom_margin g) (row_new (g_cols g)) rs;
     Some (g1\<lparr>g_rows := rs'\<rparr>)
   }"

definition scroll_up :: "nat \<Rightarrow> grid \<Rightarrow> grid option" where
  "scroll_up lines g = do {
     g1 \<leftarrow> iter_opt lines scroll_up_once g;
     Some (g1\<lparr>g_full_redraw := True\<rparr>)
   }"

definition scroll_down_once :: "grid \<Rightarrow> grid option" where
  "scroll_down_once g = do {
     (removed, rs) \<leftarrow> vec_remove (bottom_margin g) (g_rows g);
     rs' \<leftarrow> vec_insert (top_margin g) (row_new (g_cols g)) rs;
     Some (g\<lparr>g_rows := rs'\<rparr>)
   }"

definition scroll_down :: "nat \<Rightarrow> grid \<Rightarrow> grid option" where
  "scroll_down lines g = do {
     g1 \<leftarrow> iter_opt lines scroll_down_once g;
     Some (g1\<lparr>g_full_redraw := True\<rparr>)
   }"

section \<open>Printing\<close>

definition pen_cell :: "grid \<Rightarrow> uchar \<Rightarrow> cell" where
  "pen_cell g c =
    \<lparr>cell_c = c, cell_fg = g_current_fg g, cell_bg = g_current_bg g,
     cell_flags = g_current_flags g,
     cell_extra =
       (case g_current_hyperlink g of
          Some i \<Rightarrow> Some (cell_extra_default\<lparr>hyperlink_id := Some i\<rparr>)
        | None \<Rightarrow> None)\<rparr>"

text \<open>The deferred wrap at the head of \<open>insert_char\<close>.\<close>

definition take_wrap :: "grid \<Rightarrow> grid option" where
  "take_wrap g =
    (if g_wrap_next g then do {
       let g1 = g\<lparr>g_wrap_next := False\<rparr>;
       g2 \<leftarrow> (if cur_row g1 = bottom_margin g1 then scroll_up 1 g1
         else if cur_row g1 + 1 < g_rows_count g1 then Some (set_cur_row (cur_row g1 + 1) g1)
         else Some g1);
       let g3 = set_cur_col 0 g2;
       Some (g3\<lparr>g_rows := vec_modify (cur_row g3) (row_set_wrapline True) (g_rows g3)\<rparr>)
     } else Some g)"

definition put_cell :: "uchar \<Rightarrow> grid \<Rightarrow> grid" where
  "put_cell c g =
    (if cur_row g < length (g_rows g) then
       let g1 = (if g_insert_mode g
             then g\<lparr>g_rows := vec_modify (cur_row g) (row_shift_right (cur_col g) (g_default_cell g)) (g_rows g)\<rparr>
             else g);
           g2 = g1\<lparr>g_rows := vec_modify (cur_row g1) (row_set_cell (cur_col g1) (pen_cell g1 c)) (g_rows g1)\<rparr>;
           g3 = grid_mark_dirty (cur_row g2) (cur_col g2) g2
       in if g_cols g3 \<le> cur_col g3 + 1
          then (if g_auto_wrap g3 then g3\<lparr>g_wrap_next := True\<rparr> else g3)
          else (set_cur_col (cur_col g3 + 1) g3)\<lparr>g_wrap_next := False\<rparr>
     else g)"

definition insert_char :: "uchar \<Rightarrow> grid \<Rightarrow> grid option" where
  "insert_char c g =
    (if g_rows_count g \<le> cur_row g \<or> g_cols g \<le> cur_col g then Some g
     else do {
       g1 \<leftarrow> take_wrap g;
       Some (put_cell c g1)
     })"

section \<open>Cursor movement\<close>

definition move_cursor_left :: "nat \<Rightarrow> grid \<Rightarrow> grid" where
  "move_cursor_left n g = (set_cur_col (cur_col g - n) g)\<lparr>g_wrap_next := False\<rparr>"

definition move_cursor_right :: "nat \<Rightarrow> grid \<Rightarrow> grid" where
  "move_cursor_right n g =
    (set_cur_col (min (cur_col g + n) (g_cols g - 1)) g)\<lparr>g_wrap_next := False\<rparr>"

definition move_cursor_up :: "nat \<Rightarrow> grid \<Rightarrow> grid" where
  "move_cursor_up n g =
    (let min_row = (if g_origin_mode g then top_margin g else 0)
     in set_cur_row (max (cur_row g - n) min_row) g)"

definition move_cursor_down :: "nat \<Rightarrow> grid \<Rightarrow> grid" where
  "move_cursor_down n g =
    (let max_row = (if g_origin_mode g then bottom_margin g else g_rows_count g - 1)
     in set_cur_row (min (cur_row g + n) max_row) g)"

definition move_cursor_to :: "nat \<Rightarrow> nat \<Rightarrow> grid \<Rightarrow> grid" where
  "move_cursor_to row col g =
    g\<lparr>g_cursor := \<lparr>pt_row = min row (g_rows_count g - 1), pt_col = min col (g_cols g - 1)\<rparr>,
      g_wrap_next := False\<rparr>"

definition move_cursor_to_col :: "nat \<Rightarrow> grid \<Rightarrow> grid" where
  "move_cursor_to_col col g = (set_cur_col (min col (g_cols g - 1)) g)\<lparr>g_wrap_next := False\<rparr>"

definition move_cursor_down_and_home :: "nat \<Rightarrow> grid \<Rightarrow> grid" where
  "move_cursor_down_and_home n g = set_cur_col 0 (move_cursor_down n g)"

definition move_cursor_up_and_home :: "nat \<Rightarrow> grid \<Rightarrow> grid" where
  "move_cursor_up_and_home n g = set_cur_col 0 (move_cursor_up n g)"

definition newline :: "grid \<Rightarrow> grid option" where
  "newline g =
    (let g1 = (set_cur_col 0 g)\<lparr>g_wrap_next := False\<rparr> in
     if cur_row g1 = bottom_margin g1 then scroll_up 1 g1
     else if cur_row g1 + 1 < g_rows_count g1 then Some (set_cur_row (cur_row g1 + 1) g1)
     else Some g1)"

definition carriage_return :: "grid \<Rightarrow> grid" where
  "carriage_return g = (set_cur_col 0 g)\<lparr>g_wrap_next := False\<rparr>"

definition next_tab_stop :: "bool list \<Rightarrow> nat \<Rightarrow> nat option" where
  "next_tab_stop stops from' = map_option (\<lambda>i. from' + i) (position (\<lambda>s. s) (drop from' stops))"

definition tab :: "grid \<Rightarrow> grid" where
  "tab g =
    (let next = (case next_tab_stop (g_tab_stops g) (cur_col g + 1) of
         Some col \<Rightarrow> col | None \<Rightarrow> g_cols g - 1)
     in (set_cur_col next g)\<lparr>g_wrap_next := False\<rparr>)"

definition set_tab_stop :: "grid \<Rightarrow> grid" where
  "set_tab_stop g = g\<lparr>g_tab_stops := vec_modify (cur_col g) (\<lambda>_. True) (g_tab_stops g)\<rparr>"

definition backspace :: "grid \<Rightarrow> grid" where
  "backspace g = (if 0 < cur_col g then set_cur_col (cur_col g - 1) g else g)"

section \<open>Erasing and editing\<close>

definition delete_char :: "grid \<Rightarrow> grid" where
  "delete_char g =
    (if cur_row g < g_rows_count g \<and> cur_row g < length (g_rows g) then
       grid_mark_dirty (cur_row g) (cur_col g)
         (g\<lparr>g_rows := vec_modify (cur_row g) (row_clear_cell (cur_col g) (g_default_cell g)) (g_rows g)\<rparr>)
     else g)"

definition clear_cols :: "nat \<Rightarrow> nat list \<Rightarrow> grid \<Rightarrow> grid" where
  "clear_cols r cols g =
    g\<lparr>g_rows := vec_modify r (fold (\<lambda>col. row_clear_cell col (g_default_cell g)) cols) (g_rows g)\<rparr>"

definition reset_rows :: "nat list \<Rightarrow> grid \<Rightarrow> grid" where
  "reset_rows rs g =
    g\<lparr>g_rows := fold (\<lambda>r. vec_modify r (row_reset (g_default_cell g))) rs (g_rows g)\<rparr>"

definition mark_rows_dirty :: "nat list \<Rightarrow> grid \<Rightarrow> grid" where
  "mark_rows_dirty rs g = fold mark_row_dirty rs g"

definition erase_display :: "u16 \<Rightarrow> grid \<Rightarrow> grid" where
  "erase_display mode g =
    (let crow = cur_row g; ccol = cur_col g in
     if mode = 0 then
       mark_rows_dirty [crow + 1..<g_rows_count g]
         (mark_cols_dirty crow [ccol..<g_cols g]
           (reset_rows [crow + 1..<g_rows_count g] (clear_cols crow [ccol..<g_cols g] g)))
     else if mode = 1 then
       mark_cols_dirty crow [0..<ccol + 1]
         (mark_rows_dirty [0..<crow]
           (clear_cols crow [0..<ccol + 1] (reset_rows [0..<crow] g)))
     else if mode = 2 then (reset_rows [0..<g_rows_count g] g)\<lparr>g_full_redraw := True\<rparr>
     else if mode = 3 then g\<lparr>g_scrollback := []\<rparr>
     else g)"

definition erase_line :: "u16 \<Rightarrow> grid \<Rightarrow> grid" where
  "erase_line mode g =
    (let crow = cur_row g; ccol = cur_col g in
     if g_rows_count g \<le> crow then g
     else if mode = 0 then mark_cols_dirty crow [ccol..<g_cols g] (clear_cols crow [ccol..<g_cols g] g)
     else if mode = 1 then mark_cols_dirty crow [0..<ccol + 1] (clear_cols crow [0..<ccol + 1] g)
     else if mode = 2 then mark_row_dirty crow (reset_rows [crow] g)
     else g)"

definition insert_line_once :: "nat \<Rightarrow> nat \<Rightarrow> grid \<Rightarrow> grid option" where
  "insert_line_once at bottom g = do {
     rs \<leftarrow> vec_insert at (row_new (g_cols g)) (g_rows g);
     (removed, rs') \<leftarrow> vec_remove (bottom + 1) rs;
     Some (g\<lparr>g_rows := rs'\<rparr>)
   }"

definition insert_lines :: "nat \<Rightarrow> grid \<Rightarrow> grid option" where
  "insert_lines n g =
    (if cur_row g < top_margin g \<or> bottom_margin g < cur_row g then Some g
     else do {
       g1 \<leftarrow> iter_opt n (insert_line_once (cur_row g) (bottom_margin g)) g;
       Some (mark_rows_dirty [cur_row g..<bottom_margin g + 1] g1)
     })"

definition delete_line_once :: "nat \<Rightarrow> nat \<Rightarrow> grid \<Rightarrow> grid option" where
  "delete_line_once at bottom g = do {
     (removed, rs) \<leftarrow> vec_remove at (g_rows g);
     rs' \<leftarrow> vec_insert bottom (row_new (g_cols g)) rs;
     Some (g\<lparr>g_rows := rs'\<rparr>)
   }"

definition delete_lines :: "nat \<Rightarrow> grid \<Rightarrow> grid option" where
  "delete_lines n g =
    (if cur_row g < top_margin g \<or> bottom_margin g < cur_row g then Some g
     else do {
       g1 \<leftarrow> iter_opt n (delete_line_once (cur_row g) (bottom_margin g)) g;
       Some (mark_rows_dirty [cur_row g..<bottom_margin g + 1] g1)
     })"

definition insert_chars :: "nat \<Rightarrow> grid \<Rightarrow> grid" where
  "insert_chars count g =
    mark_cols_dirty (cur_row g) [cur_col g..<g_cols g]
      (g\<lparr>g_rows := vec_modify (cur_row g) (row_insert_chars (cur_col g) count (g_default_cell g)) (g_rows g)\<rparr>)"

definition delete_chars :: "nat \<Rightarrow> grid \<Rightarrow> grid" where
  "delete_chars count g =
    mark_cols_dirty (cur_row g) [cur_col g..<g_cols g]
      (g\<lparr>g_rows := vec_modify (cur_row g) (row_delete_chars (cur_col g) count (g_default_cell g)) (g_rows g)\<rparr>)"

definition grid_set_cell :: "nat \<Rightarrow> nat \<Rightarrow> cell \<Rightarrow> grid \<Rightarrow> grid" where
  "grid_set_cell row col x g =
    grid_mark_dirty row col (g\<lparr>g_rows := vec_modify row (row_set_cell col x) (g_rows g)\<rparr>)"

definition grid_clear :: "grid \<Rightarrow> grid" where
  "grid_clear g = g\<lparr>g_rows := map (row_reset (g_default_cell g)) (g_rows g), g_full_redraw := True\<rparr>"

definition grid_get_cell :: "grid \<Rightarrow> nat \<Rightarrow> nat \<Rightarrow> cell option" where
  "grid_get_cell g row col = Option.bind (vec_get row (g_rows g)) (\<lambda>r. row_get_cell r col)"

section \<open>Graphic rendition\<close>

definition sgr_reset :: "grid \<Rightarrow> grid" where
  "sgr_reset g =
    g\<lparr>g_current_fg := Named Foreground, g_current_bg := Named Background, g_current_flags := 0\<rparr>"

definition sgr_on :: "cell_flags \<Rightarrow> grid \<Rightarrow> grid" where
  "sgr_on f g = g\<lparr>g_current_flags := flags_insert (g_current_flags g) f\<rparr>"

definition sgr_off :: "cell_flags \<Rightarrow> grid \<Rightarrow> grid" where
  "sgr_off f g = g\<lparr>g_current_flags := flags_remove (g_current_flags g) f\<rparr>"

text \<open>The selectors that take no further parameter.\<close>

definition sgr_simple :: "u16 \<Rightarrow> grid \<Rightarrow> grid" where
  "sgr_simple p g =
    (if p = 0 then sgr_reset g
     else if p = 1 then sgr_on BOLD g
     else if p = 3 then sgr_on ITALIC g
     else if p = 4 then sgr_on UNDERLINE g
     else if p = 5 then sgr_on BLINK g
     else if p = 7 then sgr_on INVERSE g
     else if p = 8 then sgr_on INVISIBLE g
     else if p = 9 then sgr_on STRIKEOUT g
     else if p = 21 then sgr_off BOLD g
     else if p = 22 then sgr_off BOLD g
     else if p = 23 then sgr_off ITALIC g
     else if p = 24 then sgr_off UNDERLINE g
     else if p = 25 then sgr_off BLINK g
     else if p = 27 then sgr_off INVERSE g
     else if p = 28 then sgr_off INVISIBLE g
     else if p = 29 then sgr_off STRIKEOUT g
     else if 30 \<le> p \<and> p \<le> 37 then g\<lparr>g_current_fg := Named (from_ansi (ucast p - 30))\<rparr>
     else if p = 39 then g\<lparr>g_current_fg := Named Foreground\<rparr>
     else if 40 \<le> p \<and> p \<le> 47 then g\<lparr>g_current_bg := Named (from_ansi (ucast p - 40))\<rparr>
     else if p = 49 then g\<lparr>g_current_bg := Named Background\<rparr>
     else if 90 \<le> p \<and> p \<le> 97 then g\<lparr>g_current_fg := Named (from_ansi (ucast p - 82))\<rparr>
     else if 100 \<le> p \<and> p \<le> 107 then g\<lparr>g_current_bg := Named (from_ansi (ucast p - 92))\<rparr>
     else g)"

text \<open>
  The parameters after a 38 or a 48: the colour they select and what is left, or nothing when
  the sequence is truncated or malformed.
\<close>

fun sgr_extended :: "u16 list \<Rightarrow> (color \<times> u16 list) option" where
  "sgr_extended (k # ps) =
    (if k = 2 \<and> 3 \<le> length ps
     then Some (Rgb (ucast (ps ! 0)) (ucast (ps ! 1)) (ucast (ps ! 2)), drop 3 ps)
     else if k = 5 \<and> 1 \<le> length ps then Some (Indexed (ucast (ps ! 0)), drop 1 ps)
     else None)"
| "sgr_extended [] = None"

lemma sgr_extended_shorter: "sgr_extended ps = Some (c, qs) \<Longrightarrow> length qs < length ps"
  by (cases ps) (auto split: if_splits)

function sgr_loop :: "u16 list \<Rightarrow> grid \<Rightarrow> grid" where
  "sgr_loop [] g = g"
| "sgr_loop (p # ps) g =
    (if p = 38 then
       (case sgr_extended ps of
          Some (c, qs) \<Rightarrow> sgr_loop qs (g\<lparr>g_current_fg := c\<rparr>)
        | None \<Rightarrow> g)
     else if p = 48 then
       (case sgr_extended ps of
          Some (c, qs) \<Rightarrow> sgr_loop qs (g\<lparr>g_current_bg := c\<rparr>)
        | None \<Rightarrow> g)
     else sgr_loop ps (sgr_simple p g))"
  by pat_completeness auto
termination
  by (relation "measure (\<lambda>(ps, g). length ps)") (auto dest: sgr_extended_shorter)

definition set_sgr :: "u16 list \<Rightarrow> grid \<Rightarrow> grid" where
  "set_sgr params g = (if params = [] then sgr_reset g else sgr_loop params g)"

section \<open>Saved cursor, margins, resize\<close>

definition save_cursor :: "grid \<Rightarrow> grid" where
  "save_cursor g = g\<lparr>g_saved_cursor := Some (g_cursor g)\<rparr>"

definition restore_cursor :: "grid \<Rightarrow> grid" where
  "restore_cursor g = (case g_saved_cursor g of Some p \<Rightarrow> g\<lparr>g_cursor := p\<rparr> | None \<Rightarrow> g)"

definition set_scroll_region :: "nat \<Rightarrow> nat \<Rightarrow> grid \<Rightarrow> grid" where
  "set_scroll_region t b g =
    (let top' = min t (g_rows_count g - 1);
         bottom' = min (max b top') (g_rows_count g - 1)
     in g\<lparr>g_scroll_region := \<lparr>sr_top = top', sr_bottom = bottom'\<rparr>\<rparr>)"

text \<open>Rows brought to the given dimensions: truncated or padded, then each row resized.\<close>

definition fit_rows :: "nat \<Rightarrow> nat \<Rightarrow> cell \<Rightarrow> row list \<Rightarrow> row list" where
  "fit_rows cols rows template rs =
    map (row_resize cols template) (take rows rs @ replicate (rows - length rs) (row_new cols))"

definition resize_tab_stops :: "nat \<Rightarrow> nat \<Rightarrow> bool list \<Rightarrow> bool list" where
  "resize_tab_stops old_cols cols stops =
    fold (\<lambda>col ss. if col mod 8 = 0 \<and> col < length ss \<and> old_cols \<le> col then ss[col := True] else ss)
      [0..<cols] (vec_resize cols False stops)"

definition grid_resize :: "nat \<Rightarrow> nat \<Rightarrow> grid \<Rightarrow> grid" where
  "grid_resize cols rows g =
    (if cols = g_cols g \<and> rows = g_rows_count g then g
     else
       let max_row = rows - 1;
           t = min (top_margin g) max_row
       in g\<lparr>g_rows := fit_rows cols rows (g_default_cell g) (g_rows g),
            g_tab_stops := resize_tab_stops (g_cols g) cols (g_tab_stops g),
            g_cols := cols,
            g_rows_count := rows,
            g_dirty_bits := replicate (dirty_words cols rows) 0,
            g_full_redraw := True,
            g_scroll_region := \<lparr>sr_top = t, sr_bottom = max (min (bottom_margin g) max_row) t\<rparr>,
            g_cursor :=
              \<lparr>pt_row = (if rows \<le> cur_row g then rows - 1 else cur_row g),
               pt_col = (if cols \<le> cur_col g then cols - 1 else cur_col g)\<rparr>\<rparr>)"

section \<open>Alternate screen\<close>

definition enter_alt_screen :: "grid \<Rightarrow> grid" where
  "enter_alt_screen g =
    (if g_alt_screen_active g then g
     else g\<lparr>g_rows := replicate (g_rows_count g) (row_new (g_cols g)),
            g_alt_saved := Some (g_rows g, g_cursor g),
            g_alt_screen_active := True,
            g_cursor := point_default,
            g_wrap_next := False,
            g_full_redraw := True\<rparr>)"

definition exit_alt_screen :: "grid \<Rightarrow> grid" where
  "exit_alt_screen g =
    (if \<not> g_alt_screen_active g then g
     else
       let g1 = (case g_alt_saved g of
           Some (rs, c) \<Rightarrow>
             g\<lparr>g_alt_saved := None,
               g_rows := fit_rows (g_cols g) (g_rows_count g) (g_default_cell g) rs,
               g_cursor := \<lparr>pt_row = min (pt_row c) (g_rows_count g - 1),
                            pt_col = min (pt_col c) (g_cols g - 1)\<rparr>\<rparr>
         | None \<Rightarrow> g)
       in g1\<lparr>g_alt_screen_active := False, g_wrap_next := False, g_full_redraw := True\<rparr>)"

section \<open>Deltas\<close>

definition delta_at :: "grid \<Rightarrow> nat \<Rightarrow> nat \<Rightarrow> cell_delta list" where
  "delta_at g row col =
    (case grid_get_cell g row col of
       Some x \<Rightarrow> [\<lparr>d_row = row, d_col = col, d_c = cell_c x, d_fg = cell_fg x, d_bg = cell_bg x,
                  d_flags = cell_flags x\<rparr>]
     | None \<Rightarrow> [])"

definition count_ones :: "u64 \<Rightarrow> nat" where
  "count_ones w = length (filter (bit w) [0..<64])"

definition trailing_zeros :: "u64 \<Rightarrow> nat" where
  "trailing_zeros w = length (takeWhile (\<lambda>i. \<not> bit w i) [0..<64])"

text \<open>
  The loop over one word: take the lowest set bit, clear it with \<open>w & (w - 1)\<close>, repeat until
  the word is zero. It is total because clearing the lowest bit makes the word smaller.
\<close>

lemma clear_lowest_less: "w \<noteq> 0 \<Longrightarrow> unat (w AND (w - 1)) < unat (w :: u64)"
proof -
  assume w: "w \<noteq> 0"
  have "w AND (w - 1) \<le> w - 1" by (rule word_and_le1)
  then have "unat (w AND (w - 1)) \<le> unat (w - 1)" by (simp add: word_le_nat_alt)
  also have "\<dots> < unat w" using w by (simp add: unat_minus_one unat_gt_0)
  finally show ?thesis .
qed

function word_bits :: "u64 \<Rightarrow> nat list" where
  "word_bits w = (if w = 0 then [] else trailing_zeros w # word_bits (w AND (w - 1)))"
  by pat_completeness auto
termination
  by (relation "measure unat") (auto intro: clear_lowest_less)

declare word_bits.simps [simp del]

definition dirty_total :: "u64 list \<Rightarrow> nat" where
  "dirty_total bits = sum_list (map count_ones bits)"

definition full_deltas :: "grid \<Rightarrow> cell_delta list" where
  "full_deltas g =
    concat (map (\<lambda>row. concat (map (\<lambda>col. delta_at g row col) [0..<g_cols g])) [0..<g_rows_count g])"

definition bit_delta :: "grid \<Rightarrow> nat \<Rightarrow> cell_delta list" where
  "bit_delta g idx =
    (let row = idx div g_cols g; col = idx mod g_cols g
     in if g_rows_count g \<le> row then [] else delta_at g row col)"

definition dirty_indices :: "u64 list \<Rightarrow> nat list" where
  "dirty_indices bits =
    concat (map (\<lambda>(word_idx, w). map (\<lambda>b. word_idx * 64 + b) (word_bits w)) (enumerate 0 bits))"

definition dirty_deltas :: "grid \<Rightarrow> cell_delta list" where
  "dirty_deltas g =
    (if g_full_redraw g \<or> MAX_DIRTY_CELLS_PER_READ < dirty_total (g_dirty_bits g)
     then full_deltas g
     else concat (map (bit_delta g) (dirty_indices (g_dirty_bits g))))"

definition grid_clear_dirty :: "grid \<Rightarrow> grid" where
  "grid_clear_dirty g =
    g\<lparr>g_dirty_bits := replicate (length (g_dirty_bits g)) 0, g_full_redraw := False\<rparr>"

end
