(* ===== verification/Term_Screen.thy ===== *)
theory Term_Screen
  imports Term_Grid
begin

text \<open>
  The contract of the grid's operations. A grid is well-formed when its tables have the shape
  that the indexing code assumes; a step is tracked when every visible cell whose glyph changed is
  marked dirty (or the whole viewport is); the cursor and the saved cursor lie on the screen. One
  lemma per operation shows that it cannot panic and keeps all three, and the combinators of this
  theory compose them.
\<close>

section \<open>Well-formed grids\<close>

definition grid_wf :: "grid \<Rightarrow> bool" where
  "grid_wf g \<longleftrightarrow>
    0 < g_rows_count g \<and>
    length (g_rows g) = g_rows_count g \<and>
    (\<forall>r\<in>set (g_rows g). length (r_inner r) = g_cols g) \<and>
    length (g_dirty_bits g) = dirty_words (g_cols g) (g_rows_count g) \<and>
    top_margin g \<le> bottom_margin g \<and> bottom_margin g < g_rows_count g \<and>
    length (g_tab_stops g) = g_cols g \<and>
    \<not> g_insert_mode g \<and>
    0 < g_max_scrollback g \<and> length (g_scrollback g) \<le> g_max_scrollback g"

definition point_on :: "grid \<Rightarrow> point \<Rightarrow> bool" where
  "point_on g p \<longleftrightarrow> pt_row p < g_rows_count g \<and> pt_col p < g_cols g"

definition cursor_wf :: "grid \<Rightarrow> bool" where
  "cursor_wf g \<longleftrightarrow> point_on g (g_cursor g) \<and> (\<forall>p. g_saved_cursor g = Some p \<longrightarrow> point_on g p)"

section \<open>Tracked steps\<close>

definition dirty_at :: "u64 list \<Rightarrow> nat \<Rightarrow> bool" where
  "dirty_at bits i \<longleftrightarrow> i div 64 < length bits \<and> bit (bits ! (i div 64)) (i mod 64)"

definition glyph_at :: "grid \<Rightarrow> nat \<Rightarrow> nat \<Rightarrow> glyph" where
  "glyph_at g r c = glyph (r_inner (g_rows g ! r) ! c)"

definition tracked :: "grid \<Rightarrow> grid \<Rightarrow> bool" where
  "tracked g g' \<longleftrightarrow>
    g_cols g' = g_cols g \<and> g_rows_count g' = g_rows_count g \<and>
    (g_full_redraw g \<longrightarrow> g_full_redraw g') \<and>
    (g_full_redraw g' \<or>
      (\<forall>i. dirty_at (g_dirty_bits g) i \<longrightarrow> dirty_at (g_dirty_bits g') i) \<and>
      (\<forall>r<g_rows_count g. \<forall>c<g_cols g.
        glyph_at g' r c \<noteq> glyph_at g r c \<longrightarrow> dirty_at (g_dirty_bits g') (r * g_cols g + c)))"

lemma tracked_refl [intro, simp]: "tracked g g"
  by (simp add: tracked_def)

lemma tracked_trans:
  assumes "tracked g g'" "tracked g' g''"
  shows "tracked g g''"
proof -
  have "dirty_at (g_dirty_bits g'') (r * g_cols g + c)"
    if "\<not> g_full_redraw g''" "r < g_rows_count g" "c < g_cols g" "glyph_at g'' r c \<noteq> glyph_at g r c"
    for r c
  proof (cases "glyph_at g' r c = glyph_at g r c")
    case True
    with assms that show ?thesis by (auto simp: tracked_def)
  next
    case False
    with assms that show ?thesis by (auto simp: tracked_def)
  qed
  with assms show ?thesis by (auto simp: tracked_def)
qed

text \<open>A good step: well-formedness is kept, the change is tracked, the cursor stays on screen.\<close>

definition good :: "grid \<Rightarrow> grid \<Rightarrow> bool" where
  "good g g' \<longleftrightarrow> grid_wf g' \<and> tracked g g' \<and> (cursor_wf g \<longrightarrow> cursor_wf g')"

definition pure_ok :: "(grid \<Rightarrow> grid) \<Rightarrow> bool" where
  "pure_ok f \<longleftrightarrow> (\<forall>g. grid_wf g \<longrightarrow> good g (f g))"

definition step_ok :: "(grid \<Rightarrow> grid option) \<Rightarrow> bool" where
  "step_ok f \<longleftrightarrow> (\<forall>g. grid_wf g \<longrightarrow> (\<exists>g'. f g = Some g' \<and> good g g'))"

lemma goodD:
  "good g g' \<Longrightarrow> grid_wf g'"
  "good g g' \<Longrightarrow> tracked g g'"
  "good g g' \<Longrightarrow> cursor_wf g \<Longrightarrow> cursor_wf g'"
  by (simp_all add: good_def)

lemma good_refl: "grid_wf g \<Longrightarrow> good g g"
  by (simp add: good_def)

lemma good_trans: "good g g' \<Longrightarrow> good g' g'' \<Longrightarrow> good g g''"
  by (auto simp: good_def intro: tracked_trans)

lemma pure_okD: "pure_ok f \<Longrightarrow> grid_wf g \<Longrightarrow> good g (f g)"
  by (simp add: pure_ok_def)

lemma step_okE:
  assumes "step_ok f" "grid_wf g"
  obtains g' where "f g = Some g'" "good g g'"
  using assms by (auto simp: step_ok_def)

lemma pure_ok_comp: "pure_ok f \<Longrightarrow> pure_ok h \<Longrightarrow> pure_ok (\<lambda>g. f (h g))"
  unfolding pure_ok_def by (blast intro: good_trans goodD(1))

lemma pure_ok_funpow [step_intros]: "pure_ok f \<Longrightarrow> pure_ok (f ^^ n)"
proof (induction n)
  case 0
  then show ?case by (simp add: pure_ok_def good_refl)
next
  case (Suc n)
  then show ?case unfolding pure_ok_def by (auto intro: good_trans goodD(1))
qed

lemma step_ok_pure [step_intros]: "pure_ok f \<Longrightarrow> step_ok (\<lambda>g. Some (f g))"
  by (auto simp: step_ok_def pure_ok_def)

lemma step_ok_bind [step_intros]:
  assumes "step_ok f" "step_ok h"
  shows "step_ok (\<lambda>g. Option.bind (f g) h)"
  unfolding step_ok_def
proof (intro allI impI)
  fix g
  assume "grid_wf g"
  then obtain g1 where 1: "f g = Some g1" "good g g1" using assms(1) by (blast elim: step_okE)
  then obtain g2 where 2: "h g1 = Some g2" "good g1 g2"
    using assms(2) by (blast elim: step_okE dest: goodD(1))
  from 1 2 show "\<exists>g'. Option.bind (f g) h = Some g' \<and> good g g'"
    by (auto intro: good_trans)
qed

lemma step_ok_if [step_intros]:
  "step_ok f \<Longrightarrow> step_ok h \<Longrightarrow> step_ok (\<lambda>g. if b g then f g else h g)"
  by (auto simp: step_ok_def)

lemma pure_ok_if [step_intros]:
  "pure_ok f \<Longrightarrow> pure_ok h \<Longrightarrow> pure_ok (\<lambda>g. if b g then f g else h g)"
  by (auto simp: pure_ok_def)

lemma pure_ok_id [step_intros]: "pure_ok (\<lambda>g. g)"
  by (simp add: pure_ok_def good_refl)

lemma step_ok_iter [step_intros]: "step_ok f \<Longrightarrow> step_ok (iter_opt n f)"
proof (induction n)
  case 0
  then show ?case using step_ok_pure [OF pure_ok_id] by simp
next
  case (Suc n)
  then show ?case using step_ok_bind [of f "iter_opt n f"] by simp
qed

section \<open>Dirty bits\<close>

lemma length_set_dirty_bit [simp]: "length (set_dirty_bit bits cols r c) = length bits"
  by (simp add: set_dirty_bit_def Let_def)

lemma dirty_at_set_dirty_bit:
  "dirty_at (set_dirty_bit bits cols r c) i \<longleftrightarrow>
    dirty_at bits i \<or> i = r * cols + c \<and> i div 64 < length bits"
proof -
  define j where "j = r * cols + c"
  have eq: "i = j \<longleftrightarrow> i div 64 = j div 64 \<and> i mod 64 = j mod 64"
    by (metis div_mult_mod_eq)
  have b: "bit (w OR 2 ^ (j mod 64)) (i mod 64) \<longleftrightarrow> bit w (i mod 64) \<or> i mod 64 = j mod 64"
    for w :: u64
    by (auto simp: bit_or_iff bit_exp_iff)
  show ?thesis
  proof (cases "i div 64 < length bits")
    case True
    then show ?thesis
      unfolding dirty_at_def set_dirty_bit_def Let_def length_vec_modify j_def [symmetric]
      by (cases "i div 64 = j div 64") (simp_all add: nth_vec_modify b eq)
  next
    case False
    then show ?thesis by (simp add: dirty_at_def set_dirty_bit_def Let_def)
  qed
qed

text \<open>Every marking operation is a fold of single marks over a list of positions.\<close>

definition mark_all :: "(nat \<times> nat) list \<Rightarrow> grid \<Rightarrow> grid" where
  "mark_all ps g = fold (\<lambda>(r, c). grid_mark_dirty r c) ps g"

lemma mark_all_Nil [simp]: "mark_all [] g = g"
  by (simp add: mark_all_def)

lemma mark_all_Cons: "mark_all ((r, c) # ps) g = mark_all ps (grid_mark_dirty r c g)"
  by (simp add: mark_all_def)

lemma mark_all_append: "mark_all (ps @ qs) g = mark_all qs (mark_all ps g)"
  by (simp add: mark_all_def)

lemma mark_all_eq:
  "\<exists>bits. mark_all ps g = g\<lparr>g_dirty_bits := bits\<rparr> \<and> length bits = length (g_dirty_bits g) \<and>
    (\<forall>i. dirty_at bits i \<longleftrightarrow> dirty_at (g_dirty_bits g) i \<or>
      i div 64 < length bits \<and> (\<exists>(r, c)\<in>set ps. i = r * g_cols g + c))"
proof (induction ps arbitrary: g)
  case Nil
  show ?case by (rule exI [of _ "g_dirty_bits g"]) simp
next
  case (Cons p ps)
  obtain r c where p: "p = (r, c)" by (cases p)
  obtain bits where b: "mark_all ps (grid_mark_dirty r c g) = (grid_mark_dirty r c g)\<lparr>g_dirty_bits := bits\<rparr>"
      "length bits = length (g_dirty_bits g)"
      "\<And>i. dirty_at bits i \<longleftrightarrow> dirty_at (set_dirty_bit (g_dirty_bits g) (g_cols g) r c) i \<or>
        i div 64 < length bits \<and> (\<exists>(r, c)\<in>set ps. i = r * g_cols g + c)"
    using Cons.IH [of "grid_mark_dirty r c g"] by (auto simp: grid_mark_dirty_def)
  have "mark_all (p # ps) g = g\<lparr>g_dirty_bits := bits\<rparr>"
    using b(1) by (simp add: p mark_all_Cons grid_mark_dirty_def)
  then show ?case using b(2,3) by (intro exI [of _ bits]) (auto simp: p dirty_at_set_dirty_bit)
qed

lemma mark_all_cols [simp]: "g_cols (mark_all ps g) = g_cols g"
  using mark_all_eq [of ps g] by auto

lemma mark_one_all: "grid_mark_dirty r c g = mark_all [(r, c)] g"
  by (simp add: mark_all_Cons)

lemma mark_cols_all: "mark_cols_dirty r cs g = mark_all (map (Pair r) cs) g"
  by (simp add: mark_cols_dirty_def mark_all_def fold_map o_def)

lemma mark_row_all: "mark_row_dirty r g = mark_all (map (Pair r) [0..<g_cols g]) g"
  by (simp add: mark_row_dirty_def mark_cols_all)

lemma mark_rows_all:
  "mark_rows_dirty rs g = mark_all (concat (map (\<lambda>r. map (Pair r) [0..<g_cols g]) rs)) g"
proof (induction rs arbitrary: g)
  case Nil
  then show ?case by (simp add: mark_rows_dirty_def)
next
  case (Cons r rs)
  then show ?case by (simp add: mark_rows_dirty_def mark_row_all mark_all_append)
qed

lemmas mark_alls = mark_one_all mark_cols_all mark_row_all mark_rows_all mark_all_append [symmetric]

lemma dirty_words_bound: "r < rows \<Longrightarrow> c < cols \<Longrightarrow> (r * cols + c) div 64 < dirty_words cols rows"
proof -
  assume "r < rows" "c < cols"
  then have "r * cols + c < Suc r * cols" by simp
  also have "\<dots> \<le> rows * cols" using \<open>r < rows\<close> by (intro mult_le_mono1) simp
  finally show ?thesis unfolding dirty_words_def by (simp add: mult.commute div_less_iff_less_mult)
qed

section \<open>Three kinds of good steps\<close>

text \<open>
  An edit of the rows followed by marking the positions it may have changed; a change that ends
  in a full redraw; and a change of attributes that no visible cell depends on.
\<close>

definition same_shape :: "grid \<Rightarrow> row list \<Rightarrow> bool" where
  "same_shape g rs \<longleftrightarrow> length rs = g_rows_count g \<and> (\<forall>r\<in>set rs. length (r_inner r) = g_cols g)"

lemma grid_wf_same_shape: "grid_wf g \<Longrightarrow> same_shape g (g_rows g)"
  by (simp add: grid_wf_def same_shape_def)

lemma good_edit:
  assumes wf: "grid_wf g" and shape: "same_shape g rs"
    and keep: "\<And>r c. r < g_rows_count g \<Longrightarrow> c < g_cols g \<Longrightarrow> (r, c) \<notin> set ps \<Longrightarrow>
      glyph (r_inner (rs ! r) ! c) = glyph_at g r c"
  shows "good g (mark_all ps (g\<lparr>g_rows := rs\<rparr>))"
proof -
  obtain bits where b: "mark_all ps (g\<lparr>g_rows := rs\<rparr>) = g\<lparr>g_rows := rs, g_dirty_bits := bits\<rparr>"
      "length bits = length (g_dirty_bits g)"
      "\<And>i. dirty_at bits i \<longleftrightarrow> dirty_at (g_dirty_bits g) i \<or>
        i div 64 < length bits \<and> (\<exists>(r, c)\<in>set ps. i = r * g_cols g + c)"
    using mark_all_eq [of ps "g\<lparr>g_rows := rs\<rparr>"] by auto
  have "dirty_at bits (r * g_cols g + c)"
    if "r < g_rows_count g" "c < g_cols g" "glyph (r_inner (rs ! r) ! c) \<noteq> glyph_at g r c" for r c
  proof -
    have "(r, c) \<in> set ps" using keep that by blast
    moreover have "(r * g_cols g + c) div 64 < length bits"
      using b(2) wf that by (simp add: grid_wf_def dirty_words_bound)
    ultimately show ?thesis using b(3) by blast
  qed
  then have "tracked g (g\<lparr>g_rows := rs, g_dirty_bits := bits\<rparr>)"
    using b(3) by (auto simp: tracked_def glyph_at_def)
  moreover have "grid_wf (g\<lparr>g_rows := rs, g_dirty_bits := bits\<rparr>)"
    using wf shape b(2) by (simp add: grid_wf_def same_shape_def)
  ultimately show ?thesis using b(1) by (simp add: good_def cursor_wf_def point_on_def)
qed

lemma good_redraw:
  "grid_wf g' \<Longrightarrow> g_cols g' = g_cols g \<Longrightarrow> g_rows_count g' = g_rows_count g \<Longrightarrow> g_full_redraw g' \<Longrightarrow>
    (cursor_wf g \<Longrightarrow> cursor_wf g') \<Longrightarrow> good g g'"
  by (simp add: good_def tracked_def)

lemmas attr_defs = good_def grid_wf_def tracked_def glyph_at_def cursor_wf_def point_on_def

end
