(* ===== verification/Term_Steps.thy ===== *)
theory Term_Steps
  imports Term_Screen
begin

text \<open>
  Every operation of the grid is a good step: it does not panic on a well-formed grid, it keeps
  the grid well-formed and the cursor on screen, and it marks what it changes. Resizing is the one
  operation that changes the dimensions and is treated at the end.
\<close>

section \<open>Attributes and cursor\<close>

lemma pure_ok_attr:
  assumes "\<And>g. g_rows (f g) = g_rows g" "\<And>g. g_cols (f g) = g_cols g"
    "\<And>g. g_rows_count (f g) = g_rows_count g" "\<And>g. g_dirty_bits (f g) = g_dirty_bits g"
    "\<And>g. g_full_redraw (f g) = g_full_redraw g" "\<And>g. g_insert_mode (f g) = g_insert_mode g"
    "\<And>g. g_max_scrollback (f g) = g_max_scrollback g"
    "\<And>g. length (g_tab_stops (f g)) = length (g_tab_stops g)"
    "\<And>g. length (g_scrollback (f g)) \<le> length (g_scrollback g)"
    "\<And>g. grid_wf g \<Longrightarrow> top_margin (f g) \<le> bottom_margin (f g) \<and> bottom_margin (f g) < g_rows_count g"
    "\<And>g. grid_wf g \<Longrightarrow> cursor_wf g \<Longrightarrow> cursor_wf (f g)"
  shows "pure_ok f"
  unfolding pure_ok_def good_def
proof (intro allI impI conjI)
  fix g assume wf: "grid_wf g"
  show "grid_wf (f g)" using assms(10) [OF wf] wf le_trans [OF assms(9) [of g]]
    by (simp add: grid_wf_def assms)
  show "tracked g (f g)" by (simp add: tracked_def glyph_at_def assms)
  show "cursor_wf (f g)" if "cursor_wf g" by (rule assms(11) [OF wf that])
qed

lemmas cursor_defs = set_cur_row_def set_cur_col_def cursor_wf_def point_on_def grid_wf_def

lemma ok_move_left [step_intros]: "pure_ok (move_cursor_left n)"
  by (rule pure_ok_attr) (auto simp: move_cursor_left_def cursor_defs)

lemma ok_move_right [step_intros]: "pure_ok (move_cursor_right n)"
  by (rule pure_ok_attr) (auto simp: move_cursor_right_def cursor_defs)

lemma ok_move_up [step_intros]: "pure_ok (move_cursor_up n)"
  by (rule pure_ok_attr) (auto simp: move_cursor_up_def cursor_defs)

lemma ok_move_down [step_intros]: "pure_ok (move_cursor_down n)"
  by (rule pure_ok_attr) (auto simp: move_cursor_down_def cursor_defs)

lemma ok_move_to [step_intros]: "pure_ok (move_cursor_to r c)"
  by (rule pure_ok_attr) (auto simp: move_cursor_to_def cursor_defs)

lemma ok_move_to_same_col [step_intros]: "pure_ok (\<lambda>g. move_cursor_to r (cur_col g) g)"
  by (rule pure_ok_attr) (auto simp: move_cursor_to_def cursor_defs)

lemma ok_move_to_col [step_intros]: "pure_ok (move_cursor_to_col c)"
  by (rule pure_ok_attr) (auto simp: move_cursor_to_col_def cursor_defs)

lemma ok_set_cur_col_0 [step_intros]: "pure_ok (set_cur_col 0)"
  by (rule pure_ok_attr) (auto simp: cursor_defs)

lemma ok_carriage_return [step_intros]: "pure_ok carriage_return"
  by (rule pure_ok_attr) (auto simp: carriage_return_def cursor_defs)

lemma next_tab_stop_bound: "next_tab_stop stops k = Some c \<Longrightarrow> k \<le> c \<and> c < length stops \<and> stops ! c"
  by (auto simp: next_tab_stop_def position_Some)

lemma ok_tab [step_intros]: "pure_ok tab"
  by (rule pure_ok_attr)
    (auto simp: tab_def cursor_defs dest: next_tab_stop_bound split: option.splits)

lemma ok_set_tab_stop [step_intros]: "pure_ok set_tab_stop"
  by (rule pure_ok_attr) (auto simp: set_tab_stop_def cursor_defs)

lemma ok_backspace [step_intros]: "pure_ok backspace"
  by (rule pure_ok_attr) (auto simp: backspace_def cursor_defs)

lemma ok_save_cursor [step_intros]: "pure_ok save_cursor"
  by (rule pure_ok_attr) (auto simp: save_cursor_def cursor_defs)

lemma ok_restore_cursor [step_intros]: "pure_ok restore_cursor"
  by (rule pure_ok_attr) (auto simp: restore_cursor_def cursor_defs split: option.splits)

lemma ok_set_scroll_region [step_intros]: "pure_ok (set_scroll_region t b)"
  by (rule pure_ok_attr) (auto simp: set_scroll_region_def cursor_defs Let_def)

lemma ok_set_scroll_region_dep [step_intros]: "pure_ok (\<lambda>g. set_scroll_region t (b g) g)"
  by (rule pure_ok_attr) (auto simp: set_scroll_region_def cursor_defs Let_def)

lemma ok_set_charset [step_intros]: "pure_ok (set_charset d)"
  by (rule pure_ok_attr) (auto simp: set_charset_def cursor_defs)

text \<open>What the contract reads of a grid: an operation that keeps it is a good step.\<close>

definition screen_of ::
  "grid \<Rightarrow> row list \<times> nat \<times> nat \<times> u64 list \<times> bool \<times> bool \<times> nat \<times> bool list \<times> row list \<times>
    scroll_region \<times> point \<times> point option" where
  "screen_of g =
    (g_rows g, g_cols g, g_rows_count g, g_dirty_bits g, g_full_redraw g, g_insert_mode g,
     g_max_scrollback g, g_tab_stops g, g_scrollback g, g_scroll_region g, g_cursor g, g_saved_cursor g)"

lemma pure_ok_frame: "(\<And>g. screen_of (f g) = screen_of g) \<Longrightarrow> pure_ok f"
  by (rule pure_ok_attr) (simp_all add: screen_of_def grid_wf_def cursor_wf_def point_on_def)

lemma set_hyperlink_frame [frame_simps]: "screen_of (set_hyperlink u g) = screen_of g"
  by (simp add: set_hyperlink_def screen_of_def Let_def split: option.split)

lemma sgr_simple_frame [frame_simps]: "screen_of (sgr_simple p g) = screen_of g"
  by (simp add: sgr_simple_def sgr_reset_def sgr_on_def sgr_off_def screen_of_def)

lemma sgr_loop_frame [frame_simps]: "screen_of (sgr_loop ps g) = screen_of g"
proof (induction ps g rule: sgr_loop.induct)
  case (2 p ps g)
  have "screen_of (g\<lparr>g_current_fg := c\<rparr>) = screen_of g" "screen_of (g\<lparr>g_current_bg := c\<rparr>) = screen_of g" for c
    by (simp_all add: screen_of_def)
  with 2 show ?case by (auto simp: sgr_simple_frame split: option.split)
qed simp

lemma set_sgr_frame [frame_simps]: "screen_of (set_sgr ps g) = screen_of g"
  by (simp add: set_sgr_def sgr_loop_frame) (simp add: sgr_reset_def screen_of_def)

lemma ok_set_hyperlink [step_intros]: "pure_ok (set_hyperlink u)"
  by (rule pure_ok_frame) (rule set_hyperlink_frame)

lemma ok_set_sgr [step_intros]: "pure_ok (set_sgr ps)"
  by (rule pure_ok_frame) (rule set_sgr_frame)

lemma ok_field_updates [step_intros]:
  "pure_ok (g_title_update t)" "pure_ok (g_osc52_clipboard_update o')"
  "pure_ok (g_cursor_visible_update v)" "pure_ok (g_bracketed_paste_update p)"
  "pure_ok (g_wrap_next_update w)"
  by (rule pure_ok_frame; simp add: screen_of_def)+

section \<open>Edits of the rows\<close>

text \<open>An edit confined to the positions \<open>ps\<close>; edits compose before they are marked.\<close>

definition confined :: "grid \<Rightarrow> (nat \<times> nat) list \<Rightarrow> row list \<Rightarrow> bool" where
  "confined g ps rs \<longleftrightarrow> same_shape g rs \<and>
    (\<forall>r<g_rows_count g. \<forall>c<g_cols g. (r, c) \<notin> set ps \<longrightarrow> glyph (r_inner (rs ! r) ! c) = glyph_at g r c)"

lemma confined_refl: "grid_wf g \<Longrightarrow> confined g ps (g_rows g)"
  by (simp add: confined_def grid_wf_same_shape glyph_at_def)

lemma good_confined: "grid_wf g \<Longrightarrow> confined g ps rs \<Longrightarrow> good g (mark_all ps (g\<lparr>g_rows := rs\<rparr>))"
  by (rule good_edit) (auto simp: confined_def)

lemma confined_modify:
  assumes conf: "confined g ps rs" and len: "\<And>r. length (r_inner (f r)) = length (r_inner r)"
    and keep: "\<And>r c. c < length (r_inner r) \<Longrightarrow> length (r_inner r) = g_cols g \<Longrightarrow> (i, c) \<notin> set ps \<Longrightarrow>
      glyph (r_inner (f r) ! c) = glyph (r_inner r ! c)"
  shows "confined g ps (vec_modify i f rs)"
proof -
  have shape: "length rs = g_rows_count g" "\<forall>r\<in>set rs. length (r_inner r) = g_cols g"
    using conf by (auto simp: confined_def same_shape_def)
  have "same_shape g (vec_modify i f rs)"
    using shape len by (auto simp: same_shape_def vec_modify_def dest!: set_update_subset_insert [THEN subsetD])
  moreover have "glyph (r_inner (vec_modify i f rs ! r) ! c) = glyph_at g r c"
    if "r < g_rows_count g" "c < g_cols g" "(r, c) \<notin> set ps" for r c
    using that conf shape keep [of c "rs ! r"] by (auto simp: confined_def nth_vec_modify)
  ultimately show ?thesis by (simp add: confined_def)
qed

lemma confined_fold_modify:
  assumes conf: "confined g ps rs" and len: "\<And>r. length (r_inner (f r)) = length (r_inner r)"
    and ps: "\<And>i c. i \<in> set is \<Longrightarrow> c < g_cols g \<Longrightarrow> (i, c) \<in> set ps"
  shows "confined g ps (fold (\<lambda>i. vec_modify i f) is rs)"
  using conf ps
proof (induction "is" arbitrary: rs)
  case (Cons i "is")
  then have "confined g ps (vec_modify i f rs)"
    by (intro confined_modify len) auto
  with Cons show ?case by simp
qed simp

lemmas good_edit_row = good_confined [OF _ confined_modify [OF confined_refl]]

lemma ok_delete_char [step_intros]: "pure_ok delete_char"
  unfolding pure_ok_def
proof (intro allI impI)
  fix g assume wf: "grid_wf g"
  show "good g (delete_char g)" unfolding delete_char_def mark_one_all
    by (cases "cur_row g < g_rows_count g \<and> cur_row g < length (g_rows g)")
      (auto intro!: good_edit_row wf good_refl simp: nth_vec_modify)
qed

lemma ok_set_cell: "pure_ok (grid_set_cell r c x)"
  unfolding pure_ok_def grid_set_cell_def mark_one_all
  by (auto intro!: good_edit_row simp: nth_vec_modify)

lemma ok_insert_chars [step_intros]: "pure_ok (insert_chars n)"
  unfolding pure_ok_def insert_chars_def mark_cols_all
  by (auto intro!: good_edit_row simp: row_insert_chars_inner Let_def nth_append)

lemma ok_delete_chars [step_intros]: "pure_ok (delete_chars n)"
  unfolding pure_ok_def delete_chars_def mark_cols_all
  by (auto intro!: good_edit_row simp: row_delete_chars_inner Let_def nth_append)

lemma fold_clear_inner:
  "r_inner (fold (\<lambda>col. row_clear_cell col t) cols r) =
    fold (\<lambda>col. vec_modify col (cell_reset t)) cols (r_inner r)"
  by (induction cols arbitrary: r) auto

lemma length_fold_modify [simp]: "length (fold (\<lambda>i. vec_modify i f) is xs) = length xs"
  by (induction "is" arbitrary: xs) auto

lemma nth_fold_modify_other: "j \<notin> set is \<Longrightarrow> j < length xs \<Longrightarrow> fold (\<lambda>i. vec_modify i f) is xs ! j = xs ! j"
  by (induction "is" arbitrary: xs) (auto simp: nth_vec_modify)

lemma confined_clear:
  "confined g ps rs \<Longrightarrow> set (map (Pair i) cols) \<subseteq> set ps \<Longrightarrow>
    confined g ps (vec_modify i (fold (\<lambda>col. row_clear_cell col t) cols) rs)"
  by (rule confined_modify) (auto simp: fold_clear_inner nth_fold_modify_other image_subset_iff)

lemma confined_reset:
  "confined g ps rs \<Longrightarrow> (\<And>i c. i \<in> set is \<Longrightarrow> c < g_cols g \<Longrightarrow> (i, c) \<in> set ps) \<Longrightarrow>
    confined g ps (fold (\<lambda>i. vec_modify i (row_reset t)) is rs)"
  by (rule confined_fold_modify) auto

lemma good_clear_cols:
  "grid_wf g \<Longrightarrow> set (map (Pair i) cols) \<subseteq> set ps \<Longrightarrow> good g (mark_all ps (clear_cols i cols g))"
  unfolding clear_cols_def by (intro good_confined confined_clear confined_refl)

lemma good_reset_rows:
  "grid_wf g \<Longrightarrow> (\<And>i c. i \<in> set is \<Longrightarrow> c < g_cols g \<Longrightarrow> (i, c) \<in> set ps) \<Longrightarrow>
    good g (mark_all ps (reset_rows is g))"
  unfolding reset_rows_def by (intro good_confined confined_reset confined_refl) auto

lemma good_reset_clear:
  assumes "grid_wf g" "set (map (Pair i) cols) \<subseteq> set ps"
    "\<And>j c. j \<in> set is \<Longrightarrow> c < g_cols g \<Longrightarrow> (j, c) \<in> set ps"
  shows "good g (mark_all ps (reset_rows is (clear_cols i cols g)))"
    "good g (mark_all ps (clear_cols i cols (reset_rows is g)))"
  using assms good_confined [OF assms(1) confined_reset [OF confined_clear [OF confined_refl]]]
    good_confined [OF assms(1) confined_clear [OF confined_reset [OF confined_refl]]]
  by (simp_all add: reset_rows_def clear_cols_def)

lemma edit_cols [simp]: "g_cols (clear_cols i cols g) = g_cols g" "g_cols (reset_rows is g) = g_cols g"
  by (simp_all add: clear_cols_def reset_rows_def)

lemma ok_erase_line [step_intros]: "pure_ok (erase_line mode)"
  unfolding pure_ok_def erase_line_def Let_def
  by (auto simp: mark_alls simp del: upt_Suc intro!: good_clear_cols good_reset_rows good_refl)

lemma ok_erase_display [step_intros]: "pure_ok (erase_display mode)"
  unfolding pure_ok_def
proof (intro allI impI)
  fix g assume wf: "grid_wf g"
  let ?r = "cur_row g" and ?c = "cur_col g"
  have 0: "good g (mark_rows_dirty [?r + 1..<g_rows_count g] (mark_cols_dirty ?r [?c..<g_cols g]
      (reset_rows [?r + 1..<g_rows_count g] (clear_cols ?r [?c..<g_cols g] g))))"
    unfolding mark_alls by (rule good_reset_clear(1) [OF wf]) (force simp del: upt_Suc)+
  have 1: "good g (mark_cols_dirty ?r [0..<?c + 1] (mark_rows_dirty [0..<?r]
      (clear_cols ?r [0..<?c + 1] (reset_rows [0..<?r] g))))"
    unfolding mark_alls by (rule good_reset_clear(2) [OF wf]) (force simp del: upt_Suc)+
  have 2: "good g ((reset_rows [0..<g_rows_count g] g)\<lparr>g_full_redraw := True\<rparr>)"
    using confined_reset [OF confined_refl [OF wf], of "[0..<g_rows_count g]" "List.product [0..<g_rows_count g] [0..<g_cols g]"
      "g_default_cell g"] wf
    by (intro good_redraw) (auto simp: reset_rows_def confined_def same_shape_def grid_wf_def cursor_wf_def point_on_def)
  have 3: "good g (g\<lparr>g_scrollback := []\<rparr>)"
    using wf by (simp add: attr_defs)
  show "good g (erase_display mode g)"
    unfolding erase_display_def Let_def using 0 1 2 3 good_refl [OF wf] by (simp del: upt_Suc)
qed

section \<open>Scrolling and line editing\<close>

text \<open>
  One scroll or line edit takes a row out of the block between two indices and puts a blank one
  in at the other end of it: the rows outside the block stay, and the shape is kept.
\<close>

definition block_up :: "nat \<Rightarrow> nat \<Rightarrow> 'a \<Rightarrow> 'a list \<Rightarrow> 'a list" where
  "block_up a b x xs = take a xs @ take (b - a) (drop (Suc a) xs) @ x # drop (Suc b) xs"

definition block_down :: "nat \<Rightarrow> nat \<Rightarrow> 'a \<Rightarrow> 'a list \<Rightarrow> 'a list" where
  "block_down a b x xs = take a xs @ x # take (b - a) (drop a xs) @ drop (Suc b) xs"

lemma length_block [simp]:
  "a \<le> b \<Longrightarrow> b < length xs \<Longrightarrow> length (block_up a b x xs) = length xs"
  "a \<le> b \<Longrightarrow> b < length xs \<Longrightarrow> length (block_down a b x xs) = length xs"
  by (auto simp: block_up_def block_down_def)

lemma block_outside:
  assumes "a \<le> b" "b < length xs" "i < length xs" "i < a \<or> b < i"
  shows "block_up a b x xs ! i = xs ! i" "block_down a b x xs ! i = xs ! i"
proof -
  obtain m where b: "b = a + m" using assms(1) by (auto simp: le_iff_add)
  have "block_up a b x xs ! i = xs ! i \<and> block_down a b x xs ! i = xs ! i"
  proof (cases "i < a")
    case True
    then show ?thesis using assms by (simp add: block_up_def block_down_def nth_append)
  next
    case False
    then obtain k where i: "i = Suc (b + k)" using assms(4) less_iff_Suc_add by auto
    show ?thesis using assms(2,3) by (auto simp add: block_up_def block_down_def nth_append i b min_def ac_simps)
  qed
  then show "block_up a b x xs ! i = xs ! i" "block_down a b x xs ! i = xs ! i" by auto
qed

lemma set_block:
  "set (block_up a b x xs) \<subseteq> insert x (set xs)"
  "set (block_down a b x xs) \<subseteq> insert x (set xs)"
  by (auto simp: block_up_def block_down_def dest: in_set_takeD in_set_dropD)

lemma remove_insert_up:
  assumes "a \<le> b" "b < length xs"
  shows "Option.bind (vec_remove a xs) (\<lambda>(y, ys). Option.bind (vec_insert b x ys) (k y)) =
    k (xs ! a) (block_up a b x xs)"
  using assms by (auto simp: vec_remove_def vec_insert_def block_up_def min_def add.commute)

lemma remove_insert_down:
  assumes "a \<le> b" "b < length xs"
  shows "Option.bind (vec_remove b xs) (\<lambda>(y, ys). Option.bind (vec_insert a x ys) (k y)) =
    k (xs ! b) (block_down a b x xs)"
  using assms by (auto simp: vec_remove_def vec_insert_def block_down_def min_def drop_take)

lemma insert_remove_down:
  assumes "a \<le> b" "b < length xs"
  shows "Option.bind (vec_insert a x xs) (\<lambda>ys. Option.bind (vec_remove (b + 1) ys) (\<lambda>(y, zs). k zs)) =
    k (block_down a b x xs)"
  using assms by (simp add: vec_remove_def vec_insert_def block_down_def min_def Suc_diff_le)

lemma grid_wfD:
  assumes "grid_wf g"
  shows "0 < g_rows_count g" "length (g_rows g) = g_rows_count g"
    "top_margin g \<le> bottom_margin g" "bottom_margin g < g_rows_count g"
    "length (g_dirty_bits g) = dirty_words (g_cols g) (g_rows_count g)"
    "r \<in> set (g_rows g) \<Longrightarrow> length (r_inner r) = g_cols g"
  using assms by (simp_all add: grid_wf_def)

lemma scroll_up_once_eq:
  "grid_wf g \<Longrightarrow> scroll_up_once g = Some (g\<lparr>
     g_scrollback := (if top_margin g = 0
       then push_scrollback (g_max_scrollback g) (g_rows g ! top_margin g) (g_scrollback g) else g_scrollback g),
     g_rows := block_up (top_margin g) (bottom_margin g) (row_new (g_cols g)) (g_rows g)\<rparr>)"
  unfolding scroll_up_once_def Let_def by (simp add: remove_insert_up grid_wfD)

lemma scroll_down_once_eq:
  "grid_wf g \<Longrightarrow> scroll_down_once g =
    Some (g\<lparr>g_rows := block_down (top_margin g) (bottom_margin g) (row_new (g_cols g)) (g_rows g)\<rparr>)"
  unfolding scroll_down_once_def by (simp add: remove_insert_down grid_wfD)

lemma insert_line_once_eq:
  "b < length (g_rows g) \<Longrightarrow> a \<le> b \<Longrightarrow> insert_line_once a b g =
    Some (g\<lparr>g_rows := block_down a b (row_new (g_cols g)) (g_rows g)\<rparr>)"
  unfolding insert_line_once_def by (subst insert_remove_down) auto

lemma delete_line_once_eq:
  "b < length (g_rows g) \<Longrightarrow> a \<le> b \<Longrightarrow> delete_line_once a b g =
    Some (g\<lparr>g_rows := block_up a b (row_new (g_cols g)) (g_rows g)\<rparr>)"
  unfolding delete_line_once_def by (subst remove_insert_up) auto

lemma same_shape_block:
  assumes "same_shape g rs" "a \<le> b" "b < g_rows_count g"
  shows "same_shape g (block_up a b (row_new (g_cols g)) rs)"
    "same_shape g (block_down a b (row_new (g_cols g)) rs)"
  using assms set_block [of a b "row_new (g_cols g)" rs] by (auto simp: same_shape_def)

lemma length_push_scrollback: "0 < cap \<Longrightarrow> length sb \<le> cap \<Longrightarrow> length (push_scrollback cap r sb) \<le> cap"
  by (auto simp: push_scrollback_def)

lemma good_but_redraw:
  "grid_wf g \<Longrightarrow> same_shape g rs \<Longrightarrow> length sb \<le> g_max_scrollback g \<Longrightarrow>
    good g (g\<lparr>g_scrollback := sb, g_rows := rs, g_full_redraw := True\<rparr>)"
  by (rule good_redraw) (auto simp: grid_wf_def same_shape_def cursor_wf_def point_on_def)

text \<open>A scroll loop leaves everything but rows and scrollback alone; the final redraw tracks it.\<close>

lemma ok_redraw_loop:
  assumes step: "\<And>g. grid_wf g \<Longrightarrow> \<exists>rs sb. f g = Some (g\<lparr>g_scrollback := sb, g_rows := rs\<rparr>) \<and>
      same_shape g rs \<and> length sb \<le> g_max_scrollback g"
  shows "step_ok (\<lambda>g. Option.bind (iter_opt n f g) (\<lambda>g1. Some (g1\<lparr>g_full_redraw := True\<rparr>)))"
  unfolding step_ok_def
proof (intro allI impI)
  fix g assume wf: "grid_wf g"
  let ?I = "\<lambda>h. \<exists>rs sb. h = g\<lparr>g_scrollback := sb, g_rows := rs\<rparr> \<and> same_shape g rs \<and> length sb \<le> g_max_scrollback g"
  have wf': "grid_wf h" if "?I h" for h using that wf by (auto simp: grid_wf_def same_shape_def)
  have "\<exists>t. iter_opt n f g = Some t \<and> ?I t"
  proof (rule iter_opt_invariant)
    show "?I g" by (intro exI [of _ "g_rows g"] exI [of _ "g_scrollback g"])
      (use wf in \<open>simp add: grid_wf_same_shape grid_wf_def\<close>)
    show "\<exists>t. f h = Some t \<and> ?I t" if h: "?I h" for h
    proof -
      obtain rs sb where "f h = Some (h\<lparr>g_scrollback := sb, g_rows := rs\<rparr>)" "same_shape h rs"
          "length sb \<le> g_max_scrollback h"
        using step [OF wf' [OF h]] by blast
      moreover have "same_shape h = same_shape g" "g_max_scrollback h = g_max_scrollback g"
          "h\<lparr>g_scrollback := sb, g_rows := rs\<rparr> = g\<lparr>g_scrollback := sb, g_rows := rs\<rparr>"
        using h by (auto simp: same_shape_def)
      ultimately show ?thesis by (metis (no_types, lifting))
    qed
  qed
  then obtain rs sb where "iter_opt n f g = Some (g\<lparr>g_scrollback := sb, g_rows := rs\<rparr>)" "same_shape g rs"
      "length sb \<le> g_max_scrollback g" by blast
  with good_but_redraw [OF wf this(2,3)] show "\<exists>g'. Option.bind (iter_opt n f g)
      (\<lambda>g1. Some (g1\<lparr>g_full_redraw := True\<rparr>)) = Some g' \<and> good g g'" by simp
qed

lemma ok_scroll_up [step_intros]: "step_ok (scroll_up n)"
  unfolding scroll_up_def
proof (rule ok_redraw_loop)
  fix g assume wf: "grid_wf g"
  let ?rs = "block_up (top_margin g) (bottom_margin g) (row_new (g_cols g)) (g_rows g)"
  have "same_shape g ?rs" by (intro same_shape_block grid_wf_same_shape grid_wfD wf)
  moreover have "0 < g_max_scrollback g" "length (g_scrollback g) \<le> g_max_scrollback g"
    using wf by (simp_all add: grid_wf_def)
  moreover from this have "length (if top_margin g = 0
      then push_scrollback (g_max_scrollback g) (g_rows g ! top_margin g) (g_scrollback g)
      else g_scrollback g) \<le> g_max_scrollback g"
    by (auto intro: length_push_scrollback)
  ultimately show "\<exists>rs sb. scroll_up_once g = Some (g\<lparr>g_scrollback := sb, g_rows := rs\<rparr>) \<and> same_shape g rs \<and>
      length sb \<le> g_max_scrollback g"
    using scroll_up_once_eq [OF wf] by blast
qed

lemma ok_scroll_down [step_intros]: "step_ok (scroll_down n)"
  unfolding scroll_down_def
proof (rule ok_redraw_loop)
  fix g assume wf: "grid_wf g"
  let ?rs = "block_down (top_margin g) (bottom_margin g) (row_new (g_cols g)) (g_rows g)"
  have "same_shape g ?rs" by (intro same_shape_block grid_wf_same_shape grid_wfD wf)
  then show "\<exists>rs sb. scroll_down_once g = Some (g\<lparr>g_scrollback := sb, g_rows := rs\<rparr>) \<and> same_shape g rs \<and>
      length sb \<le> g_max_scrollback g"
    using wf by (intro exI [of _ ?rs] exI [of _ "g_scrollback g"]) (simp add: scroll_down_once_eq grid_wf_def)
qed

text \<open>The line edits leave the rows outside the block alone and mark the block.\<close>

lemma ok_line_loop:
  assumes wf: "grid_wf g" and a: "a \<le> bottom_margin g"
    and step: "\<And>rs. same_shape g rs \<Longrightarrow> \<exists>rs'. f (g\<lparr>g_rows := rs\<rparr>) = Some (g\<lparr>g_rows := rs'\<rparr>) \<and>
      same_shape g rs' \<and> (\<forall>i<length rs. i < a \<or> bottom_margin g < i \<longrightarrow> rs' ! i = rs ! i)"
  shows "\<exists>g1. iter_opt n f g = Some g1 \<and> good g (mark_rows_dirty [a..<bottom_margin g + 1] g1)"
proof -
  let ?I = "\<lambda>h. \<exists>rs. h = g\<lparr>g_rows := rs\<rparr> \<and> same_shape g rs \<and>
    (\<forall>i<length rs. i < a \<or> bottom_margin g < i \<longrightarrow> rs ! i = g_rows g ! i)"
  have "\<exists>t. iter_opt n f g = Some t \<and> ?I t"
  proof (rule iter_opt_invariant)
    show "?I g" by (rule exI [of _ "g_rows g"]) (simp add: grid_wf_same_shape wf)
    show "\<exists>t. f h = Some t \<and> ?I t" if h: "?I h" for h
    proof -
      obtain rs where rs: "h = g\<lparr>g_rows := rs\<rparr>" "same_shape g rs"
          "\<forall>i<length rs. i < a \<or> bottom_margin g < i \<longrightarrow> rs ! i = g_rows g ! i" using h by blast
      obtain rs' where "f h = Some (g\<lparr>g_rows := rs'\<rparr>)" "same_shape g rs'"
          "\<forall>i<length rs. i < a \<or> bottom_margin g < i \<longrightarrow> rs' ! i = rs ! i"
        using step [OF rs(2)] rs(1) by blast
      moreover have "length rs' = length rs" using calculation(2) rs(2) by (simp add: same_shape_def)
      ultimately show ?thesis using rs(3) by auto
    qed
  qed
  then obtain rs where rs: "iter_opt n f g = Some (g\<lparr>g_rows := rs\<rparr>)" "same_shape g rs"
      "\<forall>i<length rs. i < a \<or> bottom_margin g < i \<longrightarrow> rs ! i = g_rows g ! i" by blast
  have "good g (mark_rows_dirty [a..<bottom_margin g + 1] (g\<lparr>g_rows := rs\<rparr>))"
    unfolding mark_rows_all
  proof (rule good_edit [OF wf rs(2)])
    fix r c
    assume "r < g_rows_count g" "c < g_cols g"
      and out: "(r, c) \<notin> set (concat (map (\<lambda>r. map (Pair r) [0..<g_cols (g\<lparr>g_rows := rs\<rparr>)]) [a..<bottom_margin g + 1]))"
    then have "r < a \<or> bottom_margin g < r" by (force simp del: upt_Suc)
    then show "glyph (r_inner (rs ! r) ! c) = glyph_at g r c"
      using rs(2,3) \<open>r < g_rows_count g\<close> by (auto simp: glyph_at_def same_shape_def)
  qed
  with rs(1) show ?thesis by simp
qed

lemma ok_insert_lines [step_intros]: "step_ok (insert_lines n)"
  unfolding step_ok_def
proof (intro allI impI)
  fix g assume wf: "grid_wf g"
  show "\<exists>g'. insert_lines n g = Some g' \<and> good g g'"
  proof (cases "cur_row g < top_margin g \<or> bottom_margin g < cur_row g")
    case True
    then show ?thesis using wf by (simp add: insert_lines_def good_refl)
  next
    case False
    have "\<exists>g1. iter_opt n (insert_line_once (cur_row g) (bottom_margin g)) g = Some g1 \<and>
        good g (mark_rows_dirty [cur_row g..<bottom_margin g + 1] g1)"
    proof (rule ok_line_loop [OF wf])
      fix rs assume rs: "same_shape g rs"
      let ?rs = "block_down (cur_row g) (bottom_margin g) (row_new (g_cols g)) rs"
      have b: "bottom_margin g < length rs" "cur_row g \<le> bottom_margin g" "bottom_margin g < g_rows_count g"
        using rs False wf by (auto simp: same_shape_def grid_wf_def)
      show "\<exists>rs'. insert_line_once (cur_row g) (bottom_margin g) (g\<lparr>g_rows := rs\<rparr>) = Some (g\<lparr>g_rows := rs'\<rparr>) \<and>
          same_shape g rs' \<and> (\<forall>i<length rs. i < cur_row g \<or> bottom_margin g < i \<longrightarrow> rs' ! i = rs ! i)"
        using b rs by (intro exI [of _ ?rs]) (simp add: insert_line_once_eq same_shape_block block_outside)
    qed (use False in simp)
    then show ?thesis using False by (auto simp: insert_lines_def simp del: upt_Suc)
  qed
qed

lemma ok_delete_lines [step_intros]: "step_ok (delete_lines n)"
  unfolding step_ok_def
proof (intro allI impI)
  fix g assume wf: "grid_wf g"
  show "\<exists>g'. delete_lines n g = Some g' \<and> good g g'"
  proof (cases "cur_row g < top_margin g \<or> bottom_margin g < cur_row g")
    case True
    then show ?thesis using wf by (simp add: delete_lines_def good_refl)
  next
    case False
    have "\<exists>g1. iter_opt n (delete_line_once (cur_row g) (bottom_margin g)) g = Some g1 \<and>
        good g (mark_rows_dirty [cur_row g..<bottom_margin g + 1] g1)"
    proof (rule ok_line_loop [OF wf])
      fix rs assume rs: "same_shape g rs"
      let ?rs = "block_up (cur_row g) (bottom_margin g) (row_new (g_cols g)) rs"
      have b: "bottom_margin g < length rs" "cur_row g \<le> bottom_margin g" "bottom_margin g < g_rows_count g"
        using rs False wf by (auto simp: same_shape_def grid_wf_def)
      show "\<exists>rs'. delete_line_once (cur_row g) (bottom_margin g) (g\<lparr>g_rows := rs\<rparr>) = Some (g\<lparr>g_rows := rs'\<rparr>) \<and>
          same_shape g rs' \<and> (\<forall>i<length rs. i < cur_row g \<or> bottom_margin g < i \<longrightarrow> rs' ! i = rs ! i)"
        using b rs by (intro exI [of _ ?rs]) (simp add: delete_line_once_eq same_shape_block block_outside)
    qed (use False in simp)
    then show ?thesis using False by (auto simp: delete_lines_def simp del: upt_Suc)
  qed
qed

section \<open>Printing, line feed, clear and alternate screen\<close>

lemma ok_cursor_next_row:
  "step_ok (\<lambda>g. if cur_row g = bottom_margin g then scroll_up 1 g
     else if cur_row g + 1 < g_rows_count g then Some (set_cur_row (cur_row g + 1) g) else Some g)"
proof (rule step_ok_if [OF ok_scroll_up])
  have "pure_ok (\<lambda>g. if cur_row g + 1 < g_rows_count g then set_cur_row (cur_row g + 1) g else g)"
    by (rule pure_ok_attr) (auto simp: cursor_defs)
  from step_ok_pure [OF this]
  show "step_ok (\<lambda>g. if cur_row g + 1 < g_rows_count g then Some (set_cur_row (cur_row g + 1) g) else Some g)"
    by (simp only: if_distrib [of Some])
qed

lemma ok_newline [step_intros]: "step_ok newline"
  using step_ok_bind [OF step_ok_pure [OF ok_carriage_return] ok_cursor_next_row]
  by (simp add: newline_def [abs_def] carriage_return_def Let_def)

lemma ok_wrap_flag: "pure_ok (\<lambda>g. g\<lparr>g_rows := vec_modify (cur_row g) (row_set_wrapline True) (g_rows g)\<rparr>)"
  unfolding pure_ok_def using good_edit_row [of _ "row_set_wrapline True" _ "[]"] by simp

lemma ok_take_wrap [step_intros]: "step_ok take_wrap"
proof -
  have "step_ok (\<lambda>g. Option.bind (Some (g\<lparr>g_wrap_next := False\<rparr>)) (\<lambda>g1. Option.bind
    (if cur_row g1 = bottom_margin g1 then scroll_up 1 g1
     else if cur_row g1 + 1 < g_rows_count g1 then Some (set_cur_row (cur_row g1 + 1) g1) else Some g1)
    (\<lambda>g2. Option.bind (Some (set_cur_col 0 g2))
      (\<lambda>g3. Some (g3\<lparr>g_rows := vec_modify (cur_row g3) (row_set_wrapline True) (g_rows g3)\<rparr>)))))"
    by (intro step_ok_bind step_ok_pure ok_cursor_next_row ok_wrap_flag ok_set_cur_col_0 ok_field_updates)
  from step_ok_if [OF this step_ok_pure [OF pure_ok_id]] show ?thesis
    by (simp only: take_wrap_def [abs_def] Let_def Option.bind.simps)
qed

lemma good_cursor_right:
  assumes "grid_wf g"
  shows "good g (if g_cols g \<le> cur_col g + 1 then (if g_auto_wrap g then g\<lparr>g_wrap_next := True\<rparr> else g)
    else (set_cur_col (cur_col g + 1) g)\<lparr>g_wrap_next := False\<rparr>)"
  using assms by (auto simp: attr_defs set_cur_col_def)

lemma ok_put_cell [step_intros]: "pure_ok (put_cell c)"
  unfolding pure_ok_def
proof (intro allI impI)
  fix g assume wf: "grid_wf g"
  let ?g = "grid_mark_dirty (cur_row g) (cur_col g)
    (g\<lparr>g_rows := vec_modify (cur_row g) (row_set_cell (cur_col g) (pen_cell g c)) (g_rows g)\<rparr>)"
  have 1: "good g ?g" unfolding mark_one_all
    by (rule good_edit_row [OF wf wf]) (auto simp: nth_vec_modify)
  have "\<not> g_insert_mode g" using wf by (simp add: grid_wf_def)
  then have "put_cell c g = (if cur_row g < length (g_rows g)
      then (if g_cols ?g \<le> cur_col ?g + 1 then (if g_auto_wrap ?g then ?g\<lparr>g_wrap_next := True\<rparr> else ?g)
        else (set_cur_col (cur_col ?g + 1) ?g)\<lparr>g_wrap_next := False\<rparr>) else g)"
    by (simp add: put_cell_def grid_mark_dirty_def)
  then show "good g (put_cell c g)"
    using good_trans [OF 1 good_cursor_right [OF goodD(1) [OF 1]]] good_refl [OF wf] by simp
qed

lemma ok_insert_char [step_intros]: "step_ok (insert_char c)"
  unfolding insert_char_def [abs_def]
  by (intro step_ok_if step_ok_bind step_ok_pure ok_take_wrap ok_put_cell pure_ok_id)

lemma ok_grid_clear [step_intros]: "pure_ok grid_clear"
  unfolding pure_ok_def
  by (auto intro!: good_redraw simp: grid_clear_def grid_wf_def cursor_wf_def point_on_def)

lemma same_shape_fit: "\<forall>r\<in>set (fit_rows cols rows t rs). length (r_inner r) = cols"
  "length (fit_rows cols rows t rs) = rows"
  by (auto simp: fit_rows_def)

lemma ok_enter_alt [step_intros]: "pure_ok enter_alt_screen"
  unfolding pure_ok_def
proof (intro allI impI)
  fix g assume wf: "grid_wf g"
  then show "good g (enter_alt_screen g)"
    by (cases "g_alt_screen_active g")
      (auto intro!: good_redraw good_refl
        simp: enter_alt_screen_def grid_wf_def cursor_wf_def point_on_def point_default_def)
qed

lemma ok_exit_alt [step_intros]: "pure_ok exit_alt_screen"
  unfolding pure_ok_def
proof (intro allI impI)
  fix g assume wf: "grid_wf g"
  then show "good g (exit_alt_screen g)"
    by (cases "g_alt_screen_active g"; cases "g_alt_saved g")
      (auto intro!: good_redraw good_refl
        simp: exit_alt_screen_def grid_wf_def cursor_wf_def point_on_def same_shape_fit Let_def)
qed

end
