(* ===== verification/Text_Codec.thy ===== *)
theory Text_Codec
  imports Prelude
begin

text \<open>
  The parts of Rust's string library that the modelled code relies on, at the byte level: the
  UTF-8 form of a \<open>char\<close> (\<open>char::encode_utf8\<close>), \<open>str::from_utf8\<close> as a validity test,
  \<open>String::from_utf8_lossy\<close> with its replacement of each maximal ill-formed prefix by
  U+FFFD, \<open>str::chars\<close>, and the decimal forms used by \<open>format!\<close> and \<open>parse\<close>.
\<close>

section \<open>UTF-8\<close>

definition is_scalar :: "uchar \<Rightarrow> bool" where
  "is_scalar c \<longleftrightarrow> c < 0xD800 \<or> 0xE000 \<le> c \<and> c < 0x110000"

definition mk_byte :: "nat \<Rightarrow> u8" where
  "mk_byte n = of_nat n"

definition utf8_encode :: "uchar \<Rightarrow> bytes" where
  "utf8_encode c =
    (if c < 0x80 then [mk_byte c]
     else if c < 0x800 then [mk_byte (0xC0 + c div 64), mk_byte (0x80 + c mod 64)]
     else if c < 0x10000 then
       [mk_byte (0xE0 + c div 4096), mk_byte (0x80 + c div 64 mod 64), mk_byte (0x80 + c mod 64)]
     else
       [mk_byte (0xF0 + c div 262144), mk_byte (0x80 + c div 4096 mod 64),
        mk_byte (0x80 + c div 64 mod 64), mk_byte (0x80 + c mod 64)])"

definition utf8_string :: "uchar list \<Rightarrow> bytes" where
  "utf8_string cs = concat (map utf8_encode cs)"

text \<open>The number of bytes that a lead byte announces, and the range of its second byte.\<close>

definition in_range :: "nat \<Rightarrow> nat \<Rightarrow> u8 \<Rightarrow> bool" where
  "in_range lo hi b \<longleftrightarrow> lo \<le> unat b \<and> unat b \<le> hi"

definition is_cont :: "u8 \<Rightarrow> bool" where
  "is_cont b \<longleftrightarrow> in_range 0x80 0xBF b"

definition second_ok :: "u8 \<Rightarrow> u8 \<Rightarrow> bool" where
  "second_ok b0 b1 =
    (if unat b0 = 0xE0 then in_range 0xA0 0xBF b1
     else if unat b0 = 0xED then in_range 0x80 0x9F b1
     else if unat b0 = 0xF0 then in_range 0x90 0xBF b1
     else if unat b0 = 0xF4 then in_range 0x80 0x8F b1
     else is_cont b1)"

text \<open>
  One step of the decoder on a non-empty input: whether a scalar value starts here, and how many
  bytes it (or the maximal ill-formed prefix) takes. A byte past the end reads as 0, which no
  continuation range contains, as in the standard library's own decoder.
\<close>

definition byte_at :: "bytes \<Rightarrow> nat \<Rightarrow> u8" where
  "byte_at bs i = (case vec_get i bs of Some b \<Rightarrow> b | None \<Rightarrow> 0)"

definition utf8_next :: "bytes \<Rightarrow> bool \<times> nat" where
  "utf8_next bs =
    (let b0 = byte_at bs 0; b1 = byte_at bs 1; b2 = byte_at bs 2; b3 = byte_at bs 3 in
     if unat b0 < 0x80 then (True, 1)
     else if in_range 0xC2 0xDF b0 then (if is_cont b1 then (True, 2) else (False, 1))
     else if in_range 0xE0 0xEF b0 then
       (if \<not> second_ok b0 b1 then (False, 1)
        else if \<not> is_cont b2 then (False, 2) else (True, 3))
     else if in_range 0xF0 0xF4 b0 then
       (if \<not> second_ok b0 b1 then (False, 1)
        else if \<not> is_cont b2 then (False, 2)
        else if \<not> is_cont b3 then (False, 3) else (True, 4))
     else (False, 1))"

lemma utf8_next_pos: "0 < snd (utf8_next bs)"
  by (simp add: utf8_next_def Let_def)

function utf8_lossy :: "bytes \<Rightarrow> bytes" where
  "utf8_lossy bs =
    (if bs = [] then []
     else (if fst (utf8_next bs) then take (snd (utf8_next bs)) bs else [0xEF, 0xBF, 0xBD]) @
       utf8_lossy (drop (snd (utf8_next bs)) bs))"
  by pat_completeness auto
termination
  by (relation "measure length") (auto simp: utf8_next_pos)

function utf8_valid :: "bytes \<Rightarrow> bool" where
  "utf8_valid bs =
    (if bs = [] then True
     else fst (utf8_next bs) \<and> utf8_valid (drop (snd (utf8_next bs)) bs))"
  by pat_completeness auto
termination
  by (relation "measure length") (auto simp: utf8_next_pos)

declare utf8_lossy.simps [simp del] utf8_valid.simps [simp del]

lemma utf8_lossy_Nil [simp]: "utf8_lossy [] = []"
  by (simp add: utf8_lossy.simps)

lemma utf8_valid_Nil [simp]: "utf8_valid []"
  by (simp add: utf8_valid.simps)

text \<open>The scalar value of a well-formed sequence, and \<open>str::chars\<close>.\<close>

definition utf8_decode :: "bytes \<Rightarrow> uchar" where
  "utf8_decode bs =
    (let a = unat (byte_at bs 0); b = unat (byte_at bs 1) mod 64;
         c = unat (byte_at bs 2) mod 64; d = unat (byte_at bs 3) mod 64 in
     if a < 0x80 then a
     else if a < 0xE0 then (a - 0xC0) * 64 + b
     else if a < 0xF0 then (a - 0xE0) * 4096 + b * 64 + c
     else (a - 0xF0) * 262144 + b * 4096 + c * 64 + d)"

function utf8_chars :: "bytes \<Rightarrow> uchar list" where
  "utf8_chars bs =
    (if bs = [] then []
     else utf8_decode bs # utf8_chars (drop (snd (utf8_next bs)) bs))"
  by pat_completeness auto
termination
  by (relation "measure length") (auto simp: utf8_next_pos)

declare utf8_chars.simps [simp del]

lemma utf8_chars_Nil [simp]: "utf8_chars [] = []"
  by (simp add: utf8_chars.simps)

subsection \<open>Lossy decoding of well-formed text is the identity\<close>

lemma utf8_lossy_valid: "utf8_valid bs \<Longrightarrow> utf8_lossy bs = bs"
proof (induction bs rule: utf8_lossy.induct)
  case (1 bs)
  show ?case
  proof (cases "bs = []")
    case False
    with "1.prems" have "fst (utf8_next bs)" "utf8_valid (drop (snd (utf8_next bs)) bs)"
      by (simp_all add: utf8_valid.simps [of bs])
    with False "1.IH" show ?thesis by (simp add: utf8_lossy.simps [of bs])
  qed simp
qed

subsection \<open>Encoding and decoding\<close>

lemma byte_at_simps [simp]:
  "byte_at (x # xs) 0 = x"
  "byte_at (x # xs) (Suc n) = byte_at xs n"
  "byte_at (x # xs) 1 = byte_at xs 0"
  "byte_at (x # xs) 2 = byte_at xs 1"
  "byte_at (x # xs) 3 = byte_at xs 2"
  by (auto simp: byte_at_def vec_get_def numeral_2_eq_2 numeral_3_eq_3)

lemma unat_mk_byte [simp]: "n < 256 \<Longrightarrow> unat (mk_byte n) = n"
  by (simp add: mk_byte_def unat_of_nat)

lemmas u8_range_simps = in_range_def is_cont_def second_ok_def

lemma div_mod_64:
  fixes q :: nat
  shows "q div 64 = 0 \<Longrightarrow> q mod 64 = q"
    and "q div 64 = k \<Longrightarrow> q mod 64 = q - k * 64"
    and "q div 64 * 64 + q mod 64 = q"
  by (simp_all add: minus_mult_div_eq_mod [symmetric] mult.commute)

lemma utf8_next_encode:
  assumes "is_scalar c"
  shows "utf8_next (utf8_encode c @ rest) = (True, length (utf8_encode c))"
proof -
  consider (1) "c < 0x80" | (2) "0x80 \<le> c" "c < 0x800"
    | (3) "0x800 \<le> c" "c < 0x10000" | (4) "0x10000 \<le> c" "c < 0x110000"
    using assms by (force simp: is_scalar_def)
  then show ?thesis
  proof cases
    case 1
    then show ?thesis by (simp add: utf8_next_def utf8_encode_def u8_range_simps)
  next
    case 2
    then have "2 \<le> c div 64" "c div 64 < 32" by simp_all
    with 2 show ?thesis by (simp add: utf8_next_def utf8_encode_def u8_range_simps)
  next
    case 3
    have q: "c div 4096 = c div 64 div 64" by (simp add: div_mult2_eq [symmetric])
    have lo: "32 \<le> c div 64" using 3 by simp
    have "c div 4096 < 16" using 3 by simp
    moreover have "32 \<le> c div 64 mod 64" if "c div 4096 = 0"
      using that lo unfolding q by (simp add: div_mod_64(1))
    moreover have "c div 64 mod 64 < 32" if "c div 4096 = 13"
    proof -
      have "c div 64 < 864 \<or> 896 \<le> c div 64" using assms unfolding is_scalar_def by linarith
      moreover have "c div 64 < 896" using that unfolding q by linarith
      ultimately show ?thesis using that unfolding q by (simp add: div_mod_64(2))
    qed
    ultimately show ?thesis using 3
      by (auto simp: utf8_next_def utf8_encode_def u8_range_simps Let_def)
  next
    case 4
    have q: "c div 262144 = c div 4096 div 64" by (simp add: div_mult2_eq [symmetric])
    have lo: "16 \<le> c div 4096" "c div 4096 < 272" using 4 by simp_all
    have "c div 262144 < 5" using 4 by simp
    moreover have "16 \<le> c div 4096 mod 64" if "c div 262144 = 0"
      using that lo unfolding q by (simp add: div_mod_64(1))
    moreover have "c div 4096 mod 64 < 16" if "c div 262144 = 4"
      using that lo unfolding q by (simp add: div_mod_64(2))
    ultimately show ?thesis using 4
      by (auto simp: utf8_next_def utf8_encode_def u8_range_simps Let_def)
  qed
qed

lemma base64_digits:
  fixes c :: nat
  shows "c div 4096 * 4096 + c div 64 mod 64 * 64 + c mod 64 = c"
    and "c div 262144 * 262144 + c div 4096 mod 64 * 4096 + c div 64 mod 64 * 64 + c mod 64 = c"
proof -
  have q: "c div 4096 = c div 64 div 64" "c div 262144 = c div 4096 div 64"
    by (simp_all add: div_mult2_eq [symmetric])
  show 1: "c div 4096 * 4096 + c div 64 mod 64 * 64 + c mod 64 = c"
    using div_mod_64(3) [of "c div 64"] div_mod_64(3) [of c] q(1) by linarith
  show "c div 262144 * 262144 + c div 4096 mod 64 * 4096 + c div 64 mod 64 * 64 + c mod 64 = c"
    using div_mod_64(3) [of "c div 4096"] 1 q(2) by linarith
qed

lemma cont_byte_mod [simp]: "(128 + m mod 64) mod 64 = m mod (64 :: nat)"
proof -
  have "(128 + m mod 64) mod 64 = (m mod 64 + 2 * 64) mod 64" by (simp add: add.commute)
  also have "\<dots> = m mod 64 mod 64" by (rule mod_mult_self1)
  finally show ?thesis by simp
qed

lemma utf8_decode_encode:
  assumes "is_scalar c"
  shows "utf8_decode (utf8_encode c @ rest) = c"
proof -
  consider (1) "c < 0x80" | (2) "0x80 \<le> c" "c < 0x800"
    | (3) "0x800 \<le> c" "c < 0x10000" | (4) "0x10000 \<le> c" "c < 0x110000"
    using assms by (force simp: is_scalar_def)
  then show ?thesis
  proof cases
    case 2
    then have "c div 64 < 32" by simp
    with 2 show ?thesis
      by (simp add: utf8_decode_def utf8_encode_def div_mod_64(3))
  next
    case 3
    then have "c div 4096 < 16" by simp
    with 3 show ?thesis
      by (simp add: utf8_decode_def utf8_encode_def base64_digits(1))
  next
    case 4
    then have "c div 262144 < 5" by simp
    with 4 show ?thesis
      by (simp add: utf8_decode_def utf8_encode_def base64_digits(2))
  qed (simp add: utf8_decode_def utf8_encode_def)
qed

lemma utf8_encode_neq_Nil [simp]: "utf8_encode c \<noteq> []"
  by (simp add: utf8_encode_def)

lemma utf8_string_simps [simp]:
  "utf8_string [] = []" "utf8_string (c # cs) = utf8_encode c @ utf8_string cs"
  by (simp_all add: utf8_string_def)

lemma utf8_string_append: "utf8_string (as @ bs) = utf8_string as @ utf8_string bs"
  by (simp add: utf8_string_def)

lemma utf8_valid_append_encode:
  "is_scalar c \<Longrightarrow> utf8_valid (utf8_encode c @ rest) = utf8_valid rest"
  by (simp add: utf8_valid.simps [of "utf8_encode c @ rest"] utf8_next_encode)

lemma utf8_valid_string: "\<forall>c\<in>set cs. is_scalar c \<Longrightarrow> utf8_valid (utf8_string cs)"
  by (induction cs) (simp_all add: utf8_valid_append_encode)

lemma utf8_chars_string: "\<forall>c\<in>set cs. is_scalar c \<Longrightarrow> utf8_chars (utf8_string cs) = cs"
proof (induction cs)
  case (Cons c cs)
  then show ?case
    by (simp add: utf8_chars.simps [of "utf8_encode c @ utf8_string cs"] utf8_next_encode
        utf8_decode_encode)
qed simp

section \<open>Text as characters\<close>

text \<open>A \<open>String\<close> whose bytes do not matter is the list of its characters.\<close>

type_synonym ustr = "uchar list"

abbreviation lit :: "string \<Rightarrow> ustr" where
  "lit s \<equiv> map of_char s"

definition to_ascii_uppercase :: "uchar \<Rightarrow> uchar" where
  "to_ascii_uppercase c = (if 97 \<le> c \<and> c \<le> 122 then c - 32 else c)"

section \<open>Decimal numbers\<close>

text \<open>\<open>format!("{}", n)\<close> of an unsigned integer.\<close>

fun dec :: "nat \<Rightarrow> bytes" where
  "dec n = (if n < 10 then [mk_byte (48 + n)] else dec (n div 10) @ [mk_byte (48 + n mod 10)])"

declare dec.simps [simp del]

definition is_digit :: "u8 \<Rightarrow> bool" where
  "is_digit b \<longleftrightarrow> in_range 48 57 b"

definition digits_value :: "bytes \<Rightarrow> nat" where
  "digits_value ds = foldl (\<lambda>acc b. acc * 10 + (unat b - 48)) 0 ds"

text \<open>
  \<open>str::parse\<close> for an unsigned type of the given bound: one optional plus sign, then at least
  one digit and nothing else, and an error when the value does not fit.
\<close>

definition parse_unsigned :: "nat \<Rightarrow> bytes \<Rightarrow> nat option" where
  "parse_unsigned bound s =
    (let ds = (case s of b # rest \<Rightarrow> if b = byte CHR ''+'' then rest else s | [] \<Rightarrow> [])
     in if ds \<noteq> [] \<and> list_all is_digit ds \<and> digits_value ds < bound
        then Some (digits_value ds) else None)"

definition parse_u16 :: "bytes \<Rightarrow> u16 option" where
  "parse_u16 s = map_option of_nat (parse_unsigned (2 ^ 16) s)"

lemma digits_value_snoc: "digits_value (ds @ [b]) = digits_value ds * 10 + (unat b - 48)"
  by (simp add: digits_value_def)

lemma digits_value_dec: "digits_value (dec n) = n"
proof (induction n rule: dec.induct)
  case (1 n)
  show ?case
  proof (cases "n < 10")
    case True
    then show ?thesis by (simp add: dec.simps [of n] digits_value_def)
  next
    case False
    with 1 have "digits_value (dec (n div 10)) = n div 10" by simp
    with False show ?thesis
      by (simp add: dec.simps [of n] digits_value_snoc)
  qed
qed

lemma dec_digits: "list_all is_digit (dec n)"
proof (induction n rule: dec.induct)
  case (1 n)
  have "n mod 10 < 10" by simp
  then show ?case using "1.IH"
    by (cases "n < 10") (simp_all add: dec.simps [of n] is_digit_def in_range_def)
qed

lemma dec_neq_Nil [simp]: "dec n \<noteq> []"
  by (simp add: dec.simps [of n])

lemma parse_unsigned_dec: "n < bound \<Longrightarrow> parse_unsigned bound (dec n) = Some n"
proof -
  assume n: "n < bound"
  obtain b bs where d: "dec n = b # bs" by (cases "dec n") auto
  have "is_digit b" using dec_digits [of n] d by simp
  then have "b \<noteq> byte CHR ''+''" by (auto simp: is_digit_def in_range_def)
  with d n digits_value_dec [of n] dec_digits [of n] show ?thesis
    by (simp add: parse_unsigned_def Let_def)
qed

section \<open>Strings\<close>

text \<open>A Rust \<open>&str\<close>: the UTF-8 form of a list of scalar values.\<close>

definition is_str :: "bytes \<Rightarrow> bool" where
  "is_str bs \<longleftrightarrow> (\<exists>cs. (\<forall>c\<in>set cs. is_scalar c) \<and> bs = utf8_string cs)"

lemma is_str_Nil [simp]: "is_str []"
  unfolding is_str_def by (rule exI [of _ "[]"]) simp

lemma is_str_append: "is_str xs \<Longrightarrow> is_str ys \<Longrightarrow> is_str (xs @ ys)"
proof -
  assume "is_str xs" "is_str ys"
  then obtain as bs where "\<forall>c\<in>set as. is_scalar c" "xs = utf8_string as" "\<forall>c\<in>set bs. is_scalar c" "ys = utf8_string bs"
    by (auto simp: is_str_def)
  then show ?thesis unfolding is_str_def by (intro exI [of _ "as @ bs"]) (auto simp: utf8_string_append)
qed

section \<open>White space\<close>

text \<open>\<open>char::is_whitespace\<close> and \<open>str::trim\<close>.\<close>

definition is_whitespace :: "uchar \<Rightarrow> bool" where
  "is_whitespace c \<longleftrightarrow>
    9 \<le> c \<and> c \<le> 13 \<or> c = 32 \<or> c = 0x85 \<or> c = 0xA0 \<or> c = 0x1680 \<or> 0x2000 \<le> c \<and> c \<le> 0x200A \<or>
    c = 0x2028 \<or> c = 0x2029 \<or> c = 0x202F \<or> c = 0x205F \<or> c = 0x3000"

definition trim_chars :: "uchar list \<Rightarrow> uchar list" where
  "trim_chars cs = rev (dropWhile is_whitespace (rev (dropWhile is_whitespace cs)))"

definition str_trim :: "bytes \<Rightarrow> bytes" where
  "str_trim s = utf8_string (trim_chars (utf8_chars s))"

text \<open>\<open>str::len\<close>, in bytes, and \<open>char::is_control\<close>.\<close>

definition str_len :: "ustr \<Rightarrow> nat" where
  "str_len s = length (utf8_string s)"

definition is_control :: "uchar \<Rightarrow> bool" where
  "is_control c \<longleftrightarrow> c < 0x20 \<or> 0x7F \<le> c \<and> c < 0xA0"

end
