(* ===== verification/Term_Ansi.thy ===== *)
theory Term_Ansi
  imports Term_Grid Text_Codec
begin

text \<open>
  \<open>crates/athena-terminal/src/ansi/ops.rs\<close> and \<open>handler.rs\<close>: the operations collected
  by the escape-sequence parser and their application to the grid. The parser itself is the crate
  \<open>vte\<close>, which only calls the handler's callbacks; the callbacks are modelled, the byte
  automaton is not. Applying an operation yields the new grid and an optional response to be
  written back to the PTY, or \<open>None\<close> for a panic.
\<close>

section \<open>Operations and their collection\<close>

datatype ansi_op =
    Print uchar
  | Execute u8
  | Csi (csi_params: "u16 list") (csi_intermediates: bytes) (csi_ignore: bool) (csi_action: uchar)
  | Osc (osc_params: "bytes list") (osc_bell: bool)
  | Esc (esc_intermediates: bytes) (esc_ignore: bool) (esc_byte: u8)
  | DcsHook (dcs_params: "u16 list") (dcs_intermediates: bytes) (dcs_ignore: bool) (dcs_action: uchar)
  | DcsPut u8
  | DcsUnhook

record ansi_handler =
  h_ops :: "ansi_op list"

definition handler_new :: ansi_handler where
  "handler_new = \<lparr>h_ops = []\<rparr>"

definition handler_clear :: "ansi_handler \<Rightarrow> ansi_handler" where
  "handler_clear h = h\<lparr>h_ops := []\<rparr>"

definition handler_push :: "ansi_op \<Rightarrow> ansi_handler \<Rightarrow> ansi_handler" where
  "handler_push op h = h\<lparr>h_ops := h_ops h @ [op]\<rparr>"

text \<open>The first value of each parameter, 0 for an empty one (sub-parameters are dropped).\<close>

definition first_params :: "u16 list list \<Rightarrow> u16 list" where
  "first_params params = map (\<lambda>p. case p of x # _ \<Rightarrow> x | [] \<Rightarrow> 0) params"

definition handler_print :: "uchar \<Rightarrow> ansi_handler \<Rightarrow> ansi_handler" where
  "handler_print c = handler_push (Print c)"

definition handler_execute :: "u8 \<Rightarrow> ansi_handler \<Rightarrow> ansi_handler" where
  "handler_execute b = handler_push (Execute b)"

definition csi_dispatch :: "u16 list list \<Rightarrow> bytes \<Rightarrow> bool \<Rightarrow> uchar \<Rightarrow> ansi_handler \<Rightarrow> ansi_handler" where
  "csi_dispatch params intermediates ignore action =
    handler_push (Csi (first_params params) intermediates ignore action)"

definition osc_dispatch :: "bytes list \<Rightarrow> bool \<Rightarrow> ansi_handler \<Rightarrow> ansi_handler" where
  "osc_dispatch params bell = handler_push (Osc params bell)"

definition esc_dispatch :: "bytes \<Rightarrow> bool \<Rightarrow> u8 \<Rightarrow> ansi_handler \<Rightarrow> ansi_handler" where
  "esc_dispatch intermediates ignore b = handler_push (Esc intermediates ignore b)"

definition handler_hook :: "u16 list list \<Rightarrow> bytes \<Rightarrow> bool \<Rightarrow> uchar \<Rightarrow> ansi_handler \<Rightarrow> ansi_handler" where
  "handler_hook params intermediates ignore action =
    handler_push (DcsHook (first_params params) intermediates ignore action)"

definition handler_put :: "u8 \<Rightarrow> ansi_handler \<Rightarrow> ansi_handler" where
  "handler_put b = handler_push (DcsPut b)"

definition handler_unhook :: "ansi_handler \<Rightarrow> ansi_handler" where
  "handler_unhook = handler_push DcsUnhook"

section \<open>Base64\<close>

definition b64_val :: "u8 \<Rightarrow> u8 option" where
  "b64_val b =
    (if byte CHR ''A'' \<le> b \<and> b \<le> byte CHR ''Z'' then Some (b - byte CHR ''A'')
     else if byte CHR ''a'' \<le> b \<and> b \<le> byte CHR ''z'' then Some (b - byte CHR ''a'' + 26)
     else if byte CHR ''0'' \<le> b \<and> b \<le> byte CHR ''9'' then Some (b - byte CHR ''0'' + 52)
     else if b = byte CHR ''+'' then Some 62
     else if b = byte CHR ''/'' then Some 63
     else None)"

text \<open>\<open>u8::is_ascii_whitespace\<close>: space, tab, LF, FF, CR.\<close>

definition is_ascii_whitespace :: "u8 \<Rightarrow> bool" where
  "is_ascii_whitespace b \<longleftrightarrow> b \<in> {0x20, 0x09, 0x0A, 0x0C, 0x0D}"

fun b64_loop :: "bytes \<Rightarrow> u32 \<Rightarrow> nat \<Rightarrow> bytes \<Rightarrow> bytes option" where
  "b64_loop [] acc nbits out = Some out"
| "b64_loop (b # bs) acc nbits out =
    (case b64_val b of
       None \<Rightarrow> None
     | Some v \<Rightarrow>
         let acc' = push_bit 6 acc OR ucast v; nbits' = nbits + 6 in
         if 8 \<le> nbits'
         then b64_loop bs acc' (nbits' - 8) (out @ [ucast (drop_bit (nbits' - 8) acc')])
         else b64_loop bs acc' nbits' out)"

definition base64_decode :: "bytes \<Rightarrow> bytes option" where
  "base64_decode input =
    (let clean = filter (\<lambda>b. \<not> is_ascii_whitespace b) input;
         pad = length (takeWhile (\<lambda>b. b = byte CHR ''='') (rev clean));
         body = take (length clean - pad) clean
     in if 2 < length clean - length body \<or> length body mod 4 = 1 then None
        else b64_loop body 0 0 [])"

section \<open>Control sequences\<close>

fun apply_private_mode :: "u16 list \<Rightarrow> bool \<Rightarrow> grid \<Rightarrow> grid" where
  "apply_private_mode [] enable g = g"
| "apply_private_mode (mode # modes) enable g =
    apply_private_mode modes enable
      (if mode = 25 then g\<lparr>g_cursor_visible := enable\<rparr>
       else if mode = 47 \<or> mode = 1047 \<or> mode = 1049
         then (if enable then enter_alt_screen g else exit_alt_screen g)
       else if mode = 1048 then (if enable then save_cursor g else restore_cursor g)
       else if mode = 2004 then g\<lparr>g_bracketed_paste := enable\<rparr>
       else g)"

definition param_or :: "u16 list \<Rightarrow> nat \<Rightarrow> u16 \<Rightarrow> u16" where
  "param_or params idx dflt =
    (case vec_get idx params of
       Some p \<Rightarrow> if p = 0 then dflt else p
     | None \<Rightarrow> dflt)"

abbreviation param_nat :: "u16 list \<Rightarrow> nat \<Rightarrow> u16 \<Rightarrow> nat" where
  "param_nat params idx dflt \<equiv> unat (param_or params idx dflt)"

definition cursor_report :: "grid \<Rightarrow> bytes" where
  "cursor_report g =
    [0x1B, byte CHR ''[''] @ dec (cur_row g + 1) @ [byte CHR '';''] @ dec (cur_col g + 1) @ [byte CHR ''R'']"

definition apply_csi :: "u16 list \<Rightarrow> bytes \<Rightarrow> uchar \<Rightarrow> grid \<Rightarrow> (grid \<times> bytes option) option" where
  "apply_csi params intermediates action g =
    (let n = param_nat params 0 1;
         quiet = map_option (\<lambda>g'. (g', None :: bytes option))
     in
     if action = cp CHR ''A'' then quiet (Some (move_cursor_up n g))
     else if action = cp CHR ''B'' then quiet (Some (move_cursor_down n g))
     else if action = cp CHR ''C'' then quiet (Some (move_cursor_right n g))
     else if action = cp CHR ''D'' then quiet (Some (move_cursor_left n g))
     else if action = cp CHR ''E'' then quiet (Some (move_cursor_to_col 0 (move_cursor_down n g)))
     else if action = cp CHR ''F'' then quiet (Some (move_cursor_to_col 0 (move_cursor_up n g)))
     else if action = cp CHR ''G'' then quiet (Some (move_cursor_to_col (n - 1) g))
     else if action = cp CHR ''H'' then quiet (Some (move_cursor_to (n - 1) (param_nat params 1 1 - 1) g))
     else if action = cp CHR ''I'' then quiet (Some ((tab ^^ n) g))
     else if action = cp CHR ''J'' then quiet (Some (erase_display (param_or params 0 0) g))
     else if action = cp CHR ''K'' then quiet (Some (erase_line (param_or params 0 0) g))
     else if action = cp CHR ''S'' then quiet (iter_opt n (scroll_up 1) g)
     else if action = cp CHR ''T'' then quiet (iter_opt n (scroll_down 1) g)
     else if action = cp CHR ''@'' then quiet (Some (insert_chars n g))
     else if action = cp CHR ''P'' then quiet (Some (delete_chars n g))
     else if action = cp CHR ''X'' then quiet (Some ((delete_char ^^ n) g))
     else if action = cp CHR ''m'' then quiet (Some (set_sgr params g))
     else if action = cp CHR ''s'' then quiet (Some (save_cursor g))
     else if action = cp CHR ''u'' then quiet (Some (restore_cursor g))
     else if action = cp CHR ''n'' \<and> intermediates = [] \<and> param_or params 0 0 = 6
       then Some (g, Some (cursor_report g))
     else if action = cp CHR ''d'' then quiet (Some (move_cursor_to (n - 1) (cur_col g) g))
     else if action = cp CHR ''f'' then quiet (Some (move_cursor_to (n - 1) (param_nat params 1 1 - 1) g))
     else if action = cp CHR ''L'' then quiet (insert_lines n g)
     else if action = cp CHR ''M'' then quiet (delete_lines n g)
     else if action = cp CHR ''r'' \<and> intermediates = [] then
       quiet (Some (move_cursor_to 0 0
         (set_scroll_region (n - 1) (param_nat params 1 (of_nat (g_rows_count g)) - 1) g)))
     else if action = cp CHR ''h'' \<and> intermediates = [byte CHR ''?'']
       then quiet (Some (apply_private_mode params True g))
     else if action = cp CHR ''l'' \<and> intermediates = [byte CHR ''?'']
       then quiet (Some (apply_private_mode params False g))
     else quiet (Some g))"

section \<open>Other operations\<close>

definition reverse_index :: "grid \<Rightarrow> grid option" where
  "reverse_index g = (if cur_row g = top_margin g then scroll_down 1 g else Some (move_cursor_up 1 g))"

definition apply_execute :: "u8 \<Rightarrow> grid \<Rightarrow> grid option" where
  "apply_execute b g =
    (if b = 0x07 then Some g
     else if b = 0x08 then Some (move_cursor_left 1 g)
     else if b = 0x09 then Some (tab g)
     else if b = 0x0A then newline g
     else if b = 0x0B then newline g
     else if b = 0x0C then newline g
     else if b = 0x0D then Some (carriage_return g)
     else if b = 0x85 then newline (carriage_return g)
     else if b = 0x88 then Some (set_tab_stop g)
     else if b = 0x8D then reverse_index g
     else Some g)"

definition apply_esc :: "bytes \<Rightarrow> u8 \<Rightarrow> grid \<Rightarrow> grid option" where
  "apply_esc intermediates b g =
    (if b = byte CHR ''7'' then Some (save_cursor g)
     else if b = byte CHR ''8'' then Some (restore_cursor g)
     else if b = byte CHR ''M'' then reverse_index g
     else if b = byte CHR ''c'' then Some (move_cursor_to 0 0 (grid_clear g))
     else if b = byte CHR ''H'' \<and> intermediates = [] then Some (set_tab_stop g)
     else if intermediates = [byte CHR ''(''] then Some (set_charset b g)
     else Some g)"

definition MAX_OSC52_BYTES :: nat where
  "MAX_OSC52_BYTES = 1024 * 1024"

definition osc52_text :: "bytes \<Rightarrow> bytes option" where
  "osc52_text payload =
    (if length payload \<le> MAX_OSC52_BYTES * 4 div 3
     then (case base64_decode payload of
         Some t \<Rightarrow> if utf8_valid t \<and> length t \<le> MAX_OSC52_BYTES then Some t else None
       | None \<Rightarrow> None)
     else None)"

definition apply_osc :: "bytes list \<Rightarrow> grid \<Rightarrow> grid" where
  "apply_osc params g =
    (case params of
       [] \<Rightarrow> g
     | p0 # _ \<Rightarrow>
       (case parse_u16 (utf8_lossy p0) of
          None \<Rightarrow> g
        | Some n \<Rightarrow>
            if n \<le> 2 \<and> 1 < length params then g\<lparr>g_title := utf8_lossy (params ! 1)\<rparr>
            else if n = 8 \<and> 2 < length params then set_hyperlink (Some (utf8_lossy (params ! 2))) g
            else if n = 8 then set_hyperlink None g
            else if n = 52 \<and> 2 < length params then
              (case osc52_text (params ! 2) of
                 Some t \<Rightarrow> g\<lparr>g_osc52_clipboard := Some t\<rparr>
               | None \<Rightarrow> g)
            else g))"

fun apply_op :: "ansi_op \<Rightarrow> grid \<Rightarrow> (grid \<times> bytes option) option" where
  "apply_op (Print c) g = map_option (\<lambda>g'. (g', None)) (insert_char (map_charset g c) g)"
| "apply_op (Execute b) g = map_option (\<lambda>g'. (g', None)) (apply_execute b g)"
| "apply_op (Csi params intermediates ignore action) g = apply_csi params intermediates action g"
| "apply_op (Esc intermediates ignore b) g = map_option (\<lambda>g'. (g', None)) (apply_esc intermediates b g)"
| "apply_op (Osc params bell) g = Some (apply_osc params g, None)"
| "apply_op (DcsHook params intermediates ignore action) g = Some (g, None)"
| "apply_op (DcsPut b) g = Some (g, None)"
| "apply_op DcsUnhook g = Some (g, None)"

fun apply_ops_with_responses :: "ansi_op list \<Rightarrow> grid \<Rightarrow> (grid \<times> bytes list) option" where
  "apply_ops_with_responses [] g = Some (g, [])"
| "apply_ops_with_responses (op # ops) g = do {
     (g1, resp) \<leftarrow> apply_op op g;
     (g2, resps) \<leftarrow> apply_ops_with_responses ops g1;
     Some (g2, (case resp of Some r \<Rightarrow> r # resps | None \<Rightarrow> resps))
   }"

definition apply_ops :: "ansi_op list \<Rightarrow> grid \<Rightarrow> grid option" where
  "apply_ops ops g = map_option fst (apply_ops_with_responses ops g)"

end
