(* ===== verification/Term_Machine.thy ===== *)
theory Term_Machine
  imports Term_Steps Term_Ansi
begin

text \<open>
  The terminal as a state machine. The interface of a machine that runs a list of operations
  is stated once: a step that is total on the invariant and moves along a preorder. The ANSI
  interpreter is an instance of it, with well-formed grids as the invariant and tracked change as
  the preorder, so that every sequence of operations is panic-free, keeps the grid well-formed and
  leaves exactly the right cells marked for the front end.
\<close>

section \<open>The interface\<close>

locale op_machine =
  fixes step :: "'o \<Rightarrow> 's \<Rightarrow> ('s \<times> 'r option) option"
    and run :: "'o list \<Rightarrow> 's \<Rightarrow> ('s \<times> 'r list) option"
    and inv :: "'s \<Rightarrow> bool"
    and reach :: "'s \<Rightarrow> 's \<Rightarrow> bool"
  assumes run_Nil: "run [] s = Some (s, [])"
    and run_Cons: "run (x # xs) s = Option.bind (step x s) (\<lambda>(s1, r). Option.bind (run xs s1)
      (\<lambda>(s2, rs). Some (s2, (case r of Some y \<Rightarrow> y # rs | None \<Rightarrow> rs))))"
    and step_safe: "inv s \<Longrightarrow> \<exists>s' r. step x s = Some (s', r) \<and> inv s' \<and> reach s s'"
    and reach_refl: "reach s s"
    and reach_trans: "reach s t \<Longrightarrow> reach t u \<Longrightarrow> reach s u"
begin

lemma run_safe: "inv s \<Longrightarrow> \<exists>s' rs. run xs s = Some (s', rs) \<and> inv s' \<and> reach s s'"
proof (induction xs arbitrary: s)
  case Nil
  then show ?case by (simp add: run_Nil reach_refl)
next
  case (Cons x xs)
  from Cons.prems obtain s1 r where 1: "step x s = Some (s1, r)" "inv s1" "reach s s1"
    using step_safe by blast
  from Cons.IH [OF 1(2)] obtain s2 rs where "run xs s1 = Some (s2, rs)" "inv s2" "reach s1 s2" by blast
  with 1 show ?case by (auto simp: run_Cons intro: reach_trans)
qed

lemma run_append:
  "run (xs @ ys) s = Option.bind (run xs s) (\<lambda>(s1, rs). Option.bind (run ys s1) (\<lambda>(s2, qs). Some (s2, rs @ qs)))"
proof (induction xs arbitrary: s)
  case Nil
  show ?case by (cases "run ys s") (auto simp: run_Nil)
next
  case (Cons x xs)
  then show ?case by (cases "step x s") (auto simp: run_Cons split: option.splits Option.bind_splits)
qed

lemma run_responses: "inv s \<Longrightarrow> run xs s = Some (s', rs) \<Longrightarrow> length rs \<le> length xs"
proof (induction xs arbitrary: s s' rs)
  case Nil
  then show ?case by (simp add: run_Nil)
next
  case (Cons x xs)
  from Cons.prems(1) obtain s1 r where 1: "step x s = Some (s1, r)" "inv s1"
    using step_safe by blast
  with Cons.prems(2) obtain rs1 where "run xs s1 = Some (s', rs1)" "rs = (case r of Some y \<Rightarrow> y # rs1 | None \<Rightarrow> rs1)"
    by (auto simp: run_Cons split: Option.bind_splits)
  with Cons.IH [OF 1(2)] show ?case by (auto split: option.splits)
qed

end

section \<open>Every operation is a good step\<close>

definition resp_ok :: "(grid \<Rightarrow> (grid \<times> bytes option) option) \<Rightarrow> bool" where
  "resp_ok f \<longleftrightarrow> (\<forall>g. grid_wf g \<longrightarrow> (\<exists>g' r. f g = Some (g', r) \<and> good g g'))"

lemma resp_ok_if: "resp_ok f \<Longrightarrow> resp_ok h \<Longrightarrow> resp_ok (\<lambda>g. if b g then f g else h g)"
  by (auto simp: resp_ok_def)

lemma resp_ok_quiet: "step_ok f \<Longrightarrow> resp_ok (\<lambda>g. map_option (\<lambda>g'. (g', None)) (f g))"
  unfolding resp_ok_def step_ok_def by fastforce

lemma resp_ok_some: "pure_ok f \<Longrightarrow> resp_ok (\<lambda>g. Some (f g, r g))"
  by (auto simp: resp_ok_def pure_ok_def)

lemma ok_private_mode [step_intros]: "pure_ok (apply_private_mode modes enable)"
proof (induction modes)
  case Nil
  then show ?case using pure_ok_id by simp
next
  case (Cons mode modes)
  have "pure_ok (\<lambda>g. if mode = 25 then g\<lparr>g_cursor_visible := enable\<rparr>
       else if mode = 47 \<or> mode = 1047 \<or> mode = 1049
         then (if enable then enter_alt_screen g else exit_alt_screen g)
       else if mode = 1048 then (if enable then save_cursor g else restore_cursor g)
       else if mode = 2004 then g\<lparr>g_bracketed_paste := enable\<rparr>
       else g)"
    by (intro pure_ok_if ok_field_updates ok_enter_alt ok_exit_alt ok_save_cursor ok_restore_cursor pure_ok_id)
  from pure_ok_comp [OF Cons this] show ?case by simp
qed

lemma ok_set_margins: "pure_ok (\<lambda>g. move_cursor_to 0 0 (set_scroll_region t (b g) g))"
  by (rule pure_ok_comp [OF ok_move_to ok_set_scroll_region_dep])

lemma resp_ok_csi: "resp_ok (apply_csi params intermediates action)"
  unfolding apply_csi_def [abs_def] Let_def
  by (intro resp_ok_if resp_ok_quiet resp_ok_some pure_ok_id step_ok_pure step_ok_iter
      pure_ok_comp [OF ok_move_to_col ok_move_down] pure_ok_comp [OF ok_move_to_col ok_move_up]
      ok_set_margins pure_ok_funpow step_intros)

lemma step_ok_if_const: "step_ok f \<Longrightarrow> step_ok h \<Longrightarrow> step_ok (\<lambda>g. if b then f g else h g)"
  by (auto simp: step_ok_def)

lemma ok_reverse_index [step_intros]: "step_ok reverse_index"
  unfolding reverse_index_def [abs_def]
  by (intro step_ok_if ok_scroll_down step_ok_pure ok_move_up)

lemma ok_execute [step_intros]: "step_ok (apply_execute b)"
proof -
  have nel: "step_ok (\<lambda>g. newline (carriage_return g))"
    using step_ok_bind [OF step_ok_pure [OF ok_carriage_return] ok_newline] by simp
  show ?thesis unfolding apply_execute_def [abs_def]
    by (intro step_ok_if nel ok_newline ok_reverse_index step_ok_pure pure_ok_id
        ok_move_left ok_tab ok_carriage_return ok_set_tab_stop)
qed

lemma ok_esc [step_intros]: "step_ok (apply_esc intermediates b)"
  unfolding apply_esc_def [abs_def]
  by (intro step_ok_if ok_reverse_index step_ok_pure pure_ok_comp [OF ok_move_to ok_grid_clear] pure_ok_id
      ok_save_cursor ok_restore_cursor ok_set_tab_stop ok_set_charset)

lemma apply_osc_frame [frame_simps]: "screen_of (apply_osc params g) = screen_of g"
proof -
  have "screen_of (g\<lparr>g_title := t\<rparr>) = screen_of g" "screen_of (g\<lparr>g_osc52_clipboard := o'\<rparr>) = screen_of g" for t o'
    by (simp_all add: screen_of_def)
  then show ?thesis
    by (auto simp: apply_osc_def set_hyperlink_frame split: list.split option.split)
qed

lemma resp_ok_op: "resp_ok (apply_op op)"
proof (cases op)
  case (Print c)
  have "step_ok (\<lambda>g. insert_char (map_charset g c) g)"
    using ok_insert_char by (simp add: step_ok_def)
  from resp_ok_quiet [OF this] show ?thesis by (simp add: Print [abs_def] resp_ok_def)
next
  case (Execute b)
  show ?thesis using resp_ok_quiet [OF ok_execute [of b]] by (simp add: Execute resp_ok_def)
next
  case (Csi params intermediates ignore action)
  show ?thesis using resp_ok_csi by (simp add: Csi resp_ok_def)
next
  case (Osc params bell)
  have "pure_ok (apply_osc params)" by (rule pure_ok_frame) (rule apply_osc_frame)
  then show ?thesis by (simp add: Osc resp_ok_def pure_ok_def)
next
  case (Esc intermediates ignore b)
  show ?thesis using resp_ok_quiet [OF ok_esc [of intermediates b]] by (simp add: Esc resp_ok_def)
qed (simp_all add: resp_ok_def good_refl)

text \<open>The preorder of the machine: the change is tracked and an on-screen cursor stays on screen.\<close>

definition advances :: "grid \<Rightarrow> grid \<Rightarrow> bool" where
  "advances g g' \<longleftrightarrow> tracked g g' \<and> (cursor_wf g \<longrightarrow> cursor_wf g')"

interpretation term_machine: op_machine apply_op apply_ops_with_responses grid_wf advances
proof unfold_locales
  show "\<exists>g' r. apply_op x g = Some (g', r) \<and> grid_wf g' \<and> advances g g'" if "grid_wf g" for g x
    using resp_ok_op [of x] that unfolding resp_ok_def good_def advances_def by blast
  show "advances g g''" if "advances g g'" "advances g' g''" for g g' g''
    using that by (auto simp: advances_def intro: tracked_trans)
qed (simp_all add: advances_def)

section \<open>New and resized grids\<close>

lemma grid_wf_new: "0 < rows \<Longrightarrow> grid_wf (grid_new cols rows)"
  by (auto simp: grid_wf_def grid_new_def)

lemma cursor_wf_new: "0 < rows \<Longrightarrow> 0 < cols \<Longrightarrow> cursor_wf (grid_new cols rows)"
  by (auto simp: cursor_wf_def point_on_def grid_new_def point_default_def)

lemma length_resize_tab_stops [simp]: "length (resize_tab_stops old cols stops) = cols"
proof -
  have "length (fold (\<lambda>col ss. if col mod 8 = 0 \<and> col < length ss \<and> old \<le> col then ss[col := True] else ss) xs ss)
      = length ss" for xs and ss :: "bool list"
    by (induction xs arbitrary: ss) auto
  then show ?thesis by (simp add: resize_tab_stops_def)
qed

lemma grid_wf_resize: "grid_wf g \<Longrightarrow> 0 < rows \<Longrightarrow> grid_wf (grid_resize cols rows g)"
  by (auto simp: grid_wf_def grid_resize_def same_shape_fit Let_def)

lemma resize_cursor_on_screen:
  "point_on g (g_cursor g) \<Longrightarrow> 0 < rows \<Longrightarrow> 0 < cols \<Longrightarrow>
    point_on (grid_resize cols rows g) (g_cursor (grid_resize cols rows g))"
  by (auto simp: point_on_def grid_resize_def Let_def)

end
