(* ===== verification/Term_Deltas.thy ===== *)
theory Term_Deltas
  imports Term_Machine "HOL-Library.Product_Lexorder"
begin

text \<open>
  What \<open>Grid::dirty_deltas\<close> hands to the front end: the scan of the dirty words against
  its specification as an ordered filter, the positions that are reported, and the consistency of
  a front end that only ever repaints what is reported.
\<close>

section \<open>The scan of one dirty word\<close>

lemma trailing_zeros_spec:
  assumes "w \<noteq> (0 :: u64)"
  shows "trailing_zeros w < 64" "bit w (trailing_zeros w)" "i < trailing_zeros w \<Longrightarrow> \<not> bit w i"
proof -
  obtain n where n: "bit w n" using assms by (auto simp: bit_eq_iff)
  then have "n < 64" using bit_imp_le_length [of w n] by simp
  with n have ex: "\<exists>x\<in>set [0..<64]. \<not> (\<not> bit w x)" by auto
  let ?k = "trailing_zeros w"
  have k: "?k < 64"
    using ex unfolding trailing_zeros_def
    by (metis (no_types, lifting) length_takeWhile_le length_upt diff_zero le_neq_implies_less
        takeWhile_eq_all_conv takeWhile_eq_take take_all_iff order_refl)
  then show "?k < 64" .
  have "\<not> \<not> bit w ([0..<64] ! ?k)"
    unfolding trailing_zeros_def by (rule nth_length_takeWhile) (use k in \<open>simp add: trailing_zeros_def\<close>)
  then show "bit w ?k" using k by simp
  show "\<not> bit w i" if "i < ?k" for i
  proof -
    have "takeWhile (\<lambda>i. \<not> bit w i) [0..<64] ! i = i"
      using that k by (simp add: trailing_zeros_def takeWhile_nth)
    then show ?thesis using that nth_mem [of i "takeWhile (\<lambda>i. \<not> bit w i) [0..<64]"]
      by (auto simp: trailing_zeros_def dest: set_takeWhileD)
  qed
qed

lemma bit_clear_lowest:
  assumes "w \<noteq> (0 :: u64)"
  shows "bit (w AND (w - 1)) i \<longleftrightarrow> bit w i \<and> i \<noteq> trailing_zeros w"
proof -
  let ?m = "trailing_zeros w"
  define n where "n = Suc ?m"
  define h where "h = push_bit n (drop_bit n w)"
  have "bit h i \<longleftrightarrow> bit w i \<and> n \<le> i" for i
    by (auto simp: h_def bit_push_bit_iff bit_drop_bit_eq dest: bit_imp_le_length)
  then have bh: "bit h i \<longleftrightarrow> bit w i \<and> ?m < i" for i
    by (simp add: n_def Suc_le_eq)
  have m: "?m < 64" "bit w ?m" "\<And>i. i < ?m \<Longrightarrow> \<not> bit w i" using trailing_zeros_spec [OF assms] by auto
  have b2: "bit (2 ^ ?m :: u64) i \<longleftrightarrow> i = ?m" for i using m(1) by (auto simp: bit_exp_iff)
  have "w = h OR 2 ^ ?m"
    by (rule bit_eqI) (use m bh b2 in \<open>auto simp: bit_or_iff, metis nat_neq_iff\<close>)
  also have "\<dots> = h + 2 ^ ?m" by (rule disjunctive_add [symmetric]) (use bh b2 in auto)
  finally have "w - 1 = h + mask ?m" by (simp add: mask_eq_exp_minus_1)
  also have "\<dots> = h OR mask ?m" by (rule disjunctive_add) (auto simp: bh bit_mask_iff)
  finally have "bit (w - 1) i \<longleftrightarrow> bit h i \<or> i < ?m" using m(1) by (auto simp: bit_or_iff bit_mask_iff)
  then show ?thesis using bh [of i] m by (auto simp: bit_and_iff)
qed

lemma word_bits_filter: "word_bits w = filter (bit w) [0..<64]"
proof (induction w rule: word_bits.induct)
  case (1 w)
  show ?case
  proof (cases "w = 0")
    case False
    let ?m = "trailing_zeros w"
    have m: "?m < 64" "bit w ?m" "\<And>i. i < ?m \<Longrightarrow> \<not> bit w i" using trailing_zeros_spec [OF False] by auto
    have parts: "[0..<64] = [0..<?m] @ ?m # [Suc ?m..<64]"
      using m(1) upt_add_eq_append [of 0 ?m "64 - ?m"] by (simp add: upt_conv_Cons del: upt.simps)
    have "filter (bit w) [0..<64] = ?m # filter (bit w) [Suc ?m..<64]"
      using m by (simp add: parts del: upt.simps)
    moreover have "filter (bit (w AND (w - 1))) [0..<64] = filter (bit w) [Suc ?m..<64]"
      using m by (auto simp: parts bit_clear_lowest [OF False] simp del: upt.simps intro!: filter_cong)
    ultimately show ?thesis using 1 [OF False] False by (subst word_bits.simps) simp
  qed (simp add: word_bits.simps)
qed

lemma set_word_bits: "set (word_bits w) = {i. bit w i}"
  using bit_imp_le_length [of w] by (auto simp: word_bits_filter)

lemma count_ones_word_bits: "count_ones w = length (word_bits w)"
  by (simp add: count_ones_def word_bits_filter)

section \<open>The reported positions\<close>

lemma set_dirty_indices: "set (dirty_indices bits) = {i. dirty_at bits i}"
proof -
  have "i \<in> set (dirty_indices bits) \<longleftrightarrow> (\<exists>k b. k < length bits \<and> bit (bits ! k) b \<and> i = k * 64 + b)" for i
    by (force simp: dirty_indices_def in_set_enumerate_eq set_word_bits)
  moreover have "(\<exists>k b. k < length bits \<and> bit (bits ! k) b \<and> i = k * 64 + b) \<longleftrightarrow> dirty_at bits i" for i
  proof
    assume "\<exists>k b. k < length bits \<and> bit (bits ! k) b \<and> i = k * 64 + b"
    then obtain k b where kb: "k < length bits" "bit (bits ! k) b" "i = k * 64 + b" by blast
    have "b < 64" using bit_imp_le_length [OF kb(2)] by simp
    then show "dirty_at bits i" using kb by (simp add: dirty_at_def)
  next
    assume "dirty_at bits i"
    then show "\<exists>k b. k < length bits \<and> bit (bits ! k) b \<and> i = k * 64 + b"
      unfolding dirty_at_def by (intro exI [of _ "i div 64"] exI [of _ "i mod 64"]) simp
  qed
  ultimately show ?thesis by blast
qed

lemma sorted_concat_blocks:
  assumes "\<And>k. k < n \<Longrightarrow> sorted_wrt (<) (f k)"
    "\<And>k x. k < n \<Longrightarrow> x \<in> set (f k) \<Longrightarrow> k * m \<le> x \<and> x < Suc k * (m :: nat)"
  shows "sorted_wrt (<) (concat (map f [0..<n]))"
  using assms
proof (induction n)
  case (Suc n)
  have "x < y" if "k < n" "x \<in> set (f k)" "y \<in> set (f n)" for k x y
  proof -
    have "x < Suc k * m" using Suc.prems(2) [of k x] that by simp
    also have "\<dots> \<le> n * m" using that(1) by (intro mult_le_mono1) simp
    also have "\<dots> \<le> y" using Suc.prems(2) [of n y] that(3) by simp
    finally show ?thesis .
  qed
  with Suc show ?case by (auto simp: sorted_wrt_append)
qed simp

lemma sorted_dirty_indices: "sorted_wrt (<) (dirty_indices bits)"
proof -
  have "dirty_indices bits = concat (map (\<lambda>k. map (\<lambda>b. k * 64 + b) (word_bits (bits ! k))) [0..<length bits])"
    unfolding dirty_indices_def enumerate_eq_zip
    by (rule arg_cong [where f = concat]) (rule nth_equalityI; simp)
  moreover have "sorted_wrt (<) (concat (map (\<lambda>k. map (\<lambda>b. k * 64 + b) (word_bits (bits ! k))) [0..<length bits]))"
  proof (rule sorted_concat_blocks [where m = 64])
    fix k
    show "sorted_wrt (<) (map (\<lambda>b. k * 64 + b) (word_bits (bits ! k)))"
      by (simp add: word_bits_filter sorted_wrt_map sorted_wrt_filter)
    show "k * 64 \<le> x \<and> x < Suc k * 64" if "x \<in> set (map (\<lambda>b. k * 64 + b) (word_bits (bits ! k)))" for x
      using that by (auto simp: word_bits_filter)
  qed
  ultimately show ?thesis by simp
qed

text \<open>The index of a cell in the dirty bitmap and back.\<close>

definition delta_of :: "grid \<Rightarrow> nat \<Rightarrow> cell_delta" where
  "delta_of g idx =
    (let x = r_inner (g_rows g ! (idx div g_cols g)) ! (idx mod g_cols g)
     in \<lparr>d_row = idx div g_cols g, d_col = idx mod g_cols g, d_c = cell_c x, d_fg = cell_fg x,
         d_bg = cell_bg x, d_flags = cell_flags x\<rparr>)"

lemma delta_at_wf:
  assumes "grid_wf g" "r < g_rows_count g" "c < g_cols g"
  shows "delta_at g r c = [delta_of g (r * g_cols g + c)]"
proof -
  have "r < length (g_rows g)" "length (r_inner (g_rows g ! r)) = g_cols g"
    using assms by (auto simp: grid_wf_def)
  then show ?thesis using assms(3)
    by (simp add: delta_at_def grid_get_cell_def vec_get_def row_get_cell_def delta_of_def Let_def)
qed

lemma bit_delta_wf:
  assumes "grid_wf g" "0 < g_cols g"
  shows "bit_delta g i = (if i < g_rows_count g * g_cols g then [delta_of g i] else [])"
  using assms delta_at_wf [OF assms(1), of "i div g_cols g" "i mod g_cols g"]
    div_less_iff_less_mult [OF assms(2), of i "g_rows_count g"]
  by (auto simp: bit_delta_def Let_def)

lemma upt_mult_Suc: "[0..<Suc n * m] = [0..<n * m] @ map (\<lambda>c. n * m + c) [0..<m]"
  using upt_add_eq_append [of 0 "n * m" m] map_add_upt [of "n * m" m] by (simp add: add.commute)

lemma full_deltas_wf:
  assumes "grid_wf g"
  shows "full_deltas g = map (delta_of g) [0..<g_rows_count g * g_cols g]"
proof -
  have "concat (map (\<lambda>row. concat (map (delta_at g row) [0..<g_cols g])) [0..<n]) =
      map (delta_of g) [0..<n * g_cols g]" if "n \<le> g_rows_count g" for n
    using that
  proof (induction n)
    case (Suc n)
    have "map (delta_at g n) [0..<g_cols g] = map (\<lambda>c. [delta_of g (n * g_cols g + c)]) [0..<g_cols g]"
      using assms Suc.prems by (intro map_cong) (auto simp: delta_at_wf)
    then have "concat (map (delta_at g n) [0..<g_cols g]) = map (delta_of g) (map (\<lambda>c. n * g_cols g + c) [0..<g_cols g])"
      by (simp only: map_map o_def) (simp add: concat_map_singleton)
    then show ?case using Suc by (simp only: upt_mult_Suc map_append) simp
  qed simp
  from this [OF order_refl] show ?thesis by (simp add: full_deltas_def)
qed

text \<open>Both branches of the scan report an increasing list of bitmap indices.\<close>

definition reported :: "grid \<Rightarrow> nat list" where
  "reported g =
    (if g_full_redraw g \<or> MAX_DIRTY_CELLS_PER_READ < dirty_total (g_dirty_bits g)
     then [0..<g_rows_count g * g_cols g]
     else filter (\<lambda>i. i < g_rows_count g * g_cols g) (dirty_indices (g_dirty_bits g)))"

lemma no_columns_no_words: "grid_wf g \<Longrightarrow> g_cols g = 0 \<Longrightarrow> g_dirty_bits g = []"
  by (simp add: grid_wf_def dirty_words_def)

lemma dirty_deltas_reported:
  assumes "grid_wf g"
  shows "dirty_deltas g = map (delta_of g) (reported g)"
proof (cases "g_cols g = 0")
  case True
  then show ?thesis using full_deltas_wf [OF assms] no_columns_no_words [OF assms True]
    by (simp add: dirty_deltas_def reported_def dirty_indices_def)
next
  case False
  have "concat (map (bit_delta g) is) = map (delta_of g) (filter (\<lambda>i. i < g_rows_count g * g_cols g) is)" for "is"
    using False by (induction "is") (auto simp: bit_delta_wf [OF assms])
  then show ?thesis by (simp add: dirty_deltas_def reported_def full_deltas_wf [OF assms])
qed

lemma sorted_reported: "sorted_wrt (<) (reported g)"
  using sorted_dirty_indices [of "g_dirty_bits g"] by (simp add: reported_def sorted_wrt_filter)

lemma reported_bound: "i \<in> set (reported g) \<Longrightarrow> i < g_rows_count g * g_cols g"
  by (auto simp: reported_def split: if_splits)

lemma index_lex:
  assumes "i < (j :: nat)" "0 < m"
  shows "(i div m, i mod m) < (j div m, j mod m)"
proof (cases "i div m = j div m")
  case True
  then have "i mod m < j mod m" using assms by (metis add_less_cancel_left div_mult_mod_eq)
  then show ?thesis using True by simp
next
  case False
  then show ?thesis using assms(1) by (simp add: div_le_mono le_neq_implies_less)
qed

section \<open>Painting the reported cells\<close>

text \<open>A front end's picture of the viewport, repainted by the reported cells.\<close>

type_synonym view = "nat \<times> nat \<Rightarrow> glyph"

definition paint_one :: "cell_delta \<Rightarrow> view \<Rightarrow> view" where
  "paint_one d v = v((d_row d, d_col d) := (d_c d, d_fg d, d_bg d, d_flags d))"

definition paint :: "cell_delta list \<Rightarrow> view \<Rightarrow> view" where
  "paint ds v = fold paint_one ds v"

definition shows_grid :: "view \<Rightarrow> grid \<Rightarrow> bool" where
  "shows_grid v g \<longleftrightarrow> (\<forall>r<g_rows_count g. \<forall>c<g_cols g. v (r, c) = glyph_at g r c)"

lemma paint_deltas:
  "paint (map (delta_of g) is) v (r, c) =
    (if \<exists>i\<in>set is. i div g_cols g = r \<and> i mod g_cols g = c then glyph_at g r c else v (r, c))"
  unfolding paint_def
proof (induction "is" arbitrary: v)
  case (Cons i "is")
  have "paint_one (delta_of g i) v = v((i div g_cols g, i mod g_cols g) := glyph_at g (i div g_cols g) (i mod g_cols g))"
    by (simp add: paint_one_def delta_of_def glyph_at_def glyph_def Let_def)
  then show ?case using Cons.IH by auto
qed simp

text \<open>
  The invariant between a grid and a picture of it: a cell that is not marked is drawn right.
\<close>

definition in_sync :: "view \<Rightarrow> grid \<Rightarrow> bool" where
  "in_sync v g \<longleftrightarrow> g_full_redraw g \<or>
    (\<forall>r<g_rows_count g. \<forall>c<g_cols g.
      \<not> dirty_at (g_dirty_bits g) (r * g_cols g + c) \<longrightarrow> v (r, c) = glyph_at g r c)"

lemma shows_in_sync: "shows_grid v g \<Longrightarrow> in_sync v g"
  by (simp add: shows_grid_def in_sync_def)

lemma in_sync_tracked:
  assumes "in_sync v g" "tracked g g'"
  shows "in_sync v g'"
proof (cases "g_full_redraw g'")
  case True
  then show ?thesis by (simp add: in_sync_def)
next
  case False
  then show ?thesis using assms unfolding in_sync_def tracked_def by metis
qed

lemma paint_in_sync:
  assumes wf: "grid_wf g" and sync: "in_sync v g"
  shows "shows_grid (paint (dirty_deltas g) v) g"
  unfolding shows_grid_def
proof (intro allI impI)
  fix r c
  assume rc: "r < g_rows_count g" "c < g_cols g"
  let ?i = "r * g_cols g + c"
  have i: "?i div g_cols g = r" "?i mod g_cols g = c" using rc(2) by simp_all
  have bound: "?i < g_rows_count g * g_cols g"
    using rc i(1) div_less_iff_less_mult [of "g_cols g" ?i "g_rows_count g"] by simp
  show "paint (dirty_deltas g) v (r, c) = glyph_at g r c"
  proof (cases "?i \<in> set (reported g)")
    case True
    then show ?thesis using i by (auto simp: dirty_deltas_reported [OF wf] paint_deltas)
  next
    case False
    then have "\<not> g_full_redraw g" "\<not> dirty_at (g_dirty_bits g) ?i"
      using bound by (auto simp: reported_def set_dirty_indices split: if_splits)
    then have "v (r, c) = glyph_at g r c" using sync rc by (simp add: in_sync_def)
    then show ?thesis by (simp add: dirty_deltas_reported [OF wf] paint_deltas)
  qed
qed

lemma grid_clear_dirty_simps [simp]:
  "grid_wf (grid_clear_dirty g) = grid_wf g" "glyph_at (grid_clear_dirty g) = glyph_at g"
  "cursor_wf (grid_clear_dirty g) = cursor_wf g"
  "shows_grid v (grid_clear_dirty g) = shows_grid v g"
  by (auto simp: grid_clear_dirty_def grid_wf_def glyph_at_def cursor_wf_def point_on_def shows_grid_def fun_eq_iff)

end
