(* ===== verification/Term_Session.thy ===== *)
theory Term_Session
  imports Term_Deltas
begin

text \<open>
  \<open>crates/athena-terminal/src/session.rs\<close>: the parts of a PTY session that decide who sees
  which bytes. The listener fields of \<open>TerminalSession\<close> form one record, guarded in the code
  by \<open>listener_lifecycle_lock\<close>, so each operation on them is one atomic step; the session
  record extends it with the grid, the parser, the status and the queue of pending writes.
  \<open>Instant::now()\<close> is an argument; an \<open>Instant\<close> is a number of milliseconds.
  The parser of the crate \<open>vte\<close> and the PTY device are parameters.
\<close>

section \<open>State\<close>

datatype pty_status = Spawning | Ready | Exited

datatype io_error = WriteZero | BrokenPipe | PermissionDenied | NotFound | OsError

record listener =
  l_paused :: bool
  l_generation :: u64
  l_owner :: "string option"
  l_detached :: bool
  l_pending :: "string option"
  l_deadline :: "nat option"
  l_rejected :: "string option"

record 'p session = listener +
  s_grid :: grid
  s_master_fd :: int
  s_status :: pty_status
  s_reader_started :: bool
  s_pending_writes :: "bytes list"
  s_parser :: 'p

definition session_new :: "int \<Rightarrow> nat \<Rightarrow> nat \<Rightarrow> 'p \<Rightarrow> 'p session" where
  "session_new fd cols rows parser =
    \<lparr>l_paused = False, l_generation = 0, l_owner = None, l_detached = False, l_pending = None,
     l_deadline = None, l_rejected = None,
     s_grid = grid_new cols rows, s_master_fd = fd, s_status = Spawning, s_reader_started = False,
     s_pending_writes = [], s_parser = parser\<rparr>"

section \<open>The listener handshake\<close>

definition begin_startup_pause :: "nat \<Rightarrow> string option \<Rightarrow> 'a listener_scheme \<Rightarrow> 'a listener_scheme" where
  "begin_startup_pause now owner l =
    l\<lparr>l_pending := owner, l_deadline := Some (now + 5000), l_rejected := None, l_paused := True\<rparr>"

definition deadline_passed :: "nat \<Rightarrow> nat option \<Rightarrow> bool" where
  "deadline_passed now d = (case d of Some t \<Rightarrow> t \<le> now | None \<Rightarrow> False)"

definition expire_startup_pause :: "nat \<Rightarrow> 'a listener_scheme \<Rightarrow> bool \<times> 'a listener_scheme" where
  "expire_startup_pause now l =
    (if \<not> deadline_passed now (l_deadline l) \<or> \<not> l_paused l then (False, l)
     else (True, l\<lparr>l_rejected := l_pending l, l_pending := None, l_deadline := None, l_paused := False\<rparr>))"

text \<open>The two preparatory steps of \<open>attach_listener\<close>.\<close>

definition attach_replace :: "string \<Rightarrow> bool \<Rightarrow> 'a listener_scheme \<Rightarrow> 'a listener_scheme" where
  "attach_replace owner replace_current l =
    (if replace_current \<and> (l_owner l \<noteq> None \<or> l_pending l \<noteq> None)
     then l\<lparr>l_owner := None, l_detached := False, l_pending := Some owner, l_rejected := None\<rparr>
     else l)"

definition attach_expire :: "nat \<Rightarrow> 'a listener_scheme \<Rightarrow> 'a listener_scheme" where
  "attach_expire now l =
    (if l_paused l \<and> deadline_passed now (l_deadline l)
     then l\<lparr>l_pending := None, l_deadline := None, l_paused := False\<rparr>
     else l)"

text \<open>
  The four checks that refuse an attach, in the order of the code: another mount's startup lease
  is pending; this owner's lease was revoked; this owner has already detached; another owner is
  live.
\<close>

definition attach_refused :: "string \<Rightarrow> 'a listener_scheme \<Rightarrow> bool" where
  "attach_refused owner l \<longleftrightarrow>
    l_owner l = None \<and> l_pending l \<noteq> None \<and> l_pending l \<noteq> Some owner \<or>
    l_owner l = None \<and> l_pending l = None \<and> l_rejected l = Some owner \<or>
    l_owner l = Some owner \<and> l_detached l \<and> l_paused l \<or>
    l_owner l \<noteq> None \<and> l_owner l \<noteq> Some owner \<and> \<not> l_paused l"

definition attach_claim :: "string \<Rightarrow> 'a listener_scheme \<Rightarrow> u64 option \<times> 'a listener_scheme" where
  "attach_claim owner l =
    (if attach_refused owner l then (None, l)
     else if l_owner l = Some owner \<and> \<not> l_paused l then (Some (l_generation l), l)
     else
       (Some (l_generation l + 1),
        l\<lparr>l_generation := l_generation l + 1, l_owner := Some owner, l_detached := False,
          l_pending := None, l_deadline := None, l_rejected := None, l_paused := False\<rparr>))"

definition attach_listener ::
  "nat \<Rightarrow> string \<Rightarrow> bool \<Rightarrow> 'a listener_scheme \<Rightarrow> u64 option \<times> 'a listener_scheme" where
  "attach_listener now owner replace_current l =
    attach_claim owner (attach_expire now (attach_replace owner replace_current l))"

definition cancel_startup_pause :: "string \<Rightarrow> 'a listener_scheme \<Rightarrow> bool \<times> 'a listener_scheme" where
  "cancel_startup_pause owner l =
    (let pending_matches = (l_pending l = Some owner); current_matches = (l_owner l = Some owner) in
     if \<not> pending_matches \<and> \<not> current_matches then (False, l)
     else
       let l1 = (if current_matches then l\<lparr>l_detached := True, l_paused := True\<rparr> else l\<lparr>l_paused := False\<rparr>)
       in (True, l1\<lparr>l_pending := None, l_deadline := None, l_rejected := Some owner\<rparr>))"

definition detach_listener :: "string \<Rightarrow> u64 \<Rightarrow> 'a listener_scheme \<Rightarrow> bool \<times> 'a listener_scheme" where
  "detach_listener owner generation l =
    (if l_generation l \<noteq> generation then (False, l)
     else if l_owner l \<noteq> Some owner then (False, l)
     else (True, l\<lparr>l_detached := True, l_pending := None, l_deadline := None, l_paused := True\<rparr>))"

definition can_resize_for_owner :: "string option \<Rightarrow> 'a listener_scheme \<Rightarrow> bool" where
  "can_resize_for_owner owner l =
    (case owner of
       None \<Rightarrow> True
     | Some ow \<Rightarrow>
         l_pending l = Some ow \<or> (l_owner l = Some ow \<and> \<not> l_detached l) \<or>
         (l_paused l \<and> l_detached l \<and> l_owner l \<noteq> Some ow))"

text \<open>An atomic swap; the result says whether this caller won.\<close>

definition try_claim_read_loop :: "'p session \<Rightarrow> bool \<times> 'p session" where
  "try_claim_read_loop s = (\<not> s_reader_started s, s\<lparr>s_reader_started := True\<rparr>)"

definition release_read_loop :: "'p session \<Rightarrow> 'p session" where
  "release_read_loop s = s\<lparr>s_reader_started := False\<rparr>"

section \<open>Writes before and after the session is ready\<close>

definition MAX_PENDING_WRITE_BYTES :: nat where
  "MAX_PENDING_WRITE_BYTES = 4 * 1024 * 1024"

type_synonym 'w device = "bytes \<Rightarrow> 'w \<Rightarrow> 'w \<times> (io_error + nat)"

text \<open>
  \<open>do_write\<close> first duplicates the master descriptor; the write itself is the device's.
\<close>

definition do_write :: "'w device \<Rightarrow> 'p session \<Rightarrow> bytes \<Rightarrow> 'w \<Rightarrow> 'w \<times> (io_error + nat)" where
  "do_write dev s data w = (if s_master_fd s < 0 then (w, Inl BrokenPipe) else dev data w)"

definition session_write ::
  "'w device \<Rightarrow> bytes \<Rightarrow> 'p session \<Rightarrow> 'w \<Rightarrow> 'p session \<times> 'w \<times> (io_error + nat)" where
  "session_write dev data s w =
    (if s_status s = Spawning then
       let buffered = sum_list (map length (s_pending_writes s)) in
       if MAX_PENDING_WRITE_BYTES < buffered + length data then (s, w, Inl WriteZero)
       else (s\<lparr>s_pending_writes := s_pending_writes s @ [data]\<rparr>, w, Inr (length data))
     else
       let (w', r) = do_write dev s data w in (s, w', r))"

text \<open>\<open>while let Some(data) = pending.pop_front()\<close>: the errors of the flush are dropped.\<close>

definition flush_pending :: "'w device \<Rightarrow> 'p session \<Rightarrow> bytes list \<Rightarrow> 'w \<Rightarrow> 'w" where
  "flush_pending dev s pending w = fold (\<lambda>data w. fst (do_write dev s data w)) pending w"

definition mark_ready :: "'w device \<Rightarrow> 'p session \<Rightarrow> 'w \<Rightarrow> 'p session \<times> 'w" where
  "mark_ready dev s w =
    (s\<lparr>s_status := Ready, s_pending_writes := []\<rparr>, flush_pending dev s (s_pending_writes s) w)"

definition mark_exited :: "'p session \<Rightarrow> 'p session" where
  "mark_exited s = s\<lparr>s_status := Exited\<rparr>"

definition close_fd_with_reason :: "'p session \<Rightarrow> bool \<times> 'p session" where
  "close_fd_with_reason s = (0 \<le> s_master_fd s, s\<lparr>s_master_fd := - 1\<rparr>)"

section \<open>Reading and resizing\<close>

record terminal_update =
  u_deltas :: "cell_delta list"
  u_cursor_row :: nat
  u_cursor_col :: nat
  u_rows :: nat
  u_cols :: nat
  u_cursor_visible :: bool

definition update_of :: "grid \<Rightarrow> terminal_update" where
  "update_of g =
    \<lparr>u_deltas = dirty_deltas g, u_cursor_row = cur_row g, u_cursor_col = cur_col g,
     u_rows = g_rows_count g, u_cols = g_cols g, u_cursor_visible = g_cursor_visible g\<rparr>"

text \<open>
  The parser is a parameter: it consumes bytes, moves to its next state and yields the completed
  operations. \<open>None\<close> is a panic of the interpreter.
\<close>

type_synonym 'p parser = "'p \<Rightarrow> bytes \<Rightarrow> 'p \<times> ansi_op list"

definition parse_bytes_with_responses ::
  "'p parser \<Rightarrow> bytes \<Rightarrow> 'p session \<Rightarrow> ('p session \<times> terminal_update option \<times> bytes list) option" where
  "parse_bytes_with_responses advance data s =
    (if data = [] then Some (s, None, [])
     else
       let (p, ops) = advance (s_parser s) data in
       (case apply_ops_with_responses ops (s_grid s) of
          None \<Rightarrow> None
        | Some (g, responses) \<Rightarrow>
            if dirty_deltas g \<noteq> []
            then Some (s\<lparr>s_parser := p, s_grid := grid_clear_dirty g\<rparr>, Some (update_of g), responses)
            else Some (s\<lparr>s_parser := p, s_grid := g\<rparr>, None, responses)))"

text \<open>\<open>SessionManager::resize\<close> on a live session; \<open>ioctl\<close> is the result of the system call.\<close>

definition session_resize ::
  "bool \<Rightarrow> u16 \<Rightarrow> u16 \<Rightarrow> string option \<Rightarrow> 'p session \<Rightarrow> 'p session \<times> (io_error + unit)" where
  "session_resize ioctl_ok cols rows owner s =
    (if \<not> can_resize_for_owner owner s then (s, Inl PermissionDenied)
     else if s_master_fd s < 0 then (s, Inl BrokenPipe)
     else if ioctl_ok then (s\<lparr>s_grid := grid_resize (unat cols) (unat rows) (s_grid s)\<rparr>, Inr ())
     else (s, Inl OsError))"

text \<open>
  \<open>src-tauri/src/commands/pty.rs\<close>: the commands clamp the requested dimensions before they
  reach the session.
\<close>

definition MIN_PTY_DIMENSION :: u16 where
  "MIN_PTY_DIMENSION = 2"

definition MAX_PTY_DIMENSION :: u16 where
  "MAX_PTY_DIMENSION = 1000"

definition clamp_pty_dimension :: "u16 \<Rightarrow> u16" where
  "clamp_pty_dimension v = max MIN_PTY_DIMENSION (min v MAX_PTY_DIMENSION)"

definition pty_resize ::
  "bool \<Rightarrow> u16 \<Rightarrow> u16 \<Rightarrow> string option \<Rightarrow> 'p session \<Rightarrow> 'p session \<times> (io_error + unit)" where
  "pty_resize ioctl_ok cols rows owner s =
    session_resize ioctl_ok (clamp_pty_dimension cols) (clamp_pty_dimension rows) owner s"

section \<open>Sessions as a step relation\<close>

text \<open>
  A session with the picture that a front end keeps of it. Reads repaint the picture; resizes
  and the listener handshake do not.
\<close>

inductive session_step :: "'p parser \<Rightarrow> 'p session \<times> view \<Rightarrow> 'p session \<times> view \<Rightarrow> bool"
  for advance :: "'p parser" where
  read: "parse_bytes_with_responses advance data s = Some (s', upd, rs) \<Longrightarrow>
    session_step advance (s, v) (s', case upd of Some u \<Rightarrow> paint (u_deltas u) v | None \<Rightarrow> v)"
| resize: "session_step advance (s, v) (fst (pty_resize ok cols rows owner s), v)"
| begin_pause: "session_step advance (s, v) (begin_startup_pause now ow s, v)"
| expire: "session_step advance (s, v) (snd (expire_startup_pause now s), v)"
| attach: "session_step advance (s, v) (snd (attach_listener now owner rep s), v)"
| cancel: "session_step advance (s, v) (snd (cancel_startup_pause owner s), v)"
| detach: "session_step advance (s, v) (snd (detach_listener owner gen s), v)"

inductive_cases session_stepE: "session_step advance sv sv'"

abbreviation session_reach :: "'p parser \<Rightarrow> 'p session \<times> view \<Rightarrow> 'p session \<times> view \<Rightarrow> bool" where
  "session_reach advance \<equiv> (session_step advance)\<^sup>*\<^sup>*"

lemma attach_prepare_frame [frame_simps]:
  "s_grid (attach_replace owner rep s) = s_grid s" "s_grid (attach_expire now s) = s_grid s"
  "s_grid (snd (attach_claim owner s)) = s_grid s"
  by (simp_all add: attach_replace_def attach_expire_def attach_claim_def)

lemma listener_grid_frame [frame_simps]:
  "s_grid (begin_startup_pause now ow s) = s_grid s"
  "s_grid (snd (expire_startup_pause now s)) = s_grid s"
  "s_grid (snd (attach_listener now owner rep s)) = s_grid s"
  "s_grid (snd (cancel_startup_pause owner s)) = s_grid s"
  "s_grid (snd (detach_listener owner gen s)) = s_grid s"
  by (simp_all add: begin_startup_pause_def expire_startup_pause_def attach_listener_def
      cancel_startup_pause_def detach_listener_def Let_def attach_prepare_frame)

lemma clamp_pty_dimension_bounds:
  "2 \<le> unat (clamp_pty_dimension v)" "unat (clamp_pty_dimension v) \<le> 1000"
proof -
  have "2 \<le> clamp_pty_dimension v" "clamp_pty_dimension v \<le> 1000"
    by (auto simp: clamp_pty_dimension_def MIN_PTY_DIMENSION_def MAX_PTY_DIMENSION_def max_def min_def)
  then show "2 \<le> unat (clamp_pty_dimension v)" "unat (clamp_pty_dimension v) \<le> 1000"
    by (simp_all add: word_le_nat_alt)
qed

lemma in_sync_resize: "in_sync v g \<Longrightarrow> in_sync v (grid_resize cols rows g)"
  by (auto simp: in_sync_def grid_resize_def Let_def)

lemma parse_bytes_ok:
  assumes wf: "grid_wf (s_grid s)" and sync: "in_sync v (s_grid s)" and data: "data \<noteq> []"
  obtains s' upd rs where "parse_bytes_with_responses advance data s = Some (s', upd, rs)"
    "grid_wf (s_grid s')"
    "shows_grid (case upd of Some u \<Rightarrow> paint (u_deltas u) v | None \<Rightarrow> v) (s_grid s')"
proof -
  obtain p ops where adv: "advance (s_parser s) data = (p, ops)" by fastforce
  obtain g rs where run: "apply_ops_with_responses ops (s_grid s) = Some (g, rs)" "grid_wf g"
      "advances (s_grid s) g"
    using term_machine.run_safe [OF wf] by blast
  have sync': "in_sync v g" using run(3) sync by (auto simp: advances_def intro: in_sync_tracked)
  have shown: "shows_grid (paint (dirty_deltas g) v) g" by (rule paint_in_sync [OF run(2) sync'])
  show thesis
  proof (cases "dirty_deltas g = []")
    case True
    then show thesis using that [of "s\<lparr>s_parser := p, s_grid := g\<rparr>" None rs] adv run shown data
      by (simp add: parse_bytes_with_responses_def paint_def)
  next
    case False
    then show thesis
      using that [of "s\<lparr>s_parser := p, s_grid := grid_clear_dirty g\<rparr>" "Some (update_of g)" rs] adv run shown data
      by (simp add: parse_bytes_with_responses_def update_of_def)
  qed
qed

definition session_inv :: "'p session \<times> view \<Rightarrow> bool" where
  "session_inv sv \<longleftrightarrow> grid_wf (s_grid (fst sv)) \<and> in_sync (snd sv) (s_grid (fst sv))"

lemma session_inv_step:
  assumes "session_step advance sv sv'" "session_inv sv"
  shows "session_inv sv'"
  using assms
proof (induction rule: session_step.induct)
  case (read data s s' upd rs v)
  show ?case
  proof (cases "data = []")
    case True
    then show ?thesis using read by (simp add: parse_bytes_with_responses_def)
  next
    case False
    have "grid_wf (s_grid s)" "in_sync v (s_grid s)" using read.prems by (simp_all add: session_inv_def)
    from parse_bytes_ok [OF this False, of advance] read.hyps show ?thesis
      by (metis (no_types, lifting) Pair_inject option.inject session_inv_def shows_in_sync fst_conv snd_conv)
  qed
next
  case (resize s v ok cols rows owner)
  have "0 < unat (clamp_pty_dimension rows)" using clamp_pty_dimension_bounds(1) [of rows] by linarith
  with resize show ?case
    by (auto simp: session_inv_def pty_resize_def session_resize_def intro: grid_wf_resize in_sync_resize)
qed (simp_all add: session_inv_def frame_simps)

lemma session_inv_reach: "session_reach advance sv sv' \<Longrightarrow> session_inv sv \<Longrightarrow> session_inv sv'"
  by (induction rule: rtranclp_induct) (auto intro: session_inv_step)

lemma session_inv_new:
  "0 < rows \<Longrightarrow> session_inv (session_new fd cols rows p, \<lambda>_. glyph cell_default)"
  by (simp add: session_inv_def session_new_def grid_wf_new)
    (simp add: in_sync_def grid_new_def glyph_at_def)

end
