(* ===== verification/Term_IO.thy ===== *)
theory Term_IO
  imports Term_Session
begin

text \<open>
  Properties of a session's input and output: the order of writes across the transition to
  \<open>Ready\<close>, the bound on what is queued before it, and the picture a front end has of the grid.
\<close>

section \<open>Writes in order\<close>

datatype wev = WriteEv bytes | ReadyEv

text \<open>A write is accepted unless the session is still spawning and its queue is full.\<close>

definition accepts :: "'p session \<Rightarrow> bytes \<Rightarrow> bool" where
  "accepts s data \<longleftrightarrow> (s_status s = Spawning \<longrightarrow>
    sum_list (map length (s_pending_writes s)) + length data \<le> MAX_PENDING_WRITE_BYTES)"

fun run_writes :: "'w device \<Rightarrow> wev list \<Rightarrow> 'p session \<Rightarrow> 'w \<Rightarrow> 'p session \<times> 'w \<times> bytes list" where
  "run_writes dev [] s w = (s, w, [])"
| "run_writes dev (WriteEv data # es) s w =
    (let (s1, w1, r) = session_write dev data s w; (s2, w2, acc) = run_writes dev es s1 w1
     in (s2, w2, if accepts s data then data # acc else acc))"
| "run_writes dev (ReadyEv # es) s w =
    (let (s1, w1) = mark_ready dev s w in run_writes dev es s1 w1)"

lemma flush_pending_append:
  "flush_pending dev s (xs @ ys) w = flush_pending dev s ys (flush_pending dev s xs w)"
  by (simp add: flush_pending_def)

lemma flush_pending_fd: "s_master_fd s' = s_master_fd s \<Longrightarrow> flush_pending dev s' = flush_pending dev s"
  by (rule ext)+ (simp add: flush_pending_def do_write_def)

lemma run_writes_ready:
  assumes "s_status s \<noteq> Spawning" "s_pending_writes s = []" "run_writes dev es s w = (s', w', acc)"
  shows "s_pending_writes s' = [] \<and> s_status s' \<noteq> Spawning \<and> w' = flush_pending dev s acc w"
  using assms
proof (induction es arbitrary: s w s' w' acc)
  case Nil
  then show ?case by (simp add: flush_pending_def)
next
  case (Cons e es)
  show ?case
  proof (cases e)
    case (WriteEv data)
    have "session_write dev data s w = (s, do_write dev s data w)"
      using Cons.prems(1) by (simp add: session_write_def split: prod.split)
    then obtain acc1 where r: "run_writes dev es s (fst (do_write dev s data w)) = (s', w', acc1)" "acc = data # acc1"
      using Cons.prems WriteEv by (auto simp: accepts_def Let_def split: prod.splits)
    with Cons.IH [OF Cons.prems(1,2) r(1)] show ?thesis by (simp add: flush_pending_def)
  next
    case ReadyEv
    let ?s = "s\<lparr>s_status := Ready, s_pending_writes := []\<rparr>"
    have "run_writes dev es ?s w = (s', w', acc)"
      using Cons.prems ReadyEv by (simp add: mark_ready_def flush_pending_def)
    from Cons.IH [OF _ _ this] show ?thesis using flush_pending_fd [of ?s s dev] by simp
  qed
qed

lemma run_writes_spawning:
  assumes "s_status s = Spawning" "run_writes dev es s w = (s', w', acc)"
  shows "s_status s' = Spawning \<and> s_pending_writes s' = s_pending_writes s @ acc \<and> w' = w \<or>
    s_status s' \<noteq> Spawning \<and> s_pending_writes s' = [] \<and> w' = flush_pending dev s (s_pending_writes s @ acc) w"
  using assms
proof (induction es arbitrary: s w s' w' acc)
  case (Cons e es)
  show ?case
  proof (cases e)
    case (WriteEv data)
    show ?thesis
    proof (cases "accepts s data")
      case True
      let ?s = "s\<lparr>s_pending_writes := s_pending_writes s @ [data]\<rparr>"
      obtain acc1 where r: "run_writes dev es ?s w = (s', w', acc1)" "acc = data # acc1"
        using Cons.prems WriteEv True
        by (auto simp: session_write_def accepts_def Let_def not_less split: prod.splits)
      have "s_status ?s = Spawning" using Cons.prems(1) by simp
      from Cons.IH [OF this r(1)] show ?thesis using r(2) flush_pending_fd [of ?s s dev] by simp
    next
      case False
      then have "session_write dev data s w = (s, w, Inl WriteZero)"
        using Cons.prems(1) by (simp add: session_write_def accepts_def Let_def not_le)
      then have "run_writes dev es s w = (s', w', acc)" using Cons.prems WriteEv False by (auto split: prod.splits)
      from Cons.IH [OF Cons.prems(1) this] show ?thesis .
    qed
  next
    case ReadyEv
    let ?s = "s\<lparr>s_status := Ready, s_pending_writes := []\<rparr>"
    have "run_writes dev es ?s (flush_pending dev s (s_pending_writes s) w) = (s', w', acc)"
      using Cons.prems ReadyEv by (simp add: mark_ready_def)
    from run_writes_ready [OF _ _ this] show ?thesis
      using flush_pending_fd [of ?s s dev] by (simp add: flush_pending_append)
  qed
qed simp

definition pending_bytes :: "'p session \<Rightarrow> nat" where
  "pending_bytes s = sum_list (map length (s_pending_writes s))"

lemma session_write_pending_bound:
  "pending_bytes s \<le> MAX_PENDING_WRITE_BYTES \<Longrightarrow>
    pending_bytes (fst (session_write dev data s w)) \<le> MAX_PENDING_WRITE_BYTES"
  by (auto simp: session_write_def pending_bytes_def Let_def not_less split: prod.split)

lemma run_writes_pending_bound:
  "pending_bytes s \<le> MAX_PENDING_WRITE_BYTES \<Longrightarrow>
    pending_bytes (fst (run_writes dev es s w)) \<le> MAX_PENDING_WRITE_BYTES"
proof (induction es arbitrary: s w)
  case (Cons e es)
  show ?case
  proof (cases e)
    case (WriteEv data)
    then show ?thesis using Cons.IH [of "fst (session_write dev data s w)" "fst (snd (session_write dev data s w))"]
      session_write_pending_bound [OF Cons.prems, of dev data w]
      by (auto simp: split_beta Let_def)
  next
    case ReadyEv
    then show ?thesis using Cons.IH by (simp add: mark_ready_def pending_bytes_def)
  qed
qed simp

section \<open>Properties\<close>

text \<open>
  C6. Bytes reach the PTY in the order in which they were accepted: from a new session, after any
  sequence of writes and readiness marks, either the session is still spawning, nothing has been
  written and the queue holds the accepted writes in order, or the queue is empty and the device
  has been fed exactly the accepted writes in order; the queue never exceeds 4 MiB.
\<close>

theorem writes_in_order:
  "case run_writes dev es (session_new fd cols rows p) w of (s', w', acc) \<Rightarrow>
    (s_status s' = Spawning \<and> s_pending_writes s' = acc \<and> w' = w \<or>
     s_status s' \<noteq> Spawning \<and> s_pending_writes s' = [] \<and> w' = flush_pending dev (session_new fd cols rows p) acc w) \<and>
    sum_list (map length (s_pending_writes s')) \<le> MAX_PENDING_WRITE_BYTES"
proof -
  let ?s = "session_new fd cols rows p"
  obtain s' w' acc where r: "run_writes dev es ?s w = (s', w', acc)" by (metis prod_cases3)
  have "s_status ?s = Spawning" "s_pending_writes ?s = []" by (simp_all add: session_new_def)
  moreover have "pending_bytes ?s \<le> MAX_PENDING_WRITE_BYTES" by (simp add: pending_bytes_def session_new_def)
  ultimately show ?thesis
    using run_writes_spawning [OF _ r] run_writes_pending_bound [of ?s dev es w] r
    by (simp add: pending_bytes_def)
qed

text \<open>
  C1. The picture a front end draws is the grid: from a freshly spawned session (its dimensions
  clamped as \<open>pty_spawn\<close> does) and after any interleaving of reads, resizes and listener
  events, reading any bytes does not panic, and repainting the cells of the update, if there is
  one, makes the picture equal to the visible grid. The parser is arbitrary.
\<close>

theorem session_picture_exact:
  assumes "session_reach advance
      (session_new fd (unat (clamp_pty_dimension cols)) (unat (clamp_pty_dimension rows)) p, \<lambda>_. glyph cell_default)
      (s, v)"
    and "data \<noteq> []"
  shows "\<exists>s' upd rs. parse_bytes_with_responses advance data s = Some (s', upd, rs) \<and>
    shows_grid (case upd of Some u \<Rightarrow> paint (u_deltas u) v | None \<Rightarrow> v) (s_grid s')"
proof -
  have "0 < unat (clamp_pty_dimension rows)" using clamp_pty_dimension_bounds(1) [of rows] by linarith
  from session_inv_reach [OF assms(1) session_inv_new [OF this]]
  have "grid_wf (s_grid s)" "in_sync v (s_grid s)" by (simp_all add: session_inv_def)
  then show ?thesis by (rule parse_bytes_ok [OF _ _ assms(2), of s v advance]) blast
qed

theorem session_picture_exact_witness:
  "\<exists>s' upd rs. parse_bytes_with_responses (\<lambda>p bs. (p, map (\<lambda>b. Print (unat b)) bs)) [65, 66]
      (session_new 3 (unat (clamp_pty_dimension 80)) (unat (clamp_pty_dimension 24)) ()) = Some (s', upd, rs) \<and>
    shows_grid (case upd of Some u \<Rightarrow> paint (u_deltas u) (\<lambda>_. glyph cell_default) | None \<Rightarrow> \<lambda>_. glyph cell_default)
      (s_grid s')"
  by (rule session_picture_exact [where data = "[65, 66]" and fd = 3 and cols = 80 and rows = 24 and p = "()"])
    simp_all

end
