(* ===== verification/Term_Props.thy ===== *)
theory Term_Props
  imports Term_Deltas Prelude
begin

text \<open>
  The functional behaviour of the terminal: what each operation does to the cells, the
  scrollback and the answers, and the places where the code does less than its comments say.
\<close>

section \<open>Scrollback\<close>

interpretation scrollback_log: bounded_log "push_scrollback 10000" "\<lambda>sb. sb" 10000
  by unfold_locales (auto simp: push_scrollback_def)

text \<open>One scroll of a region that starts at the top row appends the row that leaves it.\<close>

lemma scroll_up_once_scrollback:
  assumes "grid_wf g" "top_margin g = 0" "scroll_up_once g = Some g'"
  shows "g_scrollback g' = push_scrollback (g_max_scrollback g) (hd (g_rows g)) (g_scrollback g) \<and>
    g_rows g' = take (bottom_margin g) (tl (g_rows g)) @ row_new (g_cols g) # drop (Suc (bottom_margin g)) (g_rows g)"
proof -
  have "g_rows g \<noteq> []" using assms(1) by (auto simp: grid_wf_def)
  then show ?thesis using assms scroll_up_once_eq [OF assms(1)]
    by (auto simp: block_up_def hd_conv_nth drop_Suc)
qed

lemma scroll_up_once_wf: "grid_wf g \<Longrightarrow> scroll_up_once g = Some g' \<Longrightarrow> grid_wf g'"
proof -
  assume wf: "grid_wf g" and g': "scroll_up_once g = Some g'"
  have "same_shape g (block_up (top_margin g) (bottom_margin g) (row_new (g_cols g)) (g_rows g))"
    by (intro same_shape_block grid_wf_same_shape grid_wfD wf)
  moreover have "length (push_scrollback (g_max_scrollback g) r (g_scrollback g)) \<le> g_max_scrollback g" for r
    using wf by (intro length_push_scrollback) (simp_all add: grid_wf_def)
  ultimately show ?thesis using wf g' scroll_up_once_eq [OF wf]
    by (auto simp: grid_wf_def same_shape_def)
qed

lemma scroll_up_rows:
  assumes "grid_wf g" "top_margin g = 0" "n \<le> Suc (bottom_margin g)" "iter_opt n scroll_up_once g = Some g'"
  shows "g_scrollback g' = fold (push_scrollback (g_max_scrollback g)) (take n (g_rows g)) (g_scrollback g) \<and>
    g_rows g' = drop n (take (Suc (bottom_margin g)) (g_rows g)) @ replicate n (row_new (g_cols g)) @
      drop (Suc (bottom_margin g)) (g_rows g)"
  using assms
proof (induction n arbitrary: g)
  case (Suc n)
  obtain g1 where g1: "scroll_up_once g = Some g1" "iter_opt n scroll_up_once g1 = Some g'"
    using Suc.prems(4) by (auto split: Option.bind_splits)
  have ok: "grid_wf g1" "top_margin g1 = 0" "bottom_margin g1 = bottom_margin g"
      "g_max_scrollback g1 = g_max_scrollback g" "g_cols g1 = g_cols g"
    using scroll_up_once_wf [OF Suc.prems(1) g1(1)] g1(1) Suc.prems(2) scroll_up_once_eq [OF Suc.prems(1)] by auto
  obtain r rs where rs: "g_rows g = r # rs" using Suc.prems(1) by (cases "g_rows g") (auto simp: grid_wf_def)
  have len: "bottom_margin g \<le> length rs" using Suc.prems(1) rs by (auto simp: grid_wf_def)
  note 1 = scroll_up_once_scrollback [OF Suc.prems(1,2) g1(1)]
  from Suc.IH [OF ok(1,2) _ g1(2)] Suc.prems(3) 1 show ?case
    using len by (simp add: ok rs min_def)
qed simp

section \<open>Line edits\<close>

lemma block_down_iter:
  assumes "a \<le> b" "b < length xs"
  shows "(block_down a b x ^^ n) xs =
    take a xs @ replicate (min n (Suc b - a)) x @ take (Suc b - a - n) (drop a xs) @ drop (Suc b) xs"
proof (induction n)
  case 0
  have "take a xs @ take (Suc b - a) (drop a xs) @ drop (Suc b) xs = xs"
    using assms append_take_drop_id [of "Suc b - a" "drop a xs"] by (simp add: Suc_diff_le)
  then show ?case by simp
next
  case (Suc n)
  let ?m = "min n (Suc b - a)" and ?ys = "take (Suc b - a - n) (drop a xs)"
  have l: "length (take a xs) = a" "length ?ys = Suc b - a - n" using assms by auto
  show ?case
  proof (cases "n \<le> b - a")
    case True
    then have m: "?m = n" "min (Suc n) (Suc b - a) = Suc n" using assms by auto
    obtain k where k: "b = a + n + k" using True assms by (metis le_add_diff_inverse add.assoc)
    have "take (Suc b - a - n) (drop a xs) = take k (drop a xs) @ [drop a xs ! k]"
      using assms k by (simp add: take_Suc_conv_app_nth)
    then have s: "(block_down a b x ^^ n) xs =
        take a xs @ replicate n x @ (take k (drop a xs) @ [drop a xs ! k]) @ drop (Suc b) xs"
      using Suc m by simp
    show ?thesis using assms k m unfolding funpow.simps comp_def s
      by (simp add: block_down_def min_def replicate_app_Cons_same)
  next
    case False
    then have m: "?m = Suc b - a" "min (Suc n) (Suc b - a) = Suc b - a" "?ys = []" using assms by auto
    obtain k where k: "b = a + k" using assms by (metis le_add_diff_inverse)
    have s: "(block_down a b x ^^ n) xs = take a xs @ replicate (Suc k) x @ drop (Suc b) xs"
      using Suc m k by simp
    have t: "take k (x # replicate k x @ zs) = replicate k x" for zs
      using replicate_app_Cons_same [of k x zs] by (metis length_replicate append_eq_conv_conj)
    have "Suc k - n = 0" using False k by simp
    then show ?thesis using assms k m unfolding funpow.simps comp_def s
      by (simp add: block_down_def min_def t)
  qed
qed

lemma iter_rows:
  assumes step: "\<And>rs. length rs = length (g_rows g) \<Longrightarrow> f (g\<lparr>g_rows := rs\<rparr>) = Some (g\<lparr>g_rows := h rs\<rparr>)"
    and len: "\<And>rs. length rs = length (g_rows g) \<Longrightarrow> length (h rs) = length rs"
  shows "length rs = length (g_rows g) \<Longrightarrow>
    iter_opt n f (g\<lparr>g_rows := rs\<rparr>) = Some (g\<lparr>g_rows := (h ^^ n) rs\<rparr>)"
proof (induction n arbitrary: rs)
  case (Suc n)
  have "length (h rs) = length (g_rows g)" using len Suc.prems by simp
  from Suc.IH [OF this] show ?case using step [OF Suc.prems] by (simp add: funpow_swap1)
qed simp

lemma mark_rows_dirty_rows [simp]: "g_rows (mark_rows_dirty is g) = g_rows g"
  using mark_all_eq [of _ g] by (metis (no_types, lifting) grid.select_convs(1) grid.surjective grid.update_convs(9) mark_rows_all)

section \<open>Properties\<close>

text \<open>
  C2. No sequence of terminal operations can panic: on a new grid with at least one row, every list
  of operations is applied to the end, the grid stays well-formed (its tables have the sizes that
  the indexing code assumes, the margins are ordered and on the screen, the scrollback is within its
  cap), the cursor and the saved cursor stay on the screen, and there is at most one response for
  each operation.
\<close>

theorem terminal_never_panics:
  assumes "0 < rows"
  shows "\<exists>g rs. apply_ops_with_responses ops (grid_new cols rows) = Some (g, rs) \<and> grid_wf g \<and>
    g_cols g = cols \<and> g_rows_count g = rows \<and> (0 < cols \<longrightarrow> cursor_wf g) \<and> length rs \<le> length ops"
proof -
  have wf: "grid_wf (grid_new cols rows)" by (rule grid_wf_new [OF assms])
  from term_machine.run_safe [OF wf, of ops] obtain g rs where
    g: "apply_ops_with_responses ops (grid_new cols rows) = Some (g, rs)" "grid_wf g" "advances (grid_new cols rows) g"
    by blast
  moreover have "g_cols g = cols" "g_rows_count g = rows" using g(3) by (auto simp: advances_def tracked_def grid_new_def)
  moreover have "0 < cols \<longrightarrow> cursor_wf g" using g(3) cursor_wf_new [OF assms] by (auto simp: advances_def)
  ultimately show ?thesis using term_machine.run_responses [OF wf g(1)] by auto
qed

theorem terminal_never_panics_witness:
  "\<exists>g rs. apply_ops_with_responses [Csi [999, 999] [] False 72, Print 65, Print 66, Csi [5] [] False 76] (grid_new 2 2) =
    Some (g, rs) \<and> grid_wf g"
  using terminal_never_panics [of 2 "[Csi [999, 999] [] False 72, Print 65, Print 66, Csi [5] [] False 76]" 2] by auto

text \<open>
  The deltas handed to the front end are cells of the visible grid with their current content,
  in strictly increasing row-major order, so that no cell is reported twice.
\<close>

theorem dirty_deltas_ordered:
  assumes "grid_wf g"
  shows "sorted_wrt (<) (map (\<lambda>d. (d_row d, d_col d)) (dirty_deltas g)) \<and>
    (\<forall>d\<in>set (dirty_deltas g). d_row d < g_rows_count g \<and> d_col d < g_cols g \<and>
      (d_c d, d_fg d, d_bg d, d_flags d) = glyph_at g (d_row d) (d_col d))"
proof (cases "g_cols g = 0")
  case True
  then have "reported g = []" using reported_bound [of _ g] by (cases "reported g") auto
  then show ?thesis by (simp add: dirty_deltas_reported [OF assms])
next
  case False
  have pos: "(\<lambda>d. (d_row d, d_col d)) \<circ> delta_of g = (\<lambda>i. (i div g_cols g, i mod g_cols g))"
    by (auto simp: delta_of_def Let_def)
  have "sorted_wrt (\<lambda>i j. (i div g_cols g, i mod g_cols g) < (j div g_cols g, j mod g_cols g)) (reported g)"
    by (rule sorted_wrt_mono_rel [OF _ sorted_reported]) (use False in \<open>auto intro: index_lex simp del: less_prod_simp\<close>)
  moreover have "i div g_cols g < g_rows_count g \<and> i mod g_cols g < g_cols g" if "i \<in> set (reported g)" for i
    using reported_bound [OF that] False by (simp add: div_less_iff_less_mult)
  ultimately show ?thesis unfolding dirty_deltas_reported [OF assms] map_map pos sorted_wrt_map
    by (auto simp: delta_of_def glyph_at_def glyph_def Let_def)
qed

theorem dirty_deltas_ordered_witness:
  "sorted_wrt (<) (map (\<lambda>d. (d_row d, d_col d)) (dirty_deltas (grid_new 2 2)))"
  using dirty_deltas_ordered [OF grid_wf_new, of 2 2] by simp

text \<open>
  The scan of a dirty word (lowest set bit first, cleared with \<open>w & (w - 1)\<close>) terminates
  and yields exactly the set bits in increasing order.
\<close>

theorem word_scan_correct: "word_bits w = filter (bit w) [0..<64]"
  by (rule word_bits_filter)

text \<open>
  Scrolling a region that starts at the top row feeds the scrollback: after \<open>n\<close> scrolls (at
  most the height of the region) the scrollback holds the last 10000 rows of the old scrollback
  followed by the rows that left the screen, and the region has moved up with blank rows below.
\<close>

theorem scroll_up_feeds_scrollback:
  assumes "grid_wf g" and "top_margin g = 0" and "n \<le> Suc (bottom_margin g)" and "g_max_scrollback g = 10000"
  shows "\<exists>g'. scroll_up n g = Some g' \<and> g_full_redraw g' \<and>
    (let log = g_scrollback g @ take n (g_rows g) in g_scrollback g' = drop (length log - 10000) log) \<and>
    g_rows g' = drop n (take (Suc (bottom_margin g)) (g_rows g)) @ replicate n (row_new (g_cols g)) @
      drop (Suc (bottom_margin g)) (g_rows g)"
proof -
  obtain g1 where g1: "iter_opt n scroll_up_once g = Some g1"
    using ok_scroll_up [of n] assms(1) by (auto simp: step_ok_def scroll_up_def split: Option.bind_splits)
  have "length (g_scrollback g) \<le> 10000" using assms(1,4) by (simp add: grid_wf_def)
  from scrollback_log.pushes_last [OF this, of "take n (g_rows g)"] scroll_up_rows [OF assms(1-3) g1] assms(4) g1
  show ?thesis by (simp add: scroll_up_def Let_def)
qed

theorem scroll_up_feeds_scrollback_witness:
  "\<exists>g'. scroll_up 1 (grid_new 3 2) = Some g' \<and> length (g_scrollback g') = 1"
  using scroll_up_feeds_scrollback [OF grid_wf_new, of 2 3 1] by (auto simp: grid_new_def Let_def)

text \<open>
  Inserting \<open>n\<close> lines at the cursor inside the margins leaves the rows above the cursor and
  below the margin alone, puts blank rows at the cursor and drops as many at the bottom margin.
\<close>

theorem insert_lines_rows:
  assumes "grid_wf g" and "top_margin g \<le> cur_row g" and "cur_row g \<le> bottom_margin g"
  shows "\<exists>g'. insert_lines n g = Some g' \<and>
    (let h = Suc (bottom_margin g) - cur_row g in
     g_rows g' = take (cur_row g) (g_rows g) @ replicate (min n h) (row_new (g_cols g)) @
       take (h - n) (drop (cur_row g) (g_rows g)) @ drop (Suc (bottom_margin g)) (g_rows g))"
proof -
  let ?f = "block_down (cur_row g) (bottom_margin g) (row_new (g_cols g))"
  have b: "bottom_margin g < length (g_rows g)" using assms(1) by (simp add: grid_wf_def)
  have "iter_opt n (insert_line_once (cur_row g) (bottom_margin g)) (g\<lparr>g_rows := g_rows g\<rparr>) =
      Some (g\<lparr>g_rows := (?f ^^ n) (g_rows g)\<rparr>)"
    by (rule iter_rows) (use b assms(3) in \<open>simp_all add: insert_line_once_eq\<close>)
  then show ?thesis using assms(2,3) block_down_iter [OF assms(3) b, of n]
    by (simp add: insert_lines_def Let_def not_less del: upt_Suc)
qed

theorem insert_lines_rows_witness:
  "\<exists>g'. insert_lines 1 (grid_new 2 3) = Some g' \<and> length (g_rows g') = 3"
  using insert_lines_rows [OF grid_wf_new, of 3 2 1] by (auto simp: grid_new_def point_default_def Let_def)

section \<open>Printing\<close>

lemma get_cell_modify:
  assumes "\<And>row. length (r_inner (f row)) = length (r_inner row)"
  shows "grid_get_cell (g\<lparr>g_rows := vec_modify i f (g_rows g)\<rparr>) r c =
    (if r = i \<and> i < length (g_rows g) then row_get_cell (f (g_rows g ! i)) c else grid_get_cell g r c)"
  by (auto simp: grid_get_cell_def vec_get_def vec_modify_def)

lemma get_cell_frame: "g_rows g' = g_rows g \<Longrightarrow> grid_get_cell g' = grid_get_cell g"
  by (simp add: grid_get_cell_def fun_eq_iff)

text \<open>
  Printing at the cursor, when no wrap is pending, puts the character (through the selected
  character set, with the current colours, flags and hyperlink) into the cell under the cursor and
  into no other; the cursor moves one column, or stays in the last column with a wrap pending when
  automatic wrapping is on.
\<close>

theorem print_at_cursor:
  assumes "grid_wf g" and "point_on g (g_cursor g)" and "\<not> g_wrap_next g"
  shows "\<exists>g'. apply_op (Print ch) g = Some (g', None) \<and>
    (\<forall>r c. grid_get_cell g' r c =
      (if (r, c) = (cur_row g, cur_col g) then Some (pen_cell g (map_charset g ch)) else grid_get_cell g r c)) \<and>
    cur_row g' = cur_row g \<and>
    (if cur_col g + 1 < g_cols g then cur_col g' = cur_col g + 1 \<and> \<not> g_wrap_next g'
     else cur_col g' = cur_col g \<and> g_wrap_next g' = g_auto_wrap g)"
proof -
  let ?x = "pen_cell g (map_charset g ch)"
  let ?g1 = "g\<lparr>g_rows := vec_modify (cur_row g) (row_set_cell (cur_col g) ?x) (g_rows g)\<rparr>"
  have on: "cur_row g < length (g_rows g)" "cur_row g < g_rows_count g" "cur_col g < g_cols g"
      "length (r_inner (g_rows g ! cur_row g)) = g_cols g" "\<not> g_insert_mode g"
    using assms(1,2) by (auto simp: grid_wf_def point_on_def)
  have cells: "grid_get_cell ?g1 r c =
      (if (r, c) = (cur_row g, cur_col g) then Some ?x else grid_get_cell g r c)" for r c
    using on by (subst get_cell_modify) (auto simp: row_get_cell_def nth_vec_modify grid_get_cell_def vec_get_def)
  have "insert_char (map_charset g ch) g = Some (put_cell (map_charset g ch) g)"
    using on assms(3) by (simp add: insert_char_def take_wrap_def)
  moreover have "grid_get_cell (put_cell (map_charset g ch) g) = grid_get_cell ?g1"
    using on by (intro get_cell_frame) (simp add: put_cell_def grid_mark_dirty_def set_cur_col_def Let_def)
  moreover have "cur_row (put_cell (map_charset g ch) g) = cur_row g"
    "if cur_col g + 1 < g_cols g
     then cur_col (put_cell (map_charset g ch) g) = cur_col g + 1 \<and> \<not> g_wrap_next (put_cell (map_charset g ch) g)
     else cur_col (put_cell (map_charset g ch) g) = cur_col g \<and>
       g_wrap_next (put_cell (map_charset g ch) g) = g_auto_wrap g"
    using on assms(3) by (auto simp: put_cell_def grid_mark_dirty_def set_cur_col_def Let_def)
  ultimately show ?thesis using cells by simp
qed

theorem print_at_cursor_witness:
  "\<exists>g'. apply_op (Print 65) (grid_new 2 2) = Some (g', None) \<and>
    grid_get_cell g' 0 0 = Some (pen_cell (grid_new 2 2) 65) \<and> cur_col g' = 1"
proof -
  have "point_on (grid_new 2 2) (g_cursor (grid_new 2 2))" "\<not> g_wrap_next (grid_new 2 2)"
    "map_charset (grid_new 2 2) 65 = 65" "cur_row (grid_new 2 2) = 0" "cur_col (grid_new 2 2) = 0" "g_cols (grid_new 2 2) = 2"
    by (simp_all add: grid_new_def point_on_def point_default_def map_charset_def)
  with print_at_cursor [OF grid_wf_new, of 2 2 65] show ?thesis by auto
qed

section \<open>Single operations\<close>

text \<open>
  Resizing, hyperlinks, reports and rows; and the recorded differences between the comments of the
  grid and what it does.
\<close>

section \<open>Resizing\<close>

text \<open>
  A resize keeps the content that fits: a cell inside both the old and the new dimensions is
  unchanged, new columns get the default cell, new rows are blank, nothing is stored outside the
  new dimensions; the result is well-formed and the cursor is on the new screen.
\<close>

theorem resize_keeps_content:
  assumes "grid_wf g" and "point_on g (g_cursor g)" and "0 < rows" and "0 < cols"
    and "cols \<noteq> g_cols g \<or> rows \<noteq> g_rows_count g"
  shows "grid_wf (grid_resize cols rows g) \<and>
    point_on (grid_resize cols rows g) (g_cursor (grid_resize cols rows g)) \<and>
    (\<forall>r c. grid_get_cell (grid_resize cols rows g) r c =
      (if rows \<le> r \<or> cols \<le> c then None
       else if g_rows_count g \<le> r then Some cell_default
       else if g_cols g \<le> c then Some (g_default_cell g)
       else grid_get_cell g r c))"
proof (intro conjI allI)
  show "grid_wf (grid_resize cols rows g)" by (rule grid_wf_resize [OF assms(1,3)])
  show "point_on (grid_resize cols rows g) (g_cursor (grid_resize cols rows g))"
    by (rule resize_cursor_on_screen [OF assms(2-4)])
  fix r c
  have rows: "g_rows (grid_resize cols rows g) = fit_rows cols rows (g_default_cell g) (g_rows g)"
    using assms(5) by (auto simp: grid_resize_def Let_def)
  have old: "length (g_rows g) = g_rows_count g" "r < g_rows_count g \<Longrightarrow> length (r_inner (g_rows g ! r)) = g_cols g"
    using assms(1) by (auto simp: grid_wf_def)
  show "grid_get_cell (grid_resize cols rows g) r c =
      (if rows \<le> r \<or> cols \<le> c then None
       else if g_rows_count g \<le> r then Some cell_default
       else if g_cols g \<le> c then Some (g_default_cell g)
       else grid_get_cell g r c)"
    unfolding grid_get_cell_def rows using old
    by (auto simp: vec_get_def fit_rows_def row_get_cell_def nth_append nth_vec_resize min_def)
qed

theorem resize_keeps_content_witness:
  "grid_get_cell (grid_resize 3 1 (grid_new 2 2)) 0 2 = Some cell_default"
proof -
  have "point_on (grid_new 2 2) (g_cursor (grid_new 2 2))"
    by (simp add: grid_new_def point_on_def point_default_def)
  with resize_keeps_content [OF grid_wf_new, of 2 2 1 3] show ?thesis by (simp add: grid_new_def)
qed

section \<open>Hyperlinks\<close>

text \<open>
  Opening a hyperlink makes new cells refer to it: while the table has fewer than 65535 entries,
  the current hyperlink identifier looks up to the URI that was set, and every identifier handed
  out before still looks up to its own URI.
\<close>

theorem hyperlink_lookup:
  assumes "u \<noteq> []" and "length (g_hyperlinks g) < 65535"
  shows "\<exists>i. g_current_hyperlink (set_hyperlink (Some u) g) = Some i \<and>
    hyperlink_uri (set_hyperlink (Some u) g) i = Some u \<and>
    (\<forall>j v. hyperlink_uri g j = Some v \<longrightarrow> hyperlink_uri (set_hyperlink (Some u) g) j = Some v)"
proof (cases "position (\<lambda>s. s = u) (g_hyperlinks g)")
  case (Some i)
  then have i: "i < length (g_hyperlinks g)" "g_hyperlinks g ! i = u" by (auto simp: position_Some)
  then have "unat (of_nat i :: u16) = i" using assms(2) by (simp add: unsigned_of_nat take_bit_nat_eq_self)
  with i Some assms show ?thesis
    by (auto simp: set_hyperlink_def u16_try_from_def hyperlink_uri_def vec_get_def)
next
  case None
  have "unat (of_nat (length (g_hyperlinks g)) :: u16) = length (g_hyperlinks g)"
    using assms(2) by (simp add: unsigned_of_nat take_bit_nat_eq_self)
  with None assms show ?thesis
    by (auto simp: set_hyperlink_def u16_try_from_def hyperlink_uri_def vec_get_def Let_def nth_append
        split: if_splits)
qed

theorem hyperlink_lookup_witness:
  "\<exists>i. g_current_hyperlink (set_hyperlink (Some [104]) (grid_new 2 2)) = Some i \<and>
    hyperlink_uri (set_hyperlink (Some [104]) (grid_new 2 2)) i = Some [104]"
  using hyperlink_lookup [of "[104]" "grid_new 2 2"] by (auto simp: grid_new_def)

text \<open>
  With a full table the link is not dropped as the comment says: the identifier 65535 still fits,
  becomes current and looks up to nothing.
\<close>

lemma hyperlink_table_full_dangles:
  assumes "u \<noteq> []" "length (g_hyperlinks g) = 65535" "u \<notin> set (g_hyperlinks g)"
  shows "g_current_hyperlink (set_hyperlink (Some u) g) = Some 65535 \<and>
    hyperlink_uri (set_hyperlink (Some u) g) 65535 = None"
proof -
  have "position (\<lambda>s. s = u) (g_hyperlinks g) = None" using assms(3) by (auto simp: position_None)
  then show ?thesis using assms
    by (simp add: set_hyperlink_def u16_try_from_def hyperlink_uri_def vec_get_def)
qed

section \<open>Cursor reports\<close>

text \<open>
  A device status request (\<open>CSI 6 n\<close>) is answered with a cursor position report that reads
  back, as two decimal numbers, to the one-based cursor position, and does not change the grid.
\<close>

theorem cursor_report_reads_back:
  "apply_op (Csi [6] [] ignore (cp CHR ''n'')) g = Some (g, Some (cursor_report g)) \<and>
    (\<exists>r c. cursor_report g = [0x1B, byte CHR ''[''] @ r @ [byte CHR '';''] @ c @ [byte CHR ''R''] \<and>
      parse_unsigned (cur_row g + 2) r = Some (cur_row g + 1) \<and>
      parse_unsigned (cur_col g + 2) c = Some (cur_col g + 1) \<and>
      list_all is_digit r \<and> list_all is_digit c)"
proof
  have "param_or [6] 0 0 = 6" by (simp add: param_or_def vec_get_def)
  then show "apply_op (Csi [6] [] ignore (cp CHR ''n'')) g = Some (g, Some (cursor_report g))"
    by (simp add: apply_csi_def)
  show "\<exists>r c. cursor_report g = [0x1B, byte CHR ''[''] @ r @ [byte CHR '';''] @ c @ [byte CHR ''R''] \<and>
      parse_unsigned (cur_row g + 2) r = Some (cur_row g + 1) \<and>
      parse_unsigned (cur_col g + 2) c = Some (cur_col g + 1) \<and>
      list_all is_digit r \<and> list_all is_digit c"
    by (intro exI [of _ "dec (cur_row g + 1)"] exI [of _ "dec (cur_col g + 1)"])
      (simp add: cursor_report_def parse_unsigned_dec dec_digits)
qed

section \<open>Rows\<close>

text \<open>
  The occupancy of a row is one past its last non-blank cell, and setting, clearing, inserting,
  deleting and resetting cells keep it so; inserting and deleting shift the tail of the row as the
  closed forms say.
\<close>

theorem row_occupancy_kept:
  assumes "row_wf r"
  shows "row_wf (row_set_cell col x r) \<and> row_wf (row_clear_cell col t r) \<and> row_wf (row_reset t r) \<and>
    row_wf (row_insert_chars col n t r) \<and> row_wf (row_delete_chars col n t r) \<and>
    (let xs = r_inner r; k = min n (length xs - col) in
      r_inner (row_insert_chars col n t r) = take col xs @ replicate k t @ take (length xs - col - k) (drop col xs) \<and>
      r_inner (row_delete_chars col n t r) = take col xs @ drop (col + k) xs @ replicate k t)"
  using assms by (simp add: wf_intros row_insert_chars_inner row_delete_chars_inner Let_def)

theorem row_occupancy_kept_witness: "row_wf (row_set_cell 1 (cell_new 97) (row_new 3))"
  using row_occupancy_kept [OF row_wf_new, of 1 "cell_new 97" 3] by blast

section \<open>Recorded differences\<close>

text \<open>
  \<open>CSI n X\<close> is dispatched as \<open>n\<close> calls of \<open>delete_char\<close>, which does not move
  the cursor: however large \<open>n\<close> is, no cell but the one under the cursor is erased.
\<close>

lemma delete_char_cells:
  "(r, c) \<noteq> (cur_row g, cur_col g) \<Longrightarrow> grid_get_cell (delete_char g) r c = grid_get_cell g r c"
  by (auto simp: delete_char_def grid_mark_dirty_def grid_get_cell_def vec_get_def row_get_cell_def
      vec_modify_def nth_list_update)

lemma delete_char_cursor: "g_cursor (delete_char g) = g_cursor g"
  by (simp add: delete_char_def grid_mark_dirty_def)

lemma ech_single_cell:
  assumes "(r, c) \<noteq> (cur_row g, cur_col g)"
  shows "\<exists>g'. apply_op (Csi [n] [] ignore (cp CHR ''X'')) g = Some (g', None) \<and>
    grid_get_cell g' r c = grid_get_cell g r c"
proof -
  have "grid_get_cell ((delete_char ^^ k) g) r c = grid_get_cell g r c \<and> g_cursor ((delete_char ^^ k) g) = g_cursor g" for k
    using assms by (induction k) (auto simp: delete_char_cells delete_char_cursor)
  then show ?thesis by (simp add: apply_csi_def Let_def)
qed

text \<open>
  A cursor saved before a shrinking resize is restored unclamped: it is off the screen, and what
  is printed there is silently dropped.
\<close>

lemma restored_cursor_off_screen:
  "let g = restore_cursor (grid_resize 4 4 (save_cursor (move_cursor_to 9 9 (grid_new 10 10)))) in
    cur_row g = 9 \<and> g_rows_count g = 4 \<and> insert_char 65 g = Some g"
  by (simp add: Let_def restore_cursor_def grid_resize_def save_cursor_def move_cursor_to_def grid_new_def
      insert_char_def)

text \<open>The first mark of a row records an empty interval for the marked column.\<close>

lemma row_first_mark_empty: "row_dirty_range (row_mark_dirty col (row_new n)) = Some (col, col)"
  by (simp add: row_dirty_range_def row_mark_dirty_def row_new_def)

text \<open>A region that starts at the top row but ends above the bottom also feeds the scrollback.\<close>

lemma partial_region_feeds_scrollback:
  assumes "grid_wf g" "top_margin g = 0" "bottom_margin g + 1 < g_rows_count g"
  shows "\<exists>g'. scroll_up 1 g = Some g' \<and> last (g_scrollback g') = hd (g_rows g)"
proof -
  obtain g1 where "scroll_up_once g = Some g1" using scroll_up_once_eq [OF assms(1)] by blast
  with scroll_up_once_scrollback [OF assms(1,2) this] show ?thesis
    by (simp add: scroll_up_def push_scrollback_def)
qed

end
