(* ===== verification/Term_Listener.thy ===== *)
theory Term_Listener
  imports Term_Session
begin

text \<open>
  The listener handshake of a PTY session as a protocol: mounts come and go in any order, with
  stale and duplicated calls, and the lock makes each call atomic. \<open>pty_spawn\<close> begins a
  startup pause only on the read loop it has just claimed, that is before any mount is attached.
\<close>

datatype lev =
    Begin nat "string option"
  | Expire nat
  | Attach nat string bool
  | Cancel string
  | Detach string u64

fun lev_apply :: "lev \<Rightarrow> listener \<Rightarrow> listener" where
  "lev_apply (Begin now ow) l = begin_startup_pause now ow l"
| "lev_apply (Expire now) l = snd (expire_startup_pause now l)"
| "lev_apply (Attach now ow rep) l = snd (attach_listener now ow rep l)"
| "lev_apply (Cancel ow) l = snd (cancel_startup_pause ow l)"
| "lev_apply (Detach ow gen) l = snd (detach_listener ow gen l)"

definition listener_new :: listener where
  "listener_new =
    \<lparr>l_paused = False, l_generation = 0, l_owner = None, l_detached = False, l_pending = None,
     l_deadline = None, l_rejected = None\<rparr>"

inductive listener_reach :: "listener \<Rightarrow> bool" where
  init: "listener_reach listener_new"
| step: "listener_reach l \<Longrightarrow> (\<forall>now ow. e = Begin now ow \<longrightarrow> l_owner l = None) \<Longrightarrow>
    listener_reach (lev_apply e l)"

text \<open>
  Output is paused exactly while a bounded startup pause runs (and then nobody is attached) or
  after the attached mount has detached.
\<close>

definition listener_inv :: "listener \<Rightarrow> bool" where
  "listener_inv l \<longleftrightarrow>
    (l_paused l \<longrightarrow> l_deadline l \<noteq> None \<or> l_detached l) \<and>
    (l_detached l \<longrightarrow> l_owner l \<noteq> None \<and> l_paused l) \<and>
    (l_deadline l \<noteq> None \<longrightarrow> l_paused l \<and> l_owner l = None) \<and>
    (l_pending l \<noteq> None \<longrightarrow> l_deadline l \<noteq> None)"

lemma deadline_passed_simps [simp]:
  "deadline_passed now None = False" "deadline_passed now (Some t) = (t \<le> now)"
  by (simp_all add: deadline_passed_def)

lemma attach_replace_id: "\<not> rep \<Longrightarrow> attach_replace ow rep l = l"
  by (simp add: attach_replace_def)

lemma attach_expire_id: "\<not> deadline_passed now (l_deadline l) \<Longrightarrow> attach_expire now l = l"
  by (simp add: attach_expire_def)

lemma attach_claim_success:
  assumes "attach_claim ow l = (Some g, l')"
  shows "l_owner l' = Some ow \<and> \<not> l_paused l' \<and> l_generation l' = g \<and>
    (l' = l \<or> g = l_generation l + 1 \<and> \<not> l_detached l' \<and> l_pending l' = None \<and> l_deadline l' = None)"
proof (cases "l_owner l = Some ow \<and> \<not> l_paused l")
  case True
  then have "attach_claim ow l = (Some (l_generation l), l)" by (simp add: attach_claim_def attach_refused_def)
  then show ?thesis using assms True by auto
next
  case False
  moreover from assms have "\<not> attach_refused ow l" by (auto simp: attach_claim_def)
  ultimately show ?thesis using assms by (auto simp: attach_claim_def)
qed

lemma attach_claim_failure: "attach_claim ow l = (None, l') \<Longrightarrow> l' = l"
  by (auto simp: attach_claim_def split: if_splits)

text \<open>A replacing attach always wins, unless it is the one owner whose lease was revoked.\<close>

lemma attach_replacing_wins:
  assumes "l_owner l \<noteq> None \<or> l_pending l \<noteq> None"
  shows "\<exists>l'. attach_listener now ow True l = (Some (l_generation l + 1), l') \<and>
    l_owner l' = Some ow \<and> \<not> l_paused l' \<and> \<not> l_detached l' \<and> l_pending l' = None \<and> l_deadline l' = None"
  using assms
  by (cases "l_paused l \<and> deadline_passed now (l_deadline l)")
    (simp_all add: attach_listener_def attach_claim_def attach_refused_def attach_replace_def attach_expire_def)

lemma listener_inv_attach_expire: "listener_inv l \<Longrightarrow> listener_inv (attach_expire now l)"
  by (auto simp: listener_inv_def attach_expire_def)

lemma listener_inv_attach:
  assumes inv: "listener_inv l"
  shows "listener_inv (snd (attach_listener now ow rep l))"
proof (cases "rep \<and> (l_owner l \<noteq> None \<or> l_pending l \<noteq> None)")
  case True
  then obtain l' where "attach_listener now ow rep l = (Some (l_generation l + 1), l')"
      "l_owner l' = Some ow" "\<not> l_paused l'" "\<not> l_detached l'" "l_pending l' = None" "l_deadline l' = None"
    using attach_replacing_wins [of l now ow] by auto
  then show ?thesis by (simp add: listener_inv_def)
next
  case False
  then have same: "attach_replace ow rep l = l" by (auto simp: attach_replace_def)
  obtain r l' where a: "attach_claim ow (attach_expire now l) = (r, l')" by fastforce
  have inv': "listener_inv (attach_expire now l)" by (rule listener_inv_attach_expire [OF inv])
  have "listener_inv l'"
  proof (cases r)
    case None
    then show ?thesis using attach_claim_failure a inv' by metis
  next
    case (Some g)
    then show ?thesis using attach_claim_success [of ow "attach_expire now l" g l'] a inv'
      by (auto simp: listener_inv_def)
  qed
  then show ?thesis by (simp add: attach_listener_def same a)
qed

lemma listener_inv_step:
  assumes inv: "listener_inv l" and ok: "\<forall>now ow. e = Begin now ow \<longrightarrow> l_owner l = None"
  shows "listener_inv (lev_apply e l)"
proof (cases e)
  case (Attach now ow rep)
  then show ?thesis using listener_inv_attach [OF inv] by simp
qed (use inv ok in \<open>auto simp: listener_inv_def begin_startup_pause_def expire_startup_pause_def
  cancel_startup_pause_def detach_listener_def Let_def\<close>)

lemma listener_reach_inv: "listener_reach l \<Longrightarrow> listener_inv l"
proof (induction rule: listener_reach.induct)
  case init
  show ?case by (simp add: listener_inv_def listener_new_def)
next
  case (step l e)
  then show ?case by (simp add: listener_inv_step)
qed

section \<open>A live mount keeps its stream\<close>

text \<open>
  The events that others may send after the mount \<open>ow\<close> attached with generation \<open>g\<close>:
  everything but an explicit replacement, its own teardown and a new startup pause.
\<close>

fun stale :: "string \<Rightarrow> u64 \<Rightarrow> lev \<Rightarrow> bool" where
  "stale ow g (Begin now p) = False"
| "stale ow g (Expire now) = True"
| "stale ow g (Attach now o' rep) = (\<not> rep)"
| "stale ow g (Cancel o') = (o' \<noteq> ow)"
| "stale ow g (Detach o' g') = (o' \<noteq> ow \<or> g' \<noteq> g)"

definition live :: "string \<Rightarrow> u64 \<Rightarrow> listener \<Rightarrow> bool" where
  "live ow g l \<longleftrightarrow> l_owner l = Some ow \<and> l_generation l = g \<and> \<not> l_paused l \<and> \<not> l_detached l"

lemma stale_event_ignored:
  assumes "listener_inv l" "live ow g l" "stale ow g e"
  shows "lev_apply e l = l"
proof (cases e)
  case (Attach now o' rep)
  have "attach_expire now l = l" using assms(2) by (simp add: attach_expire_def live_def)
  then show ?thesis using assms Attach
    by (auto simp: attach_listener_def attach_claim_def attach_refused_def attach_replace_def live_def)
qed (use assms in \<open>auto simp: live_def listener_inv_def expire_startup_pause_def cancel_startup_pause_def
  detach_listener_def Let_def\<close>)

lemma stale_events_ignored:
  "listener_inv l \<Longrightarrow> live ow g l \<Longrightarrow> \<forall>e\<in>set es. stale ow g e \<Longrightarrow> fold lev_apply es l = l"
  by (induction es) (auto simp: stale_event_ignored)

text \<open>After its owner has detached, a session goes to the next mount that asks.\<close>

lemma attach_after_detach:
  assumes "l_owner l = Some ow" "l_detached l" "l_paused l" "l_deadline l = None" "ow' \<noteq> ow"
  shows "fst (attach_listener now ow' rep l) = Some (l_generation l + 1) \<and>
    live ow' (l_generation l + 1) (snd (attach_listener now ow' rep l))"
proof -
  let ?l = "attach_replace ow' rep l"
  have e: "attach_expire now ?l = ?l" using assms by (simp add: attach_expire_def attach_replace_def)
  have "\<not> attach_refused ow' ?l" "\<not> (l_owner ?l = Some ow' \<and> \<not> l_paused ?l)" "l_generation ?l = l_generation l"
    using assms by (auto simp: attach_refused_def attach_replace_def)
  then show ?thesis by (simp add: attach_listener_def e attach_claim_def live_def)
qed

section \<open>Properties\<close>

text \<open>
  In every reachable state of the listener handshake, whatever stale or duplicated calls have
  arrived, output is paused only while a startup pause with a deadline runs and nobody is
  attached, or after the attached mount has detached; a pending lease always has a deadline.
\<close>

theorem listener_pause_invariant:
  assumes "listener_reach l"
  shows "(l_paused l \<longleftrightarrow> l_deadline l \<noteq> None \<or> l_detached l) \<and>
    (l_detached l \<longrightarrow> l_owner l \<noteq> None) \<and> (l_deadline l \<noteq> None \<longrightarrow> l_owner l = None) \<and>
    (l_pending l \<noteq> None \<longrightarrow> l_deadline l \<noteq> None)"
  using listener_reach_inv [OF assms] by (auto simp: listener_inv_def)

theorem listener_pause_invariant_witness:
  "let l = lev_apply (Begin 0 (Some ''m1'')) listener_new in
    l_paused l \<and> l_pending l = Some ''m1'' \<and> (l_pending l \<noteq> None \<longrightarrow> l_deadline l \<noteq> None)"
  using listener_pause_invariant [OF listener_reach.step [OF listener_reach.init, of "Begin 0 (Some ''m1'')"]]
  by (simp add: Let_def begin_startup_pause_def listener_new_def)

text \<open>
  C3. Once a mount has attached and holds a generation, no sequence of late attaches, teardowns of
  older mounts, cancellations by others and expiries changes the listener state: the live mount
  keeps its stream.
\<close>

theorem live_mount_not_disturbed:
  assumes "listener_reach l" and "attach_listener now ow rep l = (Some g, l')"
    and "\<forall>e\<in>set es. stale ow g e"
  shows "fold lev_apply es l' = l' \<and> live ow g l'"
proof -
  have inv: "listener_inv l'"
    using listener_inv_attach [OF listener_reach_inv [OF assms(1)], of now ow rep] assms(2) by simp
  have "live ow g l'"
    using attach_claim_success [of ow "attach_expire now (attach_replace ow rep l)" g l'] assms(2) inv
    by (auto simp: attach_listener_def live_def listener_inv_def)
  with inv assms(3) show ?thesis by (simp add: stale_events_ignored)
qed

theorem live_mount_not_disturbed_witness:
  "let l = lev_apply (Begin 0 (Some ''m1'')) listener_new;
       l' = snd (attach_listener 10 ''m1'' False l) in
    fold lev_apply [Detach ''m0'' 0, Attach 20 ''m2'' False, Expire 9000, Cancel ''m0''] l' = l' \<and> live ''m1'' 1 l'"
proof -
  have "listener_reach (lev_apply (Begin 0 (Some ''m1'')) listener_new)"
    by (rule listener_reach.step [OF listener_reach.init]) (simp add: listener_new_def)
  moreover have "attach_listener 10 ''m1'' False (lev_apply (Begin 0 (Some ''m1'')) listener_new) =
      (Some 1, snd (attach_listener 10 ''m1'' False (lev_apply (Begin 0 (Some ''m1'')) listener_new)))"
    by code_simp
  moreover have "\<forall>e\<in>set [Detach ''m0'' 0, Attach 20 ''m2'' False, Expire 9000, Cancel ''m0'']. stale ''m1'' 1 e"
    by simp
  ultimately show ?thesis unfolding Let_def by (rule live_mount_not_disturbed)
qed

text \<open>
  C4. Output cannot stay paused for good: in a reachable paused state, either nobody is attached
  and the expiry at the deadline resumes output, or the owner has detached and the attach of any
  other mount succeeds, resumes output and gets a fresh generation.
\<close>

theorem paused_output_resumes:
  assumes "listener_reach l" and "l_paused l"
  shows "(\<exists>d. l_deadline l = Some d \<and> (\<forall>now\<ge>d. fst (expire_startup_pause now l) \<and>
        \<not> l_paused (snd (expire_startup_pause now l)))) \<or>
    (\<exists>ow. l_owner l = Some ow \<and> l_detached l \<and> (\<forall>ow' now rep. ow' \<noteq> ow \<longrightarrow>
        fst (attach_listener now ow' rep l) = Some (l_generation l + 1) \<and>
        live ow' (l_generation l + 1) (snd (attach_listener now ow' rep l))))"
proof -
  have inv: "listener_inv l" by (rule listener_reach_inv [OF assms(1)])
  show ?thesis
  proof (cases "l_deadline l")
    case (Some d)
    then show ?thesis using assms(2) by (simp add: expire_startup_pause_def)
  next
    case None
    then obtain ow where ow: "l_owner l = Some ow" "l_detached l" "l_pending l = None"
      using inv assms(2) by (auto simp: listener_inv_def)
    then show ?thesis using attach_after_detach [OF ow(1,2) assms(2) None] by blast
  qed
qed

theorem paused_output_resumes_witness:
  "let l = lev_apply (Begin 0 (Some ''m1'')) listener_new in
    fst (expire_startup_pause 5000 l) \<and> \<not> l_paused (snd (expire_startup_pause 5000 l))"
proof -
  have "listener_reach (lev_apply (Begin 0 (Some ''m1'')) listener_new)"
    by (rule listener_reach.step [OF listener_reach.init]) (simp add: listener_new_def)
  from paused_output_resumes [OF this] show ?thesis
    by (simp add: Let_def begin_startup_pause_def listener_new_def)
qed

end
