(* ===== verification/Term_Alt.thy ===== *)
theory Term_Alt
  imports Term_Machine
begin

text \<open>
  The alternate screen as a bracket: whatever a full-screen program does between entering and
  leaving it, the primary screen comes back. The lemmas say which operations keep the saved
  screen; the one that does not is the private-mode reset that leaves the alternate screen.
\<close>

section \<open>Operations that keep the saved screen\<close>

definition alt_of :: "grid \<Rightarrow> bool \<times> (row list \<times> point) option" where
  "alt_of g = (g_alt_screen_active g, g_alt_saved g)"

definition keeps :: "(grid \<Rightarrow> grid) \<Rightarrow> bool" where
  "keeps f \<longleftrightarrow> (\<forall>g. g_alt_screen_active g \<longrightarrow> alt_of (f g) = alt_of g)"

definition keeps_opt :: "(grid \<Rightarrow> grid option) \<Rightarrow> bool" where
  "keeps_opt f \<longleftrightarrow> (\<forall>g g'. g_alt_screen_active g \<longrightarrow> f g = Some g' \<longrightarrow> alt_of g' = alt_of g)"

lemma alt_of_active: "alt_of g' = alt_of g \<Longrightarrow> g_alt_screen_active g' = g_alt_screen_active g"
  by (simp add: alt_of_def)

lemma keeps_id: "keeps (\<lambda>g. g)"
  by (simp add: keeps_def)

lemma keeps_comp: "keeps f \<Longrightarrow> keeps h \<Longrightarrow> keeps (\<lambda>g. f (h g))"
  unfolding keeps_def using alt_of_active by metis

lemma keeps_if: "keeps f \<Longrightarrow> keeps h \<Longrightarrow> keeps (\<lambda>g. if b g then f g else h g)"
  by (simp add: keeps_def)

lemma keeps_funpow: "keeps f \<Longrightarrow> keeps (f ^^ n)"
proof (induction n)
  case 0
  then show ?case by (simp add: keeps_def)
next
  case (Suc n)
  then show ?case using keeps_comp [of f "f ^^ n"] by (simp add: comp_def)
qed

lemma keeps_opt_pure: "keeps f \<Longrightarrow> keeps_opt (\<lambda>g. Some (f g))"
  by (simp add: keeps_def keeps_opt_def)

lemma keeps_opt_if: "keeps_opt f \<Longrightarrow> keeps_opt h \<Longrightarrow> keeps_opt (\<lambda>g. if b g then f g else h g)"
  by (simp add: keeps_opt_def)

lemma keeps_opt_bind: "keeps_opt f \<Longrightarrow> keeps_opt h \<Longrightarrow> keeps_opt (\<lambda>g. Option.bind (f g) h)"
  unfolding keeps_opt_def
proof (intro allI impI)
  fix g g'
  assume f: "\<forall>g g'. g_alt_screen_active g \<longrightarrow> f g = Some g' \<longrightarrow> alt_of g' = alt_of g"
    and h: "\<forall>g g'. g_alt_screen_active g \<longrightarrow> h g = Some g' \<longrightarrow> alt_of g' = alt_of g"
    and g: "g_alt_screen_active g" "Option.bind (f g) h = Some g'"
  obtain g1 where 1: "f g = Some g1" "h g1 = Some g'" using g(2) by (cases "f g") auto
  have "alt_of g1 = alt_of g" using f g(1) 1(1) by blast
  moreover from this have "alt_of g' = alt_of g1" using h g(1) 1(2) alt_of_active by blast
  ultimately show "alt_of g' = alt_of g" by simp
qed

lemma keeps_opt_iter: "keeps_opt f \<Longrightarrow> keeps_opt (iter_opt n f)"
proof (induction n)
  case 0
  then show ?case by (simp add: keeps_opt_def)
next
  case (Suc n)
  then show ?case using keeps_opt_bind [of f "iter_opt n f"] by simp
qed

lemma alt_of_mark_all [simp]: "alt_of (mark_all ps g) = alt_of g"
  using mark_all_eq [of ps g] by (auto simp: alt_of_def)

lemma alt_of_updates [simp]:
  "alt_of (g\<lparr>g_rows := rs\<rparr>) = alt_of g" "alt_of (g\<lparr>g_cursor := p\<rparr>) = alt_of g"
  "alt_of (g\<lparr>g_wrap_next := b\<rparr>) = alt_of g" "alt_of (g\<lparr>g_full_redraw := b\<rparr>) = alt_of g"
  "alt_of (g\<lparr>g_scrollback := sb\<rparr>) = alt_of g" "alt_of (g\<lparr>g_tab_stops := ts\<rparr>) = alt_of g"
  "alt_of (g\<lparr>g_saved_cursor := sc\<rparr>) = alt_of g" "alt_of (g\<lparr>g_scroll_region := sr\<rparr>) = alt_of g"
  "alt_of (g\<lparr>g_charset_graphics := b\<rparr>) = alt_of g" "alt_of (g\<lparr>g_hyperlinks := l\<rparr>) = alt_of g"
  "alt_of (g\<lparr>g_current_hyperlink := h\<rparr>) = alt_of g" "alt_of (g\<lparr>g_current_fg := c\<rparr>) = alt_of g"
  "alt_of (g\<lparr>g_current_bg := c\<rparr>) = alt_of g" "alt_of (g\<lparr>g_current_flags := fl\<rparr>) = alt_of g"
  "alt_of (g\<lparr>g_title := t\<rparr>) = alt_of g" "alt_of (g\<lparr>g_osc52_clipboard := oc\<rparr>) = alt_of g"
  "alt_of (g\<lparr>g_cursor_visible := b\<rparr>) = alt_of g" "alt_of (g\<lparr>g_bracketed_paste := b\<rparr>) = alt_of g"
  by (simp_all add: alt_of_def)

lemma keeps_moves:
  "keeps (move_cursor_left n)" "keeps (move_cursor_right n)" "keeps (move_cursor_up n)" "keeps (move_cursor_down n)"
  "keeps (move_cursor_to r c)" "keeps (\<lambda>g. move_cursor_to r (cur_col g) g)" "keeps (move_cursor_to_col c)"
  "keeps carriage_return" "keeps tab" "keeps set_tab_stop" "keeps save_cursor" "keeps restore_cursor"
  "keeps (\<lambda>g. set_scroll_region t (b g) g)" "keeps (set_charset d)" "keeps (set_cur_col k)"
  by (simp_all add: keeps_def move_cursor_left_def move_cursor_right_def move_cursor_up_def move_cursor_down_def
      move_cursor_to_def move_cursor_to_col_def carriage_return_def tab_def set_tab_stop_def save_cursor_def
      restore_cursor_def set_scroll_region_def set_charset_def set_cur_row_def set_cur_col_def Let_def
      split: option.split)

lemma keeps_edits:
  "keeps (insert_chars n)" "keeps (delete_chars n)" "keeps delete_char" "keeps grid_clear"
  "keeps (erase_line m)" "keeps (erase_display m)" "keeps (put_cell c)"
  by (simp_all add: keeps_def insert_chars_def delete_chars_def delete_char_def grid_clear_def
      erase_line_def erase_display_def put_cell_def mark_alls clear_cols_def reset_rows_def
      set_cur_col_def Let_def)

lemma sgr_loop_alt: "alt_of (sgr_loop ps g) = alt_of g"
proof (induction ps g rule: sgr_loop.induct)
  case (2 p ps g)
  have "alt_of (sgr_simple p g) = alt_of g"
    by (simp add: sgr_simple_def sgr_reset_def sgr_on_def sgr_off_def)
  with 2 show ?case by (auto split: option.split)
qed simp

lemma keeps_sgr: "keeps (set_sgr ps)"
  by (simp add: keeps_def set_sgr_def sgr_loop_alt) (simp add: sgr_reset_def)

lemma keeps_loop_bodies:
  "keeps_opt scroll_up_once" "keeps_opt scroll_down_once"
  "keeps_opt (insert_line_once a b)" "keeps_opt (delete_line_once a b)"
  by (auto simp: keeps_opt_def scroll_up_once_def scroll_down_once_def insert_line_once_def delete_line_once_def
      Let_def split: Option.bind_splits)

lemma keeps_redraw: "keeps (\<lambda>g. g\<lparr>g_full_redraw := True\<rparr>)" "keeps (mark_rows_dirty rs)"
  by (simp_all add: keeps_def mark_alls)

lemma keeps_scrolls: "keeps_opt (scroll_up n)" "keeps_opt (scroll_down n)"
  unfolding scroll_up_def [abs_def] scroll_down_def [abs_def]
  by (intro keeps_opt_bind keeps_opt_iter keeps_loop_bodies keeps_opt_pure keeps_redraw)+

lemma keeps_lines: "keeps_opt (insert_lines n)" "keeps_opt (delete_lines n)"
proof -
  have loop: "alt_of g' = alt_of g"
    if "keeps_opt f" "g_alt_screen_active g" "Option.bind (iter_opt n f g) (\<lambda>h. Some (mark_rows_dirty rs h)) = Some g'"
    for f g g' rs
    using keeps_opt_bind [OF keeps_opt_iter [OF that(1)] keeps_opt_pure [OF keeps_redraw(2)]] that(2,3)
    unfolding keeps_opt_def by blast
  show "keeps_opt (insert_lines n)" unfolding keeps_opt_def insert_lines_def
    using loop [OF keeps_loop_bodies(3)] by (auto split: if_splits)
  show "keeps_opt (delete_lines n)" unfolding keeps_opt_def delete_lines_def
    using loop [OF keeps_loop_bodies(4)] by (auto split: if_splits)
qed

lemma keeps_next_row:
  "keeps_opt (\<lambda>g. if cur_row g = bottom_margin g then scroll_up 1 g
     else if cur_row g + 1 < g_rows_count g then Some (set_cur_row (cur_row g + 1) g) else Some g)"
proof (rule keeps_opt_if [OF keeps_scrolls(1)])
  show "keeps_opt (\<lambda>g. if cur_row g + 1 < g_rows_count g then Some (set_cur_row (cur_row g + 1) g) else Some g)"
    by (simp add: keeps_opt_def set_cur_row_def)
qed

lemma keeps_newline: "keeps_opt newline"
  using keeps_opt_bind [OF keeps_opt_pure [OF keeps_moves(8)] keeps_next_row]
  by (simp add: newline_def [abs_def] carriage_return_def Let_def)

lemma keeps_insert_char: "keeps_opt (insert_char c)"
proof -
  have "keeps_opt (\<lambda>g. Option.bind (Some (g\<lparr>g_wrap_next := False\<rparr>)) (\<lambda>g1. Option.bind
    (if cur_row g1 = bottom_margin g1 then scroll_up 1 g1
     else if cur_row g1 + 1 < g_rows_count g1 then Some (set_cur_row (cur_row g1 + 1) g1) else Some g1)
    (\<lambda>g2. Option.bind (Some (set_cur_col 0 g2))
      (\<lambda>g3. Some (g3\<lparr>g_rows := vec_modify (cur_row g3) (row_set_wrapline True) (g_rows g3)\<rparr>)))))"
    by (intro keeps_opt_bind keeps_opt_pure keeps_next_row keeps_moves) (simp_all add: keeps_def)
  from keeps_opt_if [OF this keeps_opt_pure [OF keeps_id]] have "keeps_opt take_wrap"
    by (simp only: take_wrap_def [abs_def] Let_def Option.bind.simps)
  then show ?thesis unfolding insert_char_def [abs_def]
    by (intro keeps_opt_if keeps_opt_bind keeps_opt_pure keeps_edits keeps_id)
qed

section \<open>The interpreter\<close>

definition alt_modes :: "u16 set" where
  "alt_modes = {47, 1047, 1049}"

text \<open>The one operation that leaves the alternate screen.\<close>

fun leaves_alt :: "ansi_op \<Rightarrow> bool" where
  "leaves_alt (Csi params intermediates ignore action) \<longleftrightarrow>
    action = cp CHR ''l'' \<and> intermediates = [byte CHR ''?''] \<and> set params \<inter> alt_modes \<noteq> {}"
| "leaves_alt _ \<longleftrightarrow> False"

lemma keeps_private_mode:
  "enable \<or> set modes \<inter> alt_modes = {} \<Longrightarrow> keeps (apply_private_mode modes enable)"
proof (induction modes)
  case Nil
  then show ?case by (simp add: keeps_def)
next
  case (Cons mode modes)
  let ?f = "\<lambda>g. if mode = 25 then g\<lparr>g_cursor_visible := enable\<rparr>
       else if mode = 47 \<or> mode = 1047 \<or> mode = 1049
         then (if enable then enter_alt_screen g else exit_alt_screen g)
       else if mode = 1048 then (if enable then save_cursor g else restore_cursor g)
       else if mode = 2004 then g\<lparr>g_bracketed_paste := enable\<rparr>
       else g"
  have "keeps ?f"
    using Cons.prems keeps_moves(11,12) by (auto simp: keeps_def alt_modes_def enter_alt_screen_def)
  moreover have "keeps (apply_private_mode modes enable)" using Cons by auto
  ultimately show ?case using keeps_comp [of "apply_private_mode modes enable" ?f] by simp
qed

definition keeps_resp :: "(grid \<Rightarrow> (grid \<times> bytes option) option) \<Rightarrow> bool" where
  "keeps_resp f \<longleftrightarrow> (\<forall>g g' r. g_alt_screen_active g \<longrightarrow> f g = Some (g', r) \<longrightarrow> alt_of g' = alt_of g)"

lemma keeps_resp_if: "(b \<Longrightarrow> keeps_resp f) \<Longrightarrow> (\<not> b \<Longrightarrow> keeps_resp h) \<Longrightarrow> keeps_resp (\<lambda>g. if b then f g else h g)"
  by (simp add: keeps_resp_def)

lemma keeps_resp_quiet: "keeps_opt f \<Longrightarrow> keeps_resp (\<lambda>g. map_option (\<lambda>g'. (g', None)) (f g))"
  by (auto simp: keeps_resp_def keeps_opt_def)

lemma keeps_resp_some: "keeps f \<Longrightarrow> keeps_resp (\<lambda>g. Some (f g, r g))"
  by (simp add: keeps_resp_def keeps_def)

lemma keeps_csi:
  assumes "\<not> leaves_alt (Csi params intermediates ignore action)"
  shows "keeps_resp (apply_csi params intermediates action)"
proof -
  have l: "keeps (apply_private_mode params False)"
    if "action = cp CHR ''l'' \<and> intermediates = [byte CHR ''?'']"
    using assms that by (intro keeps_private_mode) auto
  have h: "keeps (apply_private_mode params True)" by (intro keeps_private_mode) simp
  show ?thesis
    unfolding apply_csi_def [abs_def] Let_def
    by (intro keeps_resp_if keeps_resp_quiet keeps_resp_some keeps_id keeps_opt_pure keeps_opt_iter
        keeps_comp [OF keeps_moves(7) keeps_moves(4)] keeps_comp [OF keeps_moves(7) keeps_moves(3)]
        keeps_comp [OF keeps_moves(5) keeps_moves(13)] keeps_funpow keeps_moves keeps_edits keeps_sgr
        keeps_scrolls keeps_lines l h)
qed

lemma keeps_reverse_index: "keeps_opt reverse_index"
  unfolding reverse_index_def [abs_def] by (intro keeps_opt_if keeps_scrolls keeps_opt_pure keeps_moves)

lemma keeps_execute: "keeps_opt (apply_execute b)"
proof -
  have "keeps_opt (\<lambda>g. newline (carriage_return g))"
    using keeps_opt_bind [OF keeps_opt_pure [OF keeps_moves(8)] keeps_newline] by simp
  then show ?thesis unfolding apply_execute_def [abs_def]
    by (intro keeps_opt_if keeps_newline keeps_reverse_index keeps_opt_pure keeps_id keeps_moves)
qed

lemma keeps_esc: "keeps_opt (apply_esc intermediates b)"
  unfolding apply_esc_def [abs_def]
  by (intro keeps_opt_if keeps_reverse_index keeps_opt_pure keeps_comp [OF keeps_moves(5) keeps_edits(4)]
      keeps_id keeps_moves)

lemma keeps_osc: "keeps (apply_osc params)"
proof -
  have "alt_of (set_hyperlink u g) = alt_of g" for u g
    by (simp add: set_hyperlink_def Let_def split: option.split)
  then show ?thesis by (auto simp: keeps_def apply_osc_def split: list.split option.split)
qed

lemma keeps_op: "\<not> leaves_alt op \<Longrightarrow> keeps_resp (apply_op op)"
proof (cases op)
  case (Print c)
  have "keeps_opt (\<lambda>g. insert_char (map_charset g c) g)"
    using keeps_insert_char by (simp add: keeps_opt_def)
  from keeps_resp_quiet [OF this] show ?thesis by (simp add: Print keeps_resp_def)
next
  case (Execute b)
  then show ?thesis using keeps_resp_quiet [OF keeps_execute [of b]] by (simp add: keeps_resp_def)
next
  case (Csi params intermediates ignore action)
  moreover assume "\<not> leaves_alt op"
  ultimately have "keeps_resp (apply_csi params intermediates action)" using keeps_csi by simp
  then show ?thesis by (simp add: Csi keeps_resp_def)
next
  case (Osc params bell)
  then show ?thesis using keeps_osc [of params] by (simp add: keeps_resp_def keeps_def)
next
  case (Esc intermediates ignore b)
  then show ?thesis using keeps_resp_quiet [OF keeps_esc [of intermediates b]] by (simp add: keeps_resp_def)
qed (simp_all add: keeps_resp_def)

lemma keeps_run:
  assumes "\<forall>op\<in>set ops. \<not> leaves_alt op" "g_alt_screen_active g" "apply_ops_with_responses ops g = Some (g', rs)"
  shows "alt_of g' = alt_of g"
  using assms
proof (induction ops arbitrary: g rs)
  case (Cons op ops)
  from Cons.prems(3) obtain g1 r rs1 where 1: "apply_op op g = Some (g1, r)" "apply_ops_with_responses ops g1 = Some (g', rs1)"
    by (auto split: Option.bind_splits)
  have "alt_of g1 = alt_of g" using keeps_op [of op] Cons.prems(1,2) 1(1) by (auto simp: keeps_resp_def)
  with Cons.IH [OF _ _ 1(2)] Cons.prems show ?case by (auto dest: alt_of_active)
qed simp

section \<open>Property\<close>

lemma fit_rows_same:
  "length rs = rows \<Longrightarrow> \<forall>r\<in>set rs. length (r_inner r) = cols \<Longrightarrow>
    map r_inner (fit_rows cols rows t rs) = map r_inner rs"
  by (auto simp: fit_rows_def)

text \<open>
  C5. The alternate screen is a bracket: from a well-formed grid on the primary screen, entering the
  alternate screen, running any operations that do not reset mode 47, 1047 or 1049, and leaving
  it gives back every cell and the cursor of the primary screen.
\<close>

theorem alt_screen_roundtrip:
  assumes "grid_wf g" and "cursor_wf g" and "\<not> g_alt_screen_active g"
    and "\<forall>op\<in>set ops. \<not> leaves_alt op"
    and "apply_ops_with_responses ops (enter_alt_screen g) = Some (g', rs)"
  shows "map r_inner (g_rows (exit_alt_screen g')) = map r_inner (g_rows g) \<and>
    g_cursor (exit_alt_screen g') = g_cursor g \<and> \<not> g_alt_screen_active (exit_alt_screen g')"
proof -
  let ?h = "enter_alt_screen g"
  have h: "alt_of ?h = (True, Some (g_rows g, g_cursor g))"
    using assms(3) by (simp add: enter_alt_screen_def alt_of_def)
  then have alt: "alt_of g' = (True, Some (g_rows g, g_cursor g))"
    using keeps_run [OF assms(4) _ assms(5)] by (simp add: alt_of_def)
  have wf: "grid_wf ?h" using ok_enter_alt assms(1) by (simp add: pure_ok_def good_def)
  from term_machine.run_safe [OF wf, of ops] assms(5) have "tracked ?h g'" by (auto simp: advances_def)
  then have dims: "g_cols g' = g_cols g" "g_rows_count g' = g_rows_count g"
    using assms(3) by (simp_all add: tracked_def enter_alt_screen_def)
  then have "map r_inner (fit_rows (g_cols g') (g_rows_count g') (g_default_cell g') (g_rows g)) = map r_inner (g_rows g)"
    using assms(1) by (intro fit_rows_same) (auto simp: grid_wf_def)
  moreover have "min (cur_row g) (g_rows_count g - 1) = cur_row g" "min (cur_col g) (g_cols g - 1) = cur_col g"
    using assms(2) by (auto simp: cursor_wf_def point_on_def)
  ultimately show ?thesis using alt dims by (simp add: exit_alt_screen_def alt_of_def)
qed

theorem alt_screen_roundtrip_witness:
  "let g = grid_new 2 2; g' = fst (the (apply_ops_with_responses [Print 65, Execute 10] (enter_alt_screen g)))
   in map r_inner (g_rows (exit_alt_screen g')) = map r_inner (g_rows g)"
proof -
  have "0 < (2 :: nat)" by simp
  from term_machine.run_safe [of "enter_alt_screen (grid_new 2 2)" "[Print 65, Execute 10]"]
    ok_enter_alt grid_wf_new [OF this, of 2]
  obtain g' rs where "apply_ops_with_responses [Print 65, Execute 10] (enter_alt_screen (grid_new 2 2)) = Some (g', rs)"
    by (auto simp: pure_ok_def good_def)
  with alt_screen_roundtrip [OF grid_wf_new cursor_wf_new _ _ this] show ?thesis
    by (simp add: grid_new_def Let_def)
qed

end
