(* ===== verification/Term_Base64.thy ===== *)
theory Term_Base64
  imports Term_Ansi
begin

text \<open>
  The clipboard path of the terminal: \<open>base64_decode\<close> against the encoder of RFC 4648, and
  what an OSC 52 sequence can put on the clipboard.
\<close>

section \<open>The reference encoder\<close>

text \<open>The alphabet of RFC 4648, table 1: \<open>A-Z\<close>, \<open>a-z\<close>, \<open>0-9\<close>, \<open>+\<close>, \<open>/\<close>.\<close>

definition b64_char :: "u8 \<Rightarrow> u8" where
  "b64_char v =
    (if v < 26 then v + 65 else if v < 52 then v - 26 + 97 else if v < 62 then v - 52 + 48
     else if v = 62 then 43 else 47)"

text \<open>The four sextets of three bytes; a missing byte counts as zero.\<close>

definition sx0 :: "u8 \<Rightarrow> u8" where
  "sx0 a = drop_bit 2 a"

definition sx1 :: "u8 \<Rightarrow> u8 \<Rightarrow> u8" where
  "sx1 a b = push_bit 4 (a AND 3) OR drop_bit 4 b"

definition sx2 :: "u8 \<Rightarrow> u8 \<Rightarrow> u8" where
  "sx2 b c = push_bit 2 (b AND 15) OR drop_bit 6 c"

definition sx3 :: "u8 \<Rightarrow> u8" where
  "sx3 c = c AND 63"

fun base64_encode :: "bytes \<Rightarrow> bytes" where
  "base64_encode [] = []"
| "base64_encode [a] = [b64_char (sx0 a), b64_char (sx1 a 0), byte CHR ''='', byte CHR ''='']"
| "base64_encode [a, b] = [b64_char (sx0 a), b64_char (sx1 a b), b64_char (sx2 b 0), byte CHR ''='']"
| "base64_encode (a # b # c # rest) =
    [b64_char (sx0 a), b64_char (sx1 a b), b64_char (sx2 b c), b64_char (sx3 c)] @ base64_encode rest"

lemma b64_char_all:
  "\<forall>n\<in>set [0..<64]. b64_val (b64_char (of_nat n)) = Some (of_nat n) \<and>
    b64_char (of_nat n) \<noteq> byte CHR ''='' \<and> \<not> is_ascii_whitespace (b64_char (of_nat n))"
  by code_simp

lemma b64_char_spec:
  assumes "unat v < 64"
  shows "b64_val (b64_char v) = Some v" "b64_char v \<noteq> byte CHR ''=''" "\<not> is_ascii_whitespace (b64_char v)"
proof -
  have "unat v \<in> set [0..<64]" using assms by simp
  from b64_char_all [THEN bspec, OF this]
  show "b64_val (b64_char v) = Some v" "b64_char v \<noteq> byte CHR ''=''" "\<not> is_ascii_whitespace (b64_char v)"
    by simp_all
qed

lemma bit8_cases: "bit (w :: u8) i \<Longrightarrow> i \<in> {0, 1, 2, 3, 4, 5, 6, 7}"
  using bit_imp_le_length [of w i] by auto

lemma sextet_bound: "(\<And>i. 6 \<le> i \<Longrightarrow> \<not> bit (v :: u8) i) \<Longrightarrow> unat v < 64"
proof -
  assume hi: "\<And>i. 6 \<le> i \<Longrightarrow> \<not> bit v i"
  have "v = take_bit 6 v" by (rule bit_eqI) (use hi in \<open>auto simp: bit_take_bit_iff not_less, meson not_le\<close>)
  then have "unat v = take_bit 6 (unat v)" by (metis unsigned_take_bit_eq)
  then show ?thesis using take_bit_nat_less_exp [of 6 "unat v"] by simp
qed

lemma bit_low_masks:
  "bit (3 :: u8) i \<longleftrightarrow> i < 2" "bit (15 :: u8) i \<longleftrightarrow> i < 4" "bit (63 :: u8) i \<longleftrightarrow> i < 6"
proof -
  have "(3 :: u8) = mask 2" "(15 :: u8) = mask 4" "(63 :: u8) = mask 6" by (simp_all add: mask_eq_exp_minus_1)
  then show "bit (3 :: u8) i \<longleftrightarrow> i < 2" "bit (15 :: u8) i \<longleftrightarrow> i < 4" "bit (63 :: u8) i \<longleftrightarrow> i < 6"
    by (simp_all only: bit_mask_iff) auto
qed

lemma sextets: "unat (sx0 a) < 64" "unat (sx1 a b) < 64" "unat (sx2 b c) < 64" "unat (sx3 c) < 64"
proof -
  note bits = bit_or_iff bit_push_bit_iff bit_and_iff bit_drop_bit_eq o_def bit_low_masks
  show "unat (sx0 a) < 64" unfolding sx0_def
    by (rule sextet_bound) (simp only: bits, auto dest: bit8_cases)
  show "unat (sx1 a b) < 64" unfolding sx1_def
    by (rule sextet_bound) (simp only: bits, auto dest: bit8_cases)
  show "unat (sx2 b c) < 64" unfolding sx2_def
    by (rule sextet_bound) (simp only: bits, auto dest: bit8_cases)
  show "unat (sx3 c) < 64" unfolding sx3_def
    by (rule sextet_bound) (simp only: bits, auto)
qed

section \<open>Decoding a group\<close>

definition shift_in :: "u32 \<Rightarrow> u8 \<Rightarrow> u32" where
  "shift_in acc v = push_bit 6 acc OR ucast v"

lemma bit_shift_in:
  "bit (shift_in acc v) n \<longleftrightarrow> n < 32 \<and> (6 \<le> n \<and> bit acc (n - 6) \<or> bit v n)"
  by (auto simp: shift_in_def bit_or_iff bit_push_bit_iff bit_ucast_iff dest: bit_imp_le_length)

lemma bit_out: "bit (ucast (drop_bit k acc) :: u8) n \<longleftrightarrow> n < 8 \<and> bit (acc :: u32) (k + n)"
  by (auto simp: bit_ucast_iff bit_drop_bit_eq)

lemma group_bytes:
  "ucast (drop_bit 4 (shift_in (shift_in acc (sx0 a)) (sx1 a b))) = a"
  "ucast (drop_bit 2 (shift_in (shift_in acc (sx1 a b)) (sx2 b c))) = b"
  "ucast (shift_in (shift_in acc (sx2 b c)) (sx3 c)) = c"
proof -
  have eight: "n < 8 \<longleftrightarrow> n = 0 \<or> n = 1 \<or> n = 2 \<or> n = 3 \<or> n = 4 \<or> n = 5 \<or> n = 6 \<or> n = 7" for n :: nat
    by auto
  note bits = sx0_def sx1_def sx2_def sx3_def bit_out bit_shift_in bit_or_iff bit_and_iff bit_push_bit_iff
    bit_drop_bit_eq bit_low_masks o_def
  show "ucast (drop_bit 4 (shift_in (shift_in acc (sx0 a)) (sx1 a b))) = a"
    by (rule bit_word_eqI)
      (simp only: bits, auto simp: eight numeral_2_eq_2 [symmetric] numeral_3_eq_3 [symmetric] dest: bit8_cases)
  show "ucast (drop_bit 2 (shift_in (shift_in acc (sx1 a b)) (sx2 b c))) = b"
    by (rule bit_word_eqI)
      (simp only: bits, auto simp: eight numeral_2_eq_2 [symmetric] numeral_3_eq_3 [symmetric] dest: bit8_cases)
  show "ucast (shift_in (shift_in acc (sx2 b c)) (sx3 c)) = c"
    by (rule bit_word_eqI)
      (simp only: bits bit_ucast_iff, auto simp: eight numeral_2_eq_2 [symmetric] numeral_3_eq_3 [symmetric]
        dest: bit8_cases)
qed

lemma b64_loop_step:
  "unat v < 64 \<Longrightarrow> b64_loop (b64_char v # bs) acc k out =
    (if 8 \<le> k + 6 then b64_loop bs (shift_in acc v) (k - 2) (out @ [ucast (drop_bit (k - 2) (shift_in acc v))])
     else b64_loop bs (shift_in acc v) (k + 6) out)"
  by (simp add: b64_char_spec(1) shift_in_def Let_def)

text \<open>The digits of an encoding, without the padding.\<close>

fun b64_digits :: "bytes \<Rightarrow> bytes" where
  "b64_digits [] = []"
| "b64_digits [a] = [b64_char (sx0 a), b64_char (sx1 a 0)]"
| "b64_digits [a, b] = [b64_char (sx0 a), b64_char (sx1 a b), b64_char (sx2 b 0)]"
| "b64_digits (a # b # c # rest) =
    [b64_char (sx0 a), b64_char (sx1 a b), b64_char (sx2 b c), b64_char (sx3 c)] @ b64_digits rest"

lemma b64_loop_digits: "b64_loop (b64_digits xs) acc 0 out = Some (out @ xs)"
proof (induction xs arbitrary: acc out rule: b64_digits.induct)
  case (4 a b c rest)
  then show ?case by (simp add: b64_loop_step sextets group_bytes del: b64_loop.simps(2))
qed (simp_all add: b64_loop_step sextets group_bytes del: b64_loop.simps(2))

lemma b64_digits_clean: "x \<in> set (b64_digits xs) \<Longrightarrow> x \<noteq> byte CHR ''='' \<and> \<not> is_ascii_whitespace x"
  by (induction xs rule: b64_digits.induct) (auto simp: b64_char_spec(2) [simplified] b64_char_spec(3) sextets)

lemma base64_encode_digits:
  "\<exists>k\<le>2. base64_encode xs = b64_digits xs @ replicate k (byte CHR ''='') \<and> length (b64_digits xs) mod 4 \<noteq> 1"
proof (induction xs rule: base64_encode.induct)
  case 1
  show ?case by (rule exI [of _ 0]) simp
next
  case (2 a)
  show ?case by (rule exI [of _ 2]) (simp add: numeral_2_eq_2)
next
  case (3 a b)
  show ?case by (rule exI [of _ 1]) simp
next
  case (4 a b c rest)
  then obtain k where k: "k \<le> 2" "base64_encode rest = b64_digits rest @ replicate k (byte CHR ''='')"
      "length (b64_digits rest) mod 4 \<noteq> 1" by blast
  have "length (b64_digits (a # b # c # rest)) mod 4 = length (b64_digits rest) mod 4"
    using mod_add_self1 [of 4 "length (b64_digits rest)"] by simp
  with k show ?case by (intro exI [of _ k]) simp
qed

lemma padding_length:
  "\<forall>x\<in>set ds. x \<noteq> e \<Longrightarrow> length (takeWhile (\<lambda>b. b = e) (rev (ds @ replicate k e))) = k"
  by (cases ds rule: rev_cases) (simp_all add: takeWhile_append)

lemma base64_decode_digits:
  assumes "\<forall>x\<in>set ds. x \<noteq> byte CHR ''='' \<and> \<not> is_ascii_whitespace x" "k \<le> 2" "length ds mod 4 \<noteq> 1"
    "filter (\<lambda>b. \<not> is_ascii_whitespace b) input = ds @ replicate k (byte CHR ''='')"
  shows "base64_decode input = b64_loop ds 0 0 []"
proof -
  have "length (takeWhile (\<lambda>b. b = byte CHR ''='') (rev (ds @ replicate k (byte CHR ''='')))) = k"
    by (rule padding_length) (use assms(1) in blast)
  then show ?thesis using assms(2,3) unfolding base64_decode_def assms(4) Let_def by simp
qed

lemma not_whitespace_pad: "\<not> is_ascii_whitespace (byte CHR ''='')"
  by (simp add: is_ascii_whitespace_def)

lemma base64_decode_any_spacing:
  assumes "filter (\<lambda>b. \<not> is_ascii_whitespace b) input = base64_encode xs"
  shows "base64_decode input = Some xs"
proof -
  obtain k where "k \<le> 2" "base64_encode xs = b64_digits xs @ replicate k (byte CHR ''='')"
      "length (b64_digits xs) mod 4 \<noteq> 1" using base64_encode_digits by blast
  then show ?thesis using base64_decode_digits [of "b64_digits xs" k input] b64_digits_clean assms
    by (simp add: b64_loop_digits)
qed

lemma base64_encode_no_space: "filter (\<lambda>b. \<not> is_ascii_whitespace b) (base64_encode xs) = base64_encode xs"
proof -
  obtain k where "base64_encode xs = b64_digits xs @ replicate k (byte CHR ''='')"
    using base64_encode_digits by blast
  then show ?thesis using b64_digits_clean not_whitespace_pad by (auto simp: filter_id_conv)
qed

lemma length_base64_encode: "length (base64_encode xs) = (length xs + 2) div 3 * 4"
proof (induction xs rule: base64_encode.induct)
  case (4 a b c rest)
  have "(length (a # b # c # rest) + 2) div 3 = Suc ((length rest + 2) div 3)" by simp
  with 4 show ?case by simp
qed simp_all

section \<open>Properties\<close>

text \<open>
  C7. The hand-written base64 decoder inverts the RFC 4648 encoder, whatever ASCII whitespace has
  been inserted into the encoding.
\<close>

theorem base64_roundtrip:
  assumes "filter (\<lambda>b. \<not> is_ascii_whitespace b) input = base64_encode xs"
  shows "base64_decode input = Some xs"
  using assms by (rule base64_decode_any_spacing)

theorem base64_roundtrip_witness: "base64_decode [83, 71, 10, 107, 61] = Some [72, 105]"
  by (rule base64_roundtrip) code_simp

lemma parse_52: "parse_u16 (utf8_lossy (bytes_of ''52'')) = Some 52"
proof -
  have "bytes_of ''52'' = utf8_string [53, 50]" by code_simp
  then have "utf8_lossy (bytes_of ''52'') = bytes_of ''52''"
    by (simp add: utf8_lossy_valid utf8_valid_string is_scalar_def del: utf8_string_simps)
  moreover have "bytes_of ''52'' = dec 52" by (simp add: bytes_of_def dec.simps mk_byte_def)
  then have "parse_u16 (bytes_of ''52'') = Some 52" by (simp add: parse_u16_def parse_unsigned_dec)
  ultimately show ?thesis by simp
qed

lemma osc52_text_spec:
  assumes "osc52_text payload = Some t"
  shows "utf8_valid t \<and> length t \<le> MAX_OSC52_BYTES \<and> base64_decode payload = Some t"
  using assms by (auto simp: osc52_text_def split: if_splits option.splits)

lemma osc52_text_encode:
  assumes "utf8_valid t" "length t < MAX_OSC52_BYTES"
  shows "osc52_text (base64_encode t) = Some t"
proof -
  have "(length t + 2) div 3 * 4 \<le> MAX_OSC52_BYTES * 4 div 3"
    using assms(2) div_le_mono [of "length t + 2" 1048577 3] by (simp add: MAX_OSC52_BYTES_def)
  then show ?thesis using assms base64_decode_any_spacing [OF base64_encode_no_space, of t]
    by (simp add: osc52_text_def length_base64_encode)
qed

text \<open>
  A clipboard write reaches the clipboard unchanged: an OSC 52 sequence with the base64 form of
  a UTF-8 text shorter than 1 MiB sets the clipboard to that text and changes nothing else.
\<close>

theorem osc52_clipboard_roundtrip:
  assumes "\<forall>u\<in>set us. is_scalar u" and "length (utf8_string us) < MAX_OSC52_BYTES"
  shows "apply_op (Osc [bytes_of ''52'', sel, base64_encode (utf8_string us)] bell) g =
    Some (g\<lparr>g_osc52_clipboard := Some (utf8_string us)\<rparr>, None)"
proof -
  have "utf8_valid (utf8_string us)" using assms(1) by (simp add: utf8_valid_string)
  from osc52_text_encode [OF this assms(2)] show ?thesis by (simp add: apply_osc_def parse_52)
qed

theorem osc52_clipboard_roundtrip_witness:
  "apply_op (Osc [bytes_of ''52'', bytes_of ''c'', base64_encode (utf8_string [233, 65])] True) (grid_new 2 2) =
    Some ((grid_new 2 2)\<lparr>g_osc52_clipboard := Some (utf8_string [233, 65])\<rparr>, None)"
  by (rule osc52_clipboard_roundtrip)
    (simp_all add: is_scalar_def MAX_OSC52_BYTES_def utf8_encode_def)

text \<open>
  Whatever an OSC sequence contains, the clipboard afterwards is the old one or a valid UTF-8
  text of at most 1 MiB that the payload encodes.
\<close>

theorem osc_clipboard_bounded:
  "case g_osc52_clipboard (apply_osc params g) of
     Some t \<Rightarrow> g_osc52_clipboard g = Some t \<or>
       utf8_valid t \<and> length t \<le> MAX_OSC52_BYTES \<and> base64_decode (params ! 2) = Some t
   | None \<Rightarrow> g_osc52_clipboard g = None"
proof -
  have "g_osc52_clipboard (set_hyperlink u g) = g_osc52_clipboard g" for u
    by (simp add: set_hyperlink_def Let_def split: option.split)
  then show ?thesis unfolding apply_osc_def
    by (auto simp: dest!: osc52_text_spec split: list.split option.split)
qed

text \<open>A text of exactly 1 MiB is within the stated cap, but its encoding is refused.\<close>

lemma osc52_one_mib_refused: "length t = MAX_OSC52_BYTES \<Longrightarrow> osc52_text (base64_encode t) = None"
  by (simp add: osc52_text_def length_base64_encode MAX_OSC52_BYTES_def)

end
