(* ===== verification/Term_Input.thy ===== *)
theory Term_Input
  imports Text_Codec
begin

text \<open>
  \<open>crates/athena-terminal/src/input/escape_sequences.rs\<close>: keyboard input and pastes as the
  bytes that are sent to the shell.
\<close>

section \<open>Keys\<close>

text \<open>The bytes of a control chord, where there is one; \<open>c as u8\<close> truncates the code point.\<close>

definition ctrl_bytes :: "uchar \<Rightarrow> bytes option" where
  "ctrl_bytes c =
    (let b = (of_nat c :: u8) in
     if byte CHR ''a'' \<le> b \<and> b \<le> byte CHR ''z'' then Some [b - byte CHR ''a'' + 1]
     else if byte CHR ''A'' \<le> b \<and> b \<le> byte CHR ''Z'' then Some [b - byte CHR ''A'' + 1]
     else if c = cp CHR '' '' then Some [0x00]
     else if c = cp CHR ''['' then Some [0x1B]
     else if c = 92 then Some [0x1C]
     else if c = cp CHR '']'' then Some [0x1D]
     else if c = cp CHR ''^'' then Some [0x1E]
     else if c = cp CHR ''_'' then Some [0x1F]
     else None)"

definition encode_char :: "uchar \<Rightarrow> bool \<Rightarrow> bool \<Rightarrow> bool \<Rightarrow> bytes" where
  "encode_char c0 ctrl alt shift =
    (let c = (if shift \<and> \<not> ctrl then to_ascii_uppercase c0 else c0) in
     case (if ctrl \<and> \<not> alt then ctrl_bytes c else None) of
       Some bs \<Rightarrow> bs
     | None \<Rightarrow> if alt then 0x1B # utf8_encode c else utf8_encode c)"

definition key_modifier :: "bool \<Rightarrow> bool \<Rightarrow> bool \<Rightarrow> nat" where
  "key_modifier ctrl alt shift = 1 + of_bool shift + 2 * of_bool alt + 4 * of_bool ctrl"

definition mod_seq :: "nat \<Rightarrow> string \<Rightarrow> char \<Rightarrow> bytes" where
  "mod_seq modifier num final_byte =
    (if modifier = 1 then
       (if num = ''1'' then [0x1B, byte CHR ''['', byte final_byte]
        else [0x1B, byte CHR ''[''] @ bytes_of num @ [byte final_byte])
     else [0x1B, byte CHR ''[''] @ bytes_of num @ [byte CHR '';''] @ dec modifier @ [byte final_byte])"

definition esc_seq :: "string \<Rightarrow> bytes" where
  "esc_seq s = 0x1B # bytes_of s"

definition encode_special_key :: "string \<Rightarrow> bool \<Rightarrow> bool \<Rightarrow> bool \<Rightarrow> bytes option" where
  "encode_special_key key ctrl alt shift =
    (let m = mod_seq (key_modifier ctrl alt shift) in
     if key = ''Enter'' then Some [0x0D]
     else if key = ''Return'' then Some [0x0D]
     else if key = ''Tab'' then (if shift then Some (esc_seq ''[Z'') else Some [0x09])
     else if key = ''Backspace'' then Some [0x7F]
     else if key = ''Delete'' then Some (m ''3'' CHR ''~'')
     else if key = ''Escape'' then Some [0x1B]
     else if key = ''Insert'' then Some (m ''2'' CHR ''~'')
     else if key = ''Home'' then Some (m ''1'' CHR ''H'')
     else if key = ''End'' then Some (m ''1'' CHR ''F'')
     else if key = ''PageUp'' then Some (m ''5'' CHR ''~'')
     else if key = ''PageDown'' then Some (m ''6'' CHR ''~'')
     else if key = ''ArrowUp'' then Some (m ''1'' CHR ''A'')
     else if key = ''ArrowDown'' then Some (m ''1'' CHR ''B'')
     else if key = ''ArrowRight'' then Some (m ''1'' CHR ''C'')
     else if key = ''ArrowLeft'' then Some (m ''1'' CHR ''D'')
     else if key = ''F1'' then Some (esc_seq ''OP'')
     else if key = ''F2'' then Some (esc_seq ''OQ'')
     else if key = ''F3'' then Some (esc_seq ''OR'')
     else if key = ''F4'' then Some (esc_seq ''OS'')
     else if key = ''F5'' then Some (esc_seq ''[15~'')
     else if key = ''F6'' then Some (esc_seq ''[17~'')
     else if key = ''F7'' then Some (esc_seq ''[18~'')
     else if key = ''F8'' then Some (esc_seq ''[19~'')
     else if key = ''F9'' then Some (esc_seq ''[20~'')
     else if key = ''F10'' then Some (esc_seq ''[21~'')
     else if key = ''F11'' then Some (esc_seq ''[23~'')
     else if key = ''F12'' then Some (esc_seq ''[24~'')
     else None)"

section \<open>Pastes\<close>

definition paste_start :: bytes where
  "paste_start = esc_seq ''[200~''"

definition paste_end :: bytes where
  "paste_end = esc_seq ''[201~''"

definition bracketed_paste :: "bytes \<Rightarrow> bool \<Rightarrow> bytes" where
  "bracketed_paste data enabled =
    (if \<not> enabled then data else paste_start @ filter (\<lambda>b. b \<noteq> 0x1B) data @ paste_end)"

definition parse_text_input :: "uchar list \<Rightarrow> bytes list" where
  "parse_text_input text = map (\<lambda>c. if c = 10 then [0x0D] else utf8_encode c) text"

section \<open>Properties\<close>

lemma esc_in_paste:
  assumes "0x1B \<notin> set body" "paste_start @ body @ paste_end = xs @ paste_end @ ys"
  shows "ys = []"
proof (rule ccontr)
  assume "ys \<noteq> []"
  have len: "length paste_end = 6" "length paste_start = 6" by (simp_all add: paste_end_def paste_start_def esc_seq_def)
  let ?w = "paste_start @ body @ paste_end" and ?n = "length xs"
  have at: "?w ! (?n + i) = paste_end ! i" if "i < 6" for i
    using assms(2) that len by (simp add: nth_append)
  have total: "?n + 6 < length ?w" using assms(2) \<open>ys \<noteq> []\<close> len by (metis add_less_cancel_left length_append
      length_greater_0_conv less_add_same_cancel1 add.assoc)
  have e: "?w ! ?n = 0x1B" using at [of 0] by (simp add: paste_end_def esc_seq_def)
  have "?n = 0"
  proof (rule ccontr)
    assume n: "?n \<noteq> 0"
    consider "?n < 6" | "6 \<le> ?n" "?n < 6 + length body" | "6 + length body \<le> ?n" by linarith
    then show False
    proof cases
      case 1
      then have "?n = 1 \<or> ?n = 2 \<or> ?n = 3 \<or> ?n = 4 \<or> ?n = 5" using n by linarith
      moreover have "paste_start ! ?n = 0x1B" using e 1 len by (simp add: nth_append)
      ultimately show False
        by (elim disjE; simp only:) (simp_all add: paste_start_def esc_seq_def bytes_of_def)
    next
      case 2
      then have "?n - 6 < length body" by linarith
      moreover from this have "body ! (?n - 6) = 0x1B" using e len 2 by (simp add: nth_append)
      ultimately show False using assms(1) nth_mem by metis
    next
      case 3
      then show False using total len by simp
    qed
  qed
  then have "paste_start ! 4 = paste_end ! 4" using at [of 4] len by (simp add: nth_append)
  then show False by (simp add: paste_start_def paste_end_def esc_seq_def bytes_of_def)
qed

text \<open>
  A bracketed paste cannot be closed from inside: whatever bytes are pasted, the closing sequence
  occurs in the result only as its end, and a payload without escape bytes is sent unchanged.
\<close>

theorem paste_not_escapable:
  "(\<forall>xs ys. bracketed_paste data True = xs @ paste_end @ ys \<longrightarrow> ys = []) \<and>
    (0x1B \<notin> set data \<longrightarrow> bracketed_paste data True = paste_start @ data @ paste_end)"
proof (intro conjI allI impI)
  fix xs ys
  assume "bracketed_paste data True = xs @ paste_end @ ys"
  then show "ys = []" using esc_in_paste [of "filter (\<lambda>b. b \<noteq> 0x1B) data" xs ys] by (simp add: bracketed_paste_def)
next
  assume "0x1B \<notin> set data"
  then have "filter (\<lambda>b. b \<noteq> 0x1B) data = data" by (auto simp: filter_id_conv)
  then show "bracketed_paste data True = paste_start @ data @ paste_end" by (simp add: bracketed_paste_def)
qed

theorem paste_not_escapable_witness:
  "bracketed_paste [104, 105] True = paste_start @ [104, 105] @ paste_end"
  using paste_not_escapable [of "[104, 105]"] by simp

lemma key_modifier_inj:
  "key_modifier c a s = key_modifier c' a' s' \<longleftrightarrow> c = c' \<and> a = a' \<and> s = s'"
  by (auto simp: key_modifier_def)

lemma key_modifier_range: "1 \<le> key_modifier c a s" "key_modifier c a s < 9"
  by (auto simp: key_modifier_def of_bool_def)

lemma dec_single: "n < 10 \<Longrightarrow> dec n = [mk_byte (48 + n)]"
  by (simp add: dec.simps)

lemma mk_byte_digit_inj: "m < 10 \<Longrightarrow> n < 10 \<Longrightarrow> mk_byte (48 + m) = mk_byte (48 + n) \<longleftrightarrow> m = n"
proof
  assume b: "m < 10" "n < 10" and e: "mk_byte (48 + m) = mk_byte (48 + n)"
  have "unat (mk_byte (48 + k)) = 48 + k" if "k < 10" for k
    using that by (simp add: mk_byte_def unsigned_of_nat take_bit_nat_eq_self del: of_nat_add)
  then show "m = n" using b e by (metis add_left_cancel)
qed simp

lemma mod_seq_inj:
  assumes "mod_seq m [a] f = mod_seq m' [b] f'" "m < 9" "m' < 9"
  shows "m = m' \<and> byte a = byte b \<and> byte f = byte f'"
  using assms
  by (auto simp: mod_seq_def bytes_of_def dec_single mk_byte_digit_inj split: if_splits)

text \<open>The number and the final byte of each navigation key.\<close>

definition nav_table :: "(string \<times> char \<times> char) list" where
  "nav_table =
    [(''Delete'', CHR ''3'', CHR ''~''), (''Insert'', CHR ''2'', CHR ''~''), (''Home'', CHR ''1'', CHR ''H''),
     (''End'', CHR ''1'', CHR ''F''), (''PageUp'', CHR ''5'', CHR ''~''), (''PageDown'', CHR ''6'', CHR ''~''),
     (''ArrowUp'', CHR ''1'', CHR ''A''), (''ArrowDown'', CHR ''1'', CHR ''B''),
     (''ArrowRight'', CHR ''1'', CHR ''C''), (''ArrowLeft'', CHR ''1'', CHR ''D'')]"

lemma nav_key_bytes:
  "encode_special_key ''Delete'' c a s = Some (mod_seq (key_modifier c a s) ''3'' CHR ''~'')"
  "encode_special_key ''Insert'' c a s = Some (mod_seq (key_modifier c a s) ''2'' CHR ''~'')"
  "encode_special_key ''Home'' c a s = Some (mod_seq (key_modifier c a s) ''1'' CHR ''H'')"
  "encode_special_key ''End'' c a s = Some (mod_seq (key_modifier c a s) ''1'' CHR ''F'')"
  "encode_special_key ''PageUp'' c a s = Some (mod_seq (key_modifier c a s) ''5'' CHR ''~'')"
  "encode_special_key ''PageDown'' c a s = Some (mod_seq (key_modifier c a s) ''6'' CHR ''~'')"
  "encode_special_key ''ArrowUp'' c a s = Some (mod_seq (key_modifier c a s) ''1'' CHR ''A'')"
  "encode_special_key ''ArrowDown'' c a s = Some (mod_seq (key_modifier c a s) ''1'' CHR ''B'')"
  "encode_special_key ''ArrowRight'' c a s = Some (mod_seq (key_modifier c a s) ''1'' CHR ''C'')"
  "encode_special_key ''ArrowLeft'' c a s = Some (mod_seq (key_modifier c a s) ''1'' CHR ''D'')"
  by (simp_all add: encode_special_key_def Let_def)

lemma nav_table_seq:
  assumes "(k, n, f) \<in> set nav_table"
  shows "encode_special_key k ctrl alt shift = Some (mod_seq (key_modifier ctrl alt shift) [n] f)"
  using assms unfolding nav_table_def list.set insert_iff empty_iff prod.inject
  by (elim disjE conjE) (simp_all only: nav_key_bytes)

lemma nav_table_distinct:
  "inj_on (\<lambda>(k, n, f). (byte n, byte f)) (set nav_table)"
  by (simp add: nav_table_def)

text \<open>
  The navigation keys keep their modifiers apart: two chords of navigation keys that send the same
  bytes are the same key with the same Ctrl, Alt and Shift state.
\<close>

theorem navigation_chords_injective:
  assumes "k \<in> fst ` set nav_table" and "k' \<in> fst ` set nav_table"
    and "encode_special_key k ctrl alt shift = encode_special_key k' ctrl' alt' shift'"
  shows "k = k' \<and> ctrl = ctrl' \<and> alt = alt' \<and> shift = shift'"
proof -
  obtain n f n' f' where t: "(k, n, f) \<in> set nav_table" "(k', n', f') \<in> set nav_table"
    using assms(1,2) by force
  then have "mod_seq (key_modifier ctrl alt shift) [n] f = mod_seq (key_modifier ctrl' alt' shift') [n'] f'"
    using assms(3) by (simp add: nav_table_seq)
  from mod_seq_inj [OF this] have m: "ctrl = ctrl' \<and> alt = alt' \<and> shift = shift'"
    and nf: "byte n = byte n'" "byte f = byte f'"
    by (simp_all add: key_modifier_range key_modifier_inj)
  have "(k, n, f) = (k', n', f')"
    by (rule inj_onD [OF nav_table_distinct _ t]) (simp add: nf)
  with m show ?thesis by simp
qed

theorem navigation_chords_injective_witness:
  "encode_special_key ''Home'' True False False \<noteq> encode_special_key ''End'' True False False"
  using navigation_chords_injective [of "''Home''" "''End''" True False False True False False]
  by (auto simp: nav_table_def)

text \<open>
  A plain or Alt-modified key sends the UTF-8 form of the character (after an escape byte for
  Alt), which decodes back to it, and a Ctrl-modified ASCII letter sends its position in the alphabet.
\<close>

theorem encode_char_meaning:
  assumes "is_scalar c"
  shows "utf8_chars (encode_char c False False False) = [c] \<and>
    encode_char c False True False = 0x1B # encode_char c False False False \<and>
    (\<forall>i<26. encode_char (97 + i) True False shift = [of_nat (i + 1)] \<and>
      encode_char (65 + i) True False shift = [of_nat (i + 1)])"
proof (intro conjI allI impI)
  show "utf8_chars (encode_char c False False False) = [c]"
    using utf8_chars_string [of "[c]"] assms by (simp add: encode_char_def)
  show "encode_char c False True False = 0x1B # encode_char c False False False"
    by (simp add: encode_char_def)
  have "\<forall>i\<in>set [0..<26]. ctrl_bytes (97 + i) = Some [of_nat (i + 1)] \<and> ctrl_bytes (65 + i) = Some [of_nat (i + 1)]"
    by code_simp
  then have "ctrl_bytes (97 + i) = Some [of_nat (i + 1)] \<and> ctrl_bytes (65 + i) = Some [of_nat (i + 1)]" if "i < 26" for i
    using that by simp
  then show "encode_char (97 + i) True False shift = [of_nat (i + 1)]"
    "encode_char (65 + i) True False shift = [of_nat (i + 1)]" if "i < 26" for i
    using that by (simp_all add: encode_char_def)
qed

theorem encode_char_meaning_witness:
  "utf8_chars (encode_char 233 False False False) = [233] \<and> encode_char 99 True False False = [3]"
proof -
  have "is_scalar 233" by (simp add: is_scalar_def)
  from encode_char_meaning [OF this, of False] have "utf8_chars (encode_char 233 False False False) = [233]"
    "\<forall>i<26. encode_char (97 + i) True False False = [of_nat (i + 1)]" by blast+
  from this(1) this(2) [THEN spec, of 2] show ?thesis by simp
qed

text \<open>
  The truncation \<open>c as u8\<close> makes some non-ASCII characters control chords: Ctrl with
  U+0161 sends the byte of Ctrl+A.
\<close>

lemma ctrl_truncates_code_point: "encode_char 0x161 True False shift = [1]"
  by (simp add: encode_char_def ctrl_bytes_def Let_def)

end
