(* ===== verification/Output_Buffer.thy ===== *)
theory Output_Buffer
  imports Text_Codec "HOL-Library.AList"
begin

text \<open>
  \<open>crates/athena-core/src/output_buffer.rs\<close>: the text history of every pane, fed by the PTY
  read loop and read by the inspector, the orchestrator and the exit snapshots. A \<open>HashMap\<close>
  is an association list with distinct keys; the events handed to the emitter are returned.
  \<open>now\<close> is the clock reading of the call. The locks make every operation atomic.
\<close>

section \<open>State\<close>

datatype agent_session_state = Running | SExited | SCompleted

record output_line =
  ol_pane_id :: string
  ol_line_num :: u32
  ol_timestamp :: u64
  ol_text :: bytes

record pane_buffer =
  pb_pane_id :: string
  pb_lines :: "output_line list"
  pb_line_counter :: u32
  pb_total_bytes :: nat
  pb_created_at :: u64
  pb_last_activity_at :: u64
  pb_agent_type :: string
  pb_dead :: bool
  pb_session_state :: agent_session_state
  pb_exit_code :: "int option"
  pb_resume_id :: "string option"
  pb_exit_snapshot :: "output_line list"

record pane_buffer_info =
  pi_pane_id :: string
  pi_agent_type :: string
  pi_line_count :: nat
  pi_total_lines :: u32
  pi_total_bytes :: nat
  pi_created_at :: u64
  pi_last_activity_at :: u64
  pi_dead :: bool

record agent_list_entry =
  ae_pane_id :: string
  ae_agent_type :: string
  ae_line_count :: nat
  ae_created_at :: u64
  ae_last_activity_at :: u64

record get_output_options =
  go_limit :: "nat option"
  go_offset :: "nat option"
  go_since_line :: "u32 option"
  go_since_time :: "u64 option"
  go_raw :: "bool option"

record output_buffer =
  ob_buffers :: "(string \<times> pane_buffer) list"
  ob_exit_snapshots :: "(string \<times> output_line list) list"
  ob_capture_consumers :: nat

datatype capture_event =
    PaneRegistered string string
  | CaptureBatch string "(u32 \<times> bytes \<times> u64) list"

definition MAX_LINES_PER_PANE :: nat where
  "MAX_LINES_PER_PANE = 5000"

definition MAX_TOTAL_BYTES_PER_PANE :: nat where
  "MAX_TOTAL_BYTES_PER_PANE = 2000000"

definition output_buffer_new :: output_buffer where
  "output_buffer_new = \<lparr>ob_buffers = [], ob_exit_snapshots = [], ob_capture_consumers = 0\<rparr>"

section \<open>Consumers\<close>

definition set_capture_consumer_with_delta :: "int \<Rightarrow> output_buffer \<Rightarrow> output_buffer" where
  "set_capture_consumer_with_delta delta ob =
    (if 0 \<le> delta
     then ob\<lparr>ob_capture_consumers := ob_capture_consumers ob + nat delta\<rparr>
     else ob\<lparr>ob_capture_consumers := ob_capture_consumers ob - nat (- delta)\<rparr>)"

definition set_capture_consumer :: "bool \<Rightarrow> output_buffer \<Rightarrow> output_buffer" where
  "set_capture_consumer active ob = set_capture_consumer_with_delta (if active then 1 else - 1) ob"

definition capture_wanted :: "output_buffer \<Rightarrow> bool" where
  "capture_wanted ob \<longleftrightarrow> 0 < ob_capture_consumers ob"

section \<open>Stripping escape sequences\<close>

definition in_byte_range :: "u8 \<Rightarrow> u8 \<Rightarrow> u8 \<Rightarrow> bool" where
  "in_byte_range lo hi b \<longleftrightarrow> lo \<le> b \<and> b \<le> hi"

text \<open>The rest after a string sequence: past BEL or \<open>ESC \\<close>, or the end.\<close>

fun skip_string :: "bytes \<Rightarrow> bytes" where
  "skip_string [] = []"
| "skip_string (b # bs) =
    (if b = 0x07 then bs
     else if b = 0x1B \<and> bs \<noteq> [] \<and> hd bs = 0x5C then tl bs
     else skip_string bs)"

lemma skip_string_length: "length (skip_string bs) \<le> length bs"
  by (induction bs) (auto intro: le_SucI)

text \<open>
  A control sequence after \<open>ESC [\<close>: what is emitted verbatim (nothing when it is complete)
  and where the scan goes on.
\<close>

definition csi_rest :: "bytes \<Rightarrow> bytes" where
  "csi_rest bs = dropWhile (in_byte_range 0x20 0x2F) (dropWhile (in_byte_range 0x30 0x3F) bs)"

lemma csi_rest_length: "length (csi_rest bs) \<le> length bs"
  unfolding csi_rest_def by (meson length_dropWhile_le le_trans)

function strip_bytes :: "bytes \<Rightarrow> bytes" where
  "strip_bytes [] = []"
| "strip_bytes [b] = [b]"
| "strip_bytes (b # n # bs) =
    (if b = 0x1B then
       (if n = byte CHR ''['' then
          (case csi_rest bs of
             f # fs \<Rightarrow>
               if in_byte_range 0x40 0x7E f then strip_bytes fs
               else b # n # take (length bs - length (f # fs)) bs @ strip_bytes (f # fs)
           | [] \<Rightarrow> b # n # bs)
        else if n = byte CHR '']'' \<or> n = byte CHR ''_'' \<or> n = byte CHR ''P''
          then strip_bytes (skip_string bs)
        else if n = byte CHR ''('' \<or> n = byte CHR '')'' then
          (case bs of c # cs \<Rightarrow> strip_bytes cs | [] \<Rightarrow> strip_bytes (n # bs))
        else strip_bytes bs)
     else b # strip_bytes (n # bs))"
  by pat_completeness auto
termination
proof (relation "measure length", goal_cases)
  case (2 b n bs f fs)
  then show ?case using csi_rest_length [of bs] by simp
next
  case (3 b n bs f fs)
  then show ?case using csi_rest_length [of bs] by simp
next
  case (4 b n bs)
  then show ?case using skip_string_length [of bs] by simp
qed simp_all

definition strip_ansi :: "bytes \<Rightarrow> bytes" where
  "strip_ansi text = utf8_lossy (strip_bytes text)"

definition string_intro :: "u8 \<Rightarrow> bool" where
  "string_intro n \<longleftrightarrow> n = byte CHR '']'' \<or> n = byte CHR ''_'' \<or> n = byte CHR ''P''"

fun has_st :: "bytes \<Rightarrow> bool" where
  "has_st (a # b # bs) = (a = 0x1B \<and> b = 0x5C \<or> has_st (b # bs))"
| "has_st _ = False"

definition trailing_string_seq_start :: "bytes \<Rightarrow> nat option" where
  "trailing_string_seq_start text =
    (case rposition (\<lambda>b. b = 0x1B) text of
       None \<Rightarrow> None
     | Some esc \<Rightarrow>
         if esc + 1 = length text then Some esc
         else if string_intro (text ! (esc + 1)) then
           (let tail = drop (esc + 2) text in
            if 0x07 \<in> set tail \<or> has_st tail then None else Some esc)
         else None)"

text \<open>The carry of one chunk: the text to strip now and the fragment kept for the next chunk.\<close>

definition carry_chunk :: "bytes \<Rightarrow> bytes \<Rightarrow> bytes \<times> bytes" where
  "carry_chunk esc_tail raw_data =
    (let text = (if esc_tail = [] then raw_data else utf8_lossy esc_tail @ raw_data) in
     case trailing_string_seq_start text of
       Some pos \<Rightarrow> (take pos text, drop pos text)
     | None \<Rightarrow> (text, []))"

section \<open>Appending\<close>

fun split_lines :: "bytes \<Rightarrow> bytes list" where
  "split_lines [] = [[]]"
| "split_lines (b # bs) =
    (if b = 0x0A then [] # split_lines bs
     else (case split_lines bs of l # ls \<Rightarrow> (b # l) # ls | [] \<Rightarrow> [[b]]))"

definition drop_lines :: "nat \<Rightarrow> pane_buffer \<Rightarrow> pane_buffer" where
  "drop_lines k buf =
    buf\<lparr>pb_lines := drop k (pb_lines buf),
        pb_total_bytes := pb_total_bytes buf - sum_list (map (\<lambda>l. length (ol_text l)) (take k (pb_lines buf)))\<rparr>"

text \<open>The number of leading lines to drop until the byte budget is met.\<close>

fun budget_drop :: "nat \<Rightarrow> nat \<Rightarrow> output_line list \<Rightarrow> nat" where
  "budget_drop projected count [] = count"
| "budget_drop projected count (l # ls) =
    (if MAX_TOTAL_BYTES_PER_PANE < projected
     then budget_drop (projected - length (ol_text l)) (count + 1) ls
     else count)"

definition trim_buffer :: "pane_buffer \<Rightarrow> pane_buffer" where
  "trim_buffer buf =
    (let excess = length (pb_lines buf) - MAX_LINES_PER_PANE;
         buf1 = (if 0 < excess then drop_lines excess buf else buf)
     in if MAX_TOTAL_BYTES_PER_PANE < pb_total_bytes buf1 then
          (let drop_count = budget_drop (pb_total_bytes buf1) 0 (pb_lines buf1)
           in if 0 < drop_count then drop_lines drop_count buf1 else buf1)
        else buf1)"

definition fresh_buffer :: "u64 \<Rightarrow> string \<Rightarrow> string \<Rightarrow> pane_buffer" where
  "fresh_buffer now pane_id agent_type =
    \<lparr>pb_pane_id = pane_id, pb_lines = [], pb_line_counter = 0, pb_total_bytes = 0,
     pb_created_at = now, pb_last_activity_at = now, pb_agent_type = agent_type, pb_dead = False,
     pb_session_state = Running, pb_exit_code = None, pb_resume_id = None, pb_exit_snapshot = []\<rparr>"

definition init_pane_buffer ::
  "u64 \<Rightarrow> string \<Rightarrow> string \<Rightarrow> output_buffer \<Rightarrow> output_buffer \<times> capture_event list" where
  "init_pane_buffer now pane_id agent_type ob =
    (if map_of (ob_buffers ob) pane_id = None
     then (ob\<lparr>ob_buffers := AList.update pane_id (fresh_buffer now pane_id agent_type) (ob_buffers ob)\<rparr>,
           [PaneRegistered pane_id agent_type])
     else (ob, []))"

text \<open>The lines of a batch: the empty piece after a final newline is not a line.\<close>

definition batch_lines :: "bytes \<Rightarrow> bytes list" where
  "batch_lines stripped =
    (let ls = split_lines stripped in if last ls = [] \<and> 1 < length ls then butlast ls else ls)"

definition push_line :: "u64 \<Rightarrow> string \<Rightarrow> bytes \<Rightarrow> pane_buffer \<Rightarrow> pane_buffer" where
  "push_line now pane_id text buf =
    (let n = pb_line_counter buf + 1 in
     buf\<lparr>pb_line_counter := n,
         pb_total_bytes := pb_total_bytes buf + length text,
         pb_lines := pb_lines buf @
           [\<lparr>ol_pane_id = pane_id, ol_line_num = n, ol_timestamp = now, ol_text = text\<rparr>]\<rparr>)"

definition append_to_pane :: "u64 \<Rightarrow> string \<Rightarrow> bytes list \<Rightarrow> string option \<Rightarrow> pane_buffer \<Rightarrow> pane_buffer" where
  "append_to_pane now pane_id texts agent_type buf =
    (let buf1 = buf\<lparr>pb_last_activity_at := now\<rparr>;
         buf2 = (case agent_type of
             Some t \<Rightarrow> if pb_agent_type buf1 = ''shell'' then buf1\<lparr>pb_agent_type := t\<rparr> else buf1
           | None \<Rightarrow> buf1)
     in fold (push_line now pane_id) texts buf2)"

definition append_output_carried ::
  "u64 \<Rightarrow> string \<Rightarrow> bytes \<Rightarrow> string option \<Rightarrow> bytes \<Rightarrow> output_buffer \<Rightarrow>
    output_buffer \<times> bytes \<times> capture_event list" where
  "append_output_carried now pane_id raw_data agent_type esc_tail ob =
    (let (strippable, tail) = carry_chunk esc_tail raw_data;
         texts = batch_lines (strip_ansi strippable);
         buf = (case map_of (ob_buffers ob) pane_id of
             Some b \<Rightarrow> b
           | None \<Rightarrow> fresh_buffer now pane_id (case agent_type of Some t \<Rightarrow> t | None \<Rightarrow> ''shell''));
         pushed = append_to_pane now pane_id texts agent_type buf;
         batch = map (\<lambda>l. (ol_line_num l, ol_text l, ol_timestamp l)) (drop (length (pb_lines buf)) (pb_lines pushed));
         ob' = ob\<lparr>ob_buffers := AList.update pane_id (trim_buffer pushed) (ob_buffers ob)\<rparr>
     in (ob', tail, if capture_wanted ob \<and> batch \<noteq> [] then [CaptureBatch pane_id batch] else []))"

definition append_output ::
  "u64 \<Rightarrow> string \<Rightarrow> bytes \<Rightarrow> string option \<Rightarrow> output_buffer \<Rightarrow> output_buffer \<times> capture_event list" where
  "append_output now pane_id raw_data agent_type ob =
    (case append_output_carried now pane_id raw_data agent_type [] ob of (ob', tail, evs) \<Rightarrow> (ob', evs))"

section \<open>Reading\<close>

definition all_pane_ids :: "output_buffer \<Rightarrow> string list" where
  "all_pane_ids ob = map fst (ob_buffers ob)"

definition pane_lines :: "output_buffer \<Rightarrow> string \<Rightarrow> output_line list" where
  "pane_lines ob pane_id = (case map_of (ob_buffers ob) pane_id of Some b \<Rightarrow> pb_lines b | None \<Rightarrow> [])"

definition line_after :: "u32 option \<Rightarrow> u64 option \<Rightarrow> output_line \<Rightarrow> bool" where
  "line_after since_line since_time l \<longleftrightarrow>
    (case since_line of Some n \<Rightarrow> n < ol_line_num l | None \<Rightarrow> True) \<and>
    (case since_time of Some t \<Rightarrow> t < ol_timestamp l | None \<Rightarrow> True)"

text \<open>A missing limit is \<open>usize::MAX\<close>: no buffer is that long.\<close>

definition take_limit :: "nat option \<Rightarrow> 'a list \<Rightarrow> 'a list" where
  "take_limit limit xs = (case limit of Some n \<Rightarrow> take n xs | None \<Rightarrow> xs)"

definition get_output :: "output_buffer \<Rightarrow> string \<Rightarrow> get_output_options option \<Rightarrow> output_line list" where
  "get_output ob pane_id options =
    (let lines = pane_lines ob pane_id in
     case options of
       None \<Rightarrow> lines
     | Some opts \<Rightarrow>
         let offset = (case go_offset opts of Some n \<Rightarrow> n | None \<Rightarrow> 0);
             hits = (if go_since_line opts = None \<and> go_since_time opts = None then lines
                     else filter (line_after (go_since_line opts) (go_since_time opts)) lines)
         in take_limit (go_limit opts) (drop offset hits))"

definition get_output_tail :: "output_buffer \<Rightarrow> string \<Rightarrow> nat \<Rightarrow> output_line list" where
  "get_output_tail ob pane_id limit =
    (if limit = 0 then [] else rev (take limit (rev (pane_lines ob pane_id))))"

definition get_agent_list :: "output_buffer \<Rightarrow> agent_list_entry list" where
  "get_agent_list ob = map (\<lambda>(k, b).
    \<lparr>ae_pane_id = pb_pane_id b, ae_agent_type = pb_agent_type b, ae_line_count = length (pb_lines b),
     ae_created_at = pb_created_at b, ae_last_activity_at = pb_last_activity_at b\<rparr>) (ob_buffers ob)"

definition get_pane_buffer_info :: "output_buffer \<Rightarrow> string \<Rightarrow> pane_buffer_info option" where
  "get_pane_buffer_info ob pane_id = map_option (\<lambda>b.
    \<lparr>pi_pane_id = pb_pane_id b, pi_agent_type = pb_agent_type b, pi_line_count = length (pb_lines b),
     pi_total_lines = pb_line_counter b, pi_total_bytes = pb_total_bytes b, pi_created_at = pb_created_at b,
     pi_last_activity_at = pb_last_activity_at b, pi_dead = pb_dead b\<rparr>) (map_of (ob_buffers ob) pane_id)"

section \<open>Lifecycle\<close>

definition update_pane :: "string \<Rightarrow> (pane_buffer \<Rightarrow> pane_buffer) \<Rightarrow> output_buffer \<Rightarrow> bool \<times> output_buffer" where
  "update_pane pane_id f ob =
    (case map_of (ob_buffers ob) pane_id of
       Some b \<Rightarrow> (True, ob\<lparr>ob_buffers := AList.update pane_id (f b) (ob_buffers ob)\<rparr>)
     | None \<Rightarrow> (False, ob))"

definition mark_pane_dead :: "string \<Rightarrow> output_buffer \<Rightarrow> bool \<times> output_buffer" where
  "mark_pane_dead pane_id = update_pane pane_id (\<lambda>b. b\<lparr>pb_dead := True\<rparr>)"

definition remove_pane :: "string \<Rightarrow> output_buffer \<Rightarrow> bool \<times> output_buffer" where
  "remove_pane pane_id ob =
    (map_of (ob_buffers ob) pane_id \<noteq> None, ob\<lparr>ob_buffers := AList.delete pane_id (ob_buffers ob)\<rparr>)"

definition cleanup_dead_panes :: "output_buffer \<Rightarrow> nat \<times> output_buffer" where
  "cleanup_dead_panes ob =
    (let dead_ids = map fst (filter (\<lambda>(k, b). pb_dead b) (ob_buffers ob))
     in (length dead_ids, ob\<lparr>ob_buffers := fold AList.delete dead_ids (ob_buffers ob)\<rparr>))"

definition clear_pane_buffer :: "string \<Rightarrow> output_buffer \<Rightarrow> bool \<times> output_buffer" where
  "clear_pane_buffer pane_id = update_pane pane_id (\<lambda>b. b\<lparr>pb_lines := [], pb_total_bytes := 0\<rparr>)"

definition ob_shutdown :: "output_buffer \<Rightarrow> output_buffer" where
  "ob_shutdown ob = ob\<lparr>ob_buffers := []\<rparr>"

definition capture_exit_snapshot :: "string \<Rightarrow> nat \<Rightarrow> output_buffer \<Rightarrow> output_buffer" where
  "capture_exit_snapshot pane_id n ob =
    (case map_of (ob_buffers ob) pane_id of
       Some b \<Rightarrow> ob\<lparr>ob_exit_snapshots :=
         AList.update pane_id (rev (take n (rev (pb_lines b)))) (ob_exit_snapshots ob)\<rparr>
     | None \<Rightarrow> ob)"

definition get_exit_snapshot :: "output_buffer \<Rightarrow> string \<Rightarrow> output_line list" where
  "get_exit_snapshot ob pane_id = (case map_of (ob_exit_snapshots ob) pane_id of Some ls \<Rightarrow> ls | None \<Rightarrow> [])"

definition mark_pane_state :: "string \<Rightarrow> agent_session_state \<Rightarrow> output_buffer \<Rightarrow> output_buffer" where
  "mark_pane_state pane_id st ob = snd (update_pane pane_id (\<lambda>b. b\<lparr>pb_session_state := st\<rparr>) ob)"

definition set_pane_resume_id :: "string \<Rightarrow> string option \<Rightarrow> output_buffer \<Rightarrow> output_buffer" where
  "set_pane_resume_id pane_id rid ob = snd (update_pane pane_id (\<lambda>b. b\<lparr>pb_resume_id := rid\<rparr>) ob)"

end
