(* ===== verification/Output_Props.thy ===== *)
theory Output_Props
  imports Output_Buffer
begin

text \<open>
  The pane histories: the accounting invariant that every operation keeps, the bounds that
  trimming establishes, what is dropped, and paging through a history while it grows.
\<close>

section \<open>Accounting\<close>

abbreviation text_bytes :: "output_line list \<Rightarrow> nat" where
  "text_bytes ls \<equiv> sum_list (map (\<lambda>l. length (ol_text l)) ls)"

text \<open>The lines of a pane are numbered consecutively up to its counter (modulo 2 to the 32).\<close>

definition numbered :: "pane_buffer \<Rightarrow> bool" where
  "numbered b \<longleftrightarrow> (\<forall>i<length (pb_lines b).
    ol_line_num (pb_lines b ! i) = pb_line_counter b - of_nat (length (pb_lines b) - Suc i))"

definition counted :: "pane_buffer \<Rightarrow> bool" where
  "counted b \<longleftrightarrow> pb_total_bytes b = text_bytes (pb_lines b) \<and> numbered b"

definition pane_wf :: "pane_buffer \<Rightarrow> bool" where
  "pane_wf b \<longleftrightarrow> counted b \<and> length (pb_lines b) \<le> MAX_LINES_PER_PANE \<and>
    pb_total_bytes b \<le> MAX_TOTAL_BYTES_PER_PANE"

definition ob_wf :: "output_buffer \<Rightarrow> bool" where
  "ob_wf ob \<longleftrightarrow> distinct (map fst (ob_buffers ob)) \<and> (\<forall>(k, b)\<in>set (ob_buffers ob). pane_wf b)"

lemma text_bytes_drop: "text_bytes (drop k ls) = text_bytes ls - text_bytes (take k ls)"
proof -
  have "text_bytes ls = text_bytes (take k ls) + text_bytes (drop k ls)"
    by (metis append_take_drop_id map_append sum_list_append)
  then show ?thesis by simp
qed

lemma counted_drop_lines: "counted b \<Longrightarrow> counted (drop_lines k b)"
proof -
  assume c: "counted b"
  have "length (pb_lines b) - k - Suc i = length (pb_lines b) - Suc (k + i)" for i by simp
  then show ?thesis using c by (auto simp: counted_def drop_lines_def numbered_def text_bytes_drop)
qed

lemma counted_push_line: "counted b \<Longrightarrow> counted (push_line now p t b)"
proof -
  assume c: "counted b"
  have "numbered (push_line now p t b)"
    unfolding numbered_def
  proof (intro allI impI)
    fix i
    assume i: "i < length (pb_lines (push_line now p t b))"
    show "ol_line_num (pb_lines (push_line now p t b) ! i) =
        pb_line_counter (push_line now p t b) - of_nat (length (pb_lines (push_line now p t b)) - Suc i)"
    proof (cases "i < length (pb_lines b)")
      case True
      then have "of_nat (length (pb_lines b) - i) = (of_nat (length (pb_lines b) - Suc i) + 1 :: u32)"
        by (metis Suc_diff_Suc of_nat_Suc add.commute)
      then show ?thesis using True c
        by (simp add: push_line_def Let_def nth_append counted_def numbered_def)
    next
      case False
      then have "i = length (pb_lines b)" using i by (simp add: push_line_def Let_def)
      then show ?thesis by (simp add: push_line_def Let_def)
    qed
  qed
  then show ?thesis using c by (simp add: counted_def push_line_def Let_def)
qed

lemma counted_pushes: "counted b \<Longrightarrow> counted (fold (push_line now p) ts b)"
  by (induction ts arbitrary: b) (auto intro: counted_push_line)

lemma counted_append: "counted b \<Longrightarrow> counted (append_to_pane now p ts a b)"
proof -
  assume "counted b"
  then have "counted (b\<lparr>pb_last_activity_at := now\<rparr>)"
    "\<And>t. counted (b\<lparr>pb_last_activity_at := now, pb_agent_type := t\<rparr>)"
    by (simp_all add: counted_def numbered_def)
  then show ?thesis by (auto simp: append_to_pane_def Let_def intro!: counted_pushes split: option.split)
qed

lemma counted_fresh: "counted (fresh_buffer now p a)"
  by (simp add: counted_def fresh_buffer_def numbered_def)

section \<open>Trimming\<close>

text \<open>The byte budget drops the shortest prefix that brings the rest within the budget.\<close>

lemma budget_drop_spec:
  assumes "projected = text_bytes ls"
  shows "\<exists>k\<le>length ls. budget_drop projected count ls = count + k \<and>
    text_bytes (drop k ls) \<le> MAX_TOTAL_BYTES_PER_PANE \<and>
    (\<forall>j<k. MAX_TOTAL_BYTES_PER_PANE < text_bytes (drop j ls))"
  using assms
proof (induction ls arbitrary: projected count)
  case Nil
  then show ?case by simp
next
  case (Cons l ls)
  show ?case
  proof (cases "MAX_TOTAL_BYTES_PER_PANE < projected")
    case True
    have "projected - length (ol_text l) = text_bytes ls" using Cons.prems by simp
    from Cons.IH [OF this, of "count + 1"] obtain k where k: "k \<le> length ls"
        "budget_drop (projected - length (ol_text l)) (count + 1) ls = count + 1 + k"
        "text_bytes (drop k ls) \<le> MAX_TOTAL_BYTES_PER_PANE"
        "\<forall>j<k. MAX_TOTAL_BYTES_PER_PANE < text_bytes (drop j ls)" by auto
    have "MAX_TOTAL_BYTES_PER_PANE < text_bytes (drop j (l # ls))" if "j < Suc k" for j
      using that k(4) True Cons.prems by (cases j) auto
    then show ?thesis using True k by (intro exI [of _ "Suc k"]) auto
  next
    case False
    then show ?thesis using Cons.prems by (intro exI [of _ 0]) auto
  qed
qed

text \<open>The whole trim: the number of lines it drops, and the bounds it establishes.\<close>

lemma trim_buffer_spec:
  assumes "pb_total_bytes b = text_bytes (pb_lines b)"
  shows "\<exists>k\<le>length (pb_lines b). trim_buffer b = drop_lines k b \<and>
    text_bytes (drop k (pb_lines b)) \<le> MAX_TOTAL_BYTES_PER_PANE \<and>
    length (pb_lines b) - k \<le> MAX_LINES_PER_PANE \<and>
    (\<forall>j<k. MAX_TOTAL_BYTES_PER_PANE < text_bytes (drop j (pb_lines b)) \<or>
      MAX_LINES_PER_PANE < length (pb_lines b) - j)"
proof -
  let ?n = "length (pb_lines b)" and ?e = "length (pb_lines b) - MAX_LINES_PER_PANE"
  define b1 where "b1 = drop_lines ?e b"
  have b1_eq: "(if 0 < ?e then drop_lines ?e b else b) = b1" by (auto simp: b1_def drop_lines_def)
  have t1: "pb_total_bytes b1 = text_bytes (pb_lines b1)"
    using assms by (simp add: b1_def drop_lines_def text_bytes_drop)
  have l1: "pb_lines b1 = drop ?e (pb_lines b)" by (simp add: b1_def drop_lines_def)
  obtain k where k: "k \<le> length (pb_lines b1)" "budget_drop (pb_total_bytes b1) 0 (pb_lines b1) = k"
      "text_bytes (drop k (pb_lines b1)) \<le> MAX_TOTAL_BYTES_PER_PANE"
      "\<forall>j<k. MAX_TOTAL_BYTES_PER_PANE < text_bytes (drop j (pb_lines b1))"
    using budget_drop_spec [OF t1, of 0] by auto
  have "trim_buffer b = drop_lines k b1"
  proof (cases "MAX_TOTAL_BYTES_PER_PANE < pb_total_bytes b1")
    case True
    then show ?thesis unfolding trim_buffer_def Let_def b1_eq using k(2)
      by (cases k) (auto simp: drop_lines_def)
  next
    case False
    then have "k = 0" using k(4) t1 by (cases k) auto
    then show ?thesis unfolding trim_buffer_def Let_def b1_eq using False by (simp add: drop_lines_def)
  qed
  also have "\<dots> = drop_lines (?e + k) b"
    by (simp add: b1_def drop_lines_def take_add [of ?e k "pb_lines b"]) (simp add: add.commute)
  finally have tb: "trim_buffer b = drop_lines (?e + k) b" .
  have early: "MAX_TOTAL_BYTES_PER_PANE < text_bytes (drop j (pb_lines b)) \<or> MAX_LINES_PER_PANE < ?n - j"
    if "j < ?e + k" for j
  proof (cases "j < ?e")
    case True
    then have "MAX_LINES_PER_PANE < ?n - j" by linarith
    then show ?thesis by simp
  next
    case False
    then have "j - ?e < k" "drop j (pb_lines b) = drop (j - ?e) (pb_lines b1)" using that l1 by auto
    then show ?thesis using k(4) by auto
  qed
  show ?thesis using tb k l1 early by (intro exI [of _ "?e + k"]) (auto simp: add.commute)
qed

lemma pane_wf_trim: "counted b \<Longrightarrow> pane_wf (trim_buffer b)"
proof -
  assume c: "counted b"
  then have "pb_total_bytes b = text_bytes (pb_lines b)" by (simp add: counted_def)
  from trim_buffer_spec [OF this] obtain k where k: "trim_buffer b = drop_lines k b"
      "text_bytes (drop k (pb_lines b)) \<le> MAX_TOTAL_BYTES_PER_PANE" "length (pb_lines b) - k \<le> MAX_LINES_PER_PANE"
    by blast
  have "counted (drop_lines k b)" by (rule counted_drop_lines [OF c])
  then show ?thesis using k by (simp add: pane_wf_def) (simp add: counted_def drop_lines_def)
qed

section \<open>Every operation keeps the invariant\<close>

lemma set_alist_update: "x \<in> set (AList.update k v al) \<Longrightarrow> x = (k, v) \<or> x \<in> set al"
  by (induction al) (auto split: if_splits)

lemma set_alist_delete: "set (AList.delete k al) \<subseteq> set al"
  by (auto simp: AList.delete_eq)

lemma ob_wf_update:
  "ob_wf ob \<Longrightarrow> pane_wf b \<Longrightarrow> ob_wf (ob\<lparr>ob_buffers := AList.update k b (ob_buffers ob)\<rparr>)"
  by (auto simp: ob_wf_def distinct_update dest: set_alist_update)

lemma ob_wf_delete: "ob_wf ob \<Longrightarrow> ob_wf (ob\<lparr>ob_buffers := AList.delete k (ob_buffers ob)\<rparr>)"
  using set_alist_delete [of k "ob_buffers ob"] by (auto simp: ob_wf_def distinct_delete)

lemma ob_wf_lookup: "ob_wf ob \<Longrightarrow> map_of (ob_buffers ob) k = Some b \<Longrightarrow> pane_wf b"
  by (auto simp: ob_wf_def dest!: map_of_SomeD)

lemma pane_wf_fresh: "pane_wf (fresh_buffer now p a)"
  using counted_fresh by (simp add: pane_wf_def) (simp add: fresh_buffer_def)

lemma ob_wf_update_pane:
  "ob_wf ob \<Longrightarrow> (\<And>b. pane_wf b \<Longrightarrow> pane_wf (f b)) \<Longrightarrow> ob_wf (snd (update_pane k f ob))"
  by (auto simp: update_pane_def intro!: ob_wf_update dest: ob_wf_lookup split: option.split)

lemma ob_wf_append:
  assumes "ob_wf ob"
  shows "ob_wf (fst (append_output_carried now p raw a tail ob))"
proof -
  let ?buf = "case map_of (ob_buffers ob) p of Some b \<Rightarrow> b
    | None \<Rightarrow> fresh_buffer now p (case a of Some t \<Rightarrow> t | None \<Rightarrow> ''shell'')"
  have "pane_wf ?buf" using ob_wf_lookup [OF assms] by (simp add: pane_wf_fresh split: option.split)
  then have "pane_wf (trim_buffer (append_to_pane now p ts a ?buf))" for ts
    by (intro pane_wf_trim counted_append) (simp add: pane_wf_def)
  then show ?thesis using assms
    by (simp add: append_output_carried_def Let_def ob_wf_update split: prod.split)
qed

text \<open>The calls on an output buffer that change it.\<close>

datatype ob_call =
    InitPane u64 string string
  | Append u64 string bytes "string option" bytes
  | Consumer int
  | MarkDead string
  | RemovePane string
  | CleanupDead
  | ClearPane string
  | Shutdown
  | Snapshot string nat
  | MarkState string agent_session_state
  | SetResume string "string option"

fun ob_apply :: "ob_call \<Rightarrow> output_buffer \<Rightarrow> output_buffer" where
  "ob_apply (InitPane now p a) ob = fst (init_pane_buffer now p a ob)"
| "ob_apply (Append now p raw a tail) ob = fst (append_output_carried now p raw a tail ob)"
| "ob_apply (Consumer d) ob = set_capture_consumer_with_delta d ob"
| "ob_apply (MarkDead p) ob = snd (mark_pane_dead p ob)"
| "ob_apply (RemovePane p) ob = snd (remove_pane p ob)"
| "ob_apply CleanupDead ob = snd (cleanup_dead_panes ob)"
| "ob_apply (ClearPane p) ob = snd (clear_pane_buffer p ob)"
| "ob_apply Shutdown ob = ob_shutdown ob"
| "ob_apply (Snapshot p n) ob = capture_exit_snapshot p n ob"
| "ob_apply (MarkState p st) ob = mark_pane_state p st ob"
| "ob_apply (SetResume p r) ob = set_pane_resume_id p r ob"

lemma ob_wf_fold_delete:
  "ob_wf ob \<Longrightarrow> ob_wf (ob\<lparr>ob_buffers := fold AList.delete ks (ob_buffers ob)\<rparr>)"
proof (induction ks arbitrary: ob)
  case (Cons k ks)
  from Cons.IH [OF ob_wf_delete [OF Cons.prems, of k]] show ?case by simp
qed simp

lemma ob_wf_apply: "ob_wf ob \<Longrightarrow> ob_wf (ob_apply c ob)"
proof (cases c)
  case (Append now p raw a tail)
  moreover assume "ob_wf ob"
  ultimately show ?thesis by (simp add: ob_wf_append)
next
  case CleanupDead
  moreover assume "ob_wf ob"
  ultimately show ?thesis by (simp add: cleanup_dead_panes_def ob_wf_fold_delete)
next
  case (MarkDead p)
  moreover assume "ob_wf ob"
  ultimately show ?thesis
    by (auto simp: mark_pane_dead_def pane_wf_def counted_def numbered_def intro!: ob_wf_update_pane)
next
  case (ClearPane p)
  moreover assume "ob_wf ob"
  ultimately show ?thesis
    by (auto simp: clear_pane_buffer_def pane_wf_def counted_def numbered_def intro!: ob_wf_update_pane)
next
  case (MarkState p st)
  moreover assume "ob_wf ob"
  ultimately show ?thesis
    by (auto simp: mark_pane_state_def pane_wf_def counted_def numbered_def intro!: ob_wf_update_pane)
next
  case (SetResume p r)
  moreover assume "ob_wf ob"
  ultimately show ?thesis
    by (auto simp: set_pane_resume_id_def pane_wf_def counted_def numbered_def intro!: ob_wf_update_pane)
next
  case (InitPane now p a)
  moreover assume "ob_wf ob"
  ultimately show ?thesis by (simp add: init_pane_buffer_def ob_wf_update pane_wf_fresh)
next
  case (RemovePane p)
  moreover assume "ob_wf ob"
  ultimately show ?thesis by (simp add: remove_pane_def ob_wf_delete)
next
  case (Snapshot p n)
  moreover assume "ob_wf ob"
  ultimately show ?thesis by (auto simp: capture_exit_snapshot_def ob_wf_def split: option.split)
qed (auto simp: ob_wf_def set_capture_consumer_with_delta_def ob_shutdown_def)

lemma ob_wf_runs: "ob_wf ob \<Longrightarrow> ob_wf (fold ob_apply cs ob)"
  by (induction cs arbitrary: ob) (auto intro: ob_wf_apply)

lemma ob_wf_new: "ob_wf output_buffer_new"
  by (simp add: ob_wf_def output_buffer_new_def)

section \<open>Properties\<close>

text \<open>
  After any sequence of calls, every pane's history holds at most 5000 lines and 2,000,000 bytes,
  its byte count is the sum of its lines, and its lines are numbered consecutively up to the
  pane's counter; no pane is listed twice.
\<close>

theorem pane_histories_bounded:
  assumes "map_of (ob_buffers (fold ob_apply cs output_buffer_new)) p = Some b"
  shows "length (pb_lines b) \<le> 5000 \<and> pb_total_bytes b \<le> 2000000 \<and>
    pb_total_bytes b = sum_list (map (\<lambda>l. length (ol_text l)) (pb_lines b)) \<and>
    (\<forall>i<length (pb_lines b). ol_line_num (pb_lines b ! i) =
      pb_line_counter b - of_nat (length (pb_lines b) - Suc i)) \<and>
    distinct (all_pane_ids (fold ob_apply cs output_buffer_new))"
  using ob_wf_runs [OF ob_wf_new, of cs] ob_wf_lookup [OF _ assms]
  by (simp add: pane_wf_def counted_def numbered_def ob_wf_def all_pane_ids_def
      MAX_LINES_PER_PANE_def MAX_TOTAL_BYTES_PER_PANE_def)

theorem pane_histories_bounded_witness:
  "length (pb_lines (fresh_buffer 0 ''p'' ''shell'')) \<le> 5000"
  using pane_histories_bounded [of "[InitPane 0 ''p'' ''shell'']" "''p''" "fresh_buffer 0 ''p'' ''shell''"]
  by (simp add: init_pane_buffer_def output_buffer_new_def)

text \<open>
  Trimming is exact: it drops the shortest prefix of the history after which both the line and
  the byte limits hold, and keeps the rest unchanged and in order.
\<close>

theorem trim_drops_shortest_prefix:
  assumes "pb_total_bytes b = sum_list (map (\<lambda>l. length (ol_text l)) (pb_lines b))"
  shows "\<exists>k. pb_lines (trim_buffer b) = drop k (pb_lines b) \<and>
    length (pb_lines (trim_buffer b)) \<le> 5000 \<and>
    sum_list (map (\<lambda>l. length (ol_text l)) (pb_lines (trim_buffer b))) \<le> 2000000 \<and>
    (\<forall>j<k. 5000 < length (drop j (pb_lines b)) \<or>
      2000000 < sum_list (map (\<lambda>l. length (ol_text l)) (drop j (pb_lines b))))"
proof -
  from trim_buffer_spec [OF assms] obtain k where "trim_buffer b = drop_lines k b"
      "text_bytes (drop k (pb_lines b)) \<le> MAX_TOTAL_BYTES_PER_PANE" "length (pb_lines b) - k \<le> MAX_LINES_PER_PANE"
      "\<forall>j<k. MAX_TOTAL_BYTES_PER_PANE < text_bytes (drop j (pb_lines b)) \<or> MAX_LINES_PER_PANE < length (pb_lines b) - j"
    by blast
  then show ?thesis
    by (intro exI [of _ k]) (auto simp: drop_lines_def MAX_LINES_PER_PANE_def MAX_TOTAL_BYTES_PER_PANE_def)
qed

theorem trim_drops_shortest_prefix_witness:
  "\<exists>k. pb_lines (trim_buffer (fresh_buffer 0 ''p'' ''shell'')) = drop k []"
  using trim_drops_shortest_prefix [of "fresh_buffer 0 ''p'' ''shell''"] by (simp add: fresh_buffer_def)

end
