(* ===== verification/Output_Stream.thy ===== *)
theory Output_Stream
  imports Output_Props
begin

text \<open>
  Escape sequences split across PTY reads. The PTY hands over its output in chunks at arbitrary
  character boundaries; \<open>append_output_carried\<close> holds back an unterminated string sequence
  (OSC, APC, DCS) or a lone escape byte. The specification is an automaton over the whole stream;
  on its streams the chunked stripping and the stripping of the whole stream agree.
\<close>

section \<open>The specification\<close>

datatype scan_state = InText | AfterEsc | InString | StringEsc

text \<open>
  Text, simple escapes and string sequences whose payload has no escape byte of its own.
  Control sequences (\<open>ESC [\<close>) and charset selections (\<open>ESC (\<close>, \<open>ESC )\<close>) are
  outside: the code does not carry them over (\<open>split_csi_leaks\<close> below).
\<close>

fun scan_step :: "scan_state \<Rightarrow> u8 \<Rightarrow> (scan_state \<times> bytes) option" where
  "scan_step InText b = (if b = 0x1B then Some (AfterEsc, []) else Some (InText, [b]))"
| "scan_step AfterEsc b =
    (if string_intro b then Some (InString, [])
     else if b = byte CHR ''['' \<or> b = byte CHR ''('' \<or> b = byte CHR '')'' \<or> b = 0x1B \<or> 0x80 \<le> b then None
     else Some (InText, []))"
| "scan_step InString b =
    (if b = 0x07 then Some (InText, []) else if b = 0x1B then Some (StringEsc, []) else Some (InString, []))"
| "scan_step StringEsc b = (if b = 0x5C then Some (InText, []) else None)"

fun scan :: "scan_state \<Rightarrow> bytes \<Rightarrow> (scan_state \<times> bytes) option" where
  "scan st [] = Some (st, [])"
| "scan st (b # bs) =
    (case scan_step st b of
       None \<Rightarrow> None
     | Some (st1, out1) \<Rightarrow> (case scan st1 bs of None \<Rightarrow> None | Some (st2, out2) \<Rightarrow> Some (st2, out1 @ out2)))"

lemma scan_append:
  "scan st (xs @ ys) =
    (case scan st xs of None \<Rightarrow> None
     | Some (st1, out1) \<Rightarrow> (case scan st1 ys of None \<Rightarrow> None | Some (st2, out2) \<Rightarrow> Some (st2, out1 @ out2)))"
  by (induction xs arbitrary: st) (auto split: option.splits prod.splits)

lemma scan_appendE:
  assumes "scan st (xs @ ys) = Some (st2, out)"
  obtains st1 out1 out2 where "scan st xs = Some (st1, out1)" "scan st1 ys = Some (st2, out2)" "out = out1 @ out2"
  using assms by (auto simp: scan_append split: option.splits prod.splits)

section \<open>The byte scanner against the automaton\<close>

lemma strip_plain: "b \<noteq> 0x1B \<Longrightarrow> strip_bytes (b # bs) = b # strip_bytes bs"
  by (cases bs) auto

lemma strip_scan:
  "(scan InText xs = Some (st, out) \<longrightarrow> st = InText \<or> st = InString \<longrightarrow> strip_bytes xs = out) \<and>
   (scan InString xs = Some (st, out) \<longrightarrow> st = InText \<or> st = InString \<longrightarrow> strip_bytes (skip_string xs) = out)"
proof (induction "length xs" arbitrary: xs out rule: less_induct)
  case less
  have IH_text: "strip_bytes ys = o'" if "length ys < length xs" "scan InText ys = Some (st, o')"
      "st = InText \<or> st = InString" for ys o'
    using less that by blast
  have IH_str: "strip_bytes (skip_string ys) = o'" if "length ys < length xs" "scan InString ys = Some (st, o')"
      "st = InText \<or> st = InString" for ys o'
    using less that by blast
  show ?case
  proof (cases xs)
    case Nil
    then show ?thesis by auto
  next
    case (Cons b bs)
    have txt_case: "strip_bytes xs = out" if s: "scan InText xs = Some (st, out)" "st = InText \<or> st = InString"
    proof (cases "b = 0x1B")
      case False
      then obtain o' where "scan InText bs = Some (st, o')" "out = b # o'"
        using s(1) Cons by (auto split: option.splits prod.splits)
      then show ?thesis using IH_text [of bs o'] s(2) Cons False by (simp add: strip_plain)
    next
      case True
      then obtain n cs where bs: "bs = n # cs" using s Cons by (cases bs) auto
      consider "string_intro n" "scan InString cs = Some (st, out)"
        | "\<not> string_intro n" "n \<noteq> byte CHR ''[''" "n \<noteq> byte CHR ''(''" "n \<noteq> byte CHR '')''" "scan InText cs = Some (st, out)"
        using s(1) Cons True bs by (auto split: if_splits option.splits prod.splits)
      then show ?thesis
      proof cases
        case 1
        then show ?thesis using IH_str [of cs out] s(2) Cons True bs by (auto simp: string_intro_def)
      next
        case 2
        then show ?thesis using IH_text [of cs out] s(2) Cons True bs by (simp add: string_intro_def)
      qed
    qed
    have str: "strip_bytes (skip_string xs) = out" if s: "scan InString xs = Some (st, out)" "st = InText \<or> st = InString"
    proof -
      consider "b = 0x07" "scan InText bs = Some (st, out)"
        | "b = 0x1B" "scan StringEsc bs = Some (st, out)"
        | "b \<noteq> 0x07" "b \<noteq> 0x1B" "scan InString bs = Some (st, out)"
        using s(1) Cons by (auto split: if_splits option.splits prod.splits)
      then show ?thesis
      proof cases
        case 1
        then show ?thesis using IH_text [of bs out] s(2) Cons by simp
      next
        case 2
        then obtain cs where "bs = 0x5C # cs" "scan InText cs = Some (st, out)"
          using s(2) by (cases bs) (auto split: if_splits option.splits prod.splits)
        then show ?thesis using IH_text [of cs out] s(2) Cons 2 by simp
      next
        case 3
        then show ?thesis using IH_str [of bs out] s(2) Cons by simp
      qed
    qed
    show ?thesis using txt_case str by blast
  qed
qed

section \<open>What is held back\<close>

lemma rposition_esc: "0x1B \<notin> set zs \<Longrightarrow> rposition (\<lambda>b. b = 0x1B) (ys @ 0x1B # zs) = Some (length ys)"
proof -
  assume z: "0x1B \<notin> set zs"
  have "(ys @ 0x1B # zs) ! j \<noteq> 0x1B" if j: "length ys < j" "j < length (ys @ 0x1B # zs)" for j
  proof -
    obtain k where "j = Suc (length ys + k)" using less_imp_Suc_add [OF j(1)] by blast
    then show ?thesis using z j(2) by (auto simp: nth_append in_set_conv_nth)
  qed
  then show ?thesis by (simp add: rposition_Some)
qed

lemma trailing_snoc_plain:
  assumes "trailing_string_seq_start xs = None" "b \<noteq> 0x1B"
  shows "trailing_string_seq_start (xs @ [b]) = None"
proof (cases "rposition (\<lambda>b. b = 0x1B) xs")
  case None
  then have "\<forall>x\<in>set (xs @ [b]). \<not> x = 0x1B" using assms(2) by (simp add: rposition_None)
  then show ?thesis by (simp only: trailing_string_seq_start_def rposition_None [THEN iffD2] option.case)
next
  case (Some e)
  then have e: "e < length xs" "xs ! e = 0x1B" "\<forall>j. e < j \<and> j < length xs \<longrightarrow> xs ! j \<noteq> 0x1B"
    by (auto simp: rposition_Some)
  have st: "has_st (ys @ [b])" if "has_st ys" for ys
    using that by (induction ys rule: has_st.induct) auto
  have e1: "e + 1 \<noteq> length xs" using assms(1) Some by (auto simp: trailing_string_seq_start_def split: if_splits)
  have r: "rposition (\<lambda>b. b = 0x1B) (xs @ [b]) = Some e"
    using e assms(2) by (auto simp: rposition_Some nth_append less_Suc_eq)
  show ?thesis using assms(1) Some r e e1 st [of "drop (e + 2) xs"]
    by (auto simp: trailing_string_seq_start_def Let_def nth_append split: if_splits)
qed

text \<open>How a stream ends, by the state of the automaton.\<close>

fun ends :: "bytes \<Rightarrow> scan_state \<Rightarrow> bytes \<Rightarrow> bool" where
  "ends xs InText out \<longleftrightarrow> trailing_string_seq_start xs = None"
| "ends xs AfterEsc out \<longleftrightarrow> (\<exists>ys. xs = ys @ [0x1B] \<and> scan InText ys = Some (InText, out))"
| "ends xs StringEsc out \<longleftrightarrow> (\<exists>ys. xs = ys @ [0x1B] \<and> scan InText ys = Some (InString, out))"
| "ends xs InString out \<longleftrightarrow> (\<exists>ys k p. xs = ys @ 0x1B # k # p \<and> string_intro k \<and> 0x1B \<notin> set p \<and> 0x07 \<notin> set p \<and>
    scan InText ys = Some (InText, out))"

lemma trailing_after_esc: "\<not> string_intro b \<Longrightarrow> b \<noteq> 0x1B \<Longrightarrow> trailing_string_seq_start (ys @ [0x1B, b]) = None"
  using rposition_esc [of "[b]" ys] by (simp add: trailing_string_seq_start_def nth_append)

lemma string_intro_not_esc: "string_intro k \<Longrightarrow> k \<noteq> 0x1B" "\<not> string_intro 0x5C"
  by (auto simp: string_intro_def)

lemma scan_ends: "scan InText xs = Some (st, out) \<Longrightarrow> ends xs st out"
proof (induction xs arbitrary: st out rule: rev_induct)
  case Nil
  then show ?case by (auto simp: trailing_string_seq_start_def rposition_def)
next
  case (snoc b xs)
  from snoc.prems obtain st1 out1 out2 where 1: "scan InText xs = Some (st1, out1)" "scan_step st1 b = Some (st, out2)"
      "out = out1 @ out2"
    by (auto elim!: scan_appendE split: option.splits prod.splits)
  note IH = snoc.IH [OF 1(1)]
  show ?case
  proof (cases st1)
    case InText
    then show ?thesis using 1 IH trailing_snoc_plain [of xs b] by (auto split: if_splits)
  next
    case AfterEsc
    then obtain ys where ys: "xs = ys @ [0x1B]" "scan InText ys = Some (InText, out1)" using IH by auto
    show ?thesis
    proof (cases "string_intro b")
      case True
      then have "st = InString" "out = out1" using 1 AfterEsc by auto
      moreover have "xs @ [b] = ys @ 0x1B # b # []" using ys by simp
      ultimately show ?thesis using True ys(2) by (simp only: ends.simps) (metis empty_iff list.set(1))
    next
      case False
      then show ?thesis using 1 AfterEsc ys trailing_after_esc [of b ys] by (auto split: if_splits)
    qed
  next
    case InString
    then obtain ys k p where ys: "xs = ys @ 0x1B # k # p" "string_intro k" "0x1B \<notin> set p" "0x07 \<notin> set p"
        "scan InText ys = Some (InText, out1)" using IH by auto
    consider "b = 0x07" "st = InText" "out = out1" | "b = 0x1B" "st = StringEsc" "out = out1"
      | "b \<noteq> 0x07" "b \<noteq> 0x1B" "st = InString" "out = out1"
      using 1 InString by (auto split: if_splits)
    then show ?thesis
    proof cases
      case 1
      have "rposition (\<lambda>b. b = 0x1B) (ys @ 0x1B # k # p @ [0x07]) = Some (length ys)"
        using rposition_esc [of "k # p @ [0x07]" ys] ys string_intro_not_esc(1) by auto
      then show ?thesis using 1 ys by (simp add: trailing_string_seq_start_def nth_append)
    next
      case 2
      have "scan InText xs = Some (InString, out1)" using \<open>scan InText xs = Some (st1, out1)\<close> InString by simp
      then show ?thesis using 2 by auto
    next
      case 3
      have "xs @ [b] = ys @ 0x1B # k # (p @ [b])" using ys by simp
      moreover have "0x1B \<notin> set (p @ [b])" "0x07 \<notin> set (p @ [b])" using 3 ys by auto
      ultimately show ?thesis using 3 ys(2,5) by (simp only: ends.simps) blast
    qed
  next
    case StringEsc
    then obtain ys where ys: "xs = ys @ [0x1B]" using IH by auto
    have "b = 0x5C" "st = InText" using 1 StringEsc by (auto split: if_splits)
    then show ?thesis using trailing_after_esc [of b ys] ys string_intro_not_esc(2) by simp
  qed
qed

section \<open>Strings\<close>

lemma lossy_str: "is_str xs \<Longrightarrow> utf8_lossy xs = xs"
  by (auto simp: is_str_def utf8_lossy_valid utf8_valid_string)

lemma utf8_encode_bytes: "is_scalar c \<Longrightarrow> (if c < 0x80 then utf8_encode c = [mk_byte c] else \<forall>b\<in>set (utf8_encode c). 0x80 \<le> b)"
  by (auto simp: utf8_encode_def mk_byte_def is_scalar_def word_le_nat_alt unsigned_of_nat take_bit_nat_eq_self
      simp del: of_nat_add)

lemma encode_esc: "is_scalar c \<Longrightarrow> 0x1B \<in> set (utf8_encode c) \<Longrightarrow> utf8_encode c = [0x1B]"
  using utf8_encode_bytes [of c] by (cases "c < 0x80") auto

lemma is_str_split:
  assumes "is_str (ys @ 0x1B # zs)"
  shows "is_str ys \<and> is_str zs"
proof -
  have main: "is_str ys \<and> is_str zs" if "\<forall>c\<in>set cs. is_scalar c" "utf8_string cs = ys @ 0x1B # zs" for cs ys
    using that
  proof (induction cs arbitrary: ys)
    case (Cons c cs)
    have c: "is_scalar c" and cs: "\<forall>c\<in>set cs. is_scalar c" using Cons.prems by auto
    have eq: "utf8_encode c @ utf8_string cs = ys @ 0x1B # zs" using Cons.prems by simp
    show ?case
    proof (cases "\<exists>ws. ys = utf8_encode c @ ws \<and> utf8_string cs = ws @ 0x1B # zs")
      case True
      then obtain ws where ws: "ys = utf8_encode c @ ws" "utf8_string cs = ws @ 0x1B # zs" by blast
      moreover have "is_str (utf8_encode c)" unfolding is_str_def using c by (intro exI [of _ "[c]"]) simp
      ultimately show ?thesis using Cons.IH [OF cs] is_str_append by blast
    next
      case False
      then obtain us where us: "utf8_encode c = ys @ us" "us @ utf8_string cs = 0x1B # zs"
        using append_eq_append_conv2 [THEN iffD1, OF eq] by blast
      have "us \<noteq> []"
      proof
        assume "us = []"
        then show False using us False by (metis append_Nil append_Nil2)
      qed
      then obtain v vs where v: "utf8_encode c = ys @ v # vs" "(v # vs) @ utf8_string cs = 0x1B # zs"
        using us by (cases us) auto
      then have "utf8_encode c = [0x1B]" using encode_esc [OF c] by auto
      then have "ys = []" "zs = utf8_string cs" using v by (auto simp: append_eq_Cons_conv)
      moreover from this cs have "is_str zs" by (auto simp: is_str_def)
      ultimately show ?thesis by simp
    qed
  qed simp
  obtain cs where "\<forall>c\<in>set cs. is_scalar c" "ys @ 0x1B # zs = utf8_string cs" using assms unfolding is_str_def by blast
  then show ?thesis using main [of cs ys] by simp
qed

lemma is_str_byte: "b < 0x80 \<Longrightarrow> is_str [b]"
proof -
  assume b: "b < 0x80"
  then have "unat b < 0x80" by (simp add: word_less_nat_alt)
  then have "utf8_string [unat b] = [b]" "is_scalar (unat b)"
    by (simp_all add: utf8_encode_def mk_byte_def is_scalar_def)
  then show ?thesis unfolding is_str_def by (intro exI [of _ "[unat b]"]) simp
qed

lemma is_str_bytes: "\<forall>b\<in>set xs. b < 0x80 \<Longrightarrow> is_str xs"
proof (induction xs)
  case (Cons b xs)
  then show ?case using is_str_append [OF is_str_byte, of b xs] by simp
qed simp

lemma is_str_tl: "is_str (b # xs) \<Longrightarrow> b < 0x80 \<Longrightarrow> is_str xs"
proof -
  assume "is_str (b # xs)" and b: "b < 0x80"
  then obtain cs where cs: "\<forall>c\<in>set cs. is_scalar c" "b # xs = utf8_string cs" by (auto simp: is_str_def)
  then obtain c cs' where c: "cs = c # cs'" by (cases cs) auto
  have "c < 0x80"
  proof (rule ccontr)
    assume "\<not> c < 0x80"
    moreover obtain d ds where "utf8_encode c = d # ds" by (cases "utf8_encode c") auto
    ultimately have "0x80 \<le> b" using utf8_encode_bytes [of c] cs c by auto
    then show False using b by simp
  qed
  then have "xs = utf8_string cs'" using utf8_encode_bytes [of c] cs c by simp
  then show ?thesis using cs(1) c by (auto simp: is_str_def)
qed

lemma scan_high:
  "\<forall>b\<in>set xs. 0x80 \<le> b \<Longrightarrow> scan InText xs = Some (InText, xs) \<and> scan InString xs = Some (InString, [])"
  by (induction xs) auto

lemma high_not_intro: "0x80 \<le> b \<Longrightarrow> \<not> string_intro b" "0x80 \<le> b \<Longrightarrow> b \<noteq> 0x5C"
  by (auto simp: string_intro_def)

lemma scan_step_str: "scan_step st b = Some (st', out) \<Longrightarrow> b < 0x80 \<Longrightarrow> is_str out"
  by (cases st) (auto simp: is_str_byte split: if_splits)

lemma scan_char_str:
  assumes "is_scalar c" "scan st (utf8_encode c) = Some (st', out)"
  shows "is_str out"
proof (cases "c < 0x80")
  case True
  then have "utf8_encode c = [mk_byte c]" "mk_byte c < 0x80"
    using utf8_encode_bytes [OF assms(1)]
    by (simp_all add: mk_byte_def word_less_nat_alt unsigned_of_nat take_bit_nat_eq_self)
  then show ?thesis using assms(2) scan_step_str [of st "mk_byte c"] by (auto split: option.splits prod.splits)
next
  case False
  then have hi: "\<forall>b\<in>set (utf8_encode c). 0x80 \<le> b" using utf8_encode_bytes [OF assms(1)] by simp
  obtain b bs where b: "utf8_encode c = b # bs" by (cases "utf8_encode c") auto
  have "is_str (utf8_encode c)" unfolding is_str_def using assms(1) by (intro exI [of _ "[c]"]) simp
  then show ?thesis using assms(2) scan_high [OF hi] hi b high_not_intro [of b]
    by (cases st) auto
qed

lemma scan_str: "is_str xs \<Longrightarrow> scan st xs = Some (st', out) \<Longrightarrow> is_str out"
proof -
  have "scan st (utf8_string cs) = Some (st', out) \<Longrightarrow> is_str out" if "\<forall>c\<in>set cs. is_scalar c" for cs
    using that
  proof (induction cs arbitrary: st out)
    case (Cons c cs)
    from Cons.prems(1) obtain st1 out1 out2 where "scan st (utf8_encode c) = Some (st1, out1)"
        "scan st1 (utf8_string cs) = Some (st', out2)" "out = out1 @ out2"
      by (auto elim: scan_appendE)
    then show ?case using Cons scan_char_str [of c st st1 out1] by (auto intro: is_str_append)
  qed simp
  then show "is_str xs \<Longrightarrow> scan st xs = Some (st', out) \<Longrightarrow> is_str out" by (auto simp: is_str_def)
qed

section \<open>One chunk\<close>

text \<open>The fragment that is carried in each state of the automaton.\<close>

fun carries :: "scan_state \<Rightarrow> bytes \<Rightarrow> bool" where
  "carries InText t \<longleftrightarrow> t = []"
| "carries AfterEsc t \<longleftrightarrow> t = [0x1B]"
| "carries StringEsc t \<longleftrightarrow> t = [0x1B]"
| "carries InString t \<longleftrightarrow> (\<exists>k p. t = 0x1B # k # p \<and> string_intro k \<and> 0x1B \<notin> set p \<and> 0x07 \<notin> set p \<and> is_str p)"

lemma scan_payload: "0x1B \<notin> set p \<Longrightarrow> 0x07 \<notin> set p \<Longrightarrow> scan InString p = Some (InString, [])"
  by (induction p) auto

lemma carries_scan:
  assumes "carries st t" "scan st c = Some (st', out)" "st = StringEsc \<longrightarrow> c \<noteq> []"
  shows "scan InText (t @ c) = Some (st', out)"
proof (cases st)
  case InString
  then obtain k p where "t = 0x1B # k # p" "string_intro k" "0x1B \<notin> set p" "0x07 \<notin> set p" using assms(1) by auto
  then show ?thesis using assms(2) InString scan_payload [of p] by (auto simp: scan_append)
next
  case StringEsc
  then obtain cs where "c = 0x5C # cs" using assms(2,3) by (cases c) (auto split: if_splits)
  then show ?thesis using assms StringEsc string_intro_not_esc(2) by (auto split: option.splits prod.splits)
qed (use assms in auto)

lemma carries_str: "carries st t \<Longrightarrow> is_str t"
proof (cases st)
  case InString
  moreover assume "carries st t"
  ultimately obtain k p where t: "t = 0x1B # k # p" "string_intro k" "is_str p" by auto
  have "is_str ([0x1B] @ [k] @ p)"
    using t by (intro is_str_append is_str_byte) (auto simp: string_intro_def)
  then show ?thesis using t by simp
qed (auto simp: is_str_byte)

lemma no_st: "0x1B \<notin> set p \<Longrightarrow> \<not> has_st p"
  by (induction p rule: has_st.induct) auto

lemma trailing_lone: "trailing_string_seq_start (ys @ [0x1B]) = Some (length ys)"
  using rposition_esc [of "[]" ys] by (simp add: trailing_string_seq_start_def)

lemma carry_chunk_scan:
  assumes "carries st t" "is_str c" "scan st c = Some (st', out)"
  shows "\<exists>now later. carry_chunk t c = (now, later) \<and> strip_bytes now = out \<and> carries st' later"
proof (cases "st = StringEsc \<and> c = []")
  case True
  then show ?thesis using assms trailing_lone [of "[]"] lossy_str [OF carries_str [OF assms(1)]]
    by (simp add: carry_chunk_def)
next
  case False
  then have sc: "scan InText (t @ c) = Some (st', out)" using carries_scan [OF assms(1,3)] by blast
  have str: "is_str (t @ c)" by (rule is_str_append [OF carries_str [OF assms(1)] assms(2)])
  have chunk: "carry_chunk t c = (case trailing_string_seq_start (t @ c) of
      Some pos \<Rightarrow> (take pos (t @ c), drop pos (t @ c)) | None \<Rightarrow> (t @ c, []))"
  proof -
    have "(if t = [] then c else utf8_lossy t @ c) = t @ c"
      using lossy_str [OF carries_str [OF assms(1)]] by simp
    then show ?thesis unfolding carry_chunk_def Let_def by (rule arg_cong)
  qed
  note e = scan_ends [OF sc]
  show ?thesis
  proof (cases st')
    case InText
    then show ?thesis using chunk e sc strip_scan [of "t @ c" InText out] by simp
  next
    case AfterEsc
    then obtain ys where "t @ c = ys @ [0x1B]" "scan InText ys = Some (InText, out)" using e by auto
    then show ?thesis using chunk AfterEsc trailing_lone [of ys] strip_scan [of ys InText out] by simp
  next
    case StringEsc
    then obtain ys where "t @ c = ys @ [0x1B]" "scan InText ys = Some (InString, out)" using e by auto
    then show ?thesis using chunk StringEsc trailing_lone [of ys] strip_scan [of ys InString out] by simp
  next
    case InString
    then obtain ys k p where w: "t @ c = ys @ 0x1B # k # p" "string_intro k" "0x1B \<notin> set p" "0x07 \<notin> set p"
        "scan InText ys = Some (InText, out)" using e by auto
    have "trailing_string_seq_start (t @ c) = Some (length ys)"
      using w rposition_esc [of "k # p" ys] string_intro_not_esc(1) no_st [of p]
      by (auto simp: trailing_string_seq_start_def nth_append)
    moreover have "is_str p"
    proof -
      have "is_str (k # p)" using is_str_split [of ys "k # p"] str w(1) by simp
      moreover have "k < 0x80" using w(2) by (auto simp: string_intro_def)
      ultimately show ?thesis by (rule is_str_tl)
    qed
    ultimately show ?thesis using chunk InString w strip_scan [of ys InText out] by simp
  qed
qed

section \<open>Streams\<close>

text \<open>The text that a sequence of chunks adds to a pane, with the carry threaded through.\<close>

fun strip_stream :: "bytes \<Rightarrow> bytes list \<Rightarrow> bytes \<times> bytes" where
  "strip_stream t [] = ([], t)"
| "strip_stream t (c # cs) =
    (let (now, later) = carry_chunk t c; (rest, t') = strip_stream later cs
     in (strip_ansi now @ rest, t'))"

lemma strip_stream_scan:
  assumes "carries st t" "\<forall>c\<in>set cs. is_str c" "scan st (concat cs) = Some (st', out)"
  shows "\<exists>t'. strip_stream t cs = (out, t') \<and> carries st' t'"
  using assms
proof (induction cs arbitrary: st t out)
  case (Cons c cs)
  from Cons.prems(3) obtain st1 out1 out2 where
    1: "scan st c = Some (st1, out1)" "scan st1 (concat cs) = Some (st', out2)" "out = out1 @ out2"
    by (auto elim: scan_appendE)
  obtain n l where nl: "carry_chunk t c = (n, l)" "strip_bytes n = out1" "carries st1 l"
    using carry_chunk_scan [OF Cons.prems(1) _ 1(1)] Cons.prems(2) by auto
  have "is_str out1" using scan_str 1(1) Cons.prems(2) by auto
  then have "strip_ansi n = out1" using nl(2) by (simp add: strip_ansi_def lossy_str)
  moreover obtain t' where "strip_stream l cs = (out2, t')" "carries st' t'"
    using Cons.IH [OF nl(3) _ 1(2)] Cons.prems(2) by auto
  ultimately show ?case using nl(1) 1(3) by simp
qed auto



text \<open>
  Control sequences are not carried: a colour change cut after \<open>ESC [ 3\<close> leaves both halves in
  the text, although the whole sequence is stripped.
\<close>

lemma split_csi_leaks:
  "fst (strip_stream [] [[0x1B, 91, 51], [49, 109]]) \<noteq> [] \<and> strip_bytes [0x1B, 91, 51, 49, 109] = []"
proof -
  have "carry_chunk [] [0x1B, 91, 51] = ([0x1B, 91, 51], [])" "carry_chunk [] [49, 109] = ([49, 109], [])"
    "strip_bytes [49, 109] = [49, 109]" "strip_bytes [0x1B, 91, 51, 49, 109] = []"
    by code_simp+
  moreover have "utf8_lossy [49, 109] = [49, 109]"
    by (simp add: lossy_str is_str_bytes)
  ultimately show ?thesis by (simp add: strip_ansi_def)
qed

text \<open>
  A chunk that strips to nothing, such as one that is carried over entirely, still adds an empty line
  to the history.
\<close>

lemma empty_chunk_adds_line: "batch_lines (strip_ansi []) = [[]]"
  by (simp add: batch_lines_def strip_ansi_def)

end
