(* ===== verification/Store_Disk.thy ===== *)
theory Store_Disk
  imports Text_Codec "HOL-Library.AList"
begin

text \<open>
  The file level of \<open>crates/athena-store\<close>: \<open>atomic_write\<close>,
  \<open>sweep_orphaned_temp_files\<close> and \<open>load_data_or_quarantine\<close>, over a model of what they use of
  \<open>std::fs\<close>: one directory of files with a page cache. A name leads to an inode; the inode's
  data is synced or not; \<open>d_maybe\<close> holds the directories that a power loss could leave, that is
  the last synced one and every later one. Any operation may fail, and the process may die
  between two of them or in the middle of a write.
\<close>

section \<open>The directory\<close>

type_synonym fname = bytes

type_synonym directory = "(fname \<times> nat) list"

record disk =
  d_dir :: directory
  d_maybe :: "directory list"
  d_data :: "nat \<Rightarrow> bytes"
  d_synced :: "nat \<Rightarrow> bool"
  d_next :: nat

definition disk_empty :: disk where
  "disk_empty = \<lparr>d_dir = [], d_maybe = [[]], d_data = (\<lambda>i. []), d_synced = (\<lambda>i. False), d_next = 0\<rparr>"

definition read_file :: "disk \<Rightarrow> fname \<Rightarrow> bytes option" where
  "read_file fs name = map_option (d_data fs) (map_of (d_dir fs) name)"

definition set_dir :: "directory \<Rightarrow> disk \<Rightarrow> disk" where
  "set_dir d fs = fs\<lparr>d_dir := d, d_maybe := d # d_maybe fs\<rparr>"

datatype fs_op =
    CreateNew fname
  | CreateTrunc fname
  | OpenAppend fname
  | WriteAll fname bytes
  | SyncFile fname
  | Rename fname fname
  | SyncDir
  | RemoveFile fname

fun fs_exec :: "fs_op \<Rightarrow> disk \<Rightarrow> disk option" where
  "fs_exec (CreateNew n) fs =
    (if map_of (d_dir fs) n \<noteq> None then None
     else Some ((set_dir (AList.update n (d_next fs) (d_dir fs)) fs)
       \<lparr>d_data := (d_data fs)(d_next fs := []), d_synced := (d_synced fs)(d_next fs := False),
        d_next := Suc (d_next fs)\<rparr>))"
| "fs_exec (CreateTrunc n) fs =
    (case map_of (d_dir fs) n of
       Some i \<Rightarrow> Some (fs\<lparr>d_data := (d_data fs)(i := []), d_synced := (d_synced fs)(i := False)\<rparr>)
     | None \<Rightarrow> Some ((set_dir (AList.update n (d_next fs) (d_dir fs)) fs)
         \<lparr>d_data := (d_data fs)(d_next fs := []), d_synced := (d_synced fs)(d_next fs := False),
          d_next := Suc (d_next fs)\<rparr>))"
| "fs_exec (OpenAppend n) fs =
    (case map_of (d_dir fs) n of
       Some i \<Rightarrow> Some fs
     | None \<Rightarrow> Some ((set_dir (AList.update n (d_next fs) (d_dir fs)) fs)
         \<lparr>d_data := (d_data fs)(d_next fs := []), d_synced := (d_synced fs)(d_next fs := False),
          d_next := Suc (d_next fs)\<rparr>))"
| "fs_exec (WriteAll n c) fs =
    map_option (\<lambda>i. fs\<lparr>d_data := (d_data fs)(i := d_data fs i @ c), d_synced := (d_synced fs)(i := False)\<rparr>)
      (map_of (d_dir fs) n)"
| "fs_exec (SyncFile n) fs =
    map_option (\<lambda>i. fs\<lparr>d_synced := (d_synced fs)(i := True)\<rparr>) (map_of (d_dir fs) n)"
| "fs_exec (Rename a b) fs =
    map_option (\<lambda>i. set_dir (AList.update b i (AList.delete a (d_dir fs))) fs) (map_of (d_dir fs) a)"
| "fs_exec SyncDir fs = Some (fs\<lparr>d_maybe := [d_dir fs]\<rparr>)"
| "fs_exec (RemoveFile n) fs =
    (if map_of (d_dir fs) n = None then None else Some (set_dir (AList.delete n (d_dir fs)) fs))"

definition fs_try :: "fs_op \<Rightarrow> disk \<Rightarrow> disk" where
  "fs_try op fs = (case fs_exec op fs of Some fs' \<Rightarrow> fs' | None \<Rightarrow> fs)"

text \<open>
  What an operation that fails or is cut off leaves behind: a write may have stored its first
  \<open>k\<close> bytes, the others have had no effect.
\<close>

fun fs_cut :: "nat \<Rightarrow> fs_op \<Rightarrow> disk \<Rightarrow> disk" where
  "fs_cut k (WriteAll n c) fs = fs_try (WriteAll n (take k c)) fs"
| "fs_cut k op fs = fs"

text \<open>
  A sequence of operations that stops at the first error. With \<open>Some (i, k)\<close> the operation
  number \<open>i\<close> fails after \<open>k\<close> bytes.
\<close>

fun run_ops :: "(nat \<times> nat) option \<Rightarrow> fs_op list \<Rightarrow> disk \<Rightarrow> disk \<times> bool" where
  "run_ops fault [] fs = (fs, True)"
| "run_ops (Some (0, k)) (op # ops) fs = (fs_cut k op fs, False)"
| "run_ops (Some (Suc i, k)) (op # ops) fs =
    (case fs_exec op fs of None \<Rightarrow> (fs, False) | Some fs' \<Rightarrow> run_ops (Some (i, k)) ops fs')"
| "run_ops None (op # ops) fs =
    (case fs_exec op fs of None \<Rightarrow> (fs, False) | Some fs' \<Rightarrow> run_ops None ops fs')"

section \<open>Atomic replacement of a file\<close>

text \<open>The circumstances of one write: the random part of the temporary name and what fails.\<close>

record io_env =
  io_uuid :: bytes
  io_fault :: "(nat \<times> nat) option"
  io_cleanup :: bool

definition temp_name :: "fname \<Rightarrow> bytes \<Rightarrow> fname" where
  "temp_name name uuid = bytes_of ''.'' @ name @ bytes_of ''.tmp-'' @ uuid"

definition atomic_ops :: "fname \<Rightarrow> fname \<Rightarrow> bytes \<Rightarrow> fs_op list" where
  "atomic_ops temp_path path content =
    [CreateNew temp_path, WriteAll temp_path content, SyncFile temp_path, Rename temp_path path, SyncDir]"

definition atomic_write :: "io_env \<Rightarrow> fname \<Rightarrow> bytes \<Rightarrow> disk \<Rightarrow> disk \<times> bool" where
  "atomic_write env path content fs =
    (let temp_path = temp_name path (io_uuid env);
         (fs1, result) = run_ops (io_fault env) (atomic_ops temp_path path content) fs
     in if result then (fs1, True)
        else (if io_cleanup env then fs_try (RemoveFile temp_path) fs1 else fs1, False))"

section \<open>Orphaned temporary files\<close>

fun starts_with :: "bytes \<Rightarrow> bytes \<Rightarrow> bool" where
  "starts_with [] xs = True"
| "starts_with (p # ps) [] = False"
| "starts_with (p # ps) (x # xs) = (p = x \<and> starts_with ps xs)"

fun contains_sub :: "bytes \<Rightarrow> bytes \<Rightarrow> bool" where
  "contains_sub p [] = (p = [])"
| "contains_sub p (x # xs) = (starts_with p (x # xs) \<or> contains_sub p xs)"

definition is_temp_of :: "fname option \<Rightarrow> fname \<Rightarrow> bool" where
  "is_temp_of name_prefix name =
    (case name_prefix of
       Some prefix \<Rightarrow> starts_with (bytes_of ''.'' @ prefix @ bytes_of ''.tmp-'') name
     | None \<Rightarrow> starts_with (bytes_of ''.'') name \<and> contains_sub (bytes_of ''.tmp-'') name)"

text \<open>
  \<open>age\<close> is the time in seconds since the last modification, where the file system tells it and
  it is not in the future.
\<close>

definition sweep_entry :: "fname option \<Rightarrow> (fname \<Rightarrow> nat option) \<Rightarrow> fname \<Rightarrow> disk \<Rightarrow> disk" where
  "sweep_entry name_prefix age name fs =
    (if \<not> is_temp_of name_prefix name then fs
     else if (case age name of Some a \<Rightarrow> 60 \<le> a | None \<Rightarrow> False) then fs_try (RemoveFile name) fs
     else fs)"

definition sweep_orphaned_temp_files :: "fname option \<Rightarrow> (fname \<Rightarrow> nat option) \<Rightarrow> disk \<Rightarrow> disk" where
  "sweep_orphaned_temp_files name_prefix age fs =
    fold (sweep_entry name_prefix age) (map fst (d_dir fs)) fs"

section \<open>Loading\<close>

datatype store_error = SIo | SJson | SNotFound string | SGeneric string

definition quarantine_name :: "fname \<Rightarrow> u64 \<Rightarrow> fname" where
  "quarantine_name name now = name @ bytes_of ''.corrupt-'' @ dec (unat now)"

text \<open>
  \<open>from_str\<close> is \<open>serde_json::from_str\<close> at the type of the store's map; \<open>rename_ok\<close> is
  false when the rename fails.
\<close>

definition load_data_or_quarantine ::
  "(bytes \<Rightarrow> (string \<rightharpoonup> 'v) option) \<Rightarrow> u64 \<Rightarrow> bool \<Rightarrow> fname \<Rightarrow> disk \<Rightarrow>
    disk \<times> (store_error + (string \<rightharpoonup> 'v))" where
  "load_data_or_quarantine from_str now rename_ok path fs =
    (case read_file fs path of
       None \<Rightarrow> (fs, Inr Map.empty)
     | Some content \<Rightarrow>
         if \<not> utf8_valid content then (fs, Inl SIo)
         else (case from_str content of
             Some data \<Rightarrow> (fs, Inr data)
           | None \<Rightarrow>
               if rename_ok then (fs_try (Rename path (quarantine_name path now)) fs, Inr Map.empty)
               else (fs, Inl SIo)))"

section \<open>What a power loss can leave\<close>

datatype survivor = Absent | Intact bytes | Torn

definition survives :: "disk \<Rightarrow> fname \<Rightarrow> directory \<Rightarrow> survivor" where
  "survives fs name d =
    (case map_of d name of
       None \<Rightarrow> Absent
     | Some i \<Rightarrow> if d_synced fs i then Intact (d_data fs i) else Torn)"

definition power_loss :: "disk \<Rightarrow> fname \<Rightarrow> survivor set" where
  "power_loss fs name = survives fs name ` set (d_maybe fs)"

definition disk_wf :: "disk \<Rightarrow> bool" where
  "disk_wf fs \<longleftrightarrow> d_dir fs \<in> set (d_maybe fs) \<and> (\<forall>d\<in>set (d_maybe fs). \<forall>n i. map_of d n = Some i \<longrightarrow> i < d_next fs)"

text \<open>The inode of a file that no other name has, in no directory that could survive.\<close>

definition unshared :: "fname \<Rightarrow> fname \<Rightarrow> disk \<Rightarrow> bool" where
  "unshared t path fs \<longleftrightarrow>
    (\<exists>i. map_of (d_dir fs) t = Some i \<and> (\<forall>d\<in>set (d_maybe fs). map_of d path \<noteq> Some i))"

lemma disk_wf_empty: "disk_wf disk_empty"
  by (simp add: disk_wf_def disk_empty_def)

lemma disk_wf_exec: "disk_wf fs \<Longrightarrow> fs_exec op fs = Some fs' \<Longrightarrow> disk_wf fs'"
  by (cases op)
    (force simp: disk_wf_def set_dir_def update_conv' delete_conv' split: if_splits option.splits)+

lemma disk_wf_try: "disk_wf fs \<Longrightarrow> disk_wf (fs_try op fs)"
  by (auto simp: fs_try_def intro: disk_wf_exec split: option.split)

lemma disk_wf_cut: "disk_wf fs \<Longrightarrow> disk_wf (fs_cut k op fs)"
  by (cases op) (auto intro: disk_wf_try)

lemma disk_wf_run: "disk_wf fs \<Longrightarrow> disk_wf (fst (run_ops fault ops fs))"
  by (induction fault ops fs rule: run_ops.induct)
    (auto simp: disk_wf_cut split: option.split dest: disk_wf_exec)

lemma disk_wf_atomic_write: "disk_wf fs \<Longrightarrow> disk_wf (fst (atomic_write env path content fs))"
  using disk_wf_run [of fs "io_fault env" "atomic_ops (temp_name path (io_uuid env)) path content"]
  by (auto simp: atomic_write_def Let_def disk_wf_try split: prod.split)

lemma temp_name_neq [simp]: "temp_name path uuid \<noteq> path" "path \<noteq> temp_name path uuid"
proof -
  have "length (temp_name path uuid) \<noteq> length path" by (simp add: temp_name_def bytes_of_def)
  then show "temp_name path uuid \<noteq> path" "path \<noteq> temp_name path uuid" by metis+
qed

end
