(* ===== verification/Store_Crash.thy ===== *)
theory Store_Crash
  imports Store_Disk
begin

text \<open>
  The durability of \<open>atomic_write\<close>: whatever fails and whenever the power goes, the file holds
  the old or the new content in full. The file is synced before the rename makes it visible; the
  directory is synced after the rename.
\<close>

section \<open>Operations on the temporary file\<close>

lemma survives_set_dir [simp]: "survives (set_dir d fs) = survives fs"
  by (auto simp: fun_eq_iff survives_def set_dir_def split: option.split)

lemma power_loss_set_dir: "power_loss (set_dir d fs) path = insert (survives fs path d) (power_loss fs path)"
  by (simp add: power_loss_def, simp add: set_dir_def)

lemma read_file_set_dir: "read_file (set_dir d fs) path = map_option (d_data fs) (map_of d path)"
  by (simp add: read_file_def set_dir_def)

lemma create_temp:
  assumes "disk_wf fs" "t \<noteq> path" "fs_exec (CreateNew t) fs = Some fs'"
  shows "power_loss fs' path = power_loss fs path \<and> unshared t path fs' \<and> read_file fs' path = read_file fs path \<and>
    read_file fs' t = Some []"
proof -
  let ?d = "AList.update t (d_next fs) (d_dir fs)"
  have bound: "i \<noteq> d_next fs" if "d \<in> set (d_maybe fs)" "map_of d n = Some i" for d n i
    using assms(1) that by (auto simp: disk_wf_def)
  have dir: "d_dir fs \<in> set (d_maybe fs)" using assms(1) by (simp add: disk_wf_def)
  have fs': "fs' = (set_dir ?d fs)\<lparr>d_data := (d_data fs)(d_next fs := []),
      d_synced := (d_synced fs)(d_next fs := False), d_next := Suc (d_next fs)\<rparr>"
    using assms(3) by (auto split: if_splits)
  have same: "survives fs' path d = survives fs path d" if "d \<in> set (d_maybe fs)" for d
    using bound [OF that] by (auto simp: survives_def fs' split: option.split)
  have new: "survives fs' path ?d = survives fs path (d_dir fs)"
    using bound [OF dir] assms(2) by (auto simp: survives_def fs' update_conv' split: option.split)
  have "power_loss fs' path = insert (survives fs' path ?d) (survives fs' path ` set (d_maybe fs))"
    by (simp add: power_loss_def fs' set_dir_def)
  also have "\<dots> = power_loss fs path" using dir by (auto simp: new same power_loss_def)
  finally have "power_loss fs' path = power_loss fs path" .
  moreover have "unshared t path fs'"
    using bound dir assms(2) by (fastforce simp: unshared_def fs' set_dir_def update_conv')
  moreover have "read_file fs' path = read_file fs path"
    using bound [OF dir] assms(2) by (cases "map_of (d_dir fs) path") (auto simp: read_file_def fs' set_dir_def update_conv')
  ultimately show ?thesis by (simp add: read_file_def fs' set_dir_def update_conv')
qed

text \<open>Writing and syncing an unshared file is invisible at every other name.\<close>

lemma write_temp:
  assumes "disk_wf fs" "unshared t path fs" "fs_exec op fs = Some fs'" "op = WriteAll t c \<or> op = SyncFile t"
  shows "power_loss fs' path = power_loss fs path \<and> unshared t path fs' \<and> read_file fs' path = read_file fs path"
proof -
  obtain i where i: "map_of (d_dir fs) t = Some i" "\<forall>d\<in>set (d_maybe fs). map_of d path \<noteq> Some i"
    using assms(2) by (auto simp: unshared_def)
  have fs': "d_dir fs' = d_dir fs" "d_maybe fs' = d_maybe fs"
      "\<And>j. j \<noteq> i \<Longrightarrow> d_data fs' j = d_data fs j \<and> d_synced fs' j = d_synced fs j"
    using assms(3,4) i(1) by auto
  have same: "survives fs' path d = survives fs path d" if "d \<in> set (d_maybe fs)" for d
    using fs'(3) i(2) that by (auto simp: survives_def split: option.split)
  have "read_file fs' path = read_file fs path"
  proof (cases "map_of (d_dir fs) path")
    case (Some j)
    moreover have "j \<noteq> i" using Some i assms(1) by (auto simp: disk_wf_def)
    ultimately show ?thesis using fs' by (simp add: read_file_def)
  qed (simp add: read_file_def fs'(1))
  then show ?thesis
    using i same by (auto simp: power_loss_def unshared_def fs')
qed

lemma remove_temp:
  assumes "disk_wf fs" "t \<noteq> path"
  shows "power_loss (fs_try (RemoveFile t) fs) path = power_loss fs path \<and>
    read_file (fs_try (RemoveFile t) fs) path = read_file fs path"
proof -
  have "survives fs path (AList.delete t (d_dir fs)) = survives fs path (d_dir fs)"
    using assms(2) by (simp add: survives_def delete_conv')
  moreover have "survives fs path (d_dir fs) \<in> power_loss fs path"
    using assms(1) by (simp add: power_loss_def disk_wf_def)
  moreover have "read_file (set_dir (AList.delete t (d_dir fs)) fs) path = read_file fs path"
    using assms(2) by (simp add: read_file_set_dir delete_conv', simp add: read_file_def)
  ultimately show ?thesis by (simp add: fs_try_def power_loss_set_dir insert_absorb)
qed

section \<open>Every stage of the write\<close>

text \<open>
  The states in which the write can be left: before the rename nothing has changed at the path;
  after it the new content is a further possibility, and the only one once the directory is synced.
\<close>

definition old_or_new :: "fname \<Rightarrow> bytes \<Rightarrow> disk \<Rightarrow> disk \<Rightarrow> bool" where
  "old_or_new path content fs fs' \<longleftrightarrow>
    disk_wf fs' \<and>
    (power_loss fs' path = power_loss fs path \<and> read_file fs' path = read_file fs path \<or>
     power_loss fs' path = insert (Intact content) (power_loss fs path) \<and> read_file fs' path = Some content)"

lemma rename_temp:
  assumes "disk_wf fs" "t \<noteq> path" "map_of (d_dir fs) t = Some i" "d_synced fs i" "fs_exec (Rename t path) fs = Some fs'"
  shows "power_loss fs' path = insert (Intact (d_data fs i)) (power_loss fs path) \<and> read_file fs' path = Some (d_data fs i)"
proof -
  let ?d = "AList.update path i (AList.delete t (d_dir fs))"
  have "fs' = set_dir ?d fs" "survives fs path ?d = Intact (d_data fs i)"
    using assms by (auto simp: survives_def update_conv')
  then show ?thesis by (simp add: power_loss_set_dir read_file_set_dir update_conv')
qed

text \<open>The temporary file once it is created: what writing, syncing and renaming it do.\<close>

lemma temp_chain:
  assumes wf: "disk_wf fs" and t: "t \<noteq> path" and c: "fs_exec (CreateNew t) fs = Some fs1"
  obtains fs2 fs3 fs4 fs5 where
    "fs_exec (WriteAll t content) fs1 = Some fs2" "fs_exec (SyncFile t) fs2 = Some fs3"
    "fs_exec (Rename t path) fs3 = Some fs4" "fs_exec SyncDir fs4 = Some fs5"
    "old_or_new path content fs fs1" "\<And>k. old_or_new path content fs (fs_try (WriteAll t (take k content)) fs1)"
    "old_or_new path content fs fs2" "old_or_new path content fs fs3" "old_or_new path content fs fs4"
    "power_loss fs5 path = {Intact content}" "read_file fs5 path = Some content" "disk_wf fs5"
proof -
  note c1 = create_temp [OF wf t c] and wf1 = disk_wf_exec [OF wf c]
  obtain i where i: "map_of (d_dir fs1) t = Some i" using c1 by (auto simp: unshared_def)
  have empty: "d_data fs1 i = []" using c1 i by (simp add: read_file_def)
  have w: "old_or_new path content fs fs2 \<and> unshared t path fs2 \<and> disk_wf fs2"
    if "fs_exec (WriteAll t d) fs1 = Some fs2" for d fs2
    using write_temp [OF wf1 _ that] disk_wf_exec [OF wf1 that] c1 by (auto simp: old_or_new_def)
  define fs2 where "fs2 = fs1\<lparr>d_data := (d_data fs1)(i := content), d_synced := (d_synced fs1)(i := False)\<rparr>"
  have e2: "fs_exec (WriteAll t content) fs1 = Some fs2" using i empty by (simp add: fs2_def)
  note w2 = w [OF e2]
  define fs3 where "fs3 = fs2\<lparr>d_synced := (d_synced fs2)(i := True)\<rparr>"
  have e3: "fs_exec (SyncFile t) fs2 = Some fs3" using i by (simp add: fs2_def fs3_def)
  have wf3: "disk_wf fs3" using disk_wf_exec [OF _ e3] w2 by blast
  have w3: "power_loss fs3 path = power_loss fs path" "read_file fs3 path = read_file fs path"
    using write_temp [OF _ _ e3, where t = t and path = path] write_temp [OF wf1 _ e2, where t = t and path = path] w2 c1 by auto
  define fs4 where "fs4 = set_dir (AList.update path i (AList.delete t (d_dir fs3))) fs3"
  have i3: "map_of (d_dir fs3) t = Some i" "d_synced fs3 i" "d_data fs3 i = content"
    using i by (auto simp: fs3_def fs2_def)
  have e4: "fs_exec (Rename t path) fs3 = Some fs4" using i3 by (simp add: fs4_def)
  have wf4: "disk_wf fs4" by (rule disk_wf_exec [OF wf3 e4])
  have o4: "old_or_new path content fs fs4"
    using rename_temp [OF wf3 t i3(1,2) e4] w3 i3 wf4 by (simp add: old_or_new_def)
  define fs5 where "fs5 = fs4\<lparr>d_maybe := [d_dir fs4]\<rparr>"
  have e5: "fs_exec SyncDir fs4 = Some fs5" by (simp add: fs5_def)
  have d5: "map_of (d_dir fs4) path = Some i" "d_synced fs4 i" "d_data fs4 i = content"
    using i3 by (auto simp: fs4_def set_dir_def update_conv')
  show thesis
  proof (rule that [OF e2 e3 e4 e5 _ _ _ _ o4])
    show "old_or_new path content fs (fs_try (WriteAll t (take k content)) fs1)" for k
      using w [of "take k content"] i by (auto simp: fs_try_def simp del: fun_upd_apply)
  qed (use c1 wf1 w2 wf3 w3 d5 disk_wf_exec [OF wf4 e5] in
      \<open>auto simp: old_or_new_def power_loss_def survives_def fs5_def read_file_def\<close>)
qed

lemma run_atomic_ops:
  assumes wf: "disk_wf fs" and t: "t \<noteq> path"
    and run: "run_ops fault (atomic_ops t path content) fs = (fs', ok)"
  shows "old_or_new path content fs fs' \<and> \<not> ok \<or>
    disk_wf fs' \<and> ok \<and> power_loss fs' path = {Intact content} \<and> read_file fs' path = Some content"
proof (cases "fs_exec (CreateNew t) fs")
  case None
  have "run_ops fault (atomic_ops t path content) fs = (fs, False)"
    using None by (cases fault; cases "fst (the fault)"; cases "the fault") (auto simp: atomic_ops_def)
  then show ?thesis using run wf by (auto simp: old_or_new_def)
next
  case (Some fs1)
  from temp_chain [OF wf t Some, of content] obtain fs2 fs3 fs4 fs5 where
    e: "fs_exec (WriteAll t content) fs1 = Some fs2" "fs_exec (SyncFile t) fs2 = Some fs3"
      "fs_exec (Rename t path) fs3 = Some fs4" "fs_exec SyncDir fs4 = Some fs5"
    and o: "old_or_new path content fs fs1" "\<And>k. old_or_new path content fs (fs_try (WriteAll t (take k content)) fs1)"
      "old_or_new path content fs fs2" "old_or_new path content fs fs3" "old_or_new path content fs fs4"
    and f: "power_loss fs5 path = {Intact content}" "read_file fs5 path = Some content" "disk_wf fs5"
    by metis
  have o0: "old_or_new path content fs fs" using wf by (simp add: old_or_new_def)
  have full: "run_ops fault (atomic_ops t path content) fs = (fs5, True)" if "fault = None \<or> (\<exists>i k. fault = Some (i + 5, k))"
    using that Some e by (auto simp: atomic_ops_def numeral_eq_Suc simp del: fs_exec.simps)
  consider "fault = None \<or> (\<exists>i k. fault = Some (i + 5, k))"
    | (early) i k where "fault = Some (i, k)" "i < 5"
    by (cases fault) (auto, metis add.commute le_add_diff_inverse linorder_not_less)
  then show ?thesis
  proof cases
    case 1
    then show ?thesis using full run f by simp
  next
    case early
    then consider "i = 0" | "i = 1" | "i = 2" | "i = 3" | "i = 4" by linarith
    then show ?thesis
      using early run o0 o e Some
      by cases (auto simp: atomic_ops_def numeral_eq_Suc simp del: fs_exec.simps)
  qed
qed

lemma atomic_write_effect:
  assumes "disk_wf fs" and "atomic_write env path content fs = (fs', ok)"
  shows "disk_wf fs' \<and>
    (if ok then power_loss fs' path = {Intact content} \<and> read_file fs' path = Some content
     else power_loss fs' path \<subseteq> insert (Intact content) (power_loss fs path) \<and>
       read_file fs' path \<in> {read_file fs path, Some content})"
proof -
  let ?t = "temp_name path (io_uuid env)"
  obtain fs1 r where run: "run_ops (io_fault env) (atomic_ops ?t path content) fs = (fs1, r)" by fastforce
  have wf1: "disk_wf fs1" using disk_wf_run [OF assms(1), of "io_fault env" "atomic_ops ?t path content"] run by simp
  have "fs' = (if \<not> r \<and> io_cleanup env then fs_try (RemoveFile ?t) fs1 else fs1) \<and> ok = r"
    using assms(2) run by (auto simp: atomic_write_def split: if_splits)
  moreover have "power_loss (fs_try (RemoveFile ?t) fs1) path = power_loss fs1 path \<and>
      read_file (fs_try (RemoveFile ?t) fs1) path = read_file fs1 path"
    by (rule remove_temp [OF wf1]) simp
  ultimately have "power_loss fs' path = power_loss fs1 path" "read_file fs' path = read_file fs1 path" "ok = r"
      "disk_wf fs'" using wf1 disk_wf_try by auto
  then show ?thesis
    using run_atomic_ops [OF assms(1) _ run] by (auto simp: old_or_new_def)
qed

text \<open>With no fault, and a fresh temporary name, the write succeeds.\<close>

lemma atomic_write_succeeds:
  assumes "disk_wf fs" "io_fault env = None" "map_of (d_dir fs) (temp_name path (io_uuid env)) = None"
  shows "\<exists>fs'. atomic_write env path content fs = (fs', True)"
proof -
  let ?t = "temp_name path (io_uuid env)"
  obtain fs1 where c: "fs_exec (CreateNew ?t) fs = Some fs1" using assms(3) by simp
  from temp_chain [OF assms(1) _ c, of path content] obtain fs2 fs3 fs4 fs5 where
    "fs_exec (WriteAll ?t content) fs1 = Some fs2" "fs_exec (SyncFile ?t) fs2 = Some fs3"
      "fs_exec (Rename ?t path) fs3 = Some fs4" "fs_exec SyncDir fs4 = Some fs5" by (metis temp_name_neq(1))
  then have "run_ops None (atomic_ops ?t path content) fs = (fs5, True)"
    using c by (simp add: atomic_ops_def del: fs_exec.simps)
  then show ?thesis using assms(2) by (simp add: atomic_write_def)
qed

section \<open>Properties\<close>

text \<open>
  C15. Crash safety of the atomic write. Let the file be intact (no power loss leaves a torn version).
  Whatever operation of the write fails, at whatever byte, and whether or not the clean-up runs
  (with no clean-up: the process died there), a power loss leaves either one of the versions that
  were possible before or the new content in full, and a reader sees the old or the new content.
  When the write reports success, only the new content is possible.
\<close>

theorem atomic_write_crash_safe:
  assumes "disk_wf fs" and "Torn \<notin> power_loss fs path" and "atomic_write env path content fs = (fs', ok)"
  shows "Torn \<notin> power_loss fs' path \<and>
    power_loss fs' path \<subseteq> insert (Intact content) (power_loss fs path) \<and>
    read_file fs' path \<in> {read_file fs path, Some content} \<and>
    (ok \<longrightarrow> power_loss fs' path = {Intact content} \<and> read_file fs' path = Some content)"
  using atomic_write_effect [OF assms(1,3)] assms(2) by (cases ok) auto

theorem atomic_write_crash_safe_witness:
  "power_loss (fst (atomic_write \<lparr>io_uuid = [0x31], io_fault = None, io_cleanup = True\<rparr> [0x73] [0x7B, 0x7D] disk_empty)) [0x73] =
    {Intact [0x7B, 0x7D]}"
proof -
  let ?e = "\<lparr>io_uuid = [0x31], io_fault = None, io_cleanup = True\<rparr> :: io_env"
  obtain fs' where w: "atomic_write ?e [0x73] [0x7B, 0x7D] disk_empty = (fs', True)"
    using atomic_write_succeeds [OF disk_wf_empty, of ?e "[0x73]" "[0x7B, 0x7D]"] by (auto simp: disk_empty_def)
  have "Torn \<notin> power_loss disk_empty [0x73]" by (simp add: power_loss_def survives_def disk_empty_def)
  from atomic_write_crash_safe [OF disk_wf_empty this w] w show ?thesis by simp
qed

end
