(* ===== verification/Store_Kv.thy ===== *)
theory Store_Kv
  imports Store_Crash
begin

text \<open>
  \<open>crates/athena-store/src/store.rs\<close>: the key-value store that keeps the application's
  preferences, boards and histories. Values are JSON values of the crate \<open>serde_json\<close>, a type
  parameter; its conversions are arguments: \<open>to_value\<close> and \<open>from_value\<close> between a client's
  type and a value, \<open>to_string\<close> and \<open>from_str\<close> between the whole map and the file's text.
  An operation takes the store and the disk it shares and returns both.
\<close>

section \<open>State\<close>

record 'v kv_store =
  kv_path :: "fname option"
  kv_data :: "string \<rightharpoonup> 'v"
  kv_dirty :: bool
  kv_revision :: u64

datatype flush_outcome = InMemory | NotDirty | Flushed

definition new_empty :: "'v kv_store" where
  "new_empty = \<lparr>kv_path = None, kv_data = Map.empty, kv_dirty = False, kv_revision = 0\<rparr>"

definition is_in_memory :: "'v kv_store \<Rightarrow> bool" where
  "is_in_memory s \<longleftrightarrow> kv_path s = None"

text \<open>What opening meets: whether the directory can be made, the ages of its files, the clock.\<close>

record open_env =
  oe_dir_ok :: bool
  oe_age :: "fname \<Rightarrow> nat option"
  oe_now :: u64
  oe_rename_ok :: bool

definition with_path_sync ::
  "(bytes \<Rightarrow> (string \<rightharpoonup> 'v) option) \<Rightarrow> open_env \<Rightarrow> fname \<Rightarrow> disk \<Rightarrow> disk \<times> (store_error + 'v kv_store)" where
  "with_path_sync from_str env path fs =
    (if \<not> oe_dir_ok env then (fs, Inl SIo)
     else (case load_data_or_quarantine from_str (oe_now env) (oe_rename_ok env) path
                  (sweep_orphaned_temp_files (Some path) (oe_age env) fs) of
         (fs', Inl e) \<Rightarrow> (fs', Inl e)
       | (fs', Inr data) \<Rightarrow>
           (fs', Inr \<lparr>kv_path = Some path, kv_data = data, kv_dirty = False, kv_revision = 0\<rparr>)))"

definition with_name_sync ::
  "(bytes \<Rightarrow> (string \<rightharpoonup> 'v) option) \<Rightarrow> open_env \<Rightarrow> fname \<Rightarrow> disk \<Rightarrow> disk \<times> (store_error + 'v kv_store)" where
  "with_name_sync from_str env name fs = with_path_sync from_str env (name @ bytes_of ''.json'') fs"

definition kv_default ::
  "(bytes \<Rightarrow> (string \<rightharpoonup> 'v) option) \<Rightarrow> open_env \<Rightarrow> disk \<Rightarrow> disk \<times> 'v kv_store" where
  "kv_default from_str env fs =
    (case with_name_sync from_str env (bytes_of ''store'') fs of
       (fs', Inr s) \<Rightarrow> (fs', s)
     | (fs', Inl e) \<Rightarrow> (fs', new_empty))"

section \<open>Reading and deferred writing\<close>

definition kv_get :: "('v \<Rightarrow> 'a option) \<Rightarrow> string \<Rightarrow> 'v kv_store \<Rightarrow> store_error + 'a option" where
  "kv_get from_value key s =
    (case kv_data s key of
       None \<Rightarrow> Inr None
     | Some v \<Rightarrow> (case from_value v of
           Some x \<Rightarrow> Inr (Some x)
         | None \<Rightarrow> Inl (SGeneric ''deserialization failed'')))"

definition kv_has :: "string \<Rightarrow> 'v kv_store \<Rightarrow> bool" where
  "kv_has key s \<longleftrightarrow> kv_data s key \<noteq> None"

definition kv_mark_dirty :: "'v kv_store \<Rightarrow> 'v kv_store" where
  "kv_mark_dirty s = s\<lparr>kv_revision := kv_revision s + 1, kv_dirty := True\<rparr>"

definition kv_put :: "string \<Rightarrow> 'v \<Rightarrow> 'v kv_store \<Rightarrow> 'v kv_store" where
  "kv_put key v s = kv_mark_dirty (s\<lparr>kv_data := (kv_data s)(key \<mapsto> v)\<rparr>)"

definition kv_set_deferred ::
  "('a \<Rightarrow> 'v option) \<Rightarrow> string \<Rightarrow> 'a \<Rightarrow> 'v kv_store \<Rightarrow> 'v kv_store \<times> (store_error + unit)" where
  "kv_set_deferred to_value key x s =
    (case to_value x of None \<Rightarrow> (s, Inl SJson) | Some v \<Rightarrow> (kv_put key v s, Inr ()))"

definition kv_delete :: "string \<Rightarrow> 'v kv_store \<Rightarrow> 'v kv_store" where
  "kv_delete key s = kv_mark_dirty (s\<lparr>kv_data := (kv_data s)(key := None)\<rparr>)"

section \<open>Persisting\<close>

text \<open>
  A mutation by another thread while the snapshot is being written: \<open>set\<close> and \<open>delete\<close> do
  not take the lock that persisting holds.
\<close>

datatype 'v mutation = Put string 'v | Del string

fun mutate_map :: "'v mutation \<Rightarrow> (string \<rightharpoonup> 'v) \<Rightarrow> (string \<rightharpoonup> 'v)" where
  "mutate_map (Put k v) m = m(k \<mapsto> v)"
| "mutate_map (Del k) m = m(k := None)"

fun apply_mut :: "'v mutation \<Rightarrow> 'v kv_store \<Rightarrow> 'v kv_store" where
  "apply_mut (Put k v) s = kv_put k v s"
| "apply_mut (Del k) s = kv_delete k s"

definition persist_snapshot ::
  "((string \<rightharpoonup> 'v) \<Rightarrow> bytes option) \<Rightarrow> io_env \<Rightarrow> 'v mutation list \<Rightarrow> 'v kv_store \<Rightarrow> disk \<Rightarrow>
    'v kv_store \<times> disk \<times> (store_error + unit)" where
  "persist_snapshot to_string env racing s fs =
    (case kv_path s of
       None \<Rightarrow> (s, fs, Inr ())
     | Some path \<Rightarrow>
         let revision = kv_revision s in
         (case to_string (kv_data s) of
            None \<Rightarrow> (s, fs, Inl SJson)
          | Some json \<Rightarrow>
              let (fs', ok) = atomic_write env path json fs;
                  s' = fold apply_mut racing s
              in if \<not> ok then (s', fs', Inl SIo)
                 else (s'\<lparr>kv_dirty := (kv_revision s' \<noteq> revision)\<rparr>, fs', Inr ())))"

definition persist_snapshot_locked ::
  "((string \<rightharpoonup> 'v) \<Rightarrow> bytes option) \<Rightarrow> io_env \<Rightarrow> 'v mutation list \<Rightarrow> 'v kv_store \<Rightarrow> disk \<Rightarrow>
    'v kv_store \<times> disk \<times> (store_error + unit)" where
  "persist_snapshot_locked to_string env racing s fs = persist_snapshot to_string env racing s fs"

definition mutate_sync ::
  "((string \<rightharpoonup> 'v) \<Rightarrow> bytes option) \<Rightarrow> io_env \<Rightarrow> 'v mutation list \<Rightarrow> 'v mutation \<Rightarrow> 'v kv_store \<Rightarrow> disk \<Rightarrow>
    'v kv_store \<times> disk \<times> (store_error + unit)" where
  "mutate_sync to_string env racing mutate s fs =
    (let s1 = s\<lparr>kv_data := mutate_map mutate (kv_data s)\<rparr>;
         s2 = s1\<lparr>kv_revision := kv_revision s1 + 1, kv_dirty := True\<rparr>
     in if kv_path s2 = None then (s2, fs, Inr ())
        else persist_snapshot_locked to_string env racing s2 fs)"

definition kv_set_sync ::
  "((string \<rightharpoonup> 'v) \<Rightarrow> bytes option) \<Rightarrow> ('a \<Rightarrow> 'v option) \<Rightarrow> io_env \<Rightarrow> 'v mutation list \<Rightarrow> string \<Rightarrow> 'a \<Rightarrow>
    'v kv_store \<Rightarrow> disk \<Rightarrow> 'v kv_store \<times> disk \<times> (store_error + unit)" where
  "kv_set_sync to_string to_value env racing key x s fs =
    (case to_value x of
       None \<Rightarrow> (s, fs, Inl SJson)
     | Some v \<Rightarrow> mutate_sync to_string env racing (Put key v) s fs)"

definition kv_delete_sync ::
  "((string \<rightharpoonup> 'v) \<Rightarrow> bytes option) \<Rightarrow> io_env \<Rightarrow> 'v mutation list \<Rightarrow> string \<Rightarrow>
    'v kv_store \<Rightarrow> disk \<Rightarrow> 'v kv_store \<times> disk \<times> (store_error + unit)" where
  "kv_delete_sync to_string env racing key s fs = mutate_sync to_string env racing (Del key) s fs"

definition flush_with_outcome ::
  "((string \<rightharpoonup> 'v) \<Rightarrow> bytes option) \<Rightarrow> io_env \<Rightarrow> 'v mutation list \<Rightarrow> 'v kv_store \<Rightarrow> disk \<Rightarrow>
    'v kv_store \<times> disk \<times> (store_error + flush_outcome)" where
  "flush_with_outcome to_string env racing s fs =
    (if kv_path s = None then (s, fs, Inr InMemory)
     else if \<not> kv_dirty s then (s, fs, Inr NotDirty)
     else (case persist_snapshot to_string env racing s fs of
         (s', fs', Inl e) \<Rightarrow> (s', fs', Inl e)
       | (s', fs', Inr u) \<Rightarrow> (s', fs', Inr Flushed)))"

definition flush_if_dirty ::
  "((string \<rightharpoonup> 'v) \<Rightarrow> bytes option) \<Rightarrow> io_env \<Rightarrow> 'v mutation list \<Rightarrow> 'v kv_store \<Rightarrow> disk \<Rightarrow>
    'v kv_store \<times> disk \<times> (store_error + unit)" where
  "flush_if_dirty to_string env racing s fs =
    (case flush_with_outcome to_string env racing s fs of
       (s', fs', Inl e) \<Rightarrow> (s', fs', Inl e)
     | (s', fs', Inr u) \<Rightarrow> (s', fs', Inr ()))"

text \<open>On drop there is no other thread left, and an error is only logged.\<close>

definition kv_drop :: "((string \<rightharpoonup> 'v) \<Rightarrow> bytes option) \<Rightarrow> io_env \<Rightarrow> 'v kv_store \<Rightarrow> disk \<Rightarrow> disk" where
  "kv_drop to_string env s fs =
    (if kv_path s = None then fs
     else if \<not> kv_dirty s then fs
     else fst (snd (persist_snapshot to_string env [] s fs)))"

section \<open>The interface to the clients\<close>

locale kv_map =
  fixes lookup :: "'s \<Rightarrow> 'k \<Rightarrow> 'v option" and put :: "'k \<Rightarrow> 'v \<Rightarrow> 's \<Rightarrow> 's" and del :: "'k \<Rightarrow> 's \<Rightarrow> 's"
  assumes lookup_put: "lookup (put k v s) j = (if j = k then Some v else lookup s j)"
    and lookup_del: "lookup (del k s) j = (if j = k then None else lookup s j)"
begin

lemma puts_other: "k \<notin> fst ` set kvs \<Longrightarrow> lookup (fold (\<lambda>(k, v). put k v) kvs s) k = lookup s k"
  by (induction kvs arbitrary: s) (auto simp: lookup_put)

lemma puts_last: "lookup (fold (\<lambda>(k, v). put k v) (kvs @ [(k, v)]) s) k = Some v"
  by (simp add: lookup_put)

lemma put_del: "lookup (put k v (del j s)) i = (if i = k then Some v else if i = j then None else lookup s i)"
  by (simp add: lookup_put lookup_del)

end

lemma kv_put_simps [simp]:
  "kv_data (kv_put k v s) = (kv_data s)(k \<mapsto> v)" "kv_path (kv_put k v s) = kv_path s"
  "kv_dirty (kv_put k v s)" "kv_revision (kv_put k v s) = kv_revision s + 1"
  by (simp_all add: kv_put_def kv_mark_dirty_def)

lemma kv_delete_simps [simp]:
  "kv_data (kv_delete k s) = (kv_data s)(k := None)" "kv_path (kv_delete k s) = kv_path s"
  "kv_dirty (kv_delete k s)" "kv_revision (kv_delete k s) = kv_revision s + 1"
  by (simp_all add: kv_delete_def kv_mark_dirty_def)

interpretation store_map: kv_map kv_data kv_put kv_delete
  by unfold_locales simp_all

section \<open>Runs of calls\<close>

datatype 'v kv_call =
    Deferred "'v mutation"
  | Synced io_env "'v mutation list" "'v mutation"
  | Flush io_env "'v mutation list"

fun kv_exec :: "((string \<rightharpoonup> 'v) \<Rightarrow> bytes option) \<Rightarrow> 'v kv_call \<Rightarrow> 'v kv_store \<times> disk \<Rightarrow> 'v kv_store \<times> disk" where
  "kv_exec to_string (Deferred m) (s, fs) = (apply_mut m s, fs)"
| "kv_exec to_string (Synced env racing m) (s, fs) =
    (case mutate_sync to_string env racing m s fs of (s', fs', r) \<Rightarrow> (s', fs'))"
| "kv_exec to_string (Flush env racing) (s, fs) =
    (case flush_with_outcome to_string env racing s fs of (s', fs', r) \<Rightarrow> (s', fs'))"

fun races :: "'v kv_call \<Rightarrow> nat" where
  "races (Deferred m) = 0"
| "races (Synced env racing m) = length racing"
| "races (Flush env racing) = length racing"

text \<open>What \<open>serde_json\<close> documents: a map that it prints reads back, and its text is a string.\<close>

definition faithful_json :: "((string \<rightharpoonup> 'v) \<Rightarrow> bytes option) \<Rightarrow> (bytes \<Rightarrow> (string \<rightharpoonup> 'v) option) \<Rightarrow> bool" where
  "faithful_json to_string from_str \<longleftrightarrow>
    (\<forall>m json. to_string m = Some json \<longrightarrow> utf8_valid json \<and> from_str json = Some m)"

end
