(* ===== verification/Store_Race.thy ===== *)
theory Store_Race
  imports Store_Kv
begin

text \<open>
  The store between threads, one shared access at a time. A mutation is three accesses: the change
  of the map, the increment of \<open>revision\<close>, the store to \<open>dirty\<close>
  (\<open>set_deferred\<close>, \<open>delete\<close>, \<open>mark_dirty\<close>); any number of them may be under way. Persisting
  holds \<open>persist_lock\<close>, so there is at most one: it reads the revision, copies the map, writes
  the file, reads the revision again and then stores to \<open>dirty\<close>. The counter has 64 bits in the
  code; here it is a natural number, as \<open>2 ^ 64\<close> mutations do not happen during one write.
\<close>

section \<open>The accesses\<close>

datatype 'm persist_pc =
    PIdle
  | ReadRevision nat
  | Copied nat 'm
  | Wrote nat
  | Compared bool

record 'm race_state =
  r_data :: 'm
  r_disk :: 'm
  r_dirty :: bool
  r_revision :: nat
  r_changed :: nat
  r_counted :: nat
  r_pc :: "'m persist_pc"

datatype 'm access = Change 'm | Count | SetDirty | Begin | Copy | WriteFile | FailFile bool | Compare | Finish

inductive race_step :: "'m access \<Rightarrow> 'm race_state \<Rightarrow> 'm race_state \<Rightarrow> bool" where
  change: "race_step (Change m) s (s\<lparr>r_data := m, r_changed := Suc (r_changed s)\<rparr>)"
| count: "r_changed s = Suc n \<Longrightarrow>
    race_step Count s (s\<lparr>r_revision := Suc (r_revision s), r_changed := n, r_counted := Suc (r_counted s)\<rparr>)"
| set_dirty: "r_counted s = Suc n \<Longrightarrow> race_step SetDirty s (s\<lparr>r_dirty := True, r_counted := n\<rparr>)"
| begin_persist: "r_pc s = PIdle \<Longrightarrow> race_step Begin s (s\<lparr>r_pc := ReadRevision (r_revision s)\<rparr>)"
| copy: "r_pc s = ReadRevision v \<Longrightarrow> race_step Copy s (s\<lparr>r_pc := Copied v (r_data s)\<rparr>)"
| write_file: "r_pc s = Copied v m \<Longrightarrow> race_step WriteFile s (s\<lparr>r_disk := m, r_pc := Wrote v\<rparr>)"
| fail_file: "r_pc s = Copied v m \<Longrightarrow>
    race_step (FailFile renamed) s (s\<lparr>r_disk := (if renamed then m else r_disk s), r_pc := PIdle\<rparr>)"
| compare: "r_pc s = Wrote v \<Longrightarrow> race_step Compare s (s\<lparr>r_pc := Compared (r_revision s = v)\<rparr>)"
| finish: "r_pc s = Compared unchanged \<Longrightarrow> race_step Finish s (s\<lparr>r_dirty := \<not> unchanged, r_pc := PIdle\<rparr>)"

inductive_cases race_stepE: "race_step l s t"

definition race_start :: "'m \<Rightarrow> 'm race_state" where
  "race_start m = \<lparr>r_data = m, r_disk = m, r_dirty = False, r_revision = 0, r_changed = 0, r_counted = 0, r_pc = PIdle\<rparr>"

text \<open>No mutation is under way.\<close>

definition settled :: "'m race_state \<Rightarrow> bool" where
  "settled s \<longleftrightarrow> r_changed s = 0 \<and> r_counted s = 0"

text \<open>
  The window: the persisting thread has seen an unchanged revision and is about to clear the
  flag, and another thread sets it.
\<close>

definition in_window :: "'m access \<Rightarrow> 'm race_state \<Rightarrow> bool" where
  "in_window l s \<longleftrightarrow> l = SetDirty \<and> r_pc s = Compared True"

inductive calm_run :: "'m race_state \<Rightarrow> 'm race_state \<Rightarrow> bool" where
  calm_nil: "calm_run s s"
| calm_step: "calm_run s t \<Longrightarrow> race_step l t u \<Longrightarrow> \<not> in_window l t \<Longrightarrow> calm_run s u"

section \<open>The invariant\<close>

fun pc_inv :: "'m race_state \<Rightarrow> bool" where
  "pc_inv s =
    (case r_pc s of
       PIdle \<Rightarrow> True
     | ReadRevision v \<Rightarrow> v \<le> r_revision s
     | Copied v m \<Rightarrow> v \<le> r_revision s \<and> (r_revision s = v \<and> r_changed s = 0 \<longrightarrow> m = r_data s) \<and>
         (\<not> r_dirty s \<and> settled s \<longrightarrow> m = r_data s)
     | Wrote v \<Rightarrow> v \<le> r_revision s \<and> (r_revision s = v \<and> r_changed s = 0 \<longrightarrow> r_disk s = r_data s)
     | Compared b \<Rightarrow> b \<and> settled s \<longrightarrow> r_disk s = r_data s)"

definition race_inv :: "'m race_state \<Rightarrow> bool" where
  "race_inv s \<longleftrightarrow> pc_inv s \<and> (\<not> r_dirty s \<and> settled s \<longrightarrow> r_disk s = r_data s)"

lemma race_inv_start: "race_inv (race_start m)"
  by (simp add: race_inv_def race_start_def)

lemma race_inv_step: "race_step l s t \<Longrightarrow> \<not> in_window l s \<Longrightarrow> race_inv s \<Longrightarrow> race_inv t"
  by (erule race_stepE) (auto simp: race_inv_def settled_def in_window_def split: persist_pc.splits)

lemma race_inv_run: "calm_run s t \<Longrightarrow> race_inv s \<Longrightarrow> race_inv t"
  by (induction rule: calm_run.induct) (auto intro: race_inv_step)

section \<open>Properties\<close>

text \<open>
  The dirty flag between threads. In every interleaving in which no thread sets the flag in the
  window between the comparison of the revisions and the store that clears the flag, a store with
  no mutation under way and a clear flag has its map on disk.
\<close>

theorem clear_flag_means_durable:
  assumes "calm_run (race_start m) s" and "\<not> r_dirty s" and "settled s"
  shows "r_disk s = r_data s"
  using race_inv_run [OF assms(1) race_inv_start] assms(2,3) by (simp add: race_inv_def)

text \<open>The relation executed: the successor of an access that is enabled.\<close>

fun race_exec :: "'m access \<Rightarrow> 'm race_state \<Rightarrow> 'm race_state option" where
  "race_exec (Change m) s = Some (s\<lparr>r_data := m, r_changed := Suc (r_changed s)\<rparr>)"
| "race_exec Count s =
    (case r_changed s of
       0 \<Rightarrow> None
     | Suc n \<Rightarrow> Some (s\<lparr>r_revision := Suc (r_revision s), r_changed := n, r_counted := Suc (r_counted s)\<rparr>))"
| "race_exec SetDirty s =
    (case r_counted s of 0 \<Rightarrow> None | Suc n \<Rightarrow> Some (s\<lparr>r_dirty := True, r_counted := n\<rparr>))"
| "race_exec Begin s = (case r_pc s of PIdle \<Rightarrow> Some (s\<lparr>r_pc := ReadRevision (r_revision s)\<rparr>) | _ \<Rightarrow> None)"
| "race_exec Copy s = (case r_pc s of ReadRevision v \<Rightarrow> Some (s\<lparr>r_pc := Copied v (r_data s)\<rparr>) | _ \<Rightarrow> None)"
| "race_exec WriteFile s = (case r_pc s of Copied v m \<Rightarrow> Some (s\<lparr>r_disk := m, r_pc := Wrote v\<rparr>) | _ \<Rightarrow> None)"
| "race_exec (FailFile renamed) s =
    (case r_pc s of
       Copied v m \<Rightarrow> Some (s\<lparr>r_disk := (if renamed then m else r_disk s), r_pc := PIdle\<rparr>)
     | _ \<Rightarrow> None)"
| "race_exec Compare s = (case r_pc s of Wrote v \<Rightarrow> Some (s\<lparr>r_pc := Compared (r_revision s = v)\<rparr>) | _ \<Rightarrow> None)"
| "race_exec Finish s = (case r_pc s of Compared b \<Rightarrow> Some (s\<lparr>r_dirty := \<not> b, r_pc := PIdle\<rparr>) | _ \<Rightarrow> None)"

lemma race_step_exec: "race_step l s t \<longleftrightarrow> race_exec l s = Some t"
proof
  show "race_step l s t \<Longrightarrow> race_exec l s = Some t" by (erule race_stepE) auto
  show "race_exec l s = Some t \<Longrightarrow> race_step l s t"
    by (cases l) (auto intro: race_step.intros split: nat.splits persist_pc.splits)
qed

fun race_execs :: "'m access list \<Rightarrow> 'm race_state \<Rightarrow> 'm race_state option" where
  "race_execs [] s = Some s"
| "race_execs (l # ls) s = (case race_exec l s of None \<Rightarrow> None | Some t \<Rightarrow> race_execs ls t)"

fun calm_execs :: "'m access list \<Rightarrow> 'm race_state \<Rightarrow> bool" where
  "calm_execs [] s = True"
| "calm_execs (l # ls) s = (case race_exec l s of None \<Rightarrow> False | Some t \<Rightarrow> \<not> in_window l s \<and> calm_execs ls t)"

lemma calm_execs_run: "race_execs ls t = Some u \<Longrightarrow> calm_execs ls t \<Longrightarrow> calm_run s t \<Longrightarrow> calm_run s u"
  by (induction ls arbitrary: t) (auto split: option.splits dest: calm_step [OF _ race_step_exec [THEN iffD2]])

text \<open>A mutation by one thread, and a flush.\<close>

definition one_write :: "'m \<Rightarrow> 'm access list" where
  "one_write m = [Change m, Count, SetDirty]"

definition whole_flush :: "'m access list" where
  "whole_flush = [Begin, Copy, WriteFile, Compare, Finish]"

theorem clear_flag_means_durable_witness:
  "r_disk (the (race_execs (one_write True @ whole_flush) (race_start False))) = True"
proof -
  have "calm_run (race_start False) (the (race_execs (one_write True @ whole_flush) (race_start False)))"
    by (rule calm_execs_run [of "one_write True @ whole_flush" "race_start False", OF _ _ calm_nil])
      (simp_all add: one_write_def whole_flush_def race_start_def in_window_def)
  from clear_flag_means_durable [OF this] show ?thesis
    by (simp add: one_write_def whole_flush_def race_start_def settled_def)
qed

text \<open>
  The window is real: a write that falls into it is forgotten. The flag ends clear, no mutation is
  under way, and the disk has the old map, so that neither a later flush nor the drop writes it.
\<close>

definition lost_write :: "'m \<Rightarrow> 'm \<Rightarrow> 'm access list" where
  "lost_write m m' = one_write m @ [Begin, Copy, WriteFile, Compare] @ one_write m' @ [Finish]"

lemma racing_write_forgotten:
  "\<exists>s. race_execs (lost_write m m') (race_start m0) = Some s \<and>
    \<not> r_dirty s \<and> settled s \<and> r_pc s = PIdle \<and> r_disk s = m \<and> r_data s = m'"
  by (simp add: lost_write_def one_write_def race_start_def settled_def)

end
