(* ===== verification/Notification.thy ===== *)
theory Notification
  imports Store_Kv Prelude
begin

text \<open>
  \<open>crates/athena-core/src/notification.rs\<close>: the notification history, a client of the
  key-value store. The service, the store it writes to and the disk under the store form one
  state; the events handed to the emitter are returned. \<open>now\<close> is the clock reading of the call.
\<close>

section \<open>Data\<close>

definition HISTORY_KEY :: string where
  "HISTORY_KEY = ''notifications.history''"

definition LEGACY_HISTORY_KEY :: string where
  "LEGACY_HISTORY_KEY = ''notifications:history''"

datatype notification_type = NInfo | NWarning | NError | NSuccess | NNeedsInput | NTaskComplete | NTaskError

record notification_action =
  na_id :: string
  na_label :: string

record 'v notification_event =
  e_type :: notification_type
  e_title :: string
  e_message :: string
  e_source :: string
  e_agent_id :: "string option"
  e_data :: "'v option"
  e_timestamp :: u64
  e_metadata :: "'v option"
  e_actions :: "notification_action list option"
  e_request_id :: "string option"
  e_event_key :: "string option"
  e_run_id :: "string option"
  e_pane_id :: "string option"
  e_requires_action :: bool

record 'v notification_record =
  n_id :: bytes
  n_type :: notification_type
  n_title :: string
  n_message :: string
  n_source :: string
  n_agent_id :: "string option"
  n_data :: "'v option"
  n_timestamp :: u64
  n_metadata :: "'v option"
  n_actions :: "notification_action list option"
  n_request_id :: "string option"
  n_event_key :: "string option"
  n_run_id :: "string option"
  n_pane_id :: "string option"
  n_requires_action :: bool
  n_resolved_at :: "u64 option"
  n_read :: bool
  n_dismissed_at :: "u64 option"

record history_options =
  ho_limit :: "nat option"
  ho_unread_only :: "bool option"
  ho_type :: "notification_type option"
  ho_source :: "string option"

record notification_type_counts =
  tc_info :: nat
  tc_warning :: nat
  tc_error :: nat
  tc_success :: nat
  tc_needs_input :: nat
  tc_task_complete :: nat
  tc_task_error :: nat

record notification_counts =
  nc_total :: nat
  nc_unread :: nat
  nc_by_type :: notification_type_counts

definition MAX_HISTORY :: nat where
  "MAX_HISTORY = 500"

datatype notification_error = NotificationNotFound bytes

datatype 'v notification_emit =
    EmitNew "'v notification_record"
  | EmitRead bytes
  | EmitAllRead
  | EmitResolved bytes u64
  | EmitDismissed bytes
  | EmitCleared

record 'v notification_service =
  ns_history :: "'v notification_record list"
  ns_counter :: u64
  ns_store :: "'v kv_store option"
  ns_disk :: disk

text \<open>The conversions of the history by \<open>serde_json\<close>, and the circumstances of a write.\<close>

record 'v notification_codec =
  co_to_value :: "'v notification_record list \<Rightarrow> 'v option"
  co_from_value :: "'v \<Rightarrow> 'v notification_record list option"
  co_to_string :: "(string \<rightharpoonup> 'v) \<Rightarrow> bytes option"
  co_io :: io_env

section \<open>Construction and persistence\<close>

definition load_history :: "'v notification_codec \<Rightarrow> string \<Rightarrow> 'v kv_store \<Rightarrow> 'v notification_record list option" where
  "load_history co key s = (case kv_get (co_from_value co) key s of Inr value \<Rightarrow> value | Inl e \<Rightarrow> None)"

definition with_store ::
  "'v notification_codec \<Rightarrow> 'v kv_store option \<Rightarrow> u64 \<Rightarrow> disk \<Rightarrow> 'v notification_service" where
  "with_store co store counter fs =
    (let history = (case store of
           None \<Rightarrow> None
         | Some s \<Rightarrow>
             (case load_history co HISTORY_KEY s of
                Some h \<Rightarrow> Some h
              | None \<Rightarrow> load_history co LEGACY_HISTORY_KEY s))
     in \<lparr>ns_history = (case history of Some h \<Rightarrow> h | None \<Rightarrow> []), ns_counter = counter,
         ns_store = store, ns_disk = fs\<rparr>)"

definition persist_history :: "'v notification_codec \<Rightarrow> 'v notification_service \<Rightarrow> 'v notification_service" where
  "persist_history co sv =
    (case ns_store sv of
       None \<Rightarrow> sv
     | Some s \<Rightarrow>
         (case kv_set_deferred (co_to_value co) HISTORY_KEY (ns_history sv) s of
            (s', Inl e) \<Rightarrow> sv\<lparr>ns_store := Some s'\<rparr>
          | (s', Inr u) \<Rightarrow>
              if kv_has LEGACY_HISTORY_KEY s' then
                (case kv_delete_sync (co_to_string co) (co_io co) [] LEGACY_HISTORY_KEY s' (ns_disk sv) of
                   (s'', fs', r) \<Rightarrow> sv\<lparr>ns_store := Some s'', ns_disk := fs'\<rparr>)
              else sv\<lparr>ns_store := Some s'\<rparr>))"

definition generate_id :: "u64 \<Rightarrow> u64 \<Rightarrow> bytes" where
  "generate_id now n = bytes_of ''notif-'' @ dec (unat now) @ bytes_of ''-'' @ dec (unat n)"

section \<open>Pushing\<close>

definition record_of :: "bytes \<Rightarrow> 'v notification_event \<Rightarrow> 'v notification_record" where
  "record_of i ev =
    \<lparr>n_id = i, n_type = e_type ev, n_title = e_title ev, n_message = e_message ev, n_source = e_source ev,
     n_agent_id = e_agent_id ev, n_data = e_data ev, n_timestamp = e_timestamp ev, n_metadata = e_metadata ev,
     n_actions = e_actions ev, n_request_id = e_request_id ev, n_event_key = e_event_key ev, n_run_id = e_run_id ev,
     n_pane_id = e_pane_id ev, n_requires_action = e_requires_action ev, n_resolved_at = None, n_read = False,
     n_dismissed_at = None\<rparr>"

definition active_with_key :: "string \<Rightarrow> 'v notification_record \<Rightarrow> bool" where
  "active_with_key event_key n \<longleftrightarrow>
    n_event_key n = Some event_key \<and> n_resolved_at n = None \<and> n_dismissed_at n = None"

definition existing_event :: "'v notification_record \<Rightarrow> 'v notification_record list \<Rightarrow> 'v notification_record option" where
  "existing_event r history =
    (case n_event_key r of None \<Rightarrow> None | Some event_key \<Rightarrow> find (active_with_key event_key) history)"

definition pane_attention_only :: "'v notification_record \<Rightarrow> bool" where
  "pane_attention_only r \<longleftrightarrow>
    n_pane_id r \<noteq> None \<and> n_type r \<in> {NNeedsInput, NTaskComplete, NTaskError, NError, NSuccess}"

definition push_history :: "'v notification_record \<Rightarrow> 'v notification_record list \<Rightarrow> 'v notification_record list" where
  "push_history r history =
    (let h = history @ [r] in if MAX_HISTORY < length h then drop (length h - MAX_HISTORY) h else h)"

definition push_notification ::
  "'v notification_codec \<Rightarrow> u64 \<Rightarrow> 'v notification_event \<Rightarrow> 'v notification_service \<Rightarrow>
    'v notification_service \<times> 'v notification_record \<times> 'v notification_emit list" where
  "push_notification co now event sv =
    (let r = record_of (generate_id now (ns_counter sv)) event;
         sv1 = sv\<lparr>ns_counter := ns_counter sv + 1\<rparr>
     in case existing_event r (ns_history sv1) of
          Some existing \<Rightarrow> (sv1, existing, [])
        | None \<Rightarrow>
            if pane_attention_only r then (sv1, r, [])
            else (persist_history co (sv1\<lparr>ns_history := push_history r (ns_history sv1)\<rparr>), r, [EmitNew r]))"

definition notify ::
  "'v notification_codec \<Rightarrow> u64 \<Rightarrow> notification_type \<Rightarrow> string \<Rightarrow> string \<Rightarrow> 'v notification_service \<Rightarrow>
    'v notification_service \<times> 'v notification_record \<times> 'v notification_emit list" where
  "notify co now ntype title message sv =
    push_notification co now
      \<lparr>e_type = ntype, e_title = title, e_message = message, e_source = ''backend'', e_agent_id = None,
       e_data = None, e_timestamp = now, e_metadata = None, e_actions = None, e_request_id = None,
       e_event_key = None, e_run_id = None, e_pane_id = None, e_requires_action = False\<rparr> sv"

section \<open>Reading\<close>

definition history_filter :: "history_options option \<Rightarrow> 'v notification_record \<Rightarrow> bool" where
  "history_filter options n \<longleftrightarrow>
    (case options of
       None \<Rightarrow> True
     | Some h \<Rightarrow>
         (ho_unread_only h \<noteq> Some True \<or> \<not> n_read n) \<and>
         (case ho_type h of None \<Rightarrow> True | Some t \<Rightarrow> n_type n = t) \<and>
         (case ho_source h of None \<Rightarrow> True | Some s \<Rightarrow> n_source n = s))"

definition get_history :: "history_options option \<Rightarrow> 'v notification_service \<Rightarrow> 'v notification_record list" where
  "get_history options sv =
    (let hits = filter (history_filter options) (rev (ns_history sv))
     in case Option.bind options ho_limit of Some k \<Rightarrow> take k hits | None \<Rightarrow> hits)"

definition get_all_history :: "'v notification_service \<Rightarrow> 'v notification_record list" where
  "get_all_history sv = get_history None sv"

definition get_unread_count :: "'v notification_service \<Rightarrow> nat" where
  "get_unread_count sv = length (filter (\<lambda>n. \<not> n_read n) (ns_history sv))"

fun count_type :: "notification_type \<Rightarrow> notification_type_counts \<Rightarrow> notification_type_counts" where
  "count_type NInfo c = c\<lparr>tc_info := tc_info c + 1\<rparr>"
| "count_type NWarning c = c\<lparr>tc_warning := tc_warning c + 1\<rparr>"
| "count_type NError c = c\<lparr>tc_error := tc_error c + 1\<rparr>"
| "count_type NSuccess c = c\<lparr>tc_success := tc_success c + 1\<rparr>"
| "count_type NNeedsInput c = c\<lparr>tc_needs_input := tc_needs_input c + 1\<rparr>"
| "count_type NTaskComplete c = c\<lparr>tc_task_complete := tc_task_complete c + 1\<rparr>"
| "count_type NTaskError c = c\<lparr>tc_task_error := tc_task_error c + 1\<rparr>"

definition get_counts :: "'v notification_service \<Rightarrow> notification_counts" where
  "get_counts sv =
    (let zero = \<lparr>tc_info = 0, tc_warning = 0, tc_error = 0, tc_success = 0, tc_needs_input = 0,
                 tc_task_complete = 0, tc_task_error = 0\<rparr>;
         (unread, by_type) = fold (\<lambda>n (u, c). (if \<not> n_read n then u + 1 else u, count_type (n_type n) c))
           (ns_history sv) (0, zero)
     in \<lparr>nc_total = length (ns_history sv), nc_unread = unread, nc_by_type = by_type\<rparr>)"

section \<open>Changing records\<close>

definition has_id :: "bytes \<Rightarrow> 'v notification_record \<Rightarrow> bool" where
  "has_id i n \<longleftrightarrow> n_id n = i"

definition mark_read ::
  "'v notification_codec \<Rightarrow> bytes \<Rightarrow> 'v notification_service \<Rightarrow>
    'v notification_service \<times> (notification_error + bool) \<times> 'v notification_emit list" where
  "mark_read co i sv =
    (if find (has_id i) (ns_history sv) = None then (sv, Inl (NotificationNotFound i), [])
     else (persist_history co (sv\<lparr>ns_history := update_first (has_id i) (\<lambda>n. n\<lparr>n_read := True\<rparr>) (ns_history sv)\<rparr>),
           Inr True, [EmitRead i]))"

definition mark_all_read ::
  "'v notification_codec \<Rightarrow> 'v notification_service \<Rightarrow> 'v notification_service \<times> nat \<times> 'v notification_emit list" where
  "mark_all_read co sv =
    (let count = length (filter (\<lambda>n. \<not> n_read n) (ns_history sv));
         sv1 = sv\<lparr>ns_history := map (\<lambda>n. if \<not> n_read n then n\<lparr>n_read := True\<rparr> else n) (ns_history sv)\<rparr>
     in if 0 < count then (persist_history co sv1, count, [EmitAllRead]) else (sv1, count, []))"

definition resolve_notification ::
  "'v notification_codec \<Rightarrow> u64 \<Rightarrow> bytes \<Rightarrow> 'v notification_service \<Rightarrow>
    'v notification_service \<times> (notification_error + bool) \<times> 'v notification_emit list" where
  "resolve_notification co now i sv =
    (if find (has_id i) (ns_history sv) = None then (sv, Inl (NotificationNotFound i), [])
     else (persist_history co (sv\<lparr>ns_history :=
             update_first (has_id i) (\<lambda>n. n\<lparr>n_resolved_at := Some now, n_read := True\<rparr>) (ns_history sv)\<rparr>),
           Inr True, [EmitResolved i now]))"

definition dismiss ::
  "'v notification_codec \<Rightarrow> bytes \<Rightarrow> 'v notification_service \<Rightarrow>
    'v notification_service \<times> (notification_error + bool) \<times> 'v notification_emit list" where
  "dismiss co i sv =
    (case position (has_id i) (ns_history sv) of
       None \<Rightarrow> (sv, Inl (NotificationNotFound i), [])
     | Some idx \<Rightarrow>
         (persist_history co (sv\<lparr>ns_history := take idx (ns_history sv) @ drop (Suc idx) (ns_history sv)\<rparr>),
          Inr True, [EmitDismissed i]))"

definition clear_all ::
  "'v notification_codec \<Rightarrow> 'v notification_service \<Rightarrow> 'v notification_service \<times> nat \<times> 'v notification_emit list" where
  "clear_all co sv =
    (let count = length (ns_history sv);
         sv1 = sv\<lparr>ns_history := []\<rparr>
     in if 0 < count then (persist_history co sv1, count, [EmitCleared]) else (sv1, count, []))"

end
