(* ===== verification/Notification_Props.thy ===== *)
theory Notification_Props
  imports Notification
begin

text \<open>
  What the notification service promises: a bounded history with unique identifiers and one live
  record per event key, honest answers about identifiers it does not know, counts that add up, and
  a history that survives a restart through the store.
\<close>

section \<open>The history as a bounded log\<close>

lemma push_history_log:
  "length h \<le> MAX_HISTORY \<Longrightarrow> push_history r h = (if length h = MAX_HISTORY then tl h else h) @ [r]"
proof (cases "length h = MAX_HISTORY")
  case True
  then have "push_history r h = drop 1 (h @ [r])" by (simp add: push_history_def Let_def)
  moreover have "h \<noteq> []" using True by (auto simp: MAX_HISTORY_def)
  ultimately show ?thesis using True by (cases h) simp_all
qed (auto simp: push_history_def Let_def)

interpretation history_log: bounded_log push_history "\<lambda>h. h" MAX_HISTORY
  by unfold_locales (simp_all add: push_history_log, simp add: MAX_HISTORY_def)

lemma set_push_history: "set (push_history r h) \<subseteq> insert r (set h)"
  by (auto simp: push_history_def Let_def dest: in_set_dropD)

lemma push_history_drop: "\<exists>k. push_history r h = drop k (h @ [r])"
proof (cases "MAX_HISTORY < length (h @ [r])")
  case True
  then show ?thesis unfolding push_history_def Let_def by (intro exI [of _ "length (h @ [r]) - MAX_HISTORY"]) simp
next
  case False
  then show ?thesis unfolding push_history_def Let_def by (intro exI [of _ 0]) simp
qed

section \<open>Persistence does not touch the history\<close>

lemma persist_history_fields [simp]:
  "ns_history (persist_history co sv) = ns_history sv" "ns_counter (persist_history co sv) = ns_counter sv"
  by (auto simp: persist_history_def split: option.split prod.split sum.split)

lemma persist_snapshot_data: "kv_data (fst (persist_snapshot ts env [] s fs)) = kv_data s"
  by (auto simp: persist_snapshot_def Let_def split: option.split prod.split)

lemma kv_delete_sync_data: "kv_data (fst (kv_delete_sync ts env [] k s fs)) = (kv_data s)(k := None)"
  by (simp add: kv_delete_sync_def mutate_sync_def Let_def persist_snapshot_locked_def persist_snapshot_data)

lemma history_keys_differ [simp]: "HISTORY_KEY \<noteq> LEGACY_HISTORY_KEY" "LEGACY_HISTORY_KEY \<noteq> HISTORY_KEY"
  by (simp_all add: HISTORY_KEY_def LEGACY_HISTORY_KEY_def)

lemma persist_history_data:
  assumes "ns_store sv = Some s" "co_to_value co (ns_history sv) = Some v"
  shows "\<exists>s'. ns_store (persist_history co sv) = Some s' \<and> kv_data s' = (kv_data s)(HISTORY_KEY \<mapsto> v, LEGACY_HISTORY_KEY := None)"
proof (cases "kv_has LEGACY_HISTORY_KEY (kv_put HISTORY_KEY v s)")
  case True
  then show ?thesis
    using assms kv_delete_sync_data [of "co_to_string co" "co_io co" LEGACY_HISTORY_KEY "kv_put HISTORY_KEY v s" "ns_disk sv"]
    by (auto simp: persist_history_def kv_set_deferred_def split: prod.split)
next
  case False
  then show ?thesis
    using assms by (auto simp: persist_history_def kv_set_deferred_def kv_has_def fun_upd_idem)
qed

section \<open>Identifiers\<close>

lemma dec_no_dash: "b \<in> set (dec n) \<Longrightarrow> b \<noteq> byte CHR ''-''"
  using dec_digits [of n] by (force simp: list_all_iff is_digit_def in_range_def)

lemma generate_id_counter: "generate_id t k = generate_id t' k' \<Longrightarrow> k = k'"
proof -
  assume eq: "generate_id t k = generate_id t' k'"
  have tail: "takeWhile (\<lambda>b. b \<noteq> byte CHR ''-'') (rev (generate_id t k)) = rev (dec (unat k))" for t k
  proof -
    have "rev (generate_id t k) = rev (dec (unat k)) @ byte CHR ''-'' # rev (bytes_of ''notif-'' @ dec (unat t))"
      by (simp add: generate_id_def bytes_of_def)
    moreover have "takeWhile (\<lambda>b. b \<noteq> byte CHR ''-'') (rev (dec (unat k)) @ byte CHR ''-'' # xs) = rev (dec (unat k))" for xs
      using dec_no_dash by (subst takeWhile_append2) auto
    ultimately show ?thesis by (simp only:)
  qed
  have "dec (unat k) = dec (unat k')" using tail [of t k] tail [of t' k'] eq by (metis rev_is_rev_conv)
  then have "unat k = unat k'" by (metis digits_value_dec)
  then show "k = k'" by (simp add: word_unat_eq_iff)
qed

section \<open>The invariant of an in-memory service\<close>

datatype 'v notification_call =
    CallPush u64 "'v notification_event"
  | CallRead bytes
  | CallReadAll
  | CallResolve u64 bytes
  | CallDismiss bytes
  | CallClear

fun ns_apply :: "'v notification_codec \<Rightarrow> 'v notification_call \<Rightarrow> 'v notification_service \<Rightarrow> 'v notification_service" where
  "ns_apply co (CallPush now ev) sv = fst (push_notification co now ev sv)"
| "ns_apply co (CallRead i) sv = fst (mark_read co i sv)"
| "ns_apply co CallReadAll sv = fst (mark_all_read co sv)"
| "ns_apply co (CallResolve now i) sv = fst (resolve_notification co now i sv)"
| "ns_apply co (CallDismiss i) sv = fst (dismiss co i sv)"
| "ns_apply co CallClear sv = fst (clear_all co sv)"

definition live :: "string \<Rightarrow> 'v notification_record list \<Rightarrow> nat" where
  "live key h = length (filter (active_with_key key) h)"

definition ids_below :: "nat \<Rightarrow> 'v notification_record list \<Rightarrow> bool" where
  "ids_below k h \<longleftrightarrow> distinct (map n_id h) \<and> (\<forall>n\<in>set h. \<exists>t c. n_id n = generate_id t c \<and> unat c < k)"

definition ns_inv :: "nat \<Rightarrow> 'v notification_service \<Rightarrow> bool" where
  "ns_inv k sv \<longleftrightarrow> length (ns_history sv) \<le> MAX_HISTORY \<and> ns_counter sv = of_nat k \<and>
    ids_below k (ns_history sv) \<and> (\<forall>key. live key (ns_history sv) \<le> 1)"

lemma live_drop: "live key (drop k h) \<le> live key h"
  unfolding live_def by (metis append_take_drop_id filter_append le_add2 length_append)

lemma ids_below_drop: "ids_below k h \<Longrightarrow> ids_below k (drop j h)"
  by (auto simp: ids_below_def drop_map [symmetric] dest: in_set_dropD)

lemma ids_below_mono: "ids_below k h \<Longrightarrow> k \<le> k' \<Longrightarrow> ids_below k' h"
  unfolding ids_below_def by (meson order_less_le_trans)

lemma ids_below_snoc:
  assumes "ids_below k h" "k < 2 ^ 64"
  shows "ids_below (Suc k) (h @ [record_of (generate_id t (of_nat k)) ev])"
proof -
  have k: "unat (of_nat k :: u64) = k" using assms(2) by (simp add: unat_of_nat take_bit_nat_eq_self)
  have "n_id n \<noteq> generate_id t (of_nat k)" if "n \<in> set h" for n
    using assms(1) that k generate_id_counter by (fastforce simp: ids_below_def)
  then show ?thesis
    using ids_below_mono [OF assms(1), of "Suc k"] k by (fastforce simp: ids_below_def record_of_def)
qed

text \<open>Changing records in place without their identifiers, and without making one live.\<close>

lemma update_first_ids:
  assumes "\<And>n. n_id (f n) = n_id n"
  shows "map n_id (update_first P f h) = map n_id h"
    and "ids_below k h \<Longrightarrow> ids_below k (update_first P f h)"
proof -
  show m: "map n_id (update_first P f h) = map n_id h" by (rule map_update_first) (rule assms)
  assume "ids_below k h"
  then show "ids_below k (update_first P f h)"
    unfolding ids_below_def m by (metis image_eqI image_iff list.set_map m)
qed

lemma live_update_first:
  assumes "\<And>key n. active_with_key key (f n) \<Longrightarrow> active_with_key key n"
  shows "live key (update_first P f h) \<le> live key h"
proof (induction h)
  case (Cons n h)
  then show ?case using assms [of key n] by (auto simp: live_def)
qed (simp add: live_def)

lemma live_existing:
  assumes "existing_event r h = None"
  shows "n_event_key r = Some key \<Longrightarrow> live key h = 0"
  using assms by (auto simp: existing_event_def live_def find_None_iff filter_empty_conv)

lemma ns_inv_push:
  assumes "ns_inv k sv" "k < 2 ^ 64"
  shows "ns_inv (Suc k) (fst (push_notification co now ev sv))"
proof -
  let ?r = "record_of (generate_id now (ns_counter sv)) ev"
  have c: "ns_counter sv = of_nat k" using assms(1) by (simp add: ns_inv_def)
  have c1: "ns_counter sv + 1 = of_nat (Suc k)" using c by simp
  have keep: "ns_inv (Suc k) (sv\<lparr>ns_counter := ns_counter sv + 1\<rparr>)"
    using assms(1) ids_below_mono [of k _ "Suc k"] by (auto simp: ns_inv_def c1)
  show ?thesis
  proof (cases "existing_event ?r (ns_history sv) = None \<and> \<not> pane_attention_only ?r")
    case True
    obtain j where j: "push_history ?r (ns_history sv) = drop j (ns_history sv @ [?r])"
      using push_history_drop by blast
    have "live key (drop j (ns_history sv @ [?r])) \<le> 1" for key
    proof -
      have "live key (ns_history sv @ [?r]) \<le> 1"
        using assms(1) True live_existing [of ?r "ns_history sv" key]
        by (auto simp: ns_inv_def live_def active_with_key_def)
      then show ?thesis using live_drop le_trans by blast
    qed
    moreover have "ids_below (Suc k) (drop j (ns_history sv @ [?r]))"
      using ids_below_snoc [of k "ns_history sv" now ev] assms c by (intro ids_below_drop) (simp add: ns_inv_def)
    moreover have "length (drop j (ns_history sv @ [?r])) \<le> MAX_HISTORY"
      using history_log.push_bound [of "ns_history sv" ?r] assms(1) j by (simp add: ns_inv_def)
    ultimately show ?thesis
      using True j by (simp add: push_notification_def Let_def ns_inv_def c)
  next
    case False
    then have "fst (push_notification co now ev sv) = sv\<lparr>ns_counter := ns_counter sv + 1\<rparr>"
      by (auto simp: push_notification_def Let_def split: option.split)
    then show ?thesis using keep by simp
  qed
qed

lemma ns_inv_history:
  assumes "ns_inv k sv" "length h \<le> length (ns_history sv)" "ids_below k h" "\<And>key. live key h \<le> live key (ns_history sv)"
  shows "ns_inv k (sv\<lparr>ns_history := h\<rparr>)" "ns_inv k (persist_history co (sv\<lparr>ns_history := h\<rparr>))"
proof -
  have "live key h \<le> 1" for key using assms(1,4) le_trans unfolding ns_inv_def by blast
  then show "ns_inv k (sv\<lparr>ns_history := h\<rparr>)" using assms by (auto simp: ns_inv_def)
  then show "ns_inv k (persist_history co (sv\<lparr>ns_history := h\<rparr>))" by (simp add: ns_inv_def)
qed

lemma ids_below_update: "ids_below k h \<Longrightarrow> (\<And>n. n_id (f n) = n_id n) \<Longrightarrow> ids_below k (map f h)"
  by (auto simp: ids_below_def o_def)

lemma ids_below_delete:
  assumes "i < length h" "ids_below k h"
  shows "ids_below k (take i h @ drop (Suc i) h)"
proof -
  have "ids_below k (take i h @ h ! i # drop (Suc i) h)" using assms by (simp add: id_take_nth_drop [symmetric])
  then show ?thesis by (auto simp: ids_below_def)
qed

lemma live_delete:
  assumes "i < length h"
  shows "live key (take i h @ drop (Suc i) h) \<le> live key h"
proof -
  have "live key h = live key (take i h @ h ! i # drop (Suc i) h)" using assms by (simp add: id_take_nth_drop [symmetric])
  then show ?thesis by (simp add: live_def)
qed

lemma live_map_read: "live key (map (\<lambda>n. if \<not> n_read n then n\<lparr>n_read := True\<rparr> else n) h) = live key h"
  by (induction h) (auto simp: live_def active_with_key_def)

lemma ns_inv_apply:
  assumes "ns_inv k sv" "k < 2 ^ 64"
  shows "\<exists>j\<le>Suc k. ns_inv j (ns_apply co c sv)"
proof (cases c)
  case (CallPush now ev)
  then show ?thesis using ns_inv_push [OF assms] by auto
next
  case (CallRead i)
  have "ns_inv k (persist_history co (sv\<lparr>ns_history := update_first (has_id i) (\<lambda>n. n\<lparr>n_read := True\<rparr>) (ns_history sv)\<rparr>))"
    by (rule ns_inv_history [OF assms(1)])
      (use assms(1) in \<open>auto simp: ns_inv_def active_with_key_def intro!: update_first_ids(2) live_update_first\<close>)
  then show ?thesis using assms(1) CallRead by (auto simp: mark_read_def intro!: exI [of _ k])
next
  case CallReadAll
  have "ids_below k (map (\<lambda>n. if \<not> n_read n then n\<lparr>n_read := True\<rparr> else n) (ns_history sv))"
    using assms(1) by (intro ids_below_update) (auto simp: ns_inv_def)
  then show ?thesis
    using ns_inv_history [OF assms(1), where h = "map (\<lambda>n. if \<not> n_read n then n\<lparr>n_read := True\<rparr> else n) (ns_history sv)"] CallReadAll
    by (auto simp: mark_all_read_def Let_def live_map_read intro!: exI [of _ k])
next
  case (CallResolve now i)
  have "ns_inv k (persist_history co (sv\<lparr>ns_history :=
      update_first (has_id i) (\<lambda>n. n\<lparr>n_resolved_at := Some now, n_read := True\<rparr>) (ns_history sv)\<rparr>))"
    by (rule ns_inv_history [OF assms(1)])
      (use assms(1) in \<open>auto simp: ns_inv_def active_with_key_def intro!: update_first_ids(2) live_update_first\<close>)
  then show ?thesis using assms(1) CallResolve by (auto simp: resolve_notification_def intro!: exI [of _ k])
next
  case (CallDismiss i)
  have "ns_inv k (persist_history co (sv\<lparr>ns_history := take j (ns_history sv) @ drop (Suc j) (ns_history sv)\<rparr>))"
    if "position (has_id i) (ns_history sv) = Some j" for j
    using that assms(1) by (intro ns_inv_history) (auto simp: position_Some ns_inv_def intro!: ids_below_delete live_delete)
  then show ?thesis
    using assms(1) CallDismiss by (auto simp: dismiss_def intro!: exI [of _ k] split: option.split)
next
  case CallClear
  have "ns_inv k (sv\<lparr>ns_history := []\<rparr>)" "ns_inv k (persist_history co (sv\<lparr>ns_history := []\<rparr>))"
    using ns_inv_history [OF assms(1), where h = "[]"] by (simp_all add: ids_below_def live_def)
  then show ?thesis using CallClear by (auto simp: clear_all_def Let_def intro!: exI [of _ k])
qed

lemma ns_inv_run:
  "ns_inv k sv \<Longrightarrow> k + length cs < 2 ^ 64 \<Longrightarrow> \<exists>j\<le>k + length cs. ns_inv j (fold (ns_apply co) cs sv)"
proof (induction cs arbitrary: k sv)
  case (Cons c cs)
  obtain j where j: "j \<le> Suc k" "ns_inv j (ns_apply co c sv)"
    using ns_inv_apply [OF Cons.prems(1)] Cons.prems(2) by fastforce
  have "j + length cs < 2 ^ 64" using j(1) Cons.prems(2) by simp
  then obtain i where "i \<le> j + length cs" "ns_inv i (fold (ns_apply co) cs (ns_apply co c sv))"
    using Cons.IH [OF j(2)] by blast
  then show ?case using j(1) by (intro exI [of _ i]) simp
qed auto

section \<open>Properties\<close>

text \<open>
  Starting from an empty service, after any sequence of fewer than \<open>2 ^ 64\<close> calls the history has
  at most 500 records, their identifiers are pairwise different, and for every event key at most
  one record is neither resolved nor dismissed.
\<close>

theorem notification_history_invariant:
  assumes "length cs < 2 ^ 64" and "sv = fold (ns_apply co) cs (with_store co None 0 fs)"
  shows "length (ns_history sv) \<le> 500 \<and> distinct (map n_id (ns_history sv)) \<and>
    (\<forall>key. length (filter (active_with_key key) (ns_history sv)) \<le> 1)"
proof -
  have "ns_inv 0 (with_store co None 0 fs)"
    by (simp add: ns_inv_def with_store_def ids_below_def live_def)
  from ns_inv_run [OF this, of cs co] assms show ?thesis
    by (auto simp: ns_inv_def ids_below_def live_def MAX_HISTORY_def)
qed

definition demo_event :: "notification_type \<Rightarrow> unit notification_event" where
  "demo_event t =
    \<lparr>e_type = t, e_title = ''t'', e_message = ''m'', e_source = ''s'', e_agent_id = None, e_data = None,
     e_timestamp = 0, e_metadata = None, e_actions = None, e_request_id = None, e_event_key = Some ''k'',
     e_run_id = None, e_pane_id = None, e_requires_action = True\<rparr>"

definition demo_codec :: "unit notification_codec" where
  "demo_codec =
    \<lparr>co_to_value = (\<lambda>h. None), co_from_value = (\<lambda>v. None), co_to_string = (\<lambda>m. None),
     co_io = \<lparr>io_uuid = [], io_fault = None, io_cleanup = True\<rparr>\<rparr>"

theorem notification_history_invariant_witness:
  "length (ns_history (fold (ns_apply demo_codec) [CallPush 5 (demo_event NInfo), CallReadAll]
    (with_store demo_codec None 0 disk_empty))) \<le> 500"
  using notification_history_invariant [of "[CallPush 5 (demo_event NInfo), CallReadAll]"] by simp

text \<open>
  Repeated transport events are idempotent. After an event with a key has been recorded, pushing an
  event with the same key, whatever else it says, returns the recorded notification, emits nothing and
  leaves the history and the store alone, for as long as the first one is not resolved or dismissed.
\<close>

theorem repeated_event_idempotent:
  assumes "e_event_key ev = Some key" and "e_event_key ev' = Some key"
    and "push_notification co now ev sv = (sv1, r, [EmitNew r])"
  shows "push_notification co now' ev' sv1 = (sv1\<lparr>ns_counter := ns_counter sv1 + 1\<rparr>, r, [])"
proof -
  let ?r = "record_of (generate_id now (ns_counter sv)) ev"
  have none: "existing_event ?r (ns_history sv) = None" and r: "r = ?r"
    and sv1: "ns_history sv1 = push_history r (ns_history sv)"
    using assms(3) by (auto simp: push_notification_def Let_def split: option.splits if_splits)
  have old: "\<not> active_with_key key n" if "n \<in> set (ns_history sv)" for n
    using none assms(1) that by (auto simp: existing_event_def record_of_def find_None_iff)
  have act: "active_with_key key r" using assms(1) by (simp add: r record_of_def active_with_key_def)
  obtain k where k: "ns_history sv1 = drop k (ns_history sv @ [r])" using push_history_drop sv1 by metis
  have "r \<in> set (ns_history sv1)" using sv1 by (auto simp: push_history_def Let_def MAX_HISTORY_def)
  then have "k \<le> length (ns_history sv)" using k by (metis drop_all empty_iff length_append_singleton list.set(1) not_less_eq_eq)
  then have h: "ns_history sv1 = drop k (ns_history sv) @ [r]" using k by simp
  have "find (active_with_key key) (ns_history sv1) = Some r"
    unfolding h find_append using old act in_set_dropD [of _ k "ns_history sv"]
    by (subst find_None_all) auto
  then show ?thesis
    using assms(2) by (simp add: push_notification_def Let_def existing_event_def record_of_def)
qed

theorem repeated_event_idempotent_witness:
  "snd (snd (push_notification demo_codec 7 (demo_event NWarning)
    (fst (push_notification demo_codec 5 (demo_event NInfo) (with_store demo_codec None 0 disk_empty))))) = []"
proof -
  let ?s = "with_store demo_codec None 0 disk_empty"
  obtain sv1 r evs where p: "push_notification demo_codec 5 (demo_event NInfo) ?s = (sv1, r, evs)"
    using prod_cases3 by blast
  have "evs = [EmitNew r]"
    using p by (simp add: push_notification_def Let_def with_store_def existing_event_def pane_attention_only_def
        record_of_def demo_event_def) blast
  with p have p': "push_notification demo_codec 5 (demo_event NInfo) ?s = (sv1, r, [EmitNew r])" by simp
  have k: "e_event_key (demo_event NInfo) = Some ''k''" "e_event_key (demo_event NWarning) = Some ''k''"
    by (simp_all add: demo_event_def)
  show ?thesis using repeated_event_idempotent [OF k p'] p by simp
qed

lemma update_first_id:
  "distinct (map n_id h) \<Longrightarrow> update_first (has_id i) f h = map (\<lambda>n. if n_id n = i then f n else n) h"
proof (induction h)
  case (Cons n h)
  have "n_id x \<noteq> n_id n" if "x \<in> set h" for x using Cons.prems that by (auto simp: image_iff)
  then show ?case using Cons by (auto simp: has_id_def intro!: map_idI [symmetric])
qed simp

lemma delete_first_id:
  "distinct (map n_id h) \<Longrightarrow> position (has_id i) h = Some k \<Longrightarrow>
    take k h @ drop (Suc k) h = filter (\<lambda>n. n_id n \<noteq> i) h"
proof (induction h arbitrary: k)
  case (Cons n h)
  show ?case
  proof (cases "n_id n = i")
    case True
    have "filter (\<lambda>x. n_id x \<noteq> i) h = h" using Cons.prems(1) True by (auto simp: filter_id_conv image_iff)
    then show ?thesis using True Cons.prems(2) by (simp add: has_id_def)
  next
    case False
    then show ?thesis using Cons by (auto simp: has_id_def)
  qed
qed simp

text \<open>
  Operations by identifier. On an identifier that is not in the history \<open>mark_read\<close>,
  \<open>resolve\<close> and \<open>dismiss\<close> answer \<open>NotFound\<close>, change nothing and emit nothing. On one that
  is, with identifiers unique, exactly that record is marked read, resolved, or removed.
\<close>

theorem operations_by_id:
  assumes "distinct (map n_id (ns_history sv))"
  shows "if i \<in> n_id ` set (ns_history sv)
    then ns_history (fst (mark_read co i sv)) = map (\<lambda>n. if n_id n = i then n\<lparr>n_read := True\<rparr> else n) (ns_history sv) \<and>
      ns_history (fst (resolve_notification co now i sv)) =
        map (\<lambda>n. if n_id n = i then n\<lparr>n_resolved_at := Some now, n_read := True\<rparr> else n) (ns_history sv) \<and>
      ns_history (fst (dismiss co i sv)) = filter (\<lambda>n. n_id n \<noteq> i) (ns_history sv) \<and>
      fst (snd (mark_read co i sv)) = Inr True \<and> fst (snd (resolve_notification co now i sv)) = Inr True \<and>
      fst (snd (dismiss co i sv)) = Inr True
    else mark_read co i sv = (sv, Inl (NotificationNotFound i), []) \<and>
      resolve_notification co now i sv = (sv, Inl (NotificationNotFound i), []) \<and>
      dismiss co i sv = (sv, Inl (NotificationNotFound i), [])"
proof (cases "i \<in> n_id ` set (ns_history sv)")
  case True
  then have f: "find (has_id i) (ns_history sv) \<noteq> None" by (auto simp: find_None_iff has_id_def)
  obtain k where "position (has_id i) (ns_history sv) = Some k"
    using True by (cases "position (has_id i) (ns_history sv)") (auto simp: position_None has_id_def)
  then show ?thesis
    using True f delete_first_id [OF assms] update_first_id [OF assms]
    by (simp add: mark_read_def resolve_notification_def dismiss_def)
next
  case False
  then have "find (has_id i) (ns_history sv) = None" "position (has_id i) (ns_history sv) = None"
    by (auto simp: find_None_iff position_None has_id_def)
  then show ?thesis using False by (simp add: mark_read_def resolve_notification_def dismiss_def)
qed

theorem operations_by_id_witness:
  "mark_read demo_codec [1] (with_store demo_codec None 0 disk_empty) =
    (with_store demo_codec None 0 disk_empty, Inl (NotificationNotFound [1]), [])"
  using operations_by_id [of "with_store demo_codec None 0 disk_empty" "[1]" demo_codec] by (simp add: with_store_def)

definition type_total :: "notification_type_counts \<Rightarrow> nat" where
  "type_total c = tc_info c + tc_warning c + tc_error c + tc_success c + tc_needs_input c + tc_task_complete c + tc_task_error c"

lemma type_total_count: "type_total (count_type t c) = Suc (type_total c)"
  by (cases t) (simp_all add: type_total_def)

lemma count_fold:
  "fold (\<lambda>n (u, c). (if \<not> n_read n then u + 1 else u, count_type (n_type n) c)) h (u0, c0) = (u, c) \<Longrightarrow>
    u = u0 + length (filter (\<lambda>n. \<not> n_read n) h) \<and> type_total c = type_total c0 + length h"
  by (induction h arbitrary: u0 c0) (fastforce simp: type_total_count)+

lemma unread_filter:
  "history_filter (Some \<lparr>ho_limit = None, ho_unread_only = Some True, ho_type = None, ho_source = None\<rparr>) = (\<lambda>n. \<not> n_read n)"
  by (simp add: history_filter_def fun_eq_iff)

text \<open>
  The summary adds up: the counts per type sum to the total, the unread count is the one that
  \<open>get_unread_count\<close> and the unread-only history give, and \<open>mark_all_read\<close> returns it and leaves
  nothing unread.
\<close>

theorem notification_counts_consistent:
  "nc_total (get_counts sv) = length (get_all_history sv) \<and>
   type_total (nc_by_type (get_counts sv)) = nc_total (get_counts sv) \<and>
   nc_unread (get_counts sv) = get_unread_count sv \<and>
   get_unread_count sv = length (get_history
     (Some \<lparr>ho_limit = None, ho_unread_only = Some True, ho_type = None, ho_source = None\<rparr>) sv) \<and>
   fst (snd (mark_all_read co sv)) = get_unread_count sv \<and>
   get_unread_count (fst (mark_all_read co sv)) = 0"
proof -
  let ?z = "\<lparr>tc_info = 0, tc_warning = 0, tc_error = 0, tc_success = 0, tc_needs_input = 0, tc_task_complete = 0, tc_task_error = 0\<rparr>"
  obtain u :: nat and c where uc: "fold (\<lambda>n (u, c). (if \<not> n_read n then u + 1 else u, count_type (n_type n) c))
      (ns_history sv) (0, ?z) = (u, c)" by fastforce
  have g: "get_counts sv = \<lparr>nc_total = length (ns_history sv), nc_unread = u, nc_by_type = c\<rparr>"
    unfolding get_counts_def Let_def uc by simp
  have "u = get_unread_count sv" "type_total c = length (ns_history sv)"
    using count_fold [OF uc] by (simp_all add: get_unread_count_def type_total_def)
  then show ?thesis
    by (auto simp: g unread_filter get_all_history_def get_history_def get_unread_count_def mark_all_read_def Let_def
        history_filter_def rev_filter [symmetric] filter_empty_conv)
qed

end
