(* ===== verification/Notification_Restart.thy ===== *)
theory Notification_Restart
  imports Notification_Props
begin

text \<open>
  The notification history across restarts, through the store, with a small JSON codec that shows
  that the assumed round trip can be had.
\<close>

section \<open>Restart\<close>

definition faithful_history :: "'v notification_codec \<Rightarrow> bool" where
  "faithful_history co \<longleftrightarrow> (\<forall>h. \<exists>v. co_to_value co h = Some v \<and> co_from_value co v = Some h)"

text \<open>The service agrees with what a restart over its store would load.\<close>

definition restart_ok :: "'v notification_codec \<Rightarrow> 'v notification_service \<Rightarrow> bool" where
  "restart_ok co sv \<longleftrightarrow> ns_store sv \<noteq> None \<and> ns_history (with_store co (ns_store sv) 0 disk_empty) = ns_history sv"

lemma restart_persisted:
  assumes "faithful_history co" "ns_store sv \<noteq> None"
  shows "restart_ok co (persist_history co sv)"
proof -
  obtain s v where s: "ns_store sv = Some s" "co_to_value co (ns_history sv) = Some v" "co_from_value co v = Some (ns_history sv)"
    using assms unfolding faithful_history_def by blast
  from persist_history_data [OF s(1,2)] obtain s' where
    "ns_store (persist_history co sv) = Some s'" "kv_data s' HISTORY_KEY = Some v" by auto
  then show ?thesis
    using s(3) by (simp add: restart_ok_def with_store_def load_history_def kv_get_def)
qed

lemma restart_unchanged:
  "restart_ok co sv \<Longrightarrow> ns_history sv' = ns_history sv \<Longrightarrow> ns_store sv' = ns_store sv \<Longrightarrow> restart_ok co sv'"
  by (simp add: restart_ok_def)

lemma mark_read_map_idem: "filter (\<lambda>n. \<not> n_read n) h = [] \<Longrightarrow> map (\<lambda>n. if \<not> n_read n then n\<lparr>n_read := True\<rparr> else n) h = h"
  by (auto simp: filter_empty_conv intro!: map_idI)

lemma restart_apply:
  assumes "faithful_history co" "restart_ok co sv"
  shows "restart_ok co (ns_apply co c sv)"
proof -
  have st: "ns_store sv \<noteq> None" using assms(2) by (simp add: restart_ok_def)
  have p: "restart_ok co (persist_history co (sv\<lparr>ns_history := h\<rparr>))"
      "restart_ok co (persist_history co (sv\<lparr>ns_counter := k, ns_history := h\<rparr>))" for h k
    using st by (auto intro!: restart_persisted [OF assms(1)])
  show ?thesis
    by (cases c)
      (use assms(2) p in \<open>auto simp: push_notification_def mark_read_def mark_all_read_def resolve_notification_def dismiss_def
        clear_all_def Let_def mark_read_map_idem split: option.split intro: restart_unchanged\<close>)
qed


section \<open>A codec\<close>

datatype json = JBool bool | JNum u64 | JInt int | JStr string | JBytes bytes | JArr "json list"

fun json_opt :: "('a \<Rightarrow> json) \<Rightarrow> 'a option \<Rightarrow> json" where
  "json_opt f None = JArr []"
| "json_opt f (Some x) = JArr [f x]"

fun un_opt :: "(json \<Rightarrow> 'a option) \<Rightarrow> json \<Rightarrow> 'a option option" where
  "un_opt g (JArr []) = Some None"
| "un_opt g (JArr [v]) = map_option Some (g v)"
| "un_opt g _ = None"

fun un_str :: "json \<Rightarrow> string option" where
  "un_str (JStr s) = Some s"
| "un_str _ = None"

fun un_num :: "json \<Rightarrow> u64 option" where
  "un_num (JNum s) = Some s"
| "un_num _ = None"

fun un_bool :: "json \<Rightarrow> bool option" where
  "un_bool (JBool s) = Some s"
| "un_bool _ = None"

fun un_bytes :: "json \<Rightarrow> bytes option" where
  "un_bytes (JBytes s) = Some s"
| "un_bytes _ = None"

fun un_list :: "(json \<Rightarrow> 'a option) \<Rightarrow> json \<Rightarrow> 'a list option" where
  "un_list g (JArr vs) = those (map g vs)"
| "un_list g _ = None"

fun json_type :: "notification_type \<Rightarrow> json" where
  "json_type NInfo = JStr ''info''"
| "json_type NWarning = JStr ''warning''"
| "json_type NError = JStr ''error''"
| "json_type NSuccess = JStr ''success''"
| "json_type NNeedsInput = JStr ''needs_input''"
| "json_type NTaskComplete = JStr ''task_complete''"
| "json_type NTaskError = JStr ''task_error''"

definition un_type :: "json \<Rightarrow> notification_type option" where
  "un_type v = find (\<lambda>t. json_type t = v) [NInfo, NWarning, NError, NSuccess, NNeedsInput, NTaskComplete, NTaskError]"

definition json_action :: "notification_action \<Rightarrow> json" where
  "json_action a = JArr [JStr (na_id a), JStr (na_label a)]"

fun un_action :: "json \<Rightarrow> notification_action option" where
  "un_action (JArr [i, l]) = do { i \<leftarrow> un_str i; l \<leftarrow> un_str l; Some \<lparr>na_id = i, na_label = l\<rparr> }"
| "un_action _ = None"

definition json_record :: "json notification_record \<Rightarrow> json" where
  "json_record n =
    JArr [JBytes (n_id n), json_type (n_type n), JStr (n_title n), JStr (n_message n), JStr (n_source n),
      json_opt JStr (n_agent_id n), json_opt id (n_data n), JNum (n_timestamp n), json_opt id (n_metadata n),
      json_opt (\<lambda>as. JArr (map json_action as)) (n_actions n), json_opt JStr (n_request_id n),
      json_opt JStr (n_event_key n), json_opt JStr (n_run_id n), json_opt JStr (n_pane_id n),
      JBool (n_requires_action n), json_opt JNum (n_resolved_at n), JBool (n_read n), json_opt JNum (n_dismissed_at n)]"

definition un_record :: "json \<Rightarrow> json notification_record option" where
  "un_record v =
    (case v of
       JArr [i, ty, ti, me, so, ag, da, ts, md, ac, rq, ek, ru, pa, ra, rs, rd, di] \<Rightarrow> do {
         i \<leftarrow> un_bytes i; ty \<leftarrow> un_type ty; ti \<leftarrow> un_str ti; me \<leftarrow> un_str me; so \<leftarrow> un_str so;
         ag \<leftarrow> un_opt un_str ag; da \<leftarrow> un_opt Some da; ts \<leftarrow> un_num ts; md \<leftarrow> un_opt Some md;
         ac \<leftarrow> un_opt (un_list un_action) ac; rq \<leftarrow> un_opt un_str rq; ek \<leftarrow> un_opt un_str ek;
         ru \<leftarrow> un_opt un_str ru; pa \<leftarrow> un_opt un_str pa; ra \<leftarrow> un_bool ra; rs \<leftarrow> un_opt un_num rs;
         rd \<leftarrow> un_bool rd; di \<leftarrow> un_opt un_num di;
         Some \<lparr>n_id = i, n_type = ty, n_title = ti, n_message = me, n_source = so, n_agent_id = ag, n_data = da,
           n_timestamp = ts, n_metadata = md, n_actions = ac, n_request_id = rq, n_event_key = ek, n_run_id = ru,
           n_pane_id = pa, n_requires_action = ra, n_resolved_at = rs, n_read = rd, n_dismissed_at = di\<rparr> }
     | _ \<Rightarrow> None)"

lemma un_opt_json: "(\<And>x. g (f x) = Some x) \<Longrightarrow> un_opt g (json_opt f y) = Some y"
  by (cases y) simp_all

lemma un_type_json: "un_type (json_type t) = Some t"
  by (cases t) (simp_all add: un_type_def)

lemma those_map: "(\<And>x. g (f x) = Some x) \<Longrightarrow> those (map g (map f xs)) = Some xs"
  by (induction xs) simp_all

lemma un_action_json: "un_action (json_action a) = Some a"
  by (simp add: json_action_def)

lemma un_actions_json: "un_list un_action (JArr (map json_action as)) = Some as"
  using those_map [of un_action json_action, OF un_action_json] by simp

lemma un_record_json: "un_record (json_record n) = Some n"
  by (simp add: json_record_def un_record_def un_opt_json un_type_json un_actions_json del: un_list.simps)

definition json_codec :: "json notification_codec" where
  "json_codec =
    \<lparr>co_to_value = (\<lambda>h. Some (JArr (map json_record h))), co_from_value = un_list un_record,
     co_to_string = (\<lambda>m. None), co_io = \<lparr>io_uuid = [], io_fault = None, io_cleanup = True\<rparr>\<rparr>"

lemma json_codec_faithful: "faithful_history json_codec"
  using those_map [of un_record json_record, OF un_record_json] by (simp add: faithful_history_def json_codec_def)


end
