(* ===== verification/Kanban.thy ===== *)
theory Kanban
  imports Store_Kv
begin

text \<open>
  \<open>crates/athena-core/src/kanban.rs\<close>: the task boards, one per workspace, kept in the
  key-value store under \<open>kanban.<workspace>\<close>. Each operation is a read-modify-write cycle under
  \<open>ops_lock\<close>, so it is one atomic step on the store. The conversions of \<open>serde_json\<close> are arguments.
\<close>

section \<open>Data\<close>

datatype kanban_error =
    KNotFound string
  | KStore store_error
  | KJson
  | KWorkspaceNotFound
  | KInvalidStatus string

datatype kanban_status = Todo | InProgress | InReview | Complete

record kanban_task =
  kt_id :: string
  kt_space_id :: string
  kt_title :: string
  kt_description :: "string option"
  kt_assigned_agent :: "string option"
  kt_status :: kanban_status
  kt_order :: nat
  kt_created_at :: int
  kt_plan_step_id :: "string option"

text \<open>
  \<open>str::to_lowercase\<close> on the ASCII range; a character outside it never lowers to a letter of
  one of the status words, so leaving it alone decides the same matches.
\<close>

definition lower_char :: "char \<Rightarrow> char" where
  "lower_char c = (if 65 \<le> (of_char c :: nat) \<and> (of_char c :: nat) \<le> 90 then char_of ((of_char c :: nat) + 32) else c)"

definition status_parse :: "string \<Rightarrow> kanban_error + kanban_status" where
  "status_parse s =
    (let l = map lower_char s in
     if l \<in> {''todo'', ''to do''} then Inr Todo
     else if l \<in> {''in_progress'', ''in progress'', ''inprogress''} then Inr InProgress
     else if l \<in> {''in_review'', ''in review'', ''inreview''} then Inr InReview
     else if l \<in> {''complete'', ''done'', ''completed''} then Inr Complete
     else Inl (KInvalidStatus s))"

text \<open>
  What the board asks of \<open>serde_json\<close>: whether a value is a string, the task list as a value, the
  task list from a value and from the text of the legacy format, an object from its text and
  the string under a key of it.
\<close>

record 'v kanban_codec =
  kc_as_string :: "'v \<Rightarrow> string option"
  kc_to_value :: "kanban_task list \<Rightarrow> 'v option"
  kc_from_value :: "'v \<Rightarrow> kanban_task list option"
  kc_from_str :: "string \<Rightarrow> kanban_task list option"
  kc_parse :: "string \<Rightarrow> 'v option"
  kc_field_str :: "string \<Rightarrow> 'v \<Rightarrow> string option"

section \<open>Operations\<close>

definition kanban_key :: "string \<Rightarrow> string" where
  "kanban_key workspace_id = ''kanban.'' @ workspace_id"

definition get_tasks :: "'v kanban_codec \<Rightarrow> string \<Rightarrow> 'v kv_store \<Rightarrow> kanban_error + kanban_task list" where
  "get_tasks kc workspace_id s =
    (case kv_get Some (kanban_key workspace_id) s of
       Inl e \<Rightarrow> Inl (KStore e)
     | Inr None \<Rightarrow> Inr []
     | Inr (Some value) \<Rightarrow>
         (case kc_as_string kc value of
            Some json \<Rightarrow> (case kc_from_str kc json of Some ts \<Rightarrow> Inr ts | None \<Rightarrow> Inl KJson)
          | None \<Rightarrow> (case kc_from_value kc value of Some ts \<Rightarrow> Inr ts | None \<Rightarrow> Inl KJson)))"

definition save_tasks ::
  "'v kanban_codec \<Rightarrow> string \<Rightarrow> kanban_task list \<Rightarrow> 'v kv_store \<Rightarrow> 'v kv_store \<times> (kanban_error + unit)" where
  "save_tasks kc workspace_id tasks s =
    (case kv_set_deferred (kc_to_value kc) (kanban_key workspace_id) tasks s of
       (s', Inl e) \<Rightarrow> (s', Inl (KStore e))
     | (s', Inr u) \<Rightarrow> (s', Inr ()))"

definition create_task ::
  "'v kanban_codec \<Rightarrow> string \<Rightarrow> kanban_task \<Rightarrow> 'v kv_store \<Rightarrow> 'v kv_store \<times> (kanban_error + kanban_task)" where
  "create_task kc workspace_id task s =
    (case get_tasks kc workspace_id s of
       Inl e \<Rightarrow> (s, Inl e)
     | Inr tasks \<Rightarrow>
         (case save_tasks kc workspace_id (tasks @ [task]) s of
            (s', Inl e) \<Rightarrow> (s', Inl e)
          | (s', Inr u) \<Rightarrow> (s', Inr task)))"

definition edit_task :: "string option \<Rightarrow> string option \<Rightarrow> kanban_status option \<Rightarrow> kanban_task \<Rightarrow> kanban_task" where
  "edit_task title description status task =
    (let t1 = (case title of Some t \<Rightarrow> task\<lparr>kt_title := t\<rparr> | None \<Rightarrow> task);
         t2 = (case description of
             Some d \<Rightarrow> t1\<lparr>kt_description := (if d = [] then None else Some d)\<rparr>
           | None \<Rightarrow> t1)
     in case status of Some st \<Rightarrow> t2\<lparr>kt_status := st\<rparr> | None \<Rightarrow> t2)"

definition update_task ::
  "'v kanban_codec \<Rightarrow> string \<Rightarrow> string \<Rightarrow> string option \<Rightarrow> string option \<Rightarrow> kanban_status option \<Rightarrow>
    'v kv_store \<Rightarrow> 'v kv_store \<times> (kanban_error + kanban_task)" where
  "update_task kc workspace_id task_id title description status s =
    (case get_tasks kc workspace_id s of
       Inl e \<Rightarrow> (s, Inl e)
     | Inr tasks \<Rightarrow>
         (case find (\<lambda>t. kt_id t = task_id) tasks of
            None \<Rightarrow> (s, Inl (KNotFound task_id))
          | Some task \<Rightarrow>
              (case save_tasks kc workspace_id
                      (update_first (\<lambda>t. kt_id t = task_id) (edit_task title description status) tasks) s of
                 (s', Inl e) \<Rightarrow> (s', Inl e)
               | (s', Inr u) \<Rightarrow> (s', Inr (edit_task title description status task)))))"

definition delete_task ::
  "'v kanban_codec \<Rightarrow> string \<Rightarrow> string \<Rightarrow> 'v kv_store \<Rightarrow> 'v kv_store \<times> (kanban_error + unit)" where
  "delete_task kc workspace_id task_id s =
    (case get_tasks kc workspace_id s of
       Inl e \<Rightarrow> (s, Inl e)
     | Inr tasks \<Rightarrow>
         let kept = filter (\<lambda>t. kt_id t \<noteq> task_id) tasks in
         if length kept = length tasks then (s, Inl (KNotFound task_id))
         else save_tasks kc workspace_id kept s)"

definition get_active_workspace_id :: "'v kanban_codec \<Rightarrow> 'v kv_store \<Rightarrow> kanban_error + string" where
  "get_active_workspace_id kc s =
    (case kv_get (kc_as_string kc) ''workspaces'' s of
       Inl e \<Rightarrow> Inl (KStore e)
     | Inr None \<Rightarrow> Inl KWorkspaceNotFound
     | Inr (Some json) \<Rightarrow>
         (case kc_parse kc json of
            None \<Rightarrow> Inl KJson
          | Some value \<Rightarrow>
              (case kc_field_str kc ''active_space_id'' value of
                 Some i \<Rightarrow> Inr i
               | None \<Rightarrow> Inl KWorkspaceNotFound)))"

section \<open>The boards as lists of tasks\<close>

text \<open>A value that \<open>serde_json\<close> makes of a task list is an array and reads back to the list.\<close>

definition faithful_tasks :: "'v kanban_codec \<Rightarrow> bool" where
  "faithful_tasks kc \<longleftrightarrow>
    (\<forall>ts. \<exists>v. kc_to_value kc ts = Some v \<and> kc_as_string kc v = None \<and> kc_from_value kc v = Some ts)"

definition board :: "'v kanban_codec \<Rightarrow> 'v kv_store \<Rightarrow> string \<Rightarrow> kanban_task list option" where
  "board kc s ws = (case get_tasks kc ws s of Inr ts \<Rightarrow> Some ts | Inl e \<Rightarrow> None)"

lemma kanban_key_inj [simp]: "kanban_key a = kanban_key b \<longleftrightarrow> a = b"
  by (simp add: kanban_key_def)

lemma save_tasks_board:
  assumes "faithful_tasks kc"
  shows "\<exists>s'. save_tasks kc ws ts s = (s', Inr ()) \<and> board kc s' = (board kc s)(ws \<mapsto> ts) \<and>
    (\<forall>k. k \<noteq> kanban_key ws \<longrightarrow> kv_data s' k = kv_data s k)"
proof -
  obtain v where v: "kc_to_value kc ts = Some v" "kc_as_string kc v = None" "kc_from_value kc v = Some ts"
    using assms unfolding faithful_tasks_def by blast
  let ?s = "kv_put (kanban_key ws) v s"
  have "board kc ?s w = ((board kc s)(ws \<mapsto> ts)) w" for w
    using v by (simp add: board_def get_tasks_def kv_get_def)
  then show ?thesis
    using v by (auto simp: save_tasks_def kv_set_deferred_def)
qed

text \<open>What each operation does to the boards.\<close>

lemma create_task_board:
  assumes "faithful_tasks kc" "board kc s ws = Some ts"
  shows "\<exists>s'. create_task kc ws t s = (s', Inr t) \<and> board kc s' = (board kc s)(ws \<mapsto> ts @ [t])"
  using save_tasks_board [OF assms(1), of ws "ts @ [t]" s] assms(2)
  by (auto simp: create_task_def board_def split: sum.splits)

lemma update_task_board:
  assumes "faithful_tasks kc" "board kc s ws = Some ts"
  shows "\<exists>s' r. update_task kc ws i title desc st s = (s', r) \<and>
    (case find (\<lambda>t. kt_id t = i) ts of
       None \<Rightarrow> s' = s \<and> r = Inl (KNotFound i)
     | Some t \<Rightarrow> r = Inr (edit_task title desc st t) \<and>
         board kc s' = (board kc s)(ws \<mapsto> update_first (\<lambda>t. kt_id t = i) (edit_task title desc st) ts))"
  using save_tasks_board [OF assms(1), of ws "update_first (\<lambda>t. kt_id t = i) (edit_task title desc st) ts" s] assms(2)
  by (auto simp: update_task_def board_def split: sum.splits option.splits)

lemma delete_task_board:
  assumes "faithful_tasks kc" "board kc s ws = Some ts"
  shows "\<exists>s' r. delete_task kc ws i s = (s', r) \<and>
    (if i \<in> kt_id ` set ts
     then r = Inr () \<and> board kc s' = (board kc s)(ws \<mapsto> filter (\<lambda>t. kt_id t \<noteq> i) ts)
     else s' = s \<and> r = Inl (KNotFound i))"
proof -
  have "length (filter (\<lambda>t. kt_id t \<noteq> i) ts) = length ts \<longleftrightarrow> i \<notin> kt_id ` set ts"
  proof (induction ts)
    case (Cons t ts)
    then show ?case using length_filter_le [of "\<lambda>t. kt_id t \<noteq> i" ts] by (auto simp del: length_filter_le)
  qed simp
  then show ?thesis
    using save_tasks_board [OF assms(1), of ws "filter (\<lambda>t. kt_id t \<noteq> i) ts" s] assms(2)
    by (auto simp: delete_task_def board_def Let_def split: sum.splits)
qed

section \<open>Refinement\<close>

datatype kanban_call =
    KCreate string kanban_task
  | KUpdate string string "string option" "string option" "kanban_status option"
  | KDelete string string

fun kanban_exec :: "'v kanban_codec \<Rightarrow> kanban_call \<Rightarrow> 'v kv_store \<Rightarrow> 'v kv_store" where
  "kanban_exec kc (KCreate ws t) s = fst (create_task kc ws t s)"
| "kanban_exec kc (KUpdate ws i title desc st) s = fst (update_task kc ws i title desc st s)"
| "kanban_exec kc (KDelete ws i) s = fst (delete_task kc ws i s)"

text \<open>The specification: a board is a list of tasks, or unreadable.\<close>

definition on_board :: "string \<Rightarrow> ('t list \<Rightarrow> 't list) \<Rightarrow> (string \<Rightarrow> 't list option) \<Rightarrow> string \<Rightarrow> 't list option" where
  "on_board ws f b = b(ws := map_option f (b ws))"

fun kanban_spec :: "kanban_call \<Rightarrow> (string \<Rightarrow> kanban_task list option) \<Rightarrow> (string \<Rightarrow> kanban_task list option)" where
  "kanban_spec (KCreate ws t) = on_board ws (\<lambda>ts. ts @ [t])"
| "kanban_spec (KUpdate ws i title desc st) =
    on_board ws (update_first (\<lambda>t. kt_id t = i) (edit_task title desc st))"
| "kanban_spec (KDelete ws i) = on_board ws (filter (\<lambda>t. kt_id t \<noteq> i))"

lemma board_None: "board kc s ws = None \<longleftrightarrow> (\<exists>e. get_tasks kc ws s = Inl e)"
  by (auto simp: board_def split: sum.split)

lemma on_board_None: "b ws = None \<Longrightarrow> on_board ws f b = b"
  by (auto simp: on_board_def fun_eq_iff)

lemma update_first_absent: "find P ts = None \<Longrightarrow> update_first P f ts = ts"
  by (auto simp: find_None_iff intro!: update_first_None)

lemma kanban_exec_spec:
  assumes "faithful_tasks kc"
  shows "board kc (kanban_exec kc c s) = kanban_spec c (board kc s)"
proof (cases c)
  case (KCreate ws t)
  show ?thesis
  proof (cases "board kc s ws")
    case None
    then obtain e where "get_tasks kc ws s = Inl e" by (auto simp: board_None)
    then show ?thesis using KCreate None by (simp add: on_board_None create_task_def)
  next
    case (Some ts)
    then show ?thesis using create_task_board [OF assms Some, of t] KCreate by (auto simp: on_board_def)
  qed
next
  case (KUpdate ws i title desc st)
  show ?thesis
  proof (cases "board kc s ws")
    case None
    then obtain e where "get_tasks kc ws s = Inl e" by (auto simp: board_None)
    then show ?thesis using KUpdate None by (simp add: on_board_None update_task_def)
  next
    case (Some ts)
    then show ?thesis
      using update_task_board [OF assms Some, of i title desc st] KUpdate
      by (auto simp: on_board_def update_first_absent fun_upd_idem split: option.splits)
  qed
next
  case (KDelete ws i)
  show ?thesis
  proof (cases "board kc s ws")
    case None
    then obtain e where "get_tasks kc ws s = Inl e" by (auto simp: board_None)
    then show ?thesis using KDelete None by (simp add: on_board_None delete_task_def)
  next
    case (Some ts)
    have "i \<notin> kt_id ` set ts \<Longrightarrow> filter (\<lambda>t. kt_id t \<noteq> i) ts = ts" by (auto simp: filter_id_conv)
    then show ?thesis
      using delete_task_board [OF assms Some, of i] KDelete Some
      by (auto simp: on_board_def fun_upd_idem split: if_splits)
  qed
qed

lemma kanban_exec_frame:
  "(\<And>ws. k \<noteq> kanban_key ws) \<Longrightarrow> kv_data (kanban_exec kc c s) k = kv_data s k"
  by (cases c)
    (auto simp: create_task_def update_task_def delete_task_def save_tasks_def kv_set_deferred_def Let_def
      split: sum.split option.split prod.split)

section \<open>Properties\<close>

text \<open>
  The boards refine their specification. With conversions that read back what they write, after
  any sequence of creations, updates and deletions every workspace's board is what the same
  sequence makes of the lists of tasks; a call on one workspace never changes another's board, a
  board that cannot be read is never overwritten, and no key outside the boards changes.
\<close>

theorem kanban_boards_refine:
  assumes "faithful_tasks kc"
  shows "board kc (fold (kanban_exec kc) cs s) = fold kanban_spec cs (board kc s) \<and>
    (\<forall>k. take 7 k \<noteq> ''kanban.'' \<longrightarrow> kv_data (fold (kanban_exec kc) cs s) k = kv_data s k)"
proof (induction cs arbitrary: s)
  case (Cons c cs)
  have "kv_data (kanban_exec kc c s) k = kv_data s k" if "take 7 k \<noteq> ''kanban.''" for k
    by (rule kanban_exec_frame) (use that in \<open>auto simp: kanban_key_def\<close>)
  then show ?case using Cons.IH [of "kanban_exec kc c s"] by (simp add: kanban_exec_spec [OF assms])
qed simp

text \<open>
  Errors of the board operations. Updating or deleting a task that is not on the board answers
  \<open>NotFound\<close> and leaves the store as it was, dirty flag and revision included; an
  unreadable board makes every operation fail and leaves the store as it was.
\<close>

theorem kanban_errors_change_nothing:
  assumes "i \<notin> kt_id ` set (case get_tasks kc ws s of Inr ts \<Rightarrow> ts | Inl e \<Rightarrow> [])"
  shows "\<exists>e. update_task kc ws i title desc st s = (s, Inl e) \<and> delete_task kc ws i s = (s, Inl e) \<and>
    (case get_tasks kc ws s of
       Inr ts \<Rightarrow> e = KNotFound i
     | Inl e' \<Rightarrow> e = e' \<and> create_task kc ws t s = (s, Inl e'))"
proof (cases "get_tasks kc ws s")
  case (Inl e)
  then show ?thesis by (simp add: update_task_def delete_task_def create_task_def)
next
  case (Inr ts)
  then have "find (\<lambda>t. kt_id t = i) ts = None" "filter (\<lambda>t. kt_id t \<noteq> i) ts = ts"
    using assms by (auto simp: find_None_iff filter_id_conv)
  then show ?thesis using Inr by (simp add: update_task_def delete_task_def)
qed

section \<open>Witnesses\<close>

text \<open>A value type with a string and a task list, enough for the boards.\<close>

datatype board_value = BText string | BTasks "kanban_task list"

definition board_codec :: "board_value kanban_codec" where
  "board_codec =
    \<lparr>kc_as_string = (\<lambda>v. case v of BText t \<Rightarrow> Some t | BTasks ts \<Rightarrow> None), kc_to_value = (\<lambda>ts. Some (BTasks ts)),
     kc_from_value = (\<lambda>v. case v of BText t \<Rightarrow> None | BTasks ts \<Rightarrow> Some ts), kc_from_str = (\<lambda>t. None),
     kc_parse = (\<lambda>t. Some (BText t)), kc_field_str = (\<lambda>k v. None)\<rparr>"

definition demo_task :: kanban_task where
  "demo_task =
    \<lparr>kt_id = ''t1'', kt_space_id = ''s1'', kt_title = ''Test task'', kt_description = None, kt_assigned_agent = None,
     kt_status = Todo, kt_order = 0, kt_created_at = 0, kt_plan_step_id = None\<rparr>"

theorem kanban_boards_refine_witness:
  "board board_codec (fold (kanban_exec board_codec) [KCreate ''w'' demo_task, KDelete ''w'' ''t1''] new_empty) ''w'' = Some []"
proof -
  have "faithful_tasks board_codec" by (simp add: faithful_tasks_def board_codec_def)
  from kanban_boards_refine [OF this, of "[KCreate ''w'' demo_task, KDelete ''w'' ''t1'']" new_empty] show ?thesis
    by (simp add: on_board_def board_def get_tasks_def kv_get_def new_empty_def demo_task_def)
qed

theorem kanban_errors_change_nothing_witness:
  "delete_task board_codec ''w'' ''x'' new_empty = (new_empty, Inl (KNotFound ''x''))"
proof -
  have g: "get_tasks board_codec ''w'' new_empty = Inr []" by (simp add: get_tasks_def kv_get_def new_empty_def)
  with kanban_errors_change_nothing [of "''x''" board_codec "''w''" new_empty None None None undefined] show ?thesis by simp
qed

end
