(* ===== verification/Store_Props.thy ===== *)
theory Store_Props
  imports Store_Kv
begin

text \<open>
  What the key-value store promises: a store that is not dirty is on disk, the file on disk can
  be loaded after every fault and power loss, and opening loses no data.
\<close>

section \<open>The file as a map\<close>

definition loads :: "(bytes \<Rightarrow> (string \<rightharpoonup> 'v) option) \<Rightarrow> fname \<Rightarrow> disk \<Rightarrow> (string \<rightharpoonup> 'v) option" where
  "loads from_str path fs =
    (case read_file fs path of
       None \<Rightarrow> Some Map.empty
     | Some c \<Rightarrow> if utf8_valid c then from_str c else None)"

definition loadable :: "(bytes \<Rightarrow> (string \<rightharpoonup> 'v) option) \<Rightarrow> survivor \<Rightarrow> bool" where
  "loadable from_str v =
    (case v of Absent \<Rightarrow> True | Intact c \<Rightarrow> utf8_valid c \<and> from_str c \<noteq> None | Torn \<Rightarrow> False)"

lemma load_of_loads:
  "loads from_str path fs = Some m \<Longrightarrow> load_data_or_quarantine from_str now ok path fs = (fs, Inr m)"
  by (auto simp: loads_def load_data_or_quarantine_def split: option.splits if_splits)

section \<open>Sweeping and opening\<close>

lemma starts_with_length: "starts_with p xs \<Longrightarrow> length p \<le> length xs"
  by (induction p xs rule: starts_with.induct) auto

lemma not_temp_of_itself: "\<not> is_temp_of (Some path) path"
  by (auto simp: is_temp_of_def bytes_of_def dest: starts_with_length)

lemma sweep_fold_other:
  assumes "disk_wf fs" "\<not> is_temp_of pre name"
  shows "disk_wf (fold (sweep_entry pre age) ns fs) \<and>
    power_loss (fold (sweep_entry pre age) ns fs) name = power_loss fs name \<and>
    read_file (fold (sweep_entry pre age) ns fs) name = read_file fs name"
  using assms(1)
proof (induction ns arbitrary: fs)
  case (Cons n ns)
  have "disk_wf (sweep_entry pre age n fs)" using Cons.prems by (auto simp: sweep_entry_def disk_wf_try)
  moreover have "power_loss (sweep_entry pre age n fs) name = power_loss fs name \<and>
      read_file (sweep_entry pre age n fs) name = read_file fs name"
    using remove_temp [OF Cons.prems, of n name] assms(2) by (auto simp: sweep_entry_def)
  ultimately show ?case using Cons.IH [of "sweep_entry pre age n fs"] by simp
qed simp

lemma sweep_keeps:
  assumes "disk_wf fs" "\<not> is_temp_of pre name"
  shows "disk_wf (sweep_orphaned_temp_files pre age fs) \<and>
    power_loss (sweep_orphaned_temp_files pre age fs) name = power_loss fs name \<and>
    read_file (sweep_orphaned_temp_files pre age fs) name = read_file fs name"
  unfolding sweep_orphaned_temp_files_def by (rule sweep_fold_other [OF assms])

section \<open>The invariant\<close>

lemma racing_simps:
  "kv_path (fold apply_mut ms s) = kv_path s"
  "kv_revision (fold apply_mut ms s) = kv_revision s + of_nat (length ms)"
  "ms \<noteq> [] \<Longrightarrow> kv_dirty (fold apply_mut ms s)"
proof (induction ms arbitrary: s)
  case (Cons m ms)
  {
    case 1
    show ?case using Cons(1) [of "apply_mut m s"] by (cases m) simp_all
  next
    case 2
    show ?case using Cons(2) [of "apply_mut m s"] by (cases m) (simp_all add: algebra_simps)
  next
    case 3
    show ?case using Cons(3) [of "apply_mut m s"] by (cases m; cases "ms = []") simp_all
  }
qed simp_all

text \<open>Fewer than \<open>2 ^ 64\<close> mutations in one write: the revision counter does not come round.\<close>

lemma of_nat_u64_zero: "n < 2 ^ 64 \<Longrightarrow> (of_nat n :: u64) = 0 \<longleftrightarrow> n = 0"
  by (auto simp: word_of_nat_eq_0_iff dest: dvd_imp_le)

definition kv_clean_inv :: "(bytes \<Rightarrow> (string \<rightharpoonup> 'v) option) \<Rightarrow> fname \<Rightarrow> 'v kv_store \<times> disk \<Rightarrow> bool" where
  "kv_clean_inv from_str path st \<longleftrightarrow>
    disk_wf (snd st) \<and> kv_path (fst st) = Some path \<and>
    (\<not> kv_dirty (fst st) \<longrightarrow> loads from_str path (snd st) = Some (kv_data (fst st)))"

definition kv_file_inv :: "(bytes \<Rightarrow> (string \<rightharpoonup> 'v) option) \<Rightarrow> fname \<Rightarrow> 'v kv_store \<times> disk \<Rightarrow> bool" where
  "kv_file_inv from_str path st \<longleftrightarrow>
    disk_wf (snd st) \<and> kv_path (fst st) = Some path \<and> (\<forall>v\<in>power_loss (snd st) path. loadable from_str v)"

text \<open>Persisting, once for both invariants.\<close>

lemma persist_effect:
  assumes json: "faithful_json to_string from_str" and wf: "disk_wf fs" and path: "kv_path s = Some path"
    and dirty: "kv_dirty s" and n: "length racing < 2 ^ 64"
    and p: "persist_snapshot to_string env racing s fs = (s', fs', r)"
  shows "kv_clean_inv from_str path (s', fs') \<and>
    (\<forall>v\<in>power_loss fs' path. v \<in> power_loss fs path \<or> loadable from_str v) \<and>
    (r = Inr () \<and> racing = [] \<longrightarrow>
      \<not> kv_dirty s' \<and> kv_data s' = kv_data s \<and> (\<exists>c. power_loss fs' path = {Intact c} \<and> utf8_valid c \<and> from_str c = Some (kv_data s)))"
proof (cases "to_string (kv_data s)")
  case None
  then show ?thesis using p path wf dirty by (auto simp: persist_snapshot_def kv_clean_inv_def)
next
  case (Some js)
  have ok: "utf8_valid js" "from_str js = Some (kv_data s)"
    using json Some by (auto simp: faithful_json_def)
  obtain w where w: "atomic_write env path js fs = (fs', w)"
    using p Some path by (auto simp: persist_snapshot_def Let_def split: prod.splits if_splits)
  note e = atomic_write_effect [OF wf w]
  let ?t = "fold apply_mut racing s"
  have s': "s' = (if w then ?t\<lparr>kv_dirty := (kv_revision ?t \<noteq> kv_revision s)\<rparr> else ?t)" "r = (if w then Inr () else Inl SIo)"
    using p Some path w by (auto simp: persist_snapshot_def Let_def split: if_splits)
  have dt: "kv_dirty ?t" using dirty racing_simps(3) [of racing s] by (cases "racing = []") auto
  have "kv_revision ?t = kv_revision s \<longleftrightarrow> racing = []"
    using of_nat_u64_zero [OF n] by (simp add: racing_simps)
  then have "kv_clean_inv from_str path (s', fs')"
    using e s' dt ok path by (auto simp: kv_clean_inv_def racing_simps loads_def split: if_splits)
  moreover have "\<forall>v\<in>power_loss fs' path. v \<in> power_loss fs path \<or> loadable from_str v"
    using e ok by (auto simp: loadable_def split: if_splits)
  ultimately show ?thesis using e s' ok by (auto split: if_splits)
qed

lemma kv_exec_inv:
  assumes json: "faithful_json to_string from_str" and n: "races c < 2 ^ 64" and inv: "kv_clean_inv from_str path st"
  shows "kv_clean_inv from_str path (kv_exec to_string c st) \<and>
    (\<forall>v\<in>power_loss (snd (kv_exec to_string c st)) path. v \<in> power_loss (snd st) path \<or> loadable from_str v)"
proof -
  obtain s fs where st: "st = (s, fs)" by fastforce
  have wf: "disk_wf fs" and path: "kv_path s = Some path" using inv by (auto simp: kv_clean_inv_def st)
  show ?thesis
  proof (cases c)
    case (Deferred m)
    then show ?thesis using wf path by (cases m) (auto simp: st kv_clean_inv_def)
  next
    case (Synced env racing m)
    define s2 where "s2 = s\<lparr>kv_data := mutate_map m (kv_data s), kv_revision := kv_revision s + 1, kv_dirty := True\<rparr>"
    obtain s' fs' r where p: "persist_snapshot to_string env racing s2 fs = (s', fs', r)" using prod_cases3 by blast
    have "kv_exec to_string c st = (s', fs')"
      using p path by (simp add: st Synced mutate_sync_def persist_snapshot_locked_def s2_def)
    moreover have "kv_path s2 = Some path" "kv_dirty s2" using path by (simp_all add: s2_def)
    ultimately show ?thesis using persist_effect [OF json wf _ _ _ p] n Synced by (auto simp: st)
  next
    case (Flush env racing)
    obtain s' fs' r where p: "persist_snapshot to_string env racing s fs = (s', fs', r)" using prod_cases3 by blast
    show ?thesis
    proof (cases "kv_dirty s")
      case True
      then have "kv_exec to_string c st = (s', fs')"
        using p path by (simp add: st Flush flush_with_outcome_def split: sum.split)
      then show ?thesis using persist_effect [OF json wf path True _ p] n Flush by (auto simp: st)
    next
      case False
      then show ?thesis using inv path by (simp add: st Flush flush_with_outcome_def)
    qed
  qed
qed

lemma kv_runs_inv:
  assumes "faithful_json to_string from_str" "\<forall>c\<in>set cs. races c < 2 ^ 64" "kv_clean_inv from_str path st"
  shows "kv_clean_inv from_str path (fold (kv_exec to_string) cs st) \<and>
    (\<forall>v\<in>power_loss (snd (fold (kv_exec to_string) cs st)) path. v \<in> power_loss (snd st) path \<or> loadable from_str v)"
  using assms(2,3)
proof (induction cs arbitrary: st)
  case (Cons c cs)
  have "kv_clean_inv from_str path (kv_exec to_string c st) \<and>
    (\<forall>v\<in>power_loss (snd (kv_exec to_string c st)) path. v \<in> power_loss (snd st) path \<or> loadable from_str v)"
    by (rule kv_exec_inv [OF assms(1)]) (use Cons.prems in auto)
  with Cons.IH [of "kv_exec to_string c st"] Cons.prems show ?case by fastforce
qed simp

section \<open>Opening\<close>

lemma open_clean_inv:
  assumes "disk_wf fs" "with_path_sync from_str env path fs = (fs', Inr s)"
  shows "kv_clean_inv from_str path (s, fs') \<and> kv_revision s = 0 \<and>
    ((\<forall>v\<in>power_loss fs path. loadable from_str v) \<longrightarrow> (\<forall>v\<in>power_loss fs' path. loadable from_str v))"
proof -
  let ?f = "sweep_orphaned_temp_files (Some path) (oe_age env) fs"
  obtain data where l: "load_data_or_quarantine from_str (oe_now env) (oe_rename_ok env) path ?f = (fs', Inr data)"
    and s: "s = \<lparr>kv_path = Some path, kv_data = data, kv_dirty = False, kv_revision = 0\<rparr>"
    using assms(2) by (auto simp: with_path_sync_def split: if_splits prod.splits sum.splits)
  note k = sweep_keeps [OF assms(1) not_temp_of_itself, of path "oe_age env"]
  have wf': "disk_wf fs'"
    using l k by (auto simp: load_data_or_quarantine_def disk_wf_try split: option.splits if_splits)
  show ?thesis
  proof (cases "loads from_str path ?f")
    case (Some m)
    then have "fs' = ?f" "data = m" using l load_of_loads [OF Some] by (metis Inr_inject Pair_inject)+
    then show ?thesis using s k Some wf' by (simp add: kv_clean_inv_def)
  next
    case None
    then obtain c where c: "read_file ?f path = Some c" "utf8_valid c" "from_str c = None"
      using l by (auto simp: loads_def load_data_or_quarantine_def split: option.splits if_splits)
    define q where "q = quarantine_name path (oe_now env)"
    have "length q \<noteq> length path" by (simp add: q_def quarantine_name_def)
    then have "q \<noteq> path" by blast
    moreover have fs': "fs' = fs_try (Rename path q) ?f" "data = Map.empty"
      using c l by (auto simp: load_data_or_quarantine_def q_def split: if_splits)
    moreover obtain i where i: "map_of (d_dir ?f) path = Some i" using c by (auto simp: read_file_def)
    ultimately have "read_file fs' path = None"
      by (simp add: fs_try_def read_file_set_dir update_conv' delete_conv')
    then have "kv_clean_inv from_str path (s, fs')" using s fs' wf' by (simp add: kv_clean_inv_def loads_def)
    moreover have "\<forall>v\<in>power_loss fs' path. v = Absent \<or> v \<in> power_loss fs path"
      using fs' i k \<open>q \<noteq> path\<close> by (auto simp: fs_try_def power_loss_set_dir survives_def update_conv' delete_conv')
    ultimately show ?thesis using s by (auto simp: loadable_def)
  qed
qed

lemma clean_inv_reloads:
  assumes "kv_clean_inv from_str path (s, fs)" and "\<not> kv_dirty s" and "oe_dir_ok env'"
  shows "\<exists>fs' s'. with_path_sync from_str env' path fs = (fs', Inr s') \<and> kv_data s' = kv_data s \<and> \<not> kv_dirty s'"
proof -
  let ?f = "sweep_orphaned_temp_files (Some path) (oe_age env') fs"
  have "read_file ?f path = read_file fs path"
    using sweep_keeps [OF _ not_temp_of_itself, of fs path "oe_age env'"] assms(1) by (simp add: kv_clean_inv_def)
  then have "loads from_str path ?f = Some (kv_data s)"
    using assms(1,2) by (simp add: kv_clean_inv_def loads_def)
  from load_of_loads [OF this] assms(3) show ?thesis by (simp add: with_path_sync_def)
qed

section \<open>Properties\<close>


text \<open>A printer and a reader for the one map that the witnesses store.\<close>

definition demo_to_string :: "(string \<rightharpoonup> bool) \<Rightarrow> bytes option" where
  "demo_to_string m = (if m = [''k'' \<mapsto> True] then Some [0x31] else None)"

definition demo_from_str :: "bytes \<Rightarrow> (string \<rightharpoonup> bool) option" where
  "demo_from_str c = (if c = [0x31] then Some [''k'' \<mapsto> True] else None)"

definition demo_open :: open_env where
  "demo_open = \<lparr>oe_dir_ok = True, oe_age = (\<lambda>n. None), oe_now = 0, oe_rename_ok = True\<rparr>"

definition demo_io :: io_env where
  "demo_io = \<lparr>io_uuid = [0x32], io_fault = None, io_cleanup = True\<rparr>"

lemma utf8_valid_demo: "utf8_valid [0x31]"
  using utf8_valid_string [of "[0x31]"] by (simp add: utf8_string_def utf8_encode_def is_scalar_def mk_byte_def)

lemma demo_json: "faithful_json demo_to_string demo_from_str"
  using utf8_valid_demo by (auto simp: faithful_json_def demo_to_string_def demo_from_str_def split: if_splits)

lemma demo_opens:
  "with_path_sync demo_from_str demo_open [0x73] disk_empty =
    (disk_empty, Inr \<lparr>kv_path = Some [0x73], kv_data = Map.empty, kv_dirty = False, kv_revision = 0\<rparr>)"
  by (simp add: with_path_sync_def demo_open_def load_data_or_quarantine_def sweep_orphaned_temp_files_def
      read_file_def disk_empty_def)

lemma demo_flushed:
  obtains s fs where
    "fold (kv_exec demo_to_string) [Deferred (Put ''k'' True), Flush demo_io []]
      (\<lparr>kv_path = Some [0x73], kv_data = Map.empty, kv_dirty = False, kv_revision = 0\<rparr>, disk_empty) = (s, fs)"
    "\<not> kv_dirty s" "kv_data s = [''k'' \<mapsto> True]"
proof -
  obtain fs where w: "atomic_write demo_io [0x73] [0x31] disk_empty = (fs, True)"
    using atomic_write_succeeds [OF disk_wf_empty, of demo_io "[0x73]" "[0x31]"]
    by (auto simp: demo_io_def disk_empty_def)
  show thesis
    by (rule that) (auto simp: flush_with_outcome_def persist_snapshot_def demo_to_string_def w kv_put_def kv_mark_dirty_def)
qed


text \<open>
  The file can always be loaded. If every version of the file that a power loss could leave can
  be loaded when the store is opened, then so it is after any calls, whatever disk operations failed
  and wherever: there is never a torn or half-written store.
\<close>

theorem store_file_always_loadable:
  assumes "faithful_json to_string from_str" and "disk_wf fs0" and "\<forall>v\<in>power_loss fs0 path. loadable from_str v"
    and "with_path_sync from_str env path fs0 = (fs1, Inr s1)"
    and "\<forall>c\<in>set cs. races c < 2 ^ 64"
  shows "\<forall>v\<in>power_loss (snd (fold (kv_exec to_string) cs (s1, fs1))) path. loadable from_str v"
  using open_clean_inv [OF assms(2,4)] kv_runs_inv [OF assms(1,5), of path "(s1, fs1)"] assms(3) by fastforce

theorem store_file_always_loadable_witness:
  "power_loss (snd (fold (kv_exec demo_to_string)
      [Deferred (Put ''k'' True), Flush \<lparr>io_uuid = [], io_fault = Some (3, 0), io_cleanup = False\<rparr> []]
      (\<lparr>kv_path = Some [0x73], kv_data = Map.empty, kv_dirty = False, kv_revision = 0\<rparr>, disk_empty))) [0x73]
    \<subseteq> Collect (loadable demo_from_str)"
  using store_file_always_loadable [OF demo_json disk_wf_empty _ demo_opens,
      of "[Deferred (Put ''k'' True), Flush \<lparr>io_uuid = [], io_fault = Some (3, 0), io_cleanup = False\<rparr> []]"]
  by (auto simp: power_loss_def disk_empty_def survives_def loadable_def simp del: fold_simps)

text \<open>
  A flush reports what happened. Reporting \<open>Flushed\<close> with no other thread writing, it has made the
  map durable: whatever a power loss leaves reads back to the map. Reporting an error it has kept the dirty
  flag set, so that the write is tried again, and lost nothing in memory; the file is the old or the new one.
\<close>

theorem flush_outcome_honest:
  assumes "faithful_json to_string from_str" and "disk_wf fs" and "kv_path s = Some path"
    and "flush_with_outcome to_string env [] s fs = (s', fs', r)"
  shows "kv_data s' = kv_data s \<and>
    (case r of
       Inr Flushed \<Rightarrow> \<not> kv_dirty s' \<and>
         (\<exists>c. power_loss fs' path = {Intact c} \<and> read_file fs' path = Some c \<and> utf8_valid c \<and> from_str c = Some (kv_data s))
     | Inr NotDirty \<Rightarrow> \<not> kv_dirty s' \<and> fs' = fs
     | Inr InMemory \<Rightarrow> False
     | Inl e \<Rightarrow> kv_dirty s' \<and> (read_file fs' path = read_file fs path \<or> read_file fs' path = to_string (kv_data s)))"
proof (cases "kv_dirty s")
  case False
  then show ?thesis using assms(3,4) by (auto simp: flush_with_outcome_def)
next
  case True
  show ?thesis
  proof (cases "to_string (kv_data s)")
    case None
    then show ?thesis using assms(3,4) True by (auto simp: flush_with_outcome_def persist_snapshot_def)
  next
    case (Some js)
    obtain g ok where w: "atomic_write env path js fs = (g, ok)" by fastforce
    have js: "utf8_valid js" "from_str js = Some (kv_data s)" using assms(1) Some by (auto simp: faithful_json_def)
    have "(s', fs', r) = (if ok then (s\<lparr>kv_dirty := False\<rparr>, g, Inr Flushed) else (s, g, Inl SIo))"
      using assms(3,4) True Some w by (cases ok) (simp_all add: flush_with_outcome_def persist_snapshot_def)
    then show ?thesis
      using js True Some atomic_write_effect [OF assms(2) w] by (cases ok) simp_all
  qed
qed

theorem flush_outcome_honest_witness:
  "kv_data (fst (flush_with_outcome demo_to_string demo_io []
      \<lparr>kv_path = Some [0x73], kv_data = [''k'' \<mapsto> True], kv_dirty = True, kv_revision = 0\<rparr> disk_empty)) = [''k'' \<mapsto> True]"
proof -
  let ?s = "\<lparr>kv_path = Some [0x73], kv_data = [''k'' \<mapsto> True], kv_dirty = True, kv_revision = 0\<rparr>"
  obtain s' fs' r where e: "flush_with_outcome demo_to_string demo_io [] ?s disk_empty = (s', fs', r)"
    using prod_cases3 by blast
  from flush_outcome_honest [OF demo_json disk_wf_empty _ e, of "[0x73]"] e show ?thesis by simp
qed

text \<open>
  Opening discards nothing. When the store's file does not parse and the rename works, the store
  opens empty and the unparsed text is kept in full under the quarantine name; every other file that
  is not a stale temporary file of the store is untouched.
\<close>

theorem corrupt_store_preserved:
  assumes "disk_wf fs" and "read_file fs path = Some c" and "utf8_valid c" and "from_str c = None"
    and "oe_dir_ok env" and "oe_rename_ok env"
  shows "\<exists>fs' s. with_path_sync from_str env path fs = (fs', Inr s) \<and> kv_data s = Map.empty \<and>
    read_file fs' path = None \<and> read_file fs' (quarantine_name path (oe_now env)) = Some c \<and>
    (\<forall>n. n \<noteq> path \<longrightarrow> n \<noteq> quarantine_name path (oe_now env) \<longrightarrow> \<not> is_temp_of (Some path) n \<longrightarrow>
      read_file fs' n = read_file fs n)"
proof -
  let ?f = "sweep_orphaned_temp_files (Some path) (oe_age env) fs"
  let ?q = "quarantine_name path (oe_now env)"
  have k: "read_file ?f n = read_file fs n" if "\<not> is_temp_of (Some path) n" for n
    using sweep_keeps [OF assms(1) that] by blast
  have "length ?q \<noteq> length path" by (simp add: quarantine_name_def)
  then have q: "?q \<noteq> path" by metis
  have c: "read_file ?f path = Some c" using k [OF not_temp_of_itself] assms(2) by simp
  then obtain i where i: "map_of (d_dir ?f) path = Some i" "d_data ?f i = c" by (auto simp: read_file_def)
  have o: "with_path_sync from_str env path fs = (fs_try (Rename path ?q) ?f,
      Inr \<lparr>kv_path = Some path, kv_data = Map.empty, kv_dirty = False, kv_revision = 0\<rparr>)"
    using c assms by (simp add: with_path_sync_def load_data_or_quarantine_def)
  have r: "read_file (fs_try (Rename path ?q) ?f) n =
      (if n = ?q then Some c else if n = path then None else read_file ?f n)" for n
    using i q by (simp add: fs_try_def read_file_set_dir update_conv' delete_conv', simp add: read_file_def)
  show ?thesis using o r k q by auto
qed

definition demo_corrupt :: disk where
  "demo_corrupt = \<lparr>d_dir = [([0x73], 0)], d_maybe = [[([0x73], 0)]], d_data = (\<lambda>i. []), d_synced = (\<lambda>i. True), d_next = 1\<rparr>"

theorem corrupt_store_preserved_witness:
  "\<exists>fs' s. with_path_sync demo_from_str demo_open [0x73] demo_corrupt = (fs', Inr s) \<and>
    read_file fs' (quarantine_name [0x73] 0) = Some []"
proof -
  have "disk_wf demo_corrupt" "read_file demo_corrupt [0x73] = Some []"
    by (auto simp: demo_corrupt_def disk_wf_def read_file_def split: if_splits)
  moreover have "oe_now demo_open = 0" "oe_dir_ok demo_open" "oe_rename_ok demo_open" "demo_from_str [] = None"
    by (simp_all add: demo_open_def demo_from_str_def)
  ultimately show ?thesis
    using corrupt_store_preserved [of demo_corrupt "[0x73]" "[]" demo_from_str demo_open] by auto
qed

end
