(* ===== verification/App_Store.thy ===== *)
theory App_Store
  imports Notification_Restart Kanban Store_Props
begin

text \<open>
  The components that share the application's one key-value store
  (\<open>src-tauri/src/state.rs\<close> hands the same \<open>Arc<KeyValueStore>\<close> to the notification service and
  to the task boards, and a timer flushes it): any interleaving of their calls with flushes, and a
  restart of the application.
\<close>

section \<open>Interleavings\<close>

datatype 'v app_event =
    ANotify "'v notification_call"
  | ABoard kanban_call
  | AFlush io_env

fun app_exec ::
  "'v notification_codec \<Rightarrow> 'v kanban_codec \<Rightarrow> 'v app_event \<Rightarrow> 'v notification_service \<Rightarrow> 'v notification_service" where
  "app_exec co kc (ANotify c) sv = ns_apply co c sv"
| "app_exec co kc (ABoard c) sv = sv\<lparr>ns_store := map_option (kanban_exec kc c) (ns_store sv)\<rparr>"
| "app_exec co kc (AFlush env) sv =
    (case ns_store sv of
       None \<Rightarrow> sv
     | Some s \<Rightarrow>
         (case flush_with_outcome (co_to_string co) env [] s (ns_disk sv) of
            (s', fs', r) \<Rightarrow> sv\<lparr>ns_store := Some s', ns_disk := fs'\<rparr>))"

fun board_calls :: "'v app_event list \<Rightarrow> kanban_call list" where
  "board_calls [] = []"
| "board_calls (ABoard c # es) = c # board_calls es"
| "board_calls (_ # es) = board_calls es"

text \<open>The store and the disk under a service, and its clients' steps as calls of the store.\<close>

definition on_disk :: "(bytes \<Rightarrow> (string \<rightharpoonup> 'v) option) \<Rightarrow> fname \<Rightarrow> 'v notification_service \<Rightarrow> bool" where
  "on_disk from_str path sv \<longleftrightarrow> (\<exists>s. ns_store sv = Some s \<and> kv_clean_inv from_str path (s, ns_disk sv))"

definition store_calls ::
  "((string \<rightharpoonup> 'v) \<Rightarrow> bytes option) \<Rightarrow> 'v notification_service \<Rightarrow> 'v notification_service \<Rightarrow> bool" where
  "store_calls to_string sv sv' \<longleftrightarrow>
    (\<forall>s. ns_store sv = Some s \<longrightarrow>
      (\<exists>cs s' fs'. (\<forall>c\<in>set cs. races c = 0) \<and> fold (kv_exec to_string) cs (s, ns_disk sv) = (s', fs') \<and>
        ns_store sv' = Some s' \<and> ns_disk sv' = fs'))"

lemma store_callsI:
  "(\<And>s. ns_store sv = Some s \<Longrightarrow> \<exists>s'. ns_store sv' = Some s' \<and> (\<forall>c\<in>set (f s). races c = 0) \<and>
      fold (kv_exec to_string) (f s) (s, ns_disk sv) = (s', ns_disk sv')) \<Longrightarrow> store_calls to_string sv sv'"
  unfolding store_calls_def by metis

lemma store_calls_same: "ns_store sv' = ns_store sv \<Longrightarrow> ns_disk sv' = ns_disk sv \<Longrightarrow> store_calls to_string sv sv'"
  by (rule store_callsI [where f = "\<lambda>s. []"]) simp

lemma persist_history_calls:
  "store_calls (co_to_string co) sv (persist_history co sv)"
proof (cases "co_to_value co (ns_history sv)")
  case None
  then show ?thesis
    by (intro store_calls_same) (auto simp: persist_history_def kv_set_deferred_def split: option.split)
next
  case (Some v)
  show ?thesis
    by (rule store_callsI [where f = "\<lambda>s. Deferred (Put HISTORY_KEY v) #
          (if kv_has LEGACY_HISTORY_KEY (kv_put HISTORY_KEY v s) then [Synced (co_io co) [] (Del LEGACY_HISTORY_KEY)] else [])"])
      (use Some in \<open>auto simp: persist_history_def kv_set_deferred_def kv_delete_sync_def split: prod.split\<close>)
qed

lemma store_calls_cong:
  "store_calls to_string sv1 sv' \<Longrightarrow> ns_store sv1 = ns_store sv \<Longrightarrow> ns_disk sv1 = ns_disk sv \<Longrightarrow> store_calls to_string sv sv'"
  by (simp add: store_calls_def)

lemma ns_apply_calls: "store_calls (co_to_string co) sv (ns_apply co c sv)"
proof -
  have p: "store_calls (co_to_string co) sv (persist_history co sv1)"
    if "ns_store sv1 = ns_store sv" "ns_disk sv1 = ns_disk sv" for sv1
    by (rule store_calls_cong [OF persist_history_calls that])
  show ?thesis
    by (cases c)
      (auto simp: push_notification_def mark_read_def mark_all_read_def resolve_notification_def dismiss_def
        clear_all_def Let_def split: option.split intro!: store_calls_same p)
qed

lemma save_tasks_calls: "\<exists>cs. (\<forall>c\<in>set cs. races c = 0) \<and>
    fold (kv_exec to_string) cs (s, fs) = (fst (save_tasks kc ws ts s), fs)"
proof (cases "kc_to_value kc ts")
  case None
  then show ?thesis by (intro exI [of _ "[]"]) (simp add: save_tasks_def kv_set_deferred_def)
next
  case (Some v)
  then show ?thesis
    by (intro exI [of _ "[Deferred (Put (kanban_key ws) v)]"]) (simp add: save_tasks_def kv_set_deferred_def)
qed

lemma save_tasks_then:
  "fst (case save_tasks kc ws ts s of (s', Inl e) \<Rightarrow> (s', Inl e) | (s', Inr u) \<Rightarrow> (s', Inr r)) = fst (save_tasks kc ws ts s)"
  by (simp split: prod.split sum.split)

lemma kanban_exec_calls: "\<exists>cs. (\<forall>c\<in>set cs. races c = 0) \<and>
    fold (kv_exec to_string) cs (s, fs) = (kanban_exec kc c s, fs)"
proof -
  have "kanban_exec kc c s = s \<or> (\<exists>ws ts. kanban_exec kc c s = fst (save_tasks kc ws ts s))"
    by (cases c)
      (auto simp: create_task_def update_task_def delete_task_def Let_def save_tasks_then split: sum.split option.split)
  then show ?thesis
  proof (elim disjE exE)
    assume "kanban_exec kc c s = s"
    then show ?thesis by (intro exI [of _ "[]"]) simp
  qed (simp add: save_tasks_calls)
qed

lemma app_exec_calls: "store_calls (co_to_string co) sv (app_exec co kc e sv)"
proof (cases e)
  case (ANotify c)
  then show ?thesis by (simp add: ns_apply_calls)
next
  case (ABoard c)
  then show ?thesis using kanban_exec_calls [of "co_to_string co" _ "ns_disk sv" kc c] by (auto simp: store_calls_def)
next
  case (AFlush env)
  show ?thesis
    by (rule store_callsI [where f = "\<lambda>s. [Flush env []]"]) (auto simp: AFlush split: prod.split)
qed

section \<open>The invariant of the interleaving\<close>

lemma load_history_cong: "kv_data s' k = kv_data s k \<Longrightarrow> load_history co k s' = load_history co k s"
  by (simp add: load_history_def kv_get_def)

lemma restart_data_cong:
  assumes "restart_ok co sv" "ns_store sv = Some s" "ns_store sv' = Some s'" "ns_history sv' = ns_history sv"
    "kv_data s' HISTORY_KEY = kv_data s HISTORY_KEY" "kv_data s' LEGACY_HISTORY_KEY = kv_data s LEGACY_HISTORY_KEY"
  shows "restart_ok co sv'"
  using assms load_history_cong [OF assms(5), of co] load_history_cong [OF assms(6), of co]
  by (simp add: restart_ok_def with_store_def cong: option.case_cong)

lemma history_key_not_board: "HISTORY_KEY \<noteq> kanban_key ws" "LEGACY_HISTORY_KEY \<noteq> kanban_key ws"
  "kanban_key ws \<noteq> HISTORY_KEY" "kanban_key ws \<noteq> LEGACY_HISTORY_KEY"
  by (auto simp: HISTORY_KEY_def LEGACY_HISTORY_KEY_def kanban_key_def)

lemma board_data_cong: "(\<And>ws. kv_data s' (kanban_key ws) = kv_data s (kanban_key ws)) \<Longrightarrow> board kc s' = board kc s"
  by (simp add: fun_eq_iff board_def get_tasks_def kv_get_def)

lemma persist_history_boards:
  assumes "ns_store sv = Some s"
  shows "\<exists>s'. ns_store (persist_history co sv) = Some s' \<and> board kc s' = board kc s"
proof (cases "co_to_value co (ns_history sv)")
  case None
  then show ?thesis using assms by (simp add: persist_history_def kv_set_deferred_def)
next
  case (Some v)
  from persist_history_data [OF assms Some] obtain s' where s': "ns_store (persist_history co sv) = Some s'"
    "kv_data s' = (kv_data s)(HISTORY_KEY \<mapsto> v, LEGACY_HISTORY_KEY := None)" by blast
  then have "board kc s' = board kc s" by (intro board_data_cong) (simp add: history_key_not_board)
  with s' show ?thesis by blast
qed

lemma ns_apply_boards:
  assumes "ns_store sv = Some s"
  shows "\<exists>s'. ns_store (ns_apply co c sv) = Some s' \<and> board kc s' = board kc s"
proof -
  have p: "\<exists>s'. ns_store (persist_history co sv1) = Some s' \<and> board kc s' = board kc s"
    if "ns_store sv1 = Some s" for sv1
    by (rule persist_history_boards [OF that])
  show ?thesis
    by (cases c)
      (use assms p in \<open>auto simp: push_notification_def mark_read_def mark_all_read_def resolve_notification_def dismiss_def
        clear_all_def Let_def split: option.split\<close>)
qed

lemma flush_data:
  assumes "flush_with_outcome to_string env [] s fs = (s', fs', r)"
  shows "kv_data s' = kv_data s"
  using assms
  by (auto simp: flush_with_outcome_def persist_snapshot_def Let_def split: if_splits option.splits prod.splits)

definition app_inv ::
  "(bytes \<Rightarrow> (string \<rightharpoonup> 'v) option) \<Rightarrow> fname \<Rightarrow> 'v notification_codec \<Rightarrow> 'v kanban_codec \<Rightarrow>
    (string \<Rightarrow> kanban_task list option) \<Rightarrow> 'v notification_service \<Rightarrow> bool" where
  "app_inv from_str path co kc b sv \<longleftrightarrow>
    on_disk from_str path sv \<and> restart_ok co sv \<and> (\<forall>s. ns_store sv = Some s \<longrightarrow> board kc s = b)"

lemma on_disk_step:
  assumes "faithful_json to_string from_str" "on_disk from_str path sv" "store_calls to_string sv sv'"
  shows "on_disk from_str path sv'"
proof -
  obtain s where s: "ns_store sv = Some s" "kv_clean_inv from_str path (s, ns_disk sv)"
    using assms(2) by (auto simp: on_disk_def)
  with assms(3) obtain cs s' fs' where cs: "\<forall>c\<in>set cs. races c = 0"
    "fold (kv_exec to_string) cs (s, ns_disk sv) = (s', fs')" "ns_store sv' = Some s'" "ns_disk sv' = fs'"
    unfolding store_calls_def by blast
  have "\<forall>c\<in>set cs. races c < 2 ^ 64" using cs(1) by simp
  from kv_runs_inv [OF assms(1) this s(2)] cs show ?thesis by (simp add: on_disk_def)
qed

lemma app_inv_step:
  assumes json: "faithful_json (co_to_string co) from_str" and h: "faithful_history co" and k: "faithful_tasks kc"
    and inv: "app_inv from_str path co kc b sv"
  shows "app_inv from_str path co kc (fold kanban_spec (board_calls [e]) b) (app_exec co kc e sv)"
proof -
  obtain s where s: "ns_store sv = Some s" "board kc s = b" "restart_ok co sv" "on_disk from_str path sv"
    using inv by (auto simp: app_inv_def on_disk_def)
  have d: "on_disk from_str path (app_exec co kc e sv)"
    by (rule on_disk_step [OF json s(4) app_exec_calls])
  show ?thesis
  proof (cases e)
    case (ANotify c)
    then show ?thesis
      using d restart_apply [OF h s(3), of c] ns_apply_boards [OF s(1), of co c kc] s(2)
      by (auto simp: app_inv_def)
  next
    case (ABoard c)
    have "kv_data (kanban_exec kc c s) HISTORY_KEY = kv_data s HISTORY_KEY"
      "kv_data (kanban_exec kc c s) LEGACY_HISTORY_KEY = kv_data s LEGACY_HISTORY_KEY"
      by (rule kanban_exec_frame, simp add: history_key_not_board)+
    then have "restart_ok co (app_exec co kc e sv)"
      using restart_data_cong [OF s(3,1), of "app_exec co kc e sv" "kanban_exec kc c s"] s(1) ABoard by simp
    then show ?thesis using d s ABoard kanban_exec_spec [OF k, of c s] by (simp add: app_inv_def)
  next
    case (AFlush env)
    obtain s' fs' r where f: "flush_with_outcome (co_to_string co) env [] s (ns_disk sv) = (s', fs', r)"
      using prod_cases3 by blast
    have "kv_data s' = kv_data s" by (rule flush_data [OF f])
    moreover from this have "board kc s' = b" using s(2) board_data_cong [of s' s kc] by simp
    moreover have "restart_ok co (app_exec co kc e sv)"
      using restart_data_cong [OF s(3,1), of "app_exec co kc e sv" s'] calculation(1) s(1) f AFlush by simp
    ultimately show ?thesis using d s(1) f AFlush by (simp add: app_inv_def)
  qed
qed

lemma board_calls_Cons: "board_calls (e # es) = board_calls [e] @ board_calls es"
  by (cases e) simp_all

lemma app_inv_run:
  assumes "faithful_json (co_to_string co) from_str" "faithful_history co" "faithful_tasks kc"
    "app_inv from_str path co kc b sv"
  shows "app_inv from_str path co kc (fold kanban_spec (board_calls es) b) (fold (app_exec co kc) es sv)"
  using assms(4)
proof (induction es arbitrary: b sv)
  case (Cons e es)
  show ?case
    using Cons.IH [OF app_inv_step [OF assms(1-3) Cons.prems, of e]]
    by (subst board_calls_Cons) (simp only: fold_append o_apply fold_simps)
qed simp

section \<open>Restarting the application\<close>


section \<open>Witness\<close>

definition json_task :: "kanban_task \<Rightarrow> json" where
  "json_task t =
    JArr [JStr (kt_id t), JStr (kt_space_id t), JStr (kt_title t), json_opt JStr (kt_description t),
      json_opt JStr (kt_assigned_agent t), JInt (case kt_status t of Todo \<Rightarrow> 0 | InProgress \<Rightarrow> 1 | InReview \<Rightarrow> 2 | Complete \<Rightarrow> 3),
      JInt (int (kt_order t)), JInt (kt_created_at t), json_opt JStr (kt_plan_step_id t)]"

fun un_int :: "json \<Rightarrow> int option" where
  "un_int (JInt k) = Some k"
| "un_int _ = None"

definition un_task :: "json \<Rightarrow> kanban_task option" where
  "un_task v =
    (case v of
       JArr [i, sp, ti, de, ag, st, od, cr, pl] \<Rightarrow> do {
         i \<leftarrow> un_str i; sp \<leftarrow> un_str sp; ti \<leftarrow> un_str ti; de \<leftarrow> un_opt un_str de; ag \<leftarrow> un_opt un_str ag;
         st \<leftarrow> un_int st; od \<leftarrow> un_int od; cr \<leftarrow> un_int cr; pl \<leftarrow> un_opt un_str pl;
         Some \<lparr>kt_id = i, kt_space_id = sp, kt_title = ti, kt_description = de, kt_assigned_agent = ag,
           kt_status = (if st = 0 then Todo else if st = 1 then InProgress else if st = 2 then InReview else Complete),
           kt_order = nat od, kt_created_at = cr, kt_plan_step_id = pl\<rparr> }
     | _ \<Rightarrow> None)"

lemma un_task_json: "un_task (json_task t) = Some t"
  by (cases "kt_status t") (simp_all add: json_task_def un_task_def un_opt_json)

definition json_board :: "json kanban_codec" where
  "json_board =
    \<lparr>kc_as_string = un_str, kc_to_value = (\<lambda>ts. Some (JArr (map json_task ts))), kc_from_value = un_list un_task,
     kc_from_str = (\<lambda>t. None), kc_parse = (\<lambda>t. None), kc_field_str = (\<lambda>k v. None)\<rparr>"

lemma json_board_faithful: "faithful_tasks json_board"
  using those_map [of un_task json_task, OF un_task_json] by (simp add: faithful_tasks_def json_board_def)

text \<open>A printer and a reader for the one map that the witness stores.\<close>

definition demo_push :: "json notification_event" where
  "demo_push =
    \<lparr>e_type = NInfo, e_title = ''t'', e_message = ''m'', e_source = ''backend'', e_agent_id = None, e_data = None,
     e_timestamp = 0, e_metadata = None, e_actions = None, e_request_id = None, e_event_key = None, e_run_id = None,
     e_pane_id = None, e_requires_action = False\<rparr>"

definition demo_record :: "json notification_record" where
  "demo_record = record_of (generate_id 0 0) demo_push"

definition demo_map :: "string \<rightharpoonup> json" where
  "demo_map = [HISTORY_KEY \<mapsto> JArr [json_record demo_record], kanban_key ''w'' \<mapsto> JArr [json_task demo_task]]"

definition app_codec :: "json notification_codec" where
  "app_codec = json_codec\<lparr>co_to_string := (\<lambda>m. if m = demo_map then Some [0x31] else None)\<rparr>"

definition app_from_str :: "bytes \<Rightarrow> (string \<rightharpoonup> json) option" where
  "app_from_str c = (if c = [0x31] then Some demo_map else None)"

lemma app_codec_faithful: "faithful_json (co_to_string app_codec) app_from_str" "faithful_history app_codec"
  using utf8_valid_demo json_codec_faithful
  by (auto simp: faithful_json_def faithful_history_def app_codec_def app_from_str_def split: if_splits)

definition demo_events :: "json app_event list" where
  "demo_events = [ANotify (CallPush 0 demo_push), ABoard (KCreate ''w'' demo_task)]"

lemma demo_app_opens:
  "with_path_sync app_from_str demo_open [0x73] disk_empty =
    (disk_empty, Inr \<lparr>kv_path = Some [0x73], kv_data = Map.empty, kv_dirty = False, kv_revision = 0\<rparr>)"
  by (simp add: with_path_sync_def demo_open_def load_data_or_quarantine_def sweep_orphaned_temp_files_def
      read_file_def disk_empty_def)

lemma demo_app_run:
  "fold (app_exec app_codec json_board) demo_events
      (with_store app_codec (Some \<lparr>kv_path = Some [0x73], kv_data = Map.empty, kv_dirty = False, kv_revision = 0\<rparr>) 0 disk_empty) =
    \<lparr>ns_history = [demo_record], ns_counter = 1,
     ns_store = Some \<lparr>kv_path = Some [0x73], kv_data = demo_map, kv_dirty = True, kv_revision = 2\<rparr>, ns_disk = disk_empty\<rparr>"
proof -
  have r: "record_of (generate_id 0 0) demo_push = demo_record" "n_event_key demo_record = None" "n_pane_id demo_record = None"
    by (simp_all add: demo_record_def record_of_def demo_push_def)
  show ?thesis
    by (simp add: demo_events_def with_store_def load_history_def kv_get_def push_notification_def r existing_event_def
        pane_attention_only_def push_history_def MAX_HISTORY_def persist_history_def kv_set_deferred_def app_codec_def
        json_codec_def kv_has_def kv_put_def kv_mark_dirty_def create_task_def get_tasks_def history_key_not_board
        save_tasks_def json_board_def demo_map_def)
qed


end
