(* ===== verification/Fs_Path.thy ===== *)
theory Fs_Path
  imports Text_Codec "HOL-Library.Char_ord" "HOL-Library.List_Lexorder" "HOL-Library.Product_Lexorder" "HOL-Library.AList"
begin

text \<open>
  \<open>crates/athena-fs\<close>: the sandbox of the file API. \<open>PathValidator\<close> decides which paths may be
  touched, the functions of \<open>lib.rs\<close> read and write through it. The file system is a tree of
  directories, files and symbolic links, given by the absolute path of every node;
  \<open>canonicalize\<close> follows links as the kernel does, at most 40 of them. A path is a list of
  components, absolute or relative to the current directory. Error messages are dropped.
\<close>

section \<open>The file system\<close>

datatype fnode = Dir | File bytes | Link bool "string list"

type_synonym abspath = "string list"

type_synonym fstree = "(abspath \<times> fnode) list"

record fpath =
  fp_abs :: bool
  fp_comps :: "string list"

datatype path_io = ENotFound | EOther

definition node_at :: "fstree \<Rightarrow> abspath \<Rightarrow> fnode option" where
  "node_at fs p = (if p = [] then Some Dir else map_of fs p)"

text \<open>The walk of the kernel: \<open>cur\<close> has been resolved, the rest is still to be walked.\<close>

function resolve :: "fstree \<Rightarrow> nat \<Rightarrow> abspath \<Rightarrow> string list \<Rightarrow> path_io + abspath" where
  "resolve fs fuel cur [] = Inr cur"
| "resolve fs fuel cur (c # cs) =
    (if c = ''.'' then resolve fs fuel cur cs
     else if c = ''..'' then resolve fs fuel (butlast cur) cs
     else (case node_at fs (cur @ [c]) of
         None \<Rightarrow> Inl ENotFound
       | Some Dir \<Rightarrow> resolve fs fuel (cur @ [c]) cs
       | Some (File b) \<Rightarrow> if cs = [] then Inr (cur @ [c]) else Inl EOther
       | Some (Link absolute target) \<Rightarrow>
           if fuel = 0 then Inl EOther
           else resolve fs (fuel - 1) (if absolute then [] else cur) (target @ cs)))"
  by pat_completeness auto
termination
  by (relation "measures [\<lambda>(fs, fuel, cur, cs). fuel, \<lambda>(fs, fuel, cur, cs). length cs]") auto

definition canonicalize :: "fstree \<Rightarrow> abspath \<Rightarrow> fpath \<Rightarrow> path_io + abspath" where
  "canonicalize fs cwd p =
    (if \<not> fp_abs p \<and> fp_comps p = [] then Inl ENotFound
     else resolve fs 40 (if fp_abs p then [] else cwd) (fp_comps p))"

definition path_exists :: "fstree \<Rightarrow> abspath \<Rightarrow> fpath \<Rightarrow> bool" where
  "path_exists fs cwd p = (case canonicalize fs cwd p of Inr q \<Rightarrow> True | Inl e \<Rightarrow> False)"

text \<open>\<open>Path::components\<close> drops every \<open>.\<close> but a leading one of a relative path.\<close>

definition components :: "fpath \<Rightarrow> string list" where
  "components p =
    (case fp_comps p of
       c # cs \<Rightarrow> if \<not> fp_abs p \<and> c = ''.'' then c # filter (\<lambda>c. c \<noteq> ''.'') cs else filter (\<lambda>c. c \<noteq> ''.'') (c # cs)
     | [] \<Rightarrow> [])"

definition path_parent :: "fpath \<Rightarrow> fpath option" where
  "path_parent p = (if components p = [] then None else Some \<lparr>fp_abs = fp_abs p, fp_comps = butlast (components p)\<rparr>)"

definition path_file_name :: "fpath \<Rightarrow> string option" where
  "path_file_name p =
    (if components p = [] \<or> last (components p) \<in> {''.'', ''..''} then None else Some (last (components p)))"

text \<open>\<open>Path::starts_with\<close> compares whole components.\<close>

definition path_starts_with :: "abspath \<Rightarrow> abspath \<Rightarrow> bool" where
  "path_starts_with p root \<longleftrightarrow> take (length root) p = root"

section \<open>The validator\<close>

datatype path_validation_error = PathTraversal | InvalidPath | PathNotFound

record path_validator =
  pv_root :: abspath
  pv_extra_roots :: "abspath list"
  pv_deny_sensitive_subtrees :: bool

definition SENSITIVE_SUBTREES :: "string list" where
  "SENSITIVE_SUBTREES = [''.ssh'', ''.aws'', ''.gnupg'', ''.kube'']"

definition validator_new :: "fstree \<Rightarrow> abspath \<Rightarrow> fpath \<Rightarrow> path_validation_error + path_validator" where
  "validator_new fs cwd root =
    (case canonicalize fs cwd root of
       Inl e \<Rightarrow> Inl InvalidPath
     | Inr r \<Rightarrow> Inr \<lparr>pv_root = r, pv_extra_roots = [], pv_deny_sensitive_subtrees = False\<rparr>)"

definition new_workspace :: "fstree \<Rightarrow> abspath \<Rightarrow> fpath \<Rightarrow> path_validation_error + path_validator" where
  "new_workspace fs cwd root = validator_new fs cwd root"

definition new_home :: "fstree \<Rightarrow> abspath \<Rightarrow> fpath \<Rightarrow> path_validation_error + path_validator" where
  "new_home fs cwd root =
    (case validator_new fs cwd root of
       Inl e \<Rightarrow> Inl e
     | Inr v \<Rightarrow> Inr (v\<lparr>pv_deny_sensitive_subtrees := True\<rparr>))"

fun canonical_all :: "fstree \<Rightarrow> abspath \<Rightarrow> fpath list \<Rightarrow> abspath list option" where
  "canonical_all fs cwd [] = Some []"
| "canonical_all fs cwd (r # rs) =
    (case canonicalize fs cwd r of
       Inl e \<Rightarrow> None
     | Inr q \<Rightarrow> map_option (\<lambda>qs. q # qs) (canonical_all fs cwd rs))"

definition with_extra_roots ::
  "fstree \<Rightarrow> abspath \<Rightarrow> fpath list \<Rightarrow> path_validator \<Rightarrow> path_validation_error + path_validator" where
  "with_extra_roots fs cwd roots v =
    (case canonical_all fs cwd roots of
       None \<Rightarrow> Inl InvalidPath
     | Some extra \<Rightarrow> Inr (v\<lparr>pv_extra_roots := extra\<rparr>))"

definition validate_canonical :: "path_validator \<Rightarrow> abspath \<Rightarrow> path_validation_error + abspath" where
  "validate_canonical v canonical =
    (let allowed = path_starts_with canonical (pv_root v) \<or> list_ex (path_starts_with canonical) (pv_extra_roots v)
     in if \<not> allowed then Inl PathTraversal
        else if pv_deny_sensitive_subtrees v \<and>
            list_ex (\<lambda>sub. path_starts_with canonical (pv_root v @ [sub])) SENSITIVE_SUBTREES
          then Inl PathTraversal
        else Inr canonical)"

definition io_to_validation :: "path_io \<Rightarrow> path_validation_error" where
  "io_to_validation e = (if e = ENotFound then PathNotFound else InvalidPath)"

definition validate_path :: "fstree \<Rightarrow> abspath \<Rightarrow> path_validator \<Rightarrow> fpath \<Rightarrow> path_validation_error + abspath" where
  "validate_path fs cwd v p =
    (case canonicalize fs cwd p of
       Inl e \<Rightarrow> Inl (io_to_validation e)
     | Inr canonical \<Rightarrow> validate_canonical v canonical)"

definition validate_write :: "fstree \<Rightarrow> abspath \<Rightarrow> path_validator \<Rightarrow> fpath \<Rightarrow> path_validation_error + abspath" where
  "validate_write fs cwd v p =
    (if path_exists fs cwd p then
       (case canonicalize fs cwd p of
          Inl e \<Rightarrow> Inl (io_to_validation e)
        | Inr canonical \<Rightarrow> validate_canonical v canonical)
     else (case path_parent p of
         None \<Rightarrow> Inl InvalidPath
       | Some parent \<Rightarrow>
           (case canonicalize fs cwd parent of
              Inl e \<Rightarrow> Inl (io_to_validation e)
            | Inr canonical_parent \<Rightarrow>
                (case path_file_name p of
                   Some name \<Rightarrow> validate_canonical v (canonical_parent @ [name])
                 | None \<Rightarrow> Inl InvalidPath))))"

section \<open>The file API\<close>

datatype fs_error = FsIo | FsPathTraversal | FsNotFound | FsFileTooLarge nat nat

definition MAX_DEPTH :: nat where
  "MAX_DEPTH = 6"

definition MAX_READ_BYTES :: nat where
  "MAX_READ_BYTES = 16 * 1024 * 1024"

definition SKIP_ENTRIES :: "string list" where
  "SKIP_ENTRIES = [''node_modules'', ''.git'', ''.next'', ''dist'', ''build'', ''.ade'', ''.DS_Store'']"

fun fs_error_of :: "path_validation_error \<Rightarrow> fs_error" where
  "fs_error_of PathTraversal = FsPathTraversal"
| "fs_error_of PathNotFound = FsNotFound"
| "fs_error_of InvalidPath = FsPathTraversal"

text \<open>\<open>home\<close> is \<open>dirs::home_dir()\<close>.\<close>

definition home_validator :: "fstree \<Rightarrow> abspath \<Rightarrow> fpath option \<Rightarrow> fs_error + path_validator" where
  "home_validator fs cwd home =
    (case home of
       None \<Rightarrow> Inl FsPathTraversal
     | Some h \<Rightarrow> (case new_home fs cwd h of Inl e \<Rightarrow> Inl FsPathTraversal | Inr v \<Rightarrow> Inr v))"

datatype file_node = FileNode string abspath bool "file_node list option" bool

fun fn_path :: "file_node \<Rightarrow> abspath" where
  "fn_path (FileNode name path is_dir children truncated) = path"

text \<open>\<open>fs::read_dir\<close>: the nodes directly below a directory, in some order.\<close>

definition read_dir :: "fstree \<Rightarrow> abspath \<Rightarrow> (string \<times> fnode) list option" where
  "read_dir fs dir =
    (if node_at fs dir = Some Dir
     then Some (map (\<lambda>(p, n). (last p, n)) (filter (\<lambda>(p, n). p \<noteq> [] \<and> butlast p = dir) fs))
     else None)"

definition shown_entry :: "string \<times> fnode \<Rightarrow> bool" where
  "shown_entry e =
    (case e of (name, n) \<Rightarrow>
       \<not> (take 1 name = ''.'' \<or> name \<in> set SKIP_ENTRIES) \<and> (case n of Link a t \<Rightarrow> False | _ \<Rightarrow> True))"

definition tree_entries :: "(string \<times> fnode) list \<Rightarrow> (string \<times> fnode) list" where
  "tree_entries es = sort_key (\<lambda>(name, n). (n \<noteq> Dir, name)) (filter shown_entry es)"

function read_tree_inner :: "fstree \<Rightarrow> abspath \<Rightarrow> nat \<Rightarrow> file_node list option" where
  "read_tree_inner fs dir depth =
    (if MAX_DEPTH \<le> depth then Some []
     else (case read_dir fs dir of
         None \<Rightarrow> None
       | Some es \<Rightarrow> Some (map (\<lambda>(name, n).
           if n = Dir then
             (if MAX_DEPTH \<le> depth + 1 then FileNode name (dir @ [name]) True (Some []) True
              else (case read_tree_inner fs (dir @ [name]) (depth + 1) of
                  Some children \<Rightarrow> FileNode name (dir @ [name]) True (Some children) False
                | None \<Rightarrow> FileNode name (dir @ [name]) True (Some []) True))
           else FileNode name (dir @ [name]) False None False) (tree_entries es))))"
  by pat_completeness auto
termination
  by (relation "measure (\<lambda>(fs, dir, depth). MAX_DEPTH - depth)") auto

declare read_tree_inner.simps [simp del]

definition read_tree :: "fstree \<Rightarrow> abspath \<Rightarrow> fpath option \<Rightarrow> fpath \<Rightarrow> nat \<Rightarrow> fs_error + file_node list" where
  "read_tree fs cwd home dir depth =
    (case home_validator fs cwd home of
       Inl e \<Rightarrow> Inl e
     | Inr v \<Rightarrow>
         (case validate_path fs cwd v dir of
            Inl e \<Rightarrow> Inl (fs_error_of e)
          | Inr canonical \<Rightarrow>
              (case read_tree_inner fs canonical depth of Some ns \<Rightarrow> Inr ns | None \<Rightarrow> Inl FsIo)))"

definition read_file_content ::
  "fstree \<Rightarrow> abspath \<Rightarrow> fpath option \<Rightarrow> fpath \<Rightarrow> fs_error + bytes" where
  "read_file_content fs cwd home p =
    (case home_validator fs cwd home of
       Inl e \<Rightarrow> Inl e
     | Inr v \<Rightarrow>
         (case validate_path fs cwd v p of
            Inl e \<Rightarrow> Inl (fs_error_of e)
          | Inr canonical \<Rightarrow>
              (case node_at fs canonical of
                 Some (File b) \<Rightarrow>
                   if MAX_READ_BYTES < length b then Inl (FsFileTooLarge (length b) MAX_READ_BYTES)
                   else if utf8_valid b then Inr b else Inl FsIo
               | _ \<Rightarrow> Inl FsIo)))"

text \<open>\<open>suffix\<close> is the process number and the clock in the name of the temporary file.\<close>

definition unique_temp_path :: "string \<Rightarrow> abspath \<Rightarrow> abspath" where
  "unique_temp_path suffix path =
    (let file_name = (if path = [] then ''file'' else last path)
     in butlast path @ [file_name @ ''.athena_tmp.'' @ suffix])"

text \<open>\<open>fs::rename\<close>: it replaces a file or a link itself, and fails on a directory.\<close>

definition fs_rename :: "abspath \<Rightarrow> abspath \<Rightarrow> fstree \<Rightarrow> fstree option" where
  "fs_rename from to fs =
    (case node_at fs from of
       None \<Rightarrow> None
     | Some n \<Rightarrow>
         if to = [] \<or> node_at fs to = Some Dir \<or> node_at fs (butlast to) \<noteq> Some Dir then None
         else Some (AList.update to n (AList.delete from fs)))"

definition write_file_content ::
  "string \<Rightarrow> fstree \<Rightarrow> abspath \<Rightarrow> fpath option \<Rightarrow> fpath \<Rightarrow> bytes \<Rightarrow> fstree \<times> (fs_error + unit)" where
  "write_file_content suffix fs cwd home p content =
    (case home_validator fs cwd home of
       Inl e \<Rightarrow> (fs, Inl e)
     | Inr v \<Rightarrow>
         (case validate_write fs cwd v p of
            Inl e \<Rightarrow> (fs, Inl (fs_error_of e))
          | Inr canonical \<Rightarrow>
              let temp_path = unique_temp_path suffix canonical in
              if node_at fs temp_path \<noteq> None \<or> node_at fs (butlast temp_path) \<noteq> Some Dir then (fs, Inl FsIo)
              else
                let fs1 = AList.update temp_path (File content) fs in
                (case fs_rename temp_path canonical fs1 of
                   Some fs2 \<Rightarrow> (fs2, Inr ())
                 | None \<Rightarrow> (AList.delete temp_path fs1, Inl FsIo))))"

definition get_directories :: "fstree \<Rightarrow> abspath \<Rightarrow> fpath option \<Rightarrow> fpath \<Rightarrow> fs_error + string list" where
  "get_directories fs cwd home dir =
    (case home_validator fs cwd home of
       Inl e \<Rightarrow> Inl e
     | Inr v \<Rightarrow>
         (case validate_path fs cwd v dir of
            Inl e \<Rightarrow> Inl (fs_error_of e)
          | Inr canonical \<Rightarrow>
              (case read_dir fs canonical of
                 None \<Rightarrow> Inl FsIo
               | Some es \<Rightarrow> Inr (map fst (filter (\<lambda>(name, n). n = Dir) es)))))"

end
