(* ===== verification/Fs_Props.thy ===== *)
theory Fs_Props
  imports Fs_Path
begin

text \<open>
  What the sandbox promises: a validated path is a real path inside the allowed roots and outside
  the sensitive subtrees, and what the file API reads and writes through it stays there, whatever
  links and \<open>..\<close> components the caller uses.
\<close>

section \<open>Canonical paths\<close>

definition plain :: "string list \<Rightarrow> bool" where
  "plain q \<longleftrightarrow> ''.'' \<notin> set q \<and> ''..'' \<notin> set q"

definition real_dir :: "fstree \<Rightarrow> abspath \<Rightarrow> bool" where
  "real_dir fs p \<longleftrightarrow> plain p \<and> (\<forall>k\<le>length p. node_at fs (take k p) = Some Dir)"

definition canonical :: "fstree \<Rightarrow> abspath \<Rightarrow> bool" where
  "canonical fs q \<longleftrightarrow> real_dir fs q \<or> (q \<noteq> [] \<and> real_dir fs (butlast q) \<and> plain q \<and> (\<exists>b. node_at fs q = Some (File b)))"

lemma real_dir_Nil [simp]: "real_dir fs []"
  by (simp add: real_dir_def plain_def node_at_def)

lemma real_dir_snoc: "real_dir fs (p @ [c]) \<longleftrightarrow> real_dir fs p \<and> plain [c] \<and> node_at fs (p @ [c]) = Some Dir"
  unfolding real_dir_def plain_def by (auto simp: le_Suc_eq)

lemma real_dir_butlast: "real_dir fs p \<Longrightarrow> real_dir fs (butlast p)"
  by (cases p rule: rev_cases) (auto simp: real_dir_snoc)

lemma canonical_plain: "canonical fs q \<Longrightarrow> plain q"
  by (auto simp: canonical_def real_dir_def)

lemma resolve_canonical:
  "real_dir fs cur \<Longrightarrow> resolve fs fuel cur cs = Inr q \<Longrightarrow> canonical fs q"
proof (induction fs fuel cur cs rule: resolve.induct)
  case (1 fs fuel cur)
  then show ?case by (simp add: canonical_def)
next
  case (2 fs fuel cur c cs)
  show ?case
  proof (cases "c = ''.'' \<or> c = ''..''")
    case True
    then show ?thesis using 2 by (auto dest: real_dir_butlast)
  next
    case False
    then have p: "plain [c]" by (auto simp: plain_def)
    show ?thesis
    proof (cases "node_at fs (cur @ [c])")
      case (Some n)
      show ?thesis
      proof (cases n)
        case Dir
        then show ?thesis using 2 False Some p by (simp add: real_dir_snoc)
      next
        case (File b)
        then show ?thesis
          using 2 False Some p by (auto simp: canonical_def plain_def real_dir_def split: if_splits)
      next
        case (Link a t)
        then show ?thesis using 2 False Some by (auto split: if_splits)
      qed
    qed (use 2 False in auto)
  qed
qed

text \<open>Walking a canonical path follows no link and ends at the path itself.\<close>

lemma resolve_real_dir: "real_dir fs (cur @ p) \<Longrightarrow> resolve fs fuel cur (p @ cs) = resolve fs fuel (cur @ p) cs"
proof (induction p arbitrary: cur)
  case (Cons c p)
  have d: "real_dir fs (cur @ [c])"
  proof -
    have "take k (cur @ [c]) = take k (cur @ c # p)" if "k \<le> length (cur @ [c])" for k
      using that by (cases "k - length cur") auto
    then show ?thesis using Cons.prems by (auto simp: real_dir_def plain_def)
  qed
  then have "c \<noteq> ''.''" "c \<noteq> ''..''" "node_at fs (cur @ [c]) = Some Dir" by (auto simp: real_dir_snoc plain_def)
  then show ?case using Cons.IH [of "cur @ [c]"] Cons.prems by simp
qed simp

lemma resolve_idem: "canonical fs q \<Longrightarrow> resolve fs fuel [] q = Inr q"
  unfolding canonical_def
proof (elim disjE conjE exE)
  assume "real_dir fs q"
  then show ?thesis using resolve_real_dir [of fs "[]" q fuel "[]"] by simp
next
  fix b
  assume q: "q \<noteq> []" "real_dir fs (butlast q)" "plain q" "node_at fs q = Some (File b)"
  have "last q \<in> set q" using q(1) by simp
  then have "last q \<noteq> ''.''" "last q \<noteq> ''..''" using q(3) by (auto simp: plain_def)
  then show ?thesis
    using resolve_real_dir [of fs "[]" "butlast q" fuel "[last q]"] q by simp
qed

lemma canonicalize_canonical: "real_dir fs cwd \<Longrightarrow> canonicalize fs cwd p = Inr q \<Longrightarrow> canonical fs q"
  using resolve_canonical [OF real_dir_Nil, of fs 40 "fp_comps p" q] resolve_canonical [of fs cwd 40 "fp_comps p" q]
  by (auto simp: canonicalize_def split: if_splits)

section \<open>What a validator allows\<close>

definition in_sandbox :: "path_validator \<Rightarrow> abspath \<Rightarrow> bool" where
  "in_sandbox v q \<longleftrightarrow>
    (\<exists>r\<in>set (pv_root v # pv_extra_roots v). path_starts_with q r) \<and>
    (pv_deny_sensitive_subtrees v \<longrightarrow> (\<forall>sub\<in>set SENSITIVE_SUBTREES. \<not> path_starts_with q (pv_root v @ [sub])))"

lemma validate_canonical_iff: "validate_canonical v p = Inr q \<longleftrightarrow> q = p \<and> in_sandbox v p"
  by (auto simp: validate_canonical_def in_sandbox_def Let_def list_ex_iff)

text \<open>
  C16. A validated path is real and inside. Whatever path is asked for, when \<open>validate\<close> accepts it,
  the path it returns lies under the root or one of the extra roots, not in a sensitive
  subtree when those are denied, and leads to itself: the walk to it meets no symbolic link.
\<close>

theorem validate_confines:
  assumes "real_dir fs cwd" and "validate_path fs cwd v p = Inr q"
  shows "in_sandbox v q \<and> canonicalize fs cwd p = Inr q \<and> (\<forall>cwd'. canonicalize fs cwd' \<lparr>fp_abs = True, fp_comps = q\<rparr> = Inr q)"
  using assms resolve_idem [OF canonicalize_canonical [OF assms(1)], of p q]
  by (auto simp: validate_path_def validate_canonical_iff canonicalize_def split: sum.splits)

definition demo_tree :: fstree where
  "demo_tree =
    [([''home''], Dir), ([''home'', ''me''], Dir), ([''home'', ''me'', ''a''], File [1]),
     ([''home'', ''me'', ''out''], Link True [''etc'', ''passwd'']), ([''etc''], Dir), ([''etc'', ''passwd''], File [2])]"

theorem validate_confines_witness:
  "in_sandbox \<lparr>pv_root = [''home''], pv_extra_roots = [], pv_deny_sensitive_subtrees = True\<rparr> [''home'', ''me'', ''a'']"
proof -
  have "real_dir demo_tree [''home'']" by (auto simp: real_dir_def plain_def node_at_def demo_tree_def le_Suc_eq)
  moreover have "validate_path demo_tree [''home''] \<lparr>pv_root = [''home''], pv_extra_roots = [], pv_deny_sensitive_subtrees = True\<rparr>
      \<lparr>fp_abs = False, fp_comps = [''me'', ''..'', ''me'', ''a'']\<rparr> = Inr [''home'', ''me'', ''a'']"
    by code_simp
  ultimately show ?thesis using validate_confines by blast
qed

section \<open>Reading a tree\<close>

inductive listed :: "file_node list \<Rightarrow> file_node \<Rightarrow> bool" where
  top: "n \<in> set ns \<Longrightarrow> listed ns n"
| below: "FileNode nm p d (Some cs) t \<in> set ns \<Longrightarrow> listed cs n \<Longrightarrow> listed ns n"

definition shown_name :: "string \<Rightarrow> bool" where
  "shown_name name \<longleftrightarrow> take 1 name \<noteq> ''.'' \<and> name \<notin> set SKIP_ENTRIES"

lemma read_dir_entry:
  assumes "distinct (map fst fs)" "read_dir fs dir = Some es" "(name, n) \<in> set (tree_entries es)"
  shows "node_at fs (dir @ [name]) = Some n \<and> shown_name name \<and> (n = Dir \<or> (\<exists>b. n = File b))"
proof -
  obtain p where p: "(p, n) \<in> set fs" "p \<noteq> []" "butlast p = dir" "last p = name"
    using assms(2,3) by (auto simp: read_dir_def tree_entries_def split: if_splits)
  then have "node_at fs (dir @ [name]) = Some n"
    using assms(1) by (auto simp: node_at_def)
  moreover have "shown_entry (name, n)" using assms(3) by (simp add: tree_entries_def)
  ultimately show ?thesis by (cases n) (auto simp: shown_entry_def shown_name_def)
qed

lemma shown_plain: "shown_name name \<Longrightarrow> plain [name]"
  by (auto simp: shown_name_def plain_def)

lemma read_tree_inner_confined:
  assumes "distinct (map fst fs)"
  shows "read_tree_inner fs dir depth = Some ns \<Longrightarrow> real_dir fs dir \<Longrightarrow> listed ns n \<Longrightarrow>
    \<exists>xs. xs \<noteq> [] \<and> fn_path n = dir @ xs \<and> (\<forall>x\<in>set xs. shown_name x) \<and> length xs + depth \<le> MAX_DEPTH \<and> canonical fs (fn_path n)"
proof (induction "MAX_DEPTH - depth" arbitrary: dir depth ns n rule: less_induct)
  case less
  show ?case
  proof (cases "MAX_DEPTH \<le> depth")
    case True
    then have "ns = []" using less.prems(1) by (simp add: read_tree_inner.simps)
    then show ?thesis using less.prems(3) by (auto elim: listed.cases)
  next
    case False
    then obtain es where es: "read_dir fs dir = Some es"
      using less.prems(1) by (auto simp: read_tree_inner.simps [of fs dir] split: option.splits)
    define mk where "mk = (\<lambda>(name, n). if n = Dir then
             (if MAX_DEPTH \<le> depth + 1 then FileNode name (dir @ [name]) True (Some []) True
              else (case read_tree_inner fs (dir @ [name]) (depth + 1) of
                  Some children \<Rightarrow> FileNode name (dir @ [name]) True (Some children) False
                | None \<Rightarrow> FileNode name (dir @ [name]) True (Some []) True))
           else FileNode name (dir @ [name]) False None False)"
    have ns: "ns = map mk (tree_entries es)"
      using less.prems(1) False es by (simp add: read_tree_inner.simps [of fs dir] mk_def)
    have entry: "node_at fs (dir @ [name]) = Some k \<and> shown_name name \<and> (k = Dir \<or> (\<exists>b. k = File b))"
      if "(name, k) \<in> set (tree_entries es)" for name k
      by (rule read_dir_entry [OF assms es that])
    have path: "fn_path (mk (name, k)) = dir @ [name]" for name k
      by (auto simp: mk_def split: option.split)
    have can: "canonical fs (dir @ [name])" if "(name, k) \<in> set (tree_entries es)" for name k
    proof -
      have "plain (dir @ [name])"
        using entry [OF that] less.prems(2) shown_plain [of name] by (auto simp: plain_def real_dir_def)
      then show ?thesis using entry [OF that] less.prems(2) by (auto simp: canonical_def real_dir_snoc plain_def)
    qed
    from less.prems(3) show ?thesis
    proof cases
      case top
      then obtain name k where "(name, k) \<in> set (tree_entries es)" "n = mk (name, k)" by (auto simp: ns)
      then show ?thesis using entry can False by (intro exI [of _ "[name]"]) (auto simp: path)
    next
      case (below nm p d cs t)
      then obtain name k where k: "(name, k) \<in> set (tree_entries es)" "FileNode nm p d (Some cs) t = mk (name, k)"
        by (auto simp: ns)
      from below(2) have "cs \<noteq> []" by (auto elim: listed.cases)
      then have kd: "k = Dir" "\<not> MAX_DEPTH \<le> depth + 1" "read_tree_inner fs (dir @ [name]) (depth + 1) = Some cs"
        using k(2) by (auto simp: mk_def split: if_splits option.splits)
      have "real_dir fs (dir @ [name])"
        using entry [OF k(1)] kd(1) less.prems(2) shown_plain by (auto simp: real_dir_snoc)
      moreover have "MAX_DEPTH - (depth + 1) < MAX_DEPTH - depth" using False by simp
      ultimately obtain xs where
        "fn_path n = (dir @ [name]) @ xs" "\<forall>x\<in>set xs. shown_name x" "length xs + (depth + 1) \<le> MAX_DEPTH" "canonical fs (fn_path n)"
        using less.hyps [OF _ kd(3) _ below(2)] by blast
      then show ?thesis using entry [OF k(1)] by (intro exI [of _ "name # xs"]) auto
    qed
  qed
qed

lemma home_validator_fields:
  "home_validator fs cwd home = Inr v \<Longrightarrow> pv_extra_roots v = [] \<and> pv_deny_sensitive_subtrees v"
  by (auto simp: home_validator_def new_home_def validator_new_def split: option.splits sum.splits)

lemma sandbox_below:
  assumes "pv_extra_roots v = []" "in_sandbox v dir" "\<forall>x\<in>set xs. shown_name x"
  shows "in_sandbox v (dir @ xs)"
proof -
  have root: "take (length (pv_root v)) dir = pv_root v"
    using assms(1,2) by (simp add: in_sandbox_def path_starts_with_def)
  then have le: "length (pv_root v) \<le> length dir" by (metis length_take min.cobounded1)
  have "\<not> path_starts_with (dir @ xs) (pv_root v @ [sub])"
    if sub: "sub \<in> set SENSITIVE_SUBTREES" "pv_deny_sensitive_subtrees v" for sub
  proof (cases "length (pv_root v) < length dir")
    case True
    then show ?thesis using assms(2) sub by (auto simp: in_sandbox_def path_starts_with_def)
  next
    case False
    then have "take (length (pv_root v)) dir = dir" by simp
    then have "dir = pv_root v" using root by (rule subst)
    then show ?thesis
      using assms(3) sub by (cases xs) (auto simp: path_starts_with_def SENSITIVE_SUBTREES_def shown_name_def)
  qed
  then show ?thesis using root le assms(1) by (auto simp: in_sandbox_def path_starts_with_def)
qed

text \<open>
  A listing stays inside. Every node of the tree that \<open>read_tree\<close> returns, at any depth, is a real
  file or directory in the sandbox of the home directory, at most six levels below the start,
  and no component below the start is hidden or one of the skipped names; so no link and no
  sensitive subtree is ever listed.
\<close>

theorem read_tree_confined:
  assumes "distinct (map fst fs)" and "real_dir fs cwd"
    and "read_tree fs cwd home dir depth = Inr ns" and "listed ns n" and "ns \<noteq> []"
  shows "\<exists>v start xs. home_validator fs cwd home = Inr v \<and> canonicalize fs cwd dir = Inr start \<and>
    fn_path n = start @ xs \<and> length xs + depth \<le> 6 \<and> (\<forall>x\<in>set xs. shown_name x) \<and>
    in_sandbox v (fn_path n) \<and> canonical fs (fn_path n)"
proof -
  obtain v q where v: "home_validator fs cwd home = Inr v" and q: "canonicalize fs cwd dir = Inr q" "in_sandbox v q"
    and t: "read_tree_inner fs q depth = Some ns"
    using assms(3)
    by (auto simp: read_tree_def validate_path_def validate_canonical_iff split: sum.splits option.splits)
  have "node_at fs q = Some Dir"
    using t assms(5) by (auto simp: read_tree_inner.simps [of fs q] read_dir_def split: if_splits)
  then have "real_dir fs q" using canonicalize_canonical [OF assms(2) q(1)] by (auto simp: canonical_def)
  from read_tree_inner_confined [OF assms(1) t this assms(4)] obtain xs where
    xs: "fn_path n = q @ xs" "\<forall>x\<in>set xs. shown_name x" "length xs + depth \<le> MAX_DEPTH" "canonical fs (fn_path n)" by blast
  have "in_sandbox v (q @ xs)"
    by (rule sandbox_below) (use home_validator_fields [OF v] q(2) xs(2) in auto)
  then show ?thesis using v q(1) xs by (auto simp: MAX_DEPTH_def)
qed

theorem read_tree_confined_witness:
  "canonical demo_tree [''home'', ''me'', ''a'']"
proof -
  have d: "real_dir demo_tree [''home'']" by (auto simp: real_dir_def plain_def node_at_def demo_tree_def le_Suc_eq)
  have t: "read_tree demo_tree [''home''] (Some \<lparr>fp_abs = True, fp_comps = [''home'']\<rparr>)
      \<lparr>fp_abs = False, fp_comps = [''me'']\<rparr> 0 = Inr [FileNode ''a'' [''home'', ''me'', ''a''] False None False]"
    by code_simp
  have "distinct (map fst demo_tree)" by (simp add: demo_tree_def)
  from read_tree_confined [OF this d t listed.top] show ?thesis by auto
qed

section \<open>Writing\<close>

lemma temp_path_neq: "q \<noteq> [] \<Longrightarrow> unique_temp_path suffix q \<noteq> q"
proof -
  assume "q \<noteq> []"
  then have "length (last (unique_temp_path suffix q)) \<noteq> length (last q)"
    by (simp add: unique_temp_path_def Let_def)
  then show ?thesis by metis
qed

lemma validate_write_parent:
  assumes "real_dir fs cwd" "validate_write fs cwd v p = Inr q" "node_at fs (butlast q) = Some Dir"
  shows "in_sandbox v q \<and> real_dir fs (butlast q)"
proof -
  have "canonical fs q \<or> canonical fs (butlast q)"
    using assms(1,2) canonicalize_canonical [OF assms(1)]
    by (auto simp: validate_write_def validate_canonical_iff split: if_splits sum.splits option.splits)
  then have "real_dir fs (butlast q)"
    using assms(3) by (auto simp: canonical_def intro: real_dir_butlast)
  then show ?thesis
    using assms(2) by (auto simp: validate_write_def validate_canonical_iff split: if_splits sum.splits option.splits)
qed



end
