(* ===== verification/Swarm.thy ===== *)
theory Swarm
  imports Store_Crash
begin

text \<open>
  \<open>crates/athena-core/src/swarm.rs\<close>: the coordinator of multi-agent missions. A mission is a
  JSON file per workspace, replaced as a whole under a lock per workspace; every agent has a mailbox
  file; a watcher per workspace marks agents that have gone silent. The lock makes each operation
  one atomic step. The files lie on the disks of the file model, one for \<open>.ade\<close> and one for
  \<open>.ade/mailbox\<close> of each workspace; \<open>to_string\<close> and \<open>from_str\<close> are those of \<open>serde_json\<close>.
  Text is a list of Unicode code points, a time an \<open>i64\<close> of milliseconds.
\<close>

section \<open>Data\<close>

definition STALLED_TIMEOUT_MS :: nat where
  "STALLED_TIMEOUT_MS = 90000"

definition MAX_ID_BYTES :: nat where
  "MAX_ID_BYTES = 128"

definition MAX_CONTENT_BYTES :: nat where
  "MAX_CONTENT_BYTES = 64 * 1024"

datatype swarm_error =
    SwIo
  | SwJson
  | SwAgentNotFound ustr
  | SwTaskNotFound ustr
  | SwInvalidIdentifier ustr
  | SwContentTooLarge nat

record 'v swarm_agent =
  sa_id :: ustr
  sa_role :: ustr
  sa_agent_type :: ustr
  sa_pane_id :: ustr
  sa_status :: ustr
  sa_current_task :: "ustr option"
  sa_last_action :: ustr
  sa_last_action_at :: int
  sa_extra :: "(ustr \<times> 'v) list"

record swarm_task =
  sk_id :: ustr
  sk_title :: ustr
  sk_description :: ustr
  sk_assigned_agent_id :: ustr
  sk_owned_files :: "ustr list"
  sk_status :: ustr
  sk_depends_on :: "ustr list"
  sk_created_at :: int
  sk_completed_at :: "int option"
  sk_last_updated_at :: int

record mailbox_message =
  mm_id :: ustr
  mm_from :: ustr
  mm_to :: ustr
  mm_content :: ustr
  mm_timestamp :: int
  mm_read :: bool

record 'v swarm_state =
  ss_id :: ustr
  ss_workspace_dir :: ustr
  ss_goal :: ustr
  ss_agents :: "'v swarm_agent list"
  ss_tasks :: "swarm_task list"
  ss_messages :: "mailbox_message list"
  ss_status :: ustr
  ss_started_at :: int
  ss_revision :: u64
  ss_extra :: "(ustr \<times> 'v) list"

definition validate_identifier :: "ustr \<Rightarrow> swarm_error option" where
  "validate_identifier value =
    (if value = [] \<or> MAX_ID_BYTES < str_len value \<or> value = lit ''.'' \<or> value = lit ''..'' \<or>
        cp CHR ''/'' \<in> set value \<or> 0x5C \<in> set value \<or> list_ex is_control value
     then Some (SwInvalidIdentifier value) else None)"

definition validate_content :: "ustr \<Rightarrow> swarm_error option" where
  "validate_content value =
    (if MAX_CONTENT_BYTES < str_len value then Some (SwContentTooLarge MAX_CONTENT_BYTES) else None)"

text \<open>The first error of a sequence of checks.\<close>

fun first_error :: "swarm_error option list \<Rightarrow> swarm_error option" where
  "first_error [] = None"
| "first_error (Some e # es) = Some e"
| "first_error (None # es) = first_error es"

section \<open>The coordinator\<close>

record 'v swarm_codec =
  sc_to_string :: "'v swarm_state \<Rightarrow> bytes option"
  sc_from_str :: "bytes \<Rightarrow> 'v swarm_state option"
  sc_box_to_string :: "mailbox_message list \<Rightarrow> bytes option"
  sc_box_from_str :: "bytes \<Rightarrow> mailbox_message list option"

record swarm_sys =
  sw_ade :: "ustr \<Rightarrow> disk"
  sw_mailbox :: "ustr \<Rightarrow> disk"

definition state_file :: fname where
  "state_file = bytes_of ''swarm-state.json''"

definition read_state_unlocked :: "'v swarm_codec \<Rightarrow> ustr \<Rightarrow> swarm_sys \<Rightarrow> swarm_error + 'v swarm_state option" where
  "read_state_unlocked co dir sys =
    (case read_file (sw_ade sys dir) state_file of
       None \<Rightarrow> Inr None
     | Some content \<Rightarrow>
         if \<not> utf8_valid content then Inl SwIo
         else (case sc_from_str co content of Some st \<Rightarrow> Inr (Some st) | None \<Rightarrow> Inl SwJson))"

definition replace_ops :: "fname \<Rightarrow> fname \<Rightarrow> bytes \<Rightarrow> fs_op list" where
  "replace_ops tmp_path path content =
    [CreateTrunc tmp_path, WriteAll tmp_path content, SyncFile tmp_path, Rename tmp_path path]"

text \<open>One replacement of a file; nothing cleans up after a failure.\<close>

definition replace_file :: "io_env \<Rightarrow> fname \<Rightarrow> bytes \<Rightarrow> disk \<Rightarrow> disk \<times> bool" where
  "replace_file env path content fs =
    run_ops (io_fault env) (replace_ops (path @ bytes_of ''.tmp.'' @ io_uuid env) path content) fs"

definition write_state_unlocked ::
  "'v swarm_codec \<Rightarrow> io_env \<Rightarrow> ustr \<Rightarrow> 'v swarm_state \<Rightarrow> swarm_sys \<Rightarrow> swarm_sys \<times> swarm_error option" where
  "write_state_unlocked co env dir st sys =
    (case sc_to_string co st of
       None \<Rightarrow> (sys, Some SwJson)
     | Some content \<Rightarrow>
         (case replace_file env state_file content (sw_ade sys dir) of
            (fs', ok) \<Rightarrow> (sys\<lparr>sw_ade := (sw_ade sys)(dir := fs')\<rparr>, if ok then None else Some SwIo)))"

definition sat_inc64 :: "u64 \<Rightarrow> u64" where
  "sat_inc64 r = sat_add64 r 1"

text \<open>The result of an operation: the new state of the files and the mission as it is emitted.\<close>

type_synonym 'v swarm_result = "swarm_sys \<times> (swarm_error + 'v swarm_state)"

definition commit_state ::
  "'v swarm_codec \<Rightarrow> io_env \<Rightarrow> ustr \<Rightarrow> 'v swarm_state \<Rightarrow> swarm_sys \<Rightarrow> 'v swarm_result" where
  "commit_state co env dir st sys =
    (case write_state_unlocked co env dir st sys of
       (sys', Some e) \<Rightarrow> (sys', Inl e)
     | (sys', None) \<Rightarrow> (sys', Inr st))"

definition create_swarm ::
  "'v swarm_codec \<Rightarrow> io_env \<Rightarrow> int \<Rightarrow> ustr \<Rightarrow> 'v swarm_state \<Rightarrow> swarm_sys \<Rightarrow> 'v swarm_result" where
  "create_swarm co env now dir st sys =
    (case first_error ([validate_identifier (ss_id st), validate_content dir, validate_content (ss_goal st)] @
           concat (map (\<lambda>a. [validate_identifier (sa_id a), validate_identifier (sa_pane_id a)]) (ss_agents st))) of
       Some e \<Rightarrow> (sys, Inl e)
     | None \<Rightarrow>
         commit_state co env dir
           (st\<lparr>ss_workspace_dir := dir,
               ss_revision := max (sat_inc64 (ss_revision st)) 1,
               ss_started_at := (if ss_started_at st = 0 then now else ss_started_at st),
               ss_status := (if ss_status st = [] then lit ''active'' else ss_status st)\<rparr>) sys)"

definition AGENT_STATUSES :: "ustr list" where
  "AGENT_STATUSES = map lit [''idle'', ''thinking'', ''writing'', ''waiting'', ''done'', ''blocked'', ''stalled'']"

definition edit_agent ::
  "int \<Rightarrow> ustr option \<Rightarrow> ustr option \<Rightarrow> ustr option option \<Rightarrow> 'v swarm_agent \<Rightarrow> 'v swarm_agent" where
  "edit_agent now status last_action current_task a =
    (let a1 = (case status of Some v \<Rightarrow> a\<lparr>sa_status := v\<rparr> | None \<Rightarrow> a);
         a2 = (case last_action of Some v \<Rightarrow> a1\<lparr>sa_last_action := v\<rparr> | None \<Rightarrow> a1);
         a3 = (case current_task of Some v \<Rightarrow> a2\<lparr>sa_current_task := v\<rparr> | None \<Rightarrow> a2)
     in a3\<lparr>sa_last_action_at := now\<rparr>)"

definition update_agent ::
  "'v swarm_codec \<Rightarrow> io_env \<Rightarrow> int \<Rightarrow> ustr \<Rightarrow> ustr \<Rightarrow> ustr option \<Rightarrow> ustr option \<Rightarrow> ustr option option \<Rightarrow>
    swarm_sys \<Rightarrow> 'v swarm_result" where
  "update_agent co env now dir agent_id status last_action current_task sys =
    (case first_error [validate_identifier agent_id,
           (case last_action of Some action \<Rightarrow> validate_content action | None \<Rightarrow> None)] of
       Some e \<Rightarrow> (sys, Inl e)
     | None \<Rightarrow>
         (case read_state_unlocked co dir sys of
            Inl e \<Rightarrow> (sys, Inl e)
          | Inr None \<Rightarrow> (sys, Inl (SwAgentNotFound agent_id))
          | Inr (Some st) \<Rightarrow>
              if \<not> list_ex (\<lambda>a. sa_id a = agent_id) (ss_agents st) then (sys, Inl (SwAgentNotFound agent_id))
              else (case status of
                  Some v \<Rightarrow>
                    if v \<notin> set AGENT_STATUSES then (sys, Inl (SwInvalidIdentifier v))
                    else commit_state co env dir
                      (st\<lparr>ss_agents := update_first (\<lambda>a. sa_id a = agent_id) (edit_agent now status last_action current_task) (ss_agents st),
                          ss_revision := sat_inc64 (ss_revision st)\<rparr>) sys
                | None \<Rightarrow> commit_state co env dir
                      (st\<lparr>ss_agents := update_first (\<lambda>a. sa_id a = agent_id) (edit_agent now status last_action current_task) (ss_agents st),
                          ss_revision := sat_inc64 (ss_revision st)\<rparr>) sys)))"

definition missing_state :: "swarm_error" where
  "missing_state = SwInvalidIdentifier (lit ''swarm state does not exist'')"

definition set_swarm_status ::
  "'v swarm_codec \<Rightarrow> io_env \<Rightarrow> ustr \<Rightarrow> ustr \<Rightarrow> swarm_sys \<Rightarrow> 'v swarm_result" where
  "set_swarm_status co env dir status sys =
    (if status \<notin> set (map lit [''active'', ''paused'', ''completed'', ''cancelled'']) then (sys, Inl (SwInvalidIdentifier status))
     else (case read_state_unlocked co dir sys of
         Inl e \<Rightarrow> (sys, Inl e)
       | Inr None \<Rightarrow> (sys, Inl missing_state)
       | Inr (Some st) \<Rightarrow>
           commit_state co env dir (st\<lparr>ss_status := status, ss_revision := sat_inc64 (ss_revision st)\<rparr>) sys))"

text \<open>\<open>uuid\<close> is the random part of a generated identifier.\<close>

definition swarm_create_task ::
  "'v swarm_codec \<Rightarrow> io_env \<Rightarrow> int \<Rightarrow> ustr \<Rightarrow> ustr \<Rightarrow> ustr \<Rightarrow> ustr \<Rightarrow> ustr \<Rightarrow> swarm_sys \<Rightarrow> 'v swarm_result" where
  "swarm_create_task co env now uuid dir title description assigned_agent_id sys =
    (case first_error [validate_content title, validate_content description, validate_identifier assigned_agent_id] of
       Some e \<Rightarrow> (sys, Inl e)
     | None \<Rightarrow>
         (case read_state_unlocked co dir sys of
            Inl e \<Rightarrow> (sys, Inl e)
          | Inr None \<Rightarrow> (sys, Inl missing_state)
          | Inr (Some st) \<Rightarrow>
              if \<not> list_ex (\<lambda>a. sa_id a = assigned_agent_id) (ss_agents st) then (sys, Inl (SwAgentNotFound assigned_agent_id))
              else commit_state co env dir
                (st\<lparr>ss_tasks := ss_tasks st @
                     [\<lparr>sk_id = lit ''task-'' @ uuid, sk_title = title, sk_description = description,
                       sk_assigned_agent_id = assigned_agent_id, sk_owned_files = [], sk_status = lit ''queued'',
                       sk_depends_on = [], sk_created_at = now, sk_completed_at = None, sk_last_updated_at = now\<rparr>],
                    ss_revision := sat_inc64 (ss_revision st)\<rparr>) sys))"

definition TASK_STATUSES :: "ustr list" where
  "TASK_STATUSES = map lit [''queued'', ''building'', ''review'', ''done'', ''blocked'', ''stalled'']"

definition swarm_update_task ::
  "'v swarm_codec \<Rightarrow> io_env \<Rightarrow> int \<Rightarrow> ustr \<Rightarrow> ustr \<Rightarrow> ustr \<Rightarrow> swarm_sys \<Rightarrow> 'v swarm_result" where
  "swarm_update_task co env now dir task_id status sys =
    (case validate_identifier task_id of
       Some e \<Rightarrow> (sys, Inl e)
     | None \<Rightarrow>
         if status \<notin> set TASK_STATUSES then (sys, Inl (SwInvalidIdentifier status))
         else (case read_state_unlocked co dir sys of
             Inl e \<Rightarrow> (sys, Inl e)
           | Inr None \<Rightarrow> (sys, Inl (SwTaskNotFound task_id))
           | Inr (Some st) \<Rightarrow>
               if \<not> list_ex (\<lambda>t. sk_id t = task_id) (ss_tasks st) then (sys, Inl (SwTaskNotFound task_id))
               else commit_state co env dir
                 (st\<lparr>ss_tasks := update_first (\<lambda>t. sk_id t = task_id)
                       (\<lambda>t. t\<lparr>sk_status := status, sk_last_updated_at := now,
                              sk_completed_at := (if status = lit ''done'' then Some now else None)\<rparr>) (ss_tasks st),
                     ss_revision := sat_inc64 (ss_revision st)\<rparr>) sys))"

section \<open>Mailboxes\<close>

definition mailbox_file :: "ustr \<Rightarrow> fname" where
  "mailbox_file agent = utf8_string agent @ bytes_of ''.json''"

text \<open>
  The critical section under the file lock: read the box, a box that does not parse being moved
  aside, append the message, replace the file.
\<close>

definition deliver ::
  "'v swarm_codec \<Rightarrow> io_env \<Rightarrow> mailbox_message \<Rightarrow> disk \<Rightarrow> disk \<times> swarm_error option" where
  "deliver co env msg fs =
    (let path = mailbox_file (mm_to msg);
         append = (\<lambda>fs1 messages.
           (case sc_box_to_string co (messages @ [msg]) of
              None \<Rightarrow> (fs1, Some SwJson)
            | Some content \<Rightarrow>
                (case replace_file env path content fs1 of (fs2, ok) \<Rightarrow> (fs2, if ok then None else Some SwIo))))
     in case read_file fs path of
          None \<Rightarrow> append fs []
        | Some content \<Rightarrow>
            if \<not> utf8_valid content then (fs, Some SwIo)
            else (case sc_box_from_str co content of
                Some messages \<Rightarrow> append fs messages
              | None \<Rightarrow> append (fs_try (Rename path (path @ bytes_of ''.corrupt'')) fs) []))"

text \<open>\<open>box_env\<close> and \<open>env\<close> are the circumstances of the two writes.\<close>

definition send_message ::
  "'v swarm_codec \<Rightarrow> io_env \<Rightarrow> io_env \<Rightarrow> int \<Rightarrow> ustr \<Rightarrow> ustr \<Rightarrow> ustr \<Rightarrow> ustr \<Rightarrow> ustr \<Rightarrow> swarm_sys \<Rightarrow>
    swarm_sys \<times> (swarm_error + 'v swarm_state)" where
  "send_message co box_env env now uuid dir from to msg sys =
    (case first_error [validate_identifier from, validate_identifier to, validate_content msg] of
       Some e \<Rightarrow> (sys, Inl e)
     | None \<Rightarrow>
         (case read_state_unlocked co dir sys of
            Inl e \<Rightarrow> (sys, Inl e)
          | Inr None \<Rightarrow> (sys, Inl missing_state)
          | Inr (Some st) \<Rightarrow>
              if \<not> list_ex (\<lambda>a. sa_id a = from) (ss_agents st) then (sys, Inl (SwAgentNotFound from))
              else if \<not> list_ex (\<lambda>a. sa_id a = to) (ss_agents st) then (sys, Inl (SwAgentNotFound to))
              else
                let m = \<lparr>mm_id = lit ''msg-'' @ uuid, mm_from = from, mm_to = to, mm_content = msg, mm_timestamp = now, mm_read = False\<rparr>
                in case deliver co box_env m (sw_mailbox sys dir) of
                     (fs', Some e) \<Rightarrow> (sys\<lparr>sw_mailbox := (sw_mailbox sys)(dir := fs')\<rparr>, Inl e)
                   | (fs', None) \<Rightarrow>
                       commit_state co env dir
                         (st\<lparr>ss_messages := ss_messages st @ [m], ss_revision := sat_inc64 (ss_revision st)\<rparr>)
                         (sys\<lparr>sw_mailbox := (sw_mailbox sys)(dir := fs')\<rparr>)))"

definition read_mailbox ::
  "'v swarm_codec \<Rightarrow> ustr \<Rightarrow> ustr \<Rightarrow> swarm_sys \<Rightarrow> swarm_error + mailbox_message list" where
  "read_mailbox co dir agent_id sys =
    (case validate_identifier agent_id of
       Some e \<Rightarrow> Inl e
     | None \<Rightarrow>
         (case read_state_unlocked co dir sys of
            Inl e \<Rightarrow> Inl e
          | Inr None \<Rightarrow> Inl missing_state
          | Inr (Some st) \<Rightarrow>
              if \<not> list_ex (\<lambda>a. sa_id a = agent_id) (ss_agents st) then Inl (SwAgentNotFound agent_id)
              else (case read_file (sw_mailbox sys dir) (mailbox_file agent_id) of
                  None \<Rightarrow> Inr []
                | Some content \<Rightarrow>
                    if \<not> utf8_valid content then Inl SwIo
                    else (case sc_box_from_str co content of Some ms \<Rightarrow> Inr ms | None \<Rightarrow> Inl SwJson))))"

section \<open>The watcher\<close>

definition sat_sub_i64 :: "int \<Rightarrow> int \<Rightarrow> int" where
  "sat_sub_i64 a b = max (- (2 ^ 63)) (min (2 ^ 63 - 1) (a - b))"

text \<open>The cast of an \<open>i64\<close> to \<open>u64\<close> keeps the bits.\<close>

definition i64_as_u64 :: "int \<Rightarrow> nat" where
  "i64_as_u64 x = nat (x mod 2 ^ 64)"

definition is_stalled :: "int \<Rightarrow> 'v swarm_agent \<Rightarrow> bool" where
  "is_stalled now a \<longleftrightarrow>
    sa_status a \<noteq> lit ''done'' \<and> sa_status a \<noteq> lit ''stalled'' \<and> 0 < sa_last_action_at a \<and>
    STALLED_TIMEOUT_MS < i64_as_u64 (sat_sub_i64 now (sa_last_action_at a))"

definition mark_stalled :: "'v swarm_agent \<Rightarrow> 'v swarm_agent" where
  "mark_stalled a = a\<lparr>sa_status := lit ''stalled'', sa_last_action := lit ''No activity detected''\<rparr>"

text \<open>
  One round of the watcher that is still current: the file after it, and the state it broadcasts, if any.
  \<open>last\<close> is the revision it broadcast last.
\<close>

definition watch_tick ::
  "'v swarm_codec \<Rightarrow> io_env \<Rightarrow> int \<Rightarrow> ustr \<Rightarrow> u64 option \<Rightarrow> swarm_sys \<Rightarrow>
    swarm_sys \<times> u64 option \<times> 'v swarm_state option" where
  "watch_tick co env now dir last_emitted sys =
    (case read_state_unlocked co dir sys of
       Inl e \<Rightarrow> (sys, last_emitted, None)
     | Inr None \<Rightarrow> (sys, last_emitted, None)
     | Inr (Some st) \<Rightarrow>
         let agents = map (\<lambda>a. if is_stalled now a then mark_stalled a else a) (ss_agents st);
             modified = list_ex (is_stalled now) (ss_agents st);
             st1 = (if modified then st\<lparr>ss_agents := agents, ss_revision := sat_inc64 (ss_revision st)\<rparr> else st);
             (sys1, failed) = (if modified then write_state_unlocked co env dir st1 sys else (sys, None))
         in if failed \<noteq> None then (sys1, last_emitted, None)
            else if last_emitted = Some (ss_revision st1) then (sys1, last_emitted, None)
            else (sys1, Some (ss_revision st1), Some st1))"

end
