(* ===== verification/Swarm_Props.thy ===== *)
theory Swarm_Props
  imports Swarm
begin

text \<open>
  What the coordinator promises: an operation either commits exactly the mission it returns, with
  the next revision, or leaves the mission as it was; a message that is sent arrives at the end
  of the mailbox and of the feed.
\<close>

section \<open>Replacing a file\<close>

lemma create_trunc_fresh: "map_of (d_dir fs) t = None \<Longrightarrow> fs_exec (CreateTrunc t) fs = fs_exec (CreateNew t) fs"
  by simp

lemma rename_other:
  assumes "fs_exec (Rename t path) fs = Some fs'" "n \<noteq> t" "n \<noteq> path"
  shows "read_file fs' n = read_file fs n"
  using assms by (auto simp: read_file_def set_dir_def update_conv' delete_conv')

lemma temp_steps_other:
  assumes wf: "disk_wf fs" and c: "fs_exec (CreateNew t) fs = Some fs1" and n: "n \<noteq> t"
    and w: "fs_exec (WriteAll t d) fs1 = Some fs2" and y: "fs_exec (SyncFile t) fs2 = Some fs3"
  shows "read_file fs1 n = read_file fs n \<and> read_file fs2 n = read_file fs n \<and> read_file fs3 n = read_file fs n"
proof -
  have c1: "read_file fs1 n = read_file fs n" "unshared t n fs1" using create_temp [OF wf _ c] n by auto
  have wf1: "disk_wf fs1" by (rule disk_wf_exec [OF wf c])
  have w1: "read_file fs2 n = read_file fs1 n" "unshared t n fs2" using write_temp [OF wf1 c1(2) w] by auto
  have "read_file fs3 n = read_file fs2 n"
    using write_temp [OF disk_wf_exec [OF wf1 w] w1(2) y] by auto
  then show ?thesis using c1 w1 by simp
qed

definition temp_of :: "io_env \<Rightarrow> fname \<Rightarrow> fname" where
  "temp_of env path = path @ bytes_of ''.tmp.'' @ io_uuid env"

lemma temp_of_neq [simp]: "temp_of env path \<noteq> path"
proof -
  have "length (temp_of env path) \<noteq> length path" by (simp add: temp_of_def)
  then show ?thesis by metis
qed

lemma fault_cases:
  obtains "fault = None \<or> (\<exists>i k. fault = Some (i + n, k))" | i k where "fault = Some (i, k)" "i < (n :: nat)"
  by (cases fault) (auto, metis add.commute le_add_diff_inverse linorder_not_less)

text \<open>Where the four operations can stop: at the end, or before the rename.\<close>

lemma replace_ops_stops:
  assumes c: "fs_exec (CreateTrunc t) fs = Some fs1" "fs_exec (WriteAll t content) fs1 = Some fs2"
      "fs_exec (SyncFile t) fs2 = Some fs3" "fs_exec (Rename t path) fs3 = Some fs4"
    and run: "run_ops fault (replace_ops t path content) fs = (fs', ok)"
  shows "(ok \<and> fs' = fs4) \<or> (\<not> ok \<and> (fs' \<in> {fs, fs1, fs2, fs3} \<or> (\<exists>k. fs' = fs_try (WriteAll t (take k content)) fs1)))"
proof (rule fault_cases [of fault 4])
  fix i k assume ik: "fault = Some (i, k)" "i < 4"
  then consider "i = 0" | "i = 1" | "i = 2" | "i = 3" by linarith
  then show ?thesis
    using run ik c by cases (auto simp: replace_ops_def numeral_eq_Suc simp del: fs_exec.simps)
qed (use run c in \<open>auto simp: replace_ops_def numeral_eq_Suc simp del: fs_exec.simps\<close>)

lemma replace_file_effect:
  assumes wf: "disk_wf fs" and fresh: "map_of (d_dir fs) (temp_of env path) = None"
    and r: "replace_file env path content fs = (fs', ok)"
  shows "disk_wf fs' \<and> read_file fs' path = (if ok then Some content else read_file fs path) \<and>
    (\<forall>n. n \<noteq> path \<longrightarrow> n \<noteq> temp_of env path \<longrightarrow> read_file fs' n = read_file fs n) \<and>
    power_loss fs' path \<subseteq> insert (Intact content) (power_loss fs path)"
proof -
  let ?t = "temp_of env path"
  have run: "run_ops (io_fault env) (replace_ops ?t path content) fs = (fs', ok)"
    using r by (simp add: replace_file_def temp_of_def)
  have wf': "disk_wf fs'" using disk_wf_run [OF wf, of "io_fault env" "replace_ops ?t path content"] run by simp
  obtain fs1 where c: "fs_exec (CreateNew ?t) fs = Some fs1" using fresh by simp
  from temp_chain [OF wf temp_of_neq c, of content] obtain fs2 fs3 fs4 where
    e: "fs_exec (WriteAll ?t content) fs1 = Some fs2" "fs_exec (SyncFile ?t) fs2 = Some fs3"
      "fs_exec (Rename ?t path) fs3 = Some fs4"
    and o: "old_or_new path content fs fs1" "\<And>k. old_or_new path content fs (fs_try (WriteAll ?t (take k content)) fs1)"
      "old_or_new path content fs fs2" "old_or_new path content fs fs3" "old_or_new path content fs fs4" by metis
  have o0: "old_or_new path content fs fs" using wf by (simp add: old_or_new_def)
  have wf1: "disk_wf fs1" by (rule disk_wf_exec [OF wf c])
  have oth: "read_file g n = read_file fs n" if "n \<noteq> ?t" "g \<in> {fs, fs1, fs2, fs3}" for n g
    using that temp_steps_other [OF wf c that(1) e(1,2)] by auto
  have cut: "read_file (fs_try (WriteAll ?t (take k content)) fs1) n = read_file fs n" if "n \<noteq> ?t" for k n
  proof -
    obtain g where g: "fs_exec (WriteAll ?t (take k content)) fs1 = Some g" using e(1) by (auto simp del: fun_upd_apply)
    have "read_file fs1 n = read_file fs n" "unshared ?t n fs1" using create_temp [OF wf _ c] that by auto
    then show ?thesis using write_temp [OF wf1 _ g, of ?t n "take k content"] g by (auto simp: fs_try_def)
  qed
  have new: "read_file fs4 path = Some content"
  proof -
    obtain i where i: "map_of (d_dir fs1) ?t = Some i" using e(1) by auto
    have "read_file fs1 ?t = Some []" using create_temp [OF wf _ c, of path] by simp
    then have "d_data fs1 i = []" using i by (simp add: read_file_def)
    then show ?thesis using e i by (auto simp: read_file_def set_dir_def update_conv')
  qed
  from replace_ops_stops [OF _ e run] c create_trunc_fresh [OF fresh]
  have stops: "(ok \<and> fs' = fs4) \<or> (\<not> ok \<and> (fs' \<in> {fs, fs1, fs2, fs3} \<or> (\<exists>k. fs' = fs_try (WriteAll ?t (take k content)) fs1)))"
    by simp
  have "old_or_new path content fs fs'" using stops o o0 by auto
  moreover have "read_file fs' n = read_file fs n" if "n \<noteq> path" "n \<noteq> ?t" for n
    using stops
  proof (elim disjE conjE exE)
    assume "fs' = fs4"
    then show ?thesis using rename_other [OF e(3) that(2,1)] oth [OF that(2), of fs3] by simp
  qed (use oth [OF that(2), of fs'] cut [OF that(2)] in blast)+
  moreover have "read_file fs' path = (if ok then Some content else read_file fs path)"
    using stops
  proof (elim disjE conjE exE)
    have t: "path \<noteq> ?t" using temp_of_neq by metis
    show ?thesis if "\<not> ok" "fs' \<in> {fs, fs1, fs2, fs3}" using that oth [OF t that(2)] by simp
    show ?thesis if "\<not> ok" "fs' = fs_try (WriteAll ?t (take k content)) fs1" for k using that cut [OF t, of k] by simp
  qed (simp add: new)
  ultimately show ?thesis using wf' by (auto simp: old_or_new_def)
qed

section \<open>Commits\<close>

definition faithful_swarm :: "'v swarm_codec \<Rightarrow> bool" where
  "faithful_swarm co \<longleftrightarrow>
    (\<forall>st json. sc_to_string co st = Some json \<longrightarrow> utf8_valid json \<and> sc_from_str co json = Some st) \<and>
    (\<forall>ms json. sc_box_to_string co ms = Some json \<longrightarrow> utf8_valid json \<and> sc_box_from_str co json = Some ms)"

definition stored :: "'v swarm_codec \<Rightarrow> swarm_sys \<Rightarrow> ustr \<Rightarrow> 'v swarm_state option" where
  "stored co sys dir = (case read_state_unlocked co dir sys of Inr st \<Rightarrow> st | Inl e \<Rightarrow> None)"

text \<open>The temporary name of a write is new, as its random part makes it.\<close>

definition sys_ready :: "io_env \<Rightarrow> ustr \<Rightarrow> swarm_sys \<Rightarrow> bool" where
  "sys_ready env dir sys \<longleftrightarrow>
    disk_wf (sw_ade sys dir) \<and> map_of (d_dir (sw_ade sys dir)) (temp_of env state_file) = None"

lemma commit_effect:
  assumes "faithful_swarm co" "sys_ready env dir sys" "commit_state co env dir st sys = (sys', r)"
  shows "sw_mailbox sys' = sw_mailbox sys \<and> (\<forall>d. d \<noteq> dir \<longrightarrow> stored co sys' d = stored co sys d) \<and>
    (case r of Inl e \<Rightarrow> stored co sys' dir = stored co sys dir | Inr st' \<Rightarrow> st' = st \<and> stored co sys' dir = Some st)"
proof (cases "sc_to_string co st")
  case None
  then show ?thesis using assms(3) by (auto simp: commit_state_def write_state_unlocked_def)
next
  case (Some json)
  obtain fs' ok where p: "replace_file env state_file json (sw_ade sys dir) = (fs', ok)" by fastforce
  have e: "read_file fs' state_file = (if ok then Some json else read_file (sw_ade sys dir) state_file)"
    using replace_file_effect [OF _ _ p] assms(2) by (simp add: sys_ready_def)
  have "utf8_valid json" "sc_from_str co json = Some st" using assms(1) Some by (auto simp: faithful_swarm_def)
  moreover have "sys' = sys\<lparr>sw_ade := (sw_ade sys)(dir := fs')\<rparr>" "r = (if ok then Inr st else Inl SwIo)"
    using assms(3) Some p by (auto simp: commit_state_def write_state_unlocked_def split: if_splits)
  ultimately show ?thesis using e by (auto simp: stored_def read_state_unlocked_def)
qed

datatype swarm_call =
    CallAgent int ustr "ustr option" "ustr option" "ustr option option"
  | CallStatus ustr
  | CallNewTask int ustr ustr ustr ustr
  | CallTask int ustr ustr

fun swarm_exec :: "'v swarm_codec \<Rightarrow> io_env \<Rightarrow> ustr \<Rightarrow> swarm_call \<Rightarrow> swarm_sys \<Rightarrow> 'v swarm_result" where
  "swarm_exec co env dir (CallAgent now i st la ct) sys = update_agent co env now dir i st la ct sys"
| "swarm_exec co env dir (CallStatus st) sys = set_swarm_status co env dir st sys"
| "swarm_exec co env dir (CallNewTask now u ti de ag) sys = swarm_create_task co env now u dir ti de ag sys"
| "swarm_exec co env dir (CallTask now i st) sys = swarm_update_task co env now dir i st sys"

text \<open>Every call refuses, or commits a successor of the mission it has read.\<close>

definition successor :: "'v swarm_state \<Rightarrow> 'v swarm_state \<Rightarrow> bool" where
  "successor st st' \<longleftrightarrow>
    ss_revision st' = sat_inc64 (ss_revision st) \<and> ss_id st' = ss_id st \<and>
    ss_workspace_dir st' = ss_workspace_dir st \<and> ss_goal st' = ss_goal st \<and> ss_messages st' = ss_messages st \<and>
    ss_started_at st' = ss_started_at st \<and> ss_extra st' = ss_extra st \<and>
    map sa_id (ss_agents st') = map sa_id (ss_agents st) \<and>
    (\<exists>new. map sk_id (ss_tasks st') = map sk_id (ss_tasks st) @ new)"

lemma edit_agent_id: "sa_id (edit_agent now st la ct a) = sa_id a"
  by (simp add: edit_agent_def Let_def split: option.split)

definition refuses_or_commits ::
  "'v swarm_codec \<Rightarrow> io_env \<Rightarrow> ustr \<Rightarrow> swarm_sys \<Rightarrow> 'v swarm_result \<Rightarrow> bool" where
  "refuses_or_commits co env dir sys res \<longleftrightarrow>
    (\<exists>e. res = (sys, Inl e)) \<or>
    (\<exists>st st'. stored co sys dir = Some st \<and> successor st st' \<and> res = commit_state co env dir st' sys)"

lemma refuses [simp]: "refuses_or_commits co env dir sys (sys, Inl e)"
  by (simp add: refuses_or_commits_def)

lemma commits:
  "read_state_unlocked co dir sys = Inr (Some st) \<Longrightarrow> successor st st' \<Longrightarrow>
    refuses_or_commits co env dir sys (commit_state co env dir st' sys)"
  by (auto simp: refuses_or_commits_def stored_def)

lemma swarm_exec_shape: "refuses_or_commits co env dir sys (swarm_exec co env dir c sys)"
proof (cases c)
  case (CallAgent now i st la ct)
  then show ?thesis
    by (auto simp: update_agent_def split: option.split sum.split intro!: commits
        intro: commits simp: successor_def edit_agent_id map_update_first)
next
  case (CallStatus st)
  then show ?thesis
    by (auto simp: set_swarm_status_def successor_def split: option.split sum.split intro!: commits)
next
  case (CallNewTask now u ti de ag)
  then show ?thesis
    by (auto simp: swarm_create_task_def successor_def split: option.split sum.split intro!: commits)
next
  case (CallTask now i st)
  then show ?thesis
    by (auto simp: swarm_update_task_def successor_def map_update_first split: option.split sum.split intro!: commits)
qed

lemma sat_inc64_next: "r \<noteq> - 1 \<Longrightarrow> unat (sat_inc64 r) = Suc (unat r)"
proof -
  assume "r \<noteq> - 1"
  then have "1 + r \<noteq> 0" using max_word_wrap by (metis add.commute)
  then have u: "unat (1 + r) = Suc (unat r)" by (rule unatSuc)
  moreover have "unat (1 + r) < 2 ^ LENGTH(64)" by (rule unsigned_less)
  ultimately have "unat r + 1 < 2 ^ 64" by simp
  then show ?thesis using u by (simp add: sat_inc64_def sat_add64_def add.commute)
qed

section \<open>Delivery\<close>

definition box :: "'v swarm_codec \<Rightarrow> disk \<Rightarrow> ustr \<Rightarrow> mailbox_message list option" where
  "box co fs agent =
    (case read_file fs (mailbox_file agent) of
       None \<Rightarrow> Some []
     | Some c \<Rightarrow> if utf8_valid c then sc_box_from_str co c else None)"

definition box_ready :: "io_env \<Rightarrow> ustr \<Rightarrow> disk \<Rightarrow> bool" where
  "box_ready env to fs \<longleftrightarrow> disk_wf fs \<and> map_of (d_dir fs) (temp_of env (mailbox_file to)) = None"

lemma deliver_effect:
  assumes co: "faithful_swarm co" and rdy: "box_ready env (mm_to m) fs" and old: "box co fs (mm_to m) = Some ms"
    and d: "deliver co env m fs = (fs', r)"
  shows "box co fs' (mm_to m) = Some (if r = None then ms @ [m] else ms) \<and>
    (\<forall>n. n \<noteq> mailbox_file (mm_to m) \<longrightarrow> n \<noteq> temp_of env (mailbox_file (mm_to m)) \<longrightarrow> read_file fs' n = read_file fs n)"
proof (cases "sc_box_to_string co (ms @ [m])")
  case None
  then have "fs' = fs \<and> r \<noteq> None" using d old
    by (auto simp: deliver_def Let_def box_def split: option.splits if_splits)
  then show ?thesis using old by auto
next
  case (Some c)
  have c: "utf8_valid c" "sc_box_from_str co c = Some (ms @ [m])" using co Some by (auto simp: faithful_swarm_def)
  obtain g ok where p: "replace_file env (mailbox_file (mm_to m)) c fs = (g, ok)" by fastforce
  have "fs' = g \<and> r = (if ok then None else Some SwIo)"
    using d old Some p by (auto simp: deliver_def Let_def box_def split: option.splits if_splits)
  moreover note replace_file_effect [OF _ _ p]
  ultimately show ?thesis using rdy old c by (auto simp: box_def box_ready_def)
qed

section \<open>Properties\<close>

text \<open>
  C34. Mission updates are all or nothing. Updating an agent, the status or a task, or adding a task,
  either fails and leaves every stored mission as it was, or returns a mission whose revision is the
  next one, that differs from the one read only in what the call may change, and that is exactly
  what is stored afterwards; other workspaces and the mailboxes are untouched. This holds whatever
  disk operation fails.
\<close>

theorem swarm_updates_atomic:
  assumes "faithful_swarm co" and "sys_ready env dir sys" and "swarm_exec co env dir c sys = (sys', r)"
  shows "sw_mailbox sys' = sw_mailbox sys \<and> (\<forall>d. d \<noteq> dir \<longrightarrow> stored co sys' d = stored co sys d) \<and>
    (case r of
       Inl e \<Rightarrow> stored co sys' dir = stored co sys dir
     | Inr st' \<Rightarrow> stored co sys' dir = Some st' \<and> (\<exists>st. stored co sys dir = Some st \<and> successor st st'))"
proof -
  have "refuses_or_commits co env dir sys (sys', r)" using swarm_exec_shape [of co env dir sys c] assms(3) by simp
  then consider e where "sys' = sys" "r = Inl e"
    | st st' where "stored co sys dir = Some st" "successor st st'" "commit_state co env dir st' sys = (sys', r)"
    by (auto simp: refuses_or_commits_def)
  then show ?thesis
  proof cases
    case 2
    then show ?thesis using commit_effect [OF assms(1,2) 2(3)] by (auto split: sum.splits)
  qed simp
qed

text \<open>
  Messages arrive. When \<open>send_message\<close> succeeds, the message is at the end of the recipient's mailbox
  and at the end of the mission's feed, after everything that was there, no other mailbox has
  changed, and the mission's revision is the next one.
\<close>

theorem message_delivered:
  assumes "faithful_swarm co" and "sys_ready env dir sys" and "box_ready box_env to (sw_mailbox sys dir)"
    and "box co (sw_mailbox sys dir) to = Some ms"
    and "send_message co box_env env now uuid dir from to msg sys = (sys', Inr st')"
  shows "\<exists>st m. stored co sys dir = Some st \<and> mm_from m = from \<and> mm_to m = to \<and> mm_content m = msg \<and> \<not> mm_read m \<and>
    box co (sw_mailbox sys' dir) to = Some (ms @ [m]) \<and>
    stored co sys' dir = Some st' \<and> ss_messages st' = ss_messages st @ [m] \<and> ss_revision st' = sat_inc64 (ss_revision st) \<and>
    (\<forall>n. n \<noteq> mailbox_file to \<longrightarrow> n \<noteq> temp_of box_env (mailbox_file to) \<longrightarrow>
      read_file (sw_mailbox sys' dir) n = read_file (sw_mailbox sys dir) n)"
proof -
  define m where "m = \<lparr>mm_id = lit ''msg-'' @ uuid, mm_from = from, mm_to = to, mm_content = msg, mm_timestamp = now, mm_read = False\<rparr>"
  obtain st where st: "read_state_unlocked co dir sys = Inr (Some st)"
    using assms(5) by (auto simp: send_message_def split: option.splits sum.splits)
  obtain fs' where d: "deliver co box_env m (sw_mailbox sys dir) = (fs', None)"
    and c: "commit_state co env dir (st\<lparr>ss_messages := ss_messages st @ [m], ss_revision := sat_inc64 (ss_revision st)\<rparr>)
      (sys\<lparr>sw_mailbox := (sw_mailbox sys)(dir := fs')\<rparr>) = (sys', Inr st')"
    using assms(5) st
    by (auto simp: send_message_def Let_def m_def split: option.splits sum.splits if_splits prod.splits)
  have rdy: "sys_ready env dir (sys\<lparr>sw_mailbox := (sw_mailbox sys)(dir := fs')\<rparr>)" using assms(2) by (simp add: sys_ready_def)
  note e = commit_effect [OF assms(1) rdy c]
  have to: "mm_to m = to" by (simp add: m_def)
  note b = deliver_effect [OF assms(1) _ _ d, unfolded to, OF assms(3,4)]
  have "sw_mailbox sys' dir = fs'" using e by simp
  then show ?thesis
    using e b st by (intro exI [of _ st] exI [of _ m]) (auto simp: stored_def m_def)
qed

text \<open>
  Who is stalled. For an agent whose last action is not in the future, the watcher marks it exactly
  when it is neither done nor already stalled, has acted, and has been silent for more than 90
  seconds; the subtraction and the cast do not disturb the test.
\<close>

theorem stalled_after_timeout:
  assumes "0 \<le> sa_last_action_at a" and "sa_last_action_at a \<le> now" and "now < 2 ^ 63"
  shows "is_stalled now a \<longleftrightarrow>
    sa_status a \<notin> {lit ''done'', lit ''stalled''} \<and> 0 < sa_last_action_at a \<and> 90000 < now - sa_last_action_at a"
  using assms by (auto simp: is_stalled_def i64_as_u64_def sat_sub_i64_def STALLED_TIMEOUT_MS_def)

text \<open>A last action in the future is read as a silence of centuries.\<close>

lemma future_action_stalls:
  assumes "now < sa_last_action_at a" "0 \<le> now" "sa_last_action_at a < 2 ^ 63"
    and "sa_status a \<notin> {lit ''done'', lit ''stalled''}"
  shows "is_stalled now a"
proof -
  have "(now - sa_last_action_at a) mod 2 ^ 64 = now - sa_last_action_at a + 2 ^ 64"
  proof -
    have "(now - sa_last_action_at a + 2 ^ 64) mod 2 ^ 64 = now - sa_last_action_at a + 2 ^ 64"
      by (rule mod_pos_pos_trivial) (use assms(1-3) in auto)
    then show ?thesis using mod_add_self2 [of "now - sa_last_action_at a" "2 ^ 64"] by (simp only:)
  qed
  then show ?thesis
    using assms by (auto simp: is_stalled_def i64_as_u64_def sat_sub_i64_def STALLED_TIMEOUT_MS_def)
qed

section \<open>Witnesses\<close>

text \<open>A mission with one agent, the mission paused, and the mission after a message to itself.\<close>

definition demo_agent :: "unit swarm_agent" where
  "demo_agent =
    \<lparr>sa_id = [97], sa_role = [], sa_agent_type = [], sa_pane_id = [112], sa_status = lit ''idle'', sa_current_task = None,
     sa_last_action = [], sa_last_action_at = 5, sa_extra = []\<rparr>"

definition demo_state :: "unit swarm_state" where
  "demo_state =
    \<lparr>ss_id = [109], ss_workspace_dir = [], ss_goal = [], ss_agents = [demo_agent], ss_tasks = [], ss_messages = [],
     ss_status = lit ''active'', ss_started_at = 1, ss_revision = 1, ss_extra = []\<rparr>"

definition demo_msg :: mailbox_message where
  "demo_msg = \<lparr>mm_id = lit ''msg-'', mm_from = [97], mm_to = [97], mm_content = [104], mm_timestamp = 9, mm_read = False\<rparr>"

definition demo_paused :: "unit swarm_state" where
  "demo_paused = demo_state\<lparr>ss_status := lit ''paused'', ss_revision := sat_inc64 1\<rparr>"

definition demo_sent :: "unit swarm_state" where
  "demo_sent = demo_state\<lparr>ss_messages := [demo_msg], ss_revision := sat_inc64 1\<rparr>"

definition demo_swarm_codec :: "unit swarm_codec" where
  "demo_swarm_codec =
    \<lparr>sc_to_string = (\<lambda>st. if st = demo_state then Some [0x31] else if st = demo_paused then Some [0x32]
       else if st = demo_sent then Some [0x33] else None),
     sc_from_str = (\<lambda>c. if c = [0x31] then Some demo_state else if c = [0x32] then Some demo_paused
       else if c = [0x33] then Some demo_sent else None),
     sc_box_to_string = (\<lambda>ms. if ms = [demo_msg] then Some [0x31] else None),
     sc_box_from_str = (\<lambda>c. if c = [0x31] then Some [demo_msg] else None)\<rparr>"

definition demo_sys :: swarm_sys where
  "demo_sys =
    \<lparr>sw_ade = (\<lambda>d. \<lparr>d_dir = [(state_file, 0)], d_maybe = [[(state_file, 0)]], d_data = (\<lambda>i. [0x31]), d_synced = (\<lambda>i. True), d_next = 1\<rparr>),
     sw_mailbox = (\<lambda>d. disk_empty)\<rparr>"

definition demo_env :: io_env where
  "demo_env = \<lparr>io_uuid = [], io_fault = None, io_cleanup = True\<rparr>"

lemma ascii_valid: "utf8_valid [0x31]" "utf8_valid [0x32]" "utf8_valid [0x33]"
  using utf8_valid_string [of "[0x31]"] utf8_valid_string [of "[0x32]"] utf8_valid_string [of "[0x33]"]
  by (simp_all add: utf8_string_def utf8_encode_def is_scalar_def mk_byte_def)

lemma demo_swarm_faithful: "faithful_swarm demo_swarm_codec"
  using ascii_valid
  by (auto simp: faithful_swarm_def demo_swarm_codec_def demo_state_def demo_paused_def demo_sent_def split: if_splits)

lemma temp_of_demo [simp]: "state_file \<noteq> temp_of env state_file"
  by (metis temp_of_neq)

lemma demo_ready: "sys_ready demo_env d demo_sys" "box_ready demo_env a (sw_mailbox demo_sys d)"
  by (auto simp: sys_ready_def box_ready_def demo_sys_def disk_wf_def disk_empty_def split: if_splits)

lemma demo_stored: "read_state_unlocked demo_swarm_codec d demo_sys = Inr (Some demo_state)"
  using ascii_valid by (simp add: read_state_unlocked_def demo_sys_def read_file_def demo_swarm_codec_def)

lemma replace_file_succeeds:
  assumes "disk_wf fs" "io_fault env = None" "map_of (d_dir fs) (temp_of env path) = None"
  shows "\<exists>fs'. replace_file env path content fs = (fs', True)"
proof -
  let ?t = "temp_of env path"
  obtain fs1 where c: "fs_exec (CreateNew ?t) fs = Some fs1" using assms(3) by simp
  from temp_chain [OF assms(1) temp_of_neq c, of content] obtain fs2 fs3 fs4 where
    "fs_exec (WriteAll ?t content) fs1 = Some fs2" "fs_exec (SyncFile ?t) fs2 = Some fs3"
      "fs_exec (Rename ?t path) fs3 = Some fs4" by metis
  then have "run_ops None (replace_ops ?t path content) fs = (fs4, True)"
    using c create_trunc_fresh [OF assms(3)] by (simp add: replace_ops_def del: fs_exec.simps)
  then show ?thesis using assms(2) by (simp add: replace_file_def temp_of_def)
qed

lemma commit_succeeds:
  assumes "sys_ready env dir sys" "io_fault env = None" "sc_to_string co st = Some c"
  shows "\<exists>sys'. commit_state co env dir st sys = (sys', Inr st)"
  using replace_file_succeeds [of "sw_ade sys dir" env state_file c] assms
  by (auto simp: sys_ready_def commit_state_def write_state_unlocked_def)

theorem swarm_updates_atomic_witness:
  "stored demo_swarm_codec (fst (swarm_exec demo_swarm_codec demo_env [] (CallStatus (lit ''paused'')) demo_sys)) [] = Some demo_paused"
proof -
  have e: "swarm_exec demo_swarm_codec demo_env [] (CallStatus (lit ''paused'')) demo_sys =
      commit_state demo_swarm_codec demo_env [] demo_paused demo_sys"
    by (simp add: set_swarm_status_def demo_stored demo_paused_def, simp add: demo_state_def)
  have "sc_to_string demo_swarm_codec demo_paused = Some [0x32]"
    by (simp add: demo_swarm_codec_def demo_paused_def demo_state_def)
  then obtain sys' where c: "commit_state demo_swarm_codec demo_env [] demo_paused demo_sys = (sys', Inr demo_paused)"
    using commit_succeeds [OF demo_ready(1)] by (fastforce simp: demo_env_def)
  show ?thesis using swarm_updates_atomic [OF demo_swarm_faithful demo_ready(1) e [unfolded c]] e c by simp
qed

theorem message_delivered_witness:
  "\<exists>m. box demo_swarm_codec (sw_mailbox (fst (send_message demo_swarm_codec demo_env demo_env 9 [] [] [97] [97] [104] demo_sys)) []) [97] = Some [m]"
proof -
  have box: "box demo_swarm_codec (sw_mailbox demo_sys []) [97] = Some []"
    by (simp add: box_def demo_sys_def read_file_def disk_empty_def)
  obtain fs' where d: "deliver demo_swarm_codec demo_env demo_msg disk_empty = (fs', None)"
    using replace_file_succeeds [OF disk_wf_empty, of demo_env "mailbox_file [97]" "[0x31]"]
    by (auto simp: deliver_def Let_def read_file_def disk_empty_def demo_swarm_codec_def demo_msg_def demo_env_def)
  have v: "validate_identifier [97] = None" "validate_content [104] = None"
    by (simp_all add: validate_identifier_def validate_content_def str_len_def utf8_string_def utf8_encode_def is_control_def
        MAX_ID_BYTES_def MAX_CONTENT_BYTES_def)
  have e: "send_message demo_swarm_codec demo_env demo_env 9 [] [] [97] [97] [104] demo_sys =
      commit_state demo_swarm_codec demo_env [] demo_sent (demo_sys\<lparr>sw_mailbox := (sw_mailbox demo_sys)([] := fs')\<rparr>)"
    using d v demo_stored [of "[]"]
    by (simp add: send_message_def Let_def demo_sent_def demo_msg_def [symmetric])
      (simp add: demo_state_def demo_agent_def demo_sys_def demo_msg_def Let_def)
  have "sc_to_string demo_swarm_codec demo_sent = Some [0x33]"
    by (simp add: demo_swarm_codec_def demo_sent_def demo_paused_def demo_state_def)
  moreover have "sys_ready demo_env [] (demo_sys\<lparr>sw_mailbox := (sw_mailbox demo_sys)([] := fs')\<rparr>)"
    using demo_ready(1) by (simp add: sys_ready_def)
  ultimately obtain sys' where c: "commit_state demo_swarm_codec demo_env [] demo_sent
      (demo_sys\<lparr>sw_mailbox := (sw_mailbox demo_sys)([] := fs')\<rparr>) = (sys', Inr demo_sent)"
    using commit_succeeds by (fastforce simp: demo_env_def)
  show ?thesis
    using message_delivered [OF demo_swarm_faithful demo_ready box e [unfolded c]] e c by auto
qed

text \<open>
  The two writes of \<open>send_message\<close> are not one: when the second fails the caller gets an error for
  a message that has been delivered.
\<close>

lemma send_error_after_delivery:
  "\<exists>sys'. send_message demo_swarm_codec demo_env (demo_env\<lparr>io_fault := Some (0, 0)\<rparr>) 9 [] [] [97] [97] [104] demo_sys = (sys', Inl SwIo) \<and>
    box demo_swarm_codec (sw_mailbox sys' []) [97] = Some [demo_msg]"
proof -
  have box: "box demo_swarm_codec disk_empty (mm_to demo_msg) = Some []"
    by (simp add: box_def read_file_def disk_empty_def)
  have rdy: "box_ready demo_env (mm_to demo_msg) disk_empty" using demo_ready(2) by (simp add: demo_sys_def)
  obtain fs' where d: "deliver demo_swarm_codec demo_env demo_msg disk_empty = (fs', None)"
    using replace_file_succeeds [OF disk_wf_empty, of demo_env "mailbox_file [97]" "[0x31]"]
    by (auto simp: deliver_def Let_def read_file_def disk_empty_def demo_swarm_codec_def demo_msg_def demo_env_def)
  have b: "box demo_swarm_codec fs' [97] = Some [demo_msg]"
    using deliver_effect [OF demo_swarm_faithful rdy box d] by (simp add: demo_msg_def)
  have v: "validate_identifier [97] = None" "validate_content [104] = None"
    by (simp_all add: validate_identifier_def validate_content_def str_len_def utf8_string_def utf8_encode_def is_control_def
        MAX_ID_BYTES_def MAX_CONTENT_BYTES_def)
  have e: "send_message demo_swarm_codec demo_env (demo_env\<lparr>io_fault := Some (0, 0)\<rparr>) 9 [] [] [97] [97] [104] demo_sys =
      commit_state demo_swarm_codec (demo_env\<lparr>io_fault := Some (0, 0)\<rparr>) [] demo_sent (demo_sys\<lparr>sw_mailbox := (sw_mailbox demo_sys)([] := fs')\<rparr>)"
    using d v demo_stored [of "[]"]
    by (simp add: send_message_def Let_def demo_sent_def demo_msg_def [symmetric])
      (simp add: demo_state_def demo_agent_def demo_sys_def demo_msg_def Let_def)
  have "sc_to_string demo_swarm_codec demo_sent = Some [0x33]"
    by (simp add: demo_swarm_codec_def demo_sent_def demo_paused_def demo_state_def)
  then show ?thesis
    using b by (simp add: e commit_state_def write_state_unlocked_def replace_file_def replace_ops_def)
qed

theorem stalled_after_timeout_witness: "is_stalled 90006 demo_agent"
  using stalled_after_timeout [of demo_agent 90006] by (simp add: demo_agent_def)

end
