(* ===== verification/Swarm_Watch.thy ===== *)
theory Swarm_Watch
  imports Swarm
begin

text \<open>
  The registration of watchers in \<open>swarm.rs\<close>: \<open>watch_state\<close>, \<open>stop_watch\<close>, the exit
  of a watcher's task and \<open>Drop\<close>. A watcher holds the generation it was given and a
  cancellation token; before every read, write and broadcast it asks whether its generation
  is still the registered one. Each critical section under a mutex is one step, so that a stop may
  fall between the two of \<open>watch_state\<close>. The generation counter is a natural number: \<open>2 ^ 64\<close>
  watchers are never started.
\<close>

record watcher =
  wt_dir :: ustr
  wt_generation :: nat

record watch_reg =
  wr_generations :: "ustr \<rightharpoonup> nat"
  wr_tokens :: "ustr \<rightharpoonup> nat"
  wr_next :: nat
  wr_cancelled :: "nat set"
  wr_starting :: "watcher set"
  wr_running :: "watcher set"

definition watch_empty :: watch_reg where
  "watch_empty =
    \<lparr>wr_generations = Map.empty, wr_tokens = Map.empty, wr_next = 0, wr_cancelled = {}, wr_starting = {}, wr_running = {}\<rparr>"

text \<open>The first critical section of \<open>watch_state\<close>; the token of a watcher carries its generation.\<close>

definition watch_register :: "ustr \<Rightarrow> watch_reg \<Rightarrow> watch_reg" where
  "watch_register dir r =
    (if wr_generations r dir \<noteq> None then r
     else let next = wr_next r + 1 in
       r\<lparr>wr_next := next, wr_generations := (wr_generations r)(dir \<mapsto> next),
         wr_starting := insert \<lparr>wt_dir = dir, wt_generation = next\<rparr> (wr_starting r)\<rparr>)"

text \<open>The second one, and the start of the task.\<close>

definition watch_spawn :: "watcher \<Rightarrow> watch_reg \<Rightarrow> watch_reg" where
  "watch_spawn w r =
    r\<lparr>wr_tokens := (wr_tokens r)(wt_dir w \<mapsto> wt_generation w),
      wr_starting := wr_starting r - {w}, wr_running := insert w (wr_running r)\<rparr>"

definition stop_watch :: "ustr \<Rightarrow> watch_reg \<Rightarrow> watch_reg" where
  "stop_watch dir r =
    r\<lparr>wr_cancelled := (case wr_tokens r dir of Some t \<Rightarrow> insert t (wr_cancelled r) | None \<Rightarrow> wr_cancelled r),
      wr_tokens := (wr_tokens r)(dir := None), wr_generations := (wr_generations r)(dir := None)\<rparr>"

definition watch_is_current :: "watch_reg \<Rightarrow> ustr \<Rightarrow> nat \<Rightarrow> bool" where
  "watch_is_current r dir generation \<longleftrightarrow> wr_generations r dir = Some generation"

text \<open>A watcher goes on with a round when it is not cancelled and still current.\<close>

definition watcher_active :: "watch_reg \<Rightarrow> watcher \<Rightarrow> bool" where
  "watcher_active r w \<longleftrightarrow>
    w \<in> wr_running r \<and> wt_generation w \<notin> wr_cancelled r \<and> watch_is_current r (wt_dir w) (wt_generation w)"

definition watcher_exit :: "watcher \<Rightarrow> watch_reg \<Rightarrow> watch_reg" where
  "watcher_exit w r =
    r\<lparr>wr_running := wr_running r - {w},
      wr_generations := (if wr_generations r (wt_dir w) = Some (wt_generation w)
        then (wr_generations r)(wt_dir w := None) else wr_generations r)\<rparr>"

definition watch_drop :: "watch_reg \<Rightarrow> watch_reg" where
  "watch_drop r =
    r\<lparr>wr_cancelled := wr_cancelled r \<union> ran (wr_tokens r), wr_tokens := Map.empty, wr_generations := Map.empty\<rparr>"

inductive watch_step :: "watch_reg \<Rightarrow> watch_reg \<Rightarrow> bool" where
  register: "watch_step r (watch_register dir r)"
| spawn: "w \<in> wr_starting r \<Longrightarrow> watch_step r (watch_spawn w r)"
| stop: "watch_step r (stop_watch dir r)"
| quit: "w \<in> wr_running r \<Longrightarrow> \<not> watcher_active r w \<Longrightarrow> watch_step r (watcher_exit w r)"
| drop_all: "watch_step r (watch_drop r)"

inductive_cases watch_stepE: "watch_step r r'"

definition watch_inv :: "watch_reg \<Rightarrow> bool" where
  "watch_inv r \<longleftrightarrow>
    (\<forall>d g. wr_generations r d = Some g \<longrightarrow> g \<le> wr_next r) \<and>
    (\<forall>w\<in>wr_starting r \<union> wr_running r. wt_generation w \<le> wr_next r) \<and>
    (\<forall>w\<in>wr_starting r \<union> wr_running r. \<forall>w'\<in>wr_starting r \<union> wr_running r. wt_generation w = wt_generation w' \<longrightarrow> w = w')"

lemma watch_inv_empty: "watch_inv watch_empty"
  by (simp add: watch_inv_def watch_empty_def)

lemma watch_inv_step: "watch_step r r' \<Longrightarrow> watch_inv r \<Longrightarrow> watch_inv r'"
proof (erule watch_stepE)
  fix dir
  assume inv: "watch_inv r" and r': "r' = watch_register dir r"
  let ?w = "\<lparr>wt_dir = dir, wt_generation = wr_next r + 1\<rparr>"
  have "wt_generation w \<noteq> wr_next r + 1" if "w \<in> wr_starting r \<union> wr_running r" for w
  proof -
    have "wt_generation w \<le> wr_next r" using inv that unfolding watch_inv_def by blast
    then show ?thesis by simp
  qed
  then have "wt_generation w = Suc (wr_next r) \<Longrightarrow> w \<notin> wr_starting r \<and> w \<notin> wr_running r" for w by auto
  then show ?thesis using inv unfolding r' watch_register_def watch_inv_def Let_def by (auto intro: le_SucI dest!: sym [of "Suc _"])
qed (auto simp: watch_inv_def watch_spawn_def stop_watch_def watcher_exit_def watch_drop_def split: if_splits)

lemma watch_inv_reach: "watch_step\<^sup>*\<^sup>* r r' \<Longrightarrow> watch_inv r \<Longrightarrow> watch_inv r'"
  by (induction rule: rtranclp_induct) (auto intro: watch_inv_step)

text \<open>Once its generation is not registered, and all later generations are larger, it stays so.\<close>

lemma stale_step:
  assumes "watch_step r r'" "g \<le> wr_next r" "wr_generations r d \<noteq> Some g"
  shows "g \<le> wr_next r' \<and> wr_generations r' d \<noteq> Some g"
  using assms(1)
  by (rule watch_stepE)
    (use assms(2,3) in \<open>auto simp: watch_register_def watch_spawn_def stop_watch_def watcher_exit_def watch_drop_def Let_def\<close>)

lemma stale_reach:
  "watch_step\<^sup>*\<^sup>* r r' \<Longrightarrow> g \<le> wr_next r \<Longrightarrow> wr_generations r d \<noteq> Some g \<Longrightarrow>
    g \<le> wr_next r' \<and> wr_generations r' d \<noteq> Some g"
  by (induction rule: rtranclp_induct) (auto dest: stale_step)

section \<open>Properties\<close>

text \<open>
  One watcher per workspace. In every reachable state at most one watcher of a workspace is
  active, and a watcher that has been stopped, or whose registration has gone for any other reason,
  is never active again, whatever is started and stopped afterwards.
\<close>

theorem one_active_watcher:
  assumes "watch_step\<^sup>*\<^sup>* watch_empty r"
  shows "(watcher_active r w \<and> watcher_active r w' \<and> wt_dir w = wt_dir w' \<longrightarrow> w = w') \<and>
    (w \<in> wr_running r \<and> \<not> watch_is_current r (wt_dir w) (wt_generation w) \<and> watch_step\<^sup>*\<^sup>* r r' \<longrightarrow> \<not> watcher_active r' w)"
proof -
  have inv: "watch_inv r" by (rule watch_inv_reach [OF assms watch_inv_empty])
  have "watcher_active r w \<and> watcher_active r w' \<and> wt_dir w = wt_dir w' \<longrightarrow> w = w'"
    using inv by (auto simp: watcher_active_def watch_is_current_def watch_inv_def)
  moreover have "\<not> watcher_active r' w"
    if "w \<in> wr_running r" "\<not> watch_is_current r (wt_dir w) (wt_generation w)" "watch_step\<^sup>*\<^sup>* r r'"
  proof -
    have "wt_generation w \<le> wr_next r" using inv that(1) by (auto simp: watch_inv_def)
    then show ?thesis
      using stale_reach [OF that(3)] that(2) by (auto simp: watcher_active_def watch_is_current_def)
  qed
  ultimately show ?thesis by blast
qed

theorem one_active_watcher_witness:
  "watcher_active (watch_spawn \<lparr>wt_dir = [], wt_generation = 1\<rparr> (watch_register [] watch_empty)) \<lparr>wt_dir = [], wt_generation = 1\<rparr> \<and>
   \<not> watcher_active (stop_watch [] (watch_spawn \<lparr>wt_dir = [], wt_generation = 1\<rparr> (watch_register [] watch_empty))) \<lparr>wt_dir = [], wt_generation = 1\<rparr>"
proof -
  let ?w = "\<lparr>wt_dir = [], wt_generation = 1\<rparr>"
  let ?r1 = "watch_register [] watch_empty"
  have w: "?w \<in> wr_starting ?r1" by (simp add: watch_register_def watch_empty_def Let_def)
  let ?r2 = "watch_spawn ?w ?r1"
  let ?r3 = "stop_watch [] ?r2"
  have reach: "watch_step\<^sup>*\<^sup>* watch_empty ?r3"
    using watch_step.register [of watch_empty "[]"] watch_step.spawn [OF w] watch_step.stop [of ?r2 "[]"]
    by (meson rtranclp.rtrancl_refl rtranclp.rtrancl_into_rtrancl)
  have "?w \<in> wr_running ?r3 \<and> \<not> watch_is_current ?r3 [] 1"
    by (simp add: stop_watch_def watch_spawn_def watch_is_current_def)
  with one_active_watcher [OF reach, of ?w ?w ?r3] have "\<not> watcher_active ?r3 ?w" by simp
  moreover have "watcher_active ?r2 ?w"
    by (simp add: watcher_active_def watch_is_current_def watch_spawn_def watch_register_def watch_empty_def Let_def)
  ultimately show ?thesis by blast
qed

end
