(* ===== verification/Str_Slice.thy ===== *)
theory Str_Slice
  imports Text_Codec "HOL-Library.Sublist"
begin

text \<open>
  Rust's \<open>str\<close> as the bytes of its UTF-8 form: searching for a pattern, and slicing, which
  panics at an index that is not on a character boundary. A panic is \<open>None\<close>. The
  fact that carries the absence of panics is \<open>text_ok\<close>: every continuation byte follows its
  lead byte within three bytes. Every \<open>str\<close> has it, and so has every slice at boundaries.
\<close>

section \<open>Searching\<close>

text \<open>\<open>str::find\<close> and \<open>str::rfind\<close> of a pattern: the byte index of its first and last occurrence.\<close>

fun find_sub :: "bytes \<Rightarrow> bytes \<Rightarrow> nat option" where
  "find_sub p [] = (if p = [] then Some 0 else None)"
| "find_sub p (x # xs) = (if prefix p (x # xs) then Some 0 else map_option Suc (find_sub p xs))"

fun rfind_sub :: "bytes \<Rightarrow> bytes \<Rightarrow> nat option" where
  "rfind_sub p [] = (if p = [] then Some 0 else None)"
| "rfind_sub p (x # xs) =
    (case rfind_sub p xs of
       Some i \<Rightarrow> Some (Suc i)
     | None \<Rightarrow> if prefix p (x # xs) then Some 0 else None)"

text \<open>\<open>str::split\<close> at a byte and \<open>str::split_once\<close>.\<close>

fun split_on :: "u8 \<Rightarrow> bytes \<Rightarrow> bytes list" where
  "split_on sep [] = [[]]"
| "split_on sep (b # bs) =
    (if b = sep then [] # split_on sep bs
     else (case split_on sep bs of l # ls \<Rightarrow> (b # l) # ls | [] \<Rightarrow> [[b]]))"

fun split_once :: "u8 \<Rightarrow> bytes \<Rightarrow> (bytes \<times> bytes) option" where
  "split_once sep [] = None"
| "split_once sep (b # bs) = (if b = sep then Some ([], bs) else map_option (\<lambda>(x, y). (b # x, y)) (split_once sep bs))"

lemma split_on_neq_Nil [simp]: "split_on sep s \<noteq> []"
  by (induction s) (auto split: list.split)

lemma find_sub_None: "find_sub p s = None \<longleftrightarrow> (\<forall>i\<le>length s. \<not> prefix p (drop i s))"
proof (induction s)
  case (Cons x xs)
  have "(\<forall>i\<le>length (x # xs). \<not> prefix p (drop i (x # xs))) \<longleftrightarrow>
      \<not> prefix p (x # xs) \<and> (\<forall>i\<le>length xs. \<not> prefix p (drop i xs))"
    by (metis Suc_le_mono drop0 drop_Suc_Cons le0 length_Cons not0_implies_Suc)
  then show ?case using Cons by simp
qed simp

lemma find_sub_Some:
  "find_sub p s = Some i \<longleftrightarrow> i \<le> length s \<and> prefix p (drop i s) \<and> (\<forall>j<i. \<not> prefix p (drop j s))"
proof (induction s arbitrary: i)
  case (Cons x xs)
  then show ?case
    by (cases i) (auto simp: less_Suc_eq_0_disj)
qed auto

lemma rfind_sub_None: "rfind_sub p s = None \<longleftrightarrow> (\<forall>i\<le>length s. \<not> prefix p (drop i s))"
proof (induction s)
  case (Cons x xs)
  have "(\<forall>i\<le>length (x # xs). \<not> prefix p (drop i (x # xs))) \<longleftrightarrow>
      \<not> prefix p (x # xs) \<and> (\<forall>i\<le>length xs. \<not> prefix p (drop i xs))"
    by (metis Suc_le_mono drop0 drop_Suc_Cons le0 length_Cons not0_implies_Suc)
  then show ?case using Cons by (auto split: option.split)
qed simp

lemma rfind_sub_Some:
  "rfind_sub p s = Some i \<Longrightarrow> i \<le> length s \<and> prefix p (drop i s) \<and> (\<forall>j. i < j \<and> j \<le> length s \<longrightarrow> \<not> prefix p (drop j s))"
proof (induction s arbitrary: i)
  case (Cons x xs)
  show ?case
  proof (cases "rfind_sub p xs")
    case None
    then have "i = 0" "prefix p (x # xs)" using Cons.prems by (auto split: if_splits)
    moreover have "\<forall>j\<le>length xs. \<not> prefix p (drop j xs)" using None rfind_sub_None by blast
    ultimately show ?thesis by (auto simp: drop_Cons' Suc_le_eq)
  next
    case (Some k)
    then have "i = Suc k" using Cons.prems by simp
    moreover have "\<not> prefix p (drop j (x # xs))" if "i < j" "j \<le> length (x # xs)" for j
      using Cons.IH [OF Some] that calculation by (cases j) auto
    ultimately show ?thesis using Cons.IH [OF Some] by simp
  qed
qed (auto split: if_splits)

lemma prefix_drop_length: "prefix p (drop i s) \<Longrightarrow> p \<noteq> [] \<Longrightarrow> i + length p \<le> length s \<and> i < length s"
  by (cases "i < length s") (auto dest!: prefix_length_le)

lemma prefix_drop_nth:
  assumes "prefix p (drop i s)" "k < length p"
  shows "s ! (i + k) = p ! k"
proof -
  obtain t where t: "drop i s = p @ t" using assms(1) by (auto simp: prefix_def)
  have "i \<le> length s" using t assms(2) by (metis append_is_Nil_conv drop_all less_nat_zero_code linorder_le_cases list.size(3))
  then have "s ! (i + k) = drop i s ! k" by simp
  then show ?thesis using t assms(2) by (simp add: nth_append)
qed

lemma prefix_single: "m < length s \<Longrightarrow> prefix [s ! m] (drop m s)"
  by (metis Cons_nth_drop_Suc Cons_prefix_Cons Nil_prefix)

section \<open>Boundaries and slices\<close>

text \<open>\<open>str::is_char_boundary\<close>: the end, or a byte that is not a continuation byte.\<close>

definition is_char_boundary :: "bytes \<Rightarrow> nat \<Rightarrow> bool" where
  "is_char_boundary s i =
    (if i = 0 then True else if length s \<le> i then i = length s else \<not> is_cont (s ! i))"

definition slice_from :: "bytes \<Rightarrow> nat \<Rightarrow> bytes option" where
  "slice_from s i = (if is_char_boundary s i then Some (drop i s) else None)"

definition slice_to :: "bytes \<Rightarrow> nat \<Rightarrow> bytes option" where
  "slice_to s i = (if is_char_boundary s i then Some (take i s) else None)"

definition slice :: "bytes \<Rightarrow> nat \<Rightarrow> nat \<Rightarrow> bytes option" where
  "slice s i j =
    (if i \<le> j \<and> is_char_boundary s i \<and> is_char_boundary s j then Some (take (j - i) (drop i s)) else None)"

text \<open>The loop of \<open>floor_char_boundary\<close>, and the function.\<close>

fun back_to_boundary :: "bytes \<Rightarrow> nat \<Rightarrow> nat" where
  "back_to_boundary s 0 = 0"
| "back_to_boundary s (Suc n) = (if \<not> is_char_boundary s (Suc n) then back_to_boundary s n else Suc n)"

definition floor_char_boundary :: "bytes \<Rightarrow> nat \<Rightarrow> nat" where
  "floor_char_boundary input index = back_to_boundary input (min index (length input))"

section \<open>Well-formed text\<close>

definition lead_before :: "bytes \<Rightarrow> nat \<Rightarrow> bool" where
  "lead_before s i \<longleftrightarrow> (\<exists>j<i. i \<le> j + 3 \<and> 0xC0 \<le> unat (s ! j) \<and> (\<forall>m. j < m \<and> m < i \<longrightarrow> is_cont (s ! m)))"

definition text_ok :: "bytes \<Rightarrow> bool" where
  "text_ok s \<longleftrightarrow> (\<forall>i<length s. is_cont (s ! i) \<longrightarrow> lead_before s i)"

lemma text_ok_Nil [simp]: "text_ok []"
  by (simp add: text_ok_def)

lemma lead_before_append1: "i \<le> length s \<Longrightarrow> lead_before (s @ t) i \<longleftrightarrow> lead_before s i"
  unfolding lead_before_def by (intro ex_cong1 conj_cong refl) (auto simp: nth_append)

lemma text_ok_append: "text_ok s \<Longrightarrow> text_ok t \<Longrightarrow> text_ok (s @ t)"
proof -
  assume s: "text_ok s" and t: "text_ok t"
  have "lead_before (s @ t) i" if i: "i < length (s @ t)" "is_cont ((s @ t) ! i)" for i
  proof (cases "i < length s")
    case True
    then show ?thesis using s i by (simp add: lead_before_append1 text_ok_def nth_append)
  next
    case False
    then have "lead_before t (i - length s)" using t i by (auto simp: text_ok_def nth_append)
    then obtain j where j: "j < i - length s" "i - length s \<le> j + 3" "0xC0 \<le> unat (t ! j)"
      "\<forall>m. j < m \<and> m < i - length s \<longrightarrow> is_cont (t ! m)" by (auto simp: lead_before_def)
    have "is_cont ((s @ t) ! m)" if "length s + j < m" "m < i" for m
    proof -
      have "j < m - length s \<and> m - length s < i - length s" using that by linarith
      then show ?thesis using j(4) that by (simp add: nth_append)
    qed
    then show ?thesis
      unfolding lead_before_def using j by (intro exI [of _ "length s + j"]) (auto simp: nth_append)
  qed
  then show ?thesis by (simp add: text_ok_def)
qed

lemma text_ok_drop:
  assumes "text_ok s" "is_char_boundary s k"
  shows "text_ok (drop k s)"
proof -
  have "lead_before (drop k s) i" if i: "i < length (drop k s)" "is_cont (drop k s ! i)" for i
  proof -
    have "lead_before s (k + i)" using assms(1) i by (auto simp: text_ok_def)
    then obtain j where j: "j < k + i" "k + i \<le> j + 3" "0xC0 \<le> unat (s ! j)"
      "\<forall>m. j < m \<and> m < k + i \<longrightarrow> is_cont (s ! m)" by (auto simp: lead_before_def)
    have "k \<le> j"
    proof (rule ccontr)
      assume "\<not> k \<le> j"
      then have "is_cont (s ! k)" using j(4) i by (cases "i = 0") auto
      moreover have "k < length s" "k \<noteq> 0" using i \<open>\<not> k \<le> j\<close> by auto
      ultimately show False using assms(2) by (simp add: is_char_boundary_def)
    qed
    then show ?thesis
      unfolding lead_before_def using j i by (intro exI [of _ "j - k"]) auto
  qed
  then show ?thesis by (simp add: text_ok_def)
qed

lemma text_ok_take: "text_ok s \<Longrightarrow> text_ok (take k s)"
  by (auto simp: text_ok_def lead_before_append1 [of _ "take k s" "drop k s", simplified, symmetric])

lemma text_ok_slice: "text_ok s \<Longrightarrow> slice_from s i = Some t \<Longrightarrow> text_ok t"
  by (auto simp: slice_from_def text_ok_drop split: if_splits)

text \<open>After an ASCII byte, and before one, there is a boundary.\<close>

lemma ascii_not_cont: "unat b < 0x80 \<Longrightarrow> \<not> is_cont b"
  by (simp add: is_cont_def in_range_def)

lemma boundary_at: "i < length s \<Longrightarrow> unat (s ! i) < 0x80 \<Longrightarrow> is_char_boundary s i"
  by (simp add: is_char_boundary_def ascii_not_cont)

lemma boundary_after:
  assumes "text_ok s" "i < length s" "unat (s ! i) < 0x80"
  shows "is_char_boundary s (Suc i)"
proof -
  have "\<not> is_cont (s ! Suc i)" if "Suc i < length s"
  proof
    assume "is_cont (s ! Suc i)"
    then have "lead_before s (Suc i)" using assms(1) that by (simp add: text_ok_def)
    then obtain j where j: "j < Suc i" "0xC0 \<le> unat (s ! j)" "\<forall>m. j < m \<and> m < Suc i \<longrightarrow> is_cont (s ! m)"
      unfolding lead_before_def by blast
    then show False using assms(3) ascii_not_cont [OF assms(3)] by (cases "j = i") auto
  qed
  then show ?thesis using assms(2) by (auto simp: is_char_boundary_def)
qed

lemma boundary_end [simp]: "is_char_boundary s (length s)" "is_char_boundary s 0"
  by (auto simp: is_char_boundary_def)

lemma boundary_drop: "i \<le> length s \<Longrightarrow> 0 < k \<Longrightarrow> is_char_boundary (drop i s) k \<longleftrightarrow> is_char_boundary s (i + k)"
  by (auto simp: is_char_boundary_def)

text \<open>A pattern of ASCII bytes starts and ends on boundaries.\<close>

definition ascii :: "bytes \<Rightarrow> bool" where
  "ascii p \<longleftrightarrow> list_all (\<lambda>b. unat b < 0x80) p"

lemma pattern_boundaries:
  assumes "text_ok s" "ascii p" "p \<noteq> []" "prefix p (drop i s)"
  shows "is_char_boundary s i" "is_char_boundary s (i + length p)"
proof -
  have l: "i + length p \<le> length s" using prefix_drop_length [OF assms(4,3)] by simp
  have b: "unat (s ! (i + k)) < 0x80" if "k < length p" for k
    using prefix_drop_nth [OF assms(4) that] assms(2) that by (simp add: ascii_def list_all_length)
  show "is_char_boundary s i" using b [of 0] l assms(3) by (intro boundary_at) (auto simp: Suc_le_eq dest: add_leD1 simp flip: length_greater_0_conv)
  have "is_char_boundary s (Suc (i + (length p - 1)))"
    by (rule boundary_after [OF assms(1)]) (use b [of "length p - 1"] l assms(3) in \<open>cases p; simp\<close>)+
  then show "is_char_boundary s (i + length p)" using assms(3) by (cases p) auto
qed

text \<open>The search for a boundary goes back by at most three bytes.\<close>

lemma back_to_boundary:
  "n \<le> length s \<Longrightarrow> is_char_boundary s (back_to_boundary s n) \<and> back_to_boundary s n \<le> n"
  by (induction n) (auto simp: le_Suc_eq)

lemma back_to_boundary_max: "back_to_boundary s n < m \<Longrightarrow> m \<le> n \<Longrightarrow> \<not> is_char_boundary s m"
proof (induction n)
  case (Suc n)
  then show ?case by (cases "m = Suc n") (auto split: if_splits)
qed simp

lemma back_to_boundary_near:
  assumes "text_ok s" "n \<le> length s"
  shows "n \<le> back_to_boundary s n + 3"
proof (cases "is_char_boundary s n")
  case True
  then show ?thesis by (cases n) auto
next
  case False
  then have n: "n < length s" "is_cont (s ! n)" using assms(2) by (auto simp: is_char_boundary_def split: if_splits)
  then obtain j where j: "j < n" "n \<le> j + 3" "0xC0 \<le> unat (s ! j)"
    using assms(1) by (auto simp: text_ok_def lead_before_def)
  then have "is_char_boundary s j" using n by (auto simp: is_char_boundary_def is_cont_def in_range_def)
  then show ?thesis using back_to_boundary_max [of s n j] j by linarith
qed

lemma floor_char_boundary:
  assumes "text_ok s"
  shows "is_char_boundary s (floor_char_boundary s i)" "floor_char_boundary s i \<le> i"
    "floor_char_boundary s i \<le> length s" "min i (length s) \<le> floor_char_boundary s i + 3"
  using back_to_boundary [of "min i (length s)" s] back_to_boundary_near [OF assms, of "min i (length s)"]
  by (auto simp: floor_char_boundary_def)

lemma floor_boundary_id: "is_char_boundary s i \<Longrightarrow> i \<le> length s \<Longrightarrow> floor_char_boundary s i = i"
  by (cases i) (auto simp: floor_char_boundary_def)

text \<open>Every \<open>str\<close> is well-formed.\<close>

lemma text_ok_encode: "is_scalar c \<Longrightarrow> text_ok (utf8_encode c)"
proof -
  assume c: "is_scalar c"
  have l: "lead_before (b # bs) (Suc i)"
    if "0xC0 \<le> unat b" "i < 3" "\<forall>m<i. is_cont (bs ! m)" for b bs i
    using that unfolding lead_before_def
    by (intro exI [of _ 0]) (auto simp: nth_Cons split: nat.split)
  have r: "0x80 + m mod 64 < (256 :: nat)" "\<not> 0x80 + m mod 64 > (0xBF :: nat)" for m :: nat
    by (auto simp: less_Suc_eq_le [symmetric] intro: order.strict_trans1 [of _ 63])
  have cont: "is_cont (mk_byte (0x80 + m mod 64))" for m
    using r [of m] by (simp add: is_cont_def in_range_def)
  consider "c < 0x80" | "0x80 \<le> c" "c < 0x800" | "0x800 \<le> c" "c < 0x10000" | "0x10000 \<le> c" "c < 0x110000"
    using c unfolding is_scalar_def by linarith
  then show ?thesis
  proof cases
    case 1
    then show ?thesis by (auto simp: text_ok_def utf8_encode_def is_cont_def in_range_def)
  next
    case 2
    then have "0xC0 \<le> unat (mk_byte (0xC0 + c div 64))" "\<not> is_cont (mk_byte (0xC0 + c div 64))"
      by (auto simp: is_cont_def in_range_def)
    then show ?thesis using 2 l cont by (auto simp: text_ok_def utf8_encode_def nth_Cons less_Suc_eq split: nat.split)
  next
    case 3
    then have "0xC0 \<le> unat (mk_byte (0xE0 + c div 4096))" "\<not> is_cont (mk_byte (0xE0 + c div 4096))"
      by (auto simp: is_cont_def in_range_def)
    then show ?thesis using 3 l cont by (auto simp: text_ok_def utf8_encode_def nth_Cons less_Suc_eq split: nat.split)
  next
    case 4
    then have "0xC0 \<le> unat (mk_byte (0xF0 + c div 262144))" "\<not> is_cont (mk_byte (0xF0 + c div 262144))"
      by (auto simp: is_cont_def in_range_def)
    then show ?thesis using 4 l cont by (auto simp: text_ok_def utf8_encode_def nth_Cons less_Suc_eq split: nat.split)
  qed
qed

lemma is_str_valid: "is_str s \<Longrightarrow> utf8_valid s"
  using utf8_valid_string by (auto simp: is_str_def)

lemma is_str_text_ok: "is_str s \<Longrightarrow> text_ok s"
proof -
  have "\<forall>c\<in>set cs. is_scalar c \<Longrightarrow> text_ok (utf8_string cs)" for cs
    by (induction cs) (simp_all add: text_ok_append text_ok_encode)
  then show "is_str s \<Longrightarrow> text_ok s" by (auto simp: is_str_def)
qed

lemma ascii_string:
  assumes "ascii s"
  shows "utf8_string (map unat s) = s" "\<forall>c\<in>set (map unat s). is_scalar c"
  using assms by (induction s) (simp_all add: ascii_def utf8_encode_def mk_byte_def is_scalar_def)

lemma utf8_chars_ascii: "ascii s \<Longrightarrow> utf8_chars s = map unat s"
  using ascii_string [of s] utf8_chars_string by metis

lemma is_str_ascii: "ascii s \<Longrightarrow> is_str s"
  using ascii_string [of s] unfolding is_str_def by metis

lemma utf8_encode_tail: "b \<in> set (tl (utf8_encode c)) \<Longrightarrow> is_cont b"
proof -
  have r: "0x80 + m mod 64 < (256 :: nat)" "\<not> 0x80 + m mod 64 > (0xBF :: nat)" for m :: nat
    by (auto simp: less_Suc_eq_le [symmetric] intro: order.strict_trans1 [of _ 63])
  have "is_cont (mk_byte (0x80 + m mod 64))" for m
    using r [of m] by (simp add: is_cont_def in_range_def)
  then show "b \<in> set (tl (utf8_encode c)) \<Longrightarrow> is_cont b" by (auto simp: utf8_encode_def split: if_splits)
qed

lemma is_str_drop:
  assumes "is_str s" "is_char_boundary s i"
  shows "is_str (drop i s)"
proof -
  have "\<forall>c\<in>set cs. is_scalar c \<Longrightarrow> is_char_boundary (utf8_string cs) i \<Longrightarrow> is_str (drop i (utf8_string cs))" for cs
  proof (induction cs arbitrary: i)
    case (Cons c cs)
    let ?e = "utf8_encode c"
    have c: "is_scalar c" "\<forall>c\<in>set cs. is_scalar c" using Cons.prems(1) by simp_all
    have rest: "is_str (utf8_string cs)" unfolding is_str_def using c(2) by blast
    show ?case
    proof (cases "i = 0")
      case True
      then show ?thesis using Cons.prems(1) unfolding is_str_def by (auto intro!: exI [of _ "c # cs"])
    next
      case False
      have inner: "is_cont (?e ! i)" if "i < length ?e"
      proof -
        have "?e ! i \<in> set (tl ?e)" using that False by (cases ?e) (auto simp: nth_Cons')
        then show ?thesis using c(1) utf8_encode_tail by blast
      qed
      have "length ?e \<le> i"
      proof (rule ccontr)
        assume "\<not> length ?e \<le> i"
        then have "is_cont (utf8_string (c # cs) ! i)" using inner by (simp add: nth_append)
        then show False using Cons.prems(2) False \<open>\<not> length ?e \<le> i\<close> by (simp add: is_char_boundary_def split: if_splits)
      qed
      then have d: "drop i (utf8_string (c # cs)) = drop (i - length ?e) (utf8_string cs)" by simp
      show ?thesis
      proof (cases "i = length ?e")
        case False
        then have "is_char_boundary (utf8_string cs) (i - length ?e)"
          using Cons.prems(2) \<open>length ?e \<le> i\<close> boundary_drop [of "length ?e" "utf8_string (c # cs)" "i - length ?e"] by simp
        then show ?thesis using Cons.IH c(2) d by simp
      qed (use d rest in simp)
    qed
  qed simp
  then show ?thesis using assms by (auto simp: is_str_def)
qed

end
