(* ===== verification/Osc_Scan.thy ===== *)
theory Osc_Scan
  imports Str_Slice
begin

text \<open>
  Streams with embedded OSC sequences: a prefix such as \<open>ESC ]633;\<close>, a payload, and a terminator,
  \<open>BEL\<close> or \<open>ESC \\<close>. Two components pick such sequences out of terminal output that arrives in
  chunks, with bounded buffers. This theory holds the search for the terminator that both have,
  the specification, a scan of the whole stream at once, and the locale in which the
  equivalence of chunked parsing with that scan is proved once for both.
\<close>

section \<open>Terminators\<close>

definition ESC :: u8 where
  "ESC = 0x1B"

definition BEL :: u8 where
  "BEL = 0x07"

definition ST :: bytes where
  "ST = [0x1B, 0x5C]"

text \<open>The choice between the two terminators: the earlier one, with its length.\<close>

fun pick_terminator :: "nat option \<Rightarrow> nat option \<Rightarrow> (nat \<times> nat) option" where
  "pick_terminator (Some bi) (Some si) = (if bi < si then Some (bi, 1) else Some (si, 2))"
| "pick_terminator (Some bi) None = Some (bi, 1)"
| "pick_terminator None (Some si) = Some (si, 2)"
| "pick_terminator None None = None"

definition osc_terminator :: "nat \<Rightarrow> bytes \<Rightarrow> (nat \<times> nat) option" where
  "osc_terminator payload_start b =
    pick_terminator (map_option ((+) payload_start) (find_sub [BEL] (drop payload_start b)))
      (map_option ((+) payload_start) (find_sub ST (drop payload_start b)))"

definition find_terminator :: "nat \<Rightarrow> bytes \<Rightarrow> (nat \<times> nat) option option" where
  "find_terminator payload_start b =
    (case slice_from b payload_start of
       None \<Rightarrow> None
     | Some s \<Rightarrow>
         Some (pick_terminator (map_option ((+) payload_start) (find_sub [BEL] s))
           (map_option ((+) payload_start) (find_sub ST s))))"

lemma find_terminator_eq:
  "is_char_boundary b n \<Longrightarrow> find_terminator n b = Some (osc_terminator n b)"
  by (simp add: find_terminator_def osc_terminator_def slice_from_def)

lemma find_terminator_length: "find_terminator n b = Some (Some (j, l)) \<Longrightarrow> 0 < l"
proof -
  have "pick_terminator x y = Some (j, l) \<Longrightarrow> 0 < l" for x y
    by (cases x; cases y) (auto split: if_splits)
  then show "find_terminator n b = Some (Some (j, l)) \<Longrightarrow> 0 < l"
    by (auto simp: find_terminator_def split: option.splits)
qed

lemma slice_from_length: "slice_from b i = Some b' \<Longrightarrow> b' = drop i b"
  by (simp add: slice_from_def split: if_splits)

definition terminates :: "bytes \<Rightarrow> nat \<Rightarrow> nat \<Rightarrow> bool" where
  "terminates b j l \<longleftrightarrow> l = 1 \<and> prefix [BEL] (drop j b) \<or> l = 2 \<and> prefix ST (drop j b)"

lemma pattern_nonempty [simp]: "ST \<noteq> []" "[BEL] \<noteq> []" "length ST = 2"
  by (simp_all add: ST_def)

lemma bel_not_st: "prefix [BEL] s \<Longrightarrow> \<not> prefix ST s"
  by (cases s) (auto simp: BEL_def ST_def)

lemma find_sub_drop_None:
  assumes "p \<noteq> []"
  shows "find_sub p (drop n b) = None \<longleftrightarrow> (\<forall>j\<ge>n. \<not> prefix p (drop j b))"
proof
  assume a: "find_sub p (drop n b) = None"
  show "\<forall>j\<ge>n. \<not> prefix p (drop j b)"
  proof (intro allI impI notI)
    fix j assume j: "n \<le> j" "prefix p (drop j b)"
    have "j < length b" using prefix_drop_length [OF j(2) assms] by simp
    then have "j - n \<le> length (drop n b)" "drop (j - n) (drop n b) = drop j b" using j(1) by simp_all
    then show False using a j(2) unfolding find_sub_None by metis
  qed
next
  assume "\<forall>j\<ge>n. \<not> prefix p (drop j b)"
  then show "find_sub p (drop n b) = None" unfolding find_sub_None by (simp add: add.commute)
qed

lemma osc_terminator_None: "osc_terminator n b = None \<longleftrightarrow> (\<forall>j\<ge>n. \<forall>l. \<not> terminates b j l)"
proof -
  have "osc_terminator n b = None \<longleftrightarrow> find_sub [BEL] (drop n b) = None \<and> find_sub ST (drop n b) = None"
    unfolding osc_terminator_def
    by (cases "find_sub [BEL] (drop n b)"; cases "find_sub ST (drop n b)") auto
  then show ?thesis unfolding terminates_def by (auto simp: find_sub_drop_None)
qed

lemma find_sub_drop:
  assumes "find_sub p (drop n b) = Some i" "p \<noteq> []"
  shows "prefix p (drop (n + i) b)" "\<And>j. n \<le> j \<Longrightarrow> j < n + i \<Longrightarrow> \<not> prefix p (drop j b)"
proof -
  have a: "prefix p (drop i (drop n b))" "\<forall>j<i. \<not> prefix p (drop j (drop n b))"
    using assms(1) unfolding find_sub_Some by auto
  show "prefix p (drop (n + i) b)" using a(1) by (simp add: add.commute)
  show "\<not> prefix p (drop j b)" if "n \<le> j" "j < n + i" for j
    using a(2) [rule_format, of "j - n"] that by simp
qed

lemma osc_terminator_Some:
  assumes "osc_terminator n b = Some (j, l)"
  shows "n \<le> j" "terminates b j l" "\<And>i m. n \<le> i \<Longrightarrow> i < j \<Longrightarrow> \<not> terminates b i m"
proof -
  let ?f = "find_sub [BEL] (drop n b)" and ?g = "find_sub ST (drop n b)"
  have none: "\<not> prefix p (drop i b)" if "find_sub p (drop n b) = None" "p \<noteq> []" "n \<le> i" for p i
    using that by (simp add: find_sub_drop_None)
  consider x where "?f = Some x" "j = n + x" "l = 1" "\<And>y. ?g = Some y \<Longrightarrow> x < y"
    | y where "?g = Some y" "j = n + y" "l = 2" "\<And>x. ?f = Some x \<Longrightarrow> y \<le> x"
    using assms unfolding osc_terminator_def
    by (cases "?f"; cases "?g") (auto split: if_splits)
  then have "n \<le> j \<and> terminates b j l \<and> (\<forall>i m. n \<le> i \<and> i < j \<longrightarrow> \<not> terminates b i m)"
  proof cases
    case (1 x)
    have "\<not> prefix ST (drop i b)" if "n \<le> i" "i < j" for i
    proof (cases "?g")
      case None
      then show ?thesis by (rule none) (use that in simp_all)
    next
      case (Some y)
      then show ?thesis using find_sub_drop(2) [OF Some _ that(1)] 1(4) [OF Some] 1(2) that by simp
    qed
    moreover have "\<not> prefix [BEL] (drop i b)" if "n \<le> i" "i < j" for i
      using find_sub_drop(2) [OF 1(1) _ that(1)] 1(2) that by simp
    moreover have "prefix [BEL] (drop j b)" using find_sub_drop(1) [OF 1(1)] 1(2) by simp
    ultimately show ?thesis using 1(2,3) by (simp add: terminates_def)
  next
    case (2 y)
    have "\<not> prefix [BEL] (drop i b)" if "n \<le> i" "i < j" for i
    proof (cases "?f")
      case None
      then show ?thesis by (rule none) (use that in simp_all)
    next
      case (Some x)
      then show ?thesis using find_sub_drop(2) [OF Some _ that(1)] 2(4) [OF Some] 2(2) that by simp
    qed
    moreover have "\<not> prefix ST (drop i b)" if "n \<le> i" "i < j" for i
      using find_sub_drop(2) [OF 2(1) _ that(1)] 2(2) that by simp
    moreover have "prefix ST (drop j b)" using find_sub_drop(1) [OF 2(1)] 2(2) by simp
    ultimately show ?thesis using 2(2,3) by (simp add: terminates_def)
  qed
  then show "n \<le> j" "terminates b j l" "\<And>i m. n \<le> i \<Longrightarrow> i < j \<Longrightarrow> \<not> terminates b i m" by blast+
qed

lemma osc_terminatorI:
  assumes "n \<le> j" "terminates b j l" "\<And>i m. n \<le> i \<Longrightarrow> i < j \<Longrightarrow> \<not> terminates b i m"
  shows "osc_terminator n b = Some (j, l)"
proof (cases "osc_terminator n b")
  case None
  then show ?thesis using assms(1,2) by (simp add: osc_terminator_None)
next
  case (Some p)
  obtain j' l' where p: "p = (j', l')" by fastforce
  note s = osc_terminator_Some [OF Some [unfolded p]]
  have "j' = j" using s assms by (metis linorder_neqE_nat)
  moreover from this have "l' = l" using s(2) assms(2) bel_not_st by (auto simp: terminates_def)
  ultimately show ?thesis using Some p by simp
qed

lemma terminates_length: "terminates b j l \<Longrightarrow> j + l \<le> length b \<and> 0 < l \<and> j < length b"
  unfolding terminates_def using prefix_drop_length [of "[BEL]" j b] prefix_drop_length [of ST j b] by auto

lemma terminates_append: "terminates b j l \<Longrightarrow> terminates (b @ d) j l"
  using terminates_length [of b j l] by (auto simp: terminates_def)

lemma terminates_append_iff:
  assumes "Suc j < length b"
  shows "terminates (b @ d) j l \<longleftrightarrow> terminates b j l"
proof -
  obtain x y r where "drop j b = x # y # r"
    using assms by (metis Cons_nth_drop_Suc Suc_lessD)
  then show ?thesis using assms by (auto simp: terminates_def ST_def)
qed

lemma terminator_boundaries:
  assumes "text_ok s" "terminates s j l"
  shows "is_char_boundary s j" "is_char_boundary s (j + l)"
  using assms(2) pattern_boundaries [OF assms(1), of "[BEL]" j] pattern_boundaries [OF assms(1), of ST j]
  by (auto simp: terminates_def ascii_def BEL_def ST_def)

text \<open>A terminator that has been found stays the terminator when more data arrives.\<close>

lemma osc_terminator_append:
  assumes "osc_terminator n b = Some (j, l)"
  shows "osc_terminator n (b @ d) = Some (j, l)"
proof (rule osc_terminatorI)
  note s = osc_terminator_Some [OF assms]
  show "n \<le> j" by (rule s(1))
  show "terminates (b @ d) j l" by (rule terminates_append [OF s(2)])
  show "\<not> terminates (b @ d) i m" if "n \<le> i" "i < j" for i m
  proof -
    have "Suc i < length b" using terminates_length [OF s(2)] that by linarith
    then show ?thesis using s(3) [OF that] by (simp add: terminates_append_iff)
  qed
qed

lemma find_sub_None_drop:
  assumes "find_sub p s = None"
  shows "find_sub p (drop k s) = None"
proof (cases "k \<le> length s")
  case True
  then show ?thesis using assms by (auto simp: find_sub_None)
next
  case False
  then show ?thesis using assms by (auto simp: find_sub_None)
qed

lemma find_sub_drop_Some:
  assumes "find_sub p s = Some i" "k \<le> i"
  shows "find_sub p (drop k s) = Some (i - k)"
proof -
  have "prefix p (drop i s)" "i \<le> length s" "\<forall>j<i. \<not> prefix p (drop j s)" using assms(1) by (auto simp: find_sub_Some)
  then show ?thesis using assms(2) by (auto simp: find_sub_Some simp del: drop_append)
qed

lemma find_sub_append:
  assumes "find_sub p s = Some i" "p \<noteq> []"
  shows "find_sub p (s @ d) = Some i"
proof -
  have s: "prefix p (drop i s)" "\<forall>j<i. \<not> prefix p (drop j s)" using assms(1) by (auto simp: find_sub_Some)
  have l: "i + length p \<le> length s" "i < length s" using prefix_drop_length [OF s(1) assms(2)] by simp_all
  have "\<not> prefix p (drop j (s @ d))" if "j < i" for j
  proof
    assume a: "prefix p (drop j (s @ d))"
    have "prefix p (drop j s @ d)" using a l that by simp
    then have "prefix p (drop j s)" using l that by (auto simp: prefix_def append_eq_append_conv2)
    then show False using s(2) that by blast
  qed
  then show ?thesis using s(1) l by (simp add: find_sub_Some)
qed

section \<open>The specification: one scan of the whole stream\<close>

function osc_scan :: "bytes \<Rightarrow> (bytes \<Rightarrow> nat \<Rightarrow> 'e option) \<Rightarrow> bytes \<Rightarrow> 'e list \<times> bytes" where
  "osc_scan pre emit s =
    (case find_sub pre s of
       None \<Rightarrow> ([], s)
     | Some i \<Rightarrow>
         (case osc_terminator (length pre) (drop i s) of
            None \<Rightarrow> ([], drop i s)
          | Some (j, l) \<Rightarrow>
              (case osc_scan pre emit (drop (i + j + l) s) of
                 (es, r) \<Rightarrow> (case emit (take (j - length pre) (drop (i + length pre) s)) (j + l) of
                     Some e \<Rightarrow> (e # es, r) | None \<Rightarrow> (es, r)))))"
  by pat_completeness auto
termination
proof (relation "measure (\<lambda>(pre, emit, s). length s)", goal_cases)
  case (2 pre emit s i p j l)
  then have "j + l \<le> length (drop i s) \<and> 0 < l \<and> j < length (drop i s)"
    using terminates_length osc_terminator_Some(2) by metis
  then have "length s - (i + j + l) < length s" unfolding length_drop by linarith
  then show ?case by simp
qed simp

declare osc_scan.simps [simp del]

definition osc_emit :: "bytes \<Rightarrow> (bytes \<Rightarrow> nat \<Rightarrow> 'e option) \<Rightarrow> nat \<Rightarrow> nat \<Rightarrow> nat \<Rightarrow> bytes \<Rightarrow> 'e list" where
  "osc_emit pre emit i j l s =
    (case emit (take (j - length pre) (drop (i + length pre) s)) (j + l) of Some e \<Rightarrow> [e] | None \<Rightarrow> [])"

lemma osc_scan_plain: "find_sub pre s = None \<Longrightarrow> osc_scan pre emit s = ([], s)"
  by (simp add: osc_scan.simps [of pre emit s])

lemma osc_scan_open:
  "find_sub pre s = Some i \<Longrightarrow> osc_terminator (length pre) (drop i s) = None \<Longrightarrow> osc_scan pre emit s = ([], drop i s)"
  by (simp add: osc_scan.simps [of pre emit s])

lemma osc_scan_closed:
  assumes "find_sub pre s = Some i" "osc_terminator (length pre) (drop i s) = Some (j, l)"
  shows "osc_scan pre emit s =
    (osc_emit pre emit i j l s @ fst (osc_scan pre emit (drop (i + j + l) s)), snd (osc_scan pre emit (drop (i + j + l) s)))"
  using assms by (simp add: osc_scan.simps [of pre emit s] osc_emit_def split: prod.split option.split)

lemma osc_closed_length:
  assumes "find_sub pre s = Some i" "osc_terminator n (drop i s) = Some (j, l)"
  shows "i + j + l \<le> length s" "0 < l" "n \<le> j"
  using assms terminates_length [OF osc_terminator_Some(2) [OF assms(2)]] osc_terminator_Some(1) [OF assms(2)]
  by (auto simp: find_sub_Some)

lemma osc_scan_skip:
  assumes "find_sub pre s = Some i"
  shows "osc_scan pre emit (drop i s) = osc_scan pre emit s"
proof -
  have z: "find_sub pre (drop i s) = Some 0" using assms by (simp add: find_sub_Some)
  show ?thesis
  proof (cases "osc_terminator (length pre) (drop i s)")
    case None
    then show ?thesis using osc_scan_open [OF assms None, of emit] osc_scan_open [OF z, of emit] by simp
  next
    case (Some p)
    obtain j l where p: "p = (j, l)" by fastforce
    show ?thesis
      using osc_scan_closed [OF assms Some [unfolded p], of emit] osc_scan_closed [OF z, of j l emit] Some p
      by (simp add: osc_emit_def ac_simps)
  qed
qed

text \<open>Scanning in two parts: the first part's remainder goes in front of the second part.\<close>

lemma osc_scan_append:
  assumes "pre \<noteq> []"
  shows "osc_scan pre emit (s @ d) =
    (fst (osc_scan pre emit s) @ fst (osc_scan pre emit (snd (osc_scan pre emit s) @ d)),
     snd (osc_scan pre emit (snd (osc_scan pre emit s) @ d)))"
proof (induction s rule: measure_induct_rule [where f = length])
  case (less s)
  show ?case
  proof (cases "find_sub pre s")
    case None
    then show ?thesis by (simp add: osc_scan_plain)
  next
    case (Some i)
    note fa = find_sub_append [OF Some assms, of d]
    have i: "i \<le> length s" "prefix pre (drop i s)" using Some by (auto simp: find_sub_Some)
    then have d: "drop i (s @ d) = drop i s @ d" by simp
    show ?thesis
    proof (cases "osc_terminator (length pre) (drop i s)")
      case None
      then show ?thesis using osc_scan_open [OF Some None, of emit] osc_scan_skip [OF fa, of emit] d by simp
    next
      case (Some p)
      obtain j l where p: "p = (j, l)" by fastforce
      note t = Some [unfolded p]
      have t': "osc_terminator (length pre) (drop i (s @ d)) = Some (j, l)"
        using osc_terminator_append [OF t, of d] d by simp
      note b = osc_closed_length [OF \<open>find_sub pre s = Some i\<close> t]
      have "osc_emit pre emit i j l (s @ d) = osc_emit pre emit i j l s"
        using b by (simp add: osc_emit_def)
      moreover have "drop (i + j + l) (s @ d) = drop (i + j + l) s @ d" using b by simp
      moreover have "length (drop (i + j + l) s) < length s" using b by simp
      note IH = less.IH [OF this]
      ultimately show ?thesis
        using osc_scan_closed [OF fa t', of emit] osc_scan_closed [OF \<open>find_sub pre s = Some i\<close> t, of emit] IH by simp
    qed
  qed
qed

lemma osc_scan_rest_length: "length (snd (osc_scan pre emit s)) \<le> length s"
proof (induction s rule: measure_induct_rule [where f = length])
  case (less s)
  show ?case
  proof (cases "find_sub pre s")
    case None
    then show ?thesis by (simp add: osc_scan_plain)
  next
    case (Some i)
    note p = Some
    show ?thesis
    proof (cases "osc_terminator (length pre) (drop i s)")
      case None
      then show ?thesis by (simp add: osc_scan_open [OF p])
    next
      case (Some q)
      obtain j l where q: "q = (j, l)" by fastforce
      have "length (drop (i + j + l) s) < length s" using osc_closed_length [OF p Some [unfolded q]] by simp
      from less.IH [OF this] osc_scan_closed [OF p Some [unfolded q], of emit] show ?thesis by simp
    qed
  qed
qed

lemma osc_scan_again: "pre \<noteq> [] \<Longrightarrow> fst (osc_scan pre emit (snd (osc_scan pre emit s))) = []"
  using osc_scan_append [of pre emit s "[]"] by (metis append_Nil2 append_self_conv fst_conv)

text \<open>How much of an unterminated sequence is at the end of a stream.\<close>

definition osc_open :: "bytes \<Rightarrow> (bytes \<Rightarrow> nat \<Rightarrow> 'e option) \<Rightarrow> bytes \<Rightarrow> nat" where
  "osc_open pre emit s = (let r = snd (osc_scan pre emit s) in if find_sub pre r = None then 0 else length r)"

lemma osc_scan_rest:
  "find_sub pre (snd (osc_scan pre emit s)) \<noteq> None \<Longrightarrow>
    find_sub pre (snd (osc_scan pre emit s)) = Some 0 \<and> osc_terminator (length pre) (snd (osc_scan pre emit s)) = None"
proof (induction s rule: measure_induct_rule [where f = length])
  case (less s)
  show ?case
  proof (cases "find_sub pre s")
    case None
    then show ?thesis using less.prems by (simp add: osc_scan_plain)
  next
    case (Some i)
    show ?thesis
    proof (cases "osc_terminator (length pre) (drop i s)")
      case None
      then show ?thesis using osc_scan_open [OF Some None, of emit] Some by (simp add: find_sub_Some)
    next
      case (Some p)
      obtain j l where p: "p = (j, l)" by fastforce
      note t = Some [unfolded p]
      note c = osc_scan_closed [OF \<open>find_sub pre s = Some i\<close> t, of emit]
      have "length (drop (i + j + l) s) < length s" using osc_closed_length [OF \<open>find_sub pre s = Some i\<close> t] by simp
      from less.IH [OF this] less.prems c show ?thesis by simp
    qed
  qed
qed

section \<open>Chunked parsing\<close>

text \<open>A parser that is fed chunk by chunk: what it holds back, and what it has returned.\<close>

fun osc_feeds :: "(bytes \<Rightarrow> bytes \<Rightarrow> (bytes \<times> 'e list) option) \<Rightarrow> bytes list \<Rightarrow> bytes \<Rightarrow> (bytes \<times> 'e list) option" where
  "osc_feeds feed [] b = Some (b, [])"
| "osc_feeds feed (d # ds) b =
    (case feed b d of
       None \<Rightarrow> None
     | Some (b', es) \<Rightarrow> map_option (\<lambda>(b'', es'). (b'', es @ es')) (osc_feeds feed ds b'))"

definition osc_prefix :: "bytes \<Rightarrow> bool" where
  "osc_prefix pre \<longleftrightarrow> ascii pre \<and> 2 \<le> length pre \<and> hd pre = ESC \<and> ESC \<notin> set (tl pre) \<and> BEL \<notin> set pre"

text \<open>
  The interface of the two parsers to the proof: the loop that a feed runs on its buffer, by the
  three situations the buffer can be in, and what it may do with an overlong sequence.
\<close>

locale osc_parser =
  fixes pre :: bytes and emit :: "bytes \<Rightarrow> nat \<Rightarrow> 'e option" and limit :: nat
    and loop :: "bytes \<Rightarrow> 'e list \<Rightarrow> (bytes \<times> 'e list) option"
  assumes pre_wf: "osc_prefix pre"
    and loop_plain: "text_ok s \<Longrightarrow> find_sub pre s = None \<Longrightarrow>
      \<exists>k. loop s acc = Some (drop k s, acc) \<and> is_char_boundary s k \<and> (k = 0 \<or> length pre + k \<le> length s)"
    and loop_open: "text_ok s \<Longrightarrow> find_sub pre s = Some i \<Longrightarrow> osc_terminator (length pre) (drop i s) = None \<Longrightarrow>
      length s - i \<le> limit \<Longrightarrow> loop s acc = Some (drop i s, acc)"
    and loop_closed: "text_ok s \<Longrightarrow> find_sub pre s = Some i \<Longrightarrow>
      osc_terminator (length pre) (drop i s) = Some (j, l) \<Longrightarrow>
      loop s acc = loop (drop (i + j + l) s) (acc @ osc_emit pre emit i j l s)"
    and loop_over: "text_ok s \<Longrightarrow> find_sub pre s = Some i \<Longrightarrow> osc_terminator (length pre) (drop i s) = None \<Longrightarrow>
      limit < length s - i \<Longrightarrow>
      \<exists>k. is_char_boundary s k \<and> 0 < k \<and> (loop s acc = Some (drop k s, acc) \<or> loop s acc = loop (drop k s) acc)"
begin

lemma pre_nonempty: "pre \<noteq> []" "ascii pre"
  using pre_wf by (auto simp: osc_prefix_def)

lemma closed_boundary:
  assumes "text_ok s" "find_sub pre s = Some i" "osc_terminator (length pre) (drop i s) = Some (j, l)"
  shows "is_char_boundary s (i + j + l)"
proof -
  have "terminates s (i + j) l" using osc_terminator_Some(2) [OF assms(3)] by (simp add: terminates_def add.commute)
  from terminator_boundaries(2) [OF assms(1) this] show ?thesis by (simp add: ac_simps)
qed

text \<open>The prefix does not overlap itself: after plain text it is found where it starts.\<close>

lemma find_after_plain:
  assumes "find_sub pre r = None"
  shows "find_sub pre (r @ pre @ x) = Some (length r)"
proof -
  have "\<not> prefix pre (drop j (r @ pre @ x))" if j: "j < length r" for j
  proof
    assume a: "prefix pre (drop j (r @ pre @ x))"
    show False
    proof (cases "length pre + j \<le> length r")
      case True
      then have "prefix pre (drop j r)" using a j prefix_length_prefix [of pre "drop j r @ pre @ x" "drop j r"] by simp
      then show False using assms j by (auto simp: find_sub_None)
    next
      case False
      then have k: "length r - j < length pre" "0 < length r - j" using j by auto
      have "(r @ pre @ x) ! length r = ESC"
        using pre_wf pre_nonempty by (auto simp: osc_prefix_def nth_append hd_conv_nth)
      then have "pre ! (length r - j) = ESC" using prefix_drop_nth [OF a k(1)] j by simp
      then have "tl pre ! (length r - j - 1) = ESC" "length r - j - 1 < length (tl pre)" using k by (simp_all add: nth_tl Suc_diff_Suc)
      then show False using pre_wf unfolding osc_prefix_def by (metis nth_mem)
    qed
  qed
  then show ?thesis by (simp add: find_sub_Some)
qed

text \<open>A complete sequence after plain text.\<close>

lemma scan_sequence:
  assumes "find_sub pre r = None" "BEL \<notin> set payload" "ESC \<notin> set payload"
  shows "osc_scan pre emit (r @ pre @ payload @ BEL # x) =
    ((case emit payload (length pre + length payload + 1) of Some e \<Rightarrow> [e] | None \<Rightarrow> []) @ fst (osc_scan pre emit x),
     snd (osc_scan pre emit x))"
proof -
  let ?b = "pre @ payload @ BEL # x" and ?n = "length pre + length payload"
  have "osc_terminator (length pre) ?b = Some (?n, 1)"
  proof (rule osc_terminatorI)
    show "terminates ?b ?n 1" by (simp add: terminates_def)
    show "\<not> terminates ?b i m" if "length pre \<le> i" "i < ?n" for i m
    proof
      assume "terminates ?b i m"
      then have "?b ! i = BEL \<or> ?b ! i = ESC"
        unfolding terminates_def using prefix_drop_nth [of "[BEL]" i ?b 0] prefix_drop_nth [of ST i ?b 0]
        by (auto simp: ST_def ESC_def)
      moreover have "?b ! i \<in> set payload" using that by (auto simp: nth_append)
      ultimately show False using assms(2,3) by auto
    qed
  qed simp
  moreover have "drop (length r) (r @ ?b) = ?b" by simp
  ultimately have t: "osc_terminator (length pre) (drop (length r) (r @ ?b)) = Some (?n, 1)" by simp
  from osc_scan_closed [OF find_after_plain [OF assms(1)] t, of emit] show ?thesis
    by (simp add: osc_emit_def)
qed

text \<open>A feed always returns, and what it holds back is a piece of what it was given.\<close>

lemma loop_total:
  "text_ok s \<Longrightarrow> \<exists>k es. loop s acc = Some (drop k s, acc @ es) \<and> text_ok (drop k s)"
proof (induction s arbitrary: acc rule: measure_induct_rule [where f = length])
  case (less s)
  have again: "\<exists>k' es. loop (drop k s) (acc @ es0) = Some (drop k' s, acc @ es) \<and> text_ok (drop k' s)"
    if "0 < k" "is_char_boundary s k" "s \<noteq> []" for k es0
  proof -
    have "length (drop k s) < length s" using that by simp
    from less.IH [OF this text_ok_drop [OF less.prems that(2)], of "acc @ es0"] show ?thesis
      by (metis append.assoc drop_drop)
  qed
  show ?case
  proof (cases "find_sub pre s")
    case None
    from loop_plain [OF less.prems None, of acc] show ?thesis using text_ok_drop [OF less.prems] by (metis append_Nil2)
  next
    case (Some i)
    then have i: "prefix pre (drop i s)" by (simp add: find_sub_Some)
    then have ne: "s \<noteq> []" using pre_nonempty by auto
    show ?thesis
    proof (cases "osc_terminator (length pre) (drop i s)")
      case (Some p)
      obtain j l where p: "p = (j, l)" by fastforce
      note t = Some [unfolded p]
      from again [OF _ closed_boundary [OF less.prems \<open>find_sub pre s = Some i\<close> t] ne]
        loop_closed [OF less.prems \<open>find_sub pre s = Some i\<close> t] osc_closed_length [OF \<open>find_sub pre s = Some i\<close> t]
      show ?thesis by simp
    next
      case None
      show ?thesis
      proof (cases "length s - i \<le> limit")
        case True
        have "text_ok (drop i s)"
          by (rule text_ok_drop [OF less.prems pattern_boundaries(1) [OF less.prems pre_nonempty(2,1) i]])
        then show ?thesis using loop_open [OF less.prems Some None True, of acc] by (metis append_Nil2)
      next
        case False
        then obtain k where "is_char_boundary s k" "0 < k" "loop s acc = Some (drop k s, acc) \<or> loop s acc = loop (drop k s) acc"
          using loop_over [OF less.prems Some None, of acc] by auto
        then show ?thesis using again [of k "[]"] ne text_ok_drop [OF less.prems] by (metis append_Nil2)
      qed
    qed
  qed
qed

lemma feeds_total:
  "text_ok b \<Longrightarrow> \<forall>d\<in>set ds. text_ok d \<Longrightarrow>
    \<exists>b' es. osc_feeds (\<lambda>b d. loop (b @ d) []) ds b = Some (b', es) \<and> text_ok b'"
proof (induction ds arbitrary: b)
  case (Cons d ds)
  have "text_ok (b @ d)" using Cons.prems by (simp add: text_ok_append)
  from loop_total [OF this, of "[]"] obtain k es where
    l: "loop (b @ d) [] = Some (drop k (b @ d), es)" "text_ok (drop k (b @ d))" by auto
  from Cons.IH [OF l(2)] Cons.prems(2) l(1) show ?case by auto
qed simp

text \<open>
  Below the limit a feed computes the scan of its buffer; of plain text it may drop all but a
  tail that is long enough for a prefix that has only begun.
\<close>

definition lags :: "bytes \<Rightarrow> bytes \<Rightarrow> bool" where
  "lags r b \<longleftrightarrow> b = r \<or> (\<exists>k. find_sub pre r = None \<and> b = drop k r \<and> length pre + k \<le> length r)"

lemma loop_scan:
  assumes "text_ok s" "osc_open pre emit s \<le> limit"
  shows "\<exists>b. loop s acc = Some (b, acc @ fst (osc_scan pre emit s)) \<and> lags (snd (osc_scan pre emit s)) b"
  using assms
proof (induction s arbitrary: acc rule: measure_induct_rule [where f = length])
  case (less s)
  show ?case
  proof (cases "find_sub pre s")
    case None
    from loop_plain [OF less.prems(1) None, of acc] show ?thesis
      using None by (auto simp: osc_scan_plain lags_def)
  next
    case (Some i)
    show ?thesis
    proof (cases "osc_terminator (length pre) (drop i s)")
      case None
      note o = osc_scan_open [OF Some None, of emit]
      have "find_sub pre (drop i s) \<noteq> None" using Some by (auto simp: find_sub_Some find_sub_None)
      then have "length s - i \<le> limit" using less.prems(2) o by (auto simp: osc_open_def Let_def split: if_splits)
      from loop_open [OF less.prems(1) Some None this, of acc] show ?thesis using o by (simp add: lags_def)
    next
      case (Some p)
      obtain j l where p: "p = (j, l)" by fastforce
      note f = \<open>find_sub pre s = Some i\<close> and t = Some [unfolded p]
      note c = osc_scan_closed [OF f t, of emit]
      have lt: "length (drop (i + j + l) s) < length s" using osc_closed_length [OF f t] by simp
      have ok: "text_ok (drop (i + j + l) s)" by (rule text_ok_drop [OF less.prems(1) closed_boundary [OF less.prems(1) f t]])
      have "osc_open pre emit (drop (i + j + l) s) \<le> limit" using less.prems(2) c by (simp add: osc_open_def)
      from less.IH [OF lt ok this, of "acc @ osc_emit pre emit i j l s"] loop_closed [OF less.prems(1) f t, of acc] c
      show ?thesis by simp
    qed
  qed
qed

lemma lags_scan:
  assumes "lags r b"
  shows "fst (osc_scan pre emit (b @ d)) = fst (osc_scan pre emit (r @ d)) \<and>
    lags (snd (osc_scan pre emit (r @ d))) (snd (osc_scan pre emit (b @ d)))"
proof (cases "b = r")
  case True
  then show ?thesis by (simp add: lags_def)
next
  case False
  then obtain k where k: "find_sub pre r = None" "b = drop k r" "length pre + k \<le> length r"
    using assms by (auto simp: lags_def)
  have bd: "b @ d = drop k (r @ d)" using k by simp
  have late: "k \<le> i" if "prefix pre (drop i (r @ d))" for i
  proof (rule ccontr)
    assume "\<not> k \<le> i"
    then have "length pre \<le> length (drop i r)" "prefix pre (drop i r @ d)" using k(3) that by auto
    then have "prefix pre (drop i r)" by (auto simp: prefix_def append_eq_append_conv2)
    moreover have "i \<le> length r" using \<open>\<not> k \<le> i\<close> k(3) by simp
    ultimately show False using k(1) by (auto simp: find_sub_None)
  qed
  show ?thesis
  proof (cases "find_sub pre (r @ d)")
    case None
    then have "find_sub pre (b @ d) = None" unfolding bd by (rule find_sub_None_drop)
    moreover have "lags (r @ d) (b @ d)" unfolding lags_def using None k by (intro disjI2 exI [of _ k]) simp
    ultimately show ?thesis using None by (simp add: osc_scan_plain)
  next
    case (Some i)
    then have i: "prefix pre (drop i (r @ d))" "i \<le> length (r @ d)" "\<forall>j<i. \<not> prefix pre (drop j (r @ d))"
      by (auto simp: find_sub_Some)
    note ki = late [OF i(1)]
    have "find_sub pre (b @ d) = Some (i - k)" unfolding bd by (rule find_sub_drop_Some [OF Some ki])
    from osc_scan_skip [OF this, of emit] osc_scan_skip [OF Some, of emit]
    have "osc_scan pre emit (b @ d) = osc_scan pre emit (r @ d)" unfolding bd using ki by (simp del: drop_append)
    then show ?thesis by (simp add: lags_def)
  qed
qed

lemma lags_trans: "lags r b \<Longrightarrow> lags b c \<Longrightarrow> lags r c"
  unfolding lags_def
  by (elim disjE exE conjE) (auto simp: find_sub_None)

lemma lags_open: "lags r b \<Longrightarrow> find_sub pre b = None \<longleftrightarrow> find_sub pre r = None"
  by (auto simp: lags_def find_sub_None)

lemma lags_limit:
  assumes "lags r b" "osc_open pre emit (r @ d) \<le> limit"
  shows "osc_open pre emit (b @ d) \<le> limit"
proof -
  have "lags (snd (osc_scan pre emit (r @ d))) (snd (osc_scan pre emit (b @ d)))" using lags_scan [OF assms(1)] by blast
  then show ?thesis using assms(2) lags_open by (fastforce simp: osc_open_def Let_def lags_def split: if_splits)
qed

lemma open_rest: "osc_open pre emit (snd (osc_scan pre emit s) @ d) = osc_open pre emit (s @ d)"
  using osc_scan_append [OF pre_nonempty(1), of emit s d] by (simp add: osc_open_def)

lemma feeds_scan:
  assumes "lags (snd (osc_scan pre emit s)) b" "text_ok b" "\<forall>d\<in>set ds. text_ok d"
    and "\<forall>k\<le>length ds. osc_open pre emit (s @ concat (take k ds)) \<le> limit"
  shows "\<exists>b'. osc_feeds (\<lambda>b d. loop (b @ d) []) ds b = Some (b', fst (osc_scan pre emit (snd (osc_scan pre emit s) @ concat ds)))"
  using assms
proof (induction ds arbitrary: s b)
  case (Cons d ds)
  have ok: "text_ok (b @ d)" using Cons.prems by (simp add: text_ok_append)
  let ?r = "snd (osc_scan pre emit s)"
  have "osc_open pre emit (s @ d) \<le> limit" using Cons.prems(4) [rule_format, of 1] by simp
  then have "osc_open pre emit (b @ d) \<le> limit" using lags_limit [OF Cons.prems(1)] by (simp add: open_rest)
  from loop_scan [OF ok this, of "[]"] obtain b1 where
    b1: "loop (b @ d) [] = Some (b1, fst (osc_scan pre emit (b @ d)))" "lags (snd (osc_scan pre emit (b @ d))) b1" by auto
  note ls = lags_scan [OF Cons.prems(1), of d]
  have a: "osc_scan pre emit (s @ d) = (fst (osc_scan pre emit s) @ fst (osc_scan pre emit (?r @ d)), snd (osc_scan pre emit (?r @ d)))"
    by (rule osc_scan_append [OF pre_nonempty(1)])
  have l: "lags (snd (osc_scan pre emit (s @ d))) b1" using lags_trans [OF conjunct2 [OF ls] b1(2)] a by simp
  have ok1: "text_ok b1" using loop_total [OF ok, of "[]"] b1(1) by auto
  have lim: "\<forall>k\<le>length ds. osc_open pre emit ((s @ d) @ concat (take k ds)) \<le> limit"
    using Cons.prems(4) by (auto dest: spec [of _ "Suc _"])
  have split: "fst (osc_scan pre emit (?r @ d @ concat ds)) =
      fst (osc_scan pre emit (?r @ d)) @ fst (osc_scan pre emit (snd (osc_scan pre emit (s @ d)) @ concat ds))"
    using osc_scan_append [OF pre_nonempty(1), of emit "?r @ d" "concat ds"] a by simp
  from Cons.IH [OF l ok1 _ lim] Cons.prems(3) obtain b' where "osc_feeds (\<lambda>b d. loop (b @ d) []) ds b1 =
      Some (b', fst (osc_scan pre emit (snd (osc_scan pre emit (s @ d)) @ concat ds)))" by auto
  then show ?case using b1(1) ls split by simp
qed (simp add: osc_scan_again [OF pre_nonempty(1)])

text \<open>Feeding chunks is scanning the whole.\<close>

lemma chunks_scan:
  assumes "\<forall>d\<in>set ds. text_ok d" "\<forall>k\<le>length ds. osc_open pre emit (concat (take k ds)) \<le> limit"
  shows "\<exists>b. osc_feeds (\<lambda>b d. loop (b @ d) []) ds [] = Some (b, fst (osc_scan pre emit (concat ds)))"
proof -
  have n: "osc_scan pre emit [] = ([], [])" using pre_nonempty by (simp add: osc_scan_plain)
  have "lags (snd (osc_scan pre emit [])) []" by (simp add: n lags_def)
  from feeds_scan [OF this _ assms(1)] assms(2) show ?thesis by (auto simp: n)
qed

end

end
