(* ===== verification/Shell_Parser.thy ===== *)
theory Shell_Parser
  imports Osc_Scan
begin

text \<open>
  \<open>crates/athena-core/src/shell_integration_parser.rs\<close>: the incremental parser of OSC 633 shell
  integration sequences. The buffer is a \<open>String\<close>, kept as its UTF-8 bytes; every slice of it that
  could panic is an option.
\<close>

section \<open>Sequences\<close>

datatype shell_integration_sequence =
    SqPrompt "bytes option"
  | SqCommand bytes
  | SqCommandStart
  | SqCommandExecuted
  | SqCommandFinished int
  | SqCwd bytes
  | SqProperty bytes bytes

record parsed_sequence =
  ps_sequence :: shell_integration_sequence
  ps_raw_length :: nat

definition OSC633_PREFIX :: bytes where
  "OSC633_PREFIX = 0x1B # bytes_of '']633;''"

text \<open>\<open>str::parse::<i32>\<close>: an optional sign, then digits only, and the value in range.\<close>

definition parse_i32 :: "bytes \<Rightarrow> int option" where
  "parse_i32 s =
    (case s of
       [] \<Rightarrow> None
     | b # rest \<Rightarrow>
         let neg = (b = byte CHR ''-''); ds = (if neg \<or> b = byte CHR ''+'' then rest else s)
         in if ds = [] \<or> \<not> list_all is_digit ds then None
            else let v = int (digits_value ds); n = (if neg then - v else v)
              in if - (2 ^ 31) \<le> n \<and> n < 2 ^ 31 then Some n else None)"

text \<open>
  The payload, with the two slices around the first semicolon and around the first equals sign.
  A slice at a position found by \<open>find\<close>; a failed one would be a panic.
\<close>

definition split_at :: "u8 \<Rightarrow> bytes \<Rightarrow> (bytes \<times> bytes) option" where
  "split_at sep s =
    (case find_sub [sep] s of
       Some idx \<Rightarrow>
         (case (slice_to s idx, slice_from s (idx + 1)) of
            (Some a, Some b) \<Rightarrow> Some (a, b)
          | _ \<Rightarrow> None)
     | None \<Rightarrow> Some (s, []))"

definition parse_payload :: "bytes \<Rightarrow> shell_integration_sequence option option" where
  "parse_payload payload =
    (case split_at (byte CHR '';'') payload of
       None \<Rightarrow> None
     | Some (command, rest) \<Rightarrow>
         if command = bytes_of ''A'' then Some (Some (SqPrompt None))
         else if command = bytes_of ''B'' then Some (Some (SqCommand rest))
         else if command = bytes_of ''C'' then Some (Some SqCommandStart)
         else if command = bytes_of ''D'' then
           Some (Some (SqCommandFinished
             (if rest = [] then 0 else (case parse_i32 rest of Some n \<Rightarrow> n | None \<Rightarrow> 0))))
         else if command = bytes_of ''E'' then Some (Some SqCommandExecuted)
         else if command = bytes_of ''P'' then Some (Some (SqCwd rest))
         else if command = bytes_of ''Is'' then Some (Some (SqProperty (bytes_of ''icon'') rest))
         else if command = bytes_of ''Set'' \<or> command = bytes_of ''S'' then
           map_option (\<lambda>(key, value). Some (SqProperty key value)) (split_at (byte CHR ''='') rest)
         else Some None)"

section \<open>The parser\<close>

text \<open>What an iteration of the loop does: leave the loop, go on, or push a sequence and go on.\<close>

datatype 'e osc_step = Stop bytes | Skip bytes | Push bytes 'e

text \<open>Dropping plain text from a buffer of more than 10,000 bytes.\<close>

definition opt_max :: "nat option \<Rightarrow> nat option \<Rightarrow> nat option" where
  "opt_max a b = (case (a, b) of
     (Some x, Some y) \<Rightarrow> Some (max x y) | (Some x, None) \<Rightarrow> Some x | (None, y) \<Rightarrow> y)"

definition opt_le :: "nat option \<Rightarrow> nat option \<Rightarrow> bool" where
  "opt_le a b = (case (a, b) of
     (Some x, Some y) \<Rightarrow> x \<le> y | (Some x, None) \<Rightarrow> False | (None, y) \<Rightarrow> True)"

definition trim_plain :: "bytes \<Rightarrow> bytes option" where
  "trim_plain buffer =
    (let keep0 = floor_char_boundary buffer (length buffer - 4096)
     in case slice_to buffer keep0 of
          None \<Rightarrow> None
        | Some tail \<Rightarrow>
            let last_bel = rfind_sub [BEL] tail; last_st = rfind_sub ST tail;
                keep1 = (case opt_max last_bel last_st of
                    Some pos \<Rightarrow> pos + (if opt_le last_st last_bel then 1 else 2)
                  | None \<Rightarrow> keep0);
                keep = floor_char_boundary buffer (min keep1 (length buffer))
            in slice_from buffer keep)"

text \<open>A buffer that starts with the prefix, and the whole iteration.\<close>

definition osc633_sequence :: "bytes \<Rightarrow> parsed_sequence osc_step option" where
  "osc633_sequence b =
    (case find_terminator (length OSC633_PREFIX) b of
       None \<Rightarrow> None
     | Some None \<Rightarrow>
         if 100000 < length b then
           (case slice_from b 1 of
              None \<Rightarrow> None
            | Some s \<Rightarrow>
                (case find_sub [ESC] s of
                   Some next_esc \<Rightarrow> map_option Skip (slice_from b (next_esc + 1))
                 | None \<Rightarrow> Some (Stop [])))
         else Some (Stop b)
     | Some (Some (terminator_idx, terminator_len)) \<Rightarrow> do {
         payload \<leftarrow> slice b (length OSC633_PREFIX) terminator_idx;
         b' \<leftarrow> slice_from b (terminator_idx + terminator_len);
         seq \<leftarrow> parse_payload payload;
         Some (case seq of
             Some sq \<Rightarrow> Push b' \<lparr>ps_sequence = sq, ps_raw_length = terminator_idx + terminator_len\<rparr>
           | None \<Rightarrow> Skip b')
       })"

definition osc633_step :: "bytes \<Rightarrow> parsed_sequence osc_step option" where
  "osc633_step buffer =
    (if buffer = [] then Some (Stop buffer)
     else case find_sub OSC633_PREFIX buffer of
       None \<Rightarrow> if 10000 < length buffer then map_option Stop (trim_plain buffer) else Some (Stop buffer)
     | Some osc_start \<Rightarrow>
         Option.bind (if 0 < osc_start then slice_from buffer osc_start else Some buffer) osc633_sequence)"

lemma osc633_sequence_shrinks:
  assumes "osc633_sequence b = Some r" "r = Skip b' \<or> r = Push b' e" "b \<noteq> []"
  shows "length b' < length b"
proof -
  obtain t where t: "find_terminator (length OSC633_PREFIX) b = Some t"
    using assms(1) by (auto simp: osc633_sequence_def split: option.splits)
  show ?thesis
  proof (cases t)
    case None
    then show ?thesis
      using assms t by (auto simp: osc633_sequence_def split: if_splits option.splits dest!: slice_from_length)
  next
    case (Some q)
    obtain j l where q: "q = (j, l)" by fastforce
    have "b' = drop (j + l) b"
      using assms t Some q
      by (auto simp: osc633_sequence_def Option.bind_eq_Some_conv split: option.splits dest!: slice_from_length)
    then show ?thesis using find_terminator_length [of _ b j l] t Some q assms(3) by simp
  qed
qed

lemma osc633_step_shrinks:
  assumes "osc633_step b = Some r" "r = Skip b' \<or> r = Push b' e"
  shows "length b' < length b"
proof -
  have ne: "b \<noteq> []" using assms by (auto simp: osc633_step_def)
  obtain i where i: "find_sub OSC633_PREFIX b = Some i"
    using assms ne by (auto simp: osc633_step_def split: option.splits if_splits)
  obtain b1 where b1: "(if 0 < i then slice_from b i else Some b) = Some b1" "osc633_sequence b1 = Some r"
    using assms ne i by (auto simp: osc633_step_def Option.bind_eq_Some_conv)
  have d: "b1 = drop i b" using b1(1) by (auto split: if_splits dest: slice_from_length)
  moreover have "prefix OSC633_PREFIX (drop i b)" using i by (simp add: find_sub_Some)
  ultimately have "b1 \<noteq> []" by (auto simp: OSC633_PREFIX_def)
  from osc633_sequence_shrinks [OF b1(2) assms(2) this] d show ?thesis by simp
qed

function osc633_loop :: "bytes \<Rightarrow> parsed_sequence list \<Rightarrow> (bytes \<times> parsed_sequence list) option" where
  "osc633_loop buffer results =
    (case osc633_step buffer of
       None \<Rightarrow> None
     | Some (Stop b) \<Rightarrow> Some (b, results)
     | Some (Skip b) \<Rightarrow> osc633_loop b results
     | Some (Push b e) \<Rightarrow> osc633_loop b (results @ [e]))"
  by pat_completeness auto
termination
  by (relation "measure (\<lambda>(b, r). length b)") (auto dest: osc633_step_shrinks)

declare osc633_loop.simps [simp del]

definition osc633_feed :: "bytes \<Rightarrow> bytes \<Rightarrow> (bytes \<times> parsed_sequence list) option" where
  "osc633_feed buffer data = osc633_loop (buffer @ data) []"

definition osc633_reset :: "bytes \<Rightarrow> bytes" where
  "osc633_reset buffer = []"

end
