(* ===== verification/Shell_Props.thy ===== *)
theory Shell_Props
  imports Shell_Parser
begin

text \<open>
  What the OSC 633 parser promises: it never panics, whatever it is fed and however the input is
  cut; its buffer stays bounded; and chunked parsing finds what one scan of the whole finds.
\<close>

section \<open>No slice panics\<close>

lemma split_at_total:
  assumes "text_ok s" "unat sep < 0x80"
  shows "\<exists>a b. split_at sep s = Some (a, b) \<and> text_ok b"
proof (cases "find_sub [sep] s")
  case None
  then show ?thesis using assms by (simp add: split_at_def)
next
  case (Some i)
  then have "prefix [sep] (drop i s)" by (simp add: find_sub_Some)
  moreover have "ascii [sep]" using assms(2) by (simp add: ascii_def)
  ultimately have "is_char_boundary s i" "is_char_boundary s (i + 1)"
    using pattern_boundaries [OF assms(1)] by force+
  then show ?thesis using Some assms(1) by (simp add: split_at_def slice_to_def slice_from_def text_ok_drop)
qed

lemma parse_payload_total:
  assumes "text_ok payload"
  shows "\<exists>r. parse_payload payload = Some r"
proof -
  obtain c rest where c: "split_at (byte CHR '';'') payload = Some (c, rest)" "text_ok rest"
    using split_at_total [OF assms, of "byte CHR '';''"] by auto
  obtain k v where "split_at (byte CHR ''='') rest = Some (k, v)"
    using split_at_total [OF c(2), of "byte CHR ''=''"] by auto
  then show ?thesis using c(1) by (simp add: parse_payload_def)
qed

lemma osc633_prefix: "osc_prefix OSC633_PREFIX" "length OSC633_PREFIX = 6"
  by (simp_all add: osc_prefix_def OSC633_PREFIX_def ascii_def ESC_def BEL_def bytes_of_def)

text \<open>The cut of \<open>trim_plain\<close>: past the last terminator before the tail, or at the tail.\<close>

lemma rfind_take:
  assumes "rfind_sub p (take n s) = Some i" "p \<noteq> []" "n \<le> length s"
  shows "prefix p (drop i s)" "i + length p \<le> n"
    "\<And>j. i < j \<Longrightarrow> j + length p \<le> n \<Longrightarrow> \<not> prefix p (drop j s)"
proof -
  have a: "prefix p (drop i (take n s))" "\<forall>j. i < j \<and> j \<le> length (take n s) \<longrightarrow> \<not> prefix p (drop j (take n s))"
    using rfind_sub_Some [OF assms(1)] by auto
  show "prefix p (drop i s)" using a(1) unfolding drop_take by (meson prefix_order.trans take_is_prefix)
  show "i + length p \<le> n" using prefix_drop_length [OF a(1) assms(2)] assms(3) by simp
  show "\<not> prefix p (drop j s)" if j: "i < j" "j + length p \<le> n" for j
  proof
    assume "prefix p (drop j s)"
    then have "prefix p (take (n - j) (drop j s))" using j by (auto simp: prefix_def)
    then show False using a(2) j assms(3) by (simp add: drop_take)
  qed
qed

lemma rfind_take_None:
  assumes "rfind_sub p (take n s) = None" "n \<le> length s" "j + length p \<le> n"
  shows "\<not> prefix p (drop j s)"
proof
  assume "prefix p (drop j s)"
  then have "prefix p (take (n - j) (drop j s))" using assms(3) by (auto simp: prefix_def)
  then show False using assms unfolding rfind_sub_None by (simp add: drop_take)
qed

lemma trim_plain_spec:
  assumes "text_ok s"
  defines "keep \<equiv> floor_char_boundary s (length s - 4096)"
  shows "\<exists>k. trim_plain s = Some (drop k s) \<and> is_char_boundary s k \<and> k \<le> keep \<and>
    (\<forall>j l. k \<le> j \<and> j + l \<le> keep \<longrightarrow> \<not> terminates s j l) \<and> (k = keep \<or> (\<exists>j l. terminates s j l \<and> k = j + l))"
proof -
  have keep: "is_char_boundary s keep" "keep \<le> length s"
    using floor_char_boundary [OF assms(1)] by (auto simp: keep_def)
  let ?bel = "rfind_sub [BEL] (take keep s)" and ?st = "rfind_sub ST (take keep s)"
  define k where "k = (case opt_max ?bel ?st of Some pos \<Rightarrow> pos + (if opt_le ?st ?bel then 1 else 2) | None \<Rightarrow> keep)"
  have bel: "prefix [BEL] (drop i s)" "i + 1 \<le> keep" "\<And>j. i < j \<Longrightarrow> j + 1 \<le> keep \<Longrightarrow> \<not> prefix [BEL] (drop j s)"
    if "?bel = Some i" for i using rfind_take [OF that _ keep(2)] by auto
  have st: "prefix ST (drop i s)" "i + 2 \<le> keep" "\<And>j. i < j \<Longrightarrow> j + 2 \<le> keep \<Longrightarrow> \<not> prefix ST (drop j s)"
    if "?st = Some i" for i using rfind_take [OF that _ keep(2)] by auto
  have nb: "\<not> prefix [BEL] (drop j s)" if "?bel = None" "j + 1 \<le> keep" for j
    by (rule rfind_take_None [OF that(1) keep(2)]) (use that in simp)
  have ns: "\<not> prefix ST (drop j s)" if "?st = None" "j + 2 \<le> keep" for j
    by (rule rfind_take_None [OF that(1) keep(2)]) (use that in simp)
  consider "?bel = None" "?st = None" "k = keep"
    | x where "?bel = Some x" "k = x + 1" "\<And>y. ?st = Some y \<Longrightarrow> y \<le> x"
    | y where "?st = Some y" "k = y + 2" "\<And>x. ?bel = Some x \<Longrightarrow> \<not> y \<le> x"
    by (cases "?bel"; cases "?st") (auto simp: k_def opt_max_def opt_le_def max_def split: if_splits)
  then have k: "k \<le> keep \<and> (\<forall>j l. k \<le> j \<and> j + l \<le> keep \<longrightarrow> \<not> terminates s j l) \<and>
      (k = keep \<or> (\<exists>j l. terminates s j l \<and> k = j + l))"
  proof cases
    case 1
    then show ?thesis using nb ns by (auto simp: terminates_def)
  next
    case (2 x)
    have "\<not> prefix ST (drop j s)" if "k \<le> j" "j + 2 \<le> keep" for j
      using ns st(3) 2(2,3) that by (cases "?st") fastforce+
    moreover have "\<not> prefix [BEL] (drop j s)" if "k \<le> j" "j + 1 \<le> keep" for j
      using bel(3) [OF 2(1)] 2(2) that by simp
    ultimately have "\<forall>j l. k \<le> j \<and> j + l \<le> keep \<longrightarrow> \<not> terminates s j l" by (auto simp: terminates_def)
    moreover have "terminates s x 1" using bel(1) [OF 2(1)] by (simp add: terminates_def)
    ultimately show ?thesis using bel(2) [OF 2(1)] 2(2) by blast
  next
    case (3 y)
    have "\<not> prefix [BEL] (drop j s)" if "k \<le> j" "j + 1 \<le> keep" for j
      using nb bel(3) 3(2,3) that by (cases "?bel") fastforce+
    moreover have "\<not> prefix ST (drop j s)" if "k \<le> j" "j + 2 \<le> keep" for j
      using st(3) [OF 3(1)] 3(2) that by simp
    ultimately have "\<forall>j l. k \<le> j \<and> j + l \<le> keep \<longrightarrow> \<not> terminates s j l" by (auto simp: terminates_def)
    moreover have "terminates s y 2" using st(1) [OF 3(1)] by (simp add: terminates_def)
    ultimately show ?thesis using st(2) [OF 3(1)] 3(2) by blast
  qed
  have b: "is_char_boundary s k"
  proof -
    have "is_char_boundary s (j + l)" if "terminates s j l" for j l by (rule terminator_boundaries(2) [OF assms(1) that])
    then show ?thesis using k keep(1) by auto
  qed
  have "trim_plain s = Some (drop k s)"
  proof -
    have "floor_char_boundary s (min k (length s)) = k" using b k keep(2) by (simp add: floor_boundary_id min_absorb1)
    then show ?thesis
      using keep(1) b unfolding trim_plain_def keep_def [symmetric] Let_def slice_to_def
      by (simp add: k_def [symmetric] slice_from_def)
  qed
  with k b show ?thesis by blast
qed

section \<open>The loop, situation by situation\<close>

definition emit633 :: "bytes \<Rightarrow> nat \<Rightarrow> parsed_sequence option" where
  "emit633 payload raw_length =
    (case parse_payload payload of
       Some (Some sq) \<Rightarrow> Some \<lparr>ps_sequence = sq, ps_raw_length = raw_length\<rparr>
     | _ \<Rightarrow> None)"

lemma osc633_loop_plain:
  assumes "text_ok s" "find_sub OSC633_PREFIX s = None"
  shows "osc633_loop s acc = (if 10000 < length s then map_option (\<lambda>b. (b, acc)) (trim_plain s) else Some (s, acc))"
  using assms by (simp add: osc633_loop.simps [of s] osc633_step_def option.map_comp comp_def split: option.split)

lemma osc633_at_prefix:
  assumes "text_ok s" "find_sub OSC633_PREFIX s = Some i"
  shows "osc633_step s = osc633_sequence (drop i s)" "text_ok (drop i s)" "is_char_boundary s i"
    "is_char_boundary (drop i s) 6" "prefix OSC633_PREFIX (drop i s)"
proof -
  have p: "prefix OSC633_PREFIX (drop i s)" using assms(2) by (simp add: find_sub_Some)
  have a: "ascii OSC633_PREFIX" "OSC633_PREFIX \<noteq> []" using osc633_prefix by (auto simp: osc_prefix_def)
  show b: "is_char_boundary s i" by (rule pattern_boundaries(1) [OF assms(1) a p])
  show t: "text_ok (drop i s)" by (rule text_ok_drop [OF assms(1) b])
  show "is_char_boundary (drop i s) 6"
    using pattern_boundaries(2) [OF t a, of 0] p by (simp add: osc633_prefix)
  have "s \<noteq> []" using p a(2) by auto
  then show "osc633_step s = osc633_sequence (drop i s)" using assms(2) b by (simp add: osc633_step_def slice_from_def)
  show "prefix OSC633_PREFIX (drop i s)" by (rule p)
qed

lemma osc633_loop_closed:
  assumes "text_ok s" "find_sub OSC633_PREFIX s = Some i" "osc_terminator (length OSC633_PREFIX) (drop i s) = Some (j, l)"
  shows "osc633_loop s acc = osc633_loop (drop (i + j + l) s) (acc @ osc_emit OSC633_PREFIX emit633 i j l s)"
proof -
  note at = osc633_at_prefix [OF assms(1,2)]
  let ?b = "drop i s"
  have t: "terminates ?b j l" "6 \<le> j" using osc_terminator_Some(1,2) [OF assms(3)] by (simp_all add: osc633_prefix)
  then have bd: "is_char_boundary ?b j" "is_char_boundary ?b (j + l)" using terminator_boundaries [OF at(2) t(1)] by simp_all
  let ?p = "take (j - 6) (drop 6 ?b)"
  obtain r where r: "parse_payload ?p = Some r"
    using parse_payload_total [OF text_ok_take [OF text_ok_drop [OF at(2,4)]]] by blast
  have "osc633_step s = Some (case r of
      Some sq \<Rightarrow> Push (drop (j + l) ?b) \<lparr>ps_sequence = sq, ps_raw_length = j + l\<rparr> | None \<Rightarrow> Skip (drop (j + l) ?b))"
    using at(1,4) assms(3) bd t(2) r
    by (simp add: osc633_sequence_def find_terminator_eq osc633_prefix slice_def slice_from_def split: option.split)
  then show ?thesis
    using r
    by (subst osc633_loop.simps)
      (simp add: osc_emit_def emit633_def osc633_prefix ac_simps split: option.split)
qed

lemma osc633_loop_open:
  assumes "text_ok s" "find_sub OSC633_PREFIX s = Some i" "osc_terminator (length OSC633_PREFIX) (drop i s) = None"
  shows "length s - i \<le> 100000 \<Longrightarrow> osc633_loop s acc = Some (drop i s, acc)"
    and "100000 < length s - i \<Longrightarrow>
      osc633_loop s acc = Some ([], acc) \<or>
      (\<exists>k. is_char_boundary s k \<and> i < k \<and> k < length s \<and> s ! k = ESC \<and> osc633_loop s acc = osc633_loop (drop k s) acc)"
proof -
  note at = osc633_at_prefix [OF assms(1,2)]
  have t: "find_terminator 6 (drop i s) = Some None"
    using find_terminator_eq [OF at(4)] assms(3) by (simp add: osc633_prefix)
  show "osc633_loop s acc = Some (drop i s, acc)" if "length s - i \<le> 100000"
    using at(1) t that by (simp add: osc633_loop.simps [of s] osc633_sequence_def osc633_prefix)
  assume large: "100000 < length s - i"
  have one: "is_char_boundary (drop i s) 1"
    using boundary_after [OF at(2), of 0] prefix_drop_nth [OF at(5), of 0] large
    by (simp add: OSC633_PREFIX_def)
  show "osc633_loop s acc = Some ([], acc) \<or>
      (\<exists>k. is_char_boundary s k \<and> i < k \<and> k < length s \<and> s ! k = ESC \<and> osc633_loop s acc = osc633_loop (drop k s) acc)"
  proof (cases "find_sub [ESC] (drop 1 (drop i s))")
    case None
    then show ?thesis
      using at(1) t one large by (simp add: osc633_loop.simps [of s] osc633_sequence_def osc633_prefix slice_from_def)
  next
    case (Some n)
    then have n: "prefix [ESC] (drop (n + 1) (drop i s))" by (simp add: find_sub_Some add.commute)
    have e: "ascii [ESC]" by (simp add: ascii_def ESC_def)
    have bn: "is_char_boundary (drop i s) (n + 1)" by (rule pattern_boundaries(1) [OF at(2) e _ n]) simp
    have p: "prefix [ESC] (drop (i + n + 1) s)" using n by (simp add: ac_simps)
    then have k: "is_char_boundary s (i + n + 1)" "i + n + 1 < length s" "s ! (i + n + 1) = ESC"
      using pattern_boundaries(1) [OF assms(1) e _ p] prefix_drop_length [OF p] prefix_drop_nth [OF p, of 0] by auto
    have "osc633_loop s acc = osc633_loop (drop (i + n + 1) s) acc"
      using at(1) t one bn Some large
      by (simp add: osc633_loop.simps [of s] osc633_sequence_def osc633_prefix slice_from_def ac_simps)
    then show ?thesis using k by (intro disjI2 exI [of _ "i + n + 1"]) simp
  qed
qed

interpretation osc633: osc_parser OSC633_PREFIX emit633 100000 osc633_loop
proof unfold_locales
  show "osc_prefix OSC633_PREFIX" by (rule osc633_prefix)
  fix s :: bytes and i j l :: nat and acc :: "parsed_sequence list"
  assume s: "text_ok s"
  {
    assume p: "find_sub OSC633_PREFIX s = None"
    show "\<exists>k. osc633_loop s acc = Some (drop k s, acc) \<and> is_char_boundary s k \<and> (k = 0 \<or> length OSC633_PREFIX + k \<le> length s)"
    proof (cases "10000 < length s")
      case True
      from trim_plain_spec [OF s] obtain k where "trim_plain s = Some (drop k s)" "is_char_boundary s k"
        "k \<le> floor_char_boundary s (length s - 4096)" by blast
      moreover have "floor_char_boundary s (length s - 4096) \<le> length s - 4096" by (rule floor_char_boundary(2) [OF s])
      ultimately show ?thesis using osc633_loop_plain [OF s p, of acc] True by (auto simp: osc633_prefix)
    next
      case False
      then show ?thesis using osc633_loop_plain [OF s p, of acc] by (intro exI [of _ 0]) simp
    qed
  }
  assume p: "find_sub OSC633_PREFIX s = Some i"
  show "osc633_loop s acc = Some (drop i s, acc)"
    if "osc_terminator (length OSC633_PREFIX) (drop i s) = None" "length s - i \<le> 100000"
    by (rule osc633_loop_open(1) [OF s p that])
  show "osc633_loop s acc = osc633_loop (drop (i + j + l) s) (acc @ osc_emit OSC633_PREFIX emit633 i j l s)"
    if "osc_terminator (length OSC633_PREFIX) (drop i s) = Some (j, l)"
    by (rule osc633_loop_closed [OF s p that])
  show "\<exists>k. is_char_boundary s k \<and> 0 < k \<and> (osc633_loop s acc = Some (drop k s, acc) \<or> osc633_loop s acc = osc633_loop (drop k s) acc)"
    if a: "osc_terminator (length OSC633_PREFIX) (drop i s) = None" "100000 < length s - i"
    using osc633_loop_open(2) [OF s p a, of acc]
  proof (elim disjE exE conjE)
    assume "osc633_loop s acc = Some ([], acc)"
    then show ?thesis using a(2) by (intro exI [of _ "length s"]) auto
  next
    fix k assume "is_char_boundary s k" "i < k" "osc633_loop s acc = osc633_loop (drop k s) acc"
    then show ?thesis by (intro exI [of _ k]) simp
  qed
qed

section \<open>The bound on the buffer\<close>

text \<open>How a feed ends: with a short buffer, or by trimming a piece of its input without a prefix.\<close>

lemma osc633_loop_final:
  "text_ok s \<Longrightarrow> \<exists>b es. osc633_loop s acc = Some (b, acc @ es) \<and>
    (length b \<le> 100000 \<or>
     (\<exists>m. text_ok (drop m s) \<and> find_sub OSC633_PREFIX (drop m s) = None \<and> trim_plain (drop m s) = Some b))"
proof (induction s arbitrary: acc rule: measure_induct_rule [where f = length])
  case (less s)
  let ?P = "\<lambda>s b. length b \<le> 100000 \<or>
     (\<exists>m. text_ok (drop m s) \<and> find_sub OSC633_PREFIX (drop m s) = None \<and> trim_plain (drop m s) = Some b)"
  have again: "\<exists>b es. osc633_loop (drop k s) (acc @ es0) = Some (b, acc @ es) \<and> ?P s b"
    if k: "0 < k" "is_char_boundary s k" "s \<noteq> []" for k es0
  proof -
    have "length (drop k s) < length s" using k by simp
    from less.IH [OF this text_ok_drop [OF less.prems k(2)], of "acc @ es0"] obtain b es where
      b: "osc633_loop (drop k s) (acc @ es0) = Some (b, (acc @ es0) @ es)" "?P (drop k s) b" by blast
    have "?P s b" using b(2) by (metis drop_drop)
    with b(1) show ?thesis by (metis append.assoc)
  qed
  show ?case
  proof (cases "find_sub OSC633_PREFIX s")
    case None
    show ?thesis
    proof (cases "10000 < length s")
      case True
      obtain b where "trim_plain s = Some b" using trim_plain_spec [OF less.prems] by blast
      then show ?thesis
        using osc633_loop_plain [OF less.prems None, of acc] True None less.prems by (auto intro!: exI [of _ 0])
    next
      case False
      then show ?thesis using osc633_loop_plain [OF less.prems None, of acc] by auto
    qed
  next
    case (Some i)
    note p = Some
    have ne: "s \<noteq> []" using p by (auto simp: OSC633_PREFIX_def)
    show ?thesis
    proof (cases "osc_terminator (length OSC633_PREFIX) (drop i s)")
      case (Some q)
      obtain j l where q: "q = (j, l)" by fastforce
      note t = Some [unfolded q]
      have "0 < i + j + l" using osc_closed_length [OF p t] by simp
      from again [OF this osc633.closed_boundary [OF less.prems p t] ne] show ?thesis
        using osc633_loop_closed [OF less.prems p t, of acc] by simp
    next
      case None
      show ?thesis
      proof (cases "length s - i \<le> 100000")
        case True
        then show ?thesis using osc633_loop_open(1) [OF less.prems p None True, of acc] by auto
      next
        case False
        then have "100000 < length s - i" by simp
        from osc633_loop_open(2) [OF less.prems p None this, of acc] show ?thesis
        proof (elim disjE exE conjE)
          fix k assume "is_char_boundary s k" "i < k" "osc633_loop s acc = osc633_loop (drop k s) acc"
          then show ?thesis using again [of k "[]"] ne by simp
        qed auto
      qed
    qed
  qed
qed

definition osc633_kept :: "bytes \<Rightarrow> bool" where
  "osc633_kept b \<longleftrightarrow> text_ok b \<and>
    (length b \<le> 100000 \<or>
     find_sub OSC633_PREFIX b = None \<and> (\<forall>j l. j + l + 5000 \<le> length b \<longrightarrow> \<not> terminates b j l))"

lemma terminates_drop: "terminates (drop m s) j l \<longleftrightarrow> terminates s (m + j) l"
  by (simp add: terminates_def add.commute)

lemma osc633_feed_bounded:
  assumes "osc633_kept b" "text_ok d"
  shows "\<exists>b' es. osc633_feed b d = Some (b', es) \<and> osc633_kept b' \<and> length b' \<le> 100000 + length d"
proof -
  let ?s = "b @ d"
  have s: "text_ok ?s" using assms by (simp add: osc633_kept_def text_ok_append)
  obtain b' es where l: "osc633_loop ?s [] = Some (b', es)" and e: "length b' \<le> 100000 \<or>
     (\<exists>m. text_ok (drop m ?s) \<and> find_sub OSC633_PREFIX (drop m ?s) = None \<and> trim_plain (drop m ?s) = Some b')"
    using osc633_loop_final [OF s, of "[]"] by auto
  have ok: "text_ok b'" using osc633.loop_total [OF s, of "[]"] l by auto
  from e show ?thesis
  proof (elim disjE exE conjE)
    assume "length b' \<le> 100000"
    then show ?thesis using l ok by (simp add: osc633_feed_def osc633_kept_def)
  next
    fix m
    define c where "c = drop m ?s"
    assume "text_ok (drop m ?s)" "find_sub OSC633_PREFIX (drop m ?s) = None" "trim_plain (drop m ?s) = Some b'"
    note c = this [folded c_def]
    define keep where "keep = floor_char_boundary c (length c - 4096)"
    from trim_plain_spec [OF c(1)] c(3) obtain k where k: "b' = drop k c" "k \<le> keep"
      "\<forall>j l. k \<le> j \<and> j + l \<le> keep \<longrightarrow> \<not> terminates c j l" "k = keep \<or> (\<exists>j l. terminates c j l \<and> k = j + l)"
      unfolding keep_def [symmetric] by auto
    have keep: "length c \<le> keep + 4099" using floor_char_boundary(4) [OF c(1), of "length c - 4096"] by (simp add: keep_def)
    have "\<not> terminates b' j l" if "j + l + 5000 \<le> length b'" for j l
      using k(3) [rule_format, of "k + j" l] that keep k(1) by (simp add: terminates_drop)
    moreover have "find_sub OSC633_PREFIX b' = None" unfolding k(1) by (rule find_sub_None_drop [OF c(2)])
    ultimately have kept: "osc633_kept b'" using ok by (simp add: osc633_kept_def)
    have "length b' \<le> 100000 + length d"
    proof (cases "length b \<le> 100000")
      case True
      then show ?thesis using k(1) by (simp add: c_def)
    next
      case False
      then have early: "\<And>j l. j + l + 5000 \<le> length b \<Longrightarrow> \<not> terminates b j l" using assms(1) by (auto simp: osc633_kept_def)
      from k(4) show ?thesis
      proof (elim disjE exE conjE)
        assume "k = keep"
        then show ?thesis using k(1) keep by simp
      next
        fix j l assume t: "terminates c j l" "k = j + l"
        then have u: "terminates (b @ d) (m + j) l" using terminates_drop [of m "b @ d" j l] unfolding c_def by blast
        have "\<not> m + j + l + 5000 \<le> length b"
        proof
          assume a: "m + j + l + 5000 \<le> length b"
          then have "terminates b (m + j) l" using u terminates_append_iff [of "m + j" b d l] by simp
          then show False using early [of "m + j" l] a by simp
        qed
        then show ?thesis using k(1) t(2) by (simp add: c_def)
      qed
    qed
    then show ?thesis using l kept by (simp add: osc633_feed_def)
  qed
qed

lemma osc633_feeds_bounded:
  assumes "osc633_kept b" "\<forall>d\<in>set ds. text_ok d \<and> length d \<le> n" "length b \<le> 100000 + n"
  shows "\<exists>b' es. osc_feeds osc633_feed ds b = Some (b', es) \<and> length b' \<le> 100000 + n"
  using assms
proof (induction ds arbitrary: b)
  case (Cons d ds)
  have d: "text_ok d" "length d \<le> n" using Cons.prems(2) by simp_all
  from osc633_feed_bounded [OF Cons.prems(1) d(1)] obtain b' es where
    f: "osc633_feed b d = Some (b', es)" "osc633_kept b'" "length b' \<le> 100000 + length d" by blast
  then have "length b' \<le> 100000 + n" using d(2) by simp
  from Cons.IH [OF f(2) _ this] Cons.prems(2) f(1) show ?case by auto
qed simp

section \<open>Properties\<close>


text \<open>
  The parser neither panics nor grows. Whatever strings of at most \<open>n\<close> bytes it is fed, every
  feed returns, and the buffer is never longer than 100,000 plus \<open>n\<close> bytes.
\<close>

theorem osc633_bounded:
  assumes "\<forall>d\<in>set ds. is_str d \<and> length d \<le> n"
  shows "\<exists>b es. osc_feeds osc633_feed ds [] = Some (b, es) \<and> length b \<le> 100000 + n"
  using osc633_feeds_bounded [of "[]" ds n] assms is_str_text_ok by (simp add: osc633_kept_def)

section \<open>Witnesses\<close>

definition demo_chunks :: "bytes list" where
  "demo_chunks = [0x24 # 0x1B # bytes_of '']63'', bytes_of ''3;D;7'', [0x07]]"

lemma demo_chunks_str: "\<forall>d\<in>set demo_chunks. is_str d \<and> length d \<le> 5"
  by (auto simp: demo_chunks_def bytes_of_def ascii_def intro!: is_str_ascii)


theorem osc633_bounded_witness:
  "\<exists>b es. osc_feeds osc633_feed demo_chunks [] = Some (b, es) \<and> length b \<le> 100005"
  using osc633_bounded [OF demo_chunks_str] by simp

end
