(* ===== verification/Shell_Tracker.thy ===== *)
theory Shell_Tracker
  imports Shell_Props
begin

text \<open>
  \<open>crates/athena-core/src/shell_integration_tracker.rs\<close>: the command tracker of a pane, which turns
  parsed sequences into events. Every call of \<open>now_ms\<close> is a reading of the clock of its
  own: the clock is a function from the number of readings made before, which the state counts.
\<close>

section \<open>Data\<close>

record command_tracker =
  ct_active_command :: "bytes option"
  ct_active_start_time :: "u64 option"
  ct_active_start_notified :: bool
  ct_pending_command_text :: "bytes option"
  ct_current_cwd :: "bytes option"
  ct_last_exit_code :: "int option"

definition tracker_new :: command_tracker where
  "tracker_new =
    \<lparr>ct_active_command = None, ct_active_start_time = None, ct_active_start_notified = False,
     ct_pending_command_text = None, ct_current_cwd = None, ct_last_exit_code = None\<rparr>"

datatype shell_integration_event =
    EvPrompt bytes u64
  | EvCommandStart bytes bytes "bytes option" u64
  | EvCommandExecuted bytes bytes "bytes option" u64
  | EvCommandFinished bytes int bytes "bytes option" u64 "u64 option"
  | EvCwd bytes bytes u64
  | EvProperty bytes bytes bytes u64

text \<open>\<open>unwrap_or_default\<close> of a string, and \<open>u64::saturating_sub\<close>.\<close>

definition or_empty :: "bytes option \<Rightarrow> bytes" where
  "or_empty x = (case x of Some s \<Rightarrow> s | None \<Rightarrow> [])"

definition sat_sub64 :: "u64 \<Rightarrow> u64 \<Rightarrow> u64" where
  "sat_sub64 a b = (if b \<le> a then a - b else 0)"

type_synonym tracking = "command_tracker \<times> nat \<times> shell_integration_event list"

section \<open>Operations\<close>

definition clear_active :: "command_tracker \<Rightarrow> command_tracker" where
  "clear_active tr =
    tr\<lparr>ct_active_command := None, ct_active_start_time := None, ct_active_start_notified := False,
      ct_pending_command_text := None\<rparr>"

fun process_sequence :: "(nat \<Rightarrow> u64) \<Rightarrow> bytes \<Rightarrow> shell_integration_sequence \<Rightarrow> tracking \<Rightarrow> tracking" where
  "process_sequence clock pane (SqPrompt data) (tr, k, events) =
    (clear_active tr, k + 1, events @ [EvPrompt pane (clock k)])"
| "process_sequence clock pane (SqCommand data) (tr, k, events) =
    (tr\<lparr>ct_pending_command_text := Some data\<rparr>, k, events)"
| "process_sequence clock pane SqCommandStart (tr, k, events) =
    (let command = or_empty (ct_pending_command_text tr) in
     (tr\<lparr>ct_active_command := Some command, ct_pending_command_text := None,
        ct_active_start_time := Some (clock k), ct_active_start_notified := True\<rparr>, k + 1,
      events @ [EvCommandStart pane command (ct_current_cwd tr) (clock k)]))"
| "process_sequence clock pane SqCommandExecuted (tr, k, events) =
    (case ct_active_command tr of
       Some command \<Rightarrow> (tr, k + 1, events @ [EvCommandExecuted pane command (ct_current_cwd tr) (clock k)])
     | None \<Rightarrow> (tr, k, events))"
| "process_sequence clock pane (SqCommandFinished exit_code) (tr, k, events) =
    (let (duration, k') = (case ct_active_start_time tr of
           Some start \<Rightarrow> (Some (sat_sub64 (clock k) start), k + 1)
         | None \<Rightarrow> (None, k))
     in (clear_active (tr\<lparr>ct_last_exit_code := Some exit_code\<rparr>), k' + 1,
         events @ [EvCommandFinished pane exit_code (or_empty (ct_active_command tr)) (ct_current_cwd tr) (clock k') duration]))"
| "process_sequence clock pane (SqCwd data) (tr, k, events) =
    (tr\<lparr>ct_current_cwd := Some data\<rparr>, k + 1, events @ [EvCwd pane data (clock k)])"
| "process_sequence clock pane (SqProperty key value) (tr, k, events) =
    (tr, k + 1, events @ [EvProperty pane key value (clock k)])"

definition process_sequences ::
  "(nat \<Rightarrow> u64) \<Rightarrow> bytes \<Rightarrow> parsed_sequence list \<Rightarrow> command_tracker \<times> nat \<Rightarrow> tracking" where
  "process_sequences clock pane seqs st =
    fold (\<lambda>p. process_sequence clock pane (ps_sequence p)) seqs (fst st, snd st, [])"

section \<open>Lemmas\<close>

text \<open>Events are only ever appended, so processing in pieces is processing the whole.\<close>

lemma process_sequence_events:
  "process_sequence clock pane sq (tr, k, ev) =
    (case process_sequence clock pane sq (tr, k, []) of (tr', k', ev') \<Rightarrow> (tr', k', ev @ ev'))"
  by (cases sq) (auto simp: Let_def split: option.split)

lemma process_fold_events:
  "fold (\<lambda>p. process_sequence clock pane (ps_sequence p)) seqs (tr, k, ev) =
    (case process_sequences clock pane seqs (tr, k) of (tr', k', ev') \<Rightarrow> (tr', k', ev @ ev'))"
proof (induction seqs arbitrary: tr k ev)
  case Nil
  then show ?case by (simp add: process_sequences_def)
next
  case (Cons p seqs)
  obtain tr1 k1 ev1 where s: "process_sequence clock pane (ps_sequence p) (tr, k, []) = (tr1, k1, ev1)"
    using prod_cases3 by blast
  then have "process_sequence clock pane (ps_sequence p) (tr, k, ev) = (tr1, k1, ev @ ev1)"
    using process_sequence_events [of clock pane "ps_sequence p" tr k ev] by simp
  then show ?case
    using Cons.IH [of tr1 k1 "ev @ ev1"] Cons.IH [of tr1 k1 ev1] s
    by (simp add: process_sequences_def split: prod.splits)
qed

lemma process_sequences_append:
  "process_sequences clock pane (xs @ ys) st =
    (case process_sequences clock pane xs st of (tr, k, ev) \<Rightarrow>
       (case process_sequences clock pane ys (tr, k) of (tr', k', ev') \<Rightarrow> (tr', k', ev @ ev')))"
proof -
  obtain tr k ev where "process_sequences clock pane xs st = (tr, k, ev)" using prod_cases3 by blast
  then show ?thesis using process_fold_events [of clock pane ys tr k ev] by (simp add: process_sequences_def)
qed

text \<open>What leaves the running command alone.\<close>

fun keeps_command :: "shell_integration_sequence \<Rightarrow> bool" where
  "keeps_command (SqPrompt d) = False"
| "keeps_command SqCommandStart = False"
| "keeps_command (SqCommandFinished c) = False"
| "keeps_command _ = True"

fun last_cwd :: "parsed_sequence list \<Rightarrow> bytes option \<Rightarrow> bytes option" where
  "last_cwd [] c = c"
| "last_cwd (p # ps) c = last_cwd ps (case ps_sequence p of SqCwd d \<Rightarrow> Some d | _ \<Rightarrow> c)"

lemma process_running:
  assumes "\<forall>p\<in>set mid. keeps_command (ps_sequence p)"
    and "process_sequences clock pane mid (tr, k) = (tr', k', ev)"
  shows "ct_active_command tr' = ct_active_command tr \<and> ct_active_start_time tr' = ct_active_start_time tr \<and>
    ct_current_cwd tr' = last_cwd mid (ct_current_cwd tr) \<and> k \<le> k'"
  using assms
proof (induction mid arbitrary: tr k ev)
  case Nil
  then show ?case by (simp add: process_sequences_def)
next
  case (Cons p mid)
  obtain tr1 k1 ev1 where s: "process_sequence clock pane (ps_sequence p) (tr, k, []) = (tr1, k1, ev1)"
    using prod_cases3 by blast
  obtain ev2 where r: "process_sequences clock pane mid (tr1, k1) = (tr', k', ev2)"
    using Cons.prems(2) s process_fold_events [of clock pane mid tr1 k1 ev1]
    by (auto simp: process_sequences_def split: prod.splits)
  have "ct_active_command tr1 = ct_active_command tr \<and> ct_active_start_time tr1 = ct_active_start_time tr \<and>
      ct_current_cwd tr1 = (case ps_sequence p of SqCwd d \<Rightarrow> Some d | _ \<Rightarrow> ct_current_cwd tr) \<and> k \<le> k1"
    using s Cons.prems(1) by (cases "ps_sequence p") (auto split: option.splits)
  with Cons.IH [OF _ r] Cons.prems(1) show ?case by simp
qed

section \<open>Properties\<close>

text \<open>
  Commands are reported as they ran. Whatever came before, when the shell announces a command,
  starts it, and finishes it, with anything but a prompt, another start or another finish in between,
  the last event reports the exit code with the text of that command, the working directory that was
  announced last, and the time from its start, 0 if the clock has gone back; and the tracker is idle.
\<close>

theorem finished_command_reported:
  assumes "\<forall>p\<in>set mid. keeps_command (ps_sequence p)"
    and "map ps_sequence started = [SqCommand command, SqCommandStart]" and "ps_sequence fin = SqCommandFinished code"
    and "process_sequences clock pane before st = (tr0, k0, ev0)"
  shows "\<exists>tr k k' ev. process_sequences clock pane (before @ started @ mid @ [fin]) st =
      (tr, k, ev @ [EvCommandFinished pane code command (last_cwd mid (ct_current_cwd tr0)) (clock (k' + 1))
        (Some (sat_sub64 (clock k') (clock k0)))]) \<and>
    k0 < k' \<and> ct_active_command tr = None \<and> ct_active_start_time tr = None \<and> ct_last_exit_code tr = Some code"
proof -
  define tr1 where "tr1 = tr0\<lparr>ct_active_command := Some command, ct_pending_command_text := None,
    ct_active_start_time := Some (clock k0), ct_active_start_notified := True\<rparr>"
  obtain c1 c2 where st: "started = [c1, c2]" "ps_sequence c1 = SqCommand command" "ps_sequence c2 = SqCommandStart"
    using assms(2) by (auto simp: map_eq_Cons_conv)
  have p1: "process_sequences clock pane started (tr0, k0) =
      (tr1, k0 + 1, [EvCommandStart pane command (ct_current_cwd tr0) (clock k0)])"
    by (simp add: process_sequences_def st tr1_def or_empty_def)
  obtain tr2 k2 ev2 where p2: "process_sequences clock pane mid (tr1, k0 + 1) = (tr2, k2, ev2)" using prod_cases3 by blast
  have r: "ct_active_command tr2 = Some command" "ct_active_start_time tr2 = Some (clock k0)"
    "ct_current_cwd tr2 = last_cwd mid (ct_current_cwd tr0)" "k0 + 1 \<le> k2"
    using process_running [OF assms(1) p2] by (simp_all add: tr1_def)
  have p3: "process_sequences clock pane [fin] (tr2, k2) =
      (clear_active (tr2\<lparr>ct_last_exit_code := Some code\<rparr>), k2 + 1 + 1,
       [EvCommandFinished pane code command (last_cwd mid (ct_current_cwd tr0)) (clock (k2 + 1))
         (Some (sat_sub64 (clock k2) (clock k0)))])"
    by (simp add: process_sequences_def assms(3) r or_empty_def)
  have "process_sequences clock pane (before @ started @ mid @ [fin]) st =
      (clear_active (tr2\<lparr>ct_last_exit_code := Some code\<rparr>), k2 + 1 + 1,
       (ev0 @ [EvCommandStart pane command (ct_current_cwd tr0) (clock k0)] @ ev2) @
       [EvCommandFinished pane code command (last_cwd mid (ct_current_cwd tr0)) (clock (k2 + 1))
         (Some (sat_sub64 (clock k2) (clock k0)))])"
    by (simp only: process_sequences_append assms(4) p1 p2 p3 prod.case append.assoc)
  then show ?thesis using r(4) by (auto simp: clear_active_def)
qed

definition demo_seq :: "shell_integration_sequence \<Rightarrow> parsed_sequence" where
  "demo_seq sq = \<lparr>ps_sequence = sq, ps_raw_length = 8\<rparr>"

theorem finished_command_reported_witness:
  "\<exists>tr k k' ev. process_sequences of_nat [0x70]
      (map demo_seq [SqPrompt None, SqCommand [0x6C], SqCommandStart, SqCwd [0x2F], SqCommandFinished 2]) (tracker_new, 0) =
    (tr, k, ev @ [EvCommandFinished [0x70] 2 [0x6C] (Some [0x2F]) (of_nat (k' + 1)) (Some (sat_sub64 (of_nat k') 1))]) \<and>
    ct_active_command tr = None"
proof -
  have "process_sequences of_nat [0x70] [demo_seq (SqPrompt None)] (tracker_new, 0) =
      (clear_active tracker_new, 1, [EvPrompt [0x70] 0])"
    by (simp add: process_sequences_def demo_seq_def)
  from finished_command_reported [OF _ _ _ this, of "[demo_seq (SqCwd [0x2F])]"
      "[demo_seq (SqCommand [0x6C]), demo_seq SqCommandStart]" "[0x6C]" "demo_seq (SqCommandFinished 2)" 2]
  show ?thesis by (auto simp: demo_seq_def)
qed

end
