(* ===== verification/Agent_Lifecycle.thy ===== *)
theory Agent_Lifecycle
  imports Osc_Scan
begin

text \<open>
  \<open>crates/athena-core/src/agent_lifecycle.rs\<close>: the in-band lifecycle notifications (OSC 6337) that
  agents print, their encoding and their incremental parser. The derived JSON
  conversions of \<open>serde_json\<close> are arguments; they work on the fields, with the kind as its word.
\<close>

section \<open>Events\<close>

datatype agent_lifecycle_kind = LkComplete | LkRequest | LkError

fun kind_as_str :: "agent_lifecycle_kind \<Rightarrow> bytes" where
  "kind_as_str LkComplete = bytes_of ''complete''"
| "kind_as_str LkRequest = bytes_of ''request''"
| "kind_as_str LkError = bytes_of ''error''"

definition kind_parse :: "bytes \<Rightarrow> agent_lifecycle_kind option" where
  "kind_parse s =
    (let w = str_trim s in
     if w \<in> set (map bytes_of [''complete'', ''done'', ''completed'', ''success'', ''finished'']) then Some LkComplete
     else if w \<in> set (map bytes_of [''request'', ''needs_input'', ''waiting'', ''waiting_input'', ''attention'']) then Some LkRequest
     else if w \<in> set (map bytes_of [''error'', ''failed'']) then Some LkError
     else None)"

record agent_lifecycle_event =
  le_kind :: agent_lifecycle_kind
  le_agent :: "bytes option"
  le_session_id :: "bytes option"
  le_message :: "bytes option"

text \<open>The fields of the JSON object: the word of the kind, the agent, the session and the message.\<close>

type_synonym lifecycle_fields = "bytes \<times> bytes option \<times> bytes option \<times> bytes option"

record lifecycle_codec =
  lc_to_string :: "lifecycle_fields \<Rightarrow> bytes option"
  lc_from_str :: "bytes \<Rightarrow> lifecycle_fields option"

definition OSC6337_PREFIX :: bytes where
  "OSC6337_PREFIX = 0x1B # bytes_of '']6337;''"

definition BUFFER_KEEP_BYTES :: nat where
  "BUFFER_KEEP_BYTES = 4096"

definition lifecycle_fields :: "agent_lifecycle_event \<Rightarrow> lifecycle_fields" where
  "lifecycle_fields e = (kind_as_str (le_kind e), le_agent e, le_session_id e, le_message e)"

definition lifecycle_encode :: "lifecycle_codec \<Rightarrow> agent_lifecycle_event \<Rightarrow> bytes" where
  "lifecycle_encode lc e =
    OSC6337_PREFIX @ (case lc_to_string lc (lifecycle_fields e) of Some json \<Rightarrow> json | None \<Rightarrow> bytes_of ''{}'') @ [BEL]"

definition lifecycle_from_fields :: "lifecycle_fields \<Rightarrow> agent_lifecycle_event option" where
  "lifecycle_from_fields f =
    (case f of (kind, agent, session_id, message) \<Rightarrow>
       map_option (\<lambda>k. \<lparr>le_kind = k, le_agent = agent, le_session_id = session_id, le_message = message\<rparr>) (kind_parse kind))"

definition lifecycle_payload :: "lifecycle_codec \<Rightarrow> bytes \<Rightarrow> agent_lifecycle_event option" where
  "lifecycle_payload lc payload =
    (let trimmed = str_trim payload in
     if trimmed = [] then None
     else case kind_parse trimmed of
       Some kind \<Rightarrow> Some \<lparr>le_kind = kind, le_agent = None, le_session_id = None, le_message = None\<rparr>
     | None \<Rightarrow> Option.bind (lc_from_str lc trimmed) lifecycle_from_fields)"

section \<open>The parser\<close>

text \<open>One iteration: the remaining buffer, the event if there is one, and whether the loop goes on.\<close>

definition lifecycle_overlong :: "bytes \<Rightarrow> bytes option" where
  "lifecycle_overlong b =
    (case slice_from b 1 of
       None \<Rightarrow> None
     | Some s \<Rightarrow>
         (case rfind_sub [ESC] s of
            Some next_esc \<Rightarrow> slice_from b (next_esc + 1)
          | None \<Rightarrow> slice_from b (floor_char_boundary b (length b - BUFFER_KEEP_BYTES))))"

definition lifecycle_sequence ::
  "lifecycle_codec \<Rightarrow> bytes \<Rightarrow> (bytes \<times> agent_lifecycle_event option \<times> bool) option" where
  "lifecycle_sequence lc b =
    (case find_terminator (length OSC6337_PREFIX) b of
       None \<Rightarrow> None
     | Some None \<Rightarrow>
         if 8192 < length b then map_option (\<lambda>b'. (b', None, False)) (lifecycle_overlong b)
         else Some (b, None, False)
     | Some (Some (term_idx, term_len)) \<Rightarrow> do {
         payload \<leftarrow> slice b (length OSC6337_PREFIX) term_idx;
         b' \<leftarrow> slice_from b (term_idx + term_len);
         Some (b', lifecycle_payload lc payload, True)
       })"

definition lifecycle_step ::
  "lifecycle_codec \<Rightarrow> bytes \<Rightarrow> (bytes \<times> agent_lifecycle_event option \<times> bool) option" where
  "lifecycle_step lc buffer =
    (case find_sub OSC6337_PREFIX buffer of
       None \<Rightarrow>
         if BUFFER_KEEP_BYTES < length buffer
         then map_option (\<lambda>b. (b, None, False))
           (slice_from buffer (floor_char_boundary buffer (length buffer - BUFFER_KEEP_BYTES)))
         else Some (buffer, None, False)
     | Some start \<Rightarrow>
         Option.bind (if 0 < start then slice_from buffer start else Some buffer) (lifecycle_sequence lc))"

lemma lifecycle_step_shrinks:
  assumes "lifecycle_step lc b = Some (b', e, True)"
  shows "length b' < length b"
proof -
  obtain i where i: "find_sub OSC6337_PREFIX b = Some i"
    using assms by (auto simp: lifecycle_step_def split: option.splits if_splits)
  obtain b1 where b1: "(if 0 < i then slice_from b i else Some b) = Some b1" "lifecycle_sequence lc b1 = Some (b', e, True)"
    using assms i by (auto simp: lifecycle_step_def Option.bind_eq_Some_conv)
  have d: "b1 = drop i b" using b1(1) by (auto simp: slice_from_def split: if_splits)
  have "prefix OSC6337_PREFIX b1" using i d by (simp add: find_sub_Some)
  then have ne: "b1 \<noteq> []" by (auto simp: OSC6337_PREFIX_def)
  obtain j l where t: "find_terminator (length OSC6337_PREFIX) b1 = Some (Some (j, l))"
    using b1(2) by (auto simp: lifecycle_sequence_def split: option.splits if_splits)
  have "b' = drop (j + l) b1"
    using b1(2) t by (auto simp: lifecycle_sequence_def Option.bind_eq_Some_conv slice_from_def split: if_splits)
  moreover have "0 < l" by (rule find_terminator_length [OF t])
  ultimately show ?thesis using ne d by simp
qed

function lifecycle_loop ::
  "lifecycle_codec \<Rightarrow> bytes \<Rightarrow> agent_lifecycle_event list \<Rightarrow> (bytes \<times> agent_lifecycle_event list) option" where
  "lifecycle_loop lc buffer events =
    (case lifecycle_step lc buffer of
       None \<Rightarrow> None
     | Some (b, e, go_on) \<Rightarrow>
         let events' = (case e of Some ev \<Rightarrow> events @ [ev] | None \<Rightarrow> events)
         in if go_on then lifecycle_loop lc b events' else Some (b, events'))"
  by pat_completeness auto
termination
  by (relation "measure (\<lambda>(lc, b, r). length b)") (auto dest: lifecycle_step_shrinks)

declare lifecycle_loop.simps [simp del]

definition lifecycle_feed ::
  "lifecycle_codec \<Rightarrow> bytes \<Rightarrow> bytes \<Rightarrow> (bytes \<times> agent_lifecycle_event list) option" where
  "lifecycle_feed lc buffer data = lifecycle_loop lc (buffer @ data) []"

definition lifecycle_reset :: "bytes \<Rightarrow> bytes" where
  "lifecycle_reset buffer = []"

section \<open>The loop, situation by situation\<close>

definition emit6337 :: "lifecycle_codec \<Rightarrow> bytes \<Rightarrow> nat \<Rightarrow> agent_lifecycle_event option" where
  "emit6337 lc payload raw_length = lifecycle_payload lc payload"

lemma osc6337_prefix: "osc_prefix OSC6337_PREFIX" "length OSC6337_PREFIX = 7"
  by (simp_all add: osc_prefix_def OSC6337_PREFIX_def ascii_def ESC_def BEL_def bytes_of_def)

lemma lifecycle_loop_plain:
  assumes "text_ok s" "find_sub OSC6337_PREFIX s = None"
  shows "\<exists>k. lifecycle_loop lc s acc = Some (drop k s, acc) \<and> is_char_boundary s k \<and>
    (k = 0 \<and> length s \<le> 4096 \<or> k + 4096 \<le> length s \<and> length s \<le> k + 4099)"
proof (cases "4096 < length s")
  case True
  let ?k = "floor_char_boundary s (length s - 4096)"
  have "is_char_boundary s ?k" "?k \<le> length s - 4096" "length s - 4096 \<le> ?k + 3"
    using floor_char_boundary [OF assms(1), of "length s - 4096"] by auto
  moreover from this have "lifecycle_loop lc s acc = Some (drop ?k s, acc)"
    using assms(2) True by (simp add: lifecycle_loop.simps [of lc s] lifecycle_step_def slice_from_def BUFFER_KEEP_BYTES_def)
  ultimately show ?thesis using True by (intro exI [of _ ?k]) auto
next
  case False
  then show ?thesis
    using assms(2) by (intro exI [of _ 0]) (simp add: lifecycle_loop.simps [of lc s] lifecycle_step_def BUFFER_KEEP_BYTES_def)
qed

lemma lifecycle_at_prefix:
  assumes "text_ok s" "find_sub OSC6337_PREFIX s = Some i"
  shows "lifecycle_step lc s = lifecycle_sequence lc (drop i s)" "text_ok (drop i s)" "is_char_boundary s i"
    "is_char_boundary (drop i s) 7" "prefix OSC6337_PREFIX (drop i s)"
proof -
  have p: "prefix OSC6337_PREFIX (drop i s)" using assms(2) by (simp add: find_sub_Some)
  have a: "ascii OSC6337_PREFIX" "OSC6337_PREFIX \<noteq> []" using osc6337_prefix by (auto simp: osc_prefix_def)
  show b: "is_char_boundary s i" by (rule pattern_boundaries(1) [OF assms(1) a p])
  show t: "text_ok (drop i s)" by (rule text_ok_drop [OF assms(1) b])
  show "is_char_boundary (drop i s) 7"
    using pattern_boundaries(2) [OF t a, of 0] p by (simp add: osc6337_prefix)
  show "lifecycle_step lc s = lifecycle_sequence lc (drop i s)" using assms(2) b by (simp add: lifecycle_step_def slice_from_def)
  show "prefix OSC6337_PREFIX (drop i s)" by (rule p)
qed

lemma lifecycle_loop_closed:
  assumes "text_ok s" "find_sub OSC6337_PREFIX s = Some i" "osc_terminator (length OSC6337_PREFIX) (drop i s) = Some (j, l)"
  shows "lifecycle_loop lc s acc =
    lifecycle_loop lc (drop (i + j + l) s) (acc @ osc_emit OSC6337_PREFIX (emit6337 lc) i j l s)"
proof -
  note at = lifecycle_at_prefix [OF assms(1,2)]
  have t: "terminates (drop i s) j l" "7 \<le> j" using osc_terminator_Some(1,2) [OF assms(3)] by (simp_all add: osc6337_prefix)
  have "is_char_boundary (drop i s) j" "is_char_boundary (drop i s) (j + l)" using terminator_boundaries [OF at(2) t(1)] by simp_all
  then have "lifecycle_step lc s =
      Some (drop (j + l) (drop i s), lifecycle_payload lc (take (j - 7) (drop 7 (drop i s))), True)"
    using at(1,4) assms(3) t(2)
    by (simp add: lifecycle_sequence_def find_terminator_eq osc6337_prefix slice_def slice_from_def)
  then show ?thesis
    by (subst lifecycle_loop.simps)
      (simp add: osc_emit_def emit6337_def osc6337_prefix ac_simps split: option.split)
qed

lemma lifecycle_loop_open:
  assumes "text_ok s" "find_sub OSC6337_PREFIX s = Some i" "osc_terminator (length OSC6337_PREFIX) (drop i s) = None"
  shows "length s - i \<le> 8192 \<Longrightarrow> lifecycle_loop lc s acc = Some (drop i s, acc)"
    and "8192 < length s - i \<Longrightarrow>
      \<exists>k. lifecycle_loop lc s acc = Some (drop k s, acc) \<and> is_char_boundary s k \<and> i < k \<and> k \<le> length s \<and>
        (length s \<le> k + 4099 \<or> k < length s \<and> s ! k = ESC \<and> ESC \<notin> set (drop (k + 1) s))"
proof -
  note at = lifecycle_at_prefix [OF assms(1,2)]
  let ?b = "drop i s"
  have t: "find_terminator 7 ?b = Some None"
    using find_terminator_eq [OF at(4)] assms(3) by (simp add: osc6337_prefix)
  show "lifecycle_loop lc s acc = Some (?b, acc)" if "length s - i \<le> 8192"
    using at(1) t that by (simp add: lifecycle_loop.simps [of lc s] lifecycle_sequence_def osc6337_prefix)
  assume large: "8192 < length s - i"
  have loop: "lifecycle_loop lc s acc = map_option (\<lambda>b'. (b', acc)) (lifecycle_overlong ?b)"
    using at(1) t large
    by (simp add: lifecycle_loop.simps [of lc s] lifecycle_sequence_def osc6337_prefix split: option.split)
  have one: "is_char_boundary ?b 1"
    using boundary_after [OF at(2), of 0] prefix_drop_nth [OF at(5), of 0] large by (simp add: OSC6337_PREFIX_def)
  show "\<exists>k. lifecycle_loop lc s acc = Some (drop k s, acc) \<and> is_char_boundary s k \<and> i < k \<and> k \<le> length s \<and>
        (length s \<le> k + 4099 \<or> k < length s \<and> s ! k = ESC \<and> ESC \<notin> set (drop (k + 1) s))"
  proof (cases "rfind_sub [ESC] (drop 1 ?b)")
    case None
    let ?f = "floor_char_boundary ?b (length ?b - 4096)"
    have f: "is_char_boundary ?b ?f" "?f \<le> length ?b - 4096" "length ?b - 4096 \<le> ?f + 3"
      using floor_char_boundary [OF at(2), of "length ?b - 4096"] by auto
    then have "0 < ?f" using large by simp
    then have "is_char_boundary s (i + ?f)" using f(1) large boundary_drop [of i s ?f] by simp
    moreover have "lifecycle_overlong ?b = Some (drop ?f ?b)"
      using None one f(1) by (simp add: lifecycle_overlong_def slice_from_def BUFFER_KEEP_BYTES_def)
    ultimately show ?thesis using f large \<open>0 < ?f\<close> loop by (intro exI [of _ "i + ?f"]) (auto simp: add.commute)
  next
    case (Some n)
    note n = rfind_sub_Some [OF Some]
    then have p: "prefix [ESC] (drop (i + n + 1) s)" by (simp add: ac_simps)
    have e: "ascii [ESC]" by (simp add: ascii_def ESC_def)
    have k: "is_char_boundary s (i + n + 1)" "i + n + 1 < length s" "s ! (i + n + 1) = ESC"
      using pattern_boundaries(1) [OF assms(1) e _ p] prefix_drop_length [OF p] prefix_drop_nth [OF p, of 0] by auto
    have "is_char_boundary ?b (n + 1)" using k by (auto simp: is_char_boundary_def)
    then have "lifecycle_overlong ?b = Some (drop (n + 1) ?b)"
      using Some one by (simp add: lifecycle_overlong_def slice_from_def)
    moreover have "ESC \<notin> set (drop (i + n + 2) s)"
    proof
      assume "ESC \<in> set (drop (i + n + 2) s)"
      then obtain m where m: "m < length (drop (i + n + 2) s)" "drop (i + n + 2) s ! m = ESC" by (auto simp: in_set_conv_nth)
      then have "s ! (i + n + 2 + m) = ESC" "i + n + 2 + m < length s" by simp_all
      then have "prefix [ESC] (drop (i + n + 2 + m) s)" using prefix_single [of "i + n + 2 + m" s] by simp
      then show False using n m(1) by (auto dest!: spec [of _ "n + 1 + m"] simp: ac_simps)
    qed
    ultimately show ?thesis using k loop by (intro exI [of _ "i + n + 1"]) (auto simp: ac_simps)
  qed
qed

interpretation osc6337: osc_parser OSC6337_PREFIX "emit6337 lc" 8192 "lifecycle_loop lc" for lc
proof unfold_locales
  show "osc_prefix OSC6337_PREFIX" by (rule osc6337_prefix)
  fix s :: bytes and i j l :: nat and acc :: "agent_lifecycle_event list"
  assume s: "text_ok s"
  show "\<exists>k. lifecycle_loop lc s acc = Some (drop k s, acc) \<and> is_char_boundary s k \<and> (k = 0 \<or> length OSC6337_PREFIX + k \<le> length s)"
    if "find_sub OSC6337_PREFIX s = None"
    using lifecycle_loop_plain [OF s that, of lc acc] by (fastforce simp: osc6337_prefix)
  assume p: "find_sub OSC6337_PREFIX s = Some i"
  show "lifecycle_loop lc s acc = Some (drop i s, acc)"
    if "osc_terminator (length OSC6337_PREFIX) (drop i s) = None" "length s - i \<le> 8192"
    by (rule lifecycle_loop_open(1) [OF s p that])
  show "lifecycle_loop lc s acc = lifecycle_loop lc (drop (i + j + l) s) (acc @ osc_emit OSC6337_PREFIX (emit6337 lc) i j l s)"
    if "osc_terminator (length OSC6337_PREFIX) (drop i s) = Some (j, l)"
    by (rule lifecycle_loop_closed [OF s p that])
  show "\<exists>k. is_char_boundary s k \<and> 0 < k \<and> (lifecycle_loop lc s acc = Some (drop k s, acc) \<or> lifecycle_loop lc s acc = lifecycle_loop lc (drop k s) acc)"
    if "osc_terminator (length OSC6337_PREFIX) (drop i s) = None" "8192 < length s - i"
    using lifecycle_loop_open(2) [OF s p that, of lc acc] by fastforce
qed

section \<open>The bound on the buffer\<close>

definition lifecycle_kept :: "bytes \<Rightarrow> bool" where
  "lifecycle_kept b \<longleftrightarrow> text_ok b \<and> (length b \<le> 8192 \<or> ESC \<notin> set (tl b) \<and> BEL \<notin> set b)"

lemma open_no_bel:
  assumes "prefix OSC6337_PREFIX b" "osc_terminator (length OSC6337_PREFIX) b = None"
  shows "BEL \<notin> set b"
proof
  assume "BEL \<in> set b"
  then obtain m where m: "m < length b" "b ! m = BEL" by (auto simp: in_set_conv_nth)
  obtain r where r: "b = OSC6337_PREFIX @ r" using assms(1) by (auto simp: prefix_def)
  have "\<not> m < length OSC6337_PREFIX"
  proof
    assume a: "m < length OSC6337_PREFIX"
    then have "BEL \<in> set OSC6337_PREFIX" using m r by (metis nth_append nth_mem)
    then show False using osc6337_prefix by (simp add: osc_prefix_def)
  qed
  moreover have "terminates b m 1" using m prefix_single [of m b] by (simp add: terminates_def)
  ultimately show False using assms(2) by (auto simp: osc_terminator_None)
qed

text \<open>How a feed ends.\<close>

lemma lifecycle_loop_final:
  "text_ok s \<Longrightarrow> \<exists>b es. lifecycle_loop lc s acc = Some (b, acc @ es) \<and> lifecycle_kept b \<and>
    (length b \<le> 8192 \<or> (\<exists>k m. b = drop k s \<and> 0 < k \<and> k < length s \<and> s ! k = ESC))"
proof (induction s arbitrary: acc rule: measure_induct_rule [where f = length])
  case (less s)
  show ?case
  proof (cases "find_sub OSC6337_PREFIX s")
    case None
    obtain k where k: "lifecycle_loop lc s acc = Some (drop k s, acc)" "is_char_boundary s k" "length (drop k s) \<le> 8192"
      using lifecycle_loop_plain [OF less.prems None, of lc acc] by fastforce
    have "lifecycle_kept (drop k s)" using k text_ok_drop [OF less.prems k(2)] by (simp add: lifecycle_kept_def)
    then show ?thesis using k by auto
  next
    case (Some i)
    note p = Some
    note at = lifecycle_at_prefix [OF less.prems p]
    show ?thesis
    proof (cases "osc_terminator (length OSC6337_PREFIX) (drop i s)")
      case (Some q)
      obtain j l where q: "q = (j, l)" by fastforce
      note t = Some [unfolded q]
      note c = osc_closed_length [OF p t]
      let ?s = "drop (i + j + l) s"
      have "length ?s < length s" using c by simp
      from less.IH [OF this text_ok_drop [OF less.prems osc6337.closed_boundary [OF less.prems p t]],
          of "acc @ osc_emit OSC6337_PREFIX (emit6337 lc) i j l s"] obtain b es where
        b: "lifecycle_loop lc ?s (acc @ osc_emit OSC6337_PREFIX (emit6337 lc) i j l s) =
            Some (b, (acc @ osc_emit OSC6337_PREFIX (emit6337 lc) i j l s) @ es)" "lifecycle_kept b"
          "length b \<le> 8192 \<or> (\<exists>k m. b = drop k ?s \<and> 0 < k \<and> k < length ?s \<and> ?s ! k = ESC)" by blast
      have "length b \<le> 8192 \<or> (\<exists>k m. b = drop k s \<and> 0 < k \<and> k < length s \<and> s ! k = ESC)"
        using b(3)
      proof (elim disjE exE conjE)
        fix k assume "b = drop k ?s" "0 < k" "k < length ?s" "?s ! k = ESC"
        then show ?thesis by (intro disjI2 exI [of _ "i + j + l + k"]) (simp add: ac_simps)
      qed simp
      then show ?thesis using b(1,2) lifecycle_loop_closed [OF less.prems p t, of lc acc] by auto
    next
      case None
      show ?thesis
      proof (cases "length s - i \<le> 8192")
        case True
        then show ?thesis
          using lifecycle_loop_open(1) [OF less.prems p None True, of lc acc] at(2) by (auto simp: lifecycle_kept_def)
      next
        case False
        then have "8192 < length s - i" by simp
        from lifecycle_loop_open(2) [OF less.prems p None this, of lc acc] obtain k where
          k: "lifecycle_loop lc s acc = Some (drop k s, acc)" "is_char_boundary s k" "i < k" "k \<le> length s"
            "length s \<le> k + 4099 \<or> k < length s \<and> s ! k = ESC \<and> ESC \<notin> set (drop (k + 1) s)" by blast
        have "set (drop k s) \<subseteq> set (drop i s)" using k(3) by (simp add: set_drop_subset_set_drop)
        then have "BEL \<notin> set (drop k s)" using open_no_bel [OF at(5) None] by blast
        moreover have "tl (drop k s) = drop (k + 1) s" by (simp add: drop_Suc tl_drop)
        ultimately have "lifecycle_kept (drop k s)"
          using k(5) text_ok_drop [OF less.prems k(2)] by (auto simp: lifecycle_kept_def)
        then show ?thesis using k by auto
      qed
    qed
  qed
qed

lemma lifecycle_feed_bounded:
  assumes "lifecycle_kept b" "text_ok d"
  shows "\<exists>b' es. lifecycle_feed lc b d = Some (b', es) \<and> lifecycle_kept b' \<and> length b' \<le> 8192 + length d"
proof -
  have "text_ok (b @ d)" using assms by (simp add: lifecycle_kept_def text_ok_append)
  from lifecycle_loop_final [OF this, of lc "[]"] obtain b' es where
    l: "lifecycle_loop lc (b @ d) [] = Some (b', es)" "lifecycle_kept b'"
      "length b' \<le> 8192 \<or> (\<exists>k m. b' = drop k (b @ d) \<and> 0 < k \<and> k < length (b @ d) \<and> (b @ d) ! k = ESC)" by auto
  have "length b' \<le> 8192 + length d"
    using l(3)
  proof (elim disjE exE conjE)
    fix k assume k: "b' = drop k (b @ d)" "0 < k" "(b @ d) ! k = ESC"
    show ?thesis
    proof (cases "length b \<le> 8192")
      case False
      then have "ESC \<notin> set (tl b)" using assms(1) by (simp add: lifecycle_kept_def)
      have "\<not> k < length b"
      proof
        assume "k < length b"
        then have "tl b ! (k - 1) = ESC" "k - 1 < length (tl b)" using k by (simp_all add: nth_append nth_tl)
        then show False using \<open>ESC \<notin> set (tl b)\<close> by (metis nth_mem)
      qed
      then show ?thesis using k(1) by simp
    qed (use k in simp)
  qed simp
  then show ?thesis using l by (simp add: lifecycle_feed_def)
qed

lemma lifecycle_feeds_bounded:
  assumes "lifecycle_kept b" "\<forall>d\<in>set ds. text_ok d \<and> length d \<le> n" "length b \<le> 8192 + n"
  shows "\<exists>b' es. osc_feeds (lifecycle_feed lc) ds b = Some (b', es) \<and> length b' \<le> 8192 + n"
  using assms
proof (induction ds arbitrary: b)
  case (Cons d ds)
  have d: "text_ok d" "length d \<le> n" using Cons.prems(2) by simp_all
  from lifecycle_feed_bounded [OF Cons.prems(1) d(1), of lc] obtain b' es where
    f: "lifecycle_feed lc b d = Some (b', es)" "lifecycle_kept b'" "length b' \<le> 8192 + length d" by blast
  then have "length b' \<le> 8192 + n" using d(2) by simp
  from Cons.IH [OF f(2) _ this] Cons.prems(2) f(1) show ?case by auto
qed simp

end
