(* ===== verification/Lifecycle_Props.thy ===== *)
theory Lifecycle_Props
  imports Agent_Lifecycle
begin

text \<open>
  What the lifecycle protocol promises: an encoded event comes out of the parser, whatever text is
  around it and however the stream is cut, and the parser neither panics nor grows.
\<close>

section \<open>Payloads\<close>

text \<open>What \<open>serde_json\<close> documents of the text of an event: an object, control characters escaped, read back.\<close>

definition lifecycle_codes :: "lifecycle_codec \<Rightarrow> agent_lifecycle_event \<Rightarrow> bool" where
  "lifecycle_codes lc e \<longleftrightarrow>
    (\<exists>cs. (\<forall>c\<in>set cs. is_scalar c \<and> 0x20 \<le> c) \<and>
      lc_to_string lc (lifecycle_fields e) = Some (utf8_string (cp CHR ''{'' # cs @ [cp CHR ''}''])) \<and>
      lc_from_str lc (utf8_string (cp CHR ''{'' # cs @ [cp CHR ''}''])) = Some (lifecycle_fields e))"

lemma str_trim_string: "\<forall>c\<in>set cs. is_scalar c \<Longrightarrow> str_trim (utf8_string cs) = utf8_string (trim_chars cs)"
  by (simp add: str_trim_def utf8_chars_string)

lemma str_trim_word:
  assumes "\<forall>c\<in>set w. 0x20 < (of_char c :: nat) \<and> (of_char c :: nat) < 0x80"
  shows "str_trim (bytes_of w) = bytes_of w"
proof -
  have keep: "dropWhile is_whitespace cs = cs" if "\<forall>c\<in>set cs. \<not> is_whitespace c" for cs
    using that by (cases cs) simp_all
  have "bytes_of w = utf8_string (map of_char w)"
    using assms by (induction w) (simp_all add: bytes_of_def utf8_encode_def mk_byte_def of_nat_of_char)
  moreover have "\<forall>c\<in>set (map of_char w). is_scalar c \<and> \<not> is_whitespace c"
    using assms by (auto simp: is_scalar_def is_whitespace_def)
  moreover from this have "trim_chars (map of_char w) = map of_char w"
    using keep [of "map of_char w"] keep [of "rev (map of_char w)"] by (simp add: trim_chars_def)
  ultimately show ?thesis using str_trim_string [of "map of_char w"] by simp
qed

lemma kind_parse_as_str: "kind_parse (kind_as_str k) = Some k"
  by (cases k) (simp_all add: kind_parse_def str_trim_word Let_def, simp_all add: bytes_of_def)

lemma control_free_encode: "0x20 \<le> c \<Longrightarrow> is_scalar c \<Longrightarrow> b \<in> set (utf8_encode c) \<Longrightarrow> 0x20 \<le> unat b"
proof -
  have r: "0x80 + m mod 64 < (256 :: nat)" for m :: nat
    using mod_less_divisor [of 64 m] by linarith
  assume "0x20 \<le> c" "is_scalar c" "b \<in> set (utf8_encode c)"
  then show ?thesis
    using r by (auto simp: utf8_encode_def is_scalar_def split: if_splits)
qed

lemma control_free_string:
  assumes "\<forall>c\<in>set cs. is_scalar c \<and> 0x20 \<le> c"
  shows "BEL \<notin> set (utf8_string cs)" "ESC \<notin> set (utf8_string cs)"
proof -
  have "0x20 \<le> unat b" if "b \<in> set (utf8_string cs)" for b
    using that assms control_free_encode by (fastforce simp: utf8_string_def)
  from this [of BEL] this [of ESC] show "BEL \<notin> set (utf8_string cs)" "ESC \<notin> set (utf8_string cs)"
    by (auto simp: BEL_def ESC_def)
qed

lemma payload_of_code:
  assumes "lifecycle_codes lc e"
  shows "\<exists>js. lifecycle_encode lc e = OSC6337_PREFIX @ js @ [BEL] \<and> is_str js \<and> BEL \<notin> set js \<and> ESC \<notin> set js \<and>
    lifecycle_payload lc js = Some e"
proof -
  obtain cs where cs: "\<forall>c\<in>set cs. is_scalar c \<and> 0x20 \<le> c"
    and out: "lc_to_string lc (lifecycle_fields e) = Some (utf8_string (cp CHR ''{'' # cs @ [cp CHR ''}'']))"
    and reads: "lc_from_str lc (utf8_string (cp CHR ''{'' # cs @ [cp CHR ''}''])) = Some (lifecycle_fields e)"
    using assms unfolding lifecycle_codes_def by blast
  define whole where "whole = cp CHR ''{'' # cs @ [cp CHR ''}'']"
  have whole: "\<forall>c\<in>set whole. is_scalar c \<and> 0x20 \<le> c" using cs by (auto simp: whole_def is_scalar_def)
  have "trim_chars whole = whole" by (simp add: trim_chars_def whole_def is_whitespace_def)
  then have trim: "str_trim (utf8_string whole) = utf8_string whole"
    using whole str_trim_string [of whole] by simp
  obtain r where r: "utf8_string whole = 0x7B # r"
    by (simp add: whole_def utf8_encode_def mk_byte_def)
  have "kind_parse (utf8_string whole) = None"
    unfolding kind_parse_def Let_def trim unfolding r by (simp add: bytes_of_def)
  moreover have "lifecycle_from_fields (lifecycle_fields e) = Some e"
    by (simp add: lifecycle_from_fields_def lifecycle_fields_def kind_parse_as_str)
  ultimately have "lifecycle_payload lc (utf8_string whole) = Some e"
    using reads [folded whole_def] r unfolding lifecycle_payload_def Let_def trim by simp
  moreover have "is_str (utf8_string whole)" using whole by (auto simp: is_str_def)
  ultimately show ?thesis using out control_free_string [OF whole] by (auto simp: lifecycle_encode_def whole_def)
qed

section \<open>Properties\<close>

definition lifecycle_events :: "lifecycle_codec \<Rightarrow> bytes \<Rightarrow> agent_lifecycle_event list" where
  "lifecycle_events lc s = fst (osc_scan OSC6337_PREFIX (emit6337 lc) s)"

text \<open>
  An event that an agent prints arrives. Let an event be printed between two texts, the first of
  which leaves no sequence open, and let the stream reach the parser cut into strings in any way, with
  no sequence open for more than 8,192 bytes. Then feeding the pieces does not panic and returns
  the events of the first text, then this event with all its fields, then those of the second.
\<close>

theorem lifecycle_event_arrives:
  assumes "lifecycle_codes lc e" and "concat ds = before @ lifecycle_encode lc e @ after"
    and "\<forall>d\<in>set ds. is_str d" and "\<forall>k\<le>length ds. osc_open OSC6337_PREFIX (emit6337 lc) (concat (take k ds)) \<le> 8192"
    and "osc_open OSC6337_PREFIX (emit6337 lc) before = 0"
  shows "\<exists>b. osc_feeds (lifecycle_feed lc) ds [] = Some (b, lifecycle_events lc before @ e # lifecycle_events lc after)"
proof -
  let ?scan = "osc_scan OSC6337_PREFIX (emit6337 lc)"
  obtain js where js: "lifecycle_encode lc e = OSC6337_PREFIX @ js @ [BEL]" "BEL \<notin> set js" "ESC \<notin> set js"
    "lifecycle_payload lc js = Some e"
    using payload_of_code [OF assms(1)] by blast
  have ne: "OSC6337_PREFIX \<noteq> []" by (simp add: OSC6337_PREFIX_def)
  have plain: "find_sub OSC6337_PREFIX (snd (?scan before)) = None"
    using assms(5) osc_scan_rest [of OSC6337_PREFIX "emit6337 lc" before]
    by (fastforce simp: osc_open_def Let_def OSC6337_PREFIX_def split: if_splits)
  have "fst (?scan (before @ lifecycle_encode lc e @ after)) =
      fst (?scan before) @ fst (?scan (snd (?scan before) @ OSC6337_PREFIX @ js @ BEL # after))"
    using osc_scan_append [OF ne, of "emit6337 lc" before "lifecycle_encode lc e @ after"] js(1) by simp
  also have "\<dots> = lifecycle_events lc before @ e # lifecycle_events lc after"
    using osc6337.scan_sequence [OF plain js(2,3), of lc after] js(4) by (simp add: emit6337_def lifecycle_events_def)
  finally show ?thesis
    using osc6337.chunks_scan [of ds lc] assms(2,3,4) is_str_text_ok by (simp add: lifecycle_feed_def [abs_def])
qed

text \<open>
  The lifecycle parser neither panics nor grows. Whatever strings of at most \<open>n\<close> bytes it is
  fed, every feed returns, and the buffer is never longer than 8,192 plus \<open>n\<close> bytes.
\<close>

theorem lifecycle_bounded:
  assumes "\<forall>d\<in>set ds. is_str d \<and> length d \<le> n"
  shows "\<exists>b es. osc_feeds (lifecycle_feed lc) ds [] = Some (b, es) \<and> length b \<le> 8192 + n"
  using lifecycle_feeds_bounded [of "[]" ds n lc] assms is_str_text_ok by (simp add: lifecycle_kept_def)

section \<open>Witnesses\<close>

definition demo_lifecycle :: agent_lifecycle_event where
  "demo_lifecycle = \<lparr>le_kind = LkComplete, le_agent = None, le_session_id = None, le_message = None\<rparr>"

text \<open>A codec for this one event.\<close>

definition demo_lifecycle_codec :: lifecycle_codec where
  "demo_lifecycle_codec =
    \<lparr>lc_to_string = (\<lambda>f. Some (bytes_of ''{c}'')), lc_from_str = (\<lambda>s. Some (lifecycle_fields demo_lifecycle))\<rparr>"

lemma demo_lifecycle_codes: "lifecycle_codes demo_lifecycle_codec demo_lifecycle"
  unfolding lifecycle_codes_def
  by (intro exI [of _ "[0x63]"]) (simp add: demo_lifecycle_codec_def is_scalar_def utf8_encode_def mk_byte_def bytes_of_def)

definition demo_stream :: "bytes list" where
  "demo_stream = [bytes_of ''ok'' @ 0x1B # bytes_of '']6'', bytes_of ''337;{c'', 0x7D # 0x07 # bytes_of ''$'']"

lemma demo_stream_str: "\<forall>d\<in>set demo_stream. is_str d \<and> length d \<le> 6"
  by (auto simp: demo_stream_def bytes_of_def ascii_def intro!: is_str_ascii)

theorem lifecycle_event_arrives_witness:
  "\<exists>b. osc_feeds (lifecycle_feed demo_lifecycle_codec) demo_stream [] = Some (b, [demo_lifecycle])"
proof -
  let ?scan = "osc_scan OSC6337_PREFIX (emit6337 demo_lifecycle_codec)"
  have lim: "osc_open OSC6337_PREFIX (emit6337 demo_lifecycle_codec) (concat (take k demo_stream)) \<le> 8192" for k
  proof -
    have "length (concat (take k demo_stream)) \<le> 8192" by (auto simp: demo_stream_def take_Cons' bytes_of_def)
    then show ?thesis
      using osc_scan_rest_length [of OSC6337_PREFIX "emit6337 demo_lifecycle_codec" "concat (take k demo_stream)"]
      by (simp add: osc_open_def Let_def)
  qed
  have p: "find_sub OSC6337_PREFIX (bytes_of ''ok'') = None" "find_sub OSC6337_PREFIX (bytes_of ''$'') = None"
    by (simp_all add: OSC6337_PREFIX_def bytes_of_def)
  then have "osc_open OSC6337_PREFIX (emit6337 demo_lifecycle_codec) (bytes_of ''ok'') = 0"
    "lifecycle_events demo_lifecycle_codec (bytes_of ''ok'') = []" "lifecycle_events demo_lifecycle_codec (bytes_of ''$'') = []"
    by (simp_all add: osc_open_def lifecycle_events_def osc_scan_plain)
  moreover have "concat demo_stream = bytes_of ''ok'' @ lifecycle_encode demo_lifecycle_codec demo_lifecycle @ bytes_of ''$''"
    by (simp add: demo_stream_def lifecycle_encode_def demo_lifecycle_codec_def OSC6337_PREFIX_def BEL_def bytes_of_def)
  ultimately show ?thesis
    using lifecycle_event_arrives [OF demo_lifecycle_codes, of demo_stream "bytes_of ''ok''" "bytes_of ''$''"]
      lim demo_stream_str by simp
qed

theorem lifecycle_bounded_witness:
  "\<exists>b es. osc_feeds (lifecycle_feed demo_lifecycle_codec) demo_stream [] = Some (b, es) \<and> length b \<le> 8198"
  using lifecycle_bounded [OF demo_stream_str, of demo_lifecycle_codec] by simp

end
