(* ===== verification/Json_Value.thy ===== *)
theory Json_Value
  imports Text_Codec Complex_Main
begin

text \<open>
  The value type of the crate \<open>serde_json\<close>, by its public constructors, and the accessors that the
  components match on. Numbers are a parameter with the accessors of \<open>Number\<close>; a
  finite \<open>f64\<close> is the rational that it denotes. An object is the list of its
  entries in the order of iteration, with keys that occur once.
\<close>

datatype 'n jvalue =
    VNull
  | VBool bool
  | VNumber 'n
  | VString ustr
  | VArray "'n jvalue list"
  | VObject "(ustr \<times> 'n jvalue) list"

record 'n num_ops =
  no_u64 :: "'n \<Rightarrow> nat option"
  no_i64 :: "'n \<Rightarrow> int option"
  no_f64 :: "'n \<Rightarrow> rat option"

fun v_as_object :: "'n jvalue \<Rightarrow> (ustr \<times> 'n jvalue) list option" where
  "v_as_object (VObject m) = Some m"
| "v_as_object _ = None"

fun v_as_array :: "'n jvalue \<Rightarrow> 'n jvalue list option" where
  "v_as_array (VArray xs) = Some xs"
| "v_as_array _ = None"

fun v_as_str :: "'n jvalue \<Rightarrow> ustr option" where
  "v_as_str (VString s) = Some s"
| "v_as_str _ = None"

fun v_as_bool :: "'n jvalue \<Rightarrow> bool option" where
  "v_as_bool (VBool b) = Some b"
| "v_as_bool _ = None"

fun v_as_u64 :: "'n num_ops \<Rightarrow> 'n jvalue \<Rightarrow> nat option" where
  "v_as_u64 no (VNumber n) = no_u64 no n"
| "v_as_u64 no _ = None"

fun v_as_i64 :: "'n num_ops \<Rightarrow> 'n jvalue \<Rightarrow> int option" where
  "v_as_i64 no (VNumber n) = no_i64 no n"
| "v_as_i64 no _ = None"

fun v_as_f64 :: "'n num_ops \<Rightarrow> 'n jvalue \<Rightarrow> rat option" where
  "v_as_f64 no (VNumber n) = no_f64 no n"
| "v_as_f64 no _ = None"

definition v_get :: "string \<Rightarrow> (ustr \<times> 'n jvalue) list \<Rightarrow> 'n jvalue option" where
  "v_get key m = map_of m (lit key)"

text \<open>\<open>Value::get\<close>, which is nothing for a value that is no object.\<close>

definition j_get :: "string \<Rightarrow> 'n jvalue \<Rightarrow> 'n jvalue option" where
  "j_get key v = Option.bind (v_as_object v) (v_get key)"

text \<open>\<open>Map::insert\<close>: the entries are kept in the order of the keys, which is that of their code points.\<close>

fun obj_insert :: "ustr \<Rightarrow> 'n jvalue \<Rightarrow> (ustr \<times> 'n jvalue) list \<Rightarrow> (ustr \<times> 'n jvalue) list" where
  "obj_insert k v [] = [(k, v)]"
| "obj_insert k v ((k', v') # m) =
    (if k = k' then (k, v) # m else if ord_class.lexordp k k' then (k, v) # (k', v') # m else (k', v') # obj_insert k v m)"

lemma map_of_obj_insert [simp]: "map_of (obj_insert k v m) = (map_of m)(k \<mapsto> v)"
  by (induction k v m rule: obj_insert.induct) auto

section \<open>Checks\<close>

text \<open>
  A sequence of statements that may return early with an error: the first error, or success; and a
  loop of such statements.
\<close>

fun checks :: "('e + unit) list \<Rightarrow> 'e + unit" where
  "checks [] = Inr ()"
| "checks (Inl e # cs) = Inl e"
| "checks (Inr u # cs) = checks cs"

fun check_all :: "('a \<Rightarrow> 'e + unit) \<Rightarrow> 'a list \<Rightarrow> 'e + unit" where
  "check_all f [] = Inr ()"
| "check_all f (x # xs) = (case f x of Inl e \<Rightarrow> Inl e | Inr u \<Rightarrow> check_all f xs)"

definition require :: "bool \<Rightarrow> 'e \<Rightarrow> 'e + unit" where
  "require b e = (if b then Inr () else Inl e)"

lemma checks_ok [simp]: "checks cs = Inr () \<longleftrightarrow> (\<forall>c\<in>set cs. c = Inr ())"
proof (induction cs)
  case (Cons c cs)
  then show ?case by (cases c) auto
qed simp

lemma check_all_ok [simp]: "check_all f xs = Inr () \<longleftrightarrow> (\<forall>x\<in>set xs. f x = Inr ())"
  by (induction xs) (auto split: sum.split)

lemma require_ok [simp]: "require b e = Inr () \<longleftrightarrow> b"
  by (simp add: require_def)

lemma checks_congI: "(\<And>c. c \<in> set cs \<Longrightarrow> c = Inr ()) \<Longrightarrow> checks cs = Inr ()"
  by simp

end
