(* ===== verification/Plugin_Validation.thy ===== *)
theory Plugin_Validation
  imports Json_Value
begin

text \<open>
  \<open>crates/athena-plugins/src/validation.rs\<close> and the data types of \<open>types.rs\<close>: what a plugin manifest
  has to satisfy before it is registered, and the JSON Schema subset that plugin
  configurations are validated against. An error carries the fixed text of its message and the text
  that is interpolated into it. The lengths of serialized forms, by \<open>serde_json\<close>, are parameters.
\<close>

section \<open>Data\<close>

datatype plugin_error =
    PluginNotFound ustr
  | SessionNotFound ustr
  | SessionOwnership ustr ustr
  | AlreadyRegistered ustr
  | ManifestIo
  | ManifestParse ustr
  | LockPoisoned
  | ValidationFailed string ustr
  | LimitExceeded string ustr

datatype plugin_capability = CNotifications | CStatus | CTasks | CAgentControl | CUserInput | CFileAccess | CSwarm

datatype plugin_event_type =
    PNotification | PStatusUpdate | PTaskComplete | PTaskError | PNeedsInput | PAgentSpawned | PAgentExited
  | PAgentStalled | PProgressUpdate | PArtifactProduced | PUserResponse | PControlCommand | PAgentConnected
  | PAgentDisconnected | PPluginRegistered | PPluginError | POutputForwarded

datatype plugin_install_method =
    Builtin
  | McpServer ustr "ustr list option" "(ustr \<times> ustr) list option"
  | Hook ustr

record 'n plugin_config_schema =
  cs_schema :: "'n jvalue"
  cs_defaults :: "'n jvalue"

record 'n plugin_tool_definition =
  td_name :: ustr
  td_description :: ustr
  td_input_schema :: "'n jvalue"
  td_capability :: plugin_capability
  td_phase :: u8

record mcp_config =
  mc_command :: ustr
  mc_args :: "ustr list"
  mc_env :: "(ustr \<times> ustr) list option"

record 'n plugin_manifest =
  m_id :: ustr
  m_name :: ustr
  m_version :: ustr
  m_description :: ustr
  m_author :: ustr
  m_permissions :: "plugin_capability list"
  m_mcp_config :: "mcp_config option"
  m_min_athena_version :: "ustr option"
  m_capabilities :: "plugin_capability list"
  m_tools :: "'n plugin_tool_definition list"
  m_subscribes_to :: "plugin_event_type list option"
  m_config :: "'n plugin_config_schema option"
  m_install :: "plugin_install_method option"

text \<open>What is asked of \<open>serde_json\<close>: numbers, and the number of bytes of a serialized value.\<close>

record 'n plugin_json =
  pj_num :: "'n num_ops"
  pj_value_len :: "'n jvalue \<Rightarrow> nat option"
  pj_schema_len :: "'n plugin_config_schema \<Rightarrow> nat option"
  pj_events_len :: "plugin_event_type list \<Rightarrow> nat option"

definition MAX_PLUGIN_CONFIG_BYTES :: nat where
  "MAX_PLUGIN_CONFIG_BYTES = 256 * 1024"

definition MAX_PLUGIN_EVENT_BYTES :: nat where
  "MAX_PLUGIN_EVENT_BYTES = 256 * 1024"

definition MAX_SCHEMA_DEPTH :: nat where
  "MAX_SCHEMA_DEPTH = 64"

section \<open>Identifiers, texts and commands\<close>

definition ALLOWED_MCP_COMMANDS :: "ustr list" where
  "ALLOWED_MCP_COMMANDS = map lit
    [''node'', ''python'', ''python3'', ''ruby'', ''cargo'', ''npx'', ''deno'', ''uv'', ''uvx'', ''pipx'']"

definition FORBIDDEN_MCP_ARGS :: "ustr list" where
  "FORBIDDEN_MCP_ARGS = map lit [''-c'', ''-e'', ''--eval'']"

definition FORBIDDEN_MCP_ENV_VARS :: "ustr list" where
  "FORBIDDEN_MCP_ENV_VARS = map lit
    [''PATH'', ''HOME'', ''LD_PRELOAD'', ''LD_LIBRARY_PATH'', ''DYLD_INSERT_LIBRARIES'',
     ''DYLD_FALLBACK_LIBRARY_PATH'', ''DYLD_LIBRARY_PATH'', ''NODE_OPTIONS'', ''NODE_PATH'', ''BASH_ENV'',
     ''ENV'', ''PYTHONPATH'', ''PYTHONSTARTUP'', ''RUBYOPT'', ''RUBYLIB'', ''PERL5OPT'', ''PERL5LIB'']"

definition SHELL_METACHARACTERS :: "uchar list" where
  "SHELL_METACHARACTERS = lit '';|&$`'' @ [10]"

definition plugin_identifier_char :: "uchar \<Rightarrow> bool" where
  "plugin_identifier_char c \<longleftrightarrow>
    (48 \<le> c \<and> c \<le> 57) \<or> (65 \<le> c \<and> c \<le> 90) \<or> (97 \<le> c \<and> c \<le> 122) \<or> c \<in> set (lit ''-_.'')"

definition validate_plugin_identifier :: "string \<Rightarrow> ustr \<Rightarrow> nat \<Rightarrow> plugin_error + unit" where
  "validate_plugin_identifier kind value max_bytes =
    checks
      [require (value \<noteq> [] \<and> length (utf8_string value) \<le> max_bytes) (ValidationFailed ''must be non-empty and at most'' (lit kind)),
       require (list_all plugin_identifier_char value) (ValidationFailed ''contains unsupported characters'' (lit kind))]"

definition validate_text :: "string \<Rightarrow> ustr \<Rightarrow> nat \<Rightarrow> plugin_error + unit" where
  "validate_text kind value max_bytes =
    require (length (utf8_string value) \<le> max_bytes) (ValidationFailed ''exceeds'' (lit kind))"

definition validate_mcp_command :: "ustr \<Rightarrow> plugin_error + unit" where
  "validate_mcp_command command =
    checks
      [require (take 1 command \<noteq> lit ''/'') (ValidationFailed ''got absolute path'' command),
       require (take 2 command \<noteq> lit ''./'' \<and> take 3 command \<noteq> lit ''../'') (ValidationFailed ''got relative path'' command),
       require (cp CHR ''/'' \<notin> set command) (ValidationFailed ''got path with slash'' command),
       require (command \<in> set ALLOWED_MCP_COMMANDS) (ValidationFailed ''MCP command is not allowed'' command)]"

definition validate_mcp_args :: "ustr list \<Rightarrow> plugin_error + unit" where
  "validate_mcp_args args =
    check_all (\<lambda>arg. require (arg \<notin> set FORBIDDEN_MCP_ARGS)
      (ValidationFailed ''MCP args must not contain interpreter execution flag'' arg)) args"

definition validate_mcp_env :: "(ustr \<times> ustr) list \<Rightarrow> plugin_error + unit" where
  "validate_mcp_env env =
    check_all (\<lambda>key. require (map to_ascii_uppercase key \<notin> set FORBIDDEN_MCP_ENV_VARS)
      (ValidationFailed ''MCP env must not override'' key)) (map fst env)"

text \<open>The segments of a Unix path: \<open>Path::components\<close> yields a parent directory for each \<open>..\<close> among them.\<close>

fun split_slash :: "ustr \<Rightarrow> ustr list" where
  "split_slash [] = [[]]"
| "split_slash (c # cs) =
    (if c = cp CHR ''/'' then [] # split_slash cs
     else case split_slash cs of s # ss \<Rightarrow> (c # s) # ss | [] \<Rightarrow> [[c]])"

definition validate_hook_script :: "ustr \<Rightarrow> plugin_error + unit" where
  "validate_hook_script script =
    checks
      [require (take 1 script \<noteq> lit ''/'') (ValidationFailed ''hook script must be a relative path'' script),
       require (lit ''..'' \<notin> set (split_slash script)) (ValidationFailed ''hook script must not traverse parent directories'' script),
       require (\<not> list_ex (\<lambda>c. c \<in> set SHELL_METACHARACTERS) script) (ValidationFailed ''hook script contains shell metacharacter'' script)]"

fun validate_plugin_install_method :: "plugin_install_method \<Rightarrow> plugin_error + unit" where
  "validate_plugin_install_method Builtin = Inr ()"
| "validate_plugin_install_method (McpServer command args env) =
    checks
      [validate_mcp_command command,
       (case args of Some a \<Rightarrow> validate_mcp_args a | None \<Rightarrow> Inr ()),
       (case env of Some e \<Rightarrow> validate_mcp_env e | None \<Rightarrow> Inr ())]"
| "validate_plugin_install_method (Hook script) = validate_hook_script script"

section \<open>Schemas\<close>

definition ALLOWED_ANNOTATIONS :: "ustr list" where
  "ALLOWED_ANNOTATIONS = map lit
    [''$comment'', ''$id'', ''$schema'', ''title'', ''description'', ''default'', ''examples'', ''deprecated'',
     ''readOnly'', ''writeOnly'']"

definition SUPPORTED_KEYWORDS :: "ustr list" where
  "SUPPORTED_KEYWORDS = map lit
    [''type'', ''properties'', ''required'', ''additionalProperties'', ''items'', ''enum'', ''const'',
     ''minLength'', ''maxLength'', ''minimum'', ''maximum'']"

definition is_json_type_name :: "ustr \<Rightarrow> bool" where
  "is_json_type_name kind \<longleftrightarrow>
    kind \<in> set (map lit [''null'', ''boolean'', ''object'', ''array'', ''string'', ''number'', ''integer''])"

fun valid_type_keyword :: "'n jvalue \<Rightarrow> bool" where
  "valid_type_keyword (VString kind) = is_json_type_name kind"
| "valid_type_keyword (VArray kinds) =
    (kinds \<noteq> [] \<and> list_all (\<lambda>k. case v_as_str k of Some s \<Rightarrow> is_json_type_name s | None \<Rightarrow> False) kinds \<and> distinct kinds)"
| "valid_type_keyword _ = False"

text \<open>The loop over the required names, which have to be strings and unique.\<close>

fun check_required :: "ustr \<Rightarrow> ustr list \<Rightarrow> 'n jvalue list \<Rightarrow> plugin_error + unit" where
  "check_required path seen [] = Inr ()"
| "check_required path seen (v # vs) =
    (case v_as_str v of
       None \<Rightarrow> Inl (ValidationFailed ''required names must be strings'' path)
     | Some name \<Rightarrow>
         if name \<in> set seen then Inl (ValidationFailed ''required names must be unique'' path)
         else check_required path (name # seen) vs)"

definition validate_nonnegative_integer_keyword ::
  "'n num_ops \<Rightarrow> (ustr \<times> 'n jvalue) list \<Rightarrow> string \<Rightarrow> ustr \<Rightarrow> plugin_error + nat option" where
  "validate_nonnegative_integer_keyword no schema keyword path =
    (case v_get keyword schema of
       None \<Rightarrow> Inr None
     | Some value \<Rightarrow>
         (case v_as_u64 no value of
            None \<Rightarrow> Inl (ValidationFailed ''must be a non-negative integer'' path)
          | Some n \<Rightarrow> Inr (Some n)))"

definition validate_number_keyword ::
  "'n num_ops \<Rightarrow> (ustr \<times> 'n jvalue) list \<Rightarrow> string \<Rightarrow> ustr \<Rightarrow> plugin_error + rat option" where
  "validate_number_keyword no schema keyword path =
    (case v_get keyword schema of
       None \<Rightarrow> Inr None
     | Some value \<Rightarrow>
         (case v_as_f64 no value of
            None \<Rightarrow> Inl (ValidationFailed ''must be a finite number'' path)
          | Some n \<Rightarrow> Inr (Some n)))"

text \<open>The test of a pair of bounds, after each has been read.\<close>

definition check_bounds :: "plugin_error + 'a :: linorder option \<Rightarrow> plugin_error + 'a option \<Rightarrow> plugin_error \<Rightarrow> plugin_error + unit" where
  "check_bounds lo hi e =
    (case lo of
       Inl x \<Rightarrow> Inl x
     | Inr l \<Rightarrow>
         (case hi of
            Inl x \<Rightarrow> Inl x
          | Inr h \<Rightarrow> (case (l, h) of (Some a, Some b) \<Rightarrow> require (a \<le> b) e | _ \<Rightarrow> Inr ())))"

function validate_schema_definition :: "'n num_ops \<Rightarrow> 'n jvalue \<Rightarrow> ustr \<Rightarrow> nat \<Rightarrow> plugin_error + unit" where
  "validate_schema_definition no schema path depth =
    (if MAX_SCHEMA_DEPTH < depth then Inl (LimitExceeded ''schema exceeds maximum nesting depth'' path)
     else if v_as_bool schema \<noteq> None then Inr ()
     else case v_as_object schema of
       None \<Rightarrow> Inl (ValidationFailed ''schema must be an object or boolean'' path)
     | Some s \<Rightarrow>
         checks
           [check_all (\<lambda>keyword. require (keyword \<in> set SUPPORTED_KEYWORDS \<or> keyword \<in> set ALLOWED_ANNOTATIONS)
              (ValidationFailed ''unsupported schema keyword'' path)) (map fst s),
            (case v_get ''type'' s of
               None \<Rightarrow> Inr ()
             | Some expected \<Rightarrow> require (valid_type_keyword expected) (ValidationFailed ''invalid type'' path)),
            (case v_get ''enum'' s of
               None \<Rightarrow> Inr ()
             | Some values \<Rightarrow>
                 require (case v_as_array values of Some vs \<Rightarrow> vs \<noteq> [] | None \<Rightarrow> False)
                   (ValidationFailed ''enum must be a non-empty array'' path)),
            (case v_get ''properties'' s of
               None \<Rightarrow> Inr ()
             | Some properties \<Rightarrow>
                 (case v_as_object properties of
                    None \<Rightarrow> Inl (ValidationFailed ''properties must be an object'' path)
                  | Some ps \<Rightarrow>
                      check_all (\<lambda>(name, child). validate_schema_definition no child (path @ lit ''.'' @ name) (depth + 1)) ps)),
            (case v_get ''required'' s of
               None \<Rightarrow> Inr ()
             | Some required \<Rightarrow>
                 (case v_as_array required of
                    None \<Rightarrow> Inl (ValidationFailed ''required must be an array'' path)
                  | Some names \<Rightarrow> check_required path [] names)),
            (case v_get ''additionalProperties'' s of
               None \<Rightarrow> Inr ()
             | Some additional \<Rightarrow>
                 require (v_as_bool additional \<noteq> None) (ValidationFailed ''additionalProperties must be boolean'' path)),
            (case v_get ''items'' s of
               None \<Rightarrow> Inr ()
             | Some items \<Rightarrow>
                 if v_as_array items \<noteq> None then Inl (ValidationFailed ''tuple-style items are unsupported'' path)
                 else validate_schema_definition no items (path @ lit ''[*]'') (depth + 1)),
            check_bounds (validate_nonnegative_integer_keyword no s ''minLength'' path)
              (validate_nonnegative_integer_keyword no s ''maxLength'' path)
              (ValidationFailed ''minLength exceeds maxLength'' path),
            check_bounds (validate_number_keyword no s ''minimum'' path) (validate_number_keyword no s ''maximum'' path)
              (ValidationFailed ''minimum exceeds maximum'' path)])"
  by pat_completeness auto
termination
  by (relation "measure (\<lambda>(no, schema, path, depth). Suc MAX_SCHEMA_DEPTH - depth)") auto

declare validate_schema_definition.simps [simp del]

definition json_type_matches :: "'n num_ops \<Rightarrow> ustr \<Rightarrow> 'n jvalue \<Rightarrow> bool" where
  "json_type_matches no kind value =
    (if kind = lit ''null'' then value = VNull
     else if kind = lit ''boolean'' then v_as_bool value \<noteq> None
     else if kind = lit ''object'' then v_as_object value \<noteq> None
     else if kind = lit ''array'' then v_as_array value \<noteq> None
     else if kind = lit ''string'' then v_as_str value \<noteq> None
     else if kind = lit ''number'' then (case value of VNumber n \<Rightarrow> True | _ \<Rightarrow> False)
     else if kind = lit ''integer'' then
       v_as_i64 no value \<noteq> None \<or> v_as_u64 no value \<noteq> None \<or>
       (case v_as_f64 no value of Some x \<Rightarrow> of_int \<lfloor>x\<rfloor> = x | None \<Rightarrow> False)
     else False)"

fun type_matches :: "'n num_ops \<Rightarrow> 'n jvalue \<Rightarrow> 'n jvalue \<Rightarrow> bool" where
  "type_matches no (VString kind) value = json_type_matches no kind value"
| "type_matches no (VArray kinds) value =
    list_ex (\<lambda>k. case v_as_str k of Some kind \<Rightarrow> json_type_matches no kind value | None \<Rightarrow> False) kinds"
| "type_matches no _ value = False"

text \<open>The checks of a node that do not descend into the value.\<close>

definition check_node_type :: "'n num_ops \<Rightarrow> (ustr \<times> 'n jvalue) list \<Rightarrow> 'n jvalue \<Rightarrow> ustr \<Rightarrow> plugin_error + unit" where
  "check_node_type no s value path =
    checks
      [(case v_get ''type'' s of
          None \<Rightarrow> Inr ()
        | Some expected \<Rightarrow> require (type_matches no expected value) (ValidationFailed ''wrong type'' path)),
       (case Option.bind (v_get ''enum'' s) v_as_array of
          None \<Rightarrow> Inr ()
        | Some vs \<Rightarrow> require (list_ex (\<lambda>c. c = value) vs) (ValidationFailed ''not an allowed value'' path)),
       (case v_get ''const'' s of
          None \<Rightarrow> Inr ()
        | Some constant \<Rightarrow> require (constant = value) (ValidationFailed ''does not match the required value'' path))]"

definition check_node_string :: "'n num_ops \<Rightarrow> (ustr \<times> 'n jvalue) list \<Rightarrow> 'n jvalue \<Rightarrow> ustr \<Rightarrow> plugin_error + unit" where
  "check_node_string no s value path =
    (case v_as_str value of
       None \<Rightarrow> Inr ()
     | Some string \<Rightarrow>
         checks
           [(case Option.bind (v_get ''minLength'' s) (v_as_u64 no) of
               None \<Rightarrow> Inr ()
             | Some m \<Rightarrow> require (m \<le> length string) (ValidationFailed ''string is too short'' path)),
            (case Option.bind (v_get ''maxLength'' s) (v_as_u64 no) of
               None \<Rightarrow> Inr ()
             | Some m \<Rightarrow> require (length string \<le> m) (ValidationFailed ''string is too long'' path))])"

definition check_node_number :: "'n num_ops \<Rightarrow> (ustr \<times> 'n jvalue) list \<Rightarrow> 'n jvalue \<Rightarrow> ustr \<Rightarrow> plugin_error + unit" where
  "check_node_number no s value path =
    (case v_as_f64 no value of
       None \<Rightarrow> Inr ()
     | Some number \<Rightarrow>
         checks
           [(case Option.bind (v_get ''minimum'' s) (v_as_f64 no) of
               None \<Rightarrow> Inr ()
             | Some m \<Rightarrow> require (\<not> number < m) (ValidationFailed ''number is below the minimum'' path)),
            (case Option.bind (v_get ''maximum'' s) (v_as_f64 no) of
               None \<Rightarrow> Inr ()
             | Some m \<Rightarrow> require (\<not> m < number) (ValidationFailed ''number is above the maximum'' path))])"

definition required_names :: "(ustr \<times> 'n jvalue) list \<Rightarrow> ustr list" where
  "required_names s =
    (case Option.bind (v_get ''required'' s) v_as_array of
       None \<Rightarrow> []
     | Some vs \<Rightarrow> List.map_filter v_as_str vs)"

definition property_schema :: "(ustr \<times> 'n jvalue) list \<Rightarrow> ustr \<Rightarrow> 'n jvalue option" where
  "property_schema s name = Option.bind (Option.bind (v_get ''properties'' s) v_as_object) (\<lambda>ps. map_of ps name)"

definition additional_allowed :: "(ustr \<times> 'n jvalue) list \<Rightarrow> bool" where
  "additional_allowed s =
    (case Option.bind (v_get ''additionalProperties'' s) v_as_bool of Some b \<Rightarrow> b | None \<Rightarrow> True)"

function validate_schema_node ::
  "'n num_ops \<Rightarrow> 'n jvalue \<Rightarrow> 'n jvalue \<Rightarrow> ustr \<Rightarrow> nat \<Rightarrow> plugin_error + unit" where
  "validate_schema_node no schema value path depth =
    (if MAX_SCHEMA_DEPTH < depth then Inl (LimitExceeded ''configuration exceeds maximum nesting depth'' path)
     else case v_as_bool schema of
       Some b \<Rightarrow> require b (ValidationFailed ''rejected by schema'' path)
     | None \<Rightarrow>
         (case v_as_object schema of
            None \<Rightarrow> Inl (ValidationFailed ''schema is invalid'' path)
          | Some s \<Rightarrow>
              checks
                [check_node_type no s value path,
                 check_node_string no s value path,
                 check_node_number no s value path,
                 (case v_as_object value of
                    None \<Rightarrow> Inr ()
                  | Some object \<Rightarrow>
                      checks
                        [check_all (\<lambda>name. require (map_of object name \<noteq> None)
                           (ValidationFailed ''missing required field'' name)) (required_names s),
                         check_all (\<lambda>(name, child).
                           case property_schema s name of
                             Some ps \<Rightarrow> validate_schema_node no ps child (path @ lit ''.'' @ name) (depth + 1)
                           | None \<Rightarrow> require (additional_allowed s) (ValidationFailed ''contains unknown field'' name)) object]),
                 (case (v_get ''items'' s, v_as_array value) of
                    (Some items_schema, Some array) \<Rightarrow>
                      check_all (\<lambda>(index, child). validate_schema_node no items_schema child
                        (path @ lit ''['' @ utf8_chars (dec index) @ lit '']'') (depth + 1)) (enumerate 0 array)
                  | _ \<Rightarrow> Inr ())]))"
  by pat_completeness auto
termination
  by (relation "measure (\<lambda>(no, schema, value, path, depth). Suc MAX_SCHEMA_DEPTH - depth)") auto

declare validate_schema_node.simps [simp del]

definition validate_plugin_config :: "'n num_ops \<Rightarrow> 'n jvalue \<Rightarrow> 'n jvalue \<Rightarrow> plugin_error + unit" where
  "validate_plugin_config no schema config =
    (case validate_schema_definition no schema (lit ''$'') 0 of
       Inl e \<Rightarrow> Inl e
     | Inr u \<Rightarrow> validate_schema_node no schema config (lit ''$'') 0)"

section \<open>Manifests\<close>

definition validate_plugin_manifest :: "'n plugin_json \<Rightarrow> 'n plugin_manifest \<Rightarrow> plugin_error + unit" where
  "validate_plugin_manifest pj m =
    checks
      [validate_plugin_identifier ''plugin id'' (m_id m) 128,
       validate_text ''plugin name'' (m_name m) 256,
       validate_text ''plugin description'' (m_description m) (8 * 1024),
       validate_text ''plugin author'' (m_author m) 256,
       (case m_subscribes_to m of
          None \<Rightarrow> Inr ()
        | Some subs \<Rightarrow> require (length subs \<le> 32) (LimitExceeded ''plugin declares too many event subscriptions'' [])),
       (case m_config m of
          None \<Rightarrow> Inr ()
        | Some config \<Rightarrow>
            (case pj_schema_len pj config of
               None \<Rightarrow> Inl (ValidationFailed ''plugin config schema is not serializable'' [])
             | Some len \<Rightarrow>
                 checks
                   [require (len \<le> MAX_PLUGIN_CONFIG_BYTES) (LimitExceeded ''plugin config schema exceeds 256 KiB'' []),
                    validate_schema_definition (pj_num pj) (cs_schema config) (lit ''$'') 0,
                    validate_plugin_config (pj_num pj) (cs_schema config) (cs_defaults config)])),
       (case m_subscribes_to m of
          None \<Rightarrow> Inr ()
        | Some subs \<Rightarrow>
            (case pj_events_len pj subs of
               None \<Rightarrow> Inl (ValidationFailed ''plugin subscriptions are not serializable'' [])
             | Some len \<Rightarrow> require (len \<le> MAX_PLUGIN_EVENT_BYTES) (LimitExceeded ''plugin subscription declaration exceeds 256 KiB'' []))),
       (case m_install m of None \<Rightarrow> Inr () | Some install \<Rightarrow> validate_plugin_install_method install),
       (case m_mcp_config m of
          None \<Rightarrow> Inr ()
        | Some mc \<Rightarrow>
            checks
              [validate_mcp_command (mc_command mc), validate_mcp_args (mc_args mc),
               (case mc_env mc of Some env \<Rightarrow> validate_mcp_env env | None \<Rightarrow> Inr ())])]"

end
