(* ===== verification/Plugin_Manager.thy ===== *)
theory Plugin_Manager
  imports Plugin_Validation "HOL-Library.AList"
begin

text \<open>
  \<open>crates/athena-plugins/src\<close>, \<open>lifecycle.rs\<close> and \<open>runtime.rs\<close> with the state of \<open>lib.rs\<close>: the
  registry of plugins, their sessions, event subscriptions and pending messages. All of it is behind one
  mutex, so each operation is one atomic step. Hash maps are association lists; the code does
  not rely on their order. The calls to the host's callbacks and the events
  for the renderer, which it gets when an emitter is installed, are returned in order. The clock and
  fresh UUIDs are arguments.
\<close>

section \<open>State\<close>

datatype plugin_status = PsInstalled | PsEnabled | PsDisabled | PsError

datatype session_status = SsActive | SsIdle | SsWaitingInput | SsDisconnected

datatype agent_type =
    AtClaude | AtCodex | AtOpencode | AtGemini | AtQwen | AtAider | AtCursor | AtFreebuff | AtOmp | AtCustom | AtShell

record 'n plugin_entry =
  en_manifest :: "'n plugin_manifest"
  en_status :: plugin_status
  en_installed_at :: int
  en_last_enabled_at :: "int option"
  en_config :: "'n jvalue"
  en_error :: "ustr option"

record 'n plugin_info =
  pn_id :: ustr
  pn_name :: ustr
  pn_version :: ustr
  pn_description :: ustr
  pn_author :: ustr
  pn_status :: plugin_status
  pn_config :: "'n jvalue"
  pn_error :: "ustr option"

record plugin_session =
  px_id :: ustr
  px_plugin_id :: ustr
  px_agent_type :: agent_type
  px_agent_id :: ustr
  px_pane_id :: "ustr option"
  px_capabilities :: "plugin_capability list"
  px_connected_at :: int
  px_last_activity_at :: int
  px_status :: session_status

record 'n pending_message =
  pg_id :: ustr
  pg_session_id :: ustr
  pg_method :: ustr
  pg_params :: "'n jvalue"
  pg_sent_at :: int

record 'n plugin_inner =
  pi_plugins :: "(ustr \<times> 'n plugin_entry) list"
  pi_sessions :: "(ustr \<times> plugin_session) list"
  pi_subscriptions :: "(plugin_event_type \<times> ustr list) list"
  pi_pending :: "(ustr \<times> 'n pending_message) list"
  pi_stall_timeout :: int
  pi_last_health_check :: "int option"

datatype 'n plugin_callback =
    OnSessionRegistered plugin_session
  | OnSessionRemoved ustr ustr
  | OnSessionStatus ustr ustr session_status "'n jvalue option"
  | OnRegistryUpdated "(ustr \<times> 'n plugin_info) list"
  | OnRegistered ustr ustr
  | OnEnabled ustr ustr
  | OnDisabled ustr
  | OnError ustr ustr
  | OnConfigured ustr "'n jvalue"
  | EmitEvent string "'n jvalue"

definition MAX_PLUGIN_SESSIONS :: nat where
  "MAX_PLUGIN_SESSIONS = 256"

definition MAX_PLUGINS :: nat where
  "MAX_PLUGINS = 64"

definition MAX_SESSION_SUBSCRIPTIONS :: nat where
  "MAX_SESSION_SUBSCRIPTIONS = 32"

definition MAX_PENDING_PLUGIN_MESSAGES :: nat where
  "MAX_PENDING_PLUGIN_MESSAGES = 1024"

definition PENDING_PLUGIN_MESSAGE_TTL :: int where
  "PENDING_PLUGIN_MESSAGE_TTL = 300 * 1000"

definition plugin_manager_new :: "'n plugin_inner" where
  "plugin_manager_new =
    \<lparr>pi_plugins = [], pi_sessions = [], pi_subscriptions = [], pi_pending = [], pi_stall_timeout = 90 * 1000,
     pi_last_health_check = None\<rparr>"

definition set_stall_timeout :: "int \<Rightarrow> 'n plugin_inner \<Rightarrow> 'n plugin_inner" where
  "set_stall_timeout timeout st = st\<lparr>pi_stall_timeout := max timeout 1000\<rparr>"

definition plugin_info_of :: "'n plugin_entry \<Rightarrow> 'n plugin_info" where
  "plugin_info_of e =
    \<lparr>pn_id = m_id (en_manifest e), pn_name = m_name (en_manifest e), pn_version = m_version (en_manifest e),
     pn_description = m_description (en_manifest e), pn_author = m_author (en_manifest e), pn_status = en_status e,
     pn_config = en_config e, pn_error = en_error e\<rparr>"

definition build_registry_info :: "'n plugin_inner \<Rightarrow> (ustr \<times> 'n plugin_info) list" where
  "build_registry_info st = map (\<lambda>(k, e). (m_id (en_manifest e), plugin_info_of e)) (pi_plugins st)"

text \<open>
  The objects sent to the renderer, their keys in the order of \<open>serde_json\<close>'s sorted maps.
\<close>

fun plugin_status_str :: "plugin_status \<Rightarrow> string" where
  "plugin_status_str PsInstalled = ''installed''"
| "plugin_status_str PsEnabled = ''enabled''"
| "plugin_status_str PsDisabled = ''disabled''"
| "plugin_status_str PsError = ''error''"

definition info_json :: "'n plugin_info \<Rightarrow> 'n jvalue" where
  "info_json i = VObject
    [(lit ''author'', VString (pn_author i)), (lit ''config'', pn_config i), (lit ''description'', VString (pn_description i)),
     (lit ''error'', case pn_error i of Some e \<Rightarrow> VString e | None \<Rightarrow> VNull), (lit ''id'', VString (pn_id i)),
     (lit ''name'', VString (pn_name i)), (lit ''status'', VString (lit (plugin_status_str (pn_status i)))),
     (lit ''version'', VString (pn_version i))]"

definition named_json :: "ustr \<Rightarrow> ustr \<Rightarrow> 'n jvalue" where
  "named_json plugin_id name = VObject [(lit ''name'', VString name), (lit ''pluginId'', VString plugin_id)]"

definition registry_update :: "'n plugin_inner \<Rightarrow> 'n plugin_callback list" where
  "registry_update st =
    [OnRegistryUpdated (build_registry_info st),
     EmitEvent ''plugin:registryUpdated'' (VObject [(lit ''registry'', VArray (map (info_json \<circ> snd) (build_registry_info st)))])]"

fun default_capabilities :: "agent_type \<Rightarrow> plugin_capability list" where
  "default_capabilities AtCustom = [CNotifications, CStatus]"
| "default_capabilities AtShell = [CNotifications, CStatus]"
| "default_capabilities _ = [CNotifications, CStatus, CTasks, CUserInput]"

definition scoped_capabilities_with_manifest ::
  "agent_type \<Rightarrow> plugin_capability list option \<Rightarrow> plugin_capability list option \<Rightarrow> plugin_capability list" where
  "scoped_capabilities_with_manifest agent_type requested declared =
    (let allowed = (case declared of
           Some d \<Rightarrow> filter (\<lambda>c. c \<in> set d) (default_capabilities agent_type)
         | None \<Rightarrow> default_capabilities agent_type)
     in case requested of
          Some req \<Rightarrow> filter (\<lambda>c. c \<in> set allowed) req
        | None \<Rightarrow> allowed)"

section \<open>Lifecycle\<close>

definition register_plugin ::
  "'n plugin_json \<Rightarrow> int \<Rightarrow> 'n plugin_manifest \<Rightarrow> 'n plugin_inner \<Rightarrow>
    'n plugin_inner \<times> (plugin_error + ustr) \<times> 'n plugin_callback list" where
  "register_plugin pj now manifest st =
    (case validate_plugin_manifest pj manifest of
       Inl e \<Rightarrow> (st, Inl e, [])
     | Inr u \<Rightarrow>
         let i = m_id manifest;
             preserved = (case map_of (pi_plugins st) i of
                 Some existing \<Rightarrow>
                   if en_status existing \<noteq> PsDisabled then Inl (AlreadyRegistered i) else Inr (en_config existing)
               | None \<Rightarrow>
                   if MAX_PLUGINS \<le> length (pi_plugins st)
                   then Inl (LimitExceeded ''maximum registered plugin count reached'' [])
                   else Inr (VObject []))
         in case preserved of
              Inl e \<Rightarrow> (st, Inl e, [])
            | Inr config \<Rightarrow>
                let entry = \<lparr>en_manifest = manifest, en_status = PsInstalled, en_installed_at = now,
                             en_last_enabled_at = None, en_config = config, en_error = None\<rparr>;
                    st' = st\<lparr>pi_plugins := AList.update i entry (pi_plugins st)\<rparr>
                in (st', Inr i, [OnRegistered i (m_name manifest)] @ registry_update st' @ [EmitEvent ''plugin:registered'' (named_json i (m_name manifest))]))"

text \<open>Taking a session out of the three maps that mention it.\<close>

definition forget_session :: "ustr \<Rightarrow> 'n plugin_inner \<Rightarrow> 'n plugin_inner" where
  "forget_session sid st =
    st\<lparr>pi_sessions := AList.delete sid (pi_sessions st),
       pi_subscriptions := map (\<lambda>(ev, ids). (ev, removeAll sid ids)) (pi_subscriptions st),
       pi_pending := filter (\<lambda>(k, msg). pg_session_id msg \<noteq> sid) (pi_pending st)\<rparr>"

definition sessions_of :: "ustr \<Rightarrow> 'n plugin_inner \<Rightarrow> (ustr \<times> ustr) list" where
  "sessions_of plugin_id st =
    map (\<lambda>(i, s). (i, px_agent_id s)) (filter (\<lambda>(i, s). px_plugin_id s = plugin_id) (pi_sessions st))"

definition forget_sessions :: "(ustr \<times> ustr) list \<Rightarrow> 'n plugin_inner \<Rightarrow> 'n plugin_inner" where
  "forget_sessions removed st = fold (\<lambda>(sid, agent). forget_session sid) removed st"

definition unregister_plugin ::
  "ustr \<Rightarrow> 'n plugin_inner \<Rightarrow> 'n plugin_inner \<times> (plugin_error + unit) \<times> 'n plugin_callback list" where
  "unregister_plugin plugin_id st =
    (case map_of (pi_plugins st) plugin_id of
       None \<Rightarrow> (st, Inl (PluginNotFound plugin_id), [])
     | Some e \<Rightarrow>
         let removed = sessions_of plugin_id st;
             st1 = forget_sessions removed st;
             st2 = st1\<lparr>pi_plugins := AList.delete plugin_id (pi_plugins st1)\<rparr>
         in (st2, Inr (),
             map (\<lambda>(sid, agent). OnSessionRemoved sid agent) removed @
             (if en_status e = PsEnabled then [OnDisabled plugin_id] else []) @ registry_update st2))"

definition enable_plugin ::
  "int \<Rightarrow> ustr \<Rightarrow> 'n plugin_inner \<Rightarrow> 'n plugin_inner \<times> (plugin_error + unit) \<times> 'n plugin_callback list" where
  "enable_plugin now plugin_id st =
    (case map_of (pi_plugins st) plugin_id of
       None \<Rightarrow> (st, Inl (PluginNotFound plugin_id), [])
     | Some e \<Rightarrow>
         if en_status e = PsEnabled then (st, Inr (), [])
         else
           let e' = e\<lparr>en_status := PsEnabled, en_last_enabled_at := Some now, en_error := None\<rparr>;
               st' = st\<lparr>pi_plugins := AList.update plugin_id e' (pi_plugins st)\<rparr>
           in (st', Inr (), [OnEnabled plugin_id (m_name (en_manifest e))] @ registry_update st' @
               [EmitEvent ''plugin:enabled'' (named_json plugin_id (m_name (en_manifest e)))]))"

definition disable_plugin ::
  "ustr \<Rightarrow> 'n plugin_inner \<Rightarrow> 'n plugin_inner \<times> (plugin_error + unit) \<times> 'n plugin_callback list" where
  "disable_plugin plugin_id st =
    (case map_of (pi_plugins st) plugin_id of
       None \<Rightarrow> (st, Inl (PluginNotFound plugin_id), [])
     | Some e \<Rightarrow>
         if en_status e = PsDisabled then (st, Inr (), [])
         else
           let st1 = st\<lparr>pi_plugins := AList.update plugin_id (e\<lparr>en_status := PsDisabled\<rparr>) (pi_plugins st)\<rparr>;
               removed = sessions_of plugin_id st1;
               st2 = forget_sessions removed st1
           in (st2, Inr (),
               map (\<lambda>(sid, agent). OnSessionRemoved sid agent) removed @
               (if en_status e = PsEnabled then [OnDisabled plugin_id, EmitEvent ''plugin:disabled'' (VObject [(lit ''pluginId'', VString plugin_id)])] else []) @
               registry_update st2))"

definition set_plugin_error ::
  "ustr \<Rightarrow> ustr \<Rightarrow> 'n plugin_inner \<Rightarrow> 'n plugin_inner \<times> (plugin_error + unit) \<times> 'n plugin_callback list" where
  "set_plugin_error plugin_id err st =
    (case map_of (pi_plugins st) plugin_id of
       None \<Rightarrow> (st, Inl (PluginNotFound plugin_id), [])
     | Some e \<Rightarrow>
         let st' = st\<lparr>pi_plugins := AList.update plugin_id (e\<lparr>en_status := PsError, en_error := Some err\<rparr>) (pi_plugins st)\<rparr>
         in (st', Inr (), [OnError plugin_id err] @ registry_update st' @ [EmitEvent ''plugin:error'' (VObject [(lit ''error'', VString err), (lit ''pluginId'', VString plugin_id)])]))"

definition list_plugins :: "'n plugin_inner \<Rightarrow> 'n plugin_info list" where
  "list_plugins st = map (\<lambda>(k, e). plugin_info_of e) (pi_plugins st)"

definition get_plugin :: "ustr \<Rightarrow> 'n plugin_inner \<Rightarrow> 'n plugin_entry option" where
  "get_plugin plugin_id st = map_of (pi_plugins st) plugin_id"

definition get_plugin_info :: "ustr \<Rightarrow> 'n plugin_inner \<Rightarrow> 'n plugin_info option" where
  "get_plugin_info plugin_id st = map_option plugin_info_of (map_of (pi_plugins st) plugin_id)"

definition get_enabled_plugins :: "'n plugin_inner \<Rightarrow> 'n plugin_entry list" where
  "get_enabled_plugins st = filter (\<lambda>e. en_status e = PsEnabled) (map snd (pi_plugins st))"

definition get_plugin_config :: "ustr \<Rightarrow> 'n plugin_inner \<Rightarrow> 'n jvalue option" where
  "get_plugin_config plugin_id st = map_option en_config (map_of (pi_plugins st) plugin_id)"

text \<open>Merging a configuration: objects key by key, anything else replaces.\<close>

fun merge_config :: "'n jvalue \<Rightarrow> 'n jvalue \<Rightarrow> 'n jvalue" where
  "merge_config (VObject old) (VObject new) = VObject (fold (\<lambda>(k, v). obj_insert k v) new old)"
| "merge_config old new = new"

definition len_over :: "nat option \<Rightarrow> nat \<Rightarrow> bool" where
  "len_over len bound \<longleftrightarrow> (case len of Some n \<Rightarrow> bound < n | None \<Rightarrow> True)"

definition set_plugin_config ::
  "'n plugin_json \<Rightarrow> ustr \<Rightarrow> 'n jvalue \<Rightarrow> 'n plugin_inner \<Rightarrow>
    'n plugin_inner \<times> (plugin_error + unit) \<times> 'n plugin_callback list" where
  "set_plugin_config pj plugin_id config st =
    (if len_over (pj_value_len pj config) MAX_PLUGIN_CONFIG_BYTES
     then (st, Inl (LimitExceeded ''plugin configuration exceeds 256 KiB'' []), [])
     else case map_of (pi_plugins st) plugin_id of
       None \<Rightarrow> (st, Inl (PluginNotFound plugin_id), [])
     | Some e \<Rightarrow>
         let merged = merge_config (en_config e) config
         in if len_over (pj_value_len pj merged) MAX_PLUGIN_CONFIG_BYTES
            then (st, Inl (LimitExceeded ''plugin configuration exceeds 256 KiB'' []), [])
            else (case (case m_config (en_manifest e) of
                          Some cs \<Rightarrow> validate_plugin_config (pj_num pj) (cs_schema cs) merged
                        | None \<Rightarrow> Inr ()) of
                    Inl err \<Rightarrow> (st, Inl err, [])
                  | Inr u \<Rightarrow>
                      let st' = st\<lparr>pi_plugins := AList.update plugin_id (e\<lparr>en_config := merged\<rparr>) (pi_plugins st)\<rparr>
                      in (st', Inr (), [OnConfigured plugin_id merged] @ registry_update st')))"

section \<open>Sessions\<close>

definition dead_status :: "plugin_status \<Rightarrow> bool" where
  "dead_status s \<longleftrightarrow> s = PsDisabled \<or> s = PsError"

definition register_session ::
  "int \<Rightarrow> ustr \<Rightarrow> ustr \<Rightarrow> agent_type \<Rightarrow> ustr option \<Rightarrow> ustr option \<Rightarrow> plugin_capability list option \<Rightarrow>
    'n plugin_inner \<Rightarrow> 'n plugin_inner \<times> (plugin_error + plugin_session) \<times> 'n plugin_callback list" where
  "register_session now uuid plugin_id agent_type agent_id pane_id requested st =
    (case map_of (pi_plugins st) plugin_id of
       None \<Rightarrow> (st, Inl (PluginNotFound plugin_id), [])
     | Some e \<Rightarrow>
         if dead_status (en_status e)
         then (st, Inl (ValidationFailed ''plugin is disabled or in an error state'' []), [])
         else if MAX_PLUGIN_SESSIONS \<le> length (pi_sessions st)
         then (st, Inl (LimitExceeded ''maximum plugin session count reached'' []), [])
         else
           let session = \<lparr>px_id = uuid, px_plugin_id = plugin_id, px_agent_type = agent_type,
                 px_agent_id = (case agent_id of Some a \<Rightarrow> a | None \<Rightarrow> lit ''agent-'' @ take (min 8 (length uuid)) uuid),
                 px_pane_id = pane_id,
                 px_capabilities = scoped_capabilities_with_manifest agent_type requested (Some (m_capabilities (en_manifest e))),
                 px_connected_at = now, px_last_activity_at = now, px_status = SsActive\<rparr>
           in (st\<lparr>pi_sessions := AList.update uuid session (pi_sessions st)\<rparr>, Inr session, [OnSessionRegistered session]))"

definition get_session :: "ustr \<Rightarrow> 'n plugin_inner \<Rightarrow> plugin_session option" where
  "get_session sid st = map_of (pi_sessions st) sid"

definition get_session_by_agent_id :: "ustr \<Rightarrow> 'n plugin_inner \<Rightarrow> plugin_session option" where
  "get_session_by_agent_id agent_id st = find (\<lambda>s. px_agent_id s = agent_id) (map snd (pi_sessions st))"

definition list_sessions :: "'n plugin_inner \<Rightarrow> plugin_session list" where
  "list_sessions st = map snd (pi_sessions st)"

definition foreign :: "ustr option \<Rightarrow> plugin_session \<Rightarrow> bool" where
  "foreign owner s \<longleftrightarrow> (case owner of Some plugin_id \<Rightarrow> px_plugin_id s \<noteq> plugin_id | None \<Rightarrow> False)"

definition remove_session_impl ::
  "ustr option \<Rightarrow> ustr \<Rightarrow> 'n plugin_inner \<Rightarrow> 'n plugin_inner \<times> (plugin_error + unit) \<times> 'n plugin_callback list" where
  "remove_session_impl owner sid st =
    (case map_of (pi_sessions st) sid of
       None \<Rightarrow> (st, Inl (SessionNotFound sid), [])
     | Some s \<Rightarrow>
         if foreign owner s then (st, Inl (SessionOwnership sid (the owner)), [])
         else (forget_session sid st, Inr (), [OnSessionRemoved sid (px_agent_id s)]))"

text \<open>\<open>entry(event_type).or_insert_with(HashSet::new).insert(session_id)\<close>.\<close>

definition add_subscriber :: "ustr \<Rightarrow> plugin_event_type \<Rightarrow> (plugin_event_type \<times> ustr list) list \<Rightarrow> (plugin_event_type \<times> ustr list) list" where
  "add_subscriber sid ev subs =
    AList.update ev (List.insert sid (case map_of subs ev of Some ids \<Rightarrow> ids | None \<Rightarrow> [])) subs"

definition subscribe_session_impl ::
  "ustr option \<Rightarrow> ustr \<Rightarrow> plugin_event_type list \<Rightarrow> 'n plugin_inner \<Rightarrow> 'n plugin_inner \<times> (plugin_error + unit)" where
  "subscribe_session_impl owner sid event_types st =
    (if MAX_SESSION_SUBSCRIPTIONS < length event_types then (st, Inl (LimitExceeded ''too many event subscriptions'' []))
     else case map_of (pi_sessions st) sid of
       None \<Rightarrow> (st, Inl (SessionNotFound sid))
     | Some s \<Rightarrow>
         if foreign owner s then (st, Inl (SessionOwnership sid (the owner)))
         else (case map_of (pi_plugins st) (px_plugin_id s) of
             None \<Rightarrow> (st, Inl (PluginNotFound (px_plugin_id s)))
           | Some e \<Rightarrow>
               if dead_status (en_status e) then (st, Inl (ValidationFailed ''plugin is disabled or in an error state'' []))
               else if (case m_subscribes_to (en_manifest e) of
                          Some declared \<Rightarrow> list_ex (\<lambda>ev. ev \<notin> set declared) event_types
                        | None \<Rightarrow> False)
               then (st, Inl (ValidationFailed ''event subscription is not declared by the plugin'' []))
               else (st\<lparr>pi_subscriptions := fold (add_subscriber sid) event_types (pi_subscriptions st)\<rparr>, Inr ())))"

text \<open>\<open>i64::saturating_sub\<close>.\<close>

definition sat_sub_ms :: "int \<Rightarrow> int \<Rightarrow> int" where
  "sat_sub_ms a b = max (- (2 ^ 63)) (min (2 ^ 63 - 1) (a - b))"

definition purge_expired_pending :: "int \<Rightarrow> 'n plugin_inner \<Rightarrow> 'n plugin_inner" where
  "purge_expired_pending now st =
    st\<lparr>pi_pending := filter (\<lambda>(k, msg). sat_sub_ms now (pg_sent_at msg) \<le> PENDING_PLUGIN_MESSAGE_TTL) (pi_pending st)\<rparr>"

definition send_message_impl ::
  "'n plugin_json \<Rightarrow> ustr option \<Rightarrow> int \<Rightarrow> ustr \<Rightarrow> ustr \<Rightarrow> ustr \<Rightarrow> 'n jvalue \<Rightarrow> 'n plugin_inner \<Rightarrow>
    'n plugin_inner \<times> (plugin_error + 'n pending_message)" where
  "send_message_impl pj owner now uuid sid meth params st =
    (if 256 < length (utf8_string meth) then (st, Inl (LimitExceeded ''plugin message method is too long'' []))
     else if len_over (pj_value_len pj params) MAX_PLUGIN_EVENT_BYTES
     then (st, Inl (LimitExceeded ''plugin message parameters exceed 256 KiB'' []))
     else
       let st1 = purge_expired_pending now st
       in if MAX_PENDING_PLUGIN_MESSAGES \<le> length (pi_pending st1)
          then (st1, Inl (LimitExceeded ''maximum pending plugin message count reached'' []))
          else (case map_of (pi_sessions st1) sid of
              None \<Rightarrow> (st1, Inl (SessionNotFound sid))
            | Some s \<Rightarrow>
                if foreign owner s then (st1, Inl (SessionOwnership sid (the owner)))
                else (case map_of (pi_plugins st1) (px_plugin_id s) of
                    None \<Rightarrow> (st1, Inl (PluginNotFound (px_plugin_id s)))
                  | Some e \<Rightarrow>
                      if dead_status (en_status e)
                      then (st1, Inl (ValidationFailed ''plugin is disabled or in an error state'' []))
                      else if px_status s = SsDisconnected then (st1, Inl (SessionNotFound sid))
                      else
                        let message = \<lparr>pg_id = lit ''msg-'' @ uuid, pg_session_id = sid, pg_method = meth, pg_params = params,
                              pg_sent_at = now\<rparr>
                        in (st1\<lparr>pi_sessions := AList.update sid (s\<lparr>px_last_activity_at := now\<rparr>) (pi_sessions st1),
                               pi_pending := AList.update (pg_id message) message (pi_pending st1)\<rparr>, Inr message))))"

definition update_session_status ::
  "int \<Rightarrow> ustr \<Rightarrow> session_status \<Rightarrow> 'n jvalue option \<Rightarrow> 'n plugin_inner \<Rightarrow>
    'n plugin_inner \<times> (plugin_error + unit) \<times> 'n plugin_callback list" where
  "update_session_status now sid status data st =
    (case map_of (pi_sessions st) sid of
       None \<Rightarrow> (st, Inl (SessionNotFound sid), [])
     | Some s \<Rightarrow>
         (st\<lparr>pi_sessions := AList.update sid (s\<lparr>px_status := status, px_last_activity_at := now\<rparr>) (pi_sessions st)\<rparr>,
          Inr (), [OnSessionStatus sid (px_agent_id s) status data]))"

definition get_subscribers :: "plugin_event_type \<Rightarrow> 'n plugin_inner \<Rightarrow> plugin_session list" where
  "get_subscribers ev st =
    (case map_of (pi_subscriptions st) ev of
       None \<Rightarrow> []
     | Some ids \<Rightarrow>
         List.map_filter (\<lambda>i. case map_of (pi_sessions st) i of
             Some s \<Rightarrow> if px_status s \<noteq> SsDisconnected then Some s else None
           | None \<Rightarrow> None) ids)"

definition remove_pending_message :: "ustr \<Rightarrow> 'n plugin_inner \<Rightarrow> 'n plugin_inner \<times> 'n pending_message option" where
  "remove_pending_message mid st =
    (case map_of (pi_pending st) mid of
       None \<Rightarrow> (st, None)
     | Some msg \<Rightarrow>
         (st\<lparr>pi_pending := AList.delete mid (pi_pending st)\<rparr>,
          if map_of (pi_sessions st) (pg_session_id msg) = None then None else Some msg))"

definition complete_message_owned ::
  "ustr \<Rightarrow> ustr \<Rightarrow> 'n plugin_inner \<Rightarrow> 'n plugin_inner \<times> (plugin_error + 'n pending_message option)" where
  "complete_message_owned plugin_id mid st =
    (case Option.bind (map_of (pi_pending st) mid) (\<lambda>msg. map_of (pi_sessions st) (pg_session_id msg)) of
       Some s \<Rightarrow>
         if px_plugin_id s \<noteq> plugin_id then (st, Inl (SessionOwnership (px_id s) plugin_id))
         else (case remove_pending_message mid st of (st', r) \<Rightarrow> (st', Inr r))
     | None \<Rightarrow> (case remove_pending_message mid st of (st', r) \<Rightarrow> (st', Inr r)))"

definition get_pending_messages :: "int \<Rightarrow> ustr \<Rightarrow> 'n plugin_inner \<Rightarrow> 'n plugin_inner \<times> 'n pending_message list" where
  "get_pending_messages now sid st =
    (let st' = purge_expired_pending now st
     in (st', filter (\<lambda>m. pg_session_id m = sid) (map snd (pi_pending st'))))"

section \<open>Health check\<close>

record health_check_result =
  hc_checked_at :: int
  hc_total :: nat
  hc_active :: nat
  hc_idle :: nat
  hc_stalled :: nat
  hc_disconnected :: nat
  hc_stalled_ids :: "ustr list"

definition check_session :: "int \<Rightarrow> int \<Rightarrow> ustr \<times> plugin_session \<Rightarrow>
    (ustr \<times> plugin_session) list \<times> health_check_result \<Rightarrow> (ustr \<times> plugin_session) list \<times> health_check_result" where
  "check_session now timeout entry acc =
    (case (entry, acc) of ((k, s), (out, h)) \<Rightarrow>
       (case px_status s of
          SsDisconnected \<Rightarrow> (out @ [(k, s)], h\<lparr>hc_disconnected := hc_disconnected h + 1\<rparr>)
        | SsWaitingInput \<Rightarrow> (out @ [(k, s)], h\<lparr>hc_active := hc_active h + 1\<rparr>)
        | _ \<Rightarrow>
            if px_status s = SsActive \<and> timeout < sat_sub_ms now (px_last_activity_at s)
            then (out @ [(k, s\<lparr>px_status := SsIdle\<rparr>)],
                  h\<lparr>hc_stalled := hc_stalled h + 1, hc_stalled_ids := hc_stalled_ids h @ [px_id s]\<rparr>)
            else if px_status s = SsActive then (out @ [(k, s)], h\<lparr>hc_active := hc_active h + 1\<rparr>)
            else (out @ [(k, s)], h\<lparr>hc_idle := hc_idle h + 1\<rparr>)))"

definition health_check ::
  "int \<Rightarrow> 'n plugin_inner \<Rightarrow> 'n plugin_inner \<times> health_check_result \<times> 'n plugin_callback list" where
  "health_check now st =
    (let st1 = purge_expired_pending now st;
         h0 = \<lparr>hc_checked_at = now, hc_total = length (pi_sessions st1), hc_active = 0, hc_idle = 0, hc_stalled = 0,
               hc_disconnected = 0, hc_stalled_ids = []\<rparr>;
         (sessions, h) = fold (check_session now (pi_stall_timeout st1)) (pi_sessions st1) ([], h0)
     in (st1\<lparr>pi_sessions := sessions, pi_last_health_check := Some now\<rparr>, h,
         map (\<lambda>(k, s). OnSessionStatus (px_id s) (px_agent_id s) SsIdle (Some (VObject [(lit ''reason'', VString (lit ''stalled''))])))
           (filter (\<lambda>(k, s). k \<in> set (hc_stalled_ids h)) sessions)))"

end
