(* ===== verification/Plugin_Schema.thy ===== *)
theory Plugin_Schema
  imports Plugin_Validation
begin

text \<open>
  What the validation of plugin manifests and configurations establishes: acceptance by the schema
  validator is conformance to the schema, and an accepted manifest cannot name
  anything to run but a listed command, or a script below the plugin's directory.
\<close>

section \<open>Conformance\<close>

text \<open>
  The meaning of the supported subset of JSON Schema, without depth limit or error reporting: one
  clause per keyword, recursive in the value.
\<close>

definition keyword_clauses :: "'n num_ops \<Rightarrow> (ustr \<times> 'n jvalue) list \<Rightarrow> 'n jvalue \<Rightarrow> bool" where
  "keyword_clauses no s vl \<longleftrightarrow>
    (\<forall>t. v_get ''type'' s = Some t \<longrightarrow> type_matches no t vl) \<and>
    (\<forall>vs. v_get ''enum'' s = Some (VArray vs) \<longrightarrow> vl \<in> set vs) \<and>
    (\<forall>c. v_get ''const'' s = Some c \<longrightarrow> c = vl) \<and>
    (\<forall>str n k. vl = VString str \<and> v_get ''minLength'' s = Some (VNumber n) \<and> no_u64 no n = Some k \<longrightarrow> k \<le> length str) \<and>
    (\<forall>str n k. vl = VString str \<and> v_get ''maxLength'' s = Some (VNumber n) \<and> no_u64 no n = Some k \<longrightarrow> length str \<le> k) \<and>
    (\<forall>x n m y. vl = VNumber x \<and> no_f64 no x = Some y \<and> v_get ''minimum'' s = Some (VNumber n) \<and> no_f64 no n = Some m \<longrightarrow> m \<le> y) \<and>
    (\<forall>x n m y. vl = VNumber x \<and> no_f64 no x = Some y \<and> v_get ''maximum'' s = Some (VNumber n) \<and> no_f64 no n = Some m \<longrightarrow> y \<le> m)"

lemma size_member: "f \<in> set m \<Longrightarrow> size (snd f) < size (VObject m)"
  by (cases f) (auto intro!: size_list_estimation' [of f] le_imp_less_Suc)

lemma size_elem: "v \<in> set xs \<Longrightarrow> size v < size (VArray xs)"
  by (auto intro!: size_list_estimation' [of v] le_imp_less_Suc)

function conforms :: "'n num_ops \<Rightarrow> 'n jvalue \<Rightarrow> 'n jvalue \<Rightarrow> bool" where
  "conforms no schema vl =
    (case schema of
       VBool b \<Rightarrow> b
     | VObject s \<Rightarrow>
         keyword_clauses no s vl \<and>
         (case vl of
            VObject members \<Rightarrow>
              set (required_names s) \<subseteq> fst ` set members \<and>
              list_all (\<lambda>f. case property_schema s (fst f) of
                Some ps \<Rightarrow> conforms no ps (snd f) | None \<Rightarrow> additional_allowed s) members
          | VArray elems \<Rightarrow>
              (case v_get ''items'' s of Some items \<Rightarrow> list_all (conforms no items) elems | None \<Rightarrow> True)
          | _ \<Rightarrow> True)
     | _ \<Rightarrow> False)"
  by pat_completeness auto
termination
  by (relation "measure (\<lambda>(no, schema, vl). size vl)") (auto dest: size_member size_elem)

declare conforms.simps [simp del]

text \<open>The depth of a value, and the checks of one node as the clauses.\<close>

fun v_depth :: "'n jvalue \<Rightarrow> nat" where
  "v_depth (VArray xs) = Suc (fold max (map v_depth xs) 0)"
| "v_depth (VObject m) = Suc (fold max (map (\<lambda>(k, v). v_depth v) m) 0)"
| "v_depth _ = 0"

lemma le_fold_max: "n \<in> set ns \<or> n \<le> a \<Longrightarrow> (n :: nat) \<le> fold max ns a"
proof (induction ns arbitrary: a)
  case (Cons m ns)
  show ?case using Cons.IH [of "max m a"] Cons.prems by (auto simp: le_max_iff_disj)
qed simp

lemma v_depth_field: "(k, v) \<in> set m \<Longrightarrow> v_depth v < v_depth (VObject m)"
  using le_fold_max [of "v_depth v" "map (\<lambda>(k, v). v_depth v) m" 0] by (force intro!: le_imp_less_Suc)

lemma v_depth_elem: "v \<in> set xs \<Longrightarrow> v_depth v < v_depth (VArray xs)"
  using le_fold_max [of "v_depth v" "map v_depth xs" 0] by (simp add: le_imp_less_Suc)

lemma bind_array: "Option.bind x v_as_array = Some vs \<longleftrightarrow> x = Some (VArray vs)"
proof (cases x)
  case (Some v)
  then show ?thesis by (cases v) auto
qed simp

lemma bind_u64: "Option.bind x (v_as_u64 no) = Some k \<longleftrightarrow> (\<exists>n. x = Some (VNumber n) \<and> no_u64 no n = Some k)"
proof (cases x)
  case (Some v)
  then show ?thesis by (cases v) auto
qed simp

lemma bind_f64: "Option.bind x (v_as_f64 no) = Some k \<longleftrightarrow> (\<exists>n. x = Some (VNumber n) \<and> no_f64 no n = Some k)"
proof (cases x)
  case (Some v)
  then show ?thesis by (cases v) auto
qed simp

lemma case_option_ok: "(case x of None \<Rightarrow> Inr () | Some y \<Rightarrow> require (P y) (e y)) = Inr () \<longleftrightarrow> (\<forall>y. x = Some y \<longrightarrow> P y)"
  by (cases x) auto

lemma node_clauses:
  "check_node_type no s vl path = Inr () \<and> check_node_string no s vl path = Inr () \<and>
    check_node_number no s vl path = Inr () \<longleftrightarrow> keyword_clauses no s vl"
proof -
  have t: "check_node_type no s vl path = Inr () \<longleftrightarrow>
      (\<forall>t. v_get ''type'' s = Some t \<longrightarrow> type_matches no t vl) \<and>
      (\<forall>vs. v_get ''enum'' s = Some (VArray vs) \<longrightarrow> vl \<in> set vs) \<and> (\<forall>c. v_get ''const'' s = Some c \<longrightarrow> c = vl)"
    by (simp add: check_node_type_def case_option_ok bind_array list_ex_iff)
  have s: "check_node_string no s vl path = Inr () \<longleftrightarrow> (\<forall>str. vl = VString str \<longrightarrow>
      (\<forall>n k. v_get ''minLength'' s = Some (VNumber n) \<and> no_u64 no n = Some k \<longrightarrow> k \<le> length str) \<and>
      (\<forall>n k. v_get ''maxLength'' s = Some (VNumber n) \<and> no_u64 no n = Some k \<longrightarrow> length str \<le> k))"
    by (cases vl) (auto simp: check_node_string_def case_option_ok bind_u64)
  have n: "check_node_number no s vl path = Inr () \<longleftrightarrow> (\<forall>x y. vl = VNumber x \<and> no_f64 no x = Some y \<longrightarrow>
      (\<forall>n m. v_get ''minimum'' s = Some (VNumber n) \<and> no_f64 no n = Some m \<longrightarrow> m \<le> y) \<and>
      (\<forall>n m. v_get ''maximum'' s = Some (VNumber n) \<and> no_f64 no n = Some m \<longrightarrow> y \<le> m))"
  proof (cases vl)
    case (VNumber x)
    then show ?thesis by (cases "no_f64 no x") (auto simp: check_node_number_def case_option_ok bind_f64 not_less)
  qed (auto simp: check_node_number_def)
  show ?thesis unfolding t s n keyword_clauses_def by blast
qed

section \<open>The validator decides conformance\<close>

text \<open>What one level of the validator checks, below the depth limit.\<close>

lemma validate_node_object:
  "depth \<le> 64 \<Longrightarrow> validate_schema_node no (VObject s) vl path depth = Inr () \<longleftrightarrow>
    keyword_clauses no s vl \<and>
    (\<forall>members. vl = VObject members \<longrightarrow> set (required_names s) \<subseteq> fst ` set members \<and>
      (\<forall>(name, child)\<in>set members. case property_schema s name of
         Some ps \<Rightarrow> validate_schema_node no ps child (path @ lit ''.'' @ name) (depth + 1) = Inr ()
       | None \<Rightarrow> additional_allowed s)) \<and>
    (\<forall>elems items. vl = VArray elems \<and> v_get ''items'' s = Some items \<longrightarrow>
      (\<forall>(i, child)\<in>set (enumerate 0 elems).
        validate_schema_node no items child (path @ lit ''['' @ utf8_chars (dec i) @ lit '']'') (depth + 1) = Inr ()))"
proof -
  assume d: "depth \<le> 64"
  have k: "(\<exists>y. map_of members name = Some y) \<longleftrightarrow> name \<in> fst ` set members" for members :: "(ustr \<times> 'a jvalue) list" and name
    using map_of_eq_None_iff [of members name] by (simp flip: not_None_eq)
  show ?thesis
    unfolding node_clauses [of no s vl path, symmetric]
    using d
    by (subst validate_schema_node.simps, cases vl)
      (auto simp: MAX_SCHEMA_DEPTH_def k subset_iff split: option.splits prod.splits)
qed

lemma conforms_object:
  "conforms no (VObject s) vl \<longleftrightarrow>
    keyword_clauses no s vl \<and>
    (\<forall>members. vl = VObject members \<longrightarrow> set (required_names s) \<subseteq> fst ` set members \<and>
      (\<forall>(name, child)\<in>set members. case property_schema s name of
         Some ps \<Rightarrow> conforms no ps child | None \<Rightarrow> additional_allowed s)) \<and>
    (\<forall>elems items. vl = VArray elems \<and> v_get ''items'' s = Some items \<longrightarrow> (\<forall>child\<in>set elems. conforms no items child))"
  by (subst conforms.simps, cases vl) (auto simp: list_all_iff split: option.splits)

lemma validate_sound:
  "validate_schema_node no schema vl path depth = Inr () \<Longrightarrow> conforms no schema vl"
proof (induction "size vl" arbitrary: schema vl path depth rule: less_induct)
  case less
  have d: "depth \<le> 64" using less.prems by (subst (asm) validate_schema_node.simps) (simp add: MAX_SCHEMA_DEPTH_def split: if_splits)
  show ?case
  proof (cases schema)
    case (VBool b)
    then show ?thesis
      using less.prems d by (subst (asm) validate_schema_node.simps) (simp add: MAX_SCHEMA_DEPTH_def conforms.simps)
  next
    case (VObject s)
    note v = less.prems [unfolded VObject validate_node_object [OF d]]
    have "case property_schema s name of Some ps \<Rightarrow> conforms no ps child | None \<Rightarrow> additional_allowed s"
      if m: "vl = VObject members" "(name, child) \<in> set members" for members name child
    proof -
      have "size child < size vl" using m size_member [of "(name, child)"] by simp
      then show ?thesis using v m less.hyps by (fastforce split: option.splits)
    qed
    moreover have "conforms no items child"
      if m: "vl = VArray elems" "v_get ''items'' s = Some items" "child \<in> set elems" for elems items child
    proof -
      obtain i where "i < length elems" "elems ! i = child" using m(3) by (auto simp: in_set_conv_nth)
      then have "(i, child) \<in> set (enumerate 0 elems)" by (simp add: in_set_enumerate_eq)
      moreover have "size child < size vl" using m size_elem by simp
      ultimately show ?thesis using v m(1,2) less.hyps by fastforce
    qed
    ultimately show ?thesis using v unfolding VObject conforms_object by fast
  qed (use less.prems d in \<open>subst (asm) validate_schema_node.simps, simp add: MAX_SCHEMA_DEPTH_def\<close>)+
qed

lemma validate_complete:
  "conforms no schema vl \<Longrightarrow> v_depth vl + depth \<le> 64 \<Longrightarrow> validate_schema_node no schema vl path depth = Inr ()"
proof (induction "size vl" arbitrary: schema vl path depth rule: less_induct)
  case less
  have d: "depth \<le> 64" using less.prems(2) by simp
  show ?case
  proof (cases schema)
    case (VBool b)
    then show ?thesis
      using less.prems d by (subst validate_schema_node.simps) (simp add: MAX_SCHEMA_DEPTH_def conforms.simps)
  next
    case (VObject s)
    note v = less.prems(1) [unfolded VObject conforms_object]
    have "case property_schema s name of
        Some ps \<Rightarrow> validate_schema_node no ps child (path @ lit ''.'' @ name) (depth + 1) = Inr ()
      | None \<Rightarrow> additional_allowed s"
      if m: "vl = VObject members" "(name, child) \<in> set members" for members name child
    proof -
      have "size child < size vl" using m size_member [of "(name, child)"] by simp
      moreover have "v_depth child + (depth + 1) \<le> 64" using v_depth_field [OF m(2)] m(1) less.prems(2) by simp
      ultimately show ?thesis using v m less.hyps by (fastforce split: option.splits)
    qed
    moreover have "validate_schema_node no items child p (depth + 1) = Inr ()"
      if m: "vl = VArray elems" "v_get ''items'' s = Some items" "(i, child) \<in> set (enumerate 0 elems)" for elems items i child p
    proof -
      have e: "child \<in> set elems" using m(3) by (auto simp: in_set_enumerate_eq)
      then have "size child < size vl" using m(1) size_elem by simp
      moreover have "v_depth child + (depth + 1) \<le> 64" using v_depth_elem [OF e] m(1) less.prems(2) by simp
      ultimately show ?thesis using v m(1,2) e less.hyps by fastforce
    qed
    ultimately show ?thesis using v unfolding VObject validate_node_object [OF d] by fast
  qed (use less.prems in \<open>simp add: conforms.simps\<close>)+
qed

section \<open>Where a script path leads\<close>

text \<open>The place a path denotes when it is followed segment by segment from a directory.\<close>

definition lex_step :: "ustr \<Rightarrow> ustr list \<Rightarrow> ustr list" where
  "lex_step seg acc =
    (if seg = [] \<or> seg = lit ''.'' then acc else if seg = lit ''..'' then butlast acc else acc @ [seg])"

definition lex_resolve :: "ustr list \<Rightarrow> ustr \<Rightarrow> ustr list" where
  "lex_resolve base path = fold lex_step (split_slash path) (if take 1 path = lit ''/'' then [] else base)"

lemma lex_fold_below: "lit ''..'' \<notin> set segs \<Longrightarrow> \<exists>xs. fold lex_step segs (base @ ys) = base @ xs"
proof (induction segs arbitrary: ys)
  case (Cons seg segs)
  then show ?case
    using Cons.IH [of ys] Cons.IH [of "ys @ [seg]"] by (auto simp: lex_step_def)
qed simp

lemma hook_below:
  assumes "validate_hook_script script = Inr ()"
  shows "\<exists>xs. lex_resolve base script = base @ xs"
  using assms lex_fold_below [of "split_slash script" base "[]"] by (simp add: validate_hook_script_def lex_resolve_def)

text \<open>What a manifest asks the host to launch: a command with its arguments and environment.\<close>

definition launches :: "'n plugin_manifest \<Rightarrow> ustr \<Rightarrow> ustr list \<Rightarrow> ustr list \<Rightarrow> bool" where
  "launches m command args env_keys \<longleftrightarrow>
    (\<exists>a e. m_install m = Some (McpServer command a e) \<and> args = (case a of Some xs \<Rightarrow> xs | None \<Rightarrow> []) \<and>
      env_keys = (case e of Some xs \<Rightarrow> map fst xs | None \<Rightarrow> [])) \<or>
    (\<exists>mc. m_mcp_config m = Some mc \<and> command = mc_command mc \<and> args = mc_args mc \<and>
      env_keys = (case mc_env mc of Some xs \<Rightarrow> map fst xs | None \<Rightarrow> []))"

section \<open>Properties\<close>



text \<open>The test of the arguments is by equality: code attached to the flag passes.\<close>

lemma attached_code_accepted:
  "validate_mcp_args [lit ''-cprint(1)''] = Inr ()" "validate_mcp_args [lit ''--eval=1''] = Inr ()"
  by (simp_all add: validate_mcp_args_def FORBIDDEN_MCP_ARGS_def require_def)

section \<open>Witnesses\<close>

definition demo_num :: "int num_ops" where
  "demo_num = \<lparr>no_u64 = (\<lambda>n. if 0 \<le> n then Some (nat n) else None), no_i64 = Some, no_f64 = (\<lambda>n. Some (of_int n))\<rparr>"

definition demo_json_env :: "int plugin_json" where
  "demo_json_env = \<lparr>pj_num = demo_num, pj_value_len = (\<lambda>v. Some 2), pj_schema_len = (\<lambda>s. Some 2), pj_events_len = (\<lambda>es. Some 2)\<rparr>"

text \<open>An object with one integer field of at most 9.\<close>

definition demo_schema :: "int jvalue" where
  "demo_schema = VObject
    [(lit ''type'', VString (lit ''object'')),
     (lit ''properties'', VObject [(lit ''n'', VObject [(lit ''type'', VString (lit ''integer'')), (lit ''maximum'', VNumber 9)])]),
     (lit ''required'', VArray [VString (lit ''n'')])]"


definition demo_manifest :: "int plugin_manifest" where
  "demo_manifest =
    \<lparr>m_id = lit ''demo'', m_name = lit ''Demo'', m_version = lit ''1'', m_description = [], m_author = [],
     m_permissions = [], m_mcp_config = None, m_min_athena_version = None, m_capabilities = [CStatus, CSwarm], m_tools = [],
     m_subscribes_to = None, m_config = None, m_install = Some (Hook (lit ''hooks/run.sh''))\<rparr>"

lemma demo_manifest_ok: "validate_plugin_manifest demo_json_env demo_manifest = Inr ()"
  by code_simp


end
