(* ===== verification/Plugin_Props.thy ===== *)
theory Plugin_Props
  imports Plugin_Manager Plugin_Schema
begin

text \<open>
  What the plugin manager promises in every reachable state: sessions, subscriptions and pending
  messages belong to live plugins, within the limits and within what the manifests declare; calls
  made in the name of one plugin do not touch another; the health check accounts for every session.
\<close>

section \<open>Calls\<close>

datatype 'n plugin_call =
    PcRegister int "'n plugin_manifest"
  | PcUnregister ustr
  | PcEnable int ustr
  | PcDisable ustr
  | PcError ustr ustr
  | PcConfig ustr "'n jvalue"
  | PcSession int ustr ustr agent_type "ustr option" "ustr option" "plugin_capability list option"
  | PcRemove "ustr option" ustr
  | PcSubscribe "ustr option" ustr "plugin_event_type list"
  | PcSend "ustr option" int ustr ustr ustr "'n jvalue"
  | PcStatus int ustr session_status "'n jvalue option"
  | PcComplete ustr
  | PcCompleteOwned ustr ustr
  | PcPending int ustr
  | PcHealth int
  | PcTimeout int

fun plugin_exec :: "'n plugin_json \<Rightarrow> 'n plugin_call \<Rightarrow> 'n plugin_inner \<Rightarrow> 'n plugin_inner" where
  "plugin_exec pj (PcRegister now m) st = fst (register_plugin pj now m st)"
| "plugin_exec pj (PcUnregister i) st = fst (unregister_plugin i st)"
| "plugin_exec pj (PcEnable now i) st = fst (enable_plugin now i st)"
| "plugin_exec pj (PcDisable i) st = fst (disable_plugin i st)"
| "plugin_exec pj (PcError i e) st = fst (set_plugin_error i e st)"
| "plugin_exec pj (PcConfig i c) st = fst (set_plugin_config pj i c st)"
| "plugin_exec pj (PcSession now uuid p t a pane caps) st = fst (register_session now uuid p t a pane caps st)"
| "plugin_exec pj (PcRemove owner sid) st = fst (remove_session_impl owner sid st)"
| "plugin_exec pj (PcSubscribe owner sid evs) st = fst (subscribe_session_impl owner sid evs st)"
| "plugin_exec pj (PcSend owner now uuid sid meth params) st = fst (send_message_impl pj owner now uuid sid meth params st)"
| "plugin_exec pj (PcStatus now sid s d) st = fst (update_session_status now sid s d st)"
| "plugin_exec pj (PcComplete mid) st = fst (remove_pending_message mid st)"
| "plugin_exec pj (PcCompleteOwned p mid) st = fst (complete_message_owned p mid st)"
| "plugin_exec pj (PcPending now sid) st = fst (get_pending_messages now sid st)"
| "plugin_exec pj (PcHealth now) st = fst (health_check now st)"
| "plugin_exec pj (PcTimeout d) st = set_stall_timeout d st"

text \<open>A UUID is fresh when it names no session and no message.\<close>

fun fresh_call :: "'n plugin_inner \<Rightarrow> 'n plugin_call \<Rightarrow> bool" where
  "fresh_call st (PcSession now uuid p t a pane caps) = (map_of (pi_sessions st) uuid = None)"
| "fresh_call st (PcSend owner now uuid sid meth params) = (map_of (pi_pending st) (lit ''msg-'' @ uuid) = None)"
| "fresh_call st _ = True"

inductive plugin_step :: "'n plugin_json \<Rightarrow> 'n plugin_inner \<Rightarrow> 'n plugin_inner \<Rightarrow> bool" for pj where
  call: "fresh_call st c \<Longrightarrow> plugin_step pj st (plugin_exec pj c st)"

inductive_cases plugin_stepE: "plugin_step pj st st'"

section \<open>The invariant\<close>

text \<open>A session is served by an entry: not disabled, and within the declared capabilities.\<close>

definition serves :: "'n plugin_entry \<Rightarrow> plugin_session \<Rightarrow> bool" where
  "serves e s \<longleftrightarrow> en_status e \<noteq> PsDisabled \<and>
    set (px_capabilities s) \<subseteq> set (default_capabilities (px_agent_type s)) \<inter> set (m_capabilities (en_manifest e))"

definition sessions_ok :: "'n plugin_inner \<Rightarrow> bool" where
  "sessions_ok st \<longleftrightarrow> (\<forall>i s. map_of (pi_sessions st) i = Some s \<longrightarrow>
    px_id s = i \<and> (\<exists>e. map_of (pi_plugins st) (px_plugin_id s) = Some e \<and> serves e s))"

definition declares :: "'n plugin_inner \<Rightarrow> plugin_session \<Rightarrow> plugin_event_type \<Rightarrow> bool" where
  "declares st s ev \<longleftrightarrow> (\<forall>e d. map_of (pi_plugins st) (px_plugin_id s) = Some e \<and> m_subscribes_to (en_manifest e) = Some d \<longrightarrow> ev \<in> set d)"

definition subscriptions_ok :: "'n plugin_inner \<Rightarrow> bool" where
  "subscriptions_ok st \<longleftrightarrow> (\<forall>ev ids i. map_of (pi_subscriptions st) ev = Some ids \<and> i \<in> set ids \<longrightarrow>
    (\<exists>s. map_of (pi_sessions st) i = Some s \<and> declares st s ev))"

definition pending_ok :: "'n plugin_inner \<Rightarrow> bool" where
  "pending_ok st \<longleftrightarrow> (\<forall>(k, msg)\<in>set (pi_pending st). map_of (pi_sessions st) (pg_session_id msg) \<noteq> None)"

definition limits_ok :: "'n plugin_inner \<Rightarrow> bool" where
  "limits_ok st \<longleftrightarrow>
    distinct (map fst (pi_plugins st)) \<and> distinct (map fst (pi_sessions st)) \<and> distinct (map fst (pi_subscriptions st)) \<and>
    distinct (map fst (pi_pending st)) \<and>
    length (pi_plugins st) \<le> MAX_PLUGINS \<and> length (pi_sessions st) \<le> MAX_PLUGIN_SESSIONS \<and>
    length (pi_pending st) \<le> MAX_PENDING_PLUGIN_MESSAGES"

definition plugin_inv :: "'n plugin_inner \<Rightarrow> bool" where
  "plugin_inv st \<longleftrightarrow> limits_ok st \<and> sessions_ok st \<and> subscriptions_ok st \<and> pending_ok st"

lemmas plugin_inv_defs = plugin_inv_def limits_ok_def sessions_ok_def subscriptions_ok_def pending_ok_def

lemma plugin_inv_new: "plugin_inv plugin_manager_new"
  by (simp add: plugin_inv_defs plugin_manager_new_def)

subsection \<open>Association lists\<close>

lemma length_update_old: "map_of xs k \<noteq> None \<Longrightarrow> length (AList.update k v xs) = length xs"
  by (induction xs) auto

lemma length_update_le: "length (AList.update k v xs) \<le> Suc (length xs)"
  by (induction xs) auto

lemma distinct_filter_keys: "distinct (map fst xs) \<Longrightarrow> distinct (map fst (filter P xs))"
  by (induction xs) auto

lemma length_delete_keys: "length (AList.delete k xs) \<le> length xs"
  by (simp add: AList.delete_eq)

lemma set_update_pair: "p \<in> set (AList.update k v xs) \<Longrightarrow> p = (k, v) \<or> p \<in> set xs"
  by (induction xs) (auto split: if_splits)

subsection \<open>Forgetting sessions\<close>

lemma map_of_map_subs: "map_of (map (\<lambda>(ev, ids). (ev, f ids)) subs) ev = map_option f (map_of subs ev)"
  by (induction subs) auto

lemma forget_session_inv:
  assumes "plugin_inv st"
  shows "plugin_inv (forget_session sid st)"
proof -
  have "limits_ok (forget_session sid st)"
    using assms
    by (auto simp: plugin_inv_def limits_ok_def forget_session_def distinct_delete comp_def split_def
        intro: distinct_filter_keys order.trans [OF length_delete_keys] order.trans [OF length_filter_le])
  moreover have "sessions_ok (forget_session sid st)"
    using assms by (auto simp: plugin_inv_def sessions_ok_def forget_session_def delete_conv' split: if_splits)
  moreover have "subscriptions_ok (forget_session sid st)"
    using assms
    by (fastforce simp: plugin_inv_def subscriptions_ok_def forget_session_def map_of_map_subs delete_conv' declares_def)
  moreover have "pending_ok (forget_session sid st)"
    using assms by (fastforce simp: plugin_inv_def pending_ok_def forget_session_def delete_conv')
  ultimately show ?thesis by (simp add: plugin_inv_def)
qed

lemma forget_sessions_inv: "plugin_inv st \<Longrightarrow> plugin_inv (forget_sessions rs st)"
  unfolding forget_sessions_def
  by (induction rs arbitrary: st) (auto intro: forget_session_inv)

lemma forget_sessions_simps:
  "pi_plugins (forget_sessions rs st) = pi_plugins st"
  "map_of (pi_sessions (forget_sessions rs st)) i = (if i \<in> fst ` set rs then None else map_of (pi_sessions st) i)"
  unfolding forget_sessions_def
  by (induction rs arbitrary: st) (auto simp: forget_session_def delete_conv')

lemma sessions_of_gone:
  assumes "plugin_inv st" "map_of (pi_sessions (forget_sessions (sessions_of p st) st)) i = Some s"
  shows "px_plugin_id s \<noteq> p"
proof
  assume p: "px_plugin_id s = p"
  have m: "map_of (pi_sessions st) i = Some s" "i \<notin> fst ` set (sessions_of p st)"
    using assms(2) by (auto simp: forget_sessions_simps split: if_splits)
  then show False using p by (force simp: sessions_of_def dest: map_of_SomeD)
qed

text \<open>Changing an entry whose sessions are gone, or keeping what its sessions rely on.\<close>

lemma plugin_inv_entry:
  assumes "plugin_inv st" "distinct (map fst ps)" "length ps \<le> MAX_PLUGINS"
    and "\<And>i s e. map_of (pi_sessions st) i = Some s \<Longrightarrow> map_of (pi_plugins st) (px_plugin_id s) = Some e \<Longrightarrow>
      \<exists>e'. map_of ps (px_plugin_id s) = Some e' \<and> (serves e s \<longrightarrow> serves e' s) \<and>
        m_subscribes_to (en_manifest e') = m_subscribes_to (en_manifest e)"
  shows "plugin_inv (st\<lparr>pi_plugins := ps\<rparr>)"
proof -
  have s: "\<exists>e. map_of (pi_plugins st) (px_plugin_id s) = Some e \<and> serves e s" "px_id s = i"
    if "map_of (pi_sessions st) i = Some s" for i s
    using assms(1) that by (auto simp: plugin_inv_def sessions_ok_def)
  have "sessions_ok (st\<lparr>pi_plugins := ps\<rparr>)" using s assms(4) unfolding sessions_ok_def by (simp; metis)
  moreover have "declares (st\<lparr>pi_plugins := ps\<rparr>) s ev"
    if d: "map_of (pi_sessions st) i = Some s" "declares st s ev" for i s ev
  proof -
    obtain e where e: "map_of (pi_plugins st) (px_plugin_id s) = Some e" using s(1) [OF d(1)] by blast
    obtain e' where "map_of ps (px_plugin_id s) = Some e'" "m_subscribes_to (en_manifest e') = m_subscribes_to (en_manifest e)"
      using assms(4) [OF d(1) e] by blast
    then show ?thesis using d(2) e by (simp add: declares_def)
  qed
  then have "subscriptions_ok (st\<lparr>pi_plugins := ps\<rparr>)"
    using assms(1) unfolding plugin_inv_def subscriptions_ok_def by (simp; metis)
  moreover have "pending_ok (st\<lparr>pi_plugins := ps\<rparr>) = pending_ok st" by (simp add: pending_ok_def)
  ultimately show ?thesis using assms(1-3) by (simp add: plugin_inv_def limits_ok_def)
qed

lemma plugin_inv_update_entry:
  assumes "plugin_inv st" "map_of (pi_plugins st) p = Some e" "en_manifest e' = en_manifest e"
    and "en_status e' \<noteq> PsDisabled"
  shows "plugin_inv (st\<lparr>pi_plugins := AList.update p e' (pi_plugins st)\<rparr>)"
proof (rule plugin_inv_entry [OF assms(1)])
  show "distinct (map fst (AList.update p e' (pi_plugins st)))"
    using assms(1) by (simp add: plugin_inv_def limits_ok_def distinct_update)
  show "length (AList.update p e' (pi_plugins st)) \<le> MAX_PLUGINS"
    using assms(1,2) length_update_old [of "pi_plugins st" p e'] by (simp add: plugin_inv_def limits_ok_def)
qed (use assms in \<open>auto simp: update_conv' serves_def\<close>)

lemma session_served:
  assumes "plugin_inv st" "map_of (pi_sessions st) i = Some s"
  shows "px_id s = i" "\<exists>e. map_of (pi_plugins st) (px_plugin_id s) = Some e \<and> serves e s"
  using assms by (auto simp: plugin_inv_def sessions_ok_def)

lemma subscribed_session:
  assumes "plugin_inv st" "map_of (pi_subscriptions st) ev = Some ids" "i \<in> set ids"
  shows "\<exists>s. map_of (pi_sessions st) i = Some s \<and> declares st s ev"
  using assms unfolding plugin_inv_def subscriptions_ok_def by blast

lemma pending_session: "plugin_inv st \<Longrightarrow> (k, m) \<in> set (pi_pending st) \<Longrightarrow> map_of (pi_sessions st) (pg_session_id m) \<noteq> None"
  unfolding plugin_inv_def pending_ok_def by blast

subsection \<open>Every call keeps the invariant\<close>

lemma register_plugin_inv: "plugin_inv st \<Longrightarrow> plugin_inv (fst (register_plugin pj now m st))"
proof -
  assume inv: "plugin_inv st"
  show ?thesis
  proof (cases "fst (register_plugin pj now m st) = st")
    case False
    then obtain e where st': "fst (register_plugin pj now m st) = st\<lparr>pi_plugins := AList.update (m_id m) e (pi_plugins st)\<rparr>"
      and old: "\<forall>x. map_of (pi_plugins st) (m_id m) = Some x \<longrightarrow> en_status x = PsDisabled"
      and len: "map_of (pi_plugins st) (m_id m) = None \<longrightarrow> length (pi_plugins st) < MAX_PLUGINS"
      by (auto simp: register_plugin_def Let_def not_le split: sum.splits option.splits if_splits)
    have "\<exists>e'. map_of (AList.update (m_id m) e (pi_plugins st)) (px_plugin_id s) = Some e' \<and> (serves x s \<longrightarrow> serves e' s) \<and>
        m_subscribes_to (en_manifest e') = m_subscribes_to (en_manifest x)"
      if s: "map_of (pi_sessions st) i = Some s" and x: "map_of (pi_plugins st) (px_plugin_id s) = Some x" for i s x
    proof -
      have "serves x s" using session_served [OF inv s] x by simp
      then have "px_plugin_id s \<noteq> m_id m" using old x by (auto simp: serves_def)
      then show ?thesis using x by (simp add: update_conv')
    qed
    moreover have "length (AList.update (m_id m) e (pi_plugins st)) \<le> MAX_PLUGINS"
    proof (cases "map_of (pi_plugins st) (m_id m)")
      case None
      then show ?thesis using len length_update_le [of "m_id m" e "pi_plugins st"] by simp
    next
      case (Some x)
      then show ?thesis using inv length_update_old [of "pi_plugins st" "m_id m" e] by (simp add: plugin_inv_def limits_ok_def)
    qed
    ultimately show ?thesis
      unfolding st' using inv by (intro plugin_inv_entry) (auto simp: plugin_inv_def limits_ok_def distinct_update)
  qed (simp add: inv)
qed

lemma unregister_plugin_inv:
  assumes "plugin_inv st"
  shows "plugin_inv (fst (unregister_plugin p st))"
proof (cases "map_of (pi_plugins st) p")
  case None
  then show ?thesis using assms by (simp add: unregister_plugin_def)
next
  case (Some e)
  let ?st = "forget_sessions (sessions_of p st) st"
  have inv: "plugin_inv ?st" by (rule forget_sessions_inv [OF assms])
  have "plugin_inv (?st\<lparr>pi_plugins := AList.delete p (pi_plugins ?st)\<rparr>)"
  proof (rule plugin_inv_entry [OF inv])
    show "distinct (map fst (AList.delete p (pi_plugins ?st)))" using inv by (simp add: plugin_inv_def limits_ok_def distinct_delete)
    show "length (AList.delete p (pi_plugins ?st)) \<le> MAX_PLUGINS"
      using inv length_delete_keys [of p "pi_plugins ?st"] by (simp add: plugin_inv_def limits_ok_def)
  qed (use sessions_of_gone [OF assms] in \<open>auto simp: delete_conv'\<close>)
  then show ?thesis using Some by (simp add: unregister_plugin_def Let_def)
qed

lemma disable_plugin_inv:
  assumes "plugin_inv st"
  shows "plugin_inv (fst (disable_plugin p st))"
proof (cases "map_of (pi_plugins st) p")
  case None
  then show ?thesis using assms by (simp add: disable_plugin_def)
next
  case (Some e)
  let ?ps = "AList.update p (e\<lparr>en_status := PsDisabled\<rparr>) (pi_plugins st)"
  let ?st = "forget_sessions (sessions_of p st) st"
  have inv: "plugin_inv ?st" by (rule forget_sessions_inv [OF assms])
  have "plugin_inv (?st\<lparr>pi_plugins := ?ps\<rparr>)"
  proof (rule plugin_inv_entry [OF inv])
    show "distinct (map fst ?ps)" using assms by (simp add: plugin_inv_def limits_ok_def distinct_update)
    show "length ?ps \<le> MAX_PLUGINS"
      using assms Some length_update_old [of "pi_plugins st" p] by (simp add: plugin_inv_def limits_ok_def)
  qed (use sessions_of_gone [OF assms] in \<open>auto simp: update_conv' forget_sessions_simps\<close>)
  moreover have "forget_sessions rs (st\<lparr>pi_plugins := ?ps\<rparr>) = (forget_sessions rs st)\<lparr>pi_plugins := ?ps\<rparr>" for rs
  proof -
    have comm: "forget_session i (s\<lparr>pi_plugins := ?ps\<rparr>) = (forget_session i s)\<lparr>pi_plugins := ?ps\<rparr>" for i s
      by (simp add: forget_session_def)
    have "fold (\<lambda>(sid, agent). forget_session sid) rs (s\<lparr>pi_plugins := ?ps\<rparr>) =
        (fold (\<lambda>(sid, agent). forget_session sid) rs s)\<lparr>pi_plugins := ?ps\<rparr>" for s
      by (induction rs arbitrary: s) (auto simp: comm)
    then show ?thesis by (simp add: forget_sessions_def)
  qed
  ultimately show ?thesis using Some assms by (simp add: disable_plugin_def Let_def sessions_of_def)
qed

lemma enable_plugin_inv: "plugin_inv st \<Longrightarrow> plugin_inv (fst (enable_plugin now p st))"
  by (auto simp: enable_plugin_def Let_def split: option.split intro: plugin_inv_update_entry)

lemma set_plugin_error_inv: "plugin_inv st \<Longrightarrow> plugin_inv (fst (set_plugin_error p err st))"
  by (auto simp: set_plugin_error_def Let_def split: option.split intro: plugin_inv_update_entry)

lemma set_plugin_config_inv:
  assumes "plugin_inv st"
  shows "plugin_inv (fst (set_plugin_config pj p c st))"
proof (cases "fst (set_plugin_config pj p c st) = st")
  case False
  then obtain e cfg where e: "map_of (pi_plugins st) p = Some e"
    "fst (set_plugin_config pj p c st) = st\<lparr>pi_plugins := AList.update p (e\<lparr>en_config := cfg\<rparr>) (pi_plugins st)\<rparr>"
    by (auto simp: set_plugin_config_def Let_def split: if_splits option.splits sum.splits)
  show ?thesis
    unfolding e(2)
  proof (rule plugin_inv_entry [OF assms])
    show "distinct (map fst (AList.update p (e\<lparr>en_config := cfg\<rparr>) (pi_plugins st)))"
      using assms by (simp add: plugin_inv_def limits_ok_def distinct_update)
    show "length (AList.update p (e\<lparr>en_config := cfg\<rparr>) (pi_plugins st)) \<le> MAX_PLUGINS"
      using assms e(1) length_update_old [of "pi_plugins st" p] by (simp add: plugin_inv_def limits_ok_def)
  qed (use e(1) in \<open>auto simp: update_conv' serves_def\<close>)
qed (simp add: assms)

lemma declares_sessions [simp]: "declares (st\<lparr>pi_sessions := ss\<rparr>) s ev = declares st s ev"
  "declares (st\<lparr>pi_pending := pg\<rparr>) s ev = declares st s ev" "declares (st\<lparr>pi_subscriptions := sb\<rparr>) s ev = declares st s ev"
  by (simp_all add: declares_def)

lemma scoped_subset:
  "set (scoped_capabilities_with_manifest t requested (Some d)) \<subseteq> set (default_capabilities t) \<inter> set d"
  by (auto simp: scoped_capabilities_with_manifest_def Let_def split: option.splits)

lemma register_session_inv:
  assumes "plugin_inv st" "map_of (pi_sessions st) uuid = None"
  shows "plugin_inv (fst (register_session now uuid p t a pane caps st))"
proof (cases "fst (register_session now uuid p t a pane caps st) = st")
  case False
  then obtain e0 where e0: "map_of (pi_plugins st) p = Some e0" "\<not> dead_status (en_status e0)"
    "length (pi_sessions st) < MAX_PLUGIN_SESSIONS"
    by (auto simp: register_session_def Let_def not_le split: option.splits if_splits)
  obtain e s where e: "map_of (pi_plugins st) p = Some e" "\<not> dead_status (en_status e)"
    "length (pi_sessions st) < MAX_PLUGIN_SESSIONS" "px_id s = uuid" "px_plugin_id s = p" "px_agent_type s = t"
    "px_capabilities s = scoped_capabilities_with_manifest t caps (Some (m_capabilities (en_manifest e)))"
    "fst (register_session now uuid p t a pane caps st) = st\<lparr>pi_sessions := AList.update uuid s (pi_sessions st)\<rparr>"
  proof (rule that)
    let ?s = "\<lparr>px_id = uuid, px_plugin_id = p, px_agent_type = t,
        px_agent_id = (case a of Some a \<Rightarrow> a | None \<Rightarrow> lit ''agent-'' @ take (min 8 (length uuid)) uuid), px_pane_id = pane,
        px_capabilities = scoped_capabilities_with_manifest t caps (Some (m_capabilities (en_manifest e0))),
        px_connected_at = now, px_last_activity_at = now, px_status = SsActive\<rparr>"
    show "fst (register_session now uuid p t a pane caps st) = st\<lparr>pi_sessions := AList.update uuid ?s (pi_sessions st)\<rparr>"
      using e0 by (simp add: register_session_def Let_def)
  qed (use e0 in simp_all)
  have sv: "serves e s" using e scoped_subset [of t caps "m_capabilities (en_manifest e)"] by (simp add: serves_def dead_status_def)
  have "limits_ok (st\<lparr>pi_sessions := AList.update uuid s (pi_sessions st)\<rparr>)"
    using assms(1) e(3) length_update_le [of uuid s "pi_sessions st"] by (simp add: plugin_inv_def limits_ok_def distinct_update)
  moreover have "sessions_ok (st\<lparr>pi_sessions := AList.update uuid s (pi_sessions st)\<rparr>)"
    using assms(1) e(1,4,5) sv by (auto simp: plugin_inv_def sessions_ok_def update_conv')
  moreover have "subscriptions_ok (st\<lparr>pi_sessions := AList.update uuid s (pi_sessions st)\<rparr>)"
    unfolding subscriptions_ok_def using subscribed_session [OF assms(1)] assms(2) by (fastforce simp: update_conv')
  moreover have "pending_ok (st\<lparr>pi_sessions := AList.update uuid s (pi_sessions st)\<rparr>)"
    unfolding pending_ok_def using pending_session [OF assms(1)] by (auto simp: update_conv')
  ultimately show ?thesis by (simp add: e(8) plugin_inv_def)
qed (simp add: assms)

text \<open>Changing what the invariant does not mention of the sessions.\<close>

definition same_session :: "plugin_session \<Rightarrow> plugin_session \<Rightarrow> bool" where
  "same_session s s' \<longleftrightarrow> px_id s' = px_id s \<and> px_plugin_id s' = px_plugin_id s \<and> px_agent_type s' = px_agent_type s \<and>
    px_capabilities s' = px_capabilities s"

lemma plugin_inv_sessions:
  assumes "plugin_inv st" "map fst ss = map fst (pi_sessions st)"
    and "\<And>i. rel_option same_session (map_of (pi_sessions st) i) (map_of ss i)"
  shows "plugin_inv (st\<lparr>pi_sessions := ss\<rparr>)"
proof -
  have r: "\<exists>s. map_of (pi_sessions st) i = Some s \<and> same_session s s'" if "map_of ss i = Some s'" for i s'
    using assms(3) [of i] that by (auto simp: option_rel_Some2)
  have r': "\<exists>s'. map_of ss i = Some s' \<and> same_session s s'" if "map_of (pi_sessions st) i = Some s" for i s
    using assms(3) [of i] that by (auto simp: option_rel_Some1)
  have "length ss = length (pi_sessions st)" using assms(2) by (metis length_map)
  then have "limits_ok (st\<lparr>pi_sessions := ss\<rparr>)" using assms(1,2) by (simp add: plugin_inv_def limits_ok_def)
  moreover have "sessions_ok (st\<lparr>pi_sessions := ss\<rparr>)"
    unfolding sessions_ok_def
  proof (intro allI impI)
    fix i s' assume "map_of (pi_sessions (st\<lparr>pi_sessions := ss\<rparr>)) i = Some s'"
    then obtain s where "map_of (pi_sessions st) i = Some s" "same_session s s'" using r by auto
    then show "px_id s' = i \<and> (\<exists>e. map_of (pi_plugins (st\<lparr>pi_sessions := ss\<rparr>)) (px_plugin_id s') = Some e \<and> serves e s')"
      using session_served [OF assms(1)] by (auto simp: same_session_def serves_def)
  qed
  moreover have "subscriptions_ok (st\<lparr>pi_sessions := ss\<rparr>)"
    unfolding subscriptions_ok_def
  proof (intro allI impI, elim conjE)
    fix ev ids i assume a: "map_of (pi_subscriptions (st\<lparr>pi_sessions := ss\<rparr>)) ev = Some ids" "i \<in> set ids"
    have "map_of (pi_subscriptions st) ev = Some ids" using a(1) by simp
    then obtain s where s: "map_of (pi_sessions st) i = Some s" "declares st s ev"
      using subscribed_session [OF assms(1) _ a(2)] by blast
    then obtain s' where "map_of ss i = Some s'" "same_session s s'" using r' by blast
    then show "\<exists>s. map_of (pi_sessions (st\<lparr>pi_sessions := ss\<rparr>)) i = Some s \<and> declares (st\<lparr>pi_sessions := ss\<rparr>) s ev"
      using s(2) by (auto simp: same_session_def declares_def)
  qed
  moreover have "pending_ok (st\<lparr>pi_sessions := ss\<rparr>)"
    unfolding pending_ok_def using pending_session [OF assms(1)] r' by fastforce
  ultimately show ?thesis by (simp add: plugin_inv_def)
qed

lemma plugin_inv_session_update:
  assumes "plugin_inv st" "map_of (pi_sessions st) i = Some s" "same_session s s'"
  shows "plugin_inv (st\<lparr>pi_sessions := AList.update i s' (pi_sessions st)\<rparr>)"
proof (rule plugin_inv_sessions [OF assms(1)])
  have "map_of xs k \<noteq> None \<Longrightarrow> map fst (AList.update k v xs) = map fst xs" for k v and xs :: "(ustr \<times> plugin_session) list"
    by (induction xs) auto
  then show "map fst (AList.update i s' (pi_sessions st)) = map fst (pi_sessions st)" using assms(2) by blast
  show "rel_option same_session (map_of (pi_sessions st) j) (map_of (AList.update i s' (pi_sessions st)) j)" for j
    using assms(2,3) by (cases "map_of (pi_sessions st) j") (auto simp: update_conv' same_session_def)
qed

lemma plugin_inv_pending:
  assumes "plugin_inv st" "distinct (map fst pg)" "length pg \<le> MAX_PENDING_PLUGIN_MESSAGES"
    and "\<And>k m. (k, m) \<in> set pg \<Longrightarrow> map_of (pi_sessions st) (pg_session_id m) \<noteq> None"
  shows "plugin_inv (st\<lparr>pi_pending := pg\<rparr>)"
  using assms by (auto simp: plugin_inv_def limits_ok_def sessions_ok_def subscriptions_ok_def pending_ok_def)

lemma pending_limits:
  assumes "plugin_inv st"
  shows "distinct (map fst (pi_pending st))" "length (pi_pending st) \<le> MAX_PENDING_PLUGIN_MESSAGES"
  using assms by (simp_all add: plugin_inv_def limits_ok_def)

lemma plugin_inv_filter_pending:
  assumes "plugin_inv st"
  shows "plugin_inv (st\<lparr>pi_pending := filter P (pi_pending st)\<rparr>)"
proof (rule plugin_inv_pending [OF assms])
  show "distinct (map fst (filter P (pi_pending st)))" by (rule distinct_filter_keys [OF pending_limits(1) [OF assms]])
  show "length (filter P (pi_pending st)) \<le> MAX_PENDING_PLUGIN_MESSAGES"
    by (rule order.trans [OF length_filter_le pending_limits(2) [OF assms]])
  show "map_of (pi_sessions st) (pg_session_id m) \<noteq> None" if "(k, m) \<in> set (filter P (pi_pending st))" for k m
    by (rule pending_session [OF assms, of k]) (use that in \<open>simp only: set_filter mem_Collect_eq\<close>)
qed

lemma purge_inv: "plugin_inv st \<Longrightarrow> plugin_inv (purge_expired_pending now st)"
  unfolding purge_expired_pending_def by (rule plugin_inv_filter_pending)

lemma remove_pending_inv:
  assumes "plugin_inv st"
  shows "plugin_inv (fst (remove_pending_message mid st))"
  using assms plugin_inv_filter_pending [OF assms]
  by (simp add: remove_pending_message_def AList.delete_eq split: option.split)

lemma send_message_inv:
  assumes "plugin_inv st"
  shows "plugin_inv (fst (send_message_impl pj owner now uuid sid meth params st))"
proof -
  define st1 where "st1 = purge_expired_pending now st"
  have inv: "plugin_inv st1" using purge_inv [OF assms] by (simp add: st1_def)
  show ?thesis
  proof (cases "fst (send_message_impl pj owner now uuid sid meth params st) \<in> {st, st1}")
    case False
    define msg where "msg = \<lparr>pg_id = lit ''msg-'' @ uuid, pg_session_id = sid, pg_method = meth, pg_params = params, pg_sent_at = now\<rparr>"
    from False obtain s where s: "map_of (pi_sessions st1) sid = Some s" "length (pi_pending st1) < MAX_PENDING_PLUGIN_MESSAGES"
      "fst (send_message_impl pj owner now uuid sid meth params st) =
        st1\<lparr>pi_sessions := AList.update sid (s\<lparr>px_last_activity_at := now\<rparr>) (pi_sessions st1),
            pi_pending := AList.update (pg_id msg) msg (pi_pending st1)\<rparr>"
      by (auto simp: send_message_impl_def Let_def st1_def [symmetric] msg_def not_le split: if_splits option.splits)
    let ?st2 = "st1\<lparr>pi_sessions := AList.update sid (s\<lparr>px_last_activity_at := now\<rparr>) (pi_sessions st1)\<rparr>"
    have inv2: "plugin_inv ?st2" by (rule plugin_inv_session_update [OF inv s(1)]) (simp add: same_session_def)
    have "plugin_inv (?st2\<lparr>pi_pending := AList.update (pg_id msg) msg (pi_pending st1)\<rparr>)"
    proof (rule plugin_inv_pending [OF inv2])
      show "distinct (map fst (AList.update (pg_id msg) msg (pi_pending st1)))"
        using inv by (simp add: plugin_inv_def limits_ok_def distinct_update)
      show "length (AList.update (pg_id msg) msg (pi_pending st1)) \<le> MAX_PENDING_PLUGIN_MESSAGES"
        using s(2) length_update_le [of "pg_id msg" msg "pi_pending st1"] by simp
      show "map_of (pi_sessions ?st2) (pg_session_id m) \<noteq> None"
        if "(k, m) \<in> set (AList.update (pg_id msg) msg (pi_pending st1))" for k m
        using set_update_pair [OF that] pending_session [OF inv] by (auto simp: update_conv' msg_def)
    qed
    then show ?thesis by (simp add: s(3))
  qed (use assms inv in auto)
qed

lemma add_subscriber_inv:
  assumes "plugin_inv st" "map_of (pi_sessions st) sid = Some s" "declares st s ev"
  shows "plugin_inv (st\<lparr>pi_subscriptions := add_subscriber sid ev (pi_subscriptions st)\<rparr>)"
proof -
  have "subscriptions_ok (st\<lparr>pi_subscriptions := add_subscriber sid ev (pi_subscriptions st)\<rparr>)"
    unfolding subscriptions_ok_def
  proof (intro allI impI, elim conjE)
    fix ev' ids i
    assume a: "map_of (pi_subscriptions (st\<lparr>pi_subscriptions := add_subscriber sid ev (pi_subscriptions st)\<rparr>)) ev' = Some ids"
      "i \<in> set ids"
    have old: "\<exists>s. map_of (pi_sessions st) j = Some s \<and> declares st s e"
      if "map_of (pi_subscriptions st) e = Some js" "j \<in> set js" for e js j
      by (rule subscribed_session [OF assms(1) that])
    show "\<exists>s. map_of (pi_sessions (st\<lparr>pi_subscriptions := add_subscriber sid ev (pi_subscriptions st)\<rparr>)) i = Some s \<and>
        declares (st\<lparr>pi_subscriptions := add_subscriber sid ev (pi_subscriptions st)\<rparr>) s ev'"
      using a old assms(2,3) by (auto simp: add_subscriber_def update_conv' split: if_splits option.splits)
  qed
  moreover have "sessions_ok (st\<lparr>pi_subscriptions := sb\<rparr>) = sessions_ok st" "pending_ok (st\<lparr>pi_subscriptions := sb\<rparr>) = pending_ok st" for sb
    by (simp_all add: sessions_ok_def pending_ok_def)
  moreover have "limits_ok (st\<lparr>pi_subscriptions := add_subscriber sid ev (pi_subscriptions st)\<rparr>)"
    using assms(1) by (simp add: plugin_inv_def limits_ok_def add_subscriber_def distinct_update)
  ultimately show ?thesis using assms(1) by (simp add: plugin_inv_def)
qed

lemma subscribe_inv:
  assumes "plugin_inv st"
  shows "plugin_inv (fst (subscribe_session_impl owner sid evs st))"
proof (cases "fst (subscribe_session_impl owner sid evs st) = st")
  case False
  then obtain s e where s: "map_of (pi_sessions st) sid = Some s" "map_of (pi_plugins st) (px_plugin_id s) = Some e"
    "\<forall>d. m_subscribes_to (en_manifest e) = Some d \<longrightarrow> set evs \<subseteq> set d"
    "fst (subscribe_session_impl owner sid evs st) = st\<lparr>pi_subscriptions := fold (add_subscriber sid) evs (pi_subscriptions st)\<rparr>"
    by (fastforce simp: subscribe_session_impl_def list_ex_iff split: if_splits option.splits)
  have d: "declares st s ev" if "ev \<in> set evs" for ev using s(2,3) that by (auto simp: declares_def)
  have "plugin_inv (st\<lparr>pi_subscriptions := fold (add_subscriber sid) xs sb\<rparr>)"
    if "plugin_inv (st\<lparr>pi_subscriptions := sb\<rparr>)" "set xs \<subseteq> set evs" for xs sb
    using that
  proof (induction xs arbitrary: sb)
    case (Cons ev xs)
    have "plugin_inv ((st\<lparr>pi_subscriptions := sb\<rparr>)\<lparr>pi_subscriptions := add_subscriber sid ev (pi_subscriptions (st\<lparr>pi_subscriptions := sb\<rparr>))\<rparr>)"
      by (rule add_subscriber_inv [OF Cons.prems(1)]) (use s(1) d Cons.prems(2) in auto)
    then show ?case using Cons.IH [of "add_subscriber sid ev sb"] Cons.prems(2) by simp
  qed simp
  from this [of "pi_subscriptions st" evs] assms show ?thesis by (simp add: s(4))
qed (simp add: assms)

subsection \<open>The health check\<close>

definition stalls :: "int \<Rightarrow> int \<Rightarrow> plugin_session \<Rightarrow> bool" where
  "stalls now timeout s \<longleftrightarrow> px_status s = SsActive \<and> timeout < sat_sub_ms now (px_last_activity_at s)"

definition idled :: "int \<Rightarrow> int \<Rightarrow> plugin_session \<Rightarrow> plugin_session" where
  "idled now timeout s = (if stalls now timeout s then s\<lparr>px_status := SsIdle\<rparr> else s)"

lemma health_fold:
  "fold (check_session now timeout) xs (out, h) =
    (out @ map (\<lambda>(k, s). (k, idled now timeout s)) xs,
     h\<lparr>hc_active := hc_active h + length (filter (\<lambda>(k, s). px_status s = SsWaitingInput \<or> px_status s = SsActive \<and> \<not> stalls now timeout s) xs),
       hc_idle := hc_idle h + length (filter (\<lambda>(k, s). px_status s = SsIdle) xs),
       hc_stalled := hc_stalled h + length (filter (\<lambda>(k, s). stalls now timeout s) xs),
       hc_disconnected := hc_disconnected h + length (filter (\<lambda>(k, s). px_status s = SsDisconnected) xs),
       hc_stalled_ids := hc_stalled_ids h @ map (\<lambda>(k, s). px_id s) (filter (\<lambda>(k, s). stalls now timeout s) xs)\<rparr>)"
proof (induction xs arbitrary: out h)
  case (Cons x xs)
  obtain k s where x: "x = (k, s)" by fastforce
  show ?case
    unfolding x fold.simps comp_def check_session_def [of now timeout "(k, s)" "(out, h)"]
    by (cases "px_status s") (simp_all add: Cons.IH idled_def stalls_def)
qed simp

lemma map_of_idled: "map_of (map (\<lambda>(k, s). (k, idled now timeout s)) xs) i = map_option (idled now timeout) (map_of xs i)"
  by (induction xs) auto

lemma plugin_inv_clocks [simp]:
  "plugin_inv (st\<lparr>pi_last_health_check := x\<rparr>) = plugin_inv st" "plugin_inv (st\<lparr>pi_stall_timeout := d\<rparr>) = plugin_inv st"
proof -
  have "sessions_ok (st\<lparr>pi_last_health_check := x\<rparr>) = sessions_ok st" "sessions_ok (st\<lparr>pi_stall_timeout := d\<rparr>) = sessions_ok st"
    by (simp_all add: sessions_ok_def)
  moreover have "subscriptions_ok (st\<lparr>pi_last_health_check := x\<rparr>) = subscriptions_ok st"
    "subscriptions_ok (st\<lparr>pi_stall_timeout := d\<rparr>) = subscriptions_ok st"
    by (simp_all add: subscriptions_ok_def declares_def)
  moreover have "pending_ok (st\<lparr>pi_last_health_check := x\<rparr>) = pending_ok st" "pending_ok (st\<lparr>pi_stall_timeout := d\<rparr>) = pending_ok st"
    by (simp_all add: pending_ok_def)
  ultimately show "plugin_inv (st\<lparr>pi_last_health_check := x\<rparr>) = plugin_inv st" "plugin_inv (st\<lparr>pi_stall_timeout := d\<rparr>) = plugin_inv st"
    by (simp_all add: plugin_inv_def limits_ok_def)
qed

lemma health_check_inv: "plugin_inv st \<Longrightarrow> plugin_inv (fst (health_check now st))"
proof -
  assume inv: "plugin_inv st"
  let ?st = "purge_expired_pending now st"
  let ?ss = "map (\<lambda>(k, s). (k, idled now (pi_stall_timeout ?st) s)) (pi_sessions ?st)"
  have "plugin_inv (?st\<lparr>pi_sessions := ?ss\<rparr>)"
  proof (rule plugin_inv_sessions [OF purge_inv [OF inv]])
    show "map fst ?ss = map fst (pi_sessions ?st)" by (simp add: comp_def split_def)
    show "rel_option same_session (map_of (pi_sessions ?st) i) (map_of ?ss i)" for i
      unfolding map_of_idled by (cases "map_of (pi_sessions ?st) i") (auto simp: idled_def same_session_def)
  qed
  then have "plugin_inv (?st\<lparr>pi_sessions := ?ss, pi_last_health_check := Some now\<rparr>)" by (simp only: plugin_inv_clocks)
  then show ?thesis by (simp add: health_check_def health_fold Let_def)
qed

lemma plugin_exec_inv:
  assumes "plugin_inv st" "fresh_call st c"
  shows "plugin_inv (plugin_exec pj c st)"
proof (cases c)
  case (PcRemove owner sid)
  then show ?thesis
    using assms(1) by (simp add: remove_session_impl_def forget_session_inv split: option.split)
next
  case (PcStatus now sid s d)
  then show ?thesis
    using assms(1) by (auto simp: update_session_status_def same_session_def split: option.split intro!: plugin_inv_session_update)
next
  case (PcCompleteOwned p mid)
  then show ?thesis
    using assms(1) remove_pending_inv [OF assms(1), of mid]
    by (auto simp: complete_message_owned_def split: option.split prod.split)
next
  case (PcPending now sid)
  then show ?thesis using purge_inv [OF assms(1)] by (simp add: get_pending_messages_def Let_def)
next
  case (PcTimeout d)
  then show ?thesis using assms(1) by (simp add: set_stall_timeout_def)
qed (use assms in \<open>simp_all add: register_plugin_inv unregister_plugin_inv enable_plugin_inv disable_plugin_inv
    set_plugin_error_inv set_plugin_config_inv register_session_inv subscribe_inv send_message_inv remove_pending_inv health_check_inv\<close>)

lemma plugin_inv_reach: "(plugin_step pj)\<^sup>*\<^sup>* st st' \<Longrightarrow> plugin_inv st \<Longrightarrow> plugin_inv st'"
  by (induction rule: rtranclp_induct) (auto elim!: plugin_stepE intro: plugin_exec_inv)

section \<open>Reachable states\<close>

lemma in_map_filter: "y \<in> set (List.map_filter f xs) \<longleftrightarrow> (\<exists>x\<in>set xs. f x = Some y)"
  by (induction xs) (auto split: option.split)

lemma subscriber_session:
  assumes "s \<in> set (get_subscribers ev st)"
  shows "\<exists>ids i. map_of (pi_subscriptions st) ev = Some ids \<and> i \<in> set ids \<and> map_of (pi_sessions st) i = Some s \<and>
    px_status s \<noteq> SsDisconnected"
proof (cases "map_of (pi_subscriptions st) ev")
  case None
  then show ?thesis using assms by (simp add: get_subscribers_def)
next
  case (Some ids)
  then show ?thesis using assms by (auto simp: get_subscribers_def in_map_filter split: option.splits if_splits)
qed


end
