(* ===== verification/Plugin_Calls.thy ===== *)
theory Plugin_Calls
  imports Plugin_Props
begin

text \<open>
  What single calls of the plugin manager do: those made in the name of a plugin stay within that
  plugin, the health check accounts for every session, a configuration is stored whole or not at all.
\<close>

section \<open>Calls in the name of one plugin\<close>

fun owned_by :: "ustr \<Rightarrow> 'n plugin_call \<Rightarrow> bool" where
  "owned_by p (PcRemove owner sid) = (owner = Some p)"
| "owned_by p (PcSubscribe owner sid evs) = (owner = Some p)"
| "owned_by p (PcSend owner now uuid sid meth params) = (owner = Some p)"
| "owned_by p (PcCompleteOwned q mid) = (q = p)"
| "owned_by p _ = False"

fun expires_in :: "'n plugin_call \<Rightarrow> 'n pending_message \<Rightarrow> bool" where
  "expires_in (PcSend owner now uuid sid meth params) msg = (PENDING_PLUGIN_MESSAGE_TTL < sat_sub_ms now (pg_sent_at msg))"
| "expires_in _ msg = False"

definition subscribed :: "ustr \<Rightarrow> plugin_event_type \<Rightarrow> 'n plugin_inner \<Rightarrow> bool" where
  "subscribed i ev st \<longleftrightarrow> (\<exists>ids. map_of (pi_subscriptions st) ev = Some ids \<and> i \<in> set ids)"

lemma subscribed_other: "i \<noteq> sid \<Longrightarrow> subscribed i ev (st\<lparr>pi_subscriptions := add_subscriber sid ev' sb\<rparr>) = subscribed i ev (st\<lparr>pi_subscriptions := sb\<rparr>)"
  by (cases "map_of sb ev'") (auto simp: subscribed_def add_subscriber_def update_conv')

lemma subscribed_fold: "i \<noteq> sid \<Longrightarrow> subscribed i ev (st\<lparr>pi_subscriptions := fold (add_subscriber sid) evs sb\<rparr>) = subscribed i ev (st\<lparr>pi_subscriptions := sb\<rparr>)"
  by (induction evs arbitrary: sb) (simp_all add: subscribed_other)

lemma subscribed_forget: "i \<noteq> sid \<Longrightarrow> subscribed i ev (forget_session sid st) = subscribed i ev st"
  by (auto simp: subscribed_def forget_session_def map_of_map_subs)

lemma map_of_filter_keep: "map_of xs k = Some v \<Longrightarrow> P (k, v) \<Longrightarrow> distinct (map fst xs) \<Longrightarrow> map_of (filter P xs) k = Some v"
  by (induction xs) (auto dest: map_of_SomeD)

lemma remove_confined:
  assumes "map_of (pi_sessions st) i = Some s" "px_plugin_id s \<noteq> p"
  shows "fst (remove_session_impl (Some p) sid st) = st \<or> i \<noteq> sid \<and> fst (remove_session_impl (Some p) sid st) = forget_session sid st"
  using assms by (auto simp: remove_session_impl_def foreign_def split: option.splits)

lemma subscribe_confined:
  assumes "map_of (pi_sessions st) i = Some s" "px_plugin_id s \<noteq> p"
  shows "fst (subscribe_session_impl (Some p) sid evs st) = st \<or> i \<noteq> sid \<and>
    fst (subscribe_session_impl (Some p) sid evs st) = st\<lparr>pi_subscriptions := fold (add_subscriber sid) evs (pi_subscriptions st)\<rparr>"
  using assms by (auto simp: subscribe_session_impl_def foreign_def split: option.splits)

lemma send_confined:
  assumes "map_of (pi_sessions st) i = Some s" "px_plugin_id s \<noteq> p"
  shows "fst (send_message_impl pj (Some p) now uuid sid meth params st) \<in> {st, purge_expired_pending now st} \<or>
    i \<noteq> sid \<and> (\<exists>s' msg. fst (send_message_impl pj (Some p) now uuid sid meth params st) =
      (purge_expired_pending now st)\<lparr>pi_sessions := AList.update sid s' (pi_sessions st),
        pi_pending := AList.update (lit ''msg-'' @ uuid) msg (pi_pending (purge_expired_pending now st))\<rparr>)"
  using assms
  by (auto simp: send_message_impl_def foreign_def Let_def purge_expired_pending_def split: option.splits)

lemma complete_confined:
  assumes "map_of (pi_sessions st) i = Some s" "px_plugin_id s \<noteq> p"
  shows "fst (complete_message_owned p mid st) = st \<or>
    (\<exists>msg. map_of (pi_pending st) mid = Some msg \<and> pg_session_id msg \<noteq> i) \<and>
      fst (complete_message_owned p mid st) = st\<lparr>pi_pending := AList.delete mid (pi_pending st)\<rparr>"
  using assms
  by (cases "map_of (pi_pending st) mid")
    (auto simp: complete_message_owned_def remove_pending_message_def split: option.splits if_splits)

text \<open>
  C37. A call made in the name of one plugin is confined to that plugin: the registry, the sessions of other plugins, their
  subscriptions, and their pending messages that have not expired by the time of the call are the same afterwards.
\<close>

theorem owned_calls_confined:
  assumes "plugin_inv st" "fresh_call st c" "owned_by p c"
    and "get_session i st = Some s" "px_plugin_id s \<noteq> p"
  shows "pi_plugins (plugin_exec pj c st) = pi_plugins st \<and> get_session i (plugin_exec pj c st) = Some s \<and>
    subscribed i ev (plugin_exec pj c st) = subscribed i ev st \<and>
    (map_of (pi_pending st) k = Some msg \<and> pg_session_id msg = i \<and> \<not> expires_in c msg \<longrightarrow>
      map_of (pi_pending (plugin_exec pj c st)) k = Some msg)"
proof -
  have s: "map_of (pi_sessions st) i = Some s" using assms(4) by (simp add: get_session_def)
  note d = pending_limits(1) [OF assms(1)]
  show ?thesis
  proof (cases c)
    case (PcRemove owner sid)
    have f: "map_of (pi_pending (forget_session sid st)) k = Some msg"
      if "i \<noteq> sid" "map_of (pi_pending st) k = Some msg" "pg_session_id msg = i"
      using that map_of_filter_keep [OF that(2) _ d] by (simp add: forget_session_def)
    show ?thesis
      using remove_confined [OF s assms(5), of sid] PcRemove assms(3) s f
      by (auto simp: get_session_def subscribed_forget) (simp_all add: forget_session_def delete_conv')
  next
    case (PcSubscribe owner sid evs)
    then show ?thesis
      using subscribe_confined [OF s assms(5), of sid evs] assms(3) s
      by (auto simp: get_session_def subscribed_fold)
  next
    case (PcSend owner now uuid sid meth params)
    have f: "map_of (pi_pending (purge_expired_pending now st)) k = Some msg \<and> k \<noteq> lit ''msg-'' @ uuid"
      if m: "map_of (pi_pending st) k = Some msg" "\<not> expires_in c msg"
    proof
      show "map_of (pi_pending (purge_expired_pending now st)) k = Some msg"
        using map_of_filter_keep [OF m(1) _ d] m(2) PcSend by (simp add: purge_expired_pending_def not_less)
      have "map_of (pi_pending st) (lit ''msg-'' @ uuid) = None" using assms(2) PcSend by (simp only: fresh_call.simps)
      with m(1) show "k \<noteq> lit ''msg-'' @ uuid" by (metis option.distinct(1))
    qed
    have u: "pi_plugins (purge_expired_pending now st) = pi_plugins st" "pi_sessions (purge_expired_pending now st) = pi_sessions st"
      "subscribed i ev (purge_expired_pending now st) = subscribed i ev st"
      by (simp_all add: purge_expired_pending_def subscribed_def)
    show ?thesis
      using send_confined [OF s assms(5), of pj now uuid sid meth params] PcSend assms(3) s f u
      by (auto simp: get_session_def update_conv' subscribed_def)
  next
    case (PcCompleteOwned q mid)
    then show ?thesis
      using complete_confined [OF s assms(5), of mid] assms(3) s
      by (auto simp: get_session_def delete_conv' subscribed_def)
  qed (use assms(3) in simp_all)
qed

section \<open>The health check\<close>

lemma status_partition:
  "length xs = length (filter (\<lambda>(k, s). px_status s = SsWaitingInput \<or> px_status s = SsActive \<and> \<not> stalls now timeout s) xs) +
    length (filter (\<lambda>(k, s). px_status s = SsIdle) xs) + length (filter (\<lambda>(k, s). stalls now timeout s) xs) +
    length (filter (\<lambda>(k, s). px_status s = SsDisconnected) xs)"
proof (induction xs)
  case (Cons x xs)
  obtain k s where x: "x = (k, s)" by fastforce
  show ?case using Cons.IH by (cases "px_status s") (simp_all add: x stalls_def)
qed simp

lemma health_check_result:
  "fst (snd (health_check now st)) =
    \<lparr>hc_checked_at = now, hc_total = length (pi_sessions st),
     hc_active = length (filter (\<lambda>(k, s). px_status s = SsWaitingInput \<or> px_status s = SsActive \<and> \<not> stalls now (pi_stall_timeout st) s) (pi_sessions st)),
     hc_idle = length (filter (\<lambda>(k, s). px_status s = SsIdle) (pi_sessions st)),
     hc_stalled = length (filter (\<lambda>(k, s). stalls now (pi_stall_timeout st) s) (pi_sessions st)),
     hc_disconnected = length (filter (\<lambda>(k, s). px_status s = SsDisconnected) (pi_sessions st)),
     hc_stalled_ids = map (\<lambda>(k, s). px_id s) (filter (\<lambda>(k, s). stalls now (pi_stall_timeout st) s) (pi_sessions st))\<rparr>"
  by (simp add: health_check_def health_fold Let_def purge_expired_pending_def)

lemma health_check_sessions:
  "map_of (pi_sessions (fst (health_check now st))) i = map_option (idled now (pi_stall_timeout st)) (map_of (pi_sessions st) i)"
  by (simp add: health_check_def health_fold Let_def purge_expired_pending_def map_of_idled)

lemma stalled_ids:
  assumes "plugin_inv st"
  shows "i \<in> set (hc_stalled_ids (fst (snd (health_check now st)))) \<longleftrightarrow>
    (\<exists>s. map_of (pi_sessions st) i = Some s \<and> stalls now (pi_stall_timeout st) s)" (is "?l \<longleftrightarrow> ?r")
proof
  assume ?l
  then obtain k s where k: "(k, s) \<in> set (pi_sessions st)" "stalls now (pi_stall_timeout st) s" "px_id s = i"
    by (auto simp: health_check_result)
  then have "map_of (pi_sessions st) k = Some s" using assms by (simp add: plugin_inv_def limits_ok_def)
  then show ?r using session_served(1) [OF assms] k by blast
next
  assume ?r
  then obtain s where "map_of (pi_sessions st) i = Some s" "stalls now (pi_stall_timeout st) s" by blast
  then show ?l using session_served(1) [OF assms] by (force simp: health_check_result dest: map_of_SomeD)
qed

text \<open>
  The health check accounts for every session: the four counts add up to the number of sessions; the
  sessions reported as stalled are exactly the active ones without activity for longer than the timeout; these
  become idle and nothing else changes; and a check that follows reports none of them again.
\<close>

theorem health_check_accounts:
  assumes "plugin_inv st"
  shows "hc_total (fst (snd (health_check now st))) = length (pi_sessions st) \<and>
    hc_active (fst (snd (health_check now st))) + hc_idle (fst (snd (health_check now st))) +
      hc_stalled (fst (snd (health_check now st))) + hc_disconnected (fst (snd (health_check now st))) = length (pi_sessions st) \<and>
    (i \<in> set (hc_stalled_ids (fst (snd (health_check now st)))) \<longleftrightarrow>
      (\<exists>s. get_session i st = Some s \<and> px_status s = SsActive \<and> pi_stall_timeout st < sat_sub_ms now (px_last_activity_at s))) \<and>
    get_session i (fst (health_check now st)) =
      (if i \<in> set (hc_stalled_ids (fst (snd (health_check now st))))
       then map_option (\<lambda>s. s\<lparr>px_status := SsIdle\<rparr>) (get_session i st) else get_session i st) \<and>
    (i \<in> set (hc_stalled_ids (fst (snd (health_check now st)))) \<longrightarrow>
      i \<notin> set (hc_stalled_ids (fst (snd (health_check later (fst (health_check now st)))))))"
proof -
  have once: "i \<notin> set (hc_stalled_ids (fst (snd (health_check later (fst (health_check now st))))))"
    if "i \<in> set (hc_stalled_ids (fst (snd (health_check now st))))"
    using that stalled_ids [OF assms] stalled_ids [OF health_check_inv [OF assms], of i later now]
    by (auto simp: health_check_sessions idled_def stalls_def)
  have sess: "get_session i (fst (health_check now st)) =
      (if i \<in> set (hc_stalled_ids (fst (snd (health_check now st))))
       then map_option (\<lambda>s. s\<lparr>px_status := SsIdle\<rparr>) (get_session i st) else get_session i st)"
    unfolding stalled_ids [OF assms]
    by (cases "map_of (pi_sessions st) i") (auto simp: get_session_def health_check_sessions idled_def)
  have total: "hc_total (fst (snd (health_check now st))) = length (pi_sessions st)" by (simp add: health_check_result)
  have parts: "hc_active (fst (snd (health_check now st))) + hc_idle (fst (snd (health_check now st))) +
      hc_stalled (fst (snd (health_check now st))) + hc_disconnected (fst (snd (health_check now st))) = length (pi_sessions st)"
    using status_partition [of "pi_sessions st" now "pi_stall_timeout st"] by (simp add: health_check_result)
  have stalled: "i \<in> set (hc_stalled_ids (fst (snd (health_check now st)))) \<longleftrightarrow>
      (\<exists>s. get_session i st = Some s \<and> px_status s = SsActive \<and> pi_stall_timeout st < sat_sub_ms now (px_last_activity_at s))"
    by (simp add: stalled_ids [OF assms] get_session_def stalls_def)
  show ?thesis using once by (intro conjI impI total parts stalled sess) simp
qed

section \<open>Configuration\<close>

lemma merge_config_get:
  "distinct (map fst new) \<Longrightarrow> map_of (fold (\<lambda>(k, v). obj_insert k v) new old) k =
    (case map_of new k of Some v \<Rightarrow> Some v | None \<Rightarrow> map_of old k)"
proof (induction new arbitrary: old)
  case (Cons x new)
  obtain k' v where x: "x = (k', v)" by fastforce
  have "map_of new k' = None" using Cons.prems by (simp add: x map_of_eq_None_iff)
  then show ?case using Cons by (auto simp: x update_conv' split: option.split)
qed simp

lemma merge_config_keys:
  "distinct (map fst new) \<Longrightarrow> \<exists>m. merge_config (VObject old) (VObject new) = VObject m \<and>
    map_of m k = (case map_of new k of Some v \<Rightarrow> Some v | None \<Rightarrow> map_of old k)"
  using merge_config_get [of new old k] by simp

lemma set_plugin_config_ok:
  assumes "set_plugin_config pj p c st = (st', Inr u, calls)"
  obtains e n where "map_of (pi_plugins st) p = Some e" "pj_value_len pj (merge_config (en_config e) c) = Some n" "n \<le> MAX_PLUGIN_CONFIG_BYTES"
    "\<forall>cs. m_config (en_manifest e) = Some cs \<longrightarrow> validate_plugin_config (pj_num pj) (cs_schema cs) (merge_config (en_config e) c) = Inr ()"
    "st' = st\<lparr>pi_plugins := AList.update p (e\<lparr>en_config := merge_config (en_config e) c\<rparr>) (pi_plugins st)\<rparr>"
    "hd calls = OnConfigured p (merge_config (en_config e) c)"
proof -
  obtain e where e1: "map_of (pi_plugins st) p = Some e"
    using assms by (cases "map_of (pi_plugins st) p") (simp_all add: set_plugin_config_def split: if_splits)
  define merged where "merged = merge_config (en_config e) c"
  have "\<not> len_over (pj_value_len pj c) MAX_PLUGIN_CONFIG_BYTES" "\<not> len_over (pj_value_len pj merged) MAX_PLUGIN_CONFIG_BYTES"
    using assms e1 unfolding set_plugin_config_def by (auto simp: Let_def merged_def [symmetric] split: if_splits)
  then obtain n where n: "pj_value_len pj merged = Some n" "n \<le> MAX_PLUGIN_CONFIG_BYTES"
    and r': "(case (case m_config (en_manifest e) of Some cs \<Rightarrow> validate_plugin_config (pj_num pj) (cs_schema cs) merged | None \<Rightarrow> Inr ()) of
          Inl err \<Rightarrow> (st, Inl err, [])
        | Inr u \<Rightarrow> (let st' = st\<lparr>pi_plugins := AList.update p (e\<lparr>en_config := merged\<rparr>) (pi_plugins st)\<rparr>
            in (st', Inr (), [OnConfigured p merged] @ registry_update st'))) = (st', Inr u, calls)"
    using assms e1 unfolding set_plugin_config_def by (auto simp: len_over_def not_less Let_def merged_def [symmetric] split: option.splits)
  then have e2: "\<forall>cs. m_config (en_manifest e) = Some cs \<longrightarrow> validate_plugin_config (pj_num pj) (cs_schema cs) merged = Inr ()"
    "st' = st\<lparr>pi_plugins := AList.update p (e\<lparr>en_config := merged\<rparr>) (pi_plugins st)\<rparr>" "hd calls = OnConfigured p merged"
    by (auto simp: Let_def split: option.splits sum.splits)
  show thesis by (rule that [OF e1 n [unfolded merged_def] e2 [unfolded merged_def]])
qed

text \<open>
  Setting a configuration is all or nothing. A refusal changes nothing and notifies nobody. On success the stored
  value is the old one with the given keys replaced, it is at most 256 KiB as text and conforms to the schema of the manifest,
  every other plugin is untouched, and the callback gets the value that is stored.
\<close>

theorem config_update_atomic:
  shows "case set_plugin_config pj p c st of
      (st', Inl e, calls) \<Rightarrow> st' = st \<and> calls = []
    | (st', Inr u, calls) \<Rightarrow> (\<exists>e merged n. get_plugin p st = Some e \<and> merged = merge_config (en_config e) c \<and>
        get_plugin p st' = Some (e\<lparr>en_config := merged\<rparr>) \<and> get_plugin_config p st' = Some merged \<and>
        pj_value_len pj merged = Some n \<and> n \<le> MAX_PLUGIN_CONFIG_BYTES \<and>
        (\<forall>cs. m_config (en_manifest e) = Some cs \<longrightarrow> conforms (pj_num pj) (cs_schema cs) merged) \<and>
        (\<forall>old new k. en_config e = VObject old \<and> c = VObject new \<and> distinct (map fst new) \<longrightarrow>
          (\<exists>m. merged = VObject m \<and> map_of m k = (case map_of new k of Some v \<Rightarrow> Some v | None \<Rightarrow> map_of old k))) \<and>
        (\<forall>q. q \<noteq> p \<longrightarrow> get_plugin q st' = get_plugin q st) \<and> hd calls = OnConfigured p merged)"
proof -
  have v: "conforms no schema vl" if "validate_plugin_config no schema vl = Inr ()" for no :: "'a num_ops" and schema vl
    using that validate_sound [of no schema vl "lit ''$''" 0] by (auto simp: validate_plugin_config_def split: sum.splits)
  obtain st' r calls where r: "set_plugin_config pj p c st = (st', r, calls)" using prod_cases3 by blast
  show ?thesis
  proof (cases r)
    case (Inl e)
    then show ?thesis
      using r by (auto simp: set_plugin_config_def Let_def split: option.splits sum.splits if_splits)
  next
    case (Inr u)
    obtain e n where e: "map_of (pi_plugins st) p = Some e" "pj_value_len pj (merge_config (en_config e) c) = Some n" "n \<le> MAX_PLUGIN_CONFIG_BYTES"
      "\<forall>cs. m_config (en_manifest e) = Some cs \<longrightarrow> validate_plugin_config (pj_num pj) (cs_schema cs) (merge_config (en_config e) c) = Inr ()"
      "st' = st\<lparr>pi_plugins := AList.update p (e\<lparr>en_config := merge_config (en_config e) c\<rparr>) (pi_plugins st)\<rparr>"
      "hd calls = OnConfigured p (merge_config (en_config e) c)"
      by (rule set_plugin_config_ok [OF r [unfolded Inr]])
    have "\<exists>m. merge_config (en_config e) c = VObject m \<and> map_of m k = (case map_of new k of Some v \<Rightarrow> Some v | None \<Rightarrow> map_of old k)"
      if "en_config e = VObject old" "c = VObject new" "distinct (map fst new)" for old new k
      using merge_config_keys [OF that(3)] that(1,2) by simp
    then show ?thesis
      unfolding r Inr prod.case sum.case
      by (intro exI [of _ e] exI [of _ "merge_config (en_config e) c"] exI [of _ n])
        (use e v in \<open>simp add: get_plugin_def get_plugin_config_def update_conv'\<close>)
  qed
qed

section \<open>Witnesses\<close>

text \<open>A plugin with one session, and another that calls.\<close>

definition demo_state :: "int plugin_inner" where
  "demo_state = plugin_exec demo_json_env (PcSession 5 (lit ''s1'') (lit ''demo'') AtClaude None None None)
    (plugin_exec demo_json_env (PcRegister 3 demo_manifest) plugin_manager_new)"

definition demo_session :: plugin_session where
  "demo_session = \<lparr>px_id = lit ''s1'', px_plugin_id = lit ''demo'', px_agent_type = AtClaude, px_agent_id = lit ''agent-s1'', px_pane_id = None,
     px_capabilities = [CStatus], px_connected_at = 5, px_last_activity_at = 5, px_status = SsActive\<rparr>"

lemma demo_reached: "(plugin_step demo_json_env)\<^sup>*\<^sup>* plugin_manager_new demo_state"
proof -
  have "plugin_step demo_json_env plugin_manager_new (plugin_exec demo_json_env (PcRegister 3 demo_manifest) plugin_manager_new)"
    by (rule plugin_step.call) simp
  moreover have "fresh_call (plugin_exec demo_json_env (PcRegister 3 demo_manifest) plugin_manager_new)
      (PcSession 5 (lit ''s1'') (lit ''demo'') AtClaude None None None)" by code_simp
  then have "plugin_step demo_json_env (plugin_exec demo_json_env (PcRegister 3 demo_manifest) plugin_manager_new) demo_state"
    unfolding demo_state_def by (rule plugin_step.call)
  ultimately show ?thesis by (meson converse_rtranclp_into_rtranclp r_into_rtranclp)
qed

lemma demo_state_session: "get_session (lit ''s1'') demo_state = Some demo_session"
  by code_simp

lemma demo_inv: "plugin_inv demo_state"
  by (rule plugin_inv_reach [OF demo_reached plugin_inv_new])


theorem owned_calls_confined_witness:
  "get_session (lit ''s1'') (plugin_exec demo_json_env (PcRemove (Some (lit ''other'')) (lit ''s1'')) demo_state) = Some demo_session"
proof -
  have "px_plugin_id demo_session \<noteq> lit ''other''" by code_simp
  then show ?thesis
    using owned_calls_confined [OF demo_inv _ _ demo_state_session, of "PcRemove (Some (lit ''other'')) (lit ''s1'')" "lit ''other''"] by simp
qed

theorem health_check_accounts_witness:
  "lit ''s1'' \<in> set (hc_stalled_ids (fst (snd (health_check 200000 demo_state))))"
proof -
  have "pi_stall_timeout demo_state < sat_sub_ms 200000 (px_last_activity_at demo_session)" "px_status demo_session = SsActive" by code_simp+
  then show ?thesis
    using health_check_accounts [OF demo_inv, of 200000 "lit ''s1''"] demo_state_session by blast
qed

theorem config_update_atomic_witness:
  "\<exists>e. get_plugin (lit ''demo'') (fst (set_plugin_config demo_json_env (lit ''demo'') (VObject [(lit ''k'', VNull)]) demo_state)) = Some e \<and>
    en_config e = VObject [(lit ''k'', VNull)]"
proof -
  have "map_option (\<lambda>e. (en_config e, m_config (en_manifest e))) (get_plugin (lit ''demo'') demo_state) = Some (VObject [], None)"
    by code_simp
  then obtain e where e: "map_of (pi_plugins demo_state) (lit ''demo'') = Some e" "en_config e = VObject []" "m_config (en_manifest e) = None"
    by (auto simp: get_plugin_def)
  then have r: "fst (snd (set_plugin_config demo_json_env (lit ''demo'') (VObject [(lit ''k'', VNull)]) demo_state)) = Inr ()"
    by (simp add: set_plugin_config_def len_over_def demo_json_env_def MAX_PLUGIN_CONFIG_BYTES_def Let_def)
  show ?thesis
    using config_update_atomic [where pj = demo_json_env and p = "lit ''demo''" and c = "VObject [(lit ''k'', VNull)]" and st = demo_state] r e
    by (auto simp: get_plugin_def split: prod.splits sum.splits)
qed

end
