(* ===== verification/Plugin_Events.thy ===== *)
theory Plugin_Events
  imports Plugin_Manager
begin

text \<open>
  The rest of \<open>crates/athena-plugins/src\<close>: \<open>emit_plugin_event\<close> with its estimate of the payload's size
  (\<open>runtime.rs\<close>), and the discovery of manifests in a directory (\<open>discovery.rs\<close>). The length of the text that
  \<open>serde_json\<close> writes, its parser and the file system are arguments.
\<close>

section \<open>Events\<close>

datatype payload_level = LvInfo | LvWarning | LvError | LvSuccess

record plugin_event_source =
  es_session_id :: ustr
  es_pane_id :: "ustr option"
  es_agent_type :: ustr
  es_agent_id :: "ustr option"

record 'n plugin_event_payload =
  ep_level :: "payload_level option"
  ep_message :: "ustr option"
  ep_title :: "ustr option"
  ep_metadata :: "'n jvalue option"
  ep_task_title :: "ustr option"
  ep_result :: "ustr option"
  ep_error :: "ustr option"
  ep_prompt :: "ustr option"
  ep_options :: "ustr list option"
  ep_request_id :: "ustr option"
  ep_response :: "ustr option"
  ep_exit_code :: "int option"
  ep_command :: "ustr option"
  ep_session_id :: "ustr option"
  ep_agent_id :: "ustr option"
  ep_plugin_id :: "ustr option"

record 'n plugin_event =
  ev_id :: ustr
  ev_type :: plugin_event_type
  ev_source :: plugin_event_source
  ev_payload :: "'n plugin_event_payload"
  ev_timestamp :: int

fun json_size_upper_bound :: "'n jvalue \<Rightarrow> nat" where
  "json_size_upper_bound VNull = 8"
| "json_size_upper_bound (VBool b) = 8"
| "json_size_upper_bound (VNumber n) = 32"
| "json_size_upper_bound (VString s) = 2 + 6 * str_len s"
| "json_size_upper_bound (VArray a) = 2 + sum_list (map json_size_upper_bound a)"
| "json_size_upper_bound (VObject m) = 2 + sum_list (map (\<lambda>(k, v). 3 + 6 * str_len k + json_size_upper_bound v) m)"

definition payload_strings :: "'n plugin_event_payload \<Rightarrow> ustr option list" where
  "payload_strings p =
    [ep_message p, ep_title p, ep_task_title p, ep_result p, ep_error p, ep_prompt p, ep_request_id p, ep_response p,
     ep_command p, ep_session_id p, ep_agent_id p, ep_plugin_id p]"

definition payload_size_upper_bound :: "'n plugin_event_payload \<Rightarrow> nat" where
  "payload_size_upper_bound p =
    256 + sum_list (map (\<lambda>f. case f of Some s \<Rightarrow> 2 + 6 * str_len s | None \<Rightarrow> 0) (payload_strings p)) +
    (case ep_options p of Some options \<Rightarrow> 2 + sum_list (map (\<lambda>s. 3 + 6 * str_len s) options) | None \<Rightarrow> 0) +
    (case ep_metadata p of Some metadata \<Rightarrow> json_size_upper_bound metadata | None \<Rightarrow> 0)"

datatype 'n event_call = OnPluginEvent "'n plugin_event" | EmitPluginEvent "'n plugin_event"

definition emit_plugin_event ::
  "('n plugin_event_payload \<Rightarrow> nat option) \<Rightarrow> int \<Rightarrow> ustr \<Rightarrow> plugin_event_type \<Rightarrow> plugin_event_source \<Rightarrow>
    'n plugin_event_payload \<Rightarrow> (plugin_error + 'n plugin_event) \<times> 'n event_call list" where
  "emit_plugin_event payload_len now uuid event_type src payload =
    (if MAX_PLUGIN_EVENT_BYTES < payload_size_upper_bound payload \<and> len_over (payload_len payload) MAX_PLUGIN_EVENT_BYTES
     then (Inl (LimitExceeded ''plugin event payload exceeds 256 KiB'' []), [])
     else
       let event = \<lparr>ev_id = lit ''evt-'' @ take 12 uuid, ev_type = event_type, ev_source = src, ev_payload = payload,
                    ev_timestamp = now\<rparr>
       in (Inr event, [OnPluginEvent event, EmitPluginEvent event]))"

section \<open>Discovery\<close>

definition MAX_MANIFEST_BYTES :: nat where
  "MAX_MANIFEST_BYTES = 1048576"

text \<open>
  An entry of the directory as the calls to \<open>std::fs\<close> report it: its path and file name, the length
  that \<open>fs::metadata\<close> reads and the text that \<open>fs::read_to_string\<close> reads, each absent when the call fails.
\<close>

record dir_item =
  di_path :: ustr
  di_name :: ustr
  di_meta_len :: "nat option"
  di_text :: "ustr option"

text \<open>\<open>Path::extension\<close>: what follows the last dot of the file name, unless nothing precedes that dot.\<close>

definition file_extension :: "ustr \<Rightarrow> ustr option" where
  "file_extension name =
    (if name = lit ''..'' \<or> cp CHR ''.'' \<notin> set name then None
     else
       let after = rev (takeWhile (\<lambda>c. c \<noteq> cp CHR ''.'') (rev name));
           before = rev (tl (dropWhile (\<lambda>c. c \<noteq> cp CHR ''.'') (rev name)))
       in if before = [] then None else Some after)"

definition discover_entry ::
  "'n plugin_json \<Rightarrow> (ustr \<Rightarrow> 'n plugin_manifest option) \<Rightarrow> dir_item option \<Rightarrow> (plugin_error + 'n plugin_manifest) list" where
  "discover_entry pj parse entry =
    (case entry of
       None \<Rightarrow> [Inl ManifestIo]
     | Some d \<Rightarrow>
         if file_extension (di_name d) \<noteq> Some (lit ''json'') then []
         else (case di_meta_len d of
             None \<Rightarrow> []
           | Some n \<Rightarrow>
               if MAX_MANIFEST_BYTES < n then []
               else (case di_text d of
                   None \<Rightarrow> [Inl ManifestIo]
                 | Some content \<Rightarrow>
                     (case parse content of
                        None \<Rightarrow> [Inl (ManifestParse (di_path d))]
                      | Some manifest \<Rightarrow>
                          (case validate_plugin_manifest pj manifest of
                             Inl e \<Rightarrow> [Inl (ValidationFailed ''manifest failed validation'' (di_path d))]
                           | Inr u \<Rightarrow> [Inr manifest])))))"

text \<open>\<open>entries\<close> is what \<open>fs::read_dir\<close> returns, absent when it fails.\<close>

definition discover_plugins ::
  "'n plugin_json \<Rightarrow> (ustr \<Rightarrow> 'n plugin_manifest option) \<Rightarrow> dir_item option list option \<Rightarrow>
    plugin_error + (plugin_error + 'n plugin_manifest) list" where
  "discover_plugins pj parse entries =
    (case entries of None \<Rightarrow> Inl ManifestIo | Some ds \<Rightarrow> Inr (concat (map (discover_entry pj parse) ds)))"

fun register_found ::
  "'n plugin_json \<Rightarrow> int \<Rightarrow> (plugin_error + 'n plugin_manifest) list \<Rightarrow> 'n plugin_inner \<Rightarrow>
    'n plugin_inner \<times> (ustr list \<times> plugin_error list) \<times> 'n plugin_callback list" where
  "register_found pj now [] st = (st, ([], []), [])"
| "register_found pj now (Inl e # rs) st =
    (case register_found pj now rs st of (st', (ids, errs), cbs) \<Rightarrow> (st', (ids, e # errs), cbs))"
| "register_found pj now (Inr manifest # rs) st =
    (case register_plugin pj now manifest st of
       (st1, Inr i, cbs1) \<Rightarrow> (case register_found pj now rs st1 of (st', (ids, errs), cbs) \<Rightarrow> (st', (i # ids, errs), cbs1 @ cbs))
     | (st1, Inl e, cbs1) \<Rightarrow> (case register_found pj now rs st1 of (st', (ids, errs), cbs) \<Rightarrow> (st', (ids, e # errs), cbs1 @ cbs)))"

definition discover_and_register ::
  "'n plugin_json \<Rightarrow> (ustr \<Rightarrow> 'n plugin_manifest option) \<Rightarrow> int \<Rightarrow> dir_item option list option \<Rightarrow> 'n plugin_inner \<Rightarrow>
    'n plugin_inner \<times> (plugin_error + ustr list \<times> plugin_error list) \<times> 'n plugin_callback list" where
  "discover_and_register pj parse now entries st =
    (case discover_plugins pj parse entries of
       Inl e \<Rightarrow> (st, Inl e, [])
     | Inr found \<Rightarrow> (case register_found pj now found st of (st', r, cbs) \<Rightarrow> (st', Inr r, cbs)))"

section \<open>The size of a payload\<close>

text \<open>
  The length of a compact JSON text, for given lengths of the escaped content of a string and of a number.
\<close>

fun compact_len :: "(ustr \<Rightarrow> nat) \<Rightarrow> ('n \<Rightarrow> nat) \<Rightarrow> 'n jvalue \<Rightarrow> nat" where
  "compact_len esc num VNull = 4"
| "compact_len esc num (VBool b) = (if b then 4 else 5)"
| "compact_len esc num (VNumber n) = num n"
| "compact_len esc num (VString s) = 2 + esc s"
| "compact_len esc num (VArray a) = 2 + sum_list (map (compact_len esc num) a) + (length a - 1)"
| "compact_len esc num (VObject m) = 2 + sum_list (map (\<lambda>(k, v). 3 + esc k + compact_len esc num v) m) + (length m - 1)"

definition level_name :: "payload_level \<Rightarrow> string" where
  "level_name l = (case l of LvInfo \<Rightarrow> ''info'' | LvWarning \<Rightarrow> ''warning'' | LvError \<Rightarrow> ''error'' | LvSuccess \<Rightarrow> ''success'')"

text \<open>The fields that are present, each with the length of its value: a field that is \<open>None\<close> is not written.\<close>

definition payload_members :: "(ustr \<Rightarrow> nat) \<Rightarrow> ('n \<Rightarrow> nat) \<Rightarrow> (int \<Rightarrow> nat) \<Rightarrow> 'n plugin_event_payload \<Rightarrow> (string \<times> nat) list" where
  "payload_members esc num digits p =
    List.map_filter (\<lambda>(k, l). map_option (Pair k) l)
      ([(''level'', map_option (\<lambda>l. 2 + length (level_name l)) (ep_level p)),
        (''metadata'', map_option (compact_len esc num) (ep_metadata p)),
        (''options'', map_option (\<lambda>xs. 2 + sum_list (map (\<lambda>s. 2 + esc s) xs) + (length xs - 1)) (ep_options p)),
        (''exit_code'', map_option digits (ep_exit_code p))] @
       zip [''message'', ''title'', ''task_title'', ''result'', ''error'', ''prompt'', ''request_id'', ''response'', ''command'',
            ''session_id'', ''agent_id'', ''plugin_id'']
         (map (map_option (\<lambda>s. 2 + esc s)) (payload_strings p)))"

definition payload_text_len :: "(ustr \<Rightarrow> nat) \<Rightarrow> ('n \<Rightarrow> nat) \<Rightarrow> (int \<Rightarrow> nat) \<Rightarrow> 'n plugin_event_payload \<Rightarrow> nat" where
  "payload_text_len esc num digits p =
    (let ms = payload_members esc num digits p in 2 + sum_list (map (\<lambda>(k, n). length k + 3 + n) ms) + (length ms - 1))"

end
