(* ===== verification/Plugin_Event_Props.thy ===== *)
theory Plugin_Event_Props
  imports Plugin_Events Plugin_Props
begin

text \<open>
  How far the size estimate of \<open>emit_plugin_event\<close> can be trusted, and what discovery registers.
\<close>

section \<open>The estimate\<close>

lemma sum_list_pair_le:
  assumes "\<And>x. x \<in> set xs \<Longrightarrow> 2 * f x + 2 \<le> (3 * g x :: nat)"
  shows "2 * sum_list (map f xs) + 2 * length xs \<le> 3 * sum_list (map g xs)"
  using assms
proof (induction xs)
  case (Cons x xs)
  have "2 * f x + 2 \<le> 3 * g x" using Cons.prems by simp
  then show ?case using Cons by force
qed simp

lemma compact_le_bound:
  assumes esc: "\<And>s. esc s \<le> 6 * str_len s" and num: "\<And>n. num n \<le> 32"
  shows "2 * compact_len esc num v + 2 \<le> 3 * json_size_upper_bound v"
proof (induction v)
  case (VNumber n)
  then show ?case using num [of n] by simp
next
  case (VString s)
  then show ?case using esc [of s] by simp
next
  case (VArray xs)
  then have "2 * sum_list (map (compact_len esc num) xs) + 2 * length xs \<le> 3 * sum_list (map json_size_upper_bound xs)"
    by (rule sum_list_pair_le)
  then show ?case by (cases xs) auto
next
  case (VObject m)
  have "2 * (case x of (k, v) \<Rightarrow> 3 + esc k + compact_len esc num v) + 2
      \<le> 3 * (case x of (k, v) \<Rightarrow> 3 + 6 * str_len k + json_size_upper_bound v)" if "x \<in> set m" for x
  proof -
    obtain k v where x: "x = (k, v)" by fastforce
    then have "2 * compact_len esc num v + 2 \<le> 3 * json_size_upper_bound v" using VObject that by (auto simp: snds.simps)
    then show ?thesis using esc [of k] by (simp add: x)
  qed
  then have "2 * sum_list (map (\<lambda>(k, v). 3 + esc k + compact_len esc num v) m) + 2 * length m
      \<le> 3 * sum_list (map (\<lambda>(k, v). 3 + 6 * str_len k + json_size_upper_bound v) m)"
    by (rule sum_list_pair_le)
  then show ?case by (cases m) auto
qed simp_all

text \<open>Without metadata the constant of 256 bytes covers keys, separators and the two scalars.\<close>

definition present :: "nat option \<Rightarrow> nat" where
  "present l = (case l of Some n \<Rightarrow> n | None \<Rightarrow> 0)"

definition members_cost :: "(string \<times> nat option) list \<Rightarrow> nat" where
  "members_cost xs = sum_list (map (\<lambda>(k, l). length k + 4 + present l) xs)"

lemma members_cost_le:
  "sum_list (map (\<lambda>(k, n). length k + 4 + n) (List.map_filter (\<lambda>(k, l). map_option (Pair k) l) xs)) \<le> members_cost xs"
  by (induction xs) (auto simp: members_cost_def present_def List.map_filter_simps split: option.split)

lemma separators: "sum_list (map (\<lambda>(k, n). length k + 3 + n) ms) + length ms = sum_list (map (\<lambda>(k, n). length k + 4 + n) ms)"
  by (induction ms) auto

lemma text_le_cost:
  "payload_text_len esc num digits p \<le> 2 + members_cost
    ([(''level'', map_option (\<lambda>l. 2 + length (level_name l)) (ep_level p)),
      (''metadata'', map_option (compact_len esc num) (ep_metadata p)),
      (''options'', map_option (\<lambda>xs. 2 + sum_list (map (\<lambda>s. 2 + esc s) xs) + (length xs - 1)) (ep_options p)),
      (''exit_code'', map_option digits (ep_exit_code p))] @
     zip [''message'', ''title'', ''task_title'', ''result'', ''error'', ''prompt'', ''request_id'', ''response'', ''command'',
          ''session_id'', ''agent_id'', ''plugin_id'']
       (map (map_option (\<lambda>s. 2 + esc s)) (payload_strings p)))"
  unfolding payload_text_len_def Let_def payload_members_def
  by (rule order.trans [OF _ add_left_mono [OF members_cost_le]]) (simp only: separators [symmetric])

lemma options_le:
  assumes "\<And>s. esc s \<le> 6 * str_len s"
  shows "sum_list (map (\<lambda>s. 2 + esc s) xs) + length xs \<le> sum_list (map (\<lambda>s. 3 + 6 * str_len s) xs)"
proof (induction xs)
  case (Cons s xs)
  then show ?case using assms [of s] by simp
qed simp

lemma present_le:
  assumes "\<And>x. x0 = Some x \<Longrightarrow> f x \<le> (g x :: nat)"
  shows "present (map_option f x0) \<le> present (map_option g x0)"
  using assms by (cases x0) (auto simp: present_def)

lemma bound_present:
  "payload_size_upper_bound p = 256 + sum_list (map (\<lambda>f. present (map_option (\<lambda>s. 2 + 6 * str_len s) f)) (payload_strings p)) +
    present (map_option (\<lambda>xs. 2 + sum_list (map (\<lambda>s. 3 + 6 * str_len s) xs)) (ep_options p)) +
    present (map_option json_size_upper_bound (ep_metadata p))"
proof -
  have c: "(case f of Some s \<Rightarrow> g s | None \<Rightarrow> 0) = present (map_option g f)" for f :: "'z option" and g
    by (simp add: present_def split: option.split)
  show ?thesis unfolding payload_size_upper_bound_def c ..
qed

lemma text_le_bound:
  assumes esc: "\<And>s. esc s \<le> 6 * str_len s" and digits: "\<And>i. ep_exit_code p = Some i \<Longrightarrow> digits i \<le> 11"
  shows "payload_text_len esc num digits p + 50 + present (map_option json_size_upper_bound (ep_metadata p))
    \<le> payload_size_upper_bound p + present (map_option (compact_len esc num) (ep_metadata p))"
proof -
  have s: "present (map_option (\<lambda>s. 2 + esc s) f) \<le> present (map_option (\<lambda>s. 2 + 6 * str_len s) f)" for f
    by (rule present_le) (use esc in simp)
  have l: "present (map_option (\<lambda>l. 2 + length (level_name l)) (ep_level p)) \<le> 9"
    by (auto simp: present_def level_name_def split: option.split payload_level.split)
  have e: "present (map_option digits (ep_exit_code p)) \<le> 11"
    using digits by (auto simp: present_def split: option.split)
  have o: "present (map_option (\<lambda>xs. 2 + sum_list (map (\<lambda>s. 2 + esc s) xs) + (length xs - 1)) (ep_options p))
      \<le> present (map_option (\<lambda>xs. 2 + sum_list (map (\<lambda>s. 3 + 6 * str_len s) xs)) (ep_options p))"
    by (rule present_le, rule order.trans [OF _ add_left_mono [OF options_le [OF esc]]]) simp
  note strings = s [of "ep_message p"] s [of "ep_title p"] s [of "ep_task_title p"] s [of "ep_result p"] s [of "ep_error p"]
    s [of "ep_prompt p"] s [of "ep_request_id p"] s [of "ep_response p"] s [of "ep_command p"] s [of "ep_session_id p"]
    s [of "ep_agent_id p"] s [of "ep_plugin_id p"]
  show ?thesis
    using text_le_cost [of esc num digits p] strings l e o
    unfolding members_cost_def bound_present payload_strings_def
    by (simp del: map_option_case option.map_comp)
qed

text \<open>
  The size limit on events, when \<open>serde_json\<close> writes compact text in which a byte of a string takes at
  most six bytes and a number at most 32. An event that is rejected is over 256 KiB and reaches neither
  the callback nor the renderer; one that is accepted reaches both, once, unchanged, and is at most half
  as long again as the limit, and within it when it carries no metadata.
\<close>

theorem event_size_enforced:
  assumes esc: "\<And>s. esc s \<le> 6 * str_len s" and num: "\<And>n. num n \<le> 32"
    and digits: "\<And>i. ep_exit_code p = Some i \<Longrightarrow> digits i \<le> 11"
    and len: "payload_len p = Some (payload_text_len esc num digits p)"
  shows "case emit_plugin_event payload_len now uuid ty src p of
      (Inl e, calls) \<Rightarrow> MAX_PLUGIN_EVENT_BYTES < payload_text_len esc num digits p \<and> calls = []
    | (Inr ev, calls) \<Rightarrow> ev_payload ev = p \<and> calls = [OnPluginEvent ev, EmitPluginEvent ev] \<and>
        2 * payload_text_len esc num digits p \<le> 3 * MAX_PLUGIN_EVENT_BYTES \<and>
        (ep_metadata p = None \<longrightarrow> payload_text_len esc num digits p \<le> MAX_PLUGIN_EVENT_BYTES)"
proof -
  let ?n = "payload_text_len esc num digits p" and ?c = "present (map_option (compact_len esc num) (ep_metadata p))"
    and ?b = "present (map_option json_size_upper_bound (ep_metadata p))"
  have le: "?n + 50 + ?b \<le> payload_size_upper_bound p + ?c" by (rule text_le_bound [OF esc digits])
  have m: "2 * ?c \<le> 3 * ?b"
    using add_leD1 [OF compact_le_bound [of esc num, OF esc num]] by (cases "ep_metadata p") (auto simp: present_def)
  have b: "?b \<le> payload_size_upper_bound p" by (simp add: bound_present)
  have *: "2 * ?n \<le> 3 * payload_size_upper_bound p" using le m b by linarith
  moreover have "?n \<le> payload_size_upper_bound p" if "ep_metadata p = None" using le that by (simp add: present_def)
  ultimately show ?thesis by (auto simp: emit_plugin_event_def len len_over_def Let_def)
qed

text \<open>
  The estimate leaves out the commas of an array: 130943 empty strings are accepted although their
  text is 392843 bytes long, whatever the lengths of escapes and digits.
\<close>

definition comma_payload :: "nat \<Rightarrow> int plugin_event_payload" where
  "comma_payload n =
    \<lparr>ep_level = None, ep_message = None, ep_title = None, ep_metadata = Some (VArray (replicate n (VString []))), ep_task_title = None,
     ep_result = None, ep_error = None, ep_prompt = None, ep_options = None, ep_request_id = None, ep_response = None,
     ep_exit_code = None, ep_command = None, ep_session_id = None, ep_agent_id = None, ep_plugin_id = None\<rparr>"

lemma comma_bound: "payload_size_upper_bound (comma_payload n) = 258 + 2 * n"
  by (simp add: payload_size_upper_bound_def payload_strings_def comma_payload_def sum_list_replicate str_len_def)

lemma comma_text: "esc [] = 0 \<Longrightarrow> 0 < n \<Longrightarrow> payload_text_len esc num digits (comma_payload n) = 14 + 3 * n"
  by (simp add: payload_text_len_def payload_members_def payload_strings_def comma_payload_def sum_list_replicate List.map_filter_simps)

lemma oversized_event_accepted:
  assumes "esc [] = 0"
  shows "fst (emit_plugin_event payload_len now uuid ty src (comma_payload 130943)) \<noteq> Inl e"
    and "MAX_PLUGIN_EVENT_BYTES < payload_text_len esc num digits (comma_payload 130943)"
  using assms by (simp_all add: emit_plugin_event_def comma_bound comma_text MAX_PLUGIN_EVENT_BYTES_def Let_def)

section \<open>Discovery\<close>

lemma register_plugin_cases:
  assumes "register_plugin pj now m st = (st', r, cbs)"
  obtains e where "r = Inl e" "st' = st"
  | entry where "r = Inr (m_id m)" "st' = st\<lparr>pi_plugins := AList.update (m_id m) entry (pi_plugins st)\<rparr>"
    "en_manifest entry = m" "en_status entry = PsInstalled" "validate_plugin_manifest pj m = Inr ()"
    "\<And>x. map_of (pi_plugins st) (m_id m) = Some x \<Longrightarrow> en_status x = PsDisabled"
  using assms
  by (auto simp: register_plugin_def Let_def split: sum.splits option.splits if_splits)

text \<open>An entry that is not disabled is not replaced by discovery; what is reported is installed.\<close>

lemma register_found_keeps:
  assumes "map_of (pi_plugins st) i = Some x" "en_status x \<noteq> PsDisabled"
    "register_found pj now rs st = (st', (ids, errs), cbs)"
  shows "map_of (pi_plugins st') i = Some x"
  using assms
proof (induction rs arbitrary: st st' ids errs cbs)
  case (Cons a rs)
  show ?case
  proof (cases a)
    case (Inl e)
    then show ?thesis using Cons.IH [OF Cons.prems(1,2)] Cons.prems(3) by (auto split: prod.splits)
  next
    case (Inr m)
    obtain st1 r c1 where r: "register_plugin pj now m st = (st1, r, c1)" using prod_cases3 by blast
    have "map_of (pi_plugins st1) i = Some x"
      using r by (rule register_plugin_cases) (use Cons.prems(1,2) in \<open>auto simp: update_conv'\<close>)
    then show ?thesis
      using Cons.IH [of st1] Cons.prems(2,3) r by (cases r) (auto simp: Inr split: prod.splits)
  qed
qed simp

lemma register_found_reports:
  assumes "register_found pj now rs st = (st', (ids, errs), cbs)" "i \<in> set ids"
  shows "\<exists>m entry. Inr m \<in> set rs \<and> m_id m = i \<and> validate_plugin_manifest pj m = Inr () \<and>
    map_of (pi_plugins st') i = Some entry \<and> en_manifest entry = m \<and> en_status entry = PsInstalled"
  using assms
proof (induction rs arbitrary: st st' ids errs cbs)
  case (Cons a rs)
  show ?case
  proof (cases a)
    case (Inl e)
    then show ?thesis using Cons.IH [of st st' ids] Cons.prems by (auto split: prod.splits)
  next
    case (Inr m)
    obtain st1 r c1 where r: "register_plugin pj now m st = (st1, r, c1)" using prod_cases3 by blast
    obtain ids1 errs1 cbs1 where rest: "register_found pj now rs st1 = (st', (ids1, errs1), cbs1)"
      using Cons.prems(1) r by (cases r) (auto simp: Inr split: prod.splits)
    note old = Cons.IH [OF rest]
    from r show ?thesis
    proof (rule register_plugin_cases)
      fix e assume "r = Inl e"
      then show ?thesis using old Cons.prems r rest by (fastforce simp: Inr)
    next
      fix entry
      assume new: "r = Inr (m_id m)" "st1 = st\<lparr>pi_plugins := AList.update (m_id m) entry (pi_plugins st)\<rparr>"
        "en_manifest entry = m" "en_status entry = PsInstalled" "validate_plugin_manifest pj m = Inr ()"
      then have "map_of (pi_plugins st') (m_id m) = Some entry"
        by (intro register_found_keeps [OF _ _ rest]) (simp_all add: update_conv')
      moreover have "i = m_id m \<or> i \<in> set ids1" using Cons.prems r rest new(1) by (auto simp: Inr)
      ultimately show ?thesis using new old by (auto simp: Inr)
    qed
  qed
qed simp

lemma register_found_inv:
  assumes "plugin_inv st" "register_found pj now rs st = (st', r, cbs)"
  shows "plugin_inv st'"
  using assms
proof (induction rs arbitrary: st st' r cbs)
  case (Cons a rs)
  show ?case
  proof (cases a)
    case (Inl e)
    then show ?thesis using Cons.IH [OF Cons.prems(1)] Cons.prems(2) by (auto split: prod.splits)
  next
    case (Inr m)
    obtain st1 q c1 where q: "register_plugin pj now m st = (st1, q, c1)" using prod_cases3 by blast
    then have "plugin_inv st1" using register_plugin_inv [OF Cons.prems(1), of pj now m] by simp
    then show ?thesis using Cons.IH [of st1] Cons.prems(2) q by (cases q) (auto simp: Inr split: prod.splits)
  qed
qed simp

lemma discover_entry_source:
  "Inr m \<in> set (discover_entry pj parse entry) \<Longrightarrow>
    \<exists>d n content. entry = Some d \<and> file_extension (di_name d) = Some (lit ''json'') \<and> di_meta_len d = Some n \<and> n \<le> MAX_MANIFEST_BYTES \<and>
      di_text d = Some content \<and> parse content = Some m"
  by (auto simp: discover_entry_def split: option.splits if_splits sum.splits)

text \<open>
  Discovery registers only what it should. Each id that it reports is that of a manifest parsed from a
  file of the directory with extension \<open>json\<close> and at most 1 MiB, which passes validation and is
  installed afterwards; a plugin that was registered and not disabled keeps its entry, whatever the files claim; and the
  invariant of the manager holds afterwards.
\<close>

theorem discovery_registers_validated:
  assumes "plugin_inv st" "discover_and_register pj parse now (Some ds) st = (st', Inr (ids, errs), cbs)"
  shows "plugin_inv st' \<and>
    (i \<in> set ids \<longrightarrow> (\<exists>d n content m entry. Some d \<in> set ds \<and> file_extension (di_name d) = Some (lit ''json'') \<and>
      di_meta_len d = Some n \<and> n \<le> MAX_MANIFEST_BYTES \<and> di_text d = Some content \<and> parse content = Some m \<and> m_id m = i \<and>
      validate_plugin_manifest pj m = Inr () \<and>
      map_of (pi_plugins st') i = Some entry \<and> en_manifest entry = m \<and> en_status entry = PsInstalled)) \<and>
    (map_of (pi_plugins st) j = Some x \<and> en_status x \<noteq> PsDisabled \<longrightarrow> map_of (pi_plugins st') j = Some x)"
proof -
  let ?rs = "concat (map (discover_entry pj parse) ds)"
  have r: "register_found pj now ?rs st = (st', (ids, errs), cbs)"
    using assms(2) by (simp add: discover_and_register_def discover_plugins_def split: prod.splits)
  have "\<exists>d n content m entry. Some d \<in> set ds \<and> file_extension (di_name d) = Some (lit ''json'') \<and>
      di_meta_len d = Some n \<and> n \<le> MAX_MANIFEST_BYTES \<and> di_text d = Some content \<and> parse content = Some m \<and> m_id m = i \<and>
      validate_plugin_manifest pj m = Inr () \<and>
      map_of (pi_plugins st') i = Some entry \<and> en_manifest entry = m \<and> en_status entry = PsInstalled" if "i \<in> set ids"
  proof -
    obtain m entry where m: "Inr m \<in> set ?rs" "m_id m = i" "validate_plugin_manifest pj m = Inr ()"
      "map_of (pi_plugins st') i = Some entry" "en_manifest entry = m" "en_status entry = PsInstalled"
      using register_found_reports [OF r \<open>i \<in> set ids\<close>] by blast
    from m(1) obtain en where "en \<in> set ds" "Inr m \<in> set (discover_entry pj parse en)" by auto
    with discover_entry_source [of m pj parse en] m(2-) show ?thesis by blast
  qed
  then show ?thesis using register_found_inv [OF assms(1) r] register_found_keeps [OF _ _ r] by blast
qed

section \<open>Witnesses\<close>

text \<open>Strings that need no escape, numbers of one digit, and one event of a few bytes.\<close>

definition demo_payload :: "int plugin_event_payload" where
  "demo_payload = (comma_payload 0)\<lparr>ep_metadata := None, ep_message := Some (lit ''hi'')\<rparr>"

theorem event_size_enforced_witness:
  "payload_text_len str_len (\<lambda>n. 1) (\<lambda>i. 1) demo_payload \<le> MAX_PLUGIN_EVENT_BYTES"
proof -
  let ?len = "\<lambda>p. Some (payload_text_len str_len (\<lambda>n. 1) (\<lambda>i. 1) p)"
  let ?src = "\<lparr>es_session_id = [], es_pane_id = None, es_agent_type = [], es_agent_id = None\<rparr>"
  have "case emit_plugin_event ?len 0 (lit ''0123456789ab'') PNotification ?src demo_payload of
      (Inl e, calls) \<Rightarrow> MAX_PLUGIN_EVENT_BYTES < payload_text_len str_len (\<lambda>n. 1) (\<lambda>i. 1) demo_payload \<and> calls = []
    | (Inr ev, calls) \<Rightarrow> ev_payload ev = demo_payload \<and> calls = [OnPluginEvent ev, EmitPluginEvent ev] \<and>
        2 * payload_text_len str_len (\<lambda>n. 1) (\<lambda>i. 1) demo_payload \<le> 3 * MAX_PLUGIN_EVENT_BYTES \<and>
        (ep_metadata demo_payload = None \<longrightarrow> payload_text_len str_len (\<lambda>n. 1) (\<lambda>i. 1) demo_payload \<le> MAX_PLUGIN_EVENT_BYTES)"
    by (rule event_size_enforced) simp_all
  moreover have "str_len (lit ''hi'') = 2" by code_simp
  then have "payload_size_upper_bound demo_payload \<le> MAX_PLUGIN_EVENT_BYTES"
    by (simp add: payload_size_upper_bound_def payload_strings_def demo_payload_def comma_payload_def MAX_PLUGIN_EVENT_BYTES_def)
  ultimately show ?thesis by (simp add: emit_plugin_event_def Let_def demo_payload_def comma_payload_def)
qed

definition demo_dir :: "dir_item option list" where
  "demo_dir =
    [None, Some \<lparr>di_path = lit ''p/notes.txt'', di_name = lit ''notes.txt'', di_meta_len = Some 4, di_text = Some (lit ''{}'')\<rparr>,
     Some \<lparr>di_path = lit ''p/demo.json'', di_name = lit ''demo.json'', di_meta_len = Some 4, di_text = Some (lit ''demo'')\<rparr>]"

definition demo_parse :: "ustr \<Rightarrow> int plugin_manifest option" where
  "demo_parse s = (if s = lit ''demo'' then Some demo_manifest else None)"

theorem discovery_registers_validated_witness:
  "\<exists>entry. map_of (pi_plugins (fst (discover_and_register demo_json_env demo_parse 7 (Some demo_dir) plugin_manager_new))) (lit ''demo'') =
    Some entry \<and> en_status entry = PsInstalled"
proof -
  obtain st' cbs where r: "discover_and_register demo_json_env demo_parse 7 (Some demo_dir) plugin_manager_new =
      (st', Inr ([lit ''demo''], [ManifestIo]), cbs)"
  proof -
    have "fst (snd (discover_and_register demo_json_env demo_parse 7 (Some demo_dir) plugin_manager_new)) =
        Inr ([lit ''demo''], [ManifestIo])"
    proof -
      have "file_extension (lit ''notes.txt'') = Some (lit ''txt'')" "file_extension (lit ''demo.json'') = Some (lit ''json'')"
        "lit ''txt'' \<noteq> lit ''json''" "m_id demo_manifest = lit ''demo''" by code_simp+
      then show ?thesis
        using demo_manifest_ok
        by (simp add: discover_and_register_def discover_plugins_def discover_entry_def demo_dir_def demo_parse_def
            MAX_MANIFEST_BYTES_def register_plugin_def plugin_manager_new_def MAX_PLUGINS_def Let_def)
    qed
    then show ?thesis using that by (metis prod.collapse)
  qed
  show ?thesis using discovery_registers_validated [OF plugin_inv_new r, of "lit ''demo''"] by (auto simp: r)
qed

end
