(* ===== verification/Store_Files.thy ===== *)
theory Store_Files
  imports Store_Disk
begin

text \<open>
  The directory of Store_Disk as a map from names to contents, which is what a running program sees of it.
  No two names share an inode, so that an operation changes the names it mentions and no other.
\<close>

definition disk_ok :: "disk \<Rightarrow> bool" where
  "disk_ok fs \<longleftrightarrow> disk_wf fs \<and> (\<forall>a b i. map_of (d_dir fs) a = Some i \<and> map_of (d_dir fs) b = Some i \<longrightarrow> a = b)"

lemma disk_ok_empty: "disk_ok disk_empty"
  using disk_wf_empty by (simp add: disk_ok_def disk_empty_def)

lemma disk_ok_wf: "disk_ok fs \<Longrightarrow> disk_wf fs"
  by (simp add: disk_ok_def)

lemma disk_ok_bound: "disk_ok fs \<Longrightarrow> map_of (d_dir fs) n = Some i \<Longrightarrow> i < d_next fs"
  by (auto simp: disk_ok_def disk_wf_def)

lemma disk_ok_inj: "disk_ok fs \<Longrightarrow> map_of (d_dir fs) a = Some i \<Longrightarrow> map_of (d_dir fs) b = Some i \<Longrightarrow> a = b"
  by (auto simp: disk_ok_def)

text \<open>What each operation does to the map.\<close>

fun file_exec :: "fs_op \<Rightarrow> (fname \<rightharpoonup> bytes) \<Rightarrow> (fname \<rightharpoonup> bytes)" where
  "file_exec (CreateNew n) m = m(n \<mapsto> [])"
| "file_exec (CreateTrunc n) m = m(n \<mapsto> [])"
| "file_exec (OpenAppend n) m = (if m n = None then m(n \<mapsto> []) else m)"
| "file_exec (WriteAll n c) m = m(n \<mapsto> the (m n) @ c)"
| "file_exec (SyncFile n) m = m"
| "file_exec (Rename a b) m = m(a := None, b := m a)"
| "file_exec SyncDir m = m"
| "file_exec (RemoveFile n) m = m(n := None)"

lemma disk_ok_exec:
  assumes ok: "disk_ok fs" and ex: "fs_exec op fs = Some fs'"
  shows "disk_ok fs'"
proof -
  have "disk_wf fs'" using disk_wf_exec [OF disk_ok_wf [OF ok] ex] .
  moreover have fresh: "map_of (d_dir fs) n \<noteq> Some (d_next fs)" for n using disk_ok_bound [OF ok] by blast
  have "a = b" if "map_of (d_dir fs') a = Some i" "map_of (d_dir fs') b = Some i" for a b i
    using that ex fresh disk_ok_inj [OF ok]
    by (cases op) (auto simp: set_dir_def update_conv' delete_conv' split: if_splits option.splits)
  ultimately show ?thesis by (simp add: disk_ok_def)
qed

lemma read_create:
  assumes "disk_ok fs"
  shows "read_file ((set_dir (AList.update n (d_next fs) (d_dir fs)) fs)
      \<lparr>d_data := (d_data fs)(d_next fs := []), d_synced := s, d_next := k\<rparr>) = (read_file fs)(n \<mapsto> [])"
proof
  fix m
  show "read_file ((set_dir (AList.update n (d_next fs) (d_dir fs)) fs)
      \<lparr>d_data := (d_data fs)(d_next fs := []), d_synced := s, d_next := k\<rparr>) m = ((read_file fs)(n \<mapsto> [])) m"
    using disk_ok_bound [OF assms, of m] by (cases "map_of (d_dir fs) m") (auto simp: read_file_def set_dir_def update_conv')
qed

lemma read_data_update:
  assumes "disk_ok fs" "map_of (d_dir fs) n = Some i"
  shows "read_file (fs\<lparr>d_data := (d_data fs)(i := c), d_synced := s\<rparr>) = (read_file fs)(n \<mapsto> c)"
proof
  fix m
  show "read_file (fs\<lparr>d_data := (d_data fs)(i := c), d_synced := s\<rparr>) m = ((read_file fs)(n \<mapsto> c)) m"
    using assms(2) disk_ok_inj [OF assms(1), of n i m] by (cases "map_of (d_dir fs) m") (auto simp: read_file_def)
qed

lemma file_exec_refines:
  assumes ok: "disk_ok fs" and ex: "fs_exec op fs = Some fs'"
  shows "read_file fs' = file_exec op (read_file fs)"
proof (cases op)
  case (CreateNew n)
  then show ?thesis using ex read_create [OF ok] by (auto split: if_splits)
next
  case (CreateTrunc n)
  then show ?thesis using ex read_create [OF ok] read_data_update [OF ok, of n] by (auto split: option.splits)
next
  case (OpenAppend n)
  then show ?thesis using ex read_create [OF ok, where n = n] by (auto simp: read_file_def [of fs n] split: option.splits)
next
  case (WriteAll n c)
  then show ?thesis using ex read_data_update [OF ok, of n] by (auto simp: read_file_def [of fs n])
next
  case (Rename a b)
  then show ?thesis
    using ex by (auto simp: fun_eq_iff read_file_def set_dir_def update_conv' delete_conv')
next
  case (RemoveFile n)
  then show ?thesis
    using ex by (auto simp: fun_eq_iff read_file_def set_dir_def delete_conv' split: if_splits)
qed (use ex in \<open>auto simp: read_file_def fun_eq_iff\<close>)

lemma disk_ok_try: "disk_ok fs \<Longrightarrow> disk_ok (fs_try op fs)"
  by (auto simp: fs_try_def intro: disk_ok_exec split: option.split)

lemma disk_ok_cut: "disk_ok fs \<Longrightarrow> disk_ok (fs_cut k op fs)"
  by (cases op) (simp_all add: disk_ok_try)

lemma disk_ok_run: "disk_ok fs \<Longrightarrow> disk_ok (fst (run_ops fault ops fs))"
  by (induction fault ops fs rule: run_ops.induct)
    (auto simp: disk_ok_cut split: option.split dest: disk_ok_exec)

lemma read_try_remove: "disk_ok fs \<Longrightarrow> m \<noteq> n \<Longrightarrow> read_file (fs_try (RemoveFile n) fs) m = read_file fs m"
proof -
  assume ok: "disk_ok fs" and mn: "m \<noteq> n"
  show ?thesis
    using file_exec_refines [OF ok, of "RemoveFile n"] mn by (auto simp: fs_try_def split: option.split)
qed

lemma read_try_rename:
  assumes "disk_ok fs" "map_of (d_dir fs) a = Some i"
  shows "read_file (fs_try (Rename a b) fs) = (read_file fs)(a := None, b := read_file fs a)"
  using file_exec_refines [OF assms(1), of "Rename a b"] assms(2) by (auto simp: fs_try_def)

section \<open>Durable replacement through a temporary file\<close>

text \<open>
  \<open>write_file_durable\<close> of \<open>session.rs\<close>. The operations have the numbers 0 to 4 in \<open>io_fault\<close>, as in
  \<open>atomic_write\<close>; \<open>du_exists\<close> says whether a failing rename reports \<open>AlreadyExists\<close>. The temporary file is removed only
  when one of the first four operations has failed.
\<close>

record dur_env = io_env +
  du_exists :: bool

definition fault_at :: "nat \<Rightarrow> 'e io_env_scheme \<Rightarrow> bool" where
  "fault_at i env \<longleftrightarrow> (case io_fault env of Some (j, k) \<Rightarrow> j = i | None \<Rightarrow> False)"

definition write_file_durable :: "dur_env \<Rightarrow> fname \<Rightarrow> bytes \<Rightarrow> bool \<Rightarrow> disk \<Rightarrow> disk \<times> bool" where
  "write_file_durable env path content replace_existing fs =
    (let temp_path = temp_name path (io_uuid env);
         (fs1, created) = run_ops (io_fault env) [CreateNew temp_path, WriteAll temp_path content, SyncFile temp_path] fs;
         renamed = (if fault_at 3 env then None else fs_exec (Rename temp_path path) fs1);
         remove_temp = (\<lambda>fs. if io_cleanup env then fs_try (RemoveFile temp_path) fs else fs);
         sync_parent = (\<lambda>fs. if fault_at 4 env then (fs, False) else (fs_try SyncDir fs, True))
     in if \<not> created then (remove_temp fs1, False)
        else (case renamed of
            Some fs2 \<Rightarrow> sync_parent fs2
          | None \<Rightarrow> if \<not> replace_existing \<and> du_exists env then sync_parent (remove_temp fs1) else (remove_temp fs1, False)))"

lemma read_try_sync: "read_file (fs_try SyncDir fs) = read_file fs"
  by (auto simp: fs_try_def read_file_def fun_eq_iff)

lemma run_ops_ConsE:
  assumes "run_ops fault (op # ops) fs = (fs', True)"
  obtains fs1 fault' where "fs_exec op fs = Some fs1" "run_ops fault' ops fs1 = (fs', True)"
  using assms by (cases "(fault, op # ops, fs)" rule: run_ops.cases) (auto split: option.splits)

text \<open>The three operations on the temporary file.\<close>

lemma run_temp_ops:
  assumes ok: "disk_ok fs" and r: "run_ops fault [CreateNew t, WriteAll t c, SyncFile t] fs = (fs1, created)"
  shows "disk_ok fs1" "m \<noteq> t \<Longrightarrow> read_file fs1 m = read_file fs m"
    and "created \<Longrightarrow> read_file fs1 t = Some c \<and> read_file fs t = None"
proof -
  show ok1: "disk_ok fs1" using disk_ok_run [OF ok, of fault "[CreateNew t, WriteAll t c, SyncFile t]"] r by simp
  have step: "read_file (fst (run_ops fault' ops fs')) m = read_file fs' m"
    if "disk_ok fs'" "m \<noteq> t" "set ops \<subseteq> {CreateNew t, SyncFile t} \<union> range (WriteAll t)" for fault' ops fs'
    using that
  proof (induction fault' ops fs' rule: run_ops.induct)
    case (2 k op ops fs')
    then show ?case using file_exec_refines [OF "2.prems"(1), of "WriteAll t (take k c)" for c]
      by (cases op) (auto simp: fs_try_def split: option.split)
  next
    case (3 i k op ops fs')
    have "read_file fs2 m = read_file fs' m" if "fs_exec op fs' = Some fs2" for fs2
      using file_exec_refines [OF "3.prems"(1) that] "3.prems"(2,3) by auto
    then show ?case using 3 disk_ok_exec [OF "3.prems"(1)] by (auto split: option.split)
  next
    case (4 op ops fs')
    have "read_file fs2 m = read_file fs' m" if "fs_exec op fs' = Some fs2" for fs2
      using file_exec_refines [OF "4.prems"(1) that] "4.prems"(2,3) by auto
    then show ?case using 4 disk_ok_exec [OF "4.prems"(1)] by (auto split: option.split)
  qed simp
  show "read_file fs1 m = read_file fs m" if "m \<noteq> t"
    using step [OF ok that, of "[CreateNew t, WriteAll t c, SyncFile t]" fault] r by auto
  show "read_file fs1 t = Some c \<and> read_file fs t = None" if "created"
  proof -
    obtain fs2 fs3 where e: "fs_exec (CreateNew t) fs = Some fs2" "fs_exec (WriteAll t c) fs2 = Some fs3" "fs_exec (SyncFile t) fs3 = Some fs1"
    proof -
      have "run_ops fault [CreateNew t, WriteAll t c, SyncFile t] fs = (fs1, True)" using r \<open>created\<close> by simp
      then show thesis by (elim run_ops_ConsE) (simp only: run_ops.simps prod.inject, rule that)
    qed
    have ok2: "disk_ok fs2" by (rule disk_ok_exec [OF ok e(1)])
    have ok3: "disk_ok fs3" by (rule disk_ok_exec [OF ok2 e(2)])
    have "read_file fs1 t = Some c"
      using file_exec_refines [OF ok e(1)] file_exec_refines [OF ok2 e(2)] file_exec_refines [OF ok3 e(3)] by simp
    moreover have "read_file fs t = None" using e(1) by (auto simp: read_file_def split: if_splits)
    ultimately show ?thesis ..
  qed
qed

text \<open>
  The whole of it: on success the file has the new content, or was left alone because it exists already;
  on failure the file has the old content or the new, and no other name but the temporary one has changed.
\<close>

lemma write_durable_effect:
  assumes ok: "disk_ok fs" and w: "write_file_durable env path content replace fs = (fs', written)"
  shows "disk_ok fs'"
    and "written \<Longrightarrow> replace \<Longrightarrow> read_file fs' = (read_file fs)(path \<mapsto> content)"
    and "n \<noteq> temp_name path (io_uuid env) \<Longrightarrow> n \<noteq> path \<Longrightarrow> read_file fs' n = read_file fs n"
    and "read_file fs' path = read_file fs path \<or> read_file fs' path = Some content"
proof -
  define t where "t = temp_name path (io_uuid env)"
  have tp: "t \<noteq> path" by (simp add: t_def)
  obtain fs1 created where r: "run_ops (io_fault env) [CreateNew t, WriteAll t content, SyncFile t] fs = (fs1, created)" by fastforce
  note run = run_temp_ops [OF ok r]
  define remove where "remove = (\<lambda>fs. if io_cleanup env then fs_try (RemoveFile t) fs else fs)"
  have rm: "disk_ok (remove fs1)" "m \<noteq> t \<Longrightarrow> read_file (remove fs1) m = read_file fs m" for m
    using run(1,2) by (auto simp: remove_def disk_ok_try read_try_remove)
  have kept: "disk_ok fs' \<and> (written \<longrightarrow> replace \<longrightarrow> False) \<and> (\<forall>n. n \<noteq> t \<longrightarrow> read_file fs' n = read_file fs n)"
    if "fs' = remove fs1 \<or> fs' = fs_try SyncDir (remove fs1)" "written \<longrightarrow> \<not> replace"
    using that rm by (auto simp: disk_ok_try read_try_sync)
  have "disk_ok fs' \<and> (written \<longrightarrow> replace \<longrightarrow> read_file fs' = (read_file fs)(path \<mapsto> content)) \<and>
      (\<forall>n. n \<noteq> t \<longrightarrow> n \<noteq> path \<longrightarrow> read_file fs' n = read_file fs n) \<and>
      (read_file fs' path = read_file fs path \<or> read_file fs' path = Some content)"
  proof (cases "created \<and> \<not> fault_at 3 env")
    case False
    then have "fs' = remove fs1 \<or> fs' = fs_try SyncDir (remove fs1)" "written \<longrightarrow> \<not> replace"
      using w r by (auto simp: write_file_durable_def Let_def t_def [symmetric] remove_def split: if_splits prod.splits)
    then show ?thesis using kept tp by auto
  next
    case True
    then have c: "read_file fs1 t = Some content" "read_file fs t = None" using run(3) by auto
    then obtain i where i: "map_of (d_dir fs1) t = Some i" by (auto simp: read_file_def)
    then obtain fs2 where fs2: "fs_exec (Rename t path) fs1 = Some fs2" by simp
    have eq: "read_file fs2 = (read_file fs)(path \<mapsto> content)"
    proof
      fix m
      show "read_file fs2 m = ((read_file fs)(path \<mapsto> content)) m"
        using file_exec_refines [OF run(1) fs2] run(2) [of m] c tp by auto
    qed
    have "fs' = fs2 \<or> fs' = fs_try SyncDir fs2"
      using w r True fs2 by (auto simp: write_file_durable_def Let_def t_def [symmetric] split: if_splits)
    then show ?thesis using eq disk_ok_exec [OF run(1) fs2] by (auto simp: disk_ok_try read_try_sync)
  qed
  then show "disk_ok fs'" "written \<Longrightarrow> replace \<Longrightarrow> read_file fs' = (read_file fs)(path \<mapsto> content)"
    "n \<noteq> temp_name path (io_uuid env) \<Longrightarrow> n \<noteq> path \<Longrightarrow> read_file fs' n = read_file fs n"
    "read_file fs' path = read_file fs path \<or> read_file fs' path = Some content"
    by (auto simp: t_def)
qed

lemma write_durable_succeeds:
  assumes "disk_ok fs" "io_fault env = None" "read_file fs (temp_name path (io_uuid env)) = None"
  shows "snd (write_file_durable env path content replace fs)"
proof -
  have n: "map_of (d_dir fs) (temp_name path (io_uuid env)) = None" using assms(3) by (simp add: read_file_def)
  then show ?thesis
    using assms(2) by (simp add: write_file_durable_def Let_def fault_at_def set_dir_def update_conv')
qed

section \<open>Appending\<close>

text \<open>\<open>OpenOptions::create(true).append(true)\<close>, \<open>write_all\<close>, \<open>sync_all\<close>.\<close>

definition append_ops :: "fname \<Rightarrow> bytes \<Rightarrow> fs_op list" where
  "append_ops path line = [OpenAppend path, WriteAll path line, SyncFile path]"

lemma append_effect:
  assumes ok: "disk_ok fs" and r: "run_ops fault (append_ops path line) fs = (fs', written)" and old: "read_file fs path = Some old"
  shows "disk_ok fs'" and "n \<noteq> path \<Longrightarrow> read_file fs' n = read_file fs n"
    and "\<exists>k. read_file fs' path = Some (old @ take k line)"
    and "written \<Longrightarrow> read_file fs' = (read_file fs)(path \<mapsto> old @ line)"
proof -
  obtain i where i: "map_of (d_dir fs) path = Some i" using old by (auto simp: read_file_def)
  then have o1: "fs_exec (OpenAppend path) fs = Some fs" by simp
  have w: "\<exists>fs1. fs_exec (WriteAll path l) fs = Some fs1 \<and> disk_ok fs1 \<and> read_file fs1 = (read_file fs)(path \<mapsto> old @ l)" for l
  proof -
    obtain fs1 where f: "fs_exec (WriteAll path l) fs = Some fs1" using i by auto
    then show ?thesis using file_exec_refines [OF ok f] disk_ok_exec [OF ok f] old by auto
  qed
  have s: "fs_exec (SyncFile path) fs1 = Some fs2 \<Longrightarrow> read_file fs2 = read_file fs1" for fs1 fs2
    by (auto simp: read_file_def fun_eq_iff)
  have cut: "\<exists>k. read_file fs' = (read_file fs)(path \<mapsto> old @ take k line)" if c: "fs' = fs \<or> (\<exists>k. fs' = fs_try (WriteAll path (take k line)) fs)"
  proof (cases "fs' = fs")
    case True
    then have "read_file fs' = (read_file fs)(path \<mapsto> old @ take 0 line)" using old by auto
    then show ?thesis by blast
  next
    case False
    then obtain k where "fs' = fs_try (WriteAll path (take k line)) fs" using c by blast
    then show ?thesis using w [of "take k line"] by (auto simp: fs_try_def simp del: fs_exec.simps)
  qed
  obtain fs1 where fs1: "fs_exec (WriteAll path line) fs = Some fs1" "disk_ok fs1" "read_file fs1 = (read_file fs)(path \<mapsto> old @ line)"
    using w by blast
  have cases: "\<not> written \<and> (fs' = fs \<or> (\<exists>k. fs' = fs_try (WriteAll path (take k line)) fs)) \<or>
      fs' = fs1 \<and> \<not> written \<or> fs_exec (SyncFile path) fs1 = Some fs'"
  proof (cases fault)
    case None
    then show ?thesis using r o1 fs1(1) by (auto simp: append_ops_def simp del: fs_exec.simps split: option.splits)
  next
    case (Some p)
    obtain j k where p: "p = (j, k)" by fastforce
    consider "j = 0" | "j = 1" | "j = 2" | l where "j = Suc (Suc (Suc l))" by (metis One_nat_def Suc_1 not0_implies_Suc)
    then show ?thesis
      using r o1 fs1(1) Some p
      by cases (auto simp: append_ops_def numeral_2_eq_2 simp del: fs_exec.simps split: option.splits)
  qed
  show "disk_ok fs'" using disk_ok_run [OF ok, of fault "append_ops path line"] r by simp
  have full: "read_file fs' = (read_file fs)(path \<mapsto> old @ take (length line) line)" if "fs' = fs1 \<or> fs_exec (SyncFile path) fs1 = Some fs'"
    using that s [of fs1 fs'] fs1(3) by (auto simp del: fs_exec.simps)
  have "\<exists>k. read_file fs' = (read_file fs)(path \<mapsto> old @ take k line)" using cases cut full by blast
  then show "n \<noteq> path \<Longrightarrow> read_file fs' n = read_file fs n" "\<exists>k. read_file fs' path = Some (old @ take k line)" by auto
  show "written \<Longrightarrow> read_file fs' = (read_file fs)(path \<mapsto> old @ line)" using cases full by auto
qed

end
