(* ===== verification/Session_Log.thy ===== *)
theory Session_Log
  imports Store_Files Agent_Lifecycle
begin

text \<open>
  \<open>crates/athena-store/src/session.rs\<close> and the chat sessions of \<open>types.rs\<close>. A session is two files of one
  directory, a small record \<open>id.json\<close> and the log \<open>id.jsonl\<close> with one message per line; images are
  files of another directory, named by their hash. Reading and writing go through the disk of Store_Disk, so
  that every write may fail or be cut off. The conversions of \<open>serde_json\<close>, of the crate
  \<open>base64\<close> and of \<open>sha2\<close> are arguments; strings are the bytes of their UTF-8 form. An operation that holds the update
  lock runs to its end, so operations are functions on the two directories.
\<close>

section \<open>Sessions\<close>

datatype message_role = RSystem | RUser | RAthena

record image_ref =
  ir_image_id :: bytes
  ir_media_type :: bytes
  ir_name :: "bytes option"

record session_message =
  sm_id :: bytes
  sm_role :: message_role
  sm_content :: bytes
  sm_timestamp :: nat
  sm_is_error :: "bool option"
  sm_image_refs :: "image_ref list option"

record chat_session =
  cs_id :: bytes
  cs_title :: bytes
  cs_created_at :: nat
  cs_updated_at :: nat
  cs_messages :: "session_message list"

definition MAX_SESSION_MESSAGES :: nat where
  "MAX_SESSION_MESSAGES = 10000"

definition is_system_message :: "session_message \<Rightarrow> bool" where
  "is_system_message m \<longleftrightarrow> sm_role m = RSystem"

text \<open>The loop of \<open>add_message_evicting\<close>, for any cap.\<close>

definition drop_idx :: "session_message list \<Rightarrow> nat" where
  "drop_idx ms = (case position (\<lambda>m. \<not> is_system_message m) ms of Some i \<Rightarrow> i | None \<Rightarrow> 0)"

function evict :: "nat \<Rightarrow> session_message list \<Rightarrow> session_message list" where
  "evict cap ms =
    (if cap < length ms then evict cap (take (drop_idx ms) ms @ drop (Suc (drop_idx ms)) ms) else ms)"
  by pat_completeness auto
termination
proof (relation "measure (\<lambda>(cap, ms). length ms)")
  fix cap :: nat and ms :: "session_message list"
  assume "cap < length ms"
  moreover from this have "drop_idx ms < length ms"
    by (auto simp: drop_idx_def position_Some split: option.split)
  ultimately show "((cap, take (drop_idx ms) ms @ drop (Suc (drop_idx ms)) ms), cap, ms) \<in> measure (\<lambda>(cap, ms). length ms)"
    by simp
qed simp

declare evict.simps [simp del]

definition add_message_evicting :: "session_message \<Rightarrow> chat_session \<Rightarrow> chat_session" where
  "add_message_evicting msg s = s\<lparr>cs_messages := evict MAX_SESSION_MESSAGES (cs_messages s @ [msg])\<rparr>"

definition truncate_messages :: "chat_session \<Rightarrow> chat_session" where
  "truncate_messages s =
    (let len = length (cs_messages s)
     in if MAX_SESSION_MESSAGES < len then s\<lparr>cs_messages := drop (len - MAX_SESSION_MESSAGES) (cs_messages s)\<rparr> else s)"

record session_list_item =
  li_id :: bytes
  li_title :: bytes
  li_created_at :: nat
  li_updated_at :: nat
  li_message_count :: nat
  li_last_message_preview :: bytes

text \<open>The record in \<open>id.json\<close>.\<close>

record session_meta =
  mt_id :: bytes
  mt_title :: bytes
  mt_created_at :: nat
  mt_updated_at :: nat
  mt_message_count :: nat
  mt_last_message_preview :: bytes

text \<open>\<open>content.chars().take(100)\<close> of the last message.\<close>

definition preview :: "session_message list \<Rightarrow> bytes" where
  "preview ms = (if ms = [] then [] else utf8_string (take 100 (utf8_chars (sm_content (last ms)))))"

definition meta_from_session :: "chat_session \<Rightarrow> session_meta" where
  "meta_from_session s =
    \<lparr>mt_id = cs_id s, mt_title = cs_title s, mt_created_at = cs_created_at s, mt_updated_at = cs_updated_at s,
     mt_message_count = length (cs_messages s), mt_last_message_preview = preview (cs_messages s)\<rparr>"

section \<open>Names\<close>

datatype session_error =
    SeIo
  | SeJson
  | SeNotFound bytes
  | SeInvalidData string
  | SeCorrupt fname

text \<open>\<open>Path::components\<close> on Unix: the root, then the parts between slashes, without empty ones and inner dots.\<close>

datatype path_component = RootDir | CurDir | ParentDir | Normal bytes

definition component_of :: "bytes \<Rightarrow> path_component" where
  "component_of p = (if p = bytes_of ''.'' then CurDir else if p = bytes_of ''..'' then ParentDir else Normal p)"

definition path_components :: "bytes \<Rightarrow> path_component list" where
  "path_components p =
    (let parts = split_on (byte CHR ''/'') p;
         rest = (\<lambda>ps. map component_of (filter (\<lambda>q. q \<noteq> [] \<and> q \<noteq> bytes_of ''.'') ps))
     in case parts of
          [] \<Rightarrow> []
        | q # qs \<Rightarrow>
            if q = [] \<and> qs \<noteq> [] then RootDir # rest qs
            else if q = bytes_of ''.'' then CurDir # rest qs
            else rest (q # qs))"

definition validate_path_component :: "bytes \<Rightarrow> bool" where
  "validate_path_component v \<longleftrightarrow>
    \<not> (v = [] \<or> v = bytes_of ''.'' \<or> v = bytes_of ''..'' \<or> 0 \<in> set v \<or> byte CHR ''/'' \<in> set v \<or> byte (CHR 0x5C) \<in> set v \<or>
       \<not> (case path_components v of [Normal n] \<Rightarrow> True | _ \<Rightarrow> False))"

definition meta_path :: "bytes \<Rightarrow> session_error + fname" where
  "meta_path i = (if validate_path_component i then Inr (i @ bytes_of ''.json'') else Inl (SeInvalidData ''invalid session ID''))"

definition messages_log_path :: "bytes \<Rightarrow> session_error + fname" where
  "messages_log_path i = (if validate_path_component i then Inr (i @ bytes_of ''.jsonl'') else Inl (SeInvalidData ''invalid session ID''))"

section \<open>Reading and writing\<close>

text \<open>What is asked of \<open>serde_json\<close>.\<close>

record session_codec =
  sc_msg :: "session_message \<Rightarrow> bytes option"
  sc_msg_of :: "bytes \<Rightarrow> session_message option"
  sc_meta :: "session_meta \<Rightarrow> bytes option"
  sc_meta_of :: "bytes \<Rightarrow> session_meta option"
  sc_session_of :: "bytes \<Rightarrow> chat_session option"

text \<open>
  The circumstances of a call: the clock, whether a quarantine's rename works, and what happens to the writes of the
  log and of the record. \<open>se_append\<close> is the fault of an append.
\<close>

record sess_env =
  se_now :: nat
  se_rename :: bool
  se_log :: dur_env
  se_meta :: dur_env
  se_append :: "(nat \<times> nat) option"

definition write_meta :: "session_codec \<Rightarrow> sess_env \<Rightarrow> session_meta \<Rightarrow> disk \<Rightarrow> disk \<times> (session_error + unit)" where
  "write_meta c env meta fs =
    (case meta_path (mt_id meta) of
       Inl e \<Rightarrow> (fs, Inl e)
     | Inr path \<Rightarrow>
         (case sc_meta c meta of
            None \<Rightarrow> (fs, Inl SeJson)
          | Some text \<Rightarrow>
              (case write_file_durable (se_meta env) path text True fs of
                 (fs', True) \<Rightarrow> (fs', Inr ())
               | (fs', False) \<Rightarrow> (fs', Inl SeIo))))"

fun log_text :: "session_codec \<Rightarrow> session_message list \<Rightarrow> bytes option" where
  "log_text c [] = Some []"
| "log_text c (m # ms) =
    (case sc_msg c m of
       None \<Rightarrow> None
     | Some line \<Rightarrow> map_option (\<lambda>rest. line @ [0x0A] @ rest) (log_text c ms))"

definition write_messages_log ::
  "session_codec \<Rightarrow> sess_env \<Rightarrow> bytes \<Rightarrow> session_message list \<Rightarrow> disk \<Rightarrow> disk \<times> (session_error + unit)" where
  "write_messages_log c env i messages fs =
    (case messages_log_path i of
       Inl e \<Rightarrow> (fs, Inl e)
     | Inr path \<Rightarrow>
         (case log_text c messages of
            None \<Rightarrow> (fs, Inl SeJson)
          | Some buf \<Rightarrow>
              (case write_file_durable (se_log env) path buf True fs of
                 (fs', True) \<Rightarrow> (fs', Inr ())
               | (fs', False) \<Rightarrow> (fs', Inl SeIo))))"

definition append_message_to_log ::
  "session_codec \<Rightarrow> sess_env \<Rightarrow> bytes \<Rightarrow> session_message \<Rightarrow> disk \<Rightarrow> disk \<times> (session_error + unit)" where
  "append_message_to_log c env i msg fs =
    (case messages_log_path i of
       Inl e \<Rightarrow> (fs, Inl e)
     | Inr path \<Rightarrow>
         (case sc_msg c msg of
            None \<Rightarrow> (fs, Inl SeJson)
          | Some line \<Rightarrow>
              (case run_ops (se_append env) (append_ops path (line @ [0x0A])) fs of
                 (fs', True) \<Rightarrow> (fs', Inr ())
               | (fs', False) \<Rightarrow> (fs', Inl SeIo))))"

text \<open>\<open>str::lines\<close>: without the terminators \<open>\n\<close> and \<open>\r\n\<close>, and without an empty last piece.\<close>

definition chop_cr :: "bytes \<Rightarrow> bytes" where
  "chop_cr l = (if l \<noteq> [] \<and> last l = 0x0D then butlast l else l)"

definition str_lines :: "bytes \<Rightarrow> bytes list" where
  "str_lines s =
    (let parts = split_on 0x0A s
     in if last parts = [] then map chop_cr (butlast parts) else map chop_cr (butlast parts) @ [last parts])"

definition blank_line :: "bytes \<Rightarrow> bool" where
  "blank_line l \<longleftrightarrow> trim_chars (utf8_chars l) = []"

text \<open>The loop of \<open>read_messages_log\<close>; \<open>None\<close> when a line that is not the last does not parse.\<close>

fun read_log_lines :: "session_codec \<Rightarrow> bytes list \<Rightarrow> session_message list option" where
  "read_log_lines c [] = Some []"
| "read_log_lines c (line # ls) =
    (if blank_line line then read_log_lines c ls
     else (case sc_msg_of c line of
         Some msg \<Rightarrow> map_option (Cons msg) (read_log_lines c ls)
       | None \<Rightarrow> if ls = [] then Some [] else None))"

definition quarantine_file :: "sess_env \<Rightarrow> fname \<Rightarrow> disk \<Rightarrow> disk \<times> fname" where
  "quarantine_file env path fs =
    (let quarantined = path @ bytes_of ''.corrupt-'' @ dec (se_now env)
     in if se_rename env then (fs_try (Rename path quarantined) fs, quarantined) else (fs, path))"

definition read_messages_log ::
  "session_codec \<Rightarrow> sess_env \<Rightarrow> bytes \<Rightarrow> disk \<Rightarrow> disk \<times> (session_error + session_message list)" where
  "read_messages_log c env i fs =
    (case messages_log_path i of
       Inl e \<Rightarrow> (fs, Inl e)
     | Inr path \<Rightarrow>
         (case read_file fs path of
            None \<Rightarrow> (fs, Inr [])
          | Some data \<Rightarrow>
              if \<not> utf8_valid data then (fs, Inl SeIo)
              else (case read_log_lines c (str_lines data) of
                  Some out \<Rightarrow> (fs, Inr out)
                | None \<Rightarrow> (case quarantine_file env path fs of (fs', q) \<Rightarrow> (fs', Inl (SeCorrupt q))))))"

definition proper :: "bytes \<Rightarrow> bytes \<Rightarrow> bool" where
  "proper i title \<longleftrightarrow> i \<noteq> [] \<and> title \<noteq> []"

definition migrate ::
  "session_codec \<Rightarrow> sess_env \<Rightarrow> bytes \<Rightarrow> chat_session \<Rightarrow> disk \<Rightarrow> disk \<times> (session_error + unit)" where
  "migrate c env i session fs =
    (case write_messages_log c env i (cs_messages session) fs of
       (fs1, Inl e) \<Rightarrow> (fs1, Inl e)
     | (fs1, Inr u) \<Rightarrow> write_meta c env (meta_from_session session) fs1)"

definition load_session_sync ::
  "session_codec \<Rightarrow> sess_env \<Rightarrow> bytes \<Rightarrow> disk \<Rightarrow> disk \<times> (session_error + chat_session option)" where
  "load_session_sync c env i fs =
    (case meta_path i of
       Inl e \<Rightarrow> (fs, Inl e)
     | Inr path \<Rightarrow>
         (case read_file fs path of
            None \<Rightarrow> (fs, Inr None)
          | Some data \<Rightarrow>
              if \<not> utf8_valid data then (fs, Inl SeIo)
              else (case Option.bind (sc_meta_of c data) (\<lambda>meta. if proper (mt_id meta) (mt_title meta) then Some meta else None) of
                  Some meta \<Rightarrow>
                    (case read_messages_log c env i fs of
                       (fs', Inl e) \<Rightarrow> (fs', Inl e)
                     | (fs', Inr messages) \<Rightarrow>
                         (fs', Inr (Some \<lparr>cs_id = mt_id meta, cs_title = mt_title meta, cs_created_at = mt_created_at meta,
                           cs_updated_at = mt_updated_at meta, cs_messages = messages\<rparr>)))
                | None \<Rightarrow>
                    (case Option.bind (sc_session_of c data) (\<lambda>s. if proper (cs_id s) (cs_title s) then Some s else None) of
                       Some session \<Rightarrow>
                         (case migrate c env i session fs of
                            (fs', Inl e) \<Rightarrow> (fs', Inl e)
                          | (fs', Inr u) \<Rightarrow> (fs', Inr (Some session)))
                     | None \<Rightarrow> (case quarantine_file env path fs of (fs', q) \<Rightarrow> (fs', Inl (SeCorrupt q)))))))"

section \<open>Operations on sessions\<close>

definition create_session ::
  "session_codec \<Rightarrow> sess_env \<Rightarrow> bytes \<Rightarrow> bytes option \<Rightarrow> disk \<Rightarrow> disk \<times> (session_error + chat_session)" where
  "create_session c env uuid title fs =
    (let session = \<lparr>cs_id = uuid, cs_title = (case title of Some t \<Rightarrow> t | None \<Rightarrow> bytes_of ''New Chat''),
           cs_created_at = se_now env, cs_updated_at = se_now env, cs_messages = []\<rparr>
     in case write_meta c env (meta_from_session session) fs of
          (fs1, Inl e) \<Rightarrow> (fs1, Inl e)
        | (fs1, Inr u) \<Rightarrow>
            (case write_messages_log c env uuid [] fs1 of
               (fs2, Inl e) \<Rightarrow> (fs2, Inl e)
             | (fs2, Inr u) \<Rightarrow> (fs2, Inr session)))"

definition store_get_session :: "session_codec \<Rightarrow> sess_env \<Rightarrow> bytes \<Rightarrow> disk \<Rightarrow> disk \<times> (session_error + chat_session option)" where
  "store_get_session c env i fs =
    (if \<not> validate_path_component i then (fs, Inl (SeInvalidData ''invalid session ID'')) else load_session_sync c env i fs)"

definition update_session ::
  "session_codec \<Rightarrow> sess_env \<Rightarrow> bytes \<Rightarrow> bytes option \<Rightarrow> session_message list option \<Rightarrow> disk \<Rightarrow>
    disk \<times> (session_error + chat_session option)" where
  "update_session c env i title messages fs =
    (case store_get_session c env i fs of
       (fs1, Inl e) \<Rightarrow> (fs1, Inl e)
     | (fs1, Inr None) \<Rightarrow> (fs1, Inl (SeNotFound i))
     | (fs1, Inr (Some s0)) \<Rightarrow>
         let s1 = (case title of Some t \<Rightarrow> s0\<lparr>cs_title := t\<rparr> | None \<Rightarrow> s0);
             s2 = (case messages of Some m \<Rightarrow> s1\<lparr>cs_messages := m\<rparr> | None \<Rightarrow> s1);
             session = (truncate_messages s2)\<lparr>cs_updated_at := se_now env\<rparr>;
             (fs2, r) = (if messages \<noteq> None then write_messages_log c env i (cs_messages session) fs1 else (fs1, Inr ()))
         in case r of
              Inl e \<Rightarrow> (fs2, Inl e)
            | Inr u \<Rightarrow>
                (case write_meta c env (meta_from_session session) fs2 of
                   (fs3, Inl e) \<Rightarrow> (fs3, Inl e)
                 | (fs3, Inr u) \<Rightarrow> (fs3, Inr (Some session))))"

definition append_message ::
  "session_codec \<Rightarrow> sess_env \<Rightarrow> bytes \<Rightarrow> session_message \<Rightarrow> disk \<Rightarrow> disk \<times> (session_error + chat_session option)" where
  "append_message c env i msg fs =
    (case store_get_session c env i fs of
       (fs1, Inl e) \<Rightarrow> (fs1, Inl e)
     | (fs1, Inr None) \<Rightarrow> (fs1, Inr None)
     | (fs1, Inr (Some s0)) \<Rightarrow>
         let s1 = add_message_evicting msg s0;
             evicted = (length (cs_messages s1) < length (cs_messages s0) + 1);
             session = s1\<lparr>cs_updated_at := se_now env\<rparr>;
             (fs2, r) = (if evicted then write_messages_log c env i (cs_messages session) fs1
                         else append_message_to_log c env i (last (cs_messages session)) fs1)
         in case r of
              Inl e \<Rightarrow> (fs2, Inl e)
            | Inr u \<Rightarrow>
                (case write_meta c env (meta_from_session session) fs2 of
                   (fs3, Inl e) \<Rightarrow> (fs3, Inl e)
                 | (fs3, Inr u) \<Rightarrow> (fs3, Inr (Some session))))"

end
