(* ===== verification/Session_Images.thy ===== *)
theory Session_Images
  imports Session_Log
begin

text \<open>
  The rest of \<open>crates/athena-store/src/session.rs\<close>: deleting and listing sessions, and the images, which are stored
  once under the hash of their bytes and swept when no message refers to them.
\<close>

section \<open>File names\<close>

text \<open>\<open>Path::extension\<close> and \<open>Path::file_stem\<close> of a plain file name.\<close>

definition split_name :: "fname \<Rightarrow> (fname \<times> fname) option" where
  "split_name name =
    (if name = bytes_of ''..'' \<or> byte CHR ''.'' \<notin> set name then None
     else
       let after = rev (takeWhile (\<lambda>b. b \<noteq> byte CHR ''.'') (rev name));
           before = rev (tl (dropWhile (\<lambda>b. b \<noteq> byte CHR ''.'') (rev name)))
       in if before = [] then None else Some (before, after))"

definition name_extension :: "fname \<Rightarrow> fname option" where
  "name_extension name = map_option snd (split_name name)"

definition name_stem :: "fname \<Rightarrow> fname" where
  "name_stem name = (case split_name name of Some (before, after) \<Rightarrow> before | None \<Rightarrow> name)"

section \<open>Images\<close>

definition image_path :: "bytes \<Rightarrow> session_error + fname" where
  "image_path i = (if validate_path_component i then Inr (i @ bytes_of ''.bin'') else Inl (SeInvalidData ''invalid image ID''))"

text \<open>\<open>decode\<close> and \<open>content_hash\<close> are the crates' functions.\<close>

definition save_image ::
  "(bytes \<Rightarrow> bytes option) \<Rightarrow> (bytes \<Rightarrow> bytes) \<Rightarrow> dur_env \<Rightarrow> bytes \<Rightarrow> bytes \<Rightarrow> bytes option \<Rightarrow> disk \<Rightarrow>
    disk \<times> (session_error + image_ref)" where
  "save_image decode content_hash env base64_str media_type name images =
    (case decode base64_str of
       None \<Rightarrow> (images, Inl (SeInvalidData ''base64''))
     | Some buffer \<Rightarrow>
         let image_id = content_hash buffer
         in case image_path image_id of
              Inl e \<Rightarrow> (images, Inl e)
            | Inr path \<Rightarrow>
                let (images', ok) = (if read_file images path = None then write_file_durable env path buffer False images else (images, True))
                in (images', if ok then Inr \<lparr>ir_image_id = image_id, ir_media_type = media_type, ir_name = name\<rparr> else Inl SeIo))"

definition load_image :: "(bytes \<Rightarrow> bytes) \<Rightarrow> bytes \<Rightarrow> disk \<Rightarrow> session_error + bytes option" where
  "load_image encode image_id images =
    (case image_path image_id of
       Inl e \<Rightarrow> Inl e
     | Inr path \<Rightarrow> Inr (map_option encode (read_file images path)))"

definition delete_image :: "bool \<Rightarrow> bytes \<Rightarrow> disk \<Rightarrow> disk \<times> (session_error + unit)" where
  "delete_image remove_ok image_id images =
    (case image_path image_id of
       Inl e \<Rightarrow> (images, Inl e)
     | Inr path \<Rightarrow>
         if read_file images path = None then (images, Inr ())
         else if remove_ok then (fs_try (RemoveFile path) images, Inr ())
         else (images, Inl SeIo))"

text \<open>The messages that a file of the sessions directory holds, as the sweep reads it.\<close>

definition entry_messages :: "session_codec \<Rightarrow> disk \<Rightarrow> fname \<Rightarrow> session_message list" where
  "entry_messages c sessions name =
    (let is_jsonl = (name_extension name = Some (bytes_of ''jsonl'')); is_json = (name_extension name = Some (bytes_of ''json''))
     in if \<not> is_jsonl \<and> \<not> is_json then []
        else (case read_file sessions name of
            None \<Rightarrow> []
          | Some data \<Rightarrow>
              if \<not> utf8_valid data then []
              else if is_jsonl then List.map_filter (sc_msg_of c) (filter (\<lambda>l. \<not> blank_line l) (str_lines data))
              else (case sc_session_of c data of Some session \<Rightarrow> cs_messages session | None \<Rightarrow> [])))"

definition message_images :: "session_message \<Rightarrow> bytes list" where
  "message_images m = (case sm_image_refs m of Some refs \<Rightarrow> map ir_image_id refs | None \<Rightarrow> [])"

definition used_image_ids :: "session_codec \<Rightarrow> disk \<Rightarrow> bytes set" where
  "used_image_ids c sessions =
    set (concat (map (\<lambda>name. concat (map message_images (entry_messages c sessions name))) (map fst (d_dir sessions))))"

text \<open>\<open>fresh\<close> tells which files were modified after the cutoff, \<open>remove_ok\<close> for which the removal works.\<close>

definition sweep_image :: "bytes set \<Rightarrow> (fname \<Rightarrow> bool) \<Rightarrow> (fname \<Rightarrow> bool) \<Rightarrow> fname \<Rightarrow> disk \<times> nat \<Rightarrow> disk \<times> nat" where
  "sweep_image used fresh remove_ok name acc =
    (case acc of (images, removed) \<Rightarrow>
       if name_stem name \<in> used then (images, removed)
       else if fresh name then (images, removed)
       else if remove_ok name \<and> read_file images name \<noteq> None then (fs_try (RemoveFile name) images, Suc removed)
       else (images, removed))"

definition cleanup_orphaned_images_older_than ::
  "session_codec \<Rightarrow> (fname \<Rightarrow> bool) \<Rightarrow> (fname \<Rightarrow> bool) \<Rightarrow> disk \<Rightarrow> disk \<Rightarrow> disk \<times> nat" where
  "cleanup_orphaned_images_older_than c fresh remove_ok sessions images =
    fold (sweep_image (used_image_ids c sessions) fresh remove_ok) (map fst (d_dir images)) (images, 0)"

section \<open>Deleting and listing\<close>

text \<open>
  The path of the log is that of the record with another extension. The answers of the two removals are
  arguments; the sweep of the images that follows is \<open>cleanup_orphaned_images\<close>.
\<close>

definition delete_session ::
  "session_codec \<Rightarrow> bool \<Rightarrow> bool \<Rightarrow> (fname \<Rightarrow> bool) \<Rightarrow> (fname \<Rightarrow> bool) \<Rightarrow> bytes \<Rightarrow> disk \<Rightarrow> disk \<Rightarrow>
    disk \<times> disk \<times> (session_error + bool)" where
  "delete_session c meta_ok log_ok fresh remove_ok i sessions images =
    (case meta_path i of
       Inl e \<Rightarrow> (sessions, images, Inl e)
     | Inr meta \<Rightarrow>
         let log = i @ bytes_of ''.jsonl''
         in if read_file sessions meta = None then (sessions, images, Inr False)
            else if \<not> meta_ok then (sessions, images, Inl SeIo)
            else
              let fs1 = fs_try (RemoveFile meta) sessions
              in if read_file fs1 log \<noteq> None \<and> \<not> log_ok then (fs1, images, Inl SeIo)
                 else
                   let fs2 = (if read_file fs1 log = None then fs1 else fs_try (RemoveFile log) fs1)
                   in (fs2, fst (cleanup_orphaned_images_older_than c fresh remove_ok fs2 images), Inr True))"

definition item_of_meta :: "session_meta \<Rightarrow> session_list_item" where
  "item_of_meta m =
    \<lparr>li_id = mt_id m, li_title = mt_title m, li_created_at = mt_created_at m, li_updated_at = mt_updated_at m,
     li_message_count = mt_message_count m, li_last_message_preview = mt_last_message_preview m\<rparr>"

definition item_of_session :: "chat_session \<Rightarrow> session_list_item" where
  "item_of_session s =
    \<lparr>li_id = cs_id s, li_title = cs_title s, li_created_at = cs_created_at s, li_updated_at = cs_updated_at s,
     li_message_count = length (cs_messages s), li_last_message_preview = preview (cs_messages s)\<rparr>"

definition list_entry ::
  "session_codec \<Rightarrow> sess_env \<Rightarrow> fname \<Rightarrow> disk \<Rightarrow> disk \<times> (session_error + session_list_item option)" where
  "list_entry c env name fs =
    (if name_extension name \<noteq> Some (bytes_of ''json'') then (fs, Inr None)
     else (case read_file fs name of
         None \<Rightarrow> (fs, Inr None)
       | Some data \<Rightarrow>
           if \<not> utf8_valid data then (fs, Inr None)
           else (case Option.bind (sc_meta_of c data) (\<lambda>meta. if proper (mt_id meta) (mt_title meta) then Some meta else None) of
               Some meta \<Rightarrow> (fs, Inr (Some (item_of_meta meta)))
             | None \<Rightarrow>
                 (case Option.bind (sc_session_of c data) (\<lambda>s. if proper (cs_id s) (cs_title s) then Some s else None) of
                    Some session \<Rightarrow>
                      (case migrate c env (cs_id session) session fs of
                         (fs', Inl e) \<Rightarrow> (fs', Inl e)
                       | (fs', Inr u) \<Rightarrow> (fs', Inr (Some (item_of_session session))))
                  | None \<Rightarrow> (fst (quarantine_file env name fs), Inr None)))))"

fun list_entries ::
  "session_codec \<Rightarrow> (fname \<Rightarrow> sess_env) \<Rightarrow> fname list \<Rightarrow> disk \<Rightarrow> disk \<times> (session_error + session_list_item list)" where
  "list_entries c env [] fs = (fs, Inr [])"
| "list_entries c env (name # names) fs =
    (case list_entry c (env name) name fs of
       (fs1, Inl e) \<Rightarrow> (fs1, Inl e)
     | (fs1, Inr item) \<Rightarrow>
         (case list_entries c env names fs1 of
            (fs2, Inl e) \<Rightarrow> (fs2, Inl e)
          | (fs2, Inr out) \<Rightarrow> (fs2, Inr (case item of Some x \<Rightarrow> x # out | None \<Rightarrow> out))))"

text \<open>\<open>sort_by_key(Reverse(updated_at))\<close>, a stable sort.\<close>

definition store_list_sessions ::
  "session_codec \<Rightarrow> (fname \<Rightarrow> sess_env) \<Rightarrow> disk \<Rightarrow> disk \<times> (session_error + session_list_item list)" where
  "store_list_sessions c env fs =
    (case list_entries c env (map fst (d_dir fs)) fs of
       (fs', Inl e) \<Rightarrow> (fs', Inl e)
     | (fs', Inr out) \<Rightarrow> (fs', Inr (sort_key (\<lambda>x. - int (li_updated_at x)) out)))"

end
