(* ===== verification/Session_Files.thy ===== *)
theory Session_Files
  imports Session_Images
begin

text \<open>
  Chat sessions on disk: what \<open>serde_json\<close> is assumed to do, the files of a session that is stored, and that
  reading them gives the session back.
\<close>

section \<open>The codec\<close>

text \<open>
  A message or record is written as one line of text without line breaks, which is not blank, and reads back as
  itself; no proper prefix of a message's text is a message, since the text of a JSON object ends with its
  closing brace.
\<close>

definition session_codec_ok :: "session_codec \<Rightarrow> bool" where
  "session_codec_ok c \<longleftrightarrow>
    (\<forall>m. \<exists>b. sc_msg c m = Some b \<and> sc_msg_of c b = Some m \<and> 0x0A \<notin> set b \<and> 0x0D \<notin> set b \<and> is_str b \<and> \<not> blank_line b) \<and>
    (\<forall>m. \<exists>b. sc_meta c m = Some b \<and> sc_meta_of c b = Some m \<and> is_str b)"

definition prefix_free :: "session_codec \<Rightarrow> bool" where
  "prefix_free c \<longleftrightarrow> (\<forall>m b k. sc_msg c m = Some b \<and> k < length b \<longrightarrow> sc_msg_of c (take k b) = None)"

definition msg_line :: "session_codec \<Rightarrow> session_message \<Rightarrow> bytes" where
  "msg_line c m = the (sc_msg c m)"

lemma msg_line:
  assumes "session_codec_ok c"
  shows "sc_msg c m = Some (msg_line c m)" "sc_msg_of c (msg_line c m) = Some m" "0x0A \<notin> set (msg_line c m)" "0x0D \<notin> set (msg_line c m)"
    "is_str (msg_line c m)" "\<not> blank_line (msg_line c m)"
  using assms unfolding session_codec_ok_def msg_line_def by (metis option.sel)+

lemma meta_text:
  assumes "session_codec_ok c"
  obtains b where "sc_meta c m = Some b" "sc_meta_of c b = Some m" "is_str b"
  using assms unfolding session_codec_ok_def by metis

section \<open>Lines\<close>

definition log_of :: "session_codec \<Rightarrow> session_message list \<Rightarrow> bytes" where
  "log_of c ms = concat (map (\<lambda>m. msg_line c m @ [0x0A]) ms)"

lemma log_text_of: "session_codec_ok c \<Longrightarrow> log_text c ms = Some (log_of c ms)"
  by (induction ms) (simp_all add: msg_line(1) log_of_def)

lemma log_of_append: "log_of c (ms @ [m]) = log_of c ms @ msg_line c m @ [0x0A]"
  by (simp add: log_of_def)

lemma split_on_line: "sep \<notin> set l \<Longrightarrow> split_on sep (l @ sep # rest) = l # split_on sep rest"
  by (induction l) auto

lemma split_on_single: "sep \<notin> set l \<Longrightarrow> split_on sep l = [l]"
  by (induction l) auto

lemma split_log:
  assumes "session_codec_ok c"
  shows "split_on 0x0A (log_of c ms @ rest) = map (msg_line c) ms @ split_on 0x0A rest"
proof (induction ms)
  case (Cons m ms)
  have "log_of c (m # ms) @ rest = msg_line c m @ 0x0A # (log_of c ms @ rest)" by (simp add: log_of_def)
  then show ?case using Cons split_on_line [OF msg_line(3) [OF assms, of m]] by simp
qed (simp add: log_of_def)

lemma chop_cr_line: "session_codec_ok c \<Longrightarrow> chop_cr (msg_line c m) = msg_line c m"
  using msg_line(4) [of c m] by (metis chop_cr_def last_in_set)

lemma str_lines_log:
  assumes "session_codec_ok c" "0x0A \<notin> set t"
  shows "str_lines (log_of c ms @ t) = map (msg_line c) ms @ (if t = [] then [] else [t])"
proof -
  have "map chop_cr (map (msg_line c) ms) = map (msg_line c) ms" using chop_cr_line [OF assms(1)] by simp
  then show ?thesis by (simp add: str_lines_def Let_def split_log [OF assms(1)] split_on_single [OF assms(2)] butlast_append)
qed

lemma read_log_lines_app:
  assumes "session_codec_ok c"
  shows "read_log_lines c (map (msg_line c) ms @ ls) = map_option ((@) ms) (read_log_lines c ls)"
proof (induction ms)
  case Nil
  then show ?case by (cases "read_log_lines c ls") simp_all
next
  case (Cons m ms)
  then show ?case using msg_line(2,6) [OF assms, of m] by (cases "read_log_lines c ls") simp_all
qed

text \<open>
  The log with a torn last line: whatever its tail is, if the whole is a string and the tail does not parse,
  the complete messages come back.
\<close>

lemma read_log_torn:
  assumes "session_codec_ok c" "0x0A \<notin> set t" "sc_msg_of c t = None"
  shows "read_log_lines c (str_lines (log_of c ms @ t)) = Some ms"
  using assms by (auto simp: str_lines_log read_log_lines_app)

lemma read_log_whole: "session_codec_ok c \<Longrightarrow> read_log_lines c (str_lines (log_of c ms)) = Some ms"
  using str_lines_log [of c "[]" ms] read_log_lines_app [of c ms "[]"] by simp

lemma is_str_log: "session_codec_ok c \<Longrightarrow> is_str (log_of c ms)"
proof (induction ms)
  case (Cons m ms)
  have "is_str [0x0A]" by (rule is_str_ascii) (simp add: ascii_def)
  then have "is_str ((msg_line c m @ [0x0A]) @ log_of c ms)"
    using Cons msg_line(5) [OF Cons.prems, of m] by (intro is_str_append) auto
  then show ?case by (simp add: log_of_def)
qed (simp add: log_of_def)

section \<open>Stored sessions\<close>

definition meta_name :: "bytes \<Rightarrow> fname" where
  "meta_name i = i @ bytes_of ''.json''"

definition log_name :: "bytes \<Rightarrow> fname" where
  "log_name i = i @ bytes_of ''.jsonl''"

lemma names_distinct [simp]:
  "meta_name i = meta_name j \<longleftrightarrow> i = j" "log_name i = log_name j \<longleftrightarrow> i = j" "meta_name i \<noteq> log_name j" "log_name i \<noteq> meta_name j"
proof -
  have "last (meta_name i) \<noteq> last (log_name j)" by (simp add: meta_name_def log_name_def bytes_of_def)
  then show "meta_name i \<noteq> log_name j" by metis
  have "last (meta_name j) \<noteq> last (log_name i)" by (simp add: meta_name_def log_name_def bytes_of_def)
  then show "log_name i \<noteq> meta_name j" by metis
qed (auto simp: meta_name_def log_name_def)

lemma paths_of_valid: "validate_path_component i \<Longrightarrow> meta_path i = Inr (meta_name i)" "validate_path_component i \<Longrightarrow> messages_log_path i = Inr (log_name i)"
  by (simp_all add: meta_path_def messages_log_path_def meta_name_def log_name_def)

definition meta_ok :: "session_codec \<Rightarrow> chat_session \<Rightarrow> bytes \<Rightarrow> bool" where
  "meta_ok c s b \<longleftrightarrow> sc_meta c (meta_from_session s) = Some b"

definition stored :: "session_codec \<Rightarrow> disk \<Rightarrow> chat_session \<Rightarrow> bool" where
  "stored c fs s \<longleftrightarrow>
    validate_path_component (cs_id s) \<and> cs_title s \<noteq> [] \<and>
    read_file fs (meta_name (cs_id s)) = sc_meta c (meta_from_session s) \<and>
    read_file fs (log_name (cs_id s)) = Some (log_of c (cs_messages s))"

lemma valid_id_neq_Nil: "validate_path_component i \<Longrightarrow> i \<noteq> []"
  by (auto simp: validate_path_component_def)

text \<open>Reading a session whose record is intact, whatever its log.\<close>

lemma load_with_meta:
  assumes c: "session_codec_ok c" and v: "validate_path_component i" and i: "mt_id meta = i" "mt_title meta \<noteq> []"
    and m: "read_file fs (meta_name i) = sc_meta c meta"
  shows "store_get_session c env i fs =
    (case read_messages_log c env i fs of
       (fs', Inl e) \<Rightarrow> (fs', Inl e)
     | (fs', Inr ms) \<Rightarrow> (fs', Inr (Some \<lparr>cs_id = i, cs_title = mt_title meta, cs_created_at = mt_created_at meta,
         cs_updated_at = mt_updated_at meta, cs_messages = ms\<rparr>)))"
proof -
  obtain b where b: "sc_meta c meta = Some b" "sc_meta_of c b = Some meta" "is_str b" by (rule meta_text [OF c])
  then have "proper (mt_id meta) (mt_title meta)" using i valid_id_neq_Nil [OF v] by (simp add: proper_def)
  then show ?thesis
    using b m v i(1) is_str_valid [OF b(3)]
    by (simp add: store_get_session_def load_session_sync_def paths_of_valid split: prod.split sum.split)
qed

lemma read_log:
  assumes "session_codec_ok c" "validate_path_component i" "read_file fs (log_name i) = Some (log_of c ms @ t)"
    and "utf8_valid (log_of c ms @ t)" "0x0A \<notin> set t" "sc_msg_of c t = None \<or> t = []"
  shows "read_messages_log c env i fs = (fs, Inr ms)"
  using assms read_log_torn [OF assms(1,5), of ms] read_log_whole [OF assms(1), of ms]
  by (auto simp: read_messages_log_def paths_of_valid)

lemma load_stored:
  assumes c: "session_codec_ok c" and s: "stored c fs s"
  shows "store_get_session c env (cs_id s) fs = (fs, Inr (Some s))"
proof -
  have v: "validate_path_component (cs_id s)" using s by (simp add: stored_def)
  have "read_messages_log c env (cs_id s) fs = (fs, Inr (cs_messages s))"
    using read_log [OF c v, of fs "cs_messages s" "[]"] s is_str_valid [OF is_str_log [OF c]] by (simp add: stored_def)
  moreover have "mt_id (meta_from_session s) = cs_id s" "mt_title (meta_from_session s) \<noteq> []"
    "read_file fs (meta_name (cs_id s)) = sc_meta c (meta_from_session s)"
    using s by (simp_all add: stored_def meta_from_session_def)
  ultimately show ?thesis
    using load_with_meta [OF c v, of "meta_from_session s" fs env] by (simp add: meta_from_session_def)
qed

end
