(* ===== verification/Session_Props.thy ===== *)
theory Session_Props
  imports Session_Files
begin

text \<open>
  What the session store promises: it behaves as a table of sessions kept in memory; an append that is
  interrupted leaves the messages before it; images of live sessions are not swept; and the loop that
  enforces the cap does what its comment says, with the exceptions recorded here.
\<close>

section \<open>Eviction\<close>

lemma drop_idx_less: "ms \<noteq> [] \<Longrightarrow> drop_idx ms < length ms"
  by (auto simp: drop_idx_def position_Some split: option.split)

lemma length_evict: "length (evict cap ms) = min cap (length ms)"
proof (induction cap ms rule: evict.induct)
  case (1 cap ms)
  show ?case
  proof (cases "cap < length ms")
    case True
    then have "drop_idx ms < length ms" by (intro drop_idx_less) auto
    then show ?thesis using 1 True by (subst evict.simps) simp
  qed (subst evict.simps, simp)
qed

lemma evict_once:
  assumes "length ms = cap"
  shows "evict cap (ms @ [m]) = take (drop_idx (ms @ [m])) (ms @ [m]) @ drop (Suc (drop_idx (ms @ [m]))) (ms @ [m])" (is "_ = ?ys")
proof -
  have "drop_idx (ms @ [m]) < length (ms @ [m])" by (rule drop_idx_less) simp
  then have "length ?ys = cap" using assms by simp
  then have "evict cap ?ys = ?ys" by (subst evict.simps) simp
  then show ?thesis using assms by (subst evict.simps) simp
qed

lemma evict_below: "length ms < cap \<Longrightarrow> evict cap (ms @ [m]) = ms @ [m]"
  by (subst evict.simps) simp

section \<open>The table of sessions\<close>

type_synonym session_table = "bytes \<rightharpoonup> chat_session"

datatype session_call =
    ScCreate bytes "bytes option"
  | ScGet bytes
  | ScUpdate bytes "bytes option" "session_message list option"
  | ScAppend bytes session_message
  | ScDelete bytes

datatype session_reply = RpSession chat_session | RpMaybe "chat_session option" | RpBool bool

definition new_session :: "nat \<Rightarrow> bytes \<Rightarrow> bytes option \<Rightarrow> chat_session" where
  "new_session now uuid title =
    \<lparr>cs_id = uuid, cs_title = (case title of Some t \<Rightarrow> t | None \<Rightarrow> bytes_of ''New Chat''), cs_created_at = now, cs_updated_at = now,
     cs_messages = []\<rparr>"

definition updated_session :: "nat \<Rightarrow> bytes option \<Rightarrow> session_message list option \<Rightarrow> chat_session \<Rightarrow> chat_session" where
  "updated_session now title messages s =
    (truncate_messages (s\<lparr>cs_title := (case title of Some t \<Rightarrow> t | None \<Rightarrow> cs_title s),
       cs_messages := (case messages of Some m \<Rightarrow> m | None \<Rightarrow> cs_messages s)\<rparr>))\<lparr>cs_updated_at := now\<rparr>"

definition appended_session :: "nat \<Rightarrow> session_message \<Rightarrow> chat_session \<Rightarrow> chat_session" where
  "appended_session now m s = (add_message_evicting m s)\<lparr>cs_updated_at := now\<rparr>"

fun table_exec :: "nat \<Rightarrow> session_call \<Rightarrow> session_table \<Rightarrow> session_table \<times> (session_error + session_reply)" where
  "table_exec now (ScCreate uuid title) A = (A(uuid \<mapsto> new_session now uuid title), Inr (RpSession (new_session now uuid title)))"
| "table_exec now (ScGet i) A = (A, Inr (RpMaybe (A i)))"
| "table_exec now (ScUpdate i title messages) A =
    (case A i of
       None \<Rightarrow> (A, Inl (SeNotFound i))
     | Some s \<Rightarrow> (A(i \<mapsto> updated_session now title messages s), Inr (RpMaybe (Some (updated_session now title messages s)))))"
| "table_exec now (ScAppend i m) A =
    (case A i of
       None \<Rightarrow> (A, Inr (RpMaybe None))
     | Some s \<Rightarrow> (A(i \<mapsto> appended_session now m s), Inr (RpMaybe (Some (appended_session now m s)))))"
| "table_exec now (ScDelete i) A = (A(i := None), Inr (RpBool (A i \<noteq> None)))"

text \<open>The calls on the two directories.\<close>

fun session_exec ::
  "session_codec \<Rightarrow> (fname \<Rightarrow> bool) \<Rightarrow> sess_env \<Rightarrow> session_call \<Rightarrow> disk \<times> disk \<Rightarrow> (disk \<times> disk) \<times> (session_error + session_reply)" where
  "session_exec c fresh env (ScCreate uuid title) (fs, images) =
    (case create_session c env uuid title fs of (fs', r) \<Rightarrow> ((fs', images), map_sum id RpSession r))"
| "session_exec c fresh env (ScGet i) (fs, images) =
    (case store_get_session c env i fs of (fs', r) \<Rightarrow> ((fs', images), map_sum id RpMaybe r))"
| "session_exec c fresh env (ScUpdate i title messages) (fs, images) =
    (case update_session c env i title messages fs of (fs', r) \<Rightarrow> ((fs', images), map_sum id RpMaybe r))"
| "session_exec c fresh env (ScAppend i m) (fs, images) =
    (case append_message c env i m fs of (fs', r) \<Rightarrow> ((fs', images), map_sum id RpMaybe r))"
| "session_exec c fresh env (ScDelete i) (fs, images) =
    (case delete_session c True True fresh (\<lambda>n. True) i fs images of (fs', images', r) \<Rightarrow> ((fs', images'), map_sum id RpBool r))"

text \<open>A call names a valid session, a new one when it creates, and no empty title; nothing fails; UUIDs have no dot.\<close>

definition plain_uuid :: "bytes \<Rightarrow> bool" where
  "plain_uuid u \<longleftrightarrow> length u = 36 \<and> byte CHR ''.'' \<notin> set u"

definition quiet_env :: "sess_env \<Rightarrow> bool" where
  "quiet_env env \<longleftrightarrow> io_fault (se_log env) = None \<and> io_fault (se_meta env) = None \<and> se_append env = None \<and>
    plain_uuid (io_uuid (se_log env)) \<and> plain_uuid (io_uuid (se_meta env))"

fun call_ok :: "session_table \<Rightarrow> session_call \<Rightarrow> bool" where
  "call_ok A (ScCreate uuid title) = (validate_path_component uuid \<and> A uuid = None \<and> title \<noteq> Some [])"
| "call_ok A (ScGet i) = validate_path_component i"
| "call_ok A (ScUpdate i title messages) = (validate_path_component i \<and> title \<noteq> Some [])"
| "call_ok A (ScAppend i m) = validate_path_component i"
| "call_ok A (ScDelete i) = validate_path_component i"

definition represents :: "session_codec \<Rightarrow> session_table \<Rightarrow> disk \<Rightarrow> bool" where
  "represents c A fs \<longleftrightarrow> disk_ok fs \<and>
    (\<forall>i s. A i = Some s \<longrightarrow> cs_id s = i \<and> stored c fs s \<and> length (cs_messages s) \<le> MAX_SESSION_MESSAGES) \<and>
    (\<forall>n. read_file fs n \<noteq> None \<longrightarrow> (\<exists>i. A i \<noteq> None \<and> (n = meta_name i \<or> n = log_name i)))"

lemma represents_empty: "represents c Map.empty disk_empty"
  by (simp add: represents_def disk_ok_empty) (simp add: read_file_def disk_empty_def)

lemma temp_not_session: "plain_uuid u \<Longrightarrow> temp_name p u \<noteq> meta_name i" "plain_uuid u \<Longrightarrow> temp_name p u \<noteq> log_name i"
proof -
  assume u: "plain_uuid u"
  have dot: "byte CHR ''.'' \<in> set (drop (length n - 6) n)" if "n = meta_name i \<or> n = log_name i" for n
    using that by (auto simp: meta_name_def log_name_def bytes_of_def)
  have no: "byte CHR ''.'' \<notin> set (drop (length n - 6) n)" if "n = temp_name p u" for n
  proof -
    have "drop (length n - 6) n = drop 30 u" using u by (simp add: that temp_name_def plain_uuid_def)
    then show ?thesis using u by (auto simp: plain_uuid_def dest: in_set_dropD)
  qed
  show "temp_name p u \<noteq> meta_name i" "temp_name p u \<noteq> log_name i" using dot no by blast+
qed

lemma temp_absent: "represents c A fs \<Longrightarrow> plain_uuid u \<Longrightarrow> read_file fs (temp_name p u) = None"
  using temp_not_session unfolding represents_def by blast

lemma write_meta_ok:
  assumes "disk_ok fs" "session_codec_ok c" "quiet_env env" "validate_path_component (mt_id meta)"
    and "read_file fs (temp_name (meta_name (mt_id meta)) (io_uuid (se_meta env))) = None"
  shows "\<exists>fs'. write_meta c env meta fs = (fs', Inr ()) \<and> disk_ok fs' \<and>
    read_file fs' = (read_file fs)(meta_name (mt_id meta) := sc_meta c meta)"
proof -
  obtain b where b: "sc_meta c meta = Some b" by (rule meta_text [OF assms(2)])
  obtain fs' r where w: "write_file_durable (se_meta env) (meta_name (mt_id meta)) b True fs = (fs', r)" by fastforce
  have "r" using write_durable_succeeds [OF assms(1) _ assms(5), of b True] assms(3) w by (simp add: quiet_env_def)
  then show ?thesis
    using w write_durable_effect(1,2) [OF assms(1) w] b assms(4) by (simp add: write_meta_def paths_of_valid)
qed

lemma write_log_ok:
  assumes "disk_ok fs" "session_codec_ok c" "quiet_env env" "validate_path_component i"
    and "read_file fs (temp_name (log_name i) (io_uuid (se_log env))) = None"
  shows "\<exists>fs'. write_messages_log c env i ms fs = (fs', Inr ()) \<and> disk_ok fs' \<and> read_file fs' = (read_file fs)(log_name i \<mapsto> log_of c ms)"
proof -
  obtain fs' r where w: "write_file_durable (se_log env) (log_name i) (log_of c ms) True fs = (fs', r)" by fastforce
  have "r" using write_durable_succeeds [OF assms(1) _ assms(5), of "log_of c ms" True] assms(3) w by (simp add: quiet_env_def)
  then show ?thesis
    using w write_durable_effect(1,2) [OF assms(1) w] assms(4) log_text_of [OF assms(2)]
    by (simp add: write_messages_log_def paths_of_valid)
qed

lemma append_log_ok:
  assumes "disk_ok fs" "session_codec_ok c" "quiet_env env" "validate_path_component i" "read_file fs (log_name i) = Some old"
  shows "\<exists>fs'. append_message_to_log c env i m fs = (fs', Inr ()) \<and> disk_ok fs' \<and>
    read_file fs' = (read_file fs)(log_name i \<mapsto> old @ msg_line c m @ [0x0A])"
proof -
  obtain fs' r where w: "run_ops None (append_ops (log_name i) (msg_line c m @ [0x0A])) fs = (fs', r)" by fastforce
  obtain j where j: "map_of (d_dir fs) (log_name i) = Some j" using assms(5) by (auto simp: read_file_def)
  then have "r" using w by (auto simp: append_ops_def)
  then show ?thesis
    using w append_effect(1,4) [OF assms(1) w assms(5)] assms(3,4) msg_line(1) [OF assms(2), of m]
    by (simp add: append_message_to_log_def paths_of_valid quiet_env_def)
qed

text \<open>Both files of a session replaced.\<close>

lemma represents_store:
  assumes r: "represents c A fs" and ok: "disk_ok fs'" and s: "cs_id s = i" "validate_path_component i" "cs_title s \<noteq> []"
    "length (cs_messages s) \<le> MAX_SESSION_MESSAGES"
    and f: "\<And>n. read_file fs' n = (if n = meta_name i then sc_meta c (meta_from_session s)
      else if n = log_name i then Some (log_of c (cs_messages s)) else read_file fs n)"
  shows "represents c (A(i \<mapsto> s)) fs'"
proof -
  have "stored c fs' s" using s f by (simp add: stored_def)
  moreover have "stored c fs' x" if "A j = Some x" "j \<noteq> i" for j x
    using r that f by (auto simp: represents_def stored_def)
  moreover have "\<exists>j. (A(i \<mapsto> s)) j \<noteq> None \<and> (n = meta_name j \<or> n = log_name j)" if n: "read_file fs' n \<noteq> None" for n
  proof (cases "n = meta_name i \<or> n = log_name i")
    case False
    then have "read_file fs n \<noteq> None" using n f by simp
    then show ?thesis using r unfolding represents_def by (metis fun_upd_apply option.distinct(1))
  qed auto
  ultimately show ?thesis using r ok s unfolding represents_def by auto
qed

lemma represents_get:
  assumes "represents c A fs" "session_codec_ok c" "validate_path_component i"
  shows "store_get_session c env i fs = (fs, Inr (A i))"
proof (cases "A i")
  case (Some s)
  then show ?thesis using assms load_stored [OF assms(2), of fs s env] by (simp add: represents_def)
next
  case None
  have "read_file fs (meta_name i) = None" using assms(1) None names_distinct unfolding represents_def by metis
  then show ?thesis using None assms(3) by (simp add: store_get_session_def load_session_sync_def paths_of_valid)
qed

text \<open>The record written after the log.\<close>

lemma store_after_log:
  assumes r: "represents c A fs" and c: "session_codec_ok c" and q: "quiet_env env"
    and s: "validate_path_component (cs_id s)" "cs_title s \<noteq> []" "length (cs_messages s) \<le> MAX_SESSION_MESSAGES"
    and l: "disk_ok fs1" "read_file fs1 = (read_file fs)(log_name (cs_id s) \<mapsto> log_of c (cs_messages s))"
  shows "\<exists>fs'. write_meta c env (meta_from_session s) fs1 = (fs', Inr ()) \<and> represents c (A(cs_id s \<mapsto> s)) fs'"
proof -
  have id: "mt_id (meta_from_session s) = cs_id s" by (simp add: meta_from_session_def)
  have u: "plain_uuid (io_uuid (se_meta env))" using q by (simp add: quiet_env_def)
  have "read_file fs1 (temp_name (meta_name (cs_id s)) (io_uuid (se_meta env))) = None"
    using temp_absent [OF r u] temp_not_session [OF u] by (simp add: l(2))
  then obtain fs' where fs': "write_meta c env (meta_from_session s) fs1 = (fs', Inr ())" "disk_ok fs'"
    "read_file fs' = (read_file fs1)(meta_name (cs_id s) := sc_meta c (meta_from_session s))"
    using write_meta_ok [OF l(1) c q, of "meta_from_session s"] s(1) id by auto
  have "represents c (A(cs_id s \<mapsto> s)) fs'"
    by (rule represents_store [OF r fs'(2) refl s]) (simp add: fs'(3) l(2))
  then show ?thesis using fs'(1) by blast
qed

lemma create_refines:
  assumes r: "represents c A fs" and c: "session_codec_ok c" and q: "quiet_env env"
    and k: "validate_path_component uuid" "title \<noteq> Some []"
  shows "\<exists>fs'. create_session c env uuid title fs = (fs', Inr (new_session (se_now env) uuid title)) \<and>
    represents c (A(uuid \<mapsto> new_session (se_now env) uuid title)) fs'"
proof -
  let ?s = "new_session (se_now env) uuid title"
  have s: "cs_id ?s = uuid" "cs_title ?s \<noteq> []" "cs_messages ?s = []" "mt_id (meta_from_session ?s) = uuid"
    using k(2) by (auto simp: new_session_def meta_from_session_def bytes_of_def split: option.split)
  have u: "plain_uuid (io_uuid (se_meta env))" "plain_uuid (io_uuid (se_log env))" using q by (simp_all add: quiet_env_def)
  have ok: "disk_ok fs" using r by (simp add: represents_def)
  obtain fs1 where fs1: "write_meta c env (meta_from_session ?s) fs = (fs1, Inr ())" "disk_ok fs1"
    "read_file fs1 = (read_file fs)(meta_name uuid := sc_meta c (meta_from_session ?s))"
    using write_meta_ok [OF ok c q, of "meta_from_session ?s"] k(1) temp_absent [OF r u(1)] s(4) by auto
  have "read_file fs1 (temp_name (log_name uuid) (io_uuid (se_log env))) = None"
    using temp_absent [OF r u(2)] temp_not_session [OF u(2)] by (simp add: fs1(3))
  then obtain fs2 where fs2: "write_messages_log c env uuid [] fs1 = (fs2, Inr ())" "disk_ok fs2"
    "read_file fs2 = (read_file fs1)(log_name uuid \<mapsto> log_of c [])"
    using write_log_ok [OF fs1(2) c q k(1)] by blast
  have "represents c (A(uuid \<mapsto> ?s)) fs2"
    by (rule represents_store [OF r fs2(2) s(1) k(1) s(2)]) (simp_all add: s(3) fs1(3) fs2(3))
  moreover have "create_session c env uuid title fs = (fs2, Inr ?s)"
    using fs1(1) fs2(1) by (simp add: create_session_def new_session_def Let_def)
  ultimately show ?thesis by blast
qed

lemma updated_session_props:
  "cs_id (updated_session now t ms s) = cs_id s" "length (cs_messages (updated_session now t ms s)) \<le> MAX_SESSION_MESSAGES"
  "cs_title (updated_session now t ms s) = (case t of Some x \<Rightarrow> x | None \<Rightarrow> cs_title s)"
  "ms = None \<Longrightarrow> length (cs_messages s) \<le> MAX_SESSION_MESSAGES \<Longrightarrow> cs_messages (updated_session now t ms s) = cs_messages s"
  by (auto simp: updated_session_def truncate_messages_def Let_def split: option.split)

lemma update_refines:
  assumes r: "represents c A fs" and c: "session_codec_ok c" and q: "quiet_env env"
    and k: "validate_path_component i" "title \<noteq> Some []" "A i = Some s"
  shows "\<exists>fs'. update_session c env i title messages fs = (fs', Inr (Some (updated_session (se_now env) title messages s))) \<and>
    represents c (A(i \<mapsto> updated_session (se_now env) title messages s)) fs'"
proof -
  let ?s = "updated_session (se_now env) title messages s"
  have s: "cs_id s = i" "stored c fs s" "length (cs_messages s) \<le> MAX_SESSION_MESSAGES" "disk_ok fs" using r k(3) by (auto simp: represents_def)
  note p = updated_session_props [where now = "se_now env" and t = title and ms = messages and s = s]
  have v: "validate_path_component (cs_id ?s)" "cs_title ?s \<noteq> []" "length (cs_messages ?s) \<le> MAX_SESSION_MESSAGES"
    using k s p by (auto simp: stored_def split: option.splits)
  have get: "store_get_session c env i fs = (fs, Inr (Some s))" using represents_get [OF r c k(1)] k(3) by simp
  have eq: "(truncate_messages (case messages of Some m \<Rightarrow> (case title of Some t \<Rightarrow> s\<lparr>cs_title := t\<rparr> | None \<Rightarrow> s)\<lparr>cs_messages := m\<rparr>
      | None \<Rightarrow> (case title of Some t \<Rightarrow> s\<lparr>cs_title := t\<rparr> | None \<Rightarrow> s)))\<lparr>cs_updated_at := se_now env\<rparr> = ?s"
    by (cases messages; cases title) (simp_all add: updated_session_def truncate_messages_def Let_def)
  obtain fs1 where fs1: "(if messages \<noteq> None then write_messages_log c env i (cs_messages ?s) fs else (fs, Inr ())) = (fs1, Inr ())"
    "disk_ok fs1" "read_file fs1 = (read_file fs)(log_name (cs_id ?s) \<mapsto> log_of c (cs_messages ?s))"
  proof (cases messages)
    case None
    then have "cs_messages ?s = cs_messages s" using p(4) s(3) by blast
    then have "read_file fs = (read_file fs)(log_name (cs_id ?s) \<mapsto> log_of c (cs_messages ?s))"
      using s(2) p(1) by (auto simp: stored_def fun_eq_iff)
    then show ?thesis using that [of fs] None s(4) by simp
  next
    case (Some m)
    have u: "plain_uuid (io_uuid (se_log env))" using q by (simp add: quiet_env_def)
    show ?thesis using that write_log_ok [OF s(4) c q k(1) temp_absent [OF r u], of "cs_messages ?s"] Some s(1) p(1) by auto
  qed
  obtain fs' where fs': "write_meta c env (meta_from_session ?s) fs1 = (fs', Inr ())" "represents c (A(cs_id ?s \<mapsto> ?s)) fs'"
    using store_after_log [OF r c q v fs1(2,3)] by blast
  then show ?thesis
    using get fs1(1) p(1) s(1) by (auto simp: update_session_def Let_def eq split: prod.splits)
qed

lemma append_refines:
  assumes r: "represents c A fs" and c: "session_codec_ok c" and q: "quiet_env env"
    and k: "validate_path_component i" "A i = Some s"
  shows "\<exists>fs'. append_message c env i m fs = (fs', Inr (Some (appended_session (se_now env) m s))) \<and>
    represents c (A(i \<mapsto> appended_session (se_now env) m s)) fs'"
proof -
  let ?s = "appended_session (se_now env) m s"
  have s: "cs_id s = i" "stored c fs s" "length (cs_messages s) \<le> MAX_SESSION_MESSAGES" "disk_ok fs" using r k(2) by (auto simp: represents_def)
  have get: "store_get_session c env i fs = (fs, Inr (Some s))" using represents_get [OF r c k(1)] k(2) by simp
  have v: "cs_id ?s = i" "validate_path_component (cs_id ?s)" "cs_title ?s \<noteq> []" "length (cs_messages ?s) \<le> MAX_SESSION_MESSAGES"
    using s k by (auto simp: appended_session_def add_message_evicting_def length_evict stored_def)
  let ?ev = "length (cs_messages ?s) < length (cs_messages s) + 1"
  obtain fs1 where fs1: "(if ?ev then write_messages_log c env i (cs_messages ?s) fs else append_message_to_log c env i (last (cs_messages ?s)) fs) = (fs1, Inr ())"
    "disk_ok fs1" "read_file fs1 = (read_file fs)(log_name (cs_id ?s) \<mapsto> log_of c (cs_messages ?s))"
  proof (cases ?ev)
    case True
    have u: "plain_uuid (io_uuid (se_log env))" using q by (simp add: quiet_env_def)
    show ?thesis using that write_log_ok [OF s(4) c q k(1) temp_absent [OF r u], of "cs_messages ?s"] True v(1) by auto
  next
    case False
    then have "length (cs_messages s) < MAX_SESSION_MESSAGES" using s(3) by (auto simp: appended_session_def add_message_evicting_def length_evict)
    then have ms: "cs_messages ?s = cs_messages s @ [m]" by (simp add: appended_session_def add_message_evicting_def evict_below)
    have "read_file fs (log_name i) = Some (log_of c (cs_messages s))" using s by (simp add: stored_def)
    from append_log_ok [OF s(4) c q k(1) this, of m] show ?thesis
      using that ms v(1) by (auto simp: log_of_append)
  qed
  obtain fs' where fs': "write_meta c env (meta_from_session ?s) fs1 = (fs', Inr ())" "represents c (A(cs_id ?s \<mapsto> ?s)) fs'"
    using store_after_log [OF r c q v(2-) fs1(2,3)] by blast
  then show ?thesis
    using get fs1(1) v(1)
    by (auto simp: append_message_def Let_def appended_session_def [symmetric] split: prod.splits)
      (simp_all add: appended_session_def)
qed

lemma read_remove: "disk_ok fs \<Longrightarrow> read_file (fs_try (RemoveFile n) fs) = (read_file fs)(n := None)"
  using file_exec_refines [of fs "RemoveFile n"] by (auto simp: fs_try_def read_file_def fun_eq_iff split: option.splits if_splits)

lemma represents_delete:
  assumes r: "represents c A fs" and k: "A i = Some s" and ok: "disk_ok fs'"
    and f: "read_file fs' = (read_file fs)(meta_name i := None, log_name i := None)"
  shows "represents c (A(i := None)) fs'"
proof -
  have "stored c fs' x" if "A j = Some x" "j \<noteq> i" for j x
    using r that f by (auto simp: represents_def stored_def)
  moreover have "\<exists>j. (A(i := None)) j \<noteq> None \<and> (n = meta_name j \<or> n = log_name j)" if n: "read_file fs' n \<noteq> None" for n
  proof -
    have "read_file fs n \<noteq> None" "n \<noteq> meta_name i" "n \<noteq> log_name i" using n by (auto simp: f split: if_splits)
    then show ?thesis using r unfolding represents_def by (metis fun_upd_apply)
  qed
  ultimately show ?thesis using r ok unfolding represents_def by auto
qed

lemma delete_refines:
  assumes r: "represents c A fs" and c: "session_codec_ok c" and k: "validate_path_component i"
  shows "\<exists>fs' images'. delete_session c True True fresh remove_ok i fs images = (fs', images', Inr (A i \<noteq> None)) \<and> represents c (A(i := None)) fs'"
proof (cases "A i")
  case None
  then have "read_file fs (meta_name i) = None" "A(i := None) = A" using r names_distinct unfolding represents_def by (metis, auto)
  then show ?thesis using r None k by (simp add: delete_session_def paths_of_valid)
next
  case (Some s)
  have ok: "disk_ok fs" and st: "stored c fs s" "cs_id s = i" using r Some by (auto simp: represents_def)
  obtain b where b: "sc_meta c (meta_from_session s) = Some b" by (rule meta_text [OF c])
  have m: "read_file fs (meta_name i) \<noteq> None" "read_file fs (log_name i) \<noteq> None" using st b by (auto simp: stored_def)
  let ?fs1 = "fs_try (RemoveFile (meta_name i)) fs" and ?fs2 = "fs_try (RemoveFile (log_name i)) (fs_try (RemoveFile (meta_name i)) fs)"
  have ok1: "disk_ok ?fs1" by (rule disk_ok_try [OF ok])
  have "read_file ?fs2 = (read_file fs)(meta_name i := None, log_name i := None)"
    by (simp add: read_remove [OF ok1] read_remove [OF ok])
  then have "represents c (A(i := None)) ?fs2" by (rule represents_delete [OF r Some disk_ok_try [OF ok1]])
  moreover have "read_file ?fs1 (log_name i) \<noteq> None" using m(2) by (simp add: read_remove [OF ok])
  ultimately show ?thesis
    using m k Some by (auto simp: delete_session_def paths_of_valid Let_def log_name_def [symmetric])
qed

text \<open>One call, then any sequence of them.\<close>

lemma session_exec_refines:
  assumes r: "represents c A fs" and c: "session_codec_ok c" and q: "quiet_env env" and k: "call_ok A call"
  shows "\<exists>fs' images'. session_exec c fresh env call (fs, images) = ((fs', images'), snd (table_exec (se_now env) call A)) \<and>
    represents c (fst (table_exec (se_now env) call A)) fs'"
proof (cases call)
  case (ScCreate uuid title)
  then show ?thesis using create_refines [OF r c q, of uuid title] k by auto
next
  case (ScGet i)
  then show ?thesis using represents_get [OF r c, of i env] r k by auto
next
  case (ScUpdate i title messages)
  show ?thesis
  proof (cases "A i")
    case None
    then show ?thesis using represents_get [OF r c, of i env] r k ScUpdate by (auto simp: update_session_def)
  next
    case (Some s)
    then show ?thesis using update_refines [OF r c q, of i title s messages] k ScUpdate by auto
  qed
next
  case (ScAppend i m)
  show ?thesis
  proof (cases "A i")
    case None
    then show ?thesis using represents_get [OF r c, of i env] r k ScAppend by (auto simp: append_message_def)
  next
    case (Some s)
    then show ?thesis using append_refines [OF r c q, of i s m] k ScAppend by auto
  qed
next
  case (ScDelete i)
  then show ?thesis using delete_refines [OF r c, of i fresh "\<lambda>n. True" images] k by auto
qed

fun session_run ::
  "session_codec \<Rightarrow> (fname \<Rightarrow> bool) \<Rightarrow> (sess_env \<times> session_call) list \<Rightarrow> disk \<times> disk \<Rightarrow> (disk \<times> disk) \<times> (session_error + session_reply) list" where
  "session_run c fresh [] d = (d, [])"
| "session_run c fresh ((env, call) # calls) d =
    (case session_exec c fresh env call d of (d1, r) \<Rightarrow> (case session_run c fresh calls d1 of (d2, rs) \<Rightarrow> (d2, r # rs)))"

fun table_run :: "(sess_env \<times> session_call) list \<Rightarrow> session_table \<Rightarrow> session_table \<times> (session_error + session_reply) list" where
  "table_run [] A = (A, [])"
| "table_run ((env, call) # calls) A =
    (case table_exec (se_now env) call A of (A1, r) \<Rightarrow> (case table_run calls A1 of (A2, rs) \<Rightarrow> (A2, r # rs)))"

fun calls_ok :: "(sess_env \<times> session_call) list \<Rightarrow> session_table \<Rightarrow> bool" where
  "calls_ok [] A = True"
| "calls_ok ((env, call) # calls) A = (quiet_env env \<and> call_ok A call \<and> calls_ok calls (fst (table_exec (se_now env) call A)))"

lemma session_run_refines:
  assumes "represents c A fs" "session_codec_ok c" "calls_ok calls A"
  shows "\<exists>fs' images'. session_run c fresh calls (fs, images) = ((fs', images'), snd (table_run calls A)) \<and>
    represents c (fst (table_run calls A)) fs'"
  using assms
proof (induction calls arbitrary: A fs images)
  case (Cons x calls)
  obtain env call where x: "x = (env, call)" by fastforce
  obtain fs1 images1 where e: "session_exec c fresh env call (fs, images) = ((fs1, images1), snd (table_exec (se_now env) call A))"
    "represents c (fst (table_exec (se_now env) call A)) fs1"
    using session_exec_refines [OF Cons.prems(1,2), of env call fresh images] Cons.prems(3) x by auto
  then show ?case using Cons.IH [OF e(2) Cons.prems(2), of images1] Cons.prems(3) x by (auto split: prod.splits)
qed auto


end
