(* ===== verification/Session_Crash.thy ===== *)
theory Session_Crash
  imports Session_Props
begin

text \<open>
  The session store when writes fail or the program dies in the middle of one, the images that the sweep may
  remove, and the places where the code does less than its comments say.
\<close>

section \<open>Interrupted appends\<close>

lemma stored_frame:
  assumes "stored c fs s" "read_file fs' (meta_name (cs_id s)) = read_file fs (meta_name (cs_id s))"
    "read_file fs' (log_name (cs_id s)) = read_file fs (log_name (cs_id s))"
  shows "stored c fs' s"
  using assms by (simp add: stored_def)

text \<open>A log to which some bytes of a line have been added reads as the messages before, or with the new one.\<close>

lemma read_log_cut:
  assumes c: "session_codec_ok c" and p: "prefix_free c" and v: "validate_path_component i"
    and l: "read_file fs (log_name i) = Some (log_of c ms @ take k (msg_line c m @ [0x0A]))" (is "_ = Some (_ @ ?t)")
    and u: "utf8_valid (log_of c ms @ take k (msg_line c m @ [0x0A]))"
  shows "\<exists>ms'. read_messages_log c env i fs = (fs, Inr ms') \<and> ms' \<in> {ms, ms @ [m]}"
proof (cases "k < length (msg_line c m)")
  case True
  then have t: "?t = take k (msg_line c m)" by simp
  have "0x0A \<notin> set ?t" unfolding t using msg_line(3) [OF c, of m] by (meson in_set_takeD)
  moreover have "sc_msg_of c ?t = None" using p True msg_line(1) [OF c, of m] unfolding prefix_free_def t by blast
  ultimately show ?thesis using read_log [OF c v l u] by blast
next
  case False
  show ?thesis
  proof (cases "k = length (msg_line c m)")
    case True
    then have "?t = msg_line c m" by simp
    moreover have "read_log_lines c (str_lines (log_of c ms @ msg_line c m)) = Some (ms @ [m])"
    proof -
      have "msg_line c m \<noteq> []" using msg_line(6) [OF c, of m] by (auto simp: blank_line_def trim_chars_def utf8_chars.simps)
      then show ?thesis
        using str_lines_log [OF c msg_line(3) [OF c], of ms m] read_log_lines_app [OF c, of "ms @ [m]" "[]"] by simp
    qed
    ultimately show ?thesis using l u v by (simp add: read_messages_log_def paths_of_valid)
  next
    case False
    with \<open>\<not> k < length (msg_line c m)\<close> have "log_of c ms @ ?t = log_of c (ms @ [m]) @ []" by (simp add: log_of_append)
    then show ?thesis using read_log [OF c v, of fs "ms @ [m]" "[]"] l u by auto
  qed
qed

lemma load_either_meta:
  assumes c: "session_codec_ok c" and v: "validate_path_component i" and t: "title \<noteq> []"
    and m: "read_file fs (meta_name i) = sc_meta c meta" "mt_id meta = i" "mt_title meta = title"
    and l: "read_messages_log c env i fs = (fs, Inr ms)"
  shows "\<exists>s. store_get_session c env i fs = (fs, Inr (Some s)) \<and> cs_id s = i \<and> cs_title s = title \<and> cs_messages s = ms"
  using load_with_meta [OF c v m(2) _ m(1), of env] t m(3) l by auto

text \<open>What an append leaves on disk, however it ends.\<close>

lemma append_outcome:
  assumes c: "session_codec_ok c" and r: "represents c A fs"
    and u: "plain_uuid (io_uuid (se_meta env))" and v: "validate_path_component i" and s: "A i = Some s"
    and cap: "length (cs_messages s) < MAX_SESSION_MESSAGES" and a: "append_message c env i m fs = (fs', result)"
  shows "(\<exists>k. read_file fs' (log_name i) = Some (log_of c (cs_messages s) @ take k (msg_line c m @ [0x0A]))) \<and>
    read_file fs' (meta_name i) \<in> {sc_meta c (meta_from_session s), sc_meta c (meta_from_session (appended_session (se_now env) m s))} \<and>
    (\<forall>j. j \<noteq> i \<longrightarrow> read_file fs' (meta_name j) = read_file fs (meta_name j) \<and> read_file fs' (log_name j) = read_file fs (log_name j)) \<and>
    (result = Inl SeIo \<or> result = Inr (Some (appended_session (se_now env) m s)) \<and> stored c fs' (appended_session (se_now env) m s))"
proof -
  let ?s = "appended_session (se_now env) m s" and ?ms = "cs_messages s"
  have st: "cs_id s = i" "stored c fs s" "disk_ok fs" and title: "cs_title s \<noteq> []" using r s by (auto simp: represents_def stored_def)
  have get: "store_get_session c env i fs = (fs, Inr (Some s))" using represents_get [OF r c v] s by simp
  have ms: "cs_messages ?s = ?ms @ [m]" "cs_id ?s = i" "cs_title ?s = cs_title s" "cs_messages (add_message_evicting m s) = ?ms @ [m]"
    using cap st(1) by (simp_all add: appended_session_def add_message_evicting_def evict_below)
  obtain fs1 ok where run: "run_ops (se_append env) (append_ops (log_name i) (msg_line c m @ [0x0A])) fs = (fs1, ok)" by fastforce
  have log: "read_file fs (log_name i) = Some (log_of c ?ms)" using st by (simp add: stored_def)
  note ap = append_effect [OF st(3) run log]
  have to_log: "append_message_to_log c env i m fs = (fs1, if ok then Inr () else Inl SeIo)"
    using run v msg_line(1) [OF c, of m] by (simp add: append_message_to_log_def paths_of_valid)
  obtain fs2 w where wm: "write_meta c env (meta_from_session ?s) fs1 = (fs2, w)" by fastforce
  have end_state: "fs' = (if ok then fs2 else fs1)" "result = (if ok then (case w of Inl e \<Rightarrow> Inl e | Inr x \<Rightarrow> Inr (Some ?s)) else Inl SeIo)"
    using a get to_log wm ms
    by (auto simp: append_message_def Let_def appended_session_def [symmetric] split: sum.splits prod.splits)
  obtain b where b: "sc_meta c (meta_from_session ?s) = Some b" by (rule meta_text [OF c])
  have id: "mt_id (meta_from_session ?s) = i" using ms(2) by (simp add: meta_from_session_def)
  obtain fs3 wrote where wf: "write_file_durable (se_meta env) (meta_name i) b True fs1 = (fs3, wrote)" by fastforce
  then have fs3: "fs2 = fs3" "w = (if wrote then Inr () else Inl SeIo)"
    using wm b id v by (cases wrote; simp add: write_meta_def paths_of_valid)+
  note eff = write_durable_effect [OF ap(1) wf]
  have all: "take (length (msg_line c m @ [0x0A])) (msg_line c m @ [0x0A]) = msg_line c m @ [0x0A]" by simp
  show ?thesis
  proof (cases ok)
    case False
    have "read_file fs1 n = read_file fs n" if "n \<noteq> log_name i" for n using ap(2) that by blast
    then show ?thesis using False end_state ap(3) st(1,2) by (auto simp: stored_def)
  next
    case True
    then have f1: "read_file fs1 = (read_file fs)(log_name i \<mapsto> log_of c ?ms @ msg_line c m @ [0x0A])" using ap(4) by blast
    have f2: "read_file fs2 n = read_file fs1 n" if "n = log_name j \<or> n = meta_name j \<and> j \<noteq> i" for n j
      using eff(3) [of n] temp_not_session [OF u] that fs3(1) by (metis names_distinct(1,4))
    have fin: "fs' = fs2" using True end_state by simp
    have "\<exists>k. read_file fs' (log_name i) = Some (log_of c ?ms @ take k (msg_line c m @ [0x0A]))"
      by (rule exI [of _ "length (msg_line c m @ [0x0A])"], unfold all) (use f2 [of "log_name i" i] f1 fin in simp)
    moreover have "read_file fs' (meta_name i) \<in> {sc_meta c (meta_from_session s), sc_meta c (meta_from_session ?s)}"
      using eff(4) fs3(1) fin f1 st(1,2) b by (auto simp: stored_def)
    moreover have "read_file fs' (meta_name j) = read_file fs (meta_name j) \<and> read_file fs' (log_name j) = read_file fs (log_name j)" if "j \<noteq> i" for j
      using f2 [of "meta_name j" j] f2 [of "log_name j" j] f1 fin that by simp
    moreover have "stored c fs' ?s" if "wrote"
      using that eff(2) fs3(1) fin f1 b ms v title by (simp add: stored_def log_of_append)
    moreover have "result = (if wrote then Inr (Some ?s) else Inl SeIo)" using True end_state(2) fs3(2) by simp
    ultimately show ?thesis by (simp split: if_splits)
  qed
qed


section \<open>Images\<close>

lemma split_name_dot:
  assumes "before \<noteq> []" "byte CHR ''.'' \<notin> set after"
  shows "split_name (before @ byte CHR ''.'' # after) = Some (before, after) \<or> before @ byte CHR ''.'' # after = bytes_of ''..''"
proof -
  have "takeWhile (\<lambda>b. b \<noteq> byte CHR ''.'') (rev after @ byte CHR ''.'' # rev before) = rev after"
    "dropWhile (\<lambda>b. b \<noteq> byte CHR ''.'') (rev after @ byte CHR ''.'' # rev before) = byte CHR ''.'' # rev before"
    using assms(2) by (induction after rule: rev_induct) auto
  then show ?thesis using assms(1) by (simp add: split_name_def Let_def)
qed

lemma suffix_names:
  assumes "i \<noteq> []"
  shows "name_extension (meta_name i) = Some (bytes_of ''json'')" "name_extension (log_name i) = Some (bytes_of ''jsonl'')"
    "name_stem (i @ bytes_of ''.bin'') = i"
proof -
  have d: "bytes_of ''.json'' = byte CHR ''.'' # bytes_of ''json''" "bytes_of ''.jsonl'' = byte CHR ''.'' # bytes_of ''jsonl''"
    "bytes_of ''.bin'' = byte CHR ''.'' # bytes_of ''bin''" by (simp_all add: bytes_of_def)
  have n: "byte CHR ''.'' \<notin> set (bytes_of ''json'')" "byte CHR ''.'' \<notin> set (bytes_of ''jsonl'')" "byte CHR ''.'' \<notin> set (bytes_of ''bin'')"
    "length (bytes_of ''json'') = 4" "length (bytes_of ''jsonl'') = 5" "length (bytes_of ''bin'') = 3" "length (bytes_of ''..'') = 2"
    by (simp_all add: bytes_of_def)
  have l: "i @ byte CHR ''.'' # x \<noteq> bytes_of ''..''" if "2 < length x" for x
  proof
    assume "i @ byte CHR ''.'' # x = bytes_of ''..''"
    then have "length (i @ byte CHR ''.'' # x) = length (bytes_of ''..'')" by (rule arg_cong)
    then show False using that n(7) by simp
  qed
  show "name_extension (meta_name i) = Some (bytes_of ''json'')" "name_extension (log_name i) = Some (bytes_of ''jsonl'')"
    "name_stem (i @ bytes_of ''.bin'') = i"
    using split_name_dot [OF assms n(1)] split_name_dot [OF assms n(2)] split_name_dot [OF assms n(3)] l n
    by (simp_all add: name_extension_def name_stem_def meta_name_def log_name_def d)
qed

text \<open>The messages of a session that can be read are among those the sweep sees.\<close>

lemma read_lines_sweep: "read_log_lines c ls = Some ms \<Longrightarrow> set ms \<subseteq> set (List.map_filter (sc_msg_of c) (filter (\<lambda>l. \<not> blank_line l) ls))"
  by (induction ls arbitrary: ms) (auto split: if_splits option.splits)

lemma live_messages_seen:
  assumes get: "store_get_session c env i fs = (fs', Inr (Some s))" and m: "m \<in> set (cs_messages s)"
  shows "\<exists>name \<in> fst ` set (d_dir fs). m \<in> set (entry_messages c fs name)"
proof -
  have v: "validate_path_component i" using get by (auto simp: store_get_session_def split: if_splits)
  have load: "load_session_sync c env i fs = (fs', Inr (Some s))" using get v by (simp add: store_get_session_def)
  obtain data where d: "read_file fs (meta_name i) = Some data" "utf8_valid data"
    using load v by (auto simp: load_session_sync_def paths_of_valid split: option.splits if_splits)
  have in_dir: "n \<in> fst ` set (d_dir fs)" if "read_file fs n = Some x" for n x
    using that by (force simp: read_file_def dest: map_of_SomeD)
  note ext = suffix_names [OF valid_id_neq_Nil [OF v]]
  show ?thesis
  proof (cases "Option.bind (sc_meta_of c data) (\<lambda>meta. if proper (mt_id meta) (mt_title meta) then Some meta else None)")
    case None
    then have "sc_session_of c data = Some s"
      using load d v by (auto simp: load_session_sync_def paths_of_valid quarantine_file_def Let_def
          split: option.splits prod.splits sum.splits if_splits bind_splits)
    then have "m \<in> set (entry_messages c fs (meta_name i))"
      using m d ext by (simp add: entry_messages_def bytes_of_def)
    then show ?thesis using in_dir [OF d(1)] by blast
  next
    case (Some meta)
    then obtain ms where r: "read_messages_log c env i fs = (fs', Inr ms)" "ms = cs_messages s"
      using load d v by (auto simp: load_session_sync_def paths_of_valid split: prod.splits sum.splits)
    then obtain body
      where t: "read_file fs (log_name i) = Some body" "utf8_valid body" "read_log_lines c (str_lines body) = Some ms"
      using m v by (auto simp: read_messages_log_def paths_of_valid split: option.splits if_splits prod.splits)
    then have "m \<in> set (entry_messages c fs (log_name i))"
      using m r(2) ext read_lines_sweep [OF t(3)] by (auto simp: entry_messages_def)
    then show ?thesis using in_dir [OF t(1)] by blast
  qed
qed

lemma live_images_used:
  assumes "store_get_session c env i fs = (fs', Inr (Some s))" "m \<in> set (cs_messages s)" "image_id \<in> set (message_images m)"
  shows "image_id \<in> used_image_ids c fs"
  using live_messages_seen [OF assms(1,2)] assms(3) by (auto simp: used_image_ids_def)

lemma sweep_image_keeps:
  assumes "disk_ok images" "name_stem n \<in> used \<or> fresh n"
  shows "read_file (fst (fold (sweep_image used fresh remove_ok) names (images, k))) n = read_file images n"
  using assms
proof (induction names arbitrary: images k)
  case (Cons x names)
  let ?acc = "sweep_image used fresh remove_ok x (images, k)"
  have "disk_ok (fst ?acc) \<and> read_file (fst ?acc) n = read_file images n"
    using Cons.prems read_try_remove [of images n x] by (cases "n = x") (auto simp: sweep_image_def disk_ok_try)
  then show ?case using Cons.IH [of "fst ?acc" "snd ?acc"] Cons.prems(2) by simp
qed simp

lemma sweep_changes:
  assumes "disk_ok images"
  shows "read_file (fst (fold (sweep_image used fresh remove_ok) names (images, k))) n \<in> {read_file images n, None}"
  using assms
proof (induction names arbitrary: images k)
  case (Cons x names)
  let ?acc = "sweep_image used fresh remove_ok x (images, k)"
  have "disk_ok (fst ?acc) \<and> read_file (fst ?acc) n \<in> {read_file images n, None}"
    using Cons.prems by (auto simp: sweep_image_def disk_ok_try read_remove)
  then show ?case using Cons.IH [of "fst ?acc" "snd ?acc"] by auto
qed simp

text \<open>
  C21. The sweep never removes an image that is in use: when a session can be read, in the new layout or the old one, every
  image that one of its messages refers to is still there afterwards, and so is every image written within the
  grace period; and nothing but whole files is removed.
\<close>

theorem live_images_kept:
  assumes "disk_ok images"
    and "store_get_session c env i sessions = (sessions', Inr (Some s))" "m \<in> set (cs_messages s)" "image_id \<in> set (message_images m)"
    and "validate_path_component image_id"
  shows "load_image encode image_id (fst (cleanup_orphaned_images_older_than c fresh remove_ok sessions images)) = load_image encode image_id images \<and>
    (fresh n \<longrightarrow> read_file (fst (cleanup_orphaned_images_older_than c fresh remove_ok sessions images)) n = read_file images n) \<and>
    read_file (fst (cleanup_orphaned_images_older_than c fresh remove_ok sessions images)) n \<in> {read_file images n, None}"
proof -
  have "name_stem (image_id @ bytes_of ''.bin'') \<in> used_image_ids c sessions"
    using live_images_used [OF assms(2-4)] suffix_names(3) [OF valid_id_neq_Nil [OF assms(5)]] by simp
  then have "load_image encode image_id (fst (cleanup_orphaned_images_older_than c fresh remove_ok sessions images)) = load_image encode image_id images"
    using assms(5) sweep_image_keeps [OF assms(1)] by (simp add: load_image_def image_path_def cleanup_orphaned_images_older_than_def)
  then show ?thesis
    using sweep_image_keeps [OF assms(1), of n] sweep_changes [OF assms(1)] by (simp add: cleanup_orphaned_images_older_than_def)
qed

section \<open>Listing\<close>

lemma item_of_meta_session: "item_of_meta (meta_from_session s) = item_of_session s"
  by (simp add: item_of_meta_def item_of_session_def meta_from_session_def)

lemma list_entry_represents:
  assumes r: "represents c A fs" and c: "session_codec_ok c" and n: "read_file fs n \<noteq> None"
  shows "(\<exists>i s. n = meta_name i \<and> A i = Some s \<and> list_entry c env n fs = (fs, Inr (Some (item_of_session s)))) \<or>
    (\<exists>i. n = log_name i) \<and> list_entry c env n fs = (fs, Inr None)"
proof -
  obtain i s where i: "A i = Some s" "n = meta_name i \<or> n = log_name i" using r n unfolding represents_def by blast
  then have s: "cs_id s = i" "stored c fs s" using r by (auto simp: represents_def)
  have v: "i \<noteq> []" using s valid_id_neq_Nil by (auto simp: stored_def)
  obtain b where b: "sc_meta c (meta_from_session s) = Some b" "sc_meta_of c b = Some (meta_from_session s)" "is_str b" by (rule meta_text [OF c])
  have "list_entry c env (meta_name i) fs = (fs, Inr (Some (item_of_meta (meta_from_session s))))"
    using b s v suffix_names(1) [OF v] is_str_valid [OF b(3)]
    by (simp add: list_entry_def stored_def proper_def) (simp add: meta_from_session_def)
  moreover have "list_entry c env (log_name i) fs = (fs, Inr None)"
    using suffix_names(2) [OF v] by (simp add: list_entry_def bytes_of_def)
  ultimately show ?thesis using i by (auto simp: item_of_meta_session)
qed

lemma list_entries_represents:
  assumes r: "represents c A fs" and c: "session_codec_ok c" and n: "\<forall>n\<in>set names. read_file fs n \<noteq> None"
  shows "\<exists>items. list_entries c env names fs = (fs, Inr items) \<and>
    set items = {item_of_session s |s i. A i = Some s \<and> meta_name i \<in> set names}"
  using n
proof (induction names)
  case (Cons n names)
  then obtain items where items: "list_entries c env names fs = (fs, Inr items)"
    "set items = {item_of_session s |s i. A i = Some s \<and> meta_name i \<in> set names}" by auto
  have "read_file fs n \<noteq> None" using Cons.prems by simp
  from list_entry_represents [OF r c this, of "env n"] show ?case
    using items by (fastforce dest: names_distinct(1) [THEN iffD1])
qed simp

text \<open>
  The list of sessions has one entry for each, with its title, times, number of messages and preview, the
  latest first, although no log is read.
\<close>

theorem sessions_listed:
  assumes r: "represents c A fs" and c: "session_codec_ok c"
  shows "\<exists>items. store_list_sessions c env fs = (fs, Inr items) \<and> set items = item_of_session ` ran A \<and>
    sorted_wrt (\<lambda>a b. li_updated_at b \<le> li_updated_at a) items"
proof -
  have dir: "read_file fs n \<noteq> None" if "n \<in> set (map fst (d_dir fs))" for n
    using that by (auto simp: read_file_def map_of_eq_None_iff)
  obtain items where items: "list_entries c env (map fst (d_dir fs)) fs = (fs, Inr items)"
    "set items = {item_of_session s |s i. A i = Some s \<and> meta_name i \<in> set (map fst (d_dir fs))}"
    using list_entries_represents [OF r c, of "map fst (d_dir fs)" env] dir by blast
  have present: "meta_name i \<in> set (map fst (d_dir fs))" if "A i = Some s" for i s
  proof -
    obtain b where b: "sc_meta c (meta_from_session s) = Some b" by (rule meta_text [OF c])
    have "cs_id s = i" "stored c fs s" using r that by (auto simp: represents_def)
    then have "read_file fs (meta_name i) \<noteq> None" using b by (auto simp: stored_def)
    then show ?thesis by (auto simp: read_file_def map_of_eq_None_iff)
  qed
  have "set items = {item_of_session s |s i. A i = Some s}" using items(2) present by blast
  then have "set items = item_of_session ` ran A" by (auto simp: ran_def)
  moreover have "sorted_wrt (\<lambda>a b. li_updated_at b \<le> li_updated_at a) (sort_key (\<lambda>x. - int (li_updated_at x)) items)"
    using sorted_sort_key [of "\<lambda>x. - int (li_updated_at x)" items] by (simp add: sorted_map)
  ultimately show ?thesis using items(1) by (simp add: store_list_sessions_def)
qed

end
