(* ===== verification/Session_Demo.thy ===== *)
theory Session_Demo
  imports Session_Crash
begin

text \<open>
  A small codec that has the properties assumed of \<open>serde_json\<close>, runs of the session store with it, and the recorded
  differences between the comments of \<open>session.rs\<close> and what it does.
\<close>

section \<open>A codec\<close>

text \<open>A value is a list of numbers, written in decimal between braces.\<close>

definition nums_text :: "nat list \<Rightarrow> bytes" where
  "nums_text ns = byte CHR ''{'' # concat (map (\<lambda>n. dec n @ [byte CHR '','']) ns) @ [byte CHR ''}'']"

definition text_nums :: "bytes \<Rightarrow> nat list" where
  "text_nums b = map digits_value (butlast (split_on (byte CHR '','') (butlast (tl b))))"

definition bytes_nums :: "bytes \<Rightarrow> nat list" where
  "bytes_nums bs = length bs # map unat bs"

definition take_bytes :: "nat list \<Rightarrow> bytes \<times> nat list" where
  "take_bytes ns = (map of_nat (take (hd ns) (tl ns)), drop (hd ns) (tl ns))"

lemma take_bytes [simp]: "take_bytes (bytes_nums bs @ rest) = (bs, rest)"
  by (simp add: take_bytes_def bytes_nums_def comp_def)

lemma dec_no_comma: "byte CHR '','' \<notin> set (dec n)" "byte CHR ''}'' \<notin> set (dec n)"
  using dec_digits [of n] by (auto simp: list_all_iff is_digit_def in_range_def)

lemma split_nums: "split_on (byte CHR '','') (concat (map (\<lambda>n. dec n @ [byte CHR '','']) ns)) = map dec ns @ [[]]"
proof (induction ns)
  case (Cons n ns)
  then show ?case using split_on_line [OF dec_no_comma(1) [of n]] by simp
qed simp

lemma text_nums_text: "text_nums (nums_text ns) = ns"
  using split_nums [of ns] by (simp add: text_nums_def nums_text_def butlast_append comp_def digits_value_dec)

lemma nums_text_brace: "k < length (nums_text ns) \<Longrightarrow> byte CHR ''}'' \<notin> set (take k (nums_text ns))"
proof -
  assume k: "k < length (nums_text ns)"
  have "byte CHR ''}'' \<notin> set (byte CHR ''{'' # concat (map (\<lambda>n. dec n @ [byte CHR '','']) ns))"
    using dec_no_comma(2) by auto
  moreover have "take k (nums_text ns) = take k (byte CHR ''{'' # concat (map (\<lambda>n. dec n @ [byte CHR '','']) ns))"
    using k by (cases k) (simp_all add: nums_text_def)
  ultimately show ?thesis by (metis in_set_takeD)
qed

lemma nums_text_ascii: "ascii (nums_text ns)" "0x0A \<notin> set (nums_text ns)" "0x0D \<notin> set (nums_text ns)"
proof -
  have d: "b \<in> set (dec n) \<Longrightarrow> 0x30 \<le> unat b \<and> unat b \<le> 0x39" for n b
    using dec_digits [of n] by (auto simp: list_all_iff is_digit_def in_range_def)
  have s: "b \<in> set (nums_text ns) \<Longrightarrow> 0x2C \<le> unat b \<and> unat b \<le> 0x7D" for b
  proof -
    assume "b \<in> set (nums_text ns)"
    then consider "b = byte CHR ''{''" | "b = byte CHR '',''" | "b = byte CHR ''}''" | n where "b \<in> set (dec n)"
      by (auto simp: nums_text_def split: if_splits)
    then show ?thesis by cases (use d in force)+
  qed
  show "ascii (nums_text ns)" using s by (force simp: ascii_def list_all_iff)
  show "0x0A \<notin> set (nums_text ns)" "0x0D \<notin> set (nums_text ns)" using s [of "0x0A"] s [of "0x0D"] by auto
qed

definition role_num :: "message_role \<Rightarrow> nat" where
  "role_num r = (case r of RSystem \<Rightarrow> 0 | RUser \<Rightarrow> 1 | RAthena \<Rightarrow> 2)"

definition num_role :: "nat \<Rightarrow> message_role" where
  "num_role n = (if n = 0 then RSystem else if n = 1 then RUser else RAthena)"

definition opt_nums :: "bytes option \<Rightarrow> nat list" where
  "opt_nums x = (case x of None \<Rightarrow> [0] | Some b \<Rightarrow> 1 # bytes_nums b)"

definition take_opt :: "nat list \<Rightarrow> bytes option \<times> nat list" where
  "take_opt ns = (if hd ns = 0 then (None, tl ns) else (case take_bytes (tl ns) of (b, r) \<Rightarrow> (Some b, r)))"

lemma take_opt [simp]: "take_opt (opt_nums x @ rest) = (x, rest)"
  by (cases x) (simp_all add: take_opt_def opt_nums_def)

definition ref_nums :: "image_ref \<Rightarrow> nat list" where
  "ref_nums r = bytes_nums (ir_image_id r) @ bytes_nums (ir_media_type r) @ opt_nums (ir_name r)"

fun take_refs :: "nat \<Rightarrow> nat list \<Rightarrow> image_ref list" where
  "take_refs 0 ns = []"
| "take_refs (Suc k) ns =
    (let (i, r1) = take_bytes ns; (t, r2) = take_bytes r1; (n, r3) = take_opt r2
     in \<lparr>ir_image_id = i, ir_media_type = t, ir_name = n\<rparr> # take_refs k r3)"

lemma take_refs [simp]: "take_refs (length rs) (concat (map ref_nums rs)) = rs"
  by (induction rs) (simp_all add: ref_nums_def)

definition msg_nums :: "session_message \<Rightarrow> nat list" where
  "msg_nums m =
    bytes_nums (sm_id m) @ role_num (sm_role m) # bytes_nums (sm_content m) @ sm_timestamp m #
    (case sm_is_error m of None \<Rightarrow> 0 | Some b \<Rightarrow> if b then 1 else 2) #
    (case sm_image_refs m of None \<Rightarrow> [0] | Some rs \<Rightarrow> Suc (length rs) # concat (map ref_nums rs))"

definition nums_msg :: "nat list \<Rightarrow> session_message" where
  "nums_msg ns =
    (let (i, r1) = take_bytes ns; (t, r2) = take_bytes (tl r1); e = hd (tl r2); k = hd (tl (tl r2))
     in \<lparr>sm_id = i, sm_role = num_role (hd r1), sm_content = t, sm_timestamp = hd r2,
         sm_is_error = (if e = 0 then None else Some (e = 1)),
         sm_image_refs = (if k = 0 then None else Some (take_refs (k - 1) (tl (tl (tl r2)))))\<rparr>)"

lemma nums_msg: "nums_msg (msg_nums m) = m"
  by (cases m; cases "sm_role m"; cases "sm_is_error m"; cases "sm_image_refs m")
    (auto simp: nums_msg_def msg_nums_def role_num_def num_role_def Let_def)

definition meta_nums :: "session_meta \<Rightarrow> nat list" where
  "meta_nums m =
    bytes_nums (mt_id m) @ bytes_nums (mt_title m) @ bytes_nums (mt_last_message_preview m) @
    [mt_created_at m, mt_updated_at m, mt_message_count m]"

definition nums_meta :: "nat list \<Rightarrow> session_meta" where
  "nums_meta ns =
    (let (i, r1) = take_bytes ns; (t, r2) = take_bytes r1; (p, r3) = take_bytes r2
     in \<lparr>mt_id = i, mt_title = t, mt_created_at = hd r3, mt_updated_at = hd (tl r3), mt_message_count = hd (tl (tl r3)),
         mt_last_message_preview = p\<rparr>)"

lemma nums_meta: "nums_meta (meta_nums m) = m"
  by (cases m) (simp add: nums_meta_def meta_nums_def Let_def)

text \<open>Reading checks that the text is one that is written.\<close>

definition demo_codec :: session_codec where
  "demo_codec =
    \<lparr>sc_msg = (\<lambda>m. Some (nums_text (msg_nums m))),
     sc_msg_of = (\<lambda>b. let m = nums_msg (text_nums b) in if nums_text (msg_nums m) = b then Some m else None),
     sc_meta = (\<lambda>m. Some (nums_text (meta_nums m))),
     sc_meta_of = (\<lambda>b. let m = nums_meta (text_nums b) in if nums_text (meta_nums m) = b then Some m else None),
     sc_session_of = (\<lambda>b. None)\<rparr>"

lemma nums_text_not_blank: "\<not> blank_line (nums_text ns)"
proof -
  have "utf8_chars (nums_text ns) = 123 # tl (map unat (nums_text ns))"
    using utf8_chars_ascii [OF nums_text_ascii(1) [of ns]] by (simp add: nums_text_def)
  then show ?thesis by (simp add: blank_line_def trim_chars_def is_whitespace_def dropWhile_append3)
qed

lemma demo_codec_ok: "session_codec_ok demo_codec"
  unfolding session_codec_ok_def demo_codec_def
  by (simp add: text_nums_text nums_msg nums_meta nums_text_ascii is_str_ascii nums_text_not_blank)

lemma demo_prefix_free: "prefix_free demo_codec"
proof -
  have "nums_text ms \<noteq> take k (nums_text ns)" if "k < length (nums_text ns)" for k ns ms
    using nums_text_brace [OF that] by (metis in_set_conv_decomp nums_text_def append_Cons)
  then show ?thesis by (auto simp: prefix_free_def demo_codec_def Let_def)
qed

section \<open>Witnesses\<close>

definition demo_dur :: dur_env where
  "demo_dur = \<lparr>io_uuid = replicate 36 0x61, io_fault = None, io_cleanup = True, du_exists = False\<rparr>"

definition demo_env :: sess_env where
  "demo_env = \<lparr>se_now = 7, se_rename = True, se_log = demo_dur, se_meta = demo_dur, se_append = None\<rparr>"

definition demo_msg :: session_message where
  "demo_msg = \<lparr>sm_id = bytes_of ''m'', sm_role = RUser, sm_content = bytes_of ''hi'', sm_timestamp = 7, sm_is_error = None,
     sm_image_refs = Some [\<lparr>ir_image_id = bytes_of ''img'', ir_media_type = bytes_of ''png'', ir_name = None\<rparr>]\<rparr>"

definition demo_calls :: "(sess_env \<times> session_call) list" where
  "demo_calls = [(demo_env, ScCreate (bytes_of ''s'') None), (demo_env, ScAppend (bytes_of ''s'') demo_msg), (demo_env, ScDelete (bytes_of ''t''))]"

lemma demo_quiet: "quiet_env demo_env"
  by code_simp

lemma demo_valid: "validate_path_component (bytes_of ''s'')" "validate_path_component (bytes_of ''t'')" "validate_path_component (bytes_of ''img'')"
  by code_simp+

lemma demo_calls_ok: "calls_ok demo_calls Map.empty"
  by (simp add: demo_calls_def demo_quiet demo_valid split: option.split)

definition demo_chat :: chat_session where
  "demo_chat = \<lparr>cs_id = bytes_of ''s'', cs_title = bytes_of ''New Chat'', cs_created_at = 7, cs_updated_at = 7, cs_messages = [demo_msg]\<rparr>"

lemma demo_appended: "appended_session 7 demo_msg (new_session 7 (bytes_of ''s'') None) = demo_chat"
  using evict_below [of "[]" MAX_SESSION_MESSAGES demo_msg]
  by (simp add: appended_session_def add_message_evicting_def new_session_def demo_chat_def MAX_SESSION_MESSAGES_def)

lemma demo_table: "fst (table_run demo_calls Map.empty) = [bytes_of ''s'' \<mapsto> demo_chat]"
proof -
  have "bytes_of ''s'' \<noteq> bytes_of ''t''" by code_simp
  then show ?thesis by (auto simp: demo_calls_def demo_env_def demo_appended)
qed


text \<open>The state after these calls, and an append that is cut off after five bytes.\<close>

definition demo_fs :: disk where
  "demo_fs = fst (fst (session_run demo_codec (\<lambda>n. False) demo_calls (disk_empty, disk_empty)))"

lemma demo_represents: "represents demo_codec [bytes_of ''s'' \<mapsto> demo_chat] demo_fs"
  using session_run_refines [OF represents_empty demo_codec_ok demo_calls_ok, of "\<lambda>n. False" disk_empty] demo_table by (auto simp: demo_fs_def)

definition cut_env :: sess_env where
  "cut_env = demo_env\<lparr>se_append := Some (1, 5)\<rparr>"


theorem live_images_kept_witness:
  "load_image id (bytes_of ''img'') (fst (cleanup_orphaned_images_older_than demo_codec (\<lambda>n. False) (\<lambda>n. True) demo_fs disk_empty)) =
    load_image id (bytes_of ''img'') disk_empty"
proof -
  have get: "store_get_session demo_codec demo_env (bytes_of ''s'') demo_fs = (demo_fs, Inr (Some demo_chat))"
    using represents_get [OF demo_represents demo_codec_ok demo_valid(1)] by simp
  have m: "demo_msg \<in> set (cs_messages demo_chat)" "bytes_of ''img'' \<in> set (message_images demo_msg)"
    by (simp_all add: demo_chat_def message_images_def demo_msg_def)
  show ?thesis using live_images_kept [OF disk_ok_empty get m demo_valid(3)] by blast
qed

section \<open>Where the comments promise more\<close>

text \<open>
  A tail that a crash has torn is not removed. The next append is glued to it: the call reports success, and
  the message is not read back; one more append makes the line an inner one, and the whole log is put aside.
\<close>

lemma glued_lines:
  assumes c: "session_codec_ok c" and t: "0x0A \<notin> set t"
  shows "str_lines (log_of c ms @ t @ log_of c (m # ms')) = map (msg_line c) ms @ (t @ msg_line c m) # map (msg_line c) ms'"
proof -
  have n: "0x0A \<notin> set (t @ msg_line c m)" using t msg_line(3) [OF c, of m] by auto
  have sp: "split_on 0x0A (log_of c ms @ t @ log_of c (m # ms')) = map (msg_line c) ms @ (t @ msg_line c m) # map (msg_line c) ms' @ [[]]"
    using split_log [OF c, of ms "t @ log_of c (m # ms')"] split_on_line [OF n, of "log_of c ms'"] split_log [OF c, of ms' "[]"]
    by (simp add: log_of_def)
  have "msg_line c m \<noteq> []" using msg_line(6) [OF c, of m] by (auto simp: blank_line_def trim_chars_def)
  then have "chop_cr (t @ msg_line c m) = t @ msg_line c m" using msg_line(4) [OF c, of m] last_in_set [of "msg_line c m"] by (metis chop_cr_def last_appendR)
  then show ?thesis using chop_cr_line [OF c] by (simp add: str_lines_def Let_def sp butlast_append)
qed

lemma append_glued_lost:
  assumes c: "session_codec_ok c" and v: "validate_path_component i"
    and t: "0x0A \<notin> set t" "is_str t" "sc_msg_of c (t @ msg_line c m) = None" "\<not> blank_line (t @ msg_line c m)"
    and l: "read_file fs (log_name i) = Some (log_of c ms @ t @ log_of c (m # ms'))"
  shows "ms' = [] \<Longrightarrow> read_messages_log c env i fs = (fs, Inr ms)"
    and "ms' \<noteq> [] \<Longrightarrow> \<exists>q. snd (read_messages_log c env i fs) = Inl (SeCorrupt q)"
proof -
  have u: "utf8_valid (log_of c ms @ t @ log_of c (m # ms'))"
    by (intro is_str_valid is_str_append is_str_log [OF c] t(2))
  have r: "read_log_lines c (str_lines (log_of c ms @ t @ log_of c (m # ms'))) = (if ms' = [] then Some ms else None)"
    unfolding glued_lines [OF c t(1)] read_log_lines_app [OF c] using t(3,4) by simp
  show "ms' = [] \<Longrightarrow> read_messages_log c env i fs = (fs, Inr ms)"
    "ms' \<noteq> [] \<Longrightarrow> \<exists>q. snd (read_messages_log c env i fs) = Inl (SeCorrupt q)"
    using l u r v by (auto simp: read_messages_log_def paths_of_valid split: prod.split)
qed

text \<open>An empty title is accepted, and the session is put aside as corrupt the next time it is read.\<close>

lemma empty_title_quarantined:
  assumes c: "session_codec_ok c" and v: "validate_path_component i" and m: "mt_id meta = i" "mt_title meta = []"
    and f: "read_file fs (meta_name i) = sc_meta c meta" and l: "\<And>b. sc_meta c meta = Some b \<Longrightarrow> sc_session_of c b = None"
  shows "\<exists>q. snd (store_get_session c env i fs) = Inl (SeCorrupt q)"
proof -
  obtain b where b: "sc_meta c meta = Some b" "sc_meta_of c b = Some meta" "is_str b" by (rule meta_text [OF c])
  then show ?thesis
    using v f m l [OF b(1)] is_str_valid [OF b(3)]
    by (simp add: store_get_session_def load_session_sync_def paths_of_valid proper_def split: prod.split)
qed

text \<open>At the cap, when every stored message is a system message, the message that is dropped is the new one.\<close>

lemma newest_dropped:
  assumes "length ms = cap" "\<forall>x\<in>set ms. is_system_message x" "\<not> is_system_message m"
  shows "evict cap (ms @ [m]) = ms"
proof -
  have "position (\<lambda>x. \<not> is_system_message x) (ms @ [m]) = Some (length ms)"
    using assms(2,3) by (auto simp: position_Some nth_append)
  then show ?thesis using evict_once [OF assms(1), of m] by (simp add: drop_idx_def)
qed

end
