(* ===== verification/Agent_Detect.thy ===== *)
theory Agent_Detect
  imports Session_Log
begin

text \<open>
  \<open>crates/athena-core/src/agent_detection.rs\<close>, the part that names agents: the roster, the keys of commands, the
  classification of the processes in the foreground and its cache. Strings are the bytes of their UTF-8
  form. \<open>str::to_lowercase\<close> is written out for ASCII; for another character at a position it is the argument
  \<open>uni\<close>, since the tables of Unicode are data of the standard library.
\<close>

section \<open>Text\<close>

definition ascii_lower :: "uchar \<Rightarrow> uchar" where
  "ascii_lower c = (if 65 \<le> c \<and> c \<le> 90 then c + 32 else c)"

definition to_lowercase :: "(uchar list \<Rightarrow> nat \<Rightarrow> uchar list) \<Rightarrow> bytes \<Rightarrow> bytes" where
  "to_lowercase uni s =
    (let cs = utf8_chars s
     in utf8_string (concat (map (\<lambda>i. if cs ! i < 128 then [ascii_lower (cs ! i)] else uni cs i) [0..<length cs])))"

fun words_of :: "uchar list \<Rightarrow> uchar list \<Rightarrow> uchar list list" where
  "words_of acc [] = (if acc = [] then [] else [acc])"
| "words_of acc (c # cs) =
    (if is_whitespace c then (if acc = [] then words_of [] cs else acc # words_of [] cs)
     else words_of (acc @ [c]) cs)"

definition split_whitespace :: "bytes \<Rightarrow> bytes list" where
  "split_whitespace s = map utf8_string (words_of [] (utf8_chars s))"

definition trim_matches :: "u8 set \<Rightarrow> bytes \<Rightarrow> bytes" where
  "trim_matches cs s = rev (dropWhile (\<lambda>b. b \<in> cs) (rev (dropWhile (\<lambda>b. b \<in> cs) s)))"

text \<open>
  \<open>Path::components\<close>, of which only the names matter here, and \<open>Path::file_name\<close>: empty
  components and single dots do not count, and a path that ends in two dots has no name.
\<close>

definition path_names :: "bytes \<Rightarrow> bytes list" where
  "path_names p = filter (\<lambda>n. n \<noteq> [] \<and> n \<noteq> bytes_of ''.'') (split_on 0x2F p)"

definition file_name_of :: "bytes \<Rightarrow> bytes option" where
  "file_name_of p = (let ns = path_names p in if ns = [] \<or> last ns = bytes_of ''..'' then None else Some (last ns))"

definition file_name_or :: "bytes \<Rightarrow> bytes" where
  "file_name_or p = (case file_name_of p of Some n \<Rightarrow> n | None \<Rightarrow> p)"

section \<open>The roster\<close>

datatype agent_history_status = HsWorking | HsCompleted | HsWaitingForInput | HsError

record history_snapshot =
  hs_task_title :: bytes
  hs_session_id :: bytes
  hs_timestamp_ms :: nat
  hs_raw_prompt :: bytes
  hs_activity :: "agent_history_status option"

text \<open>The probe of an agent is the function that reads its history file.\<close>

datatype history_probe = ProbeClaude | ProbeCodex | ProbeQwen | ProbeAider

record agent_spec =
  as_key :: bytes
  as_label :: bytes
  as_binary_names :: "bytes list"
  as_probe :: "history_probe option"

definition spec_of :: "string \<Rightarrow> string \<Rightarrow> string list \<Rightarrow> history_probe option \<Rightarrow> agent_spec" where
  "spec_of key label binary_names probe =
    \<lparr>as_key = bytes_of key, as_label = bytes_of label, as_binary_names = map bytes_of binary_names, as_probe = probe\<rparr>"

definition KNOWN_AGENTS :: "agent_spec list" where
  "KNOWN_AGENTS =
    [spec_of ''claude'' ''Claude Code'' [''claude''] (Some ProbeClaude),
     spec_of ''codex'' ''Codex'' [''codex''] (Some ProbeCodex),
     spec_of ''opencode'' ''OpenCode'' [''opencode''] None,
     spec_of ''gemini'' ''Gemini CLI'' [''gemini''] None,
     spec_of ''qwen'' ''Qwen Code'' [''qwen'', ''qwen-code''] (Some ProbeQwen),
     spec_of ''aider'' ''Aider'' [''aider''] (Some ProbeAider),
     spec_of ''cursor'' ''Cursor CLI'' [''cursor'', ''cursor-agent''] None,
     spec_of ''freebuff'' ''Freebuff'' [''freebuff'', ''fb''] None,
     spec_of ''omp'' ''OMP (oh my pi)'' [''omp'', ''oh-my-pi'', ''oh_my_pi''] None]"

definition AGENT_FG_NAMES :: "bytes list" where
  "AGENT_FG_NAMES = map bytes_of [''claude'', ''codex'', ''opencode'', ''gemini'', ''qwen'', ''aider'', ''cursor'', ''freebuff'', ''omp'']"

definition is_known_agent_key :: "bytes \<Rightarrow> bool" where
  "is_known_agent_key key \<longleftrightarrow> list_ex (\<lambda>s. as_key s = key) KNOWN_AGENTS"

definition canonical_agent_key :: "bytes \<Rightarrow> bytes option" where
  "canonical_agent_key name0 =
    (let name = trim_matches {byte (CHR 0x27), byte (CHR 0x22), byte (CHR '';''), byte (CHR '','')}
           (dropWhile (\<lambda>b. b = byte (CHR ''-'')) (file_name_or name0))
     in map_option as_key (List.find (\<lambda>spec. as_key spec = name \<or> name \<in> set (as_binary_names spec)) KNOWN_AGENTS))"

definition command_contains_agent :: "bytes \<Rightarrow> bytes \<Rightarrow> bool" where
  "command_contains_agent command agent_key =
    (case canonical_agent_key agent_key of
       None \<Rightarrow> False
     | Some canonical \<Rightarrow> list_ex (\<lambda>key. key = canonical) (List.map_filter canonical_agent_key (split_whitespace command)))"

definition agent_spec_of :: "bytes \<Rightarrow> agent_spec option" where
  "agent_spec_of key = List.find (\<lambda>s. as_key s = key) KNOWN_AGENTS"

definition agent_label :: "bytes \<Rightarrow> bytes option" where
  "agent_label key = map_option as_label (agent_spec_of key)"

section \<open>The process in the foreground\<close>

definition is_shell_comm :: "bytes \<Rightarrow> bool" where
  "is_shell_comm name \<longleftrightarrow> name \<in> set (map bytes_of [''sh'', ''bash'', ''zsh'', ''fish'', ''csh'', ''tcsh''])"

definition is_script_runtime :: "bytes \<Rightarrow> bool" where
  "is_script_runtime comm \<longleftrightarrow> comm = bytes_of ''node'' \<or> suffix (bytes_of ''node'') comm \<or> comm = bytes_of ''bun'' \<or> comm = bytes_of ''deno''"

definition binary_matches :: "bytes \<Rightarrow> agent_spec \<Rightarrow> bool" where
  "binary_matches comm spec \<longleftrightarrow> comm \<in> set (as_binary_names spec)"

definition token_matches_spec :: "(uchar list \<Rightarrow> nat \<Rightarrow> uchar list) \<Rightarrow> bytes \<Rightarrow> agent_spec \<Rightarrow> bool" where
  "token_matches_spec uni token spec \<longleftrightarrow>
    (let normalized = to_lowercase uni
           (trim_matches {byte (CHR 0x27), byte (CHR 0x22), byte (CHR '';''), byte (CHR '',''), byte (CHR ''(''), byte (CHR '')'')} token)
     in list_ex (\<lambda>component. list_ex (\<lambda>alias. component = to_lowercase uni alias) (as_binary_names spec)) (path_names normalized) \<or>
        list_ex (\<lambda>alias. normalized = to_lowercase uni alias) (as_binary_names spec))"

definition line_matches :: "(uchar list \<Rightarrow> nat \<Rightarrow> uchar list) \<Rightarrow> bytes \<Rightarrow> agent_spec \<Rightarrow> bool" where
  "line_matches uni line spec \<longleftrightarrow> list_ex (\<lambda>token. token_matches_spec uni token spec) (split_whitespace line)"

text \<open>What a line of \<open>ps\<close> says: nothing for a blank line or a shell, else the name of its process.\<close>

definition classify_line :: "(uchar list \<Rightarrow> nat \<Rightarrow> uchar list) \<Rightarrow> bytes \<Rightarrow> bytes option" where
  "classify_line uni line =
    (let trimmed = str_trim line in
     if trimmed = [] then None
     else (let first_word = (case split_whitespace trimmed of w # ws \<Rightarrow> w | [] \<Rightarrow> []);
               comm_name = file_name_or first_word;
               comm_stripped = dropWhile (\<lambda>b. b = byte (CHR ''-'')) comm_name
           in if is_shell_comm comm_stripped then None
              else if is_script_runtime comm_name then
                (case List.find (line_matches uni (to_lowercase uni trimmed)) KNOWN_AGENTS of
                   Some spec \<Rightarrow> Some (as_key spec)
                 | None \<Rightarrow> Some (bytes_of ''node''))
              else (case List.find (binary_matches comm_name) KNOWN_AGENTS of
                      Some spec \<Rightarrow> Some (as_key spec)
                    | None \<Rightarrow> Some comm_name)))"

fun first_some :: "('a \<Rightarrow> 'b option) \<Rightarrow> 'a list \<Rightarrow> 'b option" where
  "first_some f [] = None"
| "first_some f (x # xs) = (case f x of Some y \<Rightarrow> Some y | None \<Rightarrow> first_some f xs)"

definition classify_foreground_ps :: "(uchar list \<Rightarrow> nat \<Rightarrow> uchar list) \<Rightarrow> bytes \<Rightarrow> bytes" where
  "classify_foreground_ps uni stdout =
    (case first_some (classify_line uni) (str_lines stdout) of Some label \<Rightarrow> label | None \<Rightarrow> bytes_of ''shell'')"

text \<open>
  The cache of classifications by process group, with the time of each in milliseconds. \<open>fg_pgid\<close> is the answer of
  \<open>tcgetpgrp\<close>, \<open>ps\<close> the output of the program when it succeeds; an output that is not valid UTF-8 counts as empty.
\<close>

definition FG_CACHE_TTL :: nat where
  "FG_CACHE_TTL = 750"

type_synonym fg_cache = "int \<rightharpoonup> bytes \<times> nat"

definition resolve_foreground_label ::
  "(uchar list \<Rightarrow> nat \<Rightarrow> uchar list) \<Rightarrow> int \<Rightarrow> (int \<Rightarrow> bytes option) \<Rightarrow> nat \<Rightarrow> int \<Rightarrow> int \<Rightarrow> fg_cache \<Rightarrow> fg_cache \<times> bytes option" where
  "resolve_foreground_label uni fg_pgid ps now master_fd fallback_pgid cache =
    (let pgid = (if 0 \<le> master_fd \<and> 0 < fg_pgid then fg_pgid else fallback_pgid) in
     if pgid \<le> 0 then (cache, None)
     else let miss =
            (let label = (case ps pgid of
                   Some out \<Rightarrow> classify_foreground_ps uni (if utf8_valid out then out else [])
                 | None \<Rightarrow> bytes_of ''shell'');
                 cache1 = cache(pgid \<mapsto> (label, now))
             in (\<lambda>p. case cache1 p of Some (l, at_ms) \<Rightarrow> if now - at_ms < FG_CACHE_TTL * 4 then Some (l, at_ms) else None | None \<Rightarrow> None,
                 Some label))
       in case cache pgid of
            Some (label, probed_at) \<Rightarrow> if now - probed_at < FG_CACHE_TTL then (cache, Some label) else miss
          | None \<Rightarrow> miss)"

definition invalidate_foreground_cache :: "int \<Rightarrow> fg_cache \<Rightarrow> fg_cache" where
  "invalidate_foreground_cache pgid cache = cache(pgid := None)"

section \<open>A prompt in the output\<close>

definition MARKERS :: "bytes list" where
  "MARKERS = map bytes_of [''allow?'', ''(y/n)'', ''y/n?'', ''[y/n]'', ''yes/no'', ''(yes/no)'', ''press enter to'', ''proceed?'',
     ''do you want to continue'']"

definition tail_looks_waiting_for_input :: "(uchar list \<Rightarrow> nat \<Rightarrow> uchar list) \<Rightarrow> bytes \<Rightarrow> bool" where
  "tail_looks_waiting_for_input uni tail0 \<longleftrightarrow>
    list_ex (\<lambda>line. let lower = to_lowercase uni line in list_ex (\<lambda>m. contains_sub m lower) MARKERS) (take 8 (rev (str_lines tail0)))"

section \<open>The roster is consistent\<close>

lemma roster_names: "map as_key KNOWN_AGENTS = AGENT_FG_NAMES"
  by code_simp

lemma canonical_known: "canonical_agent_key name = Some key \<Longrightarrow> is_known_agent_key key"
  by (auto simp: canonical_agent_key_def is_known_agent_key_def list_ex_iff Let_def find_Some_iff)

lemma label_known: "agent_label key \<noteq> None \<longleftrightarrow> is_known_agent_key key"
  by (auto simp: agent_label_def agent_spec_of_def is_known_agent_key_def list_ex_iff find_None_iff)

end
