(* ===== verification/Agent_Activity.thy ===== *)
theory Agent_Activity
  imports Agent_Detect Notification Json_Value
begin

text \<open>
  \<open>crates/athena-core/src/agent_activity.rs\<close>: the tracker that derives the status of the agent in each pane from
  output, foreground processes, finished commands, session files and the agent's own reports. A call that
  holds the lifecycle lock runs to its end, so calls are functions of the tracker; what they send to the notification
  service and to the front end is returned in order. Times are milliseconds as natural numbers, for which subtraction
  saturates as the code's does. A hash map has no order of iteration, so lists of its entries are sets.
\<close>

section \<open>Data\<close>

datatype activity_status =
  AIdle | AThinking | AWorking | AWaitingForInput | ACompleted | AError | ACancelled | ADisconnected

fun status_as_str :: "activity_status \<Rightarrow> bytes" where
  "status_as_str AIdle = bytes_of ''idle''"
| "status_as_str AThinking = bytes_of ''thinking''"
| "status_as_str AWorking = bytes_of ''working''"
| "status_as_str AWaitingForInput = bytes_of ''waiting_for_input''"
| "status_as_str ACompleted = bytes_of ''completed''"
| "status_as_str AError = bytes_of ''error''"
| "status_as_str ACancelled = bytes_of ''cancelled''"
| "status_as_str ADisconnected = bytes_of ''disconnected''"

definition status_from_str :: "bytes \<Rightarrow> activity_status" where
  "status_from_str s =
    (if s = bytes_of ''thinking'' then AThinking
     else if s = bytes_of ''working'' then AWorking
     else if s = bytes_of ''waiting_for_input'' then AWaitingForInput
     else if s = bytes_of ''completed'' then ACompleted
     else if s = bytes_of ''error'' then AError
     else if s = bytes_of ''cancelled'' then ACancelled
     else if s = bytes_of ''disconnected'' then ADisconnected
     else AIdle)"

fun status_message :: "activity_status \<Rightarrow> bytes" where
  "status_message AWorking = bytes_of ''working''"
| "status_message AWaitingForInput = bytes_of ''waiting for input''"
| "status_message ACompleted = bytes_of ''completed''"
| "status_message AError = bytes_of ''error''"
| "status_message AThinking = bytes_of ''thinking''"
| "status_message ADisconnected = bytes_of ''disconnected''"
| "status_message ACancelled = bytes_of ''cancelled''"
| "status_message AIdle = bytes_of ''idle''"

datatype notify_kind = NkStarted | NkNeedsAttention | NkError | NkCancelled

fun notify_kind_as_str :: "notify_kind \<Rightarrow> bytes" where
  "notify_kind_as_str NkStarted = bytes_of ''started''"
| "notify_kind_as_str NkNeedsAttention = bytes_of ''needs_attention''"
| "notify_kind_as_str NkError = bytes_of ''error''"
| "notify_kind_as_str NkCancelled = bytes_of ''cancelled''"

record agent_notify_config =
  nc_needs_attention :: bool
  nc_error :: bool

definition notify_config_default :: agent_notify_config where
  "notify_config_default = \<lparr>nc_needs_attention = True, nc_error = True\<rparr>"

fun notify_enabled :: "agent_notify_config \<Rightarrow> notify_kind \<Rightarrow> bool" where
  "notify_enabled cfg NkStarted = True"
| "notify_enabled cfg NkCancelled = True"
| "notify_enabled cfg NkNeedsAttention = nc_needs_attention cfg"
| "notify_enabled cfg NkError = nc_error cfg"

definition DEFAULT_IDLE_AFTER_MS :: nat where
  "DEFAULT_IDLE_AFTER_MS = 30000"

definition DEFAULT_NOTIFY_COOLDOWN_MS :: nat where
  "DEFAULT_NOTIFY_COOLDOWN_MS = 15000"

definition STARTUP_GRACE_MS :: nat where
  "STARTUP_GRACE_MS = 5000"

type_synonym emitted_signature =
  "activity_status \<times> bytes option \<times> bytes option \<times> bytes option \<times> bytes option \<times> bytes option \<times> nat option"

record pane_activity =
  pa_pane_id :: bytes
  pa_generation :: "nat option"
  pa_status :: activity_status
  pa_agent_key :: "bytes option"
  pa_raw_fg :: "bytes option"
  pa_session_id :: "bytes option"
  pa_task_title :: "bytes option"
  pa_raw_prompt :: "bytes option"
  pa_history_ts :: "nat option"
  pa_acknowledged_ts :: "nat option"
  pa_last_output_at :: nat
  pa_work_started_at :: "nat option"
  pa_demoted :: bool
  pa_waiting_since :: "nat option"
  pa_startup_pending :: bool
  pa_startup_since :: "nat option"
  pa_plugin_connected :: bool
  pa_last_notified_at :: "notify_kind \<rightharpoonup> nat"
  pa_last_emitted :: "emitted_signature option"

record status_payload =
  sp_pane_id :: bytes
  sp_generation :: "nat option"
  sp_status :: bytes
  sp_message :: bytes
  sp_fg_process :: bytes
  sp_session_id :: bytes
  sp_task_title :: bytes
  sp_raw_prompt :: bytes
  sp_timestamp :: nat

text \<open>The strings of a notification are lists of characters of one byte.\<close>

definition byte_string :: "bytes \<Rightarrow> string" where
  "byte_string s = map (\<lambda>b. char_of (unat b)) s"

type_synonym 'n activity_event = "'n jvalue notification_event"

datatype 'n activity_effect = PushNotification "'n activity_event" | EmitStatus status_payload

record 'n activity_tracker =
  at_panes :: "bytes \<rightharpoonup> pane_activity"
  at_retired :: "bytes set"
  at_generations :: "bytes \<rightharpoonup> nat"
  at_next_generation :: nat
  at_pending :: "'n activity_event list"
  at_config :: agent_notify_config
  at_has_service :: bool
  at_idle_after_ms :: nat
  at_notify_cooldown_ms :: nat

definition activity_new :: "bool \<Rightarrow> 'n activity_tracker" where
  "activity_new has_service =
    \<lparr>at_panes = Map.empty, at_retired = {}, at_generations = Map.empty, at_next_generation = 0, at_pending = [],
     at_config = notify_config_default, at_has_service = has_service,
     at_idle_after_ms = DEFAULT_IDLE_AFTER_MS, at_notify_cooldown_ms = DEFAULT_NOTIFY_COOLDOWN_MS\<rparr>"

definition tracker_clone :: "'n activity_tracker \<Rightarrow> 'n activity_tracker" where
  "tracker_clone t = t\<lparr>at_pending := []\<rparr>"

definition set_notify_config :: "agent_notify_config \<Rightarrow> 'n activity_tracker \<Rightarrow> 'n activity_tracker" where
  "set_notify_config cfg t = t\<lparr>at_config := cfg\<rparr>"

definition new_pane :: "bytes \<Rightarrow> pane_activity" where
  "new_pane pane_id =
    \<lparr>pa_pane_id = pane_id, pa_generation = None, pa_status = AIdle, pa_agent_key = None, pa_raw_fg = None,
     pa_session_id = None, pa_task_title = None, pa_raw_prompt = None, pa_history_ts = None, pa_acknowledged_ts = None,
     pa_last_output_at = 0, pa_work_started_at = None, pa_demoted = False, pa_waiting_since = None,
     pa_startup_pending = False, pa_startup_since = None, pa_plugin_connected = False,
     pa_last_notified_at = Map.empty, pa_last_emitted = None\<rparr>"

definition entry_or_insert :: "bytes \<Rightarrow> 'n activity_tracker \<Rightarrow> 'n activity_tracker" where
  "entry_or_insert pane_id t =
    (case at_panes t pane_id of
       Some e \<Rightarrow> t
     | None \<Rightarrow> t\<lparr>at_panes := (at_panes t)(pane_id \<mapsto> new_pane pane_id)\<rparr>)"

section \<open>Notifications and updates\<close>

definition notify_event :: "notify_kind \<Rightarrow> nat \<Rightarrow> pane_activity \<Rightarrow> 'n activity_event" where
  "notify_event kind now e =
    (let label = (case pa_agent_key e of
           Some key \<Rightarrow> (case agent_label key of Some l \<Rightarrow> l | None \<Rightarrow> bytes_of ''Agent'')
         | None \<Rightarrow> bytes_of ''Agent'');
         in_pane = label @ bytes_of '' in pane '' @ pa_pane_id e;
         (ntype, title, message) =
           (case kind of
              NkStarted \<Rightarrow> (NInfo, ''Agent started'', label @ bytes_of '' started working in pane '' @ pa_pane_id e)
            | NkNeedsAttention \<Rightarrow> (NNeedsInput, ''Agent needs attention'', in_pane @ bytes_of '' is waiting for input'')
            | NkError \<Rightarrow> (NTaskError, ''Agent error'', in_pane @ bytes_of '' hit an error'')
            | NkCancelled \<Rightarrow> (NWarning, ''Agent cancelled'', in_pane @ bytes_of '' was cancelled''))
     in \<lparr>e_type = ntype, e_title = title, e_message = byte_string message, e_source = ''agent'',
         e_agent_id = Some (byte_string (pa_pane_id e)),
         e_data = Some (VObject [(lit ''paneId'', VString (utf8_chars (pa_pane_id e)))]),
         e_timestamp = of_nat now, e_metadata = None, e_actions = None, e_request_id = None,
         e_event_key = Some (byte_string (bytes_of ''agent:'' @ pa_pane_id e @ bytes_of '':'' @ notify_kind_as_str kind @ bytes_of '':'' @
           (case pa_session_id e of Some s \<Rightarrow> s | None \<Rightarrow> bytes_of ''unknown'') @ bytes_of '':'' @
           dec (case pa_work_started_at e of Some w \<Rightarrow> w | None \<Rightarrow> now))),
         e_run_id = map_option byte_string (pa_session_id e), e_pane_id = Some (byte_string (pa_pane_id e)),
         e_requires_action = (kind = NkNeedsAttention)\<rparr>)"

definition notify_locked ::
  "'n activity_tracker \<Rightarrow> notify_kind \<Rightarrow> nat \<Rightarrow> pane_activity \<Rightarrow> pane_activity \<times> 'n activity_event list" where
  "notify_locked t kind now e =
    (if \<not> notify_enabled (at_config t) kind then (e, [])
     else if \<not> (case pa_last_notified_at e kind of Some prev \<Rightarrow> at_notify_cooldown_ms t < now - prev | None \<Rightarrow> True) then (e, [])
     else (let e1 = e\<lparr>pa_last_notified_at := (pa_last_notified_at e)(kind \<mapsto> now)\<rparr>
           in (e1, if at_has_service t then [notify_event kind now e1] else [])))"

definition drain_pending_notifications :: "'n activity_tracker \<Rightarrow> 'n activity_tracker \<times> 'n activity_effect list" where
  "drain_pending_notifications t =
    (t\<lparr>at_pending := []\<rparr>, if at_has_service t then map PushNotification (at_pending t) else [])"

text \<open>
  The part of an update under the lock of the panes: the closure gets the entry, if there is one, may queue
  notifications, and says whether the status should be emitted.
\<close>

type_synonym 'n pane_step = "pane_activity \<Rightarrow> pane_activity \<times> 'n activity_event list \<times> bool"

definition with_entry :: "bytes \<Rightarrow> 'n pane_step \<Rightarrow> 'n activity_tracker \<Rightarrow> 'n activity_tracker \<times> bool" where
  "with_entry pane_id f t =
    (case at_panes t pane_id of
       None \<Rightarrow> (t, False)
     | Some e \<Rightarrow>
         (case f e of (e', events, changed) \<Rightarrow>
            (t\<lparr>at_panes := (at_panes t)(pane_id \<mapsto> e'), at_pending := at_pending t @ events\<rparr>, changed)))"

definition update_entry :: "bytes \<Rightarrow> 'n pane_step \<Rightarrow> 'n activity_tracker \<Rightarrow> 'n activity_tracker \<times> 'n activity_effect list \<times> bool" where
  "update_entry pane_id f t =
    (let (t1, changed) = with_entry pane_id f t; (t2, effects) = drain_pending_notifications t1 in (t2, effects, changed))"

definition pane_signature :: "pane_activity \<Rightarrow> emitted_signature" where
  "pane_signature e =
    (pa_status e, pa_agent_key e, pa_raw_fg e, pa_session_id e, pa_task_title e, pa_raw_prompt e, pa_generation e)"

definition status_payload_of :: "nat \<Rightarrow> pane_activity \<Rightarrow> status_payload" where
  "status_payload_of clock e =
    \<lparr>sp_pane_id = pa_pane_id e, sp_generation = pa_generation e, sp_status = status_as_str (pa_status e),
     sp_message = status_message (pa_status e), sp_fg_process = (case pa_raw_fg e of Some s \<Rightarrow> s | None \<Rightarrow> []),
     sp_session_id = (case pa_session_id e of Some s \<Rightarrow> s | None \<Rightarrow> []),
     sp_task_title = (case pa_task_title e of Some s \<Rightarrow> s | None \<Rightarrow> []),
     sp_raw_prompt = (case pa_raw_prompt e of Some s \<Rightarrow> s | None \<Rightarrow> []), sp_timestamp = clock\<rparr>"

definition emit_status :: "nat \<Rightarrow> bytes \<Rightarrow> 'n activity_tracker \<Rightarrow> 'n activity_tracker \<times> 'n activity_effect list" where
  "emit_status clock pane_id t =
    (case at_panes t pane_id of
       None \<Rightarrow> (t, [])
     | Some e \<Rightarrow>
         if pa_last_emitted e = Some (pane_signature e) then (t, [])
         else (case update_entry pane_id (\<lambda>entry. (entry\<lparr>pa_last_emitted := Some (pane_signature e)\<rparr>, [], False)) t of
                 (t1, effects, changed) \<Rightarrow> (t1, effects @ [EmitStatus (status_payload_of clock e)])))"

definition emit_if_changed ::
  "nat \<Rightarrow> bytes \<Rightarrow> 'n activity_tracker \<times> 'n activity_effect list \<times> bool \<Rightarrow> 'n activity_tracker \<times> 'n activity_effect list" where
  "emit_if_changed clock pane_id r =
    (case r of (t, effects, changed) \<Rightarrow>
       if changed then (case emit_status clock pane_id t of (t1, effects1) \<Rightarrow> (t1, effects @ effects1)) else (t, effects))"

definition generation_is_current :: "bytes \<Rightarrow> nat option \<Rightarrow> 'n activity_tracker \<Rightarrow> bool" where
  "generation_is_current pane_id generation t \<longleftrightarrow>
    (case generation of Some expected \<Rightarrow> at_generations t pane_id = Some expected | None \<Rightarrow> True)"

section \<open>Lifecycle of panes\<close>

definition attention_status :: "activity_status \<Rightarrow> bool" where
  "attention_status s \<longleftrightarrow> s \<in> {ACompleted, AWaitingForInput, AError}"

definition acknowledge_attention :: "nat \<Rightarrow> bytes \<Rightarrow> 'n activity_tracker \<Rightarrow> 'n activity_tracker \<times> 'n activity_effect list" where
  "acknowledge_attention clock pane_id t =
    (case with_entry pane_id (\<lambda>e.
        let attention = attention_status (pa_status e); e1 = e\<lparr>pa_acknowledged_ts := pa_history_ts e\<rparr>
        in (if attention then e1\<lparr>pa_status := AIdle, pa_work_started_at := None\<rparr> else e1, [], attention)) t of
       (t1, was_attention) \<Rightarrow> if was_attention then emit_status clock pane_id t1 else (t1, []))"

definition register_pane :: "bytes \<Rightarrow> 'n activity_tracker \<Rightarrow> 'n activity_tracker" where
  "register_pane pane_id t = entry_or_insert pane_id (t\<lparr>at_retired := at_retired t - {pane_id}\<rparr>)"

definition U64_MAX :: nat where
  "U64_MAX = 2 ^ 64 - 1"

definition register_pane_with_generation ::
  "bytes \<Rightarrow> 'n activity_tracker \<Rightarrow> 'n activity_tracker \<times> 'n activity_effect list \<times> nat" where
  "register_pane_with_generation pane_id t =
    (let generation = min (at_next_generation t + 1) U64_MAX;
         t1 = t\<lparr>at_retired := at_retired t - {pane_id}, at_next_generation := generation,
                at_generations := (at_generations t)(pane_id \<mapsto> generation)\<rparr>
     in case update_entry pane_id (\<lambda>entry. (entry\<lparr>pa_generation := Some generation, pa_last_emitted := None\<rparr>, [], False))
               (entry_or_insert pane_id t1) of
          (t2, effects, changed) \<Rightarrow> (t2, effects, generation))"

definition remove_pane_if_generation :: "bytes \<Rightarrow> nat option \<Rightarrow> 'n activity_tracker \<Rightarrow> 'n activity_tracker \<times> bool" where
  "remove_pane_if_generation pane_id generation t =
    (if \<not> generation_is_current pane_id generation t then (t, False)
     else (t\<lparr>at_generations := (at_generations t)(pane_id := None), at_retired := insert pane_id (at_retired t),
             at_panes := (at_panes t)(pane_id := None)\<rparr>, True))"

definition activity_remove_pane :: "bytes \<Rightarrow> 'n activity_tracker \<Rightarrow> 'n activity_tracker" where
  "activity_remove_pane pane_id t = fst (remove_pane_if_generation pane_id None t)"

definition set_plugin_connected :: "bytes \<Rightarrow> bool \<Rightarrow> 'n activity_tracker \<Rightarrow> 'n activity_tracker \<times> 'n activity_effect list" where
  "set_plugin_connected pane_id is_on t =
    (case update_entry pane_id (\<lambda>e. (e\<lparr>pa_plugin_connected := is_on\<rparr>, [], False)) t of (t1, effects, changed) \<Rightarrow> (t1, effects))"

section \<open>Reports that are pushed\<close>

definition on_plugin_status :: "bytes \<Rightarrow> activity_status \<Rightarrow> 'n activity_tracker \<Rightarrow> 'n activity_tracker \<times> 'n activity_effect list" where
  "on_plugin_status pane_id status t =
    (case update_entry pane_id (\<lambda>e. (e\<lparr>pa_status := status, pa_plugin_connected := True\<rparr>, [], False)) t of
       (t1, effects, changed) \<Rightarrow> (t1, effects))"

definition start_work :: "nat \<Rightarrow> pane_activity \<Rightarrow> pane_activity" where
  "start_work now e = (if pa_work_started_at e = None then e\<lparr>pa_work_started_at := Some now\<rparr> else e)"

definition apply_status :: "'n activity_tracker \<Rightarrow> agent_history_status \<Rightarrow> nat \<Rightarrow> 'n pane_step" where
  "apply_status t status now e =
    (if pa_acknowledged_ts e \<noteq> None \<and> pa_acknowledged_ts e = pa_history_ts e \<and> status \<noteq> HsWorking then (e, [], False)
     else (case status of
        HsWorking \<Rightarrow>
          if pa_status e = AWorking \<or> pa_status e = AWaitingForInput then (e, [], False)
          else (start_work now (e\<lparr>pa_status := AWorking\<rparr>), [], True)
      | HsCompleted \<Rightarrow>
          if pa_status e = ACompleted then (e, [], False)
          else (e\<lparr>pa_status := ACompleted, pa_work_started_at := None\<rparr>, [], True)
      | HsWaitingForInput \<Rightarrow>
          if pa_status e = AWaitingForInput then (e, [], False)
          else (case notify_locked t NkNeedsAttention now (e\<lparr>pa_status := AWaitingForInput, pa_waiting_since := Some now\<rparr>) of
                  (e1, events) \<Rightarrow> (e1, events, True))
      | HsError \<Rightarrow>
          if pa_status e = AError then (e, [], False)
          else (case notify_locked t NkError now (e\<lparr>pa_status := AError\<rparr>) of (e1, events) \<Rightarrow> (e1, events, True))))"

definition adopt_agent :: "agent_lifecycle_event \<Rightarrow> pane_activity \<Rightarrow> pane_activity" where
  "adopt_agent event e =
    (let e1 = (case le_agent event of
           Some key \<Rightarrow>
             if is_known_agent_key key \<and> pa_agent_key e = None
             then (let e0 = e\<lparr>pa_agent_key := Some key\<rparr> in if pa_raw_fg e0 = None then e0\<lparr>pa_raw_fg := Some key\<rparr> else e0)
             else e
         | None \<Rightarrow> e)
     in case le_session_id event of Some s \<Rightarrow> e1\<lparr>pa_session_id := Some s\<rparr> | None \<Rightarrow> e1)"

definition lifecycle_status :: "agent_lifecycle_kind \<Rightarrow> agent_history_status" where
  "lifecycle_status kind = (case kind of LkComplete \<Rightarrow> HsCompleted | LkRequest \<Rightarrow> HsWaitingForInput | LkError \<Rightarrow> HsError)"

definition on_agent_lifecycle ::
  "nat \<Rightarrow> bytes \<Rightarrow> agent_lifecycle_event \<Rightarrow> nat option \<Rightarrow> nat \<Rightarrow> 'n activity_tracker \<Rightarrow> 'n activity_tracker \<times> 'n activity_effect list" where
  "on_agent_lifecycle clock pane_id event generation now t =
    (if \<not> generation_is_current pane_id generation t \<or> pane_id \<in> at_retired t then (t, [])
     else emit_if_changed clock pane_id
       (update_entry pane_id (\<lambda>e.
          if pa_plugin_connected e then (e, [], False)
          else apply_status t (lifecycle_status (le_kind event)) now (adopt_agent event e)) (entry_or_insert pane_id t)))"

definition pty_output_step :: "nat \<Rightarrow> 'n pane_step" where
  "pty_output_step now e0 =
    (let e = e0\<lparr>pa_last_output_at := now\<rparr> in
     if pa_plugin_connected e \<or> pa_agent_key e = None \<or> pa_startup_pending e then (e, [], False)
     else (case pa_status e of
        AIdle \<Rightarrow>
          if pa_demoted e then (e\<lparr>pa_demoted := False, pa_status := AWorking\<rparr>, [], True)
          else (e\<lparr>pa_status := AThinking\<rparr>, [], True)
      | AThinking \<Rightarrow> (start_work now (e\<lparr>pa_status := AWorking\<rparr>), [], True)
      | _ \<Rightarrow> (e, [], False)))"

definition on_pty_output_for_generation ::
  "nat \<Rightarrow> bytes \<Rightarrow> nat \<Rightarrow> nat option \<Rightarrow> 'n activity_tracker \<Rightarrow> 'n activity_tracker \<times> 'n activity_effect list" where
  "on_pty_output_for_generation clock pane_id now generation t =
    (if \<not> generation_is_current pane_id generation t then (t, [])
     else emit_if_changed clock pane_id (update_entry pane_id (pty_output_step now) t))"

definition on_pty_output :: "nat \<Rightarrow> bytes \<Rightarrow> nat \<Rightarrow> 'n activity_tracker \<Rightarrow> 'n activity_tracker \<times> 'n activity_effect list" where
  "on_pty_output clock pane_id now t = on_pty_output_for_generation clock pane_id now None t"

definition command_finished_step :: "'n activity_tracker \<Rightarrow> bytes \<Rightarrow> int \<Rightarrow> nat \<Rightarrow> 'n pane_step" where
  "command_finished_step t command exit_code now e =
    (case pa_agent_key e of
       None \<Rightarrow> (e, [], False)
     | Some key \<Rightarrow>
         if pa_plugin_connected e \<or> \<not> command_contains_agent command key then (e, [], False)
         else (let (e1, events) =
                     (if exit_code \<noteq> 0 then (case notify_locked t NkError now e of (e0, ev) \<Rightarrow> (e0\<lparr>pa_status := AError\<rparr>, ev))
                      else (e\<lparr>pa_status := ACompleted\<rparr>, []))
               in (e1\<lparr>pa_agent_key := None, pa_work_started_at := None\<rparr>, events, True)))"

definition on_shell_command_finished_for_generation ::
  "nat \<Rightarrow> bytes \<Rightarrow> bytes \<Rightarrow> int \<Rightarrow> nat \<Rightarrow> nat option \<Rightarrow> 'n activity_tracker \<Rightarrow> 'n activity_tracker \<times> 'n activity_effect list" where
  "on_shell_command_finished_for_generation clock pane_id command exit_code now generation t =
    (if \<not> generation_is_current pane_id generation t then (t, [])
     else emit_if_changed clock pane_id (update_entry pane_id (command_finished_step t command exit_code now) t))"

section \<open>The heartbeat\<close>

definition in_turn :: "pane_activity \<Rightarrow> bool" where
  "in_turn e \<longleftrightarrow> pa_work_started_at e \<noteq> None \<or> pa_status e \<in> {AWorking, AThinking, AWaitingForInput}"

definition hb_foreground :: "bytes option \<Rightarrow> pane_activity \<times> bool \<Rightarrow> pane_activity \<times> bool" where
  "hb_foreground fg_label r =
    (case r of (e, changed) \<Rightarrow> if pa_raw_fg e \<noteq> fg_label then (e\<lparr>pa_raw_fg := fg_label\<rparr>, True) else (e, changed))"

definition hb_confirm :: "bytes \<Rightarrow> pane_activity \<times> bool \<Rightarrow> pane_activity \<times> bool" where
  "hb_confirm key r =
    (case r of (e, changed) \<Rightarrow>
       if pa_startup_pending e \<and> pa_agent_key e = Some key
       then (e\<lparr>pa_startup_pending := False, pa_startup_since := None\<rparr>, True) else (e, changed))"

definition hb_detect :: "bytes \<Rightarrow> pane_activity \<times> bool \<Rightarrow> pane_activity \<times> bool" where
  "hb_detect key r =
    (case r of (e, changed) \<Rightarrow>
       if pa_agent_key e \<noteq> Some key
       then (e\<lparr>pa_agent_key := Some key, pa_status := AIdle, pa_work_started_at := None, pa_history_ts := None\<rparr>, True)
       else (e, changed))"

definition hb_history :: "history_snapshot option \<Rightarrow> pane_activity \<times> bool \<Rightarrow> pane_activity \<times> bool" where
  "hb_history history r =
    (case r of (e, changed) \<Rightarrow>
       (case history of
          None \<Rightarrow> (e, changed)
        | Some h \<Rightarrow>
            if pa_session_id e \<noteq> Some (hs_session_id h) \<or> pa_history_ts e \<noteq> Some (hs_timestamp_ms h) \<or>
               pa_task_title e \<noteq> Some (hs_task_title h)
            then (e\<lparr>pa_session_id := Some (hs_session_id h), pa_task_title := Some (hs_task_title h),
                    pa_raw_prompt := Some (hs_raw_prompt h), pa_history_ts := Some (hs_timestamp_ms h)\<rparr>, True)
            else (e, changed)))"

definition hb_authoritative :: "history_snapshot option \<Rightarrow> pane_activity \<Rightarrow> pane_activity \<times> agent_history_status option" where
  "hb_authoritative history e =
    (let proves_turn = in_turn e in
     case Option.bind history hs_activity of
       None \<Rightarrow> (e, None)
     | Some status \<Rightarrow>
         if status \<noteq> HsWorking \<and> \<not> proves_turn
         then (case pa_history_ts e of Some ts \<Rightarrow> (e\<lparr>pa_acknowledged_ts := Some ts\<rparr>, None) | None \<Rightarrow> (e, None))
         else (e, Some status))"

definition hb_apply :: "'n activity_tracker \<Rightarrow> agent_history_status option \<Rightarrow> nat \<Rightarrow> pane_activity \<times> bool \<Rightarrow> pane_activity \<times> 'n activity_event list \<times> bool" where
  "hb_apply t authoritative now r =
    (case r of (e, changed) \<Rightarrow>
       (case authoritative of
          None \<Rightarrow> (e, [], changed)
        | Some status \<Rightarrow> (case apply_status t status now e of (e1, events, c) \<Rightarrow> (e1, events, changed \<or> c))))"

definition hb_silence :: "'n activity_tracker \<Rightarrow> agent_history_status option \<Rightarrow> nat \<Rightarrow> pane_activity \<times> bool \<Rightarrow> pane_activity \<times> bool" where
  "hb_silence t authoritative now r =
    (case r of (e, changed) \<Rightarrow>
       if (pa_status e = AWorking \<or> pa_status e = AThinking) \<and> authoritative \<noteq> Some HsWorking \<and>
          0 < pa_last_output_at e \<and> at_idle_after_ms t < now - pa_last_output_at e
       then (e\<lparr>pa_demoted := (pa_status e = AWorking), pa_status := AIdle\<rparr>, True) else (e, changed))"

definition hb_prompt ::
  "'n activity_tracker \<Rightarrow> bool \<Rightarrow> agent_history_status option \<Rightarrow> nat \<Rightarrow> pane_activity \<times> bool \<Rightarrow> pane_activity \<times> 'n activity_event list \<times> bool" where
  "hb_prompt t tail_waiting authoritative now r =
    (case r of (e, changed) \<Rightarrow>
       if authoritative \<noteq> Some HsCompleted \<and> authoritative \<noteq> Some HsError \<and> pa_status e \<noteq> AWaitingForInput \<and> tail_waiting
       then (case notify_locked t NkNeedsAttention now (e\<lparr>pa_status := AWaitingForInput, pa_waiting_since := Some now\<rparr>) of
               (e1, events) \<Rightarrow> (e1, events, True))
       else if pa_status e = AWaitingForInput \<and> \<not> tail_waiting \<and> authoritative = None \<and>
          (case pa_waiting_since e of Some since \<Rightarrow> since < pa_last_output_at e | None \<Rightarrow> False)
       then (start_work now (e\<lparr>pa_status := AWorking, pa_waiting_since := None\<rparr>), [], True)
       else (e, [], changed))"

definition hb_agent ::
  "'n activity_tracker \<Rightarrow> bytes \<Rightarrow> history_snapshot option \<Rightarrow> bool \<Rightarrow> nat \<Rightarrow> pane_activity \<times> bool \<Rightarrow> pane_activity \<times> 'n activity_event list \<times> bool" where
  "hb_agent t key history tail_waiting now r =
    (let (e3, c3) = hb_history history (hb_detect key (hb_confirm key r));
         (e4, authoritative) = hb_authoritative history e3;
         (e5, events5, c5) = hb_apply t authoritative now (e4, c3);
         (e7, events7, c7) = hb_prompt t tail_waiting authoritative now (hb_silence t authoritative now (e5, c5))
     in (e7, events5 @ events7, c7))"

definition hb_shell :: "nat \<Rightarrow> pane_activity \<times> bool \<Rightarrow> pane_activity \<times> bool" where
  "hb_shell now r =
    (case r of (e, changed) \<Rightarrow>
       if pa_agent_key e \<noteq> None \<and> \<not> pa_startup_pending e \<and> in_turn e
       then (e\<lparr>pa_status := ACompleted, pa_agent_key := None, pa_work_started_at := None\<rparr>, True)
       else if pa_startup_pending e \<and> (case pa_startup_since e of Some since \<Rightarrow> STARTUP_GRACE_MS < now - since | None \<Rightarrow> False)
       then (e\<lparr>pa_startup_pending := False, pa_startup_since := None, pa_agent_key := None\<rparr>, True)
       else (e, changed))"

definition known_label :: "bytes option \<Rightarrow> bytes option" where
  "known_label fg_label = (case fg_label of Some f \<Rightarrow> if is_known_agent_key f then Some f else None | None \<Rightarrow> None)"

definition heartbeat_step ::
  "'n activity_tracker \<Rightarrow> bytes option \<Rightarrow> history_snapshot option \<Rightarrow> bool \<Rightarrow> nat \<Rightarrow> 'n pane_step" where
  "heartbeat_step t fg_label history tail_waiting now e =
    (if pa_plugin_connected e then (e, [], False)
     else (case known_label fg_label of
        Some key \<Rightarrow> hb_agent t key history tail_waiting now (hb_foreground fg_label (e, False))
      | None \<Rightarrow> (case hb_shell now (hb_foreground fg_label (e, False)) of (e1, changed) \<Rightarrow> (e1, [], changed))))"

definition heartbeat ::
  "(uchar list \<Rightarrow> nat \<Rightarrow> uchar list) \<Rightarrow> nat \<Rightarrow> bytes \<Rightarrow> bytes option \<Rightarrow> history_snapshot option \<Rightarrow> bytes option \<Rightarrow> nat \<Rightarrow>
    'n activity_tracker \<Rightarrow> 'n activity_tracker \<times> 'n activity_effect list" where
  "heartbeat uni clock pane_id fg_label history output_tail now t =
    (if pane_id \<in> at_retired t then (t, [])
     else let tail_waiting = (case output_tail of Some s \<Rightarrow> tail_looks_waiting_for_input uni s | None \<Rightarrow> False);
              (t1, changed) = with_entry pane_id (heartbeat_step t fg_label history tail_waiting now) (entry_or_insert pane_id t)
          in if changed then emit_status clock pane_id t1 else (t1, []))"

section \<open>Launch, cancellation, eviction\<close>

definition agent_started_step :: "'n activity_tracker \<Rightarrow> bytes \<Rightarrow> nat \<Rightarrow> 'n pane_step" where
  "agent_started_step t agent_key now e =
    (if pa_agent_key e = None \<or> pa_status e = ACompleted \<or> pa_status e = AError
     then (case notify_locked t NkStarted now
             (e\<lparr>pa_agent_key := Some agent_key, pa_startup_pending := True, pa_startup_since := Some now, pa_status := AIdle,
                pa_session_id := None, pa_work_started_at := None, pa_history_ts := None, pa_acknowledged_ts := None\<rparr>) of
             (e1, events) \<Rightarrow> (e1, events, False))
     else (e, [], False))"

definition notify_agent_started :: "bytes \<Rightarrow> bytes \<Rightarrow> nat \<Rightarrow> 'n activity_tracker \<Rightarrow> 'n activity_tracker \<times> 'n activity_effect list" where
  "notify_agent_started pane_id agent_key now t =
    (case update_entry pane_id (agent_started_step t agent_key now) (entry_or_insert pane_id t) of (t1, effects, changed) \<Rightarrow> (t1, effects))"

definition cancel_step :: "'n activity_tracker \<Rightarrow> nat \<Rightarrow> 'n pane_step" where
  "cancel_step t now e =
    (if pa_agent_key e \<noteq> None \<and> pa_status e \<notin> {ACompleted, AError, ACancelled, ADisconnected}
     then (case notify_locked t NkCancelled now e of
             (e1, events) \<Rightarrow> (e1\<lparr>pa_status := ACancelled, pa_agent_key := None, pa_work_started_at := None\<rparr>, events, True))
     else (e, [], False))"

definition cancel_pane :: "nat \<Rightarrow> bytes \<Rightarrow> nat \<Rightarrow> 'n activity_tracker \<Rightarrow> 'n activity_tracker \<times> 'n activity_effect list" where
  "cancel_pane clock pane_id now t = emit_if_changed clock pane_id (update_entry pane_id (cancel_step t now) t)"

definition forget_pane :: "nat \<Rightarrow> bytes \<Rightarrow> 'n activity_tracker \<Rightarrow> 'n activity_tracker \<times> 'n activity_effect list" where
  "forget_pane clock pane_id t =
    (case cancel_pane clock pane_id clock t of (t1, effects) \<Rightarrow> (t1\<lparr>at_panes := (at_panes t1)(pane_id := None)\<rparr>, effects))"

definition stale_pane :: "nat \<Rightarrow> pane_activity \<Rightarrow> bool" where
  "stale_pane cutoff e \<longleftrightarrow> 0 < pa_last_output_at e \<and> pa_last_output_at e < cutoff"

definition prune_stale_panes :: "nat \<Rightarrow> nat \<Rightarrow> 'n activity_tracker \<Rightarrow> 'n activity_tracker \<times> bytes set" where
  "prune_stale_panes now max_idle_ms t =
    (let stale = {pa_pane_id e |p e. at_panes t p = Some e \<and> stale_pane (now - max_idle_ms) e}
     in (t\<lparr>at_panes := (at_panes t) |` (- stale)\<rparr>, stale))"

record pane_snapshot =
  ps_pane_id :: bytes
  ps_status :: activity_status
  ps_agent_key :: "bytes option"
  ps_session_id :: "bytes option"
  ps_work_started_at :: "nat option"

definition tracker_snapshot :: "'n activity_tracker \<Rightarrow> pane_snapshot set" where
  "tracker_snapshot t =
    (\<lambda>e. \<lparr>ps_pane_id = pa_pane_id e, ps_status = pa_status e, ps_agent_key = pa_agent_key e, ps_session_id = pa_session_id e,
          ps_work_started_at = pa_work_started_at e\<rparr>) ` ran (at_panes t)"

definition tracker_pane_ids :: "'n activity_tracker \<Rightarrow> bytes set" where
  "tracker_pane_ids t = dom (at_panes t)"

end
