(* ===== verification/Activity_Calls.thy ===== *)
theory Activity_Calls
  imports Agent_Activity
begin

text \<open>
  The calls of the activity tracker as data, and what they have in common: a call changes the entry of one pane by
  one function of that entry, queues the notifications of that function, and leaves the other panes alone. The
  properties of the tracker are then facts about these functions.
\<close>

section \<open>Calls\<close>

datatype activity_call =
    CRegister bytes
  | CRegisterGen bytes
  | CRemove bytes "nat option"
  | CSetPlugin bytes bool
  | CPluginStatus bytes activity_status
  | CLifecycle bytes agent_lifecycle_event "nat option" nat
  | COutput bytes nat "nat option"
  | CFinished bytes bytes int nat "nat option"
  | CHeartbeat bytes "bytes option" "history_snapshot option" "bytes option" nat
  | CStarted bytes bytes nat
  | CCancel bytes nat
  | CForget bytes
  | CAck bytes
  | CPrune nat nat
  | CConfig agent_notify_config

fun activity_exec ::
  "(uchar list \<Rightarrow> nat \<Rightarrow> uchar list) \<Rightarrow> nat \<Rightarrow> activity_call \<Rightarrow> 'n activity_tracker \<Rightarrow> 'n activity_tracker \<times> 'n activity_effect list" where
  "activity_exec uni clock (CRegister p) t = (register_pane p t, [])"
| "activity_exec uni clock (CRegisterGen p) t = (case register_pane_with_generation p t of (t1, effects, g) \<Rightarrow> (t1, effects))"
| "activity_exec uni clock (CRemove p g) t = (fst (remove_pane_if_generation p g t), [])"
| "activity_exec uni clock (CSetPlugin p b) t = set_plugin_connected p b t"
| "activity_exec uni clock (CPluginStatus p s) t = on_plugin_status p s t"
| "activity_exec uni clock (CLifecycle p event g now) t = on_agent_lifecycle clock p event g now t"
| "activity_exec uni clock (COutput p now g) t = on_pty_output_for_generation clock p now g t"
| "activity_exec uni clock (CFinished p command exit_code now g) t =
    on_shell_command_finished_for_generation clock p command exit_code now g t"
| "activity_exec uni clock (CHeartbeat p fg history output_tail now) t = heartbeat uni clock p fg history output_tail now t"
| "activity_exec uni clock (CStarted p key now) t = notify_agent_started p key now t"
| "activity_exec uni clock (CCancel p now) t = cancel_pane clock p now t"
| "activity_exec uni clock (CForget p) t = forget_pane clock p t"
| "activity_exec uni clock (CAck p) t = acknowledge_attention clock p t"
| "activity_exec uni clock (CPrune now max_idle_ms) t = (fst (prune_stale_panes now max_idle_ms t), [])"
| "activity_exec uni clock (CConfig cfg) t = (set_notify_config cfg t, [])"

fun activity_run ::
  "(uchar list \<Rightarrow> nat \<Rightarrow> uchar list) \<Rightarrow> (nat \<times> activity_call) list \<Rightarrow> 'n activity_tracker \<Rightarrow> 'n activity_tracker \<times> 'n activity_effect list" where
  "activity_run uni [] t = (t, [])"
| "activity_run uni ((clock, call) # calls) t =
    (case activity_exec uni clock call t of (t1, effects) \<Rightarrow>
       (case activity_run uni calls t1 of (t2, effects2) \<Rightarrow> (t2, effects @ effects2)))"

lemma run_Cons_fst:
  "fst (activity_run uni (x # calls) t) = fst (activity_run uni calls (fst (activity_exec uni (fst x) (snd x) t)))"
  by (cases x) (simp split: prod.split)

lemma run_append_fst: "fst (activity_run uni (xs @ ys) t) = fst (activity_run uni ys (fst (activity_run uni xs t)))"
  by (induction xs arbitrary: t) (simp_all add: run_Cons_fst del: activity_run.simps(2))

text \<open>The pane of a call, whether the call gets past its checks, and whether it makes the entry.\<close>

fun call_pane :: "activity_call \<Rightarrow> bytes option" where
  "call_pane (CRegister p) = Some p"
| "call_pane (CRegisterGen p) = Some p"
| "call_pane (CRemove p g) = Some p"
| "call_pane (CSetPlugin p b) = Some p"
| "call_pane (CPluginStatus p s) = Some p"
| "call_pane (CLifecycle p event g now) = Some p"
| "call_pane (COutput p now g) = Some p"
| "call_pane (CFinished p command exit_code now g) = Some p"
| "call_pane (CHeartbeat p fg history output_tail now) = Some p"
| "call_pane (CStarted p key now) = Some p"
| "call_pane (CCancel p now) = Some p"
| "call_pane (CForget p) = Some p"
| "call_pane (CAck p) = Some p"
| "call_pane _ = None"

fun call_active :: "'n activity_tracker \<Rightarrow> activity_call \<Rightarrow> bool" where
  "call_active t (CLifecycle p event g now) \<longleftrightarrow> generation_is_current p g t \<and> p \<notin> at_retired t"
| "call_active t (COutput p now g) \<longleftrightarrow> generation_is_current p g t"
| "call_active t (CFinished p command exit_code now g) \<longleftrightarrow> generation_is_current p g t"
| "call_active t (CHeartbeat p fg history output_tail now) \<longleftrightarrow> p \<notin> at_retired t"
| "call_active t (CRemove p g) \<longleftrightarrow> False"
| "call_active t (CPrune now max_idle_ms) \<longleftrightarrow> False"
| "call_active t (CConfig cfg) \<longleftrightarrow> False"
| "call_active t _ \<longleftrightarrow> True"

fun call_creates :: "activity_call \<Rightarrow> bool" where
  "call_creates (CRegister p) \<longleftrightarrow> True"
| "call_creates (CRegisterGen p) \<longleftrightarrow> True"
| "call_creates (CLifecycle p event g now) \<longleftrightarrow> True"
| "call_creates (CHeartbeat p fg history output_tail now) \<longleftrightarrow> True"
| "call_creates (CStarted p key now) \<longleftrightarrow> True"
| "call_creates _ \<longleftrightarrow> False"

definition tail_waiting :: "(uchar list \<Rightarrow> nat \<Rightarrow> uchar list) \<Rightarrow> bytes option \<Rightarrow> bool" where
  "tail_waiting uni output_tail \<longleftrightarrow> (case output_tail of Some s \<Rightarrow> tail_looks_waiting_for_input uni s | None \<Rightarrow> False)"

fun call_step :: "(uchar list \<Rightarrow> nat \<Rightarrow> uchar list) \<Rightarrow> nat \<Rightarrow> 'n activity_tracker \<Rightarrow> activity_call \<Rightarrow> 'n pane_step" where
  "call_step uni clock t (CRegisterGen p) e = (e\<lparr>pa_generation := Some (min (at_next_generation t + 1) U64_MAX)\<rparr>, [], False)"
| "call_step uni clock t (CSetPlugin p b) e = (e\<lparr>pa_plugin_connected := b\<rparr>, [], False)"
| "call_step uni clock t (CPluginStatus p s) e = (e\<lparr>pa_status := s, pa_plugin_connected := True\<rparr>, [], False)"
| "call_step uni clock t (CLifecycle p event g now) e =
    (if pa_plugin_connected e then (e, [], False) else apply_status t (lifecycle_status (le_kind event)) now (adopt_agent event e))"
| "call_step uni clock t (COutput p now g) e = pty_output_step now e"
| "call_step uni clock t (CFinished p command exit_code now g) e = command_finished_step t command exit_code now e"
| "call_step uni clock t (CHeartbeat p fg history output_tail now) e = heartbeat_step t fg history (tail_waiting uni output_tail) now e"
| "call_step uni clock t (CStarted p key now) e = agent_started_step t key now e"
| "call_step uni clock t (CCancel p now) e = cancel_step t now e"
| "call_step uni clock t (CForget p) e = cancel_step t clock e"
| "call_step uni clock t (CAck p) e =
    (let e1 = e\<lparr>pa_acknowledged_ts := pa_history_ts e\<rparr>
     in (if attention_status (pa_status e) then e1\<lparr>pa_status := AIdle, pa_work_started_at := None\<rparr> else e1, [], attention_status (pa_status e)))"
| "call_step uni clock t _ e = (e, [], False)"

fun call_evicts :: "activity_call \<Rightarrow> bool" where
  "call_evicts (CRemove p g) \<longleftrightarrow> True"
| "call_evicts (CForget p) \<longleftrightarrow> True"
| "call_evicts (CPrune now max_idle_ms) \<longleftrightarrow> True"
| "call_evicts _ \<longleftrightarrow> False"

text \<open>The entry that a call works on.\<close>

definition touched :: "'n activity_tracker \<Rightarrow> activity_call \<Rightarrow> bytes \<Rightarrow> pane_activity option" where
  "touched t call p =
    (if call_pane call = Some p \<and> call_active t call
     then (case at_panes t p of Some e \<Rightarrow> Some e | None \<Rightarrow> if call_creates call then Some (new_pane p) else None) else None)"

section \<open>What a call does\<close>

text \<open>The record of what was last emitted does not matter for anything but emission.\<close>

definition core :: "pane_activity \<Rightarrow> pane_activity" where
  "core e = e\<lparr>pa_last_emitted := None\<rparr>"

lemma core_simps [simp]:
  "pa_pane_id (core e) = pa_pane_id e" "pa_generation (core e) = pa_generation e" "pa_status (core e) = pa_status e"
  "pa_agent_key (core e) = pa_agent_key e" "pa_history_ts (core e) = pa_history_ts e" "pa_acknowledged_ts (core e) = pa_acknowledged_ts e"
  "pa_last_notified_at (core e) = pa_last_notified_at e" "pa_plugin_connected (core e) = pa_plugin_connected e"
  "core (e\<lparr>pa_last_emitted := x\<rparr>) = core e" "core (new_pane p) = new_pane p"
  by (simp_all add: core_def new_pane_def)

fun pushes :: "'n activity_effect list \<Rightarrow> 'n activity_event list" where
  "pushes [] = []"
| "pushes (PushNotification event # effects) = event # pushes effects"
| "pushes (EmitStatus payload # effects) = pushes effects"

lemma pushes_append [simp]: "pushes (xs @ ys) = pushes xs @ pushes ys"
  by (induction xs rule: pushes.induct) simp_all

lemma pushes_map [simp]: "pushes (map PushNotification events) = events"
  by (induction events) simp_all

lemma emit_status_core:
  "map_option core (at_panes (fst (emit_status clock p t)) q) = map_option core (at_panes t q)"
  by (simp add: emit_status_def update_entry_def with_entry_def drain_pending_notifications_def split: option.split)

lemma emit_status_state [simp]:
  "at_retired (fst (emit_status clock p t)) = at_retired t" "at_generations (fst (emit_status clock p t)) = at_generations t"
  "at_next_generation (fst (emit_status clock p t)) = at_next_generation t" "at_config (fst (emit_status clock p t)) = at_config t"
  "at_has_service (fst (emit_status clock p t)) = at_has_service t"
  "at_notify_cooldown_ms (fst (emit_status clock p t)) = at_notify_cooldown_ms t"
  by (simp_all add: emit_status_def update_entry_def with_entry_def drain_pending_notifications_def split: option.split)

lemma emit_status_log:
  "at_has_service t \<Longrightarrow> pushes (snd (emit_status clock p t)) @ at_pending (fst (emit_status clock p t)) = at_pending t"
  by (simp add: emit_status_def update_entry_def with_entry_def drain_pending_notifications_def split: option.split)

definition entry_result :: "bytes \<Rightarrow> 'n pane_step \<Rightarrow> 'n activity_tracker \<Rightarrow> 'n activity_tracker \<Rightarrow> 'n activity_effect list \<Rightarrow> bool" where
  "entry_result p f t t' effects \<longleftrightarrow>
    (\<forall>q. map_option core (at_panes t' q) =
       (if q = p then map_option (\<lambda>e. core (fst (f e))) (at_panes t p) else map_option core (at_panes t q))) \<and>
    at_retired t' = at_retired t \<and> at_generations t' = at_generations t \<and> at_next_generation t' = at_next_generation t \<and>
    at_has_service t' = at_has_service t \<and> at_notify_cooldown_ms t' = at_notify_cooldown_ms t \<and>
    (at_has_service t \<longrightarrow>
       pushes effects @ at_pending t' = at_pending t @ (case at_panes t p of Some e \<Rightarrow> fst (snd (f e)) | None \<Rightarrow> []))"

lemma with_entry_result: "with_entry p f t = (t', changed) \<Longrightarrow> entry_result p f t t' []"
  by (auto simp: with_entry_def entry_result_def split: option.splits prod.splits)

lemma update_entry_result: "update_entry p f t = (t', effects, changed) \<Longrightarrow> entry_result p f t t' effects"
  by (auto simp: update_entry_def with_entry_def drain_pending_notifications_def entry_result_def split: option.splits prod.splits)

lemma emit_after_result:
  assumes "entry_result p f t t1 effects" "emit_status clock q t1 = (t2, effects2)"
  shows "entry_result p f t t2 (effects @ effects2)"
  using assms emit_status_core [of clock q t1] emit_status_state [of clock q t1] emit_status_log [of t1 clock q]
  by (auto simp: entry_result_def)

lemma emit_if_changed_result:
  assumes "entry_result p f t t1 effects" "emit_if_changed clock q (t1, effects, changed) = (t2, effects2)"
  shows "entry_result p f t t2 effects2"
  using assms emit_after_result [OF assms(1), of clock q]
  by (auto simp: emit_if_changed_def split: if_splits prod.splits)

text \<open>The tracker as a call finds it after it has marked the pane as live and made its entry.\<close>

fun registered :: "activity_call \<Rightarrow> 'n activity_tracker \<Rightarrow> 'n activity_tracker" where
  "registered (CRegister p) t = t\<lparr>at_retired := at_retired t - {p}\<rparr>"
| "registered (CRegisterGen p) t =
    (let generation = min (at_next_generation t + 1) U64_MAX
     in t\<lparr>at_retired := at_retired t - {p}, at_next_generation := generation, at_generations := (at_generations t)(p \<mapsto> generation)\<rparr>)"
| "registered call t = t"

definition prepared :: "activity_call \<Rightarrow> bytes \<Rightarrow> 'n activity_tracker \<Rightarrow> 'n activity_tracker" where
  "prepared call p t = (if call_creates call then entry_or_insert p (registered call t) else registered call t)"

lemma entry_or_insert_simps [simp]:
  "at_retired (entry_or_insert p t) = at_retired t" "at_generations (entry_or_insert p t) = at_generations t"
  "at_next_generation (entry_or_insert p t) = at_next_generation t" "at_pending (entry_or_insert p t) = at_pending t"
  "at_has_service (entry_or_insert p t) = at_has_service t" "at_notify_cooldown_ms (entry_or_insert p t) = at_notify_cooldown_ms t"
  "at_panes (entry_or_insert p t) q = (if q = p \<and> at_panes t p = None then Some (new_pane p) else at_panes t q)"
  by (auto simp: entry_or_insert_def split: option.split)

lemma registered_simps [simp]:
  "at_panes (registered call t) = at_panes t" "at_pending (registered call t) = at_pending t"
  "at_has_service (registered call t) = at_has_service t" "at_notify_cooldown_ms (registered call t) = at_notify_cooldown_ms t"
  by (cases call; simp add: Let_def)+

lemma entry_result_cong:
  assumes "entry_result p f t t' effects" "\<And>e. core (fst (f e)) = core (fst (g e))" "\<And>e. fst (snd (f e)) = fst (snd (g e))"
  shows "entry_result p g t t' effects"
  using assms unfolding entry_result_def by (simp split: option.splits)

lemma entry_result_id: "(\<And>e. f e = (e, [], False)) \<Longrightarrow> entry_result p f t t []"
  by (auto simp: entry_result_def option.map_comp comp_def split: option.split)

lemma fst_snd_case_prod: "(case r of (a, b, c) \<Rightarrow> (a, b)) = (x, y) \<longleftrightarrow> fst r = x \<and> fst (snd r) = y"
  by (cases r) auto

lemma exec_result:
  assumes x: "activity_exec uni clock call t = (t', effects)" and p: "call_pane call = Some p"
    and a: "call_active t call" "\<not> call_evicts call"
  shows "entry_result p (call_step uni clock t call) (prepared call p t) t' effects"
proof -
  note u = update_entry_result and e = emit_if_changed_result [OF update_entry_result]
  have changed: "entry_result p f t0 t' effects" if "emit_if_changed clock p (update_entry p f t0) = (t', effects)" for f t0
    using that by (cases "update_entry p f t0") (auto intro: e)
  have silent: "entry_result p f t0 t' effects"
    if "with_entry p f t0 = (t1, c)" "(if c then emit_status clock p t1 else (t1, [])) = (t', effects)" for f t0 t1 c
    using with_entry_result [OF that(1)] that(2) emit_after_result [OF with_entry_result [OF that(1)], of clock p t' effects]
    by (auto split: if_splits)
  show ?thesis
  proof (cases call)
    case (CRegister q)
    then show ?thesis using x p by (auto simp: prepared_def register_pane_def intro: entry_result_id)
  next
    case (CRegisterGen q)
    then show ?thesis using x p
      by (auto simp: prepared_def register_pane_with_generation_def Let_def split: prod.splits dest!: u intro: entry_result_cong)
  next
    case (CSetPlugin q b)
    then show ?thesis using x p by (auto simp: prepared_def set_plugin_connected_def split: prod.splits dest!: u intro: entry_result_cong)
  next
    case (CPluginStatus q s)
    then show ?thesis using x p by (auto simp: prepared_def on_plugin_status_def split: prod.splits dest!: u intro: entry_result_cong)
  next
    case (CStarted q key now)
    then show ?thesis using x p by (auto simp: prepared_def notify_agent_started_def split: prod.splits dest!: u intro: entry_result_cong)
  next
    case (CLifecycle q event g now)
    then show ?thesis using x p a by (auto simp: prepared_def on_agent_lifecycle_def dest!: changed intro: entry_result_cong)
  next
    case (COutput q now g)
    then show ?thesis using x p a by (auto simp: prepared_def on_pty_output_for_generation_def dest!: changed intro: entry_result_cong)
  next
    case (CFinished q command exit_code now g)
    then show ?thesis using x p a by (auto simp: prepared_def on_shell_command_finished_for_generation_def dest!: changed intro: entry_result_cong)
  next
    case (CCancel q now)
    then show ?thesis using x p a by (auto simp: prepared_def cancel_pane_def dest!: changed intro: entry_result_cong)
  next
    case (CHeartbeat q fg history output_tail now)
    then show ?thesis using x p a
      by (auto simp: prepared_def heartbeat_def tail_waiting_def [symmetric] Let_def split: prod.splits split del: if_split
          dest!: silent intro: entry_result_cong)
  next
    case (CAck q)
    then show ?thesis using x p a
      by (auto simp: prepared_def acknowledge_attention_def Let_def split: prod.splits split del: if_split
          dest!: silent intro: entry_result_cong)
  qed (use p a in auto)
qed

lemma inactive_call:
  assumes "\<not> call_active t call" "\<not> call_evicts call"
  shows "activity_exec uni clock call t = (case call of CConfig cfg \<Rightarrow> t\<lparr>at_config := cfg\<rparr> | _ \<Rightarrow> t, [])"
  using assms by (cases call) (auto simp: on_agent_lifecycle_def on_pty_output_for_generation_def
      on_shell_command_finished_for_generation_def heartbeat_def set_notify_config_def)

lemma forget_exec:
  assumes "activity_exec uni clock (CForget p) t = (t', effects)"
  obtains t1 where "entry_result p (cancel_step t clock) t t1 effects" "t' = t1\<lparr>at_panes := (at_panes t1)(p := None)\<rparr>"
proof -
  obtain t1 where c: "activity_exec uni clock (CCancel p clock) t = (t1, effects)" "t' = t1\<lparr>at_panes := (at_panes t1)(p := None)\<rparr>"
    using assms by (auto simp: forget_pane_def split: prod.splits)
  have "entry_result p (cancel_step t clock) t t1 effects"
    using exec_result [OF c(1)] by (auto simp: prepared_def intro: entry_result_cong)
  then show thesis using c(2) that by blast
qed

text \<open>A call that does not evict the entry of a pane changes it by its step.\<close>

definition spares :: "activity_call \<Rightarrow> bytes \<Rightarrow> bool" where
  "spares call q \<longleftrightarrow> \<not> call_evicts call \<or> call_pane call \<noteq> None \<and> call_pane call \<noteq> Some q"

lemma exec_entry:
  assumes x: "activity_exec uni clock call t = (t', effects)" and s: "spares call q"
  shows "map_option core (at_panes t' q) =
    (case touched t call q of Some e \<Rightarrow> Some (core (fst (call_step uni clock t call e))) | None \<Rightarrow> map_option core (at_panes t q))"
proof (cases "call_evicts call")
  case True
  then obtain p where p: "call_pane call = Some p" "p \<noteq> q" using s by (auto simp: spares_def)
  then have n: "touched t call q = None" by (simp add: touched_def)
  show ?thesis
  proof (cases call)
    case (CRemove r g)
    then show ?thesis using x p n by (auto simp: remove_pane_if_generation_def)
  next
    case (CForget r)
    then have x': "activity_exec uni clock (CForget r) t = (t', effects)" "r \<noteq> q" using x p by simp_all
    from x'(1) obtain t1 where "entry_result r (cancel_step t clock) t t1 effects" "t' = t1\<lparr>at_panes := (at_panes t1)(r := None)\<rparr>"
      by (rule forget_exec)
    then show ?thesis using x'(2) n by (simp add: entry_result_def)
  qed (use True p in auto)
next
  case evicts: False
  show ?thesis
  proof (cases "call_active t call")
    case True
    then obtain p where p: "call_pane call = Some p" by (cases call) auto
    show ?thesis
      using exec_result [OF x p True evicts] True p
      by (auto simp: entry_result_def touched_def prepared_def split: option.splits)
  next
    case False
    then show ?thesis using inactive_call [OF False evicts, of uni clock] x by (auto simp: touched_def split: activity_call.splits)
  qed
qed

lemma exec_entry_SomeD:
  assumes "activity_exec uni clock call t = (t', effects)" "spares call q" "at_panes t' q = Some e'"
  obtains (same) e where "at_panes t q = Some e" "core e' = core e"
  | (step) e where "touched t call q = Some e" "core e' = core (fst (call_step uni clock t call e))"
  using exec_entry [OF assms(1,2)] assms(3) by (cases "at_panes t q") (auto split: option.splits)

text \<open>The notifications of a call, and that none is lost: what is pushed and what is queued are those queued before and those of the call.\<close>

definition call_events :: "(uchar list \<Rightarrow> nat \<Rightarrow> uchar list) \<Rightarrow> nat \<Rightarrow> 'n activity_tracker \<Rightarrow> activity_call \<Rightarrow> 'n activity_event list" where
  "call_events uni clock t call =
    (case call_pane call of
       None \<Rightarrow> []
     | Some p \<Rightarrow> (case touched t call p of Some e \<Rightarrow> fst (snd (call_step uni clock t call e)) | None \<Rightarrow> []))"

lemma exec_log:
  assumes x: "activity_exec uni clock call t = (t', effects)" and sv: "at_has_service t"
  shows "pushes effects @ at_pending t' = at_pending t @ call_events uni clock t call"
    and "at_has_service t'" and "at_notify_cooldown_ms t' = at_notify_cooldown_ms t"
proof -
  have "pushes effects @ at_pending t' = at_pending t @ call_events uni clock t call \<and> at_has_service t' \<and>
      at_notify_cooldown_ms t' = at_notify_cooldown_ms t"
  proof (cases "call_evicts call")
    case True
    then show ?thesis
    proof (cases call)
      case (CForget r)
      then have "activity_exec uni clock (CForget r) t = (t', effects)" using x by simp
      then obtain t1 where "entry_result r (cancel_step t clock) t t1 effects" "t' = t1\<lparr>at_panes := (at_panes t1)(r := None)\<rparr>"
        by (rule forget_exec)
      then show ?thesis using sv CForget by (auto simp: entry_result_def call_events_def touched_def split: option.splits)
    qed (use x sv in \<open>auto simp: call_events_def touched_def remove_pane_if_generation_def prune_stale_panes_def Let_def\<close>)
  next
    case evicts: False
    show ?thesis
    proof (cases "call_active t call")
      case True
      then obtain p where p: "call_pane call = Some p" by (cases call) auto
      show ?thesis
        using exec_result [OF x p True evicts] True p sv
        by (auto simp: entry_result_def touched_def prepared_def call_events_def split: option.splits)
    next
      case False
      then show ?thesis using inactive_call [OF False evicts, of uni clock] x sv
        by (auto simp: touched_def call_events_def split: activity_call.splits option.splits)
    qed
  qed
  then show "pushes effects @ at_pending t' = at_pending t @ call_events uni clock t call"
    "at_has_service t'" "at_notify_cooldown_ms t' = at_notify_cooldown_ms t" by simp_all
qed

lemma exec_generations:
  assumes x: "activity_exec uni clock call t = (t', effects)"
  shows "at_generations t' = (case call of
      CRemove p g \<Rightarrow> if generation_is_current p g t then (at_generations t)(p := None) else at_generations t
    | _ \<Rightarrow> at_generations (registered call t)) \<and> at_next_generation t' = at_next_generation (registered call t)"
proof (cases "call_evicts call")
  case True
  then show ?thesis
  proof (cases call)
    case (CForget r)
    then have "activity_exec uni clock (CForget r) t = (t', effects)" using x by simp
    then obtain t1 where "entry_result r (cancel_step t clock) t t1 effects" "t' = t1\<lparr>at_panes := (at_panes t1)(r := None)\<rparr>"
      by (rule forget_exec)
    then show ?thesis using CForget by (simp add: entry_result_def)
  qed (use x in \<open>auto simp: remove_pane_if_generation_def prune_stale_panes_def Let_def\<close>)
next
  case evicts: False
  show ?thesis
  proof (cases "call_active t call")
    case True
    then obtain p where p: "call_pane call = Some p" by (cases call) auto
    show ?thesis
      using exec_result [OF x p True evicts] evicts
      by (cases call) (auto simp: entry_result_def prepared_def)
  next
    case False
    then show ?thesis using inactive_call [OF False evicts, of uni clock] x evicts by (cases call) (auto simp: set_notify_config_def)
  qed
qed

end
