(* ===== verification/Activity_Props.thy ===== *)
theory Activity_Props
  imports Activity_Calls
begin

text \<open>
  What the tracker of agent activity promises: completion needs a positive signal, a report of an old terminal
  changes nothing, an acknowledged turn stays acknowledged, and notifications of one kind keep their distance.
\<close>

section \<open>Completion needs a positive signal\<close>

lemma exec_entry_Some:
  assumes x: "activity_exec uni clock call t = (t', effects)" and e: "at_panes t' q = Some e'"
  obtains (same) e where "at_panes t q = Some e" "core e' = core e"
  | (step) e where "touched t call q = Some e" "core e' = core (fst (call_step uni clock t call e))"
proof (cases "spares call q")
  case True
  from x True e show ?thesis by (rule exec_entry_SomeD) (use same step in auto)
next
  case False
  have "at_panes t q = Some e'"
  proof (cases call)
    case (CForget r)
    then have "activity_exec uni clock (CForget r) t = (t', effects)" using x by simp
    then obtain t1 where "t' = t1\<lparr>at_panes := (at_panes t1)(r := None)\<rparr>" by (rule forget_exec)
    then show ?thesis using False CForget e by (simp add: spares_def)
  qed (use x e False in \<open>auto simp: spares_def remove_pane_if_generation_def prune_stale_panes_def restrict_map_def Let_def split: if_splits\<close>)
  then show ?thesis using same by blast
qed

text \<open>
  The signals: a plugin or the agent itself says so, the agent's own launch command ends with exit code zero, the
  foreground goes back to the shell from an agent that has been seen at work, or the session file of the
  agent in the foreground says so about a turn that the pane has seen.
\<close>

fun completion_signal :: "activity_call \<Rightarrow> pane_activity \<Rightarrow> bool" where
  "completion_signal (CPluginStatus p s) e \<longleftrightarrow> s = ACompleted"
| "completion_signal (CLifecycle p event g now) e \<longleftrightarrow> le_kind event = LkComplete \<and> \<not> pa_plugin_connected e"
| "completion_signal (CFinished p command exit_code now g) e \<longleftrightarrow>
    exit_code = 0 \<and> \<not> pa_plugin_connected e \<and> (\<exists>key. pa_agent_key e = Some key \<and> command_contains_agent command key)"
| "completion_signal (CHeartbeat p fg history output_tail now) e \<longleftrightarrow>
    \<not> pa_plugin_connected e \<and> in_turn e \<and> pa_agent_key e \<noteq> None \<and>
    (case known_label fg of
       None \<Rightarrow> \<not> pa_startup_pending e
     | Some key \<Rightarrow> pa_agent_key e = Some key \<and> Option.bind history hs_activity = Some HsCompleted)"
| "completion_signal _ e \<longleftrightarrow> False"

lemma notify_locked_keeps [simp]:
  "pa_status (fst (notify_locked t k now e)) = pa_status e" "pa_pane_id (fst (notify_locked t k now e)) = pa_pane_id e"
  "pa_agent_key (fst (notify_locked t k now e)) = pa_agent_key e" "pa_acknowledged_ts (fst (notify_locked t k now e)) = pa_acknowledged_ts e"
  by (simp_all add: notify_locked_def Let_def)

lemma start_work_keeps [simp]:
  "pa_status (start_work now e) = pa_status e" "pa_pane_id (start_work now e) = pa_pane_id e"
  "pa_acknowledged_ts (start_work now e) = pa_acknowledged_ts e" "pa_last_notified_at (start_work now e) = pa_last_notified_at e"
  by (simp_all add: start_work_def)

lemma apply_status_completes:
  "pa_status (fst (apply_status t s now e)) = ACompleted \<Longrightarrow> pa_status e = ACompleted \<or> s = HsCompleted"
  by (cases s) (auto simp: apply_status_def split: if_splits prod.splits dest: arg_cong [of _ _ "\<lambda>x. pa_status (fst x)"])

lemma adopt_agent_keeps [simp]:
  "pa_status (adopt_agent event e) = pa_status e" "pa_pane_id (adopt_agent event e) = pa_pane_id e"
  "pa_last_notified_at (adopt_agent event e) = pa_last_notified_at e"
  by (simp_all add: adopt_agent_def Let_def split: option.split)

lemma hb_apply_completes:
  "pa_status (fst (hb_apply t a now (e, c))) = ACompleted \<Longrightarrow> pa_status e = ACompleted \<or> a = Some HsCompleted"
  using apply_status_completes [of t _ now e] by (auto simp: hb_apply_def split: option.splits prod.splits dest: arg_cong [of _ _ "\<lambda>x. pa_status (fst x)"])

lemma hb_silence_completes: "pa_status (fst (hb_silence t a now (e, c))) = ACompleted \<Longrightarrow> pa_status e = ACompleted"
  by (simp add: hb_silence_def split: if_splits)

lemma hb_prompt_completes: "pa_status (fst (hb_prompt t w a now (e, c))) = ACompleted \<Longrightarrow> pa_status e = ACompleted"
  by (auto simp: hb_prompt_def split: if_splits prod.splits dest: arg_cong [of _ _ "\<lambda>x. pa_status (fst x)"])

lemma hb_front:
  assumes "hb_history history (hb_detect key (hb_confirm key (e, c))) = (e3, c3)"
  shows "in_turn e3 \<Longrightarrow> in_turn e \<and> pa_agent_key e = Some key"
    and "pa_status e3 = ACompleted \<Longrightarrow> pa_status e = ACompleted"
    and "pa_acknowledged_ts e3 = pa_acknowledged_ts e" and "pa_status e3 = pa_status e \<or> pa_status e3 = AIdle"
    and "history = Some h \<Longrightarrow> pa_history_ts e3 = Some (hs_timestamp_ms h)"
    and "pa_pane_id e3 = pa_pane_id e" and "pa_last_notified_at e3 = pa_last_notified_at e"
  using assms by (auto simp: hb_history_def hb_detect_def hb_confirm_def in_turn_def split: if_splits option.splits)

lemma hb_authoritative_SomeD:
  assumes "hb_authoritative history e = (e4, a)"
  shows "a = Some s \<Longrightarrow> s \<noteq> HsWorking \<Longrightarrow> in_turn e \<and> Option.bind history hs_activity = Some s"
    and "pa_status e4 = pa_status e" and "pa_history_ts e4 = pa_history_ts e" and "history = None \<Longrightarrow> a = None"
    and "pa_acknowledged_ts e4 = pa_acknowledged_ts e \<or> pa_acknowledged_ts e4 = pa_history_ts e \<and> history \<noteq> None"
    and "pa_pane_id e4 = pa_pane_id e" and "pa_last_notified_at e4 = pa_last_notified_at e"
  using assms by (cases history; auto simp: hb_authoritative_def Let_def split: if_splits option.splits)+

lemma hb_agent_completes:
  assumes "pa_status (fst (hb_agent t key history w now (e, c))) = ACompleted" "pa_status e \<noteq> ACompleted"
  shows "in_turn e \<and> pa_agent_key e = Some key \<and> Option.bind history hs_activity = Some HsCompleted"
proof -
  obtain e3 c3 where 3: "hb_history history (hb_detect key (hb_confirm key (e, c))) = (e3, c3)" by fastforce
  obtain e4 a where 4: "hb_authoritative history e3 = (e4, a)" by fastforce
  obtain e5 ev5 c5 where 5: "hb_apply t a now (e4, c3) = (e5, ev5, c5)" by (rule prod_cases3)
  obtain e6 c6 where 6: "hb_silence t a now (e5, c5) = (e6, c6)" by fastforce
  have "pa_status (fst (hb_prompt t w a now (e6, c6))) = ACompleted"
    using assms(1) by (simp add: hb_agent_def 3 4 5 6 Let_def split: prod.splits)
  then have "pa_status e5 = ACompleted" using hb_prompt_completes hb_silence_completes [of t a now e5 c5] 6 by fastforce
  then have "a = Some HsCompleted"
    using hb_apply_completes [of t a now e4 c3] 5 assms(2) hb_front(2) [OF 3] hb_authoritative_SomeD(2) [OF 4] by auto
  then show ?thesis using hb_authoritative_SomeD(1) [OF 4] hb_front(1) [OF 3] by blast
qed

lemma hb_foreground_keeps [simp]:
  "pa_status (fst (hb_foreground fg (e, c))) = pa_status e" "in_turn (fst (hb_foreground fg (e, c))) = in_turn e"
  "pa_agent_key (fst (hb_foreground fg (e, c))) = pa_agent_key e" "pa_startup_pending (fst (hb_foreground fg (e, c))) = pa_startup_pending e"
  "pa_acknowledged_ts (fst (hb_foreground fg (e, c))) = pa_acknowledged_ts e" "pa_pane_id (fst (hb_foreground fg (e, c))) = pa_pane_id e"
  "pa_last_notified_at (fst (hb_foreground fg (e, c))) = pa_last_notified_at e"
  by (simp_all add: hb_foreground_def in_turn_def)

lemma heartbeat_completes:
  assumes s: "pa_status (fst (heartbeat_step t fg history w now e)) = ACompleted" and n: "pa_status e \<noteq> ACompleted"
  shows "\<not> pa_plugin_connected e \<and> in_turn e \<and> pa_agent_key e \<noteq> None \<and>
    (case known_label fg of
       None \<Rightarrow> \<not> pa_startup_pending e
     | Some key \<Rightarrow> pa_agent_key e = Some key \<and> Option.bind history hs_activity = Some HsCompleted)"
proof -
  obtain e1 c1 where f: "hb_foreground fg (e, False) = (e1, c1)" by fastforce
  have k: "pa_status e1 = pa_status e" "in_turn e1 = in_turn e" "pa_agent_key e1 = pa_agent_key e" "pa_startup_pending e1 = pa_startup_pending e"
    using hb_foreground_keeps [of fg e False] by (simp_all add: f)
  show ?thesis
    using s n k hb_agent_completes [of t _ history w now e1 c1]
    by (auto simp: heartbeat_step_def f hb_shell_def split: if_splits option.splits)
qed

lemma step_completes:
  assumes s: "pa_status (fst (call_step uni clock t call e)) = ACompleted" and n: "pa_status e \<noteq> ACompleted"
  shows "completion_signal call e"
proof (cases call)
  case (CLifecycle p event g now)
  then show ?thesis using s n apply_status_completes [of t "lifecycle_status (le_kind event)" now "adopt_agent event e"]
    by (auto simp: lifecycle_status_def split: if_splits agent_lifecycle_kind.splits)
next
  case (CHeartbeat p fg history output_tail now)
  then show ?thesis using s n heartbeat_completes [of t fg history "tail_waiting uni output_tail" now e] by auto
next
  case (COutput p now g)
  then show ?thesis using s n by (auto simp: pty_output_step_def Let_def split: if_splits activity_status.splits)
next
  case (CFinished p command exit_code now g)
  then show ?thesis using s n by (auto simp: command_finished_step_def Let_def split: if_splits option.splits prod.splits)
next
  case (CStarted p key now)
  then show ?thesis using s n by (auto simp: agent_started_step_def split: if_splits prod.splits dest: arg_cong [of _ _ "\<lambda>x. pa_status (fst x)"])
qed (use s n in \<open>auto simp: cancel_step_def Let_def split: if_splits prod.splits\<close>)


section \<open>Reports of an old terminal\<close>

text \<open>The pane and the token that a call carries.\<close>

fun carries :: "activity_call \<Rightarrow> (bytes \<times> nat) option" where
  "carries (CRemove p (Some g)) = Some (p, g)"
| "carries (CLifecycle p event (Some g) now) = Some (p, g)"
| "carries (COutput p now (Some g)) = Some (p, g)"
| "carries (CFinished p command exit_code now (Some g)) = Some (p, g)"
| "carries _ = None"

definition superseded :: "bytes \<Rightarrow> nat \<Rightarrow> 'n activity_tracker \<Rightarrow> bool" where
  "superseded p g t \<longleftrightarrow> at_generations t p \<noteq> Some g \<and> g \<le> at_next_generation t"

lemma superseded_inert:
  assumes "superseded p g t" "carries call = Some (p, g)"
  shows "activity_exec uni clock call t = (t, [])"
  using assms(2)
  by (rule carries.elims)
    (use assms(1) in \<open>auto simp: superseded_def remove_pane_if_generation_def generation_is_current_def on_agent_lifecycle_def
       on_pty_output_for_generation_def on_shell_command_finished_for_generation_def\<close>)

lemma registered_next:
  "at_next_generation t < U64_MAX \<Longrightarrow> at_next_generation t \<le> at_next_generation (registered call t) \<and>
    at_next_generation (registered call t) \<le> at_next_generation t + 1"
  by (cases call) (auto simp: Let_def)

lemma exec_superseded:
  assumes "superseded p g t" "at_next_generation t < U64_MAX"
  shows "superseded p g (fst (activity_exec uni clock call t))"
proof -
  obtain t' effects where x: "activity_exec uni clock call t = (t', effects)" by fastforce
  have "superseded p g t'" using exec_generations [OF x] registered_next [OF assms(2), of call] assms
    by (cases call) (auto simp: superseded_def Let_def)
  then show ?thesis by (simp add: x del: activity_exec.simps)
qed

lemma run_next:
  "at_next_generation t + length calls < U64_MAX \<Longrightarrow>
    at_next_generation t \<le> at_next_generation (fst (activity_run uni calls t)) \<and>
    at_next_generation (fst (activity_run uni calls t)) \<le> at_next_generation t + length calls \<and>
    (superseded p g t \<longrightarrow> superseded p g (fst (activity_run uni calls t)))"
proof (induction calls arbitrary: t)
  case (Cons x calls)
  obtain clock call where c: "x = (clock, call)" by fastforce
  obtain t1 effects where e: "activity_exec uni clock call t = (t1, effects)" by fastforce
  have n: "at_next_generation t < U64_MAX" using Cons.prems by simp
  have "at_next_generation t \<le> at_next_generation t1 \<and> at_next_generation t1 \<le> at_next_generation t + 1"
    using exec_generations [OF e] registered_next [OF n, of call] by simp
  then show ?case
    using Cons.IH [of t1] Cons.prems exec_superseded [OF _ n, of p g uni clock call] by (auto simp: c e split: prod.splits)
qed simp

text \<open>
  C23. A terminal that has been replaced cannot disturb its successor. A pane registers for a terminal and gets a
  token; later the pane is registered again or removed, with any calls before and after. From then on, whatever the old
  terminal's read loop still reports with its token (output, the end of a command, a status of the agent, its own exit) changes nothing
  and sends nothing, for up to \<open>2 ^ 64\<close> registrations.
\<close>

theorem stale_terminal_inert:
  assumes r: "register_pane_with_generation p t = (t1, effects, g)"
    and e: "call2 \<in> {CRegisterGen p, CRemove p (Some g), CRemove p None}"
    and t4: "t4 = fst (activity_run uni (calls1 @ [(clock2, call2)] @ calls2) t1)"
    and b: "at_next_generation t + length calls1 + length calls2 + 2 < U64_MAX"
    and c: "carries call = Some (p, g)"
  shows "activity_exec uni clock call t4 = (t4, [])"
proof -
  have g: "g = at_next_generation t + 1" "at_next_generation t1 = g"
    using r b by (auto simp: register_pane_with_generation_def update_entry_def with_entry_def drain_pending_notifications_def Let_def
        split: prod.splits option.splits)
  define t2 where "t2 = fst (activity_run uni calls1 t1)"
  have n2: "g \<le> at_next_generation t2" "at_next_generation t2 \<le> g + length calls1"
    using run_next [of t1 calls1 uni p g] g b by (auto simp: t2_def)
  obtain t3 effects3 where t3: "activity_exec uni clock2 call2 t2 = (t3, effects3)" by fastforce
  have s3: "superseded p g t3" "at_next_generation t3 \<le> at_next_generation t2 + 1"
    using exec_generations [OF t3] e n2 g b by (auto simp: superseded_def generation_is_current_def Let_def split: option.splits if_splits)
  have "t4 = fst (activity_run uni calls2 t3)" by (simp add: t4 run_append_fst run_Cons_fst t2_def [symmetric] t3 del: activity_run.simps(2))
  moreover have "superseded p g (fst (activity_run uni calls2 t3))"
    using run_next [of t3 calls2 uni p g] s3 n2 g b by simp
  ultimately show ?thesis using superseded_inert [OF _ c] by simp
qed

section \<open>Acknowledged turns\<close>

definition settled :: "nat \<Rightarrow> pane_activity \<Rightarrow> bool" where
  "settled ts e \<longleftrightarrow> pa_acknowledged_ts e = Some ts \<and> \<not> attention_status (pa_status e)"

text \<open>Calls that bring nothing new about a pane: calls for other panes, output, and heartbeats that find an agent and repeat the same turn.\<close>

fun repeats_turn :: "(uchar list \<Rightarrow> nat \<Rightarrow> uchar list) \<Rightarrow> bytes \<Rightarrow> nat \<Rightarrow> activity_call \<Rightarrow> bool" where
  "repeats_turn uni p ts (COutput q now g) \<longleftrightarrow> True"
| "repeats_turn uni p ts (CHeartbeat q fg history output_tail now) \<longleftrightarrow>
    q \<noteq> p \<or> known_label fg \<noteq> None \<and> \<not> tail_waiting uni output_tail \<and>
      (case history of Some h \<Rightarrow> hs_timestamp_ms h = ts | None \<Rightarrow> True)"
| "repeats_turn uni p ts call \<longleftrightarrow> call_pane call \<noteq> None \<and> call_pane call \<noteq> Some p"

lemma settled_transfer:
  assumes "map_option core x = Some (core e)" "settled ts e"
  shows "\<exists>e'. x = Some e' \<and> settled ts e'"
proof -
  obtain e' where "x = Some e'" "core e' = core e" using assms(1) by auto
  then show ?thesis using assms(2) core_simps(3,6) unfolding settled_def by metis
qed

lemma hb_agent_settled:
  assumes s: "settled ts e" and h: "case history of Some h \<Rightarrow> hs_timestamp_ms h = ts | None \<Rightarrow> True"
  shows "settled ts (fst (hb_agent t key history False now (e, c)))"
proof -
  obtain e3 c3 where 3: "hb_history history (hb_detect key (hb_confirm key (e, c))) = (e3, c3)" by fastforce
  obtain e4 a where 4: "hb_authoritative history e3 = (e4, a)" by fastforce
  obtain e5 ev5 c5 where 5: "hb_apply t a now (e4, c3) = (e5, ev5, c5)" by (rule prod_cases3)
  have ts: "pa_history_ts e3 = Some ts" if "history \<noteq> None" using hb_front(5) [OF 3] h that by auto
  have s4: "settled ts e4"
    using s hb_front(3,4) [OF 3] hb_authoritative_SomeD(2,5) [OF 4] ts by (auto simp: settled_def attention_status_def)
  have "settled ts e5"
  proof (cases a)
    case (Some st)
    then have "pa_history_ts e4 = Some ts" using hb_authoritative_SomeD(3,4) [OF 4] ts by fastforce
    then show ?thesis
      using s4 5 Some by (cases st) (auto simp: hb_apply_def apply_status_def settled_def attention_status_def split: if_splits)
  qed (use s4 5 in \<open>simp add: hb_apply_def\<close>)
  then have "settled ts (fst (hb_silence t a now (e5, c5)))"
    by (auto simp: hb_silence_def settled_def attention_status_def)
  then have "settled ts (fst (hb_prompt t False a now (hb_silence t a now (e5, c5))))"
    by (cases "hb_silence t a now (e5, c5)") (auto simp: hb_prompt_def settled_def attention_status_def split: option.splits)
  then show ?thesis by (auto simp: hb_agent_def 3 4 5 Let_def split: prod.split)
qed

lemma step_settled:
  assumes s: "settled ts e" and r: "repeats_turn uni p ts call" and p: "call_pane call = Some p"
  shows "settled ts (fst (call_step uni clock t call e))"
proof (cases call)
  case (COutput q now g)
  then show ?thesis using s by (auto simp: pty_output_step_def Let_def settled_def attention_status_def split: activity_status.splits)
next
  case (CHeartbeat q fg history output_tail now)
  have f: "settled ts (fst (hb_foreground fg (e, False)))" using s by (simp add: settled_def)
  obtain e1 c1 where "hb_foreground fg (e, False) = (e1, c1)" by fastforce
  then show ?thesis using CHeartbeat s r p f hb_agent_settled [of ts e1 history t _ now c1]
    by (auto simp: heartbeat_step_def split: option.splits)
qed (use r p in auto)

lemma exec_settled:
  assumes "activity_exec uni clock call t = (t', effects)" "repeats_turn uni p ts call" "at_panes t p = Some e" "settled ts e"
  shows "\<exists>e'. at_panes t' p = Some e' \<and> settled ts e'"
proof -
  have "spares call p" using assms(2) by (cases call) (auto simp: spares_def)
  then have m: "map_option core (at_panes t' p) =
    (case touched t call p of Some e \<Rightarrow> Some (core (fst (call_step uni clock t call e))) | None \<Rightarrow> map_option core (at_panes t p))"
    by (rule exec_entry [OF assms(1)])
  show ?thesis
  proof (cases "touched t call p")
    case None
    then show ?thesis using m assms(3,4) settled_transfer [of "at_panes t' p" e ts] by simp
  next
    case (Some e1)
    then have "e1 = e" "call_pane call = Some p" using assms(3) by (auto simp: touched_def split: if_splits)
    then show ?thesis using m Some settled_transfer [of "at_panes t' p" "fst (call_step uni clock t call e)" ts] step_settled [OF assms(4,2), of clock t] by simp
  qed
qed

text \<open>
  A highlight that the user has clicked away stays away. After an acknowledgement of a pane whose turn has a timestamp, however much
  output is redrawn, and however often heartbeats read the same turn from the session file, the pane never again asks for
  attention (completed, waiting or failed) until the turn, the agent or the prompt on the screen changes.
\<close>

theorem acknowledged_stays_cleared:
  assumes e: "at_panes t p = Some e" "pa_history_ts e = Some ts"
    and r: "\<forall>(clock, call) \<in> set calls. repeats_turn uni p ts call"
  shows "\<exists>e'. at_panes (fst (activity_run uni ((clock, CAck p) # calls) t)) p = Some e' \<and> \<not> attention_status (pa_status e')"
proof -
  obtain t1 effects where x: "activity_exec uni clock (CAck p) t = (t1, effects)" by fastforce
  have "map_option core (at_panes t1 p) = Some (core (fst (call_step uni clock t (CAck p) e)))"
    using exec_entry [OF x, of p] e(1) by (simp add: spares_def touched_def)
  moreover have "settled ts (fst (call_step uni clock t (CAck p) e))" using e(2) by (simp add: settled_def attention_status_def Let_def)
  ultimately obtain e1 where e1: "at_panes t1 p = Some e1" "settled ts e1" using settled_transfer by blast
  have "\<exists>e'. at_panes (fst (activity_run uni calls t1)) p = Some e' \<and> settled ts e'" using e1 r
  proof (induction calls arbitrary: t1 e1)
    case (Cons y calls)
    obtain ck call where y: "y = (ck, call)" by fastforce
    obtain t2 effects where x2: "activity_exec uni ck call t1 = (t2, effects)" by fastforce
    have "\<exists>e2. at_panes t2 p = Some e2 \<and> settled ts e2" using exec_settled [OF x2 _ Cons.prems(1,2)] Cons.prems(3) y by simp
    then show ?case using Cons.IH [of t2] Cons.prems(3) by (auto simp: y x2 split: prod.splits)
  qed auto
  then show ?thesis by (auto simp: x settled_def simp del: activity_exec.simps split: prod.splits)
qed

end
