(* ===== verification/Activity_Notify.thy ===== *)
theory Activity_Notify
  imports Activity_Props
begin

text \<open>
  The notifications of the activity tracker: for each pane and kind, those that are sent lie further apart than the
  cooldown, whichever calls raise them. Every step of an entry that raises notifications has this shape, and the
  shape is closed under composition.
\<close>

section \<open>Steps that notify\<close>

fun kind_title :: "notify_kind \<Rightarrow> string" where
  "kind_title NkStarted = ''Agent started''"
| "kind_title NkNeedsAttention = ''Agent needs attention''"
| "kind_title NkError = ''Agent error''"
| "kind_title NkCancelled = ''Agent cancelled''"

lemma kind_title_inj: "kind_title k = kind_title l \<longleftrightarrow> k = l"
  by (cases k; cases l) simp_all

lemma byte_string_inj: "byte_string a = byte_string b \<longleftrightarrow> a = b"
proof -
  have "inj (\<lambda>b :: u8. char_of (unat b) :: char)"
  proof (rule injI)
    fix x y :: u8
    assume "(char_of (unat x) :: char) = char_of (unat y)"
    then have "unat x mod 256 = unat y mod 256" by (metis of_char_of)
    moreover have "unat x < 256" "unat y < 256" using unsigned_less [of x, where ?'a = nat] unsigned_less [of y, where ?'a = nat] by simp_all
    ultimately show "x = y" by (simp add: word_unat_eq_iff)
  qed
  then show ?thesis by (auto simp: byte_string_def inj_map_eq_map)
qed

text \<open>The times of the notifications of a kind for a pane.\<close>

definition notify_times :: "notify_kind \<Rightarrow> bytes \<Rightarrow> 'n activity_event list \<Rightarrow> nat list" where
  "notify_times k p events =
    map (\<lambda>ev. unat (e_timestamp ev)) (filter (\<lambda>ev. e_pane_id ev = Some (byte_string p) \<and> e_title ev = kind_title k) events)"

lemma notify_times_simps [simp]: "notify_times k p [] = []" "notify_times k p (xs @ ys) = notify_times k p xs @ notify_times k p ys"
  by (simp_all add: notify_times_def)

lemma notify_event_fields:
  "e_pane_id (notify_event k now e) = Some (byte_string (pa_pane_id e))" "e_title (notify_event k now e) = kind_title k"
  "e_timestamp (notify_event k now e) = of_nat now"
  by (cases k; simp add: notify_event_def Let_def)+

definition apart :: "nat \<Rightarrow> nat list \<Rightarrow> bool" where
  "apart d ts \<longleftrightarrow> sorted_wrt (\<lambda>a b. a + d < b) ts"

definition notified :: "'n activity_tracker \<Rightarrow> pane_activity \<Rightarrow> 'n activity_event list \<Rightarrow> pane_activity \<Rightarrow> bool" where
  "notified t e events e' \<longleftrightarrow>
    pa_pane_id e' = pa_pane_id e \<and> (\<forall>ev \<in> set events. e_pane_id ev = Some (byte_string (pa_pane_id e))) \<and>
    (\<forall>k. let ts = notify_times k (pa_pane_id e) events in
       if ts = [] then pa_last_notified_at e' k = pa_last_notified_at e k
       else pa_last_notified_at e' k = Some (last ts) \<and>
         apart (at_notify_cooldown_ms t) (case pa_last_notified_at e k of Some prev \<Rightarrow> prev # ts | None \<Rightarrow> ts))"

lemma notes_quiet: "pa_pane_id e' = pa_pane_id e \<Longrightarrow> pa_last_notified_at e' = pa_last_notified_at e \<Longrightarrow> notified t e [] e'"
  by (simp add: notified_def)

lemma apart_join:
  assumes "apart d (xs @ [a])" "apart d (a # ys)"
  shows "apart d (xs @ a # ys)"
  using assms by (fastforce simp: apart_def sorted_wrt_append)

lemma notes_trans:
  assumes "notified t e ev1 e1" "notified t e1 ev2 e2"
  shows "notified t e (ev1 @ ev2) e2"
proof -
  have p: "pa_pane_id e1 = pa_pane_id e" "pa_pane_id e2 = pa_pane_id e" using assms by (auto simp: notified_def)
  have k: "let ts = notify_times k (pa_pane_id e) (ev1 @ ev2) in
       if ts = [] then pa_last_notified_at e2 k = pa_last_notified_at e k
       else pa_last_notified_at e2 k = Some (last ts) \<and>
         apart (at_notify_cooldown_ms t) (case pa_last_notified_at e k of Some prev \<Rightarrow> prev # ts | None \<Rightarrow> ts)" for k
  proof -
    define ts1 where "ts1 = notify_times k (pa_pane_id e) ev1"
    define ts2 where "ts2 = notify_times k (pa_pane_id e) ev2"
    have 1: "if ts1 = [] then pa_last_notified_at e1 k = pa_last_notified_at e k
       else pa_last_notified_at e1 k = Some (last ts1) \<and>
         apart (at_notify_cooldown_ms t) (case pa_last_notified_at e k of Some prev \<Rightarrow> prev # ts1 | None \<Rightarrow> ts1)"
      using assms(1) unfolding notified_def ts1_def by meson
    have 2: "if ts2 = [] then pa_last_notified_at e2 k = pa_last_notified_at e1 k
       else pa_last_notified_at e2 k = Some (last ts2) \<and>
         apart (at_notify_cooldown_ms t) (case pa_last_notified_at e1 k of Some prev \<Rightarrow> prev # ts2 | None \<Rightarrow> ts2)"
      using assms(2) unfolding notified_def ts2_def p(1) by meson
    show ?thesis
    proof (cases "ts1 = [] \<or> ts2 = []")
      case True
      then show ?thesis using 1 2 by (auto simp: Let_def ts1_def [symmetric] ts2_def [symmetric] split: option.splits)
    next
      case False
      then obtain us a where us: "ts1 = us @ [a]" by (metis rev_exhaust)
      then have "apart (at_notify_cooldown_ms t) (a # ts2)" using 1 2 False by simp
      then show ?thesis using 1 2 False us apart_join [of _ us a ts2] apart_join [of _ "_ # us" a ts2]
        by (auto simp: Let_def ts1_def [symmetric] ts2_def [symmetric] split: option.splits)
    qed
  qed
  show ?thesis using assms p k by (auto simp: notified_def)
qed

lemma notify_locked_notes:
  assumes "notify_locked t k now e = (e', events)" "now < 2 ^ 64" "at_has_service t"
  shows "notified t e events e'"
proof (cases "notify_enabled (at_config t) k \<and> (case pa_last_notified_at e k of Some prev \<Rightarrow> at_notify_cooldown_ms t < now - prev | None \<Rightarrow> True)")
  case False
  then have "e' = e" "events = []" using assms(1) by (auto simp: notify_locked_def split: if_splits)
  then show ?thesis by (simp add: notes_quiet)
next
  case True
  define e1 where "e1 = e\<lparr>pa_last_notified_at := (pa_last_notified_at e)(k \<mapsto> now)\<rparr>"
  have ev: "e' = e1" "events = [notify_event k now e1]" "pa_pane_id e1 = pa_pane_id e"
    using assms(1,3) True by (auto simp: notify_locked_def Let_def e1_def)
  have ts: "notify_times l (pa_pane_id e) events = (if l = k then [now] else [])" for l
    using assms(2) by (auto simp: ev notify_times_def notify_event_fields kind_title_inj unat_of_nat)
  show ?thesis using True unfolding notified_def ts
    by (auto simp: ev notify_event_fields e1_def apart_def split: option.splits)
qed

lemma notes_cong:
  assumes "notified t e events e'" "pa_pane_id e0 = pa_pane_id e" "pa_last_notified_at e0 = pa_last_notified_at e"
    "pa_pane_id e1 = pa_pane_id e'" "pa_last_notified_at e1 = pa_last_notified_at e'"
  shows "notified t e0 events e1"
  using assms unfolding notified_def by (simp add: Let_def)

lemma apply_status_notes:
  assumes "apply_status t s now e = (e', events, c)" "now < 2 ^ 64" "at_has_service t"
  shows "notified t e events e'"
proof -
  have n: "notified t e ev e2" if "notify_locked t k now e1 = (e2, ev)" "pa_pane_id e1 = pa_pane_id e" "pa_last_notified_at e1 = pa_last_notified_at e" for k e1 e2 ev
    using notes_cong [OF notify_locked_notes [OF that(1) assms(2,3)]] that(2,3) by simp
  show ?thesis
    using assms(1)
    by (cases s) (auto simp: apply_status_def intro: notes_quiet n split: if_splits prod.splits)
qed

lemma hb_agent_notes:
  assumes x: "hb_agent t key history w now (e, c) = (e', events, c')" and n: "now < 2 ^ 64" "at_has_service t"
  shows "notified t e events e'"
proof -
  obtain e3 c3 where 3: "hb_history history (hb_detect key (hb_confirm key (e, c))) = (e3, c3)" by fastforce
  obtain e4 a where 4: "hb_authoritative history e3 = (e4, a)" by fastforce
  obtain e5 ev5 c5 where 5: "hb_apply t a now (e4, c3) = (e5, ev5, c5)" by (rule prod_cases3)
  obtain e6 c6 where 6: "hb_silence t a now (e5, c5) = (e6, c6)" by fastforce
  obtain e7 ev7 c7 where 7: "hb_prompt t w a now (e6, c6) = (e7, ev7, c7)" by (rule prod_cases3)
  have r: "e' = e7" "events = ev5 @ ev7" using x by (simp_all add: hb_agent_def 3 4 5 6 7 Let_def)
  have "notified t e [] e4" using hb_front(6,7) [OF 3] hb_authoritative_SomeD(6,7) [OF 4] by (intro notes_quiet) simp_all
  moreover have "notified t e4 ev5 e5"
    using 5 apply_status_notes [OF _ n] by (auto simp: hb_apply_def intro: notes_quiet split: option.splits prod.splits)
  moreover have "notified t e5 [] e6" using 6 by (intro notes_quiet) (auto simp: hb_silence_def split: if_splits)
  moreover have "notified t e6 ev7 e7"
    using 7 notify_locked_notes [OF _ n]
    by (auto simp: hb_prompt_def split: if_splits prod.splits intro: notes_quiet notes_cong [OF notify_locked_notes [OF _ n]])
  ultimately have "notified t e ([] @ ev5 @ [] @ ev7) e7" by (intro notes_trans)
  then show ?thesis using r by simp
qed

fun call_now :: "nat \<Rightarrow> activity_call \<Rightarrow> nat" where
  "call_now clock (CLifecycle p event g now) = now"
| "call_now clock (CFinished p command exit_code now g) = now"
| "call_now clock (CHeartbeat p fg history output_tail now) = now"
| "call_now clock (CStarted p key now) = now"
| "call_now clock (CCancel p now) = now"
| "call_now clock call = clock"

lemma step_notes:
  assumes x: "call_step uni clock t call e = (e', events, c)" and n: "call_now clock call < 2 ^ 64" "at_has_service t"
  shows "notified t e events e'"
proof (cases call)
  case (CLifecycle p event g now)
  then show ?thesis using x n by (auto split: if_splits intro: notes_quiet notes_cong [OF apply_status_notes])
next
  case (CHeartbeat p fg history output_tail now)
  obtain e1 c1 where f: "hb_foreground fg (e, False) = (e1, c1)" by fastforce
  have k: "pa_pane_id e1 = pa_pane_id e" "pa_last_notified_at e1 = pa_last_notified_at e" using hb_foreground_keeps(6,7) [of fg e False] by (simp_all add: f)
  show ?thesis
  proof (cases "pa_plugin_connected e \<or> known_label fg = None")
    case True
    then have "events = []" "pa_pane_id e' = pa_pane_id e" "pa_last_notified_at e' = pa_last_notified_at e"
      using x CHeartbeat k by (auto simp: heartbeat_step_def f hb_shell_def split: if_splits prod.splits)
    then show ?thesis by (simp add: notes_quiet)
  next
    case False
    then obtain key where "hb_agent t key history (tail_waiting uni output_tail) now (e1, c1) = (e', events, c)"
      using x CHeartbeat by (auto simp: heartbeat_step_def f)
    then have "notified t e1 events e'" by (rule hb_agent_notes) (use n CHeartbeat in simp_all)
    then show ?thesis using k by (auto intro: notes_cong)
  qed
next
  case (COutput p now g)
  then have "events = []" "pa_pane_id e' = pa_pane_id e" "pa_last_notified_at e' = pa_last_notified_at e"
    using x by (auto simp: pty_output_step_def Let_def split: if_splits activity_status.splits)
  then show ?thesis by (simp add: notes_quiet)
next
  case (CFinished p command exit_code now g)
  then show ?thesis using x n
    by (auto simp: command_finished_step_def Let_def split: if_splits option.splits prod.splits intro: notes_quiet notes_cong [OF notify_locked_notes])
next
  case (CStarted p key now)
  then show ?thesis using x n
    by (auto simp: agent_started_step_def split: if_splits prod.splits intro: notes_quiet notes_cong [OF notify_locked_notes])
qed (use x n in \<open>auto simp: cancel_step_def Let_def split: if_splits prod.splits intro: notes_quiet notes_cong [OF notify_locked_notes]\<close>)

section \<open>Runs\<close>

definition keyed :: "'n activity_tracker \<Rightarrow> bool" where
  "keyed t \<longleftrightarrow> (\<forall>q e. at_panes t q = Some e \<longrightarrow> pa_pane_id e = q)"

lemma touched_id: "keyed t \<Longrightarrow> touched t call q = Some e \<Longrightarrow> pa_pane_id e = q"
  by (auto simp: keyed_def touched_def new_pane_def split: if_splits option.splits)

lemma exec_keyed:
  assumes x: "activity_exec uni clock call t = (t', effects)" and k: "keyed t" and n: "call_now clock call < 2 ^ 64" "at_has_service t"
  shows "keyed t'"
  unfolding keyed_def
proof (intro allI impI)
  fix q e'
  assume "at_panes t' q = Some e'"
  with x show "pa_pane_id e' = q"
  proof (cases rule: exec_entry_Some)
    case (same e)
    then show ?thesis using k by (metis core_simps(1) keyed_def)
  next
    case (step e)
    obtain e1 events c where "call_step uni clock t call e = (e1, events, c)" by (rule prod_cases3)
    then have "pa_pane_id e1 = q" using step_notes [OF _ n] touched_id [OF k step(1)] by (simp add: notified_def)
    then show ?thesis using step(2) \<open>call_step uni clock t call e = (e1, events, c)\<close> by (metis core_simps(1) fst_conv)
  qed
qed

definition cooled :: "notify_kind \<Rightarrow> bytes \<Rightarrow> 'n activity_tracker \<Rightarrow> 'n activity_event list \<Rightarrow> bool" where
  "cooled k p t evs \<longleftrightarrow>
    (let ts = notify_times k p evs in apart (at_notify_cooldown_ms t) ts \<and>
       (ts \<noteq> [] \<longrightarrow> (\<exists>e. at_panes t p = Some e \<and> pa_last_notified_at e k = Some (last ts))))"

lemma cooled_step:
  assumes c: "cooled k p t evs" and x: "notified t e events e1" and p: "pa_pane_id e = p"
    and e: "at_panes t p = Some e \<or> at_panes t p = None \<and> e = new_pane p"
    and e': "map_option core (at_panes t' p) = Some (core e1)" and d: "at_notify_cooldown_ms t' = at_notify_cooldown_ms t"
  shows "cooled k p t' (evs @ events)"
proof -
  define ls where "ls = notify_times k p evs"
  define ts where "ts = notify_times k p events"
  obtain e2 where e2: "at_panes t' p = Some e2" "pa_last_notified_at e2 = pa_last_notified_at e1"
    using e' by (auto, metis core_simps(7))
  have l: "apart (at_notify_cooldown_ms t) ls" "ls \<noteq> [] \<longrightarrow> pa_last_notified_at e k = Some (last ls)"
    using c e by (auto simp: cooled_def Let_def ls_def)
  have n: "if ts = [] then pa_last_notified_at e1 k = pa_last_notified_at e k
       else pa_last_notified_at e1 k = Some (last ts) \<and>
         apart (at_notify_cooldown_ms t) (case pa_last_notified_at e k of Some prev \<Rightarrow> prev # ts | None \<Rightarrow> ts)"
    using x unfolding notified_def p ts_def by meson
  have "apart (at_notify_cooldown_ms t) (ls @ ts) \<and> (ls @ ts \<noteq> [] \<longrightarrow> pa_last_notified_at e1 k = Some (last (ls @ ts)))"
  proof (cases "ls = []")
    case True
    then show ?thesis using n by (cases "pa_last_notified_at e k") (auto simp: apart_def split: if_splits)
  next
    case False
    then obtain us a where "ls = us @ [a]" by (metis rev_exhaust)
    then show ?thesis using l n apart_join [of _ us a ts] by (auto split: if_splits)
  qed
  then show ?thesis using e2 d by (simp add: cooled_def Let_def ls_def ts_def)
qed

lemma exec_cooled:
  assumes x: "activity_exec uni clock call t = (t', effects)" and k: "keyed t" and s: "spares call p"
    and n: "call_now clock call < 2 ^ 64" "at_has_service t" and c: "cooled k p t evs"
  shows "cooled k p t' (evs @ call_events uni clock t call)"
proof (cases "touched t call p")
  case (Some e)
  obtain e1 events ch where e1: "call_step uni clock t call e = (e1, events, ch)" by (rule prod_cases3)
  have "call_pane call = Some p" "at_panes t p = Some e \<or> at_panes t p = None \<and> e = new_pane p"
    using Some by (auto simp: touched_def split: if_splits option.splits)
  then show ?thesis
    using cooled_step [OF c step_notes [OF e1 n] touched_id [OF k Some]] exec_entry [OF x s] exec_log(3) [OF x n(2)]
    by (simp add: Some e1 call_events_def)
next
  case None
  have "notify_times k p (call_events uni clock t call) = []"
  proof (cases "call_events uni clock t call = []")
    case False
    then obtain q e where q: "call_pane call = Some q" "touched t call q = Some e"
      "call_events uni clock t call = fst (snd (call_step uni clock t call e))"
      by (auto simp: call_events_def split: option.splits)
    have "\<forall>ev \<in> set (call_events uni clock t call). e_pane_id ev = Some (byte_string q)"
      using step_notes [OF _ n, of uni e] touched_id [OF k q(2)] q(3) by (cases "call_step uni clock t call e") (auto simp: notified_def)
    moreover have "q \<noteq> p" using None q(2) by auto
    ultimately show ?thesis by (auto simp: notify_times_def filter_empty_conv byte_string_inj)
  qed simp
  moreover have "map_option core (at_panes t' p) = map_option core (at_panes t p)" using exec_entry [OF x s] None by simp
  then have "at_panes t p = Some e \<Longrightarrow> \<exists>e'. at_panes t' p = Some e' \<and> pa_last_notified_at e' = pa_last_notified_at e" for e
    by (auto, metis core_simps(7))
  ultimately show ?thesis using c exec_log(3) [OF x n(2)] by (fastforce simp: cooled_def Let_def)
qed


section \<open>Where the tracker falls short\<close>

text \<open>
  A heartbeat queues its notification and relies on the emission of the status to send the queue. When the status
  that it emits equals the last one emitted, which a plugin's report in between makes possible, nothing is emitted, and the
  notification stays in the queue until some other call.
\<close>

lemma heartbeat_notification_stuck:
  assumes e: "at_panes t p = Some e" "p \<notin> at_retired t" "\<not> pa_plugin_connected e" "pa_status e = AIdle" "pa_agent_key e = Some key"
    and k: "is_known_agent_key key" "pa_raw_fg e = Some key" "\<not> pa_startup_pending e" "pa_last_notified_at e NkNeedsAttention = None"
    and l: "pa_last_emitted e = Some (pane_signature (e\<lparr>pa_status := AWaitingForInput\<rparr>))"
    and s: "at_has_service t" "nc_needs_attention (at_config t)" "tail_looks_waiting_for_input uni output"
  shows "snd (heartbeat uni clock p (Some key) None (Some output) now t) = []"
    and "at_pending (fst (heartbeat uni clock p (Some key) None (Some output) now t)) \<noteq> []"
  using assms
  by (auto simp: heartbeat_def entry_or_insert_def with_entry_def heartbeat_step_def known_label_def hb_foreground_def hb_agent_def
      hb_confirm_def hb_detect_def hb_history_def hb_authoritative_def hb_apply_def hb_silence_def hb_prompt_def notify_locked_def
      emit_status_def pane_signature_def Let_def)

text \<open>
  The guard against acknowledged turns also holds for what the agent itself reports. While the timestamp of the history is the
  acknowledged one, a request or an error that the agent sends is dropped, without a notification.
\<close>

lemma pushed_report_swallowed:
  assumes e: "at_panes t p = Some e" "p \<notin> at_retired t" and a: "pa_acknowledged_ts e = Some ts" "pa_history_ts e = Some ts"
    and n: "at_pending t = []" "le_agent event = None" "le_session_id event = None"
  shows "on_agent_lifecycle clock p event None now t = (t, [])"
proof -
  have "lifecycle_status (le_kind event) \<noteq> HsWorking" by (simp add: lifecycle_status_def split: agent_lifecycle_kind.split)
  then have "(\<lambda>e. if pa_plugin_connected e then (e, [], False) else apply_status t (lifecycle_status (le_kind event)) now (adopt_agent event e)) e = (e, [], False)"
    using a n by (simp add: adopt_agent_def apply_status_def)
  moreover have "t\<lparr>at_panes := (at_panes t)(p \<mapsto> e), at_pending := []\<rparr> = t" using e n by (simp add: map_upd_triv)
  ultimately show ?thesis using e n
    by (auto simp: on_agent_lifecycle_def generation_is_current_def entry_or_insert_def update_entry_def with_entry_def drain_pending_notifications_def
        emit_if_changed_def split: if_splits)
qed

section \<open>Runs of the tracker\<close>

text \<open>Runs of the activity tracker: a launch, a heartbeat that finds the agent, output, and the ways in which a turn ends.\<close>

definition no_uni :: "uchar list \<Rightarrow> nat \<Rightarrow> uchar list" where
  "no_uni cs i = []"

definition demo_pane :: bytes where
  "demo_pane = bytes_of ''p''"

definition demo_claude :: bytes where
  "demo_claude = bytes_of ''claude''"

lemma claude_known: "is_known_agent_key demo_claude"
  by code_simp

definition demo_turn :: history_snapshot where
  "demo_turn = \<lparr>hs_task_title = bytes_of ''t'', hs_session_id = bytes_of ''s'', hs_timestamp_ms = 9, hs_raw_prompt = bytes_of ''t'',
     hs_activity = Some HsCompleted\<rparr>"

text \<open>An agent that has been seen at work.\<close>

definition demo_entry :: pane_activity where
  "demo_entry = (new_pane demo_pane)\<lparr>pa_status := AWorking, pa_agent_key := Some demo_claude, pa_raw_fg := Some demo_claude,
     pa_work_started_at := Some 5, pa_last_output_at := 5, pa_history_ts := Some 9\<rparr>"

definition demo_tracker :: "unit activity_tracker" where
  "demo_tracker = (activity_new True)\<lparr>at_panes := [demo_pane \<mapsto> demo_entry]\<rparr>"

definition demo_beat :: activity_call where
  "demo_beat = CHeartbeat demo_pane (Some demo_claude) (Some demo_turn) None 10"

lemmas demo_beat_defs =
  demo_beat_def demo_tracker_def demo_entry_def new_pane_def demo_turn_def activity_new_def heartbeat_def entry_or_insert_def with_entry_def
  heartbeat_step_def known_label_def claude_known hb_foreground_def hb_agent_def hb_confirm_def hb_detect_def hb_history_def
  hb_authoritative_def in_turn_def hb_apply_def apply_status_def hb_silence_def hb_prompt_def emit_status_def update_entry_def
  drain_pending_notifications_def Let_def

lemma demo_beat_completes:
  "map_option pa_status (at_panes (fst (activity_exec no_uni 10 demo_beat demo_tracker)) demo_pane) = Some ACompleted"
  by (simp add: demo_beat_defs)


theorem stale_terminal_inert_witness:
  "\<exists>t1 effects t4. register_pane_with_generation demo_pane (activity_new True :: unit activity_tracker) = (t1, effects, 1) \<and>
    t4 = fst (activity_run no_uni ([] @ [(0, CRegisterGen demo_pane)] @ []) t1) \<and> at_generations t4 demo_pane = Some 2 \<and>
    activity_exec no_uni 0 (CRemove demo_pane (Some 1)) t4 = (t4, [])"
proof -
  obtain t1 :: "unit activity_tracker" and effects where r: "register_pane_with_generation demo_pane (activity_new True) = (t1, effects, 1)"
    "at_next_generation t1 = 1"
    by (simp add: register_pane_with_generation_def activity_new_def entry_or_insert_def update_entry_def with_entry_def
        drain_pending_notifications_def U64_MAX_def Let_def)
  define t4 where "t4 = fst (activity_run no_uni ([] @ [(0, CRegisterGen demo_pane)] @ []) t1)"
  obtain t5 effects5 where x: "activity_exec no_uni 0 (CRegisterGen demo_pane) t1 = (t5, effects5)" by fastforce
  have "at_generations t5 demo_pane = Some 2" using exec_generations [OF x] r(2) by (simp add: U64_MAX_def Let_def)
  then have "at_generations t4 demo_pane = Some 2" by (simp add: t4_def x del: activity_exec.simps)
  moreover have "activity_exec no_uni 0 (CRemove demo_pane (Some 1)) t4 = (t4, [])"
    by (rule stale_terminal_inert [OF r(1) _ t4_def]) (simp_all add: activity_new_def U64_MAX_def)
  ultimately show ?thesis using r(1) t4_def by blast
qed

theorem acknowledged_stays_cleared_witness:
  "\<exists>e'. at_panes (fst (activity_run no_uni [(0, CAck demo_pane), (0, COutput demo_pane 11 None), (0, demo_beat), (0, demo_beat)]
      (fst (activity_exec no_uni 10 demo_beat demo_tracker)))) demo_pane = Some e' \<and> \<not> attention_status (pa_status e')"
proof -
  obtain t' effects where x: "activity_exec no_uni 10 demo_beat demo_tracker = (t', effects)" by fastforce
  obtain e' where e': "at_panes t' demo_pane = Some e'" using demo_beat_completes by (auto simp: x simp del: activity_exec.simps)
  have "map_option pa_history_ts (at_panes (fst (activity_exec no_uni 10 demo_beat demo_tracker)) demo_pane) = Some (Some 9)"
    by (simp add: demo_beat_defs)
  then have ts: "pa_history_ts e' = Some 9" using e' by (simp add: x del: activity_exec.simps)
  have "repeats_turn no_uni demo_pane 9 demo_beat"
    by (simp add: demo_beat_def known_label_def claude_known tail_waiting_def demo_turn_def)
  then show ?thesis
    using acknowledged_stays_cleared [OF e' ts, of "[(0, COutput demo_pane 11 None), (0, demo_beat), (0, demo_beat)]" no_uni 0]
    by (simp add: x del: activity_exec.simps activity_run.simps)
qed


end
