(* ===== verification/Agent_History.thy ===== *)
theory Agent_History
  imports Agent_Detect Json_Value Session_Images
begin

text \<open>
  \<open>crates/athena-core/src/agent_detection.rs\<close>, the readers of the agents' own history files: the last prompt of
  Claude, Codex, Qwen and Aider, the session of OMP with its lifecycle, the cache in front of them, and the search for the
  newest file. \<open>js\<close> is \<open>serde_json::from_str\<close>, \<open>canon\<close> is \<open>canonicalize\<close>; a file is its bytes and
  its time of modification as the call finds them.
\<close>

section \<open>Values\<close>

definition j_str :: "string \<Rightarrow> 'n jvalue \<Rightarrow> bytes option" where
  "j_str key v = map_option utf8_string (Option.bind (j_get key v) v_as_str)"

definition is_valid_prompt :: "bytes \<Rightarrow> bool" where
  "is_valid_prompt display =
    (let trimmed = str_trim display in
     if trimmed = [] then False
     else if starts_with (bytes_of ''/'') trimmed then False
     else if starts_with (bytes_of ''['') trimmed \<and> (contains_sub (bytes_of ''Pasted'') trimmed \<or> contains_sub (bytes_of ''Image'') trimmed) then False
     else 5 \<le> length (utf8_chars trimmed))"

section \<open>The last prompt\<close>

text \<open>One line of the histories of Claude and Codex, which differ in the names of the fields.\<close>

definition prompt_entry ::
  "(bytes \<Rightarrow> 'n jvalue option) \<Rightarrow> 'n num_ops \<Rightarrow> string \<Rightarrow> string \<Rightarrow> string \<Rightarrow> bytes \<Rightarrow> history_snapshot option" where
  "prompt_entry js no text_field session_field time_field line =
    (case js line of
       None \<Rightarrow> None
     | Some json \<Rightarrow>
         (case j_str text_field json of
            None \<Rightarrow> None
          | Some display0 \<Rightarrow>
              let display = str_trim display0 in
              if \<not> is_valid_prompt display then None
              else (case j_str session_field json of
                      None \<Rightarrow> None
                    | Some session_id \<Rightarrow>
                        (case Option.bind (j_get time_field json) (v_as_u64 no) of
                           None \<Rightarrow> None
                         | Some timestamp \<Rightarrow>
                             Some \<lparr>hs_task_title = display, hs_session_id = session_id, hs_timestamp_ms = timestamp,
                                   hs_raw_prompt = display, hs_activity = None\<rparr>))))"

definition parse_claude_history :: "(bytes \<Rightarrow> 'n jvalue option) \<Rightarrow> 'n num_ops \<Rightarrow> bytes \<Rightarrow> nat \<Rightarrow> history_snapshot option" where
  "parse_claude_history js no content mtime_ms =
    first_some (prompt_entry js no ''display'' ''sessionId'' ''timestamp'') (rev (str_lines content))"

definition parse_codex_history :: "(bytes \<Rightarrow> 'n jvalue option) \<Rightarrow> 'n num_ops \<Rightarrow> bytes \<Rightarrow> nat \<Rightarrow> history_snapshot option" where
  "parse_codex_history js no content mtime_ms = first_some (prompt_entry js no ''text'' ''session_id'' ''ts'') (rev (str_lines content))"

definition qwen_text :: "'n jvalue \<Rightarrow> bytes option" where
  "qwen_text json =
    (case j_str ''content'' json of
       Some s \<Rightarrow> Some s
     | None \<Rightarrow>
         (case Option.bind (j_get ''content'' json) v_as_array of
            Some (v # vs) \<Rightarrow> j_str ''text'' v
          | _ \<Rightarrow> None))"

definition qwen_entry :: "(bytes \<Rightarrow> 'n jvalue option) \<Rightarrow> nat \<Rightarrow> bytes \<Rightarrow> history_snapshot option" where
  "qwen_entry js mtime line =
    (case js line of
       None \<Rightarrow> None
     | Some json \<Rightarrow>
         if j_str ''role'' json \<noteq> Some (bytes_of ''user'') then None
         else (case qwen_text json of
                 None \<Rightarrow> None
               | Some text0 \<Rightarrow>
                   let prompt = str_trim text0 in
                   if \<not> is_valid_prompt prompt then None
                   else Some \<lparr>hs_task_title = prompt,
                     hs_session_id = (case j_str ''session_id'' json of Some s \<Rightarrow> s | None \<Rightarrow> bytes_of ''qwen-'' @ dec mtime),
                     hs_timestamp_ms = mtime, hs_raw_prompt = prompt, hs_activity = None\<rparr>))"

definition parse_qwen_history :: "(bytes \<Rightarrow> 'n jvalue option) \<Rightarrow> bytes \<Rightarrow> nat \<Rightarrow> history_snapshot option" where
  "parse_qwen_history js content mtime = first_some (qwen_entry js mtime) (rev (str_lines content))"

definition aider_entry :: "nat \<Rightarrow> bytes \<Rightarrow> history_snapshot option" where
  "aider_entry mtime line =
    (let prefix0 = bytes_of ''#### user: '' in
     if \<not> starts_with prefix0 line then None
     else (let prompt = str_trim (drop (length prefix0) line) in
           if \<not> is_valid_prompt prompt then None
           else Some \<lparr>hs_task_title = prompt, hs_session_id = bytes_of ''aider-'' @ dec mtime, hs_timestamp_ms = mtime,
                      hs_raw_prompt = prompt, hs_activity = None\<rparr>))"

definition parse_aider_history :: "bytes \<Rightarrow> nat \<Rightarrow> history_snapshot option" where
  "parse_aider_history content mtime = first_some (aider_entry mtime) (rev (str_lines content))"

section \<open>The cache\<close>

type_synonym history_cache = "bytes \<rightharpoonup> nat \<times> nat \<times> history_snapshot option"

text \<open>\<open>meta\<close> is the time of modification and the length when the metadata can be read, \<open>content\<close> the text when it can.\<close>

definition cached_history_scrape ::
  "(bytes \<Rightarrow> nat \<Rightarrow> history_snapshot option) \<Rightarrow> bytes \<Rightarrow> (nat \<times> nat) option \<Rightarrow> bytes option \<Rightarrow> history_cache \<Rightarrow>
    history_cache \<times> history_snapshot option" where
  "cached_history_scrape parse path meta content cache =
    (case meta of
       None \<Rightarrow> (cache, None)
     | Some (mtime_ms, len) \<Rightarrow>
         let miss = (case content of
               None \<Rightarrow> (cache, None)
             | Some text0 \<Rightarrow> let snapshot = parse text0 mtime_ms in (cache(path \<mapsto> (mtime_ms, len, snapshot)), snapshot))
         in case cache path of
              Some (m, l, snapshot) \<Rightarrow> if m = mtime_ms \<and> l = len then (cache, snapshot) else miss
            | None \<Rightarrow> miss)"

text \<open>The newest of a list of files by time of modification; a file without one is passed over.\<close>

definition newer :: "bytes \<times> nat option \<Rightarrow> (bytes \<times> nat) option \<Rightarrow> (bytes \<times> nat) option" where
  "newer file newest =
    (case file of
       (p, None) \<Rightarrow> newest
     | (p, Some m) \<Rightarrow> (case newest of Some (q, n) \<Rightarrow> if n < m then Some (p, m) else newest | None \<Rightarrow> Some (p, m)))"

definition newest_file :: "(bytes \<times> nat option) list \<Rightarrow> (bytes \<times> nat) option" where
  "newest_file files = fold newer files None"

text \<open>What the readers see of the file system.\<close>

record history_files =
  hf_home :: "bytes option"
  hf_read_dir :: "bytes \<Rightarrow> bytes list option"
  hf_is_dir :: "bytes \<Rightarrow> bool"
  hf_bytes :: "bytes \<Rightarrow> bytes option"
  hf_mtime :: "bytes \<Rightarrow> nat option"

definition join_path :: "bytes \<Rightarrow> bytes \<Rightarrow> bytes" where
  "join_path p q = p @ bytes_of ''/'' @ q"

definition file_scrape ::
  "(bytes \<Rightarrow> nat \<Rightarrow> history_snapshot option) \<Rightarrow> history_files \<Rightarrow> bytes \<Rightarrow> history_cache \<Rightarrow> history_cache \<times> history_snapshot option" where
  "file_scrape parse hf path cache =
    cached_history_scrape parse path
      (map_option (\<lambda>b. (case hf_mtime hf path of Some m \<Rightarrow> m | None \<Rightarrow> 0, length b)) (hf_bytes hf path))
      (case hf_bytes hf path of Some b \<Rightarrow> if utf8_valid b then Some b else None | None \<Rightarrow> None) cache"

definition qwen_files :: "history_files \<Rightarrow> bytes \<Rightarrow> (bytes \<times> nat option) list" where
  "qwen_files hf projects =
    concat (map (\<lambda>dir. if hf_is_dir hf dir
                       then (case hf_read_dir hf (join_path dir (bytes_of ''chats'')) of
                               Some chats \<Rightarrow> map (\<lambda>p. (p, hf_mtime hf p)) chats | None \<Rightarrow> [])
                       else [])
      (case hf_read_dir hf projects of Some entries \<Rightarrow> entries | None \<Rightarrow> []))"

definition run_probe ::
  "(bytes \<Rightarrow> 'n jvalue option) \<Rightarrow> 'n num_ops \<Rightarrow> history_files \<Rightarrow> history_probe \<Rightarrow> history_cache \<Rightarrow> history_cache \<times> history_snapshot option" where
  "run_probe js no hf probe cache =
    (case hf_home hf of
       None \<Rightarrow> (cache, None)
     | Some home \<Rightarrow>
         (case probe of
            ProbeClaude \<Rightarrow> file_scrape (parse_claude_history js no) hf (join_path home (bytes_of ''.claude/history.jsonl'')) cache
          | ProbeCodex \<Rightarrow> file_scrape (parse_codex_history js no) hf (join_path home (bytes_of ''.codex/history.jsonl'')) cache
          | ProbeAider \<Rightarrow> file_scrape parse_aider_history hf (join_path home (bytes_of ''.aider/.aider.chat.history.md'')) cache
          | ProbeQwen \<Rightarrow>
              (case newest_file (qwen_files hf (join_path home (bytes_of ''.qwen/projects''))) of
                 None \<Rightarrow> (cache, None)
               | Some (path, m) \<Rightarrow> file_scrape (parse_qwen_history js) hf path cache)))"

definition scrape_agent_history ::
  "(bytes \<Rightarrow> 'n jvalue option) \<Rightarrow> 'n num_ops \<Rightarrow> history_files \<Rightarrow> bytes \<Rightarrow> history_cache \<Rightarrow> history_cache \<times> history_snapshot option" where
  "scrape_agent_history js no hf agent_key cache =
    (case Option.bind (agent_spec_of agent_key) as_probe of None \<Rightarrow> (cache, None) | Some probe \<Rightarrow> run_probe js no hf probe cache)"

section \<open>OMP\<close>

definition OMP_SESSION_TAIL_BYTES :: nat where
  "OMP_SESSION_TAIL_BYTES = 128 * 1024"

definition OMP_SESSION_PREFIX_BYTES :: nat where
  "OMP_SESSION_PREFIX_BYTES = 16 * 1024"

definition read_file_window :: "bytes \<Rightarrow> nat \<Rightarrow> nat \<Rightarrow> bytes" where
  "read_file_window file offset max_bytes = utf8_lossy (take max_bytes (drop (min offset (length file)) file))"

definition json_message_text :: "'n jvalue \<Rightarrow> bytes option" where
  "json_message_text message =
    (case j_get ''content'' message of
       None \<Rightarrow> None
     | Some content \<Rightarrow>
         (case v_as_str content of
            Some s \<Rightarrow> Some (str_trim (utf8_string s))
          | None \<Rightarrow> map_option (\<lambda>blocks. str_trim (concat (List.map_filter (j_str ''text'') blocks))) (v_as_array content)))"

definition message_contains_tool_call :: "'n jvalue \<Rightarrow> bool" where
  "message_contains_tool_call message =
    (case Option.bind (j_get ''content'' message) v_as_array of
       None \<Rightarrow> False
     | Some blocks \<Rightarrow> list_ex (\<lambda>block. j_str ''type'' block \<in> {Some (bytes_of ''toolCall''), Some (bytes_of ''tool_use'')}) blocks)"

record omp_state =
  om_session_id :: "bytes option"
  om_title :: "bytes option"
  om_prompt :: "bytes option"
  om_activity :: "agent_history_status option"

definition omp_message :: "'n jvalue \<Rightarrow> omp_state \<Rightarrow> omp_state" where
  "omp_message message st =
    (let role = j_str ''role'' message in
     if role = Some (bytes_of ''user'') then
       (let st1 = (case json_message_text message of
              Some s \<Rightarrow> if is_valid_prompt s then st\<lparr>om_prompt := Some s\<rparr> else st
            | None \<Rightarrow> st)
        in st1\<lparr>om_activity := Some HsWorking\<rparr>)
     else if role = Some (bytes_of ''assistant'') then
       st\<lparr>om_activity :=
         (if j_str ''stopReason'' message = Some (bytes_of ''error'') then Some HsError
          else if message_contains_tool_call message then Some HsWorking
          else Some HsCompleted)\<rparr>
     else if role = Some (bytes_of ''toolResult'') then st\<lparr>om_activity := Some HsWorking\<rparr>
     else st)"

definition omp_entry :: "'n jvalue \<Rightarrow> omp_state \<Rightarrow> omp_state" where
  "omp_entry entry st =
    (let kind = j_str ''type'' entry in
     if kind = Some (bytes_of ''session'') then st\<lparr>om_session_id := j_str ''id'' entry, om_title := j_str ''title'' entry\<rparr>
     else if kind = Some (bytes_of ''message'') then (case j_get ''message'' entry of Some message \<Rightarrow> omp_message message st | None \<Rightarrow> st)
     else if kind = Some (bytes_of ''custom'') \<and> j_str ''customType'' entry = Some (bytes_of ''tool_execution_start'')
       then st\<lparr>om_activity := Some HsWorking\<rparr>
     else if kind = Some (bytes_of ''session_exit'')
       then st\<lparr>om_activity := (if om_activity st = Some HsCompleted then Some HsCompleted else Some HsError)\<rparr>
     else st)"

definition omp_line :: "(bytes \<Rightarrow> 'n jvalue option) \<Rightarrow> bytes \<Rightarrow> omp_state \<Rightarrow> omp_state" where
  "omp_line js line st = (case js line of Some entry \<Rightarrow> omp_entry entry st | None \<Rightarrow> st)"

definition omp_start :: omp_state where
  "omp_start = \<lparr>om_session_id = None, om_title = None, om_prompt = None, om_activity = None\<rparr>"

definition parse_omp_session :: "(bytes \<Rightarrow> 'n jvalue option) \<Rightarrow> bytes \<Rightarrow> nat \<Rightarrow> history_snapshot option" where
  "parse_omp_session js content mtime_ms =
    (let st = fold (omp_line js) (str_lines content) omp_start in
     case om_session_id st of
       None \<Rightarrow> None
     | Some session_id \<Rightarrow>
         Some \<lparr>hs_task_title = (case om_prompt st of
                 Some s \<Rightarrow> s
               | None \<Rightarrow> (case om_title st of Some s \<Rightarrow> s | None \<Rightarrow> bytes_of ''OMP session'')),
               hs_session_id = session_id, hs_timestamp_ms = mtime_ms,
               hs_raw_prompt = (case om_prompt st of Some s \<Rightarrow> s | None \<Rightarrow> []), hs_activity = om_activity st\<rparr>)"

text \<open>Equality of paths compares components.\<close>

definition path_eq :: "bytes \<Rightarrow> bytes \<Rightarrow> bool" where
  "path_eq a b \<longleftrightarrow>
    starts_with (bytes_of ''/'') a = starts_with (bytes_of ''/'') b \<and> (hd (split_on 0x2F a) = bytes_of ''.'') = (hd (split_on 0x2F b) = bytes_of ''.'') \<and>
    path_names a = path_names b"

definition omp_header_matches :: "(bytes \<Rightarrow> 'n jvalue option) \<Rightarrow> (bytes \<Rightarrow> bytes option) \<Rightarrow> bytes \<Rightarrow> bytes \<Rightarrow> bool" where
  "omp_header_matches js canon prefix0 cwd =
    (let expected = (case canon cwd of Some p \<Rightarrow> p | None \<Rightarrow> cwd)
     in list_ex (\<lambda>line.
          case js line of
            None \<Rightarrow> False
          | Some entry \<Rightarrow>
              if j_str ''type'' entry \<noteq> Some (bytes_of ''session'') then False
              else (case j_str ''cwd'' entry of
                      None \<Rightarrow> False
                    | Some recorded \<Rightarrow> (case canon recorded of Some path \<Rightarrow> path_eq path expected | None \<Rightarrow> path_eq expected recorded)))
        (str_lines prefix0))"

definition parse_omp_session_file ::
  "(bytes \<Rightarrow> 'n jvalue option) \<Rightarrow> (bytes \<Rightarrow> bytes option) \<Rightarrow> history_files \<Rightarrow> bytes \<Rightarrow> bytes \<Rightarrow> history_snapshot option" where
  "parse_omp_session_file js canon hf path cwd =
    (case hf_bytes hf path of
       None \<Rightarrow> None
     | Some file \<Rightarrow>
         let prefix0 = read_file_window file 0 OMP_SESSION_PREFIX_BYTES in
         if \<not> omp_header_matches js canon prefix0 cwd then None
         else parse_omp_session js
                (prefix0 @ [0x0A] @ read_file_window file (length file - OMP_SESSION_TAIL_BYTES) OMP_SESSION_TAIL_BYTES)
                (case hf_mtime hf path of Some m \<Rightarrow> m | None \<Rightarrow> 0))"

definition omp_breadcrumb_session_path :: "history_files \<Rightarrow> bytes \<Rightarrow> bytes option" where
  "omp_breadcrumb_session_path hf tty_path =
    (if \<not> starts_with (bytes_of ''/dev/'') tty_path then None
     else map_option (\<lambda>home. join_path (join_path home (bytes_of ''.omp/agent/terminal-sessions''))
            (map (\<lambda>b. if b = 0x2F then 0x2D else b) (drop 5 tty_path))) (hf_home hf))"

definition omp_candidates ::
  "(bytes \<Rightarrow> 'n jvalue option) \<Rightarrow> (bytes \<Rightarrow> bytes option) \<Rightarrow> history_files \<Rightarrow> bytes \<Rightarrow> bytes list \<Rightarrow> (bytes \<times> nat option) list" where
  "omp_candidates js canon hf cwd buckets =
    concat (map (\<lambda>bucket.
      if \<not> hf_is_dir hf bucket then []
      else (case hf_read_dir hf bucket of
              None \<Rightarrow> []
            | Some entries \<Rightarrow>
                List.map_filter (\<lambda>path.
                  if Option.bind (file_name_of path) name_extension \<noteq> Some (bytes_of ''jsonl'') then None
                  else (case hf_bytes hf path of
                          None \<Rightarrow> None
                        | Some file \<Rightarrow>
                            if omp_header_matches js canon (read_file_window file 0 OMP_SESSION_PREFIX_BYTES) cwd
                            then Some (path, Some (case hf_mtime hf path of Some m \<Rightarrow> m | None \<Rightarrow> 0)) else None)) entries)) buckets)"

definition scrape_omp_history ::
  "(bytes \<Rightarrow> 'n jvalue option) \<Rightarrow> (bytes \<Rightarrow> bytes option) \<Rightarrow> history_files \<Rightarrow> bytes \<Rightarrow> history_snapshot option" where
  "scrape_omp_history js canon hf cwd =
    (case Option.bind (hf_home hf) (\<lambda>home. hf_read_dir hf (join_path home (bytes_of ''.omp/agent/sessions''))) of
       None \<Rightarrow> None
     | Some buckets \<Rightarrow>
         (case newest_file (omp_candidates js canon hf cwd buckets) of
            None \<Rightarrow> None
          | Some (path, m) \<Rightarrow> parse_omp_session_file js canon hf path cwd))"

definition omp_breadcrumb ::
  "(bytes \<Rightarrow> 'n jvalue option) \<Rightarrow> (bytes \<Rightarrow> bytes option) \<Rightarrow> history_files \<Rightarrow> bytes \<Rightarrow> bytes option \<Rightarrow> history_snapshot option" where
  "omp_breadcrumb js canon hf cwd tty_path =
    (case Option.bind (Option.bind tty_path (omp_breadcrumb_session_path hf)) (hf_bytes hf) of
       None \<Rightarrow> None
     | Some crumbs \<Rightarrow>
         if utf8_valid crumbs \<and> 1 < length (str_lines crumbs)
         then parse_omp_session_file js canon hf (str_lines crumbs ! 1) cwd else None)"

definition scrape_agent_history_for_cwd ::
  "(bytes \<Rightarrow> 'n jvalue option) \<Rightarrow> 'n num_ops \<Rightarrow> (bytes \<Rightarrow> bytes option) \<Rightarrow> history_files \<Rightarrow> bytes \<Rightarrow> bytes \<Rightarrow> bytes option \<Rightarrow>
    history_cache \<Rightarrow> history_cache \<times> history_snapshot option" where
  "scrape_agent_history_for_cwd js no canon hf agent_key cwd tty_path cache =
    (if agent_key = bytes_of ''omp''
     then (cache, case omp_breadcrumb js canon hf cwd tty_path of Some snapshot \<Rightarrow> Some snapshot | None \<Rightarrow> scrape_omp_history js canon hf cwd)
     else scrape_agent_history js no hf agent_key cache)"

end
