(* ===== verification/History_Props.thy ===== *)
theory History_Props
  imports Agent_History
begin

text \<open>
  Reading the histories of agents: a line that is being written hides nothing, the cache answers as a fresh reading
  would, the newest file is the newest, and reading the head of an OMP session twice does no harm.
\<close>

section \<open>Lines\<close>

lemma split_on_append:
  "sep \<notin> set junk \<Longrightarrow> split_on sep (s @ sep # junk) = split_on sep s @ [junk]"
proof (induction s)
  case Nil
  have "split_on sep junk = [junk]" using Nil by (induction junk) auto
  then show ?case by simp
next
  case (Cons b s)
  then show ?case by (cases "split_on sep s") auto
qed

lemma str_lines_torn:
  assumes "s = [] \<or> last s = 0x0A" "0x0A \<notin> set junk"
  shows "str_lines (s @ junk) = str_lines s @ (if junk = [] then [] else [junk])"
proof (cases "s = []")
  case True
  have "split_on 0x0A junk = [junk]" using assms(2) by (induction junk) auto
  then show ?thesis using True by (simp add: str_lines_def)
next
  case False
  then obtain r where s: "s = r @ [0x0A]" using assms(1) by (metis append_butlast_last_id)
  have "split_on 0x0A (s @ junk) = split_on 0x0A r @ [junk]" using split_on_append [OF assms(2), of r] by (simp add: s)
  moreover have "split_on 0x0A s = split_on 0x0A r @ [[]]" using split_on_append [of "0x0A :: u8" "[]" r] by (simp add: s)
  ultimately show ?thesis by (simp add: str_lines_def)
qed

text \<open>
  A record that the agent is just writing hides nothing: with an unfinished last line, which is not valid JSON, the last prompt
  is the one that is found without it.
\<close>

theorem torn_line_hides_nothing:
  assumes "content = [] \<or> last content = 0x0A" "0x0A \<notin> set junk" "js junk = None"
  shows "parse_claude_history js no (content @ junk) m = parse_claude_history js no content m"
    and "parse_codex_history js no (content @ junk) m = parse_codex_history js no content m"
    and "parse_qwen_history js (content @ junk) m = parse_qwen_history js content m"
  using assms(3) str_lines_torn [OF assms(1,2)]
  by (simp_all add: parse_claude_history_def parse_codex_history_def parse_qwen_history_def prompt_entry_def qwen_entry_def)

section \<open>The cache\<close>

text \<open>A reading: the file, its time of modification, its length, and its text.\<close>

type_synonym reading = "bytes \<times> nat \<times> nat \<times> bytes"

fun scrape_all :: "(bytes \<Rightarrow> bytes \<Rightarrow> nat \<Rightarrow> history_snapshot option) \<Rightarrow> reading list \<Rightarrow> history_cache \<Rightarrow> history_snapshot option list" where
  "scrape_all parser [] cache = []"
| "scrape_all parser ((path, m, l, s) # readings) cache =
    (case cached_history_scrape (parser path) path (Some (m, l)) (Some s) cache of
       (cache1, snapshot) \<Rightarrow> snapshot # scrape_all parser readings cache1)"

definition cache_true :: "(bytes \<Rightarrow> bytes \<Rightarrow> nat \<Rightarrow> history_snapshot option) \<Rightarrow> (bytes \<Rightarrow> nat \<Rightarrow> nat \<Rightarrow> bytes) \<Rightarrow> history_cache \<Rightarrow> bool" where
  "cache_true parser version cache \<longleftrightarrow>
    (\<forall>path m l snapshot. cache path = Some (m, l, snapshot) \<longrightarrow> snapshot = parser path (version path m l) m)"

lemma scrape_true:
  assumes "cache_true parser version cache" "s = version path m l"
    "cached_history_scrape (parser path) path (Some (m, l)) (Some s) cache = (cache1, snapshot)"
  shows "snapshot = parser path s m \<and> cache_true parser version cache1"
  using assms by (auto simp: cached_history_scrape_def cache_true_def Let_def split: option.splits if_splits)

lemma scrape_all_true:
  assumes "\<forall>(path, m, l, s) \<in> set readings. s = version path m l"
  shows "cache_true parser version cache \<Longrightarrow> scrape_all parser readings cache = map (\<lambda>(path, m, l, s). parser path s m) readings"
  using assms
proof (induction readings arbitrary: cache)
  case (Cons r readings)
  obtain path m l s where r: "r = (path, m, l, s)" by (metis prod_cases4)
  obtain cache1 snapshot where c: "cached_history_scrape (parser path) path (Some (m, l)) (Some s) cache = (cache1, snapshot)" by fastforce
  have s: "s = version path m l" using Cons.prems(2) by (simp add: r)
  show ?case using scrape_true [OF Cons.prems(1) s c] Cons.IH [of cache1] Cons.prems(2) by (simp add: r c [unfolded s] s)
qed simp

text \<open>
  The cache of histories is transparent: in any sequence of readings of any files, in which a file that has the same time of
  modification and the same length as before has the same text, every answer is what parsing the text again would give,
  also for texts in which nothing is found.
\<close>

theorem history_cache_transparent:
  assumes "\<forall>(path, m, l, s) \<in> set readings. s = version path m l"
  shows "scrape_all parser readings Map.empty = map (\<lambda>(path, m, l, s). parser path s m) readings"
  by (rule scrape_all_true [OF assms]) (simp add: cache_true_def)

theorem history_cache_transparent_witness:
  "scrape_all (\<lambda>path. parse_aider_history)
     [(bytes_of ''f'', 1, 0, []), (bytes_of ''f'', 1, 0, []), (bytes_of ''f'', 2, 3, bytes_of ''abc'')] Map.empty =
   [parse_aider_history [] 1, parse_aider_history [] 1, parse_aider_history (bytes_of ''abc'') 2]"
  using history_cache_transparent [of "[(bytes_of ''f'', 1, 0, []), (bytes_of ''f'', 1, 0, []), (bytes_of ''f'', 2, 3, bytes_of ''abc'')]"
      "\<lambda>path m l. if m = 1 then [] else bytes_of ''abc''" "\<lambda>path. parse_aider_history"]
  by simp

section \<open>The newest file\<close>

lemma fold_newer:
  "case fold newer files start of
     None \<Rightarrow> start = None \<and> (\<forall>(p, m) \<in> set files. m = None)
   | Some (p, m) \<Rightarrow> (start = Some (p, m) \<or> (p, Some m) \<in> set files) \<and> (\<forall>q n. start = Some (q, n) \<or> (q, Some n) \<in> set files \<longrightarrow> n \<le> m)"
proof (induction files arbitrary: start)
  case Nil
  then show ?case by (auto split: option.split)
next
  case (Cons f files)
  obtain p mo where f: "f = (p, mo)" by fastforce
  show ?case using Cons.IH [of "newer f start"]
    by (cases mo; cases start) (auto simp: f newer_def split: option.splits if_splits; force)+
qed

theorem newest_is_newest:
  "newest_file files = Some (p, m) \<Longrightarrow> (p, Some m) \<in> set files \<and> (\<forall>q n. (q, Some n) \<in> set files \<longrightarrow> n \<le> m)"
  using fold_newer [where files = files and start = None] by (simp add: newest_file_def)

section \<open>The head of an OMP session is read twice\<close>

lemma split_on_join: "split_on sep (s @ sep # r) = split_on sep s @ split_on sep r"
proof (induction s)
  case (Cons b s)
  then show ?case by (cases "split_on sep s") auto
qed simp

lemma str_lines_join: "str_lines (s @ 0x0A # r) = map chop_cr (split_on 0x0A s) @ str_lines r"
  by (simp add: str_lines_def Let_def split_on_join butlast_append)

lemma fold_overwrite:
  assumes "\<And>l s. P (f l s) = (case u l of Some v \<Rightarrow> v | None \<Rightarrow> P s)"
  shows "\<forall>l \<in> set ws. u l = None \<Longrightarrow> P (fold f ws s) = P s"
    and "\<exists>l \<in> set ws. u l \<noteq> None \<Longrightarrow> P (fold f ws s) = P (fold f ws s')"
proof -
  show keep: "\<forall>l \<in> set ws. u l = None \<Longrightarrow> P (fold f ws s) = P s" for ws s
    by (induction ws arbitrary: s) (simp_all add: assms)
  have same: "P s = P s' \<Longrightarrow> P (fold f ws s) = P (fold f ws s')" for ws s s'
    by (induction ws arbitrary: s s') (simp_all add: assms split: option.split)
  show "\<exists>l \<in> set ws. u l \<noteq> None \<Longrightarrow> P (fold f ws s) = P (fold f ws s')"
  proof (induction ws arbitrary: s s')
    case (Cons l ws)
    show ?case
    proof (cases "u l")
      case None
      then show ?thesis using Cons by simp
    next
      case (Some v)
      then have "P (f l s) = P (f l s')" by (simp add: assms)
      then show ?thesis using same [of "f l s" "f l s'" ws] by simp
    qed
  qed simp
qed

definition session_line :: "(bytes \<Rightarrow> 'n jvalue option) \<Rightarrow> bytes \<Rightarrow> (bytes option \<times> bytes option) option" where
  "session_line js l =
    (case js l of
       Some entry \<Rightarrow> if j_str ''type'' entry = Some (bytes_of ''session'') then Some (j_str ''id'' entry, j_str ''title'' entry) else None
     | None \<Rightarrow> None)"

definition prompt_line :: "(bytes \<Rightarrow> 'n jvalue option) \<Rightarrow> bytes \<Rightarrow> bytes option option" where
  "prompt_line js l = (let p = om_prompt (omp_line js l omp_start) in if p = None then None else Some p)"

definition activity_step :: "(bytes \<Rightarrow> 'n jvalue option) \<Rightarrow> bytes \<Rightarrow> agent_history_status option \<Rightarrow> agent_history_status option" where
  "activity_step js l a = om_activity (omp_line js l (omp_start\<lparr>om_activity := a\<rparr>))"

lemma omp_message_session:
  "om_session_id (omp_message m st) = om_session_id st" "om_title (omp_message m st) = om_title st"
  by (simp_all add: omp_message_def Let_def split: option.split)

lemma omp_message_prompt:
  "om_prompt (omp_message m st) = (if om_prompt (omp_message m omp_start) = None then om_prompt st else om_prompt (omp_message m omp_start))"
  by (simp add: omp_message_def omp_start_def Let_def split: option.split)

lemma omp_message_activity: "om_activity (omp_message m st) = om_activity (omp_message m (omp_start\<lparr>om_activity := om_activity st\<rparr>))"
  by (simp add: omp_message_def Let_def split: option.split)

lemma omp_line_session:
  "(om_session_id (omp_line js l st), om_title (omp_line js l st)) =
    (case session_line js l of Some v \<Rightarrow> v | None \<Rightarrow> (om_session_id st, om_title st))"
  by (simp add: omp_line_def omp_entry_def session_line_def omp_message_session Let_def split: option.split)

lemma omp_line_prompt: "om_prompt (omp_line js l st) = (case prompt_line js l of Some v \<Rightarrow> v | None \<Rightarrow> om_prompt st)"
proof (cases "js l")
  case (Some entry)
  then show ?thesis
    by (cases "j_get ''message'' entry") (auto simp: omp_line_def omp_entry_def prompt_line_def Let_def omp_message_prompt [of _ st], simp_all add: omp_start_def)
qed (simp add: omp_line_def prompt_line_def omp_start_def)

lemma omp_line_activity: "om_activity (omp_line js l st) = activity_step js l (om_activity st)"
proof (cases "js l")
  case (Some entry)
  then show ?thesis
    by (cases "j_get ''message'' entry") (simp_all add: omp_line_def omp_entry_def activity_step_def Let_def omp_message_activity [of _ st])
qed (simp add: omp_line_def activity_step_def)

lemma fold_activity: "om_activity (fold (omp_line js) ws st) = fold (activity_step js) ws (om_activity st)"
  by (induction ws arbitrary: st) (simp_all add: omp_line_activity)

lemma omp_message_cases:
  "(\<forall>a. om_activity (omp_message m (omp_start\<lparr>om_activity := a\<rparr>)) = a) \<or>
   (\<exists>v. \<forall>a. om_activity (omp_message m (omp_start\<lparr>om_activity := a\<rparr>)) = Some v)"
proof -
  consider "j_str ''role'' m = Some (bytes_of ''user'')" | "j_str ''role'' m \<noteq> Some (bytes_of ''user'')" "j_str ''role'' m = Some (bytes_of ''assistant'')"
    | "j_str ''role'' m \<noteq> Some (bytes_of ''user'')" "j_str ''role'' m \<noteq> Some (bytes_of ''assistant'')" by blast
  then show ?thesis by cases (simp_all add: omp_message_def Let_def)
qed

lemma activity_step_shape:
  "(\<forall>a. activity_step js l a = a) \<or> (\<exists>v. \<forall>a. activity_step js l a = Some v) \<or>
   (\<forall>a. activity_step js l a = (if a = Some HsCompleted then Some HsCompleted else Some HsError))"
proof (cases "js l")
  case (Some entry)
  show ?thesis
  proof (cases "j_str ''type'' entry = Some (bytes_of ''message'') \<and> j_str ''type'' entry \<noteq> Some (bytes_of ''session'')")
    case True
    then show ?thesis using omp_message_cases Some
      by (cases "j_get ''message'' entry") (auto simp: activity_step_def omp_line_def omp_entry_def Let_def)
  next
    case False
    then show ?thesis using Some by (auto simp: activity_step_def omp_line_def omp_entry_def Let_def)
  qed
qed (simp add: activity_step_def omp_line_def)

lemma activity_step_cases:
  "activity_step js l None = None \<Longrightarrow> activity_step js l a = a"
  "activity_step js l None = activity_step js l (Some HsCompleted) \<Longrightarrow> activity_step js l None \<noteq> None \<Longrightarrow> activity_step js l a = activity_step js l None"
  using activity_step_shape [of js l] by force+

text \<open>The first line that says something about the activity is not the exit of the session.\<close>

definition starts_known :: "(bytes \<Rightarrow> 'n jvalue option) \<Rightarrow> bytes list \<Rightarrow> bool" where
  "starts_known js ws =
    (case filter (\<lambda>l. activity_step js l None \<noteq> None) ws of
       [] \<Rightarrow> True
     | l # ls \<Rightarrow> activity_step js l None = activity_step js l (Some HsCompleted))"

lemma activity_known:
  "starts_known js ws \<Longrightarrow>
    fold (activity_step js) ws a = fold (activity_step js) ws b \<or> (\<forall>l \<in> set ws. activity_step js l None = None)"
proof (induction ws arbitrary: a b)
  case (Cons l ws)
  show ?case
  proof (cases "activity_step js l None = None")
    case True
    then show ?thesis using Cons activity_step_cases(1) [OF True] by (simp add: starts_known_def)
  next
    case False
    then have "activity_step js l None = activity_step js l (Some HsCompleted)" using Cons.prems by (simp add: starts_known_def)
    then have "activity_step js l a = activity_step js l b" using activity_step_cases(2) [OF _ False] by metis
    then show ?thesis by simp
  qed
qed simp

lemma activity_untouched: "\<forall>l \<in> set ws. activity_step js l None = None \<Longrightarrow> fold (activity_step js) ws a = a"
  by (induction ws arbitrary: a) (simp_all add: activity_step_cases(1))

lemma omp_state_eqI:
  "(om_session_id s, om_title s) = (om_session_id t, om_title t) \<Longrightarrow> om_prompt s = om_prompt t \<Longrightarrow> om_activity s = om_activity t \<Longrightarrow> s = (t :: omp_state)"
  by simp

lemma omp_replay:
  assumes sub: "\<forall>l \<in> set ps. l \<in> set ws \<or> js l = None" and k: "starts_known js ws"
  shows "fold (omp_line js) ws (fold (omp_line js) ps omp_start) = fold (omp_line js) ws omp_start"
proof (rule omp_state_eqI)
  let ?p = "fold (omp_line js) ps omp_start"
  have none: "session_line js l = None" "prompt_line js l = None" "activity_step js l None = None" if "js l = None" for l
    using that by (simp_all add: session_line_def prompt_line_def activity_step_def omp_line_def omp_start_def)
  note s = fold_overwrite [where P = "\<lambda>s. (om_session_id s, om_title s)" and f = "omp_line js" and u = "session_line js", OF omp_line_session]
  note p = fold_overwrite [where P = om_prompt and f = "omp_line js" and u = "prompt_line js", OF omp_line_prompt]
  show "(om_session_id (fold (omp_line js) ws ?p), om_title (fold (omp_line js) ws ?p)) =
      (om_session_id (fold (omp_line js) ws omp_start), om_title (fold (omp_line js) ws omp_start))"
  proof (cases "\<forall>l \<in> set ws. session_line js l = None")
    case True
    then have "\<forall>l \<in> set ps. session_line js l = None" using sub none by metis
    then show ?thesis using s(1) [OF True] s(1) [of ps omp_start] by simp
  next
    case False
    then show ?thesis using s(2) [of ws ?p omp_start] by simp
  qed
  show "om_prompt (fold (omp_line js) ws ?p) = om_prompt (fold (omp_line js) ws omp_start)"
  proof (cases "\<forall>l \<in> set ws. prompt_line js l = None")
    case True
    then have "\<forall>l \<in> set ps. prompt_line js l = None" using sub none by metis
    then show ?thesis using p(1) [OF True] p(1) [of ps omp_start] by simp
  next
    case False
    then show ?thesis using p(2) [of ws ?p omp_start] by simp
  qed
  show "om_activity (fold (omp_line js) ws ?p) = om_activity (fold (omp_line js) ws omp_start)"
  proof (cases "\<forall>l \<in> set ws. activity_step js l None = None")
    case True
    then have "\<forall>l \<in> set ps. activity_step js l None = None" using sub none by metis
    then show ?thesis using True by (simp add: fold_activity activity_untouched)
  next
    case False
    then show ?thesis unfolding fold_activity using activity_known [OF k] by blast
  qed
qed

text \<open>
  A session file of OMP that fits into the window is read as a whole, although its head is parsed twice and may end inside a
  record.
\<close>

theorem omp_small_file_whole:
  assumes f: "hf_bytes hf path = Some file" "length file \<le> OMP_SESSION_TAIL_BYTES" "utf8_valid file"
    and h: "omp_header_matches js canon (read_file_window file 0 OMP_SESSION_PREFIX_BYTES) cwd"
    and cut: "\<forall>l \<in> set (map chop_cr (split_on 0x0A (read_file_window file 0 OMP_SESSION_PREFIX_BYTES))). l \<in> set (str_lines file) \<or> js l = None"
    and k: "starts_known js (str_lines file)"
  shows "parse_omp_session_file js canon hf path cwd = parse_omp_session js file (case hf_mtime hf path of Some m \<Rightarrow> m | None \<Rightarrow> 0)"
proof -
  have "read_file_window file (length file - OMP_SESSION_TAIL_BYTES) OMP_SESSION_TAIL_BYTES = file"
    using f(2,3) by (simp add: read_file_window_def utf8_lossy_valid)
  then show ?thesis
    using f(1) h omp_replay [OF cut k] by (simp add: parse_omp_session_file_def parse_omp_session_def str_lines_join Let_def)
qed

end
