(* ===== verification/Resume_Scanner.thy ===== *)
theory Resume_Scanner
  imports Str_Slice
begin

text \<open>
  \<open>crates/athena-resume-scanner/src/lib.rs\<close>: the scanner that finds, in the output of a terminal, the command with which
  an agent's session can be resumed. Strings are the bytes of their UTF-8 form; a slice off a character boundary is a
  panic, \<^term>\<open>None\<close>. The search loop is a partial function, so that a loop that does not end is \<^term>\<open>None\<close> too.
\<close>

definition MAX_SCAN_BUFFER :: nat where
  "MAX_SCAN_BUFFER = 1024"

definition MAX_ID_LEN :: nat where
  "MAX_ID_LEN = 256"

definition PREFIXES :: "bytes list" where
  "PREFIXES = map bytes_of [''claude --resume '', ''codex --resume '', ''opencode --resume '', ''gemini --resume '',
     ''freebuff --continue '', ''omp --resume '']"

definition MAX_PREFIX_LEN :: nat where
  "MAX_PREFIX_LEN = fold (\<lambda>p m. max m (length p)) PREFIXES 0"

section \<open>Escape sequences\<close>

datatype ansi_state = AnText | AnEscape | AnCsi | AnOsc | AnOscEscape

fun ansi_byte :: "ansi_state \<Rightarrow> u8 \<Rightarrow> ansi_state \<times> bytes" where
  "ansi_byte AnText b = (if b = 0x1B then (AnEscape, []) else (AnText, [b]))"
| "ansi_byte AnEscape b =
    (if b = byte (CHR ''['') then (AnCsi, [])
     else if b = byte (CHR '']'') then (AnOsc, [])
     else if b = 0x1B then (AnEscape, []) else (AnText, [b]))"
| "ansi_byte AnCsi b = (if in_range 0x40 0x7E b then (AnText, []) else (AnCsi, []))"
| "ansi_byte AnOsc b = (if b = 0x07 then (AnText, []) else if b = 0x1B then (AnOscEscape, []) else (AnOsc, []))"
| "ansi_byte AnOscEscape b = (if b = 0x5C then (AnText, []) else (AnOsc, []))"

fun ansi_bytes :: "ansi_state \<Rightarrow> bytes \<Rightarrow> ansi_state \<times> bytes" where
  "ansi_bytes st [] = (st, [])"
| "ansi_bytes st (b # bs) =
    (case ansi_byte st b of (st1, out1) \<Rightarrow> (case ansi_bytes st1 bs of (st2, out2) \<Rightarrow> (st2, out1 @ out2)))"

definition ansi_feed :: "ansi_state \<Rightarrow> bytes \<Rightarrow> ansi_state \<times> bytes" where
  "ansi_feed st input = (case ansi_bytes st input of (st1, out) \<Rightarrow> (st1, if utf8_valid out then out else []))"

definition resume_strip_ansi :: "bytes \<Rightarrow> bytes" where
  "resume_strip_ansi input = snd (ansi_feed AnText input)"

section \<open>Identifiers\<close>

definition lower_byte :: "u8 \<Rightarrow> u8" where
  "lower_byte b = (if in_range 65 90 b then b + 32 else b)"

definition has_digit_shape :: "bytes \<Rightarrow> nat \<Rightarrow> bool" where
  "has_digit_shape value0 len \<longleftrightarrow> length value0 = len \<and> list_all is_digit value0"

definition seconds_ok :: "bytes \<Rightarrow> bool" where
  "seconds_ok s =
    (case split_once (byte (CHR ''.'')) s of
       None \<Rightarrow> False
     | Some (seconds, fraction_and_zone) \<Rightarrow>
         if fraction_and_zone = [] \<or> last fraction_and_zone \<noteq> byte (CHR ''Z'') then False
         else (let fraction = butlast fraction_and_zone
               in has_digit_shape seconds 2 \<and> fraction \<noteq> [] \<and> list_all is_digit fraction))"

definition is_freebuff_timestamp :: "bytes \<Rightarrow> bool" where
  "is_freebuff_timestamp i =
    (case split_once (byte (CHR ''T'')) i of
       None \<Rightarrow> False
     | Some (date, time) \<Rightarrow>
         (case (split_on (byte (CHR ''-'')) date, split_on (byte (CHR ''-'')) time) of
            ([y, mo, d], [h, mi, s]) \<Rightarrow>
              has_digit_shape y 4 \<and> has_digit_shape mo 2 \<and> has_digit_shape d 2 \<and> has_digit_shape h 2 \<and> has_digit_shape mi 2 \<and> seconds_ok s
          | _ \<Rightarrow> False))"

definition is_valid_resume_id :: "bytes \<Rightarrow> bytes \<Rightarrow> bool" where
  "is_valid_resume_id prefix0 i =
    (if i = [] \<or> MAX_ID_LEN < length i then False
     else if prefix0 = bytes_of ''freebuff --continue'' then is_freebuff_timestamp i
     else True)"

definition id_char :: "uchar \<Rightarrow> bool" where
  "id_char c \<longleftrightarrow> 48 \<le> c \<and> c \<le> 57 \<or> 65 \<le> c \<and> c \<le> 90 \<or> 97 \<le> c \<and> c \<le> 122 \<or> c = 45 \<or> c = 95 \<or> c = 46"

definition id_of :: "bytes \<Rightarrow> bytes" where
  "id_of s = rev (dropWhile (\<lambda>b. b = byte (CHR ''.'')) (rev (utf8_string (takeWhile id_char (take MAX_ID_LEN (utf8_chars s))))))"

section \<open>The search\<close>

type_synonym resume_match = "(nat \<times> bytes \<times> bytes) option"

definition better :: "nat \<Rightarrow> bytes \<Rightarrow> bytes \<Rightarrow> resume_match \<Rightarrow> resume_match" where
  "better match_start prefix0 i last_match =
    (if is_valid_resume_id prefix0 i \<and> (case last_match of None \<Rightarrow> True | Some (previous_start, p, j) \<Rightarrow> previous_start \<le> match_start)
     then Some (match_start, prefix0, i) else last_match)"

partial_function (option) scan_pattern :: "bytes \<Rightarrow> bytes \<Rightarrow> bytes \<Rightarrow> nat \<Rightarrow> resume_match \<Rightarrow> resume_match option" where
  "scan_pattern s lower pattern search_from last_match =
    (case slice_from lower search_from of
       None \<Rightarrow> None
     | Some rest \<Rightarrow>
         (case find_sub pattern rest of
            None \<Rightarrow> Some last_match
          | Some relative_idx \<Rightarrow>
              (let match_start = search_from + relative_idx; id_start = match_start + length pattern in
               if length s < id_start then Some last_match
               else (case slice_from s id_start of
                       None \<Rightarrow> None
                     | Some s_tail \<Rightarrow>
                         (let last_match1 = better match_start (butlast pattern) (id_of s_tail) last_match
                          in if length lower \<le> id_start then Some last_match1
                             else scan_pattern s lower pattern id_start last_match1)))))"

fun scan_patterns :: "bytes \<Rightarrow> bytes \<Rightarrow> bytes list \<Rightarrow> resume_match \<Rightarrow> resume_match option" where
  "scan_patterns s lower [] last_match = Some last_match"
| "scan_patterns s lower (p # ps) last_match =
    (case scan_pattern s lower p 0 last_match of None \<Rightarrow> None | Some m \<Rightarrow> scan_patterns s lower ps m)"

definition extract_resume_id :: "bytes \<Rightarrow> (bytes \<times> bytes) option option" where
  "extract_resume_id s = map_option (map_option snd) (scan_patterns s (map lower_byte s) PREFIXES None)"

definition scan_text_for_resume_id :: "bytes \<Rightarrow> (bytes \<times> bytes) option option" where
  "scan_text_for_resume_id s = extract_resume_id (resume_strip_ansi s)"

section \<open>The scanner of a pane\<close>

definition contains_folded :: "bytes \<Rightarrow> bytes \<Rightarrow> bool" where
  "contains_folded haystack needle \<longleftrightarrow>
    length needle \<le> length haystack \<and>
    list_ex (\<lambda>start. map lower_byte (take (length needle) (drop start haystack)) = needle) [0..<length haystack - length needle + 1]"

definition chunk_could_contain_hint :: "bytes \<Rightarrow> bool" where
  "chunk_could_contain_hint bs \<longleftrightarrow> contains_folded bs (bytes_of ''resume'') \<or> contains_folded bs (bytes_of ''continue'')"

record resume_scanner =
  rs_buf :: bytes
  rs_seen :: "(bytes \<times> bytes) set"
  rs_ansi :: ansi_state

definition scanner_new :: resume_scanner where
  "scanner_new = \<lparr>rs_buf = [], rs_seen = {}, rs_ansi = AnText\<rparr>"

function next_boundary :: "bytes \<Rightarrow> nat \<Rightarrow> nat" where
  "next_boundary s i = (if i < length s \<and> \<not> is_char_boundary s i then next_boundary s (Suc i) else i)"
  by pat_completeness auto
termination
  by (relation "measure (\<lambda>(s, i). length s - i)") auto

declare next_boundary.simps [simp del]

definition trim_scan_buffer :: "bytes \<Rightarrow> bytes option" where
  "trim_scan_buffer buf =
    (if MAX_SCAN_BUFFER < length buf then slice_from buf (next_boundary buf (length buf - MAX_SCAN_BUFFER)) else Some buf)"

definition scan_start :: "bytes \<Rightarrow> nat \<Rightarrow> nat" where
  "scan_start buf tail_len = next_boundary buf (length buf - (tail_len + MAX_PREFIX_LEN + MAX_ID_LEN))"

definition report :: "(bytes \<times> bytes) option \<Rightarrow> resume_scanner \<Rightarrow> resume_scanner \<times> (bytes \<times> bytes) option" where
  "report matched sc =
    (case matched of
       None \<Rightarrow> (sc, None)
     | Some hit \<Rightarrow> if hit \<in> rs_seen sc then (sc, None) else (sc\<lparr>rs_seen := insert hit (rs_seen sc)\<rparr>, Some hit))"

definition scanner_feed :: "resume_scanner \<Rightarrow> bytes \<Rightarrow> (resume_scanner \<times> (bytes \<times> bytes) option) option" where
  "scanner_feed sc s =
    (let (ansi, stripped) = ansi_feed (rs_ansi sc) s in
     case trim_scan_buffer (rs_buf sc @ stripped) of
       None \<Rightarrow> None
     | Some buf \<Rightarrow>
         (let sc1 = sc\<lparr>rs_buf := buf, rs_ansi := ansi\<rparr>; scan_from = scan_start buf (length stripped) in
          if \<not> chunk_could_contain_hint (drop scan_from buf) then Some (sc1, None)
          else (case slice_from buf scan_from of
                  None \<Rightarrow> None
                | Some window \<Rightarrow>
                    (case extract_resume_id window of None \<Rightarrow> None | Some matched \<Rightarrow> Some (report matched sc1)))))"

definition scanner_clear :: "resume_scanner \<Rightarrow> resume_scanner" where
  "scanner_clear sc = \<lparr>rs_buf = [], rs_seen = {}, rs_ansi = AnText\<rparr>"

end
