(* ===== verification/Resume_Props.thy ===== *)
theory Resume_Props
  imports Resume_Scanner
begin

text \<open>
  What the resume scanner promises: stripping does not depend on how the output is cut into chunks and never damages a
  character; the search ends, never panics and finds the last hint of its window; the quick test before the search loses
  nothing; and no hint is reported twice.
\<close>

section \<open>Stripping\<close>

lemma ansi_bytes_append:
  "ansi_bytes st (xs @ ys) =
    (case ansi_bytes st xs of (st1, out1) \<Rightarrow> (case ansi_bytes st1 ys of (st2, out2) \<Rightarrow> (st2, out1 @ out2)))"
  by (induction xs arbitrary: st) (auto split: prod.split)

lemma ansi_high:
  assumes "0x80 \<le> unat b"
  shows "ansi_byte st b =
    (case st of AnText \<Rightarrow> (AnText, [b]) | AnEscape \<Rightarrow> (AnText, [b]) | AnCsi \<Rightarrow> (AnCsi, []) | AnOsc \<Rightarrow> (AnOsc, []) | AnOscEscape \<Rightarrow> (AnOsc, []))"
proof -
  have "b \<noteq> k" if "unat k < 0x80" for k using assms that by auto
  from this [of "0x1B"] this [of "0x5B"] this [of "0x5D"] this [of "0x07"] this [of "0x5C"] show ?thesis
    using assms by (cases st) (auto simp: in_range_def)
qed

lemma ansi_bytes_high:
  "\<forall>b\<in>set bs. 0x80 \<le> unat b \<Longrightarrow> bs \<noteq> [] \<Longrightarrow> snd (ansi_bytes st bs) \<in> {[], bs}"
proof -
  have keep: "\<forall>b\<in>set bs. 0x80 \<le> unat b \<Longrightarrow> ansi_bytes AnText bs = (AnText, bs)"
    and csi: "\<forall>b\<in>set bs. 0x80 \<le> unat b \<Longrightarrow> ansi_bytes AnCsi bs = (AnCsi, [])"
    and osc: "\<forall>b\<in>set bs. 0x80 \<le> unat b \<Longrightarrow> ansi_bytes AnOsc bs = (AnOsc, [])" for bs
    by (induction bs) (simp_all add: ansi_high del: ansi_byte.simps)
  assume "\<forall>b\<in>set bs. 0x80 \<le> unat b" "bs \<noteq> []"
  then show ?thesis using keep csi osc by (cases bs; cases st) (simp_all add: ansi_high del: ansi_byte.simps)
qed

lemma encode_cases:
  assumes "is_scalar c"
  shows "(\<exists>b. utf8_encode c = [b] \<and> unat b < 0x80) \<or> utf8_encode c \<noteq> [] \<and> (\<forall>b\<in>set (utf8_encode c). 0x80 \<le> unat b)"
proof -
  have r: "m mod 64 < 64" for m :: nat by simp
  consider "c < 0x80" | "0x80 \<le> c" "c < 0x800" | "0x800 \<le> c" "c < 0x10000" | "0x10000 \<le> c" "c < 0x110000"
    using assms unfolding is_scalar_def by linarith
  then show ?thesis
  proof cases
    case 1
    then show ?thesis by (auto simp: utf8_encode_def)
  qed (use r in \<open>auto simp: utf8_encode_def\<close>)
qed

lemma ansi_encode: "is_scalar c \<Longrightarrow> snd (ansi_bytes st (utf8_encode c)) \<in> {[], utf8_encode c}"
proof -
  assume "is_scalar c"
  then consider b where "utf8_encode c = [b]" | "utf8_encode c \<noteq> []" "\<forall>b\<in>set (utf8_encode c). 0x80 \<le> unat b" using encode_cases by blast
  then show ?thesis
  proof cases
    case 1
    have "snd (ansi_byte st b) \<in> {[], [b]}" by (cases st) auto
    then show ?thesis using 1 by (auto split: prod.split)
  qed (rule ansi_bytes_high)
qed

lemma ansi_is_str: "is_str s \<Longrightarrow> is_str (snd (ansi_bytes st s))"
proof -
  have "\<forall>c\<in>set cs. is_scalar c \<Longrightarrow> is_str (snd (ansi_bytes st (utf8_string cs)))" for cs
  proof (induction cs arbitrary: st)
    case (Cons c cs)
    obtain st1 out1 where 1: "ansi_bytes st (utf8_encode c) = (st1, out1)" by fastforce
    have "out1 \<in> {[], utf8_encode c}" using ansi_encode [of c st] Cons.prems 1 by simp
    moreover have "is_str (utf8_encode c)" unfolding is_str_def using Cons.prems by (intro exI [of _ "[c]"]) simp
    ultimately have "is_str out1" by auto
    then show ?case using Cons.IH [of st1] Cons.prems by (auto simp: ansi_bytes_append 1 is_str_append split: prod.splits)
  qed simp
  then show "is_str s \<Longrightarrow> ?thesis" by (auto simp: is_str_def)
qed

lemma ansi_feed_str: "is_str s \<Longrightarrow> ansi_feed st s = ansi_bytes st s"
  using ansi_is_str [of s st] is_str_valid by (auto simp: ansi_feed_def split: prod.split)

text \<open>What a sequence of chunks leaves, and that it does not depend on the cuts.\<close>

fun ansi_feed_all :: "ansi_state \<Rightarrow> bytes list \<Rightarrow> bytes" where
  "ansi_feed_all st [] = []"
| "ansi_feed_all st (c # cs) = (case ansi_feed st c of (st1, out) \<Rightarrow> out @ ansi_feed_all st1 cs)"

lemma ansi_chunks: "\<forall>c\<in>set cs. is_str c \<Longrightarrow> ansi_feed_all st cs = snd (ansi_bytes st (concat cs))"
  by (induction cs arbitrary: st) (auto simp: ansi_feed_str ansi_bytes_append split: prod.splits)

section \<open>The search\<close>

text \<open>The hint that a command pattern makes at a position, if it makes one.\<close>

definition hint_at :: "bytes \<Rightarrow> bytes \<Rightarrow> nat \<Rightarrow> (bytes \<times> bytes) option" where
  "hint_at s pattern i =
    (let r = id_of (drop (i + length pattern) s)
     in if prefix pattern (drop i (map lower_byte s)) \<and> is_valid_resume_id (butlast pattern) r then Some (butlast pattern, r) else None)"

text \<open>A pattern of ASCII characters that does not overlap itself.\<close>

definition plain_pattern :: "bytes \<Rightarrow> bool" where
  "plain_pattern p \<longleftrightarrow> p \<noteq> [] \<and> ascii p \<and> list_all (\<lambda>k. take (length p - k) p \<noteq> drop k p) [1..<length p]"

lemma prefixes_plain: "list_all plain_pattern PREFIXES"
  by code_simp

lemma no_overlap:
  assumes "plain_pattern p" "prefix p (drop i s)" "prefix p (drop j s)" "i < j"
  shows "i + length p \<le> j"
proof (rule ccontr)
  assume n: "\<not> i + length p \<le> j"
  define k where "k = j - i"
  have k: "0 < k" "k < length p" "j = i + k" using assms(4) n by (auto simp: k_def)
  have "take (length p - k) p = drop k p"
  proof (rule nth_equalityI)
    fix m
    assume "m < length (take (length p - k) p)"
    then have m: "m < length p" "k + m < length p" by auto
    have "s ! (j + m) = p ! m" using prefix_drop_nth [OF assms(3) m(1)] .
    moreover have "s ! (i + (k + m)) = p ! (k + m)" using prefix_drop_nth [OF assms(2) m(2)] .
    ultimately show "take (length p - k) p ! m = drop k p ! m" using k m by (simp add: add.assoc)
  qed simp
  moreover have "take (length p - k) p \<noteq> drop k p" using assms(1) k by (auto simp: plain_pattern_def list_all_iff)
  ultimately show False by blast
qed

lemma lower_text_ok: "text_ok s \<Longrightarrow> text_ok (map lower_byte s)" and lower_boundary: "is_char_boundary (map lower_byte s) i = is_char_boundary s i"
proof -
  have c: "is_cont (lower_byte b) = is_cont b" for b
  proof (cases "in_range 65 90 b")
    case True
    then have "unat (b + 32) = unat b + 32" by (auto simp: in_range_def unat_word_ariths)
    then show ?thesis using True by (simp add: lower_byte_def is_cont_def in_range_def)
  qed (simp add: lower_byte_def)
  have l: "0xC0 \<le> unat (lower_byte b) \<longleftrightarrow> 0xC0 \<le> unat b" for b
  proof (cases "in_range 65 90 b")
    case True
    then have "unat (b + 32) = unat b + 32" by (auto simp: in_range_def unat_word_ariths)
    then show ?thesis using True by (simp add: lower_byte_def in_range_def)
  qed (simp add: lower_byte_def)
  show "is_char_boundary (map lower_byte s) i = is_char_boundary s i" by (auto simp: is_char_boundary_def c)
  have "lead_before (map lower_byte s) i = lead_before s i" if "i \<le> length s" for i
    unfolding lead_before_def by (intro ex_cong1 conj_cong refl) (use that in \<open>auto simp: c l\<close>)
  then show "text_ok s \<Longrightarrow> text_ok (map lower_byte s)" by (auto simp: text_ok_def c)
qed

lemma hint_prefix: "hint_at s p i \<noteq> None \<Longrightarrow> prefix p (drop i (map lower_byte s))"
  by (auto simp: hint_at_def Let_def split: if_splits)

lemma prefix_in_range: "prefix p (drop i s) \<Longrightarrow> p \<noteq> [] \<Longrightarrow> i + length p \<le> length s"
  using prefix_length_le [of p "drop i s"] by (cases "i \<le> length s") (auto simp: prefix_def)

definition improves :: "resume_match \<Rightarrow> resume_match \<Rightarrow> bool" where
  "improves best m \<longleftrightarrow> (\<forall>k a b. best = Some (k, a, b) \<longrightarrow> (\<exists>k' a' b'. m = Some (k', a', b') \<and> k \<le> k'))"

definition covers :: "bytes \<Rightarrow> bytes \<Rightarrow> nat \<Rightarrow> resume_match \<Rightarrow> bool" where
  "covers s p from m \<longleftrightarrow> (\<forall>i\<ge>from. hint_at s p i \<noteq> None \<longrightarrow> (\<exists>k a b. m = Some (k, a, b) \<and> i \<le> k))"

lemma improves_refl: "improves a a"
  by (auto simp: improves_def)

lemma improves_trans:
  assumes "improves a b" "improves b c"
  shows "improves a c"
  unfolding improves_def
proof (intro allI impI)
  fix k x y
  assume "a = Some (k, x, y)"
  then obtain k' x' y' where "b = Some (k', x', y')" "k \<le> k'" using assms(1) by (auto simp: improves_def)
  then show "\<exists>k' a' b'. c = Some (k', a', b') \<and> k \<le> k'" using assms(2) by (fastforce simp: improves_def)
qed

lemma improves_start: "improves m1 m \<Longrightarrow> \<exists>k a b. m1 = Some (k, a, b) \<and> i \<le> k \<Longrightarrow> \<exists>k a b. m = Some (k, a, b) \<and> i \<le> k"
  by (fastforce simp: improves_def)

lemma better_improves: "improves best (better i (butlast p) r best)"
  by (auto simp: improves_def better_def split: option.splits)

lemma scan_pattern_spec:
  assumes t: "text_ok s" and p: "plain_pattern p" and "search_from \<le> length s" "is_char_boundary s search_from"
  shows "\<exists>m. scan_pattern s (map lower_byte s) p search_from best = Some m \<and>
    (m = best \<or> (\<exists>i a b. m = Some (i, a, b) \<and> hint_at s p i = Some (a, b))) \<and> covers s p search_from m \<and> improves best m"
  using assms(3,4)
proof (induction "length s - search_from" arbitrary: search_from best rule: less_induct)
  case less
  let ?low = "map lower_byte s"
  have ne: "p \<noteq> []" "ascii p" using p by (simp_all add: plain_pattern_def)
  have sl: "slice_from ?low search_from = Some (drop search_from ?low)" using less.prems by (simp add: slice_from_def lower_boundary)
  show ?case
  proof (cases "find_sub p (drop search_from ?low)")
    case None
    have "hint_at s p i = None" if "search_from \<le> i" for i
    proof (rule ccontr)
      assume "hint_at s p i \<noteq> None"
      then have x: "prefix p (drop i ?low)" by (rule hint_prefix)
      then have "i - search_from \<le> length (drop search_from ?low)" using prefix_in_range [OF x ne(1)] that by simp
      then show False using None that x by (auto simp: find_sub_None)
    qed
    then show ?thesis by (subst scan_pattern.simps) (simp add: sl None covers_def improves_refl)
  next
    case (Some rel)
    define ms where "ms = search_from + rel"
    define k where "k = ms + length p"
    have ms: "prefix p (drop ms ?low)" using Some by (simp add: find_sub_Some ms_def add.commute)
    have first: "\<not> prefix p (drop j ?low)" if "search_from \<le> j" "j < ms" for j
    proof -
      have "j - search_from < rel" using that by (simp add: ms_def)
      then have "\<not> prefix p (drop (j - search_from) (drop search_from ?low))" using Some by (simp add: find_sub_Some)
      then show ?thesis using that by simp
    qed
    have k_le: "k \<le> length s" using prefix_in_range [OF ms ne(1)] by (simp add: k_def)
    have b: "is_char_boundary s k"
      using pattern_boundaries(2) [OF lower_text_ok [OF t] ne(2,1) ms] by (simp add: k_def lower_boundary)
    define m1 where "m1 = better ms (butlast p) (id_of (drop k s)) best"
    have m1: "m1 = best \<or> (\<exists>a b. m1 = Some (ms, a, b) \<and> hint_at s p ms = Some (a, b))" "improves best m1"
      using ms better_improves [of best ms p] by (auto simp: m1_def better_def hint_at_def k_def Let_def)
    have here: "\<exists>k a b. m1 = Some (k, a, b) \<and> ms \<le> k" if "hint_at s p ms \<noteq> None"
      using that by (auto simp: m1_def better_def hint_at_def k_def Let_def split: if_splits option.splits)
    have gap: "i = ms \<or> k \<le> i" if "search_from \<le> i" "hint_at s p i \<noteq> None" for i
      using first [OF that(1)] hint_prefix [OF that(2)] no_overlap [OF p ms, of i] by (fastforce simp: k_def)
    have step: "scan_pattern s ?low p search_from best =
        (if length s \<le> k then Some m1 else scan_pattern s ?low p k m1)"
    proof -
      have "slice_from s k = Some (drop k s)" using b by (simp add: slice_from_def)
      then show ?thesis using k_le by (subst scan_pattern.simps) (simp add: sl Some ms_def [symmetric] k_def [symmetric] m1_def)
    qed
    show ?thesis
    proof (cases "length s \<le> k")
      case True
      have "covers s p search_from m1"
        unfolding covers_def
      proof (intro allI impI)
        fix i
        assume i: "search_from \<le> i" "hint_at s p i \<noteq> None"
        have "i + length p \<le> length s" using prefix_in_range [OF hint_prefix [OF i(2)] ne(1)] by simp
        then have "i = ms" using gap [OF i] True ne(1) by (cases p) auto
        then show "\<exists>k a b. m1 = Some (k, a, b) \<and> i \<le> k" using here i(2) by blast
      qed
      then show ?thesis using step True m1 by auto
    next
      case False
      have d: "length s - k < length s - search_from" using False ne(1) less.prems k_le by (cases p) (auto simp: k_def ms_def)
      obtain m where m: "scan_pattern s ?low p k m1 = Some m"
        "m = m1 \<or> (\<exists>i a b. m = Some (i, a, b) \<and> hint_at s p i = Some (a, b))" "covers s p k m" "improves m1 m"
        using less.hyps [OF d k_le b, of m1] by blast
      have "covers s p search_from m"
        unfolding covers_def
      proof (intro allI impI)
        fix i
        assume i: "search_from \<le> i" "hint_at s p i \<noteq> None"
        show "\<exists>k a b. m = Some (k, a, b) \<and> i \<le> k"
        proof (cases "i = ms")
          case True
          then show ?thesis using here i(2) improves_start [OF m(4)] by blast
        qed (use gap [OF i] m(3) i(2) in \<open>auto simp: covers_def\<close>)
      qed
      then show ?thesis using step False m m1 improves_trans by auto
    qed
  qed
qed

lemma scan_patterns_spec:
  assumes t: "text_ok s" and ps: "list_all plain_pattern ps"
  shows "\<exists>m. scan_patterns s (map lower_byte s) ps best = Some m \<and>
    (m = best \<or> (\<exists>p\<in>set ps. \<exists>i a b. m = Some (i, a, b) \<and> hint_at s p i = Some (a, b))) \<and> (\<forall>p\<in>set ps. covers s p 0 m) \<and> improves best m"
  using ps
proof (induction ps arbitrary: best)
  case Nil
  then show ?case by (simp add: improves_refl)
next
  case (Cons p ps)
  obtain m1 where m1: "scan_pattern s (map lower_byte s) p 0 best = Some m1"
    "m1 = best \<or> (\<exists>i a b. m1 = Some (i, a, b) \<and> hint_at s p i = Some (a, b))" "covers s p 0 m1" "improves best m1"
    using scan_pattern_spec [OF t, of p 0 best] Cons.prems by auto
  obtain m where m: "scan_patterns s (map lower_byte s) ps m1 = Some m"
    "m = m1 \<or> (\<exists>p\<in>set ps. \<exists>i a b. m = Some (i, a, b) \<and> hint_at s p i = Some (a, b))" "\<forall>p\<in>set ps. covers s p 0 m" "improves m1 m"
    using Cons.IH [of m1] Cons.prems unfolding list.pred_inject by blast
  have "covers s p 0 m" using m1(3) improves_start [OF m(4)] unfolding covers_def by blast
  then show ?case using m1 m improves_trans [OF m1(4) m(4)] by auto
qed

lemma newest_hint_found_aux:
  assumes "is_str s"
  shows "\<exists>r. extract_resume_id s = Some r \<and>
    (case r of
       None \<Rightarrow> \<forall>p\<in>set PREFIXES. \<forall>i. hint_at s p i = None
     | Some hint \<Rightarrow> \<exists>p\<in>set PREFIXES. \<exists>i. hint_at s p i = Some hint \<and> (\<forall>q\<in>set PREFIXES. \<forall>j>i. hint_at s q j = None))"
proof -
  obtain m where m: "scan_patterns s (map lower_byte s) PREFIXES None = Some m"
    "m = None \<or> (\<exists>p\<in>set PREFIXES. \<exists>i a b. m = Some (i, a, b) \<and> hint_at s p i = Some (a, b))" "\<forall>p\<in>set PREFIXES. covers s p 0 m"
    using scan_patterns_spec [OF is_str_text_ok [OF assms] prefixes_plain, of None] by blast
  show ?thesis
  proof (cases m)
    case None
    then have "\<forall>p\<in>set PREFIXES. \<forall>i. hint_at s p i = None" using m(3) unfolding covers_def by (metis le0 option.distinct(1))
    then show ?thesis using m(1) None by (simp add: extract_resume_id_def)
  next
    case (Some x)
    obtain i a b where x: "x = (i, a, b)" by (metis prod_cases3)
    have "hint_at s q j = None" if "q \<in> set PREFIXES" "i < j" for q j
    proof (rule ccontr)
      assume "hint_at s q j \<noteq> None"
      then have "\<exists>k a b. m = Some (k, a, b) \<and> j \<le> k" using m(3) that(1) unfolding covers_def by blast
      then show False using Some x that(2) by simp
    qed
    then show ?thesis using m(1,2) Some x by (auto simp: extract_resume_id_def)
  qed
qed

text \<open>
  C25. The search for a resume command ends, takes no slice inside a character, and finds the last hint: in any text it answers
  with the command and identifier of a place where one of the known commands is followed by a valid identifier, such that
  there is no such place further on, and it answers that there is none only when there is none.
\<close>

theorem newest_hint_found:
  assumes "is_str s"
  shows "\<exists>r. extract_resume_id s = Some r \<and>
    (case r of
       None \<Rightarrow> \<forall>p\<in>set PREFIXES. \<forall>i. hint_at s p i = None
     | Some hint \<Rightarrow> \<exists>p\<in>set PREFIXES. \<exists>i. hint_at s p i = Some hint \<and> (\<forall>q\<in>set PREFIXES. \<forall>j>i. hint_at s q j = None))"
  by (rule newest_hint_found_aux [OF assms])

section \<open>The scanner\<close>

lemma next_boundary: "i \<le> length s \<Longrightarrow> is_char_boundary s (next_boundary s i) \<and> i \<le> next_boundary s i \<and> next_boundary s i \<le> length s"
proof (induction s i rule: next_boundary.induct)
  case (1 s i)
  then show ?case
  proof (cases "i < length s \<and> \<not> is_char_boundary s i")
    case True
    then have "next_boundary s i = next_boundary s (Suc i)" by (subst next_boundary.simps) simp
    then show ?thesis using 1 True by auto
  next
    case False
    then have "next_boundary s i = i" by (subst next_boundary.simps) auto
    then show ?thesis using False 1(2) by (cases "i = length s") auto
  qed
qed

definition scanner_ok :: "resume_scanner \<Rightarrow> bool" where
  "scanner_ok sc \<longleftrightarrow> is_str (rs_buf sc) \<and> length (rs_buf sc) \<le> MAX_SCAN_BUFFER"

lemma trim_ok:
  assumes "is_str buf"
  shows "\<exists>b. trim_scan_buffer buf = Some b \<and> is_str b \<and> length b \<le> MAX_SCAN_BUFFER"
proof (cases "MAX_SCAN_BUFFER < length buf")
  case True
  then have n: "is_char_boundary buf (next_boundary buf (length buf - MAX_SCAN_BUFFER))"
    "length buf - MAX_SCAN_BUFFER \<le> next_boundary buf (length buf - MAX_SCAN_BUFFER)"
    using next_boundary [of "length buf - MAX_SCAN_BUFFER" buf] by auto
  then show ?thesis using True is_str_drop [OF assms n(1)] by (auto simp: trim_scan_buffer_def slice_from_def)
qed (use assms in \<open>simp add: trim_scan_buffer_def\<close>)

text \<open>The quick test: every command contains one of its two words.\<close>

lemma prefixes_words: "list_all (\<lambda>p. find_sub (bytes_of ''resume'') p \<noteq> None \<or> find_sub (bytes_of ''continue'') p \<noteq> None) PREFIXES"
  by code_simp

lemma folded_found:
  assumes p: "prefix p (drop i (map lower_byte w))" and n: "find_sub needle p = Some k" "needle \<noteq> []"
  shows "contains_folded w needle"
proof -
  have k: "prefix needle (drop k p)" using n(1) by (simp add: find_sub_Some)
  obtain u where u: "drop i (map lower_byte w) = p @ u" using p by (auto simp: prefix_def)
  have "k \<le> length p" using n(1) by (simp add: find_sub_Some)
  then have "drop (i + k) (map lower_byte w) = drop k p @ u" using u by (metis add.commute drop_drop drop_append diff_is_0_eq' drop0)
  then have x: "prefix needle (drop (i + k) (map lower_byte w))" using k by (auto simp: prefix_def)
  have l: "i + k + length needle \<le> length w" using prefix_in_range [OF x n(2)] by simp
  have "map lower_byte (take (length needle) (drop (i + k) w)) = needle"
    using x by (auto simp: prefix_def drop_map take_map [symmetric])
  moreover have "i + k \<in> set [0..<length w - length needle + 1]" "length needle \<le> length w" using l by auto
  ultimately show ?thesis unfolding contains_folded_def list_ex_iff by blast
qed

lemma gate_sound:
  assumes "is_str w" "\<not> chunk_could_contain_hint w"
  shows "extract_resume_id w = Some None"
proof -
  have none: "hint_at w p i = None" if "p \<in> set PREFIXES" for p i
  proof (rule ccontr)
    assume "hint_at w p i \<noteq> None"
    then have "prefix p (drop i (map lower_byte w))" by (rule hint_prefix)
    moreover have "find_sub (bytes_of ''resume'') p \<noteq> None \<or> find_sub (bytes_of ''continue'') p \<noteq> None"
      using prefixes_words that by (auto simp: list_all_iff)
    moreover have "bytes_of ''resume'' \<noteq> []" "bytes_of ''continue'' \<noteq> []" by (simp_all add: bytes_of_def)
    ultimately show False using assms(2) folded_found unfolding chunk_could_contain_hint_def by blast
  qed
  obtain r where r: "extract_resume_id w = Some r" "r \<noteq> None \<longrightarrow> (\<exists>p\<in>set PREFIXES. \<exists>i. hint_at w p i = r)"
    using newest_hint_found_aux [OF assms(1)] by (fastforce split: option.splits)
  then show ?thesis using none by fastforce
qed

text \<open>The scanner without the quick test.\<close>

definition scanner_feed_plain :: "resume_scanner \<Rightarrow> bytes \<Rightarrow> (resume_scanner \<times> (bytes \<times> bytes) option) option" where
  "scanner_feed_plain sc s =
    (let (ansi, stripped) = ansi_feed (rs_ansi sc) s in
     case trim_scan_buffer (rs_buf sc @ stripped) of
       None \<Rightarrow> None
     | Some buf \<Rightarrow>
         (case Option.bind (slice_from buf (scan_start buf (length stripped))) extract_resume_id of
            None \<Rightarrow> None
          | Some matched \<Rightarrow> Some (report matched (sc\<lparr>rs_buf := buf, rs_ansi := ansi\<rparr>))))"

lemma feed_unfold:
  assumes "scanner_ok sc" "is_str s"
  obtains ansi stripped buf window r where "ansi_feed (rs_ansi sc) s = (ansi, stripped)" "trim_scan_buffer (rs_buf sc @ stripped) = Some buf"
    "is_str buf" "length buf \<le> MAX_SCAN_BUFFER" "slice_from buf (scan_start buf (length stripped)) = Some window"
    "is_str window" "window = drop (scan_start buf (length stripped)) buf" "extract_resume_id window = Some r"
proof -
  obtain ansi stripped where a: "ansi_feed (rs_ansi sc) s = (ansi, stripped)" by fastforce
  have "is_str stripped" using a ansi_is_str [OF assms(2), of "rs_ansi sc"] by (simp add: ansi_feed_str [OF assms(2)])
  then obtain buf where b: "trim_scan_buffer (rs_buf sc @ stripped) = Some buf" "is_str buf" "length buf \<le> MAX_SCAN_BUFFER"
    using trim_ok is_str_append assms(1) by (metis scanner_ok_def)
  have n: "is_char_boundary buf (scan_start buf (length stripped))"
    using next_boundary [of "length buf - (length stripped + MAX_PREFIX_LEN + MAX_ID_LEN)" buf] by (simp add: scan_start_def)
  have w: "is_str (drop (scan_start buf (length stripped)) buf)" using is_str_drop [OF b(2) n] .
  obtain r where "extract_resume_id (drop (scan_start buf (length stripped)) buf) = Some r" using newest_hint_found_aux [OF w] by blast
  then show thesis using that a b n w by (simp add: slice_from_def)
qed

lemma gate_equivalent_aux:
  assumes "scanner_ok sc" "is_str s"
  shows "scanner_feed sc s = scanner_feed_plain sc s"
proof -
  obtain ansi stripped buf window r where f: "ansi_feed (rs_ansi sc) s = (ansi, stripped)" "trim_scan_buffer (rs_buf sc @ stripped) = Some buf"
    "slice_from buf (scan_start buf (length stripped)) = Some window" "is_str window"
    "window = drop (scan_start buf (length stripped)) buf" "extract_resume_id window = Some r"
    by (rule feed_unfold [OF assms])
  show ?thesis
    using f gate_sound [OF f(4)] by (auto simp: scanner_feed_def scanner_feed_plain_def report_def Let_def)
qed

text \<open>
  The quick test in front of the search loses nothing: on every chunk the scanner answers, and goes on, exactly as one that
  always searches its window.
\<close>

theorem gate_equivalent:
  assumes "scanner_ok sc" "is_str s"
  shows "scanner_feed sc s = scanner_feed_plain sc s"
  by (rule gate_equivalent_aux [OF assms])

fun scanner_run :: "resume_scanner \<Rightarrow> bytes list \<Rightarrow> (resume_scanner \<times> (bytes \<times> bytes) list) option" where
  "scanner_run sc [] = Some (sc, [])"
| "scanner_run sc (s # ss) =
    (case scanner_feed sc s of
       None \<Rightarrow> None
     | Some (sc1, r) \<Rightarrow>
         map_option (\<lambda>(sc2, hits). (sc2, (case r of Some hit \<Rightarrow> [hit] | None \<Rightarrow> []) @ hits)) (scanner_run sc1 ss))"

lemma feed_step:
  assumes "scanner_ok sc" "is_str s"
  shows "\<exists>sc1 r. scanner_feed sc s = Some (sc1, r) \<and> scanner_ok sc1 \<and>
    (case r of None \<Rightarrow> rs_seen sc1 = rs_seen sc | Some hit \<Rightarrow> hit \<notin> rs_seen sc \<and> rs_seen sc1 = insert hit (rs_seen sc))"
proof -
  obtain ansi stripped buf window r where f: "ansi_feed (rs_ansi sc) s = (ansi, stripped)" "trim_scan_buffer (rs_buf sc @ stripped) = Some buf"
    "is_str buf" "length buf \<le> MAX_SCAN_BUFFER" "slice_from buf (scan_start buf (length stripped)) = Some window" "extract_resume_id window = Some r"
    by (rule feed_unfold [OF assms])
  have "scanner_feed sc s = Some (report r (sc\<lparr>rs_buf := buf, rs_ansi := ansi\<rparr>))"
    using f by (simp add: gate_equivalent_aux [OF assms] scanner_feed_plain_def)
  then show ?thesis using f(3,4) by (auto simp: report_def scanner_ok_def split: option.splits)
qed

text \<open>
  C26. Scanning always ends, in bounded space, and repeats nothing: for every sequence of chunks every call returns (the search loop ends
  and no slice falls inside a character), the buffer never holds more than 1024 bytes, and no command with its identifier is
  reported twice.
\<close>

theorem scanning_terminates:
  assumes "\<forall>s\<in>set chunks. is_str s"
  shows "\<exists>sc hits. scanner_run scanner_new chunks = Some (sc, hits) \<and> length (rs_buf sc) \<le> 1024 \<and> distinct hits \<and> set hits = rs_seen sc"
proof -
  have "\<exists>sc' hits. scanner_run sc chunks = Some (sc', hits) \<and> scanner_ok sc' \<and> distinct hits \<and> set hits \<inter> rs_seen sc = {} \<and>
      rs_seen sc' = rs_seen sc \<union> set hits" if "scanner_ok sc" for sc
    using assms that
  proof (induction chunks arbitrary: sc)
    case (Cons s ss)
    obtain sc1 r where f: "scanner_feed sc s = Some (sc1, r)" "scanner_ok sc1"
      "case r of None \<Rightarrow> rs_seen sc1 = rs_seen sc | Some hit \<Rightarrow> hit \<notin> rs_seen sc \<and> rs_seen sc1 = insert hit (rs_seen sc)"
      using feed_step [OF Cons.prems(2)] Cons.prems(1) by (meson list.set_intros(1))
    obtain sc2 hits where g: "scanner_run sc1 ss = Some (sc2, hits)" "scanner_ok sc2" "distinct hits" "set hits \<inter> rs_seen sc1 = {}"
      "rs_seen sc2 = rs_seen sc1 \<union> set hits" using Cons.IH [OF _ f(2)] Cons.prems(1) by auto
    show ?case using f g by (cases r) auto
  qed auto
  from this [of scanner_new] show ?thesis by (auto simp: scanner_new_def scanner_ok_def MAX_SCAN_BUFFER_def)
qed

section \<open>Witnesses\<close>

definition demo_hint :: bytes where
  "demo_hint = bytes_of ''omp --resume a1''"

lemma demo_hint_str: "is_str demo_hint" "is_str (bytes_of ''x'')"
  by (rule is_str_ascii, code_simp)+

lemma demo_hint_at: "hint_at demo_hint (bytes_of ''omp --resume '') 0 = Some (bytes_of ''omp --resume'', bytes_of ''a1'')"
  by code_simp

theorem newest_hint_found_witness: "\<exists>hint. extract_resume_id demo_hint = Some (Some hint)"
proof -
  have "bytes_of ''omp --resume '' \<in> set PREFIXES" by (simp add: PREFIXES_def)
  then show ?thesis using newest_hint_found [OF demo_hint_str(1)] demo_hint_at by (fastforce split: option.splits)
qed

theorem gate_equivalent_witness: "scanner_feed scanner_new demo_hint = scanner_feed_plain scanner_new demo_hint"
  by (rule gate_equivalent [OF _ demo_hint_str(1)]) (simp add: scanner_ok_def scanner_new_def)

theorem scanning_terminates_witness:
  "\<exists>sc hits. scanner_run scanner_new [demo_hint, bytes_of ''x'', demo_hint] = Some (sc, hits) \<and> distinct hits"
  using scanning_terminates [of "[demo_hint, bytes_of ''x'', demo_hint]"] demo_hint_str by auto

section \<open>Hints that are missed or cut\<close>

text \<open>
  Of a chunk only the last 1024 bytes after stripping are searched: a hint before them is never seen, whatever it is.
\<close>

lemma early_output_unseen:
  assumes "ascii s" "0x1B \<notin> set s" "ascii t" "0x1B \<notin> set t" "length t = MAX_SCAN_BUFFER"
  shows "scanner_feed scanner_new (s @ t) = scanner_feed scanner_new t"
proof -
  have plain: "ansi_bytes AnText u = (AnText, u)" if "0x1B \<notin> set u" for u :: bytes using that by (induction u) auto
  have v: "utf8_valid (s @ t)" "utf8_valid t" using assms is_str_valid [OF is_str_ascii] by (auto simp: ascii_def)
  have bound: "is_char_boundary (s @ t) (length s)" using assms(3,5) by (cases t) (auto simp: is_char_boundary_def nth_append ascii_def ascii_not_cont MAX_SCAN_BUFFER_def)
  have nb: "next_boundary (s @ t) (length s) = length s" using bound by (subst next_boundary.simps) simp
  have trim: "trim_scan_buffer (s @ t) = Some t" "trim_scan_buffer t = Some t"
    using assms(5) nb bound by (auto simp: trim_scan_buffer_def slice_from_def MAX_SCAN_BUFFER_def)
  have start: "scan_start t (length (s @ t)) = 0" "scan_start t (length t) = 0" by (simp_all add: scan_start_def next_boundary.simps)
  show ?thesis
    using plain [of "s @ t"] plain [of t] assms(2,4) v trim start
    by (simp add: scanner_feed_def scanner_new_def ansi_feed_def Let_def)
qed

end
