(* ===== verification/Chat_Events.thy ===== *)
theory Chat_Events
  imports Text_Codec
begin

text \<open>
  \<open>crates/athena-core/src/types.rs\<close>: the events of a streamed answer and the coalescer that joins small pieces
  of text before they cross to the front end. An emitter is named by a number; what the emitters receive is a log of
  pairs of an emitter and an event. The clock is an argument, in nanoseconds.
\<close>

datatype stream_event =
    Started ustr ustr
  | Delta ustr ustr
  | Status ustr ustr
  | Completed ustr ustr
  | Usage ustr ustr nat nat bool
  | StreamError ustr ustr bool bool

definition DELTA_FLUSH_BYTES :: nat where
  "DELTA_FLUSH_BYTES = 256"

definition DELTA_FLUSH_INTERVAL :: nat where
  "DELTA_FLUSH_INTERVAL = 16000000"

record coalescer =
  co_emit :: "nat option"
  co_pending :: "(ustr \<times> ustr \<times> nat) option"

definition coalescer_default :: coalescer where
  "coalescer_default = \<lparr>co_emit = None, co_pending = None\<rparr>"

type_synonym event_log = "(nat \<times> stream_event) list"

definition co_call :: "nat option \<Rightarrow> stream_event \<Rightarrow> event_log" where
  "co_call emitter event = (case emitter of Some e \<Rightarrow> [(e, event)] | None \<Rightarrow> [])"

definition co_push :: "nat \<Rightarrow> ustr \<Rightarrow> ustr \<Rightarrow> coalescer \<Rightarrow> coalescer \<times> event_log" where
  "co_push now request_id piece co =
    (if co_emit co = None then (co, [])
     else (case co_pending co of
             Some (i, buffer, opened_at) \<Rightarrow>
               if i = request_id then
                 (let buffer1 = buffer @ piece in
                  if DELTA_FLUSH_BYTES \<le> length (utf8_string buffer1) \<or> DELTA_FLUSH_INTERVAL \<le> now - opened_at
                  then (co\<lparr>co_pending := None\<rparr>, co_call (co_emit co) (Delta i buffer1))
                  else (co\<lparr>co_pending := Some (i, buffer1, opened_at)\<rparr>, []))
               else (co\<lparr>co_pending := Some (request_id, piece, now)\<rparr>, co_call (co_emit co) (Delta i buffer))
           | None \<Rightarrow> (co\<lparr>co_pending := Some (request_id, piece, now)\<rparr>, [])))"

definition co_flush :: "coalescer \<Rightarrow> event_log" where
  "co_flush co = (case co_pending co of Some (i, buffer, opened_at) \<Rightarrow> co_call (co_emit co) (Delta i buffer) | None \<Rightarrow> [])"

definition co_emit_event :: "stream_event \<Rightarrow> coalescer \<Rightarrow> coalescer \<times> event_log" where
  "co_emit_event event co = (co\<lparr>co_pending := None\<rparr>, co_flush co @ co_call (co_emit co) event)"

definition set_emitter :: "nat option \<Rightarrow> coalescer \<Rightarrow> coalescer \<times> event_log" where
  "set_emitter emit co = (\<lparr>co_emit = emit, co_pending = None\<rparr>, co_flush co)"

section \<open>What the coalescer is for\<close>

text \<open>The calls of a client: a piece of text at a time, another event, another emitter.\<close>

datatype stream_op = OpPush ustr ustr | OpEmit stream_event

datatype co_op = CoPush nat ustr ustr | CoEmit stream_event | CoSet "nat option"

fun co_step :: "co_op \<Rightarrow> coalescer \<Rightarrow> coalescer \<times> event_log" where
  "co_step (CoPush now i piece) co = co_push now i piece co"
| "co_step (CoEmit event) co = co_emit_event event co"
| "co_step (CoSet emit) co = set_emitter emit co"

fun co_run :: "co_op list \<Rightarrow> coalescer \<Rightarrow> coalescer \<times> event_log" where
  "co_run [] co = (co, [])"
| "co_run (c # cs) co = (case co_step c co of (co1, log1) \<Rightarrow> (case co_run cs co1 of (co2, log2) \<Rightarrow> (co2, log1 @ log2)))"

text \<open>The same calls with every piece sent at once.\<close>

fun plain_run :: "co_op list \<Rightarrow> nat option \<Rightarrow> event_log" where
  "plain_run [] emitter = []"
| "plain_run (CoPush now i piece # cs) emitter = co_call emitter (Delta i piece) @ plain_run cs emitter"
| "plain_run (CoEmit event # cs) emitter = co_call emitter event @ plain_run cs emitter"
| "plain_run (CoSet emit # cs) emitter = plain_run cs emit"

text \<open>A log up to how text is cut: neighbouring pieces for one request at one emitter are joined.\<close>

fun jcons :: "nat \<times> stream_event \<Rightarrow> event_log \<Rightarrow> event_log" where
  "jcons (e, Delta i s) ((e', Delta i' s') # l) = (if e = e' \<and> i = i' then (e, Delta i (s @ s')) # l else (e, Delta i s) # (e', Delta i' s') # l)"
| "jcons x l = x # l"

definition joined :: "event_log \<Rightarrow> event_log" where
  "joined l = foldr jcons l []"

section \<open>Coalescing is transparent\<close>

text \<open>The coalescer changes how text is cut and nothing else.\<close>

lemma joined_append: "joined (l @ l') = foldr jcons l (joined l')"
  by (simp add: joined_def)

lemma joined_Cons: "joined (x # l) = jcons x (joined l)"
  by (simp add: joined_def)

lemma jcons_jcons: "jcons (e, Delta i s) (jcons (e, Delta i s') l) = jcons (e, Delta i (s @ s')) l"
  by (induction "(e, Delta i s')" l rule: jcons.induct) auto

text \<open>What is still waiting, followed by what is to come, reads the same however the pieces are sent.\<close>

lemma step_joined:
  assumes "co_step c co = (co1, log1)"
  shows "joined (co_flush co @ plain_run (c # cs) (co_emit co)) = joined (log1 @ co_flush co1 @ plain_run cs (co_emit co1))"
proof (cases c)
  case (CoPush now i piece)
  show ?thesis
  proof (cases "co_emit co")
    case None
    then show ?thesis using assms CoPush by (auto simp: co_push_def co_call_def)
  next
    case (Some e)
    show ?thesis
      using assms CoPush Some
      by (auto simp: co_push_def co_flush_def co_call_def joined_append joined_Cons Let_def jcons_jcons split: option.splits if_splits)
  qed
qed (use assms in \<open>auto simp: co_emit_event_def set_emitter_def co_flush_def\<close>)

lemma run_joined:
  "co_run cs co = (co', l) \<Longrightarrow> joined (co_flush co @ plain_run cs (co_emit co)) = joined (l @ co_flush co')"
proof (induction cs arbitrary: co l)
  case (Cons c cs)
  obtain co1 log1 where s: "co_step c co = (co1, log1)" by (cases "co_step c co")
  obtain log2 where r: "co_run cs co1 = (co', log2)" "l = log1 @ log2" using Cons.prems s by (auto split: prod.splits)
  show ?case using step_joined [OF s, of cs] Cons.IH [OF r(1)] r(2) by (simp add: joined_append)
qed simp

lemma co_run_append:
  "co_run (cs @ ds) co = (case co_run cs co of (co1, l1) \<Rightarrow> (case co_run ds co1 of (co2, l2) \<Rightarrow> (co2, l1 @ l2)))"
  by (induction cs arbitrary: co) (auto split: prod.splits)

text \<open>
  C27. Coalescing loses, repeats and reorders nothing: for every sequence of pieces of text, other events and changes of the emitter
  up to an event that is not a piece, every emitter has received what it would have received with each piece sent at once, up to
  where the text of one request is cut; and nothing is left waiting.
\<close>

theorem coalescing_transparent:
  "\<exists>co l. co_run (cs @ [CoEmit event]) coalescer_default = (co, l) \<and> co_pending co = None \<and>
    joined l = joined (plain_run (cs @ [CoEmit event]) None)"
proof -
  obtain co l where r: "co_run (cs @ [CoEmit event]) coalescer_default = (co, l)" by (cases "co_run (cs @ [CoEmit event]) coalescer_default")
  have p: "co_pending co = None" using r by (auto simp: co_run_append co_emit_event_def split: prod.splits)
  show ?thesis using run_joined [OF r] r p by (simp add: co_flush_def coalescer_default_def)
qed

end
