(* ===== verification/Chat_Sse.thy ===== *)
theory Chat_Sse
  imports Chat_Events Json_Value
begin

text \<open>
  \<open>crates/athena-core/src/orchestrator_stream.rs\<close>, reading a provider's answer: the server-sent events of a
  response as they arrive in chunks, for providers with OpenAI's protocol and for Anthropic. The libraries' functions are
  the fields of \<open>chat_lib\<close>: reading and printing of \<open>serde_json\<close>, the errors of \<open>String::from_utf8\<close>, \<open>Regex::replace_all\<close> and the
  text of an HTTP status.
\<close>

record 'n chat_lib =
  cl_json :: "ustr \<Rightarrow> ustr + 'n jvalue"
  cl_print :: "'n jvalue \<Rightarrow> ustr"
  cl_no :: "'n num_ops"
  cl_utf8_error :: "bytes \<Rightarrow> ustr"
  cl_replace_all :: "ustr \<Rightarrow> ustr \<Rightarrow> ustr \<Rightarrow> ustr"
  cl_status :: "nat \<Rightarrow> ustr"

datatype orch_error =
    HttpError ustr
  | MissingApiKey
  | LmStudioVisionNotSupported
  | SerializationError ustr
  | ToolFailure ustr ustr
  | LLMApiFailure nat
  | StateConflict ustr ustr
  | UserCancellation
  | ToolTimeout ustr nat ustr
  | ModelUnavailable nat ustr
  | Generic ustr

section \<open>Values\<close>

text \<open>\<open>value["key"]\<close> and \<open>value[0]\<close>, which are null where there is nothing, and \<open>json!\<close> for an object.\<close>

definition v_at :: "string \<Rightarrow> 'n jvalue \<Rightarrow> 'n jvalue" where
  "v_at key v = (case j_get key v of Some x \<Rightarrow> x | None \<Rightarrow> VNull)"

definition v_nth :: "nat \<Rightarrow> 'n jvalue \<Rightarrow> 'n jvalue" where
  "v_nth i v = (case v_as_array v of Some xs \<Rightarrow> if i < length xs then xs ! i else VNull | None \<Rightarrow> VNull)"

definition jobj :: "(string \<times> 'n jvalue) list \<Rightarrow> 'n jvalue" where
  "jobj kvs = VObject (fold (\<lambda>(k, v). obj_insert (lit k) v) kvs [])"

definition str_or :: "ustr \<Rightarrow> 'n jvalue \<Rightarrow> ustr" where
  "str_or d v = (case v_as_str v of Some s \<Rightarrow> s | None \<Rightarrow> d)"

definition u64_or0 :: "'n chat_lib \<Rightarrow> 'n jvalue \<Rightarrow> nat" where
  "u64_or0 lib v = (case v_as_u64 (cl_no lib) v of Some n \<Rightarrow> n | None \<Rightarrow> 0)"

text \<open>A \<open>BTreeMap\<close>, by its entries in the order of the keys: the entry of a key is changed or made.\<close>

fun bt_alter :: "('k \<Rightarrow> 'k \<Rightarrow> bool) \<Rightarrow> 'k \<Rightarrow> ('v option \<Rightarrow> 'v) \<Rightarrow> ('k \<times> 'v) list \<Rightarrow> ('k \<times> 'v) list" where
  "bt_alter before k f [] = [(k, f None)]"
| "bt_alter before k f ((k', v) # m) =
    (if k = k' then (k, f (Some v)) # m else if before k k' then (k, f None) # (k', v) # m else (k', v) # bt_alter before k f m)"

section \<open>Lines\<close>

definition sse_data :: "ustr \<Rightarrow> ustr" where
  "sse_data line =
    (let l = trim_chars line; p = lit ''data: ''
     in trim_chars (if take (length p) l = p then drop (length p) l else []))"

text \<open>One line: \<open>handle\<close> is what a value does to the accumulated answer and the pieces of text that it emits.\<close>

type_synonym ('n, 'a) sse_handler = "'n jvalue \<Rightarrow> 'a \<Rightarrow> 'a \<times> ustr list"

definition sse_line :: "'n chat_lib \<Rightarrow> bool \<Rightarrow> ('n, 'a) sse_handler \<Rightarrow> bytes \<Rightarrow> 'a \<Rightarrow> orch_error + 'a \<times> ustr list" where
  "sse_line lib skip_done handle line acc =
    (if \<not> utf8_valid line then Inl (Generic (lit ''Invalid SSE UTF-8: '' @ cl_utf8_error lib line))
     else (let data = sse_data (utf8_chars line) in
           if data = [] \<or> skip_done \<and> data = lit ''[DONE]'' then Inr (acc, [])
           else (case cl_json lib data of Inl e \<Rightarrow> Inl (SerializationError e) | Inr v \<Rightarrow> Inr (handle v acc))))"

text \<open>The loop over the complete lines of what is pending; the rest waits for the next chunk.\<close>

function sse_drain ::
  "(bytes \<Rightarrow> 'a \<Rightarrow> orch_error + 'a \<times> ustr list) \<Rightarrow> bytes \<Rightarrow> 'a \<Rightarrow> 'a \<times> bytes \<times> ustr list \<times> orch_error option" where
  "sse_drain f pending acc =
    (case position (\<lambda>b. b = 10) pending of
       None \<Rightarrow> (acc, pending, [], None)
     | Some newline \<Rightarrow>
         (case f (take (Suc newline) pending) acc of
            Inl e \<Rightarrow> (acc, drop (Suc newline) pending, [], Some e)
          | Inr (acc1, d1) \<Rightarrow>
              (case sse_drain f (drop (Suc newline) pending) acc1 of (acc2, rest, d2, e) \<Rightarrow> (acc2, rest, d1 @ d2, e))))"
  by pat_completeness auto
termination
  by (relation "measure (\<lambda>(f, pending, acc). length pending)") (auto simp: position_Some)

declare sse_drain.simps [simp del]

datatype chunk = Chunk bytes | ChunkFailed ustr | ChunkCancelled

text \<open>The body of a response: chunks until it ends, the connection fails or the request is cancelled.\<close>

fun sse_read ::
  "(bytes \<Rightarrow> 'a \<Rightarrow> orch_error + 'a \<times> ustr list) \<Rightarrow> chunk list \<Rightarrow> bytes \<Rightarrow> 'a \<Rightarrow> ustr list \<times> (orch_error + 'a)" where
  "sse_read f [] pending acc = ([], Inr acc)"
| "sse_read f (ChunkCancelled # cs) pending acc = ([], Inl UserCancellation)"
| "sse_read f (ChunkFailed e # cs) pending acc = ([], Inl (HttpError e))"
| "sse_read f (Chunk c # cs) pending acc =
    (case sse_drain f (pending @ c) acc of
       (acc1, rest, d1, Some e) \<Rightarrow> (d1, Inl e)
     | (acc1, rest, d1, None) \<Rightarrow> (case sse_read f cs rest acc1 of (d2, r) \<Rightarrow> (d1 @ d2, r)))"

section \<open>OpenAI\<close>

record oa_acc =
  oa_reply :: ustr
  oa_calls :: "(ustr \<times> ustr \<times> ustr \<times> ustr) list"
  oa_usage :: "(ustr \<times> nat \<times> nat) option"

definition oa_start :: oa_acc where
  "oa_start = \<lparr>oa_reply = [], oa_calls = [], oa_usage = None\<rparr>"

definition oa_usage_of :: "'n chat_lib \<Rightarrow> 'n jvalue \<Rightarrow> (ustr \<times> nat \<times> nat) option \<Rightarrow> (ustr \<times> nat \<times> nat) option" where
  "oa_usage_of lib v seen =
    (case j_get ''usage'' v of
       Some usage \<Rightarrow> Some (str_or [] (v_at ''model'' v), u64_or0 lib (v_at ''prompt_tokens'' usage), u64_or0 lib (v_at ''completion_tokens'' usage))
     | None \<Rightarrow>
         (case Option.bind (j_get ''model'' v) v_as_str of
            Some m \<Rightarrow> Some (m, (case seen of Some (m0, i, o0) \<Rightarrow> (i, o0) | None \<Rightarrow> (0, 0)))
          | None \<Rightarrow> seen))"

definition oa_item :: "'n chat_lib \<Rightarrow> 'n jvalue \<Rightarrow> (ustr \<times> ustr \<times> ustr \<times> ustr) list \<Rightarrow> (ustr \<times> ustr \<times> ustr \<times> ustr) list" where
  "oa_item lib item calls =
    (let index = map unat (dec (u64_or0 lib (v_at ''index'' item)));
         fn = v_at ''function'' item
     in bt_alter ord_class.lexordp index
          (\<lambda>entry. case (case entry of Some e \<Rightarrow> e | None \<Rightarrow> ([], [], [])) of (i, name, args) \<Rightarrow>
             (str_or i (v_at ''id'' item), name @ str_or [] (v_at ''name'' fn), args @ str_or [] (v_at ''arguments'' fn)))
          calls)"

definition oa_value :: "'n chat_lib \<Rightarrow> ('n, oa_acc) sse_handler" where
  "oa_value lib v acc =
    (let delta = v_at ''delta'' (v_nth 0 (v_at ''choices'' v));
         acc1 = acc\<lparr>oa_usage := oa_usage_of lib v (oa_usage acc)\<rparr>;
         (acc2, out) = (case v_as_str (v_at ''content'' delta) of
                          Some part \<Rightarrow> (acc1\<lparr>oa_reply := oa_reply acc1 @ part\<rparr>, [part])
                        | None \<Rightarrow> (acc1, []))
     in (case v_as_array (v_at ''tool_calls'' delta) of
           Some items \<Rightarrow> (acc2\<lparr>oa_calls := fold (oa_item lib) items (oa_calls acc2)\<rparr>, out)
         | None \<Rightarrow> (acc2, out)))"

definition oa_read :: "'n chat_lib \<Rightarrow> chunk list \<Rightarrow> ustr list \<times> (orch_error + oa_acc)" where
  "oa_read lib chunks = sse_read (sse_line lib True (oa_value lib)) chunks [] oa_start"

section \<open>Anthropic\<close>

record 'n an_acc =
  an_reply :: ustr
  an_blocks :: "(nat \<times> 'n jvalue) list"
  an_inputs :: "(nat \<times> ustr) list"
  an_usage :: "(ustr \<times> nat \<times> nat) option"

definition an_start :: "'n an_acc" where
  "an_start = \<lparr>an_reply = [], an_blocks = [], an_inputs = [], an_usage = None\<rparr>"

definition an_value :: "'n chat_lib \<Rightarrow> ('n, 'n an_acc) sse_handler" where
  "an_value lib event acc =
    (let index = u64_or0 lib (v_at ''index'' event); kind = str_or [] (v_at ''type'' event) in
     if kind = lit ''message_start'' then
       (let message = v_at ''message'' event in
        (acc\<lparr>an_usage := Some (str_or [] (v_at ''model'' message), u64_or0 lib (v_at ''input_tokens'' (v_at ''usage'' message)), 0)\<rparr>, []))
     else if kind = lit ''message_delta'' then
       (case v_as_u64 (cl_no lib) (v_at ''output_tokens'' (v_at ''usage'' event)) of
          Some output \<Rightarrow>
            (acc\<lparr>an_usage := (case an_usage acc of Some (m, i, o0) \<Rightarrow> Some (m, i, output) | None \<Rightarrow> Some ([], 0, output))\<rparr>, [])
        | None \<Rightarrow> (acc, []))
     else if kind = lit ''content_block_start'' then
       (acc\<lparr>an_blocks := bt_alter (<) index (\<lambda>entry. v_at ''content_block'' event) (an_blocks acc)\<rparr>, [])
     else if kind = lit ''content_block_delta'' then
       (let delta = v_at ''delta'' event; delta_kind = str_or [] (v_at ''type'' delta) in
        if delta_kind = lit ''text_delta'' then
          (case v_as_str (v_at ''text'' delta) of
             Some part \<Rightarrow> (acc\<lparr>an_reply := an_reply acc @ part\<rparr>, [part])
           | None \<Rightarrow> (acc, []))
        else if delta_kind = lit ''input_json_delta'' then
          (case v_as_str (v_at ''partial_json'' delta) of
             Some part \<Rightarrow>
               (acc\<lparr>an_inputs := bt_alter (<) index (\<lambda>entry. (case entry of Some s \<Rightarrow> s | None \<Rightarrow> []) @ part) (an_inputs acc)\<rparr>, [])
           | None \<Rightarrow> (acc, []))
        else (acc, []))
     else (acc, []))"

definition an_read :: "'n chat_lib \<Rightarrow> chunk list \<Rightarrow> ustr list \<times> (orch_error + 'n an_acc)" where
  "an_read lib chunks = sse_read (sse_line lib False (an_value lib)) chunks [] an_start"

end
