(* ===== verification/Chat_Panel.thy ===== *)
theory Chat_Panel
  imports Chat_Sse "HOL-Library.AList"
begin

text \<open>
  \<open>frontend/src/stores/athena.rs\<close> and \<open>athena_model.rs\<close>: the state of the chat panel, and from \<open>frontend/src/components/athena/athena_panel.rs\<close> the
  handler of the stream's events with its queue of text per animation frame. Numbers of type \<open>f64\<close> are a parameter with the
  operations that are used: the price of tokens, and reading a number of seconds as milliseconds.
\<close>

section \<open>Messages\<close>

datatype image_media_type = Jpeg | Png | Gif | Webp

record image_attachment =
  ia_id :: ustr
  ia_base64 :: ustr
  ia_media_type :: image_media_type
  ia_name :: "ustr option"

datatype plan_step_status = PsPending | PsInProgress | PsCompleted | PsFailed

record plan_step_block =
  pb_id :: ustr
  pb_title :: ustr
  pb_description :: ustr
  pb_agent_type :: ustr
  pb_status :: plan_step_status
  pb_assigned_pane_id :: "ustr option"
  pb_result_summary :: "ustr option"

record plan_block =
  pl_plan_id :: ustr
  pl_goal :: ustr
  pl_steps :: "plan_step_block list"
  pl_status :: plan_step_status

record ask_user_block =
  au_request_id :: ustr
  au_question :: ustr
  au_options :: "(ustr \<times> ustr) list"
  au_answered :: bool
  au_selected_answer :: "ustr option"

record evaluation_block =
  ev_plan_id :: ustr
  ev_overall_status :: ustr
  ev_step_evaluations :: "(ustr \<times> ustr \<times> ustr) list"
  ev_next_action :: ustr
  ev_reasoning :: ustr

datatype content_block = PlanBlock plan_block | AskUserBlock ask_user_block | EvaluationBlock evaluation_block

fun block_plan_id :: "content_block \<Rightarrow> ustr option" where
  "block_plan_id (PlanBlock p) = Some (pl_plan_id p)"
| "block_plan_id b = None"

datatype chat_role = CUser | CAthena

record 'f message_usage =
  mu_model :: ustr
  mu_input_tokens :: nat
  mu_output_tokens :: nat
  mu_model_mismatch :: bool
  mu_cost_usd :: "'f option"

record 'f chat_message =
  cm_id :: ustr
  cm_role :: chat_role
  cm_content :: ustr
  cm_timestamp :: int
  cm_is_error :: bool
  cm_images :: "image_attachment list"
  cm_blocks :: "content_block list"
  cm_usage :: "'f message_usage option"

definition block_message :: "string \<Rightarrow> int \<Rightarrow> content_block \<Rightarrow> 'f chat_message" where
  "block_message kind millis block =
    \<lparr>cm_id = lit kind @ map unat (dec (nat millis)), cm_role = CAthena, cm_content = [], cm_timestamp = millis div 1000, cm_is_error = False,
     cm_images = [], cm_blocks = [block], cm_usage = None\<rparr>"

section \<open>Usage\<close>

record usage_accumulator =
  ua_model :: ustr
  ua_input_tokens :: nat
  ua_output_tokens :: nat
  ua_model_mismatch :: bool

record usage_ledger_entry =
  ul_session_id :: ustr
  ul_model :: ustr
  ul_input_tokens :: nat
  ul_output_tokens :: nat
  ul_mismatched_requests :: nat
  ul_last_activity :: int

definition MAX_LEDGER_ENTRIES :: nat where
  "MAX_LEDGER_ENTRIES = 200"

definition MAX_MESSAGES :: nat where
  "MAX_MESSAGES = 100"

text \<open>Counters of 64 bits wrap in the release build.\<close>

definition add64 :: "nat \<Rightarrow> nat \<Rightarrow> nat" where
  "add64 a b = (a + b) mod 2 ^ 64"

text \<open>
  The library functions: the cost from two counts and two prices, \<open>str::to_lowercase\<close>, and a token read as a finite number of seconds that is not
  negative, in whole milliseconds.
\<close>

record 'f panel_lib =
  pn_cost :: "nat \<Rightarrow> 'f \<Rightarrow> nat \<Rightarrow> 'f \<Rightarrow> 'f"
  pn_lower :: "ustr \<Rightarrow> ustr"
  pn_millis :: "ustr \<Rightarrow> nat option"

text \<open>\<open>max_by_key\<close> takes the last of several longest prefixes.\<close>

definition estimate_cost :: "'f panel_lib \<Rightarrow> (ustr \<times> 'f \<times> 'f) list \<Rightarrow> ustr \<Rightarrow> nat \<Rightarrow> nat \<Rightarrow> 'f option" where
  "estimate_cost pn pricing model input_tokens output_tokens =
    (case filter (\<lambda>(p, i, o0). take (length p) model = p) pricing of
       [] \<Rightarrow> None
     | row # rows \<Rightarrow>
         (case fold (\<lambda>(p, i, o0) (q, j, o1). if length (utf8_string q) \<le> length (utf8_string p) then (p, i, o0) else (q, j, o1)) rows row of
            (p, price_in, price_out) \<Rightarrow> Some (pn_cost pn input_tokens price_in output_tokens price_out)))"

section \<open>The panel\<close>

datatype draggable_item = DrAgent ustr ustr ustr | DrKanbanTask ustr ustr ustr | DrFile ustr ustr

text \<open>A \<open>HashMap\<close> is the list of its entries in the order of iteration.\<close>

record 'f chat_state =
  ch_messages :: "'f chat_message list"
  ch_is_open :: bool
  ch_is_loading :: bool
  ch_is_streaming :: bool
  ch_streaming_status :: "ustr option"
  ch_streaming_trace :: "ustr list"
  ch_active_request_id :: "ustr option"
  ch_error :: "ustr option"
  ch_retry_text :: "ustr option"
  ch_retry_not_before_ms :: "int option"
  ch_retry_notice :: "ustr option"
  ch_session_id :: "ustr option"
  ch_pending_usage :: "(ustr \<times> usage_accumulator) list"
  ch_pricing :: "(ustr \<times> 'f \<times> 'f) list"
  ch_usage_ledger :: "(ustr \<times> usage_ledger_entry) list"
  ch_dropped_context :: "draggable_item list"

definition map_last :: "('a \<Rightarrow> 'a) \<Rightarrow> 'a list \<Rightarrow> 'a list" where
  "map_last f xs = (if xs = [] then [] else butlast xs @ [f (last xs)])"

definition add_message :: "'f chat_message \<Rightarrow> 'f chat_state \<Rightarrow> 'f chat_state" where
  "add_message msg s = (let ms = ch_messages s @ [msg] in s\<lparr>ch_messages := drop (length ms - MAX_MESSAGES) ms\<rparr>)"

definition set_streaming_status :: "ustr option \<Rightarrow> 'f chat_state \<Rightarrow> 'f chat_state" where
  "set_streaming_status status s =
    (let s1 = s\<lparr>ch_streaming_status := status\<rparr> in
     case status of
       None \<Rightarrow> s1
     | Some t \<Rightarrow> if ch_streaming_trace s1 \<noteq> [] \<and> last (ch_streaming_trace s1) = t then s1 else s1\<lparr>ch_streaming_trace := ch_streaming_trace s1 @ [t]\<rparr>)"

definition connecting :: ustr where
  "connecting = lit ''Connecting'' @ [0x2026]"

definition begin_stream :: "ustr \<Rightarrow> 'f chat_state \<Rightarrow> 'f chat_state" where
  "begin_stream request_id s =
    s\<lparr>ch_active_request_id := Some request_id, ch_is_loading := True, ch_is_streaming := True, ch_streaming_status := Some connecting,
      ch_streaming_trace := [connecting], ch_error := None, ch_retry_text := None, ch_retry_not_before_ms := None, ch_retry_notice := None\<rparr>"

definition accepts_stream_event :: "ustr \<Rightarrow> 'f chat_state \<Rightarrow> bool" where
  "accepts_stream_event request_id s \<longleftrightarrow> ch_active_request_id s = Some request_id"

definition open_answer :: "'f chat_message \<Rightarrow> bool" where
  "open_answer m \<longleftrightarrow> cm_role m = CAthena \<and> \<not> cm_is_error m"

definition append_stream_delta :: "ustr \<Rightarrow> ustr \<Rightarrow> 'f chat_state \<Rightarrow> 'f chat_state" where
  "append_stream_delta request_id delta s =
    (if \<not> accepts_stream_event request_id s then s
     else s\<lparr>ch_messages := map_last (\<lambda>m. if open_answer m then m\<lparr>cm_content := cm_content m @ delta\<rparr> else m) (ch_messages s)\<rparr>)"

definition record_usage :: "ustr \<Rightarrow> ustr \<Rightarrow> nat \<Rightarrow> nat \<Rightarrow> bool \<Rightarrow> 'f chat_state \<Rightarrow> 'f chat_state" where
  "record_usage request_id model input_tokens output_tokens mismatch s =
    (let old = (case map_of (ch_pending_usage s) request_id of
                  Some u \<Rightarrow> u
                | None \<Rightarrow> \<lparr>ua_model = [], ua_input_tokens = 0, ua_output_tokens = 0, ua_model_mismatch = False\<rparr>);
         new = \<lparr>ua_model = (if ua_model old = [] then model else ua_model old), ua_input_tokens = add64 (ua_input_tokens old) input_tokens,
                ua_output_tokens = add64 (ua_output_tokens old) output_tokens, ua_model_mismatch = (ua_model_mismatch old \<or> mismatch)\<rparr>
     in s\<lparr>ch_pending_usage := AList.update request_id new (ch_pending_usage s)\<rparr>)"

text \<open>The rows of the ledger are evicted by their last activity, the first of several oldest in the order of iteration.\<close>

fun oldest_entry :: "(ustr \<times> usage_ledger_entry) list \<Rightarrow> (ustr \<times> usage_ledger_entry) option" where
  "oldest_entry [] = None"
| "oldest_entry (e # es) =
    (case oldest_entry es of
       None \<Rightarrow> Some e
     | Some e' \<Rightarrow> if ul_last_activity (snd e) \<le> ul_last_activity (snd e') then Some e else Some e')"

lemma oldest_entry_mem: "oldest_entry es = Some e \<Longrightarrow> e \<in> set es"
  by (induction es arbitrary: e) (auto split: option.splits if_splits)

lemma oldest_entry_Some: "es \<noteq> [] \<Longrightarrow> oldest_entry es \<noteq> None"
  by (cases es) (auto split: option.splits)

function evict_ledger :: "(ustr \<times> usage_ledger_entry) list \<Rightarrow> (ustr \<times> usage_ledger_entry) list" where
  "evict_ledger es =
    (if MAX_LEDGER_ENTRIES < length es
     then (case oldest_entry es of Some (k, e) \<Rightarrow> evict_ledger (AList.delete k es) | None \<Rightarrow> es)
     else es)"
  by pat_completeness auto
termination
proof (relation "measure length")
  fix es :: "(ustr \<times> usage_ledger_entry) list" and p k e
  assume "oldest_entry es = Some p" "(k, e) = p"
  then have "(k, e) \<in> set es" using oldest_entry_mem by fastforce
  then show "(AList.delete k es, es) \<in> measure length"
    by (auto simp: AList.delete_eq intro!: length_filter_less)
qed simp

declare evict_ledger.simps [simp del]

definition ledger_entry :: "ustr \<Rightarrow> usage_accumulator \<Rightarrow> int \<Rightarrow> (ustr \<times> usage_ledger_entry) list \<Rightarrow> (ustr \<times> usage_ledger_entry) list" where
  "ledger_entry session_id acc now ledger =
    (let old = (case map_of ledger session_id of
                  Some e \<Rightarrow> e
                | None \<Rightarrow> \<lparr>ul_session_id = session_id, ul_model = [], ul_input_tokens = 0, ul_output_tokens = 0, ul_mismatched_requests = 0, ul_last_activity = 0\<rparr>);
         new = old\<lparr>ul_model := ua_model acc, ul_input_tokens := add64 (ul_input_tokens old) (ua_input_tokens acc),
                   ul_output_tokens := add64 (ul_output_tokens old) (ua_output_tokens acc),
                   ul_mismatched_requests := (if ua_model_mismatch acc then (ul_mismatched_requests old + 1) mod 2 ^ 32 else ul_mismatched_requests old),
                   ul_last_activity := now\<rparr>
     in evict_ledger (AList.update session_id new ledger))"

definition fold_usage :: "'f panel_lib \<Rightarrow> int \<Rightarrow> usage_accumulator \<Rightarrow> 'f chat_state \<Rightarrow> 'f chat_state" where
  "fold_usage pn now acc s =
    (if ua_model acc = [] then s
     else (let cost = estimate_cost pn (ch_pricing s) (ua_model acc) (ua_input_tokens acc) (ua_output_tokens acc);
               usage = \<lparr>mu_model = ua_model acc, mu_input_tokens = ua_input_tokens acc, mu_output_tokens = ua_output_tokens acc,
                        mu_model_mismatch = ua_model_mismatch acc, mu_cost_usd = cost\<rparr>;
               s1 = s\<lparr>ch_messages := map_last (\<lambda>m. if open_answer m then m\<lparr>cm_usage := Some usage\<rparr> else m) (ch_messages s)\<rparr>
           in case ch_session_id s1 of
                Some session_id \<Rightarrow> s1\<lparr>ch_usage_ledger := ledger_entry session_id acc now (ch_usage_ledger s1)\<rparr>
              | None \<Rightarrow> s1))"

definition idle :: "'f chat_state \<Rightarrow> 'f chat_state" where
  "idle s = s\<lparr>ch_active_request_id := None, ch_is_loading := False, ch_is_streaming := False, ch_streaming_status := None, ch_streaming_trace := []\<rparr>"

definition finish_stream :: "'f panel_lib \<Rightarrow> int \<Rightarrow> ustr \<Rightarrow> ustr option \<Rightarrow> 'f chat_state \<Rightarrow> 'f chat_state" where
  "finish_stream pn now request_id final_text s =
    (if \<not> accepts_stream_event request_id s then s
     else (let s1 = (case map_of (ch_pending_usage s) request_id of
                       Some acc \<Rightarrow> fold_usage pn now acc (s\<lparr>ch_pending_usage := AList.delete request_id (ch_pending_usage s)\<rparr>)
                     | None \<Rightarrow> s);
               s2 = (case final_text of
                       Some t \<Rightarrow> s1\<lparr>ch_messages := map_last (\<lambda>m. if open_answer m then m\<lparr>cm_content := t\<rparr> else m) (ch_messages s1)\<rparr>
                     | None \<Rightarrow> s1)
           in idle s2))"

definition invalidate_active_request :: "'f chat_state \<Rightarrow> 'f chat_state \<times> ustr option" where
  "invalidate_active_request s =
    ((idle s)\<lparr>ch_retry_text := None, ch_retry_not_before_ms := None, ch_retry_notice := None\<rparr>, ch_active_request_id s)"

section \<open>Failure and retry\<close>

definition DEFAULT_RATE_LIMIT_COOLDOWN_MS :: nat where
  "DEFAULT_RATE_LIMIT_COOLDOWN_MS = 15000"

definition MAX_RETRY_COOLDOWN_MS :: nat where
  "MAX_RETRY_COOLDOWN_MS = 120000"

fun ws_words :: "ustr \<Rightarrow> ustr \<Rightarrow> ustr list" where
  "ws_words w [] = (if w = [] then [] else [w])"
| "ws_words w (c # cs) = (if is_whitespace c then (if w = [] then [] else [w]) @ ws_words [] cs else ws_words (w @ [c]) cs)"

definition delay_keyword :: "ustr \<Rightarrow> bool" where
  "delay_keyword w \<longleftrightarrow> w = lit ''wait'' \<or> w = lit ''in'' \<or> w = lit ''after''"

fun delay3 :: "'f panel_lib \<Rightarrow> ustr list \<Rightarrow> nat option" where
  "delay3 pn (a # b # c # ws) =
    (if delay_keyword a \<and> pn_millis pn b \<noteq> None \<and> c \<noteq> [] \<and> hd c = 115 then pn_millis pn b else delay3 pn (b # c # ws))"
| "delay3 pn ws = None"

fun delay2 :: "'f panel_lib \<Rightarrow> ustr list \<Rightarrow> nat option" where
  "delay2 pn (a # b # ws) =
    (let digits = takeWhile (\<lambda>c. 48 \<le> c \<and> c \<le> 57 \<or> c = 46) b in
     if delay_keyword a \<and> pn_millis pn digits \<noteq> None then pn_millis pn digits else delay2 pn (b # ws))"
| "delay2 pn ws = None"

definition contains_text :: "string \<Rightarrow> ustr \<Rightarrow> bool" where
  "contains_text needle s = list_ex (\<lambda>i. take (length needle) (drop i s) = lit needle) [0..<length s]"

definition parse_retry_delay_ms :: "'f panel_lib \<Rightarrow> ustr \<Rightarrow> nat option" where
  "parse_retry_delay_ms pn message =
    (let lower = pn_lower pn message; tokens = ws_words [] lower in
     case delay3 pn tokens of
       Some d \<Rightarrow> Some d
     | None \<Rightarrow>
         (case delay2 pn tokens of
            Some d \<Rightarrow> Some d
          | None \<Rightarrow>
              if contains_text ''429'' lower \<or> contains_text ''rate limit'' lower \<or> contains_text ''too many requests'' lower
              then Some DEFAULT_RATE_LIMIT_COOLDOWN_MS else None))"

definition capped_cooldown :: "nat \<Rightarrow> nat" where
  "capped_cooldown delay_ms = min delay_ms MAX_RETRY_COOLDOWN_MS"

text \<open>\<open>iter().rev().nth(1)\<close>, when it is the user's.\<close>

definition prompt_before_last :: "'f chat_message list \<Rightarrow> ustr option" where
  "prompt_before_last ms = (case rev ms of m # p # ps \<Rightarrow> if cm_role p = CUser then Some (cm_content p) else None | _ \<Rightarrow> None)"

definition fail_message :: "ustr \<Rightarrow> 'f chat_message \<Rightarrow> 'f chat_message" where
  "fail_message message m =
    m\<lparr>cm_content := (if cm_content m = [] then lit ''Error: '' @ message else cm_content m @ [10, 10] @ lit ''Error: '' @ message), cm_is_error := True\<rparr>"

definition fail_stream :: "'f panel_lib \<Rightarrow> int \<Rightarrow> ustr \<Rightarrow> ustr \<Rightarrow> bool \<Rightarrow> 'f chat_state \<Rightarrow> 'f chat_state" where
  "fail_stream pn now_ms request_id message cancelled s =
    (if \<not> accepts_stream_event request_id s then s
     else if cancelled then idle s
     else (let s1 = (idle s)\<lparr>ch_error := Some message\<rparr> in
           if ch_messages s1 \<noteq> [] \<and> open_answer (last (ch_messages s1)) then
             (let s2 = s1\<lparr>ch_messages := map_last (fail_message message) (ch_messages s1)\<rparr>;
                  s3 = s2\<lparr>ch_retry_text := prompt_before_last (ch_messages s2)\<rparr>
              in case parse_retry_delay_ms pn message of
                   Some d \<Rightarrow> s3\<lparr>ch_retry_not_before_ms := Some (now_ms + int (capped_cooldown d))\<rparr>
                 | None \<Rightarrow> s3)
           else s1))"

definition prepare_retry :: "'f chat_state \<Rightarrow> 'f chat_state \<times> ustr option" where
  "prepare_retry s =
    (if ch_messages s = [] \<or> \<not> (cm_role (last (ch_messages s)) = CAthena \<and> cm_is_error (last (ch_messages s))) then (s, None)
     else (case (case ch_retry_text s of Some t \<Rightarrow> Some t | None \<Rightarrow> prompt_before_last (ch_messages s)) of
             None \<Rightarrow> (s\<lparr>ch_retry_text := None\<rparr>, None)
           | Some t \<Rightarrow>
               (let ms = butlast (ch_messages s);
                    ms1 = (if ms \<noteq> [] \<and> cm_role (last ms) = CUser \<and> cm_content (last ms) = t then butlast ms else ms)
                in (s\<lparr>ch_messages := ms1, ch_retry_text := None, ch_error := None, ch_retry_not_before_ms := None, ch_retry_notice := None\<rparr>, Some t))))"

definition clear_messages :: "'f chat_state \<Rightarrow> 'f chat_state" where
  "clear_messages s = (fst (invalidate_active_request s))\<lparr>ch_messages := [], ch_error := None\<rparr>"

definition set_messages :: "'f chat_message list \<Rightarrow> 'f chat_state \<Rightarrow> 'f chat_state" where
  "set_messages ms s = (fst (invalidate_active_request s))\<lparr>ch_messages := ms, ch_error := None\<rparr>"

definition add_agent_context :: "ustr \<Rightarrow> ustr \<Rightarrow> ustr \<Rightarrow> 'f chat_state \<Rightarrow> 'f chat_state \<times> bool" where
  "add_agent_context pane_id agent_type label s =
    (if list_ex (\<lambda>item. case item of DrAgent p a l \<Rightarrow> p = pane_id | _ \<Rightarrow> False) (ch_dropped_context s) then (s, False)
     else (s\<lparr>ch_dropped_context := ch_dropped_context s @ [DrAgent pane_id agent_type label]\<rparr>, True))"

section \<open>Blocks\<close>

definition last_is_athena :: "'f chat_state \<Rightarrow> bool" where
  "last_is_athena s \<longleftrightarrow> ch_messages s \<noteq> [] \<and> cm_role (last (ch_messages s)) = CAthena"

definition add_block :: "string \<Rightarrow> int \<Rightarrow> content_block \<Rightarrow> 'f chat_state \<Rightarrow> 'f chat_state" where
  "add_block kind millis block s =
    (if last_is_athena s then s\<lparr>ch_messages := map_last (\<lambda>m. m\<lparr>cm_blocks := cm_blocks m @ [block]\<rparr>) (ch_messages s)\<rparr>
     else add_message (block_message kind millis block) s)"

definition handle_ask_user :: "int \<Rightarrow> ustr \<Rightarrow> ustr \<Rightarrow> (ustr \<times> ustr) list \<Rightarrow> 'f chat_state \<Rightarrow> 'f chat_state" where
  "handle_ask_user millis request_id question options =
    add_block ''ask-'' millis (AskUserBlock \<lparr>au_request_id = request_id, au_question = question, au_options = options, au_answered = False, au_selected_answer = None\<rparr>)"

definition answer_block :: "ustr \<Rightarrow> ustr \<Rightarrow> content_block \<Rightarrow> content_block" where
  "answer_block request_id answer b =
    (case b of
       AskUserBlock a \<Rightarrow> if au_request_id a = request_id then AskUserBlock (a\<lparr>au_answered := True, au_selected_answer := Some answer\<rparr>) else b
     | _ \<Rightarrow> b)"

definition mark_ask_user_answered :: "ustr \<Rightarrow> ustr \<Rightarrow> 'f chat_state \<Rightarrow> 'f chat_state" where
  "mark_ask_user_answered request_id answer s =
    s\<lparr>ch_messages := map (\<lambda>m. m\<lparr>cm_blocks := map (answer_block request_id answer) (cm_blocks m)\<rparr>) (ch_messages s)\<rparr>"

fun replace_plan :: "plan_block \<Rightarrow> content_block list \<Rightarrow> content_block list option" where
  "replace_plan p [] = None"
| "replace_plan p (b # bs) = (if block_plan_id b = Some (pl_plan_id p) then Some (PlanBlock p # bs) else map_option ((#) b) (replace_plan p bs))"

definition handle_plan_update :: "int \<Rightarrow> plan_block \<Rightarrow> 'f chat_state \<Rightarrow> 'f chat_state" where
  "handle_plan_update millis p s =
    (if last_is_athena s then
       s\<lparr>ch_messages := map_last (\<lambda>m. m\<lparr>cm_blocks := (case replace_plan p (cm_blocks m) of Some bs \<Rightarrow> bs | None \<Rightarrow> cm_blocks m @ [PlanBlock p])\<rparr>) (ch_messages s)\<rparr>
     else add_message (block_message ''plan-'' millis (PlanBlock p)) s)"

definition handle_plan_evaluated :: "int \<Rightarrow> evaluation_block \<Rightarrow> 'f chat_state \<Rightarrow> 'f chat_state" where
  "handle_plan_evaluated millis e = add_block ''eval-'' millis (EvaluationBlock e)"

section \<open>The listener\<close>

text \<open>Text waits in a queue until the next animation frame; every other event acts at once.\<close>

record 'f panel =
  pa_chat :: "'f chat_state"
  pa_queue :: "(ustr \<times> ustr) list"
  pa_scheduled :: bool

definition drain_queue :: "'f panel \<Rightarrow> 'f panel" where
  "drain_queue p =
    p\<lparr>pa_chat := fold (\<lambda>(request_id, t) s. append_stream_delta request_id t s) (pa_queue p) (pa_chat p), pa_queue := [], pa_scheduled := False\<rparr>"

definition schedule_stream_flush :: "bool \<Rightarrow> 'f panel \<Rightarrow> 'f panel" where
  "schedule_stream_flush frame_granted p =
    (if pa_scheduled p then p else if frame_granted then p\<lparr>pa_scheduled := True\<rparr> else drain_queue p)"

text \<open>An event arrives: with the clock in milliseconds and whether the browser grants a frame.\<close>

fun panel_event :: "'f panel_lib \<Rightarrow> int \<Rightarrow> bool \<Rightarrow> stream_event \<Rightarrow> 'f panel \<Rightarrow> 'f panel" where
  "panel_event pn now_ms granted (Delta i t) p =
    (if i = [] then p else schedule_stream_flush granted (p\<lparr>pa_queue := pa_queue p @ [(i, t)]\<rparr>))"
| "panel_event pn now_ms granted (Usage i model input output mismatch) p =
    (if i \<noteq> [] \<and> (model \<noteq> [] \<or> 0 < input \<or> 0 < output) then p\<lparr>pa_chat := record_usage i model input output mismatch (pa_chat p)\<rparr> else p)"
| "panel_event pn now_ms granted (Status i message) p =
    (if i \<noteq> [] \<and> accepts_stream_event i (pa_chat p) then p\<lparr>pa_chat := set_streaming_status (Some message) (pa_chat p)\<rparr> else p)"
| "panel_event pn now_ms granted (Completed i t) p =
    (if i = [] then p else p\<lparr>pa_chat := finish_stream pn (now_ms div 1000) i (Some t) (pa_chat p)\<rparr>)"
| "panel_event pn now_ms granted (StreamError i message cancelled unavailable) p =
    (if i = [] then p else p\<lparr>pa_chat := fail_stream pn now_ms i message cancelled (pa_chat p)\<rparr>)"
| "panel_event pn now_ms granted (Started i session) p = p"

definition panel_frame :: "'f panel \<Rightarrow> 'f panel" where
  "panel_frame p = (if pa_scheduled p then drain_queue p else p)"

end
