(* ===== verification/Chat_Stream.thy ===== *)
theory Chat_Stream
  imports Chat_Sse
begin

text \<open>
  \<open>orchestrator_stream.rs\<close>, \<open>orchestrator_tool_loop.rs\<close>, \<open>orchestrator_messages.rs\<close> and parts of \<open>orchestrator_support.rs\<close>
  of \<open>crates/athena-core/src\<close>: one streamed turn. A turn runs in rounds: the history is sent, the answer is read, its
  tool calls are executed and their results are appended. What the network, the user and the tools do in a round is its
  environment; a turn returns the new histories, the messages of every request that was sent, the calls of the coalescer, and its
  result.
\<close>

section \<open>Messages\<close>

record 'n oa_msg =
  om_role :: ustr
  om_content :: "'n jvalue"
  om_tool_calls :: "'n jvalue option"
  om_tool_call_id :: "ustr option"
  om_name :: "ustr option"

record 'n an_msg =
  am_role :: ustr
  am_content :: "'n jvalue"

record image_data =
  im_base64 :: ustr
  im_media_type :: ustr

definition plain_msg :: "string \<Rightarrow> 'n jvalue \<Rightarrow> 'n oa_msg" where
  "plain_msg role content = \<lparr>om_role = lit role, om_content = content, om_tool_calls = None, om_tool_call_id = None, om_name = None\<rparr>"

definition build_openai_content :: "ustr \<Rightarrow> image_data list option \<Rightarrow> 'n jvalue" where
  "build_openai_content s images =
    (case images of
       None \<Rightarrow> VString s
     | Some [] \<Rightarrow> VString s
     | Some imgs \<Rightarrow>
         VArray (map (\<lambda>img. jobj [(''type'', VString (lit ''image_url'')),
                                   (''image_url'', jobj [(''url'', VString (lit ''data:'' @ im_media_type img @ lit '';base64,'' @ im_base64 img))])]) imgs
                 @ [jobj [(''type'', VString (lit ''text'')), (''text'', VString s)]]))"

definition build_anthropic_content :: "ustr \<Rightarrow> image_data list option \<Rightarrow> 'n jvalue" where
  "build_anthropic_content s images =
    (case images of
       None \<Rightarrow> VString s
     | Some [] \<Rightarrow> VString s
     | Some imgs \<Rightarrow>
         VArray (map (\<lambda>img. jobj [(''type'', VString (lit ''image'')),
                                   (''source'', jobj [(''type'', VString (lit ''base64'')), (''media_type'', VString (im_media_type img)),
                                                      (''data'', VString (im_base64 img))])]) imgs
                 @ [jobj [(''type'', VString (lit ''text'')), (''text'', VString s)]]))"

text \<open>A message in the body of a request.\<close>

definition add_field :: "string \<Rightarrow> 'n jvalue option \<Rightarrow> (string \<times> 'n jvalue) list \<Rightarrow> (string \<times> 'n jvalue) list" where
  "add_field k v kvs = (case v of Some x \<Rightarrow> kvs @ [(k, x)] | None \<Rightarrow> kvs)"

definition oa_body :: "'n oa_msg \<Rightarrow> 'n jvalue" where
  "oa_body m =
    jobj (add_field ''name'' (map_option VString (om_name m))
         (add_field ''tool_call_id'' (map_option VString (om_tool_call_id m))
         (add_field ''tool_calls'' (om_tool_calls m) [(''role'', VString (om_role m)), (''content'', om_content m)])))"

section \<open>Errors of the provider\<close>

definition sanitize_error_message :: "'n chat_lib \<Rightarrow> ustr \<Rightarrow> ustr" where
  "sanitize_error_message lib msg =
    fold (\<lambda>(re, repl) s. cl_replace_all lib (lit re) (lit repl) s)
      [(''sk-[a-zA-Z0-9]{20,}'', ''sk-[REDACTED]''), (''x-api-key: [^'' @ [CHR 0x5C] @ ''s]+'', ''x-api-key: [REDACTED]''),
       (''Bearer [^'' @ [CHR 0x5C] @ ''s]+'', ''Bearer [REDACTED]''), (''api[_-]?key[:=][^'' @ [CHR 0x5C] @ ''s]+'', ''api_key=[REDACTED]'')] msg"

text \<open>No letter outside ASCII has a lower case in the word \<open>model\<close>.\<close>

definition names_model :: "ustr \<Rightarrow> bool" where
  "names_model s = (let l = map (\<lambda>c. if 65 \<le> c \<and> c \<le> 90 then c + 32 else c) s
                    in list_ex (\<lambda>i. take 5 (drop i l) = lit ''model'') [0..<length l])"

definition classify_api_error :: "'n chat_lib \<Rightarrow> string \<Rightarrow> nat \<Rightarrow> ustr \<Rightarrow> orch_error" where
  "classify_api_error lib provider status sanitized =
    (if status = 410 \<or> status = 404 \<and> names_model sanitized then ModelUnavailable status sanitized
     else Generic (lit provider @ lit '' API error '' @ cl_status lib status @ lit '': '' @ sanitized))"

section \<open>Tools\<close>

datatype tool_outcome = ToolDone ustr "bool option" | ToolFailed ustr | ToolPanicked ustr

text \<open>
  What happens to one call of a batch: whether the cancellation wins against it, whether the worker finds the request cancelled,
  and what the executor does. \<open>to_input\<close> is the conversion of a JSON value to \<open>ToolInput\<close>.
\<close>

record 'i tool_env =
  te_cancel_wins :: bool
  te_request_cancelled :: bool
  te_execute :: "ustr \<Rightarrow> 'i \<Rightarrow> tool_outcome"

definition execute_tool_core ::
  "('n jvalue \<Rightarrow> ustr + 'i) \<Rightarrow> bool \<Rightarrow> 'i tool_env \<Rightarrow> ustr \<Rightarrow> 'n jvalue \<Rightarrow> ustr \<times> bool" where
  "execute_tool_core to_input has_executor env name input =
    (case to_input input of
       Inl e \<Rightarrow> (lit ''Failed to deserialize tool input for '' @ [39] @ name @ lit (CHR 39 # '': JSON serialization failed: '') @ e, True)
     | Inr ti \<Rightarrow>
         if \<not> has_executor then
           (lit ''Tool '' @ [39] @ name @ [39] @ lit '' was requested but no tool executor is configured. '' @
            lit ''Pass an executor via AthenaOrchestrator::new_with_executor().'', True)
         else if te_request_cancelled env then (lit ''Tool execution error: Request cancelled'', True)
         else (case te_execute env name ti of
                 ToolDone s is_error \<Rightarrow> (s, is_error = Some True)
               | ToolFailed e \<Rightarrow> (lit ''Tool execution error: '' @ e, True)
               | ToolPanicked e \<Rightarrow> (lit ''Tool execution task panicked: '' @ e, True)))"

definition execute_tool_batch ::
  "('n jvalue \<Rightarrow> ustr + 'i) \<Rightarrow> bool \<Rightarrow> (nat \<Rightarrow> 'i tool_env) \<Rightarrow> (ustr \<times> 'n jvalue) list \<Rightarrow> (orch_error + ustr \<times> bool) list" where
  "execute_tool_batch to_input has_executor envs calls =
    map (\<lambda>(k, name, input). if te_cancel_wins (envs k) then Inl UserCancellation
                             else Inr (execute_tool_core to_input has_executor (envs k) name input))
      (enumerate 0 calls)"

definition tool_result :: "(orch_error + ustr \<times> bool) list \<Rightarrow> ustr \<times> bool" where
  "tool_result results = (case results of Inr r # rs \<Rightarrow> r | _ \<Rightarrow> (lit ''cancelled by user'', True))"

section \<open>A round\<close>

datatype http_reply = ReqCancelled | ReqFailed ustr | Refused nat ustr | Streaming "chunk list"

record 'i round_env =
  re_cancelled :: bool
  re_reply :: http_reply
  re_tools :: "nat \<Rightarrow> 'i tool_env"

definition MAX_TOOL_ROUNDS :: nat where
  "MAX_TOOL_ROUNDS = 12"

definition emit_round_usage :: "ustr \<Rightarrow> ustr \<Rightarrow> (ustr \<times> nat \<times> nat) option \<Rightarrow> stream_op list" where
  "emit_round_usage request_id requested_model seen =
    (case seen of
       None \<Rightarrow> []
     | Some (model, input, output) \<Rightarrow>
         [OpEmit (Usage request_id (if model = [] then requested_model else model) input output (model \<noteq> [] \<and> model \<noteq> requested_model))])"

definition round_status :: "ustr \<Rightarrow> nat \<Rightarrow> stream_op" where
  "round_status request_id n = OpEmit (Status request_id (lit (if n = 0 then ''Thinking'' else ''Running tools'') @ [0x2026]))"

definition rounds_exceeded :: orch_error where
  "rounds_exceeded = Generic (lit ''Tool loop exceeded '' @ map unat (dec MAX_TOOL_ROUNDS) @ lit '' rounds'')"

text \<open>How a round ends: the turn goes on, or it returns.\<close>

datatype round_end = NextRound | Return "orch_error + ustr"

subsection \<open>OpenAI\<close>

definition parse_arguments :: "'n chat_lib \<Rightarrow> ustr \<Rightarrow> ustr + 'n jvalue" where
  "parse_arguments lib args =
    (case cl_json lib args of
       Inr (VObject m) \<Rightarrow> Inr (VObject m)
     | Inr v \<Rightarrow> Inl (lit ''expected a JSON object for tool call arguments'')
     | Inl e \<Rightarrow> Inl e)"

definition parsed_inputs :: "'n chat_lib \<Rightarrow> (ustr \<times> ustr \<times> ustr \<times> ustr) list \<Rightarrow> ustr \<rightharpoonup> ustr + 'n jvalue" where
  "parsed_inputs lib calls = fold (\<lambda>(index, i, name, args) m. m(i \<mapsto> parse_arguments lib args)) calls Map.empty"

definition tool_call :: "ustr \<Rightarrow> ustr \<Rightarrow> ustr \<Rightarrow> 'n jvalue" where
  "tool_call i name args =
    jobj [(''id'', VString i), (''type'', VString (lit ''function'')),
          (''function'', jobj [(''name'', VString name), (''arguments'', VString args)])]"

definition call_id :: "'n jvalue \<Rightarrow> ustr" where
  "call_id call = str_or [] (v_at ''id'' call)"

definition call_name :: "'n jvalue \<Rightarrow> ustr" where
  "call_name call = str_or (lit ''unknown'') (v_at ''name'' (v_at ''function'' call))"

definition tool_msg :: "'n jvalue \<Rightarrow> 'n jvalue \<Rightarrow> 'n oa_msg" where
  "tool_msg call content =
    \<lparr>om_role = lit ''tool'', om_content = content, om_tool_calls = None, om_tool_call_id = Some (call_id call), om_name = Some (call_name call)\<rparr>"

text \<open>The first loop over the calls: those to execute, the replies to malformed ones, and the identifiers that have a reply.\<close>

fun triage :: "(ustr \<rightharpoonup> ustr + 'n jvalue) \<Rightarrow> 'n jvalue list \<Rightarrow> (ustr \<times> 'n jvalue) list \<times> 'n oa_msg list \<times> ustr list" where
  "triage parsed [] = ([], [], [])"
| "triage parsed (call # calls) =
    (case triage parsed calls of
       (executable, replies, ids) \<Rightarrow>
         (case parsed (call_id call) of
            Some (Inr v) \<Rightarrow> ((call_name call, v) # executable, replies, ids)
          | Some (Inl e) \<Rightarrow>
              (executable, tool_msg call (jobj [(''error'', VString (lit ''invalid JSON in tool arguments: '' @ e))]) # replies, call_id call # ids)
          | None \<Rightarrow> ((call_name call, VObject []) # executable, replies, ids)))"

text \<open>The second loop: the calls without a reply take the results in order.\<close>

fun batch_replies :: "ustr list \<Rightarrow> (orch_error + ustr \<times> bool) list \<Rightarrow> 'n jvalue list \<Rightarrow> 'n oa_msg list" where
  "batch_replies ids results [] = []"
| "batch_replies ids results (call # calls) =
    (if call_id call \<in> set ids then batch_replies ids results calls
     else (case tool_result results of
             (result, is_error) \<Rightarrow>
               tool_msg call (if is_error then jobj [(''error'', VString result)] else VString result) # batch_replies ids (tl results) calls))"

definition oa_tools ::
  "'n chat_lib \<Rightarrow> ('n jvalue \<Rightarrow> ustr + 'i) \<Rightarrow> bool \<Rightarrow> (nat \<Rightarrow> 'i tool_env) \<Rightarrow> oa_acc \<Rightarrow> 'n oa_msg list" where
  "oa_tools lib to_input has_executor envs acc =
    (let calls = map (\<lambda>(index, i, name, args). tool_call i name args) (oa_calls acc);
         assistant = (plain_msg ''assistant'' (if oa_reply acc = [] then VNull else VString (oa_reply acc)))\<lparr>om_tool_calls := Some (VArray calls)\<rparr>;
         (executable, replies, ids) = triage (parsed_inputs lib (oa_calls acc)) calls
     in assistant # replies @
        (if executable = [] then [] else batch_replies ids (execute_tool_batch to_input has_executor envs executable) calls))"

definition oa_answer ::
  "'n chat_lib \<Rightarrow> ('n jvalue \<Rightarrow> ustr + 'i) \<Rightarrow> bool \<Rightarrow> ustr \<Rightarrow> ustr \<Rightarrow> (nat \<Rightarrow> 'i tool_env) \<Rightarrow> oa_acc \<Rightarrow>
    'n oa_msg list \<times> stream_op list \<times> round_end" where
  "oa_answer lib to_input has_executor request_id model envs acc =
    (let ops = emit_round_usage request_id model (oa_usage acc) in
     if oa_calls acc = [] then ([plain_msg ''assistant'' (VString (oa_reply acc))], ops, Return (Inr (trim_chars (oa_reply acc))))
     else (oa_tools lib to_input has_executor envs acc, ops, NextRound))"

text \<open>What the answer of the provider adds to the history.\<close>

definition oa_exchange ::
  "'n chat_lib \<Rightarrow> ('n jvalue \<Rightarrow> ustr + 'i) \<Rightarrow> bool \<Rightarrow> ustr \<Rightarrow> ustr \<Rightarrow> 'i round_env \<Rightarrow> 'n oa_msg list \<times> stream_op list \<times> round_end" where
  "oa_exchange lib to_input has_executor request_id model env =
    (case re_reply env of
       ReqCancelled \<Rightarrow> ([], [], Return (Inl UserCancellation))
     | ReqFailed e \<Rightarrow> ([], [], Return (Inl (HttpError e)))
     | Refused status body \<Rightarrow> ([], [], Return (Inl (classify_api_error lib ''OpenAI'' status (sanitize_error_message lib body))))
     | Streaming chunks \<Rightarrow>
         (case oa_read lib chunks of
            (pieces, Inl e) \<Rightarrow> ([], map (OpPush request_id) pieces, Return (Inl e))
          | (pieces, Inr acc) \<Rightarrow>
              (case oa_answer lib to_input has_executor request_id model (re_tools env) acc of
                 (msgs, ops, fin) \<Rightarrow> (msgs, map (OpPush request_id) pieces @ ops, fin))))"

text \<open>
  The loop: the new history, the messages of each request, the calls of the coalescer and the result. The last argument but one
  counts the rounds so far, the one before the rounds that are left.
\<close>

fun oa_loop ::
  "'n chat_lib \<Rightarrow> ('n jvalue \<Rightarrow> ustr + 'i) \<Rightarrow> bool \<Rightarrow> ustr \<Rightarrow> ustr \<Rightarrow> (nat \<Rightarrow> 'i round_env) \<Rightarrow> nat \<Rightarrow> nat \<Rightarrow> 'n oa_msg list \<Rightarrow>
    'n oa_msg list \<times> 'n jvalue list list \<times> stream_op list \<times> (orch_error + ustr)" where
  "oa_loop lib to_input has_executor request_id model envs 0 n msgs = (msgs, [], [], Inl rounds_exceeded)"
| "oa_loop lib to_input has_executor request_id model envs (Suc k) n msgs =
    (if re_cancelled (envs n) then (msgs, [], [], Inl UserCancellation)
     else (case oa_exchange lib to_input has_executor request_id model (envs n) of
             (new, ops, Return r) \<Rightarrow> (msgs @ new, [map oa_body msgs], round_status request_id n # ops, r)
           | (new, ops, NextRound) \<Rightarrow>
               (case oa_loop lib to_input has_executor request_id model envs k (Suc n) (msgs @ new) of
                  (msgs1, sent, ops1, r) \<Rightarrow> (msgs1, map oa_body msgs # sent, round_status request_id n # ops @ ops1, r))))"

definition stream_openai ::
  "'n chat_lib \<Rightarrow> ('n jvalue \<Rightarrow> ustr + 'i) \<Rightarrow> bool \<Rightarrow> ustr \<Rightarrow> ustr \<Rightarrow> ustr \<Rightarrow> ustr \<Rightarrow> image_data list option \<Rightarrow> (nat \<Rightarrow> 'i round_env) \<Rightarrow>
    'n oa_msg list \<Rightarrow> 'n oa_msg list \<times> 'n jvalue list list \<times> stream_op list \<times> (orch_error + ustr)" where
  "stream_openai lib to_input has_executor request_id model system_prompt prompt images envs msgs =
    oa_loop lib to_input has_executor request_id model envs MAX_TOOL_ROUNDS 0
      (plain_msg ''system'' (VString system_prompt) # msgs @ [plain_msg ''user'' (build_openai_content prompt images)])"

subsection \<open>Anthropic\<close>

text \<open>\<open>block["input"] = v\<close>; a block of type \<open>tool_use\<close> is an object.\<close>

fun set_input :: "'n jvalue \<Rightarrow> 'n jvalue \<Rightarrow> 'n jvalue" where
  "set_input v (VObject m) = VObject (obj_insert (lit ''input'') v m)"
| "set_input v block = block"

definition is_tool_use :: "'n jvalue \<Rightarrow> bool" where
  "is_tool_use block \<longleftrightarrow> v_as_str (v_at ''type'' block) = Some (lit ''tool_use'')"

text \<open>A block as it enters the history, and the error when its streamed input is no JSON.\<close>

definition finish_block :: "'n chat_lib \<Rightarrow> (nat \<times> ustr) list \<Rightarrow> nat \<times> 'n jvalue \<Rightarrow> 'n jvalue \<times> ustr option" where
  "finish_block lib inputs =
    (\<lambda>(index, block).
      if is_tool_use block then
        (case map_of inputs index of
           Some raw \<Rightarrow>
             if raw \<noteq> [] then
               (case cl_json lib raw of Inr v \<Rightarrow> (set_input v block, None) | Inl e \<Rightarrow> (set_input (VObject []) block, Some e))
             else (if v_as_object (v_at ''input'' block) = None then set_input (VObject []) block else block, None)
         | None \<Rightarrow> (if v_as_object (v_at ''input'' block) = None then set_input (VObject []) block else block, None))
      else (block, None))"

definition use_id :: "'n jvalue \<Rightarrow> ustr" where
  "use_id block = str_or [] (v_at ''id'' block)"

definition result_block :: "'n jvalue \<Rightarrow> ustr \<Rightarrow> bool \<Rightarrow> 'n jvalue" where
  "result_block block content is_error =
    jobj [(''type'', VString (lit ''tool_result'')), (''tool_use_id'', v_at ''id'' block), (''content'', VString content), (''is_error'', VBool is_error)]"

fun an_triage :: "('n jvalue \<times> ustr option) list \<Rightarrow> (ustr \<times> 'n jvalue) list \<times> 'n jvalue list \<times> ustr list" where
  "an_triage [] = ([], [], [])"
| "an_triage ((block, err) # blocks) =
    (case an_triage blocks of
       (executable, results, ids) \<Rightarrow>
         (case err of
            Some e \<Rightarrow> (executable, result_block block (lit ''invalid JSON in tool arguments: '' @ e) True # results, use_id block # ids)
          | None \<Rightarrow> ((str_or (lit ''unknown'') (v_at ''name'' block), v_at ''input'' block) # executable, results, ids)))"

fun an_replies :: "ustr list \<Rightarrow> (orch_error + ustr \<times> bool) list \<Rightarrow> 'n jvalue list \<Rightarrow> 'n jvalue list" where
  "an_replies ids results [] = []"
| "an_replies ids results (block # blocks) =
    (if use_id block \<in> set ids then an_replies ids results blocks
     else (case tool_result results of
             (result, is_error) \<Rightarrow> result_block block result is_error # an_replies (use_id block # ids) (tl results) blocks))"

definition an_content :: "'n chat_lib \<Rightarrow> 'n an_acc \<Rightarrow> ('n jvalue \<times> ustr option) list" where
  "an_content lib acc = map (finish_block lib (an_inputs acc)) (an_blocks acc)"

definition an_results ::
  "('n jvalue \<Rightarrow> ustr + 'i) \<Rightarrow> bool \<Rightarrow> (nat \<Rightarrow> 'i tool_env) \<Rightarrow> ('n jvalue \<times> ustr option) list \<Rightarrow> 'n jvalue list" where
  "an_results to_input has_executor envs tool_blocks =
    (case an_triage tool_blocks of
       (executable, results, ids) \<Rightarrow>
         results @ (if executable = [] then []
                    else an_replies ids (execute_tool_batch to_input has_executor envs executable) (map fst tool_blocks)))"

text \<open>What an answer adds to the history of each protocol.\<close>

definition an_answer ::
  "'n chat_lib \<Rightarrow> ('n jvalue \<Rightarrow> ustr + 'i) \<Rightarrow> bool \<Rightarrow> ustr \<Rightarrow> ustr \<Rightarrow> (nat \<Rightarrow> 'i tool_env) \<Rightarrow> 'n an_acc \<Rightarrow>
    'n an_msg list \<times> 'n oa_msg list \<times> stream_op list \<times> round_end" where
  "an_answer lib to_input has_executor request_id model envs acc =
    (let blocks = an_content lib acc;
         tool_blocks = filter (\<lambda>(block, err). is_tool_use block) blocks;
         assistant = \<lparr>am_role = lit ''assistant'', am_content = VArray (map fst blocks)\<rparr>;
         ops = emit_round_usage request_id model (an_usage acc)
     in if tool_blocks = []
        then ([assistant], [plain_msg ''assistant'' (VString (an_reply acc))], ops, Return (Inr (trim_chars (an_reply acc))))
        else ([assistant, \<lparr>am_role = lit ''user'', am_content = VArray (an_results to_input has_executor envs tool_blocks)\<rparr>], [], ops, NextRound))"

definition an_exchange ::
  "'n chat_lib \<Rightarrow> ('n jvalue \<Rightarrow> ustr + 'i) \<Rightarrow> bool \<Rightarrow> ustr \<Rightarrow> ustr \<Rightarrow> 'i round_env \<Rightarrow>
    'n an_msg list \<times> 'n oa_msg list \<times> stream_op list \<times> round_end" where
  "an_exchange lib to_input has_executor request_id model env =
    (case re_reply env of
       ReqCancelled \<Rightarrow> ([], [], [], Return (Inl UserCancellation))
     | ReqFailed e \<Rightarrow> ([], [], [], Return (Inl (HttpError e)))
     | Refused status body \<Rightarrow> ([], [], [], Return (Inl (classify_api_error lib ''Anthropic'' status (sanitize_error_message lib body))))
     | Streaming chunks \<Rightarrow>
         (case an_read lib chunks of
            (pieces, Inl e) \<Rightarrow> ([], [], map (OpPush request_id) pieces, Return (Inl e))
          | (pieces, Inr acc) \<Rightarrow>
              (case an_answer lib to_input has_executor request_id model (re_tools env) acc of
                 (new, new_oa, ops, fin) \<Rightarrow> (new, new_oa, map (OpPush request_id) pieces @ ops, fin))))"

fun an_loop ::
  "'n chat_lib \<Rightarrow> ('n jvalue \<Rightarrow> ustr + 'i) \<Rightarrow> bool \<Rightarrow> ustr \<Rightarrow> ustr \<Rightarrow> (nat \<Rightarrow> 'i round_env) \<Rightarrow> nat \<Rightarrow> nat \<Rightarrow> 'n an_msg list \<Rightarrow> 'n oa_msg list \<Rightarrow>
    'n an_msg list \<times> 'n oa_msg list \<times> 'n an_msg list list \<times> stream_op list \<times> (orch_error + ustr)" where
  "an_loop lib to_input has_executor request_id model envs 0 n msgs oa = (msgs, oa, [], [], Inl rounds_exceeded)"
| "an_loop lib to_input has_executor request_id model envs (Suc k) n msgs oa =
    (if re_cancelled (envs n) then (msgs, oa, [], [], Inl UserCancellation)
     else (case an_exchange lib to_input has_executor request_id model (envs n) of
             (new, new_oa, ops, Return r) \<Rightarrow> (msgs @ new, oa @ new_oa, [msgs], round_status request_id n # ops, r)
           | (new, new_oa, ops, NextRound) \<Rightarrow>
               (case an_loop lib to_input has_executor request_id model envs k (Suc n) (msgs @ new) (oa @ new_oa) of
                  (msgs1, oa1, sent, ops1, r) \<Rightarrow> (msgs1, oa1, msgs # sent, round_status request_id n # ops @ ops1, r))))"

definition stream_anthropic ::
  "'n chat_lib \<Rightarrow> ('n jvalue \<Rightarrow> ustr + 'i) \<Rightarrow> bool \<Rightarrow> ustr \<Rightarrow> ustr \<Rightarrow> ustr \<Rightarrow> image_data list option \<Rightarrow> (nat \<Rightarrow> 'i round_env) \<Rightarrow>
    'n an_msg list \<Rightarrow> 'n oa_msg list \<Rightarrow> 'n an_msg list \<times> 'n oa_msg list \<times> 'n an_msg list list \<times> stream_op list \<times> (orch_error + ustr)" where
  "stream_anthropic lib to_input has_executor request_id model prompt images envs msgs oa =
    an_loop lib to_input has_executor request_id model envs MAX_TOOL_ROUNDS 0
      (msgs @ [\<lparr>am_role = lit ''user'', am_content = build_anthropic_content prompt images\<rparr>])
      (oa @ [plain_msg ''user'' (build_openai_content prompt images)])"

end
