(* ===== verification/Chat_Url.thy ===== *)
theory Chat_Url
  imports Chat_Sse
begin

text \<open>
  \<open>crates/athena-core/src/orchestrator_support.rs\<close>: the check of the address of a provider, which is to keep the API key from crossing the
  network in the clear. The addresses of hosts are read as \<open>std::net\<close> reads them.
\<close>

section \<open>Addresses of the standard library\<close>

definition digit_value :: "uchar \<Rightarrow> nat option" where
  "digit_value c =
    (if 48 \<le> c \<and> c \<le> 57 then Some (c - 48)
     else if 97 \<le> c \<and> c \<le> 102 then Some (c - 87)
     else if 65 \<le> c \<and> c \<le> 70 then Some (c - 55) else None)"

definition is_digit_of :: "nat \<Rightarrow> uchar \<Rightarrow> bool" where
  "is_digit_of base c = (case digit_value c of Some d \<Rightarrow> d < base | None \<Rightarrow> False)"

text \<open>\<open>Parser::read_number\<close>: as many digits as there are, at most \<open>max_digits\<close>, below \<open>bound\<close>.\<close>

definition read_number :: "nat \<Rightarrow> nat \<Rightarrow> nat \<Rightarrow> bool \<Rightarrow> ustr \<Rightarrow> (nat \<times> ustr) option" where
  "read_number base max_digits bound zero_prefix s =
    (let ds = takeWhile (is_digit_of base) s; n = fold (\<lambda>c a. a * base + the (digit_value c)) ds 0 in
     if ds = [] \<or> max_digits < length ds \<or> bound \<le> n \<or> \<not> zero_prefix \<and> hd ds = 48 \<and> 1 < length ds then None
     else Some (n, drop (length ds) s))"

text \<open>\<open>Parser::read_separator\<close>: all but the first item of a list come after the separator.\<close>

definition after_sep :: "uchar \<Rightarrow> nat \<Rightarrow> ustr \<Rightarrow> ustr option" where
  "after_sep sep i s = (if i = 0 then Some s else (case s of c # s' \<Rightarrow> if c = sep then Some s' else None | [] \<Rightarrow> None))"

fun read_octets :: "nat \<Rightarrow> nat \<Rightarrow> ustr \<Rightarrow> (nat list \<times> ustr) option" where
  "read_octets 0 i s = Some ([], s)"
| "read_octets (Suc k) i s =
    (case Option.bind (after_sep 46 i s) (read_number 10 3 256 False) of
       None \<Rightarrow> None
     | Some (n, s') \<Rightarrow> map_option (\<lambda>(ns, r). (n # ns, r)) (read_octets k (Suc i) s'))"

definition read_ipv4 :: "ustr \<Rightarrow> (nat list \<times> ustr) option" where
  "read_ipv4 s = read_octets 4 0 s"

text \<open>\<open>read_groups\<close>: at most \<open>limit\<close> groups, of which an IPv4 address takes two; whether it ended with one.\<close>

fun read_groups :: "nat \<Rightarrow> nat \<Rightarrow> ustr \<Rightarrow> nat list \<times> bool \<times> ustr" where
  "read_groups 0 i s = ([], False, s)"
| "read_groups (Suc k) i s =
    (case (if 0 < k then Option.bind (after_sep 58 i s) read_ipv4 else None) of
       Some ([a, b, c, d], s') \<Rightarrow> ([a * 256 + b, c * 256 + d], True, s')
     | _ \<Rightarrow>
         (case Option.bind (after_sep 58 i s) (read_number 16 4 65536 True) of
            None \<Rightarrow> ([], False, s)
          | Some (g, s') \<Rightarrow> (case read_groups k (Suc i) s' of (gs, v4, r) \<Rightarrow> (g # gs, v4, r))))"

definition read_ipv6 :: "ustr \<Rightarrow> (nat list \<times> ustr) option" where
  "read_ipv6 s =
    (case read_groups 8 0 s of
       (head, head_v4, r) \<Rightarrow>
         if length head = 8 then Some (head, r)
         else if head_v4 \<or> take 2 r \<noteq> [58, 58] then None
         else (case read_groups (8 - (length head + 1)) 0 (drop 2 r) of
                 (tail, tail_v4, r') \<Rightarrow> Some (head @ replicate (8 - length head - length tail) 0 @ tail, r')))"

definition is_loopback_ip :: "ustr \<Rightarrow> bool" where
  "is_loopback_ip s =
    (case read_ipv4 s of
       Some (ns, []) \<Rightarrow> hd ns = 127
     | _ \<Rightarrow> read_ipv6 s = Some ([0, 0, 0, 0, 0, 0, 0, 1], []))"

section \<open>The check\<close>

definition until :: "uchar \<Rightarrow> ustr \<Rightarrow> ustr" where
  "until c s = takeWhile (\<lambda>x. x \<noteq> c) s"

definition after_last :: "uchar \<Rightarrow> ustr \<Rightarrow> ustr" where
  "after_last c s = rev (until c (rev s))"

text \<open>\<open>split_once("://")\<close>.\<close>

fun split_scheme :: "ustr \<Rightarrow> (ustr \<times> ustr) option" where
  "split_scheme [] = None"
| "split_scheme (c # s) =
    (if take 3 (c # s) = lit ''://'' then Some ([], drop 3 (c # s)) else map_option (\<lambda>(a, b). (c # a, b)) (split_scheme s))"

definition host_of :: "ustr \<Rightarrow> ustr" where
  "host_of authority =
    (let hostport = after_last 64 authority in
     case hostport of
       c # r \<Rightarrow> if c = 91 then until 93 r else until 58 hostport
     | [] \<Rightarrow> [])"

definition url_host :: "ustr \<Rightarrow> ustr option" where
  "url_host url = map_option (\<lambda>(scheme, r). host_of (until 47 r)) (split_scheme url)"

definition validate_base_url :: "ustr \<Rightarrow> orch_error + unit" where
  "validate_base_url url =
    (case split_scheme url of
       None \<Rightarrow> Inl (Generic (lit ''Base URL must include a scheme (https:// or http://)''))
     | Some (scheme0, r) \<Rightarrow>
         (let scheme = map (\<lambda>c. if 65 \<le> c \<and> c \<le> 90 then c + 32 else c) scheme0 in
          if scheme \<noteq> lit ''https'' \<and> scheme \<noteq> lit ''http''
          then Inl (Generic (lit ''Base URL must use http:// or https:// (got '' @ [39] @ scheme @ lit ''://'' @ [39] @ lit '')''))
          else (let host = (case url_host url of Some h \<Rightarrow> h | None \<Rightarrow> []) in
                if host = [] then Inl (Generic (lit ''Base URL must have a valid hostname''))
                else (let is_loopback = (is_loopback_ip host \<or> host = lit ''localhost'') in
                      if scheme = lit ''http'' \<and> \<not> is_loopback then Inl (Generic (lit ''Base URL must use HTTPS for non-local hosts''))
                      else if \<not> is_loopback \<and> 46 \<notin> set host then Inl (Generic (lit ''Base URL must have a valid hostname''))
                      else Inr ()))))"

section \<open>Where a request goes\<close>

text \<open>
  The host of a URL as RFC 3986 and the clients of HTTP read it: the authority ends at the first slash, question mark or hash sign (a
  backslash counts as a slash).
\<close>

definition request_host :: "ustr \<Rightarrow> ustr option" where
  "request_host url = map_option (\<lambda>(scheme, r). host_of (takeWhile (\<lambda>x. x \<notin> {47, 63, 35, 92}) r)) (split_scheme url)"

definition is_local :: "ustr \<Rightarrow> bool" where
  "is_local host \<longleftrightarrow> is_loopback_ip host \<or> host = lit ''localhost''"

definition sent_in_clear :: "ustr \<Rightarrow> bool" where
  "sent_in_clear url =
    (case split_scheme url of
       None \<Rightarrow> False
     | Some (scheme, r) \<Rightarrow> map (\<lambda>c. if 65 \<le> c \<and> c \<le> 90 then c + 32 else c) scheme = lit ''http'')"

lemma hosts_agree:
  assumes "\<forall>scheme r. split_scheme url = Some (scheme, r) \<longrightarrow> set (until 47 r) \<inter> {63, 35, 92} = {}"
  shows "request_host url = url_host url"
proof -
  have "takeWhile (\<lambda>x. x \<notin> {47, 63, 35, 92}) r = until 47 r" if "set (until 47 r) \<inter> {63, 35, 92} = {}" for r :: ustr
    using that by (induction r) (auto simp: until_def split: if_splits)
  then show ?thesis using assms unfolding request_host_def url_host_def by (auto split: option.splits simp: option.map_comp intro!: option.map_cong0 map_option_cong)
qed

text \<open>
  An API key goes over an unencrypted connection only to the machine itself, for an accepted address whose authority holds no
  question mark, hash sign or backslash.
\<close>

lemma cleartext_stays_local:
  assumes "validate_base_url url = Inr ()" "sent_in_clear url"
    and "\<forall>scheme r. split_scheme url = Some (scheme, r) \<longrightarrow> set (until 47 r) \<inter> {63, 35, 92} = {}"
  shows "\<exists>host. request_host url = Some host \<and> is_local host"
  using assms(1,2) hosts_agree [OF assms(3)]
  by (auto simp: validate_base_url_def sent_in_clear_def is_local_def url_host_def Let_def split: option.splits if_splits)

text \<open>Without that condition it does not hold: the check takes the query for the host.\<close>

lemmas url_simps =
  validate_base_url_def sent_in_clear_def request_host_def url_host_def host_of_def until_def after_last_def Let_def

lemma example_not_ip: "\<not> is_loopback_ip (lit ''example.com'')"
proof -
  have "read_ipv4 (lit ''example.com'') = None"
    using read_octets.simps(2) [of 3 0 "lit ''example.com''"]
    by (simp add: read_ipv4_def after_sep_def read_number_def is_digit_of_def digit_value_def)
  moreover have "read_groups 7 1 (lit ''xample.com'') = ([], False, lit ''xample.com'')"
    using read_groups.simps(2) [of 6 1 "lit ''xample.com''"] by (simp add: after_sep_def)
  then have "read_groups 8 0 (lit ''example.com'') = ([14], False, lit ''xample.com'')"
    using read_groups.simps(2) [of 7 0 "lit ''example.com''"] calculation
    by (simp add: after_sep_def read_number_def is_digit_of_def digit_value_def)
  then have "read_ipv6 (lit ''example.com'') = None" by (simp add: read_ipv6_def)
  ultimately show ?thesis by (simp add: is_loopback_ip_def)
qed

lemma cleartext_to_public_host:
  "validate_base_url (lit ''http://example.com?@localhost/v1'') = Inr () \<and> sent_in_clear (lit ''http://example.com?@localhost/v1'') \<and>
   request_host (lit ''http://example.com?@localhost/v1'') = Some (lit ''example.com'') \<and> \<not> is_local (lit ''example.com'')"
  using example_not_ip by (simp add: url_simps is_local_def)

end
