(* ===== verification/Chat_Turn.thy ===== *)
theory Chat_Turn
  imports Chat_Stream Chat_Url Session_Props
begin

text \<open>
  \<open>orchestrator_stream.rs\<close> and \<open>orchestrator_session.rs\<close> of \<open>crates/athena-core/src\<close>: a streamed turn from the request to the event
  that ends it, and the conversations behind the turns. The session store is the table of sessions that
  Session_Props shows it to be; the delayed save of a conversation is a task that may run at any later moment. The
  conversation lock makes turns sequential.
\<close>

section \<open>The orchestrator\<close>

text \<open>
  The slot of the delayed save holds a session and the snapshot that waits to be written, or nothing when its task has
  finished; tasks of other sessions run on detached.
\<close>

record 'n orch =
  oc_anthropic :: "'n an_msg list"
  oc_openai :: "'n oa_msg list"
  oc_session :: "ustr option"
  oc_requests :: "ustr \<rightharpoonup> bool"
  oc_store :: "session_table option"
  oc_slot :: "(ustr \<times> session_message list option) option"
  oc_detached :: "(ustr \<times> session_message list) list"

definition register_request :: "ustr \<Rightarrow> 'n orch \<Rightarrow> 'n orch \<times> (ustr + unit)" where
  "register_request request_id oc =
    (if oc_requests oc request_id \<noteq> None
     then (oc, Inl (lit ''request '' @ [39] @ request_id @ [39] @ lit '' is already active''))
     else (oc\<lparr>oc_requests := (oc_requests oc)(request_id \<mapsto> False)\<rparr>, Inr ()))"

definition cancel_request :: "ustr \<Rightarrow> 'n orch \<Rightarrow> 'n orch \<times> bool" where
  "cancel_request request_id oc =
    (if oc_requests oc request_id = None then (oc, False)
     else (oc\<lparr>oc_requests := (oc_requests oc)(request_id \<mapsto> True)\<rparr>, True))"

definition finish_request :: "ustr \<Rightarrow> 'n orch \<Rightarrow> 'n orch" where
  "finish_request request_id oc = oc\<lparr>oc_requests := (oc_requests oc)(request_id := None)\<rparr>"

section \<open>Conversations\<close>

definition block_text :: "'n jvalue \<Rightarrow> ustr option" where
  "block_text b =
    (case v_as_str b of
       Some s \<Rightarrow> Some s
     | None \<Rightarrow> if v_as_str (v_at ''type'' b) = Some (lit ''text'') then v_as_str (v_at ''text'' b) else None)"

fun join_lines :: "ustr list \<Rightarrow> ustr" where
  "join_lines [] = []"
| "join_lines [s] = s"
| "join_lines (s # ss) = s @ 10 # join_lines ss"

fun content_text :: "'n chat_lib \<Rightarrow> 'n jvalue \<Rightarrow> ustr" where
  "content_text lib (VString s) = s"
| "content_text lib VNull = []"
| "content_text lib (VArray blocks) = join_lines (List.map_filter block_text blocks)"
| "content_text lib v = cl_print lib v"

text \<open>The messages that are kept, each with the identifier and the time that it gets.\<close>

definition stored_msg :: "'n chat_lib \<Rightarrow> bytes \<times> nat \<Rightarrow> 'n oa_msg \<Rightarrow> session_message" where
  "stored_msg lib stamp m =
    \<lparr>sm_id = fst stamp, sm_role = (if om_role m = lit ''user'' then RUser else RAthena), sm_content = utf8_string (content_text lib (om_content m)),
     sm_timestamp = snd stamp, sm_is_error = None, sm_image_refs = None\<rparr>"

definition is_kept :: "'n oa_msg \<Rightarrow> bool" where
  "is_kept m \<longleftrightarrow> om_role m \<noteq> lit ''system'' \<and> om_role m \<noteq> lit ''tool''"

definition snapshot_store_messages :: "'n chat_lib \<Rightarrow> (nat \<Rightarrow> bytes \<times> nat) \<Rightarrow> 'n oa_msg list \<Rightarrow> session_message list" where
  "snapshot_store_messages lib stamps openai = map (\<lambda>(k, m). stored_msg lib (stamps k) m) (enumerate 0 (filter is_kept openai))"

definition save_snapshot :: "nat \<Rightarrow> ustr \<times> session_message list \<Rightarrow> session_table \<Rightarrow> session_table" where
  "save_snapshot now = (\<lambda>(session_id, snapshot) A. fst (table_exec now (ScUpdate (utf8_string session_id) None (Some snapshot)) A))"

definition try_auto_save :: "'n chat_lib \<Rightarrow> (nat \<Rightarrow> bytes \<times> nat) \<Rightarrow> 'n orch \<Rightarrow> 'n orch" where
  "try_auto_save lib stamps oc =
    (case (oc_session oc, oc_store oc) of
       (Some session_id, Some A) \<Rightarrow>
         (let snapshot = snapshot_store_messages lib stamps (oc_openai oc);
              oc1 = (case oc_slot oc of
                       Some (sid, Some waiting) \<Rightarrow> if sid = session_id then oc else oc\<lparr>oc_detached := oc_detached oc @ [(sid, waiting)]\<rparr>
                     | _ \<Rightarrow> oc)
          in oc1\<lparr>oc_slot := Some (session_id, Some snapshot)\<rparr>)
     | _ \<Rightarrow> oc)"

text \<open>The task of the slot, or a detached one, runs: two seconds after it was made or later.\<close>

definition slot_fires :: "nat \<Rightarrow> 'n orch \<Rightarrow> 'n orch" where
  "slot_fires now oc =
    (case oc_slot oc of
       Some (sid, Some waiting) \<Rightarrow> oc\<lparr>oc_store := map_option (save_snapshot now (sid, waiting)) (oc_store oc), oc_slot := Some (sid, None)\<rparr>
     | _ \<Rightarrow> oc)"

definition detached_fires :: "nat \<Rightarrow> 'n orch \<Rightarrow> 'n orch" where
  "detached_fires now oc =
    (case oc_detached oc of
       [] \<Rightarrow> oc
     | t # ts \<Rightarrow> oc\<lparr>oc_store := map_option (save_snapshot now t) (oc_store oc), oc_detached := ts\<rparr>)"

text \<open>Waiting for the task of the slot.\<close>

definition flush_auto_save :: "nat \<Rightarrow> 'n orch \<Rightarrow> 'n orch" where
  "flush_auto_save now oc = (slot_fires now oc)\<lparr>oc_slot := None\<rparr>"

definition save_conversation :: "'n chat_lib \<Rightarrow> nat \<Rightarrow> (nat \<Rightarrow> bytes \<times> nat) \<Rightarrow> ustr \<Rightarrow> 'n orch \<Rightarrow> 'n orch \<times> (session_error + unit)" where
  "save_conversation lib now stamps session_id oc =
    (case oc_store oc of
       None \<Rightarrow> (oc, Inr ())
     | Some A \<Rightarrow>
         (case table_exec now (ScUpdate (utf8_string session_id) None (Some (snapshot_store_messages lib stamps (oc_openai oc)))) A of
            (A1, r) \<Rightarrow> (oc\<lparr>oc_store := Some A1\<rparr>, map_sum id (\<lambda>reply. ()) r)))"

fun anthropic_role :: "message_role \<Rightarrow> ustr" where
  "anthropic_role RUser = lit ''user''"
| "anthropic_role RAthena = lit ''assistant''"
| "anthropic_role RSystem = lit ''user''"

fun openai_role :: "message_role \<Rightarrow> string" where
  "openai_role RUser = ''user''"
| "openai_role RAthena = ''assistant''"
| "openai_role RSystem = ''system''"

definition load_conversation :: "nat \<Rightarrow> ustr option \<Rightarrow> ustr \<Rightarrow> 'n orch \<Rightarrow> 'n orch \<times> (orch_error + unit)" where
  "load_conversation now store_error session_id oc0 =
    (let oc = flush_auto_save now oc0 in
     case oc_store oc of
       None \<Rightarrow> (oc, Inr ())
     | Some A \<Rightarrow>
         (case store_error of
            Some e \<Rightarrow> (oc, Inl (Generic e))
          | None \<Rightarrow>
              (case A (utf8_string session_id) of
                 None \<Rightarrow> (oc, Inl (Generic (lit ''Session '' @ [39] @ session_id @ [39] @ lit '' not found'')))
               | Some s \<Rightarrow>
                   (oc\<lparr>oc_anthropic := map (\<lambda>m. \<lparr>am_role = anthropic_role (sm_role m), am_content = VString (utf8_chars (sm_content m))\<rparr>) (cs_messages s),
                       oc_openai := map (\<lambda>m. plain_msg (openai_role (sm_role m)) (VString (utf8_chars (sm_content m)))) (cs_messages s),
                       oc_session := Some session_id\<rparr>, Inr ()))))"

definition clear_context :: "nat \<Rightarrow> 'n orch \<Rightarrow> 'n orch" where
  "clear_context now oc = (flush_auto_save now oc)\<lparr>oc_anthropic := [], oc_openai := [], oc_session := None\<rparr>"

text \<open>An entry of a given history is a role, a text and its images.\<close>

definition set_session_context :: "nat \<Rightarrow> (ustr \<times> ustr \<times> image_data list option) list \<Rightarrow> 'n orch \<Rightarrow> 'n orch" where
  "set_session_context now history oc =
    (flush_auto_save now oc)
      \<lparr>oc_anthropic := map (\<lambda>(role, s, images). \<lparr>am_role = role, am_content = build_anthropic_content s images\<rparr>) history,
       oc_openai := map (\<lambda>(role, s, images). (plain_msg ''user'' (build_openai_content s images))\<lparr>om_role := role\<rparr>) history\<rparr>"

section \<open>A turn\<close>

datatype llm_provider = Anthropic | OpenAI | NvidiaNim | Lmstudio

record provider_config =
  pc_provider :: llm_provider
  pc_api_key :: ustr
  pc_model :: ustr
  pc_system_prompt :: ustr
  pc_base_url :: "ustr option"

text \<open>
  What a turn finds: whether the lock stays taken, the time, a failure of the store, the snapshot of the application's state, the
  conventions of the project, the configuration, the key in the environment, the built-in prompt, and each round.
\<close>

record 'i turn_env =
  tv_busy :: bool
  tv_now :: nat
  tv_store_error :: "ustr option"
  tv_snapshot :: ustr
  tv_context :: "ustr option"
  tv_config :: "provider_config option"
  tv_env_key :: "ustr option"
  tv_system_prompt :: ustr
  tv_rounds :: "nat \<Rightarrow> 'i round_env"
  tv_stamps :: "nat \<Rightarrow> bytes \<times> nat"

definition stream_config :: "'i turn_env \<Rightarrow> orch_error + llm_provider \<times> ustr \<times> ustr \<times> ustr \<times> ustr option" where
  "stream_config env =
    (let snapshot = tv_snapshot env @
           (case tv_context env of
              Some ctx \<Rightarrow> if trim_chars ctx \<noteq> [] then [10, 10] @ lit ''## Project conventions'' @ [10, 10] @ ctx else []
            | None \<Rightarrow> [])
     in case tv_config env of
          Some config \<Rightarrow>
            Inr (pc_provider config, pc_api_key config, pc_model config,
                 (if trim_chars (pc_system_prompt config) = [] then tv_system_prompt env else pc_system_prompt config) @ [10, 10] @ snapshot,
                 pc_base_url config)
        | None \<Rightarrow>
            (case tv_env_key env of
               None \<Rightarrow> Inl MissingApiKey
             | Some key \<Rightarrow> Inr (Anthropic, key, lit ''claude-sonnet-4-6'', tv_system_prompt env @ [10, 10] @ snapshot, None)))"

text \<open>The text of an error, as \<open>Display\<close> prints it.\<close>

fun error_text :: "orch_error \<Rightarrow> ustr" where
  "error_text (HttpError e) = lit ''HTTP request failed: '' @ e"
| "error_text MissingApiKey = lit ''API key is required. Please set it in Settings.''"
| "error_text LmStudioVisionNotSupported = lit ''Image attachments are not supported by LM Studio''"
| "error_text (SerializationError e) = lit ''JSON serialization failed: '' @ e"
| "error_text (ToolFailure action reason) = lit ''I couldn'' @ [39] @ lit ''t '' @ action @ [32, 0x2014, 32] @ reason @ lit ''.''"
| "error_text (LLMApiFailure status) =
    lit ''The LLM API returned an error ('' @ map unat (dec status) @ lit ''). Check your API key and base URL in settings.''"
| "error_text (StateConflict resource operation) =
    lit ''Two operations conflicted on '' @ resource @ lit ''. I cancelled '' @ operation @ lit ''. Try again.''"
| "error_text UserCancellation = lit ''Cancelled by user''"
| "error_text (ToolTimeout tool_name timeout partial_result) =
    lit ''The '' @ tool_name @ lit '' call timed out after '' @ map unat (dec timeout) @ lit ''s. '' @ partial_result"
| "error_text (ModelUnavailable status detail) =
    lit ''The selected model is unavailable (HTTP '' @ map unat (dec status) @ lit ''): '' @ detail @ lit ''. Pick another model in Settings.''"
| "error_text (Generic message) = message"

definition busy_message :: ustr where
  "busy_message = lit ''busy: another turn is waiting on a user answer '' @ [0x2014] @ lit '' answer or cancel it, then retry''"

datatype 'n sent = SentOpenAI "'n jvalue list list" | SentAnthropic "'n an_msg list list" | NothingSent

definition fail_turn ::
  "ustr \<Rightarrow> orch_error \<Rightarrow> stream_op list \<Rightarrow> 'n orch \<Rightarrow> 'n orch \<times> 'n sent \<times> stream_op list \<times> (orch_error + ustr)" where
  "fail_turn request_id e ops oc =
    (finish_request request_id oc, NothingSent, ops @ [OpEmit (StreamError request_id (error_text e) False False)], Inl e)"

definition end_event :: "ustr \<Rightarrow> orch_error + ustr \<Rightarrow> stream_event" where
  "end_event request_id r =
    (case r of
       Inr reply \<Rightarrow> Completed request_id reply
     | Inl e \<Rightarrow> StreamError request_id (error_text e) (e = UserCancellation) (case e of ModelUnavailable status detail \<Rightarrow> True | _ \<Rightarrow> False))"

text \<open>The provider's part of a turn on the loaded conversation.\<close>

definition run_provider ::
  "'n chat_lib \<Rightarrow> ('n jvalue \<Rightarrow> ustr + 'i) \<Rightarrow> bool \<Rightarrow> ustr \<Rightarrow> llm_provider \<Rightarrow> ustr \<Rightarrow> ustr \<Rightarrow> ustr \<Rightarrow> image_data list option \<Rightarrow> 'i turn_env \<Rightarrow> 'n orch \<Rightarrow>
    'n orch \<times> 'n sent \<times> stream_op list \<times> (orch_error + ustr)" where
  "run_provider lib to_input has_executor request_id provider model system_prompt prompt images env oc =
    (if provider = Anthropic then
       (case stream_anthropic lib to_input has_executor request_id model prompt images (tv_rounds env) (oc_anthropic oc) (oc_openai oc) of
          (an, oa, sent, ops, r) \<Rightarrow> (oc\<lparr>oc_anthropic := an, oc_openai := oa\<rparr>, SentAnthropic sent, ops, r))
     else
       (case stream_openai lib to_input has_executor request_id model system_prompt prompt images (tv_rounds env) (oc_openai oc) of
          (oa, sent, ops, r) \<Rightarrow> (oc\<lparr>oc_openai := oa\<rparr>, SentOpenAI sent, ops, r)))"

definition stream_message ::
  "'n chat_lib \<Rightarrow> ('n jvalue \<Rightarrow> ustr + 'i) \<Rightarrow> bool \<Rightarrow> 'i turn_env \<Rightarrow> ustr \<Rightarrow> ustr \<Rightarrow> ustr \<Rightarrow> image_data list option \<Rightarrow> 'n orch \<Rightarrow>
    'n orch \<times> 'n sent \<times> stream_op list \<times> (orch_error + ustr)" where
  "stream_message lib to_input has_executor env request_id session_id prompt images oc =
    (if tv_busy env then fail_turn request_id (Generic busy_message) [] oc
     else (let started = [OpEmit (Started request_id session_id)] in
       case load_conversation (tv_now env) (tv_store_error env) session_id oc of
         (oc1, Inl e) \<Rightarrow> fail_turn request_id e started oc1
       | (oc1, Inr u) \<Rightarrow>
           (let oc2 = oc1\<lparr>oc_session := Some session_id\<rparr> in
            case stream_config env of
              Inl e \<Rightarrow> fail_turn request_id e started oc2
            | Inr (provider, api_key, model, system_prompt, base_url) \<Rightarrow>
                (case (case base_url of Some url \<Rightarrow> validate_base_url url | None \<Rightarrow> Inr ()) of
                   Inl e \<Rightarrow> fail_turn request_id e started oc2
                 | Inr u \<Rightarrow>
                     if provider = Lmstudio \<and> images \<noteq> None \<and> images \<noteq> Some [] then fail_turn request_id LmStudioVisionNotSupported started oc2
                     else (case run_provider lib to_input has_executor request_id provider model system_prompt prompt images env oc2 of
                             (oc3, sent, ops, r) \<Rightarrow>
                               (let oc4 = (case r of Inr reply \<Rightarrow> try_auto_save lib (tv_stamps env) oc3 | Inl e \<Rightarrow> oc3)
                                in (finish_request request_id oc4, sent, started @ ops @ [OpEmit (end_event request_id r)], r)))))))"

end
