(* ===== verification/Chat_Stream_Props.thy ===== *)
theory Chat_Stream_Props
  imports Chat_Stream "HOL-Library.Multiset"
begin

text \<open>
  What the streamed turns guarantee: how an answer is cut into chunks does not matter, every request that is sent has a
  reply to each tool call in it, and where the code falls short of that for Anthropic.
\<close>

section \<open>Chunks\<close>

lemma position_append_Some: "position P xs = Some i \<Longrightarrow> position P (xs @ ys) = Some i"
  by (induction xs arbitrary: i) (auto split: if_splits)

lemma drain_append:
  "sse_drain f (p @ c) acc =
    (case sse_drain f p acc of
       (acc1, rest, d1, Some e) \<Rightarrow> (acc1, rest @ c, d1, Some e)
     | (acc1, rest, d1, None) \<Rightarrow> (case sse_drain f (rest @ c) acc1 of (acc2, rest2, d2, e) \<Rightarrow> (acc2, rest2, d1 @ d2, e)))"
proof (induction f p acc rule: sse_drain.induct)
  case (1 f p acc)
  show ?case
  proof (cases "position (\<lambda>b. b = 10) p")
    case None
    then show ?thesis by (simp add: sse_drain.simps [of f p] split: prod.splits)
  next
    case (Some n)
    then have n: "Suc n \<le> length p" by (simp add: position_Some)
    show ?thesis
      using Some n 1 [OF Some] position_append_Some [OF Some, of c]
      by (subst (1 2) sse_drain.simps) (auto split: sum.splits prod.splits option.splits)
  qed
qed

lemma read_merge: "sse_read f (Chunk c # Chunk c' # cs) p acc = sse_read f (Chunk (c @ c') # cs) p acc"
  using drain_append [of f "p @ c" c' acc] by (auto split: prod.splits option.splits)

lemma read_concat: "sse_read f (Chunk c # map Chunk cs @ rest) p acc = sse_read f (Chunk (c @ concat cs) # rest) p acc"
proof (induction cs arbitrary: c)
  case (Cons c' cs)
  then show ?case using read_merge [of f c c' "map Chunk cs @ rest" p acc] by (simp del: sse_read.simps)
qed simp

text \<open>
  C28. How the network cuts an answer does not matter: whatever chunks the bytes of a response arrive in, also cut inside a line or a
  character, the text that is passed on, the accumulated answer and the error are those of the bytes in one piece; the same
  holds when the connection then fails or the request is cancelled.
\<close>

theorem chunks_do_not_matter:
  "oa_read lib (Chunk c # map Chunk cs @ rest) = oa_read lib (Chunk (c @ concat cs) # rest) \<and>
   an_read lib (Chunk c # map Chunk cs @ rest) = an_read lib (Chunk (c @ concat cs) # rest)"
  by (simp only: oa_read_def an_read_def read_concat)

section \<open>Objects\<close>

lemma lit_eq: "lit s = lit t \<longleftrightarrow> s = t"
  by (rule inj_map_eq_map) (simp add: inj_def)

lemma fold_obj_insert: "map_of (fold (\<lambda>(k, v). obj_insert (lit k) v) kvs m) (lit key) = (case map_of (rev kvs) key of Some v \<Rightarrow> Some v | None \<Rightarrow> map_of m (lit key))"
  by (induction kvs arbitrary: m) (auto simp: lit_eq map_add_def split: option.splits)

lemma j_get_jobj: "j_get key (jobj kvs) = map_of (rev kvs) key"
  by (simp add: j_get_def jobj_def v_get_def fold_obj_insert split: option.split)

lemma oa_body_fields:
  "j_get ''tool_call_id'' (oa_body m) = map_option VString (om_tool_call_id m)"
  "j_get ''tool_calls'' (oa_body m) = om_tool_calls m"
  by (auto simp: oa_body_def j_get_jobj add_field_def split: option.split)

lemma call_id_tool_call [simp]: "call_id (tool_call i name args) = i"
  by (simp add: call_id_def tool_call_def v_at_def j_get_jobj str_or_def)

section \<open>Tool calls have replies\<close>

text \<open>
  The rule of OpenAI's protocol, for the messages of a request: a message with tool calls is followed by one reply for
  each of them, by its identifier, before anything else; \<open>pending\<close> are the calls without a reply so far.
\<close>

definition body_calls :: "'n jvalue \<Rightarrow> ustr list" where
  "body_calls b = (case Option.bind (j_get ''tool_calls'' b) v_as_array of Some cs \<Rightarrow> map call_id cs | None \<Rightarrow> [])"

fun answered :: "ustr list \<Rightarrow> 'n jvalue list \<Rightarrow> bool" where
  "answered pending [] \<longleftrightarrow> pending = []"
| "answered pending (b # bs) \<longleftrightarrow>
    (case j_get ''tool_call_id'' b of
       Some v \<Rightarrow> str_or [] v \<in> set pending \<and> answered (remove1 (str_or [] v) pending) bs
     | None \<Rightarrow> pending = [] \<and> answered (body_calls b) bs)"

lemma answered_append: "answered pending bs \<Longrightarrow> answered pending (bs @ cs) \<longleftrightarrow> answered [] cs"
  by (induction pending bs rule: answered.induct) (auto split: option.splits)

lemma answered_replies:
  "mset ids = mset pending \<Longrightarrow> map om_tool_call_id rs = map Some ids \<Longrightarrow> answered pending (map oa_body rs)"
proof (induction rs arbitrary: ids pending)
  case (Cons r rs)
  obtain i js where ids: "ids = i # js" "om_tool_call_id r = Some i" "map om_tool_call_id rs = map Some js" using Cons.prems(2) by (cases ids) auto
  have "i \<in> set pending" "mset js = mset (remove1 i pending)" using mset_eq_setD [OF Cons.prems(1)] Cons.prems(1) [symmetric] ids(1) by auto
  then show ?case using Cons.IH ids by (simp add: oa_body_fields str_or_def)
qed simp

definition malformed :: "(ustr \<rightharpoonup> ustr + 'n jvalue) \<Rightarrow> ustr \<Rightarrow> bool" where
  "malformed parsed i \<longleftrightarrow> (\<exists>e. parsed i = Some (Inl e))"

lemma triage_spec:
  assumes "triage parsed calls = (executable, replies, ids)"
  shows "map om_tool_call_id replies = map Some (filter (malformed parsed) (map call_id calls))"
    and "ids = filter (malformed parsed) (map call_id calls)"
    and "executable = [] \<longleftrightarrow> filter (\<lambda>i. \<not> malformed parsed i) (map call_id calls) = []"
  using assms
  by (induction calls arbitrary: executable replies ids)
    (auto simp: tool_msg_def malformed_def split: prod.splits option.splits sum.splits)

lemma batch_replies_ids:
  "map om_tool_call_id (batch_replies ids results calls) = map Some (filter (\<lambda>i. i \<notin> set ids) (map call_id calls))"
  by (induction ids results calls rule: batch_replies.induct) (auto simp: tool_msg_def split: prod.splits)

lemma tools_answered: "answered [] (map oa_body (oa_tools lib to_input has_executor envs acc))"
proof -
  define calls where "calls = map (\<lambda>(index, i, name, args). tool_call i name args :: 'a jvalue) (oa_calls acc)"
  define parsed where "parsed = parsed_inputs lib (oa_calls acc)"
  obtain executable replies ids where t: "triage parsed calls = (executable, replies, ids)" by (rule prod_cases3)
  define rest where
    "rest = (if executable = [] then [] else batch_replies ids (execute_tool_batch to_input has_executor envs executable) calls)"
  note ts = triage_spec [OF t]
  have "filter (\<lambda>i. i \<notin> set ids) (map call_id calls) = filter (\<lambda>i. \<not> malformed parsed i) (map call_id calls)"
    using ts(2) by (intro filter_cong) auto
  then have "map om_tool_call_id rest = map Some (filter (\<lambda>i. \<not> malformed parsed i) (map call_id calls))"
    using ts(3) unfolding rest_def by (simp add: batch_replies_ids)
  then have "answered (map call_id calls) (map oa_body (replies @ rest))"
    using ts(1) by (intro answered_replies [of "filter (malformed parsed) (map call_id calls) @ filter (\<lambda>i. \<not> malformed parsed i) (map call_id calls)"])
      (simp_all add: mset_filter multiset_partition [symmetric])
  then show ?thesis
    using t by (simp add: oa_tools_def Let_def oa_body_fields body_calls_def plain_msg_def calls_def [symmetric] parsed_def [symmetric] rest_def)
qed

lemma plain_answered: "answered [] (map oa_body [plain_msg role content])"
  by (simp add: oa_body_fields body_calls_def plain_msg_def)

lemma exchange_answered:
  assumes "oa_exchange lib to_input has_executor request_id model env = (new, ops, fin)"
  shows "answered [] (map oa_body new)"
  using assms tools_answered plain_answered
  by (auto simp: oa_exchange_def oa_answer_def Let_def split: http_reply.splits prod.splits sum.splits if_splits)

lemma loop_answered:
  assumes "oa_loop lib to_input has_executor request_id model envs k n msgs = (msgs', sent, ops, r)" "answered [] (map oa_body msgs)"
  shows "answered [] (map oa_body msgs') \<and> list_all (answered []) sent \<and> length sent \<le> k"
  using assms
proof (induction k arbitrary: n msgs msgs' sent ops r)
  case (Suc k)
  obtain new ops0 fin where x: "oa_exchange lib to_input has_executor request_id model (envs n) = (new, ops0, fin)" by (rule prod_cases3)
  have new: "answered [] (map oa_body (msgs @ new))"
    using answered_append [OF Suc.prems(2)] exchange_answered [OF x] by simp
  show ?case
  proof (cases fin)
    case NextRound
    obtain msgs1 sent1 ops1 r1 where l: "oa_loop lib to_input has_executor request_id model envs k (Suc n) (msgs @ new) = (msgs1, sent1, ops1, r1)"
      by (rule prod_cases4)
    show ?thesis using Suc.IH [OF l new] Suc.prems x l NextRound by (auto split: if_splits)
  qed (use Suc.prems x new in \<open>auto split: if_splits\<close>)
qed simp

text \<open>
  C8. Every request that a turn sends to a provider with OpenAI's protocol is well-formed, and so is the history that it leaves: each
  tool call has exactly one reply with its identifier, directly after the message that makes the calls. This holds whatever the provider
  answers, for malformed arguments, repeated or missing identifiers, failing tools, a cancellation at any moment and a
  turn that is given up; and at most twelve requests are sent.
\<close>

theorem tool_calls_answered:
  assumes "answered [] (map oa_body msgs)"
    and "stream_openai lib to_input has_executor request_id model system_prompt prompt images envs msgs = (msgs', sent, ops, r)"
  shows "answered [] (map oa_body msgs') \<and> list_all (answered []) sent \<and> length sent \<le> 12"
proof -
  have "answered [] (map oa_body (plain_msg ''system'' (VString system_prompt) # msgs @ [plain_msg ''user'' (build_openai_content prompt images)]))"
    using answered_append [OF assms(1)] plain_answered by (simp add: oa_body_fields body_calls_def plain_msg_def)
  from loop_answered [OF assms(2) [unfolded stream_openai_def] this] show ?thesis by (simp add: MAX_TOOL_ROUNDS_def)
qed

section \<open>Tool uses of Anthropic\<close>

text \<open>
  The rule of Anthropic's protocol: an assistant's message with \<open>tool_use\<close> blocks is followed by a message of the user with one
  \<open>tool_result\<close> for each, by its identifier. It is stated for identifiers that differ, which Anthropic promises.
\<close>

definition use_ids :: "'n an_msg \<Rightarrow> ustr list" where
  "use_ids m = (case v_as_array (am_content m) of Some blocks \<Rightarrow> map use_id (filter is_tool_use blocks) | None \<Rightarrow> [])"

definition result_id :: "'n jvalue \<Rightarrow> ustr" where
  "result_id b = str_or [] (v_at ''tool_use_id'' b)"

definition result_ids :: "'n an_msg \<Rightarrow> ustr list" where
  "result_ids m = (case v_as_array (am_content m) of Some blocks \<Rightarrow> map result_id blocks | None \<Rightarrow> [])"

fun an_answered :: "'n an_msg list \<Rightarrow> bool" where
  "an_answered [] \<longleftrightarrow> True"
| "an_answered (m # ms) \<longleftrightarrow>
    (am_role m = lit ''assistant'' \<and> use_ids m \<noteq> [] \<and> distinct (use_ids m) \<longrightarrow>
      (case ms of [] \<Rightarrow> False | m' # ms' \<Rightarrow> am_role m' = lit ''user'' \<and> mset (result_ids m') = mset (use_ids m))) \<and>
    an_answered ms"

lemma an_answered_append: "an_answered ms \<Longrightarrow> an_answered new \<Longrightarrow> an_answered (ms @ new)"
  by (induction ms rule: an_answered.induct) (auto split: list.splits)

lemma v_get_insert: "k \<noteq> k' \<Longrightarrow> v_get k (obj_insert (lit k') v m) = v_get k m"
  by (simp add: v_get_def lit_eq)

lemma set_input_fields: "key \<noteq> ''input'' \<Longrightarrow> v_at key (set_input v block) = v_at key block"
  by (cases "(v, block)" rule: set_input.cases) (simp_all add: v_at_def j_get_def v_get_insert del: list.map)

lemma finish_block_fields:
  "key \<noteq> ''input'' \<Longrightarrow> v_at key (fst (finish_block lib inputs (index, block))) = v_at key block"
  by (simp add: finish_block_def set_input_fields split: option.splits sum.splits)

lemma result_id_block [simp]: "result_id (result_block block content is_error) = use_id block"
  by (simp add: result_id_def result_block_def use_id_def v_at_def j_get_jobj)

lemma an_triage_spec:
  assumes "an_triage blocks = (executable, results, ids)"
  shows "map result_id results = map use_id (map fst (filter (\<lambda>(b, err). err \<noteq> None) blocks))"
    and "ids = map use_id (map fst (filter (\<lambda>(b, err). err \<noteq> None) blocks))"
    and "executable = [] \<longleftrightarrow> filter (\<lambda>(b, err). err = None) blocks = []"
  using assms by (induction blocks arbitrary: executable results ids) (auto split: prod.splits option.splits)

lemma an_replies_ids:
  "distinct (map use_id blocks) \<Longrightarrow>
    map result_id (an_replies ids results blocks) = filter (\<lambda>i. i \<notin> set ids) (map use_id blocks)"
proof (induction ids results blocks rule: an_replies.induct)
  case (2 ids results block blocks)
  have "filter (\<lambda>i. i \<notin> set (use_id block # ids)) (map use_id blocks) = filter (\<lambda>i. i \<notin> set ids) (map use_id blocks)"
    using "2.prems" by (intro filter_cong refl) (auto, metis imageI)
  then show ?case using 2 by (auto split: prod.splits)
qed simp

lemma filter_by_index:
  assumes "distinct (map f xs)"
  shows "filter (\<lambda>i. i \<notin> set (map f (filter P xs))) (map f xs) = map f (filter (\<lambda>x. \<not> P x) xs)"
proof -
  have "f x \<in> f ` {y \<in> set xs. P y} \<longleftrightarrow> P x" if "x \<in> set xs" for x
    using assms that by (auto simp: distinct_map inj_on_def)
  then show ?thesis by (simp add: filter_map comp_def cong: filter_cong)
qed

lemma an_results_ids:
  assumes "distinct (map use_id (map fst blocks))"
  shows "mset (map result_id (an_results to_input has_executor envs blocks)) = mset (map use_id (map fst blocks))"
proof -
  obtain executable results ids where t: "an_triage blocks = (executable, results, ids)" by (rule prod_cases3)
  note ts = an_triage_spec [OF t]
  let ?f = "\<lambda>(b, err :: ustr option). use_id b" and ?P = "\<lambda>(b, err :: ustr option). err \<noteq> None"
  have f: "map use_id (map fst xs) = map ?f xs" for xs :: "('a jvalue \<times> ustr option) list" by (auto simp: case_prod_beta)
  have none: "filter (\<lambda>x. \<not> ?P x) blocks = filter (\<lambda>(b, err). err = None) blocks" by (rule filter_cong) auto
  have "map result_id (an_replies ids r (map fst blocks)) = map ?f (filter (\<lambda>x. \<not> ?P x) blocks)" for r
    using assms ts(2) filter_by_index [of ?f blocks ?P] unfolding f by (simp add: an_replies_ids f [symmetric] del: map_map)
  then have "map result_id (an_results to_input has_executor envs blocks) = map ?f (filter ?P blocks) @ map ?f (filter (\<lambda>x. \<not> ?P x) blocks)"
    using t ts none unfolding an_results_def f by (simp del: map_map)
  also have "mset \<dots> = mset (map ?f blocks)"
    by (simp add: mset_filter multiset_partition [symmetric] flip: image_mset_union)
  finally show ?thesis unfolding f .
qed

lemma finished_ids:
  "map use_id (filter is_tool_use (map fst bs)) = map use_id (map fst (filter (\<lambda>(block, err). is_tool_use block) bs))"
  by (induction bs) auto

lemma an_answer_answered:
  assumes "an_answer lib to_input has_executor request_id model envs acc = (new, new_oa, ops, fin)"
  shows "an_answered new"
proof (cases "filter (\<lambda>(block, err). is_tool_use block) (an_content lib acc) = []")
  case True
  then have "filter is_tool_use (map fst (an_content lib acc)) = []" by (auto simp: filter_empty_conv)
  then show ?thesis using assms True by (auto simp: an_answer_def Let_def use_ids_def)
next
  case False
  then show ?thesis
    using assms an_results_ids [of "filter (\<lambda>(block, err). is_tool_use block) (an_content lib acc)" to_input has_executor envs]
      finished_ids [of "an_content lib acc"]
    by (auto simp: an_answer_def Let_def use_ids_def result_ids_def simp del: map_map)
qed

lemma an_exchange_answered:
  "an_exchange lib to_input has_executor request_id model env = (new, new_oa, ops, fin) \<Longrightarrow> an_answered new"
  by (auto simp: an_exchange_def dest: an_answer_answered split: http_reply.splits prod.splits sum.splits)

lemma an_loop_answered:
  assumes "an_loop lib to_input has_executor request_id model envs k n msgs oa = (msgs', oa', sent, ops, r)" "an_answered msgs"
  shows "an_answered msgs' \<and> list_all an_answered sent \<and> length sent \<le> k"
  using assms
proof (induction k arbitrary: n msgs oa msgs' oa' sent ops r)
  case (Suc k)
  obtain new new_oa ops0 fin where x: "an_exchange lib to_input has_executor request_id model (envs n) = (new, new_oa, ops0, fin)"
    by (rule prod_cases4)
  have new: "an_answered (msgs @ new)" using an_answered_append [OF Suc.prems(2) an_exchange_answered [OF x]] .
  show ?case
  proof (cases fin)
    case NextRound
    obtain msgs1 oa1 sent1 ops1 r1
      where l: "an_loop lib to_input has_executor request_id model envs k (Suc n) (msgs @ new) (oa @ new_oa) = (msgs1, oa1, sent1, ops1, r1)"
      by (rule prod_cases5)
    show ?thesis using Suc.IH [OF l new] Suc.prems x l NextRound by (auto split: if_splits)
  qed (use Suc.prems x new in \<open>auto split: if_splits\<close>)
qed simp

text \<open>
  C29. The same for Anthropic: in every request of a turn, and in the history that it leaves, the message after one with tool uses has exactly
  one result for each of them, by its identifier, as long as the identifiers of that message differ; and at most twelve
  requests are sent.
\<close>

theorem tool_uses_answered:
  assumes "an_answered msgs"
    and "stream_anthropic lib to_input has_executor request_id model prompt images envs msgs oa = (msgs', oa', sent, ops, r)"
  shows "an_answered msgs' \<and> list_all an_answered sent \<and> length sent \<le> 12"
proof -
  have "an_answered (msgs @ [\<lparr>am_role = lit ''user'', am_content = build_anthropic_content prompt images\<rparr>])"
    by (rule an_answered_append [OF assms(1)]) simp
  from an_loop_answered [OF assms(2) [unfolded stream_anthropic_def] this] show ?thesis by (simp add: MAX_TOOL_ROUNDS_def)
qed

section \<open>Where the histories go wrong\<close>

text \<open>
  The text that Anthropic streams goes to the answer and to the front end, and never into a block: the assistant's message in the
  history keeps the empty text with which the block began.
\<close>

lemma streamed_text_not_in_history:
  "str_or [] (v_at ''type'' event) = lit ''content_block_delta'' \<Longrightarrow> str_or [] (v_at ''type'' (v_at ''delta'' event)) = lit ''text_delta'' \<Longrightarrow>
    an_content lib (fst (an_value lib event acc)) = an_content lib acc"
  by (auto simp: an_value_def an_content_def Let_def split: option.split)

text \<open>A streamed input that is JSON but no object enters the history as it is.\<close>

lemma input_need_not_be_object:
  assumes "is_tool_use (VObject m)" "map_of inputs index = Some raw" "raw \<noteq> []" "cl_json lib raw = Inr v"
  shows "v_at ''input'' (fst (finish_block lib inputs (index, VObject m))) = v"
  using assms by (simp add: finish_block_def v_at_def j_get_def v_get_def)

text \<open>When two blocks have one identifier, the second has no result, and the block after them takes its result.\<close>

lemma repeated_id_shifts_results:
  assumes "use_id b1 = use_id b2" "use_id b3 \<noteq> use_id b1"
  shows "an_replies [] [Inr (r1, e1), Inr (r2, e2), Inr (r3, e3)] [b1, b2, b3] = [result_block b1 r1 e1, result_block b3 r2 e2]"
  using assms by (auto simp: tool_result_def)

text \<open>With OpenAI's protocol the arguments are kept by identifier: of two calls with one identifier both run with the last arguments.\<close>

lemma repeated_id_shares_arguments:
  assumes "parse_arguments lib args2 = Inr v"
  shows "fst (triage (parsed_inputs lib [(k1, i, name1, args1), (k2, i, name2, args2)]) [tool_call i name1 args1, tool_call i name2 args2]) =
    [(name1, v), (name2, v)]"
  using assms by (simp add: parsed_inputs_def call_name_def tool_call_def v_at_def j_get_jobj str_or_def call_id_def)

section \<open>Witnesses\<close>

text \<open>A provider whose first answer calls two tools, one of them with malformed arguments, and whose second answer is text.\<close>

definition demo_call :: "unit jvalue" where
  "demo_call =
    jobj [(''choices'', VArray [jobj [(''delta'', jobj [(''tool_calls'', VArray
      [jobj [(''id'', VString (lit ''a'')), (''function'', jobj [(''name'', VString (lit ''t'')), (''arguments'', VString (lit ''{}''))])],
       jobj [(''index'', VNumber ()), (''id'', VString (lit ''b'')), (''function'', jobj [(''name'', VString (lit ''t'')), (''arguments'', VString (lit ''?''))])]])])]])]"

definition demo_answer :: "unit jvalue" where
  "demo_answer = jobj [(''choices'', VArray [jobj [(''delta'', jobj [(''content'', VString (lit ''ok''))])]])]"

definition demo_lib :: "unit chat_lib" where
  "demo_lib = \<lparr>cl_json = (\<lambda>s. if s = lit ''1'' then Inr demo_call else if s = lit ''2'' then Inr demo_answer
                              else if s = lit ''{}'' then Inr (VObject []) else Inl (lit ''bad'')),
     cl_print = (\<lambda>v. []),
     cl_no = \<lparr>no_u64 = (\<lambda>u. Some 1), no_i64 = (\<lambda>u. Some 1), no_f64 = (\<lambda>u. Some 1)\<rparr>,
     cl_utf8_error = (\<lambda>bs. []), cl_replace_all = (\<lambda>re repl s. s), cl_status = (\<lambda>n. [])\<rparr>"

definition demo_round :: "nat \<Rightarrow> unit round_env" where
  "demo_round n = \<lparr>re_cancelled = False,
     re_reply = Streaming [Chunk (bytes_of ''data:''), Chunk (bytes_of (if n = 0 then '' 1'' else '' 2'')), Chunk [10]],
     re_tools = (\<lambda>k. \<lparr>te_cancel_wins = False, te_request_cancelled = False, te_execute = (\<lambda>name i. ToolDone (lit ''done'') None)\<rparr>)\<rparr>"

abbreviation demo_exchange where
  "demo_exchange \<equiv> stream_openai demo_lib (\<lambda>v. Inr ()) True (lit ''r'') (lit ''m'') (lit ''s'') (lit ''p'') None demo_round []"

theorem tool_calls_answered_witness:
  "answered [] (map oa_body (fst demo_exchange)) \<and> list_all (answered []) (fst (snd demo_exchange))"
  using tool_calls_answered [of "[] :: unit oa_msg list" demo_lib "\<lambda>v. Inr ()" True "lit ''r''" "lit ''m''" "lit ''s''" "lit ''p''" None demo_round]
  by (cases demo_exchange rule: prod_cases4) auto

theorem tool_uses_answered_witness:
  "\<exists>msgs' oa' sent ops r. stream_anthropic demo_lib (\<lambda>v. Inr ()) True (lit ''r'') (lit ''m'') (lit ''p'') None demo_round [] [] = (msgs', oa', sent, ops, r) \<and>
    an_answered msgs' \<and> length sent \<le> 12"
proof -
  obtain msgs' oa' sent ops r
    where t: "stream_anthropic demo_lib (\<lambda>v. Inr ()) True (lit ''r'') (lit ''m'') (lit ''p'') None demo_round [] [] = (msgs', oa', sent, ops, r)"
    by (rule prod_cases5)
  then show ?thesis using tool_uses_answered [OF _ t] by auto
qed

end
