(* ===== verification/Chat_Turn_Props.thy ===== *)
theory Chat_Turn_Props
  imports Chat_Turn Chat_Stream_Props
begin

text \<open>
  What a streamed turn leaves behind: the events that the front end sees and the conversation in the session store.
\<close>

section \<open>The events of a turn\<close>

fun event_request :: "stream_event \<Rightarrow> ustr" where
  "event_request (Started i s) = i"
| "event_request (Delta i s) = i"
| "event_request (Status i s) = i"
| "event_request (Completed i s) = i"
| "event_request (Usage i m a b c) = i"
| "event_request (StreamError i m a b) = i"

fun is_end :: "stream_event \<Rightarrow> bool" where
  "is_end (Completed i s) = True"
| "is_end (StreamError i m a b) = True"
| "is_end event = False"

fun inner_op :: "ustr \<Rightarrow> stream_op \<Rightarrow> bool" where
  "inner_op request_id (OpPush i s) \<longleftrightarrow> i = request_id"
| "inner_op request_id (OpEmit event) \<longleftrightarrow> event_request event = request_id \<and> \<not> is_end event"

lemma pushes_inner [simp]: "list_all (inner_op request_id) (map (OpPush request_id) pieces)"
  by (simp add: list_all_iff)

lemma status_inner [simp]: "inner_op request_id (round_status request_id n)"
  by (simp add: round_status_def)

lemma usage_inner [simp]: "list_all (inner_op request_id) (emit_round_usage request_id model seen)"
  by (auto simp: emit_round_usage_def split: option.split)

lemma oa_exchange_inner:
  "oa_exchange lib to_input has_executor request_id model env = (new, ops, fin) \<Longrightarrow> list_all (inner_op request_id) ops"
  by (auto simp: oa_exchange_def oa_answer_def Let_def split: http_reply.splits prod.splits sum.splits if_splits)

lemma an_exchange_inner:
  "an_exchange lib to_input has_executor request_id model env = (new, new_oa, ops, fin) \<Longrightarrow> list_all (inner_op request_id) ops"
  by (auto simp: an_exchange_def an_answer_def Let_def split: http_reply.splits prod.splits sum.splits if_splits)

lemma oa_loop_inner:
  "oa_loop lib to_input has_executor request_id model envs k n msgs = (msgs', sent, ops, r) \<Longrightarrow> list_all (inner_op request_id) ops"
proof (induction k arbitrary: n msgs msgs' sent ops r)
  case (Suc k)
  then show ?case by (auto split: if_splits prod.splits round_end.splits dest!: oa_exchange_inner)
qed simp

lemma an_loop_inner:
  "an_loop lib to_input has_executor request_id model envs k n msgs oa = (msgs', oa', sent, ops, r) \<Longrightarrow> list_all (inner_op request_id) ops"
proof (induction k arbitrary: n msgs oa msgs' oa' sent ops r)
  case (Suc k)
  then show ?case by (auto split: if_splits prod.splits round_end.splits dest!: an_exchange_inner)
qed simp

lemma run_provider_inner:
  "run_provider lib to_input has_executor request_id provider model system_prompt prompt images env oc = (oc', sent, ops, r) \<Longrightarrow>
    list_all (inner_op request_id) ops"
  by (auto simp: run_provider_def stream_anthropic_def stream_openai_def dest: oa_loop_inner an_loop_inner split: if_splits prod.splits)

text \<open>The errors before a request is sent are of two kinds.\<close>

definition early :: "orch_error \<Rightarrow> bool" where
  "early e \<longleftrightarrow> (\<exists>m. e = Generic m) \<or> e = MissingApiKey \<or> e = LmStudioVisionNotSupported"

lemma early_errors:
  "load_conversation now store_error session_id oc = (oc1, Inl e) \<Longrightarrow> early e"
  "stream_config env = Inl e \<Longrightarrow> early e"
  "validate_base_url url = Inl e \<Longrightarrow> early e"
  by (auto simp: early_def load_conversation_def stream_config_def validate_base_url_def Let_def split: option.splits if_splits)

lemma fail_turn_ends:
  assumes "early e" "list_all (inner_op request_id) ops"
  shows "\<exists>oc' sent ops0. fail_turn request_id e ops oc = (oc', sent, ops0 @ [OpEmit (end_event request_id (Inl e))], Inl e) \<and>
    list_all (inner_op request_id) ops0 \<and> oc_requests oc' request_id = None"
  using assms by (auto simp: fail_turn_def end_event_def early_def finish_request_def)

lemma stream_message_ends:
  "\<exists>oc' sent ops0 r. stream_message lib to_input has_executor env request_id session_id prompt images oc =
      (oc', sent, ops0 @ [OpEmit (end_event request_id r)], r) \<and> list_all (inner_op request_id) ops0 \<and> oc_requests oc' request_id = None"
proof (cases "tv_busy env")
  case True
  then show ?thesis using fail_turn_ends [of "Generic busy_message" request_id "[]" oc] by (auto simp: stream_message_def early_def)
next
  case False
  let ?st = "[OpEmit (Started request_id session_id)]"
  have st: "list_all (inner_op request_id) ?st" by simp
  note fails = fail_turn_ends [OF _ st]
  have lm: "early LmStudioVisionNotSupported" by (simp add: early_def)
  obtain oc1 l where l: "load_conversation (tv_now env) (tv_store_error env) session_id oc = (oc1, l)" by (rule prod.exhaust)
  show ?thesis
  proof (cases l)
    case (Inl e)
    then show ?thesis using False l fails [OF early_errors(1)] by (fastforce simp: stream_message_def)
  next
    case (Inr u)
    note here = False l Inr
    let ?oc2 = "oc1\<lparr>oc_session := Some session_id\<rparr>"
    show ?thesis
    proof (cases "stream_config env")
      case (Inl e)
      then show ?thesis using here fails [OF early_errors(2), of env e ?oc2] by (auto simp: stream_message_def Let_def)
    next
      case (Inr c)
      obtain provider api_key model system_prompt base_url where c: "c = (provider, api_key, model, system_prompt, base_url)" by (rule prod_cases5)
      show ?thesis
      proof (cases "case base_url of Some url \<Rightarrow> validate_base_url url | None \<Rightarrow> Inr ()")
        case (Inl e)
        have "early e" using Inl early_errors(3) by (auto split: option.splits)
        then show ?thesis using here Inr c Inl fails [of e ?oc2] by (auto simp: stream_message_def Let_def)
      next
        case u: (Inr u)
        obtain oc3 sent ops r
          where p: "run_provider lib to_input has_executor request_id provider model system_prompt prompt images env ?oc2 = (oc3, sent, ops, r)"
          by (rule prod_cases4)
        show ?thesis
          using here Inr c u p fails [OF lm, of ?oc2] run_provider_inner [OF p]
          by (auto simp: stream_message_def finish_request_def Let_def)
      qed
    qed
  qed
qed

text \<open>
  C9. A turn ends once, and every event is its own: whatever the provider, the tools, the store and the configuration do, the calls of the coalescer in a turn
  are pieces and events for its request, of which exactly the last ends the request; that one is the completion with the text of
  the result when the turn succeeds and an error with its message otherwise, marked as cancelled exactly for a
  cancellation by the user; and the request is no longer registered.
\<close>

theorem turn_ends_once:
  "\<exists>oc' sent ops ending r. stream_message lib to_input has_executor env request_id session_id prompt images oc = (oc', sent, ops @ [OpEmit ending], r) \<and>
    list_all (inner_op request_id) ops \<and> event_request ending = request_id \<and> oc_requests oc' request_id = None \<and>
    (case r of
       Inr reply \<Rightarrow> ending = Completed request_id reply
     | Inl e \<Rightarrow> (\<exists>unavailable. ending = StreamError request_id (error_text e) (e = UserCancellation) unavailable))"
  using stream_message_ends [of lib to_input has_executor env request_id session_id prompt images oc]
  by (fastforce simp: end_event_def split: sum.splits)


section \<open>The conversation in the store\<close>

text \<open>What was said: for each message but those of the system, whether the user said it, and the text.\<close>

definition spoken :: "session_message list \<Rightarrow> (bool \<times> bytes) list" where
  "spoken ms = map (\<lambda>m. (sm_role m = RUser, sm_content m)) (filter (\<lambda>m. sm_role m \<noteq> RSystem) ms)"

definition newest :: "nat \<Rightarrow> 'a list \<Rightarrow> 'a list" where
  "newest n xs = drop (length xs - n) xs"

text \<open>The same of a history in memory.\<close>

definition said :: "'n chat_lib \<Rightarrow> 'n oa_msg list \<Rightarrow> (bool \<times> bytes) list" where
  "said lib ms = map (\<lambda>m. (om_role m = lit ''user'', utf8_string (content_text lib (om_content m)))) (filter is_kept ms)"

lemma spoken_snapshot: "spoken (snapshot_store_messages lib stamps ms) = said lib ms"
proof -
  have "map (\<lambda>m. (sm_role m = RUser, sm_content m)) (map (\<lambda>(k, m). stored_msg lib (stamps k) m) (enumerate j xs)) =
      map (\<lambda>m. (om_role m = lit ''user'', utf8_string (content_text lib (om_content m)))) xs" for j and xs :: "'a oa_msg list"
    by (induction xs arbitrary: j) (auto simp: stored_msg_def)
  moreover have "filter (\<lambda>m. sm_role m \<noteq> RSystem) (snapshot_store_messages lib stamps ms) = snapshot_store_messages lib stamps ms"
    by (auto simp: filter_id_conv snapshot_store_messages_def stored_msg_def split: if_splits)
  ultimately show ?thesis by (simp add: spoken_def said_def snapshot_store_messages_def)
qed

lemma said_append: "said lib (xs @ ys) = said lib xs @ said lib ys"
  by (simp add: said_def)

lemma is_str_chars: "is_str s \<Longrightarrow> utf8_string (utf8_chars s) = s"
  by (auto simp: is_str_def utf8_chars_string)

lemma said_loaded:
  assumes "\<forall>m\<in>set ms. is_str (sm_content m)"
  shows "said lib (map (\<lambda>m. plain_msg (openai_role (sm_role m)) (VString (utf8_chars (sm_content m)))) ms) = spoken ms"
  using assms
proof (induction ms)
  case (Cons m ms)
  then show ?case by (cases "sm_role m") (auto simp: said_def spoken_def is_kept_def plain_msg_def is_str_chars lit_eq)
qed (simp add: said_def spoken_def)

lemma said_system: "said lib [plain_msg ''system'' content] = []"
  by (simp add: said_def is_kept_def plain_msg_def)

lemma block_text_object: "block_text (jobj kvs) = (if map_of (rev kvs) ''type'' = Some (VString (lit ''text'')) then Option.bind (map_of (rev kvs) ''text'') v_as_str else None)"
proof -
  have "v_as_str (jobj kvs) = None" by (simp add: jobj_def)
  moreover have "v_as_str v = Some s \<longleftrightarrow> v = VString s" for v :: "'a jvalue" and s by (cases v) auto
  ultimately show ?thesis by (auto simp: block_text_def v_at_def j_get_jobj split: option.split)
qed

lemma said_user: "said lib [plain_msg ''user'' (build_openai_content prompt images)] = [(True, utf8_string prompt)]"
proof -
  have skip: "\<forall>b\<in>set xs. block_text b = None \<Longrightarrow> List.map_filter block_text (xs @ bs) = List.map_filter block_text bs"
    for xs bs :: "'a jvalue list" by (induction xs) simp_all
  have "content_text lib (build_openai_content prompt images) = prompt"
    by (cases images; cases "the images") (auto simp: build_openai_content_def skip block_text_object)
  then show ?thesis by (simp add: said_def is_kept_def plain_msg_def)
qed

lemma said_assistant: "said lib [plain_msg ''assistant'' (VString final)] = [(False, utf8_string final)]"
  by (simp add: said_def is_kept_def plain_msg_def)

text \<open>What a turn adds is the assistant's, and a turn that succeeds ends with its answer.\<close>

definition adds :: "'n chat_lib \<Rightarrow> 'n oa_msg list \<Rightarrow> orch_error + ustr \<Rightarrow> bool" where
  "adds lib new r \<longleftrightarrow> (\<forall>x\<in>set (said lib new). \<not> fst x) \<and>
    (\<forall>reply. r = Inr reply \<longrightarrow> (\<exists>pre final. said lib new = pre @ [(False, utf8_string final)] \<and> trim_chars final = reply))"

lemma adds_append: "(\<forall>x\<in>set (said lib old). \<not> fst x) \<Longrightarrow> adds lib new r \<Longrightarrow> adds lib (old @ new) r"
  unfolding adds_def said_append set_append ball_Un by (metis append_assoc)

lemma no_user_said: "(\<And>m. m \<in> set ms \<Longrightarrow> om_role m \<noteq> lit ''user'') \<Longrightarrow> \<forall>x\<in>set (said lib ms). \<not> fst x"
  by (auto simp: said_def)

lemma tools_roles: "m \<in> set (oa_tools lib to_input has_executor envs acc) \<Longrightarrow> om_role m \<noteq> lit ''user''"
proof -
  assume m: "m \<in> set (oa_tools lib to_input has_executor envs acc)"
  define calls where "calls = map (\<lambda>(index, i, name, args). tool_call i name args :: 'a jvalue) (oa_calls acc)"
  obtain ex replies ids where t: "triage (parsed_inputs lib (oa_calls acc)) calls = (ex, replies, ids)" by (rule prod_cases3)
  have batch: "r \<in> set (batch_replies ids results calls) \<Longrightarrow> om_role r = lit ''tool''" for ids results and calls :: "'a jvalue list" and r
    by (induction ids results calls rule: batch_replies.induct) (auto simp: tool_msg_def split: if_splits prod.splits)
  have "r \<in> set replies \<Longrightarrow> om_role r = lit ''tool''" if "triage parsed calls = (ex, replies, ids)"
    for parsed calls ex replies ids and r :: "'a oa_msg" using that
    by (induction calls arbitrary: ex replies ids) (auto simp: tool_msg_def split: prod.splits option.splits sum.splits)
  from this [OF t] m t batch show "om_role m \<noteq> lit ''user''"
    by (auto simp: oa_tools_def calls_def [symmetric] plain_msg_def Let_def split: if_splits)
qed

lemma oa_exchange_adds:
  assumes "oa_exchange lib to_input has_executor request_id model env = (new, ops, fin)"
  shows "case fin of NextRound \<Rightarrow> \<forall>x\<in>set (said lib new). \<not> fst x | Return r \<Rightarrow> adds lib new r"
proof -
  have tools: "\<forall>x\<in>set (said lib (oa_tools lib to_input has_executor envs acc)). \<not> fst x" for envs acc
    by (rule no_user_said) (rule tools_roles)
  show ?thesis
    using assms tools
    by (auto simp: oa_exchange_def oa_answer_def adds_def said_assistant said_def [of lib "[]"] Let_def
        split: http_reply.splits prod.splits sum.splits if_splits)
qed

lemma oa_loop_adds:
  "oa_loop lib to_input has_executor request_id model envs k n msgs = (msgs', sent, ops, r) \<Longrightarrow> \<exists>new. msgs' = msgs @ new \<and> adds lib new r"
proof (induction k arbitrary: n msgs msgs' sent ops r)
  case 0
  then show ?case by (auto simp: adds_def said_def rounds_exceeded_def)
next
  case (Suc k)
  obtain new ops0 fin where x: "oa_exchange lib to_input has_executor request_id model (envs n) = (new, ops0, fin)" by (rule prod_cases3)
  show ?case
  proof (cases "re_cancelled (envs n)")
    case True
    then show ?thesis using Suc.prems by (auto simp: adds_def said_def)
  next
    case False
    show ?thesis
    proof (cases fin)
      case NextRound
      obtain msgs1 sent1 ops1 r1 where l: "oa_loop lib to_input has_executor request_id model envs k (Suc n) (msgs @ new) = (msgs1, sent1, ops1, r1)"
        by (rule prod_cases4)
      show ?thesis using Suc.IH [OF l] adds_append [of lib new] oa_exchange_adds [OF x] Suc.prems False x l NextRound by auto
    qed (use Suc.prems False x oa_exchange_adds [OF x] in auto)
  qed
qed

lemma an_exchange_adds:
  assumes "an_exchange lib to_input has_executor request_id model env = (new, new_oa, ops, fin)"
  shows "case fin of NextRound \<Rightarrow> new_oa = [] | Return r \<Rightarrow> adds lib new_oa r"
  using assms
  by (auto simp: an_exchange_def an_answer_def adds_def said_assistant Let_def said_def [of lib "[]"]
      split: http_reply.splits prod.splits sum.splits if_splits)

lemma an_loop_adds:
  "an_loop lib to_input has_executor request_id model envs k n msgs oa = (msgs', oa', sent, ops, r) \<Longrightarrow> \<exists>new. oa' = oa @ new \<and> adds lib new r"
proof (induction k arbitrary: n msgs oa msgs' oa' sent ops r)
  case 0
  then show ?case by (auto simp: adds_def said_def rounds_exceeded_def)
next
  case (Suc k)
  obtain new new_oa ops0 fin where x: "an_exchange lib to_input has_executor request_id model (envs n) = (new, new_oa, ops0, fin)"
    by (rule prod_cases4)
  show ?case
  proof (cases "re_cancelled (envs n)")
    case True
    then show ?thesis using Suc.prems by (auto simp: adds_def said_def)
  next
    case False
    show ?thesis
    proof (cases fin)
      case NextRound
      obtain msgs1 oa1 sent1 ops1 r1
        where l: "an_loop lib to_input has_executor request_id model envs k (Suc n) (msgs @ new) (oa @ new_oa) = (msgs1, oa1, sent1, ops1, r1)"
        by (rule prod_cases5)
      show ?thesis using Suc.IH [OF l] an_exchange_adds [OF x] Suc.prems False x l NextRound by auto
    qed (use Suc.prems False x an_exchange_adds [OF x] in auto)
  qed
qed

lemma run_provider_adds:
  assumes "run_provider lib to_input has_executor request_id provider model system_prompt prompt images env oc = (oc', sent, ops, Inr reply)"
  shows "\<exists>pre final. said lib (oc_openai oc') = said lib (oc_openai oc) @ [(True, utf8_string prompt)] @ pre @ [(False, utf8_string final)] \<and>
      (\<forall>x\<in>set pre. \<not> fst x) \<and> trim_chars final = reply"
    and "oc_session oc' = oc_session oc \<and> oc_store oc' = oc_store oc \<and> oc_slot oc' = oc_slot oc"
proof -
  show "oc_session oc' = oc_session oc \<and> oc_store oc' = oc_store oc \<and> oc_slot oc' = oc_slot oc"
    using assms by (auto simp: run_provider_def split: if_splits prod.splits)
  have user: "said lib (sys @ ms @ [plain_msg ''user'' (build_openai_content prompt images)] @ new) = said lib sys @ said lib ms @ [(True, utf8_string prompt)] @ said lib new"
    for sys ms and new :: "'a oa_msg list" by (simp only: said_append said_user)
  have "\<exists>new. said lib (oc_openai oc') = said lib (oc_openai oc) @ [(True, utf8_string prompt)] @ said lib new \<and> adds lib new (Inr reply)"
  proof (cases "provider = Anthropic")
    case True
    then show ?thesis
      using assms user [of "[]" "oc_openai oc"]
      by (auto simp: run_provider_def stream_anthropic_def said_def [of lib "[]"] dest!: an_loop_adds split: prod.splits)
  next
    case False
    then show ?thesis
      using assms user [of "[plain_msg ''system'' (VString system_prompt)]" "oc_openai oc"] said_system [of lib "VString system_prompt"]
      by (auto simp: run_provider_def stream_openai_def dest!: oa_loop_adds split: prod.splits)
  qed
  then show "\<exists>pre final. said lib (oc_openai oc') = said lib (oc_openai oc) @ [(True, utf8_string prompt)] @ pre @ [(False, utf8_string final)] \<and>
      (\<forall>x\<in>set pre. \<not> fst x) \<and> trim_chars final = reply"
    by (fastforce simp: adds_def)
qed

lemma spoken_updated:
  assumes "\<forall>m\<in>set ms. sm_role m \<noteq> RSystem"
  shows "spoken (cs_messages (updated_session now None (Some ms) s)) = newest MAX_SESSION_MESSAGES (spoken ms)"
proof -
  have "cs_messages (updated_session now None (Some ms) s) = newest MAX_SESSION_MESSAGES ms"
    by (auto simp: updated_session_def truncate_messages_def newest_def Let_def)
  moreover have "filter (\<lambda>m. sm_role m \<noteq> RSystem) (newest n ms) = newest n ms" "filter (\<lambda>m. sm_role m \<noteq> RSystem) ms = ms" for n
    using assms by (auto simp: filter_id_conv newest_def dest: in_set_dropD)
  ultimately show ?thesis by (simp add: spoken_def newest_def drop_map)
qed

lemma snapshot_no_system: "\<forall>m\<in>set (snapshot_store_messages lib stamps ms). sm_role m \<noteq> RSystem"
  by (auto simp: snapshot_store_messages_def stored_msg_def split: if_splits)

text \<open>A turn that succeeds has loaded its session, and leaves the snapshot of what its provider made of it to be saved.\<close>

lemma stream_message_saves:
  assumes "stream_message lib to_input has_executor env request_id session_id prompt images oc = (oc', sent, ops, Inr reply)"
    and "oc_store (flush_auto_save (tv_now env) oc) = Some A"
  shows "\<exists>s provider model system_prompt oc2 oc3 sent ops. A (utf8_string session_id) = Some s \<and>
    oc_openai oc2 = map (\<lambda>m. plain_msg (openai_role (sm_role m)) (VString (utf8_chars (sm_content m)))) (cs_messages s) \<and>
    run_provider lib to_input has_executor request_id provider model system_prompt prompt images env oc2 = (oc3, sent, ops, Inr reply) \<and>
    oc_store oc' = Some A \<and> oc_slot oc' = Some (session_id, Some (snapshot_store_messages lib (tv_stamps env) (oc_openai oc3)))"
proof -
  have fail: "fail_turn request_id e ops oc \<noteq> (oc', sent, ops', Inr reply)" for e ops oc ops' by (simp add: fail_turn_def)
  obtain oc1 where l: "load_conversation (tv_now env) (tv_store_error env) session_id oc = (oc1, Inr ())"
    using assms(1) fail by (auto simp: stream_message_def Let_def split: if_splits prod.splits sum.splits)
  obtain s where s: "A (utf8_string session_id) = Some s" "oc_store oc1 = Some A" "oc_slot oc1 = None"
      "oc_openai oc1 = map (\<lambda>m. plain_msg (openai_role (sm_role m)) (VString (utf8_chars (sm_content m)))) (cs_messages s)"
    using l assms(2) by (auto simp: load_conversation_def flush_auto_save_def Let_def split: option.splits)
  obtain provider model system_prompt oc3 sent1 ops1
    where p: "run_provider lib to_input has_executor request_id provider model system_prompt prompt images env (oc1\<lparr>oc_session := Some session_id\<rparr>) = (oc3, sent1, ops1, Inr reply)"
      and oc': "oc' = finish_request request_id (try_auto_save lib (tv_stamps env) oc3)"
    using assms(1) l fail by (auto simp: stream_message_def Let_def split: if_splits prod.splits sum.splits)
  have "oc_session oc3 = Some session_id" "oc_store oc3 = Some A" "oc_slot oc3 = None"
    using run_provider_adds(2) [OF p] s by simp_all
  then have "oc_store oc' = Some A" "oc_slot oc' = Some (session_id, Some (snapshot_store_messages lib (tv_stamps env) (oc_openai oc3)))"
    unfolding oc' by (simp_all add: try_auto_save_def finish_request_def)
  then show ?thesis using s p by (intro exI conjI) auto
qed


section \<open>What the record loses\<close>

text \<open>
  A save rewrites every message of the session from the history in memory, which knows nothing of images: no message keeps a reference to one,
  also those that had them before the turn, and the sweep of images then finds them unused.
\<close>

lemma saved_messages_have_no_images: "m \<in> set (snapshot_store_messages lib stamps ms) \<Longrightarrow> sm_image_refs m = None \<and> sm_is_error m = None"
  by (auto simp: snapshot_store_messages_def stored_msg_def)

text \<open>A message that is appended to the session while a save waits is gone when the save runs.\<close>

lemma append_before_save_lost:
  assumes "A i = Some s" "i = utf8_string sid"
  shows "cs_messages (the (save_snapshot now (sid, snapshot) (fst (table_exec later (ScAppend i m) A)) i)) =
    cs_messages (the (save_snapshot now (sid, snapshot) A i))"
  using assms by (simp add: save_snapshot_def updated_session_def truncate_messages_def Let_def)

text \<open>A round in which the model calls tools and says nothing is recorded as an empty message of the assistant.\<close>

lemma tool_round_leaves_empty_message:
  "oa_reply acc = [] \<Longrightarrow> hd (said lib (oa_tools lib to_input has_executor envs acc)) = (False, [])"
  by (simp add: oa_tools_def said_def is_kept_def plain_msg_def Let_def split: prod.split)

section \<open>A concrete turn\<close>

definition demo_turn_env :: "unit turn_env" where
  "demo_turn_env = \<lparr>tv_busy = False, tv_now = 5, tv_store_error = None, tv_snapshot = [], tv_context = None,
     tv_config = Some \<lparr>pc_provider = OpenAI, pc_api_key = [], pc_model = lit ''m'', pc_system_prompt = [], pc_base_url = None\<rparr>,
     tv_env_key = None, tv_system_prompt = lit ''p'',
     tv_rounds = (\<lambda>n. \<lparr>re_cancelled = False, re_reply = Streaming [Chunk (bytes_of ''data: 2''), Chunk [10]],
       re_tools = (\<lambda>k. \<lparr>te_cancel_wins = False, te_request_cancelled = False, te_execute = (\<lambda>name i. ToolDone [] None)\<rparr>)\<rparr>),
     tv_stamps = (\<lambda>k. ([], k))\<rparr>"

definition demo_orch :: "unit orch" where
  "demo_orch = \<lparr>oc_anthropic = [], oc_openai = [], oc_session = None, oc_requests = Map.empty,
     oc_store = Some [utf8_string (lit ''s'') \<mapsto> new_session 1 (utf8_string (lit ''s'')) None], oc_slot = None, oc_detached = []\<rparr>"

lemma demo_line: "sse_line demo_lib True (oa_value demo_lib) (bytes_of ''data: 2'' @ [10]) oa_start = Inr (oa_start\<lparr>oa_reply := lit ''ok''\<rparr>, [lit ''ok''])"
proof -
  have ascii: "ascii (bytes_of ''data: 2'' @ [10])" by code_simp
  then have "utf8_valid (bytes_of ''data: 2'' @ [10])" "utf8_chars (bytes_of ''data: 2'' @ [10]) = lit ''data: 2'' @ [10]"
    using is_str_valid [OF is_str_ascii [OF ascii]] by (simp_all add: utf8_chars_ascii bytes_of_def)
  moreover have "sse_data (lit ''data: 2'' @ [10]) = lit ''2''" by (simp add: sse_data_def trim_chars_def is_whitespace_def Let_def)
  moreover have "oa_value demo_lib demo_answer oa_start = (oa_start\<lparr>oa_reply := lit ''ok''\<rparr>, [lit ''ok''])"
    by (simp add: oa_value_def demo_answer_def oa_start_def v_at_def v_nth_def j_get_jobj oa_usage_of_def Let_def)
  ultimately show ?thesis by (simp add: sse_line_def demo_lib_def Let_def)
qed

lemma demo_read: "oa_read demo_lib [Chunk (bytes_of ''data: 2''), Chunk [10]] = ([lit ''ok''], Inr (oa_start\<lparr>oa_reply := lit ''ok''\<rparr>))"
proof -
  have "position (\<lambda>b. b = (10 :: u8)) (bytes_of ''data: 2'' @ [10]) = Some 7" by code_simp
  then have "sse_drain (sse_line demo_lib True (oa_value demo_lib)) (bytes_of ''data: 2'' @ [10]) oa_start = (oa_start\<lparr>oa_reply := lit ''ok''\<rparr>, [], [lit ''ok''], None)"
    using demo_line by (subst sse_drain.simps) (simp add: sse_drain.simps [of _ "[]"])
  moreover have "oa_read demo_lib [Chunk (bytes_of ''data: 2''), Chunk [10]] = oa_read demo_lib [Chunk (bytes_of ''data: 2'' @ [10])]"
    by (simp only: oa_read_def read_merge)
  ultimately show ?thesis by (simp add: oa_read_def)
qed

abbreviation demo_turn_run where
  "demo_turn_run \<equiv> stream_message demo_lib (\<lambda>v. Inr ()) True demo_turn_env (lit ''r'') (lit ''s'') (lit ''hi'') None demo_orch"

lemma demo_provider:
  "\<exists>oc3 sent ops. run_provider demo_lib (\<lambda>v. Inr ()) True (lit ''r'') OpenAI (lit ''m'') system_prompt (lit ''hi'') None demo_turn_env oc = (oc3, sent, ops, Inr (lit ''ok''))"
proof -
  have "oa_loop demo_lib (\<lambda>v. Inr ()) True (lit ''r'') (lit ''m'') (tv_rounds demo_turn_env) 12 0 msgs =
      (msgs @ [plain_msg ''assistant'' (VString (lit ''ok''))], [map oa_body msgs], round_status (lit ''r'') 0 # [OpPush (lit ''r'') (lit ''ok'')], Inr (lit ''ok''))" for msgs
    using demo_read oa_loop.simps(2) [of demo_lib "\<lambda>v. Inr ()" True "lit ''r''" "lit ''m''" "tv_rounds demo_turn_env" 11 0 msgs]
    by (simp add: demo_turn_env_def oa_exchange_def oa_answer_def oa_start_def emit_round_usage_def trim_chars_def is_whitespace_def)
  then show ?thesis by (simp add: run_provider_def stream_openai_def MAX_TOOL_ROUNDS_def)
qed

lemma demo_runs: "\<exists>oc' sent ops. demo_turn_run = (oc', sent, ops, Inr (lit ''ok''))"
proof -
  obtain oc1 where l: "load_conversation (tv_now demo_turn_env) (tv_store_error demo_turn_env) (lit ''s'') demo_orch = (oc1, Inr ())"
    by (simp add: load_conversation_def flush_auto_save_def slot_fires_def demo_orch_def demo_turn_env_def)
  obtain sp where c: "stream_config demo_turn_env = Inr (OpenAI, [], lit ''m'', sp, None)" by (simp add: stream_config_def demo_turn_env_def trim_chars_def)
  have b: "\<not> tv_busy demo_turn_env" by (simp add: demo_turn_env_def)
  obtain oc3 sent ops where
    "run_provider demo_lib (\<lambda>v. Inr ()) True (lit ''r'') OpenAI (lit ''m'') sp (lit ''hi'') None demo_turn_env (oc1\<lparr>oc_session := Some (lit ''s'')\<rparr>) = (oc3, sent, ops, Inr (lit ''ok''))"
    using demo_provider by blast
  then show ?thesis using b l c by (simp add: stream_message_def Let_def del: list.map)
qed


end
