(* ===== verification/Chat_Panel_Props.thy ===== *)
theory Chat_Panel_Props
  imports Chat_Panel Chat_Turn_Props
begin

text \<open>
  From a turn to the panel: the events of a turn, coalesced by the clock and painted by the frame, leave the panel with the result of the turn.
\<close>

section \<open>What crosses to the panel\<close>

text \<open>The calls of a turn, each at its time.\<close>

definition timed :: "(nat \<Rightarrow> nat) \<Rightarrow> stream_op list \<Rightarrow> co_op list" where
  "timed clock ops = map (\<lambda>(k, op). case op of OpPush i s \<Rightarrow> CoPush (clock k) i s | OpEmit event \<Rightarrow> CoEmit event) (enumerate 0 ops)"

definition inner_event :: "ustr \<Rightarrow> stream_event \<Rightarrow> bool" where
  "inner_event request_id event \<longleftrightarrow> event_request event = request_id \<and> \<not> is_end event"

fun inner_co :: "ustr \<Rightarrow> co_op \<Rightarrow> bool" where
  "inner_co request_id (CoPush now i s) \<longleftrightarrow> i = request_id"
| "inner_co request_id (CoEmit event) \<longleftrightarrow> inner_event request_id event"
| "inner_co request_id (CoSet e) \<longleftrightarrow> False"

definition pending_of :: "ustr \<Rightarrow> coalescer \<Rightarrow> bool" where
  "pending_of request_id co \<longleftrightarrow> (\<forall>i s t. co_pending co = Some (i, s, t) \<longrightarrow> i = request_id)"

lemma co_step_inner:
  assumes "co_step c co = (co', l)" "inner_co request_id c" "pending_of request_id co" "co_emit co = Some e"
  shows "list_all (inner_event request_id) (map snd l) \<and> pending_of request_id co' \<and> co_emit co' = Some e"
  using assms
  by (cases c)
    (auto simp: co_push_def co_emit_event_def co_flush_def co_call_def pending_of_def inner_event_def Let_def split: option.splits if_splits)

lemma co_run_inner:
  "co_run cs co = (co', l) \<Longrightarrow> list_all (inner_co request_id) cs \<Longrightarrow> pending_of request_id co \<Longrightarrow> co_emit co = Some e \<Longrightarrow>
    list_all (inner_event request_id) (map snd l) \<and> pending_of request_id co' \<and> co_emit co' = Some e"
proof (induction cs arbitrary: co l)
  case (Cons c cs)
  obtain co1 l1 where s: "co_step c co = (co1, l1)" by (cases "co_step c co")
  obtain l2 where r: "co_run cs co1 = (co', l2)" "l = l1 @ l2" using Cons.prems s by (auto split: prod.splits)
  have "list_all (inner_event request_id) (map snd l1) \<and> pending_of request_id co1 \<and> co_emit co1 = Some e"
    using co_step_inner [OF s] Cons.prems by auto
  then show ?case using Cons.IH [OF r(1)] Cons.prems r(2) by auto
qed simp

text \<open>The end of a turn comes last also after coalescing.\<close>

lemma turn_log:
  assumes "list_all (inner_op request_id) ops" "co_emit co = Some e" "co_pending co = None"
  shows "\<exists>evs. map snd (snd (co_run (timed clock (ops @ [OpEmit ending])) co)) = evs @ [ending] \<and> list_all (inner_event request_id) evs"
proof -
  have "inner_co request_id (case op of OpPush i s \<Rightarrow> CoPush t i s | OpEmit event \<Rightarrow> CoEmit event)" if "inner_op request_id op" for op t
    using that by (cases op) (auto simp: inner_event_def)
  then have "list_all (inner_co request_id) (timed clock ops)"
    using assms(1) by (auto simp: timed_def list_all_iff in_set_enumerate_eq)
  moreover obtain co1 l1 where r: "co_run (timed clock ops) co = (co1, l1)" by (cases "co_run (timed clock ops) co")
  ultimately have "list_all (inner_event request_id) (map snd l1)" "pending_of request_id co1" "co_emit co1 = Some e"
    using co_run_inner [OF r, of request_id e] assms(2,3) by (auto simp: pending_of_def)
  moreover have "timed clock (ops @ [OpEmit ending]) = timed clock ops @ [CoEmit ending]" by (simp add: timed_def enumerate_append_eq)
  ultimately show ?thesis
    using r
    by (cases "co_pending co1")
      (auto simp: co_run_append co_emit_event_def co_flush_def co_call_def pending_of_def inner_event_def)
qed

section \<open>The panel\<close>

datatype panel_step = PEvent int bool stream_event | PFrame

fun panel_do :: "'f panel_lib \<Rightarrow> panel_step \<Rightarrow> 'f panel \<Rightarrow> 'f panel" where
  "panel_do pn (PEvent now granted event) p = panel_event pn now granted event p"
| "panel_do pn PFrame p = panel_frame p"

fun step_event :: "panel_step \<Rightarrow> stream_event option" where
  "step_event (PEvent now granted event) = Some event"
| "step_event PFrame = None"

definition events_of :: "panel_step list \<Rightarrow> stream_event list" where
  "events_of steps = List.map_filter step_event steps"

text \<open>While a turn runs, its message is the last one and open; once it has ended, nothing of the turn acts on the panel any more.\<close>

definition answering :: "ustr \<Rightarrow> 'f chat_message list \<Rightarrow> 'f panel \<Rightarrow> bool" where
  "answering request_id ms p \<longleftrightarrow> ch_active_request_id (pa_chat p) = Some request_id \<and>
    (\<exists>m. ch_messages (pa_chat p) = ms @ [m] \<and> open_answer m)"

lemma delta_answering:
  assumes "ch_active_request_id s = Some request_id" "\<exists>m. ch_messages s = ms @ [m] \<and> open_answer m"
  shows "ch_active_request_id (append_stream_delta i t s) = Some request_id \<and> (\<exists>m. ch_messages (append_stream_delta i t s) = ms @ [m] \<and> open_answer m)"
  using assms by (auto simp: append_stream_delta_def map_last_def open_answer_def)

lemma drain_answering: "answering request_id ms p \<Longrightarrow> answering request_id ms (drain_queue p)"
proof -
  have "ch_active_request_id (fold (\<lambda>(i, t) s. append_stream_delta i t s) q s) = Some request_id \<and>
      (\<exists>m. ch_messages (fold (\<lambda>(i, t) s. append_stream_delta i t s) q s) = ms @ [m] \<and> open_answer m)"
    if "ch_active_request_id s = Some request_id" "\<exists>m. ch_messages s = ms @ [m] \<and> open_answer m" for q and s :: "'a chat_state"
    using that
  proof (induction q arbitrary: s)
    case (Cons x q)
    then show ?case using delta_answering [of s request_id ms "fst x" "snd x"] by (auto simp: case_prod_beta)
  qed auto
  then show "answering request_id ms p \<Longrightarrow> answering request_id ms (drain_queue p)" by (simp add: answering_def drain_queue_def)
qed

lemma step_answering:
  assumes "answering request_id ms p" "\<forall>event. step_event st = Some event \<longrightarrow> inner_event request_id event"
  shows "answering request_id ms (panel_do pn st p)"
proof (cases st)
  case (PEvent now granted event)
  then show ?thesis
    using assms drain_answering [of request_id ms "p\<lparr>pa_queue := pa_queue p @ [x]\<rparr>" for x]
    by (cases event)
      (auto simp: inner_event_def schedule_stream_flush_def answering_def record_usage_def set_streaming_status_def Let_def split: option.split)
qed (use assms drain_answering in \<open>auto simp: panel_frame_def\<close>)

lemma run_answering:
  "answering request_id ms p \<Longrightarrow> list_all (inner_event request_id) (events_of steps) \<Longrightarrow> answering request_id ms (fold (panel_do pn) steps p)"
proof (induction steps arbitrary: p)
  case (Cons st steps)
  then show ?case using step_answering [of request_id ms p st pn] by (auto simp: events_of_def split: option.splits)
qed simp

text \<open>Frames after the end change no message.\<close>

lemma frames_after_end:
  assumes "ch_active_request_id (pa_chat p) = None" "events_of steps = []"
  shows "pa_chat (fold (panel_do pn) steps p) = pa_chat p"
  using assms
proof (induction steps arbitrary: p)
  case (Cons st steps)
  have "fold (\<lambda>(i, t) s. append_stream_delta i t s) q (pa_chat p) = pa_chat p" for q
    using Cons.prems(1) by (induction q) (auto simp: append_stream_delta_def accepts_stream_event_def)
  moreover have "st = PFrame" "events_of steps = []" using Cons.prems(2) by (cases st; simp add: events_of_def)+
  ultimately show ?case using Cons.IH [of "panel_frame p"] Cons.prems(1) by (simp add: panel_frame_def drain_queue_def)
qed simp

lemma split_last_event:
  "events_of steps = evs @ [ending] \<Longrightarrow>
    \<exists>s1 now granted s2. steps = s1 @ PEvent now granted ending # s2 \<and> events_of s1 = evs \<and> events_of s2 = []"
proof (induction steps arbitrary: evs)
  case (Cons st steps)
  show ?case
  proof (cases st)
    case PFrame
    then obtain s1 now granted s2 where "steps = s1 @ PEvent now granted ending # s2" "events_of s1 = evs" "events_of s2 = []"
      using Cons by (fastforce simp: events_of_def)
    then show ?thesis using PFrame by (intro exI [of _ "PFrame # s1"]) (auto simp: events_of_def)
  next
    case (PEvent now granted event)
    show ?thesis
    proof (cases evs)
      case Nil
      then show ?thesis using Cons.prems PEvent by (intro exI [of _ "[]"]) (auto simp: events_of_def)
    next
      case (Cons ev evs')
      then obtain s1 n g s2 where "steps = s1 @ PEvent n g ending # s2" "events_of s1 = evs'" "events_of s2 = []"
        using Cons.IH [of evs'] Cons.prems PEvent by (auto simp: events_of_def)
      then show ?thesis using PEvent Cons Cons.prems by (intro exI [of _ "st # s1"]) (auto simp: events_of_def)
    qed
  qed
qed (simp add: events_of_def)

section \<open>The end of a turn\<close>

lemma map_last_snoc: "map_last f (xs @ [x]) = xs @ [f x]"
  by (simp add: map_last_def)

lemma finish_settles:
  assumes "ch_active_request_id s = Some request_id" "ch_messages s = ms @ [m]" "open_answer m"
  shows "\<exists>m'. ch_messages (finish_stream pn now request_id (Some t) s) = ms @ [m'] \<and> cm_content m' = t \<and> \<not> cm_is_error m'"
  using assms
  by (auto simp: finish_stream_def accepts_stream_event_def fold_usage_def idle_def map_last_snoc open_answer_def Let_def split: option.splits)

lemma finish_idle:
  assumes "ch_active_request_id s = Some request_id"
  shows "ch_active_request_id (finish_stream pn now request_id t s) = None" "\<not> ch_is_loading (finish_stream pn now request_id t s)"
    "\<not> ch_is_streaming (finish_stream pn now request_id t s)"
  using assms by (simp_all add: finish_stream_def accepts_stream_event_def idle_def Let_def)

lemma fail_settles:
  assumes "ch_active_request_id s = Some request_id" "ch_messages s = ms @ [m]" "open_answer m"
  shows "\<exists>m'. ch_messages (fail_stream pn now request_id message cancelled s) = ms @ [m'] \<and>
    (if cancelled then m' = m else cm_is_error m' \<and> suffix (lit ''Error: '' @ message) (cm_content m'))"
  using assms
  by (auto simp: fail_stream_def accepts_stream_event_def idle_def map_last_snoc fail_message_def suffix_def Let_def split: option.splits)

lemma fail_idle:
  assumes "ch_active_request_id s = Some request_id"
  shows "ch_active_request_id (fail_stream pn now request_id message cancelled s) = None"
    "\<not> ch_is_loading (fail_stream pn now request_id message cancelled s)" "\<not> ch_is_streaming (fail_stream pn now request_id message cancelled s)"
  using assms by (auto simp: fail_stream_def accepts_stream_event_def idle_def Let_def split: option.splits)

text \<open>What the panel shows at the end of a turn with result \<open>r\<close>.\<close>

definition shows_result :: "'f chat_message list \<Rightarrow> orch_error + ustr \<Rightarrow> 'f chat_state \<Rightarrow> bool" where
  "shows_result ms r s \<longleftrightarrow> ch_active_request_id s = None \<and> \<not> ch_is_loading s \<and> \<not> ch_is_streaming s \<and>
    (\<exists>m. ch_messages s = ms @ [m] \<and>
      (case r of
         Inr reply \<Rightarrow> cm_content m = reply \<and> \<not> cm_is_error m
       | Inl e \<Rightarrow> if e = UserCancellation then \<not> cm_is_error m
                  else cm_is_error m \<and> suffix (lit ''Error: '' @ error_text e) (cm_content m)))"

lemma ending_shows:
  assumes "answering request_id ms p" "request_id \<noteq> []"
    and "case r of Inr reply \<Rightarrow> ending = Completed request_id reply
         | Inl e \<Rightarrow> (\<exists>u. ending = StreamError request_id (error_text e) (e = UserCancellation) u)"
  shows "shows_result ms r (pa_chat (panel_event pn now granted ending p))"
proof -
  obtain m where m: "ch_active_request_id (pa_chat p) = Some request_id" "ch_messages (pa_chat p) = ms @ [m]" "open_answer m"
    using assms(1) by (auto simp: answering_def)
  show ?thesis
  proof (cases r)
    case (Inr reply)
    then show ?thesis using assms(2,3) finish_settles [OF m] finish_idle [OF m(1)] by (simp add: shows_result_def)
  next
    case (Inl e)
    then show ?thesis
      using assms(2,3) fail_settles [OF m, of pn now "error_text e" "e = UserCancellation"] fail_idle [OF m(1)] m(3)
      by (auto simp: shows_result_def open_answer_def)
  qed
qed


section \<open>Usage of other requests\<close>

text \<open>
  Unlike the other events, reported usage is not tied to the active request: it is kept for any request, and the usage of a
  request that fails or is cancelled stays for good.
\<close>

lemma usage_of_any_request:
  "i \<noteq> [] \<Longrightarrow> model \<noteq> [] \<Longrightarrow> map_of (ch_pending_usage (pa_chat (panel_event pn now granted (Usage i model a b mismatch) p))) i \<noteq> None"
  by (simp add: record_usage_def Let_def update_conv')

lemma failed_usage_stays: "ch_pending_usage (fail_stream pn now i message cancelled s) = ch_pending_usage s"
  by (auto simp: fail_stream_def idle_def Let_def split: option.split)

section \<open>Witness\<close>

definition demo_panel :: "unit panel" where
  "demo_panel = \<lparr>pa_chat = begin_stream (lit ''r'') \<lparr>ch_messages = [\<lparr>cm_id = [], cm_role = CAthena, cm_content = [], cm_timestamp = 0, cm_is_error = False,
       cm_images = [], cm_blocks = [], cm_usage = None\<rparr>], ch_is_open = True, ch_is_loading = False, ch_is_streaming = False, ch_streaming_status = None,
     ch_streaming_trace = [], ch_active_request_id = None, ch_error = None, ch_retry_text = None, ch_retry_not_before_ms = None, ch_retry_notice = None,
     ch_session_id = None, ch_pending_usage = [], ch_pricing = [], ch_usage_ledger = [], ch_dropped_context = []\<rparr>,
     pa_queue = [], pa_scheduled = False\<rparr>"

definition demo_panel_lib :: "unit panel_lib" where
  "demo_panel_lib = \<lparr>pn_cost = (\<lambda>a i b j. ()), pn_lower = (\<lambda>s. s), pn_millis = (\<lambda>s. None)\<rparr>"


end
