(* ===== verification/Plan_Manager.thy ===== *)
theory Plan_Manager
  imports Chat_Sse
begin

text \<open>
  \<open>plan_manager.rs\<close> and \<open>plan_tools.rs\<close> of \<open>crates/athena-core/src\<close>, with \<open>build_agent_command\<close> of \<open>tool_schema.rs\<close>: the active execution
  plan and the tools by which the model makes a plan, dispatches its steps to agents and records how they went. What the tools send to
  the window and to the notification service is returned as events (the manager's own callback for the same updates is left out); the quoting of \<open>shell_escape\<close>, the clock and fresh identifiers
  are arguments.
\<close>

section \<open>Plans\<close>

datatype plan_status = PlPending | PlInProgress | PlCompleted | PlFailed | PlCancelled

datatype step_status = StPending | StInProgress | StCompleted | StFailed | StCancelled

record plan_step =
  st_id :: ustr
  st_description :: ustr
  st_agent_type :: "ustr option"
  st_status :: step_status
  st_assigned_pane_id :: "ustr option"

record execution_plan =
  ep_id :: ustr
  ep_goal :: ustr
  ep_reasoning :: ustr
  ep_steps :: "plan_step list"
  ep_status :: plan_status
  ep_created_at :: nat

record plan_step_input =
  si_id :: ustr
  si_description :: ustr
  si_agent_type :: "ustr option"

datatype plan_error = NoActivePlan | StepNotFound ustr

text \<open>The manager: its plan and the counter of plan identifiers, which the program does not live long enough to wrap.\<close>

record plan_manager =
  pm_active :: "execution_plan option"
  pm_counter :: nat

definition hex_digit :: "nat \<Rightarrow> uchar" where
  "hex_digit d = (if d < 10 then 48 + d else 87 + d)"

fun hex :: "nat \<Rightarrow> ustr" where
  "hex n = (if n < 16 then [hex_digit n] else hex (n div 16) @ [hex_digit (n mod 16)])"

declare hex.simps [simp del]

definition plan_id_of :: "nat \<Rightarrow> ustr" where
  "plan_id_of n = lit ''plan-'' @ replicate (8 - length (hex n)) 48 @ hex n"

definition new_step :: "plan_step_input \<Rightarrow> plan_step" where
  "new_step s = \<lparr>st_id = si_id s, st_description = si_description s, st_agent_type = si_agent_type s, st_status = StPending, st_assigned_pane_id = None\<rparr>"

definition set_active_plan :: "nat \<Rightarrow> ustr \<Rightarrow> ustr \<Rightarrow> plan_step_input list \<Rightarrow> plan_manager \<Rightarrow> plan_manager \<times> execution_plan" where
  "set_active_plan now goal reasoning steps pm =
    (let plan = \<lparr>ep_id = plan_id_of (pm_counter pm), ep_goal = goal, ep_reasoning = reasoning, ep_steps = map new_step steps,
                 ep_status = PlPending, ep_created_at = now\<rparr>
     in (\<lparr>pm_active = Some plan, pm_counter = Suc (pm_counter pm)\<rparr>, plan))"

definition find_step :: "ustr \<Rightarrow> execution_plan \<Rightarrow> plan_step option" where
  "find_step step_id plan = find (\<lambda>s. st_id s = step_id) (ep_steps plan)"

definition update_step_status :: "ustr \<Rightarrow> step_status \<Rightarrow> ustr option \<Rightarrow> plan_manager \<Rightarrow> plan_manager \<times> (plan_error + unit)" where
  "update_step_status step_id status pane_id pm =
    (case pm_active pm of
       None \<Rightarrow> (pm, Inl NoActivePlan)
     | Some plan \<Rightarrow>
         if find_step step_id plan = None then (pm, Inl (StepNotFound step_id))
         else (let steps = update_first (\<lambda>s. st_id s = step_id)
                     (\<lambda>s. s\<lparr>st_status := status, st_assigned_pane_id := (case pane_id of Some p \<Rightarrow> Some p | None \<Rightarrow> st_assigned_pane_id s)\<rparr>) (ep_steps plan);
                   plan1 = plan\<lparr>ep_steps := steps\<rparr>;
                   plan2 = (if list_ex (\<lambda>s. st_status s = StInProgress) steps \<and> ep_status plan1 = PlPending
                            then plan1\<lparr>ep_status := PlInProgress\<rparr> else plan1)
               in (pm\<lparr>pm_active := Some plan2\<rparr>, Inr ())))"

definition update_plan_status :: "plan_status \<Rightarrow> plan_manager \<Rightarrow> plan_manager \<times> (plan_error + unit)" where
  "update_plan_status status pm =
    (case pm_active pm of
       None \<Rightarrow> (pm, Inl NoActivePlan)
     | Some plan \<Rightarrow> (pm\<lparr>pm_active := Some (plan\<lparr>ep_status := status\<rparr>)\<rparr>, Inr ()))"

definition clear_active_plan :: "plan_manager \<Rightarrow> plan_manager" where
  "clear_active_plan pm = pm\<lparr>pm_active := None\<rparr>"

section \<open>Tools\<close>

datatype tool_error = MissingParam string | InvalidParam ustr | PlanError plan_error

record tool_call_result =
  tr_text :: ustr
  tr_is_error :: "bool option"

text \<open>The fields of \<open>ToolInput\<close> that the plan tools read.\<close>

record 'n tool_args =
  ta_goal :: "ustr option"
  ta_reasoning :: "ustr option"
  ta_steps :: "'n jvalue list option"
  ta_step_id :: "ustr option"
  ta_overall_status :: "ustr option"
  ta_step_evaluations :: "'n jvalue list option"
  ta_next_action :: "ustr option"

text \<open>What goes to the window and to the user: agents to start, plans to show, evaluations, notifications.\<close>

datatype 'n plan_event =
    AgentSpawned ustr ustr ustr
  | PlanUpdate execution_plan
  | PlanEvaluated ustr ustr "'n jvalue list" ustr ustr
  | PlanNotice string ustr

definition quoted :: "ustr \<Rightarrow> ustr" where
  "quoted s = 39 # s @ [39]"

definition plain_result :: "ustr \<Rightarrow> tool_call_result" where
  "plain_result s = \<lparr>tr_text = s, tr_is_error = None\<rparr>"

definition build_agent_command :: "(ustr \<Rightarrow> ustr) \<Rightarrow> ustr \<Rightarrow> ustr option \<Rightarrow> ustr" where
  "build_agent_command shell_escape agent_type task_prompt =
    (if agent_type = lit ''shell'' then (case task_prompt of Some p \<Rightarrow> p | None \<Rightarrow> [])
     else (let base_cmd = (if agent_type = lit ''codex'' then lit ''codex''
                           else if agent_type = lit ''opencode'' then lit ''opencode''
                           else if agent_type = lit ''gemini'' then lit ''gemini'' else lit ''claude'')
           in case task_prompt of
                Some p \<Rightarrow> if p \<noteq> [] then base_cmd @ lit '' -p '' @ shell_escape p else base_cmd
              | None \<Rightarrow> base_cmd))"

definition j_text :: "string \<Rightarrow> 'n jvalue \<Rightarrow> ustr option" where
  "j_text key v = Option.bind (j_get key v) v_as_str"

definition text_or :: "ustr \<Rightarrow> ustr option \<Rightarrow> ustr" where
  "text_or d t = (case t of Some s \<Rightarrow> s | None \<Rightarrow> d)"

definition step_input :: "'n jvalue \<Rightarrow> plan_step_input" where
  "step_input v = \<lparr>si_id = text_or [] (j_text ''id'' v), si_description = text_or [] (j_text ''description'' v), si_agent_type = j_text ''agent_type'' v\<rparr>"

fun first_duplicate :: "ustr list \<Rightarrow> ustr list \<Rightarrow> ustr option" where
  "first_duplicate seen [] = None"
| "first_duplicate seen (i # is) =
    (if i = [] then first_duplicate seen is else if i \<in> set seen then Some i else first_duplicate (i # seen) is)"

fun joined_lines :: "ustr list \<Rightarrow> ustr" where
  "joined_lines [] = []"
| "joined_lines [l] = l"
| "joined_lines (l # ls) = l @ 10 # joined_lines ls"

definition create_execution_plan ::
  "nat \<Rightarrow> 'n tool_args \<Rightarrow> plan_manager \<Rightarrow> plan_manager \<times> 'n plan_event list \<times> (tool_error + tool_call_result)" where
  "create_execution_plan now args pm =
    (case ta_goal args of
       None \<Rightarrow> (pm, [], Inl (MissingParam ''goal''))
     | Some goal \<Rightarrow>
         (case ta_reasoning args of
            None \<Rightarrow> (pm, [], Inl (MissingParam ''reasoning''))
          | Some reasoning \<Rightarrow>
              (let steps = map step_input (case ta_steps args of Some vs \<Rightarrow> vs | None \<Rightarrow> []) in
               case first_duplicate [] (map si_id steps) of
                 Some i \<Rightarrow> (pm, [], Inr \<lparr>tr_text = lit ''Plan rejected: duplicate step id '' @ quoted i @ lit ''. Step ids must be unique.'', tr_is_error = Some True\<rparr>)
               | None \<Rightarrow>
                   (case set_active_plan now goal reasoning steps pm of
                      (pm1, plan) \<Rightarrow>
                        (pm1, [PlanUpdate plan, PlanNotice ''Plan Created'' (lit ''Execution plan created: '' @ goal)],
                         Inr (plain_result (lit ''Plan created ('' @ ep_id plan @ lit ''):'' @ [10] @ lit ''Goal: '' @ ep_goal plan @ [10] @ lit ''Steps:'' @ [10] @
                           joined_lines (map (\<lambda>s. lit ''  '' @ st_id s @ lit '': '' @ st_description s) (ep_steps plan)))))))))"

fun status_name :: "step_status \<Rightarrow> string" where
  "status_name StPending = ''Pending''"
| "status_name StInProgress = ''InProgress''"
| "status_name StCompleted = ''Completed''"
| "status_name StFailed = ''Failed''"
| "status_name StCancelled = ''Cancelled''"

text \<open>The first half of a dispatch, on a copy of the plan: what it answers, or the agent that it starts.\<close>

datatype dispatch_outcome = Answer "tool_error + tool_call_result" | Dispatch ustr ustr ustr ustr ustr

definition dispatch_check :: "(ustr \<Rightarrow> ustr) \<Rightarrow> ustr \<Rightarrow> 'n tool_args \<Rightarrow> plan_manager \<Rightarrow> dispatch_outcome" where
  "dispatch_check shell_escape uuid8 args pm =
    (case ta_step_id args of
       None \<Rightarrow> Answer (Inl (MissingParam ''step_id''))
     | Some step_id \<Rightarrow>
         (case pm_active pm of
            None \<Rightarrow> Answer (Inr (plain_result (lit ''No active execution plan. Create one first with create_execution_plan.'')))
          | Some plan \<Rightarrow>
              (case find_step step_id plan of
                 None \<Rightarrow> Answer (Inr (plain_result (lit ''Step '' @ quoted step_id @ lit '' not found in active plan.'')))
               | Some step \<Rightarrow>
                   if st_status step \<noteq> StPending then
                     Answer (Inr \<lparr>tr_text = lit ''Step '' @ quoted step_id @ lit '' is '' @ lit (status_name (st_status step)) @
                         lit ''; only Pending steps can be dispatched. Call `evaluate_results` to check its progress.'', tr_is_error = Some True\<rparr>)
                   else (let agent_type = (case st_agent_type step of Some t \<Rightarrow> if t \<noteq> [] then t else lit ''claude'' | None \<Rightarrow> lit ''claude'')
                         in Dispatch step_id (lit ''plan-'' @ ep_id plan @ lit ''-'' @ step_id @ lit ''-'' @ uuid8) agent_type
                              (build_agent_command shell_escape agent_type (Some (st_description step))) (st_description step)))))"

text \<open>The second half, after the agent has been started.\<close>

definition dispatch_commit :: "ustr \<Rightarrow> ustr \<Rightarrow> ustr \<Rightarrow> plan_manager \<Rightarrow> plan_manager \<times> 'n plan_event list \<times> (tool_error + tool_call_result)" where
  "dispatch_commit step_id pane_id description pm =
    (case update_step_status step_id StInProgress (Some pane_id) pm of
       (pm1, Inl e) \<Rightarrow> (pm1, [], Inl (PlanError e))
     | (pm1, Inr u) \<Rightarrow>
         (pm1, (case pm_active pm1 of Some plan \<Rightarrow> [PlanUpdate plan] | None \<Rightarrow> []) @ [PlanNotice ''Step Dispatched'' (lit ''Dispatched step: '' @ step_id)],
          Inr (plain_result (lit ''Dispatched step '' @ quoted step_id @ lit '' ('' @ description @ lit '') -> pane '' @ pane_id))))"

definition dispatch_plan_step ::
  "(ustr \<Rightarrow> ustr) \<Rightarrow> ustr \<Rightarrow> 'n tool_args \<Rightarrow> plan_manager \<Rightarrow> plan_manager \<times> 'n plan_event list \<times> (tool_error + tool_call_result)" where
  "dispatch_plan_step shell_escape uuid8 args pm =
    (case dispatch_check shell_escape uuid8 args pm of
       Answer r \<Rightarrow> (pm, [], r)
     | Dispatch step_id pane_id agent_type agent_cmd description \<Rightarrow>
         (case dispatch_commit step_id pane_id description pm of
            (pm1, evs, r) \<Rightarrow> (pm1, AgentSpawned pane_id agent_type agent_cmd # evs, r)))"

definition overall_plan_status :: "ustr \<Rightarrow> plan_status option" where
  "overall_plan_status s =
    (if s = lit ''success'' \<or> s = lit ''partial_success'' then Some PlCompleted
     else if s = lit ''failure'' \<or> s = lit ''needs_replanning'' then Some PlFailed else None)"

fun validate_evals :: "execution_plan \<Rightarrow> nat \<Rightarrow> 'n jvalue list \<Rightarrow> tool_error + (ustr \<times> step_status) list" where
  "validate_evals plan n [] = Inr []"
| "validate_evals plan n (v # vs) =
    (let at_index = lit ''step_evaluations['' @ map unat (dec n) @ lit '']'' in
     case j_text ''step_id'' v of
       None \<Rightarrow> Inl (InvalidParam (at_index @ lit ''.step_id must be a non-empty string''))
     | Some step_id \<Rightarrow>
         if step_id = [] then Inl (InvalidParam (at_index @ lit ''.step_id must be a non-empty string''))
         else if j_text ''status'' v \<noteq> Some (lit ''success'') \<and> j_text ''status'' v \<noteq> Some (lit ''failure'')
         then Inl (InvalidParam (at_index @ lit ''.status must be success or failure''))
         else if find_step step_id plan = None then Inl (PlanError (StepNotFound step_id))
         else (case validate_evals plan (Suc n) vs of
                 Inl e \<Rightarrow> Inl e
               | Inr rs \<Rightarrow> Inr ((step_id, if j_text ''status'' v = Some (lit ''success'') then StCompleted else StFailed) # rs)))"

fun apply_evals :: "(ustr \<times> step_status) list \<Rightarrow> plan_manager \<Rightarrow> plan_manager \<times> (plan_error + unit)" where
  "apply_evals [] pm = (pm, Inr ())"
| "apply_evals ((i, status) # rs) pm =
    (case update_step_status i status None pm of (pm1, Inl e) \<Rightarrow> (pm1, Inl e) | (pm1, Inr u) \<Rightarrow> apply_evals rs pm1)"

definition action_instruction :: "ustr \<Rightarrow> ustr" where
  "action_instruction next =
    (if next = lit ''done'' then lit ''Plan complete. Report results to the user.''
     else if next = lit ''replan'' then lit ''Create a new execution plan addressing the failures.''
     else if next = lit ''retry_steps'' then lit ''Re-dispatch the failed steps.''
     else if next = lit ''escalate_to_user'' then lit ''Ask the user for guidance on how to proceed.'' else next)"

definition evaluate_results :: "'n tool_args \<Rightarrow> plan_manager \<Rightarrow> plan_manager \<times> 'n plan_event list \<times> (tool_error + tool_call_result)" where
  "evaluate_results args pm =
    (case pm_active pm of
       None \<Rightarrow> (pm, [], Inr (plain_result (lit ''No active execution plan to evaluate.'')))
     | Some plan \<Rightarrow>
         (case ta_overall_status args of
            None \<Rightarrow> (pm, [], Inl (MissingParam ''overall_status''))
          | Some overall \<Rightarrow>
              (case overall_plan_status overall of
                 None \<Rightarrow> (pm, [], Inl (InvalidParam (lit ''overall_status must be one of: success, partial_success, failure, needs_replanning'')))
               | Some plan_status \<Rightarrow>
                   (let evals = (case ta_step_evaluations args of Some vs \<Rightarrow> vs | None \<Rightarrow> []) in
                    case validate_evals plan 0 evals of
                      Inl e \<Rightarrow> (pm, [], Inl e)
                    | Inr validated \<Rightarrow>
                        (case apply_evals validated pm of
                           (pm1, Inl e) \<Rightarrow> (pm1, [], Inl (PlanError e))
                         | (pm1, Inr u) \<Rightarrow>
                             (case update_plan_status plan_status pm1 of
                                (pm2, Inl e) \<Rightarrow> (pm2, [], Inl (PlanError e))
                              | (pm2, Inr u) \<Rightarrow>
                                  (case pm_active pm2 of
                                     None \<Rightarrow> (pm2, [], Inr (plain_result (lit ''No active execution plan to evaluate.'')))
                                   | Some updated \<Rightarrow>
                                       (let next = text_or (lit ''done'') (ta_next_action args) in
                                        (pm2, [PlanUpdate updated, PlanEvaluated (ep_id plan) overall evals next (text_or [] (ta_reasoning args))],
                                         Inr (plain_result (lit ''Evaluation recorded. Overall: '' @ overall @ lit ''. Next: '' @ action_instruction next)))))))))))"

end
