(* ===== verification/Plan_Props.thy ===== *)
theory Plan_Props
  imports Plan_Manager
begin

text \<open>
  Plans: one call at a time, a step gets one agent at most, and an evaluation is applied as a whole or not at all; two dispatches
  at once may start two agents.
\<close>

section \<open>Identifiers\<close>

definition hex_value :: "ustr \<Rightarrow> nat" where
  "hex_value s = fold (\<lambda>c a. a * 16 + (if c < 87 then c - 48 else c - 87)) s 0"

lemma hex_value_append: "hex_value (s @ [c]) = hex_value s * 16 + (if c < 87 then c - 48 else c - 87)"
  by (simp add: hex_value_def)

lemma hex_value_hex: "hex_value (hex n) = n"
proof (induction n rule: hex.induct)
  case (1 n)
  show ?case
  proof (cases "n < 16")
    case True
    then show ?thesis by (subst hex.simps) (auto simp: hex_value_def hex_digit_def)
  next
    case False
    then show ?thesis using 1 by (subst hex.simps) (auto simp: hex_value_append hex_digit_def)
  qed
qed

lemma hex_value_zeros: "hex_value (replicate k 48 @ s) = hex_value s"
  by (induction k) (simp_all add: hex_value_def)

lemma plan_id_of_inj: "plan_id_of m = plan_id_of n \<longleftrightarrow> m = n"
proof
  assume "plan_id_of m = plan_id_of n"
  then have "hex_value (replicate (8 - length (hex m)) 48 @ hex m) = hex_value (replicate (8 - length (hex n)) 48 @ hex n)"
    by (simp add: plan_id_of_def)
  then show "m = n" by (simp add: hex_value_zeros hex_value_hex)
qed simp

section \<open>Calls one at a time\<close>

datatype 'n plan_call = CallCreate nat "'n tool_args" | CallDispatch ustr "'n tool_args" | CallEvaluate "'n tool_args" | CallClear

fun plan_exec :: "(ustr \<Rightarrow> ustr) \<Rightarrow> 'n plan_call \<Rightarrow> plan_manager \<Rightarrow> plan_manager \<times> 'n plan_event list" where
  "plan_exec esc (CallCreate now args) pm = (case create_execution_plan now args pm of (pm1, evs, r) \<Rightarrow> (pm1, evs))"
| "plan_exec esc (CallDispatch uuid8 args) pm = (case dispatch_plan_step esc uuid8 args pm of (pm1, evs, r) \<Rightarrow> (pm1, evs))"
| "plan_exec esc (CallEvaluate args) pm = (case evaluate_results args pm of (pm1, evs, r) \<Rightarrow> (pm1, evs))"
| "plan_exec esc CallClear pm = (clear_active_plan pm, [])"

text \<open>The plan and the step for which a call starts an agent.\<close>

fun is_spawn :: "'n plan_event \<Rightarrow> bool" where
  "is_spawn (AgentSpawned pane agent_type cmd) = True"
| "is_spawn event = False"

definition started :: "(ustr \<Rightarrow> ustr) \<Rightarrow> 'n plan_call \<Rightarrow> plan_manager \<Rightarrow> (ustr \<times> ustr) list" where
  "started esc call pm =
    (case call of
       CallDispatch uuid8 args \<Rightarrow>
         map (\<lambda>event. (ep_id (the (pm_active pm)), the (ta_step_id args))) (filter is_spawn (snd (plan_exec esc call pm)))
     | _ \<Rightarrow> [])"

fun plan_run :: "(ustr \<Rightarrow> ustr) \<Rightarrow> 'n plan_call list \<Rightarrow> plan_manager \<Rightarrow> plan_manager \<times> (ustr \<times> ustr) list" where
  "plan_run esc [] pm = (pm, [])"
| "plan_run esc (c # cs) pm = (case plan_run esc cs (fst (plan_exec esc c pm)) of (pm1, keys) \<Rightarrow> (pm1, started esc c pm @ keys))"

text \<open>A step that has been started is not pending, and every plan has a number below the counter.\<close>

definition plan_inv :: "plan_manager \<Rightarrow> (ustr \<times> ustr) set \<Rightarrow> bool" where
  "plan_inv pm keys \<longleftrightarrow>
    (\<forall>plan. pm_active pm = Some plan \<longrightarrow> ep_id plan \<in> plan_id_of ` {..<pm_counter pm}) \<and>
    (\<forall>p i. (p, i) \<in> keys \<longrightarrow> p \<in> plan_id_of ` {..<pm_counter pm} \<and>
      (\<forall>plan. pm_active pm = Some plan \<longrightarrow> ep_id plan = p \<longrightarrow> (\<exists>s. find_step i plan = Some s \<and> st_status s \<noteq> StPending)))"

text \<open>It is kept by a change of the plan that makes no step pending.\<close>

lemma plan_inv_same:
  assumes "plan_inv pm keys" "pm_counter pm1 = pm_counter pm" "pm_active pm = Some plan" "pm_active pm1 = Some plan1" "ep_id plan1 = ep_id plan"
    and "\<And>i s. find_step i plan = Some s \<Longrightarrow> st_status s \<noteq> StPending \<Longrightarrow> \<exists>s1. find_step i plan1 = Some s1 \<and> st_status s1 \<noteq> StPending"
  shows "plan_inv pm1 keys"
  using assms unfolding plan_inv_def by fastforce

lemma find_update_first:
  assumes "\<And>s. st_id (f s) = st_id s"
  shows "find (\<lambda>s. st_id s = i) (update_first (\<lambda>s. st_id s = j) f ss) =
    (if i = j then map_option f (find (\<lambda>s. st_id s = i) ss) else find (\<lambda>s. st_id s = i) ss)"
  using assms by (induction ss) auto

lemma update_step_cases:
  assumes "update_step_status j status pane pm = (pm1, r)"
  obtains (Refused) e where "pm1 = pm" "r = Inl e"
  | (Updated) plan plan1 s where "pm_active pm = Some plan" "pm_active pm1 = Some plan1" "pm_counter pm1 = pm_counter pm" "ep_id plan1 = ep_id plan" "r = Inr ()"
      "\<And>i. i \<noteq> j \<Longrightarrow> find_step i plan1 = find_step i plan" "find_step j plan1 = Some s" "st_status s = status" "find_step j plan \<noteq> None"
proof (cases "\<exists>plan. pm_active pm = Some plan \<and> find_step j plan \<noteq> None")
  case False
  then show ?thesis using assms Refused by (auto simp: update_step_status_def split: option.splits if_splits)
next
  case True
  then obtain plan where p: "pm_active pm = Some plan" "find_step j plan \<noteq> None" by blast
  define f where "f = (\<lambda>s :: plan_step. s\<lparr>st_status := status, st_assigned_pane_id := (case pane of Some q \<Rightarrow> Some q | None \<Rightarrow> st_assigned_pane_id s)\<rparr>)"
  have f: "st_id (f s) = st_id s" "st_status (f s) = status" for s by (simp_all add: f_def)
  obtain plan1 where q: "pm_active pm1 = Some plan1" "ep_steps plan1 = update_first (\<lambda>s. st_id s = j) f (ep_steps plan)" "ep_id plan1 = ep_id plan"
      "pm_counter pm1 = pm_counter pm" "r = Inr ()"
    using assms p by (auto simp: update_step_status_def f_def Let_def split: if_splits)
  have find: "find_step i plan1 = (if i = j then map_option f (find_step i plan) else find_step i plan)" for i
    unfolding find_step_def q(2) by (rule find_update_first) (rule f(1))
  obtain s where "find_step j plan = Some s" using p(2) by blast
  then show ?thesis using Updated [of plan plan1 "f s"] p q find f(2) by simp
qed

lemma update_step_keeps:
  assumes "update_step_status j status pane pm = (pm1, r)" "plan_inv pm keys" "status \<noteq> StPending"
  shows "plan_inv pm1 keys"
  using assms(1)
proof (cases rule: update_step_cases)
  case (Updated plan plan1 s)
  show ?thesis
  proof (rule plan_inv_same [OF assms(2) Updated(3,1,2,4)])
    fix i t assume "find_step i plan = Some t" "st_status t \<noteq> StPending"
    then show "\<exists>s1. find_step i plan1 = Some s1 \<and> st_status s1 \<noteq> StPending" using Updated(6) [of i] Updated(7,8) assms(3) by (cases "i = j") auto
  qed
qed (use assms(2) in simp)

lemma apply_evals_keeps:
  "apply_evals rs pm = (pm1, r) \<Longrightarrow> plan_inv pm keys \<Longrightarrow> list_all (\<lambda>(i, status). status \<noteq> StPending) rs \<Longrightarrow> plan_inv pm1 keys"
proof (induction rs pm rule: apply_evals.induct)
  case (2 i status rs pm)
  obtain pm2 r2 where u: "update_step_status i status None pm = (pm2, r2)" by (cases "update_step_status i status None pm")
  have "plan_inv pm2 keys" using update_step_keeps [OF u "2.prems"(2)] "2.prems"(3) by simp
  then show ?case using 2 u by (auto split: sum.splits)
qed simp

lemma validate_evals_status: "validate_evals plan n vs = Inr rs \<Longrightarrow> list_all (\<lambda>(i, status). status \<noteq> StPending) rs"
  by (induction vs arbitrary: n rs) (auto simp: Let_def split: option.splits if_splits sum.splits)

lemma update_plan_keeps: "update_plan_status status pm = (pm1, r) \<Longrightarrow> plan_inv pm keys \<Longrightarrow> plan_inv pm1 keys"
  by (auto simp: update_plan_status_def find_step_def split: option.splits intro: plan_inv_same)

lemma evaluate_keeps:
  assumes "evaluate_results args pm = (pm1, evs, r)" "plan_inv pm keys"
  shows "plan_inv pm1 keys"
proof -
  have "plan_inv pm2 keys" if "validate_evals plan 0 vs = Inr rs" "apply_evals rs pm = (pm2, r2)" for plan vs rs pm2 r2
    using apply_evals_keeps [OF that(2) assms(2) validate_evals_status [OF that(1)]] .
  then show ?thesis
    using assms
    by (auto simp: evaluate_results_def Let_def dest!: update_plan_keeps [where keys = keys] split: option.splits sum.splits prod.splits)
qed

lemma create_keeps:
  assumes "create_execution_plan now args pm = (pm1, evs, r)" "plan_inv pm keys"
  shows "plan_inv pm1 keys"
proof -
  have fresh: "(plan_id_of (pm_counter pm), i) \<notin> keys" for i
    using assms(2) unfolding plan_inv_def by (metis imageE lessThan_iff less_irrefl plan_id_of_inj)
  have "plan_inv pm2 keys" if "set_active_plan now goal reasoning steps pm = (pm2, plan)" for goal reasoning steps pm2 plan
    using assms(2) that fresh by (auto simp: set_active_plan_def Let_def plan_inv_def plan_id_of_inj image_iff lessThan_Suc)
  then show ?thesis using assms by (auto simp: create_execution_plan_def Let_def split: option.splits prod.splits)
qed

text \<open>A dispatch starts an agent only for a step that is pending, and the step then is not.\<close>

lemma dispatch_keeps:
  assumes "plan_exec esc (CallDispatch uuid8 args) pm = (pm1, evs)" "plan_inv pm keys"
  shows "plan_inv pm1 (keys \<union> set (started esc (CallDispatch uuid8 args) pm)) \<and> distinct (started esc (CallDispatch uuid8 args) pm) \<and>
    set (started esc (CallDispatch uuid8 args) pm) \<inter> keys = {}"
proof (cases "dispatch_check esc uuid8 args pm")
  case (Answer r)
  then show ?thesis using assms by (auto simp: dispatch_plan_step_def started_def)
next
  case (Dispatch step_id pane agent_type cmd description)
  obtain plan s where p: "ta_step_id args = Some step_id" "pm_active pm = Some plan" "find_step step_id plan = Some s" "st_status s = StPending"
    using Dispatch by (auto simp: dispatch_check_def Let_def split: option.splits if_splits)
  obtain pm2 r2 where u: "update_step_status step_id StInProgress (Some pane) pm = (pm2, r2)"
    by (cases "update_step_status step_id StInProgress (Some pane) pm")
  from u show ?thesis
  proof (cases rule: update_step_cases)
    case (Refused e)
    then show ?thesis using u p by (simp add: update_step_status_def Let_def)
  next
    case (Updated plan0 plan1 s1)
    have run: "pm1 = pm2" "filter is_spawn evs = [AgentSpawned pane agent_type cmd]"
      using assms(1) Dispatch u Updated(2,5) by (auto simp: dispatch_plan_step_def dispatch_commit_def)
    then have key: "started esc (CallDispatch uuid8 args) pm = [(ep_id plan, step_id)]" using assms(1) p by (simp add: started_def)
    have fresh: "(ep_id plan, step_id) \<notin> keys" using assms(2) p unfolding plan_inv_def by fastforce
    have "plan_inv pm2 keys" by (rule update_step_keeps [OF u assms(2)]) simp
    moreover have "ep_id plan \<in> plan_id_of ` {..<pm_counter pm2}" using assms(2) p(2) Updated(3) by (simp add: plan_inv_def)
    ultimately have "plan_inv pm2 (insert (ep_id plan, step_id) keys)"
      using Updated p(2) unfolding plan_inv_def by auto
    then show ?thesis using key run(1) fresh by simp
  qed
qed

lemma plan_exec_keeps:
  assumes "plan_exec esc c pm = (pm1, evs)" "plan_inv pm keys"
  shows "plan_inv pm1 (keys \<union> set (started esc c pm)) \<and> distinct (started esc c pm) \<and> set (started esc c pm) \<inter> keys = {}"
proof (cases c)
  case (CallDispatch uuid8 args)
  then show ?thesis using dispatch_keeps assms by blast
next
  case CallClear
  then show ?thesis using assms by (auto simp: started_def clear_active_plan_def plan_inv_def)
qed (use assms in \<open>auto simp: started_def dest: create_keeps evaluate_keeps split: prod.splits\<close>)

lemma plan_run_distinct:
  "plan_inv pm keys \<Longrightarrow> distinct (snd (plan_run esc cs pm)) \<and> set (snd (plan_run esc cs pm)) \<inter> keys = {}"
proof (induction cs arbitrary: pm keys)
  case (Cons c cs)
  obtain pm1 evs where x: "plan_exec esc c pm = (pm1, evs)" by (cases "plan_exec esc c pm")
  show ?case using plan_exec_keeps [OF x Cons.prems] Cons.IH [of pm1 "keys \<union> set (started esc c pm)"] x by (auto split: prod.splits)
qed simp

text \<open>
  C30. A step gets one agent. In any sequence of calls that make plans, dispatch steps, record evaluations and clear the plan, each call running alone, at most one agent is
  started for each step of each plan, also when steps are dispatched again, when they have failed, or when plans repeat the identifiers
  of steps.
\<close>

theorem steps_dispatched_once:
  "distinct (snd (plan_run esc calls \<lparr>pm_active = None, pm_counter = 0\<rparr>))"
  using plan_run_distinct [of "\<lparr>pm_active = None, pm_counter = 0\<rparr>" "{}" esc calls] by (simp add: plan_inv_def)

section \<open>Evaluations\<close>

lemma find_step_update:
  assumes "update_step_status j status pane pm = (pm1, r)" "pm_active pm = Some plan"
  shows "\<exists>plan1. pm_active pm1 = Some plan1 \<and> ep_id plan1 = ep_id plan \<and> (\<forall>i. find_step i plan1 = None \<longleftrightarrow> find_step i plan = None)"
  using assms(1)
proof (cases rule: update_step_cases)
  case (Updated plan0 plan1 s)
  have "find_step i plan1 = None \<longleftrightarrow> find_step i plan = None" for i using Updated(1,6,7,9) assms(2) by (cases "i = j") auto
  then show ?thesis using Updated(1,2,4) assms(2) by auto
qed (use assms(2) in auto)

lemma apply_evals_succeeds:
  assumes "pm_active pm = Some plan" "list_all (\<lambda>(i, status). find_step i plan \<noteq> None) rs"
  shows "\<exists>pm1 plan1. apply_evals rs pm = (pm1, Inr ()) \<and> pm_active pm1 = Some plan1 \<and> ep_id plan1 = ep_id plan"
  using assms
proof (induction rs pm arbitrary: plan rule: apply_evals.induct)
  case (2 i status rs pm)
  obtain pm2 r where u: "update_step_status i status None pm = (pm2, r)" by (cases "update_step_status i status None pm")
  have r: "r = Inr ()" using u "2.prems" by (auto simp: update_step_status_def Let_def split: if_splits)
  obtain plan2 where p: "pm_active pm2 = Some plan2" "ep_id plan2 = ep_id plan" "\<forall>i. find_step i plan2 = None \<longleftrightarrow> find_step i plan = None"
    using find_step_update [OF u "2.prems"(1)] by blast
  have "\<exists>pm1 plan1. apply_evals rs pm2 = (pm1, Inr ()) \<and> pm_active pm1 = Some plan1 \<and> ep_id plan1 = ep_id plan2"
    by (rule "2.IH" [OF u [symmetric] r p(1)]) (use "2.prems"(2) p(3) in \<open>auto simp: list_all_iff\<close>)
  then show ?case using u r p(2) by auto
qed simp

lemma validate_evals_found: "validate_evals plan n vs = Inr rs \<Longrightarrow> list_all (\<lambda>(i, status). find_step i plan \<noteq> None) rs"
  by (induction vs arbitrary: n rs) (auto simp: Let_def split: option.splits if_splits sum.splits)

text \<open>
  C31. An evaluation is applied as a whole or not at all: when it is refused, for a missing or unknown verdict, a malformed entry or an unknown step,
  the plan is as it was and nothing is sent to the window; otherwise it answers, the plan has the status of the verdict, and no entry is left out.
\<close>

theorem evaluation_atomic:
  assumes "evaluate_results args pm = (pm1, evs, r)"
  shows "case r of
      Inl e \<Rightarrow> pm1 = pm \<and> evs = []
    | Inr answer \<Rightarrow>
        (case pm_active pm of
           None \<Rightarrow> pm1 = pm
         | Some plan \<Rightarrow>
             \<exists>overall status rs pm0 plan0. ta_overall_status args = Some overall \<and> overall_plan_status overall = Some status \<and>
               validate_evals plan 0 (case ta_step_evaluations args of Some vs \<Rightarrow> vs | None \<Rightarrow> []) = Inr rs \<and>
               apply_evals rs pm = (pm0, Inr ()) \<and> pm_active pm0 = Some plan0 \<and> pm1 = pm0\<lparr>pm_active := Some (plan0\<lparr>ep_status := status\<rparr>)\<rparr>)"
proof (cases "pm_active pm")
  case None
  then show ?thesis using assms by (auto simp: evaluate_results_def)
next
  case (Some plan)
  have "\<exists>pm0 plan0. apply_evals rs pm = (pm0, Inr ()) \<and> pm_active pm0 = Some plan0" if "validate_evals plan 0 vs = Inr rs" for vs rs
    using apply_evals_succeeds [OF Some validate_evals_found [OF that]] by blast
  then show ?thesis
    using assms Some
    by (fastforce simp: evaluate_results_def update_plan_status_def Let_def split: option.splits sum.splits prod.splits)
qed

section \<open>What does not hold\<close>

text \<open>
  A dispatch checks a copy of the plan and only later marks the step. The tool calls of one answer run at once, so two dispatches of one step may both
  find it pending, and both start an agent.
\<close>

lemma two_dispatches_at_once:
  assumes "dispatch_check esc u1 args pm = Dispatch step_id pane1 agent_type cmd description"
  shows "\<exists>pane2. dispatch_check esc u2 args pm = Dispatch step_id pane2 agent_type cmd description"
    and "snd (snd (dispatch_commit step_id pane2 description (fst (dispatch_commit step_id pane1 description pm)))) \<noteq> Inl e"
proof -
  show "\<exists>pane2. dispatch_check esc u2 args pm = Dispatch step_id pane2 agent_type cmd description"
    using assms by (auto simp: dispatch_check_def Let_def split: option.splits if_splits)
  obtain plan where p: "pm_active pm = Some plan" "find_step step_id plan \<noteq> None"
    using assms by (auto simp: dispatch_check_def Let_def split: option.splits if_splits)
  then show "snd (snd (dispatch_commit step_id pane2 description (fst (dispatch_commit step_id pane1 description pm)))) \<noteq> Inl e"
    by (auto simp: dispatch_commit_def update_step_status_def find_step_def find_update_first Let_def split: option.splits if_splits prod.splits)
qed

text \<open>A step that failed is refused, although the evaluation tells the model to dispatch it again.\<close>

lemma failed_step_not_dispatched:
  assumes "pm_active pm = Some plan" "find_step i plan = Some s" "st_status s = StFailed" "ta_step_id args = Some i"
  shows "fst (dispatch_plan_step esc uuid8 args pm) = pm \<and> fst (snd (dispatch_plan_step esc uuid8 args pm)) = []"
  using assms by (simp add: dispatch_plan_step_def dispatch_check_def)

section \<open>Witness\<close>

definition demo_args :: "unit tool_args" where
  "demo_args = \<lparr>ta_goal = None, ta_reasoning = None, ta_steps = None, ta_step_id = None, ta_overall_status = Some (lit ''success''),
     ta_step_evaluations = None, ta_next_action = None\<rparr>"

definition demo_pm :: plan_manager where
  "demo_pm = fst (set_active_plan 1 [] [] [] \<lparr>pm_active = None, pm_counter = 0\<rparr>)"

theorem evaluation_atomic_witness:
  "\<exists>pm1 evs answer plan0. evaluate_results demo_args demo_pm = (pm1, evs, Inr answer) \<and> pm_active pm1 = Some plan0 \<and> ep_status plan0 = PlCompleted"
proof -
  obtain pm1 evs answer where e: "evaluate_results demo_args demo_pm = (pm1, evs, Inr answer)"
    by (simp add: evaluate_results_def demo_args_def demo_pm_def set_active_plan_def overall_plan_status_def update_plan_status_def Let_def)
  have "pm_active demo_pm \<noteq> None" "overall_plan_status (lit ''success'') = Some PlCompleted"
    by (simp_all add: demo_pm_def set_active_plan_def Let_def overall_plan_status_def)
  then show ?thesis using evaluation_atomic [OF e] e by (auto simp: demo_args_def)
qed

end
