(* ===== verification/Comms_Server.thy ===== *)
theory Comms_Server
  imports Json_Value
begin

text \<open>
  \<open>agent_comms.rs\<close>, \<open>agent_comms_types.rs\<close> and \<open>agent_comms_connection.rs\<close> of \<open>crates/athena-core/src\<close>: the server that agents connect to. The
  state behind its two locks is \<open>comms\<close>; every lock access is a function on it, and a handler is composed of these. A channel is named by a
  number. The sessions are listed in the order in which their hash map yields them, an insertion is at a place that the caller gives.
  Messages to the socket and to the window are values; their JSON text, the reading of a message from JSON,
  identifiers and the clock are arguments.
\<close>

definition MAX_AGENT_LINE_BYTES :: nat where
  "MAX_AGENT_LINE_BYTES = 65536"

definition MAX_AGENT_METHOD_BYTES :: nat where
  "MAX_AGENT_METHOD_BYTES = 128"

definition MAX_AGENT_ID_BYTES :: nat where
  "MAX_AGENT_ID_BYTES = 256"

definition MAX_AGENT_PLUGIN_ID_BYTES :: nat where
  "MAX_AGENT_PLUGIN_ID_BYTES = 256"

definition MAX_AGENT_STATUS_BYTES :: nat where
  "MAX_AGENT_STATUS_BYTES = 32"

definition MAX_AGENT_LEVEL_BYTES :: nat where
  "MAX_AGENT_LEVEL_BYTES = 32"

definition OUTBOUND_QUEUE_CAP :: nat where
  "OUTBOUND_QUEUE_CAP = 1024"

record 'n agent_message =
  am_jsonrpc :: ustr
  am_id :: "ustr option"
  am_method :: ustr
  am_params :: "'n jvalue"

datatype agent_session_status = SsActive | SsIdle | SsWaitingInput | SsDisconnected

fun session_status_name :: "agent_session_status \<Rightarrow> ustr" where
  "session_status_name SsActive = lit ''active''"
| "session_status_name SsIdle = lit ''idle''"
| "session_status_name SsWaitingInput = lit ''waiting_input''"
| "session_status_name SsDisconnected = lit ''disconnected''"

record agent_session =
  as_id :: ustr
  as_plugin_id :: ustr
  as_agent_id :: ustr
  as_connected_at :: nat
  as_last_activity_at :: nat
  as_status :: agent_session_status

record session_internal =
  si_session :: agent_session
  si_sender :: nat
  si_peer_addr :: "nat option"

record pending_input =
  pi_session_id :: ustr
  pi_sender :: nat

datatype comms_error = BrokenPipe | AgentNotFound ustr | RequestNotFound ustr | Cancelled | CommsGeneric ustr

text \<open>A channel for one answer has room for one message; the receiver may be gone. An outbound queue likewise.\<close>

record input_chan =
  ic_message :: "ustr option"
  ic_open :: bool

record 'n out_queue =
  oq_items :: "(ustr \<times> 'n jvalue) list"
  oq_open :: bool

record 'n comms =
  cm_sessions :: "session_internal list"
  cm_pending :: "ustr \<rightharpoonup> pending_input"
  cm_inputs :: "nat \<Rightarrow> input_chan"
  cm_next :: nat
  cm_queues :: "nat \<Rightarrow> 'n out_queue"

datatype 'n comms_out =
    ReplyError "ustr option" int ustr
  | ReplyInit "ustr option" ustr ustr
  | ReplyAck "ustr option"
  | ReplyInput "ustr option" ustr
  | ReplyTs "ustr option" nat
  | EvConnected ustr ustr ustr nat
  | EvDisconnected ustr ustr ustr
  | EvStatus ustr ustr ustr "'n jvalue option"
  | EvNotification "ustr option" "ustr option" ustr ustr ustr "'n jvalue option" nat
  | EvInputRequested "ustr option" ustr ustr ustr "ustr option"

section \<open>Validation\<close>

definition valid_text :: "nat \<Rightarrow> ustr \<Rightarrow> bool" where
  "valid_text max_bytes t \<longleftrightarrow> t \<noteq> [] \<and> str_len t \<le> max_bytes \<and> \<not> list_ex is_control t"

definition valid_optional_text :: "'n jvalue \<Rightarrow> string \<Rightarrow> nat \<Rightarrow> bool" where
  "valid_optional_text params key max_bytes =
    (case j_get key params of
       None \<Rightarrow> True
     | Some v \<Rightarrow> (case v_as_str v of Some t \<Rightarrow> valid_text max_bytes t | None \<Rightarrow> False))"

definition validate_agent_message :: "'n agent_message \<Rightarrow> string + unit" where
  "validate_agent_message m =
    (if am_jsonrpc m \<noteq> lit ''2.0'' then Inl ''unsupported jsonrpc version''
     else if am_method m = [] \<or> MAX_AGENT_METHOD_BYTES < str_len (am_method m) then Inl ''method field too large''
     else if list_ex is_control (am_method m) then Inl ''method contains control characters''
     else if (case am_id m of Some i \<Rightarrow> \<not> valid_text MAX_AGENT_ID_BYTES i | None \<Rightarrow> False) then Inl ''id field too large or invalid''
     else if am_method m = lit ''initialize'' then
       (case j_get ''data'' (am_params m) of
          None \<Rightarrow> Inl ''initialize data is missing''
        | Some d \<Rightarrow>
            if \<not> valid_optional_text d ''pluginId'' MAX_AGENT_PLUGIN_ID_BYTES \<or> \<not> valid_optional_text d ''agentId'' MAX_AGENT_ID_BYTES
            then Inl ''initialize identity field too large or invalid'' else Inr ())
     else if am_method m = lit ''notifications/message'' \<and>
         (\<not> valid_optional_text (am_params m) ''agentId'' MAX_AGENT_ID_BYTES \<or> \<not> valid_optional_text (am_params m) ''level'' MAX_AGENT_LEVEL_BYTES)
       then Inl ''notification identity field too large or invalid''
     else if am_method m = lit ''agents/status'' \<and> \<not> valid_optional_text (am_params m) ''status'' MAX_AGENT_STATUS_BYTES
       then Inl ''status field too large or invalid''
     else if am_method m = lit ''agents/requestInput'' \<and> \<not> valid_optional_text (am_params m) ''requestId'' MAX_AGENT_ID_BYTES
       then Inl ''request ID field too large or invalid''
     else Inr ())"

section \<open>Accesses to the sessions\<close>

abbreviation has_session_id :: "ustr \<Rightarrow> session_internal \<Rightarrow> bool" where
  "has_session_id i s \<equiv> as_id (si_session s) = i"

definition map_session :: "(agent_session \<Rightarrow> agent_session) \<Rightarrow> session_internal \<Rightarrow> session_internal" where
  "map_session f s = s\<lparr>si_session := f (si_session s)\<rparr>"

definition find_session_by_agent_id :: "ustr \<Rightarrow> 'n comms \<Rightarrow> agent_session option" where
  "find_session_by_agent_id agent_id cm = map_option si_session (find (\<lambda>s. as_agent_id (si_session s) = agent_id) (cm_sessions cm))"

definition find_session_by_stream :: "nat option \<Rightarrow> 'n comms \<Rightarrow> agent_session option" where
  "find_session_by_stream peer cm =
    (case peer of None \<Rightarrow> None | Some addr \<Rightarrow> map_option si_session (find (\<lambda>s. si_peer_addr s = Some addr) (cm_sessions cm)))"

definition update_activity_by_agent_id :: "nat \<Rightarrow> ustr \<Rightarrow> 'n comms \<Rightarrow> 'n comms" where
  "update_activity_by_agent_id now agent_id cm =
    cm\<lparr>cm_sessions := update_first (\<lambda>s. as_agent_id (si_session s) = agent_id) (map_session (\<lambda>a. a\<lparr>as_last_activity_at := now\<rparr>)) (cm_sessions cm)\<rparr>"

definition update_activity_by_session_id :: "nat \<Rightarrow> ustr \<Rightarrow> 'n comms \<Rightarrow> 'n comms" where
  "update_activity_by_session_id now session_id cm =
    cm\<lparr>cm_sessions := update_first (has_session_id session_id) (map_session (\<lambda>a. a\<lparr>as_last_activity_at := now\<rparr>)) (cm_sessions cm)\<rparr>"

definition update_session_status :: "ustr \<Rightarrow> agent_session_status \<Rightarrow> 'n comms \<Rightarrow> 'n comms" where
  "update_session_status session_id status cm =
    cm\<lparr>cm_sessions := update_first (has_session_id session_id) (map_session (\<lambda>a. a\<lparr>as_status := status\<rparr>)) (cm_sessions cm)\<rparr>"

text \<open>The critical section of \<open>handle_initialize\<close>: older sessions of the same identity go, the new one is stored.\<close>

definition same_identity :: "agent_session \<Rightarrow> session_internal \<Rightarrow> bool" where
  "same_identity a s \<longleftrightarrow> as_plugin_id (si_session s) = as_plugin_id a \<and> as_agent_id (si_session s) = as_agent_id a"

definition register_agent_session :: "nat \<Rightarrow> session_internal \<Rightarrow> 'n comms \<Rightarrow> agent_session list \<times> 'n comms" where
  "register_agent_session slot internal cm =
    (let evicted = filter (same_identity (si_session internal)) (cm_sessions cm);
         kept = filter (\<lambda>s. \<not> same_identity (si_session internal) s \<and> \<not> has_session_id (as_id (si_session internal)) s) (cm_sessions cm)
     in (map si_session evicted, cm\<lparr>cm_sessions := take slot kept @ internal # drop slot kept\<rparr>))"

definition take_session :: "ustr \<Rightarrow> 'n comms \<Rightarrow> agent_session option \<times> 'n comms" where
  "take_session session_id cm =
    (map_option si_session (find (has_session_id session_id) (cm_sessions cm)),
     cm\<lparr>cm_sessions := filter (\<lambda>s. \<not> has_session_id session_id s) (cm_sessions cm)\<rparr>)"

section \<open>Accesses to the pending requests\<close>

text \<open>\<open>retain\<close>: the requests of some sessions are dropped, and with each its sender.\<close>

definition drop_pending :: "ustr list \<Rightarrow> 'n comms \<Rightarrow> 'n comms" where
  "drop_pending ids cm =
    cm\<lparr>cm_pending := (\<lambda>r. case cm_pending cm r of Some e \<Rightarrow> if pi_session_id e \<in> set ids then None else Some e | None \<Rightarrow> None)\<rparr>"

text \<open>A new channel and the entry for it, unless the identifier is in use.\<close>

definition open_input :: "ustr \<Rightarrow> ustr \<Rightarrow> 'n comms \<Rightarrow> nat option \<times> 'n comms" where
  "open_input request_id session_id cm =
    (case cm_pending cm request_id of
       Some e \<Rightarrow> (None, cm)
     | None \<Rightarrow>
         (let c = cm_next cm in
          (Some c, cm\<lparr>cm_pending := (cm_pending cm)(request_id \<mapsto> \<lparr>pi_session_id = session_id, pi_sender = c\<rparr>),
              cm_inputs := (cm_inputs cm)(c := \<lparr>ic_message = None, ic_open = True\<rparr>), cm_next := Suc c\<rparr>)))"

definition respond_to_input_request :: "ustr \<Rightarrow> ustr \<Rightarrow> 'n comms \<Rightarrow> (comms_error + bool) \<times> 'n comms" where
  "respond_to_input_request request_id response cm =
    (case cm_pending cm request_id of
       None \<Rightarrow> (Inl (RequestNotFound request_id), cm)
     | Some e \<Rightarrow>
         (let cm1 = cm\<lparr>cm_pending := (cm_pending cm)(request_id := None)\<rparr>; c = pi_sender e in
          if ic_open (cm_inputs cm c)
          then (Inr True, cm1\<lparr>cm_inputs := (cm_inputs cm)(c := (cm_inputs cm c)\<lparr>ic_message := Some response\<rparr>)\<rparr>)
          else (Inl BrokenPipe, cm1)))"

definition cancel_input_request :: "ustr \<Rightarrow> 'n comms \<Rightarrow> bool \<times> 'n comms" where
  "cancel_input_request request_id cm =
    (cm_pending cm request_id \<noteq> None, cm\<lparr>cm_pending := (cm_pending cm)(request_id := None)\<rparr>)"

text \<open>
  \<open>recv_timeout\<close>: the message that is there; else that the last sender is gone; else, once the time has passed, that. The receiver
  stays alive until the function that waits returns.
\<close>

datatype recv_outcome = Answered ustr | Disconnected | TimedOut

definition sender_alive :: "nat \<Rightarrow> 'n comms \<Rightarrow> bool" where
  "sender_alive c cm \<longleftrightarrow> (\<exists>r e. cm_pending cm r = Some e \<and> pi_sender e = c)"

definition recv_input :: "nat \<Rightarrow> recv_outcome \<Rightarrow> 'n comms \<Rightarrow> bool" where
  "recv_input c outcome cm =
    (case ic_message (cm_inputs cm c) of
       Some m \<Rightarrow> outcome = Answered m
     | None \<Rightarrow> outcome = (if sender_alive c cm then TimedOut else Disconnected))"

definition close_input :: "nat \<Rightarrow> 'n comms \<Rightarrow> 'n comms" where
  "close_input c cm = cm\<lparr>cm_inputs := (cm_inputs cm)(c := \<lparr>ic_message = None, ic_open = False\<rparr>)\<rparr>"

text \<open>What the waiting thread does to the table after \<open>recv_timeout\<close>: only a timeout removes an entry, by its identifier.\<close>

definition settle_input :: "ustr \<Rightarrow> recv_outcome \<Rightarrow> 'n comms \<Rightarrow> 'n comms" where
  "settle_input request_id outcome cm = (if outcome = TimedOut then snd (cancel_input_request request_id cm) else cm)"

section \<open>Handlers\<close>

text \<open>
  What a message meets: fresh identifiers, the clock at each of its readings, the place of an insertion; and for a request that waits, what
  other threads do meanwhile and how the wait ends.
\<close>

record 'n comms_env =
  ce_uuid :: ustr
  ce_request_uuid :: ustr
  ce_now :: "nat \<Rightarrow> nat"
  ce_slot :: nat
  ce_between :: "'n comms \<Rightarrow> 'n comms"
  ce_outcome :: recv_outcome

text \<open>A connection: the peer's address when it is known, its outbound queue, and what \<open>handle_connection\<close> keeps about it.\<close>

record conn =
  cn_peer :: "nat option"
  cn_sender :: nat
  cn_authenticated :: bool
  cn_session_id :: "ustr option"

definition param_str :: "string \<Rightarrow> 'n jvalue \<Rightarrow> ustr option" where
  "param_str key v = Option.bind (j_get key v) v_as_str"

definition opt_or :: "'a option \<Rightarrow> 'a \<Rightarrow> 'a" where
  "opt_or x d = (case x of Some a \<Rightarrow> a | None \<Rightarrow> d)"

definition disconnected_event :: "agent_session \<Rightarrow> 'n comms_out" where
  "disconnected_event s = EvDisconnected (as_id s) (as_agent_id s) (as_plugin_id s)"

definition handle_initialize ::
  "ustr \<Rightarrow> 'n comms_env \<Rightarrow> 'n agent_message \<Rightarrow> conn \<Rightarrow> 'n comms \<Rightarrow> ustr option \<times> 'n comms \<times> 'n comms_out list" where
  "handle_initialize token env m conn cm =
    (if Option.bind (j_get ''data'' (am_params m)) (param_str ''token'') \<noteq> Some token
     then (None, cm, [ReplyError (am_id m) (-32600) (lit ''Invalid or missing auth token'')])
     else (let session_id = ce_uuid env;
               data = opt_or (j_get ''data'' (am_params m)) VNull;
               plugin_id = opt_or (param_str ''pluginId'' data) (lit ''unknown'');
               agent_id = opt_or (param_str ''agentId'' data) (lit ''agent-'' @ take 8 session_id);
               connected_at = ce_now env 0;
               session = \<lparr>as_id = session_id, as_plugin_id = plugin_id, as_agent_id = agent_id, as_connected_at = connected_at,
                 as_last_activity_at = connected_at, as_status = SsActive\<rparr>;
               internal = \<lparr>si_session = session, si_sender = cn_sender conn, si_peer_addr = cn_peer conn\<rparr>;
               (evicted, cm1) = register_agent_session (ce_slot env) internal cm;
               cm2 = (if evicted = [] then cm1 else drop_pending (map as_id evicted) cm1)
           in (Some session_id, cm2,
               map disconnected_event evicted @
               [ReplyInit (am_id m) session_id agent_id, EvConnected session_id plugin_id agent_id connected_at])))"

definition ack :: "'n agent_message \<Rightarrow> 'n comms_out list" where
  "ack m = (if am_id m = None then [] else [ReplyAck (am_id m)])"

definition handle_notification :: "'n comms_env \<Rightarrow> 'n agent_message \<Rightarrow> 'n comms \<Rightarrow> 'n comms \<times> 'n comms_out list" where
  "handle_notification env m cm =
    (let agent_id = param_str ''agentId'' (am_params m);
         session = Option.bind agent_id (\<lambda>aid. find_session_by_agent_id aid cm);
         cm1 = (case agent_id of Some aid \<Rightarrow> update_activity_by_agent_id (ce_now env 0) aid cm | None \<Rightarrow> cm);
         level = opt_or (param_str ''level'' (am_params m)) (lit ''info'');
         status = (if level = lit ''needs_input'' then SsWaitingInput else SsActive);
         (cm2, out) = (case session of
             Some s \<Rightarrow> (update_session_status (as_id s) status cm1,
               [EvStatus (as_id s) (as_agent_id s) (session_status_name status) (j_get ''data'' (am_params m))])
           | None \<Rightarrow> (cm1, []))
     in (cm2, out @
         [EvNotification (map_option as_id session) (map_option as_agent_id session) level
            (opt_or (param_str ''title'' (am_params m)) (lit ''Agent Notification'')) (opt_or (param_str ''message'' (am_params m)) [])
            (j_get ''data'' (am_params m)) (ce_now env 1)] @ ack m))"

definition status_of_name :: "ustr \<Rightarrow> agent_session_status" where
  "status_of_name s =
    (if s = lit ''waiting_input'' then SsWaitingInput else if s = lit ''idle'' then SsIdle
     else if s = lit ''disconnected'' then SsDisconnected else SsActive)"

definition handle_status :: "'n comms_env \<Rightarrow> 'n agent_message \<Rightarrow> conn \<Rightarrow> 'n comms \<Rightarrow> 'n comms \<times> 'n comms_out list" where
  "handle_status env m conn cm =
    (case find_session_by_stream (cn_peer conn) cm of
       Some s \<Rightarrow>
         (let new_status = opt_or (param_str ''status'' (am_params m)) (lit ''active'') in
          (update_session_status (as_id s) (status_of_name new_status) (update_activity_by_session_id (ce_now env 0) (as_id s) cm),
           EvStatus (as_id s) (as_agent_id s) new_status (j_get ''data'' (am_params m)) # ack m))
     | None \<Rightarrow> (cm, ack m))"

definition active_event :: "agent_session \<Rightarrow> 'n comms_out" where
  "active_event s = EvStatus (as_id s) (as_agent_id s) (lit ''active'') None"

text \<open>The end of a wait: what the agent is told, and its session is active again.\<close>

fun outcome_reply :: "'n agent_message \<Rightarrow> recv_outcome \<Rightarrow> 'n comms_out" where
  "outcome_reply m (Answered response) = ReplyInput (am_id m) response"
| "outcome_reply m TimedOut = ReplyError (am_id m) (-32000) (lit ''Input request timed out'')"
| "outcome_reply m Disconnected = ReplyError (am_id m) (-32000) (lit ''Input request cancelled'')"

definition finish_wait :: "'n comms_env \<Rightarrow> 'n agent_message \<Rightarrow> agent_session \<Rightarrow> ustr \<Rightarrow> nat \<Rightarrow> 'n comms \<Rightarrow> 'n comms \<times> 'n comms_out list" where
  "finish_wait env m s request_id c cm =
    (let outcome = ce_outcome env;
         cm1 = update_session_status (as_id s) SsActive (settle_input request_id outcome cm);
         cm2 = (case outcome of Answered r \<Rightarrow> update_activity_by_session_id (ce_now env 1) (as_id s) cm1 | _ \<Rightarrow> cm1)
     in (close_input c cm2, [outcome_reply m outcome, active_event s]))"

definition request_id_of :: "ustr option \<Rightarrow> ustr \<Rightarrow> ustr" where
  "request_id_of given fresh = (case given of Some i \<Rightarrow> if valid_text MAX_AGENT_ID_BYTES i then i else fresh | None \<Rightarrow> fresh)"

text \<open>The handler up to the wait: either it is done, or it waits for a session, with an identifier, on a channel.\<close>

definition request_input_begin ::
  "'n comms_env \<Rightarrow> 'n agent_message \<Rightarrow> conn \<Rightarrow> 'n comms \<Rightarrow> 'n comms \<times> 'n comms_out list \<times> (agent_session \<times> ustr \<times> nat) option" where
  "request_input_begin env m conn cm =
    (case find_session_by_stream (cn_peer conn) cm of
       None \<Rightarrow> (cm, [ReplyError (am_id m) (-32000) (lit ''Not initialized'')], None)
     | Some s \<Rightarrow>
         (let cm1 = update_session_status (as_id s) SsWaitingInput (update_activity_by_session_id (ce_now env 0) (as_id s) cm);
              request_id = request_id_of (param_str ''requestId'' (am_params m)) (ce_request_uuid env);
              prompt = opt_or (param_str ''prompt'' (am_params m)) [];
              out = [EvInputRequested (Some (as_id s)) (as_agent_id s) request_id prompt None]
          in if am_id m = None then (cm1, out, None)
             else (case open_input request_id (as_id s) cm1 of
                     (None, cm2) \<Rightarrow>
                       (update_session_status (as_id s) SsActive cm2,
                        out @ [ReplyError (am_id m) (-32000) (lit ''input request id already in progress''), active_event s], None)
                   | (Some c, cm2) \<Rightarrow> (cm2, out, Some (s, request_id, c)))))"

definition handle_request_input :: "'n comms_env \<Rightarrow> 'n agent_message \<Rightarrow> conn \<Rightarrow> 'n comms \<Rightarrow> 'n comms \<times> 'n comms_out list" where
  "handle_request_input env m conn cm =
    (case request_input_begin env m conn cm of
       (cm1, out, None) \<Rightarrow> (cm1, out)
     | (cm1, out, Some (s, request_id, c)) \<Rightarrow>
         (case finish_wait env m s request_id c (ce_between env cm1) of (cm2, out2) \<Rightarrow> (cm2, out @ out2)))"

definition handle_heartbeat :: "'n comms_env \<Rightarrow> 'n agent_message \<Rightarrow> conn \<Rightarrow> 'n comms \<Rightarrow> 'n comms \<times> 'n comms_out list" where
  "handle_heartbeat env m conn cm =
    ((case find_session_by_stream (cn_peer conn) cm of
        Some s \<Rightarrow> update_activity_by_session_id (ce_now env 0) (as_id s) cm | None \<Rightarrow> cm),
     if am_id m = None then [] else [ReplyTs (am_id m) (ce_now env 1)])"

definition handle_incoming_message :: "'n comms_env \<Rightarrow> 'n agent_message \<Rightarrow> conn \<Rightarrow> 'n comms \<Rightarrow> 'n comms \<times> 'n comms_out list" where
  "handle_incoming_message env m conn cm =
    (if am_method m = lit ''notifications/message'' then handle_notification env m cm
     else if am_method m = lit ''agents/status'' then handle_status env m conn cm
     else if am_method m = lit ''agents/requestInput'' then handle_request_input env m conn cm
     else if am_method m = lit ''agents/heartbeat'' then handle_heartbeat env m conn cm
     else (cm, if am_id m = None then [] else [ReplyError (am_id m) (-32601) (lit ''Method not found: '' @ am_method m)]))"

section \<open>A connection\<close>

text \<open>
  One turn of the loop of \<open>handle_connection\<close>, for a complete line. \<open>from_str\<close> reads a message from JSON.
\<close>

definition conn_line ::
  "(ustr \<Rightarrow> 'n agent_message option) \<Rightarrow> ustr \<Rightarrow> 'n comms_env \<Rightarrow> bytes \<Rightarrow> conn \<Rightarrow> 'n comms \<Rightarrow> conn \<times> 'n comms \<times> 'n comms_out list" where
  "conn_line from_str token env line conn cm =
    (let trimmed = trim_chars (utf8_chars (utf8_lossy line)) in
     if trimmed = [] then (conn, cm, [])
     else (case from_str trimmed of
             None \<Rightarrow> (conn, cm, [])
           | Some m \<Rightarrow>
               (case validate_agent_message m of
                  Inl reason \<Rightarrow> (conn, cm, if am_id m = None then [] else [ReplyError (am_id m) (-32600) (lit reason)])
                | Inr u \<Rightarrow>
                    if am_method m \<noteq> lit ''initialize'' \<and> \<not> cn_authenticated conn
                    then (conn, cm, if am_id m = None then [] else [ReplyError (am_id m) (-32600) (lit ''Unauthenticated: initialize required'')])
                    else if am_method m = lit ''initialize'' then
                      (case handle_initialize token env m conn cm of
                         (Some session_id, cm1, out) \<Rightarrow> (conn\<lparr>cn_authenticated := True, cn_session_id := Some session_id\<rparr>, cm1, out)
                       | (None, cm1, out) \<Rightarrow> (conn, cm1, out))
                    else (case handle_incoming_message env m conn cm of (cm1, out) \<Rightarrow> (conn, cm1, out)))))"

definition cleanup_connection :: "ustr option \<Rightarrow> 'n comms \<Rightarrow> 'n comms \<times> 'n comms_out list" where
  "cleanup_connection session_id cm =
    (case session_id of
       None \<Rightarrow> (cm, [])
     | Some i \<Rightarrow>
         (case take_session i cm of
            (Some s, cm1) \<Rightarrow> (drop_pending [as_id s] cm1, [disconnected_event s])
          | (None, cm1) \<Rightarrow> (cm1, [])))"

text \<open>
  The reader: \<open>read_until\<close> returns with the whole line, or with what is left when the peer has closed. A line over the limit, or a
  remainder over it, ends the connection; another remainder is discarded at the end.
\<close>

datatype close_reason = LineTooLong nat | EndOfInput nat

function conn_read :: "bytes \<Rightarrow> bytes list \<times> close_reason" where
  "conn_read input =
    (let line = takeWhile (\<lambda>b. b \<noteq> 10) input in
     if length line = length input then
       ([], if MAX_AGENT_LINE_BYTES < length input then LineTooLong (length input) else EndOfInput (length input))
     else if MAX_AGENT_LINE_BYTES < Suc (length line) then ([], LineTooLong (Suc (length line)))
     else (case conn_read (drop (Suc (length line)) input) of (lines, reason) \<Rightarrow> ((line @ [10]) # lines, reason)))"
  by pat_completeness auto
termination
proof (relation "measure length")
  fix input :: bytes and line
  assume "line = takeWhile (\<lambda>b. b \<noteq> 10) input" "length line \<noteq> length input"
  then show "(drop (Suc (length line)) input, input) \<in> measure length"
    using length_takeWhile_le [of "\<lambda>b. b \<noteq> 10" input] by simp
qed simp

declare conn_read.simps [simp del]

fun conn_lines ::
  "(ustr \<Rightarrow> 'n agent_message option) \<Rightarrow> ustr \<Rightarrow> (nat \<Rightarrow> ('n comms \<Rightarrow> 'n comms) \<times> 'n comms_env) \<Rightarrow> nat \<Rightarrow> bytes list \<Rightarrow> conn \<Rightarrow> 'n comms \<Rightarrow>
    conn \<times> 'n comms \<times> 'n comms_out list" where
  "conn_lines from_str token envs i [] conn cm = (conn, cm, [])"
| "conn_lines from_str token envs i (line # lines) conn cm =
    (case conn_line from_str token (snd (envs i)) line conn (fst (envs i) cm) of
       (conn1, cm1, out1) \<Rightarrow>
         (case conn_lines from_str token envs (Suc i) lines conn1 cm1 of (conn2, cm2, out2) \<Rightarrow> (conn2, cm2, out1 @ out2)))"

definition handle_connection ::
  "(ustr \<Rightarrow> 'n agent_message option) \<Rightarrow> ustr \<Rightarrow> (nat \<Rightarrow> ('n comms \<Rightarrow> 'n comms) \<times> 'n comms_env) \<Rightarrow> nat option \<Rightarrow> nat \<Rightarrow> bytes \<Rightarrow> 'n comms \<Rightarrow>
    'n comms \<times> 'n comms_out list" where
  "handle_connection from_str token envs peer sender input cm =
    (let lines = fst (conn_read input) in
     case conn_lines from_str token envs 0 lines \<lparr>cn_peer = peer, cn_sender = sender, cn_authenticated = False, cn_session_id = None\<rparr> cm of
       (conn, cm1, out1) \<Rightarrow>
         (case cleanup_connection (cn_session_id conn) (fst (envs (length lines)) cm1) of (cm2, out2) \<Rightarrow> (cm2, out1 @ out2)))"

section \<open>The service's own calls\<close>

definition get_agent_sessions :: "'n comms \<Rightarrow> agent_session list" where
  "get_agent_sessions cm = map si_session (cm_sessions cm)"

definition try_send :: "nat \<Rightarrow> ustr \<times> 'n jvalue \<Rightarrow> 'n comms \<Rightarrow> bool \<times> 'n comms" where
  "try_send q msg cm =
    (let oq = cm_queues cm q in
     if oq_open oq \<and> length (oq_items oq) < OUTBOUND_QUEUE_CAP
     then (True, cm\<lparr>cm_queues := (cm_queues cm)(q := oq\<lparr>oq_items := oq_items oq @ [msg]\<rparr>)\<rparr>)
     else (False, cm))"

definition send_to_agent :: "ustr \<Rightarrow> ustr \<Rightarrow> 'n jvalue \<Rightarrow> 'n comms \<Rightarrow> (comms_error + bool) \<times> 'n comms" where
  "send_to_agent agent_id method params cm =
    (case find (\<lambda>s. as_agent_id (si_session s) = agent_id) (cm_sessions cm) of
       None \<Rightarrow> (Inl (AgentNotFound agent_id), cm)
     | Some s \<Rightarrow> (case try_send (si_sender s) (method, params) cm of (ok, cm1) \<Rightarrow> (if ok then Inr True else Inl BrokenPipe, cm1)))"

definition broadcast_to_agents :: "ustr \<Rightarrow> 'n jvalue \<Rightarrow> 'n comms \<Rightarrow> 'n comms" where
  "broadcast_to_agents method params cm = fold (\<lambda>s cm1. snd (try_send (si_sender s) (method, params) cm1)) (cm_sessions cm) cm"

text \<open>One turn of the writer task with a message in the queue: it is written, or the write fails and the receiver goes.\<close>

definition writer_step :: "bool \<Rightarrow> nat \<Rightarrow> 'n comms \<Rightarrow> (ustr \<times> 'n jvalue) list \<times> 'n comms" where
  "writer_step ok q cm =
    (let oq = cm_queues cm q in
     if oq_open oq then
       (case oq_items oq of
          [] \<Rightarrow> ([], cm)
        | msg # rest \<Rightarrow>
            if ok then ([msg], cm\<lparr>cm_queues := (cm_queues cm)(q := oq\<lparr>oq_items := rest\<rparr>)\<rparr>)
            else ([], cm\<lparr>cm_queues := (cm_queues cm)(q := oq\<lparr>oq_items := rest, oq_open := False\<rparr>)\<rparr>))
     else ([], cm))"

definition disconnect_agent :: "ustr \<Rightarrow> 'n comms \<Rightarrow> bool \<times> 'n comms" where
  "disconnect_agent agent_id cm =
    (case find_session_by_agent_id agent_id cm of
       Some s \<Rightarrow> (True, snd (take_session (as_id s) cm))
     | None \<Rightarrow> (False, cm))"

definition shutdown_agent_comms :: "'n comms \<Rightarrow> 'n comms" where
  "shutdown_agent_comms cm = cm\<lparr>cm_sessions := [], cm_pending := Map.empty\<rparr>"

definition comms_new :: "'n comms" where
  "comms_new = \<lparr>cm_sessions = [], cm_pending = Map.empty, cm_inputs = (\<lambda>c. \<lparr>ic_message = None, ic_open = False\<rparr>), cm_next = 0,
    cm_queues = (\<lambda>q. \<lparr>oq_items = [], oq_open = True\<rparr>)\<rparr>"

text \<open>\<open>request_user_input_blocking\<close>, for callers that need no session: up to the wait, and the wait's end.\<close>

definition request_user_input_blocking ::
  "'n comms_env \<Rightarrow> ustr \<Rightarrow> ustr option \<Rightarrow> ustr \<Rightarrow> ustr option \<Rightarrow> 'n comms \<Rightarrow> (comms_error + ustr) \<times> 'n comms \<times> 'n comms_out list" where
  "request_user_input_blocking env agent_id given prompt title cm =
    (let session_id = map_option as_id (find_session_by_agent_id agent_id cm);
         request_id = request_id_of given (ce_request_uuid env)
     in case open_input request_id (opt_or session_id []) cm of
          (None, cm1) \<Rightarrow> (Inl (CommsGeneric (lit ''input request id already in progress: '' @ request_id)), cm1, [])
        | (Some c, cm1) \<Rightarrow>
            (let cm2 = close_input c (settle_input request_id (ce_outcome env) (ce_between env cm1)) in
             (case ce_outcome env of
                Answered response \<Rightarrow> Inr response
              | TimedOut \<Rightarrow> Inl (CommsGeneric (lit ''Input request timed out''))
              | Disconnected \<Rightarrow> Inl Cancelled,
              cm2, [EvInputRequested session_id agent_id request_id prompt title])))"

end
