(* ===== verification/Comms_Props.thy ===== *)
theory Comms_Props
  imports Comms_Server "HOL-Library.Multiset"
begin

text \<open>
  The agents' server: strangers cannot act, the window knows the sessions, an answer goes to the request that it is for. The
  lemmas at the end are cases in which the comments of the code promise more than it does.
\<close>

section \<open>Authentication\<close>

definition initializes :: "(ustr \<Rightarrow> 'n agent_message option) \<Rightarrow> ustr \<Rightarrow> bytes \<Rightarrow> bool" where
  "initializes from_str token line =
    (case from_str (trim_chars (utf8_chars (utf8_lossy line))) of
       Some m \<Rightarrow> am_method m = lit ''initialize'' \<and> Option.bind (j_get ''data'' (am_params m)) (param_str ''token'') = Some token
     | None \<Rightarrow> False)"

fun is_error_reply :: "'n comms_out \<Rightarrow> bool" where
  "is_error_reply (ReplyError i code message) = True"
| "is_error_reply _ = False"

lemma stranger_line:
  assumes "\<not> cn_authenticated conn" "\<not> initializes from_str token line"
  shows "\<exists>out. conn_line from_str token env line conn cm = (conn, cm, out) \<and> list_all is_error_reply out"
  using assms by (auto simp: conn_line_def initializes_def handle_initialize_def Let_def split: option.splits sum.splits)

text \<open>What the other threads do between the lines of a connection.\<close>

fun others :: "(nat \<Rightarrow> ('n comms \<Rightarrow> 'n comms) \<times> 'n comms_env) \<Rightarrow> nat \<Rightarrow> 'n comms \<Rightarrow> 'n comms" where
  "others envs 0 cm = cm"
| "others envs (Suc n) cm = fst (envs n) (others envs n cm)"

lemma stranger_lines:
  assumes "\<not> cn_authenticated conn" "\<not> list_ex (initializes from_str token) lines"
  shows "\<exists>out. conn_lines from_str token envs i lines conn (others envs i cm) = (conn, others envs (i + length lines) cm, out) \<and>
    list_all is_error_reply out"
  using assms
proof (induction lines arbitrary: i)
  case (Cons line lines)
  obtain out1 where 1: "conn_line from_str token (snd (envs i)) line conn (others envs (Suc i) cm) = (conn, others envs (Suc i) cm, out1)"
    "list_all is_error_reply out1" using stranger_line [of conn from_str token line] Cons.prems by fastforce
  obtain out2 where 2: "conn_lines from_str token envs (Suc i) lines conn (others envs (Suc i) cm) = (conn, others envs (Suc i + length lines) cm, out2)"
    "list_all is_error_reply out2" using Cons.IH [of "Suc i"] Cons.prems by auto
  show ?case using 1 2 by auto
qed simp

text \<open>
  C12. Strangers cannot act: a connection none of whose lines is an \<open>initialize\<close> with the token leaves the server exactly as the other threads
  make it, sends nothing to the window, and receives at most error messages, whatever bytes it sends.
\<close>

theorem strangers_inert:
  assumes "\<not> list_ex (initializes from_str token) (fst (conn_read input))"
  shows "\<exists>out. handle_connection from_str token envs peer sender input cm = (others envs (Suc (length (fst (conn_read input)))) cm, out) \<and>
    list_all is_error_reply out"
  using stranger_lines [of "\<lparr>cn_peer = peer, cn_sender = sender, cn_authenticated = False, cn_session_id = None\<rparr>" from_str token
      "fst (conn_read input)" envs 0 cm] assms
  by (auto simp: handle_connection_def cleanup_connection_def Let_def)

text \<open>No line over the limit is handled, and nothing after one.\<close>

lemma conn_read_lines:
  assumes "conn_read input = (lines, reason)"
  shows "list_all (\<lambda>l. length l \<le> MAX_AGENT_LINE_BYTES \<and> last l = 10) lines \<and>
    (\<exists>rest. input = concat lines @ rest \<and> (case reason of EndOfInput n \<Rightarrow> n = length rest \<and> 10 \<notin> set rest | LineTooLong n \<Rightarrow> MAX_AGENT_LINE_BYTES < n \<and> n \<le> length rest))"
  using assms
proof (induction input arbitrary: lines reason rule: conn_read.induct)
  case (1 input)
  define line where "line = takeWhile (\<lambda>b. b \<noteq> 10) input"
  have le: "length line \<le> length input" by (simp add: line_def length_takeWhile_le)
  show ?case
  proof (cases "length line = length input")
    case True
    have "\<forall>b\<in>set input. b \<noteq> 10"
    proof -
      have "length line + length (dropWhile (\<lambda>b. b \<noteq> 10) input) = length input" by (simp add: line_def flip: length_append)
      then have "length (dropWhile (\<lambda>b. b \<noteq> 10) input) = 0" using True by linarith
      then show ?thesis by (simp only: length_0_conv dropWhile_eq_Nil_conv)
    qed
    then show ?thesis using True "1.prems" by (subst (asm) conn_read.simps) (auto simp: line_def [symmetric] Let_def)
  next
    case False
    then have lt: "length line < length input" using le by simp
    then have nl: "input = line @ 10 # drop (Suc (length line)) input"
    proof -
      have "input ! length line = 10" using nth_length_takeWhile [of "\<lambda>b. b \<noteq> 10" input] lt by (simp add: line_def)
      moreover have "take (length line) input = line" unfolding line_def by (rule takeWhile_eq_take [symmetric])
      ultimately show ?thesis using id_take_nth_drop [OF lt] by simp
    qed
    obtain ls r where rec: "conn_read (drop (Suc (length line)) input) = (ls, r)" by fastforce
    show ?thesis
    proof (cases "MAX_AGENT_LINE_BYTES < Suc (length line)")
      case True
      then show ?thesis using False "1.prems" lt by (subst (asm) conn_read.simps) (auto simp: line_def [symmetric] Let_def)
    next
      case small: False
      then have "lines = (line @ [10]) # ls" "reason = r"
        using False "1.prems" rec by (subst (asm) conn_read.simps, auto simp: line_def [symmetric] Let_def)+
      moreover note "1.IH" [OF line_def False small rec]
      ultimately show ?thesis using small nl by (auto simp: not_less)
    qed
  qed
qed

section \<open>What the window knows\<close>

definition session_keys :: "'n comms \<Rightarrow> (ustr \<times> ustr \<times> ustr) list" where
  "session_keys cm = map (\<lambda>s. (as_id (si_session s), as_plugin_id (si_session s), as_agent_id (si_session s))) (cm_sessions cm)"

fun seen :: "'n comms_out \<Rightarrow> ustr set \<Rightarrow> ustr set" where
  "seen (EvConnected i plugin_id agent_id at_ms) V = insert i V"
| "seen (EvDisconnected i agent_id plugin_id) V = V - {i}"
| "seen _ V = V"

definition mirrored :: "ustr set \<Rightarrow> 'n comms \<Rightarrow> bool" where
  "mirrored V cm \<longleftrightarrow> distinct (map fst (session_keys cm)) \<and> distinct (map snd (session_keys cm)) \<and> V = fst ` set (session_keys cm)"

named_theorems comms_keep

lemma keys_update_first:
  assumes "\<And>s. as_id (f s) = as_id s \<and> as_plugin_id (f s) = as_plugin_id s \<and> as_agent_id (f s) = as_agent_id s"
  shows "session_keys (cm\<lparr>cm_sessions := update_first P (map_session f) (cm_sessions cm)\<rparr>) = session_keys cm"
proof -
  have "map (\<lambda>s. (as_id (si_session s), as_plugin_id (si_session s), as_agent_id (si_session s))) (update_first P (map_session f) l) =
      map (\<lambda>s. (as_id (si_session s), as_plugin_id (si_session s), as_agent_id (si_session s))) l" for l
    using assms by (induction l) (auto simp: map_session_def)
  then show ?thesis by (simp add: session_keys_def)
qed

lemma keys_updates [comms_keep]:
  "session_keys (update_activity_by_agent_id now aid cm) = session_keys cm"
  "session_keys (update_activity_by_session_id now i cm) = session_keys cm"
  "session_keys (update_session_status i st cm) = session_keys cm"
  unfolding update_activity_by_agent_id_def update_activity_by_session_id_def update_session_status_def
  by (rule keys_update_first, simp)+

lemma keys_pending [comms_keep]:
  "session_keys (drop_pending ids cm) = session_keys cm"
  "session_keys (snd (open_input r i cm)) = session_keys cm"
  "session_keys (snd (respond_to_input_request r x cm)) = session_keys cm"
  "session_keys (snd (cancel_input_request r cm)) = session_keys cm"
  "session_keys (settle_input r oc cm) = session_keys cm"
  "session_keys (close_input c cm) = session_keys cm"
  "session_keys (snd (try_send q msg cm)) = session_keys cm"
  "session_keys (snd (writer_step ok q cm)) = session_keys cm"
  by (auto simp: session_keys_def drop_pending_def open_input_def respond_to_input_request_def cancel_input_request_def settle_input_def
      close_input_def try_send_def writer_step_def Let_def split: option.split list.split)

text \<open>A handler keeps_sessions the sessions when it changes no identity and tells the window of no coming or going.\<close>

definition keeps_sessions :: "'n comms \<Rightarrow> 'n comms \<Rightarrow> 'n comms_out list \<Rightarrow> bool" where
  "keeps_sessions cm cm' out \<longleftrightarrow> session_keys cm' = session_keys cm \<and> (\<forall>V. fold seen out V = V)"

lemma ack_quiet [simp]: "fold seen (ack m) V = V"
  by (simp add: ack_def)

lemma outcome_quiet [simp]: "seen (outcome_reply m oc) V = V"
  by (cases oc) auto

lemma handlers_keep:
  "handle_notification env m cm = (cm', out) \<Longrightarrow> keeps_sessions cm cm' out"
  "handle_status env m conn cm = (cm', out) \<Longrightarrow> keeps_sessions cm cm' out"
  "handle_heartbeat env m conn cm = (cm', out) \<Longrightarrow> keeps_sessions cm cm' out"
  "finish_wait env m s r c cm = (cm', out) \<Longrightarrow> keeps_sessions cm cm' out"
  by (auto simp: keeps_sessions_def handle_notification_def handle_status_def handle_heartbeat_def finish_wait_def active_event_def comms_keep Let_def
      split: option.splits recv_outcome.splits if_splits)

lemma keeps_refl [simp]: "keeps_sessions cm cm []" "keeps_sessions cm cm [ReplyError i code msg]"
  by (simp_all add: keeps_sessions_def)

lemma begin_keeps:
  assumes "request_input_begin env m conn cm = (cm', out, w)"
  shows "keeps_sessions cm cm' out"
proof (cases "find_session_by_stream (cn_peer conn) cm")
  case None
  then show ?thesis using assms by (auto simp: request_input_begin_def)
next
  case (Some s)
  define cm1 where "cm1 = update_session_status (as_id s) SsWaitingInput (update_activity_by_session_id (ce_now env 0) (as_id s) cm)"
  define r where "r = request_id_of (param_str ''requestId'' (am_params m)) (ce_request_uuid env)"
  obtain ch cm2 where o: "open_input r (as_id s) cm1 = (ch, cm2)" by fastforce
  have k1: "session_keys cm1 = session_keys cm" by (simp add: cm1_def comms_keep)
  have k2: "session_keys cm2 = session_keys cm" using keys_pending(2) [of r "as_id s" cm1] o k1 by simp
  show ?thesis using assms Some o k1 k2
    by (cases "am_id m"; cases ch) (auto simp: request_input_begin_def Let_def keeps_sessions_def active_event_def comms_keep simp flip: cm1_def r_def)
qed

lemma incoming_keeps:
  assumes "ce_between env = (\<lambda>cm. cm)" "handle_incoming_message env m conn cm = (cm', out)"
  shows "keeps_sessions cm cm' out"
proof -
  have w: "keeps_sessions cm cm' out" if h: "handle_request_input env m conn cm = (cm', out)"
  proof -
    obtain cm1 out1 w where b: "request_input_begin env m conn cm = (cm1, out1, w)" by (cases "request_input_begin env m conn cm") auto
    show ?thesis
    proof (cases w)
      case None
      then show ?thesis using h b begin_keeps [OF b] by (simp add: handle_request_input_def)
    next
      case (Some x)
      obtain s r c where x: "x = (s, r, c)" by (cases x) auto
      obtain cm2 out2 where f: "finish_wait env m s r c cm1 = (cm2, out2)" by fastforce
      show ?thesis using h b Some x f begin_keeps [OF b] handlers_keep(4) [OF f] assms(1) by (auto simp: handle_request_input_def keeps_sessions_def)
    qed
  qed
  show ?thesis using assms(2) unfolding handle_incoming_message_def by (auto split: if_splits intro: w handlers_keep(1-3))
qed

lemma set_slot: "set (take n xs @ x # drop n xs) = insert x (set xs)"
  by (metis append_take_drop_id list.set(2) set_append Un_insert_right)

lemma distinct_slot: "distinct (take n xs @ x # drop n xs) \<longleftrightarrow> distinct (x # xs)"
proof -
  have "mset (take n xs @ x # drop n xs) = mset (x # xs)"
    using arg_cong [OF append_take_drop_id [of n xs], of mset] by (simp del: append_take_drop_id)
  then show ?thesis by (rule mset_eq_imp_distinct_iff)
qed

lemma distinct_map_slot: "distinct (map f (take n xs @ x # drop n xs)) \<longleftrightarrow> distinct (map f (x # xs))"
  using distinct_slot [of n "map f xs" "f x"] by (simp add: take_map drop_map)

lemma registered_keys:
  assumes "register_agent_session slot internal cm = (evicted, cm')"
    and "as_id (si_session internal) \<notin> fst ` set (session_keys cm)"
  defines "k \<equiv> (as_id (si_session internal), as_plugin_id (si_session internal), as_agent_id (si_session internal))"
    and "kept \<equiv> filter (\<lambda>x. snd x \<noteq> (as_plugin_id (si_session internal), as_agent_id (si_session internal))) (session_keys cm)"
  shows "session_keys cm' = take slot kept @ k # drop slot kept"
    and "as_id ` set evicted = fst ` set (filter (\<lambda>x. snd x = snd k) (session_keys cm))"
proof -
  have "filter (\<lambda>s. \<not> same_identity (si_session internal) s \<and> \<not> has_session_id (as_id (si_session internal)) s) (cm_sessions cm) =
      filter (\<lambda>s. \<not> same_identity (si_session internal) s) (cm_sessions cm)"
    using assms(2) by (intro filter_cong) (auto simp: session_keys_def image_iff)
  then show "session_keys cm' = take slot kept @ k # drop slot kept"
    using assms(1) by (auto simp: register_agent_session_def Let_def session_keys_def kept_def k_def filter_map o_def same_identity_def take_map drop_map)
  show "as_id ` set evicted = fst ` set (filter (\<lambda>x. snd x = snd k) (session_keys cm))"
    using assms(1) by (force simp: register_agent_session_def Let_def session_keys_def k_def same_identity_def)
qed

lemma seen_gone: "fold seen (map disconnected_event evicted) V = V - as_id ` set evicted"
  by (induction evicted arbitrary: V) (auto simp: disconnected_event_def)

lemma initialize_mirrored:
  assumes "mirrored V cm" "ce_uuid env \<notin> V" "handle_initialize token env m conn cm = (r, cm', out)"
  shows "mirrored (fold seen out V) cm' \<and> fold seen out V \<subseteq> insert (ce_uuid env) V"
proof (cases "Option.bind (j_get ''data'' (am_params m)) (param_str ''token'') = Some token")
  case False
  then show ?thesis using assms by (auto simp: handle_initialize_def)
next
  case True
  define data where "data = opt_or (j_get ''data'' (am_params m)) VNull"
  define session where "session = \<lparr>as_id = ce_uuid env, as_plugin_id = opt_or (param_str ''pluginId'' data) (lit ''unknown''),
    as_agent_id = opt_or (param_str ''agentId'' data) (lit ''agent-'' @ take 8 (ce_uuid env)), as_connected_at = ce_now env 0,
    as_last_activity_at = ce_now env 0, as_status = SsActive\<rparr>"
  define internal where "internal = \<lparr>si_session = session, si_sender = cn_sender conn, si_peer_addr = cn_peer conn\<rparr>"
  obtain evicted cm1 where reg: "register_agent_session (ce_slot env) internal cm = (evicted, cm1)" by fastforce
  have run: "cm' = (if evicted = [] then cm1 else drop_pending (map as_id evicted) cm1)"
    "out = map disconnected_event evicted @ [ReplyInit (am_id m) (ce_uuid env) (as_agent_id session),
      EvConnected (ce_uuid env) (as_plugin_id session) (as_agent_id session) (ce_now env 0)]"
    using assms(3) True reg by (auto simp: handle_initialize_def Let_def data_def session_def internal_def split: prod.splits)
  have fresh: "as_id (si_session internal) \<notin> fst ` set (session_keys cm)"
    using assms(1,2) by (simp add: mirrored_def internal_def session_def)
  note keys = registered_keys [OF reg fresh]
  have "session_keys cm' = session_keys cm1" using run(1) by (simp add: comms_keep)
  moreover have "distinct (map fst (session_keys cm1))" "distinct (map snd (session_keys cm1))"
    using assms(1) fresh unfolding keys(1) mirrored_def
    unfolding distinct_map_slot by (auto simp: distinct_map_filter)
  moreover have "fold seen out V = fst ` set (session_keys cm1)"
    using assms(1,2) unfolding keys(1) set_slot run(2)
    by (auto simp: seen_gone keys(2) mirrored_def internal_def session_def inj_on_def distinct_map rev_image_eqI)
  ultimately show ?thesis using run(2) by (auto simp: mirrored_def seen_gone)
qed

text \<open>
  The calls of a run, each by itself; a handler that waits is two calls, before and after the wait. A line may be of any connection, in
  any state, and the identifiers are drawn in order from a generator.
\<close>

datatype 'n server_call =
    CcLine bytes conn "'n comms_env"
  | CcBegin "'n agent_message" conn "'n comms_env"
  | CcEnd "'n agent_message" agent_session ustr nat "'n comms_env"
  | CcClose "ustr option"
  | CcRespond ustr ustr
  | CcCancel ustr
  | CcSend ustr ustr "'n jvalue"
  | CcBroadcast ustr "'n jvalue"
  | CcWriter bool nat

fun comms_call :: "(ustr \<Rightarrow> 'n agent_message option) \<Rightarrow> ustr \<Rightarrow> ustr \<Rightarrow> 'n server_call \<Rightarrow> 'n comms \<Rightarrow> 'n comms \<times> 'n comms_out list" where
  "comms_call from_str token uuid (CcLine line conn env) cm =
    (case conn_line from_str token (env\<lparr>ce_uuid := uuid, ce_between := (\<lambda>cm. cm)\<rparr>) line conn cm of (conn1, cm1, out) \<Rightarrow> (cm1, out))"
| "comms_call from_str token uuid (CcBegin m conn env) cm = (case request_input_begin env m conn cm of (cm1, out, w) \<Rightarrow> (cm1, out))"
| "comms_call from_str token uuid (CcEnd m s r c env) cm = finish_wait env m s r c cm"
| "comms_call from_str token uuid (CcClose session_id) cm = cleanup_connection session_id cm"
| "comms_call from_str token uuid (CcRespond r response) cm = (snd (respond_to_input_request r response cm), [])"
| "comms_call from_str token uuid (CcCancel r) cm = (snd (cancel_input_request r cm), [])"
| "comms_call from_str token uuid (CcSend agent_id method params) cm = (snd (send_to_agent agent_id method params cm), [])"
| "comms_call from_str token uuid (CcBroadcast method params) cm = (broadcast_to_agents method params cm, [])"
| "comms_call from_str token uuid (CcWriter ok q) cm = (snd (writer_step ok q cm), [])"

fun comms_run ::
  "(ustr \<Rightarrow> 'n agent_message option) \<Rightarrow> ustr \<Rightarrow> (nat \<Rightarrow> ustr) \<Rightarrow> nat \<Rightarrow> 'n server_call list \<Rightarrow> 'n comms \<Rightarrow> 'n comms \<times> 'n comms_out list" where
  "comms_run from_str token uuid n [] cm = (cm, [])"
| "comms_run from_str token uuid n (call # calls) cm =
    (case comms_call from_str token (uuid n) call cm of
       (cm1, out1) \<Rightarrow> (case comms_run from_str token uuid (Suc n) calls cm1 of (cm2, out2) \<Rightarrow> (cm2, out1 @ out2)))"

definition mirrors_fresh :: "ustr \<Rightarrow> ustr set \<Rightarrow> 'n comms \<Rightarrow> 'n comms \<Rightarrow> 'n comms_out list \<Rightarrow> bool" where
  "mirrors_fresh i V cm cm' out \<longleftrightarrow> mirrored (fold seen out V) cm' \<and> fold seen out V \<subseteq> insert i V"

lemma keeps_mirrors: "mirrored V cm \<Longrightarrow> keeps_sessions cm cm' out \<Longrightarrow> mirrors_fresh i V cm cm' out"
  by (auto simp: keeps_sessions_def mirrors_fresh_def mirrored_def)

lemma line_mirrors:
  assumes "mirrored V cm" "i \<notin> V" "conn_line from_str token (env\<lparr>ce_uuid := i, ce_between := (\<lambda>cm. cm)\<rparr>) line conn cm = (conn', cm', out)"
  shows "mirrors_fresh i V cm cm' out"
proof -
  let ?env = "env\<lparr>ce_uuid := i, ce_between := (\<lambda>cm. cm)\<rparr>"
  consider "cm' = cm" "out = []" | j code msg where "cm' = cm" "out = [ReplyError j code msg]"
    | m r where "handle_initialize token ?env m conn cm = (r, cm', out)" | m where "handle_incoming_message ?env m conn cm = (cm', out)"
    using assms(3) by (auto simp: conn_line_def Let_def split: if_splits option.splits sum.splits prod.splits)
  then show ?thesis
  proof cases
    case 3
    then show ?thesis using initialize_mirrored [OF assms(1) _ 3] assms(2) by (simp add: mirrors_fresh_def)
  next
    case 4
    then show ?thesis using incoming_keeps [OF _ 4] keeps_mirrors [OF assms(1)] by simp
  qed (use keeps_mirrors [OF assms(1)] in auto)
qed

lemma close_mirrors:
  assumes "mirrored V cm" "cleanup_connection session_id cm = (cm', out)"
  shows "mirrors_fresh i V cm cm' out"
proof (cases session_id)
  case None
  then show ?thesis using assms keeps_mirrors [OF assms(1)] by (simp add: cleanup_connection_def)
next
  case (Some j)
  define l where "l = filter (\<lambda>s. \<not> has_session_id j s) (cm_sessions cm)"
  have keys: "session_keys (cm\<lparr>cm_sessions := l\<rparr>) = filter (\<lambda>k. fst k \<noteq> j) (session_keys cm)"
    by (simp add: session_keys_def l_def filter_map o_def)
  have m: "mirrored (V - {j}) (cm\<lparr>cm_sessions := l\<rparr>)"
    using assms(1) unfolding mirrored_def keys by (auto simp: distinct_map_filter)
  show ?thesis
  proof (cases "find (has_session_id j) (cm_sessions cm)")
    case None
    then have "l = cm_sessions cm" by (auto simp: l_def find_None_iff filter_id_conv)
    then have "keeps_sessions cm cm' out" using assms(2) Some None by (auto simp: cleanup_connection_def take_session_def keeps_sessions_def l_def [symmetric])
    then show ?thesis by (rule keeps_mirrors [OF assms(1)])
  next
    case f: (Some s)
    then have "as_id (si_session s) = j" by (auto simp: find_Some_iff)
    then have "cm' = drop_pending [j] (cm\<lparr>cm_sessions := l\<rparr>)" "out = [disconnected_event (si_session s)]" "as_id (si_session s) = j"
      using assms(2) Some f by (auto simp: cleanup_connection_def take_session_def l_def)
    then show ?thesis using m by (auto simp: mirrors_fresh_def mirrored_def comms_keep disconnected_event_def)
  qed
qed

lemma send_keeps: "session_keys (snd (send_to_agent a me pa cm)) = session_keys cm"
  using keys_pending(7) [of _ "(me, pa)" cm] by (auto simp: send_to_agent_def split: option.split prod.split) (metis snd_conv)

lemma broadcast_keeps: "session_keys (broadcast_to_agents me pa cm) = session_keys cm"
proof -
  have "session_keys (fold (\<lambda>s cm1. snd (try_send (si_sender s) (me, pa) cm1)) l cm) = session_keys cm" for l
    by (induction l arbitrary: cm) (simp_all add: comms_keep)
  then show ?thesis by (simp add: broadcast_to_agents_def)
qed

lemma call_mirrors:
  assumes "mirrored V cm" "i \<notin> V" "comms_call from_str token i call cm = (cm', out)"
  shows "mirrors_fresh i V cm cm' out"
proof -
  have quiet: "mirrors_fresh i V cm cm1 []" if "session_keys cm1 = session_keys cm" for cm1
    using keeps_mirrors [OF assms(1)] that by (simp add: keeps_sessions_def)
  show ?thesis
  proof (cases call)
    case (CcLine line conn env)
    then show ?thesis using assms(3) line_mirrors [OF assms(1,2)] by (auto split: prod.splits)
  next
    case (CcBegin m conn env)
    then show ?thesis using assms(3) begin_keeps keeps_mirrors [OF assms(1)] by (fastforce split: prod.splits)
  next
    case (CcEnd m s r c env)
    then show ?thesis using assms(3) handlers_keep(4) keeps_mirrors [OF assms(1)] by fastforce
  next
    case (CcClose j)
    then show ?thesis using assms(3) close_mirrors [OF assms(1)] by fastforce
  qed (use assms(3) in \<open>auto intro!: quiet simp: comms_keep send_keeps broadcast_keeps\<close>)
qed

lemma run_mirrors:
  assumes "inj uuid" "mirrored V cm" "V \<subseteq> uuid ` {..<n}"
  shows "\<exists>cm' out. comms_run from_str token uuid n calls cm = (cm', out) \<and> mirrored (fold seen out V) cm'"
  using assms(2,3)
proof (induction calls arbitrary: n cm V)
  case (Cons call calls)
  obtain cm1 out1 where c: "comms_call from_str token (uuid n) call cm = (cm1, out1)" by fastforce
  have "uuid n \<notin> V" using Cons.prems(2) assms(1) by (auto simp: inj_def)
  from call_mirrors [OF Cons.prems(1) this c] have m: "mirrored (fold seen out1 V) cm1" "fold seen out1 V \<subseteq> insert (uuid n) V"
    by (auto simp: mirrors_fresh_def)
  then obtain cm2 out2 where "comms_run from_str token uuid (Suc n) calls cm1 = (cm2, out2)" "mirrored (fold seen out2 (fold seen out1 V)) cm2"
    using Cons.IH [OF m(1), of "Suc n"] Cons.prems(2) by (fastforce simp: lessThan_Suc)
  then show ?case using c by auto
qed simp


section \<open>Answers to requests\<close>

text \<open>
  The threads that wait for an answer, by their channels, and the accesses of all threads to the table of requests, in any order. A thread that has
  waited too long removes its entry in a second access. \<open>w_accepted\<close> records the answers for which
  \<open>respond_to_input_request\<close> has reported success. What happens to sessions and outbound queues is left open.
\<close>

datatype waiter = Waiting ustr | Expired ustr | Over recv_outcome

record 'n world =
  w_comms :: "'n comms"
  w_waiters :: "nat \<Rightarrow> waiter option"
  w_accepted :: "(nat \<times> ustr) list"

definition world_new :: "'n world" where
  "world_new = \<lparr>w_comms = comms_new, w_waiters = (\<lambda>c. None), w_accepted = []\<rparr>"

inductive input_step :: "'n world \<Rightarrow> 'n world \<Rightarrow> bool" where
  elsewhere: "input_step w (w\<lparr>w_comms := (w_comms w)\<lparr>cm_sessions := l, cm_queues := q\<rparr>\<rparr>)"
| opens: "open_input r i (w_comms w) = (Some c, cm) \<Longrightarrow> input_step w (w\<lparr>w_comms := cm, w_waiters := (w_waiters w)(c \<mapsto> Waiting r)\<rparr>)"
| responds: "respond_to_input_request r x (w_comms w) = (Inr b, cm) \<Longrightarrow> cm_pending (w_comms w) r = Some e \<Longrightarrow>
    input_step w (w\<lparr>w_comms := cm, w_accepted := w_accepted w @ [(pi_sender e, x)]\<rparr>)"
| fails: "respond_to_input_request r x (w_comms w) = (Inl err, cm) \<Longrightarrow> input_step w (w\<lparr>w_comms := cm\<rparr>)"
| cancels: "cancel_input_request r (w_comms w) = (b, cm) \<Longrightarrow> input_step w (w\<lparr>w_comms := cm\<rparr>)"
| drops: "input_step w (w\<lparr>w_comms := drop_pending ids (w_comms w)\<rparr>)"
| shuts: "input_step w (w\<lparr>w_comms := shutdown_agent_comms (w_comms w)\<rparr>)"
| receives: "w_waiters w c = Some (Waiting r) \<Longrightarrow> recv_input c oc (w_comms w) \<Longrightarrow> oc \<noteq> TimedOut \<Longrightarrow>
    input_step w (w\<lparr>w_comms := close_input c (settle_input r oc (w_comms w)), w_waiters := (w_waiters w)(c \<mapsto> Over oc)\<rparr>)"
| expires: "w_waiters w c = Some (Waiting r) \<Longrightarrow> recv_input c TimedOut (w_comms w) \<Longrightarrow>
    input_step w (w\<lparr>w_waiters := (w_waiters w)(c \<mapsto> Expired r)\<rparr>)"
| gives_up: "w_waiters w c = Some (Expired r) \<Longrightarrow>
    input_step w (w\<lparr>w_comms := close_input c (settle_input r TimedOut (w_comms w)), w_waiters := (w_waiters w)(c \<mapsto> Over TimedOut)\<rparr>)"

text \<open>Every entry belongs to a thread that still listens; every accepted answer is on its way or has arrived, unless time had run out.\<close>

definition entries_ok :: "'n world \<Rightarrow> bool" where
  "entries_ok w \<longleftrightarrow> (\<forall>r e. cm_pending (w_comms w) r = Some e \<longrightarrow>
      (w_waiters w (pi_sender e) = Some (Waiting r) \<or> w_waiters w (pi_sender e) = Some (Expired r)) \<and>
      cm_inputs (w_comms w) (pi_sender e) = \<lparr>ic_message = None, ic_open = True\<rparr> \<and> (\<forall>x. (pi_sender e, x) \<notin> set (w_accepted w)))"

fun answer_state :: "ustr option \<Rightarrow> waiter option \<Rightarrow> ustr \<Rightarrow> bool" where
  "answer_state message (Some (Waiting r)) x = (message = Some x)"
| "answer_state message (Some (Expired r)) x = True"
| "answer_state message (Some (Over oc)) x = (oc = Answered x \<or> oc = TimedOut)"
| "answer_state message None x = False"

definition accepted_ok :: "'n world \<Rightarrow> bool" where
  "accepted_ok w \<longleftrightarrow> distinct (map fst (w_accepted w)) \<and>
    (\<forall>c x. (c, x) \<in> set (w_accepted w) \<longrightarrow> answer_state (ic_message (cm_inputs (w_comms w) c)) (w_waiters w c) x)"

definition heard_ok :: "'n world \<Rightarrow> bool" where
  "heard_ok w \<longleftrightarrow> (\<forall>c x. ic_message (cm_inputs (w_comms w) c) = Some x \<or> w_waiters w c = Some (Over (Answered x)) \<longrightarrow> (c, x) \<in> set (w_accepted w))"

definition fresh_ok :: "'n world \<Rightarrow> bool" where
  "fresh_ok w \<longleftrightarrow> (\<forall>c \<ge> cm_next (w_comms w). w_waiters w c = None)"

definition world_ok :: "'n world \<Rightarrow> bool" where
  "world_ok w \<longleftrightarrow> entries_ok w \<and> accepted_ok w \<and> heard_ok w \<and> fresh_ok w"

lemmas world_defs = world_ok_def entries_ok_def accepted_ok_def heard_ok_def fresh_ok_def

lemma fewer_entries:
  assumes "world_ok w" "\<And>r. P r = cm_pending (w_comms w) r \<or> P r = None"
  shows "world_ok (w\<lparr>w_comms := (w_comms w)\<lparr>cm_pending := P\<rparr>\<rparr>)"
proof -
  have "cm_pending (w_comms w) r = Some e" if "P r = Some e" for r e using assms(2) [of r] that by auto
  then show ?thesis using assms(1) by (simp add: world_defs) blast
qed

lemma owner_of_entry:
  assumes "world_ok w" "cm_pending (w_comms w) r' = Some e" "w_waiters w (pi_sender e) = Some (Waiting r) \<or> w_waiters w (pi_sender e) = Some (Expired r)"
  shows "r' = r"
proof -
  have "w_waiters w (pi_sender e) = Some (Waiting r') \<or> w_waiters w (pi_sender e) = Some (Expired r')" using assms(1,2) by (simp add: world_defs)
  then show ?thesis using assms(3) by auto
qed

lemma step_entries_gone:
  assumes "world_ok w"
  shows "world_ok (w\<lparr>w_comms := snd (cancel_input_request r (w_comms w))\<rparr>)" "world_ok (w\<lparr>w_comms := drop_pending ids (w_comms w)\<rparr>)"
  unfolding cancel_input_request_def drop_pending_def snd_conv by (rule fewer_entries [OF assms], auto split: option.split)+

lemma step_opens:
  assumes "world_ok w" "open_input r i (w_comms w) = (Some c, cm)"
  shows "world_ok (w\<lparr>w_comms := cm, w_waiters := (w_waiters w)(c \<mapsto> Waiting r)\<rparr>)"
proof -
  have c: "c = cm_next (w_comms w)" "cm_pending (w_comms w) r = None"
    and cm: "cm = (w_comms w)\<lparr>cm_pending := (cm_pending (w_comms w))(r \<mapsto> \<lparr>pi_session_id = i, pi_sender = c\<rparr>),
      cm_inputs := (cm_inputs (w_comms w))(c := \<lparr>ic_message = None, ic_open = True\<rparr>), cm_next := Suc c\<rparr>"
    using assms(2) by (auto simp: open_input_def Let_def split: option.splits)
  have n: "w_waiters w c = None" using assms(1) c by (simp add: world_defs)
  have a: "(c, x) \<notin> set (w_accepted w)" for x
  proof
    assume "(c, x) \<in> set (w_accepted w)"
    then have "answer_state (ic_message (cm_inputs (w_comms w) c)) (w_waiters w c) x" using assms(1) by (simp add: world_defs)
    then show False using n by simp
  qed
  have p: "pi_sender e \<noteq> c" if "cm_pending (w_comms w) r' = Some e" for r' e using assms(1) n that by (force simp: world_defs)
  show ?thesis using assms(1) a p c unfolding cm world_defs by (auto split: if_splits)
qed

lemma step_responds:
  assumes "world_ok w" "respond_to_input_request r x (w_comms w) = (Inr b, cm)" "cm_pending (w_comms w) r = Some e"
  shows "world_ok (w\<lparr>w_comms := cm, w_accepted := w_accepted w @ [(pi_sender e, x)]\<rparr>)"
proof -
  let ?c = "pi_sender e"
  have ent: "w_waiters w ?c = Some (Waiting r) \<or> w_waiters w ?c = Some (Expired r)" "\<And>y. (?c, y) \<notin> set (w_accepted w)"
    using assms(1,3) by (simp_all add: world_defs)
  have cm: "cm = (w_comms w)\<lparr>cm_pending := (cm_pending (w_comms w))(r := None),
      cm_inputs := (cm_inputs (w_comms w))(?c := (cm_inputs (w_comms w) ?c)\<lparr>ic_message := Some x\<rparr>)\<rparr>"
    using assms(2,3) by (auto simp: respond_to_input_request_def Let_def split: if_splits)
  have p: "pi_sender e' \<noteq> ?c" if "cm_pending (w_comms w) r' = Some e'" "r' \<noteq> r" for r' e'
    using owner_of_entry [OF assms(1) that(1)] that(2) ent(1) by auto
  have "entries_ok (w\<lparr>w_comms := cm, w_accepted := w_accepted w @ [(?c, x)]\<rparr>)"
    using assms(1) p unfolding cm by (auto simp: world_defs)
  moreover have "accepted_ok (w\<lparr>w_comms := cm, w_accepted := w_accepted w @ [(?c, x)]\<rparr>)"
    using assms(1) ent unfolding cm by (auto simp: world_defs)
  moreover have "heard_ok (w\<lparr>w_comms := cm, w_accepted := w_accepted w @ [(?c, x)]\<rparr>)" "fresh_ok (w\<lparr>w_comms := cm, w_accepted := w_accepted w @ [(?c, x)]\<rparr>)"
    using assms(1) unfolding cm by (auto simp: world_defs)
  ultimately show ?thesis by (simp add: world_ok_def)
qed

lemma step_fails:
  assumes "world_ok w" "respond_to_input_request r x (w_comms w) = (Inl err, cm)"
  shows "cm = w_comms w \<and> err = RequestNotFound r"
  using assms by (auto simp: respond_to_input_request_def world_defs Let_def split: option.splits if_splits)

lemma step_receives:
  assumes "world_ok w" "w_waiters w c = Some (Waiting r)" "recv_input c oc (w_comms w)" "oc \<noteq> TimedOut"
  shows "world_ok (w\<lparr>w_comms := close_input c (w_comms w), w_waiters := (w_waiters w)(c \<mapsto> Over oc)\<rparr>)" (is "world_ok ?w")
proof -
  have free: "pi_sender e \<noteq> c" if p: "cm_pending (w_comms w) r' = Some e" for r' e
  proof
    assume c: "pi_sender e = c"
    then have "cm_inputs (w_comms w) c = \<lparr>ic_message = None, ic_open = True\<rparr>" "sender_alive c (w_comms w)"
      using assms(1) p by (auto simp: world_defs sender_alive_def)
    then show False using assms(3,4) by (simp add: recv_input_def)
  qed
  have "oc = Answered x" if "(c, x) \<in> set (w_accepted w)" for x
  proof -
    have "answer_state (ic_message (cm_inputs (w_comms w) c)) (w_waiters w c) x" using assms(1) that by (simp add: world_defs)
    then show ?thesis using assms(2,3) by (simp add: recv_input_def)
  qed
  moreover have "(c, x) \<in> set (w_accepted w)" if "oc = Answered x" for x
  proof -
    have "ic_message (cm_inputs (w_comms w) c) = Some x" using assms(3) that by (auto simp: recv_input_def split: option.splits if_splits)
    then show ?thesis using assms(1) unfolding world_ok_def heard_ok_def by blast
  qed
  ultimately have got: "(c, x) \<in> set (w_accepted w) \<longleftrightarrow> oc = Answered x" for x by blast
  have "accepted_ok ?w" using assms(1) got unfolding close_input_def world_defs by simp
  moreover have "heard_ok ?w" using assms(1) got unfolding close_input_def world_defs by simp
  moreover have "entries_ok ?w" using assms(1) free unfolding close_input_def world_defs by simp
  moreover have "fresh_ok ?w" using assms(1,2) unfolding close_input_def world_defs by auto
  ultimately show ?thesis by (simp add: world_ok_def)
qed

lemma step_expires:
  assumes "world_ok w" "w_waiters w c = Some (Waiting r)"
  shows "world_ok (w\<lparr>w_waiters := (w_waiters w)(c \<mapsto> Expired r)\<rparr>)"
proof -
  have "r' = r" if "cm_pending (w_comms w) r' = Some e" "pi_sender e = c" for r' e using owner_of_entry [OF assms(1) that(1)] that assms(2) by simp
  then show ?thesis using assms by (auto simp: world_defs)
qed

lemma step_gives_up:
  assumes "world_ok w" "w_waiters w c = Some (Expired r)"
  shows "world_ok (w\<lparr>w_comms := close_input c (settle_input r TimedOut (w_comms w)), w_waiters := (w_waiters w)(c \<mapsto> Over TimedOut)\<rparr>)"
proof -
  have free: "pi_sender e \<noteq> c" if "cm_pending (w_comms w) r' = Some e" "r' \<noteq> r" for r' e
    using owner_of_entry [OF assms(1) that(1)] that(2) assms(2) by auto
  show ?thesis using assms free unfolding close_input_def settle_input_def cancel_input_request_def by (auto simp: world_defs)
qed

lemma world_step:
  assumes "input_step w w'" "world_ok w"
  shows "world_ok w'"
  using assms(1)
proof cases
  case (cancels r b cm)
  then show ?thesis using step_entries_gone(1) [OF assms(2), of r] by simp
next
  case (fails r x err cm)
  then show ?thesis using step_fails [OF assms(2) fails(2)] assms(2) by simp
next
  case (receives c r oc)
  then show ?thesis using step_receives [OF assms(2)] by (simp add: settle_input_def)
next
  case shuts
  then show ?thesis using assms(2) by (auto simp: shutdown_agent_comms_def world_defs)
next
  case (elsewhere l q)
  then show ?thesis using assms(2) by (auto simp: world_defs)
qed (use assms(2) step_opens step_responds step_expires step_gives_up step_entries_gone(2) in auto)

lemma world_reachable:
  assumes "input_step\<^sup>*\<^sup>* world_new w"
  shows "world_ok w"
  using assms
proof (induction rule: rtranclp_induct)
  case base
  show ?case by (simp add: world_defs world_new_def comms_new_def)
next
  case (step w w')
  then show ?case by (blast intro: world_step)
qed

text \<open>
  C13. An answer reaches the request that it is for. In any interleaving of requests, answers, cancellations, closing connections and timeouts: an answer is
  refused only when no such request is pending; no request gets two; an answer that was accepted is what the waiting thread
  receives next, or has received, unless its time had run out before; and whatever a thread reports as the user's answer was accepted for it.
\<close>

theorem answers_delivered:
  assumes "input_step\<^sup>*\<^sup>* world_new w"
  shows "(\<forall>r x err. fst (respond_to_input_request r x (w_comms w)) = Inl err \<longrightarrow> err = RequestNotFound r \<and> cm_pending (w_comms w) r = None) \<and>
    distinct (map fst (w_accepted w)) \<and>
    (\<forall>(c, x) \<in> set (w_accepted w). case w_waiters w c of
        Some (Waiting r) \<Rightarrow> (\<forall>oc. recv_input c oc (w_comms w) \<longleftrightarrow> oc = Answered x)
      | Some (Expired r) \<Rightarrow> True
      | Some (Over oc) \<Rightarrow> oc = Answered x \<or> oc = TimedOut
      | None \<Rightarrow> False) \<and>
    (\<forall>c x. w_waiters w c = Some (Over (Answered x)) \<longrightarrow> (c, x) \<in> set (w_accepted w))"
proof -
  note ok = world_reachable [OF assms]
  have "err = RequestNotFound r \<and> cm_pending (w_comms w) r = None" if "fst (respond_to_input_request r x (w_comms w)) = Inl err" for r x err
    using ok that by (auto simp: respond_to_input_request_def world_defs Let_def split: option.splits if_splits)
  moreover have "case w_waiters w c of Some (Waiting r) \<Rightarrow> (\<forall>oc. recv_input c oc (w_comms w) \<longleftrightarrow> oc = Answered x)
      | Some (Expired r) \<Rightarrow> True | Some (Over oc) \<Rightarrow> oc = Answered x \<or> oc = TimedOut | None \<Rightarrow> False" if "(c, x) \<in> set (w_accepted w)" for c x
  proof -
    have "answer_state (ic_message (cm_inputs (w_comms w) c)) (w_waiters w c) x" using ok that by (simp add: world_defs)
    then show ?thesis by (cases "w_waiters w c") (auto simp: recv_input_def split: waiter.split)
  qed
  ultimately show ?thesis using ok by (auto simp: world_defs)
qed

section \<open>Outbound messages\<close>

text \<open>Sends of any threads and turns of the writer, on one queue: the accepted messages and the written ones.\<close>

datatype 'n queue_op = QSend "ustr \<times> 'n jvalue" | QWrite bool

fun queue_run :: "nat \<Rightarrow> 'n queue_op list \<Rightarrow> 'n comms \<Rightarrow> 'n comms \<times> (ustr \<times> 'n jvalue) list \<times> (ustr \<times> 'n jvalue) list" where
  "queue_run q [] cm = (cm, [], [])"
| "queue_run q (QSend msg # ops) cm =
    (case try_send q msg cm of (ok, cm1) \<Rightarrow> (case queue_run q ops cm1 of (cm2, acc, out) \<Rightarrow> (cm2, (if ok then [msg] else []) @ acc, out)))"
| "queue_run q (QWrite ok # ops) cm =
    (case writer_step ok q cm of (out1, cm1) \<Rightarrow> (case queue_run q ops cm1 of (cm2, acc, out) \<Rightarrow> (cm2, acc, out1 @ out)))"

lemma closed_queue: "\<not> oq_open (cm_queues cm q) \<Longrightarrow> queue_run q ops cm = (cm, [], [])"
proof (induction ops)
  case (Cons op ops)
  then show ?case by (cases op) (simp_all add: try_send_def writer_step_def)
qed simp

lemma sent_in_order:
  assumes "queue_run q ops cm = (cm', acc, out)" "oq_open (cm_queues cm q)"
  shows "\<exists>rest. oq_items (cm_queues cm q) @ acc = out @ rest \<and> (oq_open (cm_queues cm' q) \<longrightarrow> rest = oq_items (cm_queues cm' q))"
  using assms
proof (induction ops arbitrary: cm acc out)
  case (Cons op ops)
  show ?case
  proof (cases op)
    case (QSend msg)
    obtain ok cm1 acc1 where t: "try_send q msg cm = (ok, cm1)" "queue_run q ops cm1 = (cm', acc1, out)" "acc = (if ok then [msg] else []) @ acc1"
      using Cons.prems(1) QSend by (auto split: prod.splits)
    then have "oq_open (cm_queues cm1 q)" "oq_items (cm_queues cm1 q) = oq_items (cm_queues cm q) @ (if ok then [msg] else [])"
      using Cons.prems(2) by (auto simp: try_send_def Let_def split: if_splits)
    then show ?thesis using Cons.IH [OF t(2)] t(3) by simp
  next
    case (QWrite ok)
    obtain out1 cm1 out2 where t: "writer_step ok q cm = (out1, cm1)" "queue_run q ops cm1 = (cm', acc, out2)" "out = out1 @ out2"
      using Cons.prems(1) QWrite by (auto split: prod.splits)
    show ?thesis
    proof (cases "oq_open (cm_queues cm1 q)")
      case True
      then have "oq_items (cm_queues cm q) = out1 @ oq_items (cm_queues cm1 q)"
        using t(1) Cons.prems(2) by (auto simp: writer_step_def Let_def split: list.splits if_splits)
      then show ?thesis using Cons.IH [OF t(2) True] t(3) by auto
    next
      case False
      then have "out1 = []" using t(1) Cons.prems(2) by (auto simp: writer_step_def Let_def split: list.splits if_splits)
      then show ?thesis using closed_queue [OF False, of ops] t False by auto
    qed
  qed
qed auto

section \<open>Where the comments promise more\<close>

text \<open>The limit is compared after the whole line has been read: a line of any length is held in memory first.\<close>

lemma long_line_read_first:
  assumes "MAX_AGENT_LINE_BYTES < Suc n" "b \<noteq> 10"
  shows "conn_read (replicate n b @ 10 # rest) = ([], LineTooLong (Suc n))"
proof -
  have "takeWhile (\<lambda>b. b \<noteq> 10) (replicate n b @ 10 # rest) = replicate n b" using assms(2) by (induction n) auto
  then show ?thesis using assms(1) by (subst conn_read.simps) (simp add: Let_def)
qed

text \<open>A connection that initializes a second time, as another agent, leaves its first session behind for good.\<close>

lemma second_initialize_leaks:
  assumes "handle_initialize token env m conn cm = (Some j, cm', out)" "j \<notin> fst ` set (session_keys cm)"
    and "(i, p, a) \<in> set (session_keys cm)" "Option.bind (j_get ''data'' (am_params m)) (param_str ''agentId'') = Some a'" "a' \<noteq> a"
  shows "(i, p, a) \<in> set (session_keys (fst (cleanup_connection (Some j) cm')))"
proof -
  obtain internal evicted cm1 where reg: "register_agent_session (ce_slot env) internal cm = (evicted, cm1)"
    and int: "as_agent_id (si_session internal) = a'" "as_id (si_session internal) = j" and k: "session_keys cm' = session_keys cm1"
    using assms(1,4) by (fastforce simp: handle_initialize_def Let_def comms_keep opt_or_def split: if_splits option.splits prod.splits Option.bind_splits)
  have "(i, p, a) \<in> set (session_keys cm')"
    using assms(3,5) unfolding k registered_keys(1) [OF reg, unfolded int, OF assms(2)] set_slot by simp
  moreover have "i \<noteq> j" using assms(2,3) by force
  ultimately show ?thesis
    by (auto simp: cleanup_connection_def take_session_def session_keys_def drop_pending_def split: option.split)
qed

text \<open>An agent that is disconnected by the application goes without a word to the window, also when its connection closes later.\<close>

lemma disconnect_silent:
  assumes "find_session_by_agent_id agent_id cm = Some s"
  shows "fst (disconnect_agent agent_id cm) \<and> snd (cleanup_connection (Some (as_id s)) (snd (disconnect_agent agent_id cm))) = []"
  using assms by (auto simp: disconnect_agent_def cleanup_connection_def take_session_def find_None_iff split: option.split dest!: sym [of None] find_Some_iff [THEN iffD1])

text \<open>A request without a message identifier is shown to the user, who cannot answer it, and the session stays waiting.\<close>

lemma request_without_id:
  assumes "find_session_by_stream (cn_peer conn) cm = Some s" "am_id m = None"
  shows "\<exists>r prompt cm'. handle_request_input env m conn cm = (cm', [EvInputRequested (Some (as_id s)) (as_agent_id s) r prompt None]) \<and>
    cm_pending cm' = cm_pending cm"
  using assms by (simp add: handle_request_input_def request_input_begin_def Let_def update_session_status_def update_activity_by_session_id_def)

text \<open>An answer that arrives after a request has been shown and before its entry is made is refused, and the request then waits.\<close>

lemma early_answer_refused:
  assumes "cm_pending cm r = None"
  shows "respond_to_input_request r x cm = (Inl (RequestNotFound r), cm) \<and> (\<exists>c cm'. open_input r i cm = (Some c, cm'))"
  using assms by (simp add: respond_to_input_request_def open_input_def Let_def)

text \<open>An answer that arrives after the time has run out and before the entry is removed is accepted and lost.\<close>

lemma late_answer_lost:
  "\<exists>w :: 'n world. input_step\<^sup>*\<^sup>* world_new w \<and> (0, x) \<in> set (w_accepted w) \<and> w_waiters w 0 = Some (Over TimedOut)"
proof -
  let ?cm1 = "snd (open_input r i (comms_new :: 'n comms))"
  let ?w1 = "world_new\<lparr>w_comms := ?cm1, w_waiters := (w_waiters (world_new :: 'n world))(0 \<mapsto> Waiting r)\<rparr>"
  let ?w2 = "?w1\<lparr>w_waiters := (w_waiters ?w1)(0 \<mapsto> Expired r)\<rparr>"
  let ?w3 = "?w2\<lparr>w_comms := snd (respond_to_input_request r x ?cm1), w_accepted := [(0, x)]\<rparr>"
  have 1: "input_step world_new ?w1"
    using input_step.opens [of r i world_new 0 ?cm1] by (simp add: open_input_def comms_new_def world_new_def Let_def)
  have "recv_input 0 TimedOut ?cm1" by (auto simp: recv_input_def open_input_def comms_new_def sender_alive_def Let_def)
  then have 2: "input_step ?w1 ?w2" using input_step.expires [of ?w1 0 r] by simp
  have 3: "input_step ?w2 ?w3"
    using input_step.responds [of r x ?w2 True "snd (respond_to_input_request r x ?cm1)" "\<lparr>pi_session_id = i, pi_sender = 0\<rparr>"]
    by (simp add: open_input_def comms_new_def world_new_def respond_to_input_request_def Let_def)
  have 4: "input_step ?w3 (?w3\<lparr>w_comms := close_input 0 (settle_input r TimedOut (w_comms ?w3)), w_waiters := (w_waiters ?w3)(0 \<mapsto> Over TimedOut)\<rparr>)"
    using input_step.gives_up [of ?w3 0 r] by simp
  have "input_step\<^sup>*\<^sup>* world_new (?w3\<lparr>w_comms := close_input 0 (settle_input r TimedOut (w_comms ?w3)), w_waiters := (w_waiters ?w3)(0 \<mapsto> Over TimedOut)\<rparr>)"
    using 1 2 3 4 by (meson converse_rtranclp_into_rtranclp rtranclp.rtrancl_refl)
  then show ?thesis by (intro exI conjI) (assumption, simp_all)
qed

text \<open>
  A thread whose time has run out removes the entry under its identifier, also when that is another thread's: a request that took the
  identifier after the answer came is told that it was cancelled.
\<close>

lemma timeout_cancels_other:
  assumes "cm_pending cm r = None" "\<And>r e. cm_pending cm r = Some e \<Longrightarrow> pi_sender e < cm_next cm"
    and "open_input r i1 cm = (Some c1, cm1)" "respond_to_input_request r x cm1 = (Inr True, cm2)" "open_input r i2 cm2 = (Some c2, cm3)"
  shows "c2 \<noteq> c1 \<and> recv_input c2 TimedOut cm3 \<and> recv_input c2 Disconnected (settle_input r TimedOut cm3)"
proof -
  have c: "c1 = cm_next cm" "c2 = Suc (cm_next cm)" and p: "cm_pending cm3 = (cm_pending cm)(r \<mapsto> \<lparr>pi_session_id = i2, pi_sender = c2\<rparr>)"
    and m: "ic_message (cm_inputs cm3 c2) = None"
    using assms(1,3-5) by (auto simp: open_input_def respond_to_input_request_def Let_def split: option.splits if_splits)
  have "\<not> sender_alive c2 (settle_input r TimedOut cm3)"
    using assms(2) c p by (fastforce simp: sender_alive_def settle_input_def cancel_input_request_def split: if_splits)
  moreover have "sender_alive c2 cm3" using p by (auto simp: sender_alive_def)
  moreover have "ic_message (cm_inputs (settle_input r TimedOut cm3) c2) = None" using m by (simp add: settle_input_def cancel_input_request_def)
  ultimately show ?thesis using c m by (simp add: recv_input_def)
qed

section \<open>Runs\<close>

definition demo_status :: "ustr \<Rightarrow> unit agent_message option" where
  "demo_status line = Some \<lparr>am_jsonrpc = lit ''2.0'', am_id = Some (lit ''1''), am_method = lit ''agents/status'', am_params = VObject []\<rparr>"

definition demo_hello :: "ustr \<Rightarrow> unit agent_message option" where
  "demo_hello line = Some \<lparr>am_jsonrpc = lit ''2.0'', am_id = Some (lit ''1''), am_method = lit ''initialize'',
    am_params = VObject [(lit ''data'', VObject [(lit ''token'', VString (lit ''t''))])]\<rparr>"

definition demo_comms_env :: "unit comms_env" where
  "demo_comms_env = \<lparr>ce_uuid = [], ce_request_uuid = [], ce_now = (\<lambda>k. k), ce_slot = 0, ce_between = (\<lambda>cm. cm), ce_outcome = TimedOut\<rparr>"

theorem strangers_inert_witness:
  "\<exists>out. handle_connection demo_status (lit ''t'') (\<lambda>n. ((\<lambda>cm. cm), demo_comms_env)) (Some 7) 0 [123, 125, 10] comms_new = (comms_new, out) \<and>
    list_all is_error_reply out"
proof -
  have no: "\<not> initializes demo_status (lit ''t'') line" for line by (simp add: initializes_def demo_status_def)
  have "others (\<lambda>n. ((\<lambda>cm. cm), demo_comms_env)) k cm = cm" for k cm by (induction k) simp_all
  then show ?thesis
    using strangers_inert [of demo_status "lit ''t''" "[123, 125, 10]" "\<lambda>n. ((\<lambda>cm. cm), demo_comms_env)" "Some 7" 0 comms_new] no
    by (simp add: list_ex_iff)
qed


theorem answers_delivered_witness:
  "\<exists>w :: unit world. input_step\<^sup>*\<^sup>* world_new w \<and> (0, lit ''y'') \<in> set (w_accepted w) \<and> distinct (map fst (w_accepted w))"
proof -
  obtain w :: "unit world" where w: "input_step\<^sup>*\<^sup>* world_new w" "(0, lit ''y'') \<in> set (w_accepted w)"
    using late_answer_lost [of "lit ''y''"] by blast
  show ?thesis using answers_delivered [OF w(1)] w by blast
qed

end
