(* ===== verification/Spec2Isabelle.thy ===== *)
theory Spec2Isabelle
  imports Term_IO Term_Props Term_Listener Term_Alt Term_Base64 Term_Input
    Output_Stream Store_Race App_Store Fs_Props Swarm_Props Swarm_Watch
    Shell_Tracker Shell_Props Lifecycle_Props Plugin_Calls Plugin_Event_Props Session_Demo
    Activity_Notify History_Props Resume_Props Chat_Panel_Props Plan_Props Comms_Props
begin

text \<open>
  This library verifies the core of Athena, a desktop application that runs coding agents in terminal
  panes. The program is a Rust workspace: the crates under \<open>crates/\<close> hold the logic, \<open>src-tauri\<close> wires
  them to the window, \<open>frontend\<close> draws. The library models the crates' state and operations as HOL
  records and functions and proves what the rest of the program relies on.

  \<^bold>\<open>How code is modelled.\<close> A struct is a record, an enum a datatype, a method a function from the state to
  the new state and the result; a panic (index out of range, slice off a character boundary, overflow check) is
  \<^term>\<open>None\<close>, an error of the code a value of a sum or option type. Machine integers are words where they
  wrap, \<open>nat\<close> or \<open>int\<close> with the saturation or the bound written out elsewhere. Clocks, fresh
  identifiers, JSON conversion and the file system's answers are arguments. A structure behind one mutex is a sequential state
  machine; where the code takes several locks or atomics in turn, each access is a step and the interleavings are a relation.

  \<^bold>\<open>Prelude, Text_Codec, Str_Slice, Json_Value.\<close> What the components use of Rust's library
  and of \<open>serde_json\<close>'s value type: \<open>Vec\<close> operations, UTF-8, decimal numbers, slices of a \<open>str\<close> with their panics,
  a log that drops its oldest entry.

  \<^bold>\<open>Terminal\<close> (\<open>crates/athena-terminal/src\<close>). Term_Cell, Term_Row and Term_Grid are \<open>grid/\<close>; Term_Ansi is
  \<open>ansi/ops.rs\<close> and \<open>ansi/handler.rs\<close>, from the calls of the crate \<open>vte\<close> on; Term_Session is \<open>session.rs\<close>
  without the PTY itself; Term_Input is \<open>input/escape_sequences.rs\<close>. Term_Screen states the contract of an operation
  on the grid, Term_Steps proves it for each, Term_Machine lifts it to runs: no operation panics,
  the grid stays well-formed, every changed cell is marked. Term_Deltas and Term_IO conclude that the front end's
  picture is exact and that writes keep their order; Term_Listener treats the handshake between mounts and
  output; Term_Alt, Term_Base64 and Term_Props the alternate screen, the clipboard and single operations.

  \<^bold>\<open>Pane output\<close> (\<open>crates/athena-core/src/output_buffer.rs\<close>). Output_Buffer is the history of the panes; Output_Props
  its accounting and bounds; Output_Stream shows that stripping escape sequences chunk by chunk equals stripping the whole.

  \<^bold>\<open>Store\<close> (\<open>crates/athena-store/src\<close>). Store_Disk models a disk with faults and power loss and \<open>atomic_write\<close> over it,
  Store_Kv the key-value store of \<open>store.rs\<close>; Store_Crash, Store_Props and Store_Race show crash safety, honest outcomes and the
  meaning of the dirty flag between threads. Notification and Kanban (\<open>notification.rs\<close>, \<open>kanban.rs\<close> of
  \<open>athena-core\<close>) are its clients; Notification_Props, Notification_Restart and App_Store show that both survive
  restarts through the one store they share.

  \<^bold>\<open>File API\<close> (\<open>crates/athena-fs/src\<close>). Fs_Path models path validation, listing, reading and writing over a tree with
  symbolic links; Fs_Props shows that nothing escapes the allowed roots.

  \<^bold>\<open>Swarm\<close> (\<open>swarm.rs\<close>). Swarm has the missions, mailboxes and tasks; Swarm_Props atomic updates and delivery; Swarm_Watch the
  registration of watchers as interleaved critical sections.

  \<^bold>\<open>In-band protocols.\<close> Osc_Scan states the interface of a streaming parser of OSC sequences as a locale and proves once that
  chunks do not matter; Shell_Parser and Agent_Lifecycle (\<open>shell_integration_parser.rs\<close>, \<open>agent_lifecycle.rs\<close>)
  interpret it in Shell_Props and Lifecycle_Props; Shell_Tracker is \<open>shell_integration_tracker.rs\<close>.

  \<^bold>\<open>Plugins\<close> (\<open>crates/athena-plugins/src\<close>). Plugin_Validation is \<open>validation.rs\<close>, Plugin_Schema shows it equal to a
  declarative reading of schemas and manifests; Plugin_Manager is \<open>lifecycle.rs\<close> and \<open>runtime.rs\<close>, Plugin_Props its
  invariant over all reachable states, Plugin_Calls the confinement of calls, the health check and configuration; Plugin_Events and
  Plugin_Event_Props are events and discovery.

  \<^bold>\<open>Session store\<close> (\<open>session.rs\<close> and \<open>types.rs\<close> of \<open>crates/athena-store/src\<close>). Store_Files has durable writes and appends over the
  disk of Store_Disk; Session_Log the records and logs of chat sessions, Session_Images the image files, listing and
  deletion; Session_Files what the files of a table of sessions are. Session_Props shows that the store answers as a table
  in memory would, Session_Crash what an interrupted append, the sweep of images and a listing leave; Session_Demo
  has the witnesses and the cases where the comments of the code promise more than it does.

  \<^bold>\<open>Agent activity\<close> (\<open>agent_detection.rs\<close> and \<open>agent_activity.rs\<close> of \<open>crates/athena-core/src\<close>). Agent_Detect has the roster of agents and the
  classification of foreground processes, Agent_History the readers of the agents' own history files with their cache;
  Agent_Activity and Activity_Calls the tracker of what each pane's agent is doing: registration by generation, heartbeats, reports and
  notifications. Activity_Props shows that a turn is called finished only on a signal of that turn, that a
  replaced terminal cannot act and that an acknowledged turn stays cleared; Activity_Notify that notifications keep their
  distance, with runs of the tracker; History_Props that the cache is transparent, that a torn line hides nothing
  and that the newest file is read.

  \<^bold>\<open>Resume scanner\<close> (\<open>crates/athena-resume-scanner/src/lib.rs\<close>). Resume_Scanner finds the command that resumes an agent's session in the
  output of a pane; Resume_Props shows that the search ends with the last valid hint, that the quick test in front of
  it loses nothing and that no hint is reported twice, and which hints the window misses.
  \<^bold>\<open>Chat\<close> (\<open>orchestrator*.rs\<close> and \<open>types.rs\<close> of \<open>crates/athena-core/src\<close>). Chat_Events has the stream events and the coalescer that batches text,
  and shows that batching is invisible but for where text is cut. Chat_Sse splits the bytes of a response into events,
  Chat_Stream runs the rounds of a turn for the protocols of OpenAI and Anthropic with their tool calls; Chat_Stream_Props shows that
  the chunks of the network do not matter and that every tool call is answered. Chat_Url checks the provider's
  address. Chat_Turn is \<open>stream_message\<close> as a whole: the registration of the request, loading the session, the configuration, the
  provider, the auto-save; Chat_Turn_Props shows that a turn ends once on every path and is recorded in the session store.

  \<^bold>\<open>Chat panel\<close> (\<open>frontend/src/stores/athena.rs\<close>, \<open>athena_model.rs\<close>, \<open>components/athena/athena_panel.rs\<close>). Chat_Panel is the state of the panel
  and its handling of events and frames; Chat_Panel_Props composes it with the turn and the coalescer: the panel ends idle with the
  result of the turn.

  \<^bold>\<open>Plans\<close> (\<open>plan_manager.rs\<close>, \<open>plan_tools.rs\<close>). Plan_Manager has the plans and the tools that make, dispatch and evaluate them; Plan_Props shows
  that calls that do not overlap start one agent per step, that overlapping ones can start two, and that an evaluation is applied as a whole or not at all.

  \<^bold>\<open>Agent communication\<close> (\<open>agent_comms.rs\<close>, \<open>agent_comms_connection.rs\<close>, \<open>agent_comms_types.rs\<close>). Comms_Server is the server that agents connect to:
  reading lines, authentication, sessions, requests for input that wait, outbound queues. Comms_Props shows that strangers cannot act, that the
  window knows the sessions, and, over all interleavings of the accesses to the table of requests, that an answer goes to
  the request that it is for; and the races that remain.

  \<^bold>\<open>Bounds and fuel.\<close> Loops are structural recursions or have a measure, with few exceptions: the walk of a path follows at
  most 40 symbolic links, as Linux does, and a listing descends at most \<open>MAX_DEPTH\<close> levels, as the code does; schema validation
  descends at most 64 levels, which is the code's own limit and its measure; a turn has at most 12
  rounds of tools, again the code's limit; the search of the resume
  scanner is a partial function, and that it returns is proved. Counters of 64 bits are words where
  wrap-around could matter (revisions of the store, with fewer than \<open>2 ^ 64\<close> mutations during one write as a named
  hypothesis) and unbounded elsewhere.

  \<^bold>\<open>Not modelled.\<close> Sockets, HTTP, TLS and asynchronous tasks (MCP transport, the
  orchestrator's requests up to the bytes of the answer, and its path without streaming), the programs and platform services that are only called (\<open>git\<close>, web views, the PTY), the contents of shell scripts and prompts,
  Tauri commands that pass arguments on, and the front end, which is DOM code, apart from the state of its chat panel. The byte parser \<open>vte\<close> and \<open>serde_json\<close> are
  third-party: their results are arguments. Log messages and the branches for poisoned locks are left out throughout.
\<close>

end
